(* ===== verification/Prelude.thy ===== *)
theory Prelude
  imports Main "HOL-Library.Word"
begin

unbundle bit_operations_syntax

text \<open>
  The prelude of the development: the machine types of the firmware, the ESP-IDF error
  codes its services return, the little-endian reads and writes they use on byte buffers,
  C strings, and the interfaces (locales) several services share. Services keep their
  statics in a record and are modelled by state passing; a \<^verbatim>\<open>size_t\<close>
  that only indexes a bounded buffer is a \<^typ>\<open>nat\<close>, a counter that can wrap is a word.
\<close>

named_theorems byte_simps \<open>little-endian reads and writes\<close>
named_theorems layout_simps \<open>sizes and offsets of the packed structs\<close>

section \<open>Machine types\<close>

type_synonym u8 = "8 word"
type_synonym u16 = "16 word"
type_synonym u32 = "32 word"
type_synonym bytes = "u8 list"

text \<open>The target is a 32-bit ESP32: \<^verbatim>\<open>SIZE_MAX\<close> and \<^verbatim>\<open>UINT32_MAX\<close>.\<close>

definition SIZE_MAX :: nat where
  "SIZE_MAX = 4294967295"

definition UINT32_MAX :: u32 where
  "UINT32_MAX = 0xFFFFFFFF"

text \<open>The error codes of ESP-IDF that the services return or test for by name; any other
  code a driver may return is \<open>ESP_ERR_OTHER\<close>.\<close>

datatype esp_err =
    ESP_OK
  | ESP_FAIL
  | ESP_ERR_NO_MEM
  | ESP_ERR_INVALID_ARG
  | ESP_ERR_INVALID_STATE
  | ESP_ERR_INVALID_SIZE
  | ESP_ERR_NOT_FOUND
  | ESP_ERR_NOT_SUPPORTED
  | ESP_ERR_TIMEOUT
  | ESP_ERR_INVALID_RESPONSE
  | ESP_ERR_INVALID_CRC
  | ESP_ERR_NOT_FINISHED
  | ESP_ERR_NVS_NOT_FOUND
  | ESP_ERR_OTHER int

section \<open>Little-endian words in byte buffers\<close>

definition u16_bytes :: "u16 \<Rightarrow> bytes" where
  "u16_bytes w = [ucast (w AND 0xFF), ucast (drop_bit 8 w AND 0xFF)]"

definition u32_bytes :: "u32 \<Rightarrow> bytes" where
  "u32_bytes w = [ucast (w AND 0xFF), ucast (drop_bit 8 w AND 0xFF),
                  ucast (drop_bit 16 w AND 0xFF), ucast (drop_bit 24 w AND 0xFF)]"

definition bytes_u16 :: "u8 \<Rightarrow> u8 \<Rightarrow> u16" where
  "bytes_u16 b0 b1 = ucast b0 OR push_bit 8 (ucast b1)"

definition bytes_u32 :: "u8 \<Rightarrow> u8 \<Rightarrow> u8 \<Rightarrow> u8 \<Rightarrow> u32" where
  "bytes_u32 b0 b1 b2 b3 =
     ucast b0 OR push_bit 8 (ucast b1) OR push_bit 16 (ucast b2) OR push_bit 24 (ucast b3)"

lemma length_u16_bytes [simp]: "length (u16_bytes w) = 2"
  by (simp add: u16_bytes_def)

lemma length_u32_bytes [simp]: "length (u32_bytes w) = 4"
  by (simp add: u32_bytes_def)

lemma byte_mask: "(0xFF :: 'a::len word) = mask 8"
  by (simp add: mask_eq_exp_minus_1)

lemma bytes_u16_inverse [byte_simps]:
  "bytes_u16 (ucast (w AND 0xFF)) (ucast (drop_bit 8 w AND 0xFF)) = w"
  unfolding bytes_u16_def byte_mask
  by (rule bit_word_eqI) (auto simp: bit_simps)

lemma bytes_u32_inverse [byte_simps]:
  "bytes_u32 (ucast (w AND 0xFF)) (ucast (drop_bit 8 w AND 0xFF))
     (ucast (drop_bit 16 w AND 0xFF)) (ucast (drop_bit 24 w AND 0xFF)) = w"
proof (rule bit_word_eqI)
  fix n
  assume "n < LENGTH(32)"
  then consider "n < 8" | "8 \<le> n \<and> n < 16" | "16 \<le> n \<and> n < 24" | "24 \<le> n \<and> n < 32"
    by (simp; linarith)
  then show "bit (bytes_u32 (ucast (w AND 0xFF)) (ucast (drop_bit 8 w AND 0xFF))
     (ucast (drop_bit 16 w AND 0xFF)) (ucast (drop_bit 24 w AND 0xFF))) n = bit w n"
    unfolding bytes_u32_def byte_mask by cases (simp_all add: bit_simps, linarith+)
qed

lemma u32_bytes_of_bytes [byte_simps]: "u32_bytes (bytes_u32 a b c d) = [a, b, c, d]"
proof -
  have "ucast (drop_bit 0 (bytes_u32 a b c d) AND 0xFF) = a"
    "ucast (drop_bit 8 (bytes_u32 a b c d) AND 0xFF) = b"
    "ucast (drop_bit 16 (bytes_u32 a b c d) AND 0xFF) = c"
    "ucast (drop_bit 24 (bytes_u32 a b c d) AND 0xFF) = d"
    unfolding bytes_u32_def byte_mask
    by (rule bit_word_eqI; auto simp: bit_simps dest: bit_imp_le_length)+
  then show ?thesis by (simp add: u32_bytes_def)
qed

text \<open>Reads at an offset. Every use in the services is behind a length check; the reads
  themselves are total (they read the bytes that are there).\<close>

definition rd_bytes :: "bytes \<Rightarrow> nat \<Rightarrow> nat \<Rightarrow> bytes" where
  "rd_bytes b off n = take n (drop off b)"

definition rd_u16 :: "bytes \<Rightarrow> nat \<Rightarrow> u16" where
  "rd_u16 b off = (case drop off b of b0 # b1 # _ \<Rightarrow> bytes_u16 b0 b1 | _ \<Rightarrow> 0)"

definition rd_u32 :: "bytes \<Rightarrow> nat \<Rightarrow> u32" where
  "rd_u32 b off = (case drop off b of b0 # b1 # b2 # b3 # _ \<Rightarrow> bytes_u32 b0 b1 b2 b3 | _ \<Rightarrow> 0)"

text \<open>\<^verbatim>\<open>memcpy(buf + off, xs, len)\<close>: the bytes outside the copied window stay.\<close>

definition wr_bytes :: "bytes \<Rightarrow> nat \<Rightarrow> bytes \<Rightarrow> bytes" where
  "wr_bytes b off xs = take off b @ xs @ drop (off + length xs) b"

lemma length_wr_bytes [simp]: "off + length xs \<le> length b \<Longrightarrow> length (wr_bytes b off xs) = length b"
  by (simp add: wr_bytes_def)

lemma length_rd_bytes [simp]: "off + n \<le> length b \<Longrightarrow> length (rd_bytes b off n) = n"
  by (simp add: rd_bytes_def)

lemma rd_wr_bytes: "off + length xs \<le> length b \<Longrightarrow> rd_bytes (wr_bytes b off xs) off (length xs) = xs"
  by (simp add: rd_bytes_def wr_bytes_def)

lemma rd_wr_bytes_disjoint:
  assumes "off + length xs \<le> length b" and "o' + n \<le> off \<or> off + length xs \<le> o'"
  shows "rd_bytes (wr_bytes b off xs) o' n = rd_bytes b o' n"
  using assms
  by (auto simp: rd_bytes_def wr_bytes_def min_def drop_take intro!: arg_cong [where f = "take n"])

lemma rd_u32_nth:
  "off + 4 \<le> length b \<Longrightarrow> rd_u32 b off = bytes_u32 (b ! off) (b ! (off+1)) (b ! (off+2)) (b ! (off+3))"
  by (simp add: rd_u32_def Cons_nth_drop_Suc [symmetric] numeral_eq_Suc)

lemma u32_bytes_rd: "off + 4 \<le> length b \<Longrightarrow> u32_bytes (rd_u32 b off) = rd_bytes b off 4"
  by (simp add: rd_u32_nth byte_simps rd_bytes_def Cons_nth_drop_Suc [symmetric] numeral_eq_Suc)

lemma wr_bytes_restore:
  assumes "off + n \<le> length b" and "length xs = n"
  shows "wr_bytes (wr_bytes b off xs) off (rd_bytes b off n) = b"
proof -
  have "take off b @ take n (drop off b) @ drop n (drop off b) = b"
    by (metis append_take_drop_id)
  moreover have "length b \<le> off \<Longrightarrow> xs = []"
    using assms by (cases xs) auto
  ultimately show ?thesis
    using assms by (auto simp: wr_bytes_def rd_bytes_def min_def add.commute)
qed

lemma wr_bytes_same: "off + n \<le> length b \<Longrightarrow> wr_bytes b off (rd_bytes b off n) = b"
  using wr_bytes_restore [of off n b "rd_bytes b off n"]
  by (simp add: wr_bytes_def rd_bytes_def min_def)

lemma rd_rd_bytes: "k + n \<le> m \<Longrightarrow> rd_bytes (rd_bytes b off m) k n = rd_bytes b (off + k) n"
  by (simp add: rd_bytes_def drop_take add.commute)

lemma rd_u16_append [byte_simps]: "length xs = off \<Longrightarrow> rd_u16 (xs @ u16_bytes w @ ys) off = w"
  by (simp add: rd_u16_def u16_bytes_def byte_simps)

lemma rd_u32_append [byte_simps]: "length xs = off \<Longrightarrow> rd_u32 (xs @ u32_bytes w @ ys) off = w"
  by (simp add: rd_u32_def u32_bytes_def byte_simps)

lemma rd_bytes_append [byte_simps]:
  "length xs = off \<Longrightarrow> length ys = n \<Longrightarrow> rd_bytes (xs @ ys @ zs) off n = ys"
  by (simp add: rd_bytes_def)

lemma rd_skip:
  "length xs \<le> off \<Longrightarrow> rd_bytes (xs @ ys) off n = rd_bytes ys (off - length xs) n"
  "length xs \<le> off \<Longrightarrow> rd_u16 (xs @ ys) off = rd_u16 ys (off - length xs)"
  "length xs \<le> off \<Longrightarrow> rd_u32 (xs @ ys) off = rd_u32 ys (off - length xs)"
  by (simp_all add: rd_bytes_def rd_u16_def rd_u32_def)

lemma rd_here:
  "rd_u16 (u16_bytes v @ ys) 0 = v"
  "rd_u32 (u32_bytes w @ ys) 0 = w"
  "rd_u32 (u32_bytes w) 0 = w"
  "length xs = n \<Longrightarrow> rd_bytes (xs @ ys) 0 n = xs"
  "length xs = n \<Longrightarrow> rd_bytes xs 0 n = xs"
  by (simp_all add: rd_u16_def rd_u32_def rd_bytes_def u16_bytes_def u32_bytes_def byte_simps)

lemmas rd_layout = rd_skip rd_here

section \<open>C strings\<close>

text \<open>
  A \<^verbatim>\<open>char\<close> array holds the string up to its first NUL. A string buffer that a
  service only reads as a string is modelled by that string; \<open>strncpy\<close> with
  \<^verbatim>\<open>sizeof(dst) - 1\<close> into a zero-terminated buffer keeps the first \<open>n\<close> characters.
\<close>

definition cstr :: "bytes \<Rightarrow> bytes" where
  "cstr b = takeWhile (\<lambda>c. c \<noteq> 0) b"

definition c_strncpy :: "nat \<Rightarrow> bytes \<Rightarrow> bytes" where
  "c_strncpy n src = take n (cstr src)"

lemma cstr_no_nul [simp]: "0 \<notin> set (cstr b)"
  by (auto simp: cstr_def dest: set_takeWhileD)

lemma cstr_idem [simp]: "cstr (cstr b) = cstr b"
  by (simp add: cstr_def takeWhile_idem)

lemma cstr_length [simp]: "length (cstr b) \<le> length b"
  by (simp add: cstr_def length_takeWhile_le)

lemma c_strncpy_length: "length (c_strncpy n s) \<le> n"
  by (simp add: c_strncpy_def)

lemma cstr_id: "0 \<notin> set s \<Longrightarrow> cstr s = s"
  by (induction s) (auto simp: cstr_def)

lemma cstr_c_strncpy [simp]: "cstr (c_strncpy n s) = c_strncpy n s"
proof (rule cstr_id)
  show "0 \<notin> set (c_strncpy n s)"
    unfolding c_strncpy_def using cstr_no_nul [of s] by (meson in_set_takeD)
qed

lemma c_strncpy_id: "cstr s = s \<Longrightarrow> length s \<le> n \<Longrightarrow> c_strncpy n s = s"
  by (simp add: c_strncpy_def)

text \<open>A field with a NUL in its last byte is a string that ends inside the field.\<close>

definition terminated :: "bytes \<Rightarrow> bool" where
  "terminated f \<longleftrightarrow> f \<noteq> [] \<and> last f = 0"

lemma terminated_cstr: "terminated f \<Longrightarrow> length (cstr f) < length f"
proof -
  assume t: "terminated f"
  then have "0 \<in> set f" by (metis terminated_def last_in_set)
  then have "dropWhile (\<lambda>c. c \<noteq> 0) f \<noteq> []" by (auto simp: dropWhile_eq_Nil_conv)
  then have "0 < length (dropWhile (\<lambda>c. c \<noteq> 0) f)" by blast
  moreover have "length f = length (cstr f) + length (dropWhile (\<lambda>c. c \<noteq> 0) f)"
    unfolding cstr_def by (metis length_append takeWhile_dropWhile_id)
  ultimately show ?thesis by simp
qed

lemma terminated_rd:
  assumes "off + n \<le> length b" and "0 < n" and "b ! (off + n - 1) = 0"
  shows "terminated (rd_bytes b off n)"
proof -
  have "rd_bytes b off n \<noteq> []" using assms by (auto simp: rd_bytes_def)
  then have "last (rd_bytes b off n) = rd_bytes b off n ! (n - 1)"
    using assms by (simp add: last_conv_nth)
  then show ?thesis
    using assms \<open>rd_bytes b off n \<noteq> []\<close> by (simp add: terminated_def rd_bytes_def)
qed

section \<open>Slot tables\<close>

text \<open>
  A table of slots with an \<^verbatim>\<open>in_use\<close> flag, where a slot is zeroed when it is released, is a
  list of options. \<open>find_slot\<close> is the scan that returns the first slot a test accepts
  (the source returns \<open>-1\<close> for none), \<open>used\<close> the entries in slot order.
\<close>

primrec find_slot :: "('a \<Rightarrow> bool) \<Rightarrow> 'a list \<Rightarrow> nat option" where
  "find_slot P [] = None"
| "find_slot P (x # xs) = (if P x then Some 0 else map_option Suc (find_slot P xs))"

primrec used :: "'a option list \<Rightarrow> 'a list" where
  "used [] = []"
| "used (x # xs) = (case x of None \<Rightarrow> used xs | Some a \<Rightarrow> a # used xs)"

definition slot_key :: "('a \<Rightarrow> 'k) \<Rightarrow> 'k \<Rightarrow> 'a option \<Rightarrow> bool" where
  "slot_key key k x \<longleftrightarrow> (case x of None \<Rightarrow> False | Some a \<Rightarrow> key a = k)"

lemma slot_key_simps [simp]:
  "slot_key key k None = False"
  "slot_key key k (Some a) \<longleftrightarrow> key a = k"
  by (simp_all add: slot_key_def)

lemma slot_keyE: "slot_key key k x \<Longrightarrow> (\<And>a. x = Some a \<Longrightarrow> key a = k \<Longrightarrow> R) \<Longrightarrow> R"
  by (cases x) auto

lemma find_slot_None: "find_slot P xs = None \<longleftrightarrow> (\<forall>x \<in> set xs. \<not> P x)"
  by (induction xs) auto

lemma find_slot_SomeD:
  "find_slot P xs = Some i \<Longrightarrow> i < length xs \<and> P (xs ! i) \<and> (\<forall>j < i. \<not> P (xs ! j))"
proof (induction xs arbitrary: i)
  case (Cons x xs)
  then show ?case
    by (cases i) (auto simp: less_Suc_eq_0_disj split: if_splits)
qed simp

lemma find_slot_exists: "i < length xs \<Longrightarrow> P (xs ! i) \<Longrightarrow> \<exists>j. find_slot P xs = Some j \<and> j \<le> i"
proof (induction xs arbitrary: i)
  case (Cons x xs)
  then show ?case by (cases i) fastforce+
qed simp

lemma set_used: "a \<in> set (used xs) \<longleftrightarrow> Some a \<in> set xs"
  by (induction xs) (auto split: option.split)

lemma used_append [simp]: "used (xs @ ys) = used xs @ used ys"
  by (induction xs) (auto split: option.split)

lemma used_map_Some [simp]: "used (map Some xs) = xs"
  by (induction xs) auto

lemma used_replicate_None [simp]: "used (replicate n None) = []"
  by (induction n) auto

lemma length_used_le: "length (used xs) \<le> length xs"
  by (induction xs) (auto split: option.split)

lemma length_used_fill:
  "i < length xs \<Longrightarrow> xs ! i = None \<Longrightarrow> length (used (xs[i := Some a])) = Suc (length (used xs))"
  by (induction xs arbitrary: i) (auto split: option.split nat.split simp: nth_Cons')

lemma length_used_replace:
  "i < length xs \<Longrightarrow> xs ! i = Some b \<Longrightarrow> length (used (xs[i := Some a])) = length (used xs)"
  by (induction xs arbitrary: i) (auto split: option.split nat.split simp: nth_Cons')

lemma length_used_clear:
  "i < length xs \<Longrightarrow> xs ! i = Some b \<Longrightarrow> Suc (length (used (xs[i := None]))) = length (used xs)"
  by (induction xs arbitrary: i) (auto split: option.split nat.split simp: nth_Cons')

lemma free_slot_exists:
  "length (used xs) < length xs \<Longrightarrow> \<exists>i. find_slot (\<lambda>x. x = None) xs = Some i"
  by (induction xs) (auto split: option.splits)

lemma find_slot_first_free:
  "find_slot (\<lambda>x. x = None) (map Some xs @ None # ys) = Some (length xs)"
  by (induction xs) auto

text \<open>No two used slots have the same key.\<close>

definition slot_keys_unique :: "('a \<Rightarrow> 'k) \<Rightarrow> 'a option list \<Rightarrow> bool" where
  "slot_keys_unique key xs \<longleftrightarrow>
     (\<forall>i < length xs. \<forall>j < length xs. \<forall>a b. xs ! i = Some a \<longrightarrow> xs ! j = Some b \<longrightarrow> key a = key b \<longrightarrow> i = j)"

lemma slot_keys_unique_empty [simp]: "slot_keys_unique key (replicate n None)"
  by (auto simp: slot_keys_unique_def)

lemma slot_keys_unique_fill:
  assumes "slot_keys_unique key xs" and "find_slot (slot_key key (key a)) xs = None"
  shows "slot_keys_unique key (xs[i := Some a])"
proof -
  have "xs ! j = Some b \<Longrightarrow> j < length xs \<Longrightarrow> key b \<noteq> key a" for j b
    using assms(2) nth_mem by (fastforce simp: find_slot_None)
  with assms(1) show ?thesis
    unfolding slot_keys_unique_def
    by (cases "i < length xs") (simp_all add: nth_list_update list_update_beyond, metis option.inject)
qed

lemma slot_keys_unique_replace:
  assumes "slot_keys_unique key xs" and "i < length xs" and "xs ! i = Some b" and "key a = key b"
  shows "slot_keys_unique key (xs[i := Some a])"
  using assms unfolding slot_keys_unique_def
  by (auto simp: nth_list_update split: if_splits)

lemma slot_keys_unique_sub:
  assumes "slot_keys_unique key xs" and "length ys = length xs"
    and "\<And>i a. i < length xs \<Longrightarrow> ys ! i = Some a \<Longrightarrow> xs ! i = Some a"
  shows "slot_keys_unique key ys"
  using assms unfolding slot_keys_unique_def by metis

lemma find_slot_unique:
  assumes "slot_keys_unique key xs" and "i < length xs" and "xs ! i = Some a"
  shows "find_slot (slot_key key (key a)) xs = Some i"
proof -
  obtain j where "find_slot (slot_key key (key a)) xs = Some j"
    using find_slot_exists [of i xs "slot_key key (key a)"] assms by auto
  moreover from find_slot_SomeD [OF this] have "j = i"
    using assms by (auto simp: slot_keys_unique_def elim!: slot_keyE)
  ultimately show ?thesis by simp
qed

text \<open>Updating the entry of a slot, and looking an entry up by its key.\<close>

definition upd_slot :: "nat \<Rightarrow> ('a \<Rightarrow> 'a) \<Rightarrow> 'a option list \<Rightarrow> 'a option list" where
  "upd_slot i f xs = (if i < length xs then xs[i := map_option f (xs ! i)] else xs)"

definition lookup_slot :: "('a \<Rightarrow> 'k) \<Rightarrow> 'k \<Rightarrow> 'a option list \<Rightarrow> 'a option" where
  "lookup_slot key k xs = map_option (\<lambda>i. the (xs ! i)) (find_slot (slot_key key k) xs)"

lemma set_list_update_option: "Some b \<in> set (xs[i := x]) \<Longrightarrow> x = Some b \<or> Some b \<in> set xs"
  by (auto dest: set_update_subset_insert [THEN subsetD])

lemma slot_keys_unique_clear: "slot_keys_unique key xs \<Longrightarrow> slot_keys_unique key (xs[i := None])"
  by (cases "i < length xs"; rule slot_keys_unique_sub [of key xs])
    (auto simp: nth_list_update split: if_splits)

lemma update_None_id: "xs ! i = None \<Longrightarrow> xs[i := None] = xs"
  by (metis list_update_id)

lemma slot_keys_unique_drop:
  "slot_keys_unique key xs \<Longrightarrow> slot_keys_unique key (map (\<lambda>x. if P x then None else x) xs)"
  by (rule slot_keys_unique_sub [of key xs]) (auto split: if_splits)

lemma used_drop_gone:
  "length (used (map (\<lambda>x. if slot_key f k x then None else x) xs)) +
   length (filter (slot_key f k) xs) = length (used xs)"
  by (induction xs) (auto split: option.split)

lemma upd_slot_simps:
  "length (upd_slot i f xs) = length xs"
  "length (used (upd_slot i f xs)) = length (used xs)"
  "upd_slot i f xs ! j = (if i = j \<and> i < length xs then map_option f (xs ! j) else xs ! j)"
proof -
  show "length (used (upd_slot i f xs)) = length (used xs)"
    by (cases "xs ! i") (auto simp: upd_slot_def length_used_replace update_None_id)
qed (auto simp: upd_slot_def nth_list_update)

lemma upd_slot_keys:
  assumes "slot_keys_unique key xs" and "\<And>a. key (f a) = key a"
  shows "slot_keys_unique key (upd_slot i f xs)"
proof -
  have "slot_keys_unique key (xs[i := map_option f (xs ! i)])" if "i < length xs"
    using assms that slot_keys_unique_replace [OF assms(1) that, of _ "f _"]
    by (cases "xs ! i") (auto simp: update_None_id)
  with assms(1) show ?thesis by (simp add: upd_slot_def)
qed

lemma upd_slot_set: "Some b \<in> set (upd_slot i f xs) \<Longrightarrow> Some b \<in> set xs \<or> (\<exists>a. Some a \<in> set xs \<and> b = f a)"
  by (auto simp: upd_slot_def dest!: set_list_update_option split: if_splits)
     (metis nth_mem)


lemma option_eqI: "(\<And>b. x = Some b \<longleftrightarrow> y = Some b) \<Longrightarrow> x = y"
  by (cases x; cases y) auto

lemma lookup_slot_SomeD: "lookup_slot key k xs = Some a \<Longrightarrow> Some a \<in> set xs \<and> key a = k"
  by (auto simp: lookup_slot_def dest!: find_slot_SomeD elim!: slot_keyE dest: nth_mem)

lemma lookup_slot_iff:
  assumes "slot_keys_unique key xs"
  shows "lookup_slot key k xs = Some a \<longleftrightarrow> Some a \<in> set xs \<and> key a = k"
proof
  assume "Some a \<in> set xs \<and> key a = k"
  then obtain i where "i < length xs" "xs ! i = Some a" "key a = k" by (metis in_set_conv_nth)
  with find_slot_unique [OF assms this(1,2)] show "lookup_slot key k xs = Some a"
    by (simp add: lookup_slot_def)
qed (rule lookup_slot_SomeD)

lemma lookup_slot_None: "lookup_slot key k xs = None \<longleftrightarrow> (\<forall>a. Some a \<in> set xs \<longrightarrow> key a \<noteq> k)"
  by (auto simp: lookup_slot_def find_slot_None slot_key_def split: option.splits)

lemma lookup_slot_find: "lookup_slot key k xs = None \<longleftrightarrow> find_slot (slot_key key k) xs = None"
  by (simp add: lookup_slot_def)

lemma lookup_slot_fill:
  assumes "slot_keys_unique key xs" and "find_slot (slot_key key (key a)) xs = None"
    and "i < length xs" and "xs ! i = None"
  shows "lookup_slot key k (xs[i := Some a]) = (if k = key a then Some a else lookup_slot key k xs)"
proof -
  have u: "slot_keys_unique key (xs[i := Some a])"
    using assms(1,2) by (rule slot_keys_unique_fill)
  have mem: "Some b \<in> set (xs[i := Some a]) \<longleftrightarrow> b = a \<or> Some b \<in> set xs" for b
    using assms(3,4) by (auto simp: set_update_memI dest!: set_list_update_option)
      (metis in_set_conv_nth length_list_update nth_list_update_neq option.distinct(1))
  have "lookup_slot key k (xs[i := Some a]) = Some b \<longleftrightarrow>
      (if k = key a then Some a else lookup_slot key k xs) = Some b" for b
    unfolding lookup_slot_iff [OF u] mem
    using lookup_slot_iff [OF assms(1), of k b] assms(2) by (auto simp: find_slot_None)
  then show ?thesis by (rule option_eqI)
qed

lemma lookup_slot_upd:
  assumes "slot_keys_unique key xs" and "\<And>a. key (f a) = key a"
    and "find_slot (slot_key key k) xs = Some i"
  shows "lookup_slot key k' (upd_slot i f xs) =
    (if k' = k then map_option f (lookup_slot key k xs) else lookup_slot key k' xs)"
proof -
  obtain a where a: "i < length xs" "xs ! i = Some a" "key a = k"
    using find_slot_SomeD [OF assms(3)] by (auto elim!: slot_keyE)
  have u: "slot_keys_unique key (upd_slot i f xs)"
    using assms(1,2) by (rule upd_slot_keys)
  show ?thesis
  proof (cases "k' = k")
    case True
    have "upd_slot i f xs ! i = Some (f a)" "i < length (upd_slot i f xs)"
      using a by (simp_all add: upd_slot_simps)
    then have "lookup_slot key (key (f a)) (upd_slot i f xs) = Some (f a)"
      using find_slot_unique [OF u] by (simp add: lookup_slot_def)
    then show ?thesis
      using True a assms(2,3) by (simp add: lookup_slot_def)
  next
    case False
    have "Some b \<in> set (upd_slot i f xs) \<and> key b = k' \<longleftrightarrow> Some b \<in> set xs \<and> key b = k'" for b
      using False a assms(2) by (auto simp: in_set_conv_nth upd_slot_simps) (metis option.inject)
    then have "lookup_slot key k' (upd_slot i f xs) = Some b \<longleftrightarrow> lookup_slot key k' xs = Some b" for b
      by (simp add: lookup_slot_iff [OF u] lookup_slot_iff [OF assms(1)])
    then have "lookup_slot key k' (upd_slot i f xs) = lookup_slot key k' xs"
      by (rule option_eqI)
    with False show ?thesis by simp
  qed
qed

lemma lookup_slot_drop:
  assumes "slot_keys_unique key xs"
  shows "lookup_slot key k (map (\<lambda>x. if P x then None else x) xs) =
    (case lookup_slot key k xs of None \<Rightarrow> None | Some a \<Rightarrow> if P (Some a) then None else Some a)"
proof -
  have u: "slot_keys_unique key (map (\<lambda>x. if P x then None else x) xs)"
    using assms by (rule slot_keys_unique_drop)
  have "Some b \<in> set (map (\<lambda>x. if P x then None else x) xs) \<longleftrightarrow> Some b \<in> set xs \<and> \<not> P (Some b)" for b
    by (force simp: image_iff split: if_splits)
  then have "lookup_slot key k (map (\<lambda>x. if P x then None else x) xs) = Some b \<longleftrightarrow>
      lookup_slot key k xs = Some b \<and> \<not> P (Some b)" for b
    by (auto simp: lookup_slot_iff [OF u] lookup_slot_iff [OF assms])
  then show ?thesis by (intro option_eqI) (auto split: option.split)
qed

section \<open>Counters that never take the value zero\<close>

text \<open>
  Several services number sessions by a \<^verbatim>\<open>uint32_t\<close> that is incremented and
  set back to 1 when it wraps to 0, since 0 is reserved for \<open>no session\<close>.
\<close>

definition bump_nonzero :: "u32 \<Rightarrow> u32" where
  "bump_nonzero g = (let n = g + 1 in if n = 0 then 1 else n)"

lemma bump_nonzero_not_zero [simp]: "bump_nonzero g \<noteq> 0"
  by (simp add: bump_nonzero_def Let_def)

lemma bump_nonzero_changes [simp]: "bump_nonzero g = g \<longleftrightarrow> False"
proof -
  have "g + 1 = 0 \<Longrightarrow> g \<noteq> 1"
    by auto
  then show ?thesis
    by (auto simp: bump_nonzero_def Let_def)
qed

lemma bump_nonzero_twice [simp]: "bump_nonzero (bump_nonzero g) = g \<longleftrightarrow> False"
proof -
  have "g + 2 \<noteq> g" "g + 1 + 1 = g + 2" "g = 1 \<Longrightarrow> g + 1 = 2" "g = 2 \<Longrightarrow> g + 1 \<noteq> 0" "g = 1 \<Longrightarrow> g + 1 \<noteq> 0"
    "g + 1 = 0 \<Longrightarrow> g = 2 \<Longrightarrow> False"
    by (auto simp: add.assoc)
  then show ?thesis
    by (auto simp: bump_nonzero_def Let_def split: if_splits)
qed

section \<open>Shared interfaces\<close>

text \<open>
  A service is driven by a sequence of messages. The client of the interface knows one
  law, that every message keeps the service's invariant; it gets the invariant of every
  state a run reaches.
\<close>

locale event_machine =
  fixes step :: "'s \<Rightarrow> 'e \<Rightarrow> 's"
    and inv :: "'s \<Rightarrow> bool"
  assumes step_inv: "inv s \<Longrightarrow> inv (step s e)"
begin

lemma run_inv: "inv s \<Longrightarrow> inv (foldl step s es)"
  by (induction es arbitrary: s) (auto intro: step_inv)

lemma run_prefix_inv: "inv s \<Longrightarrow> inv (foldl step s (take n es))"
  by (rule run_inv)

end

text \<open>
  A fixed-width codec: what a packed struct promises the code that lays structs out one
  after the other.
\<close>

locale fixed_codec =
  fixes enc :: "'a \<Rightarrow> bytes"
    and dec :: "bytes \<Rightarrow> 'a"
    and width :: nat
    and wf :: "'a \<Rightarrow> bool"
  assumes enc_width: "wf x \<Longrightarrow> length (enc x) = width"
    and dec_enc: "wf x \<Longrightarrow> dec (enc x) = x"
begin

lemma length_concat_enc: "list_all wf xs \<Longrightarrow> length (concat (map enc xs)) = length xs * width"
  by (induction xs) (auto simp: enc_width)

lemma enc_inj: "wf x \<Longrightarrow> wf y \<Longrightarrow> enc x = enc y \<Longrightarrow> x = y"
  by (metis dec_enc)

lemma dec_chunk:
  assumes "list_all wf xs" and "i < length xs"
  shows "dec (rd_bytes (pre @ concat (map enc xs) @ rest) (length pre + i * width) width) = xs ! i"
  using assms
proof (induction xs arbitrary: i pre)
  case Nil
  then show ?case by simp
next
  case (Cons x xs)
  have w: "length (enc x) = width" using Cons.prems by (simp add: enc_width)
  show ?case
  proof (cases i)
    case 0
    with w Cons.prems show ?thesis by (simp add: rd_bytes_def dec_enc)
  next
    case (Suc j)
    have "dec (rd_bytes ((pre @ enc x) @ concat (map enc xs) @ rest)
                        (length (pre @ enc x) + j * width) width) = xs ! j"
      using Cons.prems Suc by (intro Cons.IH) auto
    with Suc w show ?thesis by (simp add: algebra_simps)
  qed
qed

end

text \<open>
  A bounded queue: what the posting tasks and the service that drains it rely on. A full
  queue refuses the element, and elements leave in the order they entered.
\<close>

locale bounded_queue =
  fixes enq :: "'a \<Rightarrow> 'q \<Rightarrow> bool \<times> 'q"
    and deq :: "'q \<Rightarrow> ('a \<times> 'q) option"
    and contents :: "'q \<Rightarrow> 'a list"
    and capacity :: nat
    and merge :: "'a \<Rightarrow> bool"
    and wf :: "'q \<Rightarrow> bool"
  assumes enq_wf: "wf q \<Longrightarrow> wf (snd (enq x q))"
    and deq_wf: "wf q \<Longrightarrow> deq q = Some (x, q') \<Longrightarrow> wf q'"
    and enq_full: "wf q \<Longrightarrow> length (contents q) \<ge> capacity \<Longrightarrow>
          \<not> fst (enq x q) \<and> contents (snd (enq x q)) = contents q"
    and enq_room: "wf q \<Longrightarrow> length (contents q) < capacity \<Longrightarrow> fst (enq x q) \<and>
          contents (snd (enq x q)) =
            (if merge x \<and> x \<in> set (contents q) then contents q else contents q @ [x])"
    and deq_none: "wf q \<Longrightarrow> deq q = None \<longleftrightarrow> contents q = []"
    and deq_some: "wf q \<Longrightarrow> deq q = Some (x, q') \<Longrightarrow> contents q = x # contents q'"
begin

lemma enq_bounded:
  assumes "wf q" and "length (contents q) \<le> capacity"
  shows "length (contents (snd (enq x q))) \<le> capacity"
  using assms enq_full [of q x] enq_room [of q x] by (cases "length (contents q) < capacity") auto

lemma enq_prefix:
  assumes "wf q"
  shows "\<exists>ys. contents (snd (enq x q)) = contents q @ ys"
  using assms enq_full [of q x] enq_room [of q x]
  by (cases "length (contents q) < capacity") (auto simp: not_less)

lemma enq_accepted_in:
  assumes "wf q" and "fst (enq x q)"
  shows "x \<in> set (contents (snd (enq x q)))"
  using assms enq_full [of q x] enq_room [of q x]
  by (cases "length (contents q) < capacity") (auto simp: not_less)

end

end
