(* ===== verification/Formats.thy ===== *)
theory Formats
  imports Prelude
begin

text \<open>
  The on-disk structs of \<^verbatim>\<open>main/jukeboy_formats.h\<close>: the \<^verbatim>\<open>.jba\<close> track
  header, the \<^verbatim>\<open>.jbm\<close> album header and the \<^verbatim>\<open>.jbm\<close> track entry, as records, with
  their packed little-endian layout. A \<^verbatim>\<open>char\<close> array is the list of its bytes.
\<close>

section \<open>Constants\<close>

definition JUKEBOY_JBA_VERSION :: u8 where "JUKEBOY_JBA_VERSION = 1"
definition JUKEBOY_JBA_HEADER_BLOCK_SIZE :: nat where "JUKEBOY_JBA_HEADER_BLOCK_SIZE = 512"
definition JUKEBOY_JBM_VERSION :: u32 where "JUKEBOY_JBM_VERSION = 1"
definition JUKEBOY_MAX_TRACK_FILES :: nat where "JUKEBOY_MAX_TRACK_FILES = 999"
definition JUKEBOY_JBM_FILENAME :: string where "JUKEBOY_JBM_FILENAME = ''album.jbm''"

definition JUKEBOY_JBM_ALBUM_NAME_BYTES :: nat where "JUKEBOY_JBM_ALBUM_NAME_BYTES = 128"
definition JUKEBOY_JBM_ALBUM_DESCRIPTION_BYTES :: nat where
  "JUKEBOY_JBM_ALBUM_DESCRIPTION_BYTES = 1024"
definition JUKEBOY_JBM_ARTIST_BYTES :: nat where "JUKEBOY_JBM_ARTIST_BYTES = 256"
definition JUKEBOY_JBM_GENRE_BYTES :: nat where "JUKEBOY_JBM_GENRE_BYTES = 64"
definition JUKEBOY_JBM_TAG_COUNT :: nat where "JUKEBOY_JBM_TAG_COUNT = 5"
definition JUKEBOY_JBM_TAG_BYTES :: nat where "JUKEBOY_JBM_TAG_BYTES = 32"
definition JUKEBOY_JBM_TRACK_NAME_BYTES :: nat where "JUKEBOY_JBM_TRACK_NAME_BYTES = 128"
definition JUKEBOY_JBM_TRACK_ARTISTS_BYTES :: nat where "JUKEBOY_JBM_TRACK_ARTISTS_BYTES = 256"

definition JBA_HEADER_BYTES :: nat where "JBA_HEADER_BYTES = 9"
definition JBM_HEADER_BYTES :: nat where "JBM_HEADER_BYTES = 1652"
definition JBM_TRACK_ENTRY_BYTES :: nat where "JBM_TRACK_ENTRY_BYTES = 392"

definition JUKEBOY_JBM_MAX_SIZE_BYTES :: nat where
  "JUKEBOY_JBM_MAX_SIZE_BYTES =
     JBM_HEADER_BYTES + JUKEBOY_MAX_TRACK_FILES * JBM_TRACK_ENTRY_BYTES"

lemmas format_consts [layout_simps] =
  JUKEBOY_JBA_HEADER_BLOCK_SIZE_def JUKEBOY_MAX_TRACK_FILES_def
  JUKEBOY_JBM_ALBUM_NAME_BYTES_def JUKEBOY_JBM_ALBUM_DESCRIPTION_BYTES_def
  JUKEBOY_JBM_ARTIST_BYTES_def JUKEBOY_JBM_GENRE_BYTES_def JUKEBOY_JBM_TAG_COUNT_def
  JUKEBOY_JBM_TAG_BYTES_def JUKEBOY_JBM_TRACK_NAME_BYTES_def JUKEBOY_JBM_TRACK_ARTISTS_BYTES_def
  JBA_HEADER_BYTES_def JBM_HEADER_BYTES_def JBM_TRACK_ENTRY_BYTES_def
  JUKEBOY_JBM_MAX_SIZE_BYTES_def

section \<open>The structs\<close>

record jba_header =
  ja_version :: u8
  ja_header_len_in_blocks :: u32
  ja_lookup_table_len :: u32

record jbm_header =
  jh_version :: u32
  jh_checksum :: u32
  jh_album_name :: bytes
  jh_album_description :: bytes
  jh_artist :: bytes
  jh_year :: u32
  jh_duration_sec :: u32
  jh_genre :: bytes
  jh_tag :: "bytes list"
  jh_track_count :: u32

record jbm_track =
  jt_track_name :: bytes
  jt_artists :: bytes
  jt_duration_sec :: u32
  jt_file_num :: u32

definition jbm_header_wf :: "jbm_header \<Rightarrow> bool" where
  "jbm_header_wf h \<longleftrightarrow>
     length (jh_album_name h) = JUKEBOY_JBM_ALBUM_NAME_BYTES \<and>
     length (jh_album_description h) = JUKEBOY_JBM_ALBUM_DESCRIPTION_BYTES \<and>
     length (jh_artist h) = JUKEBOY_JBM_ARTIST_BYTES \<and>
     length (jh_genre h) = JUKEBOY_JBM_GENRE_BYTES \<and>
     length (jh_tag h) = JUKEBOY_JBM_TAG_COUNT \<and>
     list_all (\<lambda>t. length t = JUKEBOY_JBM_TAG_BYTES) (jh_tag h)"

definition jbm_track_wf :: "jbm_track \<Rightarrow> bool" where
  "jbm_track_wf t \<longleftrightarrow>
     length (jt_track_name t) = JUKEBOY_JBM_TRACK_NAME_BYTES \<and>
     length (jt_artists t) = JUKEBOY_JBM_TRACK_ARTISTS_BYTES"

text \<open>The all-zero structs, as \<^verbatim>\<open>memset\<close> leaves them.\<close>

definition jbm_header_zero :: jbm_header where
  "jbm_header_zero = \<lparr>jh_version = 0, jh_checksum = 0,
     jh_album_name = replicate JUKEBOY_JBM_ALBUM_NAME_BYTES 0,
     jh_album_description = replicate JUKEBOY_JBM_ALBUM_DESCRIPTION_BYTES 0,
     jh_artist = replicate JUKEBOY_JBM_ARTIST_BYTES 0, jh_year = 0, jh_duration_sec = 0,
     jh_genre = replicate JUKEBOY_JBM_GENRE_BYTES 0,
     jh_tag = replicate JUKEBOY_JBM_TAG_COUNT (replicate JUKEBOY_JBM_TAG_BYTES 0),
     jh_track_count = 0\<rparr>"

definition jbm_track_zero :: jbm_track where
  "jbm_track_zero = \<lparr>jt_track_name = replicate JUKEBOY_JBM_TRACK_NAME_BYTES 0,
     jt_artists = replicate JUKEBOY_JBM_TRACK_ARTISTS_BYTES 0, jt_duration_sec = 0,
     jt_file_num = 0\<rparr>"

text \<open>The payload of the player's track events (\<^verbatim>\<open>main/player_service.h\<close>).\<close>

record player_service_track_event =
  te_cartridge_checksum :: u32
  te_track_index :: u32
  te_track_file_num :: u32
  te_started_at_unix :: u32
  te_playback_position_sec :: u32
  te_filename :: string

section \<open>Layout\<close>

definition dec_jba_header :: "bytes \<Rightarrow> jba_header" where
  "dec_jba_header b = \<lparr>ja_version = (case b of [] \<Rightarrow> 0 | v # _ \<Rightarrow> v),
     ja_header_len_in_blocks = rd_u32 b 1, ja_lookup_table_len = rd_u32 b 5\<rparr>"

definition enc_jbm_header :: "jbm_header \<Rightarrow> bytes" where
  "enc_jbm_header h = u32_bytes (jh_version h) @ u32_bytes (jh_checksum h) @ jh_album_name h @
     jh_album_description h @ jh_artist h @ u32_bytes (jh_year h) @ u32_bytes (jh_duration_sec h) @
     jh_genre h @ concat (jh_tag h) @ u32_bytes (jh_track_count h)"

definition dec_jbm_header :: "bytes \<Rightarrow> jbm_header" where
  "dec_jbm_header b = \<lparr>jh_version = rd_u32 b 0, jh_checksum = rd_u32 b 4,
     jh_album_name = rd_bytes b 8 128, jh_album_description = rd_bytes b 136 1024,
     jh_artist = rd_bytes b 1160 256, jh_year = rd_u32 b 1416, jh_duration_sec = rd_u32 b 1420,
     jh_genre = rd_bytes b 1424 64,
     jh_tag = [rd_bytes b 1488 32, rd_bytes b 1520 32, rd_bytes b 1552 32, rd_bytes b 1584 32,
               rd_bytes b 1616 32],
     jh_track_count = rd_u32 b 1648\<rparr>"

definition enc_jbm_track :: "jbm_track \<Rightarrow> bytes" where
  "enc_jbm_track t = jt_track_name t @ jt_artists t @ u32_bytes (jt_duration_sec t) @
     u32_bytes (jt_file_num t)"

definition dec_jbm_track :: "bytes \<Rightarrow> jbm_track" where
  "dec_jbm_track b = \<lparr>jt_track_name = rd_bytes b 0 128, jt_artists = rd_bytes b 128 256,
     jt_duration_sec = rd_u32 b 384, jt_file_num = rd_u32 b 388\<rparr>"

lemma list5_split:
  assumes "length xs = 5"
  obtains a b c d e where "xs = [a, b, c, d, e]"
proof -
  obtain a xs1 where "xs = a # xs1" using assms by (cases xs) auto
  moreover obtain b xs2 where "xs1 = b # xs2" using assms calculation by (cases xs1) auto
  moreover obtain c xs3 where "xs2 = c # xs3" using assms calculation by (cases xs2) auto
  moreover obtain d xs4 where "xs3 = d # xs4" using assms calculation by (cases xs3) auto
  moreover obtain e where "xs4 = [e]" using assms calculation by (cases xs4) auto
  ultimately show ?thesis using that by simp
qed

lemma length_enc_jbm_header:
  assumes "jbm_header_wf h"
  shows "length (enc_jbm_header h) = JBM_HEADER_BYTES"
proof -
  obtain a b c d e where "jh_tag h = [a, b, c, d, e]"
    using assms by (auto simp: jbm_header_wf_def layout_simps elim: list5_split)
  then show ?thesis
    using assms by (simp add: jbm_header_wf_def enc_jbm_header_def layout_simps)
qed

lemma length_enc_jbm_track: "jbm_track_wf t \<Longrightarrow> length (enc_jbm_track t) = JBM_TRACK_ENTRY_BYTES"
  by (simp add: jbm_track_wf_def enc_jbm_track_def layout_simps)

lemma dec_enc_jbm_header: "jbm_header_wf h \<Longrightarrow> dec_jbm_header (enc_jbm_header h) = h"
proof -
  assume wf: "jbm_header_wf h"
  then obtain a b c d e where t: "jh_tag h = [a, b, c, d, e]"
    by (auto simp: jbm_header_wf_def layout_simps elim: list5_split)
  show ?thesis
    using wf t by (cases h) (simp add: jbm_header_wf_def dec_jbm_header_def enc_jbm_header_def
        layout_simps rd_layout)
qed

lemma dec_enc_jbm_track: "jbm_track_wf t \<Longrightarrow> dec_jbm_track (enc_jbm_track t) = t"
  by (cases t) (simp add: jbm_track_wf_def dec_jbm_track_def enc_jbm_track_def layout_simps rd_layout)

interpretation jbm_track_codec: fixed_codec enc_jbm_track dec_jbm_track JBM_TRACK_ENTRY_BYTES
    jbm_track_wf
  by unfold_locales (simp_all add: length_enc_jbm_track dec_enc_jbm_track)

interpretation jbm_header_codec: fixed_codec enc_jbm_header dec_jbm_header JBM_HEADER_BYTES
    jbm_header_wf
  by unfold_locales (simp_all add: length_enc_jbm_header dec_enc_jbm_header)

lemma jbm_header_wf_zero [simp]: "jbm_header_wf jbm_header_zero"
  by (simp add: jbm_header_wf_def jbm_header_zero_def layout_simps list_all_length)

lemma jbm_track_wf_zero [simp]: "jbm_track_wf jbm_track_zero"
  by (simp add: jbm_track_wf_def jbm_track_zero_def)

lemma jbm_header_wf_dec: "length b = JBM_HEADER_BYTES \<Longrightarrow> jbm_header_wf (dec_jbm_header b)"
  by (simp add: jbm_header_wf_def dec_jbm_header_def layout_simps)

lemma jbm_track_wf_dec: "length b = JBM_TRACK_ENTRY_BYTES \<Longrightarrow> jbm_track_wf (dec_jbm_track b)"
  by (simp add: jbm_track_wf_def dec_jbm_track_def layout_simps)

section \<open>The interface of a metadata source\<close>

definition header_terminated :: "jbm_header \<Rightarrow> bool" where
  "header_terminated h \<longleftrightarrow> terminated (jh_album_name h) \<and> terminated (jh_album_description h) \<and>
     terminated (jh_artist h) \<and> terminated (jh_genre h) \<and> list_all terminated (jh_tag h)"

definition track_terminated :: "jbm_track \<Rightarrow> bool" where
  "track_terminated t \<longleftrightarrow> terminated (jt_track_name t) \<and> terminated (jt_artists t)"

text \<open>
  What the player and the play history rely on when they read album metadata: a track
  exists exactly below the count, the structs have their fixed sizes, and every string
  field ends inside its array.
\<close>

locale metadata_provider =
  fixes inv :: "'s \<Rightarrow> bool"
    and header :: "'s \<Rightarrow> jbm_header option"
    and count :: "'s \<Rightarrow> nat"
    and track :: "nat \<Rightarrow> 's \<Rightarrow> jbm_track option"
  assumes count_none: "header s = None \<Longrightarrow> count s = 0"
    and count_max: "inv s \<Longrightarrow> count s \<le> JUKEBOY_MAX_TRACK_FILES"
    and header_ok: "inv s \<Longrightarrow> header s = Some h \<Longrightarrow> jbm_header_wf h \<and> header_terminated h"
    and track_defined: "inv s \<Longrightarrow> track i s \<noteq> None \<longleftrightarrow> i < count s"
    and track_ok: "inv s \<Longrightarrow> track i s = Some t \<Longrightarrow> jbm_track_wf t \<and> track_terminated t"
begin

text \<open>The tracks a client sees when it walks all indexes below the count.\<close>

lemma tracks_wf:
  assumes "inv s"
  shows "list_all jbm_track_wf (map (\<lambda>i. the (track i s)) [0..<count s])"
proof -
  have "jbm_track_wf (the (track i s))" if "i < count s" for i
    using that assms track_defined [of s i] track_ok [of s i] by auto
  then show ?thesis by (simp add: list_all_iff)
qed

lemma track_case:
  assumes "inv s"
  shows "case track i s of None \<Rightarrow> count s \<le> i
         | Some t \<Rightarrow> i < count s \<and> jbm_track_wf t \<and> track_terminated t"
  using track_defined [OF assms, of i] track_ok [OF assms, of i] by (auto split: option.split)

lemma track_needs_header: "inv s \<Longrightarrow> track i s = Some t \<Longrightarrow> header s \<noteq> None"
  using track_defined [of s i] count_none [of s] by auto

end

end
