(* ===== verification/Cartridge.thy ===== *)
theory Cartridge
  imports Formats
begin

text \<open>
  The cartridge service, \<^verbatim>\<open>main/cartridge_service.c\<close>: the mount state of the SD card, the
  album metadata loaded from \<^verbatim>\<open>album.jbm\<close> and its validation, and the reader task with its
  two read buffers. The SD driver, the file system and the CRC routine are arguments
  (\<open>cart_env\<close>, \<open>crc\<close>). The metadata pointers \<^verbatim>\<open>s_metadata_blob\<close>,
  \<^verbatim>\<open>s_metadata_header\<close> and \<^verbatim>\<open>s_metadata_tracks\<close> are set and cleared together: they are
  one optional blob.
\<close>

section \<open>State\<close>

datatype cartridge_status =
    CARTRIDGE_STATUS_EMPTY
  | CARTRIDGE_STATUS_READY
  | CARTRIDGE_STATUS_INVALID

datatype cartridge_event =
    CARTRIDGE_SVC_EVENT_STARTED
  | CARTRIDGE_SVC_EVENT_INSERTED
  | CARTRIDGE_SVC_EVENT_MOUNTED
  | CARTRIDGE_SVC_EVENT_UNMOUNTED

definition CARTRIDGE_SERVICE_READ_BUF_SIZE :: nat where
  "CARTRIDGE_SERVICE_READ_BUF_SIZE = 64 * 1024"

record cart_read_request =
  rq_filename :: string
  rq_offset :: nat
  rq_generation :: u32
  rq_notify_task :: bool

record cart_state =
  cs_mount_point :: string
  cs_initialised :: bool
  cs_mounted :: bool
  cs_card :: bool
  cs_status :: cartridge_status
  cs_state_mutex :: bool
  cs_metadata :: "bytes option"
  cs_mount_generation :: u32
  cs_read_buf :: "bytes list"
  cs_buf_index :: nat
  cs_open_file :: "string option"
  cs_open_filename :: string
  cs_result_data :: "nat option"
  cs_result_len :: nat
  cs_result_status :: esp_err
  cs_read_queue :: "cart_read_request list option"
  cs_reader_task :: bool
  cs_events :: "cartridge_event list"

text \<open>An open file of the C library: whether the seeks succeed, what \<open>ftell\<close> says at the
  end, and what \<open>fread\<close> of at most \<open>n\<close> bytes returns.\<close>

record meta_file =
  mf_seek_end_ok :: bool
  mf_size :: int
  mf_seek_set_ok :: bool
  mf_read :: "nat \<Rightarrow> bytes"

record cart_env =
  ce_mutex_ok :: bool
  ce_queue_ok :: bool
  ce_task_ok :: bool
  ce_in_qemu :: bool
  ce_sd_mount :: "bool \<Rightarrow> esp_err"
  ce_fopen_meta :: "string \<Rightarrow> meta_file option"
  ce_fopen_ok :: "string \<Rightarrow> bool"
  ce_fseek_ok :: "string \<Rightarrow> nat \<Rightarrow> bool"
  ce_fread :: "string \<Rightarrow> nat \<Rightarrow> nat \<Rightarrow> bytes"

text \<open>The statics before \<^verbatim>\<open>cartridge_service_init\<close>.\<close>

definition cart_boot :: cart_state where
  "cart_boot = \<lparr>cs_mount_point = '''', cs_initialised = False, cs_mounted = False,
     cs_card = False, cs_status = CARTRIDGE_STATUS_EMPTY, cs_state_mutex = False,
     cs_metadata = None, cs_mount_generation = 1,
     cs_read_buf = replicate 2 (replicate CARTRIDGE_SERVICE_READ_BUF_SIZE 0), cs_buf_index = 0,
     cs_open_file = None, cs_open_filename = '''', cs_result_data = None, cs_result_len = 0,
     cs_result_status = ESP_ERR_NOT_FINISHED, cs_read_queue = None, cs_reader_task = False,
     cs_events = []\<rparr>"

section \<open>Metadata validation\<close>

text \<open>\<^verbatim>\<open>field[N - 1] = 0\<close> at the offset of the field's last byte, for the header's strings,
  the five tags and both strings of every track.\<close>

definition sanitize_offsets :: "nat \<Rightarrow> nat list" where
  "sanitize_offsets track_count =
     [8 + JUKEBOY_JBM_ALBUM_NAME_BYTES - 1,
      136 + JUKEBOY_JBM_ALBUM_DESCRIPTION_BYTES - 1,
      1160 + JUKEBOY_JBM_ARTIST_BYTES - 1,
      1424 + JUKEBOY_JBM_GENRE_BYTES - 1] @
     map (\<lambda>i. 1488 + i * JUKEBOY_JBM_TAG_BYTES + JUKEBOY_JBM_TAG_BYTES - 1)
       [0..<JUKEBOY_JBM_TAG_COUNT] @
     concat (map (\<lambda>i.
       [JBM_HEADER_BYTES + i * JBM_TRACK_ENTRY_BYTES + JUKEBOY_JBM_TRACK_NAME_BYTES - 1,
        JBM_HEADER_BYTES + i * JBM_TRACK_ENTRY_BYTES + JUKEBOY_JBM_TRACK_NAME_BYTES +
          JUKEBOY_JBM_TRACK_ARTISTS_BYTES - 1])
       [0..<track_count])"

definition cartridge_service_sanitize_metadata_strings :: "bytes \<Rightarrow> bytes" where
  "cartridge_service_sanitize_metadata_strings blob =
     foldl (\<lambda>b off. b[off := 0]) blob (sanitize_offsets (unat (rd_u32 blob 1648)))"

definition cartridge_service_validate_metadata ::
    "(bytes \<Rightarrow> u32) \<Rightarrow> bytes \<Rightarrow> esp_err \<times> bytes" where
  "cartridge_service_validate_metadata crc blob =
     (if length blob < JBM_HEADER_BYTES then (ESP_ERR_INVALID_SIZE, blob)
      else if rd_u32 blob 0 \<noteq> JUKEBOY_JBM_VERSION then (ESP_ERR_NOT_SUPPORTED, blob)
      else if unat (rd_u32 blob 1648) > JUKEBOY_MAX_TRACK_FILES then (ESP_ERR_INVALID_SIZE, blob)
      else
        let expected_size = JBM_HEADER_BYTES + unat (rd_u32 blob 1648) * JBM_TRACK_ENTRY_BYTES in
        if length blob \<noteq> expected_size then (ESP_ERR_INVALID_SIZE, blob)
        else
          let stored_checksum = rd_u32 blob 4;
              zeroed = wr_bytes blob 4 (u32_bytes 0);
              computed_checksum = crc zeroed;
              restored = wr_bytes zeroed 4 (u32_bytes stored_checksum) in
          if computed_checksum \<noteq> stored_checksum then (ESP_ERR_INVALID_CRC, restored)
          else (ESP_OK, cartridge_service_sanitize_metadata_strings restored))"

section \<open>Operations\<close>

definition cartridge_service_close_file_locked :: "cart_state \<Rightarrow> cart_state" where
  "cartridge_service_close_file_locked s = s\<lparr>cs_open_file := None, cs_open_filename := ''''\<rparr>"

definition cartridge_service_set_status :: "cartridge_status \<Rightarrow> cart_state \<Rightarrow> cart_state" where
  "cartridge_service_set_status st s = s\<lparr>cs_status := st\<rparr>"

definition cartridge_service_free_metadata :: "cart_state \<Rightarrow> cart_state" where
  "cartridge_service_free_metadata s = s\<lparr>cs_metadata := None\<rparr>"

definition cartridge_service_post_event :: "cartridge_event \<Rightarrow> cart_state \<Rightarrow> cart_state" where
  "cartridge_service_post_event ev s = s\<lparr>cs_events := cs_events s @ [ev]\<rparr>"

text \<open>\<^verbatim>\<open>snprintf(full_path, 320, ...)\<close> keeps at most 319 characters.\<close>

definition cart_full_path :: "string \<Rightarrow> string \<Rightarrow> string" where
  "cart_full_path mount_point name = take 319 (mount_point @ ''/'' @ name)"

definition cartridge_service_load_metadata ::
    "cart_env \<Rightarrow> (bytes \<Rightarrow> u32) \<Rightarrow> cart_state \<Rightarrow> esp_err \<times> cart_state" where
  "cartridge_service_load_metadata env crc s0 =
     (let s = cartridge_service_free_metadata s0;
          invalid = cartridge_service_set_status CARTRIDGE_STATUS_INVALID s in
      if \<not> cs_mounted s then
        (ESP_ERR_INVALID_STATE, cartridge_service_set_status CARTRIDGE_STATUS_EMPTY s)
      else case ce_fopen_meta env (cart_full_path (cs_mount_point s) JUKEBOY_JBM_FILENAME) of
        None \<Rightarrow> (ESP_ERR_NOT_FOUND, invalid)
      | Some f \<Rightarrow>
          if \<not> mf_seek_end_ok f then (ESP_FAIL, invalid)
          else if mf_size f \<le> 0 \<or> nat (mf_size f) > JUKEBOY_JBM_MAX_SIZE_BYTES
            then (ESP_ERR_INVALID_SIZE, invalid)
          else if \<not> mf_seek_set_ok f then (ESP_FAIL, invalid)
          else
            let blob = mf_read f (nat (mf_size f)) in
            if length blob \<noteq> nat (mf_size f) then (ESP_FAIL, invalid)
            else
              let (err, blob') = cartridge_service_validate_metadata crc blob in
              if err \<noteq> ESP_OK then (err, invalid)
              else (ESP_OK, cartridge_service_set_status CARTRIDGE_STATUS_READY
                      (s\<lparr>cs_metadata := Some blob'\<rparr>)))"

definition cartridge_service_is_inserted :: "cart_state \<Rightarrow> bool" where
  "cartridge_service_is_inserted s = True"

definition cartridge_service_mount ::
    "cart_env \<Rightarrow> (bytes \<Rightarrow> u32) \<Rightarrow> cart_state \<Rightarrow> esp_err \<times> cart_state" where
  "cartridge_service_mount env crc s =
     (if \<not> cs_initialised s then (ESP_ERR_INVALID_STATE, s)
      else if cs_mounted s then (ESP_OK, snd (cartridge_service_load_metadata env crc s))
      else
        let ret = ce_sd_mount env (ce_in_qemu env) in
        if ret \<noteq> ESP_OK then (ret, s\<lparr>cs_card := False\<rparr>)
        else
          let s1 = s\<lparr>cs_card := True, cs_mounted := True,
                     cs_mount_generation := bump_nonzero (cs_mount_generation s)\<rparr>;
              s2 = snd (cartridge_service_load_metadata env crc s1) in
          (ESP_OK, cartridge_service_post_event CARTRIDGE_SVC_EVENT_MOUNTED s2))"

definition cartridge_service_unmount :: "cart_state \<Rightarrow> esp_err \<times> cart_state" where
  "cartridge_service_unmount s =
     (if \<not> cs_mounted s then (ESP_OK, s)
      else
        let s1 = cartridge_service_free_metadata (cartridge_service_close_file_locked s);
            s2 = s1\<lparr>cs_card := False, cs_mounted := False,
                    cs_mount_generation := bump_nonzero (cs_mount_generation s1)\<rparr>;
            s3 = cartridge_service_set_status CARTRIDGE_STATUS_EMPTY s2 in
        (ESP_OK, cartridge_service_post_event CARTRIDGE_SVC_EVENT_UNMOUNTED s3))"

definition cartridge_service_init ::
    "cart_env \<Rightarrow> (bytes \<Rightarrow> u32) \<Rightarrow> string option \<Rightarrow> cart_state \<Rightarrow> esp_err \<times> cart_state" where
  "cartridge_service_init env crc config s0 =
     (case config of None \<Rightarrow> (ESP_ERR_INVALID_ARG, s0)
      | Some mount_point \<Rightarrow>
          let s1 = s0\<lparr>cs_mount_point := mount_point, cs_initialised := True\<rparr> in
          if \<not> cs_state_mutex s1 \<and> \<not> ce_mutex_ok env then (ESP_ERR_NO_MEM, s1)
          else
            let s2 = s1\<lparr>cs_state_mutex := True\<rparr> in
            if cs_read_queue s2 = None \<and> \<not> ce_queue_ok env then (ESP_ERR_NO_MEM, s2)
            else
              let s3 = (if cs_read_queue s2 = None then s2\<lparr>cs_read_queue := Some []\<rparr> else s2) in
              if \<not> cs_reader_task s3 \<and> \<not> ce_task_ok env then (ESP_ERR_NO_MEM, s3)
              else
                let s4 = s3\<lparr>cs_reader_task := True\<rparr>;
                    s5 = cartridge_service_post_event CARTRIDGE_SVC_EVENT_STARTED s4;
                    s6 = cartridge_service_set_status CARTRIDGE_STATUS_EMPTY s5 in
                if cartridge_service_is_inserted s6 then
                  let (err, s7) = cartridge_service_mount env crc s6;
                      s8 = (if err \<noteq> ESP_OK
                            then cartridge_service_set_status CARTRIDGE_STATUS_INVALID s7
                            else s7) in
                  (ESP_OK, cartridge_service_post_event CARTRIDGE_SVC_EVENT_INSERTED s8)
                else (ESP_OK, s6))"

section \<open>Asynchronous reads\<close>

definition cartridge_service_read_chunk_async ::
    "string option \<Rightarrow> nat \<Rightarrow> bool \<Rightarrow> cart_state \<Rightarrow> esp_err \<times> cart_state" where
  "cartridge_service_read_chunk_async filename offset notify_task s =
     (case filename of None \<Rightarrow> (ESP_ERR_INVALID_ARG, s)
      | Some name \<Rightarrow>
          if \<not> notify_task then (ESP_ERR_INVALID_ARG, s)
          else if \<not> cs_mounted s then (ESP_ERR_INVALID_STATE, s)
          else case cs_read_queue s of None \<Rightarrow> (ESP_ERR_INVALID_STATE, s)
          | Some q \<Rightarrow>
              let req = \<lparr>rq_filename = take 255 name, rq_offset = offset,
                         rq_generation = cs_mount_generation s, rq_notify_task = notify_task\<rparr> in
              if length q \<ge> 1 then (ESP_ERR_INVALID_STATE, s)
              else (ESP_OK, s\<lparr>cs_read_queue := Some (q @ [req])\<rparr>))"

text \<open>What the caller reads through the returned pointer and length.\<close>

definition cartridge_service_get_read_result ::
    "bool \<Rightarrow> bool \<Rightarrow> cart_state \<Rightarrow> esp_err \<times> bytes option" where
  "cartridge_service_get_read_result out_data out_len s =
     (if \<not> out_data \<or> \<not> out_len then (ESP_ERR_INVALID_ARG, None)
      else (cs_result_status s,
            map_option (\<lambda>i. take (cs_result_len s) (cs_read_buf s ! i)) (cs_result_data s)))"

definition cartridge_service_close_file :: "cart_state \<Rightarrow> cart_state" where
  "cartridge_service_close_file s = cartridge_service_close_file_locked s"

definition cart_set_result :: "nat option \<Rightarrow> nat \<Rightarrow> esp_err \<Rightarrow> cart_state \<Rightarrow> cart_state" where
  "cart_set_result data len status s =
     s\<lparr>cs_result_data := data, cs_result_len := len, cs_result_status := status\<rparr>"

text \<open>One pass of the reader task's loop for a request it received. Every branch ends with
  the notification of the requesting task.\<close>

definition cartridge_reader_serve :: "cart_env \<Rightarrow> cart_read_request \<Rightarrow> cart_state \<Rightarrow> cart_state" where
  "cartridge_reader_serve env req s0 =
     (if \<not> cs_mounted s0 \<or> rq_generation req \<noteq> cs_mount_generation s0
      then cart_set_result None 0 ESP_ERR_INVALID_STATE s0
      else
        let s1 = (if cs_open_file s0 \<noteq> None \<and> cs_open_filename s0 \<noteq> rq_filename req
                  then cartridge_service_close_file_locked s0 else s0);
            path = cart_full_path (cs_mount_point s1) (rq_filename req) in
        if cs_open_file s1 = None \<and> \<not> ce_fopen_ok env path
        then cart_set_result None 0 ESP_ERR_NOT_FOUND s1
        else
          let s2 = (if cs_open_file s1 = None
                    then s1\<lparr>cs_open_file := Some path, cs_open_filename := take 255 (rq_filename req)\<rparr>
                    else s1);
              handle = the (cs_open_file s2);
              buf = cs_buf_index s2;
              s3 = s2\<lparr>cs_buf_index := 1 - buf\<rparr> in
          if \<not> ce_fseek_ok env handle (rq_offset req)
          then cart_set_result (Some buf) 0 ESP_FAIL s3
          else
            let data = take CARTRIDGE_SERVICE_READ_BUF_SIZE
                         (ce_fread env handle (rq_offset req) CARTRIDGE_SERVICE_READ_BUF_SIZE);
                s4 = s3\<lparr>cs_read_buf := (cs_read_buf s3)[buf := wr_bytes (cs_read_buf s3 ! buf) 0 data]\<rparr>
            in cart_set_result (Some buf) (length data) ESP_OK s4)"

definition cartridge_reader_task :: "cart_env \<Rightarrow> cart_state \<Rightarrow> bool \<times> cart_state" where
  "cartridge_reader_task env s =
     (case cs_read_queue s of
        None \<Rightarrow> (False, s)
      | Some [] \<Rightarrow> (False, s)
      | Some (req # rest) \<Rightarrow>
          (rq_notify_task req, cartridge_reader_serve env req (s\<lparr>cs_read_queue := Some rest\<rparr>)))"

section \<open>Queries\<close>

definition cartridge_service_get_mount_point :: "cart_state \<Rightarrow> string" where
  "cartridge_service_get_mount_point s = cs_mount_point s"

definition cartridge_service_is_mounted :: "cart_state \<Rightarrow> bool" where
  "cartridge_service_is_mounted s = cs_mounted s"

definition cartridge_service_get_status :: "cart_state \<Rightarrow> cartridge_status" where
  "cartridge_service_get_status s = cs_status s"

fun cartridge_service_status_name :: "cartridge_status \<Rightarrow> string" where
  "cartridge_service_status_name CARTRIDGE_STATUS_EMPTY = ''empty''"
| "cartridge_service_status_name CARTRIDGE_STATUS_READY = ''ready''"
| "cartridge_service_status_name CARTRIDGE_STATUS_INVALID = ''invalid''"

definition cartridge_service_get_metadata_header :: "cart_state \<Rightarrow> jbm_header option" where
  "cartridge_service_get_metadata_header s = map_option dec_jbm_header (cs_metadata s)"

definition cartridge_service_get_metadata_version :: "cart_state \<Rightarrow> u32" where
  "cartridge_service_get_metadata_version s =
     (case cartridge_service_get_metadata_header s of None \<Rightarrow> 0 | Some h \<Rightarrow> jh_version h)"

definition cartridge_service_get_metadata_checksum :: "cart_state \<Rightarrow> u32" where
  "cartridge_service_get_metadata_checksum s =
     (case cartridge_service_get_metadata_header s of None \<Rightarrow> 0 | Some h \<Rightarrow> jh_checksum h)"

definition cartridge_service_get_metadata_track_count :: "cart_state \<Rightarrow> nat" where
  "cartridge_service_get_metadata_track_count s =
     (case cartridge_service_get_metadata_header s of None \<Rightarrow> 0 | Some h \<Rightarrow> unat (jh_track_count h))"

definition cartridge_service_get_metadata_track :: "nat \<Rightarrow> cart_state \<Rightarrow> jbm_track option" where
  "cartridge_service_get_metadata_track index s =
     (case cs_metadata s of None \<Rightarrow> None
      | Some blob \<Rightarrow>
          if index \<ge> unat (jh_track_count (dec_jbm_header blob)) then None
          else Some (dec_jbm_track (rd_bytes blob (JBM_HEADER_BYTES + index * JBM_TRACK_ENTRY_BYTES)
                                      JBM_TRACK_ENTRY_BYTES)))"

definition cartridge_service_get_album_name :: "cart_state \<Rightarrow> bytes option" where
  "cartridge_service_get_album_name s =
     map_option jh_album_name (cartridge_service_get_metadata_header s)"

definition cartridge_service_get_album_description :: "cart_state \<Rightarrow> bytes option" where
  "cartridge_service_get_album_description s =
     map_option jh_album_description (cartridge_service_get_metadata_header s)"

definition cartridge_service_get_album_artist :: "cart_state \<Rightarrow> bytes option" where
  "cartridge_service_get_album_artist s =
     map_option jh_artist (cartridge_service_get_metadata_header s)"

definition cartridge_service_get_album_year :: "cart_state \<Rightarrow> u32" where
  "cartridge_service_get_album_year s =
     (case cartridge_service_get_metadata_header s of None \<Rightarrow> 0 | Some h \<Rightarrow> jh_year h)"

definition cartridge_service_get_album_duration_sec :: "cart_state \<Rightarrow> u32" where
  "cartridge_service_get_album_duration_sec s =
     (case cartridge_service_get_metadata_header s of None \<Rightarrow> 0 | Some h \<Rightarrow> jh_duration_sec h)"

definition cartridge_service_get_album_genre :: "cart_state \<Rightarrow> bytes option" where
  "cartridge_service_get_album_genre s =
     map_option jh_genre (cartridge_service_get_metadata_header s)"

definition cartridge_service_get_album_tag :: "nat \<Rightarrow> cart_state \<Rightarrow> bytes option" where
  "cartridge_service_get_album_tag index s =
     (case cartridge_service_get_metadata_header s of None \<Rightarrow> None
      | Some h \<Rightarrow> if index \<ge> JUKEBOY_JBM_TAG_COUNT then None else Some (jh_tag h ! index))"

definition cartridge_service_get_track_name :: "nat \<Rightarrow> cart_state \<Rightarrow> bytes option" where
  "cartridge_service_get_track_name index s =
     map_option jt_track_name (cartridge_service_get_metadata_track index s)"

definition cartridge_service_get_track_artists :: "nat \<Rightarrow> cart_state \<Rightarrow> bytes option" where
  "cartridge_service_get_track_artists index s =
     map_option jt_artists (cartridge_service_get_metadata_track index s)"

definition cartridge_service_get_track_duration_sec :: "nat \<Rightarrow> cart_state \<Rightarrow> u32" where
  "cartridge_service_get_track_duration_sec index s =
     (case cartridge_service_get_metadata_track index s of None \<Rightarrow> 0 | Some t \<Rightarrow> jt_duration_sec t)"

definition cartridge_service_get_track_file_num :: "nat \<Rightarrow> cart_state \<Rightarrow> u32" where
  "cartridge_service_get_track_file_num index s =
     (case cartridge_service_get_metadata_track index s of None \<Rightarrow> 0 | Some t \<Rightarrow> jt_file_num t)"

section \<open>The service as a machine\<close>

text \<open>The mount point is a constant of the firmware; every other argument varies per call.\<close>

datatype cart_op =
    CartInit cart_env
  | CartMount cart_env
  | CartUnmount
  | CartReadAsync "string option" nat bool
  | CartReaderTask cart_env
  | CartCloseFile

fun cart_step :: "(bytes \<Rightarrow> u32) \<Rightarrow> string \<Rightarrow> cart_state \<Rightarrow> cart_op \<Rightarrow> cart_state" where
  "cart_step crc mp s (CartInit env) = snd (cartridge_service_init env crc (Some mp) s)"
| "cart_step crc mp s (CartMount env) = snd (cartridge_service_mount env crc s)"
| "cart_step crc mp s CartUnmount = snd (cartridge_service_unmount s)"
| "cart_step crc mp s (CartReadAsync name off notify) =
     snd (cartridge_service_read_chunk_async name off notify s)"
| "cart_step crc mp s (CartReaderTask env) = snd (cartridge_reader_task env s)"
| "cart_step crc mp s CartCloseFile = cartridge_service_close_file s"

section \<open>Validation\<close>

text \<open>The shape of a blob the service publishes.\<close>

definition metadata_shape :: "bytes \<Rightarrow> bool" where
  "metadata_shape b \<longleftrightarrow>
     rd_u32 b 0 = JUKEBOY_JBM_VERSION \<and> unat (rd_u32 b 1648) \<le> JUKEBOY_MAX_TRACK_FILES \<and>
     length b = JBM_HEADER_BYTES + unat (rd_u32 b 1648) * JBM_TRACK_ENTRY_BYTES"

definition metadata_terminated :: "bytes \<Rightarrow> bool" where
  "metadata_terminated b \<longleftrightarrow> list_all (\<lambda>off. b ! off = 0) (sanitize_offsets (unat (rd_u32 b 1648)))"

text \<open>No sanitized offset falls into a word the header or a track entry stores.\<close>

lemma sanitize_offsets_track_part:
  assumes "off \<in> set (sanitize_offsets n)"
  shows "off = 135 \<or> off = 1159 \<or> off = 1415 \<or> off = 1487 \<or> off \<in> {1519, 1551, 1583, 1615, 1647} \<or>
         (\<exists>i < n. off = 1652 + i * 392 + 127 \<or> off = 1652 + i * 392 + 383)"
  using assms by (auto simp: sanitize_offsets_def layout_simps)

lemma sanitize_offsets_bound:
  "off \<in> set (sanitize_offsets n) \<Longrightarrow> 134 < off \<and> off < 1652 + n * 392"
  by (drule sanitize_offsets_track_part) auto

lemma sanitize_offsets_not_count: "off \<in> set (sanitize_offsets n) \<Longrightarrow> off < 1648 \<or> 1652 \<le> off"
  by (drule sanitize_offsets_track_part) auto

lemma zero_out_nth:
  "i < length b \<Longrightarrow> foldl (\<lambda>b off. b[off := 0]) b offs ! i = (if i \<in> set offs then (0::u8) else b ! i)"
  by (induction offs arbitrary: b) (auto simp: nth_list_update)

lemma zero_out_length [simp]: "length (foldl (\<lambda>b off. b[off := (0::u8)]) b offs) = length b"
  by (induction offs arbitrary: b) auto

lemma zero_out_rd_u32:
  assumes "off + 4 \<le> length b" and "\<forall>o' \<in> set offs. o' < off \<or> off + 4 \<le> o'"
  shows "rd_u32 (foldl (\<lambda>b off. b[off := (0::u8)]) b offs) off = rd_u32 b off"
  using assms by (auto simp: rd_u32_nth zero_out_nth)

lemma validate_restores: 
  "JBM_HEADER_BYTES \<le> length b \<Longrightarrow>
   wr_bytes (wr_bytes b 4 (u32_bytes 0)) 4 (u32_bytes (rd_u32 b 4)) = b"
  using wr_bytes_restore [of 4 4 b "u32_bytes 0"] by (simp add: u32_bytes_rd layout_simps)

lemma validate_result:
  "cartridge_service_validate_metadata crc b = (e, b') \<Longrightarrow>
   (e = ESP_OK \<longleftrightarrow> JBM_HEADER_BYTES \<le> length b \<and> metadata_shape b \<and>
        crc (wr_bytes b 4 (u32_bytes 0)) = rd_u32 b 4) \<and>
   b' = (if e = ESP_OK then cartridge_service_sanitize_metadata_strings b else b)"
  by (auto simp: cartridge_service_validate_metadata_def Let_def metadata_shape_def validate_restores
      split: if_splits)

lemma sanitize_shape:
  assumes "metadata_shape b"
  shows "metadata_shape (cartridge_service_sanitize_metadata_strings b)"
    and "metadata_terminated (cartridge_service_sanitize_metadata_strings b)"
proof -
  let ?n = "unat (rd_u32 b 1648)"
  have len: "length b = 1652 + ?n * 392"
    using assms by (simp add: metadata_shape_def layout_simps)
  have cnt: "rd_u32 (cartridge_service_sanitize_metadata_strings b) 1648 = rd_u32 b 1648"
    unfolding cartridge_service_sanitize_metadata_strings_def
    by (rule zero_out_rd_u32) (use len in \<open>auto dest: sanitize_offsets_not_count\<close>)
  have ver: "rd_u32 (cartridge_service_sanitize_metadata_strings b) 0 = rd_u32 b 0"
    unfolding cartridge_service_sanitize_metadata_strings_def
    by (rule zero_out_rd_u32) (use len in \<open>auto dest: sanitize_offsets_bound\<close>)
  show "metadata_shape (cartridge_service_sanitize_metadata_strings b)"
    using assms by (simp add: metadata_shape_def cnt ver)
      (simp add: cartridge_service_sanitize_metadata_strings_def)
  show "metadata_terminated (cartridge_service_sanitize_metadata_strings b)"
    unfolding metadata_terminated_def cnt
    using sanitize_offsets_bound len
    by (fastforce simp: list_all_iff cartridge_service_sanitize_metadata_strings_def zero_out_nth)
qed

section \<open>The invariant\<close>

definition cart_mount_inv :: "cart_state \<Rightarrow> bool" where
  "cart_mount_inv s \<longleftrightarrow>
     (\<forall>b. cs_metadata s = Some b \<longrightarrow> cs_mounted s \<and> metadata_shape b \<and> metadata_terminated b) \<and>
     (cs_mounted s \<longrightarrow> cs_initialised s) \<and> (cs_mounted s \<longleftrightarrow> cs_card s) \<and>
     cs_mount_generation s \<noteq> 0"

definition cart_inv :: "cart_state \<Rightarrow> bool" where
  "cart_inv s \<longleftrightarrow> cart_mount_inv s \<and>
     (cs_status s = CARTRIDGE_STATUS_READY \<longleftrightarrow> cs_metadata s \<noteq> None)"

definition cart_io_inv :: "string \<Rightarrow> cart_state \<Rightarrow> bool" where
  "cart_io_inv mp s \<longleftrightarrow>
     (cs_initialised s \<or> cs_mounted s \<longrightarrow> cs_mount_point s = mp) \<and>
     (\<forall>f. cs_open_file s = Some f \<longrightarrow>
        cs_mounted s \<and> f = cart_full_path mp (cs_open_filename s)) \<and>
     length (cs_read_buf s) = 2 \<and>
     list_all (\<lambda>b. length b = CARTRIDGE_SERVICE_READ_BUF_SIZE) (cs_read_buf s) \<and>
     cs_buf_index s < 2 \<and>
     (\<forall>i. cs_result_data s = Some i \<longrightarrow> i = 1 - cs_buf_index s) \<and>
     cs_result_len s \<le> CARTRIDGE_SERVICE_READ_BUF_SIZE \<and>
     (cs_result_status s = ESP_OK \<longrightarrow> cs_result_data s \<noteq> None) \<and>
     (\<forall>q. cs_read_queue s = Some q \<longrightarrow> length q \<le> 1 \<and>
        list_all (\<lambda>r. length (rq_filename r) \<le> 255 \<and> rq_notify_task r) q)"

lemmas cart_op_defs = cartridge_service_set_status_def cartridge_service_free_metadata_def
  cartridge_service_post_event_def cartridge_service_close_file_locked_def
  cartridge_service_close_file_def cart_set_result_def cartridge_service_is_inserted_def

lemma validate_ok:
  "cartridge_service_validate_metadata crc b = (ESP_OK, b') \<Longrightarrow> metadata_shape b' \<and> metadata_terminated b'"
  by (drule validate_result) (auto dest: sanitize_shape)

text \<open>Loading touches the metadata and the status only.\<close>

lemma load_metadata_frame [simp]:
  "cs_mounted (snd (cartridge_service_load_metadata env crc s)) = cs_mounted s"
  "cs_card (snd (cartridge_service_load_metadata env crc s)) = cs_card s"
  "cs_initialised (snd (cartridge_service_load_metadata env crc s)) = cs_initialised s"
  "cs_mount_generation (snd (cartridge_service_load_metadata env crc s)) = cs_mount_generation s"
  "cs_mount_point (snd (cartridge_service_load_metadata env crc s)) = cs_mount_point s"
  "cs_open_file (snd (cartridge_service_load_metadata env crc s)) = cs_open_file s"
  "cs_open_filename (snd (cartridge_service_load_metadata env crc s)) = cs_open_filename s"
  "cs_read_buf (snd (cartridge_service_load_metadata env crc s)) = cs_read_buf s"
  "cs_buf_index (snd (cartridge_service_load_metadata env crc s)) = cs_buf_index s"
  "cs_result_data (snd (cartridge_service_load_metadata env crc s)) = cs_result_data s"
  "cs_result_len (snd (cartridge_service_load_metadata env crc s)) = cs_result_len s"
  "cs_result_status (snd (cartridge_service_load_metadata env crc s)) = cs_result_status s"
  "cs_read_queue (snd (cartridge_service_load_metadata env crc s)) = cs_read_queue s"
  by (simp_all add: cartridge_service_load_metadata_def Let_def cart_op_defs
      split: option.split prod.split)

lemma load_metadata_result:
  "cartridge_service_load_metadata env crc s = (e, s') \<Longrightarrow>
     (e = ESP_OK \<longleftrightarrow> cs_status s' = CARTRIDGE_STATUS_READY) \<and>
     (e = ESP_OK \<longleftrightarrow> cs_metadata s' \<noteq> None) \<and>
     (\<forall>b. cs_metadata s' = Some b \<longrightarrow> cs_mounted s \<and> metadata_shape b \<and> metadata_terminated b)"
  by (auto simp: cartridge_service_load_metadata_def Let_def cart_op_defs
      split: if_splits option.splits prod.splits dest: validate_ok)

lemma load_metadata_inv:
  assumes "cart_mount_inv s"
  shows "cart_inv (snd (cartridge_service_load_metadata env crc s))"
proof -
  obtain e s' where r: "cartridge_service_load_metadata env crc s = (e, s')" by fastforce
  then show ?thesis
    using load_metadata_frame(1-4) [of env crc s] load_metadata_result [OF r] assms
    by (auto simp: cart_inv_def cart_mount_inv_def)
qed

lemma load_metadata_io_inv:
  "cart_io_inv mp s \<Longrightarrow> cart_io_inv mp (snd (cartridge_service_load_metadata env crc s))"
  by (simp add: cart_io_inv_def)

lemma mount_cases:
  assumes "cartridge_service_mount env crc s = (e, s')"
  obtains "\<not> cs_initialised s" "e = ESP_ERR_INVALID_STATE" "s' = s"
  | "cs_initialised s" "cs_mounted s" "e = ESP_OK"
    "s' = snd (cartridge_service_load_metadata env crc s)"
  | "cs_initialised s" "\<not> cs_mounted s" "e \<noteq> ESP_OK" "s' = s\<lparr>cs_card := False\<rparr>"
  | "cs_initialised s" "\<not> cs_mounted s" "e = ESP_OK"
    "s' = cartridge_service_post_event CARTRIDGE_SVC_EVENT_MOUNTED
       (snd (cartridge_service_load_metadata env crc (s\<lparr>cs_card := True, cs_mounted := True,
              cs_mount_generation := bump_nonzero (cs_mount_generation s)\<rparr>)))"
  using assms by (auto simp: cartridge_service_mount_def Let_def split: if_splits)

lemma post_event_inv [simp]:
  "cart_inv (cartridge_service_post_event ev s) = cart_inv s"
  "cart_mount_inv (cartridge_service_post_event ev s) = cart_mount_inv s"
  "cart_io_inv mp (cartridge_service_post_event ev s) = cart_io_inv mp s"
  by (simp_all add: cart_inv_def cart_mount_inv_def cart_io_inv_def cartridge_service_post_event_def)

lemma set_mounted_inv: "cart_mount_inv s \<Longrightarrow> cs_initialised s \<Longrightarrow>
    cart_mount_inv (s\<lparr>cs_card := True, cs_mounted := True,
      cs_mount_generation := bump_nonzero (cs_mount_generation s)\<rparr>)"
  by (auto simp: cart_mount_inv_def)

lemma mount_ok_inv:
  assumes "cart_mount_inv s" and "cartridge_service_mount env crc s = (ESP_OK, s')"
  shows "cart_inv s'"
  using assms(2) by (cases rule: mount_cases)
    (auto intro!: load_metadata_inv set_mounted_inv assms(1))

lemma mount_error_inv:
  assumes "cart_mount_inv s" and "cartridge_service_mount env crc s = (e, s')" and "e \<noteq> ESP_OK"
  shows "cart_mount_inv s'" and "cs_status s' = cs_status s" and "cs_metadata s' = cs_metadata s"
    and "cs_initialised s \<Longrightarrow> cs_metadata s' = None"
  using assms(2) by (cases rule: mount_cases; use assms(1,3) in \<open>auto simp: cart_mount_inv_def\<close>)+

lemma mount_io_inv:
  assumes "cart_io_inv mp s" and "cartridge_service_mount env crc s = (e, s')"
  shows "cart_io_inv mp s'"
proof -
  have "cs_initialised s \<Longrightarrow> cart_io_inv mp (s\<lparr>cs_card := True, cs_mounted := True,
      cs_mount_generation := bump_nonzero (cs_mount_generation s)\<rparr>)"
    and "cart_io_inv mp (s\<lparr>cs_card := False\<rparr>)"
    using assms(1) by (auto simp: cart_io_inv_def)
  with assms(2) show ?thesis
    by (cases rule: mount_cases) (auto intro: load_metadata_io_inv assms(1))
qed

lemma set_status_inv [simp]:
  "cart_mount_inv (cartridge_service_set_status st s) = cart_mount_inv s"
  "cart_io_inv mp (cartridge_service_set_status st s) = cart_io_inv mp s"
  "cs_metadata (cartridge_service_set_status st s) = cs_metadata s"
  "cs_initialised (cartridge_service_set_status st s) = cs_initialised s"
  "cs_status (cartridge_service_set_status st s) = st"
  by (simp_all add: cart_mount_inv_def cart_io_inv_def cartridge_service_set_status_def)

lemma mount_or_invalid_inv:
  assumes "cart_mount_inv t" "cs_initialised t" "cartridge_service_mount env crc t = (e, t')"
  shows "cart_inv (if e \<noteq> ESP_OK then cartridge_service_set_status CARTRIDGE_STATUS_INVALID t' else t')"
proof (cases "e = ESP_OK")
  case True
  with assms show ?thesis by (simp add: mount_ok_inv)
next
  case False
  with mount_error_inv [OF assms(1,3) False] assms(2) show ?thesis
    by (simp add: cart_inv_def)
qed

text \<open>The states \<^verbatim>\<open>cartridge_service_init\<close> passes through before it mounts.\<close>

lemma init_cases:
  assumes "cartridge_service_init env crc (Some mp) s = (e, s')"
  obtains m q r where "e \<noteq> ESP_OK"
    "s' = s\<lparr>cs_mount_point := mp, cs_initialised := True, cs_state_mutex := m, cs_read_queue := q,
            cs_reader_task := r\<rparr>" "q = cs_read_queue s \<or> q = Some []"
  | t e' t' q where "e = ESP_OK"
    "t = s\<lparr>cs_mount_point := mp, cs_initialised := True, cs_state_mutex := True, cs_read_queue := q,
           cs_reader_task := True\<rparr>" "q = cs_read_queue s \<or> q = Some []"
    "cartridge_service_mount env crc (cartridge_service_set_status CARTRIDGE_STATUS_EMPTY
       (cartridge_service_post_event CARTRIDGE_SVC_EVENT_STARTED t)) = (e', t')"
    "s' = cartridge_service_post_event CARTRIDGE_SVC_EVENT_INSERTED
       (if e' \<noteq> ESP_OK then cartridge_service_set_status CARTRIDGE_STATUS_INVALID t' else t')"
proof (cases "\<not> cs_state_mutex s \<and> \<not> ce_mutex_ok env \<or> cs_read_queue s = None \<and> \<not> ce_queue_ok env \<or>
    \<not> cs_reader_task s \<and> \<not> ce_task_ok env")
  case True
  have "e \<noteq> ESP_OK \<and> (\<exists>m q r. s' = s\<lparr>cs_mount_point := mp, cs_initialised := True, cs_state_mutex := m,
      cs_read_queue := q, cs_reader_task := r\<rparr> \<and> (q = cs_read_queue s \<or> q = Some []))"
    using assms True by (cases s) (auto simp: cartridge_service_init_def Let_def split: if_splits)
  with that(1) show ?thesis by blast
next
  case False
  let ?q = "if cs_read_queue s = None then Some [] else cs_read_queue s"
  let ?t = "s\<lparr>cs_mount_point := mp, cs_initialised := True, cs_state_mutex := True,
      cs_read_queue := ?q, cs_reader_task := True\<rparr>"
  obtain e' t' where m: "cartridge_service_mount env crc (cartridge_service_set_status CARTRIDGE_STATUS_EMPTY
       (cartridge_service_post_event CARTRIDGE_SVC_EVENT_STARTED ?t)) = (e', t')" by fastforce
  have "cartridge_service_init env crc (Some mp) s =
    (ESP_OK, cartridge_service_post_event CARTRIDGE_SVC_EVENT_INSERTED
       (if e' \<noteq> ESP_OK then cartridge_service_set_status CARTRIDGE_STATUS_INVALID t' else t'))"
    using False m by (cases s) (auto simp: cartridge_service_init_def Let_def cartridge_service_is_inserted_def)
  with assms that(2) [OF _ refl _ m] show ?thesis by auto
qed

lemma init_inv:
  assumes "cart_inv s"
  shows "cart_inv (snd (cartridge_service_init env crc (Some mp) s))"
proof -
  obtain e s' where r: "cartridge_service_init env crc (Some mp) s = (e, s')" by fastforce
  from r have "cart_inv s'"
  proof (cases rule: init_cases)
    case (1 m q r)
    with assms show ?thesis by (auto simp: cart_inv_def cart_mount_inv_def)
  next
    case (2 t e' t' q)
    have "cart_mount_inv t" "cs_initialised t"
      using 2(2) assms by (auto simp: cart_inv_def cart_mount_inv_def)
    then show ?thesis
      unfolding 2(5) post_event_inv by (intro mount_or_invalid_inv [OF _ _ 2(4)])
        (simp_all, simp add: cartridge_service_post_event_def)
  qed
  with r show ?thesis by simp
qed

lemma init_io_inv:
  assumes "cart_io_inv mp s"
  shows "cart_io_inv mp (snd (cartridge_service_init env crc (Some mp) s))"
proof -
  obtain e s' where r: "cartridge_service_init env crc (Some mp) s = (e, s')" by fastforce
  from r have "cart_io_inv mp s'"
  proof (cases rule: init_cases)
    case (1 m q r)
    with assms show ?thesis by (auto simp: cart_io_inv_def)
  next
    case (2 t e' t' q)
    have "cart_io_inv mp t"
      using 2(2,3) assms by (auto simp: cart_io_inv_def)
    then have "cart_io_inv mp t'"
      by (intro mount_io_inv [OF _ 2(4)]) simp
    with 2(5) show ?thesis by simp
  qed
  with r show ?thesis by simp
qed

lemma unmount_inv:
  "cart_inv s \<Longrightarrow> cart_inv (snd (cartridge_service_unmount s))"
  "cart_io_inv mp s \<Longrightarrow> cart_io_inv mp (snd (cartridge_service_unmount s))"
  by (auto simp: cartridge_service_unmount_def Let_def cart_op_defs cart_inv_def cart_mount_inv_def
      cart_io_inv_def)

lemma close_file_inv:
  "cart_inv s \<Longrightarrow> cart_inv (cartridge_service_close_file s)"
  "cart_io_inv mp s \<Longrightarrow> cart_io_inv mp (cartridge_service_close_file s)"
  by (auto simp: cart_op_defs cart_inv_def cart_mount_inv_def cart_io_inv_def)

lemma read_chunk_async_inv:
  "cart_inv s \<Longrightarrow> cart_inv (snd (cartridge_service_read_chunk_async name off notify s))"
  "cart_io_inv mp s \<Longrightarrow> cart_io_inv mp (snd (cartridge_service_read_chunk_async name off notify s))"
  by (auto simp: cartridge_service_read_chunk_async_def Let_def cart_inv_def cart_mount_inv_def
      cart_io_inv_def not_le Suc_le_eq split: option.split)

text \<open>The states a request that passes the generation check leads to.\<close>

lemma serve_frame [simp]:
  "cs_mounted (cartridge_reader_serve env req s) = cs_mounted s"
  "cs_metadata (cartridge_reader_serve env req s) = cs_metadata s"
  "cs_status (cartridge_reader_serve env req s) = cs_status s"
  "cs_card (cartridge_reader_serve env req s) = cs_card s"
  "cs_initialised (cartridge_reader_serve env req s) = cs_initialised s"
  "cs_mount_generation (cartridge_reader_serve env req s) = cs_mount_generation s"
  "cs_mount_point (cartridge_reader_serve env req s) = cs_mount_point s"
  "cs_read_queue (cartridge_reader_serve env req s) = cs_read_queue s"
  by (simp_all add: cartridge_reader_serve_def Let_def cart_op_defs)

lemma serve_eq:
  fixes env :: cart_env and req :: cart_read_request
  assumes "cart_io_inv mp s" and "length (rq_filename req) \<le> 255"
    and "cs_mounted s" and "rq_generation req = cs_mount_generation s"
  defines "path \<equiv> cart_full_path (cs_mount_point s) (rq_filename req)"
    and "buf \<equiv> cs_buf_index s"
    and "data \<equiv> take CARTRIDGE_SERVICE_READ_BUF_SIZE
           (ce_fread env (cart_full_path (cs_mount_point s) (rq_filename req)) (rq_offset req)
             CARTRIDGE_SERVICE_READ_BUF_SIZE)"
    and "s3 \<equiv> s\<lparr>cs_open_file := Some (cart_full_path (cs_mount_point s) (rq_filename req)),
           cs_open_filename := rq_filename req, cs_buf_index := 1 - cs_buf_index s\<rparr>"
  shows "cartridge_reader_serve env req s =
     (if (cs_open_file s = None \<or> cs_open_filename s \<noteq> rq_filename req) \<and> \<not> ce_fopen_ok env path
      then cart_set_result None 0 ESP_ERR_NOT_FOUND
             (if cs_open_file s = None then s else cartridge_service_close_file_locked s)
      else if \<not> ce_fseek_ok env path (rq_offset req) then cart_set_result (Some buf) 0 ESP_FAIL s3
      else cart_set_result (Some buf) (length data) ESP_OK
             (s3\<lparr>cs_read_buf := (cs_read_buf s)[buf := wr_bytes (cs_read_buf s ! buf) 0 data]\<rparr>))"
proof -
  have coherent: "cs_open_file s = Some f \<Longrightarrow> f = cart_full_path (cs_mount_point s) (cs_open_filename s)" for f
    using assms(1,3) by (auto simp: cart_io_inv_def)
  consider (keep) f where "cs_open_file s = Some f" "cs_open_filename s = rq_filename req"
    | (switch) f where "cs_open_file s = Some f" "cs_open_filename s \<noteq> rq_filename req"
    | (closed) "cs_open_file s = None"
    by (cases "cs_open_file s") auto
  then show ?thesis
  proof cases
    case keep
    have "s\<lparr>cs_buf_index := 1 - cs_buf_index s\<rparr> = s3" and "cs_read_buf s3 = cs_read_buf s"
      using keep coherent [OF keep(1)] by (cases s, simp add: s3_def) (simp add: s3_def)
    with keep coherent [OF keep(1)] assms(2-4) show ?thesis
      by (simp add: cartridge_reader_serve_def path_def buf_def data_def Let_def)
  next
    case switch
    with assms(2-4) show ?thesis
      by (simp add: cartridge_reader_serve_def path_def buf_def data_def s3_def Let_def
          cartridge_service_close_file_locked_def)
  next
    case closed
    with assms(2-4) show ?thesis
      by (simp add: cartridge_reader_serve_def path_def buf_def data_def s3_def Let_def)
  qed
qed

lemma serve_inv:
  "cart_inv s \<Longrightarrow> cart_inv (cartridge_reader_serve env req s)"
  by (auto simp: cart_inv_def cart_mount_inv_def)

lemma serve_io_inv:
  assumes "cart_io_inv mp s" and "length (rq_filename req) \<le> 255"
  shows "cart_io_inv mp (cartridge_reader_serve env req s)"
proof (cases "cs_mounted s \<and> rq_generation req = cs_mount_generation s")
  case False
  with assms(1) show ?thesis
    by (auto simp: cartridge_reader_serve_def cart_set_result_def cart_io_inv_def)
next
  case True
  have "cs_mount_point s = mp" "cs_buf_index s < length (cs_read_buf s)"
    "1 - (1 - cs_buf_index s) = cs_buf_index s"
    using assms(1) True by (auto simp: cart_io_inv_def)
  with assms(1) True show ?thesis
    unfolding serve_eq [OF assms True [THEN conjunct1] True [THEN conjunct2]]
    by (auto simp: cart_io_inv_def cart_op_defs list_all_length nth_list_update)
qed

lemma reader_task_inv:
  "cart_inv s \<Longrightarrow> cart_inv (snd (cartridge_reader_task env s))"
  by (auto simp: cartridge_reader_task_def cart_inv_def cart_mount_inv_def
      split: option.split list.split)

lemma reader_task_io_inv:
  assumes "cart_io_inv mp s"
  shows "cart_io_inv mp (snd (cartridge_reader_task env s))"
proof -
  have "cart_io_inv mp (s\<lparr>cs_read_queue := Some rest\<rparr>)" "length (rq_filename req) \<le> 255"
    if "cs_read_queue s = Some (req # rest)" for req rest
    using assms that by (auto simp: cart_io_inv_def)
  with assms show ?thesis
    by (auto simp: cartridge_reader_task_def intro!: serve_io_inv split: option.split list.split)
qed

lemma mount_inv:
  "cart_inv s \<Longrightarrow> cart_inv (snd (cartridge_service_mount env crc s))"
  "cart_io_inv mp s \<Longrightarrow> cart_io_inv mp (snd (cartridge_service_mount env crc s))"
proof -
  obtain e s' where r: "cartridge_service_mount env crc s = (e, s')" by fastforce
  show "cart_inv s \<Longrightarrow> cart_inv (snd (cartridge_service_mount env crc s))"
    using mount_ok_inv [of s env crc s'] mount_error_inv [OF _ r] r
    by (cases "e = ESP_OK") (auto simp: cart_inv_def)
  show "cart_io_inv mp s \<Longrightarrow> cart_io_inv mp (snd (cartridge_service_mount env crc s))"
    using mount_io_inv [OF _ r] r by simp
qed

lemma cart_step_inv:
  "cart_inv s \<and> cart_io_inv mp s \<Longrightarrow> cart_inv (cart_step crc mp s op) \<and> cart_io_inv mp (cart_step crc mp s op)"
  by (cases op) (simp_all add: init_inv init_io_inv mount_inv unmount_inv close_file_inv read_chunk_async_inv
      reader_task_inv reader_task_io_inv)

interpretation cart: event_machine "cart_step crc mp" "\<lambda>s. cart_inv s \<and> cart_io_inv mp s"
  for crc mp
  by unfold_locales (rule cart_step_inv)

lemma cart_boot_inv: "cart_inv cart_boot \<and> cart_io_inv mp cart_boot"
  by (simp add: cart_inv_def cart_mount_inv_def cart_io_inv_def cart_boot_def numeral_2_eq_2)

text \<open>What the published blob promises its readers.\<close>

lemma metadata_shape_slices:
  assumes "metadata_shape b"
  shows "jbm_header_wf (dec_jbm_header b)"
    and "i < unat (jh_track_count (dec_jbm_header b)) \<Longrightarrow>
           JBM_HEADER_BYTES + i * JBM_TRACK_ENTRY_BYTES + JBM_TRACK_ENTRY_BYTES \<le> length b"
proof -
  show "jbm_header_wf (dec_jbm_header b)"
    using assms by (simp add: jbm_header_wf_def dec_jbm_header_def metadata_shape_def layout_simps)
  assume "i < unat (jh_track_count (dec_jbm_header b))"
  then have "Suc i \<le> unat (rd_u32 b 1648)"
    by (simp add: dec_jbm_header_def)
  then have "Suc i * 392 \<le> unat (rd_u32 b 1648) * 392"
    by (rule mult_le_mono1)
  then show "JBM_HEADER_BYTES + i * JBM_TRACK_ENTRY_BYTES + JBM_TRACK_ENTRY_BYTES \<le> length b"
    using assms by (simp add: metadata_shape_def layout_simps)
qed


lemma metadata_track_terminated:
  assumes "metadata_shape b" and "metadata_terminated b" and "i < unat (jh_track_count (dec_jbm_header b))"
  shows "track_terminated (dec_jbm_track (rd_bytes b (JBM_HEADER_BYTES + i * JBM_TRACK_ENTRY_BYTES)
           JBM_TRACK_ENTRY_BYTES))"
proof -
  have i: "i < unat (rd_u32 b 1648)" using assms(3) by (simp add: dec_jbm_header_def)
  then have "1779 + i * 392 \<in> set (sanitize_offsets (unat (rd_u32 b 1648)))"
    "2035 + i * 392 \<in> set (sanitize_offsets (unat (rd_u32 b 1648)))"
    by (auto simp: sanitize_offsets_def layout_simps)
  then have "b ! (1652 + i * 392 + 128 - 1) = 0" "b ! (1652 + i * 392 + 128 + 256 - 1) = 0"
    using assms(2) by (simp_all add: metadata_terminated_def list_all_iff)
  then show ?thesis
    using metadata_shape_slices(2) [OF assms(1,3)]
    by (auto simp: track_terminated_def dec_jbm_track_def rd_rd_bytes layout_simps intro!: terminated_rd)
qed

lemma metadata_header_terminated:
  assumes "metadata_shape b" and "metadata_terminated b"
  shows "header_terminated (dec_jbm_header b)"
proof -
  have len: "1652 \<le> length b" using assms(1) by (simp add: metadata_shape_def layout_simps)
  have "list_all (\<lambda>off. b ! off = 0) [135, 1159, 1415, 1487, 1519, 1551, 1583, 1615, 1647]"
    using assms(2) unfolding metadata_terminated_def list_all_iff
    by (simp add: sanitize_offsets_def layout_simps upt_rec [of _ 5])
  with len show ?thesis
    by (simp add: header_terminated_def dec_jbm_header_def terminated_rd)
qed

interpretation cart_metadata: metadata_provider cart_inv cartridge_service_get_metadata_header
    cartridge_service_get_metadata_track_count cartridge_service_get_metadata_track
proof unfold_locales
  fix s :: cart_state and i h t
  note defs = cartridge_service_get_metadata_header_def cartridge_service_get_metadata_track_count_def
    cartridge_service_get_metadata_track_def cart_inv_def cart_mount_inv_def
  show "cartridge_service_get_metadata_header s = None \<Longrightarrow> cartridge_service_get_metadata_track_count s = 0"
    by (simp add: defs)
  show "cart_inv s \<Longrightarrow> cartridge_service_get_metadata_track_count s \<le> JUKEBOY_MAX_TRACK_FILES"
    by (auto simp: defs metadata_shape_def dec_jbm_header_def split: option.split)
  show "cart_inv s \<Longrightarrow> cartridge_service_get_metadata_header s = Some h \<Longrightarrow>
      jbm_header_wf h \<and> header_terminated h"
    by (auto simp: defs metadata_shape_slices metadata_header_terminated)
  show "cart_inv s \<Longrightarrow> cartridge_service_get_metadata_track i s \<noteq> None \<longleftrightarrow>
      i < cartridge_service_get_metadata_track_count s"
    by (auto simp: defs split: option.split)
  show "cart_inv s \<Longrightarrow> cartridge_service_get_metadata_track i s = Some t \<Longrightarrow>
      jbm_track_wf t \<and> track_terminated t"
    by (auto simp: defs metadata_track_terminated jbm_track_wf_dec metadata_shape_slices
        split: if_splits option.splits)
qed

section \<open>Properties\<close>

text \<open>A metadata blob is accepted exactly when it holds a whole header, its version is the
  supported one, its track count is at most 999, its size is the one the count announces, and
  its checksum field holds the CRC of the blob with that field zeroed.\<close>

theorem cart_validate_accepts:
  "fst (cartridge_service_validate_metadata crc b) = ESP_OK \<longleftrightarrow>
     JBM_HEADER_BYTES \<le> length b \<and> rd_u32 b 0 = JUKEBOY_JBM_VERSION \<and>
     unat (rd_u32 b 1648) \<le> JUKEBOY_MAX_TRACK_FILES \<and>
     length b = JBM_HEADER_BYTES + unat (rd_u32 b 1648) * JBM_TRACK_ENTRY_BYTES \<and>
     crc (wr_bytes b 4 (u32_bytes 0)) = rd_u32 b 4"
  using validate_result [of crc b "fst (cartridge_service_validate_metadata crc b)"
      "snd (cartridge_service_validate_metadata crc b)"]
  by (auto simp: metadata_shape_def)

text \<open>C1: Whatever the callers do, in any order and with any behaviour of the card, the file
  system and the task creation, the service publishes metadata only while mounted and READY,
  READY means that metadata is published, and the published blob has a consistent size.\<close>

theorem cart_always_consistent:
  "cart_inv (foldl (cart_step crc mp) cart_boot ops)"
  using cart.run_inv [OF cart_boot_inv] by blast

text \<open>In every reachable state a track index is served exactly below the track count, and
  the entry served has its fixed size and strings that end inside their arrays.\<close>

theorem cart_tracks_served:
  "case cartridge_service_get_metadata_track i (foldl (cart_step crc mp) cart_boot ops) of
     None \<Rightarrow> cartridge_service_get_metadata_track_count (foldl (cart_step crc mp) cart_boot ops) \<le> i
   | Some t \<Rightarrow> i < cartridge_service_get_metadata_track_count (foldl (cart_step crc mp) cart_boot ops) \<and>
       jbm_track_wf t \<and> track_terminated t"
  by (rule cart_metadata.track_case) (use cart.run_inv [OF cart_boot_inv] in blast)

lemma read_accepted:
  assumes "cartridge_service_read_chunk_async (Some name) off notify s = (ESP_OK, s1)"
  shows "notify" and "cs_mounted s" and "cs_read_queue s = Some []"
    and "s1 = s\<lparr>cs_read_queue := Some [\<lparr>rq_filename = take 255 name, rq_offset = off,
                rq_generation = cs_mount_generation s, rq_notify_task = True\<rparr>]\<rparr>"
  using assms by (auto simp: cartridge_service_read_chunk_async_def Let_def not_le split: if_splits option.splits)

lemma read_served:
  assumes "cart_io_inv mp s"
    and "cartridge_service_read_chunk_async (Some name) off notify s = (ESP_OK, s1)"
    and "ce_fopen_ok env (cart_full_path mp (take 255 name))"
    and "ce_fseek_ok env (cart_full_path mp (take 255 name)) off"
  shows "fst (cartridge_reader_task env s1) \<and>
     cartridge_service_get_read_result True True (snd (cartridge_reader_task env s1)) =
       (ESP_OK, Some (take CARTRIDGE_SERVICE_READ_BUF_SIZE
          (ce_fread env (cart_full_path mp (take 255 name)) off CARTRIDGE_SERVICE_READ_BUF_SIZE)))"
proof -
  note acc = read_accepted [OF assms(2)]
  let ?r = "\<lparr>rq_filename = take 255 name, rq_offset = off,
             rq_generation = cs_mount_generation s, rq_notify_task = True\<rparr>"
  let ?s = "s\<lparr>cs_read_queue := Some []\<rparr>"
  have io: "cart_io_inv mp ?s" and mp: "cs_mount_point s = mp"
    and buf: "cs_buf_index s < length (cs_read_buf s)"
      "length (cs_read_buf s ! cs_buf_index s) = CARTRIDGE_SERVICE_READ_BUF_SIZE"
    using assms(1) acc(2) by (auto simp: cart_io_inv_def list_all_length)
  have task: "cartridge_reader_task env s1 = (True, cartridge_reader_serve env ?r ?s)"
    using acc(4) by (simp add: cartridge_reader_task_def)
  have "length (rq_filename ?r) \<le> 255" "cs_mounted ?s" "rq_generation ?r = cs_mount_generation ?s"
    using acc(2) by simp_all
  note serve = serve_eq [OF io this]
  show ?thesis
    unfolding task fst_conv snd_conv serve using assms(3,4) mp buf
    by (simp add: cartridge_service_get_read_result_def cart_set_result_def wr_bytes_def min_def)
qed

text \<open>C2: A read that is accepted and served while the card stays mounted returns the bytes of
  the named file at the requested offset, whichever file was open before, and notifies the
  task that asked.\<close>

theorem cart_read_returns_file:
  assumes "cart_io_inv mp s"
    and "cartridge_service_read_chunk_async (Some name) off notify s = (ESP_OK, s1)"
    and "ce_fopen_ok env (cart_full_path mp (take 255 name))"
    and "ce_fseek_ok env (cart_full_path mp (take 255 name)) off"
  shows "fst (cartridge_reader_task env s1) \<and>
     cartridge_service_get_read_result True True (snd (cartridge_reader_task env s1)) =
       (ESP_OK, Some (take CARTRIDGE_SERVICE_READ_BUF_SIZE
          (ce_fread env (cart_full_path mp (take 255 name)) off CARTRIDGE_SERVICE_READ_BUF_SIZE)))"
  by (rule read_served [OF assms])

lemma mount_unmounted:
  assumes "\<not> cs_mounted s"
  shows "cs_read_queue (snd (cartridge_service_mount env crc s)) = cs_read_queue s"
    and "cs_mounted (snd (cartridge_service_mount env crc s)) \<Longrightarrow>
      cs_mount_generation (snd (cartridge_service_mount env crc s)) = bump_nonzero (cs_mount_generation s)"
  using assms by (auto simp: cartridge_service_mount_def Let_def cartridge_service_post_event_def)

text \<open>C3: A read that is in flight when the card is unmounted never returns data, even when a
  card is mounted again before the reader task gets to it: the request keeps the generation of
  the mount it was made under.\<close>

theorem cart_stale_read_rejected:
  assumes "cartridge_service_read_chunk_async (Some name) off notify s = (ESP_OK, s1)"
    and "s2 = cart_step crc mp s1 CartUnmount"
    and "s3 = s2 \<or> s3 = cart_step crc mp s2 (CartMount env)"
  shows "cartridge_service_get_read_result True True (snd (cartridge_reader_task env' s3)) =
           (ESP_ERR_INVALID_STATE, None)"
proof -
  note acc = read_accepted [OF assms(1)]
  have s2: "cs_mount_generation s2 = bump_nonzero (cs_mount_generation s)" "\<not> cs_mounted s2"
    "cs_read_queue s2 = Some [\<lparr>rq_filename = take 255 name, rq_offset = off,
       rq_generation = cs_mount_generation s, rq_notify_task = True\<rparr>]"
    unfolding assms(2) acc(4) using acc(2)
    by (simp_all add: cartridge_service_unmount_def Let_def cart_op_defs)
  have gen: "bump_nonzero (bump_nonzero (cs_mount_generation s)) \<noteq> cs_mount_generation s"
    "bump_nonzero (cs_mount_generation s) \<noteq> cs_mount_generation s"
    by simp_all
  have "cs_read_queue s3 = cs_read_queue s2" and
    "\<not> cs_mounted s3 \<or> cs_mount_generation s \<noteq> cs_mount_generation s3"
    using assms(3) s2(1,2) gen mount_unmounted [OF s2(2), of env crc] by (metis cart_step.simps(2))+
  then have "snd (cartridge_reader_task env' s3) =
      cart_set_result None 0 ESP_ERR_INVALID_STATE (s3\<lparr>cs_read_queue := Some []\<rparr>)"
    by (auto simp: s2(3) cartridge_reader_task_def cartridge_reader_serve_def)
  then show ?thesis
    by (simp add: cartridge_service_get_read_result_def cart_set_result_def)
qed

text \<open>The buffer whose contents the last read returned is not written by the next one, so
  a consumer can use it while the next read is in flight.\<close>

theorem cart_result_survives_next_read:
  assumes "cart_io_inv mp s" and "cs_result_data s = Some i"
  shows "cs_read_buf (snd (cartridge_reader_task env s)) ! i = cs_read_buf s ! i"
proof -
  have "i = 1 - cs_buf_index s \<and> cs_buf_index s < 2" using assms by (auto simp: cart_io_inv_def)
  then have i: "cs_buf_index s \<noteq> i" by arith
  have "cs_read_buf (cartridge_reader_serve env req t) ! i = cs_read_buf t ! i"
    if "cs_buf_index t = cs_buf_index s" for req t
    using i that by (auto simp: cartridge_reader_serve_def Let_def cart_op_defs)
  then show ?thesis
    by (simp add: cartridge_reader_task_def split: option.split list.split)
qed

section \<open>Witnesses\<close>

text \<open>A card with one three-byte file and no album metadata.\<close>

definition demo_card :: cart_env where
  "demo_card = \<lparr>ce_mutex_ok = True, ce_queue_ok = True, ce_task_ok = True, ce_in_qemu = False,
     ce_sd_mount = (\<lambda>_. ESP_OK), ce_fopen_meta = (\<lambda>_. None), ce_fopen_ok = (\<lambda>_. True),
     ce_fseek_ok = (\<lambda>_ _. True), ce_fread = (\<lambda>_ off n. take n (drop off [1, 2, 3]))\<rparr>"

definition demo_cart :: cart_state where
  "demo_cart = foldl (cart_step (\<lambda>_. 0) ''/sdcard'') cart_boot [CartInit demo_card]"

lemma demo_cart_inv: "cart_inv demo_cart \<and> cart_io_inv ''/sdcard'' demo_cart"
  unfolding demo_cart_def by (rule cart.run_inv [OF cart_boot_inv])

lemma demo_cart_ready: "cs_mounted demo_cart" "cs_read_queue demo_cart = Some []"
  "cs_open_file demo_cart = None" "cs_buf_index demo_cart = 0" "cs_mount_generation demo_cart = 2"
  by (simp_all add: demo_cart_def cart_boot_def demo_card_def cartridge_service_init_def Let_def
      cartridge_service_is_inserted_def cartridge_service_mount_def cartridge_service_load_metadata_def
      cart_op_defs bump_nonzero_def)

lemma demo_read: "cartridge_service_read_chunk_async (Some ''000.jba'') 1 True demo_cart =
    (ESP_OK, snd (cartridge_service_read_chunk_async (Some ''000.jba'') 1 True demo_cart))"
  by (simp add: cartridge_service_read_chunk_async_def demo_cart_ready Let_def)

theorem cart_read_returns_file_witness:
  "cartridge_service_get_read_result True True (snd (cartridge_reader_task demo_card
      (snd (cartridge_service_read_chunk_async (Some ''000.jba'') 1 True demo_cart)))) =
    (ESP_OK, Some [2, 3])"
  using cart_read_returns_file [OF demo_cart_inv [THEN conjunct2] demo_read, of demo_card]
  by (simp add: demo_card_def CARTRIDGE_SERVICE_READ_BUF_SIZE_def)

theorem cart_stale_read_rejected_witness:
  "cartridge_service_get_read_result True True (snd (cartridge_reader_task demo_card
      (cart_step (\<lambda>_. 0) ''/sdcard'' (cart_step (\<lambda>_. 0) ''/sdcard''
         (snd (cartridge_service_read_chunk_async (Some ''000.jba'') 1 True demo_cart)) CartUnmount)
         (CartMount demo_card)))) = (ESP_ERR_INVALID_STATE, None)"
  by (rule cart_stale_read_rejected [OF demo_read refl disjI2 [OF refl]])

definition demo_cart_after_read :: cart_state where
  "demo_cart_after_read = foldl (cart_step (\<lambda>_. 0) ''/sdcard'') demo_cart
     [CartReadAsync (Some ''000.jba'') 1 True, CartReaderTask demo_card,
      CartReadAsync (Some ''001.jba'') 0 True]"

lemma demo_cart_after_read: "cart_io_inv ''/sdcard'' demo_cart_after_read"
  "cs_result_data demo_cart_after_read = Some 0"
proof -
  show "cart_io_inv ''/sdcard'' demo_cart_after_read"
    unfolding demo_cart_after_read_def using cart.run_inv [OF demo_cart_inv] by blast
  show "cs_result_data demo_cart_after_read = Some 0"
    by (simp add: demo_cart_after_read_def cartridge_service_read_chunk_async_def demo_cart_ready Let_def
        cartridge_reader_task_def cartridge_reader_serve_def demo_card_def cart_set_result_def)
qed

theorem cart_result_survives_next_read_witness:
  "cs_read_buf (snd (cartridge_reader_task demo_card demo_cart_after_read)) ! 0 =
   cs_read_buf demo_cart_after_read ! 0"
  by (rule cart_result_survives_next_read [OF demo_cart_after_read])

text \<open>The same card with a one-track album whose metadata has been loaded.\<close>

definition demo_album_raw :: bytes where
  "demo_album_raw = enc_jbm_header (jbm_header_zero\<lparr>jh_version := 1, jh_checksum := 7, jh_track_count := 1\<rparr>) @
     enc_jbm_track jbm_track_zero"

definition demo_loaded :: cart_state where
  "demo_loaded = demo_cart\<lparr>cs_metadata := Some (cartridge_service_sanitize_metadata_strings demo_album_raw),
     cs_status := CARTRIDGE_STATUS_READY\<rparr>"

lemma demo_header_wf: "jbm_header_wf (jbm_header_zero\<lparr>jh_version := 1, jh_checksum := 7, jh_track_count := 1\<rparr>)"
  using jbm_header_wf_zero by (simp add: jbm_header_wf_def)

lemma demo_album_raw: "rd_u32 demo_album_raw 0 = 1" "rd_u32 demo_album_raw 1648 = 1" "rd_u32 demo_album_raw 4 = 7"
  "length demo_album_raw = 2044"
proof -
  have "list_all (\<lambda>t. length t = 32) (jh_tag (jbm_header_zero))"
    using jbm_header_wf_zero by (simp add: jbm_header_wf_def layout_simps)
  then have l: "length (concat (jh_tag jbm_header_zero)) = 160"
    by (simp add: jbm_header_zero_def layout_simps length_concat sum_list_replicate)
  show "length demo_album_raw = 2044"
    using length_enc_jbm_header [OF demo_header_wf] length_enc_jbm_track [OF jbm_track_wf_zero]
    by (simp add: demo_album_raw_def layout_simps)
  have len: "length (jh_album_name jbm_header_zero) = 128" "length (jh_album_description jbm_header_zero) = 1024"
    "length (jh_artist jbm_header_zero) = 256" "length (jh_genre jbm_header_zero) = 64"
    using jbm_header_wf_zero by (simp_all add: jbm_header_wf_def layout_simps)
  show "rd_u32 demo_album_raw 0 = 1" "rd_u32 demo_album_raw 4 = 7" "rd_u32 demo_album_raw 1648 = 1"
    by (simp_all add: demo_album_raw_def enc_jbm_header_def rd_layout len l)
qed

lemma demo_loaded_inv: "cart_inv demo_loaded"
proof -
  have "metadata_shape demo_album_raw"
    by (simp add: metadata_shape_def demo_album_raw layout_simps JUKEBOY_JBM_VERSION_def)
  note sh = sanitize_shape [OF this]
  show ?thesis
    using demo_cart_inv sh demo_cart_ready(1)
    by (auto simp: demo_loaded_def cart_inv_def cart_mount_inv_def)
qed

lemma demo_loaded_header: "cartridge_service_is_mounted demo_loaded"
  "cartridge_service_get_metadata_header demo_loaded =
     Some (dec_jbm_header (cartridge_service_sanitize_metadata_strings demo_album_raw))"
  "jh_checksum (dec_jbm_header (cartridge_service_sanitize_metadata_strings demo_album_raw)) = 7"
  "cartridge_service_get_metadata_track_count demo_loaded = 1"
proof -
  show "cartridge_service_is_mounted demo_loaded"
    by (simp add: demo_loaded_def cartridge_service_is_mounted_def demo_cart_ready)
  show hd: "cartridge_service_get_metadata_header demo_loaded =
     Some (dec_jbm_header (cartridge_service_sanitize_metadata_strings demo_album_raw))"
    by (simp add: demo_loaded_def cartridge_service_get_metadata_header_def)
  have keep: "rd_u32 (cartridge_service_sanitize_metadata_strings demo_album_raw) off = rd_u32 demo_album_raw off"
    if "off = 4 \<or> off = 1648" for off
    unfolding cartridge_service_sanitize_metadata_strings_def
    by (rule zero_out_rd_u32)
      (use that demo_album_raw(4) in \<open>auto dest: sanitize_offsets_bound sanitize_offsets_not_count\<close>)
  show "jh_checksum (dec_jbm_header (cartridge_service_sanitize_metadata_strings demo_album_raw)) = 7"
    using keep [of 4] demo_album_raw(3) by (simp add: dec_jbm_header_def)
  show "cartridge_service_get_metadata_track_count demo_loaded = 1"
    using hd keep [of 1648] demo_album_raw(2)
    by (simp add: cartridge_service_get_metadata_track_count_def dec_jbm_header_def)
qed

end
