(* ===== verification/Play_History_Cache.thy ===== *)
theory Play_History_Cache
  imports Cartridge
begin

text \<open>
  The play history cache of \<^verbatim>\<open>main/play_history_service.c\<close>: a table of 50 albums and a
  table of 1000 tracks, the synchronisation with the mounted cartridge, the counting of
  plays, the pruning that keeps the tables within their capacity, and the serialized file
  format. A slot that is not in use is zeroed by the code, so a slot is an option; the slot,
  disk and record structs hold the same fields in the same order and are one record here.
  \<open>pc_dirty\<close> is \<^verbatim>\<open>s_dirty\<close>.
\<close>

section \<open>State\<close>

definition PLAY_HISTORY_STATE_VERSION :: u32 where "PLAY_HISTORY_STATE_VERSION = 1"
definition PLAY_HISTORY_MAX_ALBUMS :: nat where "PLAY_HISTORY_MAX_ALBUMS = 50"
definition PLAY_HISTORY_MAX_TRACKS :: nat where "PLAY_HISTORY_MAX_TRACKS = 1000"

record ph_album =
  pa_checksum :: u32
  pa_track_count :: u32
  pa_first_seen_sequence :: u32
  pa_last_seen_sequence :: u32
  pa_metadata :: jbm_header

record ph_track =
  pt_cartridge_checksum :: u32
  pt_track_index :: u32
  pt_track_file_num :: u32
  pt_play_count :: u32
  pt_first_seen_sequence :: u32
  pt_last_seen_sequence :: u32
  pt_metadata :: jbm_track

record ph_file_header =
  fh_version :: u32
  fh_next_sequence :: u32
  fh_album_count :: u32
  fh_track_count :: u32

record ph_cache =
  pc_version :: u32
  pc_next_sequence :: u32
  pc_album_count :: nat
  pc_track_count :: nat
  pc_albums :: "ph_album option list"
  pc_tracks :: "ph_track option list"
  pc_dirty :: bool

record ph_listen_count_event =
  le_cartridge_checksum :: u32
  le_track_index :: u32
  le_track_file_num :: u32
  le_play_count :: u32

definition PLAY_HISTORY_FILE_HEADER_BYTES :: nat where "PLAY_HISTORY_FILE_HEADER_BYTES = 16"
definition PLAY_HISTORY_DISK_ALBUM_BYTES :: nat where
  "PLAY_HISTORY_DISK_ALBUM_BYTES = 16 + JBM_HEADER_BYTES"
definition PLAY_HISTORY_DISK_TRACK_BYTES :: nat where
  "PLAY_HISTORY_DISK_TRACK_BYTES = 24 + JBM_TRACK_ENTRY_BYTES"

definition play_history_serialized_size_for_counts :: "nat \<Rightarrow> nat \<Rightarrow> nat" where
  "play_history_serialized_size_for_counts album_count track_count =
     PLAY_HISTORY_FILE_HEADER_BYTES + album_count * PLAY_HISTORY_DISK_ALBUM_BYTES +
     track_count * PLAY_HISTORY_DISK_TRACK_BYTES"

definition PLAY_HISTORY_MAX_SERIALIZED_BYTES :: nat where
  "PLAY_HISTORY_MAX_SERIALIZED_BYTES =
     play_history_serialized_size_for_counts PLAY_HISTORY_MAX_ALBUMS PLAY_HISTORY_MAX_TRACKS"

lemmas ph_sizes [layout_simps] = PLAY_HISTORY_FILE_HEADER_BYTES_def
  PLAY_HISTORY_DISK_ALBUM_BYTES_def PLAY_HISTORY_DISK_TRACK_BYTES_def

section \<open>Sequences and reset\<close>

definition play_history_next_sequence_locked :: "ph_cache \<Rightarrow> u32 \<times> ph_cache" where
  "play_history_next_sequence_locked c =
     (let sequence = (if pc_next_sequence c = 0 then 1 else pc_next_sequence c);
          next = sequence + 1 in
      (sequence, c\<lparr>pc_next_sequence := (if next = 0 then 1 else next)\<rparr>))"

definition play_history_reset_cache_locked :: "ph_cache \<Rightarrow> ph_cache" where
  "play_history_reset_cache_locked c =
     c\<lparr>pc_version := PLAY_HISTORY_STATE_VERSION, pc_next_sequence := 1, pc_album_count := 0,
       pc_track_count := 0, pc_albums := replicate PLAY_HISTORY_MAX_ALBUMS None,
       pc_tracks := replicate PLAY_HISTORY_MAX_TRACKS None\<rparr>"

section \<open>Scans\<close>

definition play_history_find_album_slot_locked :: "u32 \<Rightarrow> ph_cache \<Rightarrow> nat option" where
  "play_history_find_album_slot_locked checksum c =
     find_slot (slot_key pa_checksum checksum) (pc_albums c)"

definition play_history_find_free_album_slot_locked :: "ph_cache \<Rightarrow> nat option" where
  "play_history_find_free_album_slot_locked c = find_slot (\<lambda>x. x = None) (pc_albums c)"

definition pt_key :: "ph_track \<Rightarrow> u32 \<times> u32" where
  "pt_key t = (pt_cartridge_checksum t, pt_track_index t)"

definition play_history_find_track_slot_locked :: "u32 \<Rightarrow> u32 \<Rightarrow> ph_cache \<Rightarrow> nat option" where
  "play_history_find_track_slot_locked checksum track_index c =
     find_slot (slot_key pt_key (checksum, track_index)) (pc_tracks c)"

definition play_history_find_free_track_slot_locked :: "ph_cache \<Rightarrow> nat option" where
  "play_history_find_free_track_slot_locked c = find_slot (\<lambda>x. x = None) (pc_tracks c)"

fun oldest_step :: "u32 \<Rightarrow> bool \<Rightarrow> nat option \<times> u32 \<Rightarrow> nat \<times> ph_album option \<Rightarrow> nat option \<times> u32" where
  "oldest_step preserve_checksum preserve_current (slot, seq) (index, entry) =
     (case entry of None \<Rightarrow> (slot, seq)
      | Some a \<Rightarrow>
          if preserve_current \<and> pa_checksum a = preserve_checksum then (slot, seq)
          else if pa_first_seen_sequence a < seq then (Some index, pa_first_seen_sequence a)
          else (slot, seq))"

definition play_history_find_oldest_album_slot_locked :: "u32 \<Rightarrow> bool \<Rightarrow> ph_cache \<Rightarrow> nat option" where
  "play_history_find_oldest_album_slot_locked preserve_checksum preserve_current c =
     fst (foldl (oldest_step preserve_checksum preserve_current) (None, UINT32_MAX)
            (enumerate 0 (pc_albums c)))"

section \<open>Removing and making room\<close>

definition play_history_remove_album_locked :: "nat \<Rightarrow> ph_cache \<Rightarrow> ph_cache" where
  "play_history_remove_album_locked album_slot c =
     (if album_slot \<ge> length (pc_albums c) then c
      else case pc_albums c ! album_slot of None \<Rightarrow> c
      | Some a \<Rightarrow>
          let gone = slot_key pt_cartridge_checksum (pa_checksum a) in
          c\<lparr>pc_albums := (pc_albums c)[album_slot := None],
            pc_album_count := pc_album_count c - 1,
            pc_tracks := map (\<lambda>x. if gone x then None else x) (pc_tracks c),
            pc_track_count := pc_track_count c - length (filter gone (pc_tracks c))\<rparr>)"

definition play_history_count_missing_tracks_for_current_cartridge_locked ::
    "cart_state \<Rightarrow> u32 \<Rightarrow> ph_cache \<Rightarrow> nat" where
  "play_history_count_missing_tracks_for_current_cartridge_locked cart checksum c =
     length (filter (\<lambda>index. cartridge_service_get_metadata_track index cart \<noteq> None \<and>
                             play_history_find_track_slot_locked checksum (of_nat index) c = None)
       [0..<cartridge_service_get_metadata_track_count cart])"

lemma oldest_fold_in_use:
  "fst (foldl (oldest_step k p) (None, q) (enumerate 0 xs)) = Some i \<Longrightarrow>
     i < length xs \<and> (\<exists>a. xs ! i = Some a \<and> (p \<longrightarrow> pa_checksum a \<noteq> k))"
proof (induction xs arbitrary: i rule: rev_induct)
  case (snoc x xs)
  then show ?case
    by (cases "foldl (oldest_step k p) (None, q) (enumerate 0 xs)")
      (auto simp: enumerate_append_eq nth_append split: option.splits if_splits)
qed simp

lemma find_oldest_in_use:
  "play_history_find_oldest_album_slot_locked k p c = Some i \<Longrightarrow>
     i < length (pc_albums c) \<and> (\<exists>a. pc_albums c ! i = Some a \<and> (p \<longrightarrow> pa_checksum a \<noteq> k))"
  unfolding play_history_find_oldest_album_slot_locked_def by (rule oldest_fold_in_use)

lemma remove_album_shrinks:
  "i < length (pc_albums c) \<Longrightarrow> pc_albums c ! i = Some a \<Longrightarrow>
   length (used (pc_albums (play_history_remove_album_locked i c))) < length (used (pc_albums c))"
  using length_used_clear [of i "pc_albums c" a]
  by (simp add: play_history_remove_album_locked_def Let_def)

definition play_history_prune_slot :: "u32 \<Rightarrow> bool \<Rightarrow> ph_cache \<Rightarrow> nat option" where
  "play_history_prune_slot preserve_checksum preserve_current c =
     (case play_history_find_oldest_album_slot_locked preserve_checksum preserve_current c of
        None \<Rightarrow> if preserve_current then play_history_find_oldest_album_slot_locked 0 False c else None
      | Some i \<Rightarrow> Some i)"

lemma prune_slot_shrinks:
  "play_history_prune_slot k p c = Some i \<Longrightarrow>
   length (used (pc_albums (play_history_remove_album_locked i c))) < length (used (pc_albums c))"
  by (auto simp: play_history_prune_slot_def remove_album_shrinks split: option.splits if_splits
      dest!: find_oldest_in_use)

function play_history_ensure_capacity_locked ::
    "u32 \<Rightarrow> bool \<Rightarrow> nat \<Rightarrow> nat \<Rightarrow> ph_cache \<Rightarrow> esp_err \<times> ph_cache" where
  "play_history_ensure_capacity_locked preserve_checksum preserve_current album_delta track_delta c =
     (if pc_album_count c + album_delta > PLAY_HISTORY_MAX_ALBUMS \<or>
         pc_track_count c + track_delta > PLAY_HISTORY_MAX_TRACKS
      then case play_history_prune_slot preserve_checksum preserve_current c of
             None \<Rightarrow> (ESP_ERR_NO_MEM, c)
           | Some prune_slot \<Rightarrow>
               play_history_ensure_capacity_locked preserve_checksum preserve_current album_delta
                 track_delta (play_history_remove_album_locked prune_slot c)
      else (ESP_OK, c))"
  by pat_completeness auto
termination
  by (relation "measure (\<lambda>(_, _, _, _, c). length (used (pc_albums c)))")
    (simp_all add: prune_slot_shrinks)

declare play_history_ensure_capacity_locked.simps [simp del]

section \<open>Synchronising with the cartridge\<close>

text \<open>A write through a slot index that \<^verbatim>\<open>ensure_capacity\<close> has meanwhile released goes to a
  slot that is not in use; no reader looks at such a slot and the next owner zeroes it first.\<close>

definition sync_entry :: "jbm_track \<Rightarrow> u32 \<Rightarrow> ph_track \<Rightarrow> ph_track" where
  "sync_entry track sequence t = t\<lparr>pt_track_file_num := jt_file_num track,
     pt_last_seen_sequence := sequence, pt_metadata := track\<rparr>"

definition sync_track_update :: "jbm_track \<Rightarrow> u32 \<Rightarrow> nat \<Rightarrow> ph_cache \<Rightarrow> ph_cache" where
  "sync_track_update track sequence slot c =
     c\<lparr>pc_tracks := upd_slot slot (sync_entry track sequence) (pc_tracks c)\<rparr>"

definition fresh_track :: "u32 \<Rightarrow> nat \<Rightarrow> u32 \<Rightarrow> ph_track" where
  "fresh_track checksum index first =
     \<lparr>pt_cartridge_checksum = checksum, pt_track_index = of_nat index, pt_track_file_num = 0,
      pt_play_count = 0, pt_first_seen_sequence = first, pt_last_seen_sequence = 0,
      pt_metadata = jbm_track_zero\<rparr>"

definition fill_track :: "u32 \<Rightarrow> nat \<Rightarrow> nat \<Rightarrow> ph_cache \<Rightarrow> ph_cache" where
  "fill_track checksum index slot c =
     (let (first, c1) = play_history_next_sequence_locked c in
      c1\<lparr>pc_tracks := (pc_tracks c1)[slot := Some (fresh_track checksum index first)],
         pc_track_count := pc_track_count c1 + 1\<rparr>)"

fun sync_tracks :: "cart_state \<Rightarrow> u32 \<Rightarrow> u32 \<Rightarrow> nat list \<Rightarrow> ph_cache \<Rightarrow> esp_err \<times> ph_cache" where
  "sync_tracks cart checksum sequence [] c = (ESP_OK, c)"
| "sync_tracks cart checksum sequence (index # rest) c =
     (case cartridge_service_get_metadata_track index cart of
        None \<Rightarrow> sync_tracks cart checksum sequence rest c
      | Some track \<Rightarrow>
          (case play_history_find_track_slot_locked checksum (of_nat index) c of
             Some slot \<Rightarrow> sync_tracks cart checksum sequence rest (sync_track_update track sequence slot c)
           | None \<Rightarrow>
               (case play_history_find_free_track_slot_locked c of
                  None \<Rightarrow> (ESP_ERR_NO_MEM, c)
                | Some slot \<Rightarrow> sync_tracks cart checksum sequence rest
                    (sync_track_update track sequence slot (fill_track checksum index slot c)))))"

text \<open>The album entry: the slot found before room was made, or a new one.\<close>

definition sync_album_slot ::
    "u32 \<Rightarrow> nat option \<Rightarrow> ph_cache \<Rightarrow> nat option \<times> ph_cache" where
  "sync_album_slot checksum album_slot c =
     (case album_slot of Some slot \<Rightarrow> (Some slot, c)
      | None \<Rightarrow>
          (case play_history_find_free_album_slot_locked c of
             None \<Rightarrow> (None, c)
           | Some slot \<Rightarrow>
               let (first, c1) = play_history_next_sequence_locked c in
               (Some slot, c1\<lparr>pc_albums := (pc_albums c1)[slot := Some
                   \<lparr>pa_checksum = checksum, pa_track_count = 0, pa_first_seen_sequence = first,
                    pa_last_seen_sequence = 0, pa_metadata = jbm_header_zero\<rparr>],
                 pc_album_count := pc_album_count c1 + 1\<rparr>)))"

definition play_history_sync_current_cartridge_locked ::
    "cart_state \<Rightarrow> ph_cache \<Rightarrow> esp_err \<times> ph_cache" where
  "play_history_sync_current_cartridge_locked cart c =
     (if \<not> cartridge_service_is_mounted cart then (ESP_ERR_INVALID_STATE, c)
      else case cartridge_service_get_metadata_header cart of
        None \<Rightarrow> (ESP_ERR_NOT_FOUND, c)
      | Some metadata \<Rightarrow>
          let checksum = jh_checksum metadata;
              album_slot = play_history_find_album_slot_locked checksum c;
              album_delta = (if album_slot = None then 1 else 0);
              track_delta = play_history_count_missing_tracks_for_current_cartridge_locked cart checksum c;
              (err, c1) = play_history_ensure_capacity_locked checksum True album_delta track_delta c in
          if err \<noteq> ESP_OK then (err, c1)
          else case sync_album_slot checksum album_slot c1 of
            (None, c2) \<Rightarrow> (ESP_ERR_NO_MEM, c2)
          | (Some slot, c2) \<Rightarrow>
              let (sequence, c3) = play_history_next_sequence_locked c2;
                  c4 = c3\<lparr>pc_albums := upd_slot slot (\<lambda>a. a\<lparr>pa_track_count := jh_track_count metadata,
                          pa_last_seen_sequence := sequence, pa_metadata := metadata\<rparr>) (pc_albums c3)\<rparr>;
                  (err', c5) = sync_tracks cart checksum sequence
                          [0..<cartridge_service_get_metadata_track_count cart] c4 in
              if err' \<noteq> ESP_OK then (err', c5) else (ESP_OK, c5\<lparr>pc_dirty := True\<rparr>))"

section \<open>Counting a play\<close>

text \<open>The slot of the played track; a track of the mounted cartridge that is not recorded yet
  is recorded first.\<close>

definition countable_slot ::
    "cart_state \<Rightarrow> player_service_track_event \<Rightarrow> ph_cache \<Rightarrow> esp_err \<times> nat option \<times> ph_cache" where
  "countable_slot cart ev c =
     (case play_history_find_track_slot_locked (te_cartridge_checksum ev) (te_track_index ev) c of
        Some slot \<Rightarrow> (ESP_OK, Some slot, c)
      | None \<Rightarrow>
          (case cartridge_service_get_metadata_header cart of
             None \<Rightarrow> (ESP_OK, None, c)
           | Some metadata \<Rightarrow>
               if jh_checksum metadata = te_cartridge_checksum ev then
                 let (e, c') = play_history_sync_current_cartridge_locked cart c in
                 if e \<noteq> ESP_OK then (e, None, c')
                 else (ESP_OK, play_history_find_track_slot_locked (te_cartridge_checksum ev)
                                 (te_track_index ev) c', c')
               else (ESP_OK, None, c)))"

definition count_play :: "player_service_track_event \<Rightarrow> u32 \<Rightarrow> ph_track \<Rightarrow> ph_track" where
  "count_play ev sequence t = t\<lparr>pt_play_count := pt_play_count t + 1,
     pt_track_file_num := te_track_file_num ev, pt_last_seen_sequence := sequence\<rparr>"

definition play_history_apply_countable_play_locked ::
    "cart_state \<Rightarrow> player_service_track_event \<Rightarrow> ph_cache \<Rightarrow>
     esp_err \<times> ph_listen_count_event option \<times> ph_cache" where
  "play_history_apply_countable_play_locked cart ev c =
     (case countable_slot cart ev c of (err, slot, c1) \<Rightarrow>
        if err \<noteq> ESP_OK then (err, None, c1)
        else case slot of None \<Rightarrow> (ESP_ERR_NOT_FOUND, None, c1)
        | Some s \<Rightarrow>
            let (sequence, c2) = play_history_next_sequence_locked c1;
                c3 = c2\<lparr>pc_tracks := upd_slot s (count_play ev sequence) (pc_tracks c2)\<rparr>;
                listen = \<lparr>le_cartridge_checksum = te_cartridge_checksum ev,
                       le_track_index = te_track_index ev, le_track_file_num = te_track_file_num ev,
                       le_play_count = pt_play_count (the (pc_tracks c3 ! s))\<rparr>;
                c4 = (case play_history_find_album_slot_locked (te_cartridge_checksum ev) c3 of
                        None \<Rightarrow> c3
                      | Some a \<Rightarrow> c3\<lparr>pc_albums := upd_slot a (\<lambda>r. r\<lparr>pa_last_seen_sequence := sequence\<rparr>)
                                                 (pc_albums c3)\<rparr>) in
            (ESP_OK, Some listen, c4\<lparr>pc_dirty := True\<rparr>))"

section \<open>The serialized file\<close>

definition enc_ph_album :: "ph_album \<Rightarrow> bytes" where
  "enc_ph_album a = u32_bytes (pa_checksum a) @ u32_bytes (pa_track_count a) @
     u32_bytes (pa_first_seen_sequence a) @ u32_bytes (pa_last_seen_sequence a) @
     enc_jbm_header (pa_metadata a)"

definition dec_ph_album :: "bytes \<Rightarrow> ph_album" where
  "dec_ph_album b = \<lparr>pa_checksum = rd_u32 b 0, pa_track_count = rd_u32 b 4,
     pa_first_seen_sequence = rd_u32 b 8, pa_last_seen_sequence = rd_u32 b 12,
     pa_metadata = dec_jbm_header (rd_bytes b 16 JBM_HEADER_BYTES)\<rparr>"

definition enc_ph_track :: "ph_track \<Rightarrow> bytes" where
  "enc_ph_track t = u32_bytes (pt_cartridge_checksum t) @ u32_bytes (pt_track_index t) @
     u32_bytes (pt_track_file_num t) @ u32_bytes (pt_play_count t) @
     u32_bytes (pt_first_seen_sequence t) @ u32_bytes (pt_last_seen_sequence t) @
     enc_jbm_track (pt_metadata t)"

definition dec_ph_track :: "bytes \<Rightarrow> ph_track" where
  "dec_ph_track b = \<lparr>pt_cartridge_checksum = rd_u32 b 0, pt_track_index = rd_u32 b 4,
     pt_track_file_num = rd_u32 b 8, pt_play_count = rd_u32 b 12,
     pt_first_seen_sequence = rd_u32 b 16, pt_last_seen_sequence = rd_u32 b 20,
     pt_metadata = dec_jbm_track (rd_bytes b 24 JBM_TRACK_ENTRY_BYTES)\<rparr>"

definition enc_ph_file_header :: "ph_file_header \<Rightarrow> bytes" where
  "enc_ph_file_header h = u32_bytes (fh_version h) @ u32_bytes (fh_next_sequence h) @
     u32_bytes (fh_album_count h) @ u32_bytes (fh_track_count h)"

definition dec_ph_file_header :: "bytes \<Rightarrow> ph_file_header" where
  "dec_ph_file_header b = \<lparr>fh_version = rd_u32 b 0, fh_next_sequence = rd_u32 b 4,
     fh_album_count = rd_u32 b 8, fh_track_count = rd_u32 b 12\<rparr>"

definition play_history_serialized_size_locked :: "ph_cache \<Rightarrow> nat" where
  "play_history_serialized_size_locked c =
     PLAY_HISTORY_FILE_HEADER_BYTES + pc_album_count c * PLAY_HISTORY_DISK_ALBUM_BYTES +
     pc_track_count c * PLAY_HISTORY_DISK_TRACK_BYTES"

definition play_history_build_serialized_blob_locked :: "ph_cache \<Rightarrow> esp_err \<times> bytes" where
  "play_history_build_serialized_blob_locked c =
     (let total_size = play_history_serialized_size_locked c;
          header = \<lparr>fh_version = PLAY_HISTORY_STATE_VERSION, fh_next_sequence = pc_next_sequence c,
                    fh_album_count = of_nat (pc_album_count c),
                    fh_track_count = of_nat (pc_track_count c)\<rparr> in
      if total_size > PLAY_HISTORY_MAX_SERIALIZED_BYTES then (ESP_ERR_INVALID_SIZE, [])
      else
        let blob = enc_ph_file_header header @ concat (map enc_ph_album (used (pc_albums c))) @
                   concat (map enc_ph_track (used (pc_tracks c))) in
        if length blob \<noteq> total_size then (ESP_FAIL, []) else (ESP_OK, blob))"

primrec load_albums :: "nat \<Rightarrow> bytes \<Rightarrow> ph_cache \<Rightarrow> esp_err \<times> bytes \<times> ph_cache" where
  "load_albums 0 cursor c = (ESP_OK, cursor, c)"
| "load_albums (Suc n) cursor c =
     (if length cursor < PLAY_HISTORY_DISK_ALBUM_BYTES
      then (ESP_FAIL, cursor, play_history_reset_cache_locked c)
      else case play_history_find_free_album_slot_locked c of
        None \<Rightarrow> (ESP_ERR_NO_MEM, cursor, play_history_reset_cache_locked c)
      | Some slot \<Rightarrow>
          load_albums n (drop PLAY_HISTORY_DISK_ALBUM_BYTES cursor)
            (c\<lparr>pc_albums := (pc_albums c)[slot := Some
                 (dec_ph_album (take PLAY_HISTORY_DISK_ALBUM_BYTES cursor))],
               pc_album_count := pc_album_count c + 1\<rparr>))"

primrec load_tracks :: "nat \<Rightarrow> bytes \<Rightarrow> ph_cache \<Rightarrow> esp_err \<times> bytes \<times> ph_cache" where
  "load_tracks 0 cursor c = (ESP_OK, cursor, c)"
| "load_tracks (Suc n) cursor c =
     (if length cursor < PLAY_HISTORY_DISK_TRACK_BYTES
      then (ESP_FAIL, cursor, play_history_reset_cache_locked c)
      else case play_history_find_free_track_slot_locked c of
        None \<Rightarrow> (ESP_ERR_NO_MEM, cursor, play_history_reset_cache_locked c)
      | Some slot \<Rightarrow>
          load_tracks n (drop PLAY_HISTORY_DISK_TRACK_BYTES cursor)
            (c\<lparr>pc_tracks := (pc_tracks c)[slot := Some
                 (dec_ph_track (take PLAY_HISTORY_DISK_TRACK_BYTES cursor))],
               pc_track_count := pc_track_count c + 1\<rparr>))"

definition play_history_load_from_serialized_bytes_locked ::
    "bytes \<Rightarrow> ph_cache \<Rightarrow> esp_err \<times> ph_cache" where
  "play_history_load_from_serialized_bytes_locked buffer c0 =
     (let c = play_history_reset_cache_locked c0;
          header = dec_ph_file_header buffer in
      if length buffer < PLAY_HISTORY_FILE_HEADER_BYTES then (ESP_FAIL, c)
      else if fh_version header \<noteq> PLAY_HISTORY_STATE_VERSION \<or>
              unat (fh_album_count header) > PLAY_HISTORY_MAX_ALBUMS \<or>
              unat (fh_track_count header) > PLAY_HISTORY_MAX_TRACKS
        then (ESP_ERR_INVALID_RESPONSE, c)
      else if length buffer \<noteq> play_history_serialized_size_for_counts
                (unat (fh_album_count header)) (unat (fh_track_count header))
        then (ESP_ERR_INVALID_RESPONSE, c)
      else
        let c1 = c\<lparr>pc_version := fh_version header,
                   pc_next_sequence := (if fh_next_sequence header = 0 then 1
                                        else fh_next_sequence header)\<rparr>;
            (err, cursor, c2) = load_albums (unat (fh_album_count header))
                                  (drop PLAY_HISTORY_FILE_HEADER_BYTES buffer) c1 in
        if err \<noteq> ESP_OK then (err, c2)
        else
          let (err', cursor', c3) = load_tracks (unat (fh_track_count header)) cursor c2 in
          if err' \<noteq> ESP_OK then (err', c3)
          else if cursor' \<noteq> [] then (ESP_ERR_INVALID_RESPONSE, play_history_reset_cache_locked c3)
          else if fh_next_sequence header = 0
            then (ESP_OK, c3\<lparr>pc_next_sequence := 1, pc_dirty := True\<rparr>)
          else (ESP_OK, c3))"

section \<open>The invariant of the cache\<close>

text \<open>The shape every cache has, also one read from a file, and the uniqueness of the keys,
  which the operations keep but a file does not guarantee.\<close>

definition ph_shape :: "ph_cache \<Rightarrow> bool" where
  "ph_shape c \<longleftrightarrow>
     length (pc_albums c) = PLAY_HISTORY_MAX_ALBUMS \<and> length (pc_tracks c) = PLAY_HISTORY_MAX_TRACKS \<and>
     pc_album_count c = length (used (pc_albums c)) \<and> pc_track_count c = length (used (pc_tracks c)) \<and>
     (\<forall>a. Some a \<in> set (pc_albums c) \<longrightarrow> jbm_header_wf (pa_metadata a)) \<and>
     (\<forall>t. Some t \<in> set (pc_tracks c) \<longrightarrow> jbm_track_wf (pt_metadata t)) \<and>
     pc_next_sequence c \<noteq> 0 \<and> pc_version c = PLAY_HISTORY_STATE_VERSION"

definition ph_keys :: "ph_cache \<Rightarrow> bool" where
  "ph_keys c \<longleftrightarrow> slot_keys_unique pa_checksum (pc_albums c) \<and> slot_keys_unique pt_key (pc_tracks c)"

named_theorems ph_frame \<open>fields an operation leaves unchanged\<close>

lemma next_sequence_frame [ph_frame]:
  "pc_albums (snd (play_history_next_sequence_locked c)) = pc_albums c"
  "pc_tracks (snd (play_history_next_sequence_locked c)) = pc_tracks c"
  "pc_album_count (snd (play_history_next_sequence_locked c)) = pc_album_count c"
  "pc_track_count (snd (play_history_next_sequence_locked c)) = pc_track_count c"
  "pc_version (snd (play_history_next_sequence_locked c)) = pc_version c"
  "pc_dirty (snd (play_history_next_sequence_locked c)) = pc_dirty c"
  "pc_next_sequence (snd (play_history_next_sequence_locked c)) \<noteq> 0"
  by (simp_all add: play_history_next_sequence_locked_def Let_def)

lemma set_next_sequence_inv:
  "ph_shape c \<Longrightarrow> n \<noteq> 0 \<Longrightarrow> ph_shape (c\<lparr>pc_next_sequence := n\<rparr>)"
  "ph_keys (c\<lparr>pc_next_sequence := n\<rparr>) = ph_keys c"
  "ph_shape (c\<lparr>pc_dirty := d\<rparr>) = ph_shape c"
  "ph_keys (c\<lparr>pc_dirty := d\<rparr>) = ph_keys c"
  by (simp_all add: ph_shape_def ph_keys_def)

lemma next_sequence_inv:
  assumes "play_history_next_sequence_locked c = (q, c')"
  shows "ph_shape c \<Longrightarrow> ph_shape c'" and "ph_keys c' = ph_keys c"
    and "pc_albums c' = pc_albums c" and "pc_tracks c' = pc_tracks c" and "pc_dirty c' = pc_dirty c"
    and "q \<noteq> 0" and "pc_track_count c' = pc_track_count c" and "pc_album_count c' = pc_album_count c"
  using assms by (auto simp: play_history_next_sequence_locked_def Let_def ph_shape_def ph_keys_def
      split: if_splits)

lemma reset_inv [simp]:
  "ph_shape (play_history_reset_cache_locked c)" "ph_keys (play_history_reset_cache_locked c)"
  by (auto simp: ph_shape_def ph_keys_def play_history_reset_cache_locked_def)

lemma remove_album_inv:
  assumes "ph_shape c"
  shows "ph_shape (play_history_remove_album_locked i c)"
    and "ph_keys c \<Longrightarrow> ph_keys (play_history_remove_album_locked i c)"
proof -
  show "ph_shape (play_history_remove_album_locked i c)"
  proof (cases "i < length (pc_albums c) \<and> pc_albums c ! i \<noteq> None")
    case False
    then show ?thesis
      using assms by (auto simp: play_history_remove_album_locked_def)
  next
    case True
    then obtain a where a: "pc_albums c ! i = Some a" "i < length (pc_albums c)" by auto
    show ?thesis
      using assms a length_used_clear [OF a(2,1)]
        used_drop_gone [of pt_cartridge_checksum "pa_checksum a" "pc_tracks c"]
      by (auto simp: play_history_remove_album_locked_def ph_shape_def Let_def
          dest!: set_list_update_option split: if_splits)
  qed
  show "ph_keys c \<Longrightarrow> ph_keys (play_history_remove_album_locked i c)"
    by (auto simp: play_history_remove_album_locked_def ph_keys_def Let_def slot_keys_unique_clear
        slot_keys_unique_drop split: option.split)
qed

lemma ensure_capacity_inv:
  assumes "play_history_ensure_capacity_locked k p da dt c = (e, c')" and "ph_shape c"
  shows "ph_shape c' \<and> (ph_keys c \<longrightarrow> ph_keys c') \<and> pc_dirty c' = pc_dirty c \<and>
     (e = ESP_OK \<longrightarrow> pc_album_count c' + da \<le> PLAY_HISTORY_MAX_ALBUMS \<and>
                    pc_track_count c' + dt \<le> PLAY_HISTORY_MAX_TRACKS)"
  using assms
proof (induction k p da dt c rule: play_history_ensure_capacity_locked.induct)
  case (1 k p da dt c)
  have d: "pc_dirty (play_history_remove_album_locked i c) = pc_dirty c" for i
    by (auto simp: play_history_remove_album_locked_def Let_def split: option.split)
  show ?case
    using "1.prems" "1.IH" remove_album_inv [OF "1.prems"(2)] d
    by (subst (asm) play_history_ensure_capacity_locked.simps)
      (auto split: if_splits option.splits)
qed

text \<open>Writing through a slot.\<close>

lemma upd_track_inv:
  assumes "ph_shape c" and "\<And>t. jbm_track_wf (pt_metadata t) \<Longrightarrow> jbm_track_wf (pt_metadata (f t))"
    and "\<And>t. pt_key (f t) = pt_key t"
  shows "ph_shape (c\<lparr>pc_tracks := upd_slot i f (pc_tracks c)\<rparr>)"
    and "ph_keys c \<Longrightarrow> ph_keys (c\<lparr>pc_tracks := upd_slot i f (pc_tracks c)\<rparr>)"
  using assms by (auto simp: ph_shape_def ph_keys_def upd_slot_simps upd_slot_keys dest!: upd_slot_set)

lemma upd_album_inv:
  assumes "ph_shape c" and "\<And>t. jbm_header_wf (pa_metadata t) \<Longrightarrow> jbm_header_wf (pa_metadata (f t))"
    and "\<And>t. pa_checksum (f t) = pa_checksum t"
  shows "ph_shape (c\<lparr>pc_albums := upd_slot i f (pc_albums c)\<rparr>)"
    and "ph_keys c \<Longrightarrow> ph_keys (c\<lparr>pc_albums := upd_slot i f (pc_albums c)\<rparr>)"
  using assms by (auto simp: ph_shape_def ph_keys_def upd_slot_simps upd_slot_keys dest!: upd_slot_set)

lemma fill_track_inv:
  assumes "ph_shape c" and "play_history_find_free_track_slot_locked c = Some i"
    and "jbm_track_wf (pt_metadata t)"
  shows "ph_shape (c\<lparr>pc_tracks := (pc_tracks c)[i := Some t], pc_track_count := pc_track_count c + 1\<rparr>)"
    and "ph_keys c \<Longrightarrow> play_history_find_track_slot_locked (pt_cartridge_checksum t) (pt_track_index t) c = None \<Longrightarrow>
      ph_keys (c\<lparr>pc_tracks := (pc_tracks c)[i := Some t], pc_track_count := pc_track_count c + 1\<rparr>)"
  using assms find_slot_SomeD [OF assms(2) [unfolded play_history_find_free_track_slot_locked_def]]
  by (auto simp: ph_shape_def ph_keys_def length_used_fill play_history_find_track_slot_locked_def
      slot_keys_unique_fill pt_key_def dest!: set_list_update_option)

lemma fill_album_inv:
  assumes "ph_shape c" and "play_history_find_free_album_slot_locked c = Some i"
    and "jbm_header_wf (pa_metadata a)"
  shows "ph_shape (c\<lparr>pc_albums := (pc_albums c)[i := Some a], pc_album_count := pc_album_count c + 1\<rparr>)"
    and "ph_keys c \<Longrightarrow> play_history_find_album_slot_locked (pa_checksum a) c = None \<Longrightarrow>
      ph_keys (c\<lparr>pc_albums := (pc_albums c)[i := Some a], pc_album_count := pc_album_count c + 1\<rparr>)"
  using assms find_slot_SomeD [OF assms(2) [unfolded play_history_find_free_album_slot_locked_def]]
  by (auto simp: ph_shape_def ph_keys_def length_used_fill play_history_find_album_slot_locked_def
      slot_keys_unique_fill dest!: set_list_update_option)

section \<open>The entry of a track\<close>

text \<open>What the cache records for a track of an album: the specification the operations are
  stated against, a map from the pair of the album's checksum and the track's index.\<close>

definition track_entry :: "ph_cache \<Rightarrow> u32 \<times> u32 \<Rightarrow> ph_track option" where
  "track_entry c k = lookup_slot pt_key k (pc_tracks c)"

definition album_entry :: "ph_cache \<Rightarrow> u32 \<Rightarrow> ph_album option" where
  "album_entry c k = lookup_slot pa_checksum k (pc_albums c)"

lemma track_entry_find:
  "track_entry c (ck, idx) = None \<longleftrightarrow> play_history_find_track_slot_locked ck idx c = None"
  by (simp add: track_entry_def lookup_slot_find play_history_find_track_slot_locked_def)

lemma sync_entry_simps [simp]:
  "pt_key (sync_entry track sequence t) = pt_key t"
  "pt_play_count (sync_entry track sequence t) = pt_play_count t"
  "pt_metadata (sync_entry track sequence t) = track"
  "pt_track_file_num (sync_entry track sequence t) = jt_file_num track"
  by (simp_all add: sync_entry_def pt_key_def)

lemma fresh_track_simps [simp]:
  "pt_key (fresh_track ck i q) = (ck, of_nat i)" "pt_play_count (fresh_track ck i q) = 0"
  "jbm_track_wf (pt_metadata (fresh_track ck i q))"
  "pt_cartridge_checksum (fresh_track ck i q) = ck" "pt_track_index (fresh_track ck i q) = of_nat i"
  by (simp_all add: fresh_track_def pt_key_def)

lemma sync_track_update_inv:
  assumes "ph_shape c" and "jbm_track_wf track"
  shows "ph_shape (sync_track_update track sequence slot c)"
    and "ph_keys c \<Longrightarrow> ph_keys (sync_track_update track sequence slot c)"
  using upd_track_inv [OF assms(1), of "sync_entry track sequence" slot] assms(2)
  by (simp_all add: sync_track_update_def)

lemma fill_track_keeps:
  assumes "ph_shape c" and "play_history_find_free_track_slot_locked c = Some slot"
  shows "ph_shape (fill_track checksum index slot c)"
    and "ph_keys c \<Longrightarrow> play_history_find_track_slot_locked checksum (of_nat index) c = None \<Longrightarrow>
           ph_keys (fill_track checksum index slot c)"
proof -
  obtain q c1 where n: "play_history_next_sequence_locked c = (q, c1)" by fastforce
  note c1 = next_sequence_inv [OF n]
  have f: "play_history_find_free_track_slot_locked c1 = Some slot"
      "play_history_find_track_slot_locked checksum (of_nat index) c1 =
       play_history_find_track_slot_locked checksum (of_nat index) c"
    using assms(2) c1(4) by (simp_all add:
        play_history_find_free_track_slot_locked_def play_history_find_track_slot_locked_def)
  show "ph_shape (fill_track checksum index slot c)"
    and "ph_keys c \<Longrightarrow> play_history_find_track_slot_locked checksum (of_nat index) c = None \<Longrightarrow>
           ph_keys (fill_track checksum index slot c)"
    using fill_track_inv [OF c1(1) [OF assms(1)] f(1), of "fresh_track checksum index q"] c1(2) f(2)
    by (simp_all add: fill_track_def n)
qed

text \<open>The entries after the two kinds of step: the track has its new entry, with the plays
  counted so far, and every other entry is as before.\<close>

definition recorded :: "jbm_track \<Rightarrow> ph_track option \<Rightarrow> ph_track option \<Rightarrow> bool" where
  "recorded track old new \<longleftrightarrow>
     (case new of None \<Rightarrow> False
      | Some r \<Rightarrow> pt_metadata r = track \<and> pt_track_file_num r = jt_file_num track \<and>
          pt_play_count r = (case old of None \<Rightarrow> 0 | Some r0 \<Rightarrow> pt_play_count r0))"

lemma track_entry_update:
  assumes "ph_keys c" and "play_history_find_track_slot_locked ck idx c = Some slot"
  shows "track_entry (sync_track_update track sequence slot c) k =
    (if k = (ck, idx) then map_option (sync_entry track sequence) (track_entry c k) else track_entry c k)"
  using assms
  by (simp add: track_entry_def sync_track_update_def ph_keys_def play_history_find_track_slot_locked_def
      lookup_slot_upd)

lemma track_entry_fill:
  assumes "ph_keys c" and "play_history_find_track_slot_locked ck (of_nat i) c = None"
    and "play_history_find_free_track_slot_locked c = Some slot"
  obtains q where "\<And>k. track_entry (fill_track ck i slot c) k =
      (if k = (ck, of_nat i) then Some (fresh_track ck i q) else track_entry c k)"
    and "play_history_find_track_slot_locked ck (of_nat i) (fill_track ck i slot c) = Some slot"
proof -
  obtain q c1 where n: "play_history_next_sequence_locked c = (q, c1)" by fastforce
  have slot: "slot < length (pc_tracks c)" "pc_tracks c ! slot = None"
    using find_slot_SomeD assms(3) by (auto simp: play_history_find_free_track_slot_locked_def)
  let ?xs = "(pc_tracks c)[slot := Some (fresh_track ck i q)]"
  have tr: "pc_tracks (fill_track ck i slot c) = ?xs"
    by (simp add: fill_track_def n next_sequence_inv [OF n])
  have none: "find_slot (slot_key pt_key (pt_key (fresh_track ck i q))) (pc_tracks c) = None"
    using assms(2) by (simp add: play_history_find_track_slot_locked_def)
  have keys: "slot_keys_unique pt_key (pc_tracks c)" using assms(1) by (simp add: ph_keys_def)
  have u: "slot_keys_unique pt_key ?xs" using keys none by (rule slot_keys_unique_fill)
  show ?thesis
  proof
    show "track_entry (fill_track ck i slot c) k =
      (if k = (ck, of_nat i) then Some (fresh_track ck i q) else track_entry c k)" for k
      using lookup_slot_fill [OF keys none slot] by (simp add: track_entry_def tr)
    show "play_history_find_track_slot_locked ck (of_nat i) (fill_track ck i slot c) = Some slot"
      using find_slot_unique [OF u, of slot "fresh_track ck i q"] slot
      by (simp add: play_history_find_track_slot_locked_def tr)
  qed
qed

lemma sync_found_entries:
  assumes "ph_keys c" and "play_history_find_track_slot_locked ck (of_nat i) c = Some slot"
  shows "recorded track (track_entry c (ck, of_nat i))
           (track_entry (sync_track_update track q slot c) (ck, of_nat i))"
    and "k \<noteq> (ck, of_nat i) \<Longrightarrow> track_entry (sync_track_update track q slot c) k = track_entry c k"
  using track_entry_update [OF assms, of track q] track_entry_find [of c ck "of_nat i"] assms(2)
  by (auto simp: recorded_def split: option.split)

lemma sync_filled_entries:
  assumes "ph_keys c" and "ph_shape c" and "play_history_find_track_slot_locked ck (of_nat i) c = None"
    and "play_history_find_free_track_slot_locked c = Some slot"
  shows "recorded track (track_entry c (ck, of_nat i))
           (track_entry (sync_track_update track q slot (fill_track ck i slot c)) (ck, of_nat i))"
    and "k \<noteq> (ck, of_nat i) \<Longrightarrow>
           track_entry (sync_track_update track q slot (fill_track ck i slot c)) k = track_entry c k"
proof -
  obtain q' where e: "\<And>k. track_entry (fill_track ck i slot c) k =
      (if k = (ck, of_nat i) then Some (fresh_track ck i q') else track_entry c k)"
    and f: "play_history_find_track_slot_locked ck (of_nat i) (fill_track ck i slot c) = Some slot"
    using track_entry_fill [OF assms(1,3,4)] by blast
  have k: "ph_keys (fill_track ck i slot c)"
    using fill_track_keeps(2) [OF assms(2,4) assms(1,3)] .
  have none: "track_entry c (ck, of_nat i) = None"
    using assms(3) by (simp only: track_entry_find)
  show "recorded track (track_entry c (ck, of_nat i))
           (track_entry (sync_track_update track q slot (fill_track ck i slot c)) (ck, of_nat i))"
    unfolding track_entry_update [OF k f] e none by (simp add: recorded_def)
  show "k \<noteq> (ck, of_nat i) \<Longrightarrow>
           track_entry (sync_track_update track q slot (fill_track ck i slot c)) k = track_entry c k"
    unfolding track_entry_update [OF k f] e by simp
qed

lemma sync_step_frame:
  "pc_albums (sync_track_update track q slot c) = pc_albums c"
  "pc_dirty (sync_track_update track q slot c) = pc_dirty c"
  "pc_albums (fill_track ck i slot c) = pc_albums c"
  "pc_dirty (fill_track ck i slot c) = pc_dirty c"
  by (simp_all add: sync_track_update_def fill_track_def next_sequence_inv split: prod.split)

lemma sync_tracks_Cons_cases:
  assumes "sync_tracks cart ck q (i # rest) c = (e, c')"
  obtains (skip) "cartridge_service_get_metadata_track i cart = None"
      "sync_tracks cart ck q rest c = (e, c')"
  | (full) t where "cartridge_service_get_metadata_track i cart = Some t"
      "play_history_find_track_slot_locked ck (of_nat i) c = None"
      "play_history_find_free_track_slot_locked c = None" "e = ESP_ERR_NO_MEM" "c' = c"
  | (found) t slot where "cartridge_service_get_metadata_track i cart = Some t"
      "play_history_find_track_slot_locked ck (of_nat i) c = Some slot"
      "sync_tracks cart ck q rest (sync_track_update t q slot c) = (e, c')"
  | (filled) t slot where "cartridge_service_get_metadata_track i cart = Some t"
      "play_history_find_track_slot_locked ck (of_nat i) c = None"
      "play_history_find_free_track_slot_locked c = Some slot"
      "sync_tracks cart ck q rest (sync_track_update t q slot (fill_track ck i slot c)) = (e, c')"
  using assms by (auto split: option.splits)

lemma sync_tracks_inv:
  assumes "cart_inv cart" and "ph_shape c" and "sync_tracks cart ck q idxs c = (e, c')"
  shows "ph_shape c' \<and> (ph_keys c \<longrightarrow> ph_keys c') \<and> pc_albums c' = pc_albums c \<and> pc_dirty c' = pc_dirty c"
  using assms(2,3)
proof (induction idxs arbitrary: c)
  case (Cons i rest)
  note wf = cart_metadata.track_ok [OF assms(1), of i, THEN conjunct1]
  from Cons.prems(2) show ?case
  proof (cases rule: sync_tracks_Cons_cases)
    case skip
    then show ?thesis using Cons.IH Cons.prems(1) by blast
  next
    case (full t)
    then show ?thesis using Cons.prems(1) by blast
  next
    case (found t slot)
    note step = sync_track_update_inv [OF Cons.prems(1) wf [OF found(1)], of q slot]
    show ?thesis using Cons.IH [OF step(1) found(3)] step(2) by (simp add: sync_step_frame)
  next
    case (filled t slot)
    note fill = fill_track_keeps [OF Cons.prems(1) filled(3), of ck i]
    note step = sync_track_update_inv [OF fill(1) wf [OF filled(1)], of q slot]
    show ?thesis using Cons.IH [OF step(1) filled(4)] step(2) fill(2) filled(2) by (simp add: sync_step_frame)
  qed
qed simp

text \<open>A run of the loop records every track it visits and leaves the other entries alone.\<close>

lemma sync_tracks_entries:
  assumes "cart_inv cart" and "ph_shape c" and "ph_keys c"
    and "sync_tracks cart ck q idxs c = (e, c')"
    and "distinct (map (of_nat :: nat \<Rightarrow> u32) idxs)"
  shows "k \<notin> (\<lambda>i. (ck, of_nat i)) ` set idxs \<Longrightarrow> track_entry c' k = track_entry c k"
    and "e = ESP_OK \<Longrightarrow> i \<in> set idxs \<Longrightarrow> cartridge_service_get_metadata_track i cart = Some t \<Longrightarrow>
           recorded t (track_entry c (ck, of_nat i)) (track_entry c' (ck, of_nat i))"
proof -
  have "(\<forall>k. k \<notin> (\<lambda>i. (ck, of_nat i)) ` set idxs \<longrightarrow> track_entry c' k = track_entry c k) \<and>
    (e = ESP_OK \<longrightarrow> (\<forall>i t. i \<in> set idxs \<longrightarrow> cartridge_service_get_metadata_track i cart = Some t \<longrightarrow>
       recorded t (track_entry c (ck, of_nat i)) (track_entry c' (ck, of_nat i))))"
    using assms(2-5)
  proof (induction idxs arbitrary: c)
    case (Cons i rest)
    note wf = cart_metadata.track_ok [OF assms(1), of i, THEN conjunct1]
    have i: "(ck, of_nat i) \<notin> (\<lambda>i. (ck, of_nat i :: u32)) ` set rest"
      using Cons.prems(4) by (auto simp: image_iff)
    have d: "distinct (map (of_nat :: nat \<Rightarrow> u32) rest)" using Cons.prems(4) by simp
    have combine: ?case
      if t: "cartridge_service_get_metadata_track i cart = Some t"
        and new: "recorded t (track_entry c (ck, of_nat i)) (track_entry c2 (ck, of_nat i))"
        and other: "\<And>k. k \<noteq> (ck, of_nat i) \<Longrightarrow> track_entry c2 k = track_entry c k"
        and IH: "(\<forall>k. k \<notin> (\<lambda>i. (ck, of_nat i)) ` set rest \<longrightarrow> track_entry c' k = track_entry c2 k) \<and>
          (e = ESP_OK \<longrightarrow> (\<forall>i t. i \<in> set rest \<longrightarrow> cartridge_service_get_metadata_track i cart = Some t \<longrightarrow>
             recorded t (track_entry c2 (ck, of_nat i)) (track_entry c' (ck, of_nat i))))"
      for t c2
    proof -
      have "j \<in> set rest \<Longrightarrow> track_entry c2 (ck, of_nat j) = track_entry c (ck, of_nat j)" for j
        using i by (intro other) (metis image_eqI)
      moreover have "track_entry c' (ck, of_nat i) = track_entry c2 (ck, of_nat i)"
        using IH i by blast
      ultimately show ?thesis using t new IH other by simp
    qed
    from Cons.prems(3) show ?case
    proof (cases rule: sync_tracks_Cons_cases)
      case skip
      then show ?thesis using Cons.IH [OF Cons.prems(1,2) _ d] by (auto simp: image_iff)
    next
      case (full t)
      then show ?thesis by simp
    next
      case (found t slot)
      note step = sync_track_update_inv [OF Cons.prems(1) wf [OF found(1)], of q slot]
      note ent = sync_found_entries [where track = t and q = q, OF Cons.prems(2) found(2)]
      show ?thesis
        by (rule combine [OF found(1) ent Cons.IH [OF step(1) step(2) [OF Cons.prems(2)] found(3) d]])
    next
      case (filled t slot)
      note fill = fill_track_keeps [OF Cons.prems(1) filled(3), of ck i]
      note step = sync_track_update_inv [OF fill(1) wf [OF filled(1)], of q slot]
      note ent = sync_filled_entries [where track = t and q = q, OF Cons.prems(2,1) filled(2,3)]
      show ?thesis
        by (rule combine [OF filled(1) ent Cons.IH [OF step(1)
              step(2) [OF fill(2) [OF Cons.prems(2) filled(2)]] filled(4) d]])
    qed
  qed simp
  then show "k \<notin> (\<lambda>i. (ck, of_nat i)) ` set idxs \<Longrightarrow> track_entry c' k = track_entry c k"
    and "e = ESP_OK \<Longrightarrow> i \<in> set idxs \<Longrightarrow> cartridge_service_get_metadata_track i cart = Some t \<Longrightarrow>
           recorded t (track_entry c (ck, of_nat i)) (track_entry c' (ck, of_nat i))"
    by blast+
qed

section \<open>Which albums are pruned\<close>

definition albums_of :: "ph_cache \<Rightarrow> ph_album set" where
  "albums_of c = set (used (pc_albums c))"

definition may_prune :: "u32 \<Rightarrow> bool \<Rightarrow> ph_album \<Rightarrow> bool" where
  "may_prune k p a \<longleftrightarrow> \<not> (p \<and> pa_checksum a = k)"

lemma UINT32_MAX_greatest: "w \<le> UINT32_MAX"
proof -
  have "unat w < 2 ^ LENGTH(32)" by (rule unsigned_less)
  then show ?thesis by (simp add: word_le_nat_alt UINT32_MAX_def)
qed

lemma oldest_fold_least:
  assumes "foldl (oldest_step k p) (None, UINT32_MAX) (enumerate 0 xs) = (slot, seq)"
  shows "(\<forall>b \<in> set (used xs). may_prune k p b \<longrightarrow> seq \<le> pa_first_seen_sequence b) \<and>
     (case slot of None \<Rightarrow> seq = UINT32_MAX
      | Some i \<Rightarrow> i < length xs \<and> (\<exists>a. xs ! i = Some a \<and> pa_first_seen_sequence a = seq \<and> may_prune k p a))"
  using assms
proof (induction xs arbitrary: slot seq rule: rev_induct)
  case (snoc x xs)
  obtain slot0 seq0 where f: "foldl (oldest_step k p) (None, UINT32_MAX) (enumerate 0 xs) = (slot0, seq0)"
    by fastforce
  from snoc.IH [OF f] snoc.prems f show ?case
    by (auto simp: enumerate_append_eq nth_append may_prune_def split: option.splits if_splits
        intro: order_trans dest: less_imp_le)
qed (simp add: UINT32_MAX_def)

lemma find_oldest_least:
  "play_history_find_oldest_album_slot_locked k p c = Some i \<Longrightarrow>
     \<exists>a. i < length (pc_albums c) \<and> pc_albums c ! i = Some a \<and> may_prune k p a \<and>
         (\<forall>b \<in> albums_of c. may_prune k p b \<longrightarrow> pa_first_seen_sequence a \<le> pa_first_seen_sequence b)"
  "play_history_find_oldest_album_slot_locked k p c = None \<Longrightarrow>
     \<forall>b \<in> albums_of c. may_prune k p b \<longrightarrow> pa_first_seen_sequence b = UINT32_MAX"
proof -
  obtain slot seq where f: "foldl (oldest_step k p) (None, UINT32_MAX) (enumerate 0 (pc_albums c)) = (slot, seq)"
    by fastforce
  note l = oldest_fold_least [OF f]
  have "b \<le> UINT32_MAX" for b :: u32
    by (rule UINT32_MAX_greatest)
  with l f show
  "play_history_find_oldest_album_slot_locked k p c = Some i \<Longrightarrow>
     \<exists>a. i < length (pc_albums c) \<and> pc_albums c ! i = Some a \<and> may_prune k p a \<and>
         (\<forall>b \<in> albums_of c. may_prune k p b \<longrightarrow> pa_first_seen_sequence a \<le> pa_first_seen_sequence b)"
  "play_history_find_oldest_album_slot_locked k p c = None \<Longrightarrow>
     \<forall>b \<in> albums_of c. may_prune k p b \<longrightarrow> pa_first_seen_sequence b = UINT32_MAX"
    by (auto simp: play_history_find_oldest_album_slot_locked_def albums_of_def intro: order.antisym)
qed

lemma remove_album_albums:
  assumes "i < length (pc_albums c)" and "pc_albums c ! i = Some a"
  shows "albums_of (play_history_remove_album_locked i c) \<subseteq> albums_of c"
    and "albums_of c \<subseteq> insert a (albums_of (play_history_remove_album_locked i c))"
proof -
  have al: "pc_albums (play_history_remove_album_locked i c) = (pc_albums c)[i := None]"
    using assms by (simp add: play_history_remove_album_locked_def Let_def)
  show "albums_of (play_history_remove_album_locked i c) \<subseteq> albums_of c"
    by (auto simp: albums_of_def al set_used dest!: set_list_update_option)
  show "albums_of c \<subseteq> insert a (albums_of (play_history_remove_album_locked i c))"
  proof
    fix b
    assume "b \<in> albums_of c"
    then obtain j where j: "j < length (pc_albums c)" "pc_albums c ! j = Some b"
      by (metis albums_of_def in_set_conv_nth set_used)
    show "b \<in> insert a (albums_of (play_history_remove_album_locked i c))"
    proof (cases "j = i")
      case False
      with j have "(pc_albums c)[i := None] ! j = Some b" "j < length ((pc_albums c)[i := None])" by simp_all
      then have "Some b \<in> set ((pc_albums c)[i := None])" by (metis nth_mem)
      then show ?thesis by (simp add: albums_of_def al set_used)
    qed (use j assms in simp)
  qed
qed

text \<open>What a run of the pruning loop removes.\<close>

definition pruned_before :: "u32 \<Rightarrow> bool \<Rightarrow> ph_album \<Rightarrow> ph_album \<Rightarrow> bool" where
  "pruned_before k p a b \<longleftrightarrow> (may_prune k p b \<longrightarrow> pa_first_seen_sequence a \<le> pa_first_seen_sequence b \<and>
     (may_prune k p a \<or> pa_first_seen_sequence b = UINT32_MAX))"

definition pruned_well :: "u32 \<Rightarrow> bool \<Rightarrow> ph_cache \<Rightarrow> ph_cache \<Rightarrow> bool" where
  "pruned_well k p c c' \<longleftrightarrow> albums_of c' \<subseteq> albums_of c \<and>
     (\<forall>a \<in> albums_of c - albums_of c'. \<forall>b \<in> albums_of c'. pruned_before k p a b)"

lemma pruned_well_trans: "pruned_well k p c c2 \<Longrightarrow> pruned_well k p c2 c' \<Longrightarrow> pruned_well k p c c'"
  unfolding pruned_well_def by blast

lemma prune_slot_pruned_well:
  assumes "play_history_prune_slot k p c = Some i"
  shows "pruned_well k p c (play_history_remove_album_locked i c)"
proof (cases "play_history_find_oldest_album_slot_locked k p c")
  case (Some j)
  then have "j = i" using assms by (simp add: play_history_prune_slot_def)
  then obtain a where a: "i < length (pc_albums c)" "pc_albums c ! i = Some a" "may_prune k p a"
    "\<forall>b \<in> albums_of c. may_prune k p b \<longrightarrow> pa_first_seen_sequence a \<le> pa_first_seen_sequence b"
    using find_oldest_least(1) [OF Some] by blast
  with remove_album_albums [OF a(1,2)] show ?thesis
    unfolding pruned_well_def pruned_before_def by blast
next
  case None
  then have "play_history_find_oldest_album_slot_locked 0 False c = Some i"
    using assms by (simp add: play_history_prune_slot_def split: if_splits)
  then obtain a where a: "i < length (pc_albums c)" "pc_albums c ! i = Some a"
    using find_oldest_least(1) by blast
  have "pa_first_seen_sequence b = UINT32_MAX" if "b \<in> albums_of c" "may_prune k p b" for b
    using find_oldest_least(2) [OF None] that by blast
  with remove_album_albums [OF a] UINT32_MAX_greatest show ?thesis
    unfolding pruned_well_def pruned_before_def by (metis DiffD1 DiffD2 insertE subsetD)
qed

lemma ensure_capacity_pruned:
  "play_history_ensure_capacity_locked k p da dt c = (e, c') \<Longrightarrow> pruned_well k p c c'"
proof (induction k p da dt c rule: play_history_ensure_capacity_locked.induct)
  case (1 k p da dt c)
  show ?case
  proof (cases "pc_album_count c + da > PLAY_HISTORY_MAX_ALBUMS \<or> pc_track_count c + dt > PLAY_HISTORY_MAX_TRACKS")
    case False
    then have "c' = c" using "1.prems" by (subst (asm) play_history_ensure_capacity_locked.simps) auto
    then show ?thesis by (auto simp: pruned_well_def)
  next
    case True
    show ?thesis
    proof (cases "play_history_prune_slot k p c")
      case None
      then have "c' = c" using "1.prems" True
        by (subst (asm) play_history_ensure_capacity_locked.simps) auto
      then show ?thesis by (auto simp: pruned_well_def)
    next
      case (Some i)
      let ?c2 = "play_history_remove_album_locked i c"
      have "play_history_ensure_capacity_locked k p da dt ?c2 = (e, c')"
        using "1.prems" True Some by (subst (asm) play_history_ensure_capacity_locked.simps) auto
      from pruned_well_trans [OF prune_slot_pruned_well [OF Some] "1.IH" [OF True Some this]]
      show ?thesis .
    qed
  qed
qed

section \<open>Synchronisation\<close>

lemma find_album_None:
  "play_history_find_album_slot_locked k c = None \<longleftrightarrow> (\<forall>a \<in> albums_of c. pa_checksum a \<noteq> k)"
  by (auto simp: play_history_find_album_slot_locked_def find_slot_None albums_of_def set_used slot_key_def
      split: option.splits)

lemma distinct_indices:
  "n \<le> JUKEBOY_MAX_TRACK_FILES \<Longrightarrow> distinct (map (of_nat :: nat \<Rightarrow> u32) [0..<n])"
  by (auto simp: distinct_map JUKEBOY_MAX_TRACK_FILES_def unsigned_of_nat take_bit_nat_eq_self
      intro!: inj_on_inverseI [where g = unat])

lemma sync_album_slot_inv:
  assumes "ph_shape c" and "sync_album_slot ck album_slot c = (r, c')"
  shows "ph_shape c' \<and> pc_tracks c' = pc_tracks c \<and> pc_track_count c' = pc_track_count c \<and>
     pc_dirty c' = pc_dirty c \<and>
     ((album_slot = None \<longrightarrow> play_history_find_album_slot_locked ck c = None) \<longrightarrow> ph_keys c \<longrightarrow> ph_keys c') \<and>
     (r = None \<longrightarrow> album_slot = None \<and> pc_album_count c = PLAY_HISTORY_MAX_ALBUMS)"
proof (cases album_slot)
  case (Some i)
  with assms show ?thesis by (auto simp: sync_album_slot_def)
next
  case None
  show ?thesis
  proof (cases "play_history_find_free_album_slot_locked c")
    case None
    have "pc_album_count c = PLAY_HISTORY_MAX_ALBUMS"
      using assms(1) None free_slot_exists [of "pc_albums c"] length_used_le [of "pc_albums c"]
      by (fastforce simp: ph_shape_def play_history_find_free_album_slot_locked_def)
    with assms \<open>album_slot = None\<close> None show ?thesis by (simp add: sync_album_slot_def)
  next
    case (Some slot)
    obtain q c1 where n: "play_history_next_sequence_locked c = (q, c1)" by fastforce
    note c1 = next_sequence_inv [OF n]
    let ?a = "\<lparr>pa_checksum = ck, pa_track_count = 0, pa_first_seen_sequence = q,
               pa_last_seen_sequence = 0, pa_metadata = jbm_header_zero\<rparr>"
    have f: "play_history_find_free_album_slot_locked c1 = Some slot"
      "play_history_find_album_slot_locked ck c1 = play_history_find_album_slot_locked ck c"
      using Some c1(3) by (simp_all add: play_history_find_free_album_slot_locked_def
          play_history_find_album_slot_locked_def)
    have "c' = c1\<lparr>pc_albums := (pc_albums c1)[slot := Some ?a], pc_album_count := pc_album_count c1 + 1\<rparr>"
      "r = Some slot"
      using assms(2) None Some n by (auto simp: sync_album_slot_def)
    then show ?thesis
      using fill_album_inv [OF c1(1) [OF assms(1)] f(1), of ?a] c1(2,4,5,7) f(2) None
      by (auto simp: \<open>r = Some slot\<close>)
  qed
qed

text \<open>The stages a successful synchronisation goes through.\<close>

lemma sync_cases:
  assumes "play_history_sync_current_cartridge_locked cart c = (e, c')"
  obtains (refused) "e = ESP_ERR_INVALID_STATE \<or> e = ESP_ERR_NOT_FOUND" "c' = c"
      "\<not> cartridge_service_is_mounted cart \<or> cartridge_service_get_metadata_header cart = None"
  | (no_room) m where "cartridge_service_get_metadata_header cart = Some m" "e \<noteq> ESP_OK"
      "play_history_ensure_capacity_locked (jh_checksum m) True
         (if play_history_find_album_slot_locked (jh_checksum m) c = None then 1 else 0)
         (play_history_count_missing_tracks_for_current_cartridge_locked cart (jh_checksum m) c) c = (e, c')"
  | (no_slot) m c1 where "cartridge_service_get_metadata_header cart = Some m" "e = ESP_ERR_NO_MEM"
      "play_history_ensure_capacity_locked (jh_checksum m) True
         (if play_history_find_album_slot_locked (jh_checksum m) c = None then 1 else 0)
         (play_history_count_missing_tracks_for_current_cartridge_locked cart (jh_checksum m) c) c = (ESP_OK, c1)"
      "sync_album_slot (jh_checksum m) (play_history_find_album_slot_locked (jh_checksum m) c) c1 = (None, c')"
  | (synced) m c1 c2 slot q c3 c5 where "cartridge_service_get_metadata_header cart = Some m"
      "play_history_ensure_capacity_locked (jh_checksum m) True
         (if play_history_find_album_slot_locked (jh_checksum m) c = None then 1 else 0)
         (play_history_count_missing_tracks_for_current_cartridge_locked cart (jh_checksum m) c) c = (ESP_OK, c1)"
      "sync_album_slot (jh_checksum m) (play_history_find_album_slot_locked (jh_checksum m) c) c1 = (Some slot, c2)"
      "play_history_next_sequence_locked c2 = (q, c3)"
      "sync_tracks cart (jh_checksum m) q [0..<cartridge_service_get_metadata_track_count cart]
         (c3\<lparr>pc_albums := upd_slot slot (\<lambda>a. a\<lparr>pa_track_count := jh_track_count m,
              pa_last_seen_sequence := q, pa_metadata := m\<rparr>) (pc_albums c3)\<rparr>) = (e, c5)"
      "c' = (if e = ESP_OK then c5\<lparr>pc_dirty := True\<rparr> else c5)"
  using assms unfolding play_history_sync_current_cartridge_locked_def Let_def
  by (auto split: if_splits option.splits prod.splits)

text \<open>What holds when the track loop starts.\<close>

lemma sync_before_tracks:
  assumes "cart_inv cart" and "ph_shape c" and "cartridge_service_get_metadata_header cart = Some m"
    and "play_history_ensure_capacity_locked (jh_checksum m) True
         (if play_history_find_album_slot_locked (jh_checksum m) c = None then 1 else 0) td c = (ESP_OK, c1)"
    and "sync_album_slot (jh_checksum m) (play_history_find_album_slot_locked (jh_checksum m) c) c1 = (Some slot, c2)"
    and "play_history_next_sequence_locked c2 = (q, c3)"
  defines "c4 \<equiv> c3\<lparr>pc_albums := upd_slot slot (\<lambda>a. a\<lparr>pa_track_count := jh_track_count m,
              pa_last_seen_sequence := q, pa_metadata := m\<rparr>) (pc_albums c3)\<rparr>"
  shows "ph_shape c4" and "ph_keys c \<Longrightarrow> ph_keys c4" and "pc_tracks c4 = pc_tracks c1"
    and "pc_track_count c4 = pc_track_count c1" and "pc_dirty c4 = pc_dirty c"
proof -
  note ec = ensure_capacity_inv [OF assms(4,2)]
  have none: "play_history_find_album_slot_locked (jh_checksum m) c = None \<Longrightarrow>
      play_history_find_album_slot_locked (jh_checksum m) c1 = None"
    using ensure_capacity_pruned [OF assms(4)] by (auto simp: find_album_None pruned_well_def)
  note sa = sync_album_slot_inv [OF ec [THEN conjunct1] assms(5)]
  note ns = next_sequence_inv [OF assms(6)]
  have wf: "jbm_header_wf m"
    using cart_metadata.header_ok [OF assms(1,3)] by blast
  have sh: "ph_shape c3" using sa ns(1) by blast
  show "ph_shape c4" "ph_keys c \<Longrightarrow> ph_keys c4"
    unfolding c4_def using upd_album_inv [OF sh, of "\<lambda>a. a\<lparr>pa_track_count := jh_track_count m,
              pa_last_seen_sequence := q, pa_metadata := m\<rparr>" slot] wf sa none ns(2) ec
    by auto
  show "pc_tracks c4 = pc_tracks c1" "pc_track_count c4 = pc_track_count c1" "pc_dirty c4 = pc_dirty c"
    unfolding c4_def using sa ns(4,5,7) ec by auto
qed

lemma sync_inv:
  assumes "cart_inv cart" and "ph_shape c" and "play_history_sync_current_cartridge_locked cart c = (e, c')"
  shows "ph_shape c' \<and> (ph_keys c \<longrightarrow> ph_keys c')"
  using assms(3)
proof (cases rule: sync_cases)
  case refused
  then show ?thesis using assms(2) by simp
next
  case (no_room m)
  show ?thesis using ensure_capacity_inv [OF no_room(3) assms(2)] by blast
next
  case (no_slot m c1)
  have none: "play_history_find_album_slot_locked (jh_checksum m) c = None \<Longrightarrow>
      play_history_find_album_slot_locked (jh_checksum m) c1 = None"
    using ensure_capacity_pruned [OF no_slot(3)] by (auto simp: find_album_None pruned_well_def)
  note ec = ensure_capacity_inv [OF no_slot(3) assms(2)]
  show ?thesis
    using sync_album_slot_inv [OF ec [THEN conjunct1] no_slot(4)] ec none by blast
next
  case (synced m c1 c2 slot q c3 c5)
  note before = sync_before_tracks [OF assms(1,2) synced(1-4)]
  show ?thesis
    using sync_tracks_inv [OF assms(1) before(1) synced(5)] before(2) synced(6)
    by (auto simp: set_next_sequence_inv)
qed

lemma remove_album_entries:
  assumes "ph_keys c"
  shows "track_entry (play_history_remove_album_locked i c) k = track_entry c k \<or>
         track_entry (play_history_remove_album_locked i c) k = None"
  using assms
  by (auto simp: play_history_remove_album_locked_def Let_def track_entry_def ph_keys_def lookup_slot_drop
      split: option.split)

lemma ensure_capacity_entries:
  assumes "play_history_ensure_capacity_locked k0 p da dt c = (e, c')" and "ph_shape c" and "ph_keys c"
  shows "track_entry c' k = track_entry c k \<or> track_entry c' k = None"
  using assms
proof (induction k0 p da dt c rule: play_history_ensure_capacity_locked.induct)
  case (1 k0 p da dt c)
  show ?case
  proof (cases "(pc_album_count c + da > PLAY_HISTORY_MAX_ALBUMS \<or>
      pc_track_count c + dt > PLAY_HISTORY_MAX_TRACKS) \<and> play_history_prune_slot k0 p c \<noteq> None")
    case False
    then have "c' = c" using "1.prems"(1)
      by (subst (asm) play_history_ensure_capacity_locked.simps) (auto split: if_splits)
    then show ?thesis by simp
  next
    case True
    then obtain i where i: "play_history_prune_slot k0 p c = Some i" by blast
    have "play_history_ensure_capacity_locked k0 p da dt (play_history_remove_album_locked i c) = (e, c')"
      using "1.prems"(1) True i by (subst (asm) play_history_ensure_capacity_locked.simps) auto
    from "1.IH" [OF True [THEN conjunct1] i this remove_album_inv(1) [OF "1.prems"(2)]
        remove_album_inv(2) [OF "1.prems"(2,3)]] remove_album_entries [OF "1.prems"(3), of i k]
    show ?thesis by auto
  qed
qed

lemma ensure_capacity_noop:
  "pc_album_count c + da \<le> PLAY_HISTORY_MAX_ALBUMS \<Longrightarrow> pc_track_count c + dt \<le> PLAY_HISTORY_MAX_TRACKS \<Longrightarrow>
   play_history_ensure_capacity_locked k p da dt c = (ESP_OK, c)"
  by (subst play_history_ensure_capacity_locked.simps) simp

lemma dirty_entries [simp]: "track_entry (c\<lparr>pc_dirty := d\<rparr>) k = track_entry c k"
  by (simp add: track_entry_def)

lemma sync_records:
  assumes "cart_inv cart" and "ph_shape c" and "ph_keys c"
    and "play_history_sync_current_cartridge_locked cart c = (ESP_OK, c')"
    and "cartridge_service_get_metadata_header cart = Some m"
    and "cartridge_service_get_metadata_track i cart = Some t"
  shows "\<exists>old. (old = None \<or> old = track_entry c (jh_checksum m, of_nat i)) \<and>
           recorded t old (track_entry c' (jh_checksum m, of_nat i))"
  using assms(4)
proof (cases rule: sync_cases)
  case (synced m' c1 c2 slot q c3 c5)
  have m: "m' = m" using synced(1) assms(5) by simp
  let ?c4 = "c3\<lparr>pc_albums := upd_slot slot (\<lambda>a. a\<lparr>pa_track_count := jh_track_count m',
              pa_last_seen_sequence := q, pa_metadata := m'\<rparr>) (pc_albums c3)\<rparr>"
  note before = sync_before_tracks [OF assms(1,2) synced(1-4)]
  have i: "i < cartridge_service_get_metadata_track_count cart"
    using cart_metadata.track_defined [OF assms(1), of i] assms(6) by simp
  have "recorded t (track_entry ?c4 (jh_checksum m, of_nat i)) (track_entry c5 (jh_checksum m, of_nat i))"
    using sync_tracks_entries(2) [OF assms(1) before(1) before(2) [OF assms(3)] synced(5)
        distinct_indices [OF cart_metadata.count_max [OF assms(1)]] refl _ assms(6)] i m by simp
  moreover have "track_entry ?c4 k = track_entry c1 k" for k
    using before(3) by (simp add: track_entry_def)
  moreover have "track_entry c1 k = track_entry c k \<or> track_entry c1 k = None" for k
    using ensure_capacity_entries [OF synced(2) assms(2,3)] .
  ultimately show ?thesis using synced(6) by (metis dirty_entries)
qed (use assms(5) in auto)

text \<open>With room for what is missing nothing is pruned, and the track loop cannot run out of slots.\<close>

definition missing :: "cart_state \<Rightarrow> u32 \<Rightarrow> ph_cache \<Rightarrow> nat list \<Rightarrow> nat" where
  "missing cart ck c idxs = length (filter (\<lambda>i. cartridge_service_get_metadata_track i cart \<noteq> None \<and>
      track_entry c (ck, of_nat i) = None) idxs)"

lemma missing_cong:
  "(\<And>j. j \<in> set idxs \<Longrightarrow> track_entry c2 (ck, of_nat j) = track_entry c (ck, of_nat j)) \<Longrightarrow>
   missing cart ck c2 idxs = missing cart ck c idxs"
  unfolding missing_def by (rule arg_cong [where f = length], rule filter_cong) simp_all

lemma sync_step_counts:
  "pc_track_count (sync_track_update t q slot c) = pc_track_count c"
  "pc_track_count (fill_track ck i slot c) = pc_track_count c + 1"
  by (simp_all add: sync_track_update_def fill_track_def next_sequence_inv split: prod.split)

lemma sync_tracks_room:
  assumes "cart_inv cart" and "ph_shape c" and "ph_keys c"
    and "sync_tracks cart ck q idxs c = (e, c')"
    and "distinct (map (of_nat :: nat \<Rightarrow> u32) idxs)"
    and "pc_track_count c + missing cart ck c idxs \<le> PLAY_HISTORY_MAX_TRACKS"
  shows "e = ESP_OK"
  using assms(2-)
proof (induction idxs arbitrary: c)
  case (Cons i rest)
  note wf = cart_metadata.track_ok [OF assms(1), of i, THEN conjunct1]
  have i: "(ck, of_nat j :: u32) \<noteq> (ck, of_nat i)" if "j \<in> set rest" for j
    using Cons.prems(4) that by (auto simp: image_iff)
  have d: "distinct (map (of_nat :: nat \<Rightarrow> u32) rest)" using Cons.prems(4) by simp
  from Cons.prems(3) show ?case
  proof (cases rule: sync_tracks_Cons_cases)
    case skip
    then show ?thesis using Cons.IH [OF Cons.prems(1,2) _ d] Cons.prems(5) by (simp add: missing_def)
  next
    case (full t)
    have "track_entry c (ck, of_nat i) = None" using full(2) by (simp only: track_entry_find)
    then have "pc_track_count c < PLAY_HISTORY_MAX_TRACKS"
      using Cons.prems(5) full(1) by (simp add: missing_def)
    then show ?thesis
      using Cons.prems(1) full(3) free_slot_exists [of "pc_tracks c"]
      by (auto simp: ph_shape_def play_history_find_free_track_slot_locked_def)
  next
    case (found t slot)
    note step = sync_track_update_inv [OF Cons.prems(1) wf [OF found(1)], of q slot]
    note ent = sync_found_entries [where track = t and q = q, OF Cons.prems(2) found(2)]
    have "missing cart ck (sync_track_update t q slot c) rest = missing cart ck c rest"
      using ent(2) i by (intro missing_cong) blast
    moreover have "missing cart ck c rest \<le> missing cart ck c (i # rest)"
      by (simp add: missing_def)
    ultimately show ?thesis
      using Cons.prems(5) Cons.IH [OF step(1) step(2) [OF Cons.prems(2)] found(3) d]
      by (simp add: sync_step_counts)
  next
    case (filled t slot)
    note fill = fill_track_keeps [OF Cons.prems(1) filled(3), of ck i]
    note step = sync_track_update_inv [OF fill(1) wf [OF filled(1)], of q slot]
    note ent = sync_filled_entries [where track = t and q = q, OF Cons.prems(2,1) filled(2,3)]
    have "missing cart ck (sync_track_update t q slot (fill_track ck i slot c)) rest = missing cart ck c rest"
      using ent(2) i by (intro missing_cong) blast
    moreover have "missing cart ck c (i # rest) = Suc (missing cart ck c rest)"
      using filled(1,2) track_entry_find [of c ck "of_nat i"] by (simp add: missing_def)
    ultimately show ?thesis
      using Cons.prems(5) Cons.IH [OF step(1) step(2) [OF fill(2) [OF Cons.prems(2) filled(2)]] filled(4) d]
      by (simp add: sync_step_counts)
  qed
qed simp

lemma missing_count:
  "play_history_count_missing_tracks_for_current_cartridge_locked cart ck c =
   missing cart ck c [0..<cartridge_service_get_metadata_track_count cart]"
  by (simp add: play_history_count_missing_tracks_for_current_cartridge_locked_def missing_def track_entry_find)

lemma sync_with_room:
  assumes "cart_inv cart" and "ph_shape c" and "ph_keys c"
    and "cartridge_service_is_mounted cart" and "cartridge_service_get_metadata_header cart = Some m"
    and "pc_album_count c < PLAY_HISTORY_MAX_ALBUMS"
    and "pc_track_count c + cartridge_service_get_metadata_track_count cart \<le> PLAY_HISTORY_MAX_TRACKS"
  shows "fst (play_history_sync_current_cartridge_locked cart c) = ESP_OK"
    and "k \<notin> (\<lambda>i. (jh_checksum m, of_nat i)) ` {..<cartridge_service_get_metadata_track_count cart} \<Longrightarrow>
       track_entry (snd (play_history_sync_current_cartridge_locked cart c)) k = track_entry c k"
proof -
  let ?idxs = "[0..<cartridge_service_get_metadata_track_count cart]"
  obtain e c' where r: "play_history_sync_current_cartridge_locked cart c = (e, c')" by fastforce
  have miss: "missing cart ck c ?idxs \<le> cartridge_service_get_metadata_track_count cart" for ck
    unfolding missing_def by (rule order_trans [OF length_filter_le]) simp
  have noop: "play_history_ensure_capacity_locked (jh_checksum m) True
         (if play_history_find_album_slot_locked (jh_checksum m) c = None then 1 else 0)
         (play_history_count_missing_tracks_for_current_cartridge_locked cart (jh_checksum m) c) c = (ESP_OK, c)"
    using assms(6,7) miss [of "jh_checksum m"] by (intro ensure_capacity_noop) (auto simp: missing_count)
  have "e = ESP_OK \<and> (k \<notin> (\<lambda>i. (jh_checksum m, of_nat i)) ` {..<cartridge_service_get_metadata_track_count cart} \<longrightarrow>
       track_entry c' k = track_entry c k)"
    using r
  proof (cases rule: sync_cases)
    case refused
    then show ?thesis using assms(4,5) by simp
  next
    case (no_room m')
    then show ?thesis using noop assms(5) by simp
  next
    case (no_slot m' c1)
    then have "c1 = c" using noop assms(5) by simp
    then show ?thesis using sync_album_slot_inv [OF _ no_slot(4)] assms(2,6) by simp
  next
    case (synced m' c1 c2 slot q c3 c5)
    have m: "m' = m" using synced(1) assms(5) by simp
    have c1: "c1 = c" using synced(2) noop m by simp
    let ?c4 = "c3\<lparr>pc_albums := upd_slot slot (\<lambda>a. a\<lparr>pa_track_count := jh_track_count m',
                pa_last_seen_sequence := q, pa_metadata := m'\<rparr>) (pc_albums c3)\<rparr>"
    note before = sync_before_tracks [OF assms(1,2) synced(1-4)]
    have ent: "track_entry ?c4 k = track_entry c k" for k
      using before(3) c1 by (simp add: track_entry_def)
    have "missing cart m'' ?c4 ?idxs = missing cart m'' c ?idxs" for m''
      using ent by (intro missing_cong)
    then have "pc_track_count ?c4 + missing cart (jh_checksum m') ?c4 ?idxs \<le> PLAY_HISTORY_MAX_TRACKS"
      using before(4) c1 assms(7) miss [of "jh_checksum m'"] by simp
    from sync_tracks_room [OF assms(1) before(1) before(2) [OF assms(3)] synced(5)
        distinct_indices [OF cart_metadata.count_max [OF assms(1)]] this]
    have "e = ESP_OK" .
    with synced(6) m ent sync_tracks_entries(1) [OF assms(1) before(1) before(2) [OF assms(3)] synced(5)
        distinct_indices [OF cart_metadata.count_max [OF assms(1)]], of k]
    show ?thesis by (simp add: atLeast0LessThan)
  qed
  with r show "fst (play_history_sync_current_cartridge_locked cart c) = ESP_OK"
    and "k \<notin> (\<lambda>i. (jh_checksum m, of_nat i)) ` {..<cartridge_service_get_metadata_track_count cart} \<Longrightarrow>
       track_entry (snd (play_history_sync_current_cartridge_locked cart c)) k = track_entry c k"
    by simp_all
qed

section \<open>Counting plays\<close>

lemma count_play_simps [simp]:
  "pt_key (count_play ev q t) = pt_key t" "pt_play_count (count_play ev q t) = pt_play_count t + 1"
  "pt_metadata (count_play ev q t) = pt_metadata t"
  by (simp_all add: count_play_def pt_key_def)

lemma countable_slot_inv:
  assumes "cart_inv cart" and "ph_shape c" and "countable_slot cart ev c = (e, s, c')"
  shows "ph_shape c' \<and> (ph_keys c \<longrightarrow> ph_keys c')"
  using assms sync_inv [OF assms(1,2)]
  by (auto simp: countable_slot_def split: option.splits if_splits prod.splits)

lemma apply_countable_inv:
  assumes "cart_inv cart" and "ph_shape c"
    and "play_history_apply_countable_play_locked cart ev c = (e, l, c')"
  shows "ph_shape c' \<and> (ph_keys c \<longrightarrow> ph_keys c')"
proof -
  obtain err slot c1 where s: "countable_slot cart ev c = (err, slot, c1)" by (metis prod_cases3)
  note c1 = countable_slot_inv [OF assms(1,2) s]
  show ?thesis
  proof (cases "err = ESP_OK \<and> slot \<noteq> None")
    case False
    with assms(3) s c1 show ?thesis
      by (auto simp: play_history_apply_countable_play_locked_def split: if_splits option.splits)
  next
    case True
    then obtain i where i: "err = ESP_OK" "slot = Some i" by blast
    obtain q c2 where n: "play_history_next_sequence_locked c1 = (q, c2)" by fastforce
    note c2 = next_sequence_inv [OF n]
    let ?c3 = "c2\<lparr>pc_tracks := upd_slot i (count_play ev q) (pc_tracks c2)\<rparr>"
    have c3: "ph_shape ?c3" "ph_keys c \<longrightarrow> ph_keys ?c3"
      using upd_track_inv [of c2 "count_play ev q" i] c2(1,2) c1 by simp_all
    have "c' = (case play_history_find_album_slot_locked (te_cartridge_checksum ev) ?c3 of
                        None \<Rightarrow> ?c3
                      | Some a \<Rightarrow> ?c3\<lparr>pc_albums := upd_slot a (\<lambda>r. r\<lparr>pa_last_seen_sequence := q\<rparr>)
                                                 (pc_albums ?c3)\<rparr>)\<lparr>pc_dirty := True\<rparr>"
      using assms(3) s i n by (simp add: play_history_apply_countable_play_locked_def Let_def)
    then show ?thesis
      using c3 upd_album_inv [OF c3(1), of "\<lambda>r. r\<lparr>pa_last_seen_sequence := q\<rparr>"]
      by (auto simp: set_next_sequence_inv split: option.splits)
  qed
qed

lemma apply_countable_known:
  assumes "ph_keys c" and "track_entry c (te_cartridge_checksum ev, te_track_index ev) = Some r"
    and "play_history_apply_countable_play_locked cart ev c = (e, l, c')"
  shows "e = ESP_OK"
    and "\<exists>q. track_entry c' (te_cartridge_checksum ev, te_track_index ev) = Some (count_play ev q r)"
    and "map_option le_play_count l = Some (pt_play_count r + 1)"
    and "k \<noteq> (te_cartridge_checksum ev, te_track_index ev) \<Longrightarrow> track_entry c' k = track_entry c k"
proof -
  let ?k = "(te_cartridge_checksum ev, te_track_index ev)"
  obtain i where i: "play_history_find_track_slot_locked (te_cartridge_checksum ev) (te_track_index ev) c = Some i"
    using assms(2) track_entry_find [of c "te_cartridge_checksum ev" "te_track_index ev"] by auto
  then have s: "countable_slot cart ev c = (ESP_OK, Some i, c)" by (simp add: countable_slot_def)
  obtain q c2 where n: "play_history_next_sequence_locked c = (q, c2)" by fastforce
  note c2 = next_sequence_inv [OF n]
  have i': "find_slot (slot_key pt_key ?k) (pc_tracks c) = Some i" "pc_tracks c ! i = Some r" "i < length (pc_tracks c)"
    using i assms(2) find_slot_SomeD [OF i [unfolded play_history_find_track_slot_locked_def]]
    by (auto simp: play_history_find_track_slot_locked_def track_entry_def lookup_slot_def elim: slot_keyE)
  have tr: "pc_tracks c' = upd_slot i (count_play ev q) (pc_tracks c)" and "e = ESP_OK"
    and "map_option le_play_count l = Some (pt_play_count r + 1)"
    using assms(3) s n c2(4) i'(2,3)
    by (auto simp: play_history_apply_countable_play_locked_def Let_def upd_slot_simps split: option.splits)
  then show "e = ESP_OK" and "map_option le_play_count l = Some (pt_play_count r + 1)" by simp_all
  have u: "slot_keys_unique pt_key (pc_tracks c)" using assms(1) by (simp add: ph_keys_def)
  have ent: "track_entry c' k = (if k = ?k then map_option (count_play ev q) (track_entry c ?k) else track_entry c k)" for k
    unfolding track_entry_def tr by (rule lookup_slot_upd [OF u _ i'(1)]) simp
  show "\<exists>q. track_entry c' ?k = Some (count_play ev q r)"
    using ent [of ?k] assms(2) by auto
  show "k \<noteq> ?k \<Longrightarrow> track_entry c' k = track_entry c k"
    using ent by simp
qed

section \<open>Round trip of the file\<close>

definition ph_album_wf :: "ph_album \<Rightarrow> bool" where
  "ph_album_wf a \<longleftrightarrow> jbm_header_wf (pa_metadata a)"

definition ph_track_wf :: "ph_track \<Rightarrow> bool" where
  "ph_track_wf t \<longleftrightarrow> jbm_track_wf (pt_metadata t)"

interpretation ph_album_codec: fixed_codec enc_ph_album dec_ph_album PLAY_HISTORY_DISK_ALBUM_BYTES
    ph_album_wf
  by unfold_locales (simp_all add: ph_album_wf_def enc_ph_album_def dec_ph_album_def layout_simps
      rd_layout length_enc_jbm_header dec_enc_jbm_header)

interpretation ph_track_codec: fixed_codec enc_ph_track dec_ph_track PLAY_HISTORY_DISK_TRACK_BYTES
    ph_track_wf
  by unfold_locales (simp_all add: ph_track_wf_def enc_ph_track_def dec_ph_track_def layout_simps
      rd_layout length_enc_jbm_track dec_enc_jbm_track)

interpretation ph_file_header_codec: fixed_codec enc_ph_file_header dec_ph_file_header
    PLAY_HISTORY_FILE_HEADER_BYTES "\<lambda>_. True"
  by unfold_locales (simp_all add: enc_ph_file_header_def dec_ph_file_header_def layout_simps rd_layout)

lemma dec_ph_file_header_append: "dec_ph_file_header (enc_ph_file_header h @ xs) = h"
  by (simp add: enc_ph_file_header_def dec_ph_file_header_def rd_layout)

lemma ph_album_wf_dec: "length b = PLAY_HISTORY_DISK_ALBUM_BYTES \<Longrightarrow> ph_album_wf (dec_ph_album b)"
  by (simp add: ph_album_wf_def dec_ph_album_def jbm_header_wf_dec PLAY_HISTORY_DISK_ALBUM_BYTES_def)

lemma ph_track_wf_dec: "length b = PLAY_HISTORY_DISK_TRACK_BYTES \<Longrightarrow> ph_track_wf (dec_ph_track b)"
  by (simp add: ph_track_wf_def dec_ph_track_def jbm_track_wf_dec PLAY_HISTORY_DISK_TRACK_BYTES_def)

text \<open>The loading loops on the bytes the building loops wrote.\<close>

lemma load_albums_enc:
  assumes "list_all ph_album_wf xs" and "pc_albums c = map Some ys @ replicate m None" and "length xs \<le> m"
  shows "load_albums (length xs) (concat (map enc_ph_album xs) @ rest) c =
     (ESP_OK, rest, c\<lparr>pc_albums := map Some (ys @ xs) @ replicate (m - length xs) None,
                     pc_album_count := pc_album_count c + length xs\<rparr>)"
  using assms
proof (induction xs arbitrary: c ys m)
  case Nil
  then show ?case by (cases c) simp
next
  case (Cons x xs)
  obtain m' where m: "m = Suc m'" using Cons.prems(3) by (cases m) auto
  have w: "length (enc_ph_album x) = PLAY_HISTORY_DISK_ALBUM_BYTES" "dec_ph_album (enc_ph_album x) = x"
    using Cons.prems(1) by (simp_all add: ph_album_codec.enc_width ph_album_codec.dec_enc)
  have f: "play_history_find_free_album_slot_locked c = Some (length ys)"
    using find_slot_first_free [of ys "replicate m' None"] Cons.prems(2) m
    by (simp add: play_history_find_free_album_slot_locked_def)
  have u: "(pc_albums c)[length ys := Some x] = map Some (ys @ [x]) @ replicate m' None"
    using Cons.prems(2) m by (simp add: list_update_append)
  show ?case
    using Cons.IH [of "c\<lparr>pc_albums := (pc_albums c)[length ys := Some x], pc_album_count := pc_album_count c + 1\<rparr>"
        "ys @ [x]" m'] Cons.prems(1,3) m u
    by (simp add: f w)
qed

lemma load_tracks_enc:
  assumes "list_all ph_track_wf xs" and "pc_tracks c = map Some ys @ replicate m None" and "length xs \<le> m"
  shows "load_tracks (length xs) (concat (map enc_ph_track xs) @ rest) c =
     (ESP_OK, rest, c\<lparr>pc_tracks := map Some (ys @ xs) @ replicate (m - length xs) None,
                     pc_track_count := pc_track_count c + length xs\<rparr>)"
  using assms
proof (induction xs arbitrary: c ys m)
  case Nil
  then show ?case by (cases c) simp
next
  case (Cons x xs)
  obtain m' where m: "m = Suc m'" using Cons.prems(3) by (cases m) auto
  have w: "length (enc_ph_track x) = PLAY_HISTORY_DISK_TRACK_BYTES" "dec_ph_track (enc_ph_track x) = x"
    using Cons.prems(1) by (simp_all add: ph_track_codec.enc_width ph_track_codec.dec_enc)
  have f: "play_history_find_free_track_slot_locked c = Some (length ys)"
    using find_slot_first_free [of ys "replicate m' None"] Cons.prems(2) m
    by (simp add: play_history_find_free_track_slot_locked_def)
  have u: "(pc_tracks c)[length ys := Some x] = map Some (ys @ [x]) @ replicate m' None"
    using Cons.prems(2) m by (simp add: list_update_append)
  show ?case
    using Cons.IH [of "c\<lparr>pc_tracks := (pc_tracks c)[length ys := Some x], pc_track_count := pc_track_count c + 1\<rparr>"
        "ys @ [x]" m'] Cons.prems(1,3) m u
    by (simp add: f w)
qed

lemma ph_shape_used:
  assumes "ph_shape c"
  shows "list_all ph_album_wf (used (pc_albums c))" "list_all ph_track_wf (used (pc_tracks c))"
    and "length (used (pc_albums c)) \<le> PLAY_HISTORY_MAX_ALBUMS"
    and "length (used (pc_tracks c)) \<le> PLAY_HISTORY_MAX_TRACKS"
  using assms length_used_le [of "pc_albums c"] length_used_le [of "pc_tracks c"]
  by (auto simp: ph_shape_def list_all_iff set_used ph_album_wf_def ph_track_wf_def)

lemma build_blob:
  assumes "ph_shape c"
  defines "header \<equiv> \<lparr>fh_version = PLAY_HISTORY_STATE_VERSION, fh_next_sequence = pc_next_sequence c,
     fh_album_count = of_nat (length (used (pc_albums c))),
     fh_track_count = of_nat (length (used (pc_tracks c)))\<rparr>"
  shows "play_history_build_serialized_blob_locked c = (ESP_OK, enc_ph_file_header header @
       concat (map enc_ph_album (used (pc_albums c))) @ concat (map enc_ph_track (used (pc_tracks c))))"
proof -
  note u = ph_shape_used [OF assms(1)]
  have "play_history_serialized_size_locked c \<le> PLAY_HISTORY_MAX_SERIALIZED_BYTES"
    unfolding play_history_serialized_size_locked_def PLAY_HISTORY_MAX_SERIALIZED_BYTES_def
      play_history_serialized_size_for_counts_def
    using u(3,4) assms(1) by (intro add_mono mult_le_mono1) (simp_all add: ph_shape_def)
  then show ?thesis
    using u(1,2) assms(1) ph_album_codec.length_concat_enc ph_track_codec.length_concat_enc
    by (simp add: play_history_build_serialized_blob_locked_def header_def Let_def ph_shape_def
        ph_file_header_codec.enc_width play_history_serialized_size_locked_def)
qed

lemma load_built:
  assumes "ph_shape c"
  shows "play_history_load_from_serialized_bytes_locked (snd (play_history_build_serialized_blob_locked c)) c0 =
    (ESP_OK, c0\<lparr>pc_version := pc_version c, pc_next_sequence := pc_next_sequence c,
       pc_album_count := pc_album_count c, pc_track_count := pc_track_count c,
       pc_albums := map Some (used (pc_albums c)) @
         replicate (PLAY_HISTORY_MAX_ALBUMS - length (used (pc_albums c))) None,
       pc_tracks := map Some (used (pc_tracks c)) @
         replicate (PLAY_HISTORY_MAX_TRACKS - length (used (pc_tracks c))) None\<rparr>)"
proof -
  let ?A = "used (pc_albums c)" and ?T = "used (pc_tracks c)"
  let ?h = "\<lparr>fh_version = PLAY_HISTORY_STATE_VERSION, fh_next_sequence = pc_next_sequence c,
     fh_album_count = of_nat (length ?A), fh_track_count = of_nat (length ?T)\<rparr>"
  let ?ea = "concat (map enc_ph_album ?A)" and ?et = "concat (map enc_ph_track ?T)"
  let ?c1 = "(play_history_reset_cache_locked c0)\<lparr>pc_version := PLAY_HISTORY_STATE_VERSION,
      pc_next_sequence := pc_next_sequence c\<rparr>"
  note u = ph_shape_used [OF assms]
  have n: "unat (of_nat (length ?A) :: u32) = length ?A" "unat (of_nat (length ?T) :: u32) = length ?T"
    using u(3,4) by (simp_all add: PLAY_HISTORY_MAX_ALBUMS_def PLAY_HISTORY_MAX_TRACKS_def
        unsigned_of_nat take_bit_nat_eq_self)
  have len: "length (enc_ph_file_header ?h) = PLAY_HISTORY_FILE_HEADER_BYTES"
    "length ?ea = length ?A * PLAY_HISTORY_DISK_ALBUM_BYTES" "length ?et = length ?T * PLAY_HISTORY_DISK_TRACK_BYTES"
    using u(1,2) by (simp_all add: ph_file_header_codec.enc_width ph_album_codec.length_concat_enc
        ph_track_codec.length_concat_enc)
  have seq: "pc_next_sequence c \<noteq> 0" "pc_album_count c = length ?A" "pc_track_count c = length ?T"
    "pc_version c = PLAY_HISTORY_STATE_VERSION"
    using assms by (simp_all add: ph_shape_def)
  have la: "load_albums (length ?A) (?ea @ ?et) ?c1 = (ESP_OK, ?et, ?c1\<lparr>
      pc_albums := map Some ?A @ replicate (PLAY_HISTORY_MAX_ALBUMS - length ?A) None, pc_album_count := length ?A\<rparr>)"
    using load_albums_enc [OF u(1), of ?c1 "[]" PLAY_HISTORY_MAX_ALBUMS ?et] u(3)
    by (simp add: play_history_reset_cache_locked_def)
  have lt: "load_tracks (length ?T) (?et @ []) (?c1\<lparr>pc_albums := as, pc_album_count := n\<rparr>) = (ESP_OK, [],
      ?c1\<lparr>pc_albums := as, pc_album_count := n,
         pc_tracks := map Some ?T @ replicate (PLAY_HISTORY_MAX_TRACKS - length ?T) None, pc_track_count := length ?T\<rparr>)" for as n
    using load_tracks_enc [OF u(2), of "?c1\<lparr>pc_albums := as, pc_album_count := n\<rparr>" "[]" PLAY_HISTORY_MAX_TRACKS "[]"] u(4)
    by (simp add: play_history_reset_cache_locked_def)
  show ?thesis
    unfolding build_blob [OF assms] snd_conv play_history_load_from_serialized_bytes_locked_def
      dec_ph_file_header_append Let_def
    using u(3,4) by (simp add: n len seq la lt [simplified] play_history_serialized_size_for_counts_def)
      (simp add: play_history_reset_cache_locked_def)
qed

text \<open>Loading arbitrary bytes keeps the shape; a refused file leaves the empty cache.\<close>

lemma load_albums_any:
  assumes "ph_shape c" and "load_albums n cursor c = (e, cursor', c')"
  shows "ph_shape c' \<and> (e \<noteq> ESP_OK \<longrightarrow> used (pc_albums c') = [] \<and> used (pc_tracks c') = [])"
  using assms
proof (induction n arbitrary: cursor c)
  case (Suc n)
  consider "length cursor < PLAY_HISTORY_DISK_ALBUM_BYTES \<or> play_history_find_free_album_slot_locked c = None"
    | slot where "PLAY_HISTORY_DISK_ALBUM_BYTES \<le> length cursor" "play_history_find_free_album_slot_locked c = Some slot"
    by fastforce
  then show ?case
  proof cases
    case 1
    then have "c' = play_history_reset_cache_locked c" using Suc.prems(2) by (auto split: if_splits)
    then show ?thesis using reset_inv(1) [of c] by (simp add: play_history_reset_cache_locked_def)
  next
    case (2 slot)
    have "ph_album_wf (dec_ph_album (take PLAY_HISTORY_DISK_ALBUM_BYTES cursor))"
      using 2(1) by (intro ph_album_wf_dec) simp
    then have wf: "jbm_header_wf (pa_metadata (dec_ph_album (take PLAY_HISTORY_DISK_ALBUM_BYTES cursor)))"
      by (simp add: ph_album_wf_def)
    have step: "load_albums n (drop PLAY_HISTORY_DISK_ALBUM_BYTES cursor) (c\<lparr>pc_albums := (pc_albums c)[slot := Some
                 (dec_ph_album (take PLAY_HISTORY_DISK_ALBUM_BYTES cursor))],
               pc_album_count := pc_album_count c + 1\<rparr>) = (e, cursor', c')"
      using Suc.prems(2) 2 by simp
    show ?thesis by (rule Suc.IH [OF fill_album_inv(1) [OF Suc.prems(1) 2(2) wf] step])
  qed
qed simp

lemma load_tracks_any:
  assumes "ph_shape c" and "load_tracks n cursor c = (e, cursor', c')"
  shows "ph_shape c' \<and> (e \<noteq> ESP_OK \<longrightarrow> used (pc_albums c') = [] \<and> used (pc_tracks c') = [])"
  using assms
proof (induction n arbitrary: cursor c)
  case (Suc n)
  consider "length cursor < PLAY_HISTORY_DISK_TRACK_BYTES \<or> play_history_find_free_track_slot_locked c = None"
    | slot where "PLAY_HISTORY_DISK_TRACK_BYTES \<le> length cursor" "play_history_find_free_track_slot_locked c = Some slot"
    by fastforce
  then show ?case
  proof cases
    case 1
    then have "c' = play_history_reset_cache_locked c" using Suc.prems(2) by (auto split: if_splits)
    then show ?thesis using reset_inv(1) [of c] by (simp add: play_history_reset_cache_locked_def)
  next
    case (2 slot)
    have "ph_track_wf (dec_ph_track (take PLAY_HISTORY_DISK_TRACK_BYTES cursor))"
      using 2(1) by (intro ph_track_wf_dec) simp
    then have wf: "jbm_track_wf (pt_metadata (dec_ph_track (take PLAY_HISTORY_DISK_TRACK_BYTES cursor)))"
      by (simp add: ph_track_wf_def)
    have step: "load_tracks n (drop PLAY_HISTORY_DISK_TRACK_BYTES cursor) (c\<lparr>pc_tracks := (pc_tracks c)[slot := Some
                 (dec_ph_track (take PLAY_HISTORY_DISK_TRACK_BYTES cursor))],
               pc_track_count := pc_track_count c + 1\<rparr>) = (e, cursor', c')"
      using Suc.prems(2) 2 by simp
    show ?thesis by (rule Suc.IH [OF fill_track_inv(1) [OF Suc.prems(1) 2(2) wf] step])
  qed
qed simp

lemma load_any:
  assumes "play_history_load_from_serialized_bytes_locked b c0 = (e, c')"
  shows "ph_shape c' \<and> (e \<noteq> ESP_OK \<longrightarrow> used (pc_albums c') = [] \<and> used (pc_tracks c') = [])"
proof -
  let ?h = "dec_ph_file_header b"
  let ?ok = "\<not> length b < PLAY_HISTORY_FILE_HEADER_BYTES \<and> fh_version ?h = PLAY_HISTORY_STATE_VERSION \<and>
     \<not> unat (fh_album_count ?h) > PLAY_HISTORY_MAX_ALBUMS \<and> \<not> unat (fh_track_count ?h) > PLAY_HISTORY_MAX_TRACKS \<and>
     length b = play_history_serialized_size_for_counts (unat (fh_album_count ?h)) (unat (fh_track_count ?h))"
  let ?c1 = "(play_history_reset_cache_locked c0)\<lparr>pc_version := fh_version ?h,
      pc_next_sequence := (if fh_next_sequence ?h = 0 then 1 else fh_next_sequence ?h)\<rparr>"
  have empty: "ph_shape (play_history_reset_cache_locked c)"
    "used (pc_albums (play_history_reset_cache_locked c)) = []"
    "used (pc_tracks (play_history_reset_cache_locked c)) = []" for c
    by (simp, simp_all add: play_history_reset_cache_locked_def)
  show ?thesis
  proof (cases ?ok)
    case False
    then have "c' = play_history_reset_cache_locked c0"
      using assms by (auto simp: play_history_load_from_serialized_bytes_locked_def Let_def split: if_splits)
    then show ?thesis by (simp add: empty)
  next
    case True
    obtain e2 cur c2 where a: "load_albums (unat (fh_album_count ?h)) (drop PLAY_HISTORY_FILE_HEADER_BYTES b) ?c1 = (e2, cur, c2)"
      by (metis prod_cases3)
    have "ph_shape ?c1" using True empty(1) [of c0] by (simp add: ph_shape_def)
    note sh2 = load_albums_any [OF this a]
    obtain e3 cur' c3 where t: "load_tracks (unat (fh_track_count ?h)) cur c2 = (e3, cur', c3)"
      by (metis prod_cases3)
    note sh3 = load_tracks_any [OF sh2 [THEN conjunct1] t]
    have "(e, c') = (if e2 \<noteq> ESP_OK then (e2, c2) else if e3 \<noteq> ESP_OK then (e3, c3)
       else if cur' \<noteq> [] then (ESP_ERR_INVALID_RESPONSE, play_history_reset_cache_locked c3)
       else if fh_next_sequence ?h = 0 then (ESP_OK, c3\<lparr>pc_next_sequence := 1, pc_dirty := True\<rparr>)
       else (ESP_OK, c3))"
      unfolding assms [symmetric] play_history_load_from_serialized_bytes_locked_def Let_def
      using True a t by simp
    then show ?thesis
      using sh2 sh3 empty set_next_sequence_inv
      by (auto split: if_splits simp: ph_shape_def)
  qed
qed

section \<open>Properties\<close>

text \<open>Loading the file the service wrote restores every album and every track in slot order,
  the counters and the sequence number.\<close>

theorem ph_file_roundtrip:
  assumes "ph_shape c"
  shows "fst (play_history_build_serialized_blob_locked c) = ESP_OK \<and>
     (case play_history_load_from_serialized_bytes_locked (snd (play_history_build_serialized_blob_locked c)) c0 of
        (e, c') \<Rightarrow> e = ESP_OK \<and> used (pc_albums c') = used (pc_albums c) \<and>
          used (pc_tracks c') = used (pc_tracks c) \<and> pc_album_count c' = pc_album_count c \<and>
          pc_track_count c' = pc_track_count c \<and> pc_next_sequence c' = pc_next_sequence c)"
  using load_built [OF assms, of c0] build_blob [OF assms] by simp

text \<open>C8: Loading any bytes yields a cache whose tables have their fixed size, whose counters
  equal the number of used slots and whose sequence number is not zero; a refused file leaves
  the empty cache.\<close>

theorem ph_load_safe:
  "case play_history_load_from_serialized_bytes_locked b c0 of
     (e, c') \<Rightarrow> ph_shape c' \<and> (e = ESP_OK \<or> (used (pc_albums c') = [] \<and> used (pc_tracks c') = []))"
  using load_any [of b c0] by (cases "play_history_load_from_serialized_bytes_locked b c0") auto

text \<open>C7: A countable play of a recorded track adds one to the count of that track, reports the
  new count to the listener, and changes the entry of no other track.\<close>

theorem ph_play_counted:
  assumes "ph_keys c" and "track_entry c (te_cartridge_checksum ev, te_track_index ev) = Some r"
  shows "case play_history_apply_countable_play_locked cart ev c of
     (e, l, c') \<Rightarrow> e = ESP_OK \<and> map_option le_play_count l = Some (pt_play_count r + 1) \<and>
       map_option pt_play_count (track_entry c' (te_cartridge_checksum ev, te_track_index ev)) =
         Some (pt_play_count r + 1) \<and>
       {k. track_entry c' k \<noteq> track_entry c k} \<subseteq> {(te_cartridge_checksum ev, te_track_index ev)}"
proof -
  obtain e l c' where r: "play_history_apply_countable_play_locked cart ev c = (e, l, c')"
    by (metis prod_cases3)
  note k = apply_countable_known [OF assms r]
  show ?thesis using k(1,3,4) k(2) by (auto simp: r)
qed

text \<open>After a successful synchronisation every track of the mounted cartridge is recorded with
  its metadata and file number, and with the plays it had (or none, where its album had to be
  pruned to make room).\<close>

theorem ph_sync_records:
  assumes "cart_inv cart" and "ph_shape c" and "ph_keys c"
    and "play_history_sync_current_cartridge_locked cart c = (ESP_OK, c')"
    and "cartridge_service_get_metadata_header cart = Some m"
    and "cartridge_service_get_metadata_track i cart = Some t"
  shows "\<exists>old. (old = None \<or> old = track_entry c (jh_checksum m, of_nat i)) \<and>
           recorded t old (track_entry c' (jh_checksum m, of_nat i))"
  using sync_records [OF assms] .

text \<open>When the tables have room for the mounted cartridge, synchronisation succeeds and changes
  no entry of another cartridge.\<close>

theorem ph_sync_with_room:
  assumes "cart_inv cart" and "ph_shape c" and "ph_keys c"
    and "cartridge_service_is_mounted cart" and "cartridge_service_get_metadata_header cart = Some m"
    and "pc_album_count c < PLAY_HISTORY_MAX_ALBUMS"
    and "pc_track_count c + cartridge_service_get_metadata_track_count cart \<le> PLAY_HISTORY_MAX_TRACKS"
  shows "fst (play_history_sync_current_cartridge_locked cart c) = ESP_OK \<and>
     {k. track_entry (snd (play_history_sync_current_cartridge_locked cart c)) k \<noteq> track_entry c k} \<subseteq>
       (\<lambda>i. (jh_checksum m, of_nat i)) ` {..<cartridge_service_get_metadata_track_count cart}"
  using sync_with_room [OF assms] by blast

text \<open>Making room ends, prunes albums in the order they were first seen, and gives up the
  preserved album only when every other album left has the highest sequence number; when it
  reports success there is room.\<close>

theorem ph_prune_order:
  assumes "ph_shape c" and "play_history_ensure_capacity_locked k p da dt c = (e, c')"
  shows "albums_of c' \<subseteq> albums_of c \<and>
     (\<forall>a \<in> albums_of c - albums_of c'. \<forall>b \<in> albums_of c'. may_prune k p b \<longrightarrow>
        pa_first_seen_sequence a \<le> pa_first_seen_sequence b \<and>
        (may_prune k p a \<or> pa_first_seen_sequence b = UINT32_MAX)) \<and>
     (e = ESP_OK \<longrightarrow> pc_album_count c' + da \<le> PLAY_HISTORY_MAX_ALBUMS \<and>
        pc_track_count c' + dt \<le> PLAY_HISTORY_MAX_TRACKS)"
  using ensure_capacity_pruned [OF assms(2)] ensure_capacity_inv [OF assms(2,1)]
  unfolding pruned_well_def pruned_before_def by blast

section \<open>Witnesses\<close>

definition demo_history :: ph_cache where
  "demo_history = snd (play_history_sync_current_cartridge_locked demo_loaded
     (play_history_reset_cache_locked \<lparr>pc_version = 0, pc_next_sequence = 0, pc_album_count = 0,
        pc_track_count = 0, pc_albums = [], pc_tracks = [], pc_dirty = False\<rparr>))"

lemma demo_history_sync:
  "play_history_sync_current_cartridge_locked demo_loaded (play_history_reset_cache_locked c0) = (ESP_OK,
     snd (play_history_sync_current_cartridge_locked demo_loaded (play_history_reset_cache_locked c0)))"
proof -
  have "fst (play_history_sync_current_cartridge_locked demo_loaded (play_history_reset_cache_locked c0)) = ESP_OK"
    by (rule sync_with_room [OF demo_loaded_inv reset_inv demo_loaded_header(1,2)])
      (simp_all add: play_history_reset_cache_locked_def demo_loaded_header(4) PLAY_HISTORY_MAX_ALBUMS_def
        PLAY_HISTORY_MAX_TRACKS_def)
  then show ?thesis by (metis prod.collapse)
qed

lemma demo_history: "ph_shape demo_history" "ph_keys demo_history"
  "\<exists>r. track_entry demo_history (7, 0) = Some r"
proof -
  show "ph_shape demo_history" "ph_keys demo_history"
    using sync_inv [OF demo_loaded_inv reset_inv(1) demo_history_sync] by (simp_all add: demo_history_def)
  obtain t where t: "cartridge_service_get_metadata_track 0 demo_loaded = Some t"
    using cart_metadata.track_defined [OF demo_loaded_inv, of 0] demo_loaded_header(4) by auto
  show "\<exists>r. track_entry demo_history (7, 0) = Some r"
    using sync_records [OF demo_loaded_inv reset_inv demo_history_sync demo_loaded_header(2) t] demo_loaded_header(3)
    by (fastforce simp: recorded_def demo_history_def split: option.splits)
qed

theorem ph_file_roundtrip_witness:
  "case play_history_load_from_serialized_bytes_locked
     (snd (play_history_build_serialized_blob_locked demo_history)) demo_history of
   (e, c') \<Rightarrow> e = ESP_OK \<and> used (pc_tracks c') = used (pc_tracks demo_history)"
  using ph_file_roundtrip [OF demo_history(1), of demo_history] by auto

definition demo_play :: player_service_track_event where
  "demo_play = \<lparr>te_cartridge_checksum = 7, te_track_index = 0, te_track_file_num = 0,
     te_started_at_unix = 0, te_playback_position_sec = 0, te_filename = ''000.jba''\<rparr>"

theorem ph_play_counted_witness:
  "fst (play_history_apply_countable_play_locked demo_loaded demo_play demo_history) = ESP_OK"
proof -
  obtain r where "track_entry demo_history (7, 0) = Some r" using demo_history(3) by blast
  then show ?thesis
    using ph_play_counted [OF demo_history(2), of demo_play r demo_loaded] by (auto simp: demo_play_def)
qed

theorem ph_sync_records_witness:
  "\<exists>r. track_entry demo_history (7, 0) = Some r \<and>
     Some (pt_metadata r) = cartridge_service_get_metadata_track 0 demo_loaded"
proof -
  obtain t where t: "cartridge_service_get_metadata_track 0 demo_loaded = Some t"
    using cart_metadata.track_defined [OF demo_loaded_inv, of 0] demo_loaded_header(4) by auto
  show ?thesis
    using ph_sync_records [OF demo_loaded_inv reset_inv demo_history_sync demo_loaded_header(2) t] t
      demo_loaded_header(3)
    by (fastforce simp: recorded_def demo_history_def split: option.splits)
qed

theorem ph_sync_with_room_witness:
  "fst (play_history_sync_current_cartridge_locked demo_loaded (play_history_reset_cache_locked demo_history)) = ESP_OK"
  using ph_sync_with_room [OF demo_loaded_inv reset_inv demo_loaded_header(1,2)]
  by (simp add: play_history_reset_cache_locked_def demo_loaded_header(4) PLAY_HISTORY_MAX_ALBUMS_def
        PLAY_HISTORY_MAX_TRACKS_def)

theorem ph_prune_order_witness:
  "albums_of (snd (play_history_ensure_capacity_locked 7 True 1 1000 demo_history)) \<subseteq> albums_of demo_history"
  using ph_prune_order [OF demo_history(1), of 7 True 1 1000 "fst (play_history_ensure_capacity_locked 7 True 1 1000 demo_history)"
      "snd (play_history_ensure_capacity_locked 7 True 1 1000 demo_history)"]
  by simp

end
