(* ===== verification/Play_History.thy ===== *)
theory Play_History
  imports Play_History_Cache
begin

text \<open>
  The play history service around the cache, \<^verbatim>\<open>main/play_history_service.c\<close>: the ring
  buffer of events with compaction, the file it is loaded from and committed to, the
  processing pass, the commit protocol between the processing task and the tasks that ask
  for a commit, and the queries. The file system and the task the code runs on are arguments.
\<close>

section \<open>The event queue\<close>

definition PLAY_HISTORY_EVENT_QUEUE_DEPTH :: nat where "PLAY_HISTORY_EVENT_QUEUE_DEPTH = 64"
definition PLAY_HISTORY_EVENTS_PER_PASS :: nat where "PLAY_HISTORY_EVENTS_PER_PASS = 8"
definition PLAY_HISTORY_SERIAL_IO_BYTES :: nat where "PLAY_HISTORY_SERIAL_IO_BYTES = 4096"
definition PLAY_HISTORY_COMMIT_MAX_PASSES :: nat where "PLAY_HISTORY_COMMIT_MAX_PASSES = 3"

datatype ph_event =
    PLAY_HISTORY_EVENT_SYNC_CURRENT_CARTRIDGE
  | PLAY_HISTORY_EVENT_COUNTABLE_PLAY player_service_track_event
  | PLAY_HISTORY_EVENT_CLEAR
  | PLAY_HISTORY_EVENT_REBUILD

fun play_history_is_compactable_event :: "ph_event \<Rightarrow> bool" where
  "play_history_is_compactable_event (PLAY_HISTORY_EVENT_COUNTABLE_PLAY _) = False"
| "play_history_is_compactable_event _ = True"

text \<open>Events of one type without payload are equal, countable plays when their payload is.\<close>

definition play_history_events_equal :: "ph_event \<Rightarrow> ph_event \<Rightarrow> bool" where
  "play_history_events_equal lhs rhs \<longleftrightarrow> lhs = rhs"

record ph_queue =
  eq_slots :: "ph_event list"
  eq_head :: nat
  eq_count :: nat
  eq_overflow_logged :: bool

definition ph_queue_boot :: ph_queue where
  "ph_queue_boot = \<lparr>eq_slots = replicate PLAY_HISTORY_EVENT_QUEUE_DEPTH
     PLAY_HISTORY_EVENT_SYNC_CURRENT_CARTRIDGE, eq_head = 0, eq_count = 0, eq_overflow_logged = False\<rparr>"

definition queued_events :: "ph_queue \<Rightarrow> ph_event list" where
  "queued_events q = map (\<lambda>i. eq_slots q ! ((eq_head q + i) mod PLAY_HISTORY_EVENT_QUEUE_DEPTH))
     [0..<eq_count q]"

definition play_history_queue_event :: "ph_event \<Rightarrow> ph_queue \<Rightarrow> bool \<times> ph_queue" where
  "play_history_queue_event event q =
     (if eq_count q < PLAY_HISTORY_EVENT_QUEUE_DEPTH then
        let queued = play_history_is_compactable_event event \<and>
              list_ex (\<lambda>index. play_history_events_equal
                (eq_slots q ! ((eq_head q + index) mod PLAY_HISTORY_EVENT_QUEUE_DEPTH)) event)
                [0..<eq_count q];
            tail = (eq_head q + eq_count q) mod PLAY_HISTORY_EVENT_QUEUE_DEPTH;
            q1 = (if queued then q
                  else q\<lparr>eq_slots := (eq_slots q)[tail := event], eq_count := eq_count q + 1\<rparr>) in
        (True, q1\<lparr>eq_overflow_logged := False\<rparr>)
      else (False, q\<lparr>eq_overflow_logged := True\<rparr>))"

definition play_history_dequeue_event :: "ph_queue \<Rightarrow> (ph_event \<times> ph_queue) option" where
  "play_history_dequeue_event q =
     (if eq_count q > 0 then
        Some (eq_slots q ! eq_head q,
              q\<lparr>eq_head := (eq_head q + 1) mod PLAY_HISTORY_EVENT_QUEUE_DEPTH, eq_count := eq_count q - 1\<rparr>)
      else None)"

definition ph_queue_wf :: "ph_queue \<Rightarrow> bool" where
  "ph_queue_wf q \<longleftrightarrow> length (eq_slots q) = PLAY_HISTORY_EVENT_QUEUE_DEPTH \<and>
     eq_head q < PLAY_HISTORY_EVENT_QUEUE_DEPTH \<and> eq_count q \<le> PLAY_HISTORY_EVENT_QUEUE_DEPTH"

lemma queued_ex:
  "list_ex (\<lambda>index. play_history_events_equal
      (eq_slots q ! ((eq_head q + index) mod PLAY_HISTORY_EVENT_QUEUE_DEPTH)) event) [0..<eq_count q] \<longleftrightarrow>
   event \<in> set (queued_events q)"
  by (auto simp: queued_events_def list_ex_iff play_history_events_equal_def)

lemma ring_index: "h < n \<Longrightarrow> j \<le> n \<Longrightarrow> (h + j) mod n = (if h + j < n then h + j else h + j - n)" for n :: nat
  by (auto simp: mod_if)

lemma ring_tail_free: "h < n \<Longrightarrow> c < n \<Longrightarrow> i < c \<Longrightarrow> (h + i) mod n \<noteq> (h + c) mod n" for n :: nat
  by (auto simp: ring_index)

lemma queue_event_append:
  assumes "ph_queue_wf q" and "eq_count q < PLAY_HISTORY_EVENT_QUEUE_DEPTH"
  shows "queued_events (q\<lparr>eq_slots := (eq_slots q)[(eq_head q + eq_count q) mod PLAY_HISTORY_EVENT_QUEUE_DEPTH := ev],
           eq_count := eq_count q + 1, eq_overflow_logged := b\<rparr>) = queued_events q @ [ev]"
proof -
  have tail: "(eq_head q + eq_count q) mod PLAY_HISTORY_EVENT_QUEUE_DEPTH < length (eq_slots q)"
    using assms(1) by (simp add: ph_queue_wf_def PLAY_HISTORY_EVENT_QUEUE_DEPTH_def)
  have "(eq_head q + eq_count q) mod PLAY_HISTORY_EVENT_QUEUE_DEPTH \<noteq>
      (eq_head q + i) mod PLAY_HISTORY_EVENT_QUEUE_DEPTH" if "i < eq_count q" for i
    using ring_tail_free [OF _ assms(2) that, of "eq_head q"] assms(1) by (auto simp: ph_queue_wf_def)
  then have "map (\<lambda>i. (eq_slots q)[(eq_head q + eq_count q) mod PLAY_HISTORY_EVENT_QUEUE_DEPTH := ev] !
        ((eq_head q + i) mod PLAY_HISTORY_EVENT_QUEUE_DEPTH)) [0..<eq_count q] = queued_events q"
    unfolding queued_events_def by (intro map_cong refl nth_list_update_neq) auto
  with tail show ?thesis
    unfolding queued_events_def by simp
qed

lemma dequeue_contents:
  assumes "ph_queue_wf q" and "eq_count q > 0"
  shows "queued_events q = eq_slots q ! eq_head q #
     queued_events (q\<lparr>eq_head := (eq_head q + 1) mod PLAY_HISTORY_EVENT_QUEUE_DEPTH, eq_count := eq_count q - 1\<rparr>)"
proof -
  have "[0..<eq_count q] = 0 # map Suc [0..<eq_count q - 1]"
    using assms(2) by (cases "eq_count q") (simp_all add: map_Suc_upt upt_conv_Cons del: upt_Suc)
  moreover have "eq_head q mod PLAY_HISTORY_EVENT_QUEUE_DEPTH = eq_head q"
    using assms(1) by (simp add: ph_queue_wf_def)
  moreover have "(Suc (eq_head q) mod PLAY_HISTORY_EVENT_QUEUE_DEPTH + i) mod PLAY_HISTORY_EVENT_QUEUE_DEPTH =
      Suc (eq_head q + i) mod PLAY_HISTORY_EVENT_QUEUE_DEPTH" for i
    by (simp add: mod_add_left_eq)
  ultimately show ?thesis
    by (simp add: queued_events_def comp_def)
qed

interpretation ph_events: bounded_queue play_history_queue_event play_history_dequeue_event
    queued_events PLAY_HISTORY_EVENT_QUEUE_DEPTH play_history_is_compactable_event ph_queue_wf
proof unfold_locales
  fix q :: ph_queue and q' and x :: ph_event
  assume wf: "ph_queue_wf q"
  have len: "length (queued_events q) = eq_count q" by (simp add: queued_events_def)
  have log: "queued_events (q\<lparr>eq_overflow_logged := b\<rparr>) = queued_events q" for b
    by (simp add: queued_events_def)
  show "ph_queue_wf (snd (play_history_queue_event x q))"
    using wf by (simp add: play_history_queue_event_def Let_def ph_queue_wf_def)
  show "play_history_dequeue_event q = Some (x, q') \<Longrightarrow> ph_queue_wf q'"
    using wf by (auto simp: play_history_dequeue_event_def ph_queue_wf_def PLAY_HISTORY_EVENT_QUEUE_DEPTH_def
        split: if_splits)
  show "PLAY_HISTORY_EVENT_QUEUE_DEPTH \<le> length (queued_events q) \<Longrightarrow>
      \<not> fst (play_history_queue_event x q) \<and> queued_events (snd (play_history_queue_event x q)) = queued_events q"
    by (simp add: len play_history_queue_event_def log)
  show "length (queued_events q) < PLAY_HISTORY_EVENT_QUEUE_DEPTH \<Longrightarrow>
      fst (play_history_queue_event x q) \<and> queued_events (snd (play_history_queue_event x q)) =
        (if play_history_is_compactable_event x \<and> x \<in> set (queued_events q) then queued_events q
         else queued_events q @ [x])"
    using queue_event_append [OF wf]
    by (simp add: len play_history_queue_event_def Let_def queued_ex log)
  show "(play_history_dequeue_event q = None) = (queued_events q = [])"
    by (simp add: play_history_dequeue_event_def queued_events_def)
  show "play_history_dequeue_event q = Some (x, q') \<Longrightarrow> queued_events q = x # queued_events q'"
    using dequeue_contents [OF wf] by (auto simp: play_history_dequeue_event_def split: if_splits)
qed

section \<open>The history file\<close>

text \<open>What the C library does with the file: a device with a state of its own. \<open>pd_read off n\<close>
  is \<^verbatim>\<open>fread\<close> of \<open>n\<close> bytes after a seek to \<open>off\<close>, \<open>pd_write off xs\<close> the number of bytes
  \<^verbatim>\<open>fwrite\<close> reports.\<close>

record 'd ph_dev =
  pd_info :: "'d \<Rightarrow> esp_err \<times> nat \<times> nat"
  pd_existing_size :: "'d \<Rightarrow> int"
  pd_open_ok :: "'d \<Rightarrow> bool"
  pd_truncate :: "nat \<Rightarrow> 'd \<Rightarrow> bool \<times> 'd"
  pd_seek_ok :: "nat \<Rightarrow> 'd \<Rightarrow> bool"
  pd_read :: "nat \<Rightarrow> nat \<Rightarrow> 'd \<Rightarrow> bytes \<times> 'd"
  pd_write :: "nat \<Rightarrow> bytes \<Rightarrow> 'd \<Rightarrow> nat \<times> 'd"
  pd_flush :: "'d \<Rightarrow> bool \<times> 'd"
  pd_close :: "'d \<Rightarrow> bool \<times> 'd"

text \<open>One chunk of a pass: read back, compare, rewrite where it differs.\<close>

definition flush_chunk :: "'d ph_dev \<Rightarrow> bytes \<Rightarrow> nat \<Rightarrow> 'd \<Rightarrow> esp_err \<times> bool \<times> 'd" where
  "flush_chunk dev data offset d =
     (let expected = rd_bytes data offset (min (length data - offset) PLAY_HISTORY_SERIAL_IO_BYTES) in
      if \<not> pd_seek_ok dev offset d then (ESP_FAIL, False, d)
      else
        let (actual, d1) = pd_read dev offset (length expected) d in
        if length actual = length expected \<and> actual = expected then (ESP_OK, True, d1)
        else if \<not> pd_seek_ok dev offset d1 then (ESP_FAIL, False, d1)
        else
          let (written, d2) = pd_write dev offset expected d1 in
          if written \<noteq> length expected then (ESP_FAIL, False, d2) else (ESP_OK, False, d2))"

primrec flush_pass :: "'d ph_dev \<Rightarrow> bytes \<Rightarrow> nat list \<Rightarrow> bool \<Rightarrow> 'd \<Rightarrow> esp_err \<times> bool \<times> 'd" where
  "flush_pass dev data [] identical d = (ESP_OK, identical, d)"
| "flush_pass dev data (offset # rest) identical d =
     (let (err, same, d') = flush_chunk dev data offset d in
      if err \<noteq> ESP_OK then (err, False, d') else flush_pass dev data rest (identical \<and> same) d')"

definition chunk_offsets :: "nat \<Rightarrow> nat list" where
  "chunk_offsets n = map (\<lambda>i. i * PLAY_HISTORY_SERIAL_IO_BYTES)
     [0..<(n + PLAY_HISTORY_SERIAL_IO_BYTES - 1) div PLAY_HISTORY_SERIAL_IO_BYTES]"

primrec flush_passes :: "'d ph_dev \<Rightarrow> bytes \<Rightarrow> nat \<Rightarrow> 'd \<Rightarrow> esp_err \<times> 'd" where
  "flush_passes dev data 0 d = (ESP_FAIL, snd (pd_close dev d))"
| "flush_passes dev data (Suc n) d =
     (let (err, identical, d1) = flush_pass dev data (chunk_offsets (length data)) True d in
      if err \<noteq> ESP_OK then (ESP_FAIL, snd (pd_close dev d1))
      else
        let (flushed, d2) = pd_flush dev d1 in
        if \<not> flushed then (ESP_FAIL, snd (pd_close dev d2))
        else if identical then
          (let (closed, d3) = pd_close dev d2 in (if closed then ESP_OK else ESP_FAIL, d3))
        else flush_passes dev data n d2)"

text \<open>The bytes a commit may take: what is free and what the file has already, as the 32-bit sizes of the
  firmware give it, which wrap when the file system reports more in use than there is.\<close>

definition flush_room :: "nat \<Rightarrow> nat \<Rightarrow> nat \<Rightarrow> nat" where
  "flush_room total_bytes used_bytes existing =
     unat (of_nat total_bytes - of_nat used_bytes + of_nat existing :: u32)"

lemma flush_room_exact:
  assumes "used_bytes \<le> total_bytes" and "total_bytes - used_bytes + existing < 2 ^ 32"
  shows "flush_room total_bytes used_bytes existing = total_bytes - used_bytes + existing"
proof -
  have "(of_nat total_bytes - of_nat used_bytes + of_nat existing :: u32) = of_nat (total_bytes - used_bytes + existing)"
    using assms(1) by simp
  then show ?thesis using assms(2) unfolding flush_room_def by (simp only: unat_of_nat) simp
qed

definition play_history_flush_locked :: "'d ph_dev \<Rightarrow> 'd \<Rightarrow> ph_cache \<Rightarrow> esp_err \<times> ph_cache \<times> 'd" where
  "play_history_flush_locked dev d c0 =
     (if \<not> pc_dirty c0 then (ESP_OK, c0, d)
      else
        let c = c0\<lparr>pc_version := PLAY_HISTORY_STATE_VERSION\<rparr>;
            (err, data) = play_history_build_serialized_blob_locked c in
        if err \<noteq> ESP_OK then (err, c, d)
        else
          let (info_err, total, used_bytes) = pd_info dev d;
              existing = (if pd_existing_size dev d > 0 then nat (pd_existing_size dev d) else 0) in
          if info_err = ESP_OK \<and> (length data > total \<or> length data > flush_room total used_bytes existing)
          then (ESP_ERR_NO_MEM, c, d)
          else if \<not> pd_open_ok dev d then (ESP_FAIL, c, d)
          else
            let (resized, d1) = pd_truncate dev (length data) d in
            if \<not> resized then (ESP_FAIL, c, snd (pd_close dev d1))
            else
              let (e, d2) = flush_passes dev data PLAY_HISTORY_COMMIT_MAX_PASSES d1 in
              (e, if e = ESP_OK then c\<lparr>pc_dirty := False\<rparr> else c, d2))"

text \<open>Opening the file for reading: it is missing, it cannot be opened, or it is there.\<close>

datatype ph_open = Ph_Missing | Ph_Unreadable | Ph_File meta_file

definition play_history_load_locked :: "ph_open \<Rightarrow> ph_cache \<Rightarrow> esp_err \<times> ph_cache" where
  "play_history_load_locked opened c0 =
     (let c = (play_history_reset_cache_locked c0)\<lparr>pc_dirty := False\<rparr> in
      case opened of Ph_Missing \<Rightarrow> (ESP_OK, c)
      | Ph_Unreadable \<Rightarrow> (ESP_FAIL, c)
      | Ph_File f \<Rightarrow>
          if \<not> mf_seek_end_ok f then (ESP_FAIL, c)
          else if mf_size f < 0 \<or> \<not> mf_seek_set_ok f then (ESP_FAIL, c)
          else if mf_size f = 0 then (ESP_OK, c)
          else if nat (mf_size f) > PLAY_HISTORY_MAX_SERIALIZED_BYTES then (ESP_ERR_INVALID_SIZE, c)
          else if length (mf_read f (nat (mf_size f))) \<noteq> nat (mf_size f) then (ESP_FAIL, c)
          else play_history_load_from_serialized_bytes_locked (mf_read f (nat (mf_size f))) c)"

section \<open>The service\<close>

record ph_state =
  hs_cache :: ph_cache
  hs_queue :: ph_queue
  hs_initialised :: bool
  hs_cache_mutex :: bool
  hs_cache_allocated :: bool
  hs_commit_in_progress :: bool
  hs_commit_requested :: bool
  hs_commit_result :: esp_err
  hs_process_task :: "nat option"
  hs_listen_count_callback :: bool
  hs_reported :: "ph_listen_count_event list"

text \<open>The results of the calls \<^verbatim>\<open>play_history_service_init\<close> makes.\<close>

record ph_init_env =
  hi_event_loop :: esp_err
  hi_mutex_ok :: bool
  hi_alloc_ok :: bool
  hi_open :: ph_open
  hi_register :: esp_err

definition ph_boot :: ph_state where
  "ph_boot = \<lparr>hs_cache = \<lparr>pc_version = 0, pc_next_sequence = 0, pc_album_count = 0, pc_track_count = 0,
       pc_albums = replicate PLAY_HISTORY_MAX_ALBUMS None, pc_tracks = replicate PLAY_HISTORY_MAX_TRACKS None,
       pc_dirty = False\<rparr>,
     hs_queue = ph_queue_boot, hs_initialised = False, hs_cache_mutex = False, hs_cache_allocated = False,
     hs_commit_in_progress = False, hs_commit_requested = False, hs_commit_result = ESP_OK,
     hs_process_task = None, hs_listen_count_callback = False, hs_reported = []\<rparr>"

definition ph_enqueue :: "ph_event \<Rightarrow> ph_state \<Rightarrow> bool \<times> ph_state" where
  "ph_enqueue ev s = (let (ok, q) = play_history_queue_event ev (hs_queue s) in (ok, s\<lparr>hs_queue := q\<rparr>))"

definition play_history_invoke_listen_count_callback :: "ph_listen_count_event \<Rightarrow> ph_state \<Rightarrow> ph_state" where
  "play_history_invoke_listen_count_callback ev s =
     (if hs_listen_count_callback s then s\<lparr>hs_reported := hs_reported s @ [ev]\<rparr> else s)"

definition play_history_service_register_listen_count_callback :: "bool \<Rightarrow> ph_state \<Rightarrow> ph_state" where
  "play_history_service_register_listen_count_callback callback s = s\<lparr>hs_listen_count_callback := callback\<rparr>"

definition play_history_allocate_cache :: "bool \<Rightarrow> ph_state \<Rightarrow> esp_err \<times> ph_state" where
  "play_history_allocate_cache ok s =
     (if hs_cache_allocated s then (ESP_OK, s)
      else if \<not> ok then (ESP_ERR_NO_MEM, s)
      else (ESP_OK, s\<lparr>hs_cache_allocated := True\<rparr>))"

text \<open>\<open>None\<close>: \<^verbatim>\<open>ESP_ERROR_CHECK\<close> aborts the firmware.\<close>

definition play_history_service_init ::
    "ph_init_env \<Rightarrow> cart_state \<Rightarrow> ph_state \<Rightarrow> esp_err option \<times> ph_state" where
  "play_history_service_init env cart s =
     (if hs_initialised s then (Some ESP_OK, s)
      else if hi_event_loop env \<noteq> ESP_OK \<and> hi_event_loop env \<noteq> ESP_ERR_INVALID_STATE
        then (Some (hi_event_loop env), s)
      else if \<not> hs_cache_mutex s \<and> \<not> hi_mutex_ok env then (Some ESP_ERR_NO_MEM, s)
      else
        let s1 = s\<lparr>hs_cache_mutex := True\<rparr>;
            (err, s2) = play_history_allocate_cache (hi_alloc_ok env) s1 in
        if err \<noteq> ESP_OK then (Some err, s2)
        else
          let s3 = s2\<lparr>hs_cache := snd (play_history_load_locked (hi_open env) (hs_cache s2))\<rparr> in
          if hi_register env \<noteq> ESP_OK then (None, s3)
          else
            let s4 = s3\<lparr>hs_initialised := True\<rparr> in
            if cartridge_service_is_mounted cart \<or> cartridge_service_is_inserted cart
            then (Some ESP_OK, snd (ph_enqueue PLAY_HISTORY_EVENT_SYNC_CURRENT_CARTRIDGE s4))
            else (Some ESP_OK, s4))"

definition play_history_on_cartridge_event :: "cartridge_event \<Rightarrow> ph_state \<Rightarrow> ph_state" where
  "play_history_on_cartridge_event event_id s =
     (if event_id = CARTRIDGE_SVC_EVENT_INSERTED \<or> event_id = CARTRIDGE_SVC_EVENT_MOUNTED
      then snd (ph_enqueue PLAY_HISTORY_EVENT_SYNC_CURRENT_CARTRIDGE s) else s)"

text \<open>The flag says whether the event is \<^verbatim>\<open>PLAYER_SVC_EVENT_TRACK_BECAME_COUNTABLE\<close>.\<close>

definition play_history_on_player_event ::
    "bool \<Rightarrow> player_service_track_event option \<Rightarrow> ph_state \<Rightarrow> ph_state" where
  "play_history_on_player_event became_countable event_data s =
     (case event_data of None \<Rightarrow> s
      | Some ev \<Rightarrow> if \<not> became_countable then s
                   else snd (ph_enqueue (PLAY_HISTORY_EVENT_COUNTABLE_PLAY ev) s))"

definition play_history_service_request_clear :: "ph_state \<Rightarrow> esp_err \<times> ph_state" where
  "play_history_service_request_clear s =
     (if \<not> hs_initialised s then (ESP_ERR_INVALID_STATE, s)
      else let (ok, s') = ph_enqueue PLAY_HISTORY_EVENT_CLEAR s in
           (if ok then ESP_OK else ESP_ERR_TIMEOUT, s'))"

definition play_history_service_request_rebuild :: "ph_state \<Rightarrow> esp_err \<times> ph_state" where
  "play_history_service_request_rebuild s =
     (if \<not> hs_initialised s then (ESP_ERR_INVALID_STATE, s)
      else let (ok, s') = ph_enqueue PLAY_HISTORY_EVENT_REBUILD s in
           (if ok then ESP_OK else ESP_ERR_TIMEOUT, s'))"

section \<open>Committing\<close>

definition play_history_begin_requested_commit :: "ph_state \<Rightarrow> bool \<times> ph_state" where
  "play_history_begin_requested_commit s =
     (if hs_commit_requested s \<and> \<not> hs_commit_in_progress s
      then (True, s\<lparr>hs_commit_requested := False, hs_commit_in_progress := True\<rparr>) else (False, s))"

definition play_history_run_commit_now :: "'d ph_dev \<Rightarrow> 'd \<Rightarrow> ph_state \<Rightarrow> esp_err \<times> ph_state \<times> 'd" where
  "play_history_run_commit_now dev d s =
     (let (err, c, d') = play_history_flush_locked dev d (hs_cache s) in (err, s\<lparr>hs_cache := c\<rparr>, d'))"

definition play_history_finish_commit :: "esp_err \<Rightarrow> ph_state \<Rightarrow> ph_state" where
  "play_history_finish_commit err s = s\<lparr>hs_commit_result := err, hs_commit_in_progress := False\<rparr>"

text \<open>\<^verbatim>\<open>play_history_service_commit\<close> up to the point where it returns or starts to wait
  (\<open>None\<close>): the branch of the processing task, which commits itself, and the request of any
  other task.\<close>

definition commit_local ::
    "'d ph_dev \<Rightarrow> 'd \<Rightarrow> ph_state \<Rightarrow> esp_err \<times> ph_state \<times> 'd" where
  "commit_local dev d s =
     (if hs_commit_in_progress s then (ESP_ERR_INVALID_STATE, s, d)
      else
        let s1 = s\<lparr>hs_commit_in_progress := True\<rparr>;
            (err, s2, d') = play_history_run_commit_now dev d s1 in
        (err, play_history_finish_commit err s2, d'))"

definition commit_request :: "ph_state \<Rightarrow> esp_err option \<times> ph_state" where
  "commit_request s =
     (if hs_commit_requested s \<or> hs_commit_in_progress s then (Some ESP_ERR_INVALID_STATE, s)
      else (None, s\<lparr>hs_commit_requested := True, hs_commit_result := ESP_ERR_INVALID_STATE\<rparr>))"

definition play_history_service_commit ::
    "'d ph_dev \<Rightarrow> nat \<Rightarrow> 'd \<Rightarrow> ph_state \<Rightarrow> esp_err option \<times> ph_state \<times> 'd" where
  "play_history_service_commit dev task d s =
     (if \<not> hs_initialised s \<or> \<not> hs_cache_mutex s then (Some ESP_OK, s, d)
      else if hs_process_task s = Some task then
        (let (err, s', d') = commit_local dev d s in (Some err, s', d'))
      else let (r, s') = commit_request s in (r, s', d))"

text \<open>One turn of the waiting loop.\<close>

definition commit_poll :: "ph_state \<Rightarrow> esp_err option" where
  "commit_poll s =
     (if \<not> hs_commit_requested s \<and> \<not> hs_commit_in_progress s then Some (hs_commit_result s) else None)"

section \<open>The processing pass\<close>

definition ph_handle_event :: "cart_state \<Rightarrow> ph_event \<Rightarrow> ph_state \<Rightarrow> ph_state" where
  "ph_handle_event cart event s =
     (case event of
        PLAY_HISTORY_EVENT_SYNC_CURRENT_CARTRIDGE \<Rightarrow>
          s\<lparr>hs_cache := snd (play_history_sync_current_cartridge_locked cart (hs_cache s))\<rparr>
      | PLAY_HISTORY_EVENT_COUNTABLE_PLAY ev \<Rightarrow>
          let (err, listen, c) = play_history_apply_countable_play_locked cart ev (hs_cache s);
              s1 = s\<lparr>hs_cache := c\<rparr> in
          (case listen of Some l \<Rightarrow> if err = ESP_OK then play_history_invoke_listen_count_callback l s1 else s1
           | None \<Rightarrow> s1)
      | PLAY_HISTORY_EVENT_CLEAR \<Rightarrow>
          s\<lparr>hs_cache := (play_history_reset_cache_locked (hs_cache s))\<lparr>pc_dirty := True\<rparr>\<rparr>
      | PLAY_HISTORY_EVENT_REBUILD \<Rightarrow>
          s\<lparr>hs_cache := snd (play_history_sync_current_cartridge_locked cart
                ((play_history_reset_cache_locked (hs_cache s))\<lparr>pc_dirty := True\<rparr>))\<rparr>)"

primrec ph_drain :: "nat \<Rightarrow> cart_state \<Rightarrow> ph_state \<Rightarrow> ph_state" where
  "ph_drain 0 cart s = s"
| "ph_drain (Suc n) cart s =
     (case play_history_dequeue_event (hs_queue s) of None \<Rightarrow> s
      | Some (event, q) \<Rightarrow> ph_drain n cart (ph_handle_event cart event (s\<lparr>hs_queue := q\<rparr>)))"

definition play_history_service_process_once ::
    "'d ph_dev \<Rightarrow> cart_state \<Rightarrow> nat \<Rightarrow> 'd \<Rightarrow> ph_state \<Rightarrow> ph_state \<times> 'd" where
  "play_history_service_process_once dev cart task d s0 =
     (let s = s0\<lparr>hs_process_task := Some task\<rparr> in
      if \<not> hs_initialised s \<or> \<not> hs_cache_mutex s then (s, d)
      else
        let (begun, s1) = play_history_begin_requested_commit s in
        if begun then
          let (err, s2, d') = play_history_run_commit_now dev d s1 in
          (play_history_finish_commit err s2, d')
        else if hs_commit_in_progress s1 then (s1, d)
        else (ph_drain PLAY_HISTORY_EVENTS_PER_PASS cart s1, d))"

definition play_history_service_flush ::
    "'d ph_dev \<Rightarrow> nat \<Rightarrow> 'd \<Rightarrow> ph_state \<Rightarrow> esp_err option \<times> ph_state \<times> 'd" where
  "play_history_service_flush = play_history_service_commit"

definition play_history_shutdown_callback ::
    "'d ph_dev \<Rightarrow> nat \<Rightarrow> 'd \<Rightarrow> ph_state \<Rightarrow> esp_err option \<times> ph_state \<times> 'd" where
  "play_history_shutdown_callback = play_history_service_commit"

section \<open>Queries\<close>

definition ph_ready :: "ph_state \<Rightarrow> bool" where
  "ph_ready s \<longleftrightarrow> hs_initialised s \<and> hs_cache_mutex s"

definition play_history_service_is_commit_in_progress :: "ph_state \<Rightarrow> bool" where
  "play_history_service_is_commit_in_progress s \<longleftrightarrow> hs_commit_requested s \<or> hs_commit_in_progress s"

definition play_history_service_is_dirty :: "ph_state \<Rightarrow> bool" where
  "play_history_service_is_dirty s \<longleftrightarrow> ph_ready s \<and> pc_dirty (hs_cache s)"

definition play_history_service_get_album_count :: "ph_state \<Rightarrow> nat" where
  "play_history_service_get_album_count s = (if ph_ready s then pc_album_count (hs_cache s) else 0)"

definition play_history_service_get_track_count :: "ph_state \<Rightarrow> nat" where
  "play_history_service_get_track_count s = (if ph_ready s then pc_track_count (hs_cache s) else 0)"

text \<open>The record of the \<open>n\<close>-th used slot that passes a test, \<open>None\<close> for \<^verbatim>\<open>false\<close>.\<close>

primrec nth_used :: "('a \<Rightarrow> bool) \<Rightarrow> nat \<Rightarrow> 'a option list \<Rightarrow> 'a option" where
  "nth_used P n [] = None"
| "nth_used P n (x # xs) =
     (case x of None \<Rightarrow> nth_used P n xs
      | Some a \<Rightarrow> if \<not> P a then nth_used P n xs
                  else if n = 0 then Some a else nth_used P (n - 1) xs)"

definition play_history_service_get_album_record :: "nat \<Rightarrow> bool \<Rightarrow> ph_state \<Rightarrow> ph_album option" where
  "play_history_service_get_album_record slot out_record s =
     (if \<not> out_record \<or> \<not> ph_ready s then None
      else nth_used (\<lambda>_. True) slot (pc_albums (hs_cache s)))"

definition play_history_service_get_album_record_by_checksum :: "u32 \<Rightarrow> bool \<Rightarrow> ph_state \<Rightarrow> ph_album option" where
  "play_history_service_get_album_record_by_checksum checksum out_record s =
     (if \<not> out_record \<or> \<not> ph_ready s then None
      else case play_history_find_album_slot_locked checksum (hs_cache s) of None \<Rightarrow> None
           | Some slot \<Rightarrow> pc_albums (hs_cache s) ! slot)"

definition play_history_service_get_album_track_count :: "u32 \<Rightarrow> ph_state \<Rightarrow> nat" where
  "play_history_service_get_album_track_count checksum s =
     (if \<not> ph_ready s then 0
      else length (filter (slot_key pt_cartridge_checksum checksum) (pc_tracks (hs_cache s))))"

definition play_history_service_get_album_track_record ::
    "u32 \<Rightarrow> nat \<Rightarrow> bool \<Rightarrow> ph_state \<Rightarrow> ph_track option" where
  "play_history_service_get_album_track_record checksum slot out_record s =
     (if \<not> out_record \<or> \<not> ph_ready s then None
      else nth_used (\<lambda>t. pt_cartridge_checksum t = checksum) slot (pc_tracks (hs_cache s)))"

section \<open>The service as a machine\<close>

text \<open>Everything that happens to the service, with the cartridge as it is at that time. The
  commit is split into the parts other tasks can see: they run between the start of the flush
  and its end.\<close>

datatype 'd ph_op =
    PhInit ph_init_env cart_state
  | PhCartridgeEvent cartridge_event
  | PhPlayerEvent bool "player_service_track_event option"
  | PhRequestClear
  | PhRequestRebuild
  | PhProcessOnce "'d ph_dev" cart_state nat 'd
  | PhCommit "'d ph_dev" nat 'd
  | PhRegisterCallback bool

fun ph_step :: "ph_state \<Rightarrow> 'd ph_op \<Rightarrow> ph_state" where
  "ph_step s (PhInit env cart) = snd (play_history_service_init env cart s)"
| "ph_step s (PhCartridgeEvent ev) = play_history_on_cartridge_event ev s"
| "ph_step s (PhPlayerEvent b ev) = play_history_on_player_event b ev s"
| "ph_step s PhRequestClear = snd (play_history_service_request_clear s)"
| "ph_step s PhRequestRebuild = snd (play_history_service_request_rebuild s)"
| "ph_step s (PhProcessOnce dev cart task d) = fst (play_history_service_process_once dev cart task d s)"
| "ph_step s (PhCommit dev task d) = fst (snd (play_history_service_commit dev task d s))"
| "ph_step s (PhRegisterCallback b) = play_history_service_register_listen_count_callback b s"

text \<open>The cartridge states the operations see satisfy the cartridge's own invariant.\<close>

fun ph_op_ok :: "'d ph_op \<Rightarrow> bool" where
  "ph_op_ok (PhInit env cart) = cart_inv cart"
| "ph_op_ok (PhProcessOnce dev cart task d) = cart_inv cart"
| "ph_op_ok _ = True"

definition ph_inv :: "ph_state \<Rightarrow> bool" where
  "ph_inv s \<longleftrightarrow> (hs_initialised s \<longrightarrow> hs_cache_mutex s \<and> hs_cache_allocated s \<and> ph_shape (hs_cache s)) \<and>
     ph_queue_wf (hs_queue s)"

lemma load_locked_shape: "ph_shape (snd (play_history_load_locked opened c))"
proof -
  have e: "ph_shape ((play_history_reset_cache_locked c)\<lparr>pc_dirty := False\<rparr>)"
    by (simp add: set_next_sequence_inv)
  have "ph_shape (snd (play_history_load_from_serialized_bytes_locked b c'))" for b c'
    using load_any [of b c'] by (cases "play_history_load_from_serialized_bytes_locked b c'") simp
  with e show ?thesis
    by (simp add: play_history_load_locked_def Let_def split: ph_open.split)
qed

lemma ph_enqueue_inv:
  "ph_inv s \<Longrightarrow> ph_inv (snd (ph_enqueue ev s))"
  "hs_cache (snd (ph_enqueue ev s)) = hs_cache s"
  "hs_initialised (snd (ph_enqueue ev s)) = hs_initialised s"
  using ph_events.enq_wf [of "hs_queue s" ev]
  by (auto simp: ph_enqueue_def ph_inv_def split: prod.split)

lemma init_ph_inv:
  assumes "ph_inv s"
  shows "ph_inv (snd (play_history_service_init env cart s))"
proof (cases "hs_initialised s")
  case True
  with assms show ?thesis by (simp add: play_history_service_init_def)
next
  case False
  obtain err s2 where a: "play_history_allocate_cache (hi_alloc_ok env) (s\<lparr>hs_cache_mutex := True\<rparr>) = (err, s2)"
    by fastforce
  then have s2: "err = ESP_OK \<longleftrightarrow> hs_cache_allocated s2" "hs_cache_mutex s2" "\<not> hs_initialised s2"
    "hs_queue s2 = hs_queue s"
    using False by (auto simp: play_history_allocate_cache_def split: if_splits)
  let ?s4 = "s2\<lparr>hs_cache := snd (play_history_load_locked (hi_open env) (hs_cache s2)), hs_initialised := True\<rparr>"
  have "err = ESP_OK \<Longrightarrow> ph_inv ?s4"
    using assms s2 load_locked_shape by (simp add: ph_inv_def)
  from ph_enqueue_inv(1) [OF this] this assms s2 False show ?thesis
    by (auto simp: play_history_service_init_def Let_def a ph_inv_def split: if_splits)
qed

lemma handle_event_shape:
  assumes "cart_inv cart" and "ph_shape (hs_cache s)"
  shows "ph_shape (hs_cache (ph_handle_event cart ev s)) \<and>
     (ph_keys (hs_cache s) \<longrightarrow> ph_keys (hs_cache (ph_handle_event cart ev s)))"
proof (cases ev)
  case PLAY_HISTORY_EVENT_SYNC_CURRENT_CARTRIDGE
  then show ?thesis
    using sync_inv [OF assms] by (auto simp: ph_handle_event_def) (metis prod.collapse)+
next
  case (PLAY_HISTORY_EVENT_COUNTABLE_PLAY te)
  obtain e l c where r: "play_history_apply_countable_play_locked cart te (hs_cache s) = (e, l, c)"
    by (metis prod_cases3)
  with apply_countable_inv [OF assms r] PLAY_HISTORY_EVENT_COUNTABLE_PLAY show ?thesis
    by (auto simp: ph_handle_event_def play_history_invoke_listen_count_callback_def Let_def split: option.split)
next
  case PLAY_HISTORY_EVENT_CLEAR
  then show ?thesis by (simp add: ph_handle_event_def set_next_sequence_inv)
next
  case PLAY_HISTORY_EVENT_REBUILD
  let ?c = "(play_history_reset_cache_locked (hs_cache s))\<lparr>pc_dirty := True\<rparr>"
  obtain e c where r: "play_history_sync_current_cartridge_locked cart ?c = (e, c)" by fastforce
  have "ph_shape ?c" "ph_keys ?c" by (simp_all add: set_next_sequence_inv)
  with sync_inv [OF assms(1) _ r] r PLAY_HISTORY_EVENT_REBUILD show ?thesis by (simp add: ph_handle_event_def)
qed

lemma handle_event_frame:
  "hs_initialised (ph_handle_event cart ev s) = hs_initialised s"
  "hs_cache_mutex (ph_handle_event cart ev s) = hs_cache_mutex s"
  "hs_cache_allocated (ph_handle_event cart ev s) = hs_cache_allocated s"
  "hs_queue (ph_handle_event cart ev s) = hs_queue s"
  "hs_commit_in_progress (ph_handle_event cart ev s) = hs_commit_in_progress s"
  "hs_commit_requested (ph_handle_event cart ev s) = hs_commit_requested s"
  by (auto simp: ph_handle_event_def play_history_invoke_listen_count_callback_def Let_def
      split: ph_event.split prod.split option.split)

lemma drain_inv:
  assumes "cart_inv cart" and "ph_inv s" and "hs_initialised s"
  shows "ph_inv (ph_drain n cart s)"
  using assms(2,3)
proof (induction n arbitrary: s)
  case (Suc n)
  show ?case
  proof (cases "play_history_dequeue_event (hs_queue s)")
    case (Some p)
    obtain ev q where p: "p = (ev, q)" by fastforce
    have "ph_queue_wf q" using ph_events.deq_wf [of "hs_queue s" ev q] Suc.prems(1) Some p by (simp add: ph_inv_def)
    then have "ph_inv (ph_handle_event cart ev (s\<lparr>hs_queue := q\<rparr>))"
      using Suc.prems handle_event_shape [OF assms(1), of "s\<lparr>hs_queue := q\<rparr>" ev]
      by (simp add: ph_inv_def handle_event_frame)
    from Suc.IH [OF this] Some p Suc.prems(2) show ?thesis by (simp add: handle_event_frame)
  qed (use Suc.prems in simp)
qed simp

text \<open>Flushing never touches the tables.\<close>

lemma flush_frame:
  "pc_albums (fst (snd (play_history_flush_locked dev d c))) = pc_albums c"
  "pc_tracks (fst (snd (play_history_flush_locked dev d c))) = pc_tracks c"
  "ph_shape c \<Longrightarrow> ph_shape (fst (snd (play_history_flush_locked dev d c)))"
  by (auto simp: play_history_flush_locked_def Let_def ph_shape_def split: prod.split)

lemma run_commit_now_inv:
  assumes "ph_inv s" and "play_history_run_commit_now dev d s = (e, s', d')"
  shows "ph_inv s'" and "hs_initialised s' = hs_initialised s"
  using assms flush_frame(3) [of "hs_cache s" dev d]
  by (auto simp: play_history_run_commit_now_def ph_inv_def split: prod.splits)

lemma finish_commit_inv [simp]: "ph_inv (play_history_finish_commit e s) = ph_inv s"
  by (simp add: play_history_finish_commit_def ph_inv_def)

lemma ph_inv_flags [simp]:
  "ph_inv (s\<lparr>hs_commit_in_progress := a\<rparr>) = ph_inv s" "ph_inv (s\<lparr>hs_commit_requested := a\<rparr>) = ph_inv s"
  "ph_inv (s\<lparr>hs_commit_result := r\<rparr>) = ph_inv s" "ph_inv (s\<lparr>hs_process_task := t\<rparr>) = ph_inv s"
  "ph_inv (s\<lparr>hs_listen_count_callback := b\<rparr>) = ph_inv s"
  "ph_inv (s\<lparr>hs_commit_requested := a, hs_commit_in_progress := b\<rparr>) = ph_inv s"
  "ph_inv (s\<lparr>hs_commit_requested := a, hs_commit_result := r\<rparr>) = ph_inv s"
  by (simp_all add: ph_inv_def)

lemma process_once_inv:
  assumes "cart_inv cart" and "ph_inv s"
  shows "ph_inv (fst (play_history_service_process_once dev cart task d s))"
  using assms drain_inv [OF assms(1), of "s\<lparr>hs_process_task := Some task\<rparr>"]
    run_commit_now_inv(1) [of "s\<lparr>hs_process_task := Some task, hs_commit_requested := False, hs_commit_in_progress := True\<rparr>"]
  by (auto simp: play_history_service_process_once_def play_history_begin_requested_commit_def Let_def
      split: prod.split)

lemma commit_inv:
  assumes "ph_inv s"
  shows "ph_inv (fst (snd (play_history_service_commit dev task d s)))"
  using assms run_commit_now_inv(1) [of "s\<lparr>hs_commit_in_progress := True\<rparr>"]
  by (auto simp: play_history_service_commit_def commit_local_def commit_request_def Let_def split: prod.split)

lemma ph_step_inv: "ph_op_ok op \<Longrightarrow> ph_inv s \<Longrightarrow> ph_inv (ph_step s op)"
  by (cases op) (auto simp: init_ph_inv process_once_inv commit_inv play_history_on_cartridge_event_def
      play_history_on_player_event_def play_history_service_request_clear_def ph_enqueue_inv(1)
      play_history_service_request_rebuild_def play_history_service_register_listen_count_callback_def
      Let_def case_prod_beta split: option.split)

definition ph_guarded_step :: "ph_state \<Rightarrow> 'd ph_op \<Rightarrow> ph_state" where
  "ph_guarded_step s op = (if ph_op_ok op then ph_step s op else s)"

interpretation ph_machine: event_machine ph_guarded_step ph_inv
  by unfold_locales (simp add: ph_guarded_step_def ph_step_inv)

lemma ph_boot_inv: "ph_inv ph_boot"
  by (simp add: ph_inv_def ph_boot_def ph_queue_wf_def ph_queue_boot_def PLAY_HISTORY_EVENT_QUEUE_DEPTH_def)

section \<open>Flushing to a well-behaved file\<close>

text \<open>
  What the code relies on of the file system: a successful resize gives the file its length,
  a read that returns as many bytes as asked returns the bytes of the file at that offset, a
  write that reports all its bytes has replaced exactly those, and nothing else changes the
  contents.
\<close>

definition dev_lawful :: "'d ph_dev \<Rightarrow> ('d \<Rightarrow> bytes) \<Rightarrow> bool" where
  "dev_lawful dev content \<longleftrightarrow>
     (\<forall>n d. fst (pd_truncate dev n d) \<longrightarrow> length (content (snd (pd_truncate dev n d))) = n) \<and>
     (\<forall>off n d. content (snd (pd_read dev off n d)) = content d) \<and>
     (\<forall>off n d. length (fst (pd_read dev off n d)) = n \<longrightarrow> fst (pd_read dev off n d) = rd_bytes (content d) off n) \<and>
     (\<forall>off xs d. off + length xs \<le> length (content d) \<longrightarrow> fst (pd_write dev off xs d) = length xs \<longrightarrow>
        content (snd (pd_write dev off xs d)) = wr_bytes (content d) off xs) \<and>
     (\<forall>d. content (snd (pd_flush dev d)) = content d) \<and> (\<forall>d. content (snd (pd_close dev d)) = content d)"

definition chunk_len :: "bytes \<Rightarrow> nat \<Rightarrow> nat" where
  "chunk_len data off = min (length data - off) PLAY_HISTORY_SERIAL_IO_BYTES"

lemma chunk_fits: "off \<le> length data \<Longrightarrow> off + chunk_len data off \<le> length data"
  by (simp add: chunk_len_def)

lemma ceil_div_less: "0 < m \<Longrightarrow> i < (n + m - 1) div m \<longleftrightarrow> i * m < n" for m :: nat
proof -
  assume m: "0 < m"
  have "i < (n + m - 1) div m \<longleftrightarrow> Suc i * m \<le> n + m - 1"
    using m by (simp only: Suc_le_eq [symmetric] less_eq_div_iff_mult_less_eq)
  also have "\<dots> \<longleftrightarrow> i * m < n" using m by auto
  finally show ?thesis .
qed

lemma chunk_offsets_iff:
  "off \<in> set (chunk_offsets n) \<longleftrightarrow> off < n \<and> (\<exists>i. off = i * PLAY_HISTORY_SERIAL_IO_BYTES)"
proof -
  have m: "0 < PLAY_HISTORY_SERIAL_IO_BYTES" by (simp add: PLAY_HISTORY_SERIAL_IO_BYTES_def)
  have "off \<in> set (chunk_offsets n) \<longleftrightarrow> (\<exists>i. off = i * PLAY_HISTORY_SERIAL_IO_BYTES \<and>
      i < (n + PLAY_HISTORY_SERIAL_IO_BYTES - 1) div PLAY_HISTORY_SERIAL_IO_BYTES)"
    unfolding chunk_offsets_def set_map set_upt image_iff Bex_def atLeastLessThan_iff
    by (simp only: le0 simp_thms conj_commute)
  also have "\<dots> \<longleftrightarrow> off < n \<and> (\<exists>i. off = i * PLAY_HISTORY_SERIAL_IO_BYTES)"
    unfolding ceil_div_less [OF m] by blast
  finally show ?thesis .
qed

lemma chunk_offsets_cover:
  assumes "i < n"
  shows "\<exists>off \<in> set (chunk_offsets n). off \<le> i \<and> i < off + PLAY_HISTORY_SERIAL_IO_BYTES"
proof (rule bexI [of _ "(i div PLAY_HISTORY_SERIAL_IO_BYTES) * PLAY_HISTORY_SERIAL_IO_BYTES"])
  let ?o = "(i div PLAY_HISTORY_SERIAL_IO_BYTES) * PLAY_HISTORY_SERIAL_IO_BYTES"
  have "?o + i mod PLAY_HISTORY_SERIAL_IO_BYTES = i" by (rule div_mult_mod_eq)
  moreover have "i mod PLAY_HISTORY_SERIAL_IO_BYTES < PLAY_HISTORY_SERIAL_IO_BYTES"
    by (simp add: PLAY_HISTORY_SERIAL_IO_BYTES_def)
  ultimately show le: "?o \<le> i \<and> i < ?o + PLAY_HISTORY_SERIAL_IO_BYTES" by linarith
  have "?o < n" using le assms by linarith
  then show "?o \<in> set (chunk_offsets n)" unfolding chunk_offsets_iff by blast
qed

lemma chunks_equal:
  assumes "length a = length b"
    and "\<forall>off \<in> set (chunk_offsets (length b)). rd_bytes a off (chunk_len b off) = rd_bytes b off (chunk_len b off)"
  shows "a = b"
proof (rule nth_equalityI)
  fix i
  assume i: "i < length a"
  then obtain off where off: "off \<in> set (chunk_offsets (length b))" "off \<le> i" "i < off + PLAY_HISTORY_SERIAL_IO_BYTES"
    using chunk_offsets_cover assms(1) by metis
  then have "i - off < chunk_len b off" using i assms(1) by (simp add: chunk_len_def) linarith
  then have "rd_bytes c off (chunk_len b off) ! (i - off) = c ! i" if "length c = length b" for c
    using off(2) i assms(1) that by (simp add: rd_bytes_def)
  with assms off(1) show "a ! i = b ! i" by metis
qed (use assms in simp)

text \<open>A chunk step leaves the file either as it was, found equal, or with the chunk rewritten.\<close>

lemma flush_chunk_effect:
  assumes "dev_lawful dev content" and "length (content d) = length data" and "off < length data"
    and "flush_chunk dev data off d = (ESP_OK, same, d')"
  shows "content d' = wr_bytes (content d) off (rd_bytes data off (chunk_len data off)) \<and>
     (same \<longrightarrow> content d' = content d \<and> rd_bytes (content d) off (chunk_len data off) = rd_bytes data off (chunk_len data off))"
proof -
  let ?x = "rd_bytes data off (chunk_len data off)"
  have lx: "length ?x = chunk_len data off" and fit: "off + chunk_len data off \<le> length data"
    using assms(3) chunk_fits [of off data] by simp_all
  obtain actual d1 where r: "pd_read dev off (chunk_len data off) d = (actual, d1)" by fastforce
  have c1: "content d1 = content d" and ra: "length actual = chunk_len data off \<Longrightarrow> actual = rd_bytes (content d) off (chunk_len data off)"
    using assms(1) r unfolding dev_lawful_def by (metis fst_conv snd_conv)+
  obtain k d2 where w: "pd_write dev off ?x d1 = (k, d2)" by fastforce
  have c2: "k = length ?x \<Longrightarrow> content d2 = wr_bytes (content d) off ?x"
    using assms(1,2) w c1 fit lx unfolding dev_lawful_def by (metis fst_conv snd_conv)
  show ?thesis
  proof (cases "actual = ?x")
    case True
    then have "same" "d' = d1" using assms(4) r lx
      by (auto simp: flush_chunk_def Let_def chunk_len_def [symmetric] split: if_splits)
    moreover have "rd_bytes (content d) off (chunk_len data off) = ?x" using ra True lx by simp
    moreover have "wr_bytes (content d) off (rd_bytes (content d) off (chunk_len data off)) = content d"
      using fit assms(2) wr_bytes_same by metis
    ultimately show ?thesis using c1 by simp
  next
    case False
    then have "\<not> same" "d' = d2" "k = length ?x" using assms(4) r w lx
      by (auto simp: flush_chunk_def Let_def chunk_len_def [symmetric] split: if_splits)
    then show ?thesis using c2 by simp
  qed
qed

text \<open>A pass: a pass that found everything equal has not written; after any pass that ends well
  the file holds the data, byte for byte.\<close>

lemma nth_wr_rd:
  assumes "off + n \<le> length data" and "length c = length data" and "i < length data"
  shows "wr_bytes c off (rd_bytes data off n) ! i = (if off \<le> i \<and> i < off + n then data ! i else c ! i)"
proof -
  have "length (rd_bytes data off n) = n" using assms(1) by simp
  then show ?thesis
    using assms by (auto simp: wr_bytes_def rd_bytes_def nth_append)
qed

lemma flush_pass_ident: "flush_pass dev data offs ident d = (ESP_OK, True, d') \<Longrightarrow> ident"
  by (induction offs arbitrary: ident d) (auto split: prod.splits if_splits)

lemma flush_pass_effect:
  assumes "dev_lawful dev content" and "length (content d) = length data"
    and "\<forall>off \<in> set offs. off < length data"
    and "flush_pass dev data offs ident d = (ESP_OK, ident', d')"
  shows "length (content d') = length data \<and>
     (\<forall>i < length data. content d' ! i = content d ! i \<or> content d' ! i = data ! i) \<and>
     (\<forall>off \<in> set offs. \<forall>i < length data. off \<le> i \<longrightarrow> i < off + chunk_len data off \<longrightarrow> content d' ! i = data ! i) \<and>
     (ident' \<longrightarrow> content d' = content d \<and>
        (\<forall>off \<in> set offs. rd_bytes (content d) off (chunk_len data off) = rd_bytes data off (chunk_len data off)))"
  using assms(2-4)
proof (induction offs arbitrary: ident d)
  case (Cons off rest)
  obtain e same d1 where ch: "flush_chunk dev data off d = (e, same, d1)" by (metis prod_cases3)
  with Cons.prems(3) have e: "e = ESP_OK" and rest: "flush_pass dev data rest (ident \<and> same) d1 = (ESP_OK, ident', d')"
    by (auto split: if_splits)
  have off: "off < length data" using Cons.prems(2) by simp
  note fit = chunk_fits [OF less_imp_le [OF off]]
  note eff = flush_chunk_effect [OF assms(1) Cons.prems(1) off ch [unfolded e]]
  have len: "length (content d1) = length data" using eff Cons.prems(1) fit by simp
  have nth: "content d1 ! i = (if off \<le> i \<and> i < off + chunk_len data off then data ! i else content d ! i)"
    if "i < length data" for i
    using eff nth_wr_rd [OF fit Cons.prems(1) that] by simp
  note ih = Cons.IH [OF len _ rest]
  have same: "ident' \<Longrightarrow> same"
    using flush_pass_ident [of dev data rest "ident \<and> same" d1 d'] rest by (cases ident') auto
  have ih': "length (content d') = length data \<and>
     (\<forall>i < length data. content d' ! i = content d1 ! i \<or> content d' ! i = data ! i) \<and>
     (\<forall>off \<in> set rest. \<forall>i < length data. off \<le> i \<longrightarrow> i < off + chunk_len data off \<longrightarrow> content d' ! i = data ! i) \<and>
     (ident' \<longrightarrow> content d' = content d1 \<and>
        (\<forall>off \<in> set rest. rd_bytes (content d1) off (chunk_len data off) = rd_bytes data off (chunk_len data off)))"
    using ih Cons.prems(2) by simp
  show ?case
  proof (intro conjI)
    show "length (content d') = length data" using ih' by blast
    show "\<forall>i < length data. content d' ! i = content d ! i \<or> content d' ! i = data ! i"
      using ih' nth by metis
    show "\<forall>off' \<in> set (off # rest). \<forall>i < length data. off' \<le> i \<longrightarrow> i < off' + chunk_len data off' \<longrightarrow> content d' ! i = data ! i"
      using ih' nth by (metis set_ConsD)
    show "ident' \<longrightarrow> content d' = content d \<and>
        (\<forall>off \<in> set (off # rest). rd_bytes (content d) off (chunk_len data off) = rd_bytes data off (chunk_len data off))"
      using ih' same eff by (metis set_ConsD)
  qed
qed simp

lemma flush_pass_data:
  assumes "dev_lawful dev content" and "length (content d) = length data"
    and "flush_pass dev data (chunk_offsets (length data)) ident d = (ESP_OK, ident', d')"
  shows "content d' = data" and "ident' \<Longrightarrow> content d' = content d"
proof -
  have "\<forall>off \<in> set (chunk_offsets (length data)). off < length data" by (simp add: chunk_offsets_iff)
  note eff = flush_pass_effect [OF assms(1,2) this assms(3)]
  show "ident' \<Longrightarrow> content d' = content d" using eff by blast
  show "content d' = data"
  proof (rule nth_equalityI)
    fix i
    assume "i < length (content d')"
    then have i: "i < length data" using eff by simp
    then obtain off where off: "off \<in> set (chunk_offsets (length data))" "off \<le> i" "i < off + PLAY_HISTORY_SERIAL_IO_BYTES"
      using chunk_offsets_cover by metis
    then have "i < off + chunk_len data off" using i by (simp add: chunk_len_def)
    with eff off i show "content d' ! i = data ! i" by blast
  qed (use eff in blast)
qed

lemma flush_passes_ok:
  assumes "dev_lawful dev content" and "length (content d) = length data"
    and "flush_passes dev data n d = (ESP_OK, d')"
  shows "content d' = data"
  using assms(2,3)
proof (induction n arbitrary: d)
  case (Suc n)
  obtain e ident d1 where p: "flush_pass dev data (chunk_offsets (length data)) True d = (e, ident, d1)"
    by (metis prod_cases3)
  obtain fl d2 where f: "pd_flush dev d1 = (fl, d2)" by fastforce
  obtain cl d3 where cl: "pd_close dev d2 = (cl, d3)" by fastforce
  have e: "e = ESP_OK" "fl" using Suc.prems(2) p f by (auto split: if_splits)
  note d1 = flush_pass_data(1) [OF assms(1) Suc.prems(1) p [unfolded e(1)]]
  have d2: "content d2 = data" and d3: "content d3 = content d2"
    using assms(1) f cl d1 unfolding dev_lawful_def by (metis snd_conv)+
  show ?case
  proof (cases ident)
    case True
    then have "d' = d3" using Suc.prems(2) p f cl e by (auto split: if_splits)
    then show ?thesis using d2 d3 by simp
  next
    case False
    then have "flush_passes dev data n d2 = (ESP_OK, d')" using Suc.prems(2) p f e by simp
    from Suc.IH [OF _ this] d2 show ?thesis by simp
  qed
qed simp

text \<open>With a file system that does not fail, two passes are enough: one that rewrites what
  differs and one that finds everything equal. The code allows three.\<close>

definition dev_reliable :: "'d ph_dev \<Rightarrow> ('d \<Rightarrow> bytes) \<Rightarrow> bool" where
  "dev_reliable dev content \<longleftrightarrow> dev_lawful dev content \<and>
     (\<forall>n d. fst (pd_truncate dev n d)) \<and> (\<forall>off d. pd_seek_ok dev off d) \<and>
     (\<forall>off n d. off + n \<le> length (content d) \<longrightarrow> length (fst (pd_read dev off n d)) = n) \<and>
     (\<forall>off xs d. off + length xs \<le> length (content d) \<longrightarrow> fst (pd_write dev off xs d) = length xs) \<and>
     (\<forall>d. fst (pd_flush dev d)) \<and> (\<forall>d. fst (pd_close dev d))"

lemma reliable_chunk:
  assumes "dev_reliable dev content" and "length (content d) = length data" and "off < length data"
  obtains same d' where "flush_chunk dev data off d = (ESP_OK, same, d')"
    and "content d = data \<Longrightarrow> same"
proof -
  let ?n = "chunk_len data off"
  let ?x = "rd_bytes data off ?n"
  note fit = chunk_fits [OF less_imp_le [OF assms(3)]]
  obtain actual d1 where r: "pd_read dev off ?n d = (actual, d1)" by fastforce
  have c1: "content d1 = content d" "actual = rd_bytes (content d) off ?n"
    using assms(1,2) r fit unfolding dev_reliable_def dev_lawful_def by (metis fst_conv snd_conv)+
  obtain k d2 where w: "pd_write dev off ?x d1 = (k, d2)" by fastforce
  have "k = ?n"
    using assms(1,2) w fit c1 length_rd_bytes [OF fit] unfolding dev_reliable_def by (metis fst_conv)
  moreover have "length ?x = ?n" "length actual = ?n" using fit c1(2) assms(2) by simp_all
  moreover have "\<And>off d. pd_seek_ok dev off d" using assms(1) by (simp add: dev_reliable_def)
  ultimately have eq: "flush_chunk dev data off d = (ESP_OK, actual = ?x, if actual = ?x then d1 else d2)"
    using r w by (simp add: flush_chunk_def Let_def chunk_len_def [symmetric])
  show ?thesis by (rule that [OF eq]) (use c1 in simp)
qed

lemma reliable_pass:
  assumes "dev_reliable dev content" and "length (content d) = length data" and "\<forall>off \<in> set offs. off < length data"
  shows "\<exists>ident' d'. flush_pass dev data offs ident d = (ESP_OK, ident', d') \<and> (content d = data \<longrightarrow> ident \<longrightarrow> ident')"
  using assms(2,3)
proof (induction offs arbitrary: ident d)
  case (Cons off rest)
  have law: "dev_lawful dev content" and off: "off < length data"
    using assms(1) Cons.prems(2) by (simp_all add: dev_reliable_def)
  obtain same d1 where c: "flush_chunk dev data off d = (ESP_OK, same, d1)" "content d = data \<Longrightarrow> same"
    using reliable_chunk [OF assms(1) Cons.prems(1) off] by metis
  note eff = flush_chunk_effect [OF law Cons.prems(1) off c(1)]
  have "length (content d1) = length data"
    using eff Cons.prems(1) chunk_fits [OF less_imp_le [OF off]] by simp
  from Cons.IH [OF this, of "ident \<and> same"] Cons.prems(2) c eff show ?case by auto
qed simp

lemma reliable_passes:
  assumes "dev_reliable dev content" and "length (content d) = length data"
  shows "fst (flush_passes dev data (Suc (Suc n)) d) = ESP_OK"
proof -
  have law: "dev_lawful dev content" and fl: "\<And>d. fst (pd_flush dev d)" "\<And>d. fst (pd_close dev d)"
    and keep: "\<And>d. content (snd (pd_flush dev d)) = content d"
    using assms(1) by (auto simp: dev_reliable_def dev_lawful_def)
  have offs: "\<forall>off \<in> set (chunk_offsets (length data)). off < length data" by (simp add: chunk_offsets_iff)
  obtain i1 d1 where p1: "flush_pass dev data (chunk_offsets (length data)) True d = (ESP_OK, i1, d1)"
    using reliable_pass [OF assms offs] by metis
  have d1: "content d1 = data" by (rule flush_pass_data(1) [OF law assms(2) p1])
  obtain d2 where f: "pd_flush dev d1 = (True, d2)" using fl(1) [of d1] by (metis prod.collapse)
  have d2: "content d2 = data" using keep [of d1] f d1 by simp
  then have "length (content d2) = length data" by simp
  then obtain d3 where p2: "flush_pass dev data (chunk_offsets (length data)) True d2 = (ESP_OK, True, d3)"
    using reliable_pass [OF assms(1) _ offs, of d2 True] d2 by metis
  obtain d4 where f2: "pd_flush dev d3 = (True, d4)" using fl(1) [of d3] by (metis prod.collapse)
  show ?thesis
    using p1 f p2 f2 fl(2) [of d2] fl(2) [of d4] by (auto simp: split: prod.split)
qed

lemma flush_persists:
  assumes "dev_lawful dev content" and "ph_shape c" and "pc_dirty c"
    and "play_history_flush_locked dev d c = (ESP_OK, c', d')"
  shows "content d' = snd (play_history_build_serialized_blob_locked c)" and "c' = c\<lparr>pc_dirty := False\<rparr>"
proof -
  have v: "c\<lparr>pc_version := PLAY_HISTORY_STATE_VERSION\<rparr> = c" using assms(2) by (cases c) (simp add: ph_shape_def)
  obtain data where b: "play_history_build_serialized_blob_locked c = (ESP_OK, data)"
    using build_blob [OF assms(2)] by blast
  obtain ok d1 where t: "pd_truncate dev (length data) d = (ok, d1)" by fastforce
  obtain e d2 where p: "flush_passes dev data PLAY_HISTORY_COMMIT_MAX_PASSES d1 = (e, d2)" by fastforce
  have all: "ok" "e = ESP_OK" "d' = d2" "c' = c\<lparr>pc_dirty := False\<rparr>"
    using assms(3,4) t p by (auto simp: play_history_flush_locked_def Let_def v b split: if_splits prod.splits)
  have "length (content d1) = length data"
    using assms(1) t all(1) unfolding dev_lawful_def by (metis fst_conv snd_conv)
  from flush_passes_ok [OF assms(1) this p [unfolded all(2)]] all b
  show "content d' = snd (play_history_build_serialized_blob_locked c)" "c' = c\<lparr>pc_dirty := False\<rparr>" by simp_all
qed

definition flush_space :: "'d ph_dev \<Rightarrow> 'd \<Rightarrow> nat \<Rightarrow> bool" where
  "flush_space dev d n \<longleftrightarrow> (case pd_info dev d of (err, total_bytes, used_bytes) \<Rightarrow>
     err = ESP_OK \<longrightarrow> n \<le> total_bytes \<and> n \<le> flush_room total_bytes used_bytes (nat (pd_existing_size dev d)))"

lemma flush_succeeds:
  assumes "dev_reliable dev content" and "ph_shape c"
    and "pd_open_ok dev d" and "flush_space dev d (length (snd (play_history_build_serialized_blob_locked c)))"
  shows "fst (play_history_flush_locked dev d c) = ESP_OK"
proof -
  have v: "c\<lparr>pc_version := PLAY_HISTORY_STATE_VERSION\<rparr> = c" using assms(2) by (cases c) (simp add: ph_shape_def)
  obtain data where b: "play_history_build_serialized_blob_locked c = (ESP_OK, data)"
    using build_blob [OF assms(2)] by blast
  obtain d1 where t: "pd_truncate dev (length data) d = (True, d1)"
    using assms(1) unfolding dev_reliable_def by (metis prod.collapse)
  then have "length (content d1) = length data"
    using assms(1) unfolding dev_reliable_def dev_lawful_def by (metis fst_conv snd_conv)
  from reliable_passes [OF assms(1) this, of 1] have "fst (flush_passes dev data PLAY_HISTORY_COMMIT_MAX_PASSES d1) = ESP_OK"
    by (simp add: PLAY_HISTORY_COMMIT_MAX_PASSES_def numeral_3_eq_3)
  then show ?thesis
    using assms(3,4) t by (auto simp: play_history_flush_locked_def Let_def v b flush_space_def split: prod.split)
qed

section \<open>The commit protocol\<close>

text \<open>
  The processing task and the tasks that wait for a commit, interleaved at the points where
  the code enters and leaves its critical sections. \<open>cm_started\<close> numbers the flushes,
  \<open>cm_history\<close> has the number and result of each finished one, a waiter remembers how many
  had started when it asked, and \<open>cm_returned\<close> what each got.
\<close>

datatype commit_pc = Commit_Idle | Commit_Running | Commit_Flushed esp_err

record 'd commit_sys =
  cm_ph :: ph_state
  cm_dev :: 'd
  cm_pc :: commit_pc
  cm_waiters :: "(nat \<times> nat) list"
  cm_started :: nat
  cm_history :: "(nat \<times> esp_err) list"
  cm_returned :: "(nat \<times> nat \<times> esp_err) list"

inductive commit_step :: "'d ph_dev \<Rightarrow> 'd commit_sys \<Rightarrow> 'd commit_sys \<Rightarrow> bool" for dev where
  request: "commit_request (cm_ph s) = (None, ph') \<Longrightarrow>
    commit_step dev s (s\<lparr>cm_ph := ph', cm_waiters := cm_waiters s @ [(task, cm_started s)]\<rparr>)"
| begin_requested: "cm_pc s = Commit_Idle \<Longrightarrow> play_history_begin_requested_commit (cm_ph s) = (True, ph') \<Longrightarrow>
    commit_step dev s (s\<lparr>cm_ph := ph', cm_pc := Commit_Running, cm_started := cm_started s + 1\<rparr>)"
| begin_local: "cm_pc s = Commit_Idle \<Longrightarrow> \<not> hs_commit_in_progress (cm_ph s) \<Longrightarrow>
    commit_step dev s (s\<lparr>cm_ph := (cm_ph s)\<lparr>hs_commit_in_progress := True\<rparr>, cm_pc := Commit_Running,
                         cm_started := cm_started s + 1\<rparr>)"
| run: "cm_pc s = Commit_Running \<Longrightarrow> play_history_run_commit_now dev (cm_dev s) (cm_ph s) = (err, ph', d') \<Longrightarrow>
    commit_step dev s (s\<lparr>cm_ph := ph', cm_dev := d', cm_pc := Commit_Flushed err\<rparr>)"
| finish: "cm_pc s = Commit_Flushed err \<Longrightarrow>
    commit_step dev s (s\<lparr>cm_ph := play_history_finish_commit err (cm_ph s), cm_pc := Commit_Idle,
                         cm_history := cm_history s @ [(cm_started s, err)]\<rparr>)"
| events: "cm_pc s = Commit_Idle \<Longrightarrow> \<not> hs_commit_in_progress (cm_ph s) \<Longrightarrow>
    commit_step dev s (s\<lparr>cm_ph := ph_drain PLAY_HISTORY_EVENTS_PER_PASS cart (cm_ph s)\<rparr>)"
| return: "cm_waiters s = us @ (task, k) # vs \<Longrightarrow> commit_poll (cm_ph s) = Some r \<Longrightarrow>
    commit_step dev s (s\<lparr>cm_waiters := us @ vs, cm_returned := cm_returned s @ [(task, k, r)]\<rparr>)"

definition commit_init :: "'d commit_sys \<Rightarrow> bool" where
  "commit_init s \<longleftrightarrow> \<not> hs_commit_in_progress (cm_ph s) \<and> \<not> hs_commit_requested (cm_ph s) \<and>
     cm_pc s = Commit_Idle \<and> cm_waiters s = [] \<and> cm_started s = 0 \<and> cm_history s = [] \<and> cm_returned s = []"

inductive commit_reachable :: "'d ph_dev \<Rightarrow> 'd commit_sys \<Rightarrow> bool" for dev where
  start: "commit_init s \<Longrightarrow> commit_reachable dev s"
| step: "commit_reachable dev s \<Longrightarrow> commit_step dev s s' \<Longrightarrow> commit_reachable dev s'"

definition commit_inv :: "'d commit_sys \<Rightarrow> bool" where
  "commit_inv s \<longleftrightarrow>
     (hs_commit_in_progress (cm_ph s) \<longleftrightarrow> cm_pc s \<noteq> Commit_Idle) \<and>
     (cm_pc s = Commit_Idle \<and> \<not> hs_commit_requested (cm_ph s) \<and> cm_started s > 0 \<longrightarrow>
        (cm_started s, hs_commit_result (cm_ph s)) \<in> set (cm_history s)) \<and>
     (\<forall>(t, k) \<in> set (cm_waiters s). k \<le> cm_started s \<and> (hs_commit_requested (cm_ph s) \<or> k < cm_started s)) \<and>
     (\<forall>(t, k, r) \<in> set (cm_returned s). \<exists>n > k. (n, r) \<in> set (cm_history s))"

lemma run_commit_now_flags:
  "play_history_run_commit_now dev d s = (e, s', d') \<Longrightarrow> hs_commit_in_progress s' = hs_commit_in_progress s \<and>
     hs_commit_requested s' = hs_commit_requested s \<and> hs_commit_result s' = hs_commit_result s"
  by (auto simp: play_history_run_commit_now_def split: prod.splits)

lemma handle_event_result: "hs_commit_result (ph_handle_event cart ev s) = hs_commit_result s"
  by (auto simp: ph_handle_event_def play_history_invoke_listen_count_callback_def Let_def
      split: ph_event.split prod.split option.split)

lemma drain_flags:
  "hs_commit_in_progress (ph_drain n cart s) = hs_commit_in_progress s \<and>
   hs_commit_requested (ph_drain n cart s) = hs_commit_requested s \<and>
   hs_commit_result (ph_drain n cart s) = hs_commit_result s"
  by (induction n arbitrary: s) (auto simp: handle_event_frame handle_event_result split: option.split)

lemma commit_step_inv:
  assumes "commit_step dev s s'" and "commit_inv s"
  shows "commit_inv s'"
  using assms
proof (cases rule: commit_step.cases)
  case (request ph' task)
  then show ?thesis using assms(2)
    by (auto simp: commit_inv_def commit_request_def split: if_splits)
next
  case (begin_requested ph')
  then show ?thesis using assms(2)
    by (force simp: commit_inv_def play_history_begin_requested_commit_def split: if_splits)
next
  case begin_local
  then show ?thesis using assms(2) by (force simp: commit_inv_def)
next
  case (run err ph' d')
  then show ?thesis using assms(2) run_commit_now_flags [OF run(3)] by (auto simp: commit_inv_def)
next
  case (finish err)
  then show ?thesis using assms(2) by (force simp: commit_inv_def play_history_finish_commit_def)
next
  case (events cart)
  then show ?thesis using assms(2) by (simp add: commit_inv_def drain_flags)
next
  case (return us task k vs r)
  then show ?thesis using assms(2) by (fastforce simp: commit_inv_def commit_poll_def split: if_splits)
qed

lemma commit_reachable_inv: "commit_reachable dev s \<Longrightarrow> commit_inv s"
proof (induction rule: commit_reachable.induct)
  case (start s)
  then show ?case by (simp add: commit_init_def commit_inv_def)
next
  case (step s s')
  then show ?case by (blast intro: commit_step_inv)
qed

section \<open>Properties\<close>

text \<open>C6: Whatever reaches the service in whatever order (initialisation with any file, events,
  requests, processing passes, commits to any device), an initialised service keeps its tables
  well formed and within 50 albums and 1000 tracks, and its inbox within 64 events.\<close>

theorem ph_always_wellformed:
  "ph_inv (foldl ph_guarded_step ph_boot ops) \<and>
   play_history_service_get_album_count (foldl ph_guarded_step ph_boot ops) \<le> PLAY_HISTORY_MAX_ALBUMS \<and>
   play_history_service_get_track_count (foldl ph_guarded_step ph_boot ops) \<le> PLAY_HISTORY_MAX_TRACKS \<and>
   length (queued_events (hs_queue (foldl ph_guarded_step ph_boot ops))) \<le> PLAY_HISTORY_EVENT_QUEUE_DEPTH"
proof -
  have inv: "ph_inv (foldl ph_guarded_step ph_boot ops)"
    by (rule ph_machine.run_inv [OF ph_boot_inv])
  then show ?thesis
    using ph_shape_used(3,4) by (auto simp: ph_inv_def ph_queue_wf_def queued_events_def ph_shape_def
        play_history_service_get_album_count_def play_history_service_get_track_count_def ph_ready_def)
qed

text \<open>The inbox accepts an event exactly when it has room, keeps the events already there in
  their order, has an accepted event afterwards (a compactable one at most once), and hands out
  the oldest one.\<close>

theorem ph_inbox_fifo:
  assumes "ph_queue_wf q"
  shows "(fst (play_history_queue_event ev q) \<longleftrightarrow> length (queued_events q) < PLAY_HISTORY_EVENT_QUEUE_DEPTH) \<and>
     queued_events (snd (play_history_queue_event ev q)) = queued_events q @
       (if fst (play_history_queue_event ev q) \<and> \<not> (play_history_is_compactable_event ev \<and> ev \<in> set (queued_events q))
        then [ev] else []) \<and>
     map_option (\<lambda>(x, q'). x # queued_events q') (play_history_dequeue_event q) =
       (if queued_events q = [] then None else Some (queued_events q))"
proof -
  have "fst (play_history_queue_event ev q) \<longleftrightarrow> length (queued_events q) < PLAY_HISTORY_EVENT_QUEUE_DEPTH"
    using ph_events.enq_full [OF assms, of ev] ph_events.enq_room [OF assms, of ev] by force
  moreover have "queued_events (snd (play_history_queue_event ev q)) = queued_events q @
       (if fst (play_history_queue_event ev q) \<and> \<not> (play_history_is_compactable_event ev \<and> ev \<in> set (queued_events q))
        then [ev] else [])"
    using ph_events.enq_full [OF assms, of ev] ph_events.enq_room [OF assms, of ev] by force
  moreover have "map_option (\<lambda>(x, q'). x # queued_events q') (play_history_dequeue_event q) =
       (if queued_events q = [] then None else Some (queued_events q))"
    using ph_events.deq_none [OF assms] ph_events.deq_some [OF assms]
    by (cases "play_history_dequeue_event q") auto
  ultimately show ?thesis by blast
qed

text \<open>C4: When a commit of a dirty cache reports success, the file holds a history that loads
  back to the same albums, tracks and sequence number, whatever the file held before and however
  many chunks had to be rewritten; the cache is then clean.\<close>

theorem ph_commit_durable:
  assumes "dev_lawful dev content" and "ph_shape c" and "pc_dirty c"
    and "play_history_flush_locked dev d c = (ESP_OK, c', d')"
  shows "\<not> pc_dirty c' \<and>
     (case play_history_load_from_serialized_bytes_locked (content d') c0 of
        (e, l) \<Rightarrow> e = ESP_OK \<and> used (pc_albums l) = used (pc_albums c) \<and> used (pc_tracks l) = used (pc_tracks c) \<and>
                 pc_next_sequence l = pc_next_sequence c)"
  using flush_persists [OF assms] load_built [OF assms(2), of c0] by simp

text \<open>C5: On a file system that does not fail and has the space, every commit succeeds within the
  three passes the code allows.\<close>

theorem ph_commit_succeeds:
  assumes "dev_reliable dev content" and "ph_shape c" and "pd_open_ok dev d"
    and "flush_space dev d (length (snd (play_history_build_serialized_blob_locked c)))"
  shows "fst (play_history_flush_locked dev d c) = ESP_OK"
  using flush_succeeds [OF assms] .

text \<open>However requests, commits of the processing task, polls and event passes interleave, a
  task that asked for a commit only returns the result of a flush that started after it asked
  and has finished.\<close>

theorem ph_commit_waits_for_flush:
  assumes "commit_reachable dev s" and "(task, k, r) \<in> set (cm_returned s)"
  shows "\<exists>n > k. (n, r) \<in> set (cm_history s)"
  using commit_reachable_inv [OF assms(1)] assms(2) by (auto simp: commit_inv_def)

text \<open>A commit asked for by another task is carried out by the next processing pass, which
  leaves the result of the flush for the waiting task and does nothing else.\<close>

theorem ph_commit_handshake:
  assumes "ph_ready s" and "hs_process_task s \<noteq> Some task"
    and "play_history_service_commit dev task d s = (None, s1, d1)"
  shows "case play_history_service_process_once dev cart worker d1 s1 of
     (s2, d2) \<Rightarrow> commit_poll s1 = None \<and>
        commit_poll s2 = Some (fst (play_history_flush_locked dev d (hs_cache s))) \<and>
        hs_cache s2 = fst (snd (play_history_flush_locked dev d (hs_cache s))) \<and>
        hs_queue s2 = hs_queue s \<and> d2 = snd (snd (play_history_flush_locked dev d (hs_cache s)))"
proof -
  have s1: "s1 = s\<lparr>hs_commit_requested := True, hs_commit_result := ESP_ERR_INVALID_STATE\<rparr>" "d1 = d"
    "\<not> hs_commit_in_progress s"
    using assms by (auto simp: play_history_service_commit_def ph_ready_def commit_request_def split: if_splits)
  then show ?thesis
    using assms(1) by (auto simp: play_history_service_process_once_def play_history_begin_requested_commit_def
        play_history_run_commit_now_def play_history_finish_commit_def commit_poll_def ph_ready_def Let_def
        split: prod.split)
qed

section \<open>Witnesses\<close>

theorem ph_inbox_fifo_witness:
  "queued_events (snd (play_history_queue_event PLAY_HISTORY_EVENT_CLEAR ph_queue_boot)) = [PLAY_HISTORY_EVENT_CLEAR]"
proof -
  have wf: "ph_queue_wf ph_queue_boot" and e: "queued_events ph_queue_boot = []"
    by (simp_all add: ph_queue_wf_def ph_queue_boot_def PLAY_HISTORY_EVENT_QUEUE_DEPTH_def queued_events_def)
  show ?thesis
    using ph_inbox_fifo [OF wf, of PLAY_HISTORY_EVENT_CLEAR]
    by (auto simp: e PLAY_HISTORY_EVENT_QUEUE_DEPTH_def split: if_splits)
qed

text \<open>A file kept in memory.\<close>

definition ram_dev :: "bytes ph_dev" where
  "ram_dev = \<lparr>pd_info = (\<lambda>d. (ESP_FAIL, 0, 0)), pd_existing_size = (\<lambda>d. int (length d)),
     pd_open_ok = (\<lambda>_. True),
     pd_truncate = (\<lambda>n d. (True, take n d @ replicate (n - length d) 0)), pd_seek_ok = (\<lambda>_ _. True),
     pd_read = (\<lambda>off n d. (rd_bytes d off n, d)), pd_write = (\<lambda>off xs d. (length xs, wr_bytes d off xs)),
     pd_flush = (\<lambda>d. (True, d)), pd_close = (\<lambda>d. (True, d))\<rparr>"

lemma ram_dev_reliable: "dev_reliable ram_dev (\<lambda>d. d)" "dev_lawful ram_dev (\<lambda>d. d)"
  by (auto simp: dev_reliable_def dev_lawful_def ram_dev_def min_def)

lemma sync_ok_dirty:
  "play_history_sync_current_cartridge_locked cart c = (ESP_OK, c') \<Longrightarrow> pc_dirty c'"
  by (erule sync_cases) auto

lemma demo_history_dirty: "pc_dirty demo_history"
  unfolding demo_history_def by (rule sync_ok_dirty [OF demo_history_sync])

lemma demo_flush:
  "fst (play_history_flush_locked ram_dev [1, 2, 3] demo_history) = ESP_OK"
  by (rule flush_succeeds [OF ram_dev_reliable(1) demo_history(1)]) (simp_all add: ram_dev_def flush_space_def)

theorem ph_commit_durable_witness:
  "fst (play_history_load_from_serialized_bytes_locked
     (snd (snd (play_history_flush_locked ram_dev [1, 2, 3] demo_history))) demo_history) = ESP_OK"
proof -
  obtain c' d' where "play_history_flush_locked ram_dev [1, 2, 3] demo_history = (ESP_OK, c', d')"
    using demo_flush by (metis prod.collapse)
  then show ?thesis
    using ph_commit_durable [OF ram_dev_reliable(2) demo_history(1) demo_history_dirty, of "[1, 2, 3]" c' d' demo_history]
    by (auto split: prod.splits)
qed

theorem ph_commit_succeeds_witness:
  "fst (play_history_flush_locked ram_dev [1, 2, 3] demo_history) = ESP_OK"
  by (rule ph_commit_succeeds [OF ram_dev_reliable(1) demo_history(1)])
    (simp_all add: ram_dev_def flush_space_def)

text \<open>A run of the protocol: a request, the flush, and the return.\<close>

definition demo_commit_start :: "bytes commit_sys" where
  "demo_commit_start = \<lparr>cm_ph = ph_boot, cm_dev = [], cm_pc = Commit_Idle, cm_waiters = [],
     cm_started = 0, cm_history = [], cm_returned = []\<rparr>"

definition demo_commit_end :: "bytes commit_sys" where
  "demo_commit_end = demo_commit_start\<lparr>cm_ph := ph_boot\<lparr>hs_commit_result := ESP_OK\<rparr>,
     cm_started := 1, cm_history := [(1, ESP_OK)], cm_returned := [(5, 0, ESP_OK)]\<rparr>"

lemma demo_commit_run: "commit_reachable ram_dev demo_commit_end"
proof -
  let ?p1 = "ph_boot\<lparr>hs_commit_requested := True, hs_commit_result := ESP_ERR_INVALID_STATE\<rparr>"
  let ?p2 = "?p1\<lparr>hs_commit_requested := False, hs_commit_in_progress := True\<rparr>"
  let ?s1 = "demo_commit_start\<lparr>cm_ph := ?p1, cm_waiters := [(5, 0)]\<rparr>"
  let ?s2 = "?s1\<lparr>cm_ph := ?p2, cm_pc := Commit_Running, cm_started := 1\<rparr>"
  let ?s3 = "?s2\<lparr>cm_pc := Commit_Flushed ESP_OK\<rparr>"
  let ?s4 = "?s3\<lparr>cm_ph := play_history_finish_commit ESP_OK ?p2, cm_pc := Commit_Idle, cm_history := [(1, ESP_OK)]\<rparr>"
  have "commit_step ram_dev demo_commit_start ?s1"
    using commit_step.request [of demo_commit_start ?p1 ram_dev 5]
    by (simp add: demo_commit_start_def commit_request_def ph_boot_def)
  moreover have "commit_step ram_dev ?s1 ?s2"
    using commit_step.begin_requested [of ?s1 ?p2 ram_dev]
    by (simp add: demo_commit_start_def play_history_begin_requested_commit_def ph_boot_def)
  moreover have "commit_step ram_dev ?s2 ?s3"
    using commit_step.run [of ?s2 ram_dev ESP_OK ?p2 "[]"]
    by (simp add: demo_commit_start_def play_history_run_commit_now_def play_history_flush_locked_def ph_boot_def)
  moreover have "commit_step ram_dev ?s3 ?s4"
    using commit_step.finish [of ?s3 ESP_OK ram_dev] by (simp add: demo_commit_start_def)
  moreover have "commit_step ram_dev ?s4 demo_commit_end"
    using commit_step.return [of ?s4 "[]" 5 0 "[]" ESP_OK ram_dev]
    by (simp add: demo_commit_start_def demo_commit_end_def commit_poll_def play_history_finish_commit_def ph_boot_def)
  moreover have "commit_reachable ram_dev demo_commit_start"
    by (rule commit_reachable.start) (simp add: commit_init_def demo_commit_start_def ph_boot_def)
  ultimately show ?thesis by (meson commit_reachable.step)
qed

theorem ph_commit_waits_for_flush_witness: "\<exists>n > 0. (n, ESP_OK) \<in> set (cm_history demo_commit_end)"
  by (rule ph_commit_waits_for_flush [OF demo_commit_run, of 5]) (simp add: demo_commit_end_def)

theorem ph_commit_handshake_witness:
  "commit_poll (fst (play_history_service_process_once ram_dev cart_boot 1 []
     (fst (snd (play_history_service_commit ram_dev 2 [] (ph_boot\<lparr>hs_initialised := True, hs_cache_mutex := True\<rparr>)))))) =
   Some ESP_OK"
proof -
  let ?s = "ph_boot\<lparr>hs_initialised := True, hs_cache_mutex := True\<rparr>"
  have c: "play_history_service_commit ram_dev 2 [] ?s =
      (None, fst (snd (play_history_service_commit ram_dev 2 [] ?s)), [])"
    by (simp add: play_history_service_commit_def ph_boot_def commit_request_def)
  show ?thesis
    using ph_commit_handshake [OF _ _ c, of cart_boot 1]
    by (auto simp: ph_ready_def ph_boot_def play_history_flush_locked_def split: prod.splits)
qed

end
