(* ===== verification/Power_Mgmt.thy ===== *)
theory Power_Mgmt
  imports Prelude
begin

text \<open>
  The power management service, \<^verbatim>\<open>main/power_mgmt_service.c\<close>: the reference counts and
  overrides of the two power rails, the pin sequence that switches the DAC, the shutdown
  callbacks in priority order, and the deferred restart. Every driver call the service makes
  is an entry of a trace, and what each returns is an argument (\<open>hw\<close>), which may depend on
  everything that was done before.
\<close>

section \<open>State\<close>

datatype power_mgmt_rail = POWER_MGMT_RAIL_DAC | POWER_MGMT_RAIL_LED

datatype power_mgmt_rail_override =
    POWER_MGMT_OVERRIDE_AUTO
  | POWER_MGMT_OVERRIDE_FORCE_ON
  | POWER_MGMT_OVERRIDE_FORCE_OFF

datatype power_mgmt_pending_action =
    POWER_MGMT_PENDING_ACTION_NONE
  | POWER_MGMT_PENDING_ACTION_REBOOT
  | POWER_MGMT_PENDING_ACTION_DOWNLOAD

datatype pm_pin =
    HAL_DAC_POWER_GATE_PIN
  | HAL_LED_GATE_PIN
  | HAL_DAC_MUTE_PIN
  | HAL_I2S_BCLK_PIN
  | HAL_I2S_WS_PIN
  | HAL_I2S_DATA_PIN

datatype pm_hw =
    Gpio_Config_Gates
  | Gpio_Config_Output pm_pin
  | Gpio_Config_Disabled pm_pin
  | Gpio_Set_Level pm_pin bool
  | I2s_Reconfig bool
  | Task_Delay nat
  | Dac_Prepare_Off
  | Post_Rail_Event bool power_mgmt_rail
  | Post_Shutdown_Event
  | Shutdown_Callback nat nat

record pm_shutdown_entry =
  se_callback :: nat
  se_user_ctx :: nat
  se_priority :: int

record pm_state =
  pm_shutdown_callbacks :: "pm_shutdown_entry list"
  pm_shutdown_callback_count :: nat
  pm_rail_refcount :: "power_mgmt_rail \<Rightarrow> nat"
  pm_rail_override :: "power_mgmt_rail \<Rightarrow> power_mgmt_rail_override"
  pm_rail_enabled :: "power_mgmt_rail \<Rightarrow> bool"
  pm_dac_i2s_channel :: "nat option"
  pm_dac_prepare_off_callback :: bool
  pm_dac_muted :: bool
  pm_initialized :: bool
  pm_pending_action :: power_mgmt_pending_action
  pm_pending_action_deadline :: u32
  pm_trace :: "pm_hw list"

type_synonym pm_hw_env = "pm_hw list \<Rightarrow> pm_hw \<Rightarrow> esp_err"

definition POWER_MGMT_MAX_SHUTDOWN_CALLBACKS :: nat where "POWER_MGMT_MAX_SHUTDOWN_CALLBACKS = 8"
definition POWER_MGMT_DAC_MUTE_SETTLE_MS :: nat where "POWER_MGMT_DAC_MUTE_SETTLE_MS = 1"
definition POWER_MGMT_REBOOT_SETTLE_MS :: nat where "POWER_MGMT_REBOOT_SETTLE_MS = 100"

text \<open>The tick rate of the build configuration.\<close>

definition CONFIG_FREERTOS_HZ :: nat where "CONFIG_FREERTOS_HZ = 100"

definition pdMS_TO_TICKS :: "nat \<Rightarrow> nat" where
  "pdMS_TO_TICKS ms = ms * CONFIG_FREERTOS_HZ div 1000"

definition pm_boot :: pm_state where
  "pm_boot = \<lparr>pm_shutdown_callbacks = replicate POWER_MGMT_MAX_SHUTDOWN_CALLBACKS
        \<lparr>se_callback = 0, se_user_ctx = 0, se_priority = 0\<rparr>,
     pm_shutdown_callback_count = 0, pm_rail_refcount = (\<lambda>_. 0),
     pm_rail_override = (\<lambda>_. POWER_MGMT_OVERRIDE_AUTO), pm_rail_enabled = (\<lambda>_. False),
     pm_dac_i2s_channel = None, pm_dac_prepare_off_callback = False, pm_dac_muted = True,
     pm_initialized = False, pm_pending_action = POWER_MGMT_PENDING_ACTION_NONE,
     pm_pending_action_deadline = 0, pm_trace = []\<rparr>"

section \<open>Driver calls\<close>

text \<open>A sequence of calls that stops at the first that fails.\<close>

definition pm_call :: "pm_hw_env \<Rightarrow> pm_hw \<Rightarrow> pm_state \<Rightarrow> esp_err \<times> pm_state" where
  "pm_call hw a s = (hw (pm_trace s) a, s\<lparr>pm_trace := pm_trace s @ [a]\<rparr>)"

primrec pm_calls :: "pm_hw_env \<Rightarrow> pm_hw list \<Rightarrow> pm_state \<Rightarrow> esp_err \<times> pm_state" where
  "pm_calls hw [] s = (ESP_OK, s)"
| "pm_calls hw (a # as) s =
     (let (err, s') = pm_call hw a s in if err \<noteq> ESP_OK then (err, s') else pm_calls hw as s')"

section \<open>Helpers\<close>

text \<open>A rail argument is an enumeration value the caller may get wrong.\<close>

definition power_mgmt_service_is_valid_rail :: "int \<Rightarrow> bool" where
  "power_mgmt_service_is_valid_rail rail \<longleftrightarrow> rail \<ge> 0 \<and> rail < 2"

definition pm_rail_of :: "int \<Rightarrow> power_mgmt_rail" where
  "pm_rail_of rail = (if rail = 0 then POWER_MGMT_RAIL_DAC else POWER_MGMT_RAIL_LED)"

fun pm_gate_pin :: "power_mgmt_rail \<Rightarrow> pm_pin" where
  "pm_gate_pin POWER_MGMT_RAIL_DAC = HAL_DAC_POWER_GATE_PIN"
| "pm_gate_pin POWER_MGMT_RAIL_LED = HAL_LED_GATE_PIN"

definition power_mgmt_service_deadline_reached :: "u32 \<Rightarrow> u32 \<Rightarrow> bool" where
  "power_mgmt_service_deadline_reached now deadline \<longleftrightarrow> sint (now - deadline) \<ge> 0"

definition power_mgmt_service_reboot_settle_ticks :: nat where
  "power_mgmt_service_reboot_settle_ticks =
     (let settle_ticks = pdMS_TO_TICKS POWER_MGMT_REBOOT_SETTLE_MS in
      if settle_ticks = 0 then 1 else settle_ticks)"

definition power_mgmt_service_schedule_pending_action ::
    "power_mgmt_pending_action \<Rightarrow> u32 \<Rightarrow> pm_state \<Rightarrow> esp_err \<times> pm_state" where
  "power_mgmt_service_schedule_pending_action action now s =
     (if action = POWER_MGMT_PENDING_ACTION_NONE then (ESP_ERR_INVALID_ARG, s)
      else if pm_pending_action s \<noteq> POWER_MGMT_PENDING_ACTION_NONE then (ESP_ERR_INVALID_STATE, s)
      else (ESP_OK, s\<lparr>pm_pending_action := action,
              pm_pending_action_deadline := now + of_nat power_mgmt_service_reboot_settle_ticks\<rparr>))"

definition power_mgmt_service_effective_enabled :: "power_mgmt_rail \<Rightarrow> pm_state \<Rightarrow> bool" where
  "power_mgmt_service_effective_enabled rail s =
     (case pm_rail_override s rail of
        POWER_MGMT_OVERRIDE_FORCE_ON \<Rightarrow> True
      | POWER_MGMT_OVERRIDE_FORCE_OFF \<Rightarrow> False
      | POWER_MGMT_OVERRIDE_AUTO \<Rightarrow> pm_rail_refcount s rail > 0)"

section \<open>Switching a rail\<close>

text \<open>The driver calls of \<^verbatim>\<open>configure_dac_mute_locked\<close> and \<^verbatim>\<open>reconfig_dac_i2s_gpio_locked\<close>.\<close>

definition power_mgmt_service_configure_dac_mute_locked :: "bool \<Rightarrow> pm_state \<Rightarrow> pm_hw list" where
  "power_mgmt_service_configure_dac_mute_locked enabled s =
     (if \<not> enabled then [Gpio_Config_Disabled HAL_DAC_MUTE_PIN]
      else [Gpio_Config_Output HAL_DAC_MUTE_PIN, Gpio_Set_Level HAL_DAC_MUTE_PIN (\<not> pm_dac_muted s)])"

definition power_mgmt_service_reconfig_dac_i2s_gpio_locked :: "bool \<Rightarrow> pm_state \<Rightarrow> pm_hw list" where
  "power_mgmt_service_reconfig_dac_i2s_gpio_locked enabled s =
     (if pm_dac_i2s_channel s = None then [] else [I2s_Reconfig enabled])"

definition dac_on_calls :: "pm_state \<Rightarrow> pm_hw list" where
  "dac_on_calls s = [Gpio_Set_Level HAL_DAC_POWER_GATE_PIN False] @
     power_mgmt_service_configure_dac_mute_locked True s @
     power_mgmt_service_reconfig_dac_i2s_gpio_locked True s"

definition dac_off_calls :: "pm_state \<Rightarrow> pm_hw list" where
  "dac_off_calls s = power_mgmt_service_configure_dac_mute_locked True s @
     [Task_Delay (pdMS_TO_TICKS POWER_MGMT_DAC_MUTE_SETTLE_MS)] @
     (if pm_dac_prepare_off_callback s then [Dac_Prepare_Off] else []) @
     power_mgmt_service_reconfig_dac_i2s_gpio_locked False s @
     [Gpio_Config_Disabled HAL_I2S_BCLK_PIN, Gpio_Config_Disabled HAL_I2S_WS_PIN,
      Gpio_Config_Disabled HAL_I2S_DATA_PIN] @
     power_mgmt_service_configure_dac_mute_locked False s @
     [Gpio_Set_Level HAL_DAC_POWER_GATE_PIN True]"

text \<open>\<^verbatim>\<open>vTaskDelay\<close> returns nothing, so it cannot stop the sequence.\<close>

definition pm_hw_total :: "pm_hw_env \<Rightarrow> pm_hw_env" where
  "pm_hw_total hw tr a = (case a of Task_Delay _ \<Rightarrow> ESP_OK | _ \<Rightarrow> hw tr a)"

definition power_mgmt_service_apply_dac_pin_state_locked ::
    "pm_hw_env \<Rightarrow> bool \<Rightarrow> pm_state \<Rightarrow> esp_err \<times> pm_state" where
  "power_mgmt_service_apply_dac_pin_state_locked hw enabled s =
     (let s1 = s\<lparr>pm_dac_muted := True\<rparr> in
      pm_calls (pm_hw_total hw) (if enabled then dac_on_calls s1 else dac_off_calls s1) s1)"

definition power_mgmt_service_apply_locked ::
    "pm_hw_env \<Rightarrow> power_mgmt_rail \<Rightarrow> pm_state \<Rightarrow> esp_err \<times> pm_state" where
  "power_mgmt_service_apply_locked hw rail s =
     (let enabled = power_mgmt_service_effective_enabled rail s in
      if enabled = pm_rail_enabled s rail then (ESP_OK, s)
      else
        let (err, s1) = (if rail = POWER_MGMT_RAIL_DAC
                         then power_mgmt_service_apply_dac_pin_state_locked hw enabled s
                         else pm_call hw (Gpio_Set_Level (pm_gate_pin rail) (\<not> enabled)) s) in
        if err \<noteq> ESP_OK then (err, s1)
        else pm_call hw (Post_Rail_Event enabled rail)
               (s1\<lparr>pm_rail_enabled := (pm_rail_enabled s1)(rail := enabled)\<rparr>))"

definition power_mgmt_service_bind_dac_i2s_channel ::
    "pm_hw_env \<Rightarrow> nat option \<Rightarrow> bool \<Rightarrow> pm_state \<Rightarrow> esp_err \<times> pm_state" where
  "power_mgmt_service_bind_dac_i2s_channel hw tx_channel prepare_off s =
     (if \<not> pm_initialized s then (ESP_ERR_INVALID_STATE, s)
      else if tx_channel = None then (ESP_ERR_INVALID_ARG, s)
      else if pm_dac_i2s_channel s \<noteq> None \<and> pm_dac_i2s_channel s \<noteq> tx_channel
        then (ESP_ERR_INVALID_STATE, s)
      else
        let s1 = s\<lparr>pm_dac_i2s_channel := tx_channel, pm_dac_prepare_off_callback := prepare_off\<rparr> in
        pm_calls hw (power_mgmt_service_reconfig_dac_i2s_gpio_locked
                       (pm_rail_enabled s1 POWER_MGMT_RAIL_DAC) s1) s1)"

definition force_rail_off :: "pm_hw_env \<Rightarrow> power_mgmt_rail \<Rightarrow> pm_state \<Rightarrow> esp_err \<times> pm_state" where
  "force_rail_off hw rail s = power_mgmt_service_apply_locked hw rail
     (s\<lparr>pm_rail_override := (pm_rail_override s)(rail := POWER_MGMT_OVERRIDE_FORCE_OFF),
        pm_rail_refcount := (pm_rail_refcount s)(rail := 0)\<rparr>)"

definition power_mgmt_service_set_all_rails_off :: "pm_hw_env \<Rightarrow> pm_state \<Rightarrow> esp_err \<times> pm_state" where
  "power_mgmt_service_set_all_rails_off hw s =
     (let (err1, s1) = force_rail_off hw POWER_MGMT_RAIL_DAC s;
          (err2, s2) = force_rail_off hw POWER_MGMT_RAIL_LED s1 in
      (if err1 = ESP_OK then err2 else err1, s2))"

section \<open>Interface operations\<close>

definition power_mgmt_service_init ::
    "pm_hw_env \<Rightarrow> esp_err \<Rightarrow> bool \<Rightarrow> pm_state \<Rightarrow> esp_err \<times> pm_state" where
  "power_mgmt_service_init hw event_loop mutex_ok s =
     (if pm_initialized s then (ESP_OK, s)
      else if event_loop \<noteq> ESP_OK \<and> event_loop \<noteq> ESP_ERR_INVALID_STATE then (event_loop, s)
      else if \<not> mutex_ok then (ESP_ERR_NO_MEM, s)
      else
        let (err, s1) = pm_calls hw
              ([Gpio_Config_Gates, Gpio_Set_Level HAL_DAC_POWER_GATE_PIN True,
                Gpio_Set_Level HAL_LED_GATE_PIN True] @
               power_mgmt_service_configure_dac_mute_locked False s @
               [Gpio_Config_Disabled HAL_I2S_BCLK_PIN, Gpio_Config_Disabled HAL_I2S_WS_PIN,
                Gpio_Config_Disabled HAL_I2S_DATA_PIN]) s in
        if err \<noteq> ESP_OK then (err, s1) else (ESP_OK, s1\<lparr>pm_initialized := True\<rparr>))"

text \<open>The restart the processing pass performs, if any.\<close>

definition power_mgmt_service_process_once ::
    "u32 \<Rightarrow> pm_state \<Rightarrow> power_mgmt_pending_action \<times> pm_state" where
  "power_mgmt_service_process_once now s =
     (if \<not> pm_initialized s then (POWER_MGMT_PENDING_ACTION_NONE, s)
      else if pm_pending_action s \<noteq> POWER_MGMT_PENDING_ACTION_NONE \<and>
              power_mgmt_service_deadline_reached now (pm_pending_action_deadline s)
        then (pm_pending_action s, s\<lparr>pm_pending_action := POWER_MGMT_PENDING_ACTION_NONE\<rparr>)
      else (POWER_MGMT_PENDING_ACTION_NONE, s))"

text \<open>The loop that moves the entries of lower urgency up and writes the new entry.\<close>

fun shift_insert :: "pm_shutdown_entry list \<Rightarrow> nat \<Rightarrow> pm_shutdown_entry \<Rightarrow> pm_shutdown_entry list" where
  "shift_insert callbacks insert_index entry =
     (if insert_index > 0 \<and> se_priority entry < se_priority (callbacks ! (insert_index - 1))
      then shift_insert (callbacks[insert_index := callbacks ! (insert_index - 1)]) (insert_index - 1) entry
      else callbacks[insert_index := entry])"

declare shift_insert.simps [simp del]

definition power_mgmt_service_register_shutdown_callback ::
    "nat option \<Rightarrow> nat \<Rightarrow> int \<Rightarrow> pm_state \<Rightarrow> esp_err \<times> pm_state" where
  "power_mgmt_service_register_shutdown_callback callback user_ctx priority s =
     (if \<not> pm_initialized s then (ESP_ERR_INVALID_STATE, s)
      else case callback of None \<Rightarrow> (ESP_ERR_INVALID_ARG, s)
      | Some cb \<Rightarrow>
          let count = pm_shutdown_callback_count s in
          if list_ex (\<lambda>e. se_callback e = cb \<and> se_user_ctx e = user_ctx)
               (take count (pm_shutdown_callbacks s))
          then (ESP_ERR_INVALID_STATE, s)
          else if count \<ge> POWER_MGMT_MAX_SHUTDOWN_CALLBACKS then (ESP_ERR_NO_MEM, s)
          else (ESP_OK, s\<lparr>pm_shutdown_callbacks := shift_insert (pm_shutdown_callbacks s) count
                   \<lparr>se_callback = cb, se_user_ctx = user_ctx, se_priority = priority\<rparr>,
                 pm_shutdown_callback_count := count + 1\<rparr>))"

definition power_mgmt_service_rail_request :: "pm_hw_env \<Rightarrow> int \<Rightarrow> pm_state \<Rightarrow> esp_err \<times> pm_state" where
  "power_mgmt_service_rail_request hw rail s =
     (if \<not> pm_initialized s then (ESP_ERR_INVALID_STATE, s)
      else if \<not> power_mgmt_service_is_valid_rail rail then (ESP_ERR_INVALID_ARG, s)
      else
        let r = pm_rail_of rail in
        power_mgmt_service_apply_locked hw r
          (s\<lparr>pm_rail_refcount := (pm_rail_refcount s)(r := pm_rail_refcount s r + 1)\<rparr>))"

definition power_mgmt_service_rail_release :: "pm_hw_env \<Rightarrow> int \<Rightarrow> pm_state \<Rightarrow> esp_err \<times> pm_state" where
  "power_mgmt_service_rail_release hw rail s =
     (if \<not> pm_initialized s then (ESP_ERR_INVALID_STATE, s)
      else if \<not> power_mgmt_service_is_valid_rail rail then (ESP_ERR_INVALID_ARG, s)
      else
        let r = pm_rail_of rail in
        if pm_rail_refcount s r = 0 then (ESP_ERR_INVALID_STATE, s)
        else power_mgmt_service_apply_locked hw r
          (s\<lparr>pm_rail_refcount := (pm_rail_refcount s)(r := pm_rail_refcount s r - 1)\<rparr>))"

definition power_mgmt_service_set_dac_muted :: "pm_hw_env \<Rightarrow> bool \<Rightarrow> pm_state \<Rightarrow> esp_err \<times> pm_state" where
  "power_mgmt_service_set_dac_muted hw muted s =
     (if \<not> pm_initialized s then (ESP_ERR_INVALID_STATE, s)
      else if \<not> pm_rail_enabled s POWER_MGMT_RAIL_DAC then (ESP_ERR_INVALID_STATE, s)
      else pm_call hw (Gpio_Set_Level HAL_DAC_MUTE_PIN (\<not> muted)) (s\<lparr>pm_dac_muted := muted\<rparr>))"

definition power_mgmt_service_rail_is_enabled :: "int \<Rightarrow> bool \<Rightarrow> pm_state \<Rightarrow> esp_err \<times> bool option" where
  "power_mgmt_service_rail_is_enabled rail out s =
     (if \<not> pm_initialized s then (ESP_ERR_INVALID_STATE, None)
      else if \<not> power_mgmt_service_is_valid_rail rail \<or> \<not> out then (ESP_ERR_INVALID_ARG, None)
      else (ESP_OK, Some (pm_rail_enabled s (pm_rail_of rail))))"

definition power_mgmt_service_rail_get_refcount :: "int \<Rightarrow> bool \<Rightarrow> pm_state \<Rightarrow> esp_err \<times> nat option" where
  "power_mgmt_service_rail_get_refcount rail out s =
     (if \<not> pm_initialized s then (ESP_ERR_INVALID_STATE, None)
      else if \<not> power_mgmt_service_is_valid_rail rail \<or> \<not> out then (ESP_ERR_INVALID_ARG, None)
      else (ESP_OK, Some (pm_rail_refcount s (pm_rail_of rail))))"

definition power_mgmt_service_rail_get_override ::
    "int \<Rightarrow> bool \<Rightarrow> pm_state \<Rightarrow> esp_err \<times> power_mgmt_rail_override option" where
  "power_mgmt_service_rail_get_override rail out s =
     (if \<not> pm_initialized s then (ESP_ERR_INVALID_STATE, None)
      else if \<not> power_mgmt_service_is_valid_rail rail \<or> \<not> out then (ESP_ERR_INVALID_ARG, None)
      else (ESP_OK, Some (pm_rail_override s (pm_rail_of rail))))"

text \<open>An override argument outside the enumeration is \<open>None\<close>.\<close>

definition power_mgmt_service_rail_set_override ::
    "pm_hw_env \<Rightarrow> int \<Rightarrow> power_mgmt_rail_override option \<Rightarrow> pm_state \<Rightarrow> esp_err \<times> pm_state" where
  "power_mgmt_service_rail_set_override hw rail override_mode s =
     (if \<not> pm_initialized s then (ESP_ERR_INVALID_STATE, s)
      else if \<not> power_mgmt_service_is_valid_rail rail then (ESP_ERR_INVALID_ARG, s)
      else case override_mode of None \<Rightarrow> (ESP_ERR_INVALID_ARG, s)
      | Some m \<Rightarrow>
          let r = pm_rail_of rail in
          power_mgmt_service_apply_locked hw r (s\<lparr>pm_rail_override := (pm_rail_override s)(r := m)\<rparr>))"

definition power_mgmt_service_run_shutdown_callbacks :: "pm_hw_env \<Rightarrow> pm_state \<Rightarrow> esp_err \<times> pm_state" where
  "power_mgmt_service_run_shutdown_callbacks hw s =
     pm_calls hw (Post_Shutdown_Event #
       map (\<lambda>e. Shutdown_Callback (se_callback e) (se_user_ctx e))
         (take (pm_shutdown_callback_count s) (pm_shutdown_callbacks s))) s"

definition pm_shut_down_for ::
    "power_mgmt_pending_action \<Rightarrow> pm_hw_env \<Rightarrow> u32 \<Rightarrow> pm_state \<Rightarrow> esp_err \<times> pm_state" where
  "pm_shut_down_for action hw now s =
     (if \<not> pm_initialized s then (ESP_ERR_INVALID_STATE, s)
      else
        let (err, s1) = power_mgmt_service_run_shutdown_callbacks hw s;
            (err2, s2) = (if err = ESP_OK then power_mgmt_service_set_all_rails_off hw s1 else (err, s1)) in
        if err2 \<noteq> ESP_OK then (err2, s2)
        else power_mgmt_service_schedule_pending_action action now s2)"

definition power_mgmt_service_reboot :: "pm_hw_env \<Rightarrow> u32 \<Rightarrow> pm_state \<Rightarrow> esp_err \<times> pm_state" where
  "power_mgmt_service_reboot = pm_shut_down_for POWER_MGMT_PENDING_ACTION_REBOOT"

definition power_mgmt_service_reboot_to_download :: "pm_hw_env \<Rightarrow> u32 \<Rightarrow> pm_state \<Rightarrow> esp_err \<times> pm_state" where
  "power_mgmt_service_reboot_to_download = pm_shut_down_for POWER_MGMT_PENDING_ACTION_DOWNLOAD"

section \<open>Driver call sequences\<close>

text \<open>A sequence adds a prefix of its calls to the trace and changes nothing else; it succeeds
  exactly when every call was made and returned \<^verbatim>\<open>ESP_OK\<close>.\<close>

lemma pm_calls_prefix:
  "pm_calls hw as s = (e, s') \<Longrightarrow>
     \<exists>n \<le> length as. s' = s\<lparr>pm_trace := pm_trace s @ take n as\<rparr> \<and>
       (e = ESP_OK \<longrightarrow> n = length as) \<and>
       (\<forall>i < n. Suc i < n \<or> e = ESP_OK \<longrightarrow> hw (pm_trace s @ take i as) (as ! i) = ESP_OK) \<and>
       (e \<noteq> ESP_OK \<longrightarrow> n > 0 \<and> hw (pm_trace s @ take (n - 1) as) (as ! (n - 1)) = e)"
proof (induction as arbitrary: s)
  case Nil
  then show ?case by (cases s) auto
next
  case (Cons a as)
  show ?case
  proof (cases "hw (pm_trace s) a = ESP_OK")
    case False
    with Cons.prems show ?thesis
      by (intro exI [of _ 1]) (auto simp: pm_call_def)
  next
    case True
    let ?t = "s\<lparr>pm_trace := pm_trace s @ [a]\<rparr>"
    have "pm_calls hw as ?t = (e, s')" using Cons.prems True by (simp add: pm_call_def)
    from Cons.IH [OF this] obtain n where n: "n \<le> length as" "s' = ?t\<lparr>pm_trace := pm_trace ?t @ take n as\<rparr>"
      "e = ESP_OK \<longrightarrow> n = length as"
      "\<forall>i < n. Suc i < n \<or> e = ESP_OK \<longrightarrow> hw (pm_trace ?t @ take i as) (as ! i) = ESP_OK"
      "e \<noteq> ESP_OK \<longrightarrow> n > 0 \<and> hw (pm_trace ?t @ take (n - 1) as) (as ! (n - 1)) = e" by blast
    show ?thesis
    proof (intro exI [of _ "Suc n"] conjI)
      show "\<forall>i < Suc n. Suc i < Suc n \<or> e = ESP_OK \<longrightarrow> hw (pm_trace s @ take i (a # as)) ((a # as) ! i) = ESP_OK"
        using n(4) True by (auto simp: less_Suc_eq_0_disj)
      show "e \<noteq> ESP_OK \<longrightarrow> Suc n > 0 \<and> hw (pm_trace s @ take (Suc n - 1) (a # as)) ((a # as) ! (Suc n - 1)) = e"
        using n(5) by (auto simp: gr0_conv_Suc)
    qed (use n in auto)
  qed
qed

lemma pm_calls_frame:
  assumes "pm_calls hw as s = (e, s')"
  shows "s' = s\<lparr>pm_trace := pm_trace s'\<rparr>"
proof -
  from pm_calls_prefix [OF assms] obtain n where "s' = s\<lparr>pm_trace := pm_trace s @ take n as\<rparr>" by blast
  then show ?thesis by simp
qed

lemma pm_calls_fields:
  "pm_shutdown_callbacks (snd (pm_calls hw as s)) = pm_shutdown_callbacks s"
  "pm_shutdown_callback_count (snd (pm_calls hw as s)) = pm_shutdown_callback_count s"
  "pm_rail_refcount (snd (pm_calls hw as s)) = pm_rail_refcount s"
  "pm_rail_override (snd (pm_calls hw as s)) = pm_rail_override s"
  "pm_rail_enabled (snd (pm_calls hw as s)) = pm_rail_enabled s"
  "pm_dac_i2s_channel (snd (pm_calls hw as s)) = pm_dac_i2s_channel s"
  "pm_dac_muted (snd (pm_calls hw as s)) = pm_dac_muted s"
  "pm_initialized (snd (pm_calls hw as s)) = pm_initialized s"
  "pm_pending_action (snd (pm_calls hw as s)) = pm_pending_action s"
  "pm_pending_action_deadline (snd (pm_calls hw as s)) = pm_pending_action_deadline s"
  by (induction as arbitrary: s) (simp_all add: pm_call_def split: prod.split)

lemma pm_call_fields:
  "pm_shutdown_callbacks (snd (pm_call hw a s)) = pm_shutdown_callbacks s"
  "pm_shutdown_callback_count (snd (pm_call hw a s)) = pm_shutdown_callback_count s"
  "pm_rail_refcount (snd (pm_call hw a s)) = pm_rail_refcount s"
  "pm_rail_override (snd (pm_call hw a s)) = pm_rail_override s"
  "pm_rail_enabled (snd (pm_call hw a s)) = pm_rail_enabled s"
  "pm_dac_muted (snd (pm_call hw a s)) = pm_dac_muted s"
  "pm_initialized (snd (pm_call hw a s)) = pm_initialized s"
  "pm_pending_action (snd (pm_call hw a s)) = pm_pending_action s"
  "pm_pending_action_deadline (snd (pm_call hw a s)) = pm_pending_action_deadline s"
  by (simp_all add: pm_call_def)

section \<open>Rails\<close>

text \<open>What applying a rail leaves: the requests as they were, the other rail as it was, and the
  rail in the state the requests ask for when it reports success.\<close>

lemma apply_locked_fields:
  fixes hw r s
  defines "s' \<equiv> snd (power_mgmt_service_apply_locked hw r s)"
  shows "pm_rail_refcount s' = pm_rail_refcount s" and "pm_rail_override s' = pm_rail_override s"
    and "r' \<noteq> r \<Longrightarrow> pm_rail_enabled s' r' = pm_rail_enabled s r'"
    and "fst (power_mgmt_service_apply_locked hw r s) = ESP_OK \<Longrightarrow>
           pm_rail_enabled s' r = power_mgmt_service_effective_enabled r s"
    and "pm_shutdown_callbacks s' = pm_shutdown_callbacks s"
    and "pm_shutdown_callback_count s' = pm_shutdown_callback_count s"
    and "pm_initialized s' = pm_initialized s" and "pm_pending_action s' = pm_pending_action s"
    and "\<not> pm_rail_enabled s POWER_MGMT_RAIL_DAC \<longrightarrow> pm_dac_muted s \<Longrightarrow>
         \<not> pm_rail_enabled s' POWER_MGMT_RAIL_DAC \<longrightarrow> pm_dac_muted s'"
  unfolding s'_def
  by (auto simp: power_mgmt_service_apply_locked_def power_mgmt_service_apply_dac_pin_state_locked_def
      Let_def case_prod_beta pm_calls_fields pm_call_fields split: if_splits)

lemma apply_locked_effect:
  assumes "power_mgmt_service_apply_locked hw r s = (e, s')"
  shows "pm_rail_refcount s' = pm_rail_refcount s" and "pm_rail_override s' = pm_rail_override s"
    and "r' \<noteq> r \<Longrightarrow> pm_rail_enabled s' r' = pm_rail_enabled s r'"
    and "e = ESP_OK \<Longrightarrow> pm_rail_enabled s' r = power_mgmt_service_effective_enabled r s"
    and "pm_shutdown_callbacks s' = pm_shutdown_callbacks s"
    and "pm_shutdown_callback_count s' = pm_shutdown_callback_count s"
    and "pm_initialized s' = pm_initialized s" and "pm_pending_action s' = pm_pending_action s"
    and "\<not> pm_rail_enabled s POWER_MGMT_RAIL_DAC \<longrightarrow> pm_dac_muted s \<Longrightarrow>
         \<not> pm_rail_enabled s' POWER_MGMT_RAIL_DAC \<longrightarrow> pm_dac_muted s'"
  using apply_locked_fields [where hw = hw and r = r and s = s] unfolding assms fst_conv snd_conv by blast+

lemma effective_cong:
  "pm_rail_refcount s' = pm_rail_refcount s \<Longrightarrow> pm_rail_override s' = pm_rail_override s \<Longrightarrow>
   power_mgmt_service_effective_enabled r s' = power_mgmt_service_effective_enabled r s"
  by (simp add: power_mgmt_service_effective_enabled_def split: power_mgmt_rail_override.split)

lemma set_all_rails_off_effect:
  assumes "power_mgmt_service_set_all_rails_off hw s = (e, s')"
  shows "e = ESP_OK \<Longrightarrow> pm_rail_enabled s' r = False"
    and "pm_rail_override s' r = POWER_MGMT_OVERRIDE_FORCE_OFF" and "pm_rail_refcount s' r = 0"
    and "pm_pending_action s' = pm_pending_action s" and "pm_initialized s' = pm_initialized s"
    and "pm_shutdown_callbacks s' = pm_shutdown_callbacks s"
    and "pm_shutdown_callback_count s' = pm_shutdown_callback_count s"
    and "\<not> pm_rail_enabled s POWER_MGMT_RAIL_DAC \<longrightarrow> pm_dac_muted s \<Longrightarrow>
         \<not> pm_rail_enabled s' POWER_MGMT_RAIL_DAC \<longrightarrow> pm_dac_muted s'"
proof -
  obtain e1 s1 where a: "force_rail_off hw POWER_MGMT_RAIL_DAC s = (e1, s1)" by fastforce
  obtain e2 where b: "force_rail_off hw POWER_MGMT_RAIL_LED s1 = (e2, s')" "e = (if e1 = ESP_OK then e2 else e1)"
    using assms a by (auto simp: power_mgmt_service_set_all_rails_off_def split: prod.splits)
  note A = apply_locked_effect [OF a [unfolded force_rail_off_def]]
  note B = apply_locked_effect [OF b(1) [unfolded force_rail_off_def]]
  show "pm_rail_override s' r = POWER_MGMT_OVERRIDE_FORCE_OFF" "pm_rail_refcount s' r = 0"
    "pm_pending_action s' = pm_pending_action s" "pm_initialized s' = pm_initialized s"
    "pm_shutdown_callbacks s' = pm_shutdown_callbacks s"
    "pm_shutdown_callback_count s' = pm_shutdown_callback_count s"
    using A(1,2,5-8) B(1,2,5-8) by (cases r; simp)+
  show "\<not> pm_rail_enabled s POWER_MGMT_RAIL_DAC \<longrightarrow> pm_dac_muted s \<Longrightarrow>
         \<not> pm_rail_enabled s' POWER_MGMT_RAIL_DAC \<longrightarrow> pm_dac_muted s'"
    using A(9) B(9) by simp
  assume "e = ESP_OK"
  then have e: "e1 = ESP_OK" "e2 = ESP_OK" using b(2) by (auto split: if_splits)
  have "pm_rail_enabled s1 POWER_MGMT_RAIL_DAC = False"
    using A(4) [OF e(1)] by (simp add: power_mgmt_service_effective_enabled_def)
  moreover have "pm_rail_enabled s' POWER_MGMT_RAIL_LED = False"
    using B(4) [OF e(2)] by (simp add: power_mgmt_service_effective_enabled_def)
  ultimately show "pm_rail_enabled s' r = False"
    using B(3) [of POWER_MGMT_RAIL_DAC] by (cases r) simp_all
qed

section \<open>Shutdown callbacks\<close>

definition pm_callbacks :: "pm_state \<Rightarrow> pm_shutdown_entry list" where
  "pm_callbacks s = take (pm_shutdown_callback_count s) (pm_shutdown_callbacks s)"

text \<open>The insertion loop computes the sorted insertion that puts a new entry behind those of the
  same priority.\<close>

lemma sorted_filter_le:
  "sorted (map f xs) \<Longrightarrow> filter (\<lambda>e. f e \<le> (p :: int)) xs @ filter (\<lambda>e. \<not> f e \<le> p) xs = xs"
proof (induction xs)
  case (Cons a xs)
  show ?case
  proof (cases "f a \<le> p")
    case False
    with Cons.prems have "\<forall>e \<in> set xs. \<not> f e \<le> p" by auto
    then have "filter (\<lambda>e. f e \<le> p) xs = []" "filter (\<lambda>e. \<not> f e \<le> p) xs = xs"
      by (simp_all add: filter_empty_conv filter_id_conv)
    with False show ?thesis by simp
  qed (use Cons in simp)
qed simp

lemma shift_insert_split:
  assumes "\<forall>e \<in> set bs. se_priority x < se_priority e"
    and "as = [] \<or> \<not> se_priority x < se_priority (last as)"
  shows "shift_insert (as @ bs @ c # rest) (length as + length bs) x = as @ x # bs @ rest"
  using assms(1)
proof (induction bs arbitrary: c rest rule: rev_induct)
  case Nil
  have "length as > 0 \<Longrightarrow> (as @ c # rest) ! (length as - 1) = last as"
    by (cases as rule: rev_cases) (simp_all add: nth_append)
  then show ?case using assms(2) by (subst shift_insert.simps) auto
next
  case (snoc b bs)
  have "(as @ (bs @ [b]) @ c # rest)[length as + length (bs @ [b]) := b] = as @ bs @ b # b # rest"
    by (simp add: list_update_append)
  moreover have "(as @ (bs @ [b]) @ c # rest) ! (length as + length (bs @ [b]) - 1) = b"
    by (simp add: nth_append)
  ultimately have "shift_insert (as @ (bs @ [b]) @ c # rest) (length as + length (bs @ [b])) x =
      shift_insert (as @ bs @ b # b # rest) (length as + length bs) x"
    using snoc.prems by (subst shift_insert.simps) simp
  with snoc.IH [of b "b # rest"] snoc.prems show ?case by simp
qed

lemma shift_insert_result:
  assumes "k < length cs" and "sorted (map se_priority (take k cs))"
  shows "take (Suc k) (shift_insert cs k x) =
      filter (\<lambda>e. se_priority e \<le> se_priority x) (take k cs) @ [x] @
      filter (\<lambda>e. \<not> se_priority e \<le> se_priority x) (take k cs)"
    and "length (shift_insert cs k x) = length cs"
proof -
  let ?as = "filter (\<lambda>e. se_priority e \<le> se_priority x) (take k cs)"
  let ?bs = "filter (\<lambda>e. \<not> se_priority e \<le> se_priority x) (take k cs)"
  have tk: "?as @ ?bs = take k cs" using assms(2) by (rule sorted_filter_le)
  have cs: "cs = ?as @ ?bs @ cs ! k # drop (Suc k) cs"
    using tk id_take_nth_drop [OF assms(1)] by (metis append.assoc)
  have k: "k = length ?as + length ?bs"
    using assms(1) by (metis length_append length_take min.absorb4 tk)
  have "?as = [] \<or> last ?as \<in> set ?as" using last_in_set by blast
  then have "?as = [] \<or> \<not> se_priority x < se_priority (last ?as)" by auto
  moreover have "\<forall>e \<in> set ?bs. se_priority x < se_priority e" by auto
  ultimately have e: "shift_insert (?as @ ?bs @ cs ! k # drop (Suc k) cs) (length ?as + length ?bs) x =
      ?as @ x # ?bs @ drop (Suc k) cs"
    by (intro shift_insert_split)
  have r: "shift_insert cs k x = ?as @ x # ?bs @ drop (Suc k) cs"
    by (rule trans [OF arg_cong2 [where f = "\<lambda>a b. shift_insert a b x", OF cs k] e])
  show "length (shift_insert cs k x) = length cs"
    unfolding r length_append list.size length_drop using k assms(1) by linarith
  show "take (Suc k) (shift_insert cs k x) = ?as @ [x] @ ?bs"
  proof -
    have "Suc k = length (?as @ [x] @ ?bs)" using k by simp
    moreover have "take (length ys) (ys @ zs) = ys" for ys zs :: "pm_shutdown_entry list" by simp
    ultimately show ?thesis unfolding r by (metis append.assoc append_Cons append_Nil)
  qed
qed

section \<open>The service as a machine\<close>

datatype pm_op =
    PmInit pm_hw_env esp_err bool
  | PmBind pm_hw_env "nat option" bool
  | PmRegister "nat option" nat int
  | PmRequest pm_hw_env int
  | PmRelease pm_hw_env int
  | PmOverride pm_hw_env int "power_mgmt_rail_override option"
  | PmMute pm_hw_env bool
  | PmReboot pm_hw_env u32
  | PmDownload pm_hw_env u32
  | PmProcess u32

fun pm_step :: "pm_state \<Rightarrow> pm_op \<Rightarrow> pm_state" where
  "pm_step s (PmInit hw l m) = snd (power_mgmt_service_init hw l m s)"
| "pm_step s (PmBind hw c p) = snd (power_mgmt_service_bind_dac_i2s_channel hw c p s)"
| "pm_step s (PmRegister cb ctx p) = snd (power_mgmt_service_register_shutdown_callback cb ctx p s)"
| "pm_step s (PmRequest hw r) = snd (power_mgmt_service_rail_request hw r s)"
| "pm_step s (PmRelease hw r) = snd (power_mgmt_service_rail_release hw r s)"
| "pm_step s (PmOverride hw r m) = snd (power_mgmt_service_rail_set_override hw r m s)"
| "pm_step s (PmMute hw m) = snd (power_mgmt_service_set_dac_muted hw m s)"
| "pm_step s (PmReboot hw now) = snd (power_mgmt_service_reboot hw now s)"
| "pm_step s (PmDownload hw now) = snd (power_mgmt_service_reboot_to_download hw now s)"
| "pm_step s (PmProcess now) = snd (power_mgmt_service_process_once now s)"

definition pm_inv :: "pm_state \<Rightarrow> bool" where
  "pm_inv s \<longleftrightarrow> length (pm_shutdown_callbacks s) = POWER_MGMT_MAX_SHUTDOWN_CALLBACKS \<and>
     pm_shutdown_callback_count s \<le> POWER_MGMT_MAX_SHUTDOWN_CALLBACKS \<and>
     sorted (map se_priority (pm_callbacks s)) \<and>
     distinct (map (\<lambda>e. (se_callback e, se_user_ctx e)) (pm_callbacks s)) \<and>
     (\<not> pm_rail_enabled s POWER_MGMT_RAIL_DAC \<longrightarrow> pm_dac_muted s)"

lemma register_effect:
  assumes "pm_inv s" and "power_mgmt_service_register_shutdown_callback (Some cb) ctx p s = (ESP_OK, s')"
  shows "pm_callbacks s' = filter (\<lambda>e. se_priority e \<le> p) (pm_callbacks s) @
      [\<lparr>se_callback = cb, se_user_ctx = ctx, se_priority = p\<rparr>] @
      filter (\<lambda>e. \<not> se_priority e \<le> p) (pm_callbacks s)"
    and "pm_inv s'"
proof -
  let ?k = "pm_shutdown_callback_count s" and ?x = "\<lparr>se_callback = cb, se_user_ctx = ctx, se_priority = p\<rparr>"
  let ?A = "filter (\<lambda>e. se_priority e \<le> p) (pm_callbacks s)" and ?B = "filter (\<lambda>e. \<not> se_priority e \<le> p) (pm_callbacks s)"
  have r: "?k < length (pm_shutdown_callbacks s)" "\<forall>e \<in> set (pm_callbacks s). (se_callback e, se_user_ctx e) \<noteq> (cb, ctx)"
    and s': "s' = s\<lparr>pm_shutdown_callbacks := shift_insert (pm_shutdown_callbacks s) ?k ?x, pm_shutdown_callback_count := ?k + 1\<rparr>"
    using assms by (auto simp: power_mgmt_service_register_shutdown_callback_def Let_def pm_inv_def pm_callbacks_def
        list_ex_iff split: if_splits)
  have sorted: "sorted (map se_priority (take ?k (pm_shutdown_callbacks s)))"
    using assms(1) by (simp add: pm_inv_def pm_callbacks_def)
  note ins = shift_insert_result [OF r(1) sorted, of ?x]
  show cb: "pm_callbacks s' = ?A @ [?x] @ ?B"
    using ins(1) by (simp add: s' pm_callbacks_def)
  have sf: "sorted (map se_priority (filter P (pm_callbacks s)))" for P
    using assms(1) by (auto simp: pm_inv_def intro: sorted_filter)
  have d: "distinct (map (\<lambda>e. (se_callback e, se_user_ctx e)) (?A @ ?B))"
    using assms(1) sorted_filter_le [of se_priority "pm_callbacks s" p] by (simp only: pm_inv_def)
  have "sorted (map se_priority (pm_callbacks s'))"
    unfolding cb using sf by (auto simp: sorted_append)
  moreover have "distinct (map (\<lambda>e. (se_callback e, se_user_ctx e)) (pm_callbacks s'))"
    unfolding cb using d r(2) by auto
  ultimately show "pm_inv s'"
    using assms(1) ins(2) r(1) by (simp add: pm_inv_def s')
qed

lemma pm_inv_cong:
  assumes "pm_inv s" and "pm_shutdown_callbacks s' = pm_shutdown_callbacks s"
    and "pm_shutdown_callback_count s' = pm_shutdown_callback_count s"
    and "\<not> pm_rail_enabled s' POWER_MGMT_RAIL_DAC \<longrightarrow> pm_dac_muted s'"
  shows "pm_inv s'"
  using assms by (simp add: pm_inv_def pm_callbacks_def)

lemma apply_inv:
  assumes "pm_inv s"
  shows "pm_inv (snd (power_mgmt_service_apply_locked hw r s))"
  by (rule pm_inv_cong [OF assms apply_locked_fields(5,6)])
    (use apply_locked_fields(9) assms in \<open>simp add: pm_inv_def\<close>)

lemma pm_inv_update [simp]:
  "pm_inv (s\<lparr>pm_rail_refcount := f\<rparr>) = pm_inv s" "pm_inv (s\<lparr>pm_rail_override := g\<rparr>) = pm_inv s"
  "pm_inv (s\<lparr>pm_initialized := b\<rparr>) = pm_inv s" "pm_inv (s\<lparr>pm_pending_action := a\<rparr>) = pm_inv s"
  "pm_inv (s\<lparr>pm_pending_action := a, pm_pending_action_deadline := t\<rparr>) = pm_inv s"
  "pm_inv (s\<lparr>pm_dac_i2s_channel := c, pm_dac_prepare_off_callback := b\<rparr>) = pm_inv s"
  by (simp_all add: pm_inv_def pm_callbacks_def)

lemma pm_calls_inv: "pm_inv (snd (pm_calls hw as s)) = pm_inv s"
  by (simp add: pm_inv_def pm_callbacks_def pm_calls_fields)

lemma pm_call_inv: "pm_inv (snd (pm_call hw a s)) = pm_inv s"
  by (simp add: pm_inv_def pm_callbacks_def pm_call_fields)

lemma shut_down_inv:
  assumes "pm_inv s"
  shows "pm_inv (snd (pm_shut_down_for a hw now s))"
proof -
  obtain e1 s1 where r: "power_mgmt_service_run_shutdown_callbacks hw s = (e1, s1)" by fastforce
  have "pm_inv s1" using assms r pm_calls_inv by (metis power_mgmt_service_run_shutdown_callbacks_def snd_conv)
  moreover obtain e2 s2 where o: "power_mgmt_service_set_all_rails_off hw s1 = (e2, s2)" by fastforce
  ultimately have "pm_inv s2"
    using set_all_rails_off_effect(6-8) [OF o] by (intro pm_inv_cong [of s1 s2]) (auto simp: pm_inv_def)
  with assms r o \<open>pm_inv s1\<close> show ?thesis
    by (auto simp: pm_shut_down_for_def power_mgmt_service_schedule_pending_action_def)
qed

lemma pm_step_inv: "pm_inv s \<Longrightarrow> pm_inv (pm_step s op)"
proof (cases op)
  case (PmInit hw l m)
  then show "pm_inv s \<Longrightarrow> ?thesis"
    by (simp add: power_mgmt_service_init_def Let_def case_prod_beta pm_calls_inv pm_call_inv)
next
  case (PmRegister cb ctx p)
  obtain e s' where r: "power_mgmt_service_register_shutdown_callback cb ctx p s = (e, s')" by fastforce
  have "e \<noteq> ESP_OK \<or> cb = None \<Longrightarrow> s' = s"
    using r by (auto simp: power_mgmt_service_register_shutdown_callback_def Let_def split: if_splits option.splits)
  then show "pm_inv s \<Longrightarrow> ?thesis"
    using r register_effect(2) [of s _ ctx p s'] PmRegister by (cases "e = ESP_OK"; cases cb) auto
qed (auto simp: power_mgmt_service_bind_dac_i2s_channel_def power_mgmt_service_rail_request_def
    power_mgmt_service_rail_release_def power_mgmt_service_rail_set_override_def Let_def
    power_mgmt_service_set_dac_muted_def power_mgmt_service_reboot_def power_mgmt_service_reboot_to_download_def
    power_mgmt_service_process_once_def pm_calls_inv apply_inv shut_down_inv pm_call_def split: option.split,
    auto simp: pm_inv_def pm_callbacks_def)

interpretation pm_machine: event_machine pm_step pm_inv
  by unfold_locales (rule pm_step_inv)

lemma pm_boot_inv: "pm_inv pm_boot"
  by (simp add: pm_inv_def pm_boot_def pm_callbacks_def)

section \<open>Deadlines\<close>

lemma sint_nonneg_iff: "0 \<le> sint (w :: u32) \<longleftrightarrow> unat w < 2 ^ 31"
proof -
  have "0 \<le> sint w \<longleftrightarrow> \<not> bit w 31"
    using bit_last_iff [of w] by (simp add: not_less)
  also have "\<dots> \<longleftrightarrow> \<not> bit (unat w) 31"
    by (simp add: bit_unsigned_iff)
  also have "\<dots> \<longleftrightarrow> \<not> odd (unat w div 2 ^ 31)"
    by (simp only: bit_iff_odd)
  also have "\<dots> \<longleftrightarrow> unat w < 2 ^ 31"
  proof -
    have "unat w < 2 ^ LENGTH(32)" by (rule unsigned_less)
    then have "unat w div 2 ^ 31 < 2" by (simp add: less_mult_imp_div_less)
    then show ?thesis by (cases "unat w div 2 ^ 31 = 0") (auto simp: div_eq_0_iff less_2_cases_iff)
  qed
  finally show ?thesis .
qed

text \<open>A deadline \<open>d\<close> ticks ahead is reached exactly when \<open>d\<close> ticks have passed, also across the
  wrap-around of the tick counter, for the first half of the counter's range.\<close>

lemma deadline_reached_iff:
  assumes "d < 2 ^ 30" and "k < 2 ^ 31"
  shows "power_mgmt_service_deadline_reached (t + of_nat k) (t + of_nat d) \<longleftrightarrow> d \<le> k"
proof -
  have diff: "t + of_nat k - (t + of_nat d) = (of_nat k - of_nat d :: u32)" by simp
  show ?thesis
  proof (cases "d \<le> k")
    case True
    then have "of_nat k - of_nat d = (of_nat (k - d) :: u32)" by (simp add: of_nat_diff)
    moreover have "unat (of_nat (k - d) :: u32) = k - d"
      using assms by (simp add: unsigned_of_nat take_bit_nat_eq_self del: of_nat_diff)
    ultimately show ?thesis
      using True assms unfolding power_mgmt_service_deadline_reached_def diff sint_nonneg_iff by simp
  next
    case False
    define x :: u32 where "x = of_nat (d - k)"
    have "of_nat k - of_nat d = - x" using False by (simp add: x_def of_nat_diff)
    moreover have u: "unat x = d - k"
      using assms unfolding x_def by (simp add: unsigned_of_nat take_bit_nat_eq_self del: of_nat_diff)
    moreover have "unat (- x) = 2 ^ 32 - (d - k)"
    proof -
      have ux: "uint x = int (d - k)" using u by (metis uint_nat)
      have "uint (- x) = - int (d - k) mod 2 ^ 32"
        using uint_word_ariths(4) [of x] ux by simp
      also have "\<dots> = (2 ^ 32 + - int (d - k)) mod 2 ^ 32"
        by (rule mod_add_self1 [symmetric])
      also have "\<dots> = 2 ^ 32 + - int (d - k)"
        using False assms(1) by (intro mod_pos_pos_trivial) simp_all
      finally have "nat (uint (- x)) = 2 ^ 32 - (d - k)" using assms(1) by simp
      then show ?thesis by simp
    qed
    ultimately have "unat (of_nat k - of_nat d :: u32) = 2 ^ 32 - (d - k)" by simp
    then show ?thesis
      using False assms unfolding power_mgmt_service_deadline_reached_def diff sint_nonneg_iff by simp
  qed
qed

section \<open>Shutting down\<close>

definition pm_shutdown_calls :: "pm_state \<Rightarrow> pm_hw list" where
  "pm_shutdown_calls s = Post_Shutdown_Event #
     map (\<lambda>e. Shutdown_Callback (se_callback e) (se_user_ctx e)) (pm_callbacks s)"

lemma shut_down_ok:
  assumes "pm_shut_down_for a hw now s = (ESP_OK, s')"
  shows "\<forall>i < length (pm_shutdown_calls s).
        hw (pm_trace s @ take i (pm_shutdown_calls s)) (pm_shutdown_calls s ! i) = ESP_OK"
    and "\<not> pm_rail_enabled s' r" and "pm_rail_override s' r = POWER_MGMT_OVERRIDE_FORCE_OFF"
    and "pm_pending_action s = POWER_MGMT_PENDING_ACTION_NONE" and "pm_pending_action s' = a"
    and "pm_pending_action_deadline s' = now + of_nat power_mgmt_service_reboot_settle_ticks"
proof -
  obtain e1 s1 where r: "power_mgmt_service_run_shutdown_callbacks hw s = (e1, s1)" by fastforce
  obtain e2 s2 where o: "power_mgmt_service_set_all_rails_off hw s1 = (e2, s2)" by fastforce
  have all: "e1 = ESP_OK" "e2 = ESP_OK" "pm_pending_action s2 = POWER_MGMT_PENDING_ACTION_NONE"
    "s' = s2\<lparr>pm_pending_action := a,
       pm_pending_action_deadline := now + of_nat power_mgmt_service_reboot_settle_ticks\<rparr>"
    using assms r o by (auto simp: pm_shut_down_for_def power_mgmt_service_schedule_pending_action_def
        split: if_splits)
  have calls: "pm_calls hw (pm_shutdown_calls s) s = (ESP_OK, s1)"
    using r all(1) by (simp add: power_mgmt_service_run_shutdown_callbacks_def pm_shutdown_calls_def pm_callbacks_def)
  show "\<forall>i < length (pm_shutdown_calls s).
        hw (pm_trace s @ take i (pm_shutdown_calls s)) (pm_shutdown_calls s ! i) = ESP_OK"
    using pm_calls_prefix [OF calls] by auto
  have s1: "pm_pending_action s1 = pm_pending_action s"
    using pm_calls_fields(9) [of hw "pm_shutdown_calls s" s] by (simp add: calls)
  show "\<not> pm_rail_enabled s' r" "pm_rail_override s' r = POWER_MGMT_OVERRIDE_FORCE_OFF"
    "pm_pending_action s = POWER_MGMT_PENDING_ACTION_NONE" "pm_pending_action s' = a"
    "pm_pending_action_deadline s' = now + of_nat power_mgmt_service_reboot_settle_ticks"
    using set_all_rails_off_effect [OF o] all s1 by simp_all
qed

lemma shut_down_failed:
  assumes "pm_shut_down_for a hw now s = (e, s')" and "e \<noteq> ESP_OK"
  shows "pm_pending_action s' = pm_pending_action s"
proof -
  obtain e1 s1 where r: "power_mgmt_service_run_shutdown_callbacks hw s = (e1, s1)" by fastforce
  obtain e2 s2 where o: "power_mgmt_service_set_all_rails_off hw s1 = (e2, s2)" by fastforce
  have "pm_pending_action s1 = pm_pending_action s"
    using r pm_calls_fields(9) by (metis power_mgmt_service_run_shutdown_callbacks_def snd_conv)
  then show ?thesis
    using assms r o set_all_rails_off_effect(4) [OF o]
    by (auto simp: pm_shut_down_for_def power_mgmt_service_schedule_pending_action_def split: if_splits)
qed

section \<open>Switching the DAC off\<close>

lemma dac_off_gate_last:
  assumes "power_mgmt_service_apply_dac_pin_state_locked hw False s = (e, s')"
    and "Gpio_Set_Level HAL_DAC_POWER_GATE_PIN True \<in> set (drop (length (pm_trace s)) (pm_trace s'))"
  defines "calls \<equiv> dac_off_calls (s\<lparr>pm_dac_muted := True\<rparr>)"
  shows "drop (length (pm_trace s)) (pm_trace s') = calls"
    and "i + 1 < length calls \<Longrightarrow> pm_hw_total hw (pm_trace s @ take i calls) (calls ! i) = ESP_OK"
proof -
  let ?t = "s\<lparr>pm_dac_muted := True\<rparr>"
  have "pm_calls (pm_hw_total hw) calls ?t = (e, s')"
    using assms(1) by (simp add: power_mgmt_service_apply_dac_pin_state_locked_def Let_def calls_def)
  from pm_calls_prefix [OF this] obtain n where le: "n \<le> length calls"
    and eq: "s' = ?t\<lparr>pm_trace := pm_trace ?t @ take n calls\<rparr>"
    and ok: "\<forall>i < n. Suc i < n \<or> e = ESP_OK \<longrightarrow> pm_hw_total hw (pm_trace ?t @ take i calls) (calls ! i) = ESP_OK"
    by blast
  have n: "n \<le> length calls" "pm_trace s' = pm_trace s @ take n calls"
    using le by (simp_all add: eq)
  have "calls = butlast calls @ [Gpio_Set_Level HAL_DAC_POWER_GATE_PIN True]"
    by (simp add: calls_def dac_off_calls_def butlast_append)
  moreover have "Gpio_Set_Level HAL_DAC_POWER_GATE_PIN True \<notin> set (butlast calls)"
    by (auto simp: calls_def dac_off_calls_def butlast_append power_mgmt_service_configure_dac_mute_locked_def
        power_mgmt_service_reconfig_dac_i2s_gpio_locked_def)
  moreover have "n < length calls \<Longrightarrow> take n calls = take n (butlast calls)"
    by (simp add: take_butlast)
  moreover have "Gpio_Set_Level HAL_DAC_POWER_GATE_PIN True \<in> set (take n calls)"
    using assms(2) n(2) by simp
  ultimately have "\<not> n < length calls" by (metis in_set_takeD)
  then have "n = length calls" using n(1) by simp
  then show "drop (length (pm_trace s)) (pm_trace s') = calls"
    and "i + 1 < length calls \<Longrightarrow> pm_hw_total hw (pm_trace s @ take i calls) (calls ! i) = ESP_OK"
    using n(2) ok by simp_all
qed

section \<open>Properties\<close>

text \<open>In every reachable state the shutdown callbacks are at most eight, sorted by priority and
  registered once each, and the DAC is muted whenever its rail is off, whatever the drivers
  return.\<close>

theorem power_always_consistent: "pm_inv (foldl pm_step pm_boot ops)"
  by (rule pm_machine.run_inv [OF pm_boot_inv])

text \<open>A request, a release or an override that reports success leaves the rail switched
  exactly as its override and its reference count ask, and the other rail untouched.\<close>

theorem power_rail_follows_requests:
  assumes "op = power_mgmt_service_rail_request hw rail \<or> op = power_mgmt_service_rail_release hw rail \<or>
           op = power_mgmt_service_rail_set_override hw rail m"
    and "op s = (ESP_OK, s')"
  shows "pm_rail_enabled s' (pm_rail_of rail) = power_mgmt_service_effective_enabled (pm_rail_of rail) s' \<and>
     (\<exists>other. other \<noteq> pm_rail_of rail \<and> pm_rail_enabled s' other = pm_rail_enabled s other)"
proof -
  obtain t where t: "power_mgmt_service_apply_locked hw (pm_rail_of rail) t = (ESP_OK, s')"
    "pm_rail_enabled t = pm_rail_enabled s"
    using assms by (auto simp: power_mgmt_service_rail_request_def power_mgmt_service_rail_release_def
        power_mgmt_service_rail_set_override_def Let_def split: if_splits option.splits)
  note A = apply_locked_effect [OF t(1)]
  obtain other where o: "other \<noteq> pm_rail_of rail"
    by (metis power_mgmt_rail.distinct(1))
  show ?thesis using A(4) [OF refl] A(3) [OF o] effective_cong [OF A(1,2)] o t(2) by auto
qed

text \<open>C9: The gate of the DAC is only switched off as the last step of the whole sequence: after
  the mute pin was driven low, the registered callback ran, and the I2S pins were disconnected; and each of
  these calls, the callback included, returned success (a delay returns nothing).\<close>

theorem power_dac_off_order:
  assumes "power_mgmt_service_apply_dac_pin_state_locked hw False s = (e, s')"
    and "Gpio_Set_Level HAL_DAC_POWER_GATE_PIN True \<in> set (drop (length (pm_trace s)) (pm_trace s'))"
  shows "let calls = [Gpio_Config_Output HAL_DAC_MUTE_PIN, Gpio_Set_Level HAL_DAC_MUTE_PIN False,
      Task_Delay (pdMS_TO_TICKS POWER_MGMT_DAC_MUTE_SETTLE_MS)] @
     (if pm_dac_prepare_off_callback s then [Dac_Prepare_Off] else []) @
     (if pm_dac_i2s_channel s = None then [] else [I2s_Reconfig False]) @
     [Gpio_Config_Disabled HAL_I2S_BCLK_PIN, Gpio_Config_Disabled HAL_I2S_WS_PIN,
      Gpio_Config_Disabled HAL_I2S_DATA_PIN, Gpio_Config_Disabled HAL_DAC_MUTE_PIN,
      Gpio_Set_Level HAL_DAC_POWER_GATE_PIN True] in
    drop (length (pm_trace s)) (pm_trace s') = calls \<and>
    (\<forall>i. i + 1 < length calls \<longrightarrow>
       hw (pm_trace s @ take i calls) (calls ! i) = ESP_OK \<or> (\<exists>n. calls ! i = Task_Delay n))"
proof -
  let ?calls = "dac_off_calls (s\<lparr>pm_dac_muted := True\<rparr>)"
  have calls: "?calls = [Gpio_Config_Output HAL_DAC_MUTE_PIN, Gpio_Set_Level HAL_DAC_MUTE_PIN False,
      Task_Delay (pdMS_TO_TICKS POWER_MGMT_DAC_MUTE_SETTLE_MS)] @
     (if pm_dac_prepare_off_callback s then [Dac_Prepare_Off] else []) @
     (if pm_dac_i2s_channel s = None then [] else [I2s_Reconfig False]) @
     [Gpio_Config_Disabled HAL_I2S_BCLK_PIN, Gpio_Config_Disabled HAL_I2S_WS_PIN,
      Gpio_Config_Disabled HAL_I2S_DATA_PIN, Gpio_Config_Disabled HAL_DAC_MUTE_PIN,
      Gpio_Set_Level HAL_DAC_POWER_GATE_PIN True]"
    by (simp add: dac_off_calls_def power_mgmt_service_configure_dac_mute_locked_def
        power_mgmt_service_reconfig_dac_i2s_gpio_locked_def)
  have "hw tr a = ESP_OK \<or> (\<exists>n. a = Task_Delay n)" if "pm_hw_total hw tr a = ESP_OK" for tr a
    using that by (cases a) (simp_all add: pm_hw_total_def)
  then show ?thesis
    using dac_off_gate_last [OF assms] unfolding Let_def calls [symmetric] by blast
qed

text \<open>Registering a callback places it behind the callbacks of the same or a lower priority
  number and before the others, and changes no other entry.\<close>

theorem power_callback_insertion:
  assumes "pm_inv s" and "power_mgmt_service_register_shutdown_callback (Some cb) ctx p s = (ESP_OK, s')"
  shows "pm_callbacks s' = filter (\<lambda>e. se_priority e \<le> p) (pm_callbacks s) @
      [\<lparr>se_callback = cb, se_user_ctx = ctx, se_priority = p\<rparr>] @
      filter (\<lambda>e. \<not> se_priority e \<le> p) (pm_callbacks s)"
  using register_effect(1) [OF assms] .

text \<open>A reboot is scheduled only when every shutdown callback, in order of priority, has
  returned success; then both rails are forced off and the restart happens at the first
  processing pass ten or more ticks later, also across a wrap-around of the tick counter.\<close>

theorem power_reboot_after_callbacks:
  assumes "power_mgmt_service_reboot hw now s = (ESP_OK, s')" and "pm_initialized s'" and "k < 2 ^ 31"
  shows "(\<forall>i < length (pm_shutdown_calls s).
        hw (pm_trace s @ take i (pm_shutdown_calls s)) (pm_shutdown_calls s ! i) = ESP_OK) \<and>
     (\<forall>r. \<not> pm_rail_enabled s' r \<and> pm_rail_override s' r = POWER_MGMT_OVERRIDE_FORCE_OFF) \<and>
     fst (power_mgmt_service_process_once (now + of_nat k) s') =
       (if 10 \<le> k then POWER_MGMT_PENDING_ACTION_REBOOT else POWER_MGMT_PENDING_ACTION_NONE)"
proof -
  note ok = shut_down_ok [OF assms(1) [unfolded power_mgmt_service_reboot_def]]
  have ten: "power_mgmt_service_reboot_settle_ticks = 10"
    by (simp add: power_mgmt_service_reboot_settle_ticks_def pdMS_TO_TICKS_def
        POWER_MGMT_REBOOT_SETTLE_MS_def CONFIG_FREERTOS_HZ_def)
  have "power_mgmt_service_deadline_reached (now + of_nat k) (pm_pending_action_deadline s') \<longleftrightarrow> 10 \<le> k"
    unfolding ok(6) ten using deadline_reached_iff [of 10 k now] assms(3) by simp
  then show ?thesis
    using ok(1-3,5) assms(2) by (simp add: power_mgmt_service_process_once_def)
qed

text \<open>A reboot request that fails schedules nothing.\<close>

theorem power_failed_reboot_schedules_nothing:
  assumes "power_mgmt_service_reboot hw now s = (e, s')" and "e \<noteq> ESP_OK"
  shows "pm_pending_action s' = pm_pending_action s"
  using shut_down_failed [OF assms(1) [unfolded power_mgmt_service_reboot_def] assms(2)] .

text \<open>The settle time of the mute is shorter than one tick of the configured rate, so the delay
  between muting the DAC and switching it off is none.\<close>

lemma mute_settle_is_zero: "pdMS_TO_TICKS POWER_MGMT_DAC_MUTE_SETTLE_MS = 0"
  by (simp add: pdMS_TO_TICKS_def POWER_MGMT_DAC_MUTE_SETTLE_MS_def CONFIG_FREERTOS_HZ_def)

section \<open>Witnesses\<close>

definition demo_power :: pm_state where
  "demo_power = foldl pm_step pm_boot [PmInit (\<lambda>_ _. ESP_OK) ESP_OK True, PmRegister (Some 1) 0 100,
     PmRegister (Some 2) 0 90, PmRequest (\<lambda>_ _. ESP_OK) 0]"

lemma demo_power_inv: "pm_inv demo_power"
  unfolding demo_power_def by (rule pm_machine.run_inv [OF pm_boot_inv])

theorem power_rail_follows_requests_witness:
  "pm_rail_enabled (snd (power_mgmt_service_rail_request (\<lambda>_ _. ESP_OK) 1
     (pm_boot\<lparr>pm_initialized := True\<rparr>))) POWER_MGMT_RAIL_LED"
proof -
  let ?s = "pm_boot\<lparr>pm_initialized := True\<rparr>"
  have ok: "power_mgmt_service_rail_request (\<lambda>_ _. ESP_OK) 1 ?s =
      (ESP_OK, snd (power_mgmt_service_rail_request (\<lambda>_ _. ESP_OK) 1 ?s))"
    by (simp add: power_mgmt_service_rail_request_def power_mgmt_service_is_valid_rail_def
        power_mgmt_service_apply_locked_def pm_rail_of_def pm_boot_def pm_call_def Let_def)
  have "pm_rail_of 1 = POWER_MGMT_RAIL_LED" by (simp add: pm_rail_of_def)
  then show ?thesis
    using power_rail_follows_requests [OF disjI1 [OF refl] ok]
    by (simp add: power_mgmt_service_rail_request_def power_mgmt_service_is_valid_rail_def
        power_mgmt_service_apply_locked_def pm_boot_def pm_call_def Let_def
        power_mgmt_service_effective_enabled_def)
qed

theorem power_dac_off_order_witness:
  "pm_trace (snd (power_mgmt_service_apply_dac_pin_state_locked (\<lambda>_ _. ESP_OK) False pm_boot)) ! 1 =
     Gpio_Set_Level HAL_DAC_MUTE_PIN False"
proof -
  let ?r = "power_mgmt_service_apply_dac_pin_state_locked (\<lambda>_ _. ESP_OK) False pm_boot"
  have "Gpio_Set_Level HAL_DAC_POWER_GATE_PIN True \<in> set (drop (length (pm_trace pm_boot)) (pm_trace (snd ?r)))"
    by (simp add: power_mgmt_service_apply_dac_pin_state_locked_def dac_off_calls_def pm_boot_def pm_call_def Let_def
        pm_hw_total_def power_mgmt_service_configure_dac_mute_locked_def
        power_mgmt_service_reconfig_dac_i2s_gpio_locked_def)
  then show ?thesis
    using power_dac_off_order [where e = "fst ?r" and hw = "\<lambda>_ _. ESP_OK" and s = pm_boot and s' = "snd ?r"]
    by (simp add: pm_boot_def)
qed

theorem power_callback_insertion_witness:
  "map se_callback (pm_callbacks (snd (power_mgmt_service_register_shutdown_callback (Some 3) 0 95 demo_power))) = [2, 3, 1]"
proof -
  have cb: "pm_callbacks demo_power = [\<lparr>se_callback = 2, se_user_ctx = 0, se_priority = 90\<rparr>,
      \<lparr>se_callback = 1, se_user_ctx = 0, se_priority = 100\<rparr>]"
    and ini: "pm_initialized demo_power" "pm_shutdown_callback_count demo_power = 2"
    by (simp_all add: demo_power_def pm_boot_def power_mgmt_service_init_def pm_call_def Let_def pm_callbacks_def
        power_mgmt_service_configure_dac_mute_locked_def power_mgmt_service_register_shutdown_callback_def
        POWER_MGMT_MAX_SHUTDOWN_CALLBACKS_def shift_insert.simps power_mgmt_service_rail_request_def
        power_mgmt_service_is_valid_rail_def power_mgmt_service_apply_locked_def pm_rail_of_def
        power_mgmt_service_effective_enabled_def power_mgmt_service_apply_dac_pin_state_locked_def
        dac_on_calls_def power_mgmt_service_reconfig_dac_i2s_gpio_locked_def pm_hw_total_def
        numeral_eq_Suc)
  have "power_mgmt_service_register_shutdown_callback (Some 3) 0 95 demo_power =
      (ESP_OK, snd (power_mgmt_service_register_shutdown_callback (Some 3) 0 95 demo_power))"
    using cb ini by (simp add: power_mgmt_service_register_shutdown_callback_def pm_callbacks_def Let_def
        POWER_MGMT_MAX_SHUTDOWN_CALLBACKS_def)
  from power_callback_insertion [OF demo_power_inv this] show ?thesis by (simp add: cb)
qed

theorem power_reboot_after_callbacks_witness:
  "fst (power_mgmt_service_process_once 5 (snd (power_mgmt_service_reboot (\<lambda>_ _. ESP_OK) (- 5)
     (pm_boot\<lparr>pm_initialized := True\<rparr>)))) = POWER_MGMT_PENDING_ACTION_REBOOT"
proof -
  let ?s = "pm_boot\<lparr>pm_initialized := True\<rparr>"
  let ?r = "power_mgmt_service_reboot (\<lambda>_ _. ESP_OK) (- 5) ?s"
  have r: "?r = (ESP_OK, snd ?r)" "pm_initialized (snd ?r)"
    by (simp_all add: power_mgmt_service_reboot_def pm_shut_down_for_def pm_boot_def
        power_mgmt_service_run_shutdown_callbacks_def pm_call_def power_mgmt_service_set_all_rails_off_def
        force_rail_off_def power_mgmt_service_apply_locked_def power_mgmt_service_effective_enabled_def Let_def
        power_mgmt_service_schedule_pending_action_def)
  have "- 5 + of_nat 10 = (5 :: u32)" by simp
  with power_reboot_after_callbacks [OF r, of 10] show ?thesis by simp
qed

theorem power_failed_reboot_schedules_nothing_witness:
  "pm_pending_action (snd (power_mgmt_service_reboot (\<lambda>_ _. ESP_FAIL) 0 (pm_boot\<lparr>pm_initialized := True\<rparr>))) =
     POWER_MGMT_PENDING_ACTION_NONE"
proof -
  let ?s = "pm_boot\<lparr>pm_initialized := True\<rparr>"
  let ?r = "power_mgmt_service_reboot (\<lambda>_ _. ESP_FAIL) 0 ?s"
  have "?r = (ESP_FAIL, snd ?r)"
    by (simp add: power_mgmt_service_reboot_def pm_shut_down_for_def pm_boot_def
        power_mgmt_service_run_shutdown_callbacks_def pm_call_def Let_def)
  from power_failed_reboot_schedules_nothing [OF this] show ?thesis by (simp add: pm_boot_def)
qed

end
