(* ===== verification/Player_Track.thy ===== *)
theory Player_Track
  imports Cartridge
begin

text \<open>
  The part of the player, \<^verbatim>\<open>main/player_service.c\<close>, that works on one track file: loading
  its header, the cached window of its lookup table, the bounds of a chunk, the positions of
  a seek, and the volume applied to decoded samples. A track is a \<^verbatim>\<open>.jba\<close> file: a header
  of whole 512-byte blocks that holds the lookup table, then one chunk per second of audio,
  each a CRC and its packets. The file system is the one of the cartridge service
  (\<^typ>\<open>cart_env\<close>); \<open>stat\<close> gives the size of a path.
\<close>

section \<open>Constants\<close>

definition PLAYER_SVC_CHUNK_MAX_BYTES :: nat where "PLAYER_SVC_CHUNK_MAX_BYTES = 24 * 1024"
definition PLAYER_SVC_CHUNK_CRC_BYTES :: nat where "PLAYER_SVC_CHUNK_CRC_BYTES = 4"
definition PLAYER_SVC_FULL_PATH_LEN :: nat where "PLAYER_SVC_FULL_PATH_LEN = 32"
definition PLAYER_SVC_MAX_TRACK_FILENAME_LEN :: nat where "PLAYER_SVC_MAX_TRACK_FILENAME_LEN = 16"
definition PLAYER_SVC_FAST_SEEK_SECONDS :: nat where "PLAYER_SVC_FAST_SEEK_SECONDS = 5"
definition PLAYER_SVC_PREVIOUS_RESTART_SECONDS :: nat where "PLAYER_SVC_PREVIOUS_RESTART_SECONDS = 7"
definition PLAYER_SVC_LOOKUP_WINDOW_CHUNKS :: nat where "PLAYER_SVC_LOOKUP_WINDOW_CHUNKS = 50"
definition PLAYER_SVC_LOOKUP_WINDOW_ENTRIES :: nat where
  "PLAYER_SVC_LOOKUP_WINDOW_ENTRIES = PLAYER_SVC_LOOKUP_WINDOW_CHUNKS + 1"
definition PLAYER_SVC_MAX_LOOKUP_ENTRIES :: nat where "PLAYER_SVC_MAX_LOOKUP_ENTRIES = 24 * 60 * 60"
definition PLAYER_SVC_VOLUME_Q8_SHIFT :: nat where "PLAYER_SVC_VOLUME_Q8_SHIFT = 8"
definition PLAYER_SVC_VOLUME_Q8_ONE :: nat where "PLAYER_SVC_VOLUME_Q8_ONE = 2 ^ PLAYER_SVC_VOLUME_Q8_SHIFT"
definition PLAYER_SVC_VOLUME_LEVEL_COUNT :: nat where "PLAYER_SVC_VOLUME_LEVEL_COUNT = 11"
definition PLAYER_SVC_DEFAULT_VOLUME_LEVEL :: nat where
  "PLAYER_SVC_DEFAULT_VOLUME_LEVEL = PLAYER_SVC_VOLUME_LEVEL_COUNT - 1"

lemmas player_consts = PLAYER_SVC_CHUNK_MAX_BYTES_def PLAYER_SVC_CHUNK_CRC_BYTES_def
  PLAYER_SVC_FULL_PATH_LEN_def PLAYER_SVC_MAX_TRACK_FILENAME_LEN_def
  PLAYER_SVC_LOOKUP_WINDOW_CHUNKS_def PLAYER_SVC_LOOKUP_WINDOW_ENTRIES_def
  PLAYER_SVC_MAX_LOOKUP_ENTRIES_def PLAYER_SVC_VOLUME_Q8_SHIFT_def PLAYER_SVC_VOLUME_Q8_ONE_def
  PLAYER_SVC_VOLUME_LEVEL_COUNT_def PLAYER_SVC_DEFAULT_VOLUME_LEVEL_def

section \<open>Track information\<close>

record player_service_track_info =
  ti_filename :: string
  ti_lookup_table_len :: nat
  ti_data_offset :: nat
  ti_total_file_size :: nat
  ti_lookup_window_start :: nat
  ti_lookup_window_entry_count :: nat
  ti_lookup_window :: "u32 list"

definition track_info_zero :: player_service_track_info where
  "track_info_zero = \<lparr>ti_filename = '''', ti_lookup_table_len = 0, ti_data_offset = 0,
     ti_total_file_size = 0, ti_lookup_window_start = 0, ti_lookup_window_entry_count = 0,
     ti_lookup_window = replicate PLAYER_SVC_LOOKUP_WINDOW_ENTRIES 0\<rparr>"

definition player_service_invalidate_lookup_window ::
    "player_service_track_info \<Rightarrow> player_service_track_info" where
  "player_service_invalidate_lookup_window info =
     info\<lparr>ti_lookup_window_start := 0, ti_lookup_window_entry_count := 0,
          ti_lookup_window := replicate PLAYER_SVC_LOOKUP_WINDOW_ENTRIES 0\<rparr>"

text \<open>\<^verbatim>\<open>snprintf\<close> keeps one byte for the NUL.\<close>

definition track_full_path :: "cart_state \<Rightarrow> string \<Rightarrow> string" where
  "track_full_path c filename =
     take (PLAYER_SVC_FULL_PATH_LEN - 1) (cartridge_service_get_mount_point c @ ''/'' @ filename)"

definition decimal_digit :: "nat \<Rightarrow> char" where
  "decimal_digit d = char_of (48 + d)"

text \<open>\<^verbatim>\<open>%03lu.jba\<close> for a number of at most three digits.\<close>

definition player_service_format_track_filename :: "nat \<Rightarrow> u32 \<Rightarrow> string option" where
  "player_service_format_track_filename buffer_len file_num =
     (let n = unat file_num in
      if buffer_len = 0 \<or> n > JUKEBOY_MAX_TRACK_FILES then None
      else Some (take (buffer_len - 1)
        ([decimal_digit (n div 100), decimal_digit (n div 10 mod 10), decimal_digit (n mod 10)] @ ''.jba'')))"

definition player_service_clamp_chunk_index :: "player_service_track_info \<Rightarrow> nat \<Rightarrow> nat" where
  "player_service_clamp_chunk_index info chunk_index =
     (if ti_lookup_table_len info = 0 then 0
      else if chunk_index \<ge> ti_lookup_table_len info then ti_lookup_table_len info - 1
      else chunk_index)"

definition player_service_fast_seek_step :: "player_service_track_info \<Rightarrow> nat" where
  "player_service_fast_seek_step info =
     (if ti_lookup_table_len info = 0 then 0 else PLAYER_SVC_FAST_SEEK_SECONDS)"

section \<open>The lookup window\<close>

definition player_service_lookup_window_contains_chunk :: "player_service_track_info \<Rightarrow> nat \<Rightarrow> bool" where
  "player_service_lookup_window_contains_chunk info chunk_index =
     (if ti_lookup_window_entry_count info = 0 \<or> chunk_index \<ge> ti_lookup_table_len info \<or>
         chunk_index < ti_lookup_window_start info then False
      else
        let relative_index = chunk_index - ti_lookup_window_start info in
        if relative_index + 1 < ti_lookup_window_entry_count info then True
        else chunk_index + 1 = ti_lookup_table_len info \<and>
             relative_index + 1 = ti_lookup_window_entry_count info)"

text \<open>The bounds an entry of the window gives, and the loop's checks of one entry.\<close>

definition window_bounds :: "player_service_track_info \<Rightarrow> nat \<Rightarrow> nat \<times> nat" where
  "window_bounds info i =
     (unat (ti_lookup_window info ! i),
      if i + 1 < ti_lookup_window_entry_count info then unat (ti_lookup_window info ! (i + 1))
      else ti_total_file_size info - ti_data_offset info)"

definition window_entry_ok :: "player_service_track_info \<Rightarrow> nat \<Rightarrow> bool" where
  "window_entry_ok info i =
     (let total_data_bytes = ti_total_file_size info - ti_data_offset info;
          (chunk_start, chunk_end) = window_bounds info i in
      if chunk_start > total_data_bytes \<or> chunk_end > total_data_bytes \<or> chunk_end < chunk_start then False
      else if chunk_end - chunk_start \<le> PLAYER_SVC_CHUNK_CRC_BYTES then False
      else \<not> chunk_end - chunk_start > PLAYER_SVC_CHUNK_MAX_BYTES)"

text \<open>The little-endian words \<^verbatim>\<open>fread\<close> stores into the array.\<close>

definition rd_u32s :: "bytes \<Rightarrow> nat \<Rightarrow> u32 list" where
  "rd_u32s b n = map (\<lambda>i. rd_u32 b (4 * i)) [0..<n]"

text \<open>\<open>stop1\<close> and \<open>stop2\<close> are what \<^verbatim>\<open>player_service_should_stop\<close> returns at its two calls.\<close>

definition player_service_load_lookup_window ::
    "cart_env \<Rightarrow> cart_state \<Rightarrow> bool \<Rightarrow> bool \<Rightarrow> nat \<Rightarrow> player_service_track_info \<Rightarrow>
     esp_err \<times> player_service_track_info" where
  "player_service_load_lookup_window env c stop1 stop2 start_chunk info =
     (let invalid = player_service_invalidate_lookup_window info in
      if start_chunk \<ge> ti_lookup_table_len info then (ESP_ERR_INVALID_ARG, info)
      else
        let entry_count = min (ti_lookup_table_len info - start_chunk) PLAYER_SVC_LOOKUP_WINDOW_ENTRIES;
            lookup_byte_offset = JBA_HEADER_BYTES + start_chunk * 4;
            lookup_bytes = entry_count * 4 in
        if lookup_byte_offset > ti_data_offset info \<or>
           lookup_bytes > ti_data_offset info - lookup_byte_offset
        then (ESP_ERR_INVALID_SIZE, invalid)
        else if stop1 then (ESP_ERR_INVALID_STATE, invalid)
        else
          let path = track_full_path c (ti_filename info) in
          if \<not> ce_fopen_ok env path then (ESP_ERR_NOT_FOUND, invalid)
          else if \<not> ce_fseek_ok env path lookup_byte_offset then (ESP_FAIL, invalid)
          else
            let got = take lookup_bytes (ce_fread env path lookup_byte_offset lookup_bytes) in
            if stop2 then (ESP_ERR_INVALID_STATE, invalid)
            else if length got \<noteq> lookup_bytes then (ESP_FAIL, invalid)
            else
              let loaded = info\<lparr>ti_lookup_window := rd_u32s got entry_count @ drop entry_count (ti_lookup_window info),
                                ti_lookup_window_start := start_chunk,
                                ti_lookup_window_entry_count := entry_count\<rparr> in
              if start_chunk = 0 \<and> ti_lookup_window loaded ! 0 \<noteq> 0 then (ESP_FAIL, invalid)
              else
                let chunk_count = (if start_chunk + entry_count < ti_lookup_table_len info
                                   then entry_count - 1 else entry_count) in
                if list_all (window_entry_ok loaded) [0..<chunk_count] then (ESP_OK, loaded)
                else (ESP_FAIL, invalid))"

definition player_service_get_chunk_bounds ::
    "cart_env \<Rightarrow> cart_state \<Rightarrow> bool \<Rightarrow> bool \<Rightarrow> nat \<Rightarrow> player_service_track_info \<Rightarrow>
     esp_err \<times> (nat \<times> nat) option \<times> player_service_track_info" where
  "player_service_get_chunk_bounds env c stop1 stop2 chunk_index info =
     (if chunk_index \<ge> ti_lookup_table_len info then (ESP_ERR_INVALID_ARG, None, info)
      else
        let (err, info') = (if player_service_lookup_window_contains_chunk info chunk_index
              then (ESP_OK, info)
              else player_service_load_lookup_window env c stop1 stop2 chunk_index info) in
        if err \<noteq> ESP_OK then (err, None, info')
        else (ESP_OK, Some (window_bounds info' (chunk_index - ti_lookup_window_start info')), info'))"

section \<open>Loading a track\<close>

text \<open>A read through the cartridge service by a task that waits for its notification.\<close>

definition player_read_file ::
    "cart_env \<Rightarrow> string \<Rightarrow> nat \<Rightarrow> cart_state \<Rightarrow> (esp_err + esp_err \<times> bytes) \<times> cart_state" where
  "player_read_file env filename offset c =
     (let (err, c1) = cartridge_service_read_chunk_async (Some filename) offset True c in
      if err \<noteq> ESP_OK then (Inl err, c1)
      else
        let c2 = snd (cartridge_reader_task env c1);
            (e, data) = cartridge_service_get_read_result True True c2 in
        (Inr (e, case data of None \<Rightarrow> [] | Some b \<Rightarrow> b), c2))"

definition player_service_load_track_info ::
    "cart_env \<Rightarrow> (string \<Rightarrow> int option) \<Rightarrow> string \<Rightarrow> cart_state \<Rightarrow>
     (esp_err + player_service_track_info) \<times> cart_state" where
  "player_service_load_track_info env stat filename c0 =
     (case player_read_file env filename 0 c0 of
        (Inl err, c) \<Rightarrow> (Inl err, c)
      | (Inr (err, buf), c) \<Rightarrow>
          if err \<noteq> ESP_OK \<or> length buf < JBA_HEADER_BYTES
          then (Inl (if err = ESP_OK then ESP_FAIL else err), c)
          else
            let header = dec_jba_header (take JBA_HEADER_BYTES buf);
                table_len = unat (ja_lookup_table_len header);
                data_offset = unat (ja_header_len_in_blocks header) * JUKEBOY_JBA_HEADER_BLOCK_SIZE in
            if ja_version header \<noteq> JUKEBOY_JBA_VERSION then (Inl ESP_ERR_NOT_SUPPORTED, c)
            else if table_len > (SIZE_MAX - JBA_HEADER_BYTES) div 4 then (Inl ESP_ERR_INVALID_SIZE, c)
            else if table_len > PLAYER_SVC_MAX_LOOKUP_ENTRIES then (Inl ESP_ERR_INVALID_SIZE, c)
            else if data_offset = 0 \<or> data_offset > SIZE_MAX then (Inl ESP_ERR_INVALID_SIZE, c)
            else if table_len = 0 then (Inl ESP_FAIL, c)
            else case stat (track_full_path c filename) of
              None \<Rightarrow> (Inl ESP_ERR_NOT_FOUND, c)
            | Some file_size \<Rightarrow>
                if file_size \<le> 0 \<or> nat file_size \<le> data_offset then (Inl ESP_FAIL, c)
                else if data_offset < JBA_HEADER_BYTES + table_len * 4 then (Inl ESP_ERR_INVALID_SIZE, c)
                else (Inr (player_service_invalidate_lookup_window
                       (track_info_zero\<lparr>ti_filename := take (PLAYER_SVC_MAX_TRACK_FILENAME_LEN - 1) filename,
                          ti_lookup_table_len := table_len, ti_data_offset := data_offset,
                          ti_total_file_size := nat file_size\<rparr>)), c))"

section \<open>Volume\<close>

definition s_volume_gain_q8 :: "nat list" where
  "s_volume_gain_q8 = [0, 26, 51, 77, 102, 128, 154, 179, 205, 230, 256]"

definition player_service_scale_sample :: "u16 \<Rightarrow> nat \<Rightarrow> u16" where
  "player_service_scale_sample sample gain_q8 =
     word_of_int ((sint sample * int gain_q8) div 2 ^ PLAYER_SVC_VOLUME_Q8_SHIFT)"

fun scale_samples :: "nat \<Rightarrow> bytes \<Rightarrow> bytes" where
  "scale_samples gain_q8 (b0 # b1 # rest) =
     u16_bytes (player_service_scale_sample (bytes_u16 b0 b1) gain_q8) @ scale_samples gain_q8 rest"
| "scale_samples gain_q8 rest = rest"

definition player_service_apply_volume :: "nat \<Rightarrow> bytes \<Rightarrow> bytes" where
  "player_service_apply_volume volume_level data =
     (if length data < 2 then data
      else
        let gain_q8 = s_volume_gain_q8 ! volume_level in
        if gain_q8 \<ge> PLAYER_SVC_VOLUME_Q8_ONE then data else scale_samples gain_q8 data)"

definition volume_percent :: "nat \<Rightarrow> nat" where
  "volume_percent volume_level =
     (s_volume_gain_q8 ! volume_level * 100 + PLAYER_SVC_VOLUME_Q8_ONE div 2) div PLAYER_SVC_VOLUME_Q8_ONE"

definition volume_level_of_avrc :: "u8 \<Rightarrow> nat" where
  "volume_level_of_avrc avrc_vol =
     (let level = unat avrc_vol * (PLAYER_SVC_VOLUME_LEVEL_COUNT - 1) div 127 in
      if level \<ge> PLAYER_SVC_VOLUME_LEVEL_COUNT then PLAYER_SVC_VOLUME_LEVEL_COUNT - 1 else level)"

section \<open>Facts about the window\<close>

text \<open>The window is empty, or a part of the table whose entries passed the checks. A window that
  stops before the end of the table has an entry more than it has usable chunks.\<close>

definition window_ok :: "player_service_track_info \<Rightarrow> bool" where
  "window_ok info \<longleftrightarrow>
     length (ti_lookup_window info) = PLAYER_SVC_LOOKUP_WINDOW_ENTRIES \<and>
     ti_lookup_window_entry_count info \<le> PLAYER_SVC_LOOKUP_WINDOW_ENTRIES \<and>
     (ti_lookup_window_entry_count info > 0 \<longrightarrow>
        ti_lookup_window_start info + ti_lookup_window_entry_count info \<le> ti_lookup_table_len info \<and>
        (\<forall>i. i + 1 < ti_lookup_window_entry_count info \<or>
             i + 1 = ti_lookup_window_entry_count info \<and>
               ti_lookup_window_start info + i + 1 = ti_lookup_table_len info \<longrightarrow>
             window_entry_ok info i))"

text \<open>What the loop checks of the bounds of one chunk, given the number of data bytes.\<close>

definition chunk_range_ok :: "nat \<Rightarrow> nat \<times> nat \<Rightarrow> bool" where
  "chunk_range_ok bound r \<longleftrightarrow> fst r + PLAYER_SVC_CHUNK_CRC_BYTES < snd r \<and> snd r \<le> bound \<and>
     snd r - fst r \<le> PLAYER_SVC_CHUNK_MAX_BYTES"

lemma window_entry_ok_iff:
  "window_entry_ok info i \<longleftrightarrow>
     chunk_range_ok (ti_total_file_size info - ti_data_offset info) (window_bounds info i)"
  by (cases "window_bounds info i")
    (auto simp: window_entry_ok_def chunk_range_ok_def Let_def)

lemma invalidate_fields [simp]:
  "ti_filename (player_service_invalidate_lookup_window info) = ti_filename info"
  "ti_lookup_table_len (player_service_invalidate_lookup_window info) = ti_lookup_table_len info"
  "ti_data_offset (player_service_invalidate_lookup_window info) = ti_data_offset info"
  "ti_total_file_size (player_service_invalidate_lookup_window info) = ti_total_file_size info"
  "ti_lookup_window_entry_count (player_service_invalidate_lookup_window info) = 0"
  "window_ok (player_service_invalidate_lookup_window info)"
  by (simp_all add: player_service_invalidate_lookup_window_def window_ok_def)

lemma length_rd_u32s [simp]: "length (rd_u32s b n) = n"
  by (simp add: rd_u32s_def)

lemma load_window_cases:
  assumes "player_service_load_lookup_window env c stop1 stop2 k info = (e, info')"
  obtains "e = ESP_ERR_INVALID_ARG" "info' = info" "k \<ge> ti_lookup_table_len info"
  | "e \<noteq> ESP_OK" "info' = player_service_invalidate_lookup_window info"
  | n got where "e = ESP_OK" "k < ti_lookup_table_len info"
    "n = min (ti_lookup_table_len info - k) PLAYER_SVC_LOOKUP_WINDOW_ENTRIES"
    "got = take (n * 4) (ce_fread env (track_full_path c (ti_filename info)) (JBA_HEADER_BYTES + k * 4) (n * 4))"
    "info' = info\<lparr>ti_lookup_window := rd_u32s got n @ drop n (ti_lookup_window info),
        ti_lookup_window_start := k, ti_lookup_window_entry_count := n\<rparr>"
    "list_all (window_entry_ok info') [0..<if k + n < ti_lookup_table_len info then n - 1 else n]"
    "JBA_HEADER_BYTES + k * 4 + n * 4 \<le> ti_data_offset info"
proof -
  let ?n = "min (ti_lookup_table_len info - k) PLAYER_SVC_LOOKUP_WINDOW_ENTRIES"
  let ?off = "JBA_HEADER_BYTES + k * 4" and ?path = "track_full_path c (ti_filename info)"
  let ?got = "take (?n * 4) (ce_fread env ?path ?off (?n * 4))"
  define loaded where "loaded = info\<lparr>ti_lookup_window := rd_u32s ?got ?n @ drop ?n (ti_lookup_window info),
      ti_lookup_window_start := k, ti_lookup_window_entry_count := ?n\<rparr>"
  define bad where "bad \<longleftrightarrow> ?off > ti_data_offset info \<or> ?n * 4 > ti_data_offset info - ?off"
  define good where "good \<longleftrightarrow>
      list_all (window_entry_ok loaded) [0..<if k + ?n < ti_lookup_table_len info then ?n - 1 else ?n]"
  note eq = assms [unfolded player_service_load_lookup_window_def Let_def, folded loaded_def bad_def, folded good_def]
  show ?thesis
  proof (cases "k \<ge> ti_lookup_table_len info")
    case True
    then show ?thesis using eq that(1) by simp
  next
    case k: False
    show ?thesis
    proof (cases "e = ESP_OK")
      case True
      then have "\<not> bad" "good" "info' = loaded"
        using eq k by (simp_all split: if_split_asm)
      then have "?off + ?n * 4 \<le> ti_data_offset info"
        unfolding bad_def by linarith
      with \<open>good\<close> \<open>info' = loaded\<close> show ?thesis
        by (intro that(3) [OF True _ refl refl]) (use k in \<open>simp_all add: loaded_def good_def\<close>)
    next
      case False
      then have "info' = player_service_invalidate_lookup_window info"
        using eq k by (simp split: if_split_asm)
      with False show ?thesis by (rule that(2))
    qed
  qed
qed

lemma load_window_fields:
  assumes "player_service_load_lookup_window env c stop1 stop2 k info = (e, info')"
  shows "ti_filename info' = ti_filename info" "ti_lookup_table_len info' = ti_lookup_table_len info"
    "ti_data_offset info' = ti_data_offset info" "ti_total_file_size info' = ti_total_file_size info"
  using assms by (cases rule: load_window_cases; simp)+

lemma load_window_ok:
  assumes "player_service_load_lookup_window env c stop1 stop2 k info = (ESP_OK, info')" and "window_ok info"
  shows "window_ok info'" and "player_service_lookup_window_contains_chunk info' k"
    and "ti_lookup_window_start info' = k"
proof -
  obtain n got where l: "k < ti_lookup_table_len info"
    "n = min (ti_lookup_table_len info - k) PLAYER_SVC_LOOKUP_WINDOW_ENTRIES"
    "info' = info\<lparr>ti_lookup_window := rd_u32s got n @ drop n (ti_lookup_window info),
        ti_lookup_window_start := k, ti_lookup_window_entry_count := n\<rparr>"
    "list_all (window_entry_ok info') [0..<if k + n < ti_lookup_table_len info then n - 1 else n]"
    using assms(1)
  proof (cases rule: load_window_cases)
    case (3 n got)
    then show ?thesis using that by blast
  qed simp_all
  have n: "0 < n" "n \<le> PLAYER_SVC_LOOKUP_WINDOW_ENTRIES" "k + n \<le> ti_lookup_table_len info"
    using l(1,2) by (auto simp: player_consts)
  have more: "k + n < ti_lookup_table_len info \<Longrightarrow> 1 < n"
    using l(2) by (auto simp: player_consts min_def split: if_splits)
  have "length (ti_lookup_window info') = PLAYER_SVC_LOOKUP_WINDOW_ENTRIES"
    using l(3) n(2) assms(2) by (simp add: window_ok_def)
  moreover have "window_entry_ok info' i"
    if "i + 1 < n \<or> i + 1 = n \<and> k + i + 1 = ti_lookup_table_len info" for i
    using l(4) that by (auto simp: list_all_iff split: if_splits)
  ultimately show "window_ok info'"
    using n l(3) by (simp add: window_ok_def)
  show "ti_lookup_window_start info' = k" using l(3) by simp
  show "player_service_lookup_window_contains_chunk info' k"
  proof (cases "1 < n")
    case False
    then have "n = 1" "k + 1 = ti_lookup_table_len info" using n more by linarith+
    then show ?thesis using l(1,3) by (simp add: player_service_lookup_window_contains_chunk_def)
  qed (use l(1,3) in \<open>simp add: player_service_lookup_window_contains_chunk_def\<close>)
qed

text \<open>The bounds the service hands to its reader lie in the file, leave room for the CRC and
  are no longer than a buffer.\<close>

lemma contains_entry_ok:
  assumes "window_ok info" and "player_service_lookup_window_contains_chunk info k"
  shows "window_entry_ok info (k - ti_lookup_window_start info)"
    and "k - ti_lookup_window_start info < ti_lookup_window_entry_count info"
    and "ti_lookup_window_start info \<le> k" and "k < ti_lookup_table_len info"
  using assms by (auto simp: window_ok_def player_service_lookup_window_contains_chunk_def Let_def split: if_splits)

lemma get_chunk_bounds_cases:
  assumes "player_service_get_chunk_bounds env c stop1 stop2 k info = (e, r, info')"
  obtains "e \<noteq> ESP_OK" "r = None" "info' = info \<or> info' = player_service_invalidate_lookup_window info"
  | "e = ESP_OK" "info' = info" "player_service_lookup_window_contains_chunk info k"
    "r = Some (window_bounds info (k - ti_lookup_window_start info))"
  | "e = ESP_OK" "player_service_load_lookup_window env c stop1 stop2 k info = (ESP_OK, info')"
    "r = Some (window_bounds info' (k - ti_lookup_window_start info'))"
proof (cases "k \<ge> ti_lookup_table_len info \<or> player_service_lookup_window_contains_chunk info k")
  case True
  then show ?thesis
    using assms that(1,2) by (auto simp: player_service_get_chunk_bounds_def split: if_splits)
next
  case False
  obtain e1 i1 where l: "player_service_load_lookup_window env c stop1 stop2 k info = (e1, i1)" by fastforce
  show ?thesis
  proof (cases "e1 = ESP_OK")
    case True
    with l False assms show ?thesis by (intro that(3)) (auto simp: player_service_get_chunk_bounds_def)
  next
    case err: False
    from l have "i1 = info \<or> i1 = player_service_invalidate_lookup_window info"
      using err by (cases rule: load_window_cases) auto
    then show ?thesis using l False err assms that(1) by (simp add: player_service_get_chunk_bounds_def)
  qed
qed

lemma get_chunk_bounds_fields:
  assumes "player_service_get_chunk_bounds env c stop1 stop2 k info = (e, r, info')"
  shows "ti_filename info' = ti_filename info" "ti_lookup_table_len info' = ti_lookup_table_len info"
    "ti_data_offset info' = ti_data_offset info" "ti_total_file_size info' = ti_total_file_size info"
    "window_ok info \<Longrightarrow> window_ok info'"
  using assms by (cases rule: get_chunk_bounds_cases; auto dest: load_window_fields load_window_ok(1))+

lemma get_chunk_bounds_in_file:
  assumes "player_service_get_chunk_bounds env c stop1 stop2 k info = (ESP_OK, r, info')" and "window_ok info"
  obtains s e where "r = Some (s, e)"
    "chunk_range_ok (ti_total_file_size info - ti_data_offset info) (s, e)" "window_ok info'"
    "(s, e) = window_bounds info' (k - ti_lookup_window_start info')"
    "player_service_lookup_window_contains_chunk info' k"
proof -
  have w: "window_ok info'" by (rule get_chunk_bounds_fields(5) [OF assms])
  have "player_service_lookup_window_contains_chunk info' k \<and>
      r = Some (window_bounds info' (k - ti_lookup_window_start info'))"
    using assms(1) by (cases rule: get_chunk_bounds_cases) (use load_window_ok [OF _ assms(2)] in auto)
  moreover from this contains_entry_ok(1) [OF w]
  have "chunk_range_ok (ti_total_file_size info' - ti_data_offset info')
      (window_bounds info' (k - ti_lookup_window_start info'))"
    by (simp add: window_entry_ok_iff)
  ultimately show ?thesis
    using that w get_chunk_bounds_fields(3,4) [OF assms(1)]
    by (cases "window_bounds info' (k - ti_lookup_window_start info')") auto
qed

end
