(* ===== verification/Player_State.thy ===== *)
theory Player_State
  imports Player_Track "HOL-Library.Multiset"
begin

text \<open>
  The statics of the player service, \<^verbatim>\<open>main/player_service.c\<close>, and the functions its command
  handlers are made of: the playlist and its shuffled order, the saved playback status in RTC
  memory and NVS, the pipeline's reset and stop, and the events it posts. The state holds the
  cartridge service's state, which the player calls. The random generator, the clock, the NVS
  driver and how fast the pipeline's tasks stop are arguments (\<open>pl_env\<close>).
\<close>

section \<open>Constants\<close>

definition PLAYER_SVC_CHUNK_BUF_COUNT :: nat where "PLAYER_SVC_CHUNK_BUF_COUNT = 2"
definition PLAYER_SVC_QUEUE_DEPTH :: nat where "PLAYER_SVC_QUEUE_DEPTH = 8"
definition PLAYER_SVC_MAX_TRACK_TITLE_LEN :: nat where
  "PLAYER_SVC_MAX_TRACK_TITLE_LEN = JUKEBOY_JBM_TRACK_NAME_BYTES"
definition PLAYER_SVC_RESUME_STATE_VERSION :: u32 where "PLAYER_SVC_RESUME_STATE_VERSION = 2"
definition PLAYER_SVC_RESUME_RTC_MAGIC :: u32 where "PLAYER_SVC_RESUME_RTC_MAGIC = 0x4A425254"

section \<open>State\<close>

datatype player_service_playback_mode =
    PLAYER_SVC_MODE_SEQUENTIAL
  | PLAYER_SVC_MODE_SINGLE_REPEAT
  | PLAYER_SVC_MODE_SHUFFLE

datatype player_service_control =
    PLAYER_SVC_CONTROL_NEXT
  | PLAYER_SVC_CONTROL_PREVIOUS
  | PLAYER_SVC_CONTROL_FAST_FORWARD
  | PLAYER_SVC_CONTROL_FAST_BACKWARD
  | PLAYER_SVC_CONTROL_VOLUME_UP
  | PLAYER_SVC_CONTROL_VOLUME_DOWN
  | PLAYER_SVC_CONTROL_PAUSE

text \<open>A message of the command queue: the command with the field it uses.\<close>

datatype player_service_msg =
    PLAYER_SVC_CMD_CARTRIDGE_INSERTED
  | PLAYER_SVC_CMD_CARTRIDGE_REMOVED
  | PLAYER_SVC_CMD_TRACK_COMPLETE u32
  | PLAYER_SVC_CMD_CONTROL player_service_control
  | PLAYER_SVC_CMD_PLAY_INDEX u32
  | PLAYER_SVC_CMD_SEEK_ABSOLUTE u32
  | PLAYER_SVC_CMD_PERSIST_FOR_SHUTDOWN

datatype player_service_event =
    PLAYER_SVC_EVENT_STARTED
  | PLAYER_SVC_EVENT_PLAYLIST_READY nat
  | PLAYER_SVC_EVENT_TRACK_STARTED "player_service_track_event option"
  | PLAYER_SVC_EVENT_TRACK_FINISHED "player_service_track_event option"
  | PLAYER_SVC_EVENT_TRACK_PAUSED "player_service_track_event option"
  | PLAYER_SVC_EVENT_TRACK_BECAME_COUNTABLE player_service_track_event

record player_service_resume_state =
  rs_version :: u32
  rs_cartridge_checksum :: u32
  rs_track_count :: u32
  rs_current_track_num :: u32
  rs_current_sec :: u32
  rs_paused :: u8
  rs_reserved :: bytes

text \<open>A message of the chunk queue; \<open>cm_data\<close> is what the reader's pointer points to.\<close>

record player_service_chunk_msg =
  cm_data :: "bytes option"
  cm_len :: nat
  cm_chunk_index :: nat
  cm_is_eof :: bool
  cm_release_buf :: bool

record reader_cmd_msg =
  rc_generation :: u32
  rc_start_chunk :: nat

datatype nvs_op = Nvs_Open | Nvs_Get_Blob | Nvs_Set_Blob bytes | Nvs_Erase_Key | Nvs_Commit

record pl_state =
  pl_cart :: cart_state
  pl_initialised :: bool
  pl_playing :: bool
  pl_paused :: bool
  pl_playlist_count :: nat
  pl_playlist_index :: nat
  pl_resume_chunk :: nat
  pl_current_chunk :: nat
  pl_current_track :: bytes
  pl_track_info :: player_service_track_info
  pl_stop_requested :: bool
  pl_active_generation :: u32
  pl_cancelled_generation :: u32
  pl_volume_level :: nat
  pl_playback_mode :: player_service_playback_mode
  pl_shuffle_order :: bool
  pl_shuffle_order_storage :: "nat list"
  pl_shuffle_position :: nat
  pl_countable_play_emitted :: bool
  pl_track_started_unix :: u32
  pl_resume_rtc_magic :: u32
  pl_resume_rtc_state :: player_service_resume_state
  pl_cmd_queue :: "player_service_msg list option"
  pl_reader_cmd_queue :: "reader_cmd_msg option"
  pl_decoder_cmd_queue :: "u32 option"
  pl_chunk_queue :: "player_service_chunk_msg list"
  pl_buf_pool_sem :: nat
  pl_pcm_stream :: "bytes option"
  pl_reader_idle :: bool
  pl_decoder_idle :: bool
  pl_events :: "player_service_event list"
  pl_nvs_ops :: "nvs_op list"
  pl_persist_result :: "esp_err option"

record pl_env =
  pe_fs :: cart_env
  pe_stat :: "string \<Rightarrow> int option"
  pe_time :: int
  pe_random :: "nat \<Rightarrow> u32"
  pe_fallback_random :: "u32 list"
  pe_tasks_stop :: bool
  pe_nvs :: "nvs_op list \<Rightarrow> nvs_op \<Rightarrow> esp_err"
  pe_nvs_blob :: bytes

definition resume_state_zero :: player_service_resume_state where
  "resume_state_zero = \<lparr>rs_version = 0, rs_cartridge_checksum = 0, rs_track_count = 0,
     rs_current_track_num = 0, rs_current_sec = 0, rs_paused = 0, rs_reserved = [0, 0, 0]\<rparr>"

text \<open>The statics before \<^verbatim>\<open>player_service_init\<close>; RTC memory keeps what it held.\<close>

definition pl_boot :: "cart_state \<Rightarrow> u32 \<Rightarrow> player_service_resume_state \<Rightarrow> pl_state" where
  "pl_boot c rtc_magic rtc_state = \<lparr>pl_cart = c, pl_initialised = False, pl_playing = False, pl_paused = False,
     pl_playlist_count = 0, pl_playlist_index = 0, pl_resume_chunk = 0, pl_current_chunk = 0,
     pl_current_track = [], pl_track_info = track_info_zero, pl_stop_requested = False,
     pl_active_generation = 0, pl_cancelled_generation = 0,
     pl_volume_level = PLAYER_SVC_DEFAULT_VOLUME_LEVEL, pl_playback_mode = PLAYER_SVC_MODE_SEQUENTIAL,
     pl_shuffle_order = False, pl_shuffle_order_storage = replicate JUKEBOY_MAX_TRACK_FILES 0,
     pl_shuffle_position = 0, pl_countable_play_emitted = False, pl_track_started_unix = 0,
     pl_resume_rtc_magic = rtc_magic, pl_resume_rtc_state = rtc_state, pl_cmd_queue = None,
     pl_reader_cmd_queue = None, pl_decoder_cmd_queue = None, pl_chunk_queue = [],
     pl_buf_pool_sem = 0, pl_pcm_stream = None, pl_reader_idle = False, pl_decoder_idle = False,
     pl_events = [], pl_nvs_ops = [], pl_persist_result = None\<rparr>"

section \<open>Events and commands\<close>

definition player_service_post_event :: "player_service_event \<Rightarrow> pl_state \<Rightarrow> pl_state" where
  "player_service_post_event ev s = s\<lparr>pl_events := pl_events s @ [ev]\<rparr>"

definition pl_queue_send :: "player_service_msg \<Rightarrow> pl_state \<Rightarrow> bool \<times> pl_state" where
  "pl_queue_send msg s =
     (case pl_cmd_queue s of None \<Rightarrow> (False, s)
      | Some q \<Rightarrow> if length q \<ge> PLAYER_SVC_QUEUE_DEPTH then (False, s)
                   else (True, s\<lparr>pl_cmd_queue := Some (q @ [msg])\<rparr>))"

definition player_service_queue_cmd :: "player_service_msg \<Rightarrow> pl_state \<Rightarrow> bool \<times> pl_state" where
  "player_service_queue_cmd cmd s = pl_queue_send cmd s"

definition player_service_queue_control :: "player_service_control \<Rightarrow> pl_state \<Rightarrow> bool \<times> pl_state" where
  "player_service_queue_control control s = pl_queue_send (PLAYER_SVC_CMD_CONTROL control) s"

definition player_service_queue_play_index :: "u32 \<Rightarrow> pl_state \<Rightarrow> bool \<times> pl_state" where
  "player_service_queue_play_index track_index s = pl_queue_send (PLAYER_SVC_CMD_PLAY_INDEX track_index) s"

definition player_service_queue_seek_absolute :: "u32 \<Rightarrow> pl_state \<Rightarrow> bool \<times> pl_state" where
  "player_service_queue_seek_absolute seconds s = pl_queue_send (PLAYER_SVC_CMD_SEEK_ABSOLUTE seconds) s"

definition player_service_queue_track_complete :: "u32 \<Rightarrow> pl_state \<Rightarrow> bool \<times> pl_state" where
  "player_service_queue_track_complete generation s =
     pl_queue_send (PLAYER_SVC_CMD_TRACK_COMPLETE generation) s"

section \<open>The playlist\<close>

definition player_service_playlist_filename :: "nat \<Rightarrow> nat \<Rightarrow> pl_state \<Rightarrow> string option" where
  "player_service_playlist_filename index buffer_len s =
     (if buffer_len = 0 \<or> index \<ge> pl_playlist_count s then None
      else case cartridge_service_get_metadata_track index (pl_cart s) of None \<Rightarrow> None
           | Some t \<Rightarrow> player_service_format_track_filename buffer_len (jt_file_num t))"

definition player_service_playlist_title :: "nat \<Rightarrow> pl_state \<Rightarrow> bytes option" where
  "player_service_playlist_title index s =
     (if index \<ge> pl_playlist_count s then None
      else case cartridge_service_get_metadata_track index (pl_cart s) of None \<Rightarrow> None
           | Some t \<Rightarrow> if cstr (jt_track_name t) = [] then None else Some (cstr (jt_track_name t)))"

definition player_service_playlist_metadata_index :: "nat \<Rightarrow> pl_state \<Rightarrow> nat" where
  "player_service_playlist_metadata_index index s =
     (if index \<ge> pl_playlist_count s then SIZE_MAX else index)"

record player_service_playlist_track_info =
  pi_track_index :: nat
  pi_duration_sec :: u32
  pi_file_num :: u32
  pi_track_title :: bytes
  pi_track_artists :: bytes
  pi_filename :: string

text \<open>The characters of a file name as bytes.\<close>

definition string_bytes :: "string \<Rightarrow> bytes" where
  "string_bytes cs = map (\<lambda>c. of_nat (of_char c)) cs"

definition player_service_fill_playlist_track_info ::
    "nat \<Rightarrow> pl_state \<Rightarrow> player_service_playlist_track_info option" where
  "player_service_fill_playlist_track_info index s =
     (if index \<ge> pl_playlist_count s then None
      else
        let zero = \<lparr>pi_track_index = index, pi_duration_sec = 0, pi_file_num = 0, pi_track_title = [],
                    pi_track_artists = [], pi_filename = ''''\<rparr>;
            info = (case cartridge_service_get_metadata_track index (pl_cart s) of None \<Rightarrow> zero
              | Some t \<Rightarrow> zero\<lparr>pi_duration_sec := jt_duration_sec t, pi_file_num := jt_file_num t,
                  pi_track_title := c_strncpy (PLAYER_SVC_MAX_TRACK_TITLE_LEN - 1) (jt_track_name t),
                  pi_track_artists := c_strncpy (JUKEBOY_JBM_TRACK_ARTISTS_BYTES - 1) (jt_artists t)\<rparr>);
            from_metadata = (case cartridge_service_get_metadata_track index (pl_cart s) of None \<Rightarrow> None
              | Some t \<Rightarrow> player_service_format_track_filename PLAYER_SVC_MAX_TRACK_FILENAME_LEN (jt_file_num t))
        in case from_metadata of Some f \<Rightarrow> Some (info\<lparr>pi_filename := f\<rparr>)
        | None \<Rightarrow>
            let numbered = info\<lparr>pi_file_num := of_nat index\<rparr> in
            (case player_service_format_track_filename PLAYER_SVC_MAX_TRACK_FILENAME_LEN (of_nat index) of
               None \<Rightarrow> None
             | Some f \<Rightarrow> Some (numbered\<lparr>pi_filename := f,
                 pi_track_title := (if pi_track_title numbered = [] then string_bytes f
                                    else pi_track_title numbered)\<rparr>)))"

text \<open>Where start and restore set the title.\<close>

definition current_track_name :: "nat \<Rightarrow> pl_state \<Rightarrow> bytes" where
  "current_track_name index s =
     (case player_service_playlist_title index s of
        Some title \<Rightarrow> c_strncpy (PLAYER_SVC_MAX_TRACK_TITLE_LEN - 1) title
      | None \<Rightarrow> (case player_service_playlist_filename index PLAYER_SVC_MAX_TRACK_TITLE_LEN s of
                    Some f \<Rightarrow> string_bytes f | None \<Rightarrow> []))"

section \<open>The pipeline\<close>

definition player_service_should_stop :: "u32 \<Rightarrow> pl_state \<Rightarrow> bool" where
  "player_service_should_stop generation s =
     (if generation = 0 then False
      else pl_stop_requested s \<or> generation \<noteq> pl_active_generation s)"

definition player_service_reset_pipeline :: "pl_state \<Rightarrow> pl_state" where
  "player_service_reset_pipeline s =
     s\<lparr>pl_reader_cmd_queue := None, pl_decoder_cmd_queue := None, pl_chunk_queue := [],
       pl_pcm_stream := map_option (\<lambda>_. []) (pl_pcm_stream s),
       pl_buf_pool_sem := max (pl_buf_pool_sem s) PLAYER_SVC_CHUNK_BUF_COUNT\<rparr>"

definition player_service_pipeline_idle :: "pl_state \<Rightarrow> bool" where
  "player_service_pipeline_idle s \<longleftrightarrow> pl_reader_idle s \<and> pl_decoder_idle s"

text \<open>Waiting for the idle bits: the tasks set them, unless the wait times out.\<close>

definition player_service_wait_for_playback_stop :: "pl_env \<Rightarrow> pl_state \<Rightarrow> pl_state" where
  "player_service_wait_for_playback_stop env s =
     player_service_reset_pipeline
       (if pe_tasks_stop env then s\<lparr>pl_reader_idle := True, pl_decoder_idle := True\<rparr> else s)"

definition player_service_stop_playback :: "pl_env \<Rightarrow> bool \<Rightarrow> pl_state \<Rightarrow> pl_state" where
  "player_service_stop_playback env cancelled s =
     (if player_service_pipeline_idle s then player_service_reset_pipeline s
      else
        let s1 = (if cancelled then s\<lparr>pl_cancelled_generation := pl_active_generation s\<rparr> else s) in
        player_service_wait_for_playback_stop env (s1\<lparr>pl_stop_requested := True\<rparr>))"

definition player_service_send_eof_message :: "pl_state \<Rightarrow> pl_state" where
  "player_service_send_eof_message s =
     (if length (pl_chunk_queue s) < PLAYER_SVC_CHUNK_BUF_COUNT
      then s\<lparr>pl_chunk_queue := pl_chunk_queue s @
             [\<lparr>cm_data = None, cm_len = 0, cm_chunk_index = 0, cm_is_eof = True, cm_release_buf = False\<rparr>]\<rparr>
      else s)"

definition player_service_free_track_info :: "pl_state \<Rightarrow> pl_state" where
  "player_service_free_track_info s =
     s\<lparr>pl_track_info := player_service_invalidate_lookup_window track_info_zero\<rparr>"

section \<open>Positions\<close>

definition player_service_current_second :: "pl_state \<Rightarrow> nat" where
  "player_service_current_second s =
     (if ti_lookup_table_len (pl_track_info s) = 0 then 0
      else player_service_clamp_chunk_index (pl_track_info s)
             (if pl_paused s then pl_resume_chunk s else pl_current_chunk s))"

definition player_service_current_unix_time_or_zero :: "pl_env \<Rightarrow> u32" where
  "player_service_current_unix_time_or_zero env =
     (if pe_time env \<le> 0 \<or> pe_time env > int (unat UINT32_MAX) then 0 else word_of_int (pe_time env))"

definition player_service_resolve_track_started_unix :: "pl_env \<Rightarrow> nat \<Rightarrow> u32" where
  "player_service_resolve_track_started_unix env start_chunk =
     (let now = player_service_current_unix_time_or_zero env in
      if now = 0 then 0 else if start_chunk \<ge> unat now then now else now - of_nat start_chunk)"

definition player_service_should_restart_current_track :: "pl_state \<Rightarrow> bool" where
  "player_service_should_restart_current_track s =
     (if ti_lookup_table_len (pl_track_info s) \<le> PLAYER_SVC_PREVIOUS_RESTART_SECONDS then False
      else player_service_clamp_chunk_index (pl_track_info s)
             (if pl_paused s then pl_resume_chunk s else pl_current_chunk s) >
           PLAYER_SVC_PREVIOUS_RESTART_SECONDS)"

definition player_service_get_seek_target :: "bool \<Rightarrow> pl_state \<Rightarrow> nat" where
  "player_service_get_seek_target forward s =
     (let info = pl_track_info s; step = player_service_fast_seek_step info in
      if ti_lookup_table_len info = 0 then 0
      else
        let base_chunk = player_service_clamp_chunk_index info
              (if pl_paused s then pl_resume_chunk s else pl_current_chunk s) in
        if forward then
          if base_chunk + step \<ge> ti_lookup_table_len info then ti_lookup_table_len info - 1
          else base_chunk + step
        else if step \<ge> base_chunk then 0 else base_chunk - step)"

definition player_service_fill_current_track_event :: "pl_state \<Rightarrow> player_service_track_event option" where
  "player_service_fill_current_track_event s =
     (let metadata_index = player_service_playlist_metadata_index (pl_playlist_index s) s in
      case cartridge_service_get_metadata_header (pl_cart s) of None \<Rightarrow> None
      | Some metadata \<Rightarrow>
          if metadata_index = SIZE_MAX then None
          else case cartridge_service_get_metadata_track metadata_index (pl_cart s) of None \<Rightarrow> None
          | Some track \<Rightarrow> Some \<lparr>te_cartridge_checksum = jh_checksum metadata,
              te_track_index = of_nat metadata_index, te_track_file_num = jt_file_num track,
              te_started_at_unix = pl_track_started_unix s,
              te_playback_position_sec = of_nat (player_service_current_second s),
              te_filename = (case player_service_playlist_filename (pl_playlist_index s)
                                    PLAYER_SVC_MAX_TRACK_FILENAME_LEN s of
                               Some f \<Rightarrow> take (PLAYER_SVC_MAX_TRACK_FILENAME_LEN - 1) f | None \<Rightarrow> '''')\<rparr>)"

definition player_service_post_countable_track_event :: "pl_state \<Rightarrow> pl_state" where
  "player_service_post_countable_track_event s =
     (if pl_countable_play_emitted s then s
      else case player_service_fill_current_track_event s of None \<Rightarrow> s
      | Some event_data \<Rightarrow> player_service_post_event (PLAYER_SVC_EVENT_TRACK_BECAME_COUNTABLE event_data)
                             (s\<lparr>pl_countable_play_emitted := True\<rparr>))"

section \<open>Saved playback status\<close>

definition player_service_clear_rtc_playback_status :: "pl_state \<Rightarrow> pl_state" where
  "player_service_clear_rtc_playback_status s =
     s\<lparr>pl_resume_rtc_magic := 0, pl_resume_rtc_state := resume_state_zero\<rparr>"

definition player_service_cache_rtc_playback_status ::
    "player_service_resume_state option \<Rightarrow> pl_state \<Rightarrow> pl_state" where
  "player_service_cache_rtc_playback_status status s =
     (case status of None \<Rightarrow> player_service_clear_rtc_playback_status s
      | Some st \<Rightarrow> s\<lparr>pl_resume_rtc_state := st, pl_resume_rtc_magic := PLAYER_SVC_RESUME_RTC_MAGIC\<rparr>)"

definition player_service_build_resume_state :: "pl_state \<Rightarrow> player_service_resume_state option" where
  "player_service_build_resume_state s =
     (case cartridge_service_get_metadata_header (pl_cart s) of None \<Rightarrow> None
      | Some metadata \<Rightarrow>
          if \<not> cartridge_service_is_mounted (pl_cart s) \<or> pl_playlist_count s = 0 \<or>
             (\<not> pl_playing s \<and> \<not> pl_paused s)
          then None
          else Some (resume_state_zero\<lparr>rs_version := PLAYER_SVC_RESUME_STATE_VERSION,
            rs_cartridge_checksum := jh_checksum metadata, rs_track_count := jh_track_count metadata,
            rs_current_track_num := of_nat (pl_playlist_index s),
            rs_current_sec := of_nat (player_service_current_second s),
            rs_paused := (if pl_paused s then 1 else 0)\<rparr>))"

definition player_service_cache_current_playback_status :: "pl_state \<Rightarrow> pl_state" where
  "player_service_cache_current_playback_status s =
     (case player_service_build_resume_state s of None \<Rightarrow> s
      | Some status \<Rightarrow> player_service_cache_rtc_playback_status (Some status) s)"

text \<open>The struct as the NVS blob holds it: five words, the flag and three reserved bytes.\<close>

definition RESUME_STATE_BYTES :: nat where "RESUME_STATE_BYTES = 24"

definition enc_resume_state :: "player_service_resume_state \<Rightarrow> bytes" where
  "enc_resume_state st = u32_bytes (rs_version st) @ u32_bytes (rs_cartridge_checksum st) @
     u32_bytes (rs_track_count st) @ u32_bytes (rs_current_track_num st) @
     u32_bytes (rs_current_sec st) @ [rs_paused st] @ rs_reserved st"

definition dec_resume_state :: "bytes \<Rightarrow> player_service_resume_state" where
  "dec_resume_state b = \<lparr>rs_version = rd_u32 b 0, rs_cartridge_checksum = rd_u32 b 4,
     rs_track_count = rd_u32 b 8, rs_current_track_num = rd_u32 b 12, rs_current_sec = rd_u32 b 16,
     rs_paused = (case drop 20 b of [] \<Rightarrow> 0 | p # _ \<Rightarrow> p), rs_reserved = rd_bytes b 21 3\<rparr>"

definition nvs_call :: "pl_env \<Rightarrow> nvs_op \<Rightarrow> pl_state \<Rightarrow> esp_err \<times> pl_state" where
  "nvs_call env a s = (pe_nvs env (pl_nvs_ops s) a, s\<lparr>pl_nvs_ops := pl_nvs_ops s @ [a]\<rparr>)"

definition player_service_erase_saved_playback_status_locked :: "pl_env \<Rightarrow> pl_state \<Rightarrow> esp_err \<times> pl_state" where
  "player_service_erase_saved_playback_status_locked env s =
     (let (err, s1) = nvs_call env Nvs_Erase_Key s in
      if err = ESP_ERR_NVS_NOT_FOUND then (ESP_OK, s1)
      else if err \<noteq> ESP_OK then (err, s1)
      else nvs_call env Nvs_Commit s1)"

definition player_service_clear_saved_playback_status :: "pl_env \<Rightarrow> pl_state \<Rightarrow> pl_state" where
  "player_service_clear_saved_playback_status env s =
     (let (err, s1) = nvs_call env Nvs_Open (player_service_clear_rtc_playback_status s) in
      if err \<noteq> ESP_OK then s1
      else snd (player_service_erase_saved_playback_status_locked env s1))"

definition player_service_write_playback_status ::
    "pl_env \<Rightarrow> player_service_resume_state option \<Rightarrow> pl_state \<Rightarrow> esp_err \<times> pl_state" where
  "player_service_write_playback_status env status s =
     (case status of None \<Rightarrow> (ESP_ERR_INVALID_ARG, s)
      | Some st \<Rightarrow>
          let (err, s1) = nvs_call env Nvs_Open s in
          if err \<noteq> ESP_OK then (err, s1)
          else
            let (err2, s2) = nvs_call env (Nvs_Set_Blob (enc_resume_state st)) s1 in
            if err2 = ESP_OK then nvs_call env Nvs_Commit s2 else (err2, s2))"

definition player_service_persist_current_playback_status :: "pl_env \<Rightarrow> pl_state \<Rightarrow> esp_err \<times> pl_state" where
  "player_service_persist_current_playback_status env s =
     (case player_service_build_resume_state s of None \<Rightarrow> (ESP_OK, s)
      | Some status \<Rightarrow> player_service_write_playback_status env (Some status)
                         (player_service_cache_rtc_playback_status (Some status) s))"

text \<open>The validated track index, second and pause flag.\<close>

definition player_service_validate_resume_state ::
    "player_service_resume_state \<Rightarrow> pl_state \<Rightarrow> (nat \<times> nat \<times> bool) option" where
  "player_service_validate_resume_state status s =
     (case cartridge_service_get_metadata_header (pl_cart s) of None \<Rightarrow> None
      | Some metadata \<Rightarrow>
          if \<not> cartridge_service_is_mounted (pl_cart s) then None
          else if rs_version status \<noteq> PLAYER_SVC_RESUME_STATE_VERSION then None
          else if rs_cartridge_checksum status \<noteq> jh_checksum metadata then None
          else if rs_track_count status \<noteq> jh_track_count metadata \<or>
                  unat (rs_current_track_num status) \<ge>
                    cartridge_service_get_metadata_track_count (pl_cart s) \<or>
                  unat (rs_current_track_num status) \<ge> pl_playlist_count s
            then None
          else Some (unat (rs_current_track_num status), unat (rs_current_sec status),
                     rs_paused status \<noteq> 0))"

text \<open>The part that reads NVS, and every discard of what it read.\<close>

definition discard_nvs_status :: "pl_env \<Rightarrow> pl_state \<Rightarrow> pl_state" where
  "discard_nvs_status env s =
     snd (player_service_erase_saved_playback_status_locked env (player_service_clear_rtc_playback_status s))"

definition load_nvs_playback_status ::
    "pl_env \<Rightarrow> jbm_header \<Rightarrow> pl_state \<Rightarrow> (nat \<times> nat \<times> bool) option \<times> pl_state" where
  "load_nvs_playback_status env metadata s =
     (let (err, s1) = nvs_call env Nvs_Open s in
      if err \<noteq> ESP_OK then (None, s1)
      else
        let (err2, s2) = nvs_call env Nvs_Get_Blob s1 in
        if err2 = ESP_ERR_NVS_NOT_FOUND then (None, s2)
        else if err2 \<noteq> ESP_OK \<or> length (pe_nvs_blob env) \<noteq> RESUME_STATE_BYTES
          then (None, discard_nvs_status env s2)
        else
          let status = dec_resume_state (pe_nvs_blob env) in
          if rs_version status \<noteq> PLAYER_SVC_RESUME_STATE_VERSION then (None, discard_nvs_status env s2)
          else if rs_cartridge_checksum status \<noteq> jh_checksum metadata then (None, discard_nvs_status env s2)
          else case player_service_validate_resume_state status s2 of
            None \<Rightarrow> (None, discard_nvs_status env s2)
          | Some r \<Rightarrow> (Some r, player_service_cache_rtc_playback_status (Some status) s2))"

definition player_service_load_saved_playback_status ::
    "pl_env \<Rightarrow> pl_state \<Rightarrow> (nat \<times> nat \<times> bool) option \<times> pl_state" where
  "player_service_load_saved_playback_status env s =
     (case cartridge_service_get_metadata_header (pl_cart s) of None \<Rightarrow> (None, s)
      | Some metadata \<Rightarrow>
          if \<not> cartridge_service_is_mounted (pl_cart s) then (None, s)
          else if pl_resume_rtc_magic s = PLAYER_SVC_RESUME_RTC_MAGIC then
            let status = pl_resume_rtc_state s in
            (case player_service_validate_resume_state status s of
               Some r \<Rightarrow> (Some r, s)
             | None \<Rightarrow>
                 if rs_version status = PLAYER_SVC_RESUME_STATE_VERSION \<and>
                    rs_cartridge_checksum status \<noteq> jh_checksum metadata
                 then (None, player_service_clear_saved_playback_status env s)
                 else load_nvs_playback_status env metadata (player_service_clear_rtc_playback_status s))
          else load_nvs_playback_status env metadata s)"

section \<open>The shuffled order\<close>

definition swap_at :: "nat \<Rightarrow> nat \<Rightarrow> 'a list \<Rightarrow> 'a list" where
  "swap_at i j xs = xs[i := xs ! j, j := xs ! i]"

text \<open>The loop from the last index down to 1. \<open>rnd i\<close> is the number drawn at index \<open>i\<close>, and
  \<open>rnd 0\<close> the one drawn for the swap that follows the loop.\<close>

fun fisher_yates :: "(nat \<Rightarrow> u32) \<Rightarrow> nat \<Rightarrow> nat list \<Rightarrow> nat list" where
  "fisher_yates rnd 0 order = order"
| "fisher_yates rnd (Suc i) order =
     fisher_yates rnd i (swap_at (Suc i) (unat (rnd (Suc i)) mod (Suc i + 1)) order)"

definition avoid_first :: "u32 \<Rightarrow> nat \<Rightarrow> nat \<Rightarrow> nat list \<Rightarrow> nat list" where
  "avoid_first r n index order =
     (if n > 1 \<and> order ! 0 = index then swap_at 0 (1 + unat r mod (n - 1)) order else order)"

definition player_service_build_shuffle_order :: "(nat \<Rightarrow> u32) \<Rightarrow> pl_state \<Rightarrow> pl_state" where
  "player_service_build_shuffle_order rnd s =
     (let n = pl_playlist_count s in
      if \<not> pl_shuffle_order s \<or> n = 0 then s
      else s\<lparr>pl_shuffle_order_storage := avoid_first (rnd 0) n (pl_playlist_index s)
              (fisher_yates rnd (n - 1) ([0..<n] @ drop n (pl_shuffle_order_storage s)))\<rparr>)"

definition player_service_free_playlist :: "pl_state \<Rightarrow> pl_state" where
  "player_service_free_playlist s =
     s\<lparr>pl_shuffle_order_storage := replicate (pl_playlist_count s) 0 @
          drop (pl_playlist_count s) (pl_shuffle_order_storage s),
       pl_shuffle_order := False, pl_playlist_count := 0, pl_shuffle_position := 0\<rparr>"

definition player_service_scan_playlist :: "pl_env \<Rightarrow> pl_state \<Rightarrow> pl_state" where
  "player_service_scan_playlist env s0 =
     (let metadata_track_count = cartridge_service_get_metadata_track_count (pl_cart s0);
          s = (player_service_free_playlist s0)\<lparr>pl_playlist_index := 0\<rparr> in
      if metadata_track_count = 0 then s
      else if metadata_track_count > JUKEBOY_MAX_TRACK_FILES then s
      else
        let s1 = s\<lparr>pl_shuffle_order_storage := replicate JUKEBOY_MAX_TRACK_FILES 0,
                   pl_playlist_count := metadata_track_count, pl_shuffle_order := True\<rparr>;
            s2 = (player_service_build_shuffle_order (pe_random env) s1)\<lparr>pl_shuffle_position := SIZE_MAX\<rparr> in
        player_service_post_event (PLAYER_SVC_EVENT_PLAYLIST_READY metadata_track_count) s2)"

text \<open>The loop that draws until it finds another index; \<open>None\<close> when the given draws did not end it.\<close>

primrec draw_other :: "nat \<Rightarrow> nat \<Rightarrow> u32 list \<Rightarrow> nat option" where
  "draw_other n index [] = None"
| "draw_other n index (r # rs) =
     (if unat r mod n = index then draw_other n index rs else Some (unat r mod n))"

definition sequential_next :: "pl_state \<Rightarrow> nat" where
  "sequential_next s =
     (if pl_playlist_index s + 1 < pl_playlist_count s then pl_playlist_index s + 1 else 0)"

definition player_service_next_index :: "pl_env \<Rightarrow> bool \<Rightarrow> pl_state \<Rightarrow> nat option \<times> pl_state" where
  "player_service_next_index env is_manual s =
     (if pl_playlist_count s = 0 then (Some 0, s)
      else case pl_playback_mode s of
        PLAYER_SVC_MODE_SINGLE_REPEAT \<Rightarrow>
          (Some (if is_manual then sequential_next s else pl_playlist_index s), s)
      | PLAYER_SVC_MODE_SHUFFLE \<Rightarrow>
          if pl_playlist_count s = 1 then (Some 0, s)
          else if pl_shuffle_order s then
            let next_pos = (if pl_shuffle_position s = SIZE_MAX \<or>
                               pl_shuffle_position s + 1 \<ge> pl_playlist_count s then 0
                            else pl_shuffle_position s + 1) in
            (Some (pl_shuffle_order_storage s ! next_pos), s\<lparr>pl_shuffle_position := next_pos\<rparr>)
          else (draw_other (pl_playlist_count s) (pl_playlist_index s) (pe_fallback_random env), s)
      | PLAYER_SVC_MODE_SEQUENTIAL \<Rightarrow> (Some (sequential_next s), s))"

definition player_service_prev_index :: "pl_state \<Rightarrow> nat \<times> pl_state" where
  "player_service_prev_index s =
     (if pl_playlist_count s = 0 then (0, s)
      else if pl_playback_mode s = PLAYER_SVC_MODE_SHUFFLE \<and> pl_shuffle_order s \<and> pl_playlist_count s > 1
      then
        let prev_pos = (if pl_shuffle_position s = SIZE_MAX \<or> pl_shuffle_position s = 0
                        then pl_playlist_count s - 1 else pl_shuffle_position s - 1) in
        (pl_shuffle_order_storage s ! prev_pos, s\<lparr>pl_shuffle_position := prev_pos\<rparr>)
      else (if pl_playlist_index s > 0 then pl_playlist_index s - 1 else pl_playlist_count s - 1, s))"

text \<open>The scan that start and restore use to keep the position in step with the track.\<close>

definition sync_shuffle_position :: "nat \<Rightarrow> pl_state \<Rightarrow> pl_state" where
  "sync_shuffle_position index s =
     (if pl_playback_mode s = PLAYER_SVC_MODE_SHUFFLE \<and> pl_shuffle_order s
      then case find_slot (\<lambda>x. x = index) (take (pl_playlist_count s) (pl_shuffle_order_storage s)) of
             None \<Rightarrow> s | Some i \<Rightarrow> s\<lparr>pl_shuffle_position := i\<rparr>
      else s)"

section \<open>Facts about the shuffled order\<close>

lemma length_swap_at [simp]: "length (swap_at i j xs) = length xs"
  by (simp add: swap_at_def)

lemma nth_swap_at:
  "i < length xs \<Longrightarrow> j < length xs \<Longrightarrow>
   swap_at i j xs ! k = (if k = j then xs ! i else if k = i then xs ! j else xs ! k)"
  by (auto simp: swap_at_def nth_list_update)

text \<open>A swap of two positions of the first part permutes that part and keeps the rest.\<close>

lemma swap_at_append:
  "i < length xs \<Longrightarrow> j < length xs \<Longrightarrow> swap_at i j (xs @ ys) = swap_at i j xs @ ys"
  by (simp add: swap_at_def nth_append list_update_append)

lemma mset_swap_at: "i < length xs \<Longrightarrow> j < length xs \<Longrightarrow> mset (swap_at i j xs) = mset xs"
  by (simp add: swap_at_def mset_swap)

lemma fisher_yates_prefix:
  "i < length xs \<Longrightarrow> \<exists>zs. fisher_yates rnd i (xs @ ys) = zs @ ys \<and> mset zs = mset xs"
proof (induction i arbitrary: xs)
  case (Suc i)
  let ?j = "unat (rnd (Suc i)) mod (Suc i + 1)"
  have "?j < Suc i + 1" by (rule mod_less_divisor) simp
  with Suc.prems have j: "?j < length xs" by linarith
  have "\<exists>zs. fisher_yates rnd i (swap_at (Suc i) ?j xs @ ys) = zs @ ys \<and> mset zs = mset (swap_at (Suc i) ?j xs)"
    using Suc.prems by (intro Suc.IH) simp
  with j Suc.prems show ?case by (simp add: swap_at_append mset_swap_at)
qed auto

lemma avoid_first_prefix:
  assumes "length xs = n" and "distinct xs"
  shows "\<exists>zs. avoid_first r n k (xs @ ys) = zs @ ys \<and> mset zs = mset xs \<and> (1 < n \<longrightarrow> zs ! 0 \<noteq> k)"
proof (cases "1 < n \<and> xs ! 0 = k")
  case True
  let ?j = "1 + unat r mod (n - 1)"
  have "unat r mod (n - 1) < n - 1" using True by (intro mod_less_divisor) simp
  then have j: "?j < length xs" "0 < length xs" using assms(1) True by linarith+
  have "xs ! ?j \<noteq> xs ! 0" using assms(2) j by (simp add: nth_eq_iff_index_eq)
  with True j show ?thesis
    by (intro exI [of _ "swap_at 0 ?j xs"])
      (simp add: avoid_first_def swap_at_append mset_swap_at nth_swap_at nth_append)
next
  case False
  with assms show ?thesis
    by (intro exI [of _ xs]) (auto simp: avoid_first_def nth_append)
qed

text \<open>The playlist part of the order as a list, and what the player relies on of it.\<close>

definition shuffle_list :: "pl_state \<Rightarrow> nat list" where
  "shuffle_list s = take (pl_playlist_count s) (pl_shuffle_order_storage s)"

lemma mset_upt_iff: "mset xs = mset [0..<n] \<Longrightarrow> length xs = n \<and> distinct xs \<and> set xs = {0..<n}"
  by (metis distinct_upt length_upt minus_nat.diff_0 mset_eq_imp_distinct_iff mset_eq_length mset_eq_setD set_upt)

lemma build_shuffle_order:
  assumes "pl_shuffle_order s" and "0 < pl_playlist_count s"
    and "pl_playlist_count s \<le> length (pl_shuffle_order_storage s)"
  shows "mset (shuffle_list (player_service_build_shuffle_order rnd s)) = mset [0..<pl_playlist_count s]"
    and "1 < pl_playlist_count s \<Longrightarrow>
      shuffle_list (player_service_build_shuffle_order rnd s) ! 0 \<noteq> pl_playlist_index s"
    and "length (pl_shuffle_order_storage (player_service_build_shuffle_order rnd s)) =
      length (pl_shuffle_order_storage s)"
proof -
  let ?n = "pl_playlist_count s" and ?rest = "drop (pl_playlist_count s) (pl_shuffle_order_storage s)"
  obtain xs where xs: "fisher_yates rnd (?n - 1) ([0..<?n] @ ?rest) = xs @ ?rest" "mset xs = mset [0..<?n]"
    using fisher_yates_prefix [of "?n - 1" "[0..<?n]" rnd ?rest] assms(2) by auto
  note x = mset_upt_iff [OF xs(2)]
  obtain zs where zs: "avoid_first (rnd 0) ?n (pl_playlist_index s) (xs @ ?rest) = zs @ ?rest"
    "mset zs = mset xs" "1 < ?n \<longrightarrow> zs ! 0 \<noteq> pl_playlist_index s"
    using avoid_first_prefix [of xs ?n "rnd 0" "pl_playlist_index s" ?rest] x by auto
  have b: "player_service_build_shuffle_order rnd s = s\<lparr>pl_shuffle_order_storage := zs @ ?rest\<rparr>"
    using assms by (simp only: player_service_build_shuffle_order_def Let_def xs(1) zs(1)) simp
  have len: "length zs = ?n" using zs(2) x mset_eq_length by metis
  then have sl: "shuffle_list (player_service_build_shuffle_order rnd s) = zs"
    by (simp add: b shuffle_list_def)
  show "mset (shuffle_list (player_service_build_shuffle_order rnd s)) = mset [0..<?n]"
    by (simp add: sl zs(2) xs(2))
  show "1 < ?n \<Longrightarrow> shuffle_list (player_service_build_shuffle_order rnd s) ! 0 \<noteq> pl_playlist_index s"
    using zs(3) by (simp add: sl)
  show "length (pl_shuffle_order_storage (player_service_build_shuffle_order rnd s)) =
      length (pl_shuffle_order_storage s)"
    using len assms(3) by (simp add: b)
qed

end
