(* ===== verification/Player.thy ===== *)
theory Player
  imports Player_State
begin

text \<open>
  The command handlers, the task and the interface functions of the player service,
  \<^verbatim>\<open>main/player_service.c\<close>. A handler runs to its end in the service task; the decoder
  and the reader tasks, the cartridge service and the callers of the interface take their steps
  between two handlers (\<open>pl_op\<close>). A handler that draws random numbers without end is a step
  that does nothing; it cannot happen in a reachable state.
\<close>

section \<open>Starting a track\<close>

definition player_service_ensure_track_loaded :: "pl_env \<Rightarrow> nat \<Rightarrow> pl_state \<Rightarrow> esp_err \<times> pl_state" where
  "player_service_ensure_track_loaded env index s =
     (if index \<ge> pl_playlist_count s then (ESP_ERR_INVALID_ARG, s)
      else case player_service_playlist_filename index PLAYER_SVC_MAX_TRACK_FILENAME_LEN s of
        None \<Rightarrow> (ESP_ERR_INVALID_ARG, s)
      | Some filename \<Rightarrow>
          if ti_filename (pl_track_info s) \<noteq> '''' \<and> ti_filename (pl_track_info s) = filename then (ESP_OK, s)
          else case player_service_load_track_info (pe_fs env) (pe_stat env) filename (pl_cart s) of
            (Inl err, c) \<Rightarrow> (err, s\<lparr>pl_cart := c\<rparr>)
          | (Inr new_info, c) \<Rightarrow>
              (ESP_OK, (player_service_free_track_info s)\<lparr>pl_track_info := new_info, pl_cart := c\<rparr>))"

text \<open>What a start sets once the track is loaded, up to the reset of the pipeline.\<close>

definition begin_track :: "pl_env \<Rightarrow> nat \<Rightarrow> nat \<Rightarrow> pl_state \<Rightarrow> pl_state" where
  "begin_track env index start_chunk s1 =
     (let same_play = index = pl_playlist_index s1 \<and> start_chunk > 0 \<and> (pl_playing s1 \<or> pl_paused s1);
          s2 = s1\<lparr>pl_countable_play_emitted := same_play \<and> pl_countable_play_emitted s1,
                  pl_active_generation := bump_nonzero (pl_active_generation s1),
                  pl_current_track := current_track_name index s1,
                  pl_playlist_index := index\<rparr>;
          s3 = (sync_shuffle_position index s2)\<lparr>pl_playing := True, pl_paused := False,
                  pl_stop_requested := False, pl_resume_chunk := start_chunk,
                  pl_current_chunk := start_chunk,
                  pl_track_started_unix := player_service_resolve_track_started_unix env start_chunk\<rparr> in
      player_service_reset_pipeline s3)"

definition player_service_start_track :: "pl_env \<Rightarrow> nat \<Rightarrow> nat \<Rightarrow> pl_state \<Rightarrow> esp_err \<times> pl_state" where
  "player_service_start_track env index start_chunk0 s0 =
     (if index \<ge> pl_playlist_count s0 then (ESP_ERR_INVALID_ARG, s0)
      else if \<not> player_service_pipeline_idle s0 then (ESP_ERR_INVALID_STATE, s0)
      else
        let (err, s1) = player_service_ensure_track_loaded env index s0 in
        if err \<noteq> ESP_OK then (err, s1)
        else
          let start_chunk = player_service_clamp_chunk_index (pl_track_info s1) start_chunk0;
              s4 = begin_track env index start_chunk s1 in
          if pl_decoder_cmd_queue s4 \<noteq> None then
            (ESP_ERR_NO_MEM, s4\<lparr>pl_playing := False, pl_track_started_unix := 0\<rparr>)
          else
            let s5 = s4\<lparr>pl_decoder_cmd_queue := Some (pl_active_generation s4)\<rparr> in
            if pl_reader_cmd_queue s5 \<noteq> None then
              (ESP_ERR_NO_MEM, player_service_wait_for_playback_stop env (player_service_send_eof_message
                 (s5\<lparr>pl_cancelled_generation := pl_active_generation s5, pl_stop_requested := True,
                     pl_playing := False, pl_track_started_unix := 0\<rparr>)))
            else
              let s6 = s5\<lparr>pl_reader_cmd_queue :=
                    Some \<lparr>rc_generation = pl_active_generation s5, rc_start_chunk = start_chunk\<rparr>\<rparr>;
                  s7 = player_service_cache_current_playback_status s6 in
              (ESP_OK, player_service_post_event
                 (PLAYER_SVC_EVENT_TRACK_STARTED (player_service_fill_current_track_event s7)) s7))"

definition begin_paused :: "pl_env \<Rightarrow> nat \<Rightarrow> nat \<Rightarrow> pl_state \<Rightarrow> pl_state" where
  "begin_paused env index start_chunk s1 =
     (let s2 = s1\<lparr>pl_countable_play_emitted := False,
                  pl_current_track := current_track_name index s1,
                  pl_playlist_index := index\<rparr>;
          s3 = (sync_shuffle_position index s2)\<lparr>pl_playing := True, pl_paused := True,
                  pl_stop_requested := False, pl_resume_chunk := start_chunk,
                  pl_current_chunk := start_chunk,
                  pl_track_started_unix := player_service_resolve_track_started_unix env start_chunk\<rparr> in
      player_service_reset_pipeline s3)"

definition player_service_restore_paused_track :: "pl_env \<Rightarrow> nat \<Rightarrow> nat \<Rightarrow> pl_state \<Rightarrow> esp_err \<times> pl_state" where
  "player_service_restore_paused_track env index start_chunk0 s0 =
     (if index \<ge> pl_playlist_count s0 then (ESP_ERR_INVALID_ARG, s0)
      else if \<not> player_service_pipeline_idle s0 then (ESP_ERR_INVALID_STATE, s0)
      else
        let (err, s1) = player_service_ensure_track_loaded env index s0 in
        if err \<noteq> ESP_OK then (err, s1)
        else
          let start_chunk = player_service_clamp_chunk_index (pl_track_info s1) start_chunk0 in
          (ESP_OK, player_service_cache_current_playback_status (begin_paused env index start_chunk s1)))"

text \<open>Every handler clears \<^verbatim>\<open>s_playing\<close> when the start it asked for fails.\<close>

definition playing_unless_failed :: "esp_err \<times> pl_state \<Rightarrow> pl_state" where
  "playing_unless_failed r = (if fst r \<noteq> ESP_OK then (snd r)\<lparr>pl_playing := False\<rparr> else snd r)"

section \<open>Handlers\<close>

definition player_service_handle_cartridge_inserted :: "pl_env \<Rightarrow> pl_state \<Rightarrow> pl_state" where
  "player_service_handle_cartridge_inserted env s0 =
     (let s = (player_service_free_track_info (player_service_stop_playback env True s0))
                \<lparr>pl_paused := False, pl_playing := False, pl_track_started_unix := 0, pl_current_track := []\<rparr>;
          cartridge_status = cartridge_service_get_status (pl_cart s) in
      if cartridge_status = CARTRIDGE_STATUS_EMPTY \<or> cartridge_status = CARTRIDGE_STATUS_INVALID then s
      else if \<not> cartridge_service_is_mounted (pl_cart s) then s
      else
        let s1 = player_service_scan_playlist env s in
        if pl_playlist_count s1 = 0 then s1\<lparr>pl_playing := False\<rparr>
        else
          let (saved, s2) = player_service_load_saved_playback_status env s1;
              (start_index, start_chunk, start_paused) =
                (case saved of None \<Rightarrow> (0, 0, False) | Some r \<Rightarrow> r) in
          playing_unless_failed
            (if start_paused then player_service_restore_paused_track env start_index start_chunk s2
             else player_service_start_track env start_index start_chunk s2))"

definition player_service_handle_track_complete :: "pl_env \<Rightarrow> u32 \<Rightarrow> pl_state \<Rightarrow> pl_state" where
  "player_service_handle_track_complete env generation s =
     (if generation = pl_cancelled_generation s then s
      else if generation \<noteq> pl_active_generation s then s
      else
        let s1 = (if pl_playing s
                  then player_service_post_event
                         (PLAYER_SVC_EVENT_TRACK_FINISHED (player_service_fill_current_track_event s)) s
                  else s) in
        if pl_playlist_count s1 = 0 then s1\<lparr>pl_playing := False\<rparr>
        else case player_service_next_index env False s1 of
          (None, _) \<Rightarrow> s
        | (Some next_index, s2) \<Rightarrow> playing_unless_failed (player_service_start_track env next_index 0 s2))"

text \<open>What both seeks do once they have a target that differs from the position.\<close>

definition seek_to_chunk :: "pl_env \<Rightarrow> nat \<Rightarrow> pl_state \<Rightarrow> pl_state" where
  "seek_to_chunk env target_chunk s =
     (let s1 = s\<lparr>pl_resume_chunk := target_chunk,
                pl_track_info := player_service_invalidate_lookup_window (pl_track_info s)\<rparr> in
      if \<not> pl_paused s1 then
        let s2 = player_service_stop_playback env True s1 in
        playing_unless_failed (player_service_start_track env (pl_playlist_index s2) (pl_resume_chunk s2) s2)
      else player_service_cache_current_playback_status s1)"

definition handle_seek_control :: "pl_env \<Rightarrow> bool \<Rightarrow> pl_state \<Rightarrow> pl_state" where
  "handle_seek_control env forward s =
     (if \<not> pl_playing s \<or> ti_lookup_table_len (pl_track_info s) = 0 then s
      else
        let target_chunk = player_service_get_seek_target forward s in
        if target_chunk = (if pl_paused s then pl_resume_chunk s
                           else player_service_clamp_chunk_index (pl_track_info s) (pl_current_chunk s))
        then s
        else seek_to_chunk env target_chunk s)"

definition handle_next :: "pl_env \<Rightarrow> pl_state \<Rightarrow> pl_state" where
  "handle_next env s =
     (if pl_playlist_count s = 0 then s
      else case player_service_next_index env True s of
        (None, _) \<Rightarrow> s
      | (Some target_index, s1) \<Rightarrow>
          playing_unless_failed (player_service_start_track env target_index 0
            (player_service_stop_playback env True (s1\<lparr>pl_paused := False\<rparr>))))"

definition handle_previous :: "pl_env \<Rightarrow> pl_state \<Rightarrow> pl_state" where
  "handle_previous env s =
     (if pl_playlist_count s = 0 then s
      else
        let s1 = player_service_stop_playback env True (s\<lparr>pl_paused := False\<rparr>);
            (target_index, s2) = (if player_service_should_restart_current_track s1
                                  then (pl_playlist_index s1, s1)
                                  else player_service_prev_index s1) in
        playing_unless_failed (player_service_start_track env target_index 0 s2))"

definition handle_pause :: "pl_env \<Rightarrow> pl_state \<Rightarrow> pl_state" where
  "handle_pause env s =
     (if \<not> pl_playing s then s
      else if pl_paused s then
        playing_unless_failed (player_service_start_track env (pl_playlist_index s) (pl_resume_chunk s) s)
      else
        let s1 = s\<lparr>pl_resume_chunk := player_service_clamp_chunk_index (pl_track_info s) (pl_current_chunk s)\<rparr>;
            event_data = player_service_fill_current_track_event s1;
            s2 = (player_service_stop_playback env True s1)\<lparr>pl_paused := True\<rparr>;
            s3 = player_service_cache_current_playback_status s2 in
        player_service_post_event (PLAYER_SVC_EVENT_TRACK_PAUSED event_data) s3)"

fun player_service_handle_control :: "pl_env \<Rightarrow> player_service_control \<Rightarrow> pl_state \<Rightarrow> pl_state" where
  "player_service_handle_control env PLAYER_SVC_CONTROL_NEXT s = handle_next env s"
| "player_service_handle_control env PLAYER_SVC_CONTROL_PREVIOUS s = handle_previous env s"
| "player_service_handle_control env PLAYER_SVC_CONTROL_FAST_FORWARD s = handle_seek_control env True s"
| "player_service_handle_control env PLAYER_SVC_CONTROL_FAST_BACKWARD s = handle_seek_control env False s"
| "player_service_handle_control env PLAYER_SVC_CONTROL_VOLUME_UP s =
     (if pl_volume_level s + 1 < PLAYER_SVC_VOLUME_LEVEL_COUNT
      then s\<lparr>pl_volume_level := pl_volume_level s + 1\<rparr> else s)"
| "player_service_handle_control env PLAYER_SVC_CONTROL_VOLUME_DOWN s =
     (if pl_volume_level s > 0 then s\<lparr>pl_volume_level := pl_volume_level s - 1\<rparr> else s)"
| "player_service_handle_control env PLAYER_SVC_CONTROL_PAUSE s = handle_pause env s"

definition player_service_handle_play_index :: "pl_env \<Rightarrow> u32 \<Rightarrow> pl_state \<Rightarrow> pl_state" where
  "player_service_handle_play_index env track_index s =
     (if pl_playlist_count s = 0 \<or> unat track_index \<ge> pl_playlist_count s then s
      else playing_unless_failed (player_service_start_track env (unat track_index) 0
             (player_service_stop_playback env True (s\<lparr>pl_paused := False\<rparr>))))"

definition player_service_handle_seek_absolute :: "pl_env \<Rightarrow> u32 \<Rightarrow> pl_state \<Rightarrow> pl_state" where
  "player_service_handle_seek_absolute env seconds s =
     (if \<not> pl_playing s \<or> ti_lookup_table_len (pl_track_info s) = 0 then s
      else
        let target_chunk = player_service_clamp_chunk_index (pl_track_info s) (unat seconds);
            current_chunk = (if pl_paused s then pl_resume_chunk s
                             else player_service_clamp_chunk_index (pl_track_info s) (pl_current_chunk s)) in
        if target_chunk = current_chunk then s else seek_to_chunk env target_chunk s)"

definition player_service_handle_cartridge_removed :: "pl_env \<Rightarrow> pl_state \<Rightarrow> pl_state" where
  "player_service_handle_cartridge_removed env s =
     (player_service_free_playlist (player_service_free_track_info (player_service_stop_playback env True s)))
       \<lparr>pl_paused := False, pl_playing := False, pl_current_track := []\<rparr>"

text \<open>One pass of the service task: the message at the head of the queue, if there is one.\<close>

fun handle_message :: "pl_env \<Rightarrow> player_service_msg \<Rightarrow> pl_state \<Rightarrow> pl_state" where
  "handle_message env PLAYER_SVC_CMD_CARTRIDGE_INSERTED s = player_service_handle_cartridge_inserted env s"
| "handle_message env PLAYER_SVC_CMD_CARTRIDGE_REMOVED s = player_service_handle_cartridge_removed env s"
| "handle_message env (PLAYER_SVC_CMD_TRACK_COMPLETE generation) s =
     player_service_handle_track_complete env generation s"
| "handle_message env (PLAYER_SVC_CMD_CONTROL control) s = player_service_handle_control env control s"
| "handle_message env (PLAYER_SVC_CMD_PLAY_INDEX track_index) s = player_service_handle_play_index env track_index s"
| "handle_message env (PLAYER_SVC_CMD_SEEK_ABSOLUTE seconds) s = player_service_handle_seek_absolute env seconds s"
| "handle_message env PLAYER_SVC_CMD_PERSIST_FOR_SHUTDOWN s =
     (let (err, s1) = player_service_persist_current_playback_status env s in
      s1\<lparr>pl_persist_result := Some err\<rparr>)"

definition player_service_task :: "pl_env \<Rightarrow> pl_state \<Rightarrow> pl_state" where
  "player_service_task env s =
     (case pl_cmd_queue s of
        Some (msg # rest) \<Rightarrow> handle_message env msg (s\<lparr>pl_cmd_queue := Some rest\<rparr>)
      | _ \<Rightarrow> s)"

definition player_service_on_cartridge_event :: "cartridge_event \<Rightarrow> pl_state \<Rightarrow> pl_state" where
  "player_service_on_cartridge_event event_id s =
     (if event_id = CARTRIDGE_SVC_EVENT_INSERTED
      then snd (player_service_queue_cmd PLAYER_SVC_CMD_CARTRIDGE_INSERTED s)
      else if event_id = CARTRIDGE_SVC_EVENT_UNMOUNTED
      then snd (player_service_queue_cmd PLAYER_SVC_CMD_CARTRIDGE_REMOVED s)
      else s)"

text \<open>The shutdown callback posts its message and waits until the service task, which first
  handles what is queued before it, has stored the result. \<open>in_time\<close> says whether that happens
  within the five seconds it waits.\<close>

definition player_service_shutdown_callback :: "pl_env \<Rightarrow> bool \<Rightarrow> pl_state \<Rightarrow> esp_err \<times> pl_state" where
  "player_service_shutdown_callback env in_time s =
     (if \<not> pl_initialised s \<or> pl_cmd_queue s = None then (ESP_OK, s)
      else
        let (sent, s1) = player_service_queue_cmd PLAYER_SVC_CMD_PERSIST_FOR_SHUTDOWN s in
        if \<not> sent then (ESP_ERR_TIMEOUT, s1)
        else if \<not> in_time then (ESP_ERR_TIMEOUT, s1)
        else
          let s2 = (player_service_task env ^^ length (the (pl_cmd_queue s1))) (s1\<lparr>pl_persist_result := None\<rparr>) in
          (case pl_persist_result s2 of None \<Rightarrow> ESP_FAIL | Some err \<Rightarrow> err, s2))"

section \<open>Interface functions\<close>

text \<open>What the creation of each resource returns. The static stacks stay allocated once they are.\<close>

record pl_init_env =
  ii_event_loop :: esp_err
  ii_pcm_stream :: bool
  ii_cmd_queue :: bool
  ii_other_queues :: bool
  ii_reader_stack :: bool
  ii_reader_task :: bool
  ii_decoder_stack :: bool
  ii_decoder_task :: bool
  ii_service_task :: bool

definition player_service_init :: "pl_init_env \<Rightarrow> pl_state \<Rightarrow> esp_err \<times> pl_state" where
  "player_service_init i s =
     (if pl_initialised s then (ESP_OK, s)
      else if ii_event_loop i \<noteq> ESP_OK \<and> ii_event_loop i \<noteq> ESP_ERR_INVALID_STATE then (ii_event_loop i, s)
      else
        let s1 = s\<lparr>pl_pcm_stream := (if ii_pcm_stream i then Some [] else None), pl_chunk_queue := [],
                   pl_buf_pool_sem := PLAYER_SVC_CHUNK_BUF_COUNT,
                   pl_cmd_queue := (if ii_cmd_queue i then Some [] else None),
                   pl_reader_cmd_queue := None, pl_decoder_cmd_queue := None\<rparr> in
        if \<not> ii_pcm_stream i \<or> \<not> ii_cmd_queue i \<or> \<not> ii_other_queues i then (ESP_ERR_NO_MEM, s1)
        else
          let s2 = s1\<lparr>pl_reader_idle := True, pl_decoder_idle := True\<rparr> in
          if \<not> ii_reader_stack i \<or> \<not> ii_reader_task i \<or> \<not> ii_decoder_stack i \<or>
             \<not> ii_decoder_task i \<or> \<not> ii_service_task i
          then (ESP_ERR_NO_MEM, s2)
          else
            let s3 = player_service_post_event PLAYER_SVC_EVENT_STARTED (s2\<lparr>pl_initialised := True\<rparr>) in
            (ESP_OK, if cartridge_service_is_inserted (pl_cart s3)
                     then snd (player_service_queue_cmd PLAYER_SVC_CMD_CARTRIDGE_INSERTED s3) else s3))"

definition player_service_request_control :: "player_service_control \<Rightarrow> pl_state \<Rightarrow> esp_err \<times> pl_state" where
  "player_service_request_control control s =
     (if \<not> pl_initialised s then (ESP_ERR_INVALID_STATE, s)
      else
        let (sent, s1) = player_service_queue_control control s in
        (if sent then ESP_OK else ESP_ERR_TIMEOUT, s1))"

definition player_service_play_track_by_index :: "u32 \<Rightarrow> pl_state \<Rightarrow> esp_err \<times> pl_state" where
  "player_service_play_track_by_index track_index s =
     (if \<not> pl_initialised s then (ESP_ERR_INVALID_STATE, s)
      else if pl_playlist_count s = 0 \<or> unat track_index \<ge> pl_playlist_count s then (ESP_ERR_INVALID_ARG, s)
      else
        let (sent, s1) = player_service_queue_play_index track_index s in
        (if sent then ESP_OK else ESP_ERR_TIMEOUT, s1))"

definition player_service_seek_to_seconds :: "u32 \<Rightarrow> pl_state \<Rightarrow> esp_err \<times> pl_state" where
  "player_service_seek_to_seconds seconds s =
     (if \<not> pl_initialised s then (ESP_ERR_INVALID_STATE, s)
      else if \<not> pl_playing s then (ESP_ERR_INVALID_STATE, s)
      else
        let (sent, s1) = player_service_queue_seek_absolute seconds s in
        (if sent then ESP_OK else ESP_ERR_TIMEOUT, s1))"

definition player_service_get_volume_percent :: "pl_state \<Rightarrow> nat" where
  "player_service_get_volume_percent s = volume_percent (pl_volume_level s)"

definition player_service_set_volume_absolute :: "u8 \<Rightarrow> pl_state \<Rightarrow> pl_state" where
  "player_service_set_volume_absolute avrc_vol s = s\<lparr>pl_volume_level := volume_level_of_avrc avrc_vol\<rparr>"

text \<open>A mode outside the enumeration is \<open>None\<close>.\<close>

definition player_service_set_playback_mode ::
    "(nat \<Rightarrow> u32) \<Rightarrow> player_service_playback_mode option \<Rightarrow> pl_state \<Rightarrow> esp_err \<times> pl_state" where
  "player_service_set_playback_mode rnd mode s =
     (case mode of None \<Rightarrow> (ESP_ERR_INVALID_ARG, s)
      | Some m \<Rightarrow>
          let s1 = s\<lparr>pl_playback_mode := m\<rparr> in
          (ESP_OK, if m = PLAYER_SVC_MODE_SHUFFLE
                   then player_service_build_shuffle_order rnd (s1\<lparr>pl_shuffle_position := SIZE_MAX\<rparr>)
                   else s1))"

definition player_service_get_playback_mode :: "pl_state \<Rightarrow> player_service_playback_mode" where
  "player_service_get_playback_mode s = pl_playback_mode s"

definition player_service_is_paused :: "pl_state \<Rightarrow> bool" where
  "player_service_is_paused s = pl_paused s"

definition player_service_get_playlist_track_count :: "pl_state \<Rightarrow> u32" where
  "player_service_get_playlist_track_count s = of_nat (pl_playlist_count s)"

definition player_service_get_playlist_track_info ::
    "u32 \<Rightarrow> bool \<Rightarrow> pl_state \<Rightarrow> esp_err \<times> player_service_playlist_track_info option" where
  "player_service_get_playlist_track_info track_index out s =
     (if \<not> out then (ESP_ERR_INVALID_ARG, None)
      else if \<not> pl_initialised s then (ESP_ERR_INVALID_STATE, None)
      else if unat track_index \<ge> pl_playlist_count s then (ESP_ERR_INVALID_ARG, None)
      else case player_service_fill_playlist_track_info (unat track_index) s of
        None \<Rightarrow> (ESP_FAIL, None) | Some info \<Rightarrow> (ESP_OK, Some info))"

record player_service_snapshot =
  sn_is_playing :: bool
  sn_is_paused :: bool
  sn_cartridge_checksum :: u32
  sn_track_index :: u32
  sn_track_count :: u32
  sn_playback_position_sec :: u32
  sn_track_started_unix :: u32
  sn_track_duration_sec :: u32
  sn_volume_percent :: nat
  sn_playback_mode :: player_service_playback_mode
  sn_track_title :: bytes
  sn_filename :: string

definition player_service_get_snapshot :: "bool \<Rightarrow> pl_state \<Rightarrow> esp_err \<times> player_service_snapshot option" where
  "player_service_get_snapshot out s =
     (if \<not> out then (ESP_ERR_INVALID_ARG, None)
      else if \<not> pl_initialised s then (ESP_ERR_INVALID_STATE, None)
      else (ESP_OK, Some \<lparr>sn_is_playing = pl_playing s, sn_is_paused = pl_paused s,
        sn_cartridge_checksum = (case cartridge_service_get_metadata_header (pl_cart s) of
            None \<Rightarrow> 0 | Some metadata \<Rightarrow> jh_checksum metadata),
        sn_track_index = (if pl_playlist_count s > 0 then of_nat (pl_playlist_index s) else UINT32_MAX),
        sn_track_count = of_nat (pl_playlist_count s),
        sn_playback_position_sec = of_nat (player_service_current_second s),
        sn_track_started_unix = pl_track_started_unix s,
        sn_track_duration_sec = (if pl_playlist_count s > 0
            then cartridge_service_get_track_duration_sec (pl_playlist_index s) (pl_cart s) else 0),
        sn_volume_percent = player_service_get_volume_percent s,
        sn_playback_mode = pl_playback_mode s,
        sn_track_title = (if pl_current_track s \<noteq> []
            then c_strncpy (PLAYER_SVC_MAX_TRACK_TITLE_LEN - 1) (pl_current_track s)
            else if pl_playlist_count s > 0
            then (case player_service_playlist_title (pl_playlist_index s) s of None \<Rightarrow> []
                  | Some title \<Rightarrow> c_strncpy (PLAYER_SVC_MAX_TRACK_TITLE_LEN - 1) title)
            else []),
        sn_filename = (if pl_playlist_count s > 0
            then (case player_service_playlist_filename (pl_playlist_index s)
                         PLAYER_SVC_MAX_TRACK_FILENAME_LEN s of None \<Rightarrow> '''' | Some f \<Rightarrow> f)
            else '''')\<rparr>))"

section \<open>The sample providers\<close>

text \<open>The audio outputs ask for \<open>len\<close> bytes of samples; the result is the returned count and
  the contents of their buffer. \<^verbatim>\<open>xStreamBufferReceive\<close> without waiting takes what is there.\<close>

definition stream_receive :: "nat \<Rightarrow> bytes \<Rightarrow> bytes \<times> bytes" where
  "stream_receive n stream = (take n stream, drop n stream)"

definition player_service_pcm_provider ::
    "bool \<Rightarrow> int \<Rightarrow> pl_state \<Rightarrow> int \<times> bytes option \<times> pl_state" where
  "player_service_pcm_provider data len s =
     (if \<not> data \<or> len \<le> 0 then (0, None, s)
      else case pl_pcm_stream s of None \<Rightarrow> (len, Some (replicate (nat len) 0), s)
      | Some stream \<Rightarrow>
          if pl_paused s then (len, Some (replicate (nat len) 0), s)
          else
            let (received, stream') = stream_receive (nat len) stream in
            (int (length received),
             Some (player_service_apply_volume (pl_volume_level s) received @
                   replicate (nat len - length received) 0),
             s\<lparr>pl_pcm_stream := Some stream'\<rparr>))"

text \<open>The loop of the QEMU provider, which receives until a receive returns nothing.\<close>

function qemu_receive :: "nat \<Rightarrow> bytes \<Rightarrow> bytes \<Rightarrow> bytes \<times> bytes" where
  "qemu_receive target received stream =
     (if length received < target then
        let (chunk, stream') = stream_receive (target - length received) stream in
        if chunk = [] then (received, stream') else qemu_receive target (received @ chunk) stream'
      else (received, stream))"
  by pat_completeness auto

termination by (relation "measure (\<lambda>(target, received, stream). target - length received)")
  (auto simp: stream_receive_def min_def length_greater_0_conv [symmetric] simp del: length_greater_0_conv)

declare qemu_receive.simps [simp del]

definition player_service_qemu_pcm_provider ::
    "bool \<Rightarrow> int \<Rightarrow> pl_state \<Rightarrow> int \<times> bytes option \<times> pl_state" where
  "player_service_qemu_pcm_provider data len s =
     (if \<not> data \<or> len \<le> 0 then (0, None, s)
      else case pl_pcm_stream s of None \<Rightarrow> (len, Some (replicate (nat len) 0), s)
      | Some stream \<Rightarrow>
          if pl_paused s \<or> \<not> pl_playing s then (len, Some (replicate (nat len) 0), s)
          else
            let (received, stream') = qemu_receive (nat len) [] stream in
            (len, Some (player_service_apply_volume (pl_volume_level s) received @
                        replicate (nat len - length received) 0),
             s\<lparr>pl_pcm_stream := Some stream'\<rparr>))"

section \<open>The service as a machine\<close>

text \<open>What the reader and the decoder tasks do to the statics of the service: receiving their
  commands, becoming idle, resolving the bounds of a chunk, taking a chunk whose CRC is right.\<close>

definition reader_receive :: "pl_state \<Rightarrow> pl_state" where
  "reader_receive s =
     (case pl_reader_cmd_queue s of None \<Rightarrow> s
      | Some _ \<Rightarrow> s\<lparr>pl_reader_cmd_queue := None, pl_reader_idle := False\<rparr>)"

definition decoder_receive :: "pl_state \<Rightarrow> pl_state" where
  "decoder_receive s =
     (case pl_decoder_cmd_queue s of None \<Rightarrow> s
      | Some _ \<Rightarrow> s\<lparr>pl_decoder_cmd_queue := None, pl_decoder_idle := False\<rparr>)"

definition reader_bounds :: "pl_env \<Rightarrow> u32 \<Rightarrow> nat \<Rightarrow> pl_state \<Rightarrow> pl_state" where
  "reader_bounds env generation chunk_index s =
     (let stop = player_service_should_stop generation s in
      s\<lparr>pl_track_info := snd (snd (player_service_get_chunk_bounds (pe_fs env) (pl_cart s) stop stop
             chunk_index (pl_track_info s)))\<rparr>)"

definition decoder_chunk :: "nat \<Rightarrow> bool \<Rightarrow> pl_state \<Rightarrow> pl_state" where
  "decoder_chunk chunk_index crc_ok s =
     (let s1 = s\<lparr>pl_current_chunk := chunk_index\<rparr> in
      if crc_ok \<and> player_service_should_restart_current_track s1
      then player_service_post_countable_track_event s1 else s1)"

datatype pl_op =
    PlInit pl_init_env
  | PlTask pl_env
  | PlCartridge cart_op
  | PlCartridgeEvent cartridge_event
  | PlControl player_service_control
  | PlPlayIndex u32
  | PlSeek u32
  | PlVolume u8
  | PlMode "nat \<Rightarrow> u32" "player_service_playback_mode option"
  | PlShutdown pl_env bool
  | PlPcm int
  | PlReaderReceive
  | PlReaderBounds pl_env u32 nat
  | PlReaderIdle
  | PlDecoderReceive
  | PlDecoderChunk nat bool
  | PlDecoderIdle
  | PlTrackComplete u32

fun pl_step :: "(bytes \<Rightarrow> u32) \<Rightarrow> string \<Rightarrow> pl_state \<Rightarrow> pl_op \<Rightarrow> pl_state" where
  "pl_step crc mp s (PlInit i) = snd (player_service_init i s)"
| "pl_step crc mp s (PlTask env) = player_service_task env s"
| "pl_step crc mp s (PlCartridge a) = s\<lparr>pl_cart := cart_step crc mp (pl_cart s) a\<rparr>"
| "pl_step crc mp s (PlCartridgeEvent ev) = player_service_on_cartridge_event ev s"
| "pl_step crc mp s (PlControl control) = snd (player_service_request_control control s)"
| "pl_step crc mp s (PlPlayIndex i) = snd (player_service_play_track_by_index i s)"
| "pl_step crc mp s (PlSeek sec) = snd (player_service_seek_to_seconds sec s)"
| "pl_step crc mp s (PlVolume v) = player_service_set_volume_absolute v s"
| "pl_step crc mp s (PlMode rnd m) = snd (player_service_set_playback_mode rnd m s)"
| "pl_step crc mp s (PlShutdown env in_time) = snd (player_service_shutdown_callback env in_time s)"
| "pl_step crc mp s (PlPcm len) = snd (snd (player_service_pcm_provider True len s))"
| "pl_step crc mp s PlReaderReceive = reader_receive s"
| "pl_step crc mp s (PlReaderBounds env g k) = reader_bounds env g k s"
| "pl_step crc mp s PlReaderIdle = s\<lparr>pl_reader_idle := True\<rparr>"
| "pl_step crc mp s PlDecoderReceive = decoder_receive s"
| "pl_step crc mp s (PlDecoderChunk k ok) = decoder_chunk k ok s"
| "pl_step crc mp s PlDecoderIdle = s\<lparr>pl_decoder_idle := True\<rparr>"
| "pl_step crc mp s (PlTrackComplete g) = snd (player_service_queue_track_complete g s)"

section \<open>The invariant\<close>

definition track_info_ok :: "player_service_track_info \<Rightarrow> bool" where
  "track_info_ok info \<longleftrightarrow> window_ok info \<and>
     (ti_filename info \<noteq> '''' \<longrightarrow> 0 < ti_lookup_table_len info) \<and>
     (0 < ti_lookup_table_len info \<longrightarrow>
        JBA_HEADER_BYTES + ti_lookup_table_len info * 4 \<le> ti_data_offset info \<and>
        ti_data_offset info < ti_total_file_size info \<and>
        ti_lookup_table_len info \<le> PLAYER_SVC_MAX_LOOKUP_ENTRIES)"

definition playlist_inv :: "pl_state \<Rightarrow> bool" where
  "playlist_inv s \<longleftrightarrow>
     pl_playlist_count s \<le> JUKEBOY_MAX_TRACK_FILES \<and>
     length (pl_shuffle_order_storage s) = JUKEBOY_MAX_TRACK_FILES \<and>
     (pl_shuffle_order s \<longleftrightarrow> 0 < pl_playlist_count s) \<and>
     (0 < pl_playlist_count s \<longrightarrow>
        mset (shuffle_list s) = mset [0..<pl_playlist_count s] \<and>
        pl_playlist_index s < pl_playlist_count s \<and>
        (pl_shuffle_position s = SIZE_MAX \<or> pl_shuffle_position s < pl_playlist_count s))"

definition position_inv :: "pl_state \<Rightarrow> bool" where
  "position_inv s \<longleftrightarrow>
     track_info_ok (pl_track_info s) \<and>
     (0 < ti_lookup_table_len (pl_track_info s) \<longrightarrow> pl_resume_chunk s < ti_lookup_table_len (pl_track_info s)) \<and>
     (\<forall>r. pl_reader_cmd_queue s = Some r \<longrightarrow> rc_generation r = pl_active_generation s \<and>
        rc_start_chunk r < ti_lookup_table_len (pl_track_info s)) \<and>
     (pl_playing s \<or> pl_paused s \<longrightarrow> 0 < pl_playlist_count s) \<and>
     (pl_playing s \<longrightarrow> 0 < ti_lookup_table_len (pl_track_info s))"

definition queue_inv :: "pl_state \<Rightarrow> bool" where
  "queue_inv s \<longleftrightarrow> pl_volume_level s < PLAYER_SVC_VOLUME_LEVEL_COUNT \<and>
     (\<forall>q. pl_cmd_queue s = Some q \<longrightarrow> length q \<le> PLAYER_SVC_QUEUE_DEPTH) \<and>
     (pl_initialised s \<longrightarrow> pl_cmd_queue s \<noteq> None)"

definition pl_inv :: "string \<Rightarrow> pl_state \<Rightarrow> bool" where
  "pl_inv mp s \<longleftrightarrow> cart_inv (pl_cart s) \<and> cart_io_inv mp (pl_cart s) \<and>
     playlist_inv s \<and> position_inv s \<and> queue_inv s"

lemmas pl_inv_defs = pl_inv_def playlist_inv_def position_inv_def queue_inv_def shuffle_list_def

text \<open>The statics the invariant does not mention.\<close>

lemma pl_inv_frame [simp]:
  "pl_inv mp (s\<lparr>pl_current_chunk := a1\<rparr>) = pl_inv mp s"
  "pl_inv mp (s\<lparr>pl_current_track := a2\<rparr>) = pl_inv mp s"
  "pl_inv mp (s\<lparr>pl_stop_requested := a3\<rparr>) = pl_inv mp s"
  "pl_inv mp (s\<lparr>pl_cancelled_generation := a4\<rparr>) = pl_inv mp s"
  "pl_inv mp (s\<lparr>pl_playback_mode := a5\<rparr>) = pl_inv mp s"
  "pl_inv mp (s\<lparr>pl_countable_play_emitted := a6\<rparr>) = pl_inv mp s"
  "pl_inv mp (s\<lparr>pl_track_started_unix := a7\<rparr>) = pl_inv mp s"
  "pl_inv mp (s\<lparr>pl_resume_rtc_magic := a8\<rparr>) = pl_inv mp s"
  "pl_inv mp (s\<lparr>pl_resume_rtc_state := a9\<rparr>) = pl_inv mp s"
  "pl_inv mp (s\<lparr>pl_decoder_cmd_queue := b1\<rparr>) = pl_inv mp s"
  "pl_inv mp (s\<lparr>pl_chunk_queue := b2\<rparr>) = pl_inv mp s"
  "pl_inv mp (s\<lparr>pl_buf_pool_sem := b3\<rparr>) = pl_inv mp s"
  "pl_inv mp (s\<lparr>pl_pcm_stream := b4\<rparr>) = pl_inv mp s"
  "pl_inv mp (s\<lparr>pl_reader_idle := b5\<rparr>) = pl_inv mp s"
  "pl_inv mp (s\<lparr>pl_decoder_idle := b6\<rparr>) = pl_inv mp s"
  "pl_inv mp (s\<lparr>pl_events := b7\<rparr>) = pl_inv mp s"
  "pl_inv mp (s\<lparr>pl_nvs_ops := b8\<rparr>) = pl_inv mp s"
  "pl_inv mp (s\<lparr>pl_persist_result := b9\<rparr>) = pl_inv mp s"
  by (simp_all add: pl_inv_defs)

text \<open>The shapes of the operations that change a few statics.\<close>

lemma cache_status_form:
  obtains m st where "player_service_cache_current_playback_status s =
    s\<lparr>pl_resume_rtc_magic := m, pl_resume_rtc_state := st\<rparr>"
proof (cases "player_service_build_resume_state s")
  case None
  then have "player_service_cache_current_playback_status s =
    s\<lparr>pl_resume_rtc_magic := pl_resume_rtc_magic s, pl_resume_rtc_state := pl_resume_rtc_state s\<rparr>"
    by (simp add: player_service_cache_current_playback_status_def)
  then show ?thesis by (rule that)
next
  case (Some st)
  then have "player_service_cache_current_playback_status s =
    s\<lparr>pl_resume_rtc_magic := PLAYER_SVC_RESUME_RTC_MAGIC, pl_resume_rtc_state := st\<rparr>"
    by (simp add: player_service_cache_current_playback_status_def player_service_cache_rtc_playback_status_def)
  then show ?thesis by (rule that)
qed

lemma sync_shuffle_form:
  obtains p where "sync_shuffle_position i s = s\<lparr>pl_shuffle_position := p\<rparr>"
    "p = pl_shuffle_position s \<or> p < pl_playlist_count s"
proof (cases "find_slot (\<lambda>x. x = i) (take (pl_playlist_count s) (pl_shuffle_order_storage s))")
  case None
  then show ?thesis using that [of "pl_shuffle_position s"] by (simp add: sync_shuffle_position_def)
next
  case (Some p)
  then have p: "p < pl_playlist_count s" using find_slot_SomeD [OF Some] by simp
  show ?thesis
  proof (cases "pl_playback_mode s = PLAYER_SVC_MODE_SHUFFLE \<and> pl_shuffle_order s")
    case True
    with Some have "sync_shuffle_position i s = s\<lparr>pl_shuffle_position := p\<rparr>"
      by (simp add: sync_shuffle_position_def)
    with p show ?thesis by (intro that) blast+
  next
    case False
    then have "sync_shuffle_position i s = s\<lparr>pl_shuffle_position := pl_shuffle_position s\<rparr>"
      by (auto simp: sync_shuffle_position_def)
    then show ?thesis by (intro that) blast+
  qed
qed

lemma post_event_pl_inv [simp]: "pl_inv mp (player_service_post_event ev s) = pl_inv mp s"
  by (simp add: player_service_post_event_def)

lemma cache_status_inv [simp]: "pl_inv mp (player_service_cache_current_playback_status s) = pl_inv mp s"
  by (rule cache_status_form [of s]) simp

lemma no_reader_cmd_inv: "pl_inv mp s \<Longrightarrow> pl_inv mp (s\<lparr>pl_reader_cmd_queue := None\<rparr>)"
  unfolding pl_inv_defs by simp

lemma reset_pipeline_inv: "pl_inv mp s \<Longrightarrow> pl_inv mp (player_service_reset_pipeline s)"
  unfolding player_service_reset_pipeline_def by (simp add: no_reader_cmd_inv)

lemma stop_playback_inv: "pl_inv mp s \<Longrightarrow> pl_inv mp (player_service_stop_playback env b s)"
  by (auto simp: player_service_stop_playback_def Let_def player_service_wait_for_playback_stop_def
      intro!: reset_pipeline_inv)

lemma free_track_info_ok [simp]: "track_info_ok track_info_zero"
  "track_info_ok (player_service_invalidate_lookup_window track_info_zero)"
  by (simp_all add: track_info_ok_def) (simp_all add: track_info_zero_def window_ok_def)

lemma zero_len [simp]: "ti_lookup_table_len track_info_zero = 0"
  by (simp add: track_info_zero_def)

lemma invalidate_ok [simp]:
  "track_info_ok info \<Longrightarrow> track_info_ok (player_service_invalidate_lookup_window info)"
  by (simp add: track_info_ok_def)

section \<open>Loading keeps the invariants\<close>

lemma read_file_inv:
  assumes "cart_inv c \<and> cart_io_inv mp c"
  shows "cart_inv (snd (player_read_file fs f off c)) \<and> cart_io_inv mp (snd (player_read_file fs f off c))"
proof -
  let ?c1 = "foldl (cart_step (\<lambda>_. 0) mp) c [CartReadAsync (Some f) off True]"
  let ?c2 = "foldl (cart_step (\<lambda>_. 0) mp) c [CartReadAsync (Some f) off True, CartReaderTask fs]"
  have "snd (player_read_file fs f off c) = ?c1 \<or> snd (player_read_file fs f off c) = ?c2"
    by (auto simp: player_read_file_def Let_def split: prod.split)
  then show ?thesis using cart.run_inv [OF assms] by metis
qed

lemma load_track_info_cart:
  "snd (player_service_load_track_info fs stat f c) = snd (player_read_file fs f 0 c)"
  by (auto simp: player_service_load_track_info_def Let_def split: prod.split sum.split option.split)

lemma load_track_info_ok:
  assumes "player_service_load_track_info fs stat f c = (Inr info, c')"
  shows "track_info_ok info" and "0 < ti_lookup_table_len info"
    and "ti_filename info = take (PLAYER_SVC_MAX_TRACK_FILENAME_LEN - 1) f"
    and "ti_lookup_window_entry_count info = 0"
proof -
  obtain err buf where "player_read_file fs f 0 c = (Inr (err, buf), c')"
    using assms by (auto simp: player_service_load_track_info_def Let_def
        split: prod.splits sum.splits option.splits if_splits)
  then show "track_info_ok info" and "0 < ti_lookup_table_len info"
    and "ti_filename info = take (PLAYER_SVC_MAX_TRACK_FILENAME_LEN - 1) f"
    and "ti_lookup_window_entry_count info = 0"
    using assms by (auto simp: player_service_load_track_info_def Let_def track_info_ok_def
        split: option.splits if_splits)
qed

lemma ensure_cases:
  assumes "player_service_ensure_track_loaded env i s = (e, s')" and "pl_inv mp s"
  obtains c where "e \<noteq> ESP_OK" "s' = s\<lparr>pl_cart := c\<rparr>" "cart_inv c \<and> cart_io_inv mp c"
  | info c where "e = ESP_OK" "i < pl_playlist_count s" "s' = s\<lparr>pl_track_info := info, pl_cart := c\<rparr>"
    "track_info_ok info" "0 < ti_lookup_table_len info" "cart_inv c \<and> cart_io_inv mp c"
proof -
  have c: "cart_inv (pl_cart s) \<and> cart_io_inv mp (pl_cart s)" and ti: "track_info_ok (pl_track_info s)"
    using assms(2) by (simp_all add: pl_inv_def position_inv_def)
  show ?thesis
  proof (cases "player_service_playlist_filename i PLAYER_SVC_MAX_TRACK_FILENAME_LEN s")
    case None
    then show ?thesis
      using assms(1) c by (intro that(1) [of "pl_cart s"])
        (auto simp: player_service_ensure_track_loaded_def split: if_splits)
  next
    case (Some f)
    then have i: "i < pl_playlist_count s"
      by (simp add: player_service_playlist_filename_def split: if_splits)
    show ?thesis
    proof (cases "ti_filename (pl_track_info s) \<noteq> '''' \<and> ti_filename (pl_track_info s) = f")
      case True
      then show ?thesis
        using assms(1) Some i c ti by (intro that(2) [where info = "pl_track_info s" and c = "pl_cart s"])
          (auto simp: player_service_ensure_track_loaded_def track_info_ok_def)
    next
      case False
      obtain r c' where l: "player_service_load_track_info (pe_fs env) (pe_stat env) f (pl_cart s) = (r, c')"
        by fastforce
      have c': "cart_inv c' \<and> cart_io_inv mp c'"
        using read_file_inv [OF c, of "pe_fs env" f 0] load_track_info_cart [of "pe_fs env" "pe_stat env" f "pl_cart s"] l
        by simp
      note step = assms(1) [unfolded player_service_ensure_track_loaded_def] Some i False l
      show ?thesis
      proof (cases r)
        case (Inl err)
        have err: "err \<noteq> ESP_OK"
          using l Inl by (auto simp: player_service_load_track_info_def player_read_file_def Let_def
              split: prod.splits sum.splits option.splits if_splits)
        have "e = err" "s' = s\<lparr>pl_cart := c'\<rparr>" using step Inl by auto
        with err c' show ?thesis by (intro that(1)) auto
      next
        case (Inr info)
        note info = load_track_info_ok(1,2) [OF l [unfolded Inr]]
        have "e = ESP_OK" "s' = s\<lparr>pl_track_info := info, pl_cart := c'\<rparr>"
          using step Inr by (auto simp: player_service_free_track_info_def)
        with info c' i show ?thesis by (intro that(2))
      qed
    qed
  qed
qed

lemma clamp_less [simp]:
  "0 < ti_lookup_table_len info \<Longrightarrow> player_service_clamp_chunk_index info k < ti_lookup_table_len info"
  by (simp add: player_service_clamp_chunk_index_def)

lemma cart_update_inv: "pl_inv mp s \<Longrightarrow> cart_inv c \<and> cart_io_inv mp c \<Longrightarrow> pl_inv mp (s\<lparr>pl_cart := c\<rparr>)"
  unfolding pl_inv_defs by simp

text \<open>The forms of a start and of a restore: a failure leaves the statics of the player, a success
  ends with both commands queued.\<close>

lemma begin_track_fields:
  "pl_cart (begin_track env i k s) = pl_cart s"
  "pl_initialised (begin_track env i k s) = pl_initialised s"
  "pl_playing (begin_track env i k s)" "\<not> pl_paused (begin_track env i k s)"
  "pl_playlist_count (begin_track env i k s) = pl_playlist_count s"
  "pl_playlist_index (begin_track env i k s) = i"
  "pl_resume_chunk (begin_track env i k s) = k" "pl_current_chunk (begin_track env i k s) = k"
  "pl_track_info (begin_track env i k s) = pl_track_info s"
  "\<not> pl_stop_requested (begin_track env i k s)"
  "pl_active_generation (begin_track env i k s) = bump_nonzero (pl_active_generation s)"
  "pl_cancelled_generation (begin_track env i k s) = pl_cancelled_generation s"
  "pl_volume_level (begin_track env i k s) = pl_volume_level s"
  "pl_playback_mode (begin_track env i k s) = pl_playback_mode s"
  "pl_shuffle_order (begin_track env i k s) = pl_shuffle_order s"
  "pl_shuffle_order_storage (begin_track env i k s) = pl_shuffle_order_storage s"
  "pl_shuffle_position (begin_track env i k s) = pl_shuffle_position s \<or>
     pl_shuffle_position (begin_track env i k s) < pl_playlist_count s"
  "pl_cmd_queue (begin_track env i k s) = pl_cmd_queue s"
  "pl_reader_cmd_queue (begin_track env i k s) = None" "pl_decoder_cmd_queue (begin_track env i k s) = None"
  "pl_resume_rtc_magic (begin_track env i k s) = pl_resume_rtc_magic s"
  "pl_resume_rtc_state (begin_track env i k s) = pl_resume_rtc_state s"
  "pl_events (begin_track env i k s) = pl_events s"
  "pl_nvs_ops (begin_track env i k s) = pl_nvs_ops s"
  "pl_reader_idle (begin_track env i k s) = pl_reader_idle s"
  "pl_decoder_idle (begin_track env i k s) = pl_decoder_idle s"
  by (simp_all add: begin_track_def Let_def player_service_reset_pipeline_def sync_shuffle_position_def
      split: option.split) (auto dest: find_slot_SomeD)

definition queue_start_cmds :: "nat \<Rightarrow> pl_state \<Rightarrow> pl_state" where
  "queue_start_cmds k s = s\<lparr>pl_decoder_cmd_queue := Some (pl_active_generation s),
     pl_reader_cmd_queue := Some \<lparr>rc_generation = pl_active_generation s, rc_start_chunk = k\<rparr>\<rparr>"

lemma start_track_form:
  assumes "i < pl_playlist_count s" and "player_service_pipeline_idle s"
    and "player_service_ensure_track_loaded env i s = (ESP_OK, s1)"
    and "k = player_service_clamp_chunk_index (pl_track_info s1) k0"
    and "u = player_service_cache_current_playback_status (queue_start_cmds k (begin_track env i k s1))"
  shows "player_service_start_track env i k0 s = (ESP_OK,
     player_service_post_event (PLAYER_SVC_EVENT_TRACK_STARTED (player_service_fill_current_track_event u)) u)"
  using assms
  by (simp add: player_service_start_track_def Let_def begin_track_fields queue_start_cmds_def not_le)

lemma start_track_refused:
  "i \<ge> pl_playlist_count s \<or> \<not> player_service_pipeline_idle s \<Longrightarrow>
     \<exists>e. e \<noteq> ESP_OK \<and> player_service_start_track env i k0 s = (e, s)"
  by (cases "i \<ge> pl_playlist_count s") (simp_all add: player_service_start_track_def)

lemma start_track_not_loaded:
  "i < pl_playlist_count s \<Longrightarrow> player_service_pipeline_idle s \<Longrightarrow>
     player_service_ensure_track_loaded env i s = (e, s1) \<Longrightarrow> e \<noteq> ESP_OK \<Longrightarrow>
     player_service_start_track env i k0 s = (e, s1)"
  by (simp add: player_service_start_track_def)

lemma start_track_fails:
  assumes "player_service_start_track env i k0 s = (e, s')" and "e \<noteq> ESP_OK" and "pl_inv mp s"
  obtains c where "s' = s\<lparr>pl_cart := c\<rparr>" "cart_inv c \<and> cart_io_inv mp c"
proof (cases "i \<ge> pl_playlist_count s \<or> \<not> player_service_pipeline_idle s")
  case True
  from start_track_refused [OF this, of env k0] assms show ?thesis
    by (intro that [of "pl_cart s"]) (auto simp: pl_inv_def)
next
  case False
  obtain e1 s1 where en: "player_service_ensure_track_loaded env i s = (e1, s1)" by fastforce
  from en assms(3) show ?thesis
  proof (cases rule: ensure_cases)
    case (1 c)
    with False start_track_not_loaded [OF _ _ en 1(1), of k0] assms(1) show ?thesis
      by (intro that [of c]) auto
  next
    case (2 info c)
    with False en start_track_form [of i s env s1 _ k0 _] have "e = ESP_OK"
      using assms(1) by auto
    with assms(2) show ?thesis by simp
  qed
qed

lemma begun_inv:
  assumes "pl_inv mp s" and "i < pl_playlist_count s" and "track_info_ok info"
    and "0 < ti_lookup_table_len info" and "cart_inv c \<and> cart_io_inv mp c"
    and "k < ti_lookup_table_len info"
  shows "pl_inv mp (queue_start_cmds k (begin_track env i k (s\<lparr>pl_track_info := info, pl_cart := c\<rparr>)))"
  using assms begin_track_fields(17) [of env i k "s\<lparr>pl_track_info := info, pl_cart := c\<rparr>"]
  unfolding pl_inv_defs queue_start_cmds_def by (auto simp: begin_track_fields)

lemma start_track_inv:
  assumes "pl_inv mp s"
  shows "pl_inv mp (snd (player_service_start_track env i k0 s))"
proof -
  obtain e s' where st: "player_service_start_track env i k0 s = (e, s')" by fastforce
  show ?thesis
  proof (cases "e = ESP_OK")
    case False
    from start_track_fails [OF st this assms] obtain c where "s' = s\<lparr>pl_cart := c\<rparr>"
      "cart_inv c \<and> cart_io_inv mp c" .
    with st assms show ?thesis by (simp add: cart_update_inv)
  next
    case ok: True
    obtain s1 where i: "i < pl_playlist_count s" "player_service_pipeline_idle s"
      and en: "player_service_ensure_track_loaded env i s = (ESP_OK, s1)"
      using st ok by (auto simp: player_service_start_track_def split: if_splits prod.splits)
    obtain info c where l: "s1 = s\<lparr>pl_track_info := info, pl_cart := c\<rparr>"
      "track_info_ok info" "0 < ti_lookup_table_len info" "cart_inv c \<and> cart_io_inv mp c"
      using en assms by (cases rule: ensure_cases) auto
    show ?thesis
      unfolding start_track_form [OF i en refl refl] using assms i l by (simp add: begun_inv)
  qed
qed

lemma begin_paused_fields:
  "pl_cart (begin_paused env i k s) = pl_cart s"
  "pl_initialised (begin_paused env i k s) = pl_initialised s"
  "pl_playing (begin_paused env i k s)" "pl_paused (begin_paused env i k s)"
  "pl_playlist_count (begin_paused env i k s) = pl_playlist_count s"
  "pl_playlist_index (begin_paused env i k s) = i"
  "pl_resume_chunk (begin_paused env i k s) = k"
  "pl_track_info (begin_paused env i k s) = pl_track_info s"
  "pl_active_generation (begin_paused env i k s) = pl_active_generation s"
  "pl_volume_level (begin_paused env i k s) = pl_volume_level s"
  "pl_shuffle_order (begin_paused env i k s) = pl_shuffle_order s"
  "pl_shuffle_order_storage (begin_paused env i k s) = pl_shuffle_order_storage s"
  "pl_shuffle_position (begin_paused env i k s) = pl_shuffle_position s \<or>
     pl_shuffle_position (begin_paused env i k s) < pl_playlist_count s"
  "pl_cmd_queue (begin_paused env i k s) = pl_cmd_queue s"
  "pl_reader_cmd_queue (begin_paused env i k s) = None"
  by (simp_all add: begin_paused_def Let_def player_service_reset_pipeline_def sync_shuffle_position_def
      split: option.split) (auto dest: find_slot_SomeD)

lemma restored_inv:
  assumes "pl_inv mp s" and "i < pl_playlist_count s" and "track_info_ok info"
    and "0 < ti_lookup_table_len info" and "cart_inv c \<and> cart_io_inv mp c"
    and "k < ti_lookup_table_len info"
  shows "pl_inv mp (begin_paused env i k (s\<lparr>pl_track_info := info, pl_cart := c\<rparr>))"
  using assms begin_paused_fields(13) [of env i k "s\<lparr>pl_track_info := info, pl_cart := c\<rparr>"]
  unfolding pl_inv_defs by (auto simp: begin_paused_fields)

lemma restore_paused_track_inv:
  assumes "pl_inv mp s"
  shows "pl_inv mp (snd (player_service_restore_paused_track env i k0 s))"
proof (cases "i \<ge> pl_playlist_count s \<or> \<not> player_service_pipeline_idle s")
  case True
  with assms show ?thesis
    by (cases "i \<ge> pl_playlist_count s") (simp_all add: player_service_restore_paused_track_def)
next
  case False
  obtain e s1 where en: "player_service_ensure_track_loaded env i s = (e, s1)" by fastforce
  from en assms show ?thesis
  proof (cases rule: ensure_cases)
    case (1 c)
    with False en assms show ?thesis
      by (simp add: player_service_restore_paused_track_def cart_update_inv)
  next
    case (2 info c)
    with False en assms show ?thesis
      by (simp add: player_service_restore_paused_track_def Let_def restored_inv)
  qed
qed

lemma not_playing_inv: "pl_inv mp s \<Longrightarrow> pl_inv mp (s\<lparr>pl_playing := False\<rparr>)"
  unfolding pl_inv_defs by simp

lemma playing_unless_failed_inv: "pl_inv mp (snd r) \<Longrightarrow> pl_inv mp (playing_unless_failed r)"
  by (simp add: playing_unless_failed_def not_playing_inv)

section \<open>The saved status and the playlist keep the invariant\<close>

lemma nvs_call_inv: "nvs_call env a s = (e, s') \<Longrightarrow> pl_inv mp s' = pl_inv mp s"
  by (auto simp: nvs_call_def)

lemma clear_rtc_inv [simp]: "pl_inv mp (player_service_clear_rtc_playback_status s) = pl_inv mp s"
  by (simp add: player_service_clear_rtc_playback_status_def)

lemma cache_rtc_inv [simp]: "pl_inv mp (player_service_cache_rtc_playback_status st s) = pl_inv mp s"
  by (simp add: player_service_cache_rtc_playback_status_def split: option.split)

lemma erase_saved_inv [simp]:
  "pl_inv mp (snd (player_service_erase_saved_playback_status_locked env s)) = pl_inv mp s"
  by (simp add: player_service_erase_saved_playback_status_locked_def nvs_call_def)

lemma clear_saved_inv [simp]:
  "pl_inv mp (player_service_clear_saved_playback_status env s) = pl_inv mp s"
  by (simp add: player_service_clear_saved_playback_status_def nvs_call_def)

lemma persist_inv [simp]:
  "pl_inv mp (snd (player_service_persist_current_playback_status env s)) = pl_inv mp s"
  by (simp add: player_service_persist_current_playback_status_def player_service_write_playback_status_def
      nvs_call_def split: option.split)

lemma load_nvs_inv [simp]: "pl_inv mp (snd (load_nvs_playback_status env m s)) = pl_inv mp s"
  by (simp add: load_nvs_playback_status_def nvs_call_def discard_nvs_status_def Let_def split: option.split)

lemma load_saved_inv [simp]:
  "pl_inv mp (snd (player_service_load_saved_playback_status env s)) = pl_inv mp s"
  by (simp add: player_service_load_saved_playback_status_def Let_def split: option.split)

text \<open>The rules that follow let the handlers be read step by step.\<close>

lemma free_playlist_storage:
  "length xs = n \<Longrightarrow> k \<le> n \<Longrightarrow> length (replicate k (0::nat) @ drop k xs) = n"
  by simp

lemma removed_inv:
  assumes "pl_inv mp s"
  shows "pl_inv mp (player_service_handle_cartridge_removed env s)"
proof -
  have "pl_inv mp (player_service_stop_playback env True s)" by (rule stop_playback_inv [OF assms])
  moreover have "pl_reader_cmd_queue (player_service_stop_playback env True s) = None"
    by (simp add: player_service_stop_playback_def player_service_wait_for_playback_stop_def
        player_service_reset_pipeline_def Let_def)
  ultimately show ?thesis
    unfolding player_service_handle_cartridge_removed_def player_service_free_playlist_def
      player_service_free_track_info_def pl_inv_defs by simp
qed

lemma build_shuffle_fields:
  "pl_cart (player_service_build_shuffle_order rnd s) = pl_cart s"
  "pl_initialised (player_service_build_shuffle_order rnd s) = pl_initialised s"
  "pl_playing (player_service_build_shuffle_order rnd s) = pl_playing s"
  "pl_paused (player_service_build_shuffle_order rnd s) = pl_paused s"
  "pl_playlist_count (player_service_build_shuffle_order rnd s) = pl_playlist_count s"
  "pl_playlist_index (player_service_build_shuffle_order rnd s) = pl_playlist_index s"
  "pl_resume_chunk (player_service_build_shuffle_order rnd s) = pl_resume_chunk s"
  "pl_track_info (player_service_build_shuffle_order rnd s) = pl_track_info s"
  "pl_active_generation (player_service_build_shuffle_order rnd s) = pl_active_generation s"
  "pl_volume_level (player_service_build_shuffle_order rnd s) = pl_volume_level s"
  "pl_playback_mode (player_service_build_shuffle_order rnd s) = pl_playback_mode s"
  "pl_shuffle_order (player_service_build_shuffle_order rnd s) = pl_shuffle_order s"
  "pl_shuffle_position (player_service_build_shuffle_order rnd s) = pl_shuffle_position s"
  "pl_cmd_queue (player_service_build_shuffle_order rnd s) = pl_cmd_queue s"
  "pl_reader_cmd_queue (player_service_build_shuffle_order rnd s) = pl_reader_cmd_queue s"
  "\<not> pl_shuffle_order s \<Longrightarrow> player_service_build_shuffle_order rnd s = s"
  by (simp_all add: player_service_build_shuffle_order_def Let_def)

lemma set_playback_mode_inv:
  assumes "pl_inv mp s"
  shows "pl_inv mp (snd (player_service_set_playback_mode rnd m s))"
proof (cases "m = Some PLAYER_SVC_MODE_SHUFFLE")
  case True
  let ?s = "s\<lparr>pl_playback_mode := PLAYER_SVC_MODE_SHUFFLE, pl_shuffle_position := SIZE_MAX\<rparr>"
  have eq: "snd (player_service_set_playback_mode rnd m s) = player_service_build_shuffle_order rnd ?s"
    using True by (simp add: player_service_set_playback_mode_def Let_def)
  have p: "playlist_inv s" using assms by (simp add: pl_inv_def)
  have "playlist_inv (player_service_build_shuffle_order rnd ?s)"
  proof (cases "pl_shuffle_order s")
    case True
    with p have "0 < pl_playlist_count ?s" "pl_playlist_count ?s \<le> length (pl_shuffle_order_storage ?s)"
      "pl_shuffle_order ?s" by (simp_all add: playlist_inv_def)
    note b = build_shuffle_order [OF this(3,1,2)]
    show ?thesis using p b(1,3) by (simp add: playlist_inv_def build_shuffle_fields)
  qed (use p in \<open>simp add: build_shuffle_fields(16) playlist_inv_def\<close>)
  with assms show ?thesis
    unfolding eq by (simp add: pl_inv_def position_inv_def queue_inv_def build_shuffle_fields)
next
  case False
  with assms show ?thesis
    by (simp add: player_service_set_playback_mode_def Let_def split: option.split)
qed

lemma scan_playlist_inv:
  assumes "pl_inv mp s" and "\<not> pl_playing s" and "\<not> pl_paused s" and "pl_reader_cmd_queue s = None"
  shows "pl_inv mp (player_service_scan_playlist env s)"
proof -
  let ?n = "cartridge_service_get_metadata_track_count (pl_cart s)"
  let ?f = "(player_service_free_playlist s)\<lparr>pl_playlist_index := 0\<rparr>"
  have f: "pl_inv mp ?f"
    using assms unfolding player_service_free_playlist_def pl_inv_defs by simp
  show ?thesis
  proof (cases "?n = 0 \<or> ?n > JUKEBOY_MAX_TRACK_FILES")
    case True
    with f show ?thesis by (auto simp: player_service_scan_playlist_def Let_def)
  next
    case False
    let ?s1 = "?f\<lparr>pl_shuffle_order_storage := replicate JUKEBOY_MAX_TRACK_FILES 0,
                   pl_playlist_count := ?n, pl_shuffle_order := True\<rparr>"
    have "pl_shuffle_order ?s1" "0 < pl_playlist_count ?s1"
      "pl_playlist_count ?s1 \<le> length (pl_shuffle_order_storage ?s1)" using False by simp_all
    note b = build_shuffle_order [OF this, of "pe_random env"]
    have eq: "player_service_scan_playlist env s = player_service_post_event (PLAYER_SVC_EVENT_PLAYLIST_READY ?n)
        ((player_service_build_shuffle_order (pe_random env) ?s1)\<lparr>pl_shuffle_position := SIZE_MAX\<rparr>)"
      using False by (simp add: player_service_scan_playlist_def Let_def)
    have "playlist_inv ((player_service_build_shuffle_order (pe_random env) ?s1)\<lparr>pl_shuffle_position := SIZE_MAX\<rparr>)"
      using False b(1,3) by (simp add: playlist_inv_def shuffle_list_def build_shuffle_fields)
    moreover have "position_inv ?f" "queue_inv ?f" "cart_inv (pl_cart s)" "cart_io_inv mp (pl_cart s)"
      using f assms(1) by (simp_all add: pl_inv_def)
    ultimately show ?thesis
      unfolding eq post_event_pl_inv using assms(2-4)
      by (simp add: pl_inv_def position_inv_def queue_inv_def build_shuffle_fields
          player_service_free_playlist_def)
  qed
qed

section \<open>Choosing the next track\<close>

lemma shuffle_at:
  assumes "playlist_inv s" and "k < pl_playlist_count s"
  shows "pl_shuffle_order_storage s ! k = shuffle_list s ! k"
    and "pl_shuffle_order_storage s ! k < pl_playlist_count s"
proof -
  show *: "pl_shuffle_order_storage s ! k = shuffle_list s ! k"
    using assms by (simp add: shuffle_list_def)
  have "mset (shuffle_list s) = mset [0..<pl_playlist_count s]"
    using assms by (auto simp: playlist_inv_def)
  note p = mset_upt_iff [OF this]
  then have "shuffle_list s ! k \<in> {0..<pl_playlist_count s}"
    using assms(2) by (metis nth_mem)
  with * show "pl_shuffle_order_storage s ! k < pl_playlist_count s" by simp
qed

lemma move_position_inv:
  "pl_inv mp s \<Longrightarrow> p < pl_playlist_count s \<Longrightarrow> pl_inv mp (s\<lparr>pl_shuffle_position := p\<rparr>)"
  unfolding pl_inv_defs by simp

lemma next_index_spec:
  assumes "pl_inv mp s" and "0 < pl_playlist_count s"
  obtains i s' where "player_service_next_index env manual s = (Some i, s')" "i < pl_playlist_count s"
    "pl_inv mp s'" "s' = s\<lparr>pl_shuffle_position := pl_shuffle_position s'\<rparr>"
proof -
  have p: "playlist_inv s" "pl_shuffle_order s" "pl_playlist_index s < pl_playlist_count s"
    using assms by (simp_all add: pl_inv_def playlist_inv_def)
  have seq: "sequential_next s < pl_playlist_count s"
    using assms(2) by (simp add: sequential_next_def)
  show ?thesis
  proof (cases "pl_playback_mode s = PLAYER_SVC_MODE_SHUFFLE \<and> pl_playlist_count s \<noteq> 1")
    case True
    let ?q = "if pl_shuffle_position s = SIZE_MAX \<or> pl_shuffle_position s + 1 \<ge> pl_playlist_count s then 0
              else pl_shuffle_position s + 1"
    have q: "?q < pl_playlist_count s" using assms(2) by simp
    show ?thesis
    proof (rule that)
      show "player_service_next_index env manual s =
          (Some (pl_shuffle_order_storage s ! ?q), s\<lparr>pl_shuffle_position := ?q\<rparr>)"
        using True p(2) assms(2) by (simp add: player_service_next_index_def Let_def)
      show "pl_shuffle_order_storage s ! ?q < pl_playlist_count s" by (rule shuffle_at(2) [OF p(1) q])
      show "pl_inv mp (s\<lparr>pl_shuffle_position := ?q\<rparr>)" by (rule move_position_inv [OF assms(1) q])
    qed simp
  next
    case False
    then obtain i where "player_service_next_index env manual s = (Some i, s)" "i < pl_playlist_count s"
      using assms(2) seq p(3)
      by (cases "pl_playback_mode s") (auto simp: player_service_next_index_def)
    with assms(1) show ?thesis by (intro that) auto
  qed
qed

lemma prev_index_spec:
  assumes "pl_inv mp s" and "0 < pl_playlist_count s"
  shows "pl_inv mp (snd (player_service_prev_index s))"
    and "fst (player_service_prev_index s) < pl_playlist_count s"
proof -
  have p: "playlist_inv s" "pl_playlist_index s < pl_playlist_count s"
    "pl_shuffle_position s = SIZE_MAX \<or> pl_shuffle_position s < pl_playlist_count s"
    using assms by (simp_all add: pl_inv_def playlist_inv_def)
  let ?q = "if pl_shuffle_position s = SIZE_MAX \<or> pl_shuffle_position s = 0
            then pl_playlist_count s - 1 else pl_shuffle_position s - 1"
  have q: "?q < pl_playlist_count s" using assms(2) p(3) by auto
  from move_position_inv [OF assms(1) q] assms(1)
  show "pl_inv mp (snd (player_service_prev_index s))"
    by (simp add: player_service_prev_index_def Let_def)
  from shuffle_at(2) [OF p(1) q] assms(2) p(2)
  show "fst (player_service_prev_index s) < pl_playlist_count s"
    by (simp add: player_service_prev_index_def Let_def) linarith
qed

section \<open>Every step keeps the invariant\<close>

lemma not_paused_inv: "pl_inv mp s \<Longrightarrow> pl_inv mp (s\<lparr>pl_paused := False\<rparr>)"
  unfolding pl_inv_defs by simp

lemma stop_playback_fields [simp]:
  "pl_playing (player_service_stop_playback env b s) = pl_playing s"
  "pl_paused (player_service_stop_playback env b s) = pl_paused s"
  "pl_playlist_count (player_service_stop_playback env b s) = pl_playlist_count s"
  "pl_playlist_index (player_service_stop_playback env b s) = pl_playlist_index s"
  "pl_resume_chunk (player_service_stop_playback env b s) = pl_resume_chunk s"
  "pl_current_chunk (player_service_stop_playback env b s) = pl_current_chunk s"
  "pl_track_info (player_service_stop_playback env b s) = pl_track_info s"
  "pl_cart (player_service_stop_playback env b s) = pl_cart s"
  "pl_reader_cmd_queue (player_service_stop_playback env b s) = None"
  "pl_decoder_cmd_queue (player_service_stop_playback env b s) = None"
  "pl_nvs_ops (player_service_stop_playback env b s) = pl_nvs_ops s"
  "pl_resume_rtc_magic (player_service_stop_playback env b s) = pl_resume_rtc_magic s"
  "pl_resume_rtc_state (player_service_stop_playback env b s) = pl_resume_rtc_state s"
  by (simp_all add: player_service_stop_playback_def player_service_wait_for_playback_stop_def
      player_service_reset_pipeline_def Let_def)

lemma start_step_inv:
  "pl_inv mp s \<Longrightarrow> pl_inv mp (playing_unless_failed (player_service_start_track env i k s))"
  by (intro playing_unless_failed_inv start_track_inv)

lemma restart_step_inv:
  "pl_inv mp s \<Longrightarrow>
     pl_inv mp (playing_unless_failed (player_service_start_track env i k (player_service_stop_playback env b s)))"
  by (intro start_step_inv stop_playback_inv)

lemma inserted_inv:
  assumes "pl_inv mp s0"
  shows "pl_inv mp (player_service_handle_cartridge_inserted env s0)"
proof -
  let ?s = "(player_service_free_track_info (player_service_stop_playback env True s0))
                \<lparr>pl_paused := False, pl_playing := False, pl_track_started_unix := 0, pl_current_track := []\<rparr>"
  have s: "pl_inv mp ?s"
    using stop_playback_inv [OF assms, of env True] unfolding player_service_free_track_info_def pl_inv_defs by simp
  have s1: "pl_inv mp (player_service_scan_playlist env ?s)"
    by (rule scan_playlist_inv [OF s]) (simp_all add: player_service_free_track_info_def)
  obtain saved s2 where l: "player_service_load_saved_playback_status env (player_service_scan_playlist env ?s) = (saved, s2)"
    by fastforce
  then have s2: "pl_inv mp s2" using load_saved_inv [of mp env "player_service_scan_playlist env ?s"] s1 by simp
  obtain i k b where r: "(case saved of None \<Rightarrow> (0, 0, False) | Some r \<Rightarrow> r) = (i, k, b)" by (metis prod_cases3)
  have "pl_inv mp (playing_unless_failed (if b then player_service_restore_paused_track env i k s2
             else player_service_start_track env i k s2))"
    using s2 by (auto intro: playing_unless_failed_inv start_track_inv restore_paused_track_inv)
  with s s1 l r show ?thesis
    unfolding player_service_handle_cartridge_inserted_def Let_def
    by (simp add: not_playing_inv)
qed

lemma track_complete_inv:
  assumes "pl_inv mp s"
  shows "pl_inv mp (player_service_handle_track_complete env g s)"
proof -
  let ?s1 = "if pl_playing s then player_service_post_event
      (PLAYER_SVC_EVENT_TRACK_FINISHED (player_service_fill_current_track_event s)) s else s"
  have s1: "pl_inv mp ?s1" using assms by simp
  show ?thesis
  proof (cases "g = pl_cancelled_generation s \<or> g \<noteq> pl_active_generation s \<or> pl_playlist_count ?s1 = 0")
    case True
    with assms s1 show ?thesis
      by (auto simp: player_service_handle_track_complete_def Let_def not_playing_inv)
  next
    case False
    then have "0 < pl_playlist_count ?s1" by simp
    from next_index_spec [OF s1 this] obtain i s2 where
      n: "player_service_next_index env False ?s1 = (Some i, s2)" "pl_inv mp s2" by metis
    have "player_service_handle_track_complete env g s =
        playing_unless_failed (player_service_start_track env i 0 s2)"
      unfolding player_service_handle_track_complete_def Let_def n(1) using False by simp
    with n(2) show ?thesis by (simp add: start_step_inv)
  qed
qed

lemma seek_to_chunk_inv:
  assumes "pl_inv mp s" and "k < ti_lookup_table_len (pl_track_info s)"
  shows "pl_inv mp (seek_to_chunk env k s)"
proof -
  let ?s1 = "s\<lparr>pl_resume_chunk := k, pl_track_info := player_service_invalidate_lookup_window (pl_track_info s)\<rparr>"
  have "pl_inv mp ?s1" using assms unfolding pl_inv_defs by simp
  then show ?thesis by (auto simp: seek_to_chunk_def Let_def restart_step_inv)
qed

lemma seek_target_less:
  "0 < ti_lookup_table_len (pl_track_info s) \<Longrightarrow>
     player_service_get_seek_target forward s < ti_lookup_table_len (pl_track_info s)"
  using clamp_less [of "pl_track_info s" "if pl_paused s then pl_resume_chunk s else pl_current_chunk s"]
  unfolding player_service_get_seek_target_def Let_def by (auto intro: less_imp_diff_less)

lemma pause_inv:
  assumes "pl_inv mp s"
  shows "pl_inv mp (handle_pause env s)"
proof -
  let ?s1 = "s\<lparr>pl_resume_chunk := player_service_clamp_chunk_index (pl_track_info s) (pl_current_chunk s)\<rparr>"
  have "pl_inv mp ?s1" using assms unfolding pl_inv_defs by simp
  then have "pl_inv mp (player_service_stop_playback env True ?s1)" by (rule stop_playback_inv)
  moreover have "pl_playing s \<Longrightarrow> 0 < pl_playlist_count s"
    using assms by (simp add: pl_inv_def position_inv_def)
  ultimately have "pl_playing s \<Longrightarrow> pl_inv mp ((player_service_stop_playback env True ?s1)\<lparr>pl_paused := True\<rparr>)"
    unfolding pl_inv_defs by simp
  with assms show ?thesis by (simp add: handle_pause_def Let_def start_step_inv)
qed

lemma handle_control_inv:
  assumes "pl_inv mp s"
  shows "pl_inv mp (player_service_handle_control env control s)"
proof (cases control)
  case PLAYER_SVC_CONTROL_NEXT
  show ?thesis
  proof (cases "pl_playlist_count s = 0")
    case False
    then have "0 < pl_playlist_count s" by simp
    from next_index_spec [OF assms this] obtain i s' where
      n: "player_service_next_index env True s = (Some i, s')" "pl_inv mp s'" by metis
    with False PLAYER_SVC_CONTROL_NEXT show ?thesis
      by (simp add: handle_next_def restart_step_inv not_paused_inv)
  qed (use assms PLAYER_SVC_CONTROL_NEXT in \<open>simp add: handle_next_def\<close>)
next
  case PLAYER_SVC_CONTROL_PREVIOUS
  let ?s1 = "player_service_stop_playback env True (s\<lparr>pl_paused := False\<rparr>)"
  have s1: "pl_inv mp ?s1" by (intro stop_playback_inv not_paused_inv assms)
  have "0 < pl_playlist_count s \<Longrightarrow> pl_inv mp (snd (player_service_prev_index ?s1))"
    by (rule prev_index_spec(1) [OF s1]) simp
  with s1 assms PLAYER_SVC_CONTROL_PREVIOUS show ?thesis
    by (simp add: handle_previous_def Let_def start_step_inv case_prod_beta)
next
  case PLAYER_SVC_CONTROL_PAUSE
  with assms show ?thesis by (simp add: pause_inv)
qed (use assms in \<open>simp_all add: handle_seek_control_def seek_to_chunk_inv seek_target_less Let_def\<close>,
     use assms in \<open>auto simp: pl_inv_defs\<close>)

lemma persist_step_inv:
  "pl_inv mp s \<Longrightarrow> pl_inv mp (handle_message env PLAYER_SVC_CMD_PERSIST_FOR_SHUTDOWN s)"
  using persist_inv [of mp env s] by (simp add: case_prod_beta)

lemma handle_message_inv:
  assumes "pl_inv mp s"
  shows "pl_inv mp (handle_message env msg s)"
proof (cases msg)
  case (PLAYER_SVC_CMD_PLAY_INDEX i)
  with assms show ?thesis
    by (simp add: player_service_handle_play_index_def restart_step_inv not_paused_inv)
next
  case (PLAYER_SVC_CMD_SEEK_ABSOLUTE sec)
  with assms show ?thesis
    by (simp add: player_service_handle_seek_absolute_def Let_def seek_to_chunk_inv)
next
  case PLAYER_SVC_CMD_PERSIST_FOR_SHUTDOWN
  with persist_step_inv [OF assms] show ?thesis by simp
qed (simp_all add: assms inserted_inv removed_inv track_complete_inv handle_control_inv)

lemma pop_inv: "pl_inv mp s \<Longrightarrow> pl_cmd_queue s = Some (m # q) \<Longrightarrow> pl_inv mp (s\<lparr>pl_cmd_queue := Some q\<rparr>)"
  unfolding pl_inv_defs by simp

lemma task_inv: "pl_inv mp s \<Longrightarrow> pl_inv mp (player_service_task env s)"
  by (auto simp: player_service_task_def intro!: handle_message_inv pop_inv split: option.split list.split)

lemma send_inv: "pl_inv mp s \<Longrightarrow> pl_inv mp (snd (pl_queue_send msg s))"
  unfolding pl_queue_send_def pl_inv_defs by (auto split: option.split)

lemma queue_step_inv:
  assumes "pl_inv mp s"
  shows "pl_inv mp (player_service_on_cartridge_event ev s)"
    and "pl_inv mp (snd (player_service_request_control control s))"
    and "pl_inv mp (snd (player_service_play_track_by_index i s))"
    and "pl_inv mp (snd (player_service_seek_to_seconds sec s))"
    and "pl_inv mp (snd (player_service_queue_track_complete g s))"
  using assms by (auto simp: player_service_on_cartridge_event_def player_service_queue_cmd_def
      player_service_request_control_def player_service_queue_control_def case_prod_beta
      player_service_play_track_by_index_def player_service_queue_play_index_def
      player_service_seek_to_seconds_def player_service_queue_seek_absolute_def
      player_service_queue_track_complete_def intro!: send_inv)

lemma task_run_inv: "pl_inv mp s \<Longrightarrow> pl_inv mp ((player_service_task env ^^ n) s)"
  by (induction n) (auto intro: task_inv)

lemma shutdown_inv:
  "pl_inv mp s \<Longrightarrow> pl_inv mp (snd (player_service_shutdown_callback env in_time s))"
  by (auto simp: player_service_shutdown_callback_def player_service_queue_cmd_def
      case_prod_beta Let_def intro!: send_inv task_run_inv)

lemma volume_level_of_avrc_less: "volume_level_of_avrc v < PLAYER_SVC_VOLUME_LEVEL_COUNT"
  by (simp add: volume_level_of_avrc_def Let_def PLAYER_SVC_VOLUME_LEVEL_COUNT_def)

lemma volume_step_inv: "pl_inv mp s \<Longrightarrow> pl_inv mp (player_service_set_volume_absolute v s)"
  unfolding player_service_set_volume_absolute_def pl_inv_defs by (simp add: volume_level_of_avrc_less)

lemma pcm_step_inv: "pl_inv mp s \<Longrightarrow> pl_inv mp (snd (snd (player_service_pcm_provider b len s)))"
  by (auto simp: player_service_pcm_provider_def stream_receive_def split: option.split)

lemma init_step_inv: "pl_inv mp s \<Longrightarrow> pl_inv mp (snd (player_service_init i s))"
proof -
  assume inv: "pl_inv mp s"
  have q: "pl_inv mp (s\<lparr>pl_cmd_queue := (if b then Some [] else None), pl_reader_cmd_queue := None\<rparr>)"
    if "\<not> pl_initialised s" for b
    using inv that unfolding pl_inv_defs by simp
  have i: "pl_inv mp (s\<lparr>pl_cmd_queue := Some [], pl_reader_cmd_queue := None, pl_initialised := True\<rparr>)"
    using inv unfolding pl_inv_defs by simp
  let ?s1 = "s\<lparr>pl_pcm_stream := (if ii_pcm_stream i then Some [] else None), pl_chunk_queue := [],
                   pl_buf_pool_sem := PLAYER_SVC_CHUNK_BUF_COUNT,
                   pl_cmd_queue := (if ii_cmd_queue i then Some [] else None),
                   pl_reader_cmd_queue := None, pl_decoder_cmd_queue := None\<rparr>"
  have s1: "pl_inv mp ?s1" if "\<not> pl_initialised s"
    using q [OF that, of "ii_cmd_queue i"] by (simp add: pl_inv_defs)
  have s3: "pl_inv mp (?s1\<lparr>pl_reader_idle := True, pl_decoder_idle := True, pl_initialised := True\<rparr>)"
    if "ii_cmd_queue i"
    using i that by (simp add: pl_inv_defs)
  show ?thesis
    using inv s1 s3 unfolding player_service_init_def Let_def
    by (auto simp: player_service_queue_cmd_def intro!: send_inv)
qed

lemma reader_bounds_inv:
  assumes "pl_inv mp s"
  shows "pl_inv mp (reader_bounds env g k s)"
proof -
  let ?st = "player_service_should_stop g s"
  obtain e r info where b: "player_service_get_chunk_bounds (pe_fs env) (pl_cart s) ?st ?st k (pl_track_info s) = (e, r, info)"
    by (metis prod_cases3)
  note f = get_chunk_bounds_fields [OF b]
  have "track_info_ok (pl_track_info s)" using assms by (simp add: pl_inv_def position_inv_def)
  then have "track_info_ok info" using f by (simp add: track_info_ok_def)
  with assms f(2) show ?thesis
    by (simp add: reader_bounds_def b) (simp add: pl_inv_defs)
qed

lemma decoder_chunk_inv: "pl_inv mp s \<Longrightarrow> pl_inv mp (decoder_chunk k ok s)"
  by (simp add: decoder_chunk_def Let_def player_service_post_countable_track_event_def split: option.split)

lemma cartridge_step_inv:
  assumes "pl_inv mp s"
  shows "pl_inv mp (s\<lparr>pl_cart := cart_step crc mp (pl_cart s) a\<rparr>)"
  using assms cart.step_inv [of "pl_cart s" mp crc a] by (intro cart_update_inv) (auto simp: pl_inv_def)

lemma pl_step_inv: "pl_inv mp s \<Longrightarrow> pl_inv mp (pl_step crc mp s a)"
  by (cases a) (auto simp: init_step_inv task_inv cartridge_step_inv queue_step_inv volume_step_inv
      set_playback_mode_inv shutdown_inv pcm_step_inv reader_bounds_inv decoder_chunk_inv
      reader_receive_def decoder_receive_def no_reader_cmd_inv split: option.split)

interpretation pl_machine: event_machine "pl_step crc mp" "pl_inv mp"
  for crc mp
  by unfold_locales (rule pl_step_inv)

lemma pl_boot_inv:
  assumes "cart_inv c" and "cart_io_inv mp c"
  shows "pl_inv mp (pl_boot c magic st)"
  using assms unfolding pl_inv_defs pl_boot_def
  by (simp add: PLAYER_SVC_DEFAULT_VOLUME_LEVEL_def PLAYER_SVC_VOLUME_LEVEL_COUNT_def)

end
