(* ===== verification/Player_Props.thy ===== *)
theory Player_Props
  imports Player
begin

text \<open>
  What the player promises over whole runs of its task: the invariant of every operation, rounds of the
  whole playlist in shuffle mode, an interrupted track that cannot start the next one, and the saved
  position that the next boot resumes.
\<close>

lemma cancelled_after_start:
  assumes "player_service_start_track env i k s = (e, s')" and "pl_inv mp s"
  shows "pl_cancelled_generation s' = pl_cancelled_generation s"
proof (cases "e = ESP_OK")
  case False
  then show ?thesis using start_track_fails [OF assms(1) _ assms(2)] by fastforce
next
  case ok: True
  obtain s1 where i: "i < pl_playlist_count s" "player_service_pipeline_idle s"
    and en: "player_service_ensure_track_loaded env i s = (ESP_OK, s1)"
    using assms ok by (auto simp: player_service_start_track_def split: if_splits prod.splits)
  from en assms(2) have s1: "pl_cancelled_generation s1 = pl_cancelled_generation s"
    by (cases rule: ensure_cases) auto
  let ?q = "queue_start_cmds (player_service_clamp_chunk_index (pl_track_info s1) k)
      (begin_track env i (player_service_clamp_chunk_index (pl_track_info s1) k) s1)"
  obtain m st where "player_service_cache_current_playback_status ?q =
      ?q\<lparr>pl_resume_rtc_magic := m, pl_resume_rtc_state := st\<rparr>" by (rule cache_status_form)
  then show ?thesis
    using start_track_form [OF i en refl refl] assms(1) s1
    by (auto simp: player_service_post_event_def queue_start_cmds_def begin_track_fields)
qed

lemma playing_unless_failed_cancelled [simp]:
  "pl_cancelled_generation (playing_unless_failed r) = pl_cancelled_generation (snd r)"
  by (simp add: playing_unless_failed_def)

lemma cancelled_after_start_step:
  "pl_inv mp s \<Longrightarrow> pl_cancelled_generation (snd (player_service_start_track env i k s)) =
     pl_cancelled_generation s"
  using cancelled_after_start [of env i k s "fst (player_service_start_track env i k s)"
      "snd (player_service_start_track env i k s)" mp]
  by simp

lemma begin_paused_cancelled: "pl_cancelled_generation (begin_paused env i k s) = pl_cancelled_generation s"
  by (simp add: begin_paused_def Let_def player_service_reset_pipeline_def sync_shuffle_position_def
      split: option.split)

lemma cache_status_cancelled:
  "pl_cancelled_generation (player_service_cache_current_playback_status s) = pl_cancelled_generation s"
  by (rule cache_status_form [of s]) simp

lemma cancelled_after_restore:
  assumes "pl_inv mp s"
  shows "pl_cancelled_generation (snd (player_service_restore_paused_track env i k s)) = pl_cancelled_generation s"
proof (cases "i \<ge> pl_playlist_count s \<or> \<not> player_service_pipeline_idle s")
  case True
  then show ?thesis
    by (cases "i \<ge> pl_playlist_count s") (simp_all add: player_service_restore_paused_track_def)
next
  case False
  obtain e s1 where en: "player_service_ensure_track_loaded env i s = (e, s1)" by fastforce
  from en assms have "pl_cancelled_generation s1 = pl_cancelled_generation s"
    by (cases rule: ensure_cases) auto
  with False en show ?thesis
    by (simp add: player_service_restore_paused_track_def Let_def begin_paused_cancelled cache_status_cancelled)
qed

lemma stop_cancels:
  "\<not> player_service_pipeline_idle s \<Longrightarrow>
     pl_cancelled_generation (player_service_stop_playback env True s) = pl_active_generation s"
  by (simp add: player_service_stop_playback_def player_service_wait_for_playback_stop_def
      player_service_reset_pipeline_def Let_def)

lemma load_saved_cancelled:
  "pl_cancelled_generation (snd (player_service_load_saved_playback_status env s)) = pl_cancelled_generation s"
  by (simp add: player_service_load_saved_playback_status_def load_nvs_playback_status_def nvs_call_def
      discard_nvs_status_def Let_def player_service_cache_rtc_playback_status_def
      player_service_clear_rtc_playback_status_def player_service_clear_saved_playback_status_def
      player_service_erase_saved_playback_status_locked_def split: option.split)

lemma scan_cancelled:
  "pl_cancelled_generation (player_service_scan_playlist env s) = pl_cancelled_generation s"
  by (simp add: player_service_scan_playlist_def player_service_free_playlist_def Let_def
      player_service_post_event_def player_service_build_shuffle_order_def)

text \<open>The messages whose handler stops a running pipeline.\<close>

definition stops_playback :: "player_service_msg \<Rightarrow> pl_state \<Rightarrow> bool" where
  "stops_playback msg s \<longleftrightarrow>
     (case msg of
        PLAYER_SVC_CMD_CARTRIDGE_INSERTED \<Rightarrow> True
      | PLAYER_SVC_CMD_CARTRIDGE_REMOVED \<Rightarrow> True
      | PLAYER_SVC_CMD_CONTROL PLAYER_SVC_CONTROL_NEXT \<Rightarrow> 0 < pl_playlist_count s
      | PLAYER_SVC_CMD_CONTROL PLAYER_SVC_CONTROL_PREVIOUS \<Rightarrow> 0 < pl_playlist_count s
      | PLAYER_SVC_CMD_CONTROL PLAYER_SVC_CONTROL_PAUSE \<Rightarrow> pl_playing s \<and> \<not> pl_paused s
      | PLAYER_SVC_CMD_PLAY_INDEX i \<Rightarrow> unat i < pl_playlist_count s
      | _ \<Rightarrow> False)"

lemma idle_paused_irrelevant [simp]:
  "player_service_pipeline_idle (s\<lparr>pl_paused := b\<rparr>) = player_service_pipeline_idle s"
  "player_service_pipeline_idle (s\<lparr>pl_shuffle_position := p\<rparr>) = player_service_pipeline_idle s"
  "player_service_pipeline_idle (s\<lparr>pl_resume_chunk := k\<rparr>) = player_service_pipeline_idle s"
  by (simp_all add: player_service_pipeline_idle_def)

lemma inserted_cancels:
  assumes "pl_inv mp s0" and "\<not> player_service_pipeline_idle s0"
  shows "pl_cancelled_generation (player_service_handle_cartridge_inserted env s0) = pl_active_generation s0"
proof -
  let ?s = "(player_service_free_track_info (player_service_stop_playback env True s0))
                \<lparr>pl_paused := False, pl_playing := False, pl_track_started_unix := 0, pl_current_track := []\<rparr>"
  have s: "pl_inv mp ?s"
    using stop_playback_inv [OF assms(1), of env True] unfolding player_service_free_track_info_def pl_inv_defs by simp
  have c: "pl_cancelled_generation ?s = pl_active_generation s0"
    using stop_cancels [OF assms(2)] by (simp add: player_service_free_track_info_def)
  have s1: "pl_inv mp (player_service_scan_playlist env ?s)"
    by (rule scan_playlist_inv [OF s]) (simp_all add: player_service_free_track_info_def)
  obtain saved s2 where l: "player_service_load_saved_playback_status env (player_service_scan_playlist env ?s) = (saved, s2)"
    by fastforce
  then have s2: "pl_inv mp s2" "pl_cancelled_generation s2 = pl_active_generation s0"
    using load_saved_inv [of mp env "player_service_scan_playlist env ?s"] s1
      load_saved_cancelled [of env "player_service_scan_playlist env ?s"] c by (simp_all add: scan_cancelled)
  obtain i k b where r: "(case saved of None \<Rightarrow> (0, 0, False) | Some r \<Rightarrow> r) = (i, k, b)" by (metis prod_cases3)
  have "pl_cancelled_generation (playing_unless_failed (if b then player_service_restore_paused_track env i k s2
             else player_service_start_track env i k s2)) = pl_active_generation s0"
    using s2 cancelled_after_start_step [OF s2(1)] cancelled_after_restore [OF s2(1)]
    by simp
  with c l r show ?thesis
    unfolding player_service_handle_cartridge_inserted_def Let_def by (simp add: scan_cancelled)
qed

lemma stopped_cancels:
  assumes "pl_inv mp s" and "\<not> player_service_pipeline_idle s" and "stops_playback msg s"
  shows "pl_cancelled_generation (handle_message env msg s) = pl_active_generation s"
proof (cases msg)
  case PLAYER_SVC_CMD_CARTRIDGE_INSERTED
  with inserted_cancels [OF assms(1,2)] show ?thesis by simp
next
  case PLAYER_SVC_CMD_CARTRIDGE_REMOVED
  with stop_cancels [OF assms(2)] show ?thesis
    by (simp add: player_service_handle_cartridge_removed_def player_service_free_playlist_def
        player_service_free_track_info_def)
next
  case (PLAYER_SVC_CMD_PLAY_INDEX i)
  have "pl_inv mp (player_service_stop_playback env True (s\<lparr>pl_paused := False\<rparr>))"
    by (intro stop_playback_inv not_paused_inv assms(1))
  from cancelled_after_start_step [OF this] stop_cancels [of "s\<lparr>pl_paused := False\<rparr>"] assms(2,3)
  show ?thesis
    unfolding PLAYER_SVC_CMD_PLAY_INDEX
    by (simp add: player_service_handle_play_index_def stops_playback_def PLAYER_SVC_CMD_PLAY_INDEX)
next
  case (PLAYER_SVC_CMD_CONTROL c)
  have c: "c = PLAYER_SVC_CONTROL_NEXT \<and> 0 < pl_playlist_count s \<or>
      c = PLAYER_SVC_CONTROL_PREVIOUS \<and> 0 < pl_playlist_count s \<or>
      c = PLAYER_SVC_CONTROL_PAUSE \<and> pl_playing s \<and> \<not> pl_paused s"
    using assms(3) PLAYER_SVC_CMD_CONTROL by (cases c) (simp_all add: stops_playback_def)
  then show ?thesis
  proof (elim disjE conjE)
    assume n: "c = PLAYER_SVC_CONTROL_NEXT" "0 < pl_playlist_count s"
    obtain i s' where ni: "player_service_next_index env True s = (Some i, s')" "pl_inv mp s'"
      "s' = s\<lparr>pl_shuffle_position := pl_shuffle_position s'\<rparr>"
      using next_index_spec [OF assms(1) n(2)] by metis
    have "\<not> player_service_pipeline_idle (s'\<lparr>pl_paused := False\<rparr>)" "pl_active_generation s' = pl_active_generation s"
      using assms(2) by (subst ni(3), simp)+
    moreover have "pl_inv mp (player_service_stop_playback env True (s'\<lparr>pl_paused := False\<rparr>))"
      by (intro stop_playback_inv not_paused_inv ni(2))
    ultimately show ?thesis
      using n ni(1) stop_cancels [of "s'\<lparr>pl_paused := False\<rparr>"]
      by (simp add: PLAYER_SVC_CMD_CONTROL handle_next_def cancelled_after_start_step)
  next
    assume p: "c = PLAYER_SVC_CONTROL_PREVIOUS" "0 < pl_playlist_count s"
    let ?s1 = "player_service_stop_playback env True (s\<lparr>pl_paused := False\<rparr>)"
    have s1: "pl_inv mp ?s1" by (intro stop_playback_inv not_paused_inv assms(1))
    have "pl_inv mp (snd (player_service_prev_index ?s1))" by (rule prev_index_spec(1) [OF s1]) (simp add: p(2))
    moreover have "pl_cancelled_generation (snd (player_service_prev_index ?s1)) = pl_cancelled_generation ?s1"
      by (simp add: player_service_prev_index_def Let_def)
    ultimately show ?thesis
      using p s1 stop_cancels [of "s\<lparr>pl_paused := False\<rparr>"] assms(2)
      by (simp add: PLAYER_SVC_CMD_CONTROL handle_previous_def Let_def case_prod_beta cancelled_after_start_step)
  next
    assume p: "c = PLAYER_SVC_CONTROL_PAUSE" "pl_playing s" "\<not> pl_paused s"
    let ?s1 = "s\<lparr>pl_resume_chunk := player_service_clamp_chunk_index (pl_track_info s) (pl_current_chunk s)\<rparr>"
    from p assms(2) stop_cancels [of ?s1 env] show ?thesis
      by (simp add: PLAYER_SVC_CMD_CONTROL handle_pause_def Let_def player_service_post_event_def
          cache_status_cancelled)
  qed
qed (use assms(3) in \<open>simp_all add: stops_playback_def\<close>)

section \<open>Playing in shuffled order\<close>

lemma sync_at_position:
  assumes "playlist_inv s" and "p < pl_playlist_count s" and "pl_shuffle_position s = p"
    and "i = pl_shuffle_order_storage s ! p"
  shows "sync_shuffle_position i s = s"
proof -
  have "mset (shuffle_list s) = mset [0..<pl_playlist_count s]"
    using assms(1,2) by (auto simp: playlist_inv_def)
  then have d: "distinct (shuffle_list s)" "length (shuffle_list s) = pl_playlist_count s"
    using mset_upt_iff by blast+
  have i: "shuffle_list s ! p = i" using shuffle_at(1) [OF assms(1,2)] assms(4) by simp
  have "find_slot (\<lambda>x. x = i) (shuffle_list s) = Some p"
  proof -
    obtain q where q: "find_slot (\<lambda>x. x = i) (shuffle_list s) = Some q"
      using find_slot_exists [of p "shuffle_list s" "\<lambda>x. x = i"] i d(2) assms(2) by auto
    from find_slot_SomeD [OF q] have "shuffle_list s ! q = shuffle_list s ! p" "q < length (shuffle_list s)"
      using i by auto
    then have "q = p" using d assms(2) by (simp add: nth_eq_iff_index_eq)
    with q show ?thesis by simp
  qed
  then show ?thesis
    using assms(3) by (auto simp: sync_shuffle_position_def shuffle_list_def)
qed

lemma next_pick_shuffle:
  assumes "playlist_inv s" and "1 < pl_playlist_count s" and "pl_playback_mode s = PLAYER_SVC_MODE_SHUFFLE"
    and "p = (if pl_shuffle_position s = SIZE_MAX \<or> pl_shuffle_position s + 1 \<ge> pl_playlist_count s then 0
              else pl_shuffle_position s + 1)"
    and "i = pl_shuffle_order_storage s ! p"
  shows "player_service_next_index env manual s = (Some i, s\<lparr>pl_shuffle_position := p\<rparr>)"
    and "sync_shuffle_position i (s\<lparr>pl_shuffle_position := p, pl_playlist_index := i\<rparr>) =
      s\<lparr>pl_shuffle_position := p, pl_playlist_index := i\<rparr>"
    and "playlist_inv (s\<lparr>pl_shuffle_position := p, pl_playlist_index := i\<rparr>)"
    and "p < pl_playlist_count s"
proof -
  have o: "pl_shuffle_order s" using assms(1,2) by (simp add: playlist_inv_def)
  show p: "p < pl_playlist_count s" using assms(2,4) by auto
  show "player_service_next_index env manual s = (Some i, s\<lparr>pl_shuffle_position := p\<rparr>)"
    using assms(2-5) o by (simp add: player_service_next_index_def Let_def)
  have i: "i < pl_playlist_count s" using shuffle_at(2) [OF assms(1) p] assms(5) by simp
  show inv: "playlist_inv (s\<lparr>pl_shuffle_position := p, pl_playlist_index := i\<rparr>)"
    using assms(1) p i by (simp add: playlist_inv_def shuffle_list_def)
  show "sync_shuffle_position i (s\<lparr>pl_shuffle_position := p, pl_playlist_index := i\<rparr>) =
      s\<lparr>pl_shuffle_position := p, pl_playlist_index := i\<rparr>"
    by (rule sync_at_position [OF inv, of p]) (use p assms(5) in simp_all)
qed





















section \<open>Properties\<close>

text \<open>C10: In every reachable state of the player, whatever the cartridge, the drivers, the tasks
  and the callers do, the playlist index is in range, the shuffled order is a permutation of the
  playlist, the command queue and the volume are in bounds, a queued read starts inside the
  loaded track, whose lookup table lies in its header, and playing needs a loaded track.\<close>

theorem player_always_consistent:
  "pl_inv mp (foldl (pl_step crc mp) (pl_boot cart_boot magic st) ops)"
  by (rule pl_machine.run_inv [OF pl_boot_inv]) (use cart_boot_inv in auto)


text \<open>In particular, when no start fails, a round of the order plays every track once, and the next round
  plays them again in the same order.\<close>

lemma full_round:
  assumes "list_all2 (\<lambda>r j. r \<in> {None, Some (order ! (j mod N))}) rs [0..<length rs]"
    and "None \<notin> set rs" and "length rs = k * N" and "length order = N"
  shows "map the rs = concat (replicate k order)"
proof -
  have i: "the (rs ! j) = order ! (j mod N)" if "j < length rs" for j
  proof -
    have "rs ! j \<in> {None, Some (order ! (j mod N))}" using assms(1) that by (auto simp: list_all2_conv_all_nth)
    moreover have "rs ! j \<noteq> None" using assms(2) that by (metis nth_mem)
    ultimately show ?thesis by auto
  qed
  have "concat (replicate k order) ! j = order ! (j mod N)" if "j < k * N" for j
    using that assms(4)
  proof (induction k arbitrary: j)
    case (Suc k)
    then show ?case by (cases "j < N") (auto simp: nth_append le_mod_geq)
  qed simp
  moreover have "length (concat (replicate k order)) = k * N" by (simp add: length_concat sum_list_replicate assms(4))
  ultimately show ?thesis using assms(3) i by (intro nth_equalityI) auto
qed

text \<open>C12: A command that stops a running track makes its completion message harmless: whatever
  the command started instead, handling the completion of the old track changes nothing, so the
  playlist does not advance twice.\<close>

theorem player_interrupted_completion_ignored:
  assumes "pl_inv mp s" and "\<not> player_service_pipeline_idle s" and "stops_playback msg s"
  shows "handle_message env' (PLAYER_SVC_CMD_TRACK_COMPLETE (pl_active_generation s)) (handle_message env msg s) =
     handle_message env msg s"
  by (simp add: player_service_handle_track_complete_def stopped_cancels [OF assms])

text \<open>Going to the next track and then to the previous one leads back to the track that was
  playing, in every mode, with wrap-around at both ends of the playlist.\<close>

theorem player_previous_undoes_next:
  assumes "pl_inv mp s" and "0 < pl_playlist_count s"
    and "pl_playback_mode s = PLAYER_SVC_MODE_SHUFFLE \<Longrightarrow>
       pl_shuffle_position s < pl_playlist_count s \<and>
       pl_shuffle_order_storage s ! pl_shuffle_position s = pl_playlist_index s"
    and "player_service_next_index env True s = (Some i, s1)"
  shows "fst (player_service_prev_index (sync_shuffle_position i (s1\<lparr>pl_playlist_index := i\<rparr>))) =
     pl_playlist_index s"
proof -
  have inv: "playlist_inv s" "pl_playlist_index s < pl_playlist_count s"
    using assms(1,2) by (simp_all add: pl_inv_def playlist_inv_def)
  have N: "pl_playlist_count s \<le> 999" using inv(1) by (simp add: playlist_inv_def JUKEBOY_MAX_TRACK_FILES_def)
  show ?thesis
  proof (cases "pl_playback_mode s = PLAYER_SVC_MODE_SHUFFLE \<and> 1 < pl_playlist_count s")
    case True
    let ?k = "pl_shuffle_position s"
    have k: "?k < pl_playlist_count s" "pl_shuffle_order_storage s ! ?k = pl_playlist_index s"
      using assms(3) True by auto
    have k_max: "?k \<noteq> SIZE_MAX" using k(1) N by (simp add: SIZE_MAX_def)
    define p where "p = (if ?k = SIZE_MAX \<or> ?k + 1 \<ge> pl_playlist_count s then 0 else ?k + 1)"
    note n = next_pick_shuffle [OF inv(1) _ _ p_def refl]
    have s1: "i = pl_shuffle_order_storage s ! p" "s1 = s\<lparr>pl_shuffle_position := p\<rparr>"
      using n(1) [of env True] True assms(4) by simp_all
    have wrap: "(if p = SIZE_MAX \<or> p = 0 then pl_playlist_count s - 1 else p - 1) = ?k"
      using k k_max N by (auto simp: p_def SIZE_MAX_def)
    have "pl_shuffle_order s" using inv(1) assms(2) by (simp add: playlist_inv_def)
    then have "fst (player_service_prev_index (s\<lparr>pl_shuffle_position := p, pl_playlist_index := i\<rparr>)) =
        pl_shuffle_order_storage s ! (if p = SIZE_MAX \<or> p = 0 then pl_playlist_count s - 1 else p - 1)"
      using True by (simp add: player_service_prev_index_def Let_def)
    then have "fst (player_service_prev_index (s\<lparr>pl_shuffle_position := p, pl_playlist_index := i\<rparr>)) =
        pl_playlist_index s"
      unfolding wrap k(2) .
    with n(2) True s1 show ?thesis by simp
  next
    case False
    then have i: "s1 = s" "i = (if pl_playlist_index s + 1 < pl_playlist_count s then pl_playlist_index s + 1 else 0)"
      using assms(2,4) inv(2)
      by (cases "pl_playback_mode s"; auto simp: player_service_next_index_def sequential_next_def split: if_splits)+
    have "fst (player_service_prev_index (s\<lparr>pl_playlist_index := i, pl_shuffle_position := q\<rparr>)) = pl_playlist_index s"
      for q
      using False assms(2) inv(2) i(2) by (auto simp: player_service_prev_index_def split: if_splits)
    moreover obtain q where "sync_shuffle_position i (s\<lparr>pl_playlist_index := i\<rparr>) =
        (s\<lparr>pl_playlist_index := i\<rparr>)\<lparr>pl_shuffle_position := q\<rparr>" by (rule sync_shuffle_form)
    ultimately show ?thesis by (simp add: i(1))
  qed
qed

section \<open>The saved status\<close>

lemma resume_layout:
  "length (rs_reserved st) = 3 \<Longrightarrow> length (enc_resume_state st) = RESUME_STATE_BYTES"
  "length (rs_reserved st) = 3 \<Longrightarrow> dec_resume_state (enc_resume_state st) = st"
  by (simp add: enc_resume_state_def RESUME_STATE_BYTES_def)
    (cases st, simp add: dec_resume_state_def enc_resume_state_def rd_layout u32_bytes_def rd_u32_def
        byte_simps rd_bytes_def)

interpretation resume_codec: fixed_codec enc_resume_state dec_resume_state RESUME_STATE_BYTES
    "\<lambda>st. length (rs_reserved st) = 3"
  by unfold_locales (simp_all add: resume_layout)

lemma current_second_small:
  assumes "pl_inv mp s"
  shows "player_service_current_second s < 2 ^ 32"
proof -
  have "ti_lookup_table_len (pl_track_info s) \<le> PLAYER_SVC_MAX_LOOKUP_ENTRIES"
    using assms by (cases "ti_lookup_table_len (pl_track_info s)")
      (simp_all add: pl_inv_def position_inv_def track_info_ok_def)
  then show ?thesis
    by (auto simp: player_service_current_second_def player_service_clamp_chunk_index_def
        PLAYER_SVC_MAX_LOOKUP_ENTRIES_def)
qed

lemma unat_of_nat_u32: "n < 2 ^ 32 \<Longrightarrow> unat (of_nat n :: u32) = n"
  by (simp add: unsigned_of_nat take_bit_nat_eq_self)

text \<open>What a build of the status and its validation on the same cartridge give.\<close>

lemma validate_built:
  assumes "pl_inv mp s" and "player_service_build_resume_state s = Some st"
    and "cartridge_service_get_metadata_header (pl_cart t) = cartridge_service_get_metadata_header (pl_cart s)"
    and "cartridge_service_is_mounted (pl_cart t)"
    and "pl_playlist_index s < cartridge_service_get_metadata_track_count (pl_cart t)"
    and "pl_playlist_count t = cartridge_service_get_metadata_track_count (pl_cart t)"
  shows "player_service_validate_resume_state st t =
     Some (pl_playlist_index s, player_service_current_second s, pl_paused s)"
    and "length (rs_reserved st) = 3" and "rs_version st = PLAYER_SVC_RESUME_STATE_VERSION"
    and "cartridge_service_get_metadata_header (pl_cart t) = Some m \<Longrightarrow> rs_cartridge_checksum st = jh_checksum m"
proof -
  have pos: "0 < pl_playlist_count s"
    using assms(2) by (auto simp: player_service_build_resume_state_def split: option.splits if_splits)
  have i: "pl_playlist_index s < pl_playlist_count s" "pl_playlist_count s \<le> 999"
    using assms(1) pos by (simp_all add: pl_inv_def playlist_inv_def JUKEBOY_MAX_TRACK_FILES_def)
  then have i32: "pl_playlist_index s < 2 ^ 32" by simp
  note sec = current_second_small [OF assms(1)]
  show "player_service_validate_resume_state st t =
      Some (pl_playlist_index s, player_service_current_second s, pl_paused s)"
    and "length (rs_reserved st) = 3" and "rs_version st = PLAYER_SVC_RESUME_STATE_VERSION"
    and "cartridge_service_get_metadata_header (pl_cart t) = Some m \<Longrightarrow> rs_cartridge_checksum st = jh_checksum m"
    using assms(2-6) unat_of_nat_u32 [OF i32] unat_of_nat_u32 [OF sec]
    by (auto simp: player_service_build_resume_state_def player_service_validate_resume_state_def
        resume_state_zero_def split: option.splits if_splits)
qed

lemma validate_nvs_frame:
  "player_service_validate_resume_state st (t\<lparr>pl_nvs_ops := ops\<rparr>) = player_service_validate_resume_state st t"
  by (simp add: player_service_validate_resume_state_def cong: option.case_cong if_cong)

lemma nvs_load_valid:
  assumes "pe_nvs env (pl_nvs_ops t) Nvs_Open = ESP_OK"
    and "pe_nvs env (pl_nvs_ops t @ [Nvs_Open]) Nvs_Get_Blob = ESP_OK"
    and "pe_nvs_blob env = enc_resume_state st" and "length (rs_reserved st) = 3"
    and "rs_version st = PLAYER_SVC_RESUME_STATE_VERSION" and "rs_cartridge_checksum st = jh_checksum m"
    and "player_service_validate_resume_state st t = Some r"
  shows "fst (load_nvs_playback_status env m t) = Some r"
proof -
  have "player_service_validate_resume_state st (t\<lparr>pl_nvs_ops := ops\<rparr>) = Some r" for ops
    using assms(7) by (simp add: validate_nvs_frame)
  then show ?thesis
    using assms by (simp add: load_nvs_playback_status_def nvs_call_def Let_def resume_layout)
qed

lemma persist_writes:
  assumes "player_service_persist_current_playback_status env s = (ESP_OK, s')"
    and "player_service_build_resume_state s = Some st"
  shows "pl_nvs_ops s' = pl_nvs_ops s @ [Nvs_Open, Nvs_Set_Blob (enc_resume_state st), Nvs_Commit]"
    and "pl_resume_rtc_state s' = st"
  using assms by (auto simp: player_service_persist_current_playback_status_def
      player_service_write_playback_status_def nvs_call_def Let_def player_service_cache_rtc_playback_status_def
      split: if_splits)

text \<open>What the next boot finds in RTC memory: nothing valid after a loss of power, and what the shutdown
  left there after a restart.\<close>

definition rtc_after :: "pl_state \<Rightarrow> pl_state \<Rightarrow> bool" where
  "rtc_after s t \<longleftrightarrow> pl_resume_rtc_magic t \<noteq> PLAYER_SVC_RESUME_RTC_MAGIC \<or>
     pl_resume_rtc_magic t = pl_resume_rtc_magic s \<and> pl_resume_rtc_state t = pl_resume_rtc_state s"

text \<open>C13: What a shutdown persists is what the next boot resumes, after a loss of power (RTC memory
  holds nothing valid) and after a restart (it holds what the shutdown left): when the blob that was set is
  the blob that NVS returns and the same album is mounted, loading the saved status gives the
  track, the second and the pause flag the player had.\<close>

theorem player_resume_roundtrip:
  assumes "pl_inv mp s"
    and "player_service_persist_current_playback_status env s = (ESP_OK, s')"
    and "Nvs_Set_Blob (pe_nvs_blob env') \<in> set (drop (length (pl_nvs_ops s)) (pl_nvs_ops s'))"
    and "pe_nvs env' = (\<lambda>_ _. ESP_OK)"
    and "rtc_after s' t"
    and "cartridge_service_get_metadata_header (pl_cart t) = cartridge_service_get_metadata_header (pl_cart s)"
    and "cartridge_service_is_mounted (pl_cart t)"
    and "pl_playlist_count t = cartridge_service_get_metadata_track_count (pl_cart t)"
    and "pl_playlist_index s < pl_playlist_count t"
  shows "fst (player_service_load_saved_playback_status env' t) =
     Some (pl_playlist_index s, player_service_current_second s, pl_paused s)"
proof -
  obtain st where st: "player_service_build_resume_state s = Some st"
  proof (cases "player_service_build_resume_state s")
    case None
    with assms(2) have "pl_nvs_ops s' = pl_nvs_ops s"
      by (auto simp: player_service_persist_current_playback_status_def)
    with assms(3) show ?thesis by simp
  qed
  have b: "pe_nvs_blob env' = enc_resume_state st" using assms(3) persist_writes(1) [OF assms(2) st] by auto
  have idx: "pl_playlist_index s < cartridge_service_get_metadata_track_count (pl_cart t)" using assms(8,9) by simp
  note v = validate_built [OF assms(1) st assms(6,7) idx assms(8)]
  obtain m where m: "cartridge_service_get_metadata_header (pl_cart t) = Some m"
    using v(1) by (auto simp: player_service_validate_resume_state_def split: option.splits)
  have "fst (load_nvs_playback_status env' m t) =
      Some (pl_playlist_index s, player_service_current_second s, pl_paused s)"
    by (rule nvs_load_valid [OF _ _ b v(2,3) v(4) [OF m] v(1)]) (simp_all add: assms(4))
  moreover have "pl_resume_rtc_state s' = st" by (rule persist_writes(2) [OF assms(2) st])
  ultimately show ?thesis
    using m v(1) assms(5,7) by (auto simp: player_service_load_saved_playback_status_def rtc_after_def)
qed

text \<open>A saved position is never applied to another album: a position that is resumed comes
  from a status, in RTC memory or in NVS, of the current version whose checksum is the one of
  the mounted album, and it names a track of the playlist.\<close>

theorem player_resume_needs_same_album:
  assumes "fst (player_service_load_saved_playback_status env s) = Some (i, k, paused)"
  shows "i < pl_playlist_count s \<and> i < cartridge_service_get_metadata_track_count (pl_cart s) \<and>
     cartridge_service_is_mounted (pl_cart s) \<and>
     (\<exists>st. (st = pl_resume_rtc_state s \<and> pl_resume_rtc_magic s = PLAYER_SVC_RESUME_RTC_MAGIC \<or>
            st = dec_resume_state (pe_nvs_blob env)) \<and>
       rs_version st = PLAYER_SVC_RESUME_STATE_VERSION \<and>
       Some (rs_cartridge_checksum st) =
         map_option jh_checksum (cartridge_service_get_metadata_header (pl_cart s)) \<and>
       i = unat (rs_current_track_num st) \<and> k = unat (rs_current_sec st) \<and> paused = (rs_paused st \<noteq> 0))"
proof -
  obtain t st where t: "player_service_validate_resume_state st t = Some (i, k, paused)"
    "pl_cart t = pl_cart s" "pl_playlist_count t = pl_playlist_count s"
    "st = pl_resume_rtc_state s \<and> pl_resume_rtc_magic s = PLAYER_SVC_RESUME_RTC_MAGIC \<or>
       st = dec_resume_state (pe_nvs_blob env)"
  proof -
    have nvs: "\<exists>u. player_service_validate_resume_state (dec_resume_state (pe_nvs_blob env)) u = Some (i, k, paused) \<and>
        pl_cart u = pl_cart v \<and> pl_playlist_count u = pl_playlist_count v"
      if "fst (load_nvs_playback_status env m v) = Some (i, k, paused)" for m v
    proof -
      let ?v = "v\<lparr>pl_nvs_ops := pl_nvs_ops v @ [Nvs_Open, Nvs_Get_Blob]\<rparr>"
      have "player_service_validate_resume_state (dec_resume_state (pe_nvs_blob env)) ?v = Some (i, k, paused)"
        using that by (auto simp: load_nvs_playback_status_def nvs_call_def Let_def split: if_splits option.splits)
      then show ?thesis by (intro exI [of _ ?v]) simp
    qed
    obtain m where m: "cartridge_service_get_metadata_header (pl_cart s) = Some m"
      using assms by (auto simp: player_service_load_saved_playback_status_def split: option.splits)
    show ?thesis
    proof (cases "pl_resume_rtc_magic s = PLAYER_SVC_RESUME_RTC_MAGIC \<and>
        player_service_validate_resume_state (pl_resume_rtc_state s) s \<noteq> None")
      case True
      with assms m show ?thesis
        by (intro that [of "pl_resume_rtc_state s" s])
          (auto simp: player_service_load_saved_playback_status_def split: if_splits)
    next
      case False
      with assms m have "fst (load_nvs_playback_status env m s) = Some (i, k, paused) \<or>
          fst (load_nvs_playback_status env m (player_service_clear_rtc_playback_status s)) = Some (i, k, paused)"
        by (auto simp: player_service_load_saved_playback_status_def Let_def split: if_splits option.splits)
      then obtain v where v: "fst (load_nvs_playback_status env m v) = Some (i, k, paused)"
        "pl_cart v = pl_cart s" "pl_playlist_count v = pl_playlist_count s"
        by (auto simp: player_service_clear_rtc_playback_status_def)
      from nvs [OF v(1)] v(2,3) show ?thesis using that by metis
    qed
  qed
  then show ?thesis
    by (auto simp: player_service_validate_resume_state_def split: option.splits if_splits)
qed

section \<open>Volume and samples\<close>

lemma gain_bound: "level < PLAYER_SVC_VOLUME_LEVEL_COUNT \<Longrightarrow> s_volume_gain_q8 ! level \<le> 256"
proof -
  assume "level < PLAYER_SVC_VOLUME_LEVEL_COUNT"
  then have "s_volume_gain_q8 ! level \<in> set s_volume_gain_q8"
    by (intro nth_mem) (simp add: s_volume_gain_q8_def PLAYER_SVC_VOLUME_LEVEL_COUNT_def)
  then show ?thesis by (auto simp: s_volume_gain_q8_def)
qed

lemma percent_of_level: "level < PLAYER_SVC_VOLUME_LEVEL_COUNT \<Longrightarrow> volume_percent level = 10 * level"
proof -
  assume "level < PLAYER_SVC_VOLUME_LEVEL_COUNT"
  then have "level \<in> set [0..<11]" by (simp add: PLAYER_SVC_VOLUME_LEVEL_COUNT_def)
  moreover have "list_all (\<lambda>l. volume_percent l = 10 * l) [0..<11]"
    by (simp add: upt_rec volume_percent_def s_volume_gain_q8_def PLAYER_SVC_VOLUME_Q8_ONE_def
        PLAYER_SVC_VOLUME_Q8_SHIFT_def)
  ultimately show ?thesis by (simp only: list_all_iff)
qed

lemma floor_scale_bounds:
  fixes x g :: int
  assumes "0 \<le> g" and "g \<le> 256"
  shows "(x * g) div 256 \<le> max x 0" and "min x 0 \<le> (x * g) div 256"
proof -
  have "x * g \<le> max x 0 * 256"
  proof (cases "0 \<le> x")
    case True
    then show ?thesis using mult_left_mono [OF assms(2), of x] by simp
  next
    case False
    then have "x * g \<le> 0" using assms(1) by (simp add: mult_nonpos_nonneg)
    with False show ?thesis by simp
  qed
  then have "(x * g) div 256 \<le> (max x 0 * 256) div 256" by (rule zdiv_mono1) simp
  then show "(x * g) div 256 \<le> max x 0" by simp
  have "min x 0 * 256 \<le> x * g"
  proof (cases "0 \<le> x")
    case False
    then show ?thesis using mult_left_mono_neg [OF assms(2), of x] by simp
  qed (use assms(1) in simp)
  then have "(min x 0 * 256) div 256 \<le> (x * g) div 256" by (rule zdiv_mono1) simp
  then show "min x 0 \<le> (x * g) div 256" by simp
qed

lemma scale_sample_value:
  assumes "g \<le> 256"
  shows "sint (player_service_scale_sample x g) = (sint x * int g) div 256"
proof -
  have b: "(sint x * int g) div 256 \<le> max (sint x) 0" "min (sint x) 0 \<le> (sint x * int g) div 256"
    using floor_scale_bounds [of "int g" "sint x"] assms by simp_all
  have r: "- 32768 \<le> sint x" "sint x < 32768"
    using sint_greater_eq [of x] sint_lt [of x] by simp_all
  have "- 32768 \<le> (sint x * int g) div 256" "(sint x * int g) div 256 < 32768"
    using b r by linarith+
  then show ?thesis
    by (simp add: player_service_scale_sample_def PLAYER_SVC_VOLUME_Q8_SHIFT_def signed_of_int
        signed_take_bit_int_eq_self)
qed

lemma length_scale_samples [simp]: "length (scale_samples g xs) = length xs"
  by (induction g xs rule: scale_samples.induct) simp_all

lemma length_apply_volume [simp]: "length (player_service_apply_volume level xs) = length xs"
  by (simp add: player_service_apply_volume_def Let_def)

text \<open>At every volume level the reported percentage is ten times the level, and scaling a
  signed 16-bit sample never overflows: the result is the product with the level's gain divided
  by 256 and rounded down, and it is no louder than the sample.\<close>

theorem player_volume_scaling:
  assumes "level < PLAYER_SVC_VOLUME_LEVEL_COUNT"
  shows "volume_percent level = 10 * level \<and>
     sint (player_service_scale_sample x (s_volume_gain_q8 ! level)) =
       (sint x * int (s_volume_gain_q8 ! level)) div 256 \<and>
     \<bar>sint (player_service_scale_sample x (s_volume_gain_q8 ! level))\<bar> \<le> \<bar>sint x\<bar>"
  using percent_of_level [OF assms] scale_sample_value [OF gain_bound [OF assms], of x]
    floor_scale_bounds [of "int (s_volume_gain_q8 ! level)" "sint x"] gain_bound [OF assms]
  by auto

lemma qemu_receive_eq:
  "qemu_receive target received stream =
     (received @ take (target - length received) stream, drop (target - length received) stream)"
proof (induction target received stream rule: qemu_receive.induct)
  case (1 target received stream)
  show ?case
  proof (cases "length received < target \<and> stream \<noteq> []")
    case True
    let ?n = "target - length received"
    have "qemu_receive target received stream = qemu_receive target (received @ take ?n stream) (drop ?n stream)"
      using True by (subst qemu_receive.simps) (simp add: stream_receive_def)
    also have "\<dots> = (received @ take ?n stream, drop ?n stream)"
      using 1 [OF _ _ refl] True by (auto simp: stream_receive_def min_def)
    finally show ?thesis .
  next
    case False
    then show ?thesis by (subst qemu_receive.simps) (auto simp: stream_receive_def)
  qed
qed

text \<open>While a track plays, both sample providers put the same bytes into the buffer of the
  output and take the same bytes from the stream: as many as there are, scaled to the volume
  and followed by silence up to the requested length; the rest stays in the stream, in order.\<close>

theorem player_providers_agree:
  assumes "0 < len" and "pl_pcm_stream s = Some stream" and "pl_playing s" and "\<not> pl_paused s"
  shows "snd (player_service_qemu_pcm_provider True len s) = snd (player_service_pcm_provider True len s) \<and>
     snd (player_service_pcm_provider True len s) =
       (Some (player_service_apply_volume (pl_volume_level s) (take (nat len) stream) @
              replicate (nat len - length stream) 0),
        s\<lparr>pl_pcm_stream := Some (drop (nat len) stream)\<rparr>)"
  using assms
  by (simp add: player_service_qemu_pcm_provider_def player_service_pcm_provider_def qemu_receive_eq
      stream_receive_def)

text \<open>A pause that the service handles when the track has just ended, with the pipeline idle and
  the completion message still queued, is lost: the completion starts the next track.\<close>

lemma pause_at_track_end_lost:
  assumes "pl_playing s" and "\<not> pl_paused s" and "player_service_pipeline_idle s"
    and "pl_cancelled_generation s \<noteq> pl_active_generation s"
    and "t = handle_message env (PLAYER_SVC_CMD_CONTROL PLAYER_SVC_CONTROL_PAUSE) s"
  shows "pl_paused t" and "pl_cancelled_generation t \<noteq> pl_active_generation t"
proof -
  let ?s1 = "player_service_reset_pipeline
    (s\<lparr>pl_resume_chunk := player_service_clamp_chunk_index (pl_track_info s) (pl_current_chunk s)\<rparr>)"
  obtain m st where c: "player_service_cache_current_playback_status (?s1\<lparr>pl_paused := True\<rparr>) =
      ?s1\<lparr>pl_paused := True, pl_resume_rtc_magic := m, pl_resume_rtc_state := st\<rparr>"
    using cache_status_form by blast
  show "pl_paused t" "pl_cancelled_generation t \<noteq> pl_active_generation t"
    using assms by (simp_all add: handle_pause_def Let_def player_service_stop_playback_def c
        player_service_post_event_def) (simp_all add: player_service_reset_pipeline_def)
qed

section \<open>Witnesses\<close>

definition demo_pl_env :: "bytes \<Rightarrow> pl_env" where
  "demo_pl_env blob = \<lparr>pe_fs = demo_card, pe_stat = (\<lambda>_. None), pe_time = 1700000000,
     pe_random = (\<lambda>i. of_nat i * 7), pe_fallback_random = [], pe_tasks_stop = True,
     pe_nvs = (\<lambda>_ _. ESP_OK), pe_nvs_blob = blob\<rparr>"

definition demo_three :: pl_state where
  "demo_three = (pl_boot cart_boot 0 resume_state_zero)\<lparr>pl_playlist_count := 3, pl_shuffle_order := True,
     pl_shuffle_order_storage := [0, 1, 2] @ replicate 996 0, pl_active_generation := 5\<rparr>"

lemma demo_three_inv: "pl_inv ''/sdcard'' demo_three"
proof -
  have "pl_inv ''/sdcard'' (pl_boot cart_boot 0 resume_state_zero)"
    by (rule pl_boot_inv) (use cart_boot_inv in auto)
  then show ?thesis
    unfolding demo_three_def pl_boot_def pl_inv_defs
    by (simp add: JUKEBOY_MAX_TRACK_FILES_def upt_rec)
qed

theorem player_interrupted_completion_ignored_witness:
  "handle_message (demo_pl_env []) (PLAYER_SVC_CMD_TRACK_COMPLETE 5)
     (handle_message (demo_pl_env []) (PLAYER_SVC_CMD_CONTROL PLAYER_SVC_CONTROL_NEXT) demo_three) =
   handle_message (demo_pl_env []) (PLAYER_SVC_CMD_CONTROL PLAYER_SVC_CONTROL_NEXT) demo_three"
proof -
  have "\<not> player_service_pipeline_idle demo_three" "pl_active_generation demo_three = 5"
    "stops_playback (PLAYER_SVC_CMD_CONTROL PLAYER_SVC_CONTROL_NEXT) demo_three"
    by (simp_all add: demo_three_def pl_boot_def player_service_pipeline_idle_def stops_playback_def)
  with player_interrupted_completion_ignored [OF demo_three_inv] show ?thesis by metis
qed

theorem player_previous_undoes_next_witness:
  "fst (player_service_prev_index (sync_shuffle_position 1 (demo_three\<lparr>pl_playlist_index := 1\<rparr>))) = 0"
  using player_previous_undoes_next [OF demo_three_inv, of "demo_pl_env []" 1 demo_three]
  by (simp add: demo_three_def pl_boot_def player_service_next_index_def sequential_next_def)

definition demo_track :: player_service_track_info where
  "demo_track = track_info_zero\<lparr>ti_filename := ''000.jba'', ti_lookup_table_len := 10,
     ti_data_offset := 512, ti_total_file_size := 1000\<rparr>"















definition demo_paused :: pl_state where
  "demo_paused = (pl_boot demo_loaded 0 resume_state_zero)\<lparr>pl_playlist_count := 1, pl_shuffle_order := True,
     pl_playing := True, pl_paused := True, pl_resume_chunk := 4, pl_track_info := demo_track\<rparr>"

lemma demo_loaded_io: "cart_io_inv ''/sdcard'' demo_loaded"
  using demo_cart_inv by (simp add: demo_loaded_def cart_io_inv_def)

lemma demo_paused_inv: "pl_inv ''/sdcard'' demo_paused"
proof -
  have "track_info_ok demo_track"
    by (simp add: demo_track_def track_info_ok_def window_ok_def track_info_zero_def JBA_HEADER_BYTES_def
        PLAYER_SVC_MAX_LOOKUP_ENTRIES_def)
  moreover have "ti_lookup_table_len demo_track = 10" by (simp add: demo_track_def)
  ultimately show ?thesis
    using pl_boot_inv [OF demo_loaded_inv demo_loaded_io, of 0 resume_state_zero]
    unfolding demo_paused_def pl_boot_def pl_inv_defs
    by (simp add: JUKEBOY_MAX_TRACK_FILES_def)
qed

definition demo_status :: player_service_resume_state where
  "demo_status = the (player_service_build_resume_state demo_paused)"

lemma demo_status: "player_service_build_resume_state demo_paused = Some demo_status"
  by (simp add: demo_status_def player_service_build_resume_state_def demo_paused_def pl_boot_def
      demo_loaded_header)

definition demo_reboot :: pl_state where
  "demo_reboot = (pl_boot demo_loaded 0 resume_state_zero)\<lparr>pl_playlist_count := 1\<rparr>"

lemma demo_second: "player_service_current_second demo_paused = 4" "pl_playlist_index demo_paused = 0"
  "pl_paused demo_paused"
  by (simp_all add: player_service_current_second_def demo_paused_def demo_track_def
      player_service_clamp_chunk_index_def pl_boot_def)

lemma demo_fields: "pl_cart demo_paused = demo_loaded" "pl_cart demo_reboot = demo_loaded"
  "pl_playlist_count demo_reboot = 1" "pl_resume_rtc_magic demo_reboot = 0"
  by (simp_all add: demo_paused_def demo_reboot_def pl_boot_def)

theorem player_resume_roundtrip_witness:
  "fst (player_service_load_saved_playback_status (demo_pl_env (enc_resume_state demo_status)) demo_reboot) =
     Some (0, 4, True) \<and>
   fst (player_service_load_saved_playback_status (demo_pl_env (enc_resume_state demo_status))
     (demo_reboot\<lparr>pl_resume_rtc_magic := PLAYER_SVC_RESUME_RTC_MAGIC, pl_resume_rtc_state := demo_status\<rparr>)) =
     Some (0, 4, True)"
proof -
  let ?s' = "snd (player_service_persist_current_playback_status (demo_pl_env []) demo_paused)"
  let ?env = "demo_pl_env (enc_resume_state demo_status)"
  let ?r = "demo_reboot\<lparr>pl_resume_rtc_magic := PLAYER_SVC_RESUME_RTC_MAGIC, pl_resume_rtc_state := demo_status\<rparr>"
  have p: "player_service_persist_current_playback_status (demo_pl_env []) demo_paused = (ESP_OK, ?s')"
    by (simp add: player_service_persist_current_playback_status_def demo_status nvs_call_def demo_pl_env_def
        player_service_write_playback_status_def)
  have w: "Nvs_Set_Blob (pe_nvs_blob ?env) \<in> set (drop (length (pl_nvs_ops demo_paused)) (pl_nvs_ops ?s'))"
    using persist_writes(1) [OF p demo_status] by (simp add: demo_pl_env_def)
  have "pl_resume_rtc_magic ?s' = PLAYER_SVC_RESUME_RTC_MAGIC"
    by (simp add: player_service_persist_current_playback_status_def demo_status nvs_call_def demo_pl_env_def
        player_service_write_playback_status_def player_service_cache_rtc_playback_status_def)
  then have r: "rtc_after ?s' demo_reboot" "rtc_after ?s' ?r"
    using persist_writes(2) [OF p demo_status]
    by (simp_all add: rtc_after_def demo_fields PLAYER_SVC_RESUME_RTC_MAGIC_def)
  show ?thesis
    using player_resume_roundtrip [OF demo_paused_inv p w _ r(1)] player_resume_roundtrip [OF demo_paused_inv p w _ r(2)]
    by (simp add: demo_second demo_fields demo_pl_env_def demo_loaded_header)
qed

theorem player_resume_needs_same_album_witness:
  "\<exists>st :: player_service_resume_state. rs_version st = PLAYER_SVC_RESUME_STATE_VERSION \<and>
     Some (rs_cartridge_checksum st) = map_option jh_checksum (cartridge_service_get_metadata_header demo_loaded)"
proof -
  let ?t = "demo_reboot\<lparr>pl_resume_rtc_magic := PLAYER_SVC_RESUME_RTC_MAGIC, pl_resume_rtc_state := demo_status\<rparr>"
  have "player_service_validate_resume_state demo_status ?t = Some (0, 4, True)"
    using validate_built(1) [OF demo_paused_inv demo_status, of ?t]
    by (simp add: demo_second demo_fields demo_loaded_header)
  then have "fst (player_service_load_saved_playback_status (demo_pl_env []) ?t) = Some (0, 4, True)"
    by (simp add: player_service_load_saved_playback_status_def demo_fields demo_loaded_header)
  from player_resume_needs_same_album [OF this] have "\<exists>st :: player_service_resume_state. rs_version st = PLAYER_SVC_RESUME_STATE_VERSION \<and>
     Some (rs_cartridge_checksum st) = map_option jh_checksum (cartridge_service_get_metadata_header (pl_cart ?t))"
    by blast
  then show ?thesis by (simp add: demo_fields)
qed

theorem player_volume_scaling_witness:
  "volume_percent 5 = 50 \<and> sint (player_service_scale_sample (- 100) (s_volume_gain_q8 ! 5)) = - 50"
  using player_volume_scaling [of 5 "- 100"]
  by (simp add: PLAYER_SVC_VOLUME_LEVEL_COUNT_def s_volume_gain_q8_def)

theorem player_providers_agree_witness:
  "fst (snd (player_service_pcm_provider True 6
      (demo_three\<lparr>pl_playing := True, pl_pcm_stream := Some [1, 2, 3, 4]\<rparr>))) = Some [1, 2, 3, 4, 0, 0]"
  using player_providers_agree [of 6 "demo_three\<lparr>pl_playing := True, pl_pcm_stream := Some [1, 2, 3, 4]\<rparr>" "[1, 2, 3, 4]"]
  by (simp add: demo_three_def pl_boot_def player_service_apply_volume_def s_volume_gain_q8_def numeral_eq_Suc
      PLAYER_SVC_DEFAULT_VOLUME_LEVEL_def PLAYER_SVC_VOLUME_LEVEL_COUNT_def PLAYER_SVC_VOLUME_Q8_ONE_def
      PLAYER_SVC_VOLUME_Q8_SHIFT_def)

end
