(* ===== verification/Player_Pipeline.thy ===== *)
theory Player_Pipeline
  imports Player_Props
begin

text \<open>
  The two tasks behind the player, \<^verbatim>\<open>main/player_service.c\<close>: the reader, which walks over the
  chunks of a track, reads the file through the cartridge service in pieces of up to 64 KB and
  queues one message per chunk, and the decoder, which checks the CRC of a chunk, splits it
  into packets and decodes them. Where a task looks whether it should stop, the answer is given
  by an argument (\<open>stop k p\<close> at the check \<open>p\<close> of chunk \<open>k\<close>); the Opus decoder is an argument, too.
\<close>

section \<open>The decoder\<close>

definition PLAYER_SVC_OPUS_MAX_FRAME_LEN :: nat where "PLAYER_SVC_OPUS_MAX_FRAME_LEN = 1275"

text \<open>A decoder takes a frame and gives an error code (0 for success), samples and its next state.\<close>

type_synonym 'h opus = "'h \<Rightarrow> bytes \<Rightarrow> (int \<times> bytes) \<times> 'h"

text \<open>The state of the loop: whether the task goes on, the decoder and the samples written. A
  write that is stopped early has written \<open>k\<close> bytes.\<close>

definition decode_frame :: "'h opus \<Rightarrow> nat option \<Rightarrow> bytes \<Rightarrow> bool \<times> 'h \<times> bytes \<Rightarrow> bool \<times> 'h \<times> bytes" where
  "decode_frame opus stopped frame st =
     (case st of (running, h, pcm) \<Rightarrow>
        let ((dec_err, decoded), h') = opus h frame in
        if dec_err = 0 \<and> length decoded > 0 then
          (case stopped of None \<Rightarrow> (running, h', pcm @ decoded)
           | Some k \<Rightarrow> (False, h', pcm @ take k decoded))
        else (running, h', pcm))"

function packet_loop ::
    "'h opus \<Rightarrow> (nat \<Rightarrow> bool) \<Rightarrow> (nat \<Rightarrow> nat option) \<Rightarrow> bytes \<Rightarrow> nat \<Rightarrow> bool \<times> 'h \<times> bytes \<Rightarrow> bool \<times> 'h \<times> bytes"
where
  "packet_loop opus stop stopped chunk_data cursor st =
     (if \<not> cursor < length chunk_data then st
      else if stop cursor then (False, snd st)
      else
        let remaining = length chunk_data - cursor;
            byte1 = unat (chunk_data ! cursor) in
        if \<not> byte1 < 252 \<and> remaining < 2 then st
        else
          let hdr_size = (if byte1 < 252 then 1 else 2);
              frame_len = (if byte1 < 252 then byte1 else unat (chunk_data ! (cursor + 1)) * 4 + byte1) in
          if frame_len > PLAYER_SVC_OPUS_MAX_FRAME_LEN then st
          else if frame_len = 0 then packet_loop opus stop stopped chunk_data (cursor + hdr_size) st
          else if hdr_size + frame_len > remaining then st
          else packet_loop opus stop stopped chunk_data (cursor + (hdr_size + frame_len))
                 (decode_frame opus (stopped cursor) (rd_bytes chunk_data (cursor + hdr_size) frame_len) st))"
  by pat_completeness auto

termination by (relation "measure (\<lambda>(opus, stop, stopped, chunk_data, cursor, st). length chunk_data - cursor)") auto

declare packet_loop.simps [simp del]

text \<open>One message of the chunk queue. The second component of the stop oracles is the position in
  the chunk.\<close>

definition chunk_crc_ok :: "(bytes \<Rightarrow> u32) \<Rightarrow> bytes \<Rightarrow> nat \<Rightarrow> bool" where
  "chunk_crc_ok crc32 data len =
     (crc32 (rd_bytes data PLAYER_SVC_CHUNK_CRC_BYTES (len - PLAYER_SVC_CHUNK_CRC_BYTES)) = rd_u32 data 0)"

definition decoder_message ::
    "(bytes \<Rightarrow> u32) \<Rightarrow> 'h opus \<Rightarrow> (nat \<Rightarrow> bool) \<Rightarrow> (nat \<Rightarrow> nat option) \<Rightarrow> player_service_chunk_msg \<Rightarrow>
     pl_state \<Rightarrow> bool \<times> 'h \<times> bytes \<Rightarrow> pl_state \<times> bool \<times> 'h \<times> bytes" where
  "decoder_message crc32 opus stop stopped msg s st =
     (if cm_is_eof msg then (s, False, snd st)
      else if cm_release_buf msg then (s\<lparr>pl_buf_pool_sem := pl_buf_pool_sem s + 1\<rparr>, st)
      else case cm_data msg of
        None \<Rightarrow> (decoder_chunk (cm_chunk_index msg) False s, st)
      | Some data \<Rightarrow>
          if cm_len msg \<le> PLAYER_SVC_CHUNK_CRC_BYTES \<or> cm_len msg > PLAYER_SVC_CHUNK_MAX_BYTES
          then (decoder_chunk (cm_chunk_index msg) False s, st)
          else if \<not> chunk_crc_ok crc32 data (cm_len msg)
          then (decoder_chunk (cm_chunk_index msg) False s, st)
          else (decoder_chunk (cm_chunk_index msg) True s,
                packet_loop opus stop stopped
                  (rd_bytes data PLAYER_SVC_CHUNK_CRC_BYTES (cm_len msg - PLAYER_SVC_CHUNK_CRC_BYTES)) 0 st))"

text \<open>The loop over the messages that arrive before a stop is seen at its head, until an EOF or a
  stop inside a chunk.\<close>

fun decoder_loop ::
    "(bytes \<Rightarrow> u32) \<Rightarrow> 'h opus \<Rightarrow> (nat \<Rightarrow> nat \<Rightarrow> bool) \<Rightarrow> (nat \<Rightarrow> nat \<Rightarrow> nat option) \<Rightarrow> nat \<Rightarrow>
     player_service_chunk_msg list \<Rightarrow> pl_state \<Rightarrow> bool \<times> 'h \<times> bytes \<Rightarrow> pl_state \<times> bool \<times> 'h \<times> bytes" where
  "decoder_loop crc32 opus stop stopped n [] s st = (s, st)"
| "decoder_loop crc32 opus stop stopped n (msg # msgs) s st =
     (if \<not> fst st then (s, st)
      else
        let (s', st') = decoder_message crc32 opus (stop n) (stopped n) msg s st in
        decoder_loop crc32 opus stop stopped (n + 1) msgs s' st')"

section \<open>The reader\<close>

record reader_state =
  rd_cart :: cart_state
  rd_info :: player_service_track_info
  rd_buf :: "bytes option"
  rd_window_start :: nat
  rd_checked_out :: bool
  rd_out :: "player_service_chunk_msg list"

definition release_msg :: player_service_chunk_msg where
  "release_msg = \<lparr>cm_data = None, cm_len = 0, cm_chunk_index = 0, cm_is_eof = False, cm_release_buf = True\<rparr>"

definition eof_msg :: player_service_chunk_msg where
  "eof_msg = \<lparr>cm_data = None, cm_len = 0, cm_chunk_index = 0, cm_is_eof = True, cm_release_buf = False\<rparr>"

text \<open>The part of the loop that gets the bytes of a chunk into the buffer when the current one does
  not hold them. The result says whether the task is done with the track, and with what error.\<close>

definition reader_fetch ::
    "cart_env \<Rightarrow> (nat \<Rightarrow> bool) \<Rightarrow> nat \<Rightarrow> nat \<Rightarrow> reader_state \<Rightarrow> esp_err option \<times> reader_state" where
  "reader_fetch fs stop chunk_start chunk_len st =
     (if rd_buf st \<noteq> None \<and> stop 4 then (Some ESP_OK, st)
      else
        let st1 = (if rd_buf st \<noteq> None
                   then st\<lparr>rd_out := rd_out st @ [release_msg], rd_checked_out := False\<rparr> else st) in
        if stop 5 then (Some ESP_OK, st1)
        else
          let st2 = st1\<lparr>rd_checked_out := True\<rparr> in
          if stop 6 then (Some ESP_OK, st2)
          else case player_read_file fs (ti_filename (rd_info st2))
                      (ti_data_offset (rd_info st2) + chunk_start) (rd_cart st2) of
            (Inl err, c) \<Rightarrow> (Some err, st2\<lparr>rd_cart := c, rd_checked_out := False, rd_buf := None\<rparr>)
          | (Inr (err, data), c) \<Rightarrow>
              if stop 7 then (Some ESP_OK, st2\<lparr>rd_cart := c\<rparr>)
              else if err \<noteq> ESP_OK \<or> length data < chunk_len
              then (Some (if err = ESP_OK then ESP_FAIL else err),
                    st2\<lparr>rd_cart := c, rd_checked_out := False, rd_buf := None\<rparr>)
              else (None, st2\<lparr>rd_cart := c, rd_buf := Some data, rd_window_start := chunk_start\<rparr>))"

definition reader_chunk ::
    "cart_env \<Rightarrow> (nat \<Rightarrow> bool) \<Rightarrow> nat \<Rightarrow> reader_state \<Rightarrow> esp_err option \<times> reader_state" where
  "reader_chunk fs stop k st =
     (if stop 0 then (Some ESP_OK, st)
      else
        let (err, bounds, info) = player_service_get_chunk_bounds fs (rd_cart st) (stop 1) (stop 2) k (rd_info st);
            st1 = st\<lparr>rd_info := info\<rparr> in
        if err \<noteq> ESP_OK then (Some (if err = ESP_ERR_INVALID_STATE \<and> stop 3 then ESP_OK else err), st1)
        else
          let (chunk_start, chunk_end) = the bounds;
              chunk_len = chunk_end - chunk_start in
          if chunk_len \<le> PLAYER_SVC_CHUNK_CRC_BYTES then (None, st1)
          else
            let fits = (case rd_buf st1 of None \<Rightarrow> False
                  | Some rd \<Rightarrow> chunk_start \<ge> rd_window_start st1 \<and>
                                chunk_end \<le> rd_window_start st1 + length rd);
                (done, st2) = (if fits then (None, st1) else reader_fetch fs stop chunk_start chunk_len st1) in
            if done \<noteq> None then (done, st2)
            else if stop 8 then (Some ESP_OK, st2)
            else (None, st2\<lparr>rd_out := rd_out st2 @
                   [\<lparr>cm_data = map_option (drop (chunk_start - rd_window_start st2)) (rd_buf st2),
                     cm_len = chunk_len, cm_chunk_index = k, cm_is_eof = False, cm_release_buf = False\<rparr>]\<rparr>))"

fun reader_chunks ::
    "cart_env \<Rightarrow> (nat \<Rightarrow> nat \<Rightarrow> bool) \<Rightarrow> nat list \<Rightarrow> reader_state \<Rightarrow> esp_err \<times> reader_state" where
  "reader_chunks fs stop [] st = (ESP_OK, st)"
| "reader_chunks fs stop (k # ks) st =
     (case reader_chunk fs (stop k) k st of
        (Some err, st') \<Rightarrow> (err, st')
      | (None, st') \<Rightarrow> reader_chunks fs stop ks st')"

text \<open>A pass of the task for a start command: the loop, the EOF message, unless the queue stays full
  until a stop (\<open>stop len 0\<close>), and the closing of the file.\<close>

definition reader_pass ::
    "cart_env \<Rightarrow> (nat \<Rightarrow> nat \<Rightarrow> bool) \<Rightarrow> nat \<Rightarrow> player_service_track_info \<Rightarrow> cart_state \<Rightarrow> esp_err \<times> reader_state" where
  "reader_pass fs stop start_chunk info c =
     (let len = ti_lookup_table_len info;
          st = \<lparr>rd_cart = c, rd_info = info, rd_buf = None, rd_window_start = 0, rd_checked_out = False, rd_out = []\<rparr>;
          (err, st1) = (if start_chunk \<ge> len then (ESP_ERR_INVALID_ARG, st)
                        else reader_chunks fs stop [start_chunk..<len] st);
          st2 = st1\<lparr>rd_checked_out := False,
                    rd_out := (if stop len 0 then rd_out st1 else rd_out st1 @ [eof_msg])\<rparr> in
      (err, st2\<lparr>rd_cart := cartridge_service_close_file (rd_cart st2)\<rparr>))"

section \<open>Facts about the decoder\<close>

text \<open>The length prefix of a packet, as the Opus framing defines it: one byte below 252, else two.\<close>

definition packet_header :: "nat \<Rightarrow> bytes" where
  "packet_header n =
     (if n < 252 then [of_nat n] else [of_nat (252 + n mod 4), of_nat ((n - (252 + n mod 4)) div 4)])"

definition packet :: "bytes \<Rightarrow> bytes" where
  "packet frame = packet_header (length frame) @ frame"

definition frame_ok :: "bytes \<Rightarrow> bool" where
  "frame_ok frame \<longleftrightarrow> frame \<noteq> [] \<and> length frame \<le> PLAYER_SVC_OPUS_MAX_FRAME_LEN"

lemma unat_of_nat_u8: "n < 256 \<Longrightarrow> unat (of_nat n :: u8) = n"
  by (simp add: unsigned_of_nat take_bit_nat_eq_self)

lemma packet_header_two:
  assumes "252 \<le> n" and "n \<le> PLAYER_SVC_OPUS_MAX_FRAME_LEN"
  shows "unat (of_nat (252 + n mod 4) :: u8) = 252 + n mod 4"
    and "unat (of_nat ((n - (252 + n mod 4)) div 4) :: u8) * 4 + (252 + n mod 4) = n"
proof -
  have m: "n mod 4 < 4" by simp
  then show "unat (of_nat (252 + n mod 4) :: u8) = 252 + n mod 4" by (intro unat_of_nat_u8) simp
  obtain q where q: "n = 4 * q + n mod 4" by (metis mult_div_mod_eq)
  have q252: "63 \<le> q" "q \<le> 318" using q m assms by (auto simp: PLAYER_SVC_OPUS_MAX_FRAME_LEN_def)
  have d: "(n - (252 + n mod 4)) div 4 = q - 63" using q by (subst q) simp
  have "unat (of_nat (q - 63) :: u8) = q - 63" using q252 by (intro unat_of_nat_u8) simp
  then show "unat (of_nat ((n - (252 + n mod 4)) div 4) :: u8) * 4 + (252 + n mod 4) = n"
    unfolding d using q q252(1) by simp
qed

lemma rd_bytes_middle: "rd_bytes (pre @ xs @ post) (length pre) (length xs) = xs"
  by (simp add: rd_bytes_def)

text \<open>One packet is decoded, whatever comes before and after it.\<close>

lemma packet_loop_step:
  assumes "frame_ok frame"
  shows "packet_loop opus (\<lambda>_. False) (\<lambda>_. None) (pre @ packet frame @ post) (length pre) st =
     packet_loop opus (\<lambda>_. False) (\<lambda>_. None) (pre @ packet frame @ post) (length (pre @ packet frame))
       (decode_frame opus None frame st)"
proof (cases "length frame < 252")
  case True
  let ?d = "pre @ packet frame @ post" and ?n = "length frame"
  have n: "0 < ?n" "?n \<le> PLAYER_SVC_OPUS_MAX_FRAME_LEN" using assms by (auto simp: frame_ok_def)
  have b: "unat (?d ! length pre) = ?n"
    using True by (simp add: packet_def packet_header_def unat_of_nat_u8)
  have l: "length ?d = length pre + 1 + ?n + length post" using True by (simp add: packet_def packet_header_def)
  have f: "rd_bytes ?d (length pre + 1) ?n = frame"
    using rd_bytes_middle [of "pre @ packet_header ?n" frame post] True
    by (simp add: packet_def packet_header_def)
  have e: "length (pre @ packet frame) = length pre + (1 + ?n)" using True by (simp add: packet_def packet_header_def)
  show ?thesis
    unfolding e using True n b l f by (subst packet_loop.simps) (simp add: Let_def)
next
  case False
  let ?d = "pre @ packet frame @ post" and ?n = "length frame"
  have n: "0 < ?n" "?n \<le> PLAYER_SVC_OPUS_MAX_FRAME_LEN" "252 \<le> ?n" using assms False by (auto simp: frame_ok_def)
  note h = packet_header_two [OF n(3,2)]
  have b: "unat (?d ! length pre) = 252 + ?n mod 4"
    using False h(1) by (simp add: packet_def packet_header_def)
  have b2: "unat (?d ! (length pre + 1)) * 4 + (252 + ?n mod 4) = ?n"
    using False h(2) by (simp add: packet_def packet_header_def nth_append)
  have l: "length ?d = length pre + 2 + ?n + length post" using False by (simp add: packet_def packet_header_def)
  have f: "rd_bytes ?d (length pre + 2) ?n = frame"
    using rd_bytes_middle [of "pre @ packet_header ?n" frame post] False
    by (simp add: packet_def packet_header_def)
  have e: "length (pre @ packet frame) = length pre + (2 + ?n)" using False by (simp add: packet_def packet_header_def)
  have nb: "\<not> unat (?d ! length pre) < 252" using b by simp
  have fl: "unat (?d ! (length pre + 1)) * 4 + unat (?d ! length pre) = ?n" using b b2 by simp
  have cur: "length pre < length ?d" "length ?d - length pre = 2 + ?n + length post" using l by simp_all
  show ?thesis
    unfolding e by (subst packet_loop.simps) (simp only: Let_def cur nb fl f if_False if_True not_True_eq_False
        simp_thms, use n in simp)
qed

lemma packet_loop_packets:
  assumes "list_all frame_ok frames"
  shows "packet_loop opus (\<lambda>_. False) (\<lambda>_. None) (pre @ concat (map packet frames)) (length pre) st =
     fold (decode_frame opus None) frames st"
  using assms
proof (induction frames arbitrary: pre st)
  case Nil
  then show ?case by (subst packet_loop.simps) simp
next
  case (Cons frame frames)
  then have "packet_loop opus (\<lambda>_. False) (\<lambda>_. None) (pre @ concat (map packet (frame # frames))) (length pre) st =
      packet_loop opus (\<lambda>_. False) (\<lambda>_. None) ((pre @ packet frame) @ concat (map packet frames))
        (length (pre @ packet frame)) (decode_frame opus None frame st)"
    using packet_loop_step [of frame opus pre "concat (map packet frames)" st] by simp
  also have "\<dots> = fold (decode_frame opus None) frames (decode_frame opus None frame st)"
    using Cons.prems by (intro Cons.IH) simp
  finally show ?case by simp
qed

section \<open>A track file\<close>

text \<open>What a well-formed track file is for a loaded header: the table starts at 0, and each of its
  entries and the next one (or the end of the file) bound a chunk the service accepts.\<close>

definition table_entry :: "bytes \<Rightarrow> nat \<Rightarrow> nat" where
  "table_entry contents k = unat (rd_u32 contents (JBA_HEADER_BYTES + k * 4))"

definition file_bounds :: "player_service_track_info \<Rightarrow> bytes \<Rightarrow> nat \<Rightarrow> nat \<times> nat" where
  "file_bounds info contents k =
     (table_entry contents k,
      if k + 1 < ti_lookup_table_len info then table_entry contents (k + 1)
      else ti_total_file_size info - ti_data_offset info)"

definition chunk_bytes :: "player_service_track_info \<Rightarrow> bytes \<Rightarrow> nat \<Rightarrow> bytes" where
  "chunk_bytes info contents k =
     (let (chunk_start, chunk_end) = file_bounds info contents k in
      rd_bytes contents (ti_data_offset info + chunk_start) (chunk_end - chunk_start))"

definition file_served :: "cart_env \<Rightarrow> string \<Rightarrow> bytes \<Rightarrow> bool" where
  "file_served fs path contents \<longleftrightarrow> ce_fopen_ok fs path \<and> (\<forall>off. ce_fseek_ok fs path off) \<and>
     (\<forall>off n. ce_fread fs path off n = take n (drop off contents))"

definition track_file :: "cart_env \<Rightarrow> string \<Rightarrow> player_service_track_info \<Rightarrow> bytes \<Rightarrow> bool" where
  "track_file fs mp info contents \<longleftrightarrow>
     length (mp @ ''/'' @ ti_filename info) < PLAYER_SVC_FULL_PATH_LEN \<and>
     file_served fs (mp @ ''/'' @ ti_filename info) contents \<and>
     length contents = ti_total_file_size info \<and>
     JBA_HEADER_BYTES + ti_lookup_table_len info * 4 \<le> ti_data_offset info \<and>
     ti_data_offset info < ti_total_file_size info \<and>
     table_entry contents 0 = 0 \<and>
     (\<forall>k < ti_lookup_table_len info.
        chunk_range_ok (ti_total_file_size info - ti_data_offset info) (file_bounds info contents k))"

text \<open>The cached window is a copy of a part of the table.\<close>

definition window_reflects :: "player_service_track_info \<Rightarrow> bytes \<Rightarrow> bool" where
  "window_reflects info contents \<longleftrightarrow>
     (\<forall>i < ti_lookup_window_entry_count info.
        unat (ti_lookup_window info ! i) = table_entry contents (ti_lookup_window_start info + i))"

lemma rd_u32s_part:
  assumes "i < n" and "off + n * 4 \<le> length b"
  shows "rd_u32s (take (n * 4) (drop off b)) n ! i = rd_u32 b (off + 4 * i)"
proof -
  have "4 * i + 4 \<le> n * 4" using assms(1) by linarith
  then have "rd_u32 (take (n * 4) (drop off b)) (4 * i) = rd_u32 b (off + 4 * i)"
    using assms(2) by (simp add: rd_u32_nth add.commute add.left_commute)
  then show ?thesis using assms(1) by (simp add: rd_u32s_def)
qed

lemma window_bounds_reflect:
  assumes "window_reflects info contents" and "window_ok info"
    and "player_service_lookup_window_contains_chunk info k"
  shows "window_bounds info (k - ti_lookup_window_start info) = file_bounds info contents k"
proof -
  note e = contains_entry_ok [OF assms(2,3)]
  have "unat (ti_lookup_window info ! (k - ti_lookup_window_start info)) = table_entry contents k"
    using assms(1) e(2,3) by (simp add: window_reflects_def)
  moreover have "(k - ti_lookup_window_start info + 1 < ti_lookup_window_entry_count info) =
      (k + 1 < ti_lookup_table_len info)"
    using assms(2,3) e(2-4)
    by (auto simp: window_ok_def player_service_lookup_window_contains_chunk_def Let_def split: if_splits)
  moreover have "unat (ti_lookup_window info ! (k - ti_lookup_window_start info + 1)) = table_entry contents (k + 1)"
    if "k - ti_lookup_window_start info + 1 < ti_lookup_window_entry_count info"
    using assms(1) e(3) that by (simp add: window_reflects_def)
  ultimately show ?thesis by (simp add: window_bounds_def file_bounds_def)
qed

lemma load_window_reads_table:
  assumes "track_file fs mp info contents" and "cs_mount_point c = mp"
    and "k < ti_lookup_table_len info" and "window_ok info"
  obtains info' where "player_service_load_lookup_window fs c False False k info = (ESP_OK, info')"
    "window_reflects info' contents"
proof -
  let ?n = "min (ti_lookup_table_len info - k) PLAYER_SVC_LOOKUP_WINDOW_ENTRIES"
  let ?off = "JBA_HEADER_BYTES + k * 4"
  let ?got = "take (?n * 4) (drop ?off contents)"
  define loaded where "loaded = info\<lparr>ti_lookup_window := rd_u32s ?got ?n @ drop ?n (ti_lookup_window info),
      ti_lookup_window_start := k, ti_lookup_window_entry_count := ?n\<rparr>"
  have "length (mp @ ''/'' @ ti_filename info) \<le> PLAYER_SVC_FULL_PATH_LEN - 1"
    using assms(1) by (auto simp: track_file_def)
  then have path: "track_full_path c (ti_filename info) = mp @ ''/'' @ ti_filename info"
    by (simp only: track_full_path_def cartridge_service_get_mount_point_def assms(2) take_all)
  have n: "0 < ?n" "k + ?n \<le> ti_lookup_table_len info" using assms(3) by (auto simp: player_consts)
  have fit: "?off + ?n * 4 \<le> ti_data_offset info" "?off + ?n * 4 \<le> length contents"
    using assms(1) n(2) by (auto simp: track_file_def)
  have entry: "unat (ti_lookup_window loaded ! i) = table_entry contents (k + i)" if "i < ?n" for i
    using rd_u32s_part [OF that fit(2)] that
    by (simp add: loaded_def nth_append table_entry_def algebra_simps)
  then have reflects: "window_reflects loaded contents"
    unfolding window_reflects_def by (simp add: loaded_def)
  have more: "k + ?n < ti_lookup_table_len info \<Longrightarrow> 1 < ?n"
    by (auto simp: player_consts min_def split: if_splits)
  have ok: "window_entry_ok loaded i"
    if "i < (if k + ?n < ti_lookup_table_len info then ?n - 1 else ?n)" for i
  proof -
    have i: "i < ?n" "i + 1 < ?n \<longleftrightarrow> k + i + 1 < ti_lookup_table_len info"
      using that n more by (auto split: if_splits)
    have "window_bounds loaded i = file_bounds info contents (k + i)"
      using entry [OF i(1)] entry [of "i + 1"] i(2)
      by (simp add: window_bounds_def file_bounds_def) (simp add: loaded_def)
    moreover have "k + i < ti_lookup_table_len info" using i(1) n(2) by linarith
    moreover have "ti_total_file_size loaded = ti_total_file_size info" "ti_data_offset loaded = ti_data_offset info"
      by (simp_all add: loaded_def)
    ultimately show ?thesis using assms(1) by (simp add: window_entry_ok_iff track_file_def)
  qed
  have first: "\<not> (k = 0 \<and> ti_lookup_window loaded ! 0 \<noteq> 0)"
  proof -
    have "unat (ti_lookup_window loaded ! 0) = table_entry contents k" using entry [of 0] n(1) by simp
    moreover have "table_entry contents 0 = 0" using assms(1) by (simp add: track_file_def)
    ultimately have "k = 0 \<longrightarrow> unat (ti_lookup_window loaded ! 0) = 0" by simp
    then show ?thesis unfolding unat_eq_0 by auto
  qed
  have "player_service_load_lookup_window fs c False False k info = (ESP_OK, loaded)"
  proof -
    have served: "file_served fs (mp @ ''/'' @ ti_filename info) contents"
      using assms(1) by (simp add: track_file_def)
    have sizes: "\<not> (?off > ti_data_offset info \<or> ?n * 4 > ti_data_offset info - ?off)"
      "length ?got = ?n * 4" using fit by auto
    have list: "list_all (window_entry_ok loaded) [0..<if k + ?n < ti_lookup_table_len info then ?n - 1 else ?n]"
      using ok by (simp add: list_all_iff)
    show ?thesis
      unfolding player_service_load_lookup_window_def Let_def
      using assms(3) served sizes first list
      by (simp add: path file_served_def min_def loaded_def del: One_nat_def
             cong: if_cong)
  qed
  then show ?thesis using reflects by (rule that)
qed

lemma get_bounds_of_table:
  assumes "track_file fs mp info contents" and "cs_mount_point c = mp"
    and "k < ti_lookup_table_len info" and "window_ok info" and "window_reflects info contents"
  obtains info' where
    "player_service_get_chunk_bounds fs c False False k info = (ESP_OK, Some (file_bounds info contents k), info')"
    "window_ok info'" "window_reflects info' contents"
    "ti_filename info' = ti_filename info" "ti_lookup_table_len info' = ti_lookup_table_len info"
    "ti_data_offset info' = ti_data_offset info" "ti_total_file_size info' = ti_total_file_size info"
proof (cases "player_service_lookup_window_contains_chunk info k")
  case True
  then have "player_service_get_chunk_bounds fs c False False k info = (ESP_OK, Some (file_bounds info contents k), info)"
    using assms(3) window_bounds_reflect [OF assms(5,4)]
    by (simp add: player_service_get_chunk_bounds_def)
  then show ?thesis using assms(4,5) by (intro that [of info]) simp_all
next
  case False
  obtain info' where l: "player_service_load_lookup_window fs c False False k info = (ESP_OK, info')"
    "window_reflects info' contents"
    using load_window_reads_table [OF assms(1-4)] .
  note ok = load_window_ok [OF l(1) assms(4)] and fields = load_window_fields [OF l(1)]
  have "window_bounds info' (k - ti_lookup_window_start info') = file_bounds info contents k"
    using window_bounds_reflect [OF l(2) ok(1,2)] fields by (simp add: file_bounds_def)
  then have "player_service_get_chunk_bounds fs c False False k info =
      (ESP_OK, Some (file_bounds info contents k), info')"
    using assms(3) False l(1) by (simp add: player_service_get_chunk_bounds_def)
  then show ?thesis using ok(1) l(2) fields by (intro that [of info'])
qed

section \<open>Facts about the reader\<close>

text \<open>The cartridge service can take a read, and reading a file through it gives a piece of it.\<close>

definition cart_ready :: "string \<Rightarrow> cart_state \<Rightarrow> bool" where
  "cart_ready mp c \<longleftrightarrow> cart_io_inv mp c \<and> cs_mounted c \<and> cs_read_queue c = Some []"

lemma read_file_served:
  assumes "file_served fs (mp @ ''/'' @ name) contents" and "cart_ready mp c"
    and "length (mp @ ''/'' @ name) < PLAYER_SVC_FULL_PATH_LEN"
  obtains c' where "player_read_file fs name off c =
      (Inr (ESP_OK, take CARTRIDGE_SERVICE_READ_BUF_SIZE (drop off contents)), c')" "cart_ready mp c'"
proof -
  obtain c1 where c1: "cartridge_service_read_chunk_async (Some name) off True c = (ESP_OK, c1)"
    using assms(2) by (simp add: cart_ready_def cartridge_service_read_chunk_async_def Let_def)
  note acc = read_accepted [OF c1]
  have short: "length name \<le> 255" "length (mp @ ''/'' @ name) \<le> 319"
    using assms(3) by (simp_all add: PLAYER_SVC_FULL_PATH_LEN_def)
  then have path: "cart_full_path mp (take 255 name) = mp @ ''/'' @ name"
    by (simp only: cart_full_path_def take_all)
  have io: "cart_io_inv mp c" using assms(2) by (simp add: cart_ready_def)
  have served: "cartridge_service_get_read_result True True (snd (cartridge_reader_task fs c1)) =
      (ESP_OK, Some (take CARTRIDGE_SERVICE_READ_BUF_SIZE (drop off contents)))"
    using read_served [OF io c1, of fs] assms(1) unfolding path by (simp add: file_served_def)
  have "cart_io_inv mp c1" using read_chunk_async_inv(2) [OF io, of "Some name" off True] c1 by simp
  then have "cart_io_inv mp (snd (cartridge_reader_task fs c1))" by (rule reader_task_io_inv)
  moreover have "cs_mounted (snd (cartridge_reader_task fs c1))"
    "cs_read_queue (snd (cartridge_reader_task fs c1)) = Some []"
    using acc(2,4) by (simp_all add: cartridge_reader_task_def)
  ultimately show ?thesis
    using c1 served by (intro that) (simp_all add: player_read_file_def cart_ready_def)
qed

text \<open>The loop invariant of the reader: the buffer, when there is one, holds the file from the
  start of its window on.\<close>

definition buf_of :: "player_service_track_info \<Rightarrow> bytes \<Rightarrow> nat \<Rightarrow> bytes" where
  "buf_of info contents start =
     take CARTRIDGE_SERVICE_READ_BUF_SIZE (drop (ti_data_offset info + start) contents)"

definition reader_inv ::
    "cart_env \<Rightarrow> string \<Rightarrow> player_service_track_info \<Rightarrow> bytes \<Rightarrow> reader_state \<Rightarrow> bool" where
  "reader_inv fs mp info contents st \<longleftrightarrow>
     cart_ready mp (rd_cart st) \<and> window_ok (rd_info st) \<and> window_reflects (rd_info st) contents \<and>
     ti_filename (rd_info st) = ti_filename info \<and>
     ti_lookup_table_len (rd_info st) = ti_lookup_table_len info \<and>
     ti_data_offset (rd_info st) = ti_data_offset info \<and>
     ti_total_file_size (rd_info st) = ti_total_file_size info \<and>
     (\<forall>b. rd_buf st = Some b \<longrightarrow> b = buf_of info contents (rd_window_start st))"

text \<open>A message carries chunk \<open>k\<close> when its bytes are those of the chunk in the file.\<close>

definition carries :: "player_service_track_info \<Rightarrow> bytes \<Rightarrow> nat \<Rightarrow> player_service_chunk_msg \<Rightarrow> bool" where
  "carries info contents k msg \<longleftrightarrow> cm_chunk_index msg = k \<and> \<not> cm_is_eof msg \<and> \<not> cm_release_buf msg \<and>
     cm_len msg = length (chunk_bytes info contents k) \<and>
     (\<exists>data. cm_data msg = Some data \<and> take (cm_len msg) data = chunk_bytes info contents k)"

lemma chunk_in_buffer:
  assumes "length contents = ti_total_file_size info"
    and "chunk_range_ok (ti_total_file_size info - ti_data_offset info) (s, e)"
    and "start \<le> s" and "e \<le> start + length (buf_of info contents start)"
  shows "take (e - s) (drop (s - start) (buf_of info contents start)) =
           rd_bytes contents (ti_data_offset info + s) (e - s)"
    and "length (rd_bytes contents (ti_data_offset info + s) (e - s)) = e - s"
proof -
  have len: "length (buf_of info contents start) \<le> CARTRIDGE_SERVICE_READ_BUF_SIZE" "s < e"
    "e \<le> ti_total_file_size info - ti_data_offset info"
    using assms(2) by (auto simp: buf_of_def chunk_range_ok_def)
  have "s - start + (e - s) \<le> CARTRIDGE_SERVICE_READ_BUF_SIZE" using assms(3,4) len by linarith
  from rd_rd_bytes [OF this, of contents "ti_data_offset info + start"]
  show "take (e - s) (drop (s - start) (buf_of info contents start)) =
           rd_bytes contents (ti_data_offset info + s) (e - s)"
    using assms(3) by (simp add: rd_bytes_def buf_of_def)
  show "length (rd_bytes contents (ti_data_offset info + s) (e - s)) = e - s"
    using assms(1) len(2,3) by (intro length_rd_bytes) linarith
qed

lemma fresh_buffer_holds_chunk:
  assumes "length contents = ti_total_file_size info"
    and "chunk_range_ok (ti_total_file_size info - ti_data_offset info) (s, e)"
  shows "e \<le> s + length (buf_of info contents s)"
  using assms by (auto simp: buf_of_def chunk_range_ok_def player_consts CARTRIDGE_SERVICE_READ_BUF_SIZE_def)

definition audio_msgs :: "player_service_chunk_msg list \<Rightarrow> player_service_chunk_msg list" where
  "audio_msgs msgs = filter (\<lambda>m. m \<noteq> release_msg) msgs"

lemma audio_msgs_simps [simp]:
  "audio_msgs [] = []" "audio_msgs (release_msg # ms) = audio_msgs ms"
  "audio_msgs (xs @ ys) = audio_msgs xs @ audio_msgs ys" "audio_msgs [release_msg] = []"
  "carries info contents k m \<Longrightarrow> audio_msgs (m # ms) = m # audio_msgs ms"
  by (auto simp: audio_msgs_def release_msg_def carries_def)

lemma reader_fetch_ok:
  assumes "track_file fs mp info contents" and "reader_inv fs mp info contents st"
    and "chunk_range_ok (ti_total_file_size info - ti_data_offset info) (s, e)"
  obtains st' rel where "reader_fetch fs (\<lambda>_. False) s (e - s) st = (None, st')"
    "reader_inv fs mp info contents st'" "rd_buf st' = Some (buf_of info contents s)"
    "rd_window_start st' = s" "rd_info st' = rd_info st" "rd_out st' = rd_out st @ rel" "audio_msgs rel = []"
proof -
  let ?rel = "if rd_buf st \<noteq> None then [release_msg] else []"
  have tf: "length contents = ti_total_file_size info"
    "file_served fs (mp @ ''/'' @ ti_filename info) contents"
    "length (mp @ ''/'' @ ti_filename info) < PLAYER_SVC_FULL_PATH_LEN"
    using assms(1) by (simp_all add: track_file_def)
  have inv: "cart_ready mp (rd_cart st)" "ti_filename (rd_info st) = ti_filename info"
    "ti_data_offset (rd_info st) = ti_data_offset info"
    using assms(2) by (simp_all add: reader_inv_def)
  obtain c' where c': "player_read_file fs (ti_filename info) (ti_data_offset info + s) (rd_cart st) =
      (Inr (ESP_OK, buf_of info contents s), c')" "cart_ready mp c'"
    using read_file_served [OF tf(2) inv(1) tf(3)] unfolding buf_of_def .
  have big: "\<not> length (buf_of info contents s) < e - s"
    using fresh_buffer_holds_chunk [OF tf(1) assms(3)] by linarith
  let ?st' = "st\<lparr>rd_cart := c', rd_buf := Some (buf_of info contents s), rd_window_start := s,
     rd_checked_out := True, rd_out := rd_out st @ ?rel\<rparr>"
  have "reader_fetch fs (\<lambda>_. False) s (e - s) st = (None, ?st')"
    using c'(1) inv(2,3) big by (simp add: reader_fetch_def Let_def)
  moreover have "reader_inv fs mp info contents ?st'" using assms(2) c'(2) by (simp add: reader_inv_def)
  ultimately show ?thesis by (rule that [where rel = ?rel]) simp_all
qed

lemma reader_chunk_ok:
  assumes "track_file fs mp info contents" and "reader_inv fs mp info contents st"
    and "k < ti_lookup_table_len info"
  obtains st' msg rel where "reader_chunk fs (\<lambda>_. False) k st = (None, st')"
    "reader_inv fs mp info contents st'" "rd_out st' = rd_out st @ rel @ [msg]"
    "audio_msgs rel = []" "carries info contents k msg"
proof -
  obtain s e where b: "file_bounds info contents k = (s, e)" by fastforce
  have range: "chunk_range_ok (ti_total_file_size info - ti_data_offset info) (s, e)"
    and len: "length contents = ti_total_file_size info"
    using assms(1,3) b by (auto simp: track_file_def)
  have inv: "cs_mount_point (rd_cart st) = mp" "window_ok (rd_info st)" "window_reflects (rd_info st) contents"
    "ti_lookup_table_len (rd_info st) = ti_lookup_table_len info"
    using assms(2) by (auto simp: reader_inv_def cart_ready_def cart_io_inv_def)
  have same: "ti_filename (rd_info st) = ti_filename info" "ti_data_offset (rd_info st) = ti_data_offset info"
    "ti_total_file_size (rd_info st) = ti_total_file_size info"
    using assms(2) by (simp_all add: reader_inv_def)
  have fb: "file_bounds (rd_info st) = file_bounds info" using inv(4) same by (simp add: fun_eq_iff file_bounds_def)
  have tf: "track_file fs mp (rd_info st) contents"
    using assms(1) inv(4) same fb by (simp add: track_file_def)
  obtain info' where i: "player_service_get_chunk_bounds fs (rd_cart st) False False k (rd_info st) =
      (ESP_OK, Some (s, e), info')"
    and i2: "reader_inv fs mp info contents (st\<lparr>rd_info := info'\<rparr>)"
  proof (rule get_bounds_of_table [OF tf inv(1) _ inv(2,3)])
    show "k < ti_lookup_table_len (rd_info st)" using assms(3) inv(4) by simp
  next
    fix info' assume g: "player_service_get_chunk_bounds fs (rd_cart st) False False k (rd_info st) =
        (ESP_OK, Some (file_bounds (rd_info st) contents k), info')"
      "window_ok info'" "window_reflects info' contents"
      "ti_filename info' = ti_filename (rd_info st)" "ti_lookup_table_len info' = ti_lookup_table_len (rd_info st)"
      "ti_data_offset info' = ti_data_offset (rd_info st)"
      "ti_total_file_size info' = ti_total_file_size (rd_info st)"
    have "file_bounds (rd_info st) contents k = (s, e)"
      using b fb by simp
    then show thesis
      using g assms(2) by (intro that [of info']) (simp_all add: reader_inv_def)
  qed
  let ?st1 = "st\<lparr>rd_info := info'\<rparr>"
  let ?fits = "case rd_buf ?st1 of None \<Rightarrow> False
     | Some rd \<Rightarrow> s \<ge> rd_window_start ?st1 \<and> e \<le> rd_window_start ?st1 + length rd"
  obtain st2 rel buf where st2: "(if ?fits then (None, ?st1) else reader_fetch fs (\<lambda>_. False) s (e - s) ?st1) = (None, st2)"
    "reader_inv fs mp info contents st2" "rd_buf st2 = Some buf" "buf = buf_of info contents (rd_window_start st2)"
    "rd_window_start st2 \<le> s" "e \<le> rd_window_start st2 + length buf"
    "rd_out st2 = rd_out st @ rel" "audio_msgs rel = []"
  proof (cases ?fits)
    case True
    then obtain buf where "rd_buf ?st1 = Some buf" "rd_window_start ?st1 \<le> s"
      "e \<le> rd_window_start ?st1 + length buf" by (auto split: option.splits)
    moreover from this i2 have "buf = buf_of info contents (rd_window_start ?st1)" by (simp add: reader_inv_def)
    ultimately show ?thesis using True i2 by (intro that [of ?st1 buf "[]"]) simp_all
  next
    case False
    obtain st' rel where f: "reader_fetch fs (\<lambda>_. False) s (e - s) ?st1 = (None, st')"
      "reader_inv fs mp info contents st'" "rd_buf st' = Some (buf_of info contents s)"
      "rd_window_start st' = s" "rd_out st' = rd_out ?st1 @ rel" "audio_msgs rel = []"
      using reader_fetch_ok [OF assms(1) i2 range] by metis
    then show ?thesis
      using False fresh_buffer_holds_chunk [OF len range]
      by (intro that [of st' "buf_of info contents s" rel]) simp_all
  qed
  let ?msg = "\<lparr>cm_data = map_option (drop (s - rd_window_start st2)) (rd_buf st2),
      cm_len = e - s, cm_chunk_index = k, cm_is_eof = False, cm_release_buf = False\<rparr>"
  have long: "\<not> e - s \<le> PLAYER_SVC_CHUNK_CRC_BYTES" using range by (auto simp: chunk_range_ok_def)
  have "reader_chunk fs (\<lambda>_. False) k st = (None, st2\<lparr>rd_out := rd_out st2 @ [?msg]\<rparr>)"
    unfolding reader_chunk_def Let_def by (simp add: i long st2(1) [simplified])
  moreover have "carries info contents k ?msg"
    using chunk_in_buffer [OF len range st2(5), folded st2(4), OF st2(6)] st2(3) b
    by (simp add: carries_def chunk_bytes_def)
  moreover have "reader_inv fs mp info contents (st2\<lparr>rd_out := rd_out st2 @ [?msg]\<rparr>)"
    using st2(2) by (simp add: reader_inv_def)
  ultimately show ?thesis using st2(7,8) by (intro that [of "st2\<lparr>rd_out := rd_out st2 @ [?msg]\<rparr>" rel ?msg]) simp_all
qed

lemma reader_chunks_ok:
  assumes "track_file fs mp info contents" and "reader_inv fs mp info contents st"
    and "\<forall>k \<in> set ks. k < ti_lookup_table_len info"
  shows "\<exists>st' out. reader_chunks fs (\<lambda>_ _. False) ks st = (ESP_OK, st') \<and>
     reader_inv fs mp info contents st' \<and> rd_out st' = rd_out st @ out \<and>
     list_all2 (carries info contents) ks (audio_msgs out)"
  using assms(2,3)
proof (induction ks arbitrary: st)
  case Nil
  then show ?case by simp
next
  case (Cons k ks)
  obtain st1 msg rel where c: "reader_chunk fs (\<lambda>_. False) k st = (None, st1)"
    "reader_inv fs mp info contents st1" "rd_out st1 = rd_out st @ rel @ [msg]"
    "audio_msgs rel = []" "carries info contents k msg"
    by (rule reader_chunk_ok [OF assms(1) Cons.prems(1), of k]) (use Cons.prems(2) in simp, rule that)
  obtain st' out where "reader_chunks fs (\<lambda>_ _. False) ks st1 = (ESP_OK, st')"
    "reader_inv fs mp info contents st'" "rd_out st' = rd_out st1 @ out"
    "list_all2 (carries info contents) ks (audio_msgs out)"
    using Cons.IH [OF c(2)] Cons.prems(2) by auto
  with c show ?case by (intro exI [of _ st'] exI [of _ "rel @ [msg] @ out"]) simp
qed

lemma reader_pass_ok:
  assumes "track_file fs mp info contents" and "cart_ready mp c"
    and "window_ok info" and "window_reflects info contents" and "start < ti_lookup_table_len info"
  obtains st out where "reader_pass fs (\<lambda>_ _. False) start info c = (ESP_OK, st)"
    "rd_out st = out @ [eof_msg]"
    "list_all2 (carries info contents) [start..<ti_lookup_table_len info] (audio_msgs out)"
    "cs_open_file (rd_cart st) = None"
proof -
  let ?st = "\<lparr>rd_cart = c, rd_info = info, rd_buf = None, rd_window_start = 0, rd_checked_out = False, rd_out = []\<rparr>"
  have "reader_inv fs mp info contents ?st" using assms(2-4) by (simp add: reader_inv_def)
  from reader_chunks_ok [OF assms(1) this, of "[start..<ti_lookup_table_len info]"]
  obtain st' out where "reader_chunks fs (\<lambda>_ _. False) [start..<ti_lookup_table_len info] ?st = (ESP_OK, st')"
    "rd_out st' = out" "list_all2 (carries info contents) [start..<ti_lookup_table_len info] (audio_msgs out)"
    by auto
  then show ?thesis
    using assms(5) by (intro that [of "st'\<lparr>rd_checked_out := False, rd_out := out @ [eof_msg],
        rd_cart := cartridge_service_close_file (rd_cart st')\<rparr>" out])
      (simp_all add: reader_pass_def Let_def cart_op_defs)
qed

section \<open>From the file to the samples\<close>

text \<open>A chunk with a valid CRC whose data are the packets of some frames.\<close>

definition chunk_holds :: "(bytes \<Rightarrow> u32) \<Rightarrow> bytes \<Rightarrow> bytes list \<Rightarrow> bool" where
  "chunk_holds crc32 chunk frames \<longleftrightarrow> list_all frame_ok frames \<and>
     chunk = u32_bytes (crc32 (concat (map packet frames))) @ concat (map packet frames)"

lemma decoder_message_plays:
  assumes "carries info contents k msg" and "chunk_holds crc32 (chunk_bytes info contents k) frames"
    and "PLAYER_SVC_CHUNK_CRC_BYTES < length (chunk_bytes info contents k)"
    and "length (chunk_bytes info contents k) \<le> PLAYER_SVC_CHUNK_MAX_BYTES"
  shows "decoder_message crc32 opus (\<lambda>_. False) (\<lambda>_. None) msg s st =
     (decoder_chunk k True s, fold (decode_frame opus None) frames st)"
proof -
  let ?p = "concat (map packet frames)" and ?c = "chunk_bytes info contents k"
  obtain data where m: "\<not> cm_is_eof msg" "\<not> cm_release_buf msg" "cm_chunk_index msg = k"
    "cm_len msg = length ?c" "cm_data msg = Some data" "take (length ?c) data = ?c"
    using assms(1) by (auto simp: carries_def)
  have c: "?c = u32_bytes (crc32 ?p) @ ?p" "list_all frame_ok frames"
    using assms(2) by (auto simp: chunk_holds_def)
  obtain rest where data: "data = u32_bytes (crc32 ?p) @ ?p @ rest"
    using m(6) c(1) by (metis append_assoc append_take_drop_id)
  have n: "length ?c = 4 + length ?p" using c(1) by simp
  have body: "rd_bytes data PLAYER_SVC_CHUNK_CRC_BYTES (length ?c - PLAYER_SVC_CHUNK_CRC_BYTES) = ?p"
    and crc: "rd_u32 data 0 = crc32 ?p"
    unfolding data n using rd_u32_append [of "[]" 0]
    by (simp_all add: rd_bytes_def PLAYER_SVC_CHUNK_CRC_BYTES_def)
  have "packet_loop opus (\<lambda>_. False) (\<lambda>_. None) ?p 0 st = fold (decode_frame opus None) frames st"
    using packet_loop_packets [OF c(2), of opus "[]"] by simp
  then show ?thesis
    using m(1-5) assms(3,4) body crc by (simp add: decoder_message_def chunk_crc_ok_def)
qed

lemma decode_frame_running [simp]: "fst (decode_frame opus None frame st) = fst st"
  by (simp add: decode_frame_def case_prod_beta Let_def)

lemma decode_frames_running [simp]: "fst (fold (decode_frame opus None) frames st) = fst st"
  by (induction frames arbitrary: st) simp_all

lemma audio_msgs_Cons: "audio_msgs (m # ms) = (if m = release_msg then audio_msgs ms else m # audio_msgs ms)"
  by (simp add: audio_msgs_def)

text \<open>The decoder on a queue of messages that carry the chunks \<open>ks\<close>, then the EOF.\<close>

lemma decoder_loop_plays:
  assumes "list_all2 (carries info contents) ks (audio_msgs msgs)" and "fst st"
    and "\<forall>k \<in> set ks. chunk_holds crc32 (chunk_bytes info contents k) (frames k) \<and>
           PLAYER_SVC_CHUNK_CRC_BYTES < length (chunk_bytes info contents k) \<and>
           length (chunk_bytes info contents k) \<le> PLAYER_SVC_CHUNK_MAX_BYTES"
  shows "snd (decoder_loop crc32 opus (\<lambda>_ _. False) (\<lambda>_ _. None) n (msgs @ [eof_msg]) s st) =
     (False, snd (fold (decode_frame opus None) (concat (map frames ks)) st))"
  using assms
proof (induction msgs arbitrary: ks n s st)
  case Nil
  then show ?case by (simp add: decoder_message_def eof_msg_def)
next
  case (Cons m msgs)
  show ?case
  proof (cases "m = release_msg")
    case True
    then have "decoder_message crc32 opus (\<lambda>_. False) (\<lambda>_. None) m s st =
        (s\<lparr>pl_buf_pool_sem := pl_buf_pool_sem s + 1\<rparr>, st)"
      by (simp add: decoder_message_def release_msg_def)
    then show ?thesis using Cons.IH [OF _ Cons.prems(2,3)] Cons.prems(1,2) True by (simp add: audio_msgs_Cons)
  next
    case False
    then obtain k ks' where ks: "ks = k # ks'" "carries info contents k m"
      "list_all2 (carries info contents) ks' (audio_msgs msgs)"
      using Cons.prems(1) by (cases ks) (auto simp: audio_msgs_Cons)
    have "decoder_message crc32 opus (\<lambda>_. False) (\<lambda>_. None) m s st =
        (decoder_chunk k True s, fold (decode_frame opus None) (frames k) st)"
      by (rule decoder_message_plays [OF ks(2)]) (use Cons.prems(3) ks(1) in simp_all)
    then show ?thesis
      using Cons.IH [OF ks(3), of "fold (decode_frame opus None) (frames k) st"] Cons.prems(2,3) ks(1) by simp
  qed
qed

lemma chunk_bytes_length:
  assumes "track_file fs mp info contents" and "k < ti_lookup_table_len info"
  shows "PLAYER_SVC_CHUNK_CRC_BYTES < length (chunk_bytes info contents k) \<and>
      length (chunk_bytes info contents k) \<le> PLAYER_SVC_CHUNK_MAX_BYTES"
proof -
  obtain s e where b: "file_bounds info contents k = (s, e)" by fastforce
  have "chunk_range_ok (ti_total_file_size info - ti_data_offset info) (s, e)"
    "length contents = ti_total_file_size info"
    using assms b by (auto simp: track_file_def)
  then show ?thesis by (auto simp: chunk_bytes_def b chunk_range_ok_def)
qed

text \<open>The packets of a list of frames, whatever the lengths of the frames up to the maximum of
  1275 bytes (one- and two-byte prefixes), are split again into exactly these frames, each
  handed to the decoder once and in order.\<close>

theorem player_packets_roundtrip:
  assumes "list_all frame_ok frames"
  shows "packet_loop opus (\<lambda>_. False) (\<lambda>_. None) (concat (map packet frames)) 0 st =
     fold (decode_frame opus None) frames st"
  using packet_loop_packets [OF assms, of opus "[]"] by simp

text \<open>C14: A reader pass over a well-formed track file that is not stopped ends without an error and
  with the file closed. It queues exactly one message per chunk from the start chunk to the last, in
  order and each with the bytes of that chunk in the file, then the EOF message and nothing else but
  buffer releases: chunks that lie in the buffered 64 KB and chunks that need another read.\<close>

theorem player_reader_delivers:
  assumes "track_file fs mp info contents" and "cart_ready mp c"
    and "window_ok info" and "window_reflects info contents" and "start < ti_lookup_table_len info"
  shows "\<exists>st out. reader_pass fs (\<lambda>_ _. False) start info c = (ESP_OK, st) \<and>
     rd_out st = out @ [eof_msg] \<and> cs_open_file (rd_cart st) = None \<and>
     list_all2 (carries info contents) [start..<ti_lookup_table_len info] (audio_msgs out)"
  using reader_pass_ok [OF assms] by metis

text \<open>C15: From the card to the samples: when every chunk of a well-formed track file holds the
  packets of some frames under a valid CRC, the messages of the reader make the decoder decode
  the frames of all chunks from the start chunk on, in order and nothing else, and then stop.\<close>

theorem player_file_decoded:
  assumes "track_file fs mp info contents" and "cart_ready mp c"
    and "window_ok info" and "window_reflects info contents" and "start < ti_lookup_table_len info"
    and "\<forall>k \<in> {start..<ti_lookup_table_len info}.
           chunk_holds crc32 (chunk_bytes info contents k) (frames k)"
  shows "snd (decoder_loop crc32 opus (\<lambda>_ _. False) (\<lambda>_ _. None) 0
           (rd_out (snd (reader_pass fs (\<lambda>_ _. False) start info c))) s (True, h, [])) =
     (False, snd (fold (decode_frame opus None)
        (concat (map frames [start..<ti_lookup_table_len info])) (True, h, [])))"
proof -
  obtain st out where r: "reader_pass fs (\<lambda>_ _. False) start info c = (ESP_OK, st)"
    "rd_out st = out @ [eof_msg]"
    "list_all2 (carries info contents) [start..<ti_lookup_table_len info] (audio_msgs out)"
    using reader_pass_ok [OF assms(1-5)] by metis
  have "PLAYER_SVC_CHUNK_CRC_BYTES < length (chunk_bytes info contents k) \<and>
      length (chunk_bytes info contents k) \<le> PLAYER_SVC_CHUNK_MAX_BYTES"
    if "k < ti_lookup_table_len info" for k
    using assms(1) that by (intro chunk_bytes_length)
  then show ?thesis
    using decoder_loop_plays [OF r(3), where st = "(True, h, [])"] r(1,2) assms(6) by simp
qed

text \<open>Where the invariant of the player holds, so in every reachable state, the bounds of a chunk
  it resolves, from the cached window or by loading one from the card, describe more than a CRC,
  lie in the data part of the file and fit a buffer of 24 KB, whatever the table in the file says;
  and the invariant is kept by the window that was loaded.\<close>

theorem player_chunk_bounds_in_file:
  assumes "pl_inv mp s"
    and "player_service_get_chunk_bounds fs (pl_cart s) stop1 stop2 k (pl_track_info s) = (ESP_OK, r, info)"
  shows "pl_inv mp (s\<lparr>pl_track_info := info\<rparr>) \<and>
     (\<exists>chunk_start chunk_end. r = Some (chunk_start, chunk_end) \<and>
        chunk_start + PLAYER_SVC_CHUNK_CRC_BYTES < chunk_end \<and>
        chunk_end \<le> ti_total_file_size (pl_track_info s) - ti_data_offset (pl_track_info s) \<and>
        chunk_end - chunk_start \<le> PLAYER_SVC_CHUNK_MAX_BYTES)"
proof
  have w: "window_ok (pl_track_info s)" using assms(1) by (simp add: pl_inv_def position_inv_def track_info_ok_def)
  then obtain a b where "r = Some (a, b)"
    "chunk_range_ok (ti_total_file_size (pl_track_info s) - ti_data_offset (pl_track_info s)) (a, b)"
    using get_chunk_bounds_in_file [OF assms(2)] by metis
  then show "\<exists>chunk_start chunk_end. r = Some (chunk_start, chunk_end) \<and>
        chunk_start + PLAYER_SVC_CHUNK_CRC_BYTES < chunk_end \<and>
        chunk_end \<le> ti_total_file_size (pl_track_info s) - ti_data_offset (pl_track_info s) \<and>
        chunk_end - chunk_start \<le> PLAYER_SVC_CHUNK_MAX_BYTES"
    by (simp add: chunk_range_ok_def)
  show "pl_inv mp (s\<lparr>pl_track_info := info\<rparr>)"
    using assms(1) get_chunk_bounds_fields [OF assms(2)] w
    by (simp add: pl_inv_defs track_info_ok_def)
qed

section \<open>Witnesses\<close>

text \<open>A decoder that gives the bytes of a frame as its samples, a file of two chunks and three frames.\<close>

definition demo_opus :: "unit opus" where
  "demo_opus h frame = ((0, frame), ())"

definition demo_frames :: "nat \<Rightarrow> bytes list" where
  "demo_frames k = (if k = 0 then [[1, 2], [3]] else [[4, 5, 6]])"

definition demo_chunk :: "nat \<Rightarrow> bytes" where
  "demo_chunk k = u32_bytes 7 @ concat (map packet (demo_frames k))"

definition demo_jba :: bytes where
  "demo_jba = replicate 9 0 @ u32_bytes 0 @ u32_bytes 9 @ replicate 495 0 @ demo_chunk 0 @ demo_chunk 1"

definition demo_info :: player_service_track_info where
  "demo_info = player_service_invalidate_lookup_window (track_info_zero\<lparr>ti_filename := ''001.jba'',
     ti_lookup_table_len := 2, ti_data_offset := 512, ti_total_file_size := 529\<rparr>)"

definition demo_fs :: cart_env where
  "demo_fs = demo_card\<lparr>ce_fread := (\<lambda>_ off n. take n (drop off demo_jba))\<rparr>"

lemma demo_info_simps [simp]:
  "ti_filename demo_info = ''001.jba''" "ti_lookup_table_len demo_info = 2"
  "ti_data_offset demo_info = 512" "ti_total_file_size demo_info = 529"
  "window_ok demo_info" "window_reflects demo_info contents"
  by (simp_all add: demo_info_def window_reflects_def)

lemma demo_chunks: "demo_chunk 0 = [7, 0, 0, 0, 2, 1, 2, 1, 3]" "demo_chunk (Suc 0) = [7, 0, 0, 0, 3, 4, 5, 6]"
  by (simp_all add: demo_chunk_def demo_frames_def packet_def packet_header_def u32_bytes_def)

lemma demo_table: "table_entry demo_jba 0 = 0" "table_entry demo_jba (Suc 0) = 9" "length demo_jba = 529"
  "drop 512 demo_jba = demo_chunk 0 @ demo_chunk (Suc 0)"
  using rd_u32_append [of "replicate 9 0" 9 0] rd_u32_append [of "replicate 9 0 @ u32_bytes 0" 13 9]
  by (simp_all add: demo_jba_def table_entry_def demo_chunks JBA_HEADER_BYTES_def)

lemma demo_bounds: "file_bounds demo_info demo_jba 0 = (0, 9)" "file_bounds demo_info demo_jba (Suc 0) = (9, 17)"
  by (simp_all add: file_bounds_def demo_table)

lemma less_two_cases: "k < (2::nat) \<Longrightarrow> P 0 \<Longrightarrow> P (Suc 0) \<Longrightarrow> P k"
  by (cases k) (auto simp: less_Suc_eq)

lemma demo_track_file: "track_file demo_fs ''/sdcard'' demo_info demo_jba"
proof -
  have "chunk_range_ok 17 (file_bounds demo_info demo_jba k)" if "k < 2" for k
    using that by (rule less_two_cases) (simp_all add: demo_bounds chunk_range_ok_def player_consts)
  then show ?thesis
    by (simp add: track_file_def file_served_def demo_fs_def demo_card_def demo_table player_consts
        JBA_HEADER_BYTES_def)
qed

lemma demo_chunk_bytes: "chunk_bytes demo_info demo_jba 0 = demo_chunk 0"
  "chunk_bytes demo_info demo_jba (Suc 0) = demo_chunk (Suc 0)"
proof -
  have "drop 521 demo_jba = drop 9 (drop 512 demo_jba)" by (simp only: drop_drop) simp
  then show "chunk_bytes demo_info demo_jba 0 = demo_chunk 0"
    "chunk_bytes demo_info demo_jba (Suc 0) = demo_chunk (Suc 0)"
    by (simp_all add: chunk_bytes_def demo_bounds rd_bytes_def demo_table demo_chunks)
qed

lemma demo_chunks_hold:
  "\<forall>k \<in> {0..<ti_lookup_table_len demo_info}. chunk_holds (\<lambda>_. 7) (chunk_bytes demo_info demo_jba k) (demo_frames k)"
proof
  fix k assume "k \<in> {0..<ti_lookup_table_len demo_info}"
  then have "k < 2" by simp
  then show "chunk_holds (\<lambda>_. 7) (chunk_bytes demo_info demo_jba k) (demo_frames k)"
    by (rule less_two_cases)
      (simp_all add: demo_chunk_bytes chunk_holds_def demo_chunk_def demo_frames_def frame_ok_def
        PLAYER_SVC_OPUS_MAX_FRAME_LEN_def)
qed

lemma demo_cart_is_ready: "cart_ready ''/sdcard'' demo_cart"
  using demo_cart_inv demo_cart_ready by (simp add: cart_ready_def)

theorem player_packets_roundtrip_witness:
  "packet_loop demo_opus (\<lambda>_. False) (\<lambda>_. None) [2, 1, 2, 1, 3] 0 (True, (), []) = (True, (), [1, 2, 3])"
  using player_packets_roundtrip [of "[[1, 2], [3]]" demo_opus "(True, (), [])"]
  by (simp add: frame_ok_def PLAYER_SVC_OPUS_MAX_FRAME_LEN_def packet_def packet_header_def
      decode_frame_def demo_opus_def)

theorem player_reader_delivers_witness:
  "\<exists>st out. reader_pass demo_fs (\<lambda>_ _. False) 0 demo_info demo_cart = (ESP_OK, st) \<and>
     rd_out st = out @ [eof_msg] \<and> cs_open_file (rd_cart st) = None \<and>
     list_all2 (carries demo_info demo_jba) [0, Suc 0] (audio_msgs out)"
  using player_reader_delivers [OF demo_track_file demo_cart_is_ready, of 0] by (simp add: numeral_2_eq_2)

theorem player_file_decoded_witness:
  "snd (decoder_loop (\<lambda>_. 7) demo_opus (\<lambda>_ _. False) (\<lambda>_ _. None) 0
      (rd_out (snd (reader_pass demo_fs (\<lambda>_ _. False) 0 demo_info demo_cart))) demo_three (True, (), [])) =
   (False, (), [1, 2, 3, 4, 5, 6])"
  using player_file_decoded [OF demo_track_file demo_cart_is_ready _ _ _ demo_chunks_hold, where s = demo_three and opus = demo_opus]
  by (simp add: numeral_2_eq_2 demo_frames_def decode_frame_def demo_opus_def)

definition demo_track_loaded :: pl_state where
  "demo_track_loaded = demo_three\<lparr>pl_cart := demo_cart, pl_track_info := demo_info\<rparr>"

lemma demo_track_loaded_simps: "pl_cart demo_track_loaded = demo_cart" "pl_track_info demo_track_loaded = demo_info"
  by (simp_all add: demo_track_loaded_def)

lemma demo_track_loaded_inv: "pl_inv ''/sdcard'' demo_track_loaded"
  using demo_three_inv demo_cart_inv
  by (simp add: demo_track_loaded_def pl_inv_defs track_info_ok_def JBA_HEADER_BYTES_def player_consts
      demo_three_def pl_boot_def)

theorem player_chunk_bounds_in_file_witness:
  "\<exists>info. pl_inv ''/sdcard'' (demo_track_loaded\<lparr>pl_track_info := info\<rparr>) \<and>
     fst (player_service_get_chunk_bounds demo_fs demo_cart False False 1 demo_info) = ESP_OK"
proof -
  have "cs_mount_point demo_cart = ''/sdcard''"
    using demo_cart_inv demo_cart_ready(1) by (simp add: cart_io_inv_def)
  then obtain info where "player_service_get_chunk_bounds demo_fs demo_cart False False 1 demo_info =
      (ESP_OK, Some (file_bounds demo_info demo_jba 1), info)"
    using get_bounds_of_table [OF demo_track_file, of demo_cart 1] by (metis demo_info_simps(2,5,6) one_less_numeral_iff semiring_norm(76))
  with player_chunk_bounds_in_file [OF demo_track_loaded_inv, of demo_fs False False 1] show ?thesis
    unfolding demo_track_loaded_simps by fastforce
qed

end
