(* ===== verification/Companion_Codec.thy ===== *)
theory Companion_Codec
  imports Player_Props
begin

text \<open>
  The wire format of the companion link, \<^verbatim>\<open>main/companion_api_service.c\<close>: frames with a header of
  twelve bytes, payloads made of type-length-value entries, their writer and their readers. A C
  string is the list of its characters without the NUL; the writer is the part of the transmit
  buffer written so far.
\<close>

section \<open>Constants\<close>

definition COMPANION_API_SPP_CHUNK_MAX_LEN :: nat where "COMPANION_API_SPP_CHUNK_MAX_LEN = 512"
definition COMPANION_API_FRAME_MAX_LEN :: nat where "COMPANION_API_FRAME_MAX_LEN = 2048"
definition COMPANION_API_HEADER_LEN :: nat where "COMPANION_API_HEADER_LEN = 12"
definition COMPANION_API_TLV_HEADER_LEN :: nat where "COMPANION_API_TLV_HEADER_LEN = 4"
definition COMPANION_API_SECRET_LEN :: nat where "COMPANION_API_SECRET_LEN = 32"
definition COMPANION_API_AUTH_NONCE_LEN :: nat where "COMPANION_API_AUTH_NONCE_LEN = 16"
definition COMPANION_API_HMAC_LEN :: nat where "COMPANION_API_HMAC_LEN = 32"
definition COMPANION_API_CLIENT_ID_MAX_LEN :: nat where "COMPANION_API_CLIENT_ID_MAX_LEN = 36"
definition COMPANION_API_APP_NAME_MAX_LEN :: nat where "COMPANION_API_APP_NAME_MAX_LEN = 32"
definition COMPANION_API_MAGIC0 :: u8 where "COMPANION_API_MAGIC0 = 0x4A"
definition COMPANION_API_MAGIC1 :: u8 where "COMPANION_API_MAGIC1 = 0x43"
definition COMPANION_API_VERSION :: u8 where "COMPANION_API_VERSION = 1"

text \<open>The kinds of frames and the operation codes.\<close>

definition COMPANION_API_FRAME_REQUEST :: u8 where "COMPANION_API_FRAME_REQUEST = 1"
definition COMPANION_API_FRAME_RESPONSE :: u8 where "COMPANION_API_FRAME_RESPONSE = 2"
definition COMPANION_API_FRAME_EVENT :: u8 where "COMPANION_API_FRAME_EVENT = 3"
definition COMPANION_API_FRAME_HEARTBEAT :: u8 where "COMPANION_API_FRAME_HEARTBEAT = 4"
definition COMPANION_API_FRAME_ERROR :: u8 where "COMPANION_API_FRAME_ERROR = 5"

definition COMPANION_API_OP_HELLO :: u16 where "COMPANION_API_OP_HELLO = 0x1"
definition COMPANION_API_OP_CAPABILITIES :: u16 where "COMPANION_API_OP_CAPABILITIES = 0x2"
definition COMPANION_API_OP_PING :: u16 where "COMPANION_API_OP_PING = 0x3"
definition COMPANION_API_OP_PAIR_BEGIN :: u16 where "COMPANION_API_OP_PAIR_BEGIN = 0x10"
definition COMPANION_API_OP_PAIR_STATUS :: u16 where "COMPANION_API_OP_PAIR_STATUS = 0x11"
definition COMPANION_API_OP_PAIR_CANCEL :: u16 where "COMPANION_API_OP_PAIR_CANCEL = 0x12"
definition COMPANION_API_OP_AUTH_CHALLENGE :: u16 where "COMPANION_API_OP_AUTH_CHALLENGE = 0x13"
definition COMPANION_API_OP_AUTH_PROOF :: u16 where "COMPANION_API_OP_AUTH_PROOF = 0x14"
definition COMPANION_API_OP_TRUSTED_LIST :: u16 where "COMPANION_API_OP_TRUSTED_LIST = 0x15"
definition COMPANION_API_OP_TRUSTED_REVOKE :: u16 where "COMPANION_API_OP_TRUSTED_REVOKE = 0x16"
definition COMPANION_API_OP_SNAPSHOT :: u16 where "COMPANION_API_OP_SNAPSHOT = 0x100"
definition COMPANION_API_OP_PLAYBACK_STATUS :: u16 where "COMPANION_API_OP_PLAYBACK_STATUS = 0x101"
definition COMPANION_API_OP_PLAYBACK_CONTROL :: u16 where "COMPANION_API_OP_PLAYBACK_CONTROL = 0x102"
definition COMPANION_API_OP_OUTPUT_STATUS :: u16 where "COMPANION_API_OP_OUTPUT_STATUS = 0x103"
definition COMPANION_API_OP_OUTPUT_SELECT :: u16 where "COMPANION_API_OP_OUTPUT_SELECT = 0x104"
definition COMPANION_API_OP_LIBRARY_ALBUM :: u16 where "COMPANION_API_OP_LIBRARY_ALBUM = 0x110"
definition COMPANION_API_OP_LIBRARY_TRACK_PAGE :: u16 where "COMPANION_API_OP_LIBRARY_TRACK_PAGE = 0x111"
definition COMPANION_API_OP_LIBRARY_COVER :: u16 where "COMPANION_API_OP_LIBRARY_COVER = 0x112"
definition COMPANION_API_OP_WIFI_STATUS :: u16 where "COMPANION_API_OP_WIFI_STATUS = 0x200"
definition COMPANION_API_OP_WIFI_SCAN_START :: u16 where "COMPANION_API_OP_WIFI_SCAN_START = 0x201"
definition COMPANION_API_OP_WIFI_SCAN_RESULTS :: u16 where "COMPANION_API_OP_WIFI_SCAN_RESULTS = 0x202"
definition COMPANION_API_OP_WIFI_CONNECT :: u16 where "COMPANION_API_OP_WIFI_CONNECT = 0x203"
definition COMPANION_API_OP_WIFI_CONNECT_SLOT :: u16 where "COMPANION_API_OP_WIFI_CONNECT_SLOT = 0x204"
definition COMPANION_API_OP_WIFI_DISCONNECT :: u16 where "COMPANION_API_OP_WIFI_DISCONNECT = 0x205"
definition COMPANION_API_OP_WIFI_AUTORECONNECT :: u16 where "COMPANION_API_OP_WIFI_AUTORECONNECT = 0x206"
definition COMPANION_API_OP_WIFI_LIST_SLOTS :: u16 where "COMPANION_API_OP_WIFI_LIST_SLOTS = 0x207"
definition COMPANION_API_OP_WIFI_SAVE_SLOT :: u16 where "COMPANION_API_OP_WIFI_SAVE_SLOT = 0x208"
definition COMPANION_API_OP_WIFI_RECONNECT :: u16 where "COMPANION_API_OP_WIFI_RECONNECT = 0x209"
definition COMPANION_API_OP_LASTFM_STATUS :: u16 where "COMPANION_API_OP_LASTFM_STATUS = 0x300"
definition COMPANION_API_OP_LASTFM_CONTROL :: u16 where "COMPANION_API_OP_LASTFM_CONTROL = 0x301"
definition COMPANION_API_OP_LASTFM_REQUEST_TOKEN :: u16 where "COMPANION_API_OP_LASTFM_REQUEST_TOKEN = 0x302"
definition COMPANION_API_OP_HISTORY_SUMMARY :: u16 where "COMPANION_API_OP_HISTORY_SUMMARY = 0x400"
definition COMPANION_API_OP_HISTORY_ALBUM_PAGE :: u16 where "COMPANION_API_OP_HISTORY_ALBUM_PAGE = 0x401"
definition COMPANION_API_OP_HISTORY_TRACK_PAGE :: u16 where "COMPANION_API_OP_HISTORY_TRACK_PAGE = 0x402"
definition COMPANION_API_OP_HISTORY_CLEAR :: u16 where "COMPANION_API_OP_HISTORY_CLEAR = 0x403"
definition COMPANION_API_OP_BT_AUDIO_STATUS :: u16 where "COMPANION_API_OP_BT_AUDIO_STATUS = 0x500"
definition COMPANION_API_OP_BT_AUDIO_CONTROL :: u16 where "COMPANION_API_OP_BT_AUDIO_CONTROL = 0x501"
definition COMPANION_API_OP_BT_SCAN_START :: u16 where "COMPANION_API_OP_BT_SCAN_START = 0x502"
definition COMPANION_API_OP_BT_SCAN_RESULTS :: u16 where "COMPANION_API_OP_BT_SCAN_RESULTS = 0x503"
definition COMPANION_API_OP_BT_BONDED_LIST :: u16 where "COMPANION_API_OP_BT_BONDED_LIST = 0x504"
definition COMPANION_API_OP_BT_UNBOND :: u16 where "COMPANION_API_OP_BT_UNBOND = 0x505"
definition COMPANION_API_OP_HID_STATUS :: u16 where "COMPANION_API_OP_HID_STATUS = 0x600"
definition COMPANION_API_OP_HID_LED_SET :: u16 where "COMPANION_API_OP_HID_LED_SET = 0x601"
definition COMPANION_API_OP_SCRIPT_STATUS :: u16 where "COMPANION_API_OP_SCRIPT_STATUS = 0x700"
definition COMPANION_API_OP_SCRIPT_LIST :: u16 where "COMPANION_API_OP_SCRIPT_LIST = 0x701"
definition COMPANION_API_OP_SCRIPT_LOG :: u16 where "COMPANION_API_OP_SCRIPT_LOG = 0x702"
definition COMPANION_API_OP_SCRIPT_RUN :: u16 where "COMPANION_API_OP_SCRIPT_RUN = 0x703"
definition COMPANION_API_OP_SYSTEM_REBOOT :: u16 where "COMPANION_API_OP_SYSTEM_REBOOT = 0xF00"
definition COMPANION_API_OP_SYSTEM_REBOOT_DOWNLOAD :: u16 where "COMPANION_API_OP_SYSTEM_REBOOT_DOWNLOAD = 0xF01"

lemmas companion_op_defs =
  COMPANION_API_OP_HELLO_def
  COMPANION_API_OP_CAPABILITIES_def
  COMPANION_API_OP_PING_def
  COMPANION_API_OP_PAIR_BEGIN_def
  COMPANION_API_OP_PAIR_STATUS_def
  COMPANION_API_OP_PAIR_CANCEL_def
  COMPANION_API_OP_AUTH_CHALLENGE_def
  COMPANION_API_OP_AUTH_PROOF_def
  COMPANION_API_OP_TRUSTED_LIST_def
  COMPANION_API_OP_TRUSTED_REVOKE_def
  COMPANION_API_OP_SNAPSHOT_def
  COMPANION_API_OP_PLAYBACK_STATUS_def
  COMPANION_API_OP_PLAYBACK_CONTROL_def
  COMPANION_API_OP_OUTPUT_STATUS_def
  COMPANION_API_OP_OUTPUT_SELECT_def
  COMPANION_API_OP_LIBRARY_ALBUM_def
  COMPANION_API_OP_LIBRARY_TRACK_PAGE_def
  COMPANION_API_OP_LIBRARY_COVER_def
  COMPANION_API_OP_WIFI_STATUS_def
  COMPANION_API_OP_WIFI_SCAN_START_def
  COMPANION_API_OP_WIFI_SCAN_RESULTS_def
  COMPANION_API_OP_WIFI_CONNECT_def
  COMPANION_API_OP_WIFI_CONNECT_SLOT_def
  COMPANION_API_OP_WIFI_DISCONNECT_def
  COMPANION_API_OP_WIFI_AUTORECONNECT_def
  COMPANION_API_OP_WIFI_LIST_SLOTS_def
  COMPANION_API_OP_WIFI_SAVE_SLOT_def
  COMPANION_API_OP_WIFI_RECONNECT_def
  COMPANION_API_OP_LASTFM_STATUS_def
  COMPANION_API_OP_LASTFM_CONTROL_def
  COMPANION_API_OP_LASTFM_REQUEST_TOKEN_def
  COMPANION_API_OP_HISTORY_SUMMARY_def
  COMPANION_API_OP_HISTORY_ALBUM_PAGE_def
  COMPANION_API_OP_HISTORY_TRACK_PAGE_def
  COMPANION_API_OP_HISTORY_CLEAR_def
  COMPANION_API_OP_BT_AUDIO_STATUS_def
  COMPANION_API_OP_BT_AUDIO_CONTROL_def
  COMPANION_API_OP_BT_SCAN_START_def
  COMPANION_API_OP_BT_SCAN_RESULTS_def
  COMPANION_API_OP_BT_BONDED_LIST_def
  COMPANION_API_OP_BT_UNBOND_def
  COMPANION_API_OP_HID_STATUS_def
  COMPANION_API_OP_HID_LED_SET_def
  COMPANION_API_OP_SCRIPT_STATUS_def
  COMPANION_API_OP_SCRIPT_LIST_def
  COMPANION_API_OP_SCRIPT_LOG_def
  COMPANION_API_OP_SCRIPT_RUN_def
  COMPANION_API_OP_SYSTEM_REBOOT_def
  COMPANION_API_OP_SYSTEM_REBOOT_DOWNLOAD_def

text \<open>The types of the entries.\<close>

definition COMPANION_API_TLV_STATUS :: u16 where "COMPANION_API_TLV_STATUS = 0x1"
definition COMPANION_API_TLV_ERROR_CODE :: u16 where "COMPANION_API_TLV_ERROR_CODE = 0x2"
definition COMPANION_API_TLV_ERROR_MESSAGE :: u16 where "COMPANION_API_TLV_ERROR_MESSAGE = 0x3"
definition COMPANION_API_TLV_PROTOCOL_VERSION :: u16 where "COMPANION_API_TLV_PROTOCOL_VERSION = 0x4"
definition COMPANION_API_TLV_FEATURE_BITS :: u16 where "COMPANION_API_TLV_FEATURE_BITS = 0x5"
definition COMPANION_API_TLV_MAX_FRAME :: u16 where "COMPANION_API_TLV_MAX_FRAME = 0x6"
definition COMPANION_API_TLV_MTU :: u16 where "COMPANION_API_TLV_MTU = 0x7"
definition COMPANION_API_TLV_MAX_PAYLOAD :: u16 where "COMPANION_API_TLV_MAX_PAYLOAD = 0x8"
definition COMPANION_API_TLV_AUTHENTICATED :: u16 where "COMPANION_API_TLV_AUTHENTICATED = 0x100"
definition COMPANION_API_TLV_CLIENT_ID :: u16 where "COMPANION_API_TLV_CLIENT_ID = 0x101"
definition COMPANION_API_TLV_APP_NAME :: u16 where "COMPANION_API_TLV_APP_NAME = 0x102"
definition COMPANION_API_TLV_SHARED_SECRET :: u16 where "COMPANION_API_TLV_SHARED_SECRET = 0x103"
definition COMPANION_API_TLV_BUTTON_SEQUENCE :: u16 where "COMPANION_API_TLV_BUTTON_SEQUENCE = 0x104"
definition COMPANION_API_TLV_PAIRING_PENDING :: u16 where "COMPANION_API_TLV_PAIRING_PENDING = 0x105"
definition COMPANION_API_TLV_PAIRING_PROGRESS :: u16 where "COMPANION_API_TLV_PAIRING_PROGRESS = 0x106"
definition COMPANION_API_TLV_PAIRING_REQUIRED :: u16 where "COMPANION_API_TLV_PAIRING_REQUIRED = 0x107"
definition COMPANION_API_TLV_AUTH_NONCE :: u16 where "COMPANION_API_TLV_AUTH_NONCE = 0x108"
definition COMPANION_API_TLV_AUTH_HMAC :: u16 where "COMPANION_API_TLV_AUTH_HMAC = 0x109"
definition COMPANION_API_TLV_TRUSTED_COUNT :: u16 where "COMPANION_API_TLV_TRUSTED_COUNT = 0x10A"
definition COMPANION_API_TLV_CREATED_AT :: u16 where "COMPANION_API_TLV_CREATED_AT = 0x10B"
definition COMPANION_API_TLV_GENERATION :: u16 where "COMPANION_API_TLV_GENERATION = 0x200"
definition COMPANION_API_TLV_UPTIME_MS :: u16 where "COMPANION_API_TLV_UPTIME_MS = 0x201"
definition COMPANION_API_TLV_QUEUE_FREE :: u16 where "COMPANION_API_TLV_QUEUE_FREE = 0x202"
definition COMPANION_API_TLV_RX_FRAMES :: u16 where "COMPANION_API_TLV_RX_FRAMES = 0x203"
definition COMPANION_API_TLV_TX_FRAMES :: u16 where "COMPANION_API_TLV_TX_FRAMES = 0x204"
definition COMPANION_API_TLV_RX_ERRORS :: u16 where "COMPANION_API_TLV_RX_ERRORS = 0x205"
definition COMPANION_API_TLV_PLAYING :: u16 where "COMPANION_API_TLV_PLAYING = 0x300"
definition COMPANION_API_TLV_PAUSED :: u16 where "COMPANION_API_TLV_PAUSED = 0x301"
definition COMPANION_API_TLV_TRACK_INDEX :: u16 where "COMPANION_API_TLV_TRACK_INDEX = 0x302"
definition COMPANION_API_TLV_TRACK_COUNT :: u16 where "COMPANION_API_TLV_TRACK_COUNT = 0x303"
definition COMPANION_API_TLV_POSITION_SEC :: u16 where "COMPANION_API_TLV_POSITION_SEC = 0x304"
definition COMPANION_API_TLV_STARTED_AT :: u16 where "COMPANION_API_TLV_STARTED_AT = 0x305"
definition COMPANION_API_TLV_DURATION_SEC :: u16 where "COMPANION_API_TLV_DURATION_SEC = 0x306"
definition COMPANION_API_TLV_VOLUME_PERCENT :: u16 where "COMPANION_API_TLV_VOLUME_PERCENT = 0x307"
definition COMPANION_API_TLV_PLAYBACK_MODE :: u16 where "COMPANION_API_TLV_PLAYBACK_MODE = 0x308"
definition COMPANION_API_TLV_TRACK_TITLE :: u16 where "COMPANION_API_TLV_TRACK_TITLE = 0x309"
definition COMPANION_API_TLV_TRACK_ARTIST :: u16 where "COMPANION_API_TLV_TRACK_ARTIST = 0x30A"
definition COMPANION_API_TLV_TRACK_FILE :: u16 where "COMPANION_API_TLV_TRACK_FILE = 0x30B"
definition COMPANION_API_TLV_ACTION :: u16 where "COMPANION_API_TLV_ACTION = 0x30C"
definition COMPANION_API_TLV_VALUE :: u16 where "COMPANION_API_TLV_VALUE = 0x30D"
definition COMPANION_API_TLV_OUTPUT_TARGET :: u16 where "COMPANION_API_TLV_OUTPUT_TARGET = 0x30E"
definition COMPANION_API_TLV_CARTRIDGE_STATUS :: u16 where "COMPANION_API_TLV_CARTRIDGE_STATUS = 0x400"
definition COMPANION_API_TLV_CARTRIDGE_MOUNTED :: u16 where "COMPANION_API_TLV_CARTRIDGE_MOUNTED = 0x401"
definition COMPANION_API_TLV_CARTRIDGE_CHECKSUM :: u16 where "COMPANION_API_TLV_CARTRIDGE_CHECKSUM = 0x402"
definition COMPANION_API_TLV_METADATA_VERSION :: u16 where "COMPANION_API_TLV_METADATA_VERSION = 0x403"
definition COMPANION_API_TLV_ALBUM_NAME :: u16 where "COMPANION_API_TLV_ALBUM_NAME = 0x404"
definition COMPANION_API_TLV_ALBUM_ARTIST :: u16 where "COMPANION_API_TLV_ALBUM_ARTIST = 0x405"
definition COMPANION_API_TLV_ALBUM_DESCRIPTION :: u16 where "COMPANION_API_TLV_ALBUM_DESCRIPTION = 0x406"
definition COMPANION_API_TLV_ALBUM_YEAR :: u16 where "COMPANION_API_TLV_ALBUM_YEAR = 0x407"
definition COMPANION_API_TLV_ALBUM_DURATION :: u16 where "COMPANION_API_TLV_ALBUM_DURATION = 0x408"
definition COMPANION_API_TLV_ALBUM_GENRE :: u16 where "COMPANION_API_TLV_ALBUM_GENRE = 0x409"
definition COMPANION_API_TLV_OFFSET :: u16 where "COMPANION_API_TLV_OFFSET = 0x40A"
definition COMPANION_API_TLV_COUNT :: u16 where "COMPANION_API_TLV_COUNT = 0x40B"
definition COMPANION_API_TLV_RETURNED_COUNT :: u16 where "COMPANION_API_TLV_RETURNED_COUNT = 0x40C"
definition COMPANION_API_TLV_TOTAL_SIZE :: u16 where "COMPANION_API_TLV_TOTAL_SIZE = 0x40D"
definition COMPANION_API_TLV_BINARY_DATA :: u16 where "COMPANION_API_TLV_BINARY_DATA = 0x40E"
definition COMPANION_API_TLV_MIME_TYPE :: u16 where "COMPANION_API_TLV_MIME_TYPE = 0x40F"
definition COMPANION_API_TLV_ALBUM_HAS_COVER :: u16 where "COMPANION_API_TLV_ALBUM_HAS_COVER = 0x410"
definition COMPANION_API_TLV_WIFI_STATE :: u16 where "COMPANION_API_TLV_WIFI_STATE = 0x500"
definition COMPANION_API_TLV_WIFI_INTERNET :: u16 where "COMPANION_API_TLV_WIFI_INTERNET = 0x501"
definition COMPANION_API_TLV_WIFI_AUTORECONNECT :: u16 where "COMPANION_API_TLV_WIFI_AUTORECONNECT = 0x502"
definition COMPANION_API_TLV_WIFI_ACTIVE_SLOT :: u16 where "COMPANION_API_TLV_WIFI_ACTIVE_SLOT = 0x503"
definition COMPANION_API_TLV_WIFI_PREFERRED_SLOT :: u16 where "COMPANION_API_TLV_WIFI_PREFERRED_SLOT = 0x504"
definition COMPANION_API_TLV_WIFI_IP :: u16 where "COMPANION_API_TLV_WIFI_IP = 0x505"
definition COMPANION_API_TLV_WIFI_SSID :: u16 where "COMPANION_API_TLV_WIFI_SSID = 0x506"
definition COMPANION_API_TLV_WIFI_PASSWORD :: u16 where "COMPANION_API_TLV_WIFI_PASSWORD = 0x507"
definition COMPANION_API_TLV_WIFI_SLOT :: u16 where "COMPANION_API_TLV_WIFI_SLOT = 0x508"
definition COMPANION_API_TLV_WIFI_RSSI :: u16 where "COMPANION_API_TLV_WIFI_RSSI = 0x509"
definition COMPANION_API_TLV_WIFI_CHANNEL :: u16 where "COMPANION_API_TLV_WIFI_CHANNEL = 0x50A"
definition COMPANION_API_TLV_WIFI_AUTHMODE :: u16 where "COMPANION_API_TLV_WIFI_AUTHMODE = 0x50B"
definition COMPANION_API_TLV_LASTFM_HAS_AUTH_URL :: u16 where "COMPANION_API_TLV_LASTFM_HAS_AUTH_URL = 0x600"
definition COMPANION_API_TLV_LASTFM_HAS_TOKEN :: u16 where "COMPANION_API_TLV_LASTFM_HAS_TOKEN = 0x601"
definition COMPANION_API_TLV_LASTFM_HAS_SESSION :: u16 where "COMPANION_API_TLV_LASTFM_HAS_SESSION = 0x602"
definition COMPANION_API_TLV_LASTFM_BUSY :: u16 where "COMPANION_API_TLV_LASTFM_BUSY = 0x603"
definition COMPANION_API_TLV_LASTFM_SCROBBLING :: u16 where "COMPANION_API_TLV_LASTFM_SCROBBLING = 0x604"
definition COMPANION_API_TLV_LASTFM_NOW_PLAYING :: u16 where "COMPANION_API_TLV_LASTFM_NOW_PLAYING = 0x605"
definition COMPANION_API_TLV_LASTFM_PENDING_COMMANDS :: u16 where "COMPANION_API_TLV_LASTFM_PENDING_COMMANDS = 0x606"
definition COMPANION_API_TLV_LASTFM_PENDING_SCROBBLES :: u16 where "COMPANION_API_TLV_LASTFM_PENDING_SCROBBLES = 0x607"
definition COMPANION_API_TLV_LASTFM_SUCCESSFUL :: u16 where "COMPANION_API_TLV_LASTFM_SUCCESSFUL = 0x608"
definition COMPANION_API_TLV_LASTFM_FAILED :: u16 where "COMPANION_API_TLV_LASTFM_FAILED = 0x609"
definition COMPANION_API_TLV_LASTFM_AUTH_URL :: u16 where "COMPANION_API_TLV_LASTFM_AUTH_URL = 0x60A"
definition COMPANION_API_TLV_LASTFM_USERNAME :: u16 where "COMPANION_API_TLV_LASTFM_USERNAME = 0x60B"
definition COMPANION_API_TLV_HISTORY_ALBUM_COUNT :: u16 where "COMPANION_API_TLV_HISTORY_ALBUM_COUNT = 0x700"
definition COMPANION_API_TLV_HISTORY_TRACK_COUNT :: u16 where "COMPANION_API_TLV_HISTORY_TRACK_COUNT = 0x701"
definition COMPANION_API_TLV_HISTORY_PLAY_COUNT :: u16 where "COMPANION_API_TLV_HISTORY_PLAY_COUNT = 0x702"
definition COMPANION_API_TLV_HISTORY_FIRST_SEEN :: u16 where "COMPANION_API_TLV_HISTORY_FIRST_SEEN = 0x703"
definition COMPANION_API_TLV_HISTORY_LAST_SEEN :: u16 where "COMPANION_API_TLV_HISTORY_LAST_SEEN = 0x704"
definition COMPANION_API_TLV_BT_A2DP_CONNECTED :: u16 where "COMPANION_API_TLV_BT_A2DP_CONNECTED = 0x800"
definition COMPANION_API_TLV_BT_BONDED_COUNT :: u16 where "COMPANION_API_TLV_BT_BONDED_COUNT = 0x801"
definition COMPANION_API_TLV_BT_ADDR :: u16 where "COMPANION_API_TLV_BT_ADDR = 0x802"
definition COMPANION_API_TLV_BT_NAME :: u16 where "COMPANION_API_TLV_BT_NAME = 0x803"
definition COMPANION_API_TLV_BT_RSSI :: u16 where "COMPANION_API_TLV_BT_RSSI = 0x804"
definition COMPANION_API_TLV_BT_COD :: u16 where "COMPANION_API_TLV_BT_COD = 0x805"
definition COMPANION_API_TLV_BT_SCAN_RUNNING :: u16 where "COMPANION_API_TLV_BT_SCAN_RUNNING = 0x806"
definition COMPANION_API_TLV_WIFI_SLOT_CONFIGURED :: u16 where "COMPANION_API_TLV_WIFI_SLOT_CONFIGURED = 0x901"
definition COMPANION_API_TLV_WIFI_SLOT_PREFERRED :: u16 where "COMPANION_API_TLV_WIFI_SLOT_PREFERRED = 0x902"
definition COMPANION_API_TLV_WIFI_SLOT_ACTIVE :: u16 where "COMPANION_API_TLV_WIFI_SLOT_ACTIVE = 0x903"
definition COMPANION_API_TLV_HID_BUTTON_BITMAP :: u16 where "COMPANION_API_TLV_HID_BUTTON_BITMAP = 0xA00"
definition COMPANION_API_TLV_HID_ADC_RAW :: u16 where "COMPANION_API_TLV_HID_ADC_RAW = 0xA01"
definition COMPANION_API_TLV_HID_LED_R :: u16 where "COMPANION_API_TLV_HID_LED_R = 0xA02"
definition COMPANION_API_TLV_HID_LED_G :: u16 where "COMPANION_API_TLV_HID_LED_G = 0xA03"
definition COMPANION_API_TLV_HID_LED_B :: u16 where "COMPANION_API_TLV_HID_LED_B = 0xA04"
definition COMPANION_API_TLV_HID_LED_BRIGHTNESS :: u16 where "COMPANION_API_TLV_HID_LED_BRIGHTNESS = 0xA05"
definition COMPANION_API_TLV_HID_LED_OFF :: u16 where "COMPANION_API_TLV_HID_LED_OFF = 0xA06"
definition COMPANION_API_TLV_SCRIPT_STATE :: u16 where "COMPANION_API_TLV_SCRIPT_STATE = 0xB00"
definition COMPANION_API_TLV_SCRIPT_NAME :: u16 where "COMPANION_API_TLV_SCRIPT_NAME = 0xB01"
definition COMPANION_API_TLV_SCRIPT_RESOLVED_PATH :: u16 where "COMPANION_API_TLV_SCRIPT_RESOLVED_PATH = 0xB02"
definition COMPANION_API_TLV_SCRIPT_MESSAGE :: u16 where "COMPANION_API_TLV_SCRIPT_MESSAGE = 0xB03"
definition COMPANION_API_TLV_SCRIPT_OUTPUT :: u16 where "COMPANION_API_TLV_SCRIPT_OUTPUT = 0xB04"
definition COMPANION_API_TLV_SCRIPT_RUN_ID :: u16 where "COMPANION_API_TLV_SCRIPT_RUN_ID = 0xB05"
definition COMPANION_API_TLV_SCRIPT_EXIT_CODE :: u16 where "COMPANION_API_TLV_SCRIPT_EXIT_CODE = 0xB06"
definition COMPANION_API_TLV_SCRIPT_KIND :: u16 where "COMPANION_API_TLV_SCRIPT_KIND = 0xB07"
definition COMPANION_API_TLV_SCRIPT_SIZE :: u16 where "COMPANION_API_TLV_SCRIPT_SIZE = 0xB08"
definition COMPANION_API_TLV_SCRIPT_ARGS :: u16 where "COMPANION_API_TLV_SCRIPT_ARGS = 0xB09"

lemmas companion_sizes = COMPANION_API_SPP_CHUNK_MAX_LEN_def COMPANION_API_FRAME_MAX_LEN_def
  COMPANION_API_HEADER_LEN_def COMPANION_API_TLV_HEADER_LEN_def COMPANION_API_SECRET_LEN_def
  COMPANION_API_AUTH_NONCE_LEN_def COMPANION_API_HMAC_LEN_def COMPANION_API_CLIENT_ID_MAX_LEN_def
  COMPANION_API_APP_NAME_MAX_LEN_def

text \<open>Error codes on the wire.\<close>

datatype companion_api_error =
    COMPANION_API_ERR_OK
  | COMPANION_API_ERR_BAD_FRAME
  | COMPANION_API_ERR_UNSUPPORTED_VERSION
  | COMPANION_API_ERR_UNKNOWN_OPCODE
  | COMPANION_API_ERR_AUTH_REQUIRED
  | COMPANION_API_ERR_INVALID_ARG
  | COMPANION_API_ERR_INVALID_STATE
  | COMPANION_API_ERR_NO_MEM
  | COMPANION_API_ERR_TIMEOUT
  | COMPANION_API_ERR_NOT_FOUND
  | COMPANION_API_ERR_INTERNAL

primrec companion_error_code :: "companion_api_error \<Rightarrow> u16" where
  "companion_error_code COMPANION_API_ERR_OK = 0"
| "companion_error_code COMPANION_API_ERR_BAD_FRAME = 1"
| "companion_error_code COMPANION_API_ERR_UNSUPPORTED_VERSION = 2"
| "companion_error_code COMPANION_API_ERR_UNKNOWN_OPCODE = 3"
| "companion_error_code COMPANION_API_ERR_AUTH_REQUIRED = 4"
| "companion_error_code COMPANION_API_ERR_INVALID_ARG = 5"
| "companion_error_code COMPANION_API_ERR_INVALID_STATE = 6"
| "companion_error_code COMPANION_API_ERR_NO_MEM = 7"
| "companion_error_code COMPANION_API_ERR_TIMEOUT = 8"
| "companion_error_code COMPANION_API_ERR_NOT_FOUND = 9"
| "companion_error_code COMPANION_API_ERR_INTERNAL = 10"

definition companion_api_error_from_esp :: "esp_err \<Rightarrow> companion_api_error" where
  "companion_api_error_from_esp err =
     (case err of
        ESP_OK \<Rightarrow> COMPANION_API_ERR_OK
      | ESP_ERR_INVALID_ARG \<Rightarrow> COMPANION_API_ERR_INVALID_ARG
      | ESP_ERR_INVALID_STATE \<Rightarrow> COMPANION_API_ERR_INVALID_STATE
      | ESP_ERR_NO_MEM \<Rightarrow> COMPANION_API_ERR_NO_MEM
      | ESP_ERR_TIMEOUT \<Rightarrow> COMPANION_API_ERR_TIMEOUT
      | ESP_ERR_NOT_FOUND \<Rightarrow> COMPANION_API_ERR_NOT_FOUND
      | ESP_ERR_NVS_NOT_FOUND \<Rightarrow> COMPANION_API_ERR_NOT_FOUND
      | _ \<Rightarrow> COMPANION_API_ERR_INTERNAL)"

definition companion_api_error_name :: "companion_api_error \<Rightarrow> bytes" where
  "companion_api_error_name error = string_bytes
     (case error of
        COMPANION_API_ERR_OK \<Rightarrow> ''ok''
      | COMPANION_API_ERR_BAD_FRAME \<Rightarrow> ''bad_frame''
      | COMPANION_API_ERR_UNSUPPORTED_VERSION \<Rightarrow> ''unsupported_version''
      | COMPANION_API_ERR_UNKNOWN_OPCODE \<Rightarrow> ''unknown_opcode''
      | COMPANION_API_ERR_AUTH_REQUIRED \<Rightarrow> ''auth_required''
      | COMPANION_API_ERR_INVALID_ARG \<Rightarrow> ''invalid_arg''
      | COMPANION_API_ERR_INVALID_STATE \<Rightarrow> ''invalid_state''
      | COMPANION_API_ERR_NO_MEM \<Rightarrow> ''no_mem''
      | COMPANION_API_ERR_TIMEOUT \<Rightarrow> ''timeout''
      | COMPANION_API_ERR_NOT_FOUND \<Rightarrow> ''not_found''
      | COMPANION_API_ERR_INTERNAL \<Rightarrow> ''internal'')"

section \<open>The writer\<close>

type_synonym companion_api_writer = bytes

definition companion_writer_capacity :: nat where
  "companion_writer_capacity = COMPANION_API_FRAME_MAX_LEN - COMPANION_API_HEADER_LEN"

definition companion_api_writer_init :: companion_api_writer where
  "companion_api_writer_init = []"

definition companion_api_append_tlv ::
    "u16 \<Rightarrow> bytes \<Rightarrow> companion_api_writer \<Rightarrow> bool \<times> companion_api_writer" where
  "companion_api_append_tlv type value w =
     (if length w + COMPANION_API_TLV_HEADER_LEN + length value > companion_writer_capacity then (False, w)
      else (True, w @ u16_bytes type @ u16_bytes (of_nat (length value)) @ value))"

definition companion_api_append_bool :: "u16 \<Rightarrow> bool \<Rightarrow> companion_api_writer \<Rightarrow> bool \<times> companion_api_writer" where
  "companion_api_append_bool type value w = companion_api_append_tlv type [if value then 1 else 0] w"

definition companion_api_append_u8 :: "u16 \<Rightarrow> u8 \<Rightarrow> companion_api_writer \<Rightarrow> bool \<times> companion_api_writer" where
  "companion_api_append_u8 type value w = companion_api_append_tlv type [value] w"

definition companion_api_append_u16 :: "u16 \<Rightarrow> u16 \<Rightarrow> companion_api_writer \<Rightarrow> bool \<times> companion_api_writer" where
  "companion_api_append_u16 type value w = companion_api_append_tlv type (u16_bytes value) w"

definition companion_api_append_u32 :: "u16 \<Rightarrow> u32 \<Rightarrow> companion_api_writer \<Rightarrow> bool \<times> companion_api_writer" where
  "companion_api_append_u32 type value w = companion_api_append_tlv type (u32_bytes value) w"

text \<open>A NULL pointer writes an empty string.\<close>

definition companion_api_append_string ::
    "u16 \<Rightarrow> bytes option \<Rightarrow> companion_api_writer \<Rightarrow> bool \<times> companion_api_writer" where
  "companion_api_append_string type value w =
     companion_api_append_tlv type (take 65535 (case value of None \<Rightarrow> [] | Some v \<Rightarrow> cstr v)) w"

text \<open>A sequence of entries whose results the caller ignores, and a group of entries that is
  written as a whole: the first that does not fit makes the caller go back to where it was.\<close>

definition append_each ::
    "(companion_api_writer \<Rightarrow> bool \<times> companion_api_writer) list \<Rightarrow> companion_api_writer \<Rightarrow> companion_api_writer" where
  "append_each fs w = fold (\<lambda>f w. snd (f w)) fs w"

primrec append_chain ::
    "(companion_api_writer \<Rightarrow> bool \<times> companion_api_writer) list \<Rightarrow> companion_api_writer \<Rightarrow> bool \<times> companion_api_writer" where
  "append_chain [] w = (True, w)"
| "append_chain (f # fs) w =
     (let (ok, w') = f w in if ok then append_chain fs w' else (False, w'))"

definition append_group ::
    "(companion_api_writer \<Rightarrow> bool \<times> companion_api_writer) list \<Rightarrow> companion_api_writer \<Rightarrow> bool \<times> companion_api_writer" where
  "append_group fs w = (let (ok, w') = append_chain fs w in if ok then (True, w') else (False, w))"

section \<open>The readers\<close>

function find_tlv_from :: "bytes \<Rightarrow> nat \<Rightarrow> u16 \<Rightarrow> bytes option" where
  "find_tlv_from payload offset type =
     (if \<not> offset + COMPANION_API_TLV_HEADER_LEN \<le> length payload then None
      else
        let tlv_type = rd_u16 payload offset;
            tlv_len = unat (rd_u16 payload (offset + 2));
            offset' = offset + COMPANION_API_TLV_HEADER_LEN in
        if offset' + tlv_len > length payload then None
        else if tlv_type = type then Some (rd_bytes payload offset' tlv_len)
        else find_tlv_from payload (offset' + tlv_len) type)"
  by pat_completeness auto

termination
  by (relation "measure (\<lambda>(payload, offset, type). length payload - offset)")
    (auto simp: COMPANION_API_TLV_HEADER_LEN_def)

declare find_tlv_from.simps [simp del]

definition companion_api_find_tlv :: "bytes \<Rightarrow> u16 \<Rightarrow> bytes option" where
  "companion_api_find_tlv payload type = find_tlv_from payload 0 type"

definition companion_api_tlv_u8 :: "bytes \<Rightarrow> u16 \<Rightarrow> u8 option" where
  "companion_api_tlv_u8 payload type =
     (case companion_api_find_tlv payload type of None \<Rightarrow> None
      | Some value \<Rightarrow> if length value \<noteq> 1 then None else Some (value ! 0))"

definition companion_api_tlv_u32 :: "bytes \<Rightarrow> u16 \<Rightarrow> u32 option" where
  "companion_api_tlv_u32 payload type =
     (case companion_api_find_tlv payload type of None \<Rightarrow> None
      | Some value \<Rightarrow> if length value \<noteq> 4 then None else Some (rd_u32 value 0))"

text \<open>The string the caller's buffer holds: cut to the buffer, and it ends at a NUL inside it.\<close>

definition companion_api_tlv_string :: "bytes \<Rightarrow> u16 \<Rightarrow> nat \<Rightarrow> bytes option" where
  "companion_api_tlv_string payload type buffer_len =
     (if buffer_len = 0 then None
      else case companion_api_find_tlv payload type of None \<Rightarrow> None
      | Some value \<Rightarrow> Some (cstr (take (buffer_len - 1) value)))"

text \<open>The comparison that looks at every byte.\<close>

definition companion_api_secure_equal :: "bytes \<Rightarrow> bytes \<Rightarrow> bool" where
  "companion_api_secure_equal left right =
     (fold (\<lambda>(l, r) diff. diff OR (l XOR r)) (zip left right) 0 = 0)"

section \<open>Frames\<close>

text \<open>A frame as \<^verbatim>\<open>companion_api_send_frame\<close> lays it out, and as the receiver expects a request.\<close>

definition companion_frame :: "u8 \<Rightarrow> u16 \<Rightarrow> u32 \<Rightarrow> bytes \<Rightarrow> bytes" where
  "companion_frame frame_type opcode request_id payload =
     [COMPANION_API_MAGIC0, COMPANION_API_MAGIC1, COMPANION_API_VERSION, frame_type] @
     u16_bytes opcode @ u32_bytes request_id @ u16_bytes (of_nat (length payload)) @ payload"

section \<open>Facts about entries\<close>

definition tlv_bytes :: "u16 \<times> bytes \<Rightarrow> bytes" where
  "tlv_bytes e = u16_bytes (fst e) @ u16_bytes (of_nat (length (snd e))) @ snd e"

lemma length_tlv_bytes [simp]: "length (tlv_bytes e) = COMPANION_API_TLV_HEADER_LEN + length (snd e)"
  by (simp add: tlv_bytes_def COMPANION_API_TLV_HEADER_LEN_def)

lemma append_tlv_fits:
  "length w + length (tlv_bytes e) \<le> companion_writer_capacity \<Longrightarrow>
   companion_api_append_tlv (fst e) (snd e) w = (True, w @ tlv_bytes e)"
  by (simp add: companion_api_append_tlv_def tlv_bytes_def COMPANION_API_TLV_HEADER_LEN_def)

lemma append_each_Nil [simp]: "append_each [] w = w"
  by (simp add: append_each_def)

lemma append_each_Cons [simp]: "append_each (f # fs) w = append_each fs (snd (f w))"
  by (simp add: append_each_def)

lemma append_each_tlvs:
  assumes "length w + length (concat (map tlv_bytes es)) \<le> companion_writer_capacity"
  shows "append_each (map (\<lambda>e. companion_api_append_tlv (fst e) (snd e)) es) w = w @ concat (map tlv_bytes es)"
  using assms
proof (induction es arbitrary: w)
  case (Cons e es)
  have "length w + length (tlv_bytes e) \<le> companion_writer_capacity" using Cons.prems by simp
  then show ?case using Cons.IH [of "w @ tlv_bytes e"] Cons.prems by (simp add: append_tlv_fits)
qed simp

text \<open>The writer never leaves its buffer.\<close>

lemma append_tlv_bounded:
  "length w \<le> companion_writer_capacity \<Longrightarrow>
   length (snd (companion_api_append_tlv t v w)) \<le> companion_writer_capacity"
  by (simp add: companion_api_append_tlv_def COMPANION_API_TLV_HEADER_LEN_def)

lemma unat_of_nat_u16: "n < 65536 \<Longrightarrow> unat (of_nat n :: u16) = n"
  by (simp add: unsigned_of_nat take_bit_nat_eq_self)

lemma find_tlv_from_entry:
  assumes "length (snd e) < 65536"
  shows "find_tlv_from (pre @ tlv_bytes e @ post) (length pre) type =
     (if fst e = type then Some (snd e)
      else find_tlv_from (pre @ tlv_bytes e @ post) (length (pre @ tlv_bytes e)) type)"
proof -
  let ?p = "pre @ tlv_bytes e @ post" and ?h = "u16_bytes (of_nat (length (snd e)))"
  have p: "?p = pre @ u16_bytes (fst e) @ ?h @ snd e @ post" by (simp add: tlv_bytes_def)
  have t: "rd_u16 ?p (length pre) = fst e"
    unfolding p by (rule rd_u16_append) simp
  have "rd_u16 ((pre @ u16_bytes (fst e)) @ ?h @ snd e @ post) (length pre + 2) = of_nat (length (snd e))"
    by (rule rd_u16_append) simp
  then have l: "unat (rd_u16 ?p (length pre + 2)) = length (snd e)"
    unfolding p using unat_of_nat_u16 [OF assms] by simp
  have "rd_bytes ((pre @ u16_bytes (fst e) @ ?h) @ snd e @ post) (length pre + 4) (length (snd e)) = snd e"
    by (rule rd_bytes_append) simp_all
  then have v: "rd_bytes ?p (length pre + 4) (length (snd e)) = snd e" unfolding p by simp
  show ?thesis
    by (subst find_tlv_from.simps)
      (simp add: Let_def t l v COMPANION_API_TLV_HEADER_LEN_def add.assoc del: add_2_eq_Suc')
qed

lemma find_tlv_entries:
  assumes "list_all (\<lambda>e. length (snd e) < 65536) es"
  shows "find_tlv_from (pre @ concat (map tlv_bytes es)) (length pre) type = map_of es type"
  using assms
proof (induction es arbitrary: pre)
  case Nil
  then show ?case by (subst find_tlv_from.simps) (simp add: COMPANION_API_TLV_HEADER_LEN_def)
next
  case (Cons e es)
  have "find_tlv_from ((pre @ tlv_bytes e) @ concat (map tlv_bytes es)) (length (pre @ tlv_bytes e)) type =
      map_of es type"
    using Cons.prems by (intro Cons.IH) simp
  then show ?case
    using find_tlv_from_entry [of e pre "concat (map tlv_bytes es)" type] Cons.prems
    by (cases e) simp
qed

text \<open>Whatever the payload is, a value that is found lies inside it.\<close>

lemma find_tlv_from_inside:
  "find_tlv_from payload offset type = Some value \<Longrightarrow>
   \<exists>off. value = rd_bytes payload off (length value) \<and> off + length value \<le> length payload"
proof (induction payload offset type rule: find_tlv_from.induct)
  case (1 payload offset type)
  let ?len = "unat (rd_u16 payload (offset + 2))"
  let ?off = "offset + COMPANION_API_TLV_HEADER_LEN"
  have in1: "offset + COMPANION_API_TLV_HEADER_LEN \<le> length payload" and in2: "?off + ?len \<le> length payload"
    using "1.prems" by (subst (asm) find_tlv_from.simps, simp add: Let_def split: if_splits)+
  show ?case
  proof (cases "rd_u16 payload offset = type")
    case True
    then have "value = rd_bytes payload ?off ?len"
      using "1.prems" in1 in2 by (subst (asm) find_tlv_from.simps) (simp add: Let_def)
    then show ?thesis using in2 by (intro exI [of _ ?off]) simp
  next
    case False
    then have "find_tlv_from payload (?off + ?len) type = Some value"
      using "1.prems" in1 in2 by (subst (asm) find_tlv_from.simps) (simp add: Let_def)
    then show ?thesis using "1.IH" [OF _ refl refl refl] in1 in2 False by simp
  qed
qed

lemma secure_equal_fold:
  "length left = length right \<Longrightarrow>
   fold (\<lambda>(l, r) diff. diff OR (l XOR r)) (zip left right) (d :: u8) = 0 \<longleftrightarrow> d = 0 \<and> left = right"
proof (induction left right arbitrary: d rule: list_induct2)
  case (Cons l left r right)
  have "(d OR (l XOR r) = 0) = (d = 0 \<and> l = r)"
    by (auto simp: bit_eq_iff bit_or_iff bit_xor_iff)
  then show ?case using Cons.IH by simp
qed simp

lemma secure_equal_iff:
  "length left = length right \<Longrightarrow> companion_api_secure_equal left right \<longleftrightarrow> left = right"
  by (simp add: companion_api_secure_equal_def secure_equal_fold)

text \<open>A payload the writer composed of entries that fit is read back by the search as the
  association list of the entries: the value of the first entry of the type, or nothing.\<close>

theorem companion_tlv_roundtrip:
  assumes "length (concat (map tlv_bytes es)) \<le> companion_writer_capacity"
  shows "companion_api_find_tlv (append_each (map (\<lambda>e. companion_api_append_tlv (fst e) (snd e)) es)
     companion_api_writer_init) type = map_of es type"
proof -
  have "length (snd e) < 65536" if "e \<in> set es" for e
  proof -
    have "length (tlv_bytes e) \<le> length (concat (map tlv_bytes es))"
      using that by (auto simp: length_concat comp_def intro!: member_le_sum_list)
    then show ?thesis using assms by (simp add: companion_writer_capacity_def companion_sizes)
  qed
  then have "list_all (\<lambda>e. length (snd e) < 65536) es" by (simp add: list_all_iff)
  from find_tlv_entries [OF this, of "[]" type] show ?thesis
    using append_each_tlvs [of "[]" es] assms
    by (simp add: companion_api_find_tlv_def companion_api_writer_init_def)
qed

theorem companion_tlv_roundtrip_witness:
  "companion_api_find_tlv (append_each
     [companion_api_append_tlv 0x101 [65, 66], companion_api_append_tlv 0x103 [1]] companion_api_writer_init) 0x103 =
   Some [1]"
  using companion_tlv_roundtrip [of "[(0x101, [65, 66]), (0x103, [1])]" "0x103"]
  by (simp add: companion_writer_capacity_def companion_sizes)

end
