(* ===== verification/Wifi.thy ===== *)
theory Wifi
  imports Prelude
begin

text \<open>
  The Wi-Fi service, \<^verbatim>\<open>main/wifi_service.c\<close>: saved networks in three slots of NVS, a state
  machine driven by a queue of commands and driver events, the sequence that tries the configured
  slots one after the other, the timer that starts it again, and the test of the connectivity.
  NVS is the state's \<open>wf_nvs_\<close> fields; every driver call and posted event is an entry of a trace,
  and what a call returns is given by the environment and may depend on the trace. The timer and
  the queue belong to FreeRTOS: a timer is running or not, a queue is a list with its capacity.
\<close>

section \<open>State\<close>

definition WIFI_SVC_SLOT_COUNT :: nat where "WIFI_SVC_SLOT_COUNT = 3"
definition WIFI_SVC_MAX_SCAN_RESULTS :: nat where "WIFI_SVC_MAX_SCAN_RESULTS = 20"
definition CMD_QUEUE_DEPTH :: nat where "CMD_QUEUE_DEPTH = 10"
definition WIFI_SERVICE_MAX_CMDS_PER_PASS :: nat where "WIFI_SERVICE_MAX_CMDS_PER_PASS = 4"
definition WIFI_SVC_INVALID_SLOT :: int where "WIFI_SVC_INVALID_SLOT = -1"

text \<open>From the driver's documentation: the size of the two fields of \<^verbatim>\<open>wifi_sta_config_t\<close>, the
  reason of a disconnection that the station asked for, and three error codes.\<close>

definition WIFI_STA_SSID_SIZE :: nat where "WIFI_STA_SSID_SIZE = 32"
definition WIFI_STA_PASSWORD_SIZE :: nat where "WIFI_STA_PASSWORD_SIZE = 64"
definition WIFI_REASON_ASSOC_LEAVE :: u8 where "WIFI_REASON_ASSOC_LEAVE = 8"
definition ESP_ERR_WIFI_NOT_INIT :: esp_err where "ESP_ERR_WIFI_NOT_INIT = ESP_ERR_OTHER 0x3001"
definition ESP_ERR_WIFI_NOT_STARTED :: esp_err where "ESP_ERR_WIFI_NOT_STARTED = ESP_ERR_OTHER 0x3002"
definition ESP_ERR_NVS_INVALID_LENGTH :: esp_err where "ESP_ERR_NVS_INVALID_LENGTH = ESP_ERR_OTHER 0x110C"

datatype wifi_svc_state =
    WIFI_SVC_STATE_IDLE
  | WIFI_SVC_STATE_SCANNING
  | WIFI_SVC_STATE_CONNECTING
  | WIFI_SVC_STATE_CONNECTED
  | WIFI_SVC_STATE_DISCONNECTED

datatype wifi_svc_event =
    WIFI_SVC_EVENT_STARTED
  | WIFI_SVC_EVENT_SCAN_DONE
  | WIFI_SVC_EVENT_CONNECTING
  | WIFI_SVC_EVENT_CONNECTED
  | WIFI_SVC_EVENT_CONNECTIVITY_OK
  | WIFI_SVC_EVENT_DISCONNECTED u8
  | WIFI_SVC_EVENT_SNTP_SYNCED
  | WIFI_SVC_EVENT_AUTORECONNECT_CHANGED bool

record wifi_svc_slot_info =
  ws_configured :: bool
  ws_preferred :: bool
  ws_active :: bool
  ws_ssid :: bytes

record wifi_ap_record =
  ap_ssid :: bytes
  ap_rssi :: int
  ap_primary :: u8
  ap_authmode :: u8

record esp_netif_ip_info =
  ii_ip :: u32
  ii_netmask :: u32
  ii_gw :: u32

datatype wifi_svc_msg =
    CMD_CONNECT_SLOT u8
  | CMD_DISCONNECT
  | CMD_SCAN
  | CMD_SET_AUTORECONNECT bool
  | CMD_RECONNECT_TIMER
  | CMD_RECONNECT_NOW
  | CMD_EVT_DISCONNECTED u8
  | CMD_EVT_SCAN_DONE
  | CMD_EVT_GOT_IP esp_netif_ip_info
  | CMD_EVT_CONNECTIVITY_OK
  | CMD_EVT_CONNECTIVITY_FAILED

datatype wifi_svc_expected_disconnect =
    DISCONNECT_EXPECT_NONE
  | DISCONNECT_EXPECT_USER
  | DISCONNECT_EXPECT_HANDOFF

text \<open>What the service asks of the driver, the resolver and the event loop.\<close>

datatype wf_hw =
    Drv_Netif_Init
  | Drv_Event_Loop
  | Drv_Start
  | Drv_Set_Config bytes bytes
  | Drv_Connect
  | Drv_Disconnect
  | Drv_Scan_Start
  | Drv_Stop
  | Drv_Deinit
  | Dns_Lookup
  | Sntp_Init
  | Register_Shutdown_Callback int
  | Wf_Post wifi_svc_event

datatype dns_result = Dns_Resolved | Dns_In_Progress | Dns_Failed

datatype wf_nvs_op =
    Nvs_Open_Wifi bool
  | Nvs_Get_Key string
  | Nvs_Set_Key string
  | Nvs_Commit_Wifi

record wf_state =
  wf_cmd_queue :: "wifi_svc_msg list option"
  wf_scan_mutex :: bool
  wf_wifi_handler :: bool
  wf_ip_handler :: bool
  wf_scan_records :: "wifi_ap_record list"
  wf_scan_count :: nat
  wf_sta_netif :: bool
  wf_reconnect_timer :: "bool option"
  wf_link_state :: wifi_svc_state
  wf_autoreconnect :: bool
  wf_sntp_initialised :: bool
  wf_dns_lookup_active :: bool
  wf_connectivity_ok :: bool
  wf_ip_info :: esp_netif_ip_info
  wf_have_ip_info :: bool
  wf_initialised :: bool
  wf_last_successful_slot :: int
  wf_current_slot :: int
  wf_reconnect_sequence_active :: bool
  wf_reconnect_order :: "u8 list"
  wf_reconnect_order_len :: nat
  wf_reconnect_order_index :: nat
  wf_expected_disconnect :: wifi_svc_expected_disconnect
  wf_nvs_strings :: "string \<Rightarrow> bytes option"
  wf_nvs_last_slot :: "u8 option"
  wf_nvs_autoreconnect :: "u8 option"
  wf_trace :: "wf_hw list"

text \<open>The answers of the driver, NVS, the resolver and the scan, and whether the mutex is free.\<close>

record wf_env =
  we_hw :: "wf_hw list \<Rightarrow> wf_hw \<Rightarrow> esp_err"
  we_nvs :: "wf_nvs_op \<Rightarrow> esp_err"
  we_dns :: dns_result
  we_scan :: "esp_err + wifi_ap_record list"
  we_mutex :: bool

definition no_ip_info :: esp_netif_ip_info where
  "no_ip_info = \<lparr>ii_ip = 0, ii_netmask = 0, ii_gw = 0\<rparr>"

definition wf_boot :: "(string \<Rightarrow> bytes option) \<Rightarrow> u8 option \<Rightarrow> u8 option \<Rightarrow> wf_state" where
  "wf_boot strings last_slot autoreconnect =
     \<lparr>wf_cmd_queue = None, wf_scan_mutex = False, wf_wifi_handler = False, wf_ip_handler = False,
      wf_scan_records = [], wf_scan_count = 0, wf_sta_netif = False, wf_reconnect_timer = None,
      wf_link_state = WIFI_SVC_STATE_IDLE, wf_autoreconnect = True, wf_sntp_initialised = False,
      wf_dns_lookup_active = False, wf_connectivity_ok = False, wf_ip_info = no_ip_info,
      wf_have_ip_info = False, wf_initialised = False,
      wf_last_successful_slot = WIFI_SVC_INVALID_SLOT, wf_current_slot = WIFI_SVC_INVALID_SLOT,
      wf_reconnect_sequence_active = False, wf_reconnect_order = replicate WIFI_SVC_SLOT_COUNT 0,
      wf_reconnect_order_len = 0, wf_reconnect_order_index = 0,
      wf_expected_disconnect = DISCONNECT_EXPECT_NONE,
      wf_nvs_strings = strings, wf_nvs_last_slot = last_slot, wf_nvs_autoreconnect = autoreconnect,
      wf_trace = []\<rparr>"

section \<open>Helpers\<close>

definition wf_call :: "wf_env \<Rightarrow> wf_hw \<Rightarrow> wf_state \<Rightarrow> esp_err \<times> wf_state" where
  "wf_call env a s = (we_hw env (wf_trace s) a, s\<lparr>wf_trace := wf_trace s @ [a]\<rparr>)"

definition wf_log :: "wf_hw \<Rightarrow> wf_state \<Rightarrow> wf_state" where
  "wf_log a s = s\<lparr>wf_trace := wf_trace s @ [a]\<rparr>"

definition post_event :: "wifi_svc_event \<Rightarrow> wf_state \<Rightarrow> wf_state" where
  "post_event e s = wf_log (Wf_Post e) s"

text \<open>Starting, restarting or stopping a timer that does not exist changes nothing here; that it
  does not happen is part of the invariant.\<close>

definition wf_timer_set :: "bool \<Rightarrow> wf_state \<Rightarrow> wf_state" where
  "wf_timer_set running s = s\<lparr>wf_reconnect_timer := map_option (\<lambda>_. running) (wf_reconnect_timer s)\<rparr>"

definition wifi_copy_cstring :: "nat \<Rightarrow> bytes option \<Rightarrow> esp_err + bytes" where
  "wifi_copy_cstring dest_len src =
     (if dest_len = 0 then Inl ESP_ERR_INVALID_ARG
      else case src of None \<Rightarrow> Inr []
      | Some text \<Rightarrow> if length (cstr text) \<ge> dest_len then Inl ESP_ERR_INVALID_SIZE else Inr (cstr text))"

definition wifi_service_slot_index_valid :: "u8 \<Rightarrow> bool" where
  "wifi_service_slot_index_valid slot_index \<longleftrightarrow> unat slot_index < WIFI_SVC_SLOT_COUNT"

definition wifi_service_reset_ip_state :: "wf_state \<Rightarrow> wf_state" where
  "wifi_service_reset_ip_state s = s\<lparr>wf_have_ip_info := False, wf_dns_lookup_active := False,
     wf_connectivity_ok := False, wf_ip_info := no_ip_info\<rparr>"

definition wifi_service_clear_reconnect_sequence :: "wf_state \<Rightarrow> wf_state" where
  "wifi_service_clear_reconnect_sequence s = s\<lparr>wf_reconnect_sequence_active := False,
     wf_reconnect_order_len := 0, wf_reconnect_order_index := 0,
     wf_reconnect_order := replicate WIFI_SVC_SLOT_COUNT 0\<rparr>"

text \<open>The digits that \<^verbatim>\<open>snprintf\<close> writes for \<^verbatim>\<open>%u\<close>, and the key of a slot.\<close>

fun dec_digits :: "nat \<Rightarrow> string" where
  "dec_digits n = (if n < 10 then [char_of (48 + n)] else dec_digits (n div 10) @ [char_of (48 + n mod 10)])"

declare dec_digits.simps [simp del]

definition wifi_service_build_slot_key :: "string \<Rightarrow> u8 \<Rightarrow> nat \<Rightarrow> esp_err + string" where
  "wifi_service_build_slot_key prefix slot_index out_key_len =
     (if out_key_len = 0 \<or> \<not> wifi_service_slot_index_valid slot_index then Inl ESP_ERR_INVALID_ARG
      else
        let key = prefix @ dec_digits (unat slot_index + 1) in
        if length key \<ge> out_key_len then Inl ESP_ERR_INVALID_SIZE else Inr key)"

section \<open>Slots in NVS\<close>

definition nvs_key_size :: nat where "nvs_key_size = 16"

definition nvs_save_slot :: "wf_env \<Rightarrow> u8 \<Rightarrow> bytes \<Rightarrow> bytes \<Rightarrow> wf_state \<Rightarrow> esp_err \<times> wf_state" where
  "nvs_save_slot env slot_index ssid password s =
     (case wifi_service_build_slot_key ''ssid'' slot_index nvs_key_size of Inl err \<Rightarrow> (err, s)
      | Inr ssid_key \<Rightarrow>
     (case wifi_service_build_slot_key ''pass'' slot_index nvs_key_size of Inl err \<Rightarrow> (err, s)
      | Inr pass_key \<Rightarrow>
        if we_nvs env (Nvs_Open_Wifi True) \<noteq> ESP_OK then (we_nvs env (Nvs_Open_Wifi True), s)
        else if we_nvs env (Nvs_Set_Key ssid_key) \<noteq> ESP_OK then (we_nvs env (Nvs_Set_Key ssid_key), s)
        else
          let s1 = s\<lparr>wf_nvs_strings := (wf_nvs_strings s)(ssid_key \<mapsto> ssid)\<rparr> in
          if we_nvs env (Nvs_Set_Key pass_key) \<noteq> ESP_OK then (we_nvs env (Nvs_Set_Key pass_key), s1)
          else (we_nvs env Nvs_Commit_Wifi,
                s1\<lparr>wf_nvs_strings := (wf_nvs_strings s1)(pass_key \<mapsto> password)\<rparr>)))"

text \<open>\<^verbatim>\<open>nvs_get_str\<close> refuses a string that does not fit the buffer with its terminator.\<close>

definition wf_get_str :: "wf_env \<Rightarrow> wf_state \<Rightarrow> string \<Rightarrow> nat \<Rightarrow> esp_err + bytes" where
  "wf_get_str env s key buffer_size =
     (if we_nvs env (Nvs_Get_Key key) \<noteq> ESP_OK then Inl (we_nvs env (Nvs_Get_Key key))
      else case wf_nvs_strings s key of None \<Rightarrow> Inl ESP_ERR_NVS_NOT_FOUND
      | Some text \<Rightarrow> if length text \<ge> buffer_size then Inl ESP_ERR_NVS_INVALID_LENGTH else Inr text)"

text \<open>The password is read when the caller has a buffer for it; \<open>pass_len = 0\<close> is the call without.\<close>

definition nvs_load_slot :: "wf_env \<Rightarrow> wf_state \<Rightarrow> u8 \<Rightarrow> nat \<Rightarrow> nat \<Rightarrow> esp_err + bytes \<times> bytes" where
  "nvs_load_slot env s slot_index ssid_len pass_len =
     (if ssid_len = 0 then Inl ESP_ERR_INVALID_ARG
      else case wifi_service_build_slot_key ''ssid'' slot_index nvs_key_size of Inl err \<Rightarrow> Inl err
      | Inr ssid_key \<Rightarrow>
     (case wifi_service_build_slot_key ''pass'' slot_index nvs_key_size of Inl err \<Rightarrow> Inl err
      | Inr pass_key \<Rightarrow>
        if we_nvs env (Nvs_Open_Wifi False) \<noteq> ESP_OK then Inl (we_nvs env (Nvs_Open_Wifi False))
        else case wf_get_str env s ssid_key ssid_len of Inl err \<Rightarrow> Inl err
        | Inr ssid \<Rightarrow>
          (case (if pass_len = 0 then Inr [] else wf_get_str env s pass_key pass_len) of Inl err \<Rightarrow> Inl err
           | Inr password \<Rightarrow> if ssid = [] then Inl ESP_ERR_NVS_NOT_FOUND else Inr (ssid, password))))"

definition nvs_save_last_successful_slot :: "wf_env \<Rightarrow> int \<Rightarrow> wf_state \<Rightarrow> esp_err \<times> wf_state" where
  "nvs_save_last_successful_slot env slot_index s =
     (let persisted_slot = (if slot_index \<ge> 0 \<and> slot_index < int WIFI_SVC_SLOT_COUNT then slot_index
                            else WIFI_SVC_INVALID_SLOT) in
      if we_nvs env (Nvs_Open_Wifi True) \<noteq> ESP_OK then (we_nvs env (Nvs_Open_Wifi True), s)
      else if we_nvs env (Nvs_Set_Key ''last_slot'') \<noteq> ESP_OK then (we_nvs env (Nvs_Set_Key ''last_slot''), s)
      else (we_nvs env Nvs_Commit_Wifi, s\<lparr>wf_nvs_last_slot := Some (word_of_int persisted_slot)\<rparr>))"

definition nvs_load_last_successful_slot :: "wf_env \<Rightarrow> wf_state \<Rightarrow> int" where
  "nvs_load_last_successful_slot env s =
     (if we_nvs env (Nvs_Open_Wifi False) \<noteq> ESP_OK then WIFI_SVC_INVALID_SLOT
      else
        let persisted_slot = (if we_nvs env (Nvs_Get_Key ''last_slot'') \<noteq> ESP_OK then WIFI_SVC_INVALID_SLOT
              else case wf_nvs_last_slot s of None \<Rightarrow> WIFI_SVC_INVALID_SLOT | Some v \<Rightarrow> sint v) in
        if persisted_slot < 0 \<or> persisted_slot \<ge> int WIFI_SVC_SLOT_COUNT then WIFI_SVC_INVALID_SLOT
        else persisted_slot)"

definition nvs_save_autoreconnect :: "wf_env \<Rightarrow> bool \<Rightarrow> wf_state \<Rightarrow> esp_err \<times> wf_state" where
  "nvs_save_autoreconnect env enable s =
     (if we_nvs env (Nvs_Open_Wifi True) \<noteq> ESP_OK then (we_nvs env (Nvs_Open_Wifi True), s)
      else if we_nvs env (Nvs_Set_Key ''autoreconnect'') \<noteq> ESP_OK
      then (we_nvs env (Nvs_Set_Key ''autoreconnect''), s)
      else (we_nvs env Nvs_Commit_Wifi, s\<lparr>wf_nvs_autoreconnect := Some (if enable then 1 else 0)\<rparr>))"

definition nvs_load_autoreconnect :: "wf_env \<Rightarrow> wf_state \<Rightarrow> bool" where
  "nvs_load_autoreconnect env s =
     (if we_nvs env (Nvs_Open_Wifi False) \<noteq> ESP_OK then True
      else if we_nvs env (Nvs_Get_Key ''autoreconnect'') \<noteq> ESP_OK then True
      else case wf_nvs_autoreconnect s of None \<Rightarrow> True | Some v \<Rightarrow> v \<noteq> 0)"

section \<open>Connecting\<close>

definition wifi_service_connect_with_credentials ::
    "wf_env \<Rightarrow> u8 \<Rightarrow> bytes \<Rightarrow> bytes \<Rightarrow> wf_state \<Rightarrow> esp_err \<times> wf_state" where
  "wifi_service_connect_with_credentials env slot_index ssid password s =
     (if \<not> wifi_service_slot_index_valid slot_index then (ESP_ERR_INVALID_ARG, s)
      else
        let need_handoff = (wf_link_state s = WIFI_SVC_STATE_CONNECTED \<or>
                            wf_link_state s = WIFI_SVC_STATE_CONNECTING) in
        case wifi_copy_cstring WIFI_STA_SSID_SIZE (Some ssid) of Inl err \<Rightarrow> (err, s)
        | Inr cfg_ssid \<Rightarrow>
       (case wifi_copy_cstring WIFI_STA_PASSWORD_SIZE (Some password) of Inl err \<Rightarrow> (err, s)
        | Inr cfg_password \<Rightarrow>
          let s1 = wf_timer_set False s;
              s2 = (if need_handoff
                    then wf_log Drv_Disconnect (s1\<lparr>wf_expected_disconnect := DISCONNECT_EXPECT_HANDOFF\<rparr>)
                    else s1\<lparr>wf_expected_disconnect := DISCONNECT_EXPECT_NONE\<rparr>);
              (err, s3) = wf_call env (Drv_Set_Config cfg_ssid cfg_password) s2 in
          if err \<noteq> ESP_OK then (err, s3)
          else
            let (err, s4) = wf_call env Drv_Connect s3 in
            if err \<noteq> ESP_OK then (err, s4)
            else (ESP_OK, post_event WIFI_SVC_EVENT_CONNECTING (wifi_service_reset_ip_state
                    (s4\<lparr>wf_current_slot := uint slot_index,
                        wf_link_state := WIFI_SVC_STATE_CONNECTING\<rparr>)))))"

definition wifi_service_connect_saved_slot :: "wf_env \<Rightarrow> u8 \<Rightarrow> wf_state \<Rightarrow> esp_err \<times> wf_state" where
  "wifi_service_connect_saved_slot env slot_index s =
     (case nvs_load_slot env s slot_index 33 65 of Inl err \<Rightarrow> (err, s)
      | Inr (ssid, password) \<Rightarrow> wifi_service_connect_with_credentials env slot_index ssid password s)"

definition wifi_service_slot_is_configured :: "wf_env \<Rightarrow> wf_state \<Rightarrow> u8 \<Rightarrow> bool" where
  "wifi_service_slot_is_configured env s slot_index =
     (case nvs_load_slot env s slot_index 33 0 of Inl _ \<Rightarrow> False | Inr _ \<Rightarrow> True)"

text \<open>The loop over the slots that are left, which stops when the output is full.\<close>

fun order_rest :: "(u8 \<Rightarrow> bool) \<Rightarrow> u8 list \<Rightarrow> nat \<Rightarrow> u8 list \<Rightarrow> u8 list" where
  "order_rest wanted [] room out = out"
| "order_rest wanted (slot # slots) room out =
     (if length out \<ge> room then out
      else order_rest wanted slots room (if wanted slot then out @ [slot] else out))"

text \<open>The slots written to an output of \<open>out_slot_count\<close> entries; their number is the result of the code.\<close>

definition wifi_service_build_reconnect_order :: "wf_env \<Rightarrow> wf_state \<Rightarrow> nat \<Rightarrow> u8 list" where
  "wifi_service_build_reconnect_order env s out_slot_count =
     (if out_slot_count = 0 then []
      else
        let last = wf_last_successful_slot s;
            preferred = last \<ge> 0 \<and> last < int WIFI_SVC_SLOT_COUNT \<and>
                        wifi_service_slot_is_configured env s (word_of_int last);
            out = (if preferred then [word_of_int last] else []);
            seen = (\<lambda>slot. preferred \<and> slot = word_of_int last) in
        order_rest (\<lambda>slot. \<not> seen slot \<and> wifi_service_slot_is_configured env s slot)
          (map of_nat [0..<WIFI_SVC_SLOT_COUNT]) out_slot_count out)"

text \<open>Connecting leaves the sequence alone, so that the loop over it ends.\<close>

lemma wf_call_fields [simp]:
  "wf_reconnect_sequence_active (snd (wf_call env a s)) = wf_reconnect_sequence_active s"
  "wf_reconnect_order (snd (wf_call env a s)) = wf_reconnect_order s"
  "wf_reconnect_order_len (snd (wf_call env a s)) = wf_reconnect_order_len s"
  "wf_reconnect_order_index (snd (wf_call env a s)) = wf_reconnect_order_index s"
  by (simp_all add: wf_call_def)

lemma connect_saved_slot_sequence [simp]:
  "wf_reconnect_sequence_active (snd (wifi_service_connect_saved_slot env slot s)) =
     wf_reconnect_sequence_active s"
  "wf_reconnect_order (snd (wifi_service_connect_saved_slot env slot s)) = wf_reconnect_order s"
  "wf_reconnect_order_len (snd (wifi_service_connect_saved_slot env slot s)) = wf_reconnect_order_len s"
  "wf_reconnect_order_index (snd (wifi_service_connect_saved_slot env slot s)) = wf_reconnect_order_index s"
  by (simp_all add: wifi_service_connect_saved_slot_def wifi_service_connect_with_credentials_def
      wf_log_def wf_timer_set_def post_event_def wifi_service_reset_ip_state_def wf_call_def Let_def
      split: sum.split prod.split)

function wifi_service_try_next_reconnect_slot :: "wf_env \<Rightarrow> wf_state \<Rightarrow> esp_err \<times> wf_state" where
  "wifi_service_try_next_reconnect_slot env s =
     (if wf_reconnect_sequence_active s \<and> wf_reconnect_order_index s < wf_reconnect_order_len s then
        let slot_index = wf_reconnect_order s ! wf_reconnect_order_index s;
            r = wifi_service_connect_saved_slot env slot_index
                  (s\<lparr>wf_reconnect_order_index := wf_reconnect_order_index s + 1\<rparr>) in
        if fst r = ESP_OK then (ESP_OK, snd r)
        else wifi_service_try_next_reconnect_slot env (snd r)
      else (ESP_ERR_NVS_NOT_FOUND,
            (wifi_service_clear_reconnect_sequence s)\<lparr>wf_current_slot := WIFI_SVC_INVALID_SLOT\<rparr>))"
  by pat_completeness auto

termination
  by (relation "measure (\<lambda>(env, s). wf_reconnect_order_len s - wf_reconnect_order_index s)") auto

declare wifi_service_try_next_reconnect_slot.simps [simp del]

definition write_order :: "u8 list \<Rightarrow> u8 list \<Rightarrow> u8 list" where
  "write_order slots out = slots @ drop (length slots) out"

definition wifi_service_start_reconnect_sequence :: "wf_env \<Rightarrow> wf_state \<Rightarrow> esp_err \<times> wf_state" where
  "wifi_service_start_reconnect_sequence env s =
     (let s1 = wf_timer_set False (wifi_service_clear_reconnect_sequence s);
          slots = wifi_service_build_reconnect_order env s1 WIFI_SVC_SLOT_COUNT;
          s2 = s1\<lparr>wf_reconnect_order := write_order slots (wf_reconnect_order s1),
                  wf_reconnect_order_len := length slots\<rparr> in
      if length slots = 0
      then (ESP_ERR_NVS_NOT_FOUND, s2\<lparr>wf_current_slot := WIFI_SVC_INVALID_SLOT\<rparr>)
      else wifi_service_try_next_reconnect_slot env
             (s2\<lparr>wf_reconnect_sequence_active := True, wf_reconnect_order_index := 0\<rparr>))"

section \<open>Events of the driver and the resolver\<close>

text \<open>\<^verbatim>\<open>xQueueSend\<close>: a full queue refuses the message. A sender that waits for room is one that
  sends later.\<close>

definition wf_queue_send :: "wifi_svc_msg \<Rightarrow> wf_state \<Rightarrow> bool \<times> wf_state" where
  "wf_queue_send msg s =
     (case wf_cmd_queue s of None \<Rightarrow> (False, s)
      | Some q \<Rightarrow> if length q < CMD_QUEUE_DEPTH then (True, s\<lparr>wf_cmd_queue := Some (q @ [msg])\<rparr>)
                  else (False, s))"

definition queue_internal_cmd :: "wifi_svc_msg \<Rightarrow> wf_state \<Rightarrow> bool \<times> wf_state" where
  "queue_internal_cmd msg s = wf_queue_send msg s"

definition wifi_service_connectivity_dns_found_cb :: "bool \<Rightarrow> wf_state \<Rightarrow> wf_state" where
  "wifi_service_connectivity_dns_found_cb found s =
     snd (queue_internal_cmd (if found then CMD_EVT_CONNECTIVITY_OK else CMD_EVT_CONNECTIVITY_FAILED) s)"

definition wifi_service_start_connectivity_test :: "wf_env \<Rightarrow> wf_state \<Rightarrow> wf_state" where
  "wifi_service_start_connectivity_test env s =
     (if wf_dns_lookup_active s then s
      else
        let s1 = wf_log Dns_Lookup (s\<lparr>wf_connectivity_ok := False\<rparr>) in
        case we_dns env of
          Dns_Resolved \<Rightarrow> post_event WIFI_SVC_EVENT_CONNECTIVITY_OK (s1\<lparr>wf_connectivity_ok := True\<rparr>)
        | Dns_In_Progress \<Rightarrow> s1\<lparr>wf_dns_lookup_active := True\<rparr>
        | Dns_Failed \<Rightarrow> s1)"

definition sntp_sync_cb :: "wf_state \<Rightarrow> wf_state" where
  "sntp_sync_cb s = post_event WIFI_SVC_EVENT_SNTP_SYNCED s"

definition init_sntp :: "wf_state \<Rightarrow> wf_state" where
  "init_sntp s = (if wf_sntp_initialised s then s else wf_log Sntp_Init (s\<lparr>wf_sntp_initialised := True\<rparr>))"

datatype wifi_event = WIFI_EVENT_STA_DISCONNECTED u8 | WIFI_EVENT_SCAN_DONE | WIFI_EVENT_STA_START

definition wifi_event_handler :: "wifi_event \<Rightarrow> wf_state \<Rightarrow> wf_state" where
  "wifi_event_handler event s =
     (case event of
        WIFI_EVENT_STA_DISCONNECTED reason \<Rightarrow> snd (queue_internal_cmd (CMD_EVT_DISCONNECTED reason) s)
      | WIFI_EVENT_SCAN_DONE \<Rightarrow> snd (queue_internal_cmd CMD_EVT_SCAN_DONE s)
      | WIFI_EVENT_STA_START \<Rightarrow> s)"

definition ip_event_handler :: "esp_netif_ip_info \<Rightarrow> wf_state \<Rightarrow> wf_state" where
  "ip_event_handler ip_info s = snd (queue_internal_cmd (CMD_EVT_GOT_IP ip_info) s)"

definition reconnect_timer_cb :: "wf_state \<Rightarrow> wf_state" where
  "reconnect_timer_cb s = snd (wf_queue_send CMD_RECONNECT_TIMER s)"

section \<open>Commands\<close>

definition handle_connect_slot :: "wf_env \<Rightarrow> u8 \<Rightarrow> wf_state \<Rightarrow> wf_state" where
  "handle_connect_slot env slot_index s =
     (let (err, s1) = wifi_service_connect_saved_slot env slot_index (wifi_service_clear_reconnect_sequence s) in
      if err \<noteq> ESP_OK
      then s1\<lparr>wf_link_state := WIFI_SVC_STATE_DISCONNECTED, wf_current_slot := WIFI_SVC_INVALID_SLOT\<rparr>
      else s1)"

definition handle_disconnect :: "wf_state \<Rightarrow> wf_state" where
  "handle_disconnect s =
     (let s1 = wf_timer_set False (wifi_service_clear_reconnect_sequence s);
          s2 = (if wf_link_state s1 = WIFI_SVC_STATE_CONNECTED \<or> wf_link_state s1 = WIFI_SVC_STATE_CONNECTING
                then wf_log Drv_Disconnect (s1\<lparr>wf_expected_disconnect := DISCONNECT_EXPECT_USER\<rparr>)
                else s1\<lparr>wf_expected_disconnect := DISCONNECT_EXPECT_NONE\<rparr>) in
      wifi_service_reset_ip_state
        (s2\<lparr>wf_link_state := WIFI_SVC_STATE_DISCONNECTED, wf_current_slot := WIFI_SVC_INVALID_SLOT\<rparr>))"

definition handle_scan :: "wf_state \<Rightarrow> wf_state" where
  "handle_scan s = wf_log Drv_Scan_Start (s\<lparr>wf_link_state := WIFI_SVC_STATE_SCANNING\<rparr>)"

definition handle_set_autoreconnect :: "wf_env \<Rightarrow> bool \<Rightarrow> wf_state \<Rightarrow> wf_state" where
  "handle_set_autoreconnect env en s =
     (let s1 = (snd (nvs_save_autoreconnect env en s))\<lparr>wf_autoreconnect := en\<rparr>;
          s2 = (if \<not> en then wf_timer_set False s1
                else if wf_link_state s1 \<noteq> WIFI_SVC_STATE_CONNECTED \<and>
                        wf_link_state s1 \<noteq> WIFI_SVC_STATE_CONNECTING then wf_timer_set True s1
                else s1) in
      post_event (WIFI_SVC_EVENT_AUTORECONNECT_CHANGED en) s2)"

definition handle_reconnect :: "wf_env \<Rightarrow> bool \<Rightarrow> wf_state \<Rightarrow> wf_state" where
  "handle_reconnect env now s =
     (if wf_link_state s \<noteq> WIFI_SVC_STATE_CONNECTED \<and> wf_link_state s \<noteq> WIFI_SVC_STATE_CONNECTING \<and>
         (now \<or> wf_autoreconnect s) then
        let (err, s1) = wifi_service_start_reconnect_sequence env s in
        if err \<noteq> ESP_OK then
          let s2 = s1\<lparr>wf_link_state := WIFI_SVC_STATE_DISCONNECTED,
                      wf_current_slot := WIFI_SVC_INVALID_SLOT\<rparr> in
          if wf_autoreconnect s2 then wf_timer_set True s2 else s2
        else s1
      else s)"

text \<open>The end of the handler of a lost link, when no slot of the sequence is tried next.\<close>

definition give_up_link :: "wf_state \<Rightarrow> wf_state" where
  "give_up_link s =
     (let s1 = s\<lparr>wf_current_slot := WIFI_SVC_INVALID_SLOT\<rparr> in
      if wf_autoreconnect s1 then wf_timer_set True s1 else s1)"

definition handle_evt_disconnected :: "wf_env \<Rightarrow> u8 \<Rightarrow> wf_state \<Rightarrow> wf_state" where
  "handle_evt_disconnected env reason s =
     (if wf_expected_disconnect s \<noteq> DISCONNECT_EXPECT_NONE \<and> reason = WIFI_REASON_ASSOC_LEAVE then
        let s1 = s\<lparr>wf_expected_disconnect := DISCONNECT_EXPECT_NONE\<rparr> in
        if wf_expected_disconnect s = DISCONNECT_EXPECT_USER
        then post_event (WIFI_SVC_EVENT_DISCONNECTED reason) s1 else s1
      else
        let s1 = post_event (WIFI_SVC_EVENT_DISCONNECTED reason) (wifi_service_reset_ip_state
                   (s\<lparr>wf_expected_disconnect := DISCONNECT_EXPECT_NONE,
                      wf_link_state := WIFI_SVC_STATE_DISCONNECTED\<rparr>)) in
        if wf_reconnect_sequence_active s1 then
          let (err, s2) = wifi_service_try_next_reconnect_slot env s1 in
          if err = ESP_OK then s2 else give_up_link s2
        else give_up_link s1)"

text \<open>The driver fills at most the records it is given room for.\<close>

definition handle_evt_scan_done :: "wf_env \<Rightarrow> wf_state \<Rightarrow> wf_state" where
  "handle_evt_scan_done env s =
     (let s1 = (case we_scan env of
            Inr records \<Rightarrow>
              let found = take WIFI_SVC_MAX_SCAN_RESULTS records in
              if we_mutex env
              then s\<lparr>wf_scan_count := length found,
                     wf_scan_records := found @ drop (length found) (wf_scan_records s)\<rparr>
              else s
          | Inl _ \<Rightarrow> if we_mutex env then s\<lparr>wf_scan_count := 0\<rparr> else s);
          s2 = (if wf_link_state s1 = WIFI_SVC_STATE_SCANNING
                then s1\<lparr>wf_link_state := WIFI_SVC_STATE_DISCONNECTED\<rparr> else s1) in
      post_event WIFI_SVC_EVENT_SCAN_DONE s2)"

definition slot_in_range :: "int \<Rightarrow> bool" where
  "slot_in_range slot \<longleftrightarrow> slot \<ge> 0 \<and> slot < int WIFI_SVC_SLOT_COUNT"

definition handle_evt_got_ip :: "wf_env \<Rightarrow> esp_netif_ip_info \<Rightarrow> wf_state \<Rightarrow> wf_state" where
  "handle_evt_got_ip env ip_info s =
     (let s1 = wifi_service_clear_reconnect_sequence
                 (s\<lparr>wf_ip_info := ip_info, wf_have_ip_info := True,
                    wf_link_state := WIFI_SVC_STATE_CONNECTED,
                    wf_expected_disconnect := DISCONNECT_EXPECT_NONE\<rparr>);
          s2 = (if slot_in_range (wf_current_slot s1)
                then snd (nvs_save_last_successful_slot env (wf_current_slot s1)
                       (s1\<lparr>wf_last_successful_slot := wf_current_slot s1\<rparr>))
                else s1) in
      init_sntp (wifi_service_start_connectivity_test env
        (post_event WIFI_SVC_EVENT_CONNECTED (wf_timer_set False s2))))"

definition handle_evt_connectivity :: "bool \<Rightarrow> wf_state \<Rightarrow> wf_state" where
  "handle_evt_connectivity ok s =
     (let s1 = s\<lparr>wf_dns_lookup_active := False, wf_connectivity_ok := ok\<rparr> in
      if ok then post_event WIFI_SVC_EVENT_CONNECTIVITY_OK s1 else s1)"

fun wifi_service_process_cmd :: "wf_env \<Rightarrow> wifi_svc_msg \<Rightarrow> wf_state \<Rightarrow> wf_state" where
  "wifi_service_process_cmd env (CMD_CONNECT_SLOT slot_index) s = handle_connect_slot env slot_index s"
| "wifi_service_process_cmd env CMD_DISCONNECT s = handle_disconnect s"
| "wifi_service_process_cmd env CMD_SCAN s = handle_scan s"
| "wifi_service_process_cmd env (CMD_SET_AUTORECONNECT en) s = handle_set_autoreconnect env en s"
| "wifi_service_process_cmd env CMD_RECONNECT_TIMER s = handle_reconnect env False s"
| "wifi_service_process_cmd env CMD_RECONNECT_NOW s = handle_reconnect env True s"
| "wifi_service_process_cmd env (CMD_EVT_DISCONNECTED reason) s = handle_evt_disconnected env reason s"
| "wifi_service_process_cmd env CMD_EVT_SCAN_DONE s = handle_evt_scan_done env s"
| "wifi_service_process_cmd env (CMD_EVT_GOT_IP ip_info) s = handle_evt_got_ip env ip_info s"
| "wifi_service_process_cmd env CMD_EVT_CONNECTIVITY_OK s = handle_evt_connectivity True s"
| "wifi_service_process_cmd env CMD_EVT_CONNECTIVITY_FAILED s = handle_evt_connectivity False s"

text \<open>At most \<open>n\<close> messages; each finds the environment of its own moment.\<close>

primrec process_cmds :: "nat \<Rightarrow> (nat \<Rightarrow> wf_env) \<Rightarrow> wf_state \<Rightarrow> wf_state" where
  "process_cmds 0 envs s = s"
| "process_cmds (Suc n) envs s =
     (case wf_cmd_queue s of
        Some (msg # q) \<Rightarrow> process_cmds n (\<lambda>i. envs (Suc i))
                            (wifi_service_process_cmd (envs 0) msg (s\<lparr>wf_cmd_queue := Some q\<rparr>))
      | _ \<Rightarrow> s)"

definition wifi_service_process_once :: "(nat \<Rightarrow> wf_env) \<Rightarrow> wf_state \<Rightarrow> wf_state" where
  "wifi_service_process_once envs s =
     (if \<not> wf_initialised s \<or> wf_cmd_queue s = None then s
      else process_cmds WIFI_SERVICE_MAX_CMDS_PER_PASS envs s)"

section \<open>Interface\<close>

text \<open>Which of the objects the start-up allocates exist.\<close>

record wf_init_env =
  wi_netif :: bool
  wi_queue :: bool
  wi_mutex :: bool
  wi_timer :: bool

definition POWER_MGMT_SERVICE_SHUTDOWN_PRIORITY_WIFI :: int where
  "POWER_MGMT_SERVICE_SHUTDOWN_PRIORITY_WIFI = 300"

text \<open>The end of the start-up, up to the first connection and with it.\<close>

definition wifi_service_ready :: "wf_env \<Rightarrow> wf_state \<Rightarrow> wf_state" where
  "wifi_service_ready env s =
     (let s1 = wifi_service_clear_reconnect_sequence
                 (s\<lparr>wf_autoreconnect := nvs_load_autoreconnect env s, wf_initialised := True,
                    wf_last_successful_slot := nvs_load_last_successful_slot env s,
                    wf_current_slot := WIFI_SVC_INVALID_SLOT,
                    wf_expected_disconnect := DISCONNECT_EXPECT_NONE\<rparr>) in
      post_event WIFI_SVC_EVENT_STARTED
        (wf_log (Register_Shutdown_Callback POWER_MGMT_SERVICE_SHUTDOWN_PRIORITY_WIFI) s1))"

definition wifi_service_started :: "wf_env \<Rightarrow> wf_state \<Rightarrow> wf_state" where
  "wifi_service_started env s =
     (let s2 = wifi_service_ready env s in
      if wf_autoreconnect s2 then snd (wifi_service_start_reconnect_sequence env s2) else s2)"

definition wifi_service_init :: "wf_env \<Rightarrow> wf_init_env \<Rightarrow> wf_state \<Rightarrow> esp_err \<times> wf_state" where
  "wifi_service_init env ie s =
     (if wf_initialised s then (ESP_OK, s)
      else
        let (err, s1) = wf_call env Drv_Netif_Init s in
        if err \<noteq> ESP_OK \<and> err \<noteq> ESP_ERR_INVALID_STATE then (err, s1)
        else
        let (err, s2) = wf_call env Drv_Event_Loop s1 in
        if err \<noteq> ESP_OK \<and> err \<noteq> ESP_ERR_INVALID_STATE then (err, s2)
        else if \<not> wi_netif ie then (ESP_FAIL, s2\<lparr>wf_sta_netif := False\<rparr>)
        else
          let s3 = wf_log Drv_Start (s2\<lparr>wf_sta_netif := True, wf_wifi_handler := True, wf_ip_handler := True\<rparr>);
              s4 = s3\<lparr>wf_cmd_queue := (if wi_queue ie then Some [] else None),
                      wf_scan_mutex := wi_mutex ie\<rparr> in
          if \<not> wi_queue ie \<or> \<not> wi_mutex ie then (ESP_ERR_NO_MEM, s4)
          else
            let s5 = s4\<lparr>wf_reconnect_timer := (if wi_timer ie then Some False else None)\<rparr> in
            if \<not> wi_timer ie then (ESP_ERR_NO_MEM, s5)
            else (ESP_OK, wifi_service_started env s5))"

definition wifi_service_save_slot ::
    "wf_env \<Rightarrow> u8 \<Rightarrow> bytes option \<Rightarrow> bytes option \<Rightarrow> wf_state \<Rightarrow> esp_err \<times> wf_state" where
  "wifi_service_save_slot env slot_index ssid password s =
     (case ssid of None \<Rightarrow> (ESP_ERR_INVALID_ARG, s)
      | Some ssid_text \<Rightarrow>
        if \<not> wifi_service_slot_index_valid slot_index \<or> cstr ssid_text = [] then (ESP_ERR_INVALID_ARG, s)
        else case wifi_copy_cstring 33 (Some ssid_text) of Inl err \<Rightarrow> (err, s)
        | Inr ssid_copy \<Rightarrow>
          (case wifi_copy_cstring 65 (Some (case password of None \<Rightarrow> [] | Some p \<Rightarrow> p)) of Inl err \<Rightarrow> (err, s)
           | Inr password_copy \<Rightarrow> nvs_save_slot env slot_index ssid_copy password_copy s))"

definition wf_send_result :: "bool \<times> wf_state \<Rightarrow> esp_err \<times> wf_state" where
  "wf_send_result r = (if fst r then ESP_OK else ESP_ERR_TIMEOUT, snd r)"

definition wifi_service_connect_slot :: "wf_env \<Rightarrow> u8 \<Rightarrow> wf_state \<Rightarrow> esp_err \<times> wf_state" where
  "wifi_service_connect_slot env slot_index s =
     (if \<not> wifi_service_slot_index_valid slot_index then (ESP_ERR_INVALID_ARG, s)
      else if wf_cmd_queue s = None then (ESP_ERR_INVALID_STATE, s)
      else case nvs_load_slot env s slot_index 33 0 of Inl _ \<Rightarrow> (ESP_ERR_NOT_FOUND, s)
      | Inr _ \<Rightarrow> wf_send_result (wf_queue_send (CMD_CONNECT_SLOT slot_index) s))"

definition wifi_service_connect ::
    "wf_env \<Rightarrow> bytes option \<Rightarrow> bytes option \<Rightarrow> wf_state \<Rightarrow> esp_err \<times> wf_state" where
  "wifi_service_connect env ssid password s =
     (if ssid = None then (ESP_ERR_INVALID_ARG, s)
      else
        let (err, s1) = wifi_service_save_slot env 0 ssid password s in
        if err \<noteq> ESP_OK then (err, s1) else wifi_service_connect_slot env 0 s1)"

text \<open>These send to the queue without a test: with no queue the kernel's assertion stops the
  program, which is \<open>None\<close>.\<close>

definition wf_request :: "wifi_svc_msg \<Rightarrow> wf_state \<Rightarrow> (esp_err \<times> wf_state) option" where
  "wf_request msg s =
     (if wf_cmd_queue s = None then None else Some (wf_send_result (wf_queue_send msg s)))"

definition wifi_service_disconnect :: "wf_state \<Rightarrow> (esp_err \<times> wf_state) option" where
  "wifi_service_disconnect s = wf_request CMD_DISCONNECT s"

definition wifi_service_scan :: "wf_state \<Rightarrow> (esp_err \<times> wf_state) option" where
  "wifi_service_scan s = wf_request CMD_SCAN s"

definition wifi_service_set_autoreconnect :: "bool \<Rightarrow> wf_state \<Rightarrow> (esp_err \<times> wf_state) option" where
  "wifi_service_set_autoreconnect enable s = wf_request (CMD_SET_AUTORECONNECT enable) s"

definition wifi_service_reconnect :: "wf_state \<Rightarrow> (esp_err \<times> wf_state) option" where
  "wifi_service_reconnect s = wf_request CMD_RECONNECT_NOW s"

definition wifi_service_get_autoreconnect :: "wf_state \<Rightarrow> bool" where
  "wifi_service_get_autoreconnect s = wf_autoreconnect s"

definition wifi_service_get_state :: "wf_state \<Rightarrow> wifi_svc_state" where
  "wifi_service_get_state s = wf_link_state s"

definition wifi_service_has_internet :: "wf_state \<Rightarrow> bool" where
  "wifi_service_has_internet s \<longleftrightarrow>
     wf_connectivity_ok s \<and> wf_link_state s = WIFI_SVC_STATE_CONNECTED \<and> wf_have_ip_info s"

definition wifi_service_get_preferred_slot :: "wf_state \<Rightarrow> int" where
  "wifi_service_get_preferred_slot s = wf_last_successful_slot s"

definition wifi_service_get_active_slot :: "wf_state \<Rightarrow> int" where
  "wifi_service_get_active_slot s =
     (if wf_link_state s \<noteq> WIFI_SVC_STATE_CONNECTING \<and> wf_link_state s \<noteq> WIFI_SVC_STATE_CONNECTED
      then WIFI_SVC_INVALID_SLOT else wf_current_slot s)"

definition saved_slot_info :: "wf_env \<Rightarrow> wf_state \<Rightarrow> nat \<Rightarrow> wifi_svc_slot_info" where
  "saved_slot_info env s slot_index =
     (let loaded = nvs_load_slot env s (of_nat slot_index) 33 0 in
      \<lparr>ws_configured = (case loaded of Inl _ \<Rightarrow> False | Inr _ \<Rightarrow> True),
       ws_preferred = (int slot_index = wf_last_successful_slot s),
       ws_active = (int slot_index = wifi_service_get_active_slot s),
       ws_ssid = (case loaded of Inl _ \<Rightarrow> [] | Inr (ssid, _) \<Rightarrow> ssid)\<rparr>)"

definition wifi_service_get_saved_slots ::
    "wf_env \<Rightarrow> nat option \<Rightarrow> wf_state \<Rightarrow> esp_err + wifi_svc_slot_info list" where
  "wifi_service_get_saved_slots env slot_count s =
     (case slot_count of None \<Rightarrow> Inl ESP_ERR_INVALID_ARG
      | Some n \<Rightarrow> if n < WIFI_SVC_SLOT_COUNT then Inl ESP_ERR_INVALID_ARG
                  else Inr (map (saved_slot_info env s) [0..<WIFI_SVC_SLOT_COUNT]))"

text \<open>With no mutex this, too, ends in the kernel's assertion.\<close>

definition wifi_service_get_scan_results ::
    "wf_env \<Rightarrow> bool \<Rightarrow> wf_state \<Rightarrow> (esp_err + nat \<times> wifi_ap_record list) option" where
  "wifi_service_get_scan_results env out s =
     (if \<not> out then Some (Inl ESP_ERR_INVALID_ARG)
      else if \<not> wf_scan_mutex s then None
      else if \<not> we_mutex env then Some (Inl ESP_ERR_TIMEOUT)
      else Some (Inr (wf_scan_count s, wf_scan_records s)))"

definition wifi_service_get_ip_info :: "bool \<Rightarrow> wf_state \<Rightarrow> esp_err + esp_netif_ip_info" where
  "wifi_service_get_ip_info out s =
     (if \<not> out then Inl ESP_ERR_INVALID_ARG
      else if \<not> wf_have_ip_info s then Inl ESP_ERR_INVALID_STATE
      else Inr (wf_ip_info s))"

definition wf_torn_down :: "wf_state \<Rightarrow> wf_state" where
  "wf_torn_down s =
     (wifi_service_clear_reconnect_sequence
        (s\<lparr>wf_ip_handler := False, wf_wifi_handler := False, wf_sta_netif := False,
           wf_reconnect_timer := None, wf_scan_mutex := False, wf_cmd_queue := None,
           wf_scan_records := [], wf_scan_count := 0, wf_ip_info := no_ip_info,
           wf_have_ip_info := False, wf_dns_lookup_active := False, wf_connectivity_ok := False,
           wf_sntp_initialised := False, wf_last_successful_slot := WIFI_SVC_INVALID_SLOT,
           wf_current_slot := WIFI_SVC_INVALID_SLOT,
           wf_expected_disconnect := DISCONNECT_EXPECT_NONE\<rparr>))
       \<lparr>wf_link_state := WIFI_SVC_STATE_IDLE, wf_initialised := False\<rparr>"

definition wifi_service_shutdown :: "wf_env \<Rightarrow> wf_state \<Rightarrow> esp_err \<times> wf_state" where
  "wifi_service_shutdown env s =
     (if \<not> wf_initialised s then (ESP_OK, s)
      else
        let (err, s1) = wf_call env Drv_Disconnect (wf_timer_set False s) in
        if err \<noteq> ESP_OK \<and> err \<noteq> ESP_ERR_WIFI_NOT_INIT \<and> err \<noteq> ESP_ERR_WIFI_NOT_STARTED then (err, s1)
        else
        let (err, s2) = wf_call env Drv_Stop s1 in
        if err \<noteq> ESP_OK \<and> err \<noteq> ESP_ERR_WIFI_NOT_INIT \<and> err \<noteq> ESP_ERR_WIFI_NOT_STARTED then (err, s2)
        else
        let (err, s3) = wf_call env Drv_Deinit s2 in
        if err \<noteq> ESP_OK \<and> err \<noteq> ESP_ERR_WIFI_NOT_INIT then (err, s3)
        else (ESP_OK, wf_torn_down s3))"

definition wifi_service_shutdown_callback :: "wf_env \<Rightarrow> wf_state \<Rightarrow> esp_err \<times> wf_state" where
  "wifi_service_shutdown_callback env s = wifi_service_shutdown env s"

end
