(* ===== verification/Lastfm.thy ===== *)
theory Lastfm
  imports Play_History Player_State Power_Mgmt Wifi
begin

text \<open>
  The Last.fm service, \<^verbatim>\<open>main/lastfm_service.c\<close>: the account kept in NVS, the queue of scrobbles that
  keeps the newest 512 and retries from its front, the limit on the rate of requests, the track
  reported as now playing with its two timers, and the task that serves a command queue and the
  scrobble queue through a queue set. The track names come from the model of the play history, and
  whether there is internet from the model of the Wi-Fi service. The HTTP client and the JSON
  parser are parameters: what a request answers is given by the environment, the requests made are
  logged with their time. Other tasks run while a request is under way: what they do is a list of
  operations of the environment.
\<close>

section \<open>State\<close>

definition LASTFM_SERVICE_BASE_URL_MAX_LEN :: nat where "LASTFM_SERVICE_BASE_URL_MAX_LEN = 127"
definition LASTFM_SERVICE_USERNAME_MAX_LEN :: nat where "LASTFM_SERVICE_USERNAME_MAX_LEN = 127"
definition LASTFM_SERVICE_TOKEN_MAX_LEN :: nat where "LASTFM_SERVICE_TOKEN_MAX_LEN = 127"
definition LASTFM_SERVICE_SESSION_KEY_MAX_LEN :: nat where "LASTFM_SERVICE_SESSION_KEY_MAX_LEN = 127"
definition LASTFM_SERVICE_CMD_QUEUE_LENGTH :: nat where "LASTFM_SERVICE_CMD_QUEUE_LENGTH = 8"
definition LASTFM_SERVICE_SCROBBLE_QUEUE_LENGTH :: nat where "LASTFM_SERVICE_SCROBBLE_QUEUE_LENGTH = 512"
definition LASTFM_SERVICE_SCROBBLE_RATE_LIMIT_REQUESTS :: nat where
  "LASTFM_SERVICE_SCROBBLE_RATE_LIMIT_REQUESTS = 3"
definition LASTFM_SERVICE_SCROBBLE_RATE_LIMIT_WINDOW_MS :: nat where
  "LASTFM_SERVICE_SCROBBLE_RATE_LIMIT_WINDOW_MS = 10000"
definition LASTFM_SERVICE_SCROBBLE_RETRY_DELAY_MS :: nat where "LASTFM_SERVICE_SCROBBLE_RETRY_DELAY_MS = 1000"

record lastfm_track_ref =
  lr_album_checksum :: u32
  lr_track_index :: u32

datatype lastfm_cmd_payload =
    LASTFM_CMD_SET_AUTH_URL
  | LASTFM_CMD_GET_TOKEN
  | LASTFM_CMD_AUTH bytes bytes
  | LASTFM_CMD_LOGOUT
  | LASTFM_CMD_UPDATE_NOW_PLAYING lastfm_track_ref
  | LASTFM_CMD_CLEAR_NOW_PLAYING lastfm_track_ref

text \<open>The members of the queue set.\<close>

datatype lf_member = Lf_Command_Queue | Lf_Scrobble_Queue

text \<open>A request: the path below the base address and the fields of its body.\<close>

datatype lf_request =
    Lf_Get_Token bytes
  | Lf_Get_Mobile_Session bytes bytes bytes
  | Lf_Scrobble bytes bytes bytes bytes int
  | Lf_Update_Now_Playing bytes bytes bytes bytes

record lf_state =
  lf_auth_url :: bytes
  lf_token :: bytes
  lf_session_key :: bytes
  lf_username :: bytes
  lf_has_auth :: bool
  lf_has_token :: bool
  lf_has_session :: bool
  lf_busy :: bool
  lf_scrobbling_enabled :: bool
  lf_now_playing_enabled :: bool
  lf_successful_scrobbles :: u32
  lf_failed_scrobbles :: u32
  lf_cmd_queue :: "lastfm_cmd_payload list option"
  lf_scrobble_queue :: "lastfm_track_ref list option"
  lf_queue_set :: "lf_member list option"
  lf_members :: "lf_member set"
  lf_scrobble_mutex :: bool
  lf_nvs_queue :: bool
  lf_nvs_task :: bool
  lf_request_ticks :: "u32 list"
  lf_request_count :: nat
  lf_request_next_index :: nat
  lf_now_playing_timer :: "bool option"
  lf_pause_clear_timer :: "bool option"
  lf_now_playing_track :: lastfm_track_ref
  lf_now_playing_track_valid :: bool
  lf_now_playing_active :: bool
  lf_nvs_strings :: "string \<Rightarrow> bytes option"
  lf_nvs_i32 :: "string \<Rightarrow> int option"
  lf_clock :: nat
  lf_requests :: "(nat \<times> lf_request) list"
  lf_set_overflow :: bool
  lf_task_stack :: bool
  lf_listening :: bool
  lf_sent :: "lastfm_track_ref list"
  lf_handled :: "lastfm_track_ref list"

text \<open>NVS operations, which the environment may fail, and the semaphore a request to NVS needs.\<close>

datatype lf_nvs_op = Lnvs_Open | Lnvs_Get string | Lnvs_Set string | Lnvs_Erase string | Lnvs_Commit

record lf_nvs_env =
  ln_nvs :: "lf_nvs_op \<Rightarrow> esp_err"
  ln_semaphore :: bool

definition no_track :: lastfm_track_ref where
  "no_track = \<lparr>lr_album_checksum = 0, lr_track_index = 0\<rparr>"

definition lf_boot :: "(string \<Rightarrow> bytes option) \<Rightarrow> (string \<Rightarrow> int option) \<Rightarrow> lf_state" where
  "lf_boot strings i32s = \<lparr>lf_auth_url = [], lf_token = [], lf_session_key = [], lf_username = [],
     lf_has_auth = False, lf_has_token = False, lf_has_session = False, lf_busy = False,
     lf_scrobbling_enabled = True, lf_now_playing_enabled = True,
     lf_successful_scrobbles = 0, lf_failed_scrobbles = 0,
     lf_cmd_queue = None, lf_scrobble_queue = None, lf_queue_set = None, lf_members = {},
     lf_scrobble_mutex = False, lf_nvs_queue = False, lf_nvs_task = False,
     lf_request_ticks = replicate LASTFM_SERVICE_SCROBBLE_RATE_LIMIT_REQUESTS 0,
     lf_request_count = 0, lf_request_next_index = 0,
     lf_now_playing_timer = None, lf_pause_clear_timer = None, lf_now_playing_track = no_track,
     lf_now_playing_track_valid = False, lf_now_playing_active = False,
     lf_nvs_strings = strings, lf_nvs_i32 = i32s, lf_clock = 0, lf_requests = [],
     lf_set_overflow = False, lf_task_stack = False, lf_listening = False,
     lf_sent = [], lf_handled = []\<rparr>"

section \<open>Queues\<close>

text \<open>A send to a member of the queue set also appends the member to the set, whose length is the sum
  of the members' lengths. When the set is full the kernel's assertion fails, which is recorded.\<close>

definition lf_notify :: "lf_member \<Rightarrow> lf_state \<Rightarrow> lf_state" where
  "lf_notify m s =
     (if m \<notin> lf_members s then s
      else case lf_queue_set s of None \<Rightarrow> s
      | Some entries \<Rightarrow>
          if length entries < LASTFM_SERVICE_CMD_QUEUE_LENGTH + LASTFM_SERVICE_SCROBBLE_QUEUE_LENGTH
          then s\<lparr>lf_queue_set := Some (entries @ [m])\<rparr>
          else s\<lparr>lf_set_overflow := True\<rparr>)"

definition cmd_queue_send :: "lastfm_cmd_payload \<Rightarrow> lf_state \<Rightarrow> bool \<times> lf_state" where
  "cmd_queue_send payload s =
     (case lf_cmd_queue s of None \<Rightarrow> (False, s)
      | Some q \<Rightarrow> if length q < LASTFM_SERVICE_CMD_QUEUE_LENGTH
                  then (True, lf_notify Lf_Command_Queue (s\<lparr>lf_cmd_queue := Some (q @ [payload])\<rparr>))
                  else (False, s))"

definition scrobble_queue_send :: "bool \<Rightarrow> lastfm_track_ref \<Rightarrow> lf_state \<Rightarrow> bool \<times> lf_state" where
  "scrobble_queue_send to_front payload s =
     (case lf_scrobble_queue s of None \<Rightarrow> (False, s)
      | Some q \<Rightarrow> if length q < LASTFM_SERVICE_SCROBBLE_QUEUE_LENGTH
                  then (True, lf_notify Lf_Scrobble_Queue
                          (s\<lparr>lf_scrobble_queue := Some (if to_front then payload # q else q @ [payload])\<rparr>))
                  else (False, s))"

definition scrobble_queue_receive :: "lf_state \<Rightarrow> lastfm_track_ref option \<times> lf_state" where
  "scrobble_queue_receive s =
     (case lf_scrobble_queue s of
        Some (payload # q) \<Rightarrow> (Some payload, s\<lparr>lf_scrobble_queue := Some q\<rparr>)
      | _ \<Rightarrow> (None, s))"

section \<open>The account in NVS\<close>

definition lastfm_service_copy_string :: "nat \<Rightarrow> bytes option \<Rightarrow> bytes" where
  "lastfm_service_copy_string dst_len src =
     (case src of None \<Rightarrow> [] | Some text \<Rightarrow> c_strncpy (dst_len - 1) text)"

record lastfm_nvs_state =
  ns_auth_url :: bytes
  ns_token :: bytes
  ns_session_key :: bytes
  ns_username :: bytes
  ns_scrobbling_enabled :: int
  ns_now_playing_enabled :: int

datatype lastfm_nvs_request =
    LASTFM_NVS_CMD_LOAD_STATE
  | LASTFM_NVS_CMD_STORE_AUTH_URL bytes
  | LASTFM_NVS_CMD_STORE_TOKEN bytes
  | LASTFM_NVS_CMD_STORE_SESSION bytes bytes
  | LASTFM_NVS_CMD_STORE_I32 string int
  | LASTFM_NVS_CMD_CLEAR_SESSION

definition nvs_set_str :: "lf_nvs_env \<Rightarrow> string \<Rightarrow> bytes \<Rightarrow> lf_state \<Rightarrow> esp_err \<times> lf_state" where
  "nvs_set_str ne key value s =
     (if ln_nvs ne (Lnvs_Set key) \<noteq> ESP_OK then (ln_nvs ne (Lnvs_Set key), s)
      else (ESP_OK, s\<lparr>lf_nvs_strings := (lf_nvs_strings s)(key \<mapsto> value)\<rparr>))"

definition nvs_set_i32 :: "lf_nvs_env \<Rightarrow> string \<Rightarrow> int \<Rightarrow> lf_state \<Rightarrow> esp_err \<times> lf_state" where
  "nvs_set_i32 ne key value s =
     (if ln_nvs ne (Lnvs_Set key) \<noteq> ESP_OK then (ln_nvs ne (Lnvs_Set key), s)
      else (ESP_OK, s\<lparr>lf_nvs_i32 := (lf_nvs_i32 s)(key \<mapsto> value)\<rparr>))"

text \<open>The commit that follows a write that succeeded.\<close>

definition then_commit :: "lf_nvs_env \<Rightarrow> esp_err \<times> lf_state \<Rightarrow> esp_err \<times> lf_state" where
  "then_commit ne r = (if fst r = ESP_OK then (ln_nvs ne Lnvs_Commit, snd r) else r)"

definition nvs_get_str_or_init ::
    "lf_nvs_env \<Rightarrow> string \<Rightarrow> nat \<Rightarrow> bytes \<Rightarrow> lf_state \<Rightarrow> (esp_err + bytes) \<times> lf_state" where
  "nvs_get_str_or_init ne key buf_len default_val s =
     (let stored = lf_nvs_strings s key;
          err = (if ln_nvs ne (Lnvs_Get key) \<noteq> ESP_OK then ln_nvs ne (Lnvs_Get key)
                 else case stored of None \<Rightarrow> ESP_ERR_NVS_NOT_FOUND
                 | Some text \<Rightarrow> if length text \<ge> buf_len then ESP_ERR_NVS_INVALID_LENGTH else ESP_OK) in
      if err = ESP_ERR_NVS_NOT_FOUND then
        let (err, s1) = then_commit ne (nvs_set_str ne key default_val s) in
        (if err = ESP_OK then Inr (c_strncpy (buf_len - 1) default_val) else Inl err, s1)
      else (if err = ESP_OK then Inr (case stored of None \<Rightarrow> [] | Some text \<Rightarrow> text) else Inl err, s))"

definition nvs_get_i32_or_init ::
    "lf_nvs_env \<Rightarrow> string \<Rightarrow> int \<Rightarrow> lf_state \<Rightarrow> (esp_err + int) \<times> lf_state" where
  "nvs_get_i32_or_init ne key default_val s =
     (let stored = lf_nvs_i32 s key;
          err = (if ln_nvs ne (Lnvs_Get key) \<noteq> ESP_OK then ln_nvs ne (Lnvs_Get key)
                 else case stored of None \<Rightarrow> ESP_ERR_NVS_NOT_FOUND | Some _ \<Rightarrow> ESP_OK) in
      if err = ESP_ERR_NVS_NOT_FOUND then
        let (err, s1) = then_commit ne (nvs_set_i32 ne key default_val s) in
        (if err = ESP_OK then Inr default_val else Inl err, s1)
      else (if err = ESP_OK then Inr (case stored of None \<Rightarrow> 0 | Some v \<Rightarrow> v) else Inl err, s))"

text \<open>One read after the other, as long as they succeed.\<close>

definition and_then ::
    "(esp_err + 'a) \<times> lf_state \<Rightarrow> ('a \<Rightarrow> lf_state \<Rightarrow> (esp_err + 'b) \<times> lf_state) \<Rightarrow> (esp_err + 'b) \<times> lf_state" where
  "and_then r f = (case r of (Inl err, s) \<Rightarrow> (Inl err, s) | (Inr v, s) \<Rightarrow> f v s)"

definition load_nvs_state :: "lf_nvs_env \<Rightarrow> lf_state \<Rightarrow> (esp_err + lastfm_nvs_state) \<times> lf_state" where
  "load_nvs_state ne s =
     and_then (nvs_get_str_or_init ne ''auth_url'' (LASTFM_SERVICE_BASE_URL_MAX_LEN + 1) [] s) (\<lambda>url s.
     and_then (nvs_get_str_or_init ne ''sk'' (LASTFM_SERVICE_SESSION_KEY_MAX_LEN + 1) [] s) (\<lambda>sk s.
     and_then (nvs_get_str_or_init ne ''token'' (LASTFM_SERVICE_TOKEN_MAX_LEN + 1) [] s) (\<lambda>token s.
     and_then (nvs_get_str_or_init ne ''username'' (LASTFM_SERVICE_USERNAME_MAX_LEN + 1) [] s) (\<lambda>username s.
     and_then (nvs_get_i32_or_init ne ''scrobble_en'' 1 s) (\<lambda>scrobbling s.
     and_then (nvs_get_i32_or_init ne ''nowplay_en'' 1 s) (\<lambda>now_playing s.
       (Inr \<lparr>ns_auth_url = url, ns_token = token, ns_session_key = sk, ns_username = username,
             ns_scrobbling_enabled = scrobbling, ns_now_playing_enabled = now_playing\<rparr>, s)))))))"

definition lastfm_service_nvs_erase_key_if_present :: "lf_nvs_env \<Rightarrow> string \<Rightarrow> lf_state \<Rightarrow> esp_err \<times> lf_state" where
  "lastfm_service_nvs_erase_key_if_present ne key s =
     (let err = (if ln_nvs ne (Lnvs_Erase key) \<noteq> ESP_OK then ln_nvs ne (Lnvs_Erase key)
                 else if lf_nvs_strings s key = None then ESP_ERR_NVS_NOT_FOUND else ESP_OK) in
      if err = ESP_ERR_NVS_NOT_FOUND then (ESP_OK, s)
      else if err = ESP_OK then (ESP_OK, s\<lparr>lf_nvs_strings := (lf_nvs_strings s)(key := None)\<rparr>)
      else (err, s))"

definition lastfm_service_process_nvs_request ::
    "lf_nvs_env \<Rightarrow> lastfm_nvs_request \<Rightarrow> lf_state \<Rightarrow> (esp_err \<times> lastfm_nvs_state option) \<times> lf_state" where
  "lastfm_service_process_nvs_request ne request s =
     (if ln_nvs ne Lnvs_Open \<noteq> ESP_OK then ((ln_nvs ne Lnvs_Open, None), s)
      else case request of
        LASTFM_NVS_CMD_LOAD_STATE \<Rightarrow>
          (case load_nvs_state ne s of (Inl err, s1) \<Rightarrow> ((err, None), s1)
           | (Inr st, s1) \<Rightarrow> ((ESP_OK, Some st), s1))
      | LASTFM_NVS_CMD_STORE_AUTH_URL value \<Rightarrow>
          (let (err, s1) = then_commit ne (nvs_set_str ne ''auth_url'' value s) in ((err, None), s1))
      | LASTFM_NVS_CMD_STORE_TOKEN value \<Rightarrow>
          (let (err, s1) = then_commit ne (nvs_set_str ne ''token'' value s) in ((err, None), s1))
      | LASTFM_NVS_CMD_STORE_SESSION session username \<Rightarrow>
          (let (err, s1) = nvs_set_str ne ''sk'' session s;
               (err, s2) = (if err = ESP_OK then nvs_set_str ne ''username'' username s1 else (err, s1));
               (err, s3) = then_commit ne (err, s2) in ((err, None), s3))
      | LASTFM_NVS_CMD_STORE_I32 key value \<Rightarrow>
          (let (err, s1) = then_commit ne (nvs_set_i32 ne key value s) in ((err, None), s1))
      | LASTFM_NVS_CMD_CLEAR_SESSION \<Rightarrow>
          (let (err, s1) = lastfm_service_nvs_erase_key_if_present ne ''sk'' s;
               (err, s2) = (if err = ESP_OK then lastfm_service_nvs_erase_key_if_present ne ''username'' s1
                            else (err, s1));
               (err, s3) = (if err = ESP_OK then lastfm_service_nvs_erase_key_if_present ne ''token'' s2
                            else (err, s2));
               (err, s4) = then_commit ne (err, s3) in ((err, None), s4)))"

text \<open>The request is served by the NVS task while the caller waits without a limit.\<close>

definition lastfm_service_dispatch_nvs_request ::
    "lf_nvs_env \<Rightarrow> lastfm_nvs_request \<Rightarrow> lf_state \<Rightarrow> (esp_err \<times> lastfm_nvs_state option) \<times> lf_state" where
  "lastfm_service_dispatch_nvs_request ne request s =
     (if \<not> lf_nvs_queue s then ((ESP_ERR_INVALID_STATE, None), s)
      else if \<not> ln_semaphore ne then ((ESP_ERR_NO_MEM, None), s)
      else lastfm_service_process_nvs_request ne request s)"

definition dispatch_store :: "lf_nvs_env \<Rightarrow> lastfm_nvs_request \<Rightarrow> lf_state \<Rightarrow> esp_err \<times> lf_state" where
  "dispatch_store ne request s =
     (let ((err, _), s1) = lastfm_service_dispatch_nvs_request ne request s in (err, s1))"

definition lastfm_service_store_token_in_nvs :: "lf_nvs_env \<Rightarrow> bytes \<Rightarrow> lf_state \<Rightarrow> esp_err \<times> lf_state" where
  "lastfm_service_store_token_in_nvs ne token s =
     dispatch_store ne (LASTFM_NVS_CMD_STORE_TOKEN
       (lastfm_service_copy_string (LASTFM_SERVICE_TOKEN_MAX_LEN + 1) (Some token))) s"

definition lastfm_service_store_session_in_nvs ::
    "lf_nvs_env \<Rightarrow> bytes \<Rightarrow> bytes \<Rightarrow> lf_state \<Rightarrow> esp_err \<times> lf_state" where
  "lastfm_service_store_session_in_nvs ne session username s =
     dispatch_store ne (LASTFM_NVS_CMD_STORE_SESSION
       (lastfm_service_copy_string (LASTFM_SERVICE_SESSION_KEY_MAX_LEN + 1) (Some session))
       (lastfm_service_copy_string (LASTFM_SERVICE_USERNAME_MAX_LEN + 1) (Some username))) s"

definition lastfm_service_clear_session_in_nvs :: "lf_nvs_env \<Rightarrow> lf_state \<Rightarrow> esp_err \<times> lf_state" where
  "lastfm_service_clear_session_in_nvs ne s = dispatch_store ne LASTFM_NVS_CMD_CLEAR_SESSION s"

definition lastfm_service_store_enabled_flag ::
    "lf_nvs_env \<Rightarrow> string \<Rightarrow> bool \<Rightarrow> lf_state \<Rightarrow> esp_err \<times> lf_state" where
  "lastfm_service_store_enabled_flag ne key enabled s =
     dispatch_store ne (LASTFM_NVS_CMD_STORE_I32 key (if enabled then 1 else 0)) s"

definition lastfm_service_load_persisted_state :: "lf_nvs_env \<Rightarrow> lf_state \<Rightarrow> esp_err \<times> lf_state" where
  "lastfm_service_load_persisted_state ne s =
     (case lastfm_service_dispatch_nvs_request ne LASTFM_NVS_CMD_LOAD_STATE s of
        ((err, None), s1) \<Rightarrow> (err, s1)
      | ((err, Some st), s1) \<Rightarrow>
          let url = lastfm_service_copy_string (LASTFM_SERVICE_BASE_URL_MAX_LEN + 1) (Some (ns_auth_url st));
              token = lastfm_service_copy_string (LASTFM_SERVICE_TOKEN_MAX_LEN + 1) (Some (ns_token st));
              sk = lastfm_service_copy_string (LASTFM_SERVICE_SESSION_KEY_MAX_LEN + 1) (Some (ns_session_key st));
              username = lastfm_service_copy_string (LASTFM_SERVICE_USERNAME_MAX_LEN + 1) (Some (ns_username st)) in
          (ESP_OK, s1\<lparr>lf_auth_url := url, lf_token := token, lf_session_key := sk, lf_username := username,
             lf_scrobbling_enabled := (ns_scrobbling_enabled st \<noteq> 0),
             lf_now_playing_enabled := (ns_now_playing_enabled st \<noteq> 0),
             lf_has_auth := (url \<noteq> []), lf_has_session := (sk \<noteq> []), lf_has_token := (token \<noteq> [])\<rparr>))"

section \<open>The address of the backend\<close>

definition starts_with :: "bytes \<Rightarrow> bytes \<Rightarrow> bool" where
  "starts_with prefix text \<longleftrightarrow> take (length prefix) text = prefix"

text \<open>\<^verbatim>\<open>strstr\<close> finds the needle at some position.\<close>

fun has_substring :: "bytes \<Rightarrow> bytes \<Rightarrow> bool" where
  "has_substring needle [] = (needle = [])"
| "has_substring needle (c # text) = (starts_with needle (c # text) \<or> has_substring needle text)"

definition scheme_separator :: bytes where "scheme_separator = [58, 47, 47]"
definition http_prefix :: bytes where "http_prefix = [104, 116, 116, 112, 58, 47, 47]"
definition https_prefix :: bytes where "https_prefix = [104, 116, 116, 112, 115, 58, 47, 47]"

definition lastfm_service_normalize_base_url :: "bytes option \<Rightarrow> nat \<Rightarrow> esp_err + bytes" where
  "lastfm_service_normalize_base_url base_url normalized_url_len =
     (case base_url of None \<Rightarrow> Inl ESP_ERR_INVALID_ARG
      | Some raw \<Rightarrow>
        let url = cstr raw in
        if normalized_url_len = 0 \<or> url = [] then Inl ESP_ERR_INVALID_ARG
        else if has_substring scheme_separator url then
          if \<not> starts_with http_prefix url \<and> \<not> starts_with https_prefix url then Inl ESP_ERR_INVALID_ARG
          else if length url \<ge> normalized_url_len then Inl ESP_ERR_INVALID_SIZE else Inr url
        else if length (https_prefix @ url) \<ge> normalized_url_len then Inl ESP_ERR_INVALID_SIZE
        else Inr (https_prefix @ url))"

definition lastfm_service_set_auth_url :: "lf_nvs_env \<Rightarrow> bytes option \<Rightarrow> lf_state \<Rightarrow> esp_err \<times> lf_state" where
  "lastfm_service_set_auth_url ne url s =
     (case lastfm_service_normalize_base_url url (LASTFM_SERVICE_BASE_URL_MAX_LEN + 1) of Inl err \<Rightarrow> (err, s)
      | Inr normalized_url \<Rightarrow>
        let (err, s1) = dispatch_store ne (LASTFM_NVS_CMD_STORE_AUTH_URL
              (lastfm_service_copy_string (LASTFM_SERVICE_BASE_URL_MAX_LEN + 1) (Some normalized_url))) s in
        if err = ESP_OK
        then (err, s1\<lparr>lf_auth_url := c_strncpy LASTFM_SERVICE_BASE_URL_MAX_LEN normalized_url, lf_has_auth := True\<rparr>)
        else (err, s1))"

definition lastfm_service_logout :: "lf_nvs_env \<Rightarrow> lf_state \<Rightarrow> esp_err \<times> lf_state" where
  "lastfm_service_logout ne s =
     (let (err, s1) = lastfm_service_clear_session_in_nvs ne s in
      if err \<noteq> ESP_OK then (err, s1)
      else (ESP_OK, s1\<lparr>lf_session_key := [], lf_username := [], lf_token := [],
                       lf_has_session := False, lf_has_token := False\<rparr>))"

section \<open>Timers and the track that is playing\<close>

definition lf_stop_now_playing_timer :: "lf_state \<Rightarrow> lf_state" where
  "lf_stop_now_playing_timer s = s\<lparr>lf_now_playing_timer := map_option (\<lambda>_. False) (lf_now_playing_timer s)\<rparr>"

definition lf_stop_pause_clear_timer :: "lf_state \<Rightarrow> lf_state" where
  "lf_stop_pause_clear_timer s = s\<lparr>lf_pause_clear_timer := map_option (\<lambda>_. False) (lf_pause_clear_timer s)\<rparr>"

text \<open>A one-shot timer is stopped and then started; starting a stopped timer does not fail.\<close>

definition lf_start_now_playing_timer :: "lf_state \<Rightarrow> lf_state" where
  "lf_start_now_playing_timer s = s\<lparr>lf_now_playing_timer := map_option (\<lambda>_. True) (lf_now_playing_timer s)\<rparr>"

definition lf_start_pause_clear_timer :: "lf_state \<Rightarrow> lf_state" where
  "lf_start_pause_clear_timer s = s\<lparr>lf_pause_clear_timer := map_option (\<lambda>_. True) (lf_pause_clear_timer s)\<rparr>"

definition lastfm_service_reset_now_playing_state :: "lf_state \<Rightarrow> lf_state" where
  "lastfm_service_reset_now_playing_state s = s\<lparr>lf_now_playing_track := no_track,
     lf_now_playing_track_valid := False, lf_now_playing_active := False\<rparr>"

definition lf_forget_now_playing :: "lf_state \<Rightarrow> lf_state" where
  "lf_forget_now_playing s = lastfm_service_reset_now_playing_state
     (lf_stop_pause_clear_timer (lf_stop_now_playing_timer s))"

definition lastfm_service_set_scrobbling_enabled :: "lf_nvs_env \<Rightarrow> bool \<Rightarrow> lf_state \<Rightarrow> esp_err \<times> lf_state" where
  "lastfm_service_set_scrobbling_enabled ne enabled s =
     (let (err, s1) = lastfm_service_store_enabled_flag ne ''scrobble_en'' enabled s in
      if err \<noteq> ESP_OK then (err, s1) else (ESP_OK, s1\<lparr>lf_scrobbling_enabled := enabled\<rparr>))"

definition lastfm_service_set_now_playing_enabled :: "lf_nvs_env \<Rightarrow> bool \<Rightarrow> lf_state \<Rightarrow> esp_err \<times> lf_state" where
  "lastfm_service_set_now_playing_enabled ne enabled s =
     (let (err, s1) = lastfm_service_store_enabled_flag ne ''nowplay_en'' enabled s in
      if err \<noteq> ESP_OK then (err, s1)
      else
        let s2 = s1\<lparr>lf_now_playing_enabled := enabled\<rparr> in
        (ESP_OK, if enabled then s2 else lf_forget_now_playing s2))"

definition lastfm_service_enqueue_command :: "lastfm_cmd_payload \<Rightarrow> lf_state \<Rightarrow> esp_err \<times> lf_state" where
  "lastfm_service_enqueue_command payload s =
     (if lf_cmd_queue s = None then (ESP_ERR_INVALID_STATE, s)
      else let (ok, s1) = cmd_queue_send payload s in (if ok then ESP_OK else ESP_ERR_TIMEOUT, s1))"

definition lastfm_service_queue_request_token :: "lf_state \<Rightarrow> esp_err \<times> lf_state" where
  "lastfm_service_queue_request_token s =
     (if \<not> lf_has_auth s then (ESP_ERR_INVALID_STATE, s)
      else lastfm_service_enqueue_command LASTFM_CMD_GET_TOKEN s)"

definition lastfm_service_queue_request_auth ::
    "bytes option \<Rightarrow> bytes option \<Rightarrow> lf_state \<Rightarrow> esp_err \<times> lf_state" where
  "lastfm_service_queue_request_auth username password s =
     (if username = None \<or> password = None then (ESP_ERR_INVALID_ARG, s)
      else if \<not> lf_has_auth s then (ESP_ERR_INVALID_STATE, s)
      else lastfm_service_enqueue_command (LASTFM_CMD_AUTH
             (lastfm_service_copy_string (LASTFM_SERVICE_BASE_URL_MAX_LEN + 1) username)
             (lastfm_service_copy_string (LASTFM_SERVICE_BASE_URL_MAX_LEN + 1) password)) s)"

text \<open>A timer that fires is no longer armed and runs its callback.\<close>

definition lastfm_service_now_playing_timer_cb :: "lf_state \<Rightarrow> lf_state" where
  "lastfm_service_now_playing_timer_cb s =
     (if \<not> lf_now_playing_track_valid s then s
      else snd (lastfm_service_enqueue_command (LASTFM_CMD_UPDATE_NOW_PLAYING (lf_now_playing_track s)) s))"

definition lastfm_service_pause_clear_timer_cb :: "lf_state \<Rightarrow> lf_state" where
  "lastfm_service_pause_clear_timer_cb s =
     (if \<not> lf_now_playing_track_valid s then s
      else snd (lastfm_service_enqueue_command (LASTFM_CMD_CLEAR_NOW_PLAYING (lf_now_playing_track s)) s))"

definition lastfm_service_track_ref_from_player_event ::
    "player_service_track_event option \<Rightarrow> lastfm_track_ref option" where
  "lastfm_service_track_ref_from_player_event event =
     (case event of None \<Rightarrow> None
      | Some ev \<Rightarrow> Some \<lparr>lr_album_checksum = te_cartridge_checksum ev, lr_track_index = te_track_index ev\<rparr>)"

definition lastfm_service_handle_track_started_event ::
    "player_service_track_event option \<Rightarrow> lf_state \<Rightarrow> lf_state" where
  "lastfm_service_handle_track_started_event event s =
     (if \<not> lf_now_playing_enabled s then lf_forget_now_playing s
      else case lastfm_service_track_ref_from_player_event event of None \<Rightarrow> lf_forget_now_playing s
      | Some track_ref \<Rightarrow>
          let same_track = lf_now_playing_track_valid s \<and> lf_now_playing_track s = track_ref;
              is_resume = (case event of None \<Rightarrow> False | Some ev \<Rightarrow> te_playback_position_sec ev > 0);
              s1 = lf_stop_pause_clear_timer s in
          if same_track \<and> lf_now_playing_active s1 \<and> is_resume then s1
          else lf_start_now_playing_timer ((lf_stop_now_playing_timer s1)
                 \<lparr>lf_now_playing_track := track_ref, lf_now_playing_track_valid := True,
                  lf_now_playing_active := False\<rparr>))"

definition lastfm_service_handle_track_paused_event ::
    "player_service_track_event option \<Rightarrow> lf_state \<Rightarrow> lf_state" where
  "lastfm_service_handle_track_paused_event event s =
     (let s1 = lf_stop_now_playing_timer s in
      if \<not> lf_now_playing_enabled s1
      then lastfm_service_reset_now_playing_state (lf_stop_pause_clear_timer s1)
      else
        let s2 = (case lastfm_service_track_ref_from_player_event event of None \<Rightarrow> s1
                  | Some track_ref \<Rightarrow> s1\<lparr>lf_now_playing_track := track_ref, lf_now_playing_track_valid := True\<rparr>) in
        if lf_now_playing_active s2 then lf_start_pause_clear_timer s2 else s2)"

definition lastfm_service_handle_track_finished_event ::
    "player_service_track_event option \<Rightarrow> lf_state \<Rightarrow> lf_state" where
  "lastfm_service_handle_track_finished_event event s = lf_forget_now_playing s"

definition lastfm_service_on_player_event :: "player_service_event \<Rightarrow> lf_state \<Rightarrow> lf_state" where
  "lastfm_service_on_player_event event s =
     (case event of
        PLAYER_SVC_EVENT_TRACK_STARTED ev \<Rightarrow> lastfm_service_handle_track_started_event ev s
      | PLAYER_SVC_EVENT_TRACK_PAUSED ev \<Rightarrow> lastfm_service_handle_track_paused_event ev s
      | PLAYER_SVC_EVENT_TRACK_FINISHED ev \<Rightarrow> lastfm_service_handle_track_finished_event ev s
      | _ \<Rightarrow> s)"

section \<open>The scrobble queue\<close>

text \<open>\<open>locked\<close>: whether the mutex is obtained in time. Two logs, which the code does not have, keep the
  scrobbles accepted for the queue and those done with.\<close>

definition lf_note_sent :: "lastfm_track_ref \<Rightarrow> lf_state \<Rightarrow> lf_state" where
  "lf_note_sent payload s = s\<lparr>lf_sent := lf_sent s @ [payload]\<rparr>"

definition lf_note_handled :: "lastfm_track_ref \<Rightarrow> lf_state \<Rightarrow> lf_state" where
  "lf_note_handled payload s = s\<lparr>lf_handled := lf_handled s @ [payload]\<rparr>"

definition lastfm_service_send_scrobble :: "bool \<Rightarrow> u32 \<Rightarrow> u32 \<Rightarrow> lf_state \<Rightarrow> esp_err \<times> lf_state" where
  "lastfm_service_send_scrobble locked album_checksum track_index s =
     (let payload = \<lparr>lr_album_checksum = album_checksum, lr_track_index = track_index\<rparr> in
      if \<not> lf_scrobbling_enabled s then (ESP_OK, s)
      else if lf_scrobble_queue s = None \<or> \<not> lf_scrobble_mutex s then (ESP_ERR_INVALID_STATE, s)
      else if \<not> locked then (ESP_ERR_TIMEOUT, s)
      else
        let (sent, s1) = scrobble_queue_send False payload s in
        if sent then (ESP_OK, lf_note_sent payload s1)
        else case scrobble_queue_receive s1 of (None, s2) \<Rightarrow> (ESP_FAIL, s2)
        | (Some dropped_payload, s2) \<Rightarrow>
            let (sent, s3) = scrobble_queue_send False payload s2 in
            if sent then (ESP_OK, lf_note_sent payload s3) else (ESP_FAIL, s3))"

definition lastfm_service_on_listen_count_incremented ::
    "bool \<Rightarrow> ph_listen_count_event option \<Rightarrow> lf_state \<Rightarrow> lf_state" where
  "lastfm_service_on_listen_count_incremented locked event s =
     (case event of None \<Rightarrow> s
      | Some ev \<Rightarrow> snd (lastfm_service_send_scrobble locked (le_cartridge_checksum ev) (le_track_index ev) s))"

text \<open>Putting a scrobble back at the front, in place of the oldest one when the queue is full; a retry is
  delayed. The result tells whether it was put back.\<close>

definition lf_delay_ms :: "nat \<Rightarrow> lf_state \<Rightarrow> lf_state" where
  "lf_delay_ms ms s = s\<lparr>lf_clock := lf_clock s + pdMS_TO_TICKS ms\<rparr>"

definition lastfm_service_requeue_scrobble :: "bool \<Rightarrow> lastfm_track_ref \<Rightarrow> lf_state \<Rightarrow> bool \<times> lf_state" where
  "lastfm_service_requeue_scrobble locked payload s =
     (if lf_scrobble_queue s = None \<or> \<not> lf_scrobble_mutex s then (False, s)
      else if \<not> locked then (False, s)
      else
        let (sent, s1) = scrobble_queue_send True payload s in
        if sent then (True, lf_delay_ms LASTFM_SERVICE_SCROBBLE_RETRY_DELAY_MS s1)
        else case scrobble_queue_receive s1 of (None, s2) \<Rightarrow> (False, s2)
        | (Some dropped_payload, s2) \<Rightarrow>
            let (sent, s3) = scrobble_queue_send True payload s2 in
            if sent then (True, lf_delay_ms LASTFM_SERVICE_SCROBBLE_RETRY_DELAY_MS s3) else (False, s3))"

definition lastfm_service_receive_scrobble :: "bool \<Rightarrow> lf_state \<Rightarrow> (esp_err + lastfm_track_ref) \<times> lf_state" where
  "lastfm_service_receive_scrobble locked s =
     (if lf_scrobble_queue s = None \<or> \<not> lf_scrobble_mutex s then (Inl ESP_ERR_INVALID_STATE, s)
      else if \<not> locked then (Inl ESP_ERR_TIMEOUT, s)
      else case scrobble_queue_receive s of (None, s1) \<Rightarrow> (Inl ESP_ERR_NOT_FOUND, s1)
      | (Some payload, s1) \<Rightarrow> (Inr payload, s1))"

section \<open>What other tasks do\<close>

text \<open>While the Last.fm task sleeps or waits for an answer, the event handlers, the timers and the
  callers of the interface go on, and time passes.\<close>

datatype lf_quick =
    Lq_Player_Event player_service_event
  | Lq_Now_Playing_Timer
  | Lq_Pause_Clear_Timer
  | Lq_Listen_Count bool "ph_listen_count_event option"
  | Lq_Send_Scrobble bool u32 u32
  | Lq_Set_Auth_Url lf_nvs_env "bytes option"
  | Lq_Queue_Token
  | Lq_Queue_Auth "bytes option" "bytes option"
  | Lq_Logout lf_nvs_env
  | Lq_Set_Scrobbling lf_nvs_env bool
  | Lq_Set_Now_Playing lf_nvs_env bool
  | Lq_Time nat

fun lf_quick_step :: "lf_state \<Rightarrow> lf_quick \<Rightarrow> lf_state" where
  "lf_quick_step s (Lq_Player_Event event) = lastfm_service_on_player_event event s"
| "lf_quick_step s Lq_Now_Playing_Timer =
     (if lf_now_playing_timer s = Some True
      then lastfm_service_now_playing_timer_cb (lf_stop_now_playing_timer s) else s)"
| "lf_quick_step s Lq_Pause_Clear_Timer =
     (if lf_pause_clear_timer s = Some True
      then lastfm_service_pause_clear_timer_cb (lf_stop_pause_clear_timer s) else s)"
| "lf_quick_step s (Lq_Listen_Count locked event) = lastfm_service_on_listen_count_incremented locked event s"
| "lf_quick_step s (Lq_Send_Scrobble locked checksum index) = snd (lastfm_service_send_scrobble locked checksum index s)"
| "lf_quick_step s (Lq_Set_Auth_Url ne url) = snd (lastfm_service_set_auth_url ne url s)"
| "lf_quick_step s Lq_Queue_Token = snd (lastfm_service_queue_request_token s)"
| "lf_quick_step s (Lq_Queue_Auth username password) = snd (lastfm_service_queue_request_auth username password s)"
| "lf_quick_step s (Lq_Logout ne) = snd (lastfm_service_logout ne s)"
| "lf_quick_step s (Lq_Set_Scrobbling ne enabled) = snd (lastfm_service_set_scrobbling_enabled ne enabled s)"
| "lf_quick_step s (Lq_Set_Now_Playing ne enabled) = snd (lastfm_service_set_now_playing_enabled ne enabled s)"
| "lf_quick_step s (Lq_Time ticks) = s\<lparr>lf_clock := lf_clock s + ticks\<rparr>"

definition lf_others :: "lf_quick list \<Rightarrow> lf_state \<Rightarrow> lf_state" where
  "lf_others ops s = foldl lf_quick_step s ops"

text \<open>What the Last.fm task sees of the rest: the Wi-Fi service at the start of a pass and after it was
  woken, the play history, the answers to requests (result, status, pieces of the body), the parser's
  findings, the clock, and what the other tasks do during a sleep and during a request.\<close>

record lf_env =
  lv_wifi :: wf_state
  lv_wifi_woken :: wf_state
  lv_history :: ph_state
  lv_nvs :: lf_nvs_env
  lv_locked :: bool
  lv_json_alloc :: bool
  lv_client_alloc :: bool
  lv_http :: "lf_request \<Rightarrow> esp_err \<times> int \<times> bytes list"
  lv_realloc :: "nat \<Rightarrow> bool"
  lv_json_token :: "bytes \<Rightarrow> bytes option"
  lv_json_session_key :: "bytes \<Rightarrow> bytes option"
  lv_unix_time :: int
  lv_during_sleep :: "lf_quick list"
  lv_during_request :: "lf_quick list"

section \<open>Requests\<close>

definition lastfm_service_wait_for_request_rate_limit :: "lf_env \<Rightarrow> lf_state \<Rightarrow> lf_state" where
  "lastfm_service_wait_for_request_rate_limit env s =
     (let window_ticks = pdMS_TO_TICKS LASTFM_SERVICE_SCROBBLE_RATE_LIMIT_WINDOW_MS in
      if lf_request_count s < LASTFM_SERVICE_SCROBBLE_RATE_LIMIT_REQUESTS then s
      else
        let now = of_nat (lf_clock s);
            elapsed_ticks = unat (now - lf_request_ticks s ! lf_request_next_index s) in
        if elapsed_ticks \<ge> window_ticks then s
        else
          let wait_ticks = (if window_ticks - elapsed_ticks = 0 then 1 else window_ticks - elapsed_ticks) in
          lf_others (lv_during_sleep env) (s\<lparr>lf_clock := lf_clock s + wait_ticks\<rparr>))"

definition lastfm_service_record_request :: "lf_state \<Rightarrow> lf_state" where
  "lastfm_service_record_request s =
     s\<lparr>lf_request_ticks := (lf_request_ticks s)[lf_request_next_index s := of_nat (lf_clock s)],
       lf_request_next_index := (lf_request_next_index s + 1) mod LASTFM_SERVICE_SCROBBLE_RATE_LIMIT_REQUESTS,
       lf_request_count := (if lf_request_count s < LASTFM_SERVICE_SCROBBLE_RATE_LIMIT_REQUESTS
                            then lf_request_count s + 1 else lf_request_count s)\<rparr>"

text \<open>The buffer that collects the body of an answer.\<close>

record lastfm_http_response_buffer =
  rb_data :: bytes
  rb_capacity :: nat
  rb_err :: esp_err

definition empty_response_buffer :: lastfm_http_response_buffer where
  "empty_response_buffer = \<lparr>rb_data = [], rb_capacity = 0, rb_err = ESP_OK\<rparr>"

function grow_capacity :: "nat \<Rightarrow> nat \<Rightarrow> nat" where
  "grow_capacity new_capacity required_capacity =
     (if new_capacity < required_capacity then
        let doubled_capacity = new_capacity * 2 mod (SIZE_MAX + 1) in
        if doubled_capacity \<le> new_capacity then required_capacity
        else grow_capacity doubled_capacity required_capacity
      else new_capacity)"
  by pat_completeness auto

termination by (relation "measure (\<lambda>(new_capacity, required). required - new_capacity)") auto

declare grow_capacity.simps [simp del]

definition lastfm_service_http_response_buffer_reserve ::
    "(nat \<Rightarrow> bool) \<Rightarrow> nat \<Rightarrow> lastfm_http_response_buffer \<Rightarrow> esp_err \<times> lastfm_http_response_buffer" where
  "lastfm_service_http_response_buffer_reserve realloc_ok required_capacity buffer =
     (if required_capacity \<le> rb_capacity buffer then (ESP_OK, buffer)
      else
        let new_capacity = grow_capacity (if rb_capacity buffer \<noteq> 0 then rb_capacity buffer else 256)
              required_capacity in
        if \<not> realloc_ok (new_capacity + 1) then (ESP_ERR_NO_MEM, buffer)
        else (ESP_OK, buffer\<lparr>rb_capacity := new_capacity\<rparr>))"

text \<open>The event handler, for the event that carries a piece of the body.\<close>

definition lastfm_service_http_event_handler ::
    "(nat \<Rightarrow> bool) \<Rightarrow> bytes \<Rightarrow> lastfm_http_response_buffer \<Rightarrow> lastfm_http_response_buffer" where
  "lastfm_service_http_event_handler realloc_ok data buffer =
     (if rb_err buffer \<noteq> ESP_OK \<or> data = [] then buffer
      else
        let (err, buffer1) = lastfm_service_http_response_buffer_reserve realloc_ok
              (length (rb_data buffer) + length data) buffer in
        if err \<noteq> ESP_OK then buffer1\<lparr>rb_err := err\<rparr>
        else buffer1\<lparr>rb_err := ESP_OK, rb_data := rb_data buffer1 @ data\<rparr>)"

definition collect_response :: "(nat \<Rightarrow> bool) \<Rightarrow> bytes list \<Rightarrow> lastfm_http_response_buffer" where
  "collect_response realloc_ok pieces =
     foldl (\<lambda>buffer data. lastfm_service_http_event_handler realloc_ok data buffer) empty_response_buffer pieces"

text \<open>A request on its way, with the other tasks running until its answer is there.\<close>

definition lf_perform :: "lf_env \<Rightarrow> lf_request \<Rightarrow> lf_state \<Rightarrow> lf_state" where
  "lf_perform env request s =
     lf_others (lv_during_request env) (s\<lparr>lf_requests := lf_requests s @ [(lf_clock s, request)]\<rparr>)"

definition lf_internet :: "lf_env \<Rightarrow> bool" where
  "lf_internet env = wifi_service_has_internet (lv_wifi_woken env)"

definition lf_not_busy :: "esp_err \<times> lf_state \<Rightarrow> esp_err \<times> lf_state" where
  "lf_not_busy r = (fst r, (snd r)\<lparr>lf_busy := False\<rparr>)"

definition lastfm_update_now_playing :: "lf_env \<Rightarrow> bytes \<Rightarrow> bytes \<Rightarrow> lf_state \<Rightarrow> esp_err \<times> lf_state" where
  "lastfm_update_now_playing env artist track s =
     lf_not_busy
     (let s1 = s\<lparr>lf_busy := True\<rparr> in
      if \<not> lf_has_auth s1 \<or> \<not> lf_has_session s1 then (ESP_ERR_INVALID_STATE, s1)
      else if \<not> lv_json_alloc env then (ESP_ERR_NO_MEM, s1)
      else if \<not> lv_client_alloc env then (ESP_FAIL, s1)
      else
        let request = Lf_Update_Now_Playing (lf_auth_url s1) (lf_session_key s1) artist track;
            (err, status_code, _) = lv_http env request;
            s2 = lf_perform env request s1 in
        (if err = ESP_OK \<and> status_code \<noteq> 200 then ESP_FAIL else err, s2))"

definition lastfm_scrobble :: "lf_env \<Rightarrow> bytes \<Rightarrow> bytes \<Rightarrow> lf_state \<Rightarrow> esp_err \<times> lf_state" where
  "lastfm_scrobble env artist track s =
     lf_not_busy
     (let s1 = s\<lparr>lf_busy := True\<rparr> in
      if \<not> lf_has_auth s1 \<or> \<not> lf_has_session s1 then (ESP_ERR_INVALID_STATE, s1)
      else if lv_unix_time env < 1577836800 then (ESP_ERR_INVALID_STATE, s1)
      else if \<not> lv_json_alloc env then (ESP_ERR_NO_MEM, s1)
      else if \<not> lv_client_alloc env then (ESP_FAIL, s1)
      else
        let request = Lf_Scrobble (lf_auth_url s1) (lf_session_key s1) artist track (lv_unix_time env);
            (err, status_code, _) = lv_http env request;
            s2 = lf_perform env request s1 in
        if err = ESP_OK \<and> status_code = 200
        then (ESP_OK, s2\<lparr>lf_successful_scrobbles := lf_successful_scrobbles s2 + 1\<rparr>)
        else (if err = ESP_OK then ESP_FAIL else err,
              s2\<lparr>lf_failed_scrobbles := lf_failed_scrobbles s2 + 1\<rparr>))"

definition lastfm_service_require_internet_connection :: "lf_env \<Rightarrow> esp_err" where
  "lastfm_service_require_internet_connection env =
     (if lf_internet env then ESP_OK else ESP_ERR_INVALID_STATE)"

definition lastfm_service_request_token :: "lf_env \<Rightarrow> lf_state \<Rightarrow> esp_err \<times> lf_state" where
  "lastfm_service_request_token env s =
     lf_not_busy
     (let s1 = s\<lparr>lf_busy := True\<rparr> in
      if \<not> lf_has_auth s1 then (ESP_ERR_INVALID_STATE, s1)
      else if lastfm_service_require_internet_connection env \<noteq> ESP_OK
      then (lastfm_service_require_internet_connection env, s1)
      else if \<not> lv_client_alloc env then (ESP_FAIL, s1)
      else
        let request = Lf_Get_Token (lf_auth_url s1);
            (performed, status_code, pieces) = lv_http env request;
            s2 = lf_perform env request s1;
            buffer = collect_response (lv_realloc env) pieces;
            err = (if performed = ESP_OK \<and> rb_err buffer \<noteq> ESP_OK then rb_err buffer else performed) in
        if err \<noteq> ESP_OK then (err, s2)
        else if status_code \<noteq> 200 then (ESP_FAIL, s2)
        else case (if rb_data buffer = [] then None else lv_json_token env (rb_data buffer)) of
          None \<Rightarrow> (ESP_ERR_INVALID_RESPONSE, s2)
        | Some token \<Rightarrow>
            let stored = c_strncpy LASTFM_SERVICE_TOKEN_MAX_LEN token;
                s3 = s2\<lparr>lf_token := stored, lf_has_token := True\<rparr> in
            (ESP_OK, snd (lastfm_service_store_token_in_nvs (lv_nvs env) stored s3)))"

definition lastfm_service_request_auth :: "lf_env \<Rightarrow> bytes \<Rightarrow> bytes \<Rightarrow> lf_state \<Rightarrow> esp_err \<times> lf_state" where
  "lastfm_service_request_auth env username password s =
     lf_not_busy
     (let s1 = s\<lparr>lf_busy := True\<rparr> in
      if \<not> lf_has_auth s1 then (ESP_ERR_INVALID_STATE, s1)
      else if lastfm_service_require_internet_connection env \<noteq> ESP_OK
      then (lastfm_service_require_internet_connection env, s1)
      else if \<not> lv_json_alloc env then (ESP_ERR_NO_MEM, s1)
      else if \<not> lv_client_alloc env then (ESP_FAIL, s1)
      else
        let request = Lf_Get_Mobile_Session (lf_auth_url s1) username password;
            (performed, status_code, pieces) = lv_http env request;
            s2 = lf_perform env request s1;
            buffer = collect_response (lv_realloc env) pieces;
            err = (if performed = ESP_OK \<and> rb_err buffer \<noteq> ESP_OK then rb_err buffer else performed) in
        if err \<noteq> ESP_OK then (err, s2)
        else if status_code \<noteq> 200 then (ESP_FAIL, s2)
        else case (if rb_data buffer = [] then None else lv_json_session_key env (rb_data buffer)) of
          None \<Rightarrow> (ESP_ERR_INVALID_RESPONSE, s2)
        | Some sk \<Rightarrow>
            let s3 = s2\<lparr>lf_session_key := c_strncpy LASTFM_SERVICE_SESSION_KEY_MAX_LEN sk, lf_has_session := True\<rparr>;
                s4 = snd (lastfm_service_store_session_in_nvs (lv_nvs env) sk username s3) in
            (ESP_OK, s4\<lparr>lf_username := c_strncpy LASTFM_SERVICE_USERNAME_MAX_LEN username\<rparr>))"

section \<open>The names of a track\<close>

definition lastfm_service_lookup_scrobble_track ::
    "u32 \<Rightarrow> u32 \<Rightarrow> ph_state \<Rightarrow> (ph_track \<times> ph_album option) option" where
  "lastfm_service_lookup_scrobble_track album_checksum track_index h =
     (let wanted = (\<lambda>slot. case play_history_service_get_album_track_record album_checksum slot True h of
                None \<Rightarrow> False | Some candidate \<Rightarrow> pt_track_index candidate = track_index) in
      case find wanted [0..<play_history_service_get_album_track_count album_checksum h] of None \<Rightarrow> None
      | Some slot \<Rightarrow>
         (case play_history_service_get_album_track_record album_checksum slot True h of None \<Rightarrow> None
          | Some track \<Rightarrow> Some (track, play_history_service_get_album_record_by_checksum album_checksum True h)))"

definition lastfm_service_resolve_track_metadata :: "lf_env \<Rightarrow> lastfm_track_ref \<Rightarrow> esp_err + bytes \<times> bytes" where
  "lastfm_service_resolve_track_metadata env track_ref =
     (case lastfm_service_lookup_scrobble_track (lr_album_checksum track_ref) (lr_track_index track_ref)
             (lv_history env) of
        None \<Rightarrow> Inl ESP_ERR_NOT_FOUND
      | Some (track, album) \<Rightarrow>
          let track_name = cstr (jt_track_name (pt_metadata track));
              artist = (if cstr (jt_artists (pt_metadata track)) \<noteq> [] then cstr (jt_artists (pt_metadata track))
                        else case album of None \<Rightarrow> [] | Some a \<Rightarrow> cstr (jh_artist (pa_metadata a))) in
          if track_name = [] \<or> artist = [] then Inl ESP_ERR_INVALID_RESPONSE else Inr (artist, track_name))"

section \<open>The task\<close>

definition lastfm_service_process_now_playing_track ::
    "lf_env \<Rightarrow> lastfm_track_ref \<Rightarrow> lf_state \<Rightarrow> esp_err \<times> lf_state" where
  "lastfm_service_process_now_playing_track env track_ref s =
     (if \<not> lf_now_playing_enabled s then (ESP_OK, s)
      else if \<not> lf_now_playing_track_valid s \<or> track_ref \<noteq> lf_now_playing_track s \<or> lf_now_playing_active s
      then (ESP_OK, s)
      else if lastfm_service_require_internet_connection env \<noteq> ESP_OK then (ESP_OK, s)
      else case lastfm_service_resolve_track_metadata env track_ref of Inl err \<Rightarrow> (err, s)
      | Inr (artist, track_name) \<Rightarrow>
          let s1 = lastfm_service_record_request (lastfm_service_wait_for_request_rate_limit env s);
              (err, s2) = lastfm_update_now_playing env artist track_name s1 in
          (err, if err = ESP_OK \<and> lf_now_playing_track_valid s2 \<and> track_ref = lf_now_playing_track s2
                then s2\<lparr>lf_now_playing_active := True\<rparr> else s2))"

definition lastfm_service_process_now_playing_clear :: "lastfm_track_ref \<Rightarrow> lf_state \<Rightarrow> lf_state" where
  "lastfm_service_process_now_playing_clear track_ref s =
     (if \<not> lf_now_playing_track_valid s \<or> track_ref \<noteq> lf_now_playing_track s then s
      else s\<lparr>lf_now_playing_active := False\<rparr>)"

definition lastfm_service_process_command :: "lf_env \<Rightarrow> lastfm_cmd_payload \<Rightarrow> lf_state \<Rightarrow> lf_state" where
  "lastfm_service_process_command env cmd_payload s =
     (case cmd_payload of
        LASTFM_CMD_GET_TOKEN \<Rightarrow> snd (lastfm_service_request_token env s)
      | LASTFM_CMD_AUTH username password \<Rightarrow> snd (lastfm_service_request_auth env username password s)
      | LASTFM_CMD_LOGOUT \<Rightarrow>
          lastfm_service_handle_track_finished_event None (snd (lastfm_service_logout (lv_nvs env) s))
      | LASTFM_CMD_UPDATE_NOW_PLAYING track \<Rightarrow> snd (lastfm_service_process_now_playing_track env track s)
      | LASTFM_CMD_CLEAR_NOW_PLAYING track \<Rightarrow> lastfm_service_process_now_playing_clear track s
      | LASTFM_CMD_SET_AUTH_URL \<Rightarrow> s)"

definition lastfm_service_process_scrobble_payload ::
    "lf_env \<Rightarrow> lastfm_track_ref \<Rightarrow> lf_state \<Rightarrow> esp_err \<times> lf_state" where
  "lastfm_service_process_scrobble_payload env payload s =
     (if \<not> lf_scrobbling_enabled s then (ESP_OK, s)
      else case lastfm_service_resolve_track_metadata env payload of Inl err \<Rightarrow> (err, s)
      | Inr (artist, track_name) \<Rightarrow>
          if lastfm_service_require_internet_connection env \<noteq> ESP_OK
          then (lastfm_service_require_internet_connection env, s)
          else lastfm_scrobble env artist track_name
                 (lastfm_service_record_request (lastfm_service_wait_for_request_rate_limit env s)))"

definition receive_command :: "lf_state \<Rightarrow> lastfm_cmd_payload option \<times> lf_state" where
  "receive_command s =
     (case lf_cmd_queue s of
        Some (payload # q) \<Rightarrow> (Some payload, s\<lparr>lf_cmd_queue := Some q\<rparr>)
      | _ \<Rightarrow> (None, s))"

definition serve_command :: "lf_env \<Rightarrow> lf_state \<Rightarrow> lf_state" where
  "serve_command env s =
     (case receive_command s of (None, s1) \<Rightarrow> s1
      | (Some payload, s1) \<Rightarrow> lastfm_service_process_command env payload s1)"

text \<open>One scrobble: \<open>locked\<close> and \<open>locked_again\<close> are the mutex for taking it and for putting it back.\<close>

definition serve_scrobble :: "lf_env \<Rightarrow> bool \<Rightarrow> lf_state \<Rightarrow> lf_state" where
  "serve_scrobble env locked_again s =
     (case lastfm_service_receive_scrobble (lv_locked env) s of (Inl _, s1) \<Rightarrow> s1
      | (Inr payload, s1) \<Rightarrow>
          let (err, s2) = lastfm_service_process_scrobble_payload env payload s1 in
          if err \<noteq> ESP_OK then snd (lastfm_service_requeue_scrobble locked_again payload s2)
          else lf_note_handled payload s2)"

text \<open>One turn of the task's loop. Without internet it only serves commands, taken past the queue set; with
  it, it waits for an entry of the set (with none it stays where it is).\<close>

definition lastfm_service_task_turn :: "lf_env \<Rightarrow> bool \<Rightarrow> lf_state \<Rightarrow> lf_state" where
  "lastfm_service_task_turn env locked_again s =
     (if \<not> wifi_service_has_internet (lv_wifi env) then serve_command env s
      else case lf_queue_set s of
        Some (Lf_Command_Queue # entries) \<Rightarrow> serve_command env (s\<lparr>lf_queue_set := Some entries\<rparr>)
      | Some (Lf_Scrobble_Queue # entries) \<Rightarrow>
          let s1 = s\<lparr>lf_queue_set := Some entries\<rparr> in
          if \<not> wifi_service_has_internet (lv_wifi_woken env) then s1 else serve_scrobble env locked_again s1
      | _ \<Rightarrow> s)"

section \<open>What the status shows\<close>

record lastfm_service_status =
  ls_has_auth_url :: bool
  ls_has_token :: bool
  ls_has_session :: bool
  ls_busy :: bool
  ls_scrobbling_enabled :: bool
  ls_now_playing_enabled :: bool
  ls_now_playing_active :: bool
  ls_command_queue_ready :: bool
  ls_scrobble_queue_ready :: bool
  ls_pending_commands :: u32
  ls_pending_scrobbles :: u32
  ls_command_queue_capacity :: u32
  ls_scrobble_queue_capacity :: u32
  ls_successful_scrobbles :: u32
  ls_failed_scrobbles :: u32
  ls_auth_url :: bytes
  ls_username :: bytes

definition lastfm_service_get_status :: "lf_state \<Rightarrow> lastfm_service_status" where
  "lastfm_service_get_status s =
     \<lparr>ls_has_auth_url = lf_has_auth s, ls_has_token = lf_has_token s, ls_has_session = lf_has_session s,
      ls_busy = lf_busy s, ls_scrobbling_enabled = lf_scrobbling_enabled s,
      ls_now_playing_enabled = lf_now_playing_enabled s, ls_now_playing_active = lf_now_playing_active s,
      ls_command_queue_ready = (lf_cmd_queue s \<noteq> None), ls_scrobble_queue_ready = (lf_scrobble_queue s \<noteq> None),
      ls_pending_commands = (case lf_cmd_queue s of None \<Rightarrow> 0 | Some q \<Rightarrow> of_nat (length q)),
      ls_pending_scrobbles = (case lf_scrobble_queue s of None \<Rightarrow> 0 | Some q \<Rightarrow> of_nat (length q)),
      ls_command_queue_capacity = of_nat LASTFM_SERVICE_CMD_QUEUE_LENGTH,
      ls_scrobble_queue_capacity = of_nat LASTFM_SERVICE_SCROBBLE_QUEUE_LENGTH,
      ls_successful_scrobbles = lf_successful_scrobbles s, ls_failed_scrobbles = lf_failed_scrobbles s,
      ls_auth_url = c_strncpy LASTFM_SERVICE_BASE_URL_MAX_LEN (lf_auth_url s),
      ls_username = c_strncpy LASTFM_SERVICE_USERNAME_MAX_LEN (lf_username s)\<rparr>"

section \<open>Start-up\<close>

text \<open>Which of the kernel's objects can be created, and what other tasks do between the creation of the
  queues and their entry into the set.\<close>

record lf_start_env =
  lt_timer_now_playing :: esp_err
  lt_timer_pause_clear :: esp_err
  lt_nvs_queue :: bool
  lt_nvs_task :: bool
  lt_nvs :: lf_nvs_env
  lt_stack :: bool
  lt_task :: bool
  lt_cmd_queue :: bool
  lt_scrobble_queue :: bool
  lt_mutex :: bool
  lt_set :: bool
  lt_meanwhile :: "lf_quick list"

definition lastfm_service_init_timers :: "lf_start_env \<Rightarrow> lf_state \<Rightarrow> esp_err \<times> lf_state" where
  "lastfm_service_init_timers env s =
     (if lf_now_playing_timer s = None \<and> lt_timer_now_playing env \<noteq> ESP_OK then (lt_timer_now_playing env, s)
      else
        let s1 = (if lf_now_playing_timer s = None then s\<lparr>lf_now_playing_timer := Some False\<rparr> else s) in
        if lf_pause_clear_timer s1 = None \<and> lt_timer_pause_clear env \<noteq> ESP_OK
        then (lt_timer_pause_clear env, s1)
        else (ESP_OK, if lf_pause_clear_timer s1 = None then s1\<lparr>lf_pause_clear_timer := Some False\<rparr> else s1))"

definition lastfm_service_cleanup_nvs_proxy :: "lf_state \<Rightarrow> lf_state" where
  "lastfm_service_cleanup_nvs_proxy s = s\<lparr>lf_nvs_task := False, lf_nvs_queue := False\<rparr>"

definition lastfm_service_init_nvs_proxy :: "lf_start_env \<Rightarrow> lf_state \<Rightarrow> esp_err \<times> lf_state" where
  "lastfm_service_init_nvs_proxy env s =
     (if lf_nvs_queue s \<and> lf_nvs_task s then (ESP_OK, s)
      else
        let s1 = s\<lparr>lf_nvs_queue := lt_nvs_queue env\<rparr> in
        if \<not> lf_nvs_queue s1 then (ESP_ERR_NO_MEM, s1)
        else if \<not> lt_nvs_task env then (ESP_FAIL, lastfm_service_cleanup_nvs_proxy s1)
        else (ESP_OK, s1\<lparr>lf_nvs_task := True\<rparr>))"

definition lastfm_service_cleanup_queues :: "lf_state \<Rightarrow> lf_state" where
  "lastfm_service_cleanup_queues s = s\<lparr>lf_scrobble_mutex := False,
     lf_members := (if lf_queue_set s = None then lf_members s else {}),
     lf_queue_set := None, lf_scrobble_queue := None, lf_cmd_queue := None\<rparr>"

text \<open>A queue joins the set only while it is empty.\<close>

definition lf_add_to_set :: "lf_member \<Rightarrow> lf_state \<Rightarrow> bool \<times> lf_state" where
  "lf_add_to_set m s =
     (let waiting = (case m of Lf_Command_Queue \<Rightarrow> lf_cmd_queue s \<noteq> Some []
                     | Lf_Scrobble_Queue \<Rightarrow> lf_scrobble_queue s \<noteq> Some []) in
      if waiting \<or> m \<in> lf_members s then (False, s)
      else (True, s\<lparr>lf_members := insert m (lf_members s)\<rparr>))"

text \<open>The beginning of the task, up to its loop; the result tells whether the loop is reached. New
  queues are members of no set.\<close>

definition lastfm_service_task_start :: "lf_start_env \<Rightarrow> lf_state \<Rightarrow> bool \<times> lf_state" where
  "lastfm_service_task_start env s =
     (if \<not> lt_cmd_queue env then (False, s\<lparr>lf_cmd_queue := None\<rparr>)
      else
        let s1 = s\<lparr>lf_cmd_queue := Some [], lf_members := lf_members s - {Lf_Command_Queue}\<rparr> in
        if \<not> lt_scrobble_queue env then (False, lastfm_service_cleanup_queues (s1\<lparr>lf_scrobble_queue := None\<rparr>))
        else
          let s2 = s1\<lparr>lf_scrobble_queue := Some [], lf_members := lf_members s1 - {Lf_Scrobble_Queue}\<rparr> in
          if \<not> lt_mutex env then (False, lastfm_service_cleanup_queues (s2\<lparr>lf_scrobble_mutex := False\<rparr>))
          else
            let s3 = s2\<lparr>lf_scrobble_mutex := True\<rparr> in
            if \<not> lt_set env then (False, lastfm_service_cleanup_queues (s3\<lparr>lf_queue_set := None\<rparr>))
            else
              let (added, s4) = lf_add_to_set Lf_Command_Queue
                    (lf_others (lt_meanwhile env) (s3\<lparr>lf_queue_set := Some []\<rparr>)) in
              if \<not> added then (False, lastfm_service_cleanup_queues s4)
              else
                let (added, s5) = lf_add_to_set Lf_Scrobble_Queue s4 in
                if \<not> added then (False, lastfm_service_cleanup_queues s5) else (True, s5))"

definition lastfm_service_init :: "lf_start_env \<Rightarrow> lf_state \<Rightarrow> esp_err \<times> lf_state" where
  "lastfm_service_init env s =
     (let (err, s1) = lastfm_service_init_timers env s in
      if err \<noteq> ESP_OK then (err, s1)
      else let (err, s2) = lastfm_service_init_nvs_proxy env s1 in
      if err \<noteq> ESP_OK then (err, s2)
      else let (err, s3) = lastfm_service_load_persisted_state (lt_nvs env) s2 in
      if err \<noteq> ESP_OK then (err, lastfm_service_cleanup_nvs_proxy s3)
      else if \<not> lf_task_stack s3 \<and> \<not> lt_stack env then (ESP_ERR_NO_MEM, lastfm_service_cleanup_nvs_proxy s3)
      else if \<not> lt_task env
      then (ESP_ERR_NO_MEM, lastfm_service_cleanup_nvs_proxy (s3\<lparr>lf_task_stack := False\<rparr>))
      else (ESP_OK, s3\<lparr>lf_task_stack := True, lf_listening := True\<rparr>))"

section \<open>The service as a machine\<close>

text \<open>What happens to the service, one operation at a time; the two requests are those the console makes
  itself.\<close>

datatype lf_op =
    Lo_Quick lf_quick
  | Lo_Init lf_start_env
  | Lo_Task_Start lf_start_env
  | Lo_Turn lf_env bool
  | Lo_Request_Token lf_env
  | Lo_Request_Auth lf_env bytes bytes

fun lf_step :: "lf_state \<Rightarrow> lf_op \<Rightarrow> lf_state" where
  "lf_step s (Lo_Quick q) = lf_quick_step s q"
| "lf_step s (Lo_Init env) = snd (lastfm_service_init env s)"
| "lf_step s (Lo_Task_Start env) = snd (lastfm_service_task_start env s)"
| "lf_step s (Lo_Turn env locked_again) = lastfm_service_task_turn env locked_again s"
| "lf_step s (Lo_Request_Token env) = snd (lastfm_service_request_token env s)"
| "lf_step s (Lo_Request_Auth env username password) = snd (lastfm_service_request_auth env username password s)"

end
