(* ===== verification/Bluetooth.thy ===== *)
theory Bluetooth
  imports Player_State
begin

text \<open>
  The Bluetooth service, \<^verbatim>\<open>main/bluetooth_service.c\<close>: discovery and pairing of a sink, the
  confirmation of a pairing by the user, the A2DP link and the samples it is fed with, the media keys
  and volume of AVRCP, and a serial link over BLE. Callbacks of the vendored stack put messages into
  a queue which a pass of the main loop serves, except for the serial link, which they serve
  themselves. The stack is a parameter: every call into it, into the player and into a registered
  callback is an entry of a trace, and what a call returns is given by the environment.
\<close>

section \<open>State\<close>

definition ESP_BD_ADDR_LEN :: nat where "ESP_BD_ADDR_LEN = 6"
definition ESP_BT_GAP_MAX_BDNAME_LEN :: nat where "ESP_BT_GAP_MAX_BDNAME_LEN = 248"
definition ESP_GATT_IF_NONE :: u8 where "ESP_GATT_IF_NONE = 0xFF"
definition BT_SVC_QUEUE_DEPTH :: nat where "BT_SVC_QUEUE_DEPTH = 24"
definition BT_SVC_MAX_CMDS_PER_PASS :: nat where "BT_SVC_MAX_CMDS_PER_PASS = 6"
definition BT_SVC_MAX_DISCOVERED_DEVICES :: nat where "BT_SVC_MAX_DISCOVERED_DEVICES = 16"
definition BT_SVC_BLE_SPP_STATUS_MAX_LEN :: nat where "BT_SVC_BLE_SPP_STATUS_MAX_LEN = 20"
definition BT_SVC_BLE_SPP_IDX_SVC :: nat where "BT_SVC_BLE_SPP_IDX_SVC = 0"
definition BT_SVC_BLE_SPP_IDX_DATA_RECV_VAL :: nat where "BT_SVC_BLE_SPP_IDX_DATA_RECV_VAL = 2"
definition BT_SVC_BLE_SPP_IDX_DATA_NOTIFY_VAL :: nat where "BT_SVC_BLE_SPP_IDX_DATA_NOTIFY_VAL = 4"
definition BT_SVC_BLE_SPP_IDX_DATA_NOTIFY_CFG :: nat where "BT_SVC_BLE_SPP_IDX_DATA_NOTIFY_CFG = 5"
definition BT_SVC_BLE_SPP_IDX_COMMAND_VAL :: nat where "BT_SVC_BLE_SPP_IDX_COMMAND_VAL = 7"
definition BT_SVC_BLE_SPP_IDX_STATUS_VAL :: nat where "BT_SVC_BLE_SPP_IDX_STATUS_VAL = 9"
definition BT_SVC_BLE_SPP_IDX_STATUS_CFG :: nat where "BT_SVC_BLE_SPP_IDX_STATUS_CFG = 10"
definition BT_SVC_BLE_SPP_IDX_NB :: nat where "BT_SVC_BLE_SPP_IDX_NB = 11"

datatype bluetooth_service_event =
    BLUETOOTH_SVC_EVENT_STARTED
  | BLUETOOTH_SVC_EVENT_DISCOVERY_DONE
  | BLUETOOTH_SVC_EVENT_PAIRING_COMPLETE bytes
  | BLUETOOTH_SVC_EVENT_A2DP_CONNECTION_STATE u8
  | BLUETOOTH_SVC_EVENT_A2DP_AUDIO_STATE u8
  | BLUETOOTH_SVC_EVENT_SPP_READY

datatype bluetooth_service_connection_event =
    BLUETOOTH_SVC_CONNECTION_EVENT_AUTH_COMPLETE
  | BLUETOOTH_SVC_CONNECTION_EVENT_A2DP_CONNECTION_STATE
  | BLUETOOTH_SVC_CONNECTION_EVENT_A2DP_AUDIO_STATE
  | BLUETOOTH_SVC_CONNECTION_EVENT_SPP_CONNECTED
  | BLUETOOTH_SVC_CONNECTION_EVENT_SPP_DISCONNECTED

record bluetooth_service_scan_entry =
  se_bda :: bytes
  se_rssi :: int
  se_cod :: u32
  se_name :: bytes

record bluetooth_service_discovery_result =
  dr_valid :: bool
  dr_bda :: bytes
  dr_rssi :: int
  dr_cod :: u32
  dr_name :: bytes

record bluetooth_service_pairing_confirm =
  pc_pending :: bool
  pc_remote_bda :: bytes
  pc_numeric_value :: u32

text \<open>The states of the stack's connection are \<open>0\<close> (disconnected) to \<open>3\<close>, of which the service tells
  two apart.\<close>

definition ESP_A2D_CONNECTION_STATE_DISCONNECTED :: u8 where "ESP_A2D_CONNECTION_STATE_DISCONNECTED = 0"
definition ESP_A2D_CONNECTION_STATE_CONNECTED :: u8 where "ESP_A2D_CONNECTION_STATE_CONNECTED = 2"

datatype bluetooth_service_msg =
    BT_SVC_CMD_PAIR_BEST
  | BT_SVC_CMD_START_DISCOVERY
  | BT_SVC_CMD_CONNECT_LAST_BONDED
  | BT_SVC_CMD_PAIRING_CONFIRM_REQUEST bytes u32
  | BT_SVC_CMD_PAIRING_CONFIRM_REPLY bool
  | BT_SVC_CMD_DISCONNECT_A2DP
  | BT_SVC_CMD_START_AUDIO
  | BT_SVC_CMD_SUSPEND_AUDIO
  | BT_SVC_CMD_SEND_MEDIA_KEY u8
  | BT_SVC_CMD_DISCOVERY_RESULT bluetooth_service_discovery_result
  | BT_SVC_CMD_DISCOVERY_STATE bool
  | BT_SVC_CMD_AUTH_COMPLETE bytes bool bytes
  | BT_SVC_CMD_A2DP_CONNECTION_STATE u8 bytes
  | BT_SVC_CMD_A2DP_AUDIO_STATE u8 bytes
  | BT_SVC_CMD_AVRCP_PASSTHROUGH_RSP u8 u8 u8
  | BT_SVC_CMD_AVRCP_PASSTHROUGH_CMD u8 u8
  | BT_SVC_CMD_AVRCP_SET_ABS_VOL u8
  | BT_SVC_CMD_AVRCP_REG_VOL_NOTIFY u8
  | BT_SVC_CMD_AVRCP_CT_VOL_CHANGE u8
  | BT_SVC_CMD_AVRCP_CT_RN_CAPS u16
  | BT_SVC_CMD_SPP_CONNECTED bytes
  | BT_SVC_CMD_SPP_DISCONNECTED bytes

text \<open>The steps of the start, each of which must succeed: the firmware stops when one does not.\<close>

datatype bt_setup =
    Gap_Register_Callback
  | Ble_Gap_Register_Callback
  | Gatts_Register_Callback
  | Gap_Set_Device_Name
  | Gap_Set_Scan_Mode
  | Gap_Set_Pin bytes
  | Avrc_Tg_Init
  | Avrc_Tg_Register_Callback
  | Avrc_Ct_Init
  | Avrc_Ct_Register_Callback
  | A2d_Register_Callback
  | A2d_Register_Data_Callback
  | A2d_Source_Init
  | Avrc_Tg_Set_Psth_Cmd_Filter "u16 list"
  | Avrc_Tg_Set_Rn_Evt_Cap u16
  | Gatts_App_Register u16
  | Gatt_Set_Local_Mtu u16
  | Power_Register_Shutdown nat

text \<open>Calls out of the service: into the stack, the player and the callbacks registered with it.\<close>

datatype bt_call =
    Gap_Cancel_Discovery
  | Gap_Start_Discovery
  | Gap_Pin_Reply bytes bool nat bytes
  | Gap_Ssp_Reply bytes bool
  | A2d_Connect bytes
  | A2d_Disconnect bytes
  | A2d_Media_Start
  | A2d_Media_Suspend
  | Avrc_Ct_Get_Caps u8
  | Avrc_Ct_Register_Volume u8
  | Avrc_Ct_Passthrough u8 u8 bool
  | Avrc_Tg_Volume_Rsp bool u8
  | Gatts_Send u8 u16 u16 bytes bool
  | Gatts_Create_Table u8
  | Gatts_Start_Service u16
  | Gatts_App_Unregister u8
  | Ble_Set_Device_Name
  | Ble_Config_Adv_Data
  | Ble_Start_Advertising
  | Ble_Stop_Advertising
  | Ble_Disconnect bytes
  | Gap_Remove_Bond bytes
  | Avrc_Ct_Deinit
  | Avrc_Tg_Deinit
  | A2d_Source_Deinit
  | Bluedroid_Disable
  | Bluedroid_Deinit
  | Controller_Disable
  | Controller_Deinit
  | Bt_Setup bt_setup
  | Bt_Post bluetooth_service_event
  | Bt_Connection_Callback bluetooth_service_connection_event bytes
  | Bt_Media_Key_Callback u8 u8 u8
  | Bt_Spp_Rx_Callback bytes
  | Bt_Player_Control player_service_control
  | Bt_Player_Volume u8

text \<open>A registered function is known by a number.\<close>

record bt_state =
  bt_cmd_queue :: "bluetooth_service_msg list option"
  bt_initialised :: bool
  bt_pair_request_pending :: bool
  bt_discovery_running :: bool
  bt_a2dp_connected :: bool
  bt_connected_bda :: bytes
  bt_avrc_tl :: u8
  bt_avrc_rn_vol_registered :: bool
  bt_avrc_ct_vol_registered :: bool
  bt_spp_connected :: bool
  bt_spp_data_notifications_enabled :: bool
  bt_spp_data_indications_enabled :: bool
  bt_spp_status_notifications_enabled :: bool
  bt_spp_conn_id :: u16
  bt_spp_mtu :: u16
  bt_spp_gatts_if :: u8
  bt_spp_handle_table :: "u16 list"
  bt_spp_remote_bda :: bytes
  bt_discovered :: "bluetooth_service_discovery_result list"
  bt_pcm_provider :: "nat option"
  bt_pairing_confirm_pending :: bool
  bt_pairing_confirm_bda :: bytes
  bt_pairing_confirm_numeric_value :: u32
  bt_connection_cb :: "nat option"
  bt_media_key_cb :: "nat option"
  bt_spp_rx_cb :: "nat option"
  bt_trace :: "bt_call list"

datatype bluedroid_status =
    ESP_BLUEDROID_STATUS_UNINITIALIZED
  | ESP_BLUEDROID_STATUS_INITIALIZED
  | ESP_BLUEDROID_STATUS_ENABLED

datatype bt_controller_status =
    ESP_BT_CONTROLLER_STATUS_IDLE
  | ESP_BT_CONTROLLER_STATUS_INITED
  | ESP_BT_CONTROLLER_STATUS_ENABLED

text \<open>What the stack answers: the result of a call after the calls before it, the bonded devices (their
  number, whether there is memory for their list, the list a call with so much room gives) and the
  status of its two layers after the calls so far; whether the system gives an event loop and a queue;
  and the player's volume in percent.\<close>

record bt_env =
  be_call :: "bt_call list \<Rightarrow> bt_call \<Rightarrow> esp_err"
  be_bond_num :: int
  be_alloc :: bool
  be_bond_list :: "nat \<Rightarrow> esp_err + bytes list"
  be_bluedroid :: "bt_call list \<Rightarrow> bluedroid_status"
  be_controller :: "bt_call list \<Rightarrow> bt_controller_status"
  be_event_loop :: esp_err
  be_queue :: bool
  be_volume_percent :: u8

definition zero_bda :: bytes where "zero_bda = replicate ESP_BD_ADDR_LEN 0"

definition bt_boot :: bt_state where
  "bt_boot = \<lparr>bt_cmd_queue = None, bt_initialised = False, bt_pair_request_pending = False,
     bt_discovery_running = False, bt_a2dp_connected = False, bt_connected_bda = zero_bda,
     bt_avrc_tl = 0, bt_avrc_rn_vol_registered = False, bt_avrc_ct_vol_registered = False,
     bt_spp_connected = False, bt_spp_data_notifications_enabled = False,
     bt_spp_data_indications_enabled = False, bt_spp_status_notifications_enabled = False,
     bt_spp_conn_id = 0xFFFF, bt_spp_mtu = 23, bt_spp_gatts_if = ESP_GATT_IF_NONE,
     bt_spp_handle_table = replicate BT_SVC_BLE_SPP_IDX_NB 0, bt_spp_remote_bda = zero_bda,
     bt_discovered = [], bt_pcm_provider = None, bt_pairing_confirm_pending = False,
     bt_pairing_confirm_bda = zero_bda, bt_pairing_confirm_numeric_value = 0,
     bt_connection_cb = None, bt_media_key_cb = None, bt_spp_rx_cb = None, bt_trace = []\<rparr>"

section \<open>Calls and the queue\<close>

definition bt_log :: "bt_call \<Rightarrow> bt_state \<Rightarrow> bt_state" where
  "bt_log call s = s\<lparr>bt_trace := bt_trace s @ [call]\<rparr>"

definition bt_do :: "bt_env \<Rightarrow> bt_call \<Rightarrow> bt_state \<Rightarrow> esp_err \<times> bt_state" where
  "bt_do env call s = (be_call env (bt_trace s) call, bt_log call s)"

definition bt_svc_post_event :: "bluetooth_service_event \<Rightarrow> bt_state \<Rightarrow> bt_state" where
  "bt_svc_post_event event s = bt_log (Bt_Post event) s"

text \<open>A message is refused when there is no queue or no room; a sender that waits for room is one that
  sends later.\<close>

definition bt_svc_queue_send :: "bluetooth_service_msg \<Rightarrow> bt_state \<Rightarrow> bool \<times> bt_state" where
  "bt_svc_queue_send msg s =
     (case bt_cmd_queue s of None \<Rightarrow> (False, s)
      | Some q \<Rightarrow> if length q < BT_SVC_QUEUE_DEPTH then (True, s\<lparr>bt_cmd_queue := Some (q @ [msg])\<rparr>)
                  else (False, s))"

definition bt_svc_invoke_connection_callback ::
    "bluetooth_service_connection_event \<Rightarrow> bytes \<Rightarrow> bt_state \<Rightarrow> bt_state" where
  "bt_svc_invoke_connection_callback event remote_bda s =
     (if bt_connection_cb s \<noteq> None then bt_log (Bt_Connection_Callback event remote_bda) s else s)"

section \<open>The serial link\<close>

definition first_index :: "('a \<Rightarrow> bool) \<Rightarrow> 'a list \<Rightarrow> nat option" where
  "first_index p xs = find (\<lambda>i. p (xs ! i)) [0..<length xs]"

definition bt_svc_spp_find_attr_index :: "u16 \<Rightarrow> bt_state \<Rightarrow> nat" where
  "bt_svc_spp_find_attr_index handle s =
     (case first_index (\<lambda>h. h = handle) (bt_spp_handle_table s) of None \<Rightarrow> 255 | Some i \<Rightarrow> i)"

definition bt_svc_spp_reset_link_state :: "bt_state \<Rightarrow> bt_state" where
  "bt_svc_spp_reset_link_state s = s\<lparr>bt_spp_connected := False, bt_spp_data_notifications_enabled := False,
     bt_spp_data_indications_enabled := False, bt_spp_status_notifications_enabled := False,
     bt_spp_conn_id := 0xFFFF, bt_spp_mtu := 23, bt_spp_remote_bda := zero_bda\<rparr>"

definition bt_svc_spp_send_value ::
    "bt_env \<Rightarrow> u16 \<Rightarrow> bytes option \<Rightarrow> bool \<Rightarrow> bt_state \<Rightarrow> esp_err \<times> bt_state" where
  "bt_svc_spp_send_value env handle value need_confirm s =
     (case value of None \<Rightarrow> (ESP_ERR_INVALID_ARG, s)
      | Some data \<Rightarrow>
        if data = [] then (ESP_ERR_INVALID_ARG, s)
        else if \<not> bt_spp_connected s \<or> bt_spp_gatts_if s = ESP_GATT_IF_NONE \<or> bt_spp_conn_id s = 0xFFFF \<or> handle = 0
        then (ESP_ERR_INVALID_STATE, s)
        else
          let max_payload = (if bt_spp_mtu s > 3 then unat (bt_spp_mtu s - 3) else 0) in
          if max_payload = 0 then (ESP_ERR_INVALID_SIZE, s)
          else bt_do env (Gatts_Send (bt_spp_gatts_if s) (bt_spp_conn_id s) handle (take max_payload data) need_confirm) s)"

definition bt_svc_spp_send_data :: "bt_env \<Rightarrow> bytes option \<Rightarrow> bt_state \<Rightarrow> esp_err \<times> bt_state" where
  "bt_svc_spp_send_data env value s =
     (if \<not> bt_spp_data_notifications_enabled s then (ESP_ERR_INVALID_STATE, s)
      else bt_svc_spp_send_value env (bt_spp_handle_table s ! BT_SVC_BLE_SPP_IDX_DATA_NOTIFY_VAL) value
             (bt_spp_data_indications_enabled s) s)"

definition bt_svc_spp_send_status :: "bt_env \<Rightarrow> bytes \<Rightarrow> bt_state \<Rightarrow> esp_err \<times> bt_state" where
  "bt_svc_spp_send_status env status s =
     (if \<not> bt_spp_status_notifications_enabled s then (ESP_ERR_INVALID_STATE, s)
      else if cstr status = [] then (ESP_ERR_INVALID_ARG, s)
      else bt_svc_spp_send_value env (bt_spp_handle_table s ! BT_SVC_BLE_SPP_IDX_STATUS_VAL)
             (Some (take BT_SVC_BLE_SPP_STATUS_MAX_LEN (cstr status))) False s)"

section \<open>The confirmation of a pairing\<close>

definition bt_svc_set_pending_pairing_confirm :: "bytes \<Rightarrow> u32 \<Rightarrow> bt_state \<Rightarrow> bt_state" where
  "bt_svc_set_pending_pairing_confirm bda numeric_value s = s\<lparr>bt_pairing_confirm_pending := True,
     bt_pairing_confirm_bda := bda, bt_pairing_confirm_numeric_value := numeric_value\<rparr>"

definition bt_svc_clear_pending_pairing_confirm :: "bt_state \<Rightarrow> bt_state" where
  "bt_svc_clear_pending_pairing_confirm s = s\<lparr>bt_pairing_confirm_pending := False,
     bt_pairing_confirm_bda := zero_bda, bt_pairing_confirm_numeric_value := 0\<rparr>"

definition bt_svc_get_pending_pairing_confirm :: "bt_state \<Rightarrow> bluetooth_service_pairing_confirm" where
  "bt_svc_get_pending_pairing_confirm s =
     (if bt_pairing_confirm_pending s
      then \<lparr>pc_pending = True, pc_remote_bda = bt_pairing_confirm_bda s,
            pc_numeric_value = bt_pairing_confirm_numeric_value s\<rparr>
      else \<lparr>pc_pending = False, pc_remote_bda = zero_bda, pc_numeric_value = 0\<rparr>)"

definition bt_svc_take_pending_pairing_confirm :: "bt_state \<Rightarrow> (bytes \<times> u32) option \<times> bt_state" where
  "bt_svc_take_pending_pairing_confirm s =
     (if bt_pairing_confirm_pending s
      then (Some (bt_pairing_confirm_bda s, bt_pairing_confirm_numeric_value s),
            bt_svc_clear_pending_pairing_confirm s)
      else (None, s))"

definition bt_svc_validate_a2dp_state :: "bool \<Rightarrow> bt_state \<Rightarrow> esp_err" where
  "bt_svc_validate_a2dp_state require_connected s =
     (if bt_cmd_queue s = None then ESP_ERR_INVALID_STATE
      else if require_connected \<noteq> bt_a2dp_connected s then ESP_ERR_INVALID_STATE
      else ESP_OK)"

section \<open>Discovery and the choice of a sink\<close>

definition bt_svc_reset_discovery_results :: "bt_state \<Rightarrow> bt_state" where
  "bt_svc_reset_discovery_results s = s\<lparr>bt_discovered := []\<rparr>"

definition bt_svc_find_discovery_result :: "bytes \<Rightarrow> bt_state \<Rightarrow> nat option" where
  "bt_svc_find_discovery_result bda s = first_index (\<lambda>r. dr_bda r = bda) (bt_discovered s)"

text \<open>The class of a device has its format in bits 0 and 1, its major class in bits 8 to 12 and its
  services from bit 13 on.\<close>

definition ESP_BT_COD_MAJOR_DEV_AV :: u32 where "ESP_BT_COD_MAJOR_DEV_AV = 4"

definition esp_bt_gap_get_cod_srvc :: "u32 \<Rightarrow> u32" where
  "esp_bt_gap_get_cod_srvc cod = drop_bit 13 (cod AND 0xffe000)"

definition esp_bt_gap_get_cod_major_dev :: "u32 \<Rightarrow> u32" where
  "esp_bt_gap_get_cod_major_dev cod = drop_bit 8 (cod AND 0x1f00)"

definition esp_bt_gap_get_cod_format_type :: "u32 \<Rightarrow> u32" where
  "esp_bt_gap_get_cod_format_type cod = cod AND 0x03"

definition esp_bt_gap_is_valid_cod :: "u32 \<Rightarrow> bool" where
  "esp_bt_gap_is_valid_cod cod \<longleftrightarrow> esp_bt_gap_get_cod_format_type cod = 0 \<and> esp_bt_gap_get_cod_srvc cod \<noteq> 0"

definition bt_svc_is_a2dp_sink_candidate :: "u32 \<Rightarrow> bool" where
  "bt_svc_is_a2dp_sink_candidate cod =
     (if \<not> esp_bt_gap_is_valid_cod cod then False
      else esp_bt_gap_get_cod_major_dev cod = ESP_BT_COD_MAJOR_DEV_AV)"

text \<open>The strongest one, the first of those with the same strength.\<close>

definition best_sink :: "bluetooth_service_discovery_result list \<Rightarrow> bluetooth_service_discovery_result option" where
  "best_sink found = foldl (\<lambda>best r. if \<not> dr_valid r then best
     else case best of None \<Rightarrow> Some r | Some b \<Rightarrow> if dr_rssi r > dr_rssi b then Some r else best) None found"

definition bt_svc_select_and_connect_best_sink :: "bt_state \<Rightarrow> bt_state" where
  "bt_svc_select_and_connect_best_sink s =
     (let s1 = bt_svc_post_event BLUETOOTH_SVC_EVENT_DISCOVERY_DONE s in
      case best_sink (bt_discovered s) of None \<Rightarrow> s1 | Some best \<Rightarrow> bt_log (A2d_Connect (dr_bda best)) s1)"

text \<open>The list is given room for as many devices as were counted.\<close>

definition bt_svc_connect_last_bonded_device :: "bt_env \<Rightarrow> bt_state \<Rightarrow> esp_err \<times> bt_state" where
  "bt_svc_connect_last_bonded_device env s =
     (if be_bond_num env \<le> 0 then (ESP_ERR_NOT_FOUND, s)
      else if \<not> be_alloc env then (ESP_ERR_NO_MEM, s)
      else case be_bond_list env (nat (be_bond_num env)) of Inl err \<Rightarrow> (err, s)
      | Inr devices \<Rightarrow> if devices = [] then (ESP_ERR_NOT_FOUND, s) else bt_do env (A2d_Connect (last devices)) s)"

definition bt_svc_store_discovery_result :: "bluetooth_service_discovery_result \<Rightarrow> bt_state \<Rightarrow> bt_state" where
  "bt_svc_store_discovery_result r s =
     (let stored = r\<lparr>dr_valid := True\<rparr> in
      case bt_svc_find_discovery_result (dr_bda r) s of
        Some i \<Rightarrow> s\<lparr>bt_discovered := (bt_discovered s)[i := stored]\<rparr>
      | None \<Rightarrow> if length (bt_discovered s) \<ge> BT_SVC_MAX_DISCOVERED_DEVICES then s
                else s\<lparr>bt_discovered := bt_discovered s @ [stored]\<rparr>)"

text \<open>A buffer of samples for the link. The provider is given a buffer of zeros and returns a count
  and the buffer it leaves; no provider is silence. The result is the count and the buffer.\<close>

definition bt_svc_a2dp_data_cb :: "(bytes \<Rightarrow> int \<times> bytes) option \<Rightarrow> int \<Rightarrow> int \<times> bytes" where
  "bt_svc_a2dp_data_cb provider len =
     (if len \<le> 0 then (0, [])
      else
        let zeros = replicate (nat len) 0 in
        case provider of None \<Rightarrow> (len, zeros)
        | Some provide \<Rightarrow>
            let (count, data) = provide zeros;
                filled = max 0 count in
            if filled < len then (len, take (nat filled) data @ replicate (nat (len - filled)) 0)
            else (filled, data))"

section \<open>Callbacks of the stack\<close>

datatype gap_prop =
    Prop_Cod u32
  | Prop_Rssi int
  | Prop_Bdname bytes
  | Prop_Eir bytes
  | Prop_Other

text \<open>What the classic profile, the audio profile, the two roles of remote control, the BLE profile and
  the attribute server report. A status is whether it is the good one.\<close>

datatype gap_event =
    Gap_Disc_Res bytes "gap_prop list"
  | Gap_Disc_State_Changed bool
  | Gap_Auth_Cmpl bytes bool bytes
  | Gap_Pin_Req bytes bool
  | Gap_Cfm_Req bytes u32
  | Gap_Other

datatype a2d_event =
    A2d_Connection_State u8 bytes
  | A2d_Audio_State u8 bytes
  | A2d_Other

datatype avrc_ct_event =
    Avrc_Ct_Connection_State bool
  | Avrc_Ct_Rn_Capabilities_Rsp u16
  | Avrc_Ct_Change_Notify u8 u8
  | Avrc_Ct_Passthrough_Rsp u8 u8 u8
  | Avrc_Ct_Other

datatype avrc_tg_event =
    Avrc_Tg_Connection_State bool
  | Avrc_Tg_Passthrough_Cmd u8 u8
  | Avrc_Tg_Set_Absolute_Volume u8
  | Avrc_Tg_Register_Notification u8
  | Avrc_Tg_Other

datatype ble_event =
    Ble_Adv_Data_Raw_Set_Complete
  | Ble_Other

datatype gatts_event =
    Gatts_Reg bool
  | Gatts_Write bool u16 bytes
  | Gatts_Mtu u16
  | Gatts_Start bool
  | Gatts_Connect u16 bytes
  | Gatts_Disconnect bytes
  | Gatts_Creat_Attr_Tab bool "u16 list"
  | Gatts_Other

subsection \<open>Names of devices found\<close>

text \<open>A record of an extended inquiry response is a length, a type and the data; a zero length ends the
  list. What lies past the buffer is read as zero.\<close>

definition HCI_EXT_INQ_RESPONSE_LEN :: nat where "HCI_EXT_INQ_RESPONSE_LEN = 240"
definition ESP_BT_EIR_TYPE_CMPL_LOCAL_NAME :: u8 where "ESP_BT_EIR_TYPE_CMPL_LOCAL_NAME = 0x09"

definition eir_at :: "bytes \<Rightarrow> nat \<Rightarrow> u8" where
  "eir_at eir i = (if i < length eir then eir ! i else 0)"

function BTM_CheckEirData :: "bytes \<Rightarrow> u8 \<Rightarrow> nat \<Rightarrow> (nat \<times> nat) option" where
  "BTM_CheckEirData eir type p =
     (let size = eir_at eir p in
      if size = 0 \<or> \<not> (p + 1 \<le> HCI_EXT_INQ_RESPONSE_LEN) then None
      else if eir_at eir (p + 1) = type then Some (p + 2, unat size - 1)
      else BTM_CheckEirData eir type (p + 1 + unat size))"
  by pat_completeness auto
termination
  by (relation "measure (\<lambda>(eir, type, p). Suc HCI_EXT_INQ_RESPONSE_LEN - p)")
    (auto simp: HCI_EXT_INQ_RESPONSE_LEN_def unat_gt_0)

declare BTM_CheckEirData.simps [simp del]

definition bt_name_of :: "bytes \<Rightarrow> bytes" where
  "bt_name_of val = cstr (take ESP_BT_GAP_MAX_BDNAME_LEN val)"

text \<open>The properties of one device, in the order they come.\<close>

definition disc_res_prop :: "bluetooth_service_discovery_result \<Rightarrow> gap_prop \<Rightarrow> bluetooth_service_discovery_result"
where
  "disc_res_prop r prop =
     (case prop of
        Prop_Cod v \<Rightarrow> r\<lparr>dr_cod := v\<rparr>
      | Prop_Rssi v \<Rightarrow> r\<lparr>dr_rssi := v\<rparr>
      | Prop_Bdname val \<Rightarrow> if length val > 0 then r\<lparr>dr_name := bt_name_of val\<rparr> else r
      | Prop_Eir eir \<Rightarrow>
          (case BTM_CheckEirData eir ESP_BT_EIR_TYPE_CMPL_LOCAL_NAME 0 of None \<Rightarrow> r
           | Some (off, eir_length) \<Rightarrow>
               if eir_length > 0 \<and> dr_name r = []
               then r\<lparr>dr_name := bt_name_of (map (eir_at eir) [off..<off + eir_length])\<rparr> else r)
      | Prop_Other \<Rightarrow> r)"

definition disc_res_of :: "bytes \<Rightarrow> gap_prop list \<Rightarrow> bluetooth_service_discovery_result" where
  "disc_res_of bda props = foldl disc_res_prop
     \<lparr>dr_valid = False, dr_bda = bda, dr_rssi = -128, dr_cod = 0, dr_name = []\<rparr> props"

definition bt_svc_gap_bt_cb :: "bt_env \<Rightarrow> gap_event \<Rightarrow> bt_state \<Rightarrow> bt_state" where
  "bt_svc_gap_bt_cb env event s =
     (case event of
        Gap_Disc_Res bda props \<Rightarrow>
          (let r = disc_res_of bda props in
           if \<not> bt_svc_is_a2dp_sink_candidate (dr_cod r) then s
           else snd (bt_svc_queue_send (BT_SVC_CMD_DISCOVERY_RESULT (r\<lparr>dr_valid := True\<rparr>)) s))
      | Gap_Disc_State_Changed started \<Rightarrow> snd (bt_svc_queue_send (BT_SVC_CMD_DISCOVERY_STATE started) s)
      | Gap_Auth_Cmpl bda ok name \<Rightarrow>
          snd (bt_svc_queue_send (BT_SVC_CMD_AUTH_COMPLETE bda ok (c_strncpy ESP_BT_GAP_MAX_BDNAME_LEN name)) s)
      | Gap_Pin_Req bda min_16_digit \<Rightarrow>
          bt_log (Gap_Pin_Reply bda True (if min_16_digit then 16 else 4) (replicate 16 0x30)) s
      | Gap_Cfm_Req bda num_val \<Rightarrow> snd (bt_svc_queue_send (BT_SVC_CMD_PAIRING_CONFIRM_REQUEST bda num_val) s)
      | Gap_Other \<Rightarrow> s)"

definition bt_svc_a2dp_cb :: "a2d_event \<Rightarrow> bt_state \<Rightarrow> bt_state" where
  "bt_svc_a2dp_cb event s =
     (case event of
        A2d_Connection_State state bda \<Rightarrow> snd (bt_svc_queue_send (BT_SVC_CMD_A2DP_CONNECTION_STATE state bda) s)
      | A2d_Audio_State state bda \<Rightarrow> snd (bt_svc_queue_send (BT_SVC_CMD_A2DP_AUDIO_STATE state bda) s)
      | A2d_Other \<Rightarrow> s)"

subsection \<open>Remote control\<close>

definition ESP_AVRC_RN_VOLUME_CHANGE :: u8 where "ESP_AVRC_RN_VOLUME_CHANGE = 0x0d"
definition ESP_AVRC_RN_MAX_EVT :: u8 where "ESP_AVRC_RN_MAX_EVT = 0x0e"
definition ESP_AVRC_PT_CMD_VENDOR :: u8 where "ESP_AVRC_PT_CMD_VENDOR = 0x7E"
definition ESP_AVRC_PT_CMD_VOL_UP :: u8 where "ESP_AVRC_PT_CMD_VOL_UP = 0x41"
definition ESP_AVRC_PT_CMD_VOL_DOWN :: u8 where "ESP_AVRC_PT_CMD_VOL_DOWN = 0x42"
definition ESP_AVRC_PT_CMD_PLAY :: u8 where "ESP_AVRC_PT_CMD_PLAY = 0x44"
definition ESP_AVRC_PT_CMD_STOP :: u8 where "ESP_AVRC_PT_CMD_STOP = 0x45"
definition ESP_AVRC_PT_CMD_PAUSE :: u8 where "ESP_AVRC_PT_CMD_PAUSE = 0x46"
definition ESP_AVRC_PT_CMD_REWIND :: u8 where "ESP_AVRC_PT_CMD_REWIND = 0x48"
definition ESP_AVRC_PT_CMD_FAST_FORWARD :: u8 where "ESP_AVRC_PT_CMD_FAST_FORWARD = 0x49"
definition ESP_AVRC_PT_CMD_FORWARD :: u8 where "ESP_AVRC_PT_CMD_FORWARD = 0x4B"
definition ESP_AVRC_PT_CMD_BACKWARD :: u8 where "ESP_AVRC_PT_CMD_BACKWARD = 0x4C"

definition next_tl :: "bt_state \<Rightarrow> bt_state" where
  "next_tl s = s\<lparr>bt_avrc_tl := (bt_avrc_tl s + 1) AND 0x0F\<rparr>"

definition bt_svc_avrc_cb :: "avrc_ct_event \<Rightarrow> bt_state \<Rightarrow> bt_state" where
  "bt_svc_avrc_cb event s =
     (case event of
        Avrc_Ct_Connection_State connected \<Rightarrow>
          if connected
          then let s1 = next_tl (s\<lparr>bt_avrc_ct_vol_registered := False\<rparr>)
               in bt_log (Avrc_Ct_Get_Caps (bt_avrc_tl s1)) s1
          else s
      | Avrc_Ct_Rn_Capabilities_Rsp caps \<Rightarrow> snd (bt_svc_queue_send (BT_SVC_CMD_AVRCP_CT_RN_CAPS caps) s)
      | Avrc_Ct_Change_Notify event_id volume \<Rightarrow>
          if event_id = ESP_AVRC_RN_VOLUME_CHANGE
          then snd (bt_svc_queue_send (BT_SVC_CMD_AVRCP_CT_VOL_CHANGE volume) s) else s
      | Avrc_Ct_Passthrough_Rsp key_code key_state rsp_code \<Rightarrow>
          snd (bt_svc_queue_send (BT_SVC_CMD_AVRCP_PASSTHROUGH_RSP key_code key_state rsp_code) s)
      | Avrc_Ct_Other \<Rightarrow> s)"

text \<open>The control a key asks for and whether there is one.\<close>

definition bt_svc_player_control_from_key :: "u8 \<Rightarrow> player_service_control \<times> bool" where
  "bt_svc_player_control_from_key key_code =
     (if key_code = ESP_AVRC_PT_CMD_FORWARD then (PLAYER_SVC_CONTROL_NEXT, True)
      else if key_code = ESP_AVRC_PT_CMD_BACKWARD then (PLAYER_SVC_CONTROL_PREVIOUS, True)
      else if key_code = ESP_AVRC_PT_CMD_FAST_FORWARD then (PLAYER_SVC_CONTROL_FAST_FORWARD, True)
      else if key_code = ESP_AVRC_PT_CMD_REWIND then (PLAYER_SVC_CONTROL_FAST_BACKWARD, True)
      else if key_code = ESP_AVRC_PT_CMD_VOL_UP then (PLAYER_SVC_CONTROL_VOLUME_UP, True)
      else if key_code = ESP_AVRC_PT_CMD_VOL_DOWN then (PLAYER_SVC_CONTROL_VOLUME_DOWN, True)
      else if key_code = ESP_AVRC_PT_CMD_PAUSE \<or> key_code = ESP_AVRC_PT_CMD_PLAY \<or> key_code = ESP_AVRC_PT_CMD_STOP
      then (PLAYER_SVC_CONTROL_PAUSE, True)
      else (PLAYER_SVC_CONTROL_PAUSE, False))"

definition bt_svc_avrc_tg_cb :: "avrc_tg_event \<Rightarrow> bt_state \<Rightarrow> bt_state" where
  "bt_svc_avrc_tg_cb event s =
     (case event of
        Avrc_Tg_Connection_State connected \<Rightarrow> s
      | Avrc_Tg_Passthrough_Cmd key_code key_state \<Rightarrow>
          snd (bt_svc_queue_send (BT_SVC_CMD_AVRCP_PASSTHROUGH_CMD key_code key_state) s)
      | Avrc_Tg_Set_Absolute_Volume volume \<Rightarrow> snd (bt_svc_queue_send (BT_SVC_CMD_AVRCP_SET_ABS_VOL volume) s)
      | Avrc_Tg_Register_Notification event_id \<Rightarrow>
          snd (bt_svc_queue_send (BT_SVC_CMD_AVRCP_REG_VOL_NOTIFY event_id) s)
      | Avrc_Tg_Other \<Rightarrow> s)"

text \<open>The bit masks of keys and events that the stack is given; a number out of range changes nothing.\<close>

definition esp_avrc_psth_bit_mask_set :: "u16 list \<Rightarrow> u8 \<Rightarrow> u16 list" where
  "esp_avrc_psth_bit_mask_set psth cmd =
     (if cmd > ESP_AVRC_PT_CMD_VENDOR then psth
      else let i = unat (drop_bit 4 cmd) in psth[i := psth ! i OR push_bit (unat (cmd AND 0x0F)) 1])"

definition esp_avrc_psth_bit_mask_test :: "u16 list \<Rightarrow> u8 \<Rightarrow> bool" where
  "esp_avrc_psth_bit_mask_test psth cmd \<longleftrightarrow> cmd \<le> ESP_AVRC_PT_CMD_VENDOR \<and>
     psth ! unat (drop_bit 4 cmd) AND push_bit (unat (cmd AND 0x0F)) 1 \<noteq> 0"

definition esp_avrc_rn_evt_bit_mask_set :: "u16 \<Rightarrow> u8 \<Rightarrow> u16" where
  "esp_avrc_rn_evt_bit_mask_set events event_id =
     (if event_id \<ge> ESP_AVRC_RN_MAX_EVT then events else events OR push_bit (unat (event_id AND 0x0F)) 1)"

definition esp_avrc_rn_evt_bit_mask_test :: "u16 \<Rightarrow> u8 \<Rightarrow> bool" where
  "esp_avrc_rn_evt_bit_mask_test events event_id \<longleftrightarrow> event_id < ESP_AVRC_RN_MAX_EVT \<and>
     events AND push_bit (unat (event_id AND 0x0F)) 1 \<noteq> 0"

subsection \<open>The serial link\<close>

definition bt_svc_gap_ble_cb :: "bt_env \<Rightarrow> ble_event \<Rightarrow> bt_state \<Rightarrow> bt_state" where
  "bt_svc_gap_ble_cb env event s =
     (case event of Ble_Adv_Data_Raw_Set_Complete \<Rightarrow> bt_log Ble_Start_Advertising s | Ble_Other \<Rightarrow> s)"

definition spp_write :: "bt_env \<Rightarrow> u16 \<Rightarrow> bytes \<Rightarrow> bt_state \<Rightarrow> bt_state" where
  "spp_write env handle val s =
     (let attr_index = bt_svc_spp_find_attr_index handle s in
      if attr_index = BT_SVC_BLE_SPP_IDX_DATA_NOTIFY_CFG then
        if length val = 2 then
          if val ! 0 = 0x01 \<and> val ! 1 = 0x00
          then s\<lparr>bt_spp_data_notifications_enabled := True, bt_spp_data_indications_enabled := False\<rparr>
          else if val ! 0 = 0x02 \<and> val ! 1 = 0x00
          then s\<lparr>bt_spp_data_notifications_enabled := True, bt_spp_data_indications_enabled := False\<rparr>
          else if val ! 0 = 0x00 \<and> val ! 1 = 0x00
          then s\<lparr>bt_spp_data_notifications_enabled := False, bt_spp_data_indications_enabled := False\<rparr>
          else s
        else s
      else if attr_index = BT_SVC_BLE_SPP_IDX_STATUS_CFG then
        if length val = 2
        then s\<lparr>bt_spp_status_notifications_enabled := (val ! 0 = 0x01 \<or> val ! 0 = 0x02) \<and> val ! 1 = 0x00\<rparr>
        else s
      else if attr_index = BT_SVC_BLE_SPP_IDX_COMMAND_VAL then
        if length val > 0 then snd (bt_svc_spp_send_status env [0x4F, 0x4B] s) else s
      else if attr_index = BT_SVC_BLE_SPP_IDX_DATA_RECV_VAL then
        if length val > 0 then
          if bt_spp_rx_cb s \<noteq> None then bt_log (Bt_Spp_Rx_Callback val) s
          else snd (bt_svc_spp_send_data env (Some val) s)
        else s
      else s)"

definition bt_svc_spp_gatts_cb :: "bt_env \<Rightarrow> gatts_event \<Rightarrow> u8 \<Rightarrow> bt_state \<Rightarrow> bt_state" where
  "bt_svc_spp_gatts_cb env event gatts_if s =
     (case event of
        Gatts_Reg ok \<Rightarrow>
          if \<not> ok then s
          else bt_log (Gatts_Create_Table gatts_if) (bt_log Ble_Config_Adv_Data (bt_log Ble_Set_Device_Name
                 (s\<lparr>bt_spp_gatts_if := gatts_if\<rparr>)))
      | Gatts_Write is_prep handle val \<Rightarrow> if \<not> is_prep then spp_write env handle val s else s
      | Gatts_Mtu mtu \<Rightarrow> s\<lparr>bt_spp_mtu := mtu\<rparr>
      | Gatts_Start ok \<Rightarrow> if ok then bt_svc_post_event BLUETOOTH_SVC_EVENT_SPP_READY s else s
      | Gatts_Connect conn_id remote_bda \<Rightarrow>
          snd (bt_svc_queue_send (BT_SVC_CMD_SPP_CONNECTED remote_bda)
            (s\<lparr>bt_spp_connected := True, bt_spp_conn_id := conn_id, bt_spp_gatts_if := gatts_if,
               bt_spp_remote_bda := remote_bda\<rparr>))
      | Gatts_Disconnect remote_bda \<Rightarrow>
          bt_log Ble_Start_Advertising
            (snd (bt_svc_queue_send (BT_SVC_CMD_SPP_DISCONNECTED remote_bda) (bt_svc_spp_reset_link_state s)))
      | Gatts_Creat_Attr_Tab ok handles \<Rightarrow>
          if \<not> ok then s
          else if length handles \<noteq> BT_SVC_BLE_SPP_IDX_NB then s
          else let s1 = s\<lparr>bt_spp_handle_table := handles\<rparr>
               in bt_log (Gatts_Start_Service (bt_spp_handle_table s1 ! BT_SVC_BLE_SPP_IDX_SVC)) s1
      | Gatts_Other \<Rightarrow> s)"

datatype bt_stack_event =
    Ev_Gap gap_event
  | Ev_A2dp a2d_event
  | Ev_Avrc_Ct avrc_ct_event
  | Ev_Avrc_Tg avrc_tg_event
  | Ev_Ble ble_event
  | Ev_Gatts u8 gatts_event

definition bt_stack_callback :: "bt_env \<Rightarrow> bt_state \<Rightarrow> bt_stack_event \<Rightarrow> bt_state" where
  "bt_stack_callback env s ev =
     (case ev of
        Ev_Gap e \<Rightarrow> bt_svc_gap_bt_cb env e s
      | Ev_A2dp e \<Rightarrow> bt_svc_a2dp_cb e s
      | Ev_Avrc_Ct e \<Rightarrow> bt_svc_avrc_cb e s
      | Ev_Avrc_Tg e \<Rightarrow> bt_svc_avrc_tg_cb e s
      | Ev_Ble e \<Rightarrow> bt_svc_gap_ble_cb env e s
      | Ev_Gatts gatts_if e \<Rightarrow> bt_svc_spp_gatts_cb env e gatts_if s)"

section \<open>The messages\<close>

definition bt_svc_process_pair_best :: "bt_state \<Rightarrow> bt_state" where
  "bt_svc_process_pair_best s =
     (if bt_a2dp_connected s then s
      else
        let s1 = (bt_svc_reset_discovery_results s)\<lparr>bt_pair_request_pending := True\<rparr>;
            s2 = (if bt_discovery_running s1 then bt_log Gap_Cancel_Discovery s1 else s1)
        in bt_log Gap_Start_Discovery s2)"

definition bt_svc_process_start_discovery :: "bt_state \<Rightarrow> bt_state" where
  "bt_svc_process_start_discovery s =
     (let s1 = (bt_svc_reset_discovery_results s)\<lparr>bt_pair_request_pending := False\<rparr>;
          s2 = (if bt_discovery_running s1 then bt_log Gap_Cancel_Discovery s1 else s1)
      in bt_log Gap_Start_Discovery s2)"

definition bt_svc_process_confirm_reply :: "bool \<Rightarrow> bt_state \<Rightarrow> bt_state" where
  "bt_svc_process_confirm_reply accept s =
     (case bt_svc_take_pending_pairing_confirm s of
        (None, s1) \<Rightarrow> s1
      | (Some (remote_bda, numeric_value), s1) \<Rightarrow> bt_log (Gap_Ssp_Reply remote_bda accept) s1)"

definition bt_svc_process_media_key :: "u8 \<Rightarrow> bt_state \<Rightarrow> bt_state" where
  "bt_svc_process_media_key key s =
     next_tl (bt_log (Avrc_Ct_Passthrough (bt_avrc_tl s) key False)
       (bt_log (Avrc_Ct_Passthrough (bt_avrc_tl s) key True) s))"

definition bt_svc_process_discovery_state :: "bool \<Rightarrow> bt_state \<Rightarrow> bt_state" where
  "bt_svc_process_discovery_state started s =
     (let s1 = s\<lparr>bt_discovery_running := started\<rparr> in
      if \<not> started \<and> bt_pair_request_pending s1
      then bt_svc_select_and_connect_best_sink (s1\<lparr>bt_pair_request_pending := False\<rparr>)
      else s1)"

definition bt_svc_process_auth_complete :: "bytes \<Rightarrow> bool \<Rightarrow> bt_state \<Rightarrow> bt_state" where
  "bt_svc_process_auth_complete bda ok s =
     (let s1 = bt_svc_clear_pending_pairing_confirm s in
      if ok then bt_svc_invoke_connection_callback BLUETOOTH_SVC_CONNECTION_EVENT_AUTH_COMPLETE bda
                   (bt_svc_post_event (BLUETOOTH_SVC_EVENT_PAIRING_COMPLETE bda) s1)
      else s1)"

definition bt_svc_process_a2dp_state :: "u8 \<Rightarrow> bytes \<Rightarrow> bt_state \<Rightarrow> bt_state" where
  "bt_svc_process_a2dp_state state remote_bda s =
     (let s1 = (if state = ESP_A2D_CONNECTION_STATE_CONNECTED
                then s\<lparr>bt_a2dp_connected := True, bt_connected_bda := remote_bda\<rparr>
                else if state = ESP_A2D_CONNECTION_STATE_DISCONNECTED
                then s\<lparr>bt_a2dp_connected := False, bt_connected_bda := zero_bda\<rparr>
                else s)
      in bt_svc_invoke_connection_callback BLUETOOTH_SVC_CONNECTION_EVENT_A2DP_CONNECTION_STATE remote_bda
           (bt_svc_post_event (BLUETOOTH_SVC_EVENT_A2DP_CONNECTION_STATE state) s1))"

definition bt_svc_process_passthrough_cmd :: "u8 \<Rightarrow> u8 \<Rightarrow> bt_state \<Rightarrow> bt_state" where
  "bt_svc_process_passthrough_cmd key_code key_state s =
     (if key_state = 0
      then let (control, handled) = bt_svc_player_control_from_key key_code
           in if handled then bt_log (Bt_Player_Control control) s else s
      else s)"

definition bt_svc_process_set_abs_vol :: "u8 \<Rightarrow> bt_state \<Rightarrow> bt_state" where
  "bt_svc_process_set_abs_vol avrc_vol s =
     (let s1 = bt_log (Bt_Player_Volume avrc_vol) s in
      if bt_avrc_rn_vol_registered s1
      then (bt_log (Avrc_Tg_Volume_Rsp True avrc_vol) s1)\<lparr>bt_avrc_rn_vol_registered := False\<rparr>
      else s1)"

definition register_volume :: "bt_state \<Rightarrow> bt_state" where
  "register_volume s = (let s1 = next_tl s in bt_log (Avrc_Ct_Register_Volume (bt_avrc_tl s1)) s1)"

definition bt_svc_process_rn_caps :: "u16 \<Rightarrow> bt_state \<Rightarrow> bt_state" where
  "bt_svc_process_rn_caps caps s =
     (if esp_avrc_rn_evt_bit_mask_test caps ESP_AVRC_RN_VOLUME_CHANGE
      then (register_volume s)\<lparr>bt_avrc_ct_vol_registered := True\<rparr> else s)"

definition bt_svc_process_vol_change :: "u8 \<Rightarrow> bt_state \<Rightarrow> bt_state" where
  "bt_svc_process_vol_change remote_vol s =
     (let s1 = bt_log (Bt_Player_Volume remote_vol) s in
      if bt_avrc_ct_vol_registered s1 then register_volume s1 else s1)"

definition bt_svc_process_reg_vol_notify :: "bt_env \<Rightarrow> u8 \<Rightarrow> bt_state \<Rightarrow> bt_state" where
  "bt_svc_process_reg_vol_notify env event_id s =
     (if event_id = ESP_AVRC_RN_VOLUME_CHANGE
      then bt_log (Avrc_Tg_Volume_Rsp False (ucast ((ucast (be_volume_percent env) :: u32) * 127 div 100)))
             (s\<lparr>bt_avrc_rn_vol_registered := True\<rparr>)
      else s)"

definition bt_svc_process_msg :: "bt_env \<Rightarrow> bluetooth_service_msg \<Rightarrow> bt_state \<Rightarrow> bt_state" where
  "bt_svc_process_msg env msg s =
     (case msg of
        BT_SVC_CMD_PAIR_BEST \<Rightarrow> bt_svc_process_pair_best s
      | BT_SVC_CMD_START_DISCOVERY \<Rightarrow> bt_svc_process_start_discovery s
      | BT_SVC_CMD_PAIRING_CONFIRM_REQUEST bda v \<Rightarrow> bt_svc_set_pending_pairing_confirm bda v s
      | BT_SVC_CMD_PAIRING_CONFIRM_REPLY accept \<Rightarrow> bt_svc_process_confirm_reply accept s
      | BT_SVC_CMD_CONNECT_LAST_BONDED \<Rightarrow>
          if bt_a2dp_connected s then s else snd (bt_svc_connect_last_bonded_device env s)
      | BT_SVC_CMD_DISCONNECT_A2DP \<Rightarrow>
          if \<not> bt_a2dp_connected s then s else bt_log (A2d_Disconnect (bt_connected_bda s)) s
      | BT_SVC_CMD_START_AUDIO \<Rightarrow> bt_log A2d_Media_Start s
      | BT_SVC_CMD_SUSPEND_AUDIO \<Rightarrow> bt_log A2d_Media_Suspend s
      | BT_SVC_CMD_SEND_MEDIA_KEY key \<Rightarrow> bt_svc_process_media_key key s
      | BT_SVC_CMD_DISCOVERY_RESULT r \<Rightarrow> bt_svc_store_discovery_result r s
      | BT_SVC_CMD_DISCOVERY_STATE started \<Rightarrow> bt_svc_process_discovery_state started s
      | BT_SVC_CMD_AUTH_COMPLETE bda ok name \<Rightarrow> bt_svc_process_auth_complete bda ok s
      | BT_SVC_CMD_A2DP_CONNECTION_STATE state bda \<Rightarrow> bt_svc_process_a2dp_state state bda s
      | BT_SVC_CMD_A2DP_AUDIO_STATE state bda \<Rightarrow>
          bt_svc_invoke_connection_callback BLUETOOTH_SVC_CONNECTION_EVENT_A2DP_AUDIO_STATE bda
            (bt_svc_post_event (BLUETOOTH_SVC_EVENT_A2DP_AUDIO_STATE state) s)
      | BT_SVC_CMD_AVRCP_PASSTHROUGH_RSP key_code key_state rsp_code \<Rightarrow>
          if bt_media_key_cb s \<noteq> None then bt_log (Bt_Media_Key_Callback key_code key_state rsp_code) s else s
      | BT_SVC_CMD_AVRCP_PASSTHROUGH_CMD key_code key_state \<Rightarrow> bt_svc_process_passthrough_cmd key_code key_state s
      | BT_SVC_CMD_AVRCP_SET_ABS_VOL volume \<Rightarrow> bt_svc_process_set_abs_vol volume s
      | BT_SVC_CMD_AVRCP_CT_RN_CAPS caps \<Rightarrow> bt_svc_process_rn_caps caps s
      | BT_SVC_CMD_AVRCP_CT_VOL_CHANGE volume \<Rightarrow> bt_svc_process_vol_change volume s
      | BT_SVC_CMD_AVRCP_REG_VOL_NOTIFY event_id \<Rightarrow> bt_svc_process_reg_vol_notify env event_id s
      | BT_SVC_CMD_SPP_CONNECTED bda \<Rightarrow>
          bt_svc_invoke_connection_callback BLUETOOTH_SVC_CONNECTION_EVENT_SPP_CONNECTED bda s
      | BT_SVC_CMD_SPP_DISCONNECTED bda \<Rightarrow>
          bt_svc_invoke_connection_callback BLUETOOTH_SVC_CONNECTION_EVENT_SPP_DISCONNECTED bda s)"

text \<open>The messages are served oldest first, so many in a pass.\<close>

fun bt_svc_drain :: "bt_env \<Rightarrow> nat \<Rightarrow> bt_state \<Rightarrow> bt_state" where
  "bt_svc_drain env 0 s = s"
| "bt_svc_drain env (Suc n) s =
     (case bt_cmd_queue s of
        Some (msg # q) \<Rightarrow> bt_svc_drain env n (bt_svc_process_msg env msg (s\<lparr>bt_cmd_queue := Some q\<rparr>))
      | _ \<Rightarrow> s)"

definition bluetooth_service_process_once :: "bt_env \<Rightarrow> bt_state \<Rightarrow> bt_state" where
  "bluetooth_service_process_once env s =
     (if \<not> bt_initialised s \<or> bt_cmd_queue s = None then s
      else bt_svc_drain env BT_SVC_MAX_CMDS_PER_PASS s)"

section \<open>Requests\<close>

definition bt_svc_api_send :: "bluetooth_service_msg \<Rightarrow> bt_state \<Rightarrow> esp_err \<times> bt_state" where
  "bt_svc_api_send msg s =
     (case bt_svc_queue_send msg s of (sent, s1) \<Rightarrow> (if sent then ESP_OK else ESP_ERR_TIMEOUT, s1))"

definition bluetooth_service_pair_best_a2dp_sink :: "bt_state \<Rightarrow> esp_err \<times> bt_state" where
  "bluetooth_service_pair_best_a2dp_sink s =
     (let err = bt_svc_validate_a2dp_state False s in
      if err \<noteq> ESP_OK then (err, s) else bt_svc_api_send BT_SVC_CMD_PAIR_BEST s)"

definition bluetooth_service_connect_last_bonded_a2dp_device :: "bt_state \<Rightarrow> esp_err \<times> bt_state" where
  "bluetooth_service_connect_last_bonded_a2dp_device s =
     (let err = bt_svc_validate_a2dp_state False s in
      if err \<noteq> ESP_OK then (err, s) else bt_svc_api_send BT_SVC_CMD_CONNECT_LAST_BONDED s)"

definition bluetooth_service_get_pending_pairing_confirm :: "bt_state \<Rightarrow> bluetooth_service_pairing_confirm" where
  "bluetooth_service_get_pending_pairing_confirm s = bt_svc_get_pending_pairing_confirm s"

definition bluetooth_service_reply_pairing_confirm :: "bool \<Rightarrow> bt_state \<Rightarrow> esp_err \<times> bt_state" where
  "bluetooth_service_reply_pairing_confirm accept s =
     (if bt_cmd_queue s = None then (ESP_ERR_INVALID_STATE, s)
      else bt_svc_api_send (BT_SVC_CMD_PAIRING_CONFIRM_REPLY accept) s)"

definition bluetooth_service_disconnect_a2dp :: "bt_state \<Rightarrow> esp_err \<times> bt_state" where
  "bluetooth_service_disconnect_a2dp s =
     (let err = bt_svc_validate_a2dp_state True s in
      if err \<noteq> ESP_OK then (err, s) else bt_svc_api_send BT_SVC_CMD_DISCONNECT_A2DP s)"

definition bluetooth_service_start_audio :: "bt_state \<Rightarrow> esp_err \<times> bt_state" where
  "bluetooth_service_start_audio s =
     (if bt_cmd_queue s = None then (ESP_ERR_INVALID_STATE, s) else bt_svc_api_send BT_SVC_CMD_START_AUDIO s)"

definition bluetooth_service_suspend_audio :: "bt_state \<Rightarrow> esp_err \<times> bt_state" where
  "bluetooth_service_suspend_audio s =
     (if bt_cmd_queue s = None then (ESP_ERR_INVALID_STATE, s) else bt_svc_api_send BT_SVC_CMD_SUSPEND_AUDIO s)"

definition bluetooth_service_send_media_key :: "u8 \<Rightarrow> bt_state \<Rightarrow> esp_err \<times> bt_state" where
  "bluetooth_service_send_media_key key_code s =
     (if bt_cmd_queue s = None then (ESP_ERR_INVALID_STATE, s)
      else bt_svc_api_send (BT_SVC_CMD_SEND_MEDIA_KEY key_code) s)"

definition bluetooth_service_start_discovery :: "bt_state \<Rightarrow> esp_err \<times> bt_state" where
  "bluetooth_service_start_discovery s =
     (if bt_cmd_queue s = None then (ESP_ERR_INVALID_STATE, s) else bt_svc_api_send BT_SVC_CMD_START_DISCOVERY s)"

definition bluetooth_service_register_pcm_provider :: "nat option \<Rightarrow> bt_state \<Rightarrow> esp_err \<times> bt_state" where
  "bluetooth_service_register_pcm_provider provider s = (ESP_OK, s\<lparr>bt_pcm_provider := provider\<rparr>)"

definition bluetooth_service_register_connection_callback :: "nat option \<Rightarrow> bt_state \<Rightarrow> bt_state" where
  "bluetooth_service_register_connection_callback callback s = s\<lparr>bt_connection_cb := callback\<rparr>"

definition bluetooth_service_register_media_key_callback :: "nat option \<Rightarrow> bt_state \<Rightarrow> bt_state" where
  "bluetooth_service_register_media_key_callback callback s = s\<lparr>bt_media_key_cb := callback\<rparr>"

definition bluetooth_service_register_spp_rx_callback :: "nat option \<Rightarrow> bt_state \<Rightarrow> esp_err \<times> bt_state" where
  "bluetooth_service_register_spp_rx_callback callback s =
     (if \<not> bt_initialised s then (ESP_ERR_INVALID_STATE, s) else (ESP_OK, s\<lparr>bt_spp_rx_cb := callback\<rparr>))"

definition bluetooth_service_spp_send_data :: "bt_env \<Rightarrow> bytes option \<Rightarrow> bt_state \<Rightarrow> esp_err \<times> bt_state" where
  "bluetooth_service_spp_send_data env data s = bt_svc_spp_send_data env data s"

definition bluetooth_service_is_initialised :: "bt_state \<Rightarrow> bool" where
  "bluetooth_service_is_initialised s = bt_initialised s"

definition bluetooth_service_is_a2dp_connected :: "bt_state \<Rightarrow> bool" where
  "bluetooth_service_is_a2dp_connected s = bt_a2dp_connected s"

definition bluetooth_service_is_spp_connected :: "bt_state \<Rightarrow> bool" where
  "bluetooth_service_is_spp_connected s = bt_spp_connected s"

definition bluetooth_service_spp_notifications_enabled :: "bt_state \<Rightarrow> bool" where
  "bluetooth_service_spp_notifications_enabled s = bt_spp_data_notifications_enabled s"

definition bluetooth_service_spp_get_mtu :: "bt_state \<Rightarrow> nat" where
  "bluetooth_service_spp_get_mtu s = unat (bt_spp_mtu s)"

definition bluetooth_service_spp_get_max_payload :: "bt_state \<Rightarrow> nat" where
  "bluetooth_service_spp_get_max_payload s = (if bt_spp_mtu s > 3 then unat (bt_spp_mtu s - 3) else 0)"

definition bluetooth_service_is_discovery_running :: "bt_state \<Rightarrow> bool" where
  "bluetooth_service_is_discovery_running s = bt_discovery_running s"

definition bluetooth_service_get_bonded_device_count :: "bt_env \<Rightarrow> nat" where
  "bluetooth_service_get_bonded_device_count env =
     (if be_bond_num env > 0 then nat (be_bond_num env) else 0)"

text \<open>The room the caller offers, read as a signed number; a failed call leaves the count it was given.\<close>

definition bluetooth_service_get_bonded_devices :: "bt_env \<Rightarrow> u32 option \<Rightarrow> esp_err \<times> nat \<times> bytes list" where
  "bluetooth_service_get_bonded_devices env room =
     (case room of None \<Rightarrow> (ESP_ERR_INVALID_ARG, 0, [])
      | Some n \<Rightarrow>
          if sint n \<le> 0 then (ESP_ERR_INVALID_ARG, unat n, [])
          else case be_bond_list env (nat (sint n)) of
            Inl err \<Rightarrow> (err, nat (sint n), [])
          | Inr devices \<Rightarrow> (ESP_OK, length devices, devices))"

fun copy_valid :: "nat \<Rightarrow> bluetooth_service_discovery_result list \<Rightarrow> bluetooth_service_scan_entry list" where
  "copy_valid capacity [] = []"
| "copy_valid capacity (r # rs) =
     (if capacity = 0 then []
      else if \<not> dr_valid r then copy_valid capacity rs
      else \<lparr>se_bda = dr_bda r, se_rssi = dr_rssi r, se_cod = dr_cod r, se_name = dr_name r\<rparr>
             # copy_valid (capacity - 1) rs)"

definition bluetooth_service_get_discovery_results ::
    "nat option \<Rightarrow> bt_state \<Rightarrow> esp_err \<times> bluetooth_service_scan_entry list" where
  "bluetooth_service_get_discovery_results room s =
     (case room of None \<Rightarrow> (ESP_ERR_INVALID_ARG, [])
      | Some capacity \<Rightarrow> if capacity = 0 then (ESP_OK, []) else (ESP_OK, copy_valid capacity (bt_discovered s)))"

definition bluetooth_service_unbond :: "bt_env \<Rightarrow> bytes option \<Rightarrow> bt_state \<Rightarrow> esp_err \<times> bt_state" where
  "bluetooth_service_unbond env addr s =
     (case addr of None \<Rightarrow> (ESP_ERR_INVALID_ARG, s) | Some a \<Rightarrow> bt_do env (Gap_Remove_Bond a) s)"

section \<open>Start and stop\<close>

definition BT_SVC_KEYS :: "u8 list" where
  "BT_SVC_KEYS = [ESP_AVRC_PT_CMD_PLAY, ESP_AVRC_PT_CMD_PAUSE, ESP_AVRC_PT_CMD_STOP, ESP_AVRC_PT_CMD_FORWARD,
     ESP_AVRC_PT_CMD_BACKWARD, ESP_AVRC_PT_CMD_FAST_FORWARD, ESP_AVRC_PT_CMD_REWIND, ESP_AVRC_PT_CMD_VOL_UP,
     ESP_AVRC_PT_CMD_VOL_DOWN]"

definition bt_svc_cmd_mask :: "u16 list" where
  "bt_svc_cmd_mask = foldl esp_avrc_psth_bit_mask_set (replicate 8 0) BT_SVC_KEYS"

definition bt_svc_evt_mask :: u16 where
  "bt_svc_evt_mask = esp_avrc_rn_evt_bit_mask_set 0 ESP_AVRC_RN_VOLUME_CHANGE"

definition BT_SVC_BLE_SPP_APP_ID :: u16 where "BT_SVC_BLE_SPP_APP_ID = 0x56"
definition BT_SVC_BLE_SPP_MTU_SIZE :: u16 where "BT_SVC_BLE_SPP_MTU_SIZE = 512"
definition POWER_MGMT_SERVICE_SHUTDOWN_PRIORITY_BLUETOOTH :: nat where
  "POWER_MGMT_SERVICE_SHUTDOWN_PRIORITY_BLUETOOTH = 200"

definition bt_svc_setup :: "bt_setup list" where
  "bt_svc_setup = [Gap_Register_Callback, Ble_Gap_Register_Callback, Gatts_Register_Callback,
     Gap_Set_Device_Name, Gap_Set_Scan_Mode, Gap_Set_Pin [0x31, 0x32, 0x33, 0x34],
     Avrc_Tg_Init, Avrc_Tg_Register_Callback, Avrc_Ct_Init, Avrc_Ct_Register_Callback,
     A2d_Register_Callback, A2d_Register_Data_Callback, A2d_Source_Init,
     Avrc_Tg_Set_Psth_Cmd_Filter bt_svc_cmd_mask, Avrc_Tg_Set_Rn_Evt_Cap bt_svc_evt_mask,
     Gatts_App_Register BT_SVC_BLE_SPP_APP_ID, Gatt_Set_Local_Mtu BT_SVC_BLE_SPP_MTU_SIZE]"

text \<open>Steps that must all succeed; the result is whether they did.\<close>

fun bt_svc_check_all :: "bt_env \<Rightarrow> bt_setup list \<Rightarrow> bt_state \<Rightarrow> bool \<times> bt_state" where
  "bt_svc_check_all env [] s = (True, s)"
| "bt_svc_check_all env (step # steps) s =
     (case bt_do env (Bt_Setup step) s of
        (err, s1) \<Rightarrow> if err \<noteq> ESP_OK then (False, s1) else bt_svc_check_all env steps s1)"

text \<open>No result: the firmware stopped.\<close>

definition bluetooth_service_init :: "bt_env \<Rightarrow> bt_state \<Rightarrow> esp_err option \<times> bt_state" where
  "bluetooth_service_init env s =
     (if bt_initialised s then (Some ESP_OK, s)
      else if be_event_loop env \<noteq> ESP_OK \<and> be_event_loop env \<noteq> ESP_ERR_INVALID_STATE
      then (Some (be_event_loop env), s)
      else if \<not> be_queue env then (Some ESP_ERR_NO_MEM, s\<lparr>bt_cmd_queue := None\<rparr>)
      else case bt_svc_check_all env bt_svc_setup (s\<lparr>bt_cmd_queue := Some []\<rparr>) of
        (False, s1) \<Rightarrow> (None, s1)
      | (True, s1) \<Rightarrow>
          (case bt_svc_check_all env [Power_Register_Shutdown POWER_MGMT_SERVICE_SHUTDOWN_PRIORITY_BLUETOOTH]
                  (s1\<lparr>bt_initialised := True\<rparr>) of
             (False, s2) \<Rightarrow> (None, s2)
           | (True, s2) \<Rightarrow>
               (Some ESP_OK, snd (bluetooth_service_connect_last_bonded_a2dp_device
                  (bt_svc_post_event BLUETOOTH_SVC_EVENT_STARTED s2)))))"

definition bt_svc_ignore_invalid_state :: "esp_err \<Rightarrow> esp_err" where
  "bt_svc_ignore_invalid_state err = (if err = ESP_ERR_INVALID_STATE then ESP_OK else err)"

text \<open>Waiting is a pass of the loop, the clock, and a delay in which the stack calls back. What happens
  in each delay and how long the rest took, in ticks of 10 ms, is given; a delay is at least a tick.\<close>

definition BT_SVC_SHUTDOWN_POLL_TICKS :: nat where "BT_SVC_SHUTDOWN_POLL_TICKS = 1"
definition BT_SVC_SHUTDOWN_WAIT_TICKS :: nat where "BT_SVC_SHUTDOWN_WAIT_TICKS = 200"

type_synonym bt_schedule = "nat \<Rightarrow> nat \<times> bt_stack_event list"

function bt_svc_wait_for_disconnect_state ::
    "bt_env \<Rightarrow> bt_schedule \<Rightarrow> (bt_state \<Rightarrow> bool) \<Rightarrow> bool \<Rightarrow> nat \<Rightarrow> nat \<Rightarrow> nat \<Rightarrow> bt_state \<Rightarrow> esp_err \<times> bt_state"
where
  "bt_svc_wait_for_disconnect_state env polls flag target_value timeout_ticks n elapsed s =
     (if flag s = target_value then (ESP_OK, s)
      else
        let s1 = bluetooth_service_process_once env s;
            passed = elapsed + fst (polls n)
        in if passed \<ge> timeout_ticks then (ESP_ERR_TIMEOUT, s1)
           else bt_svc_wait_for_disconnect_state env polls flag target_value timeout_ticks (Suc n)
                  (passed + BT_SVC_SHUTDOWN_POLL_TICKS) (foldl (bt_stack_callback env) s1 (snd (polls n))))"
  by pat_completeness auto
termination
  by (relation "measure (\<lambda>(env, polls, flag, target_value, timeout_ticks, n, elapsed, s). timeout_ticks - elapsed)")
    (auto simp: BT_SVC_SHUTDOWN_POLL_TICKS_def)

declare bt_svc_wait_for_disconnect_state.simps [simp del]

type_synonym bt_action = "bt_state \<Rightarrow> esp_err \<times> bt_state"

text \<open>One step after another until one fails.\<close>

fun bt_seq :: "bt_action list \<Rightarrow> bt_action" where
  "bt_seq [] s = (ESP_OK, s)"
| "bt_seq (f # fs) s = (case f s of (err, s1) \<Rightarrow> if err \<noteq> ESP_OK then (err, s1) else bt_seq fs s1)"

definition bt_when :: "(bt_state \<Rightarrow> bool) \<Rightarrow> bt_action list \<Rightarrow> bt_action" where
  "bt_when c fs s = (if c s then bt_seq fs s else (ESP_OK, s))"

definition bt_tolerant :: "bt_env \<Rightarrow> (bt_state \<Rightarrow> bt_call) \<Rightarrow> bt_action" where
  "bt_tolerant env call s = (case bt_do env (call s) s of (err, s1) \<Rightarrow> (bt_svc_ignore_invalid_state err, s1))"

definition bt_strict :: "bt_env \<Rightarrow> (bt_state \<Rightarrow> bt_call) \<Rightarrow> bt_action" where
  "bt_strict env call s = bt_do env (call s) s"

definition bt_wait :: "bt_env \<Rightarrow> bt_schedule \<Rightarrow> (bt_state \<Rightarrow> bool) \<Rightarrow> bt_action" where
  "bt_wait env polls flag s =
     bt_svc_wait_for_disconnect_state env polls flag False BT_SVC_SHUTDOWN_WAIT_TICKS 0 0 s"

definition bt_svc_shutdown_steps :: "bt_env \<Rightarrow> bt_schedule \<Rightarrow> bt_schedule \<Rightarrow> bt_stack_event list \<Rightarrow> bt_action list" where
  "bt_svc_shutdown_steps env a2dp_polls spp_polls last_events =
     [bt_when bt_discovery_running [bt_tolerant env (\<lambda>_. Gap_Cancel_Discovery)],
      bt_when bt_a2dp_connected
        [bt_tolerant env (\<lambda>_. A2d_Media_Suspend), bt_tolerant env (\<lambda>s. A2d_Disconnect (bt_connected_bda s)),
         bt_wait env a2dp_polls bt_a2dp_connected],
      bt_when bt_spp_connected
        [bt_tolerant env (\<lambda>s. Ble_Disconnect (bt_spp_remote_bda s)), bt_wait env spp_polls bt_spp_connected],
      bt_tolerant env (\<lambda>_. Ble_Stop_Advertising),
      (\<lambda>s. (ESP_OK, foldl (bt_stack_callback env) s last_events)),
      bt_when (\<lambda>s. bt_spp_gatts_if s \<noteq> ESP_GATT_IF_NONE)
        [bt_tolerant env (\<lambda>s. Gatts_App_Unregister (bt_spp_gatts_if s))],
      bt_tolerant env (\<lambda>_. Avrc_Ct_Deinit),
      bt_tolerant env (\<lambda>_. Avrc_Tg_Deinit),
      bt_tolerant env (\<lambda>_. A2d_Source_Deinit),
      bt_when (\<lambda>s. be_bluedroid env (bt_trace s) = ESP_BLUEDROID_STATUS_ENABLED)
        [bt_strict env (\<lambda>_. Bluedroid_Disable)],
      bt_when (\<lambda>s. be_bluedroid env (bt_trace s) \<noteq> ESP_BLUEDROID_STATUS_UNINITIALIZED)
        [bt_strict env (\<lambda>_. Bluedroid_Deinit)],
      bt_when (\<lambda>s. be_controller env (bt_trace s) = ESP_BT_CONTROLLER_STATUS_ENABLED)
        [bt_strict env (\<lambda>_. Controller_Disable)],
      bt_when (\<lambda>s. be_controller env (bt_trace s) = ESP_BT_CONTROLLER_STATUS_INITED)
        [bt_strict env (\<lambda>_. Controller_Deinit)]]"

text \<open>What is cleared at the end; the registered callbacks, the provider of samples and a
  pending confirmation are not.\<close>

definition bt_svc_forget :: "bt_state \<Rightarrow> bt_state" where
  "bt_svc_forget s = (bt_svc_spp_reset_link_state (s\<lparr>bt_cmd_queue := None, bt_initialised := False,
      bt_pair_request_pending := False, bt_discovery_running := False, bt_a2dp_connected := False,
      bt_connected_bda := zero_bda, bt_avrc_tl := 0, bt_avrc_rn_vol_registered := False,
      bt_avrc_ct_vol_registered := False\<rparr>))
     \<lparr>bt_spp_gatts_if := ESP_GATT_IF_NONE, bt_spp_handle_table := replicate BT_SVC_BLE_SPP_IDX_NB 0,
      bt_discovered := []\<rparr>"

definition bluetooth_service_shutdown ::
    "bt_env \<Rightarrow> bt_schedule \<Rightarrow> bt_schedule \<Rightarrow> bt_stack_event list \<Rightarrow> bt_state \<Rightarrow> esp_err \<times> bt_state" where
  "bluetooth_service_shutdown env a2dp_polls spp_polls last_events s =
     (if \<not> bt_initialised s then (ESP_OK, s)
      else case bt_seq (bt_svc_shutdown_steps env a2dp_polls spp_polls last_events) s of
        (err, s1) \<Rightarrow> if err \<noteq> ESP_OK then (err, s1) else (ESP_OK, bt_svc_forget s1))"

text \<open>The endpoint of 48 kHz, stereo, registered with the stack.\<close>

record sbc_info =
  sbc_samp_freq :: u8
  sbc_ch_mode :: u8
  sbc_block_len :: u8
  sbc_num_subbands :: u8
  sbc_alloc_mthd :: u8
  sbc_min_bitpool :: u8
  sbc_max_bitpool :: u8

definition bt_svc_48k_sbc :: sbc_info where
  "bt_svc_48k_sbc = \<lparr>sbc_samp_freq = 0x1, sbc_ch_mode = 0x2, sbc_block_len = 0x1, sbc_num_subbands = 0x1,
     sbc_alloc_mthd = 0x1, sbc_min_bitpool = 2, sbc_max_bitpool = 53\<rparr>"

definition bluetooth_service_register_48k_sbc_endpoint :: "(nat \<Rightarrow> sbc_info \<Rightarrow> esp_err) \<Rightarrow> esp_err" where
  "bluetooth_service_register_48k_sbc_endpoint esp_a2d_source_register_stream_endpoint =
     esp_a2d_source_register_stream_endpoint 0 bt_svc_48k_sbc"

end
