(* ===== verification/Hid.thy ===== *)
theory Hid
  imports Power_Mgmt
begin

text \<open>
  Buttons and light: \<^verbatim>\<open>main/hid_service.c\<close> and the program of the low-power processor,
  \<^verbatim>\<open>main/ulp/ulp_hid.S\<close>, which samples the two resistor ladders of the buttons every 10 ms, debounces
  them and wakes the service when a state is new. The service posts an event for each button that changed
  and drives one LED, whose power rail it requests from the power service only while the LED is lit.
\<close>

section \<open>Sampling and debouncing\<close>

text \<open>The readings of a ladder (the mean of 16 conversions of 12 bits) that stand for a set of pressed
  buttons, a bit each; a reading between two windows, or below all, stands for none.\<close>

definition btn_windows :: "(nat \<times> nat \<times> u16) list" where
  "btn_windows = [(1343, 1443, 0), (1477, 1577, 1), (1664, 1764, 2), (1861, 1961, 3), (2275, 2375, 4),
     (2640, 2740, 5), (3265, 3365, 6)]"

definition btn_123_low :: nat where "btn_123_low = 4045"

fun ulp_classify_in :: "(nat \<times> nat \<times> u16) list \<Rightarrow> nat \<Rightarrow> u16 option" where
  "ulp_classify_in [] raw = (if raw < btn_123_low then None else Some 7)"
| "ulp_classify_in ((low, high, btn) # ws) raw =
     (if raw < low then None else if raw > high then ulp_classify_in ws raw else Some btn)"

definition ulp_classify :: "nat \<Rightarrow> u16 option" where "ulp_classify raw = ulp_classify_in btn_windows raw"

text \<open>The variables shared with the service; of each word the lower 16 bits count.\<close>

record ulp_state =
  ulp_main_stable :: u16
  ulp_main_counter :: u16
  ulp_misc_stable :: u16
  ulp_misc_counter :: u16
  ulp_debounce_threshold :: u16
  ulp_main_last_raw :: u16
  ulp_misc_last_raw :: u16
  ulp_button_state :: u16
  ulp_button_generation :: u16

text \<open>One ladder: the state it is held to be in and a counter, and whether it changed.\<close>

definition ulp_debounce :: "u16 \<Rightarrow> u16 option \<Rightarrow> u16 \<times> u16 \<Rightarrow> (u16 \<times> u16) \<times> bool" where
  "ulp_debounce threshold btn sc =
     (case sc of (held, counter) \<Rightarrow>
      case btn of None \<Rightarrow> ((held, 0), False)
      | Some b \<Rightarrow>
          if b = held then ((held, 0), False)
          else if counter + 1 = threshold then ((b, 0), True)
          else ((held, counter + 1), False))"

definition ulp_mean :: "nat list \<Rightarrow> nat" where "ulp_mean conversions = sum_list conversions div 16"

text \<open>A run of the program: the conversions of the two ladders, the state and whether it wakes the
  service.\<close>

definition ulp_run_once :: "nat list \<Rightarrow> nat list \<Rightarrow> ulp_state \<Rightarrow> ulp_state \<times> bool" where
  "ulp_run_once main misc u =
     (let main_raw = ulp_mean main;
          misc_raw = ulp_mean misc;
          ((ms, mc), changed1) = ulp_debounce (ulp_debounce_threshold u) (ulp_classify main_raw)
             (ulp_main_stable u, ulp_main_counter u);
          ((ss, sc), changed2) = ulp_debounce (ulp_debounce_threshold u) (ulp_classify misc_raw)
             (ulp_misc_stable u, ulp_misc_counter u);
          u1 = u\<lparr>ulp_main_stable := ms, ulp_main_counter := mc, ulp_misc_stable := ss, ulp_misc_counter := sc,
                 ulp_main_last_raw := of_nat main_raw, ulp_misc_last_raw := of_nat misc_raw,
                 ulp_button_state := ms + (ss + ss + (ss + ss) + (ss + ss + (ss + ss)))\<rparr>
      in if changed1 \<or> changed2 then (u1\<lparr>ulp_button_generation := ulp_button_generation u1 + 1\<rparr>, True)
         else (u1, False))"

section \<open>State of the service\<close>

definition HID_BUTTON_COUNT :: nat where "HID_BUTTON_COUNT = 6"
definition HID_SVC_BUTTON_DEBOUNCE_COUNT :: u16 where "HID_SVC_BUTTON_DEBOUNCE_COUNT = 3"
definition HID_SVC_LED_SETTLE_MS :: nat where "HID_SVC_LED_SETTLE_MS = 5"
definition HID_SVC_SHUTDOWN_PRIORITY :: int where "HID_SVC_SHUTDOWN_PRIORITY = 250"
definition HID_SVC_BUTTON_SAMPLE_PERIOD_US :: nat where "HID_SVC_BUTTON_SAMPLE_PERIOD_US = 10000"

datatype hid_service_event_id = HID_EVENT_BUTTON_DOWN | HID_EVENT_BUTTON_UP

text \<open>Calls into the LED and low-power drivers, and events.\<close>

datatype hid_call =
    Led_New_Device
  | Led_Set_Pixel u8 u8 u8
  | Led_Refresh
  | Led_Clear
  | Led_Delay nat
  | Ulp_Load_Binary
  | Adc_New_Unit
  | Adc_Config_Channel nat
  | Ulp_Set_Wakeup_Period nat
  | Ulp_Isr_Register
  | Ulp_Run
  | Hid_Post hid_service_event_id nat

text \<open>The statics, the two services it works on and what it has done: the calls it made, and each event
  it tried to post, with the button and whether the event loop took it.\<close>

record hid_state =
  hd_service_lock :: bool
  hd_tasks :: nat
  hd_led_strip :: bool
  hd_led_red :: u8
  hd_led_green :: u8
  hd_led_blue :: u8
  hd_led_brightness :: u8
  hd_button_state :: u32
  hd_button_generation :: u32
  hd_initialized :: bool
  hd_led_rail_requested :: bool
  hd_ulp_isr_registered :: bool
  hd_ulp :: ulp_state
  hd_power :: pm_state
  hd_trace :: "hid_call list"
  hd_posts :: "(hid_service_event_id \<times> nat \<times> bool) list"

definition ulp_boot :: ulp_state where
  "ulp_boot = \<lparr>ulp_main_stable = 0, ulp_main_counter = 0, ulp_misc_stable = 0, ulp_misc_counter = 0,
     ulp_debounce_threshold = 0, ulp_main_last_raw = 0, ulp_misc_last_raw = 0, ulp_button_state = 0,
     ulp_button_generation = 0\<rparr>"

definition hid_boot :: "pm_state \<Rightarrow> hid_state" where
  "hid_boot p = \<lparr>hd_service_lock = False, hd_tasks = 0, hd_led_strip = False, hd_led_red = 0, hd_led_green = 0,
     hd_led_blue = 0, hd_led_brightness = 100, hd_button_state = 0, hd_button_generation = 0,
     hd_initialized = False, hd_led_rail_requested = False, hd_ulp_isr_registered = False, hd_ulp = ulp_boot,
     hd_power = p, hd_trace = [], hd_posts = []\<rparr>"

text \<open>What the drivers return (after the calls so far), the pins the power service drives, whether there
  is memory for a lock and a task, and whether a pin can be read in sleep.\<close>

record hid_env =
  he_call :: "hid_call list \<Rightarrow> hid_call \<Rightarrow> esp_err"
  he_power :: pm_hw_env
  he_mutex :: bool
  he_task :: bool
  he_rtc_gpio :: "nat \<Rightarrow> bool"

definition hid_do :: "hid_env \<Rightarrow> hid_call \<Rightarrow> hid_state \<Rightarrow> esp_err \<times> hid_state" where
  "hid_do env call s = (he_call env (hd_trace s) call, s\<lparr>hd_trace := hd_trace s @ [call]\<rparr>)"

text \<open>Calls until one fails.\<close>

fun hid_do_all :: "hid_env \<Rightarrow> hid_call list \<Rightarrow> hid_state \<Rightarrow> esp_err \<times> hid_state" where
  "hid_do_all env [] s = (ESP_OK, s)"
| "hid_do_all env (c # cs) s =
     (case hid_do env c s of (err, s1) \<Rightarrow> if err \<noteq> ESP_OK then (err, s1) else hid_do_all env cs s1)"

section \<open>The LED\<close>

definition POWER_MGMT_RAIL_LED_I :: int where "POWER_MGMT_RAIL_LED_I = 1"

definition led_scaled :: "u8 \<Rightarrow> u8 \<Rightarrow> u8" where
  "led_scaled colour brightness = ucast ((ucast colour * ucast brightness :: u32) div 100)"

definition led_lit :: "hid_state \<Rightarrow> bool" where
  "led_lit s \<longleftrightarrow> hd_led_brightness s > 0 \<and> (hd_led_red s \<noteq> 0 \<or> hd_led_green s \<noteq> 0 \<or> hd_led_blue s \<noteq> 0)"

definition hid_rail :: "(pm_state \<Rightarrow> esp_err \<times> pm_state) \<Rightarrow> hid_state \<Rightarrow> esp_err \<times> hid_state" where
  "hid_rail f s = (case f (hd_power s) of (err, p) \<Rightarrow> (err, s\<lparr>hd_power := p\<rparr>))"

definition hid_led_power_up :: "hid_env \<Rightarrow> hid_state \<Rightarrow> esp_err \<times> hid_state" where
  "hid_led_power_up env s =
     (if hd_led_rail_requested s then (ESP_OK, s)
      else case hid_rail (power_mgmt_service_rail_request (he_power env) POWER_MGMT_RAIL_LED_I) s of (err, s1) \<Rightarrow>
        if err \<noteq> ESP_OK then (err, s1)
        else (ESP_OK, snd (hid_do env (Led_Delay HID_SVC_LED_SETTLE_MS) (s1\<lparr>hd_led_rail_requested := True\<rparr>))))"

definition hid_led_power_down :: "hid_env \<Rightarrow> hid_state \<Rightarrow> esp_err \<times> hid_state" where
  "hid_led_power_down env s =
     (if \<not> hd_led_rail_requested s then (ESP_OK, s)
      else case hid_rail (power_mgmt_service_rail_release (he_power env) POWER_MGMT_RAIL_LED_I) s of (err, s1) \<Rightarrow>
        if err \<noteq> ESP_OK then (err, s1) else (ESP_OK, s1\<lparr>hd_led_rail_requested := False\<rparr>))"

definition hid_service_apply_led_locked :: "hid_env \<Rightarrow> hid_state \<Rightarrow> esp_err \<times> hid_state" where
  "hid_service_apply_led_locked env s =
     (if \<not> hd_led_strip s then (ESP_ERR_INVALID_STATE, s)
      else if led_lit s then
        (case hid_led_power_up env s of (err, s1) \<Rightarrow>
           if err \<noteq> ESP_OK then (err, s1)
           else hid_do_all env [Led_Set_Pixel (led_scaled (hd_led_red s) (hd_led_brightness s))
                                  (led_scaled (hd_led_green s) (hd_led_brightness s))
                                  (led_scaled (hd_led_blue s) (hd_led_brightness s)), Led_Refresh] s1)
      else
        (case hid_do env Led_Clear s of (err, s1) \<Rightarrow>
           if err \<noteq> ESP_OK then (err, s1) else hid_led_power_down env s1))"

definition hid_service_led_set_rgb :: "hid_env \<Rightarrow> u8 \<Rightarrow> u8 \<Rightarrow> u8 \<Rightarrow> hid_state \<Rightarrow> esp_err \<times> hid_state" where
  "hid_service_led_set_rgb env red green blue s =
     (if \<not> hd_initialized s then (ESP_ERR_INVALID_STATE, s)
      else hid_service_apply_led_locked env (s\<lparr>hd_led_red := red, hd_led_green := green, hd_led_blue := blue\<rparr>))"

definition hid_service_led_set_brightness :: "hid_env \<Rightarrow> u8 \<Rightarrow> hid_state \<Rightarrow> esp_err \<times> hid_state" where
  "hid_service_led_set_brightness env percent s =
     (if \<not> hd_initialized s then (ESP_ERR_INVALID_STATE, s)
      else if \<not> percent \<le> 100 then (ESP_ERR_INVALID_ARG, s)
      else hid_service_apply_led_locked env (s\<lparr>hd_led_brightness := percent\<rparr>))"

definition hid_service_led_off :: "hid_env \<Rightarrow> hid_state \<Rightarrow> esp_err \<times> hid_state" where
  "hid_service_led_off env s = hid_service_led_set_rgb env 0 0 0 s"

definition hid_service_shutdown_callback :: "hid_env \<Rightarrow> hid_state \<Rightarrow> esp_err \<times> hid_state" where
  "hid_service_shutdown_callback env s = hid_service_led_off env s"

section \<open>Buttons\<close>

definition hid_service_button_mask :: "nat \<Rightarrow> u32" where
  "hid_service_button_mask button = push_bit button 1"

definition hid_changes :: "u32 \<Rightarrow> u32 \<Rightarrow> (hid_service_event_id \<times> nat) list" where
  "hid_changes changed_mask next_state =
     map (\<lambda>b. (if next_state AND hid_service_button_mask b \<noteq> 0 then HID_EVENT_BUTTON_DOWN else HID_EVENT_BUTTON_UP, b))
       (filter (\<lambda>b. changed_mask AND hid_service_button_mask b \<noteq> 0) [0..<HID_BUTTON_COUNT])"

text \<open>The event loop takes an event or, when its queue stays full for a second, refuses it.\<close>

definition hid_service_post_button_event ::
    "hid_env \<Rightarrow> nat \<Rightarrow> hid_service_event_id \<Rightarrow> hid_state \<Rightarrow> esp_err \<times> hid_state" where
  "hid_service_post_button_event env button event_id s =
     (case hid_do env (Hid_Post event_id button) s of
        (err, s1) \<Rightarrow> (err, s1\<lparr>hd_posts := hd_posts s1 @ [(event_id, button, err = ESP_OK)]\<rparr>))"

text \<open>The loop over the changes. An event that could not be posted is only logged.\<close>

fun hid_post_changes :: "hid_env \<Rightarrow> (hid_service_event_id \<times> nat) list \<Rightarrow> hid_state \<Rightarrow> hid_state" where
  "hid_post_changes env [] s = s"
| "hid_post_changes env ((event_id, button) # changes) s =
     hid_post_changes env changes (snd (hid_service_post_button_event env button event_id s))"

definition hid_service_handle_button_update :: "hid_env \<Rightarrow> hid_state \<Rightarrow> hid_state" where
  "hid_service_handle_button_update env s =
     (let next_generation = (ucast (ulp_button_generation (hd_ulp s)) :: u32);
          next_state = (ucast (ulp_button_state (hd_ulp s)) :: u32) in
      if next_generation = hd_button_generation s then s
      else
        let changed_mask = hd_button_state s XOR next_state in
        hid_post_changes env (hid_changes changed_mask next_state)
          (s\<lparr>hd_button_state := next_state, hd_button_generation := next_generation\<rparr>))"

definition hid_service_get_button_state :: "bool \<Rightarrow> hid_state \<Rightarrow> esp_err \<times> u32 option" where
  "hid_service_get_button_state out s =
     (if \<not> hd_initialized s then (ESP_ERR_INVALID_STATE, None)
      else if \<not> out then (ESP_ERR_INVALID_ARG, None) else (ESP_OK, Some (hd_button_state s)))"

definition hid_service_get_adc_status :: "bool \<Rightarrow> hid_state \<Rightarrow> esp_err \<times> (u16 \<times> u16) option" where
  "hid_service_get_adc_status out s =
     (if \<not> hd_initialized s then (ESP_ERR_INVALID_STATE, None)
      else if \<not> out then (ESP_ERR_INVALID_ARG, None)
      else (ESP_OK, Some (ulp_main_last_raw (hd_ulp s), ulp_misc_last_raw (hd_ulp s))))"

section \<open>Start\<close>

definition HAL_MAIN_BTN_PIN :: nat where "HAL_MAIN_BTN_PIN = 35"
definition HAL_MISC_BTN_PIN :: nat where "HAL_MISC_BTN_PIN = 34"

definition hid_service_init_led_strip :: "hid_env \<Rightarrow> hid_state \<Rightarrow> esp_err \<times> hid_state" where
  "hid_service_init_led_strip env s =
     (case hid_do env Led_New_Device s of (err, s1) \<Rightarrow>
        if err \<noteq> ESP_OK then (err, s1) else hid_do env Led_Clear (s1\<lparr>hd_led_strip := True\<rparr>))"

definition hid_service_init_buttons :: "hid_env \<Rightarrow> hid_state \<Rightarrow> esp_err \<times> hid_state" where
  "hid_service_init_buttons env s =
     (if \<not> he_rtc_gpio env HAL_MAIN_BTN_PIN \<or> \<not> he_rtc_gpio env HAL_MISC_BTN_PIN then (ESP_ERR_INVALID_ARG, s)
      else case hid_do_all env [Ulp_Load_Binary, Adc_New_Unit, Adc_Config_Channel 7, Adc_Config_Channel 6] s of (err, s1) \<Rightarrow>
        if err \<noteq> ESP_OK then (err, s1)
        else
          let u = ulp_boot\<lparr>ulp_debounce_threshold := HID_SVC_BUTTON_DEBOUNCE_COUNT\<rparr> in
          case hid_do_all env [Ulp_Set_Wakeup_Period HID_SVC_BUTTON_SAMPLE_PERIOD_US, Ulp_Isr_Register] (s1\<lparr>hd_ulp := u\<rparr>) of
            (err2, s2) \<Rightarrow>
              if err2 \<noteq> ESP_OK then (err2, s2) else hid_do env Ulp_Run (s2\<lparr>hd_ulp_isr_registered := True\<rparr>))"

text \<open>The callback registered with the power service is known by the number given.\<close>

definition hid_service_init :: "hid_env \<Rightarrow> nat \<Rightarrow> hid_state \<Rightarrow> esp_err \<times> hid_state" where
  "hid_service_init env callback s =
     (if hd_initialized s then (ESP_OK, s)
      else if \<not> he_mutex env then (ESP_ERR_NO_MEM, s\<lparr>hd_service_lock := False\<rparr>)
      else if \<not> he_task env then (ESP_ERR_NO_MEM, s\<lparr>hd_service_lock := False\<rparr>)
      else case hid_service_init_led_strip env (s\<lparr>hd_service_lock := True, hd_tasks := hd_tasks s + 1\<rparr>) of (err, s1) \<Rightarrow>
        if err \<noteq> ESP_OK then (err, s1)
        else case hid_service_init_buttons env s1 of (err2, s2) \<Rightarrow>
          if err2 \<noteq> ESP_OK then (err2, s2)
          else case hid_rail (power_mgmt_service_register_shutdown_callback (Some callback) 0 HID_SVC_SHUTDOWN_PRIORITY) s2 of
            (err3, s3) \<Rightarrow> if err3 \<noteq> ESP_OK then (err3, s3) else (ESP_OK, s3\<lparr>hd_initialized := True\<rparr>))"

end
