(* ===== verification/Script.thy ===== *)
theory Script
  imports Player Wifi Hid
begin

text \<open>
  The files of the script service, \<^verbatim>\<open>main/script_service.c\<close>: how the name a caller gives is turned into
  the path of a script and of its log, the copy of the arguments, loading a script, the message and output
  of a run, and the log, which is cut to its size when a run ends. Strings are the bytes before their NUL.
  The file system is a map from paths; what its calls do beyond that is given by the environment.
\<close>

section \<open>Sizes and names\<close>

definition SCRIPT_SERVICE_MAX_PATH_LEN :: nat where "SCRIPT_SERVICE_MAX_PATH_LEN = 256"
definition SCRIPT_SERVICE_MAX_MESSAGE_LEN :: nat where "SCRIPT_SERVICE_MAX_MESSAGE_LEN = 160"
definition SCRIPT_SERVICE_MAX_OUTPUT_LEN :: nat where "SCRIPT_SERVICE_MAX_OUTPUT_LEN = 2048"
definition SCRIPT_SERVICE_LOG_MAX_SIZE :: nat where "SCRIPT_SERVICE_LOG_MAX_SIZE = 32 * 1024"
definition SCRIPT_SERVICE_MAX_SCRIPT_SIZE :: nat where "SCRIPT_SERVICE_MAX_SCRIPT_SIZE = 512 * 1024"
definition SCRIPT_SERVICE_MAX_ARGC :: nat where "SCRIPT_SERVICE_MAX_ARGC = 32"
definition SCRIPT_SERVICE_MAX_ARG_LEN :: nat where "SCRIPT_SERVICE_MAX_ARG_LEN = 256"
definition SCRIPT_SERVICE_MAX_ARG_STORAGE_BYTES :: nat where
  "SCRIPT_SERVICE_MAX_ARG_STORAGE_BYTES = (SCRIPT_SERVICE_MAX_ARGC + 1) * (SCRIPT_SERVICE_MAX_ARG_LEN + 1)"
definition SCRIPT_SERVICE_MAX_PRINTF_CAPTURE_LEN :: nat where "SCRIPT_SERVICE_MAX_PRINTF_CAPTURE_LEN = 512"

definition SCRIPT_LFS_ROOT_PATH :: bytes where "SCRIPT_LFS_ROOT_PATH = string_bytes ''/lfs/scripts''"
definition SCRIPT_LOG_ROOT_PATH :: bytes where "SCRIPT_LOG_ROOT_PATH = string_bytes ''/tmp/script-logs''"
definition SCRIPT_CWASM_EXTENSION :: bytes where "SCRIPT_CWASM_EXTENSION = string_bytes ''.cwasm''"

definition SLASH :: u8 where "SLASH = 47"
definition BACKSLASH :: u8 where "BACKSLASH = 92"
definition DOT :: u8 where "DOT = 46"
definition NEWLINE :: u8 where "NEWLINE = 10"

text \<open>The result of a run; its mode is always the one there is.\<close>

record script_service_run_result =
  rr_run_id :: u32
  rr_resolved_path :: bytes
  rr_message :: bytes
  rr_output :: bytes
  rr_script_size_bytes :: u32
  rr_exit_code :: u32

definition script_init_result :: script_service_run_result where
  "script_init_result = \<lparr>rr_run_id = 0, rr_resolved_path = [], rr_message = [], rr_output = [],
     rr_script_size_bytes = 0, rr_exit_code = -1\<rparr>"

text \<open>A message is cut to its field.\<close>

definition script_set_result_message :: "bytes \<Rightarrow> script_service_run_result \<Rightarrow> script_service_run_result" where
  "script_set_result_message msg r = r\<lparr>rr_message := take (SCRIPT_SERVICE_MAX_MESSAGE_LEN - 1) msg\<rparr>"

definition script_append_result_output :: "bytes \<Rightarrow> script_service_run_result \<Rightarrow> script_service_run_result" where
  "script_append_result_output data r =
     (let current_len = length (rr_output r) in
      if data = [] \<or> current_len \<ge> SCRIPT_SERVICE_MAX_OUTPUT_LEN - 1 then r
      else r\<lparr>rr_output := rr_output r @ take (SCRIPT_SERVICE_MAX_OUTPUT_LEN - 1 - current_len) data\<rparr>)"

definition script_append_output :: "bytes \<Rightarrow> script_service_run_result \<Rightarrow> script_service_run_result" where
  "script_append_output str r = script_append_result_output str r"

section \<open>Paths\<close>

text \<open>The position of the last occurrence of a character.\<close>

definition c_strrchr :: "u8 \<Rightarrow> bytes \<Rightarrow> nat option" where
  "c_strrchr c s = (if c \<in> set s then Some (length s - 1 - length (takeWhile (\<lambda>x. x \<noteq> c) (rev s))) else None)"

text \<open>\<^verbatim>\<open>snprintf\<close> into a buffer: refused when empty or not all of it fits with its NUL.\<close>

definition fits_buffer :: "nat \<Rightarrow> bytes \<Rightarrow> bytes option" where
  "fits_buffer n s = (if s = [] \<or> length s \<ge> n then None else Some s)"

datatype fs_node = Fs_File bytes | Fs_Dir

type_synonym script_fs = "bytes \<Rightarrow> fs_node option"

definition script_is_regular_file :: "bytes \<Rightarrow> script_fs \<Rightarrow> bool" where
  "script_is_regular_file path fs = (case fs path of Some (Fs_File b) \<Rightarrow> True | _ \<Rightarrow> False)"

definition script_has_extension :: "bytes \<Rightarrow> bool" where
  "script_has_extension path =
     (case c_strrchr DOT path of None \<Rightarrow> False
      | Some dot \<Rightarrow> (case c_strrchr SLASH path of None \<Rightarrow> True | Some slash \<Rightarrow> dot > slash))"

definition script_is_name_char :: "u8 \<Rightarrow> bool" where
  "script_is_name_char ch \<longleftrightarrow> (ch \<ge> 97 \<and> ch \<le> 122) \<or> (ch \<ge> 65 \<and> ch \<le> 90) \<or> (ch \<ge> 48 \<and> ch \<le> 57) \<or> ch = 95 \<or> ch = 45"

definition script_is_supported_extension :: "bytes \<Rightarrow> bool" where
  "script_is_supported_extension extension \<longleftrightarrow>
     (if extension = string_bytes ''.wasm'' \<or> extension = SCRIPT_CWASM_EXTENSION then True
      else extension = string_bytes ''.aot'')"

text \<open>The name and the extension, its dot included, of a script given to be stored in so many bytes.\<close>

definition script_parse_name :: "bytes option \<Rightarrow> nat \<Rightarrow> esp_err + bytes \<times> bytes option" where
  "script_parse_name input script_name_size =
     (case input of None \<Rightarrow> Inl ESP_ERR_INVALID_ARG
      | Some s \<Rightarrow>
          if s = [] then Inl ESP_ERR_INVALID_ARG
          else if SLASH \<in> set s \<or> BACKSLASH \<in> set s then Inl ESP_ERR_INVALID_ARG
          else if s = [DOT] \<or> s = [DOT, DOT] then Inl ESP_ERR_INVALID_ARG
          else
            let extension = map_option (\<lambda>i. drop i s) (c_strrchr DOT s);
                name_len = (case c_strrchr DOT s of None \<Rightarrow> length s | Some i \<Rightarrow> i);
                script_name = take name_len s
            in if name_len = 0 \<or> name_len + 1 > script_name_size then Inl ESP_ERR_INVALID_ARG
               else if \<not> list_all script_is_name_char script_name then Inl ESP_ERR_INVALID_ARG
               else (case extension of None \<Rightarrow> Inr (script_name, None)
                     | Some e \<Rightarrow> if \<not> script_is_supported_extension e then Inl ESP_ERR_INVALID_ARG
                                 else Inr (script_name, Some e)))"

definition script_service_get_root_path :: bytes where
  "script_service_get_root_path = SCRIPT_LFS_ROOT_PATH"

definition script_build_script_directory :: "bytes option \<Rightarrow> nat \<Rightarrow> esp_err + bytes" where
  "script_build_script_directory name out_path_size =
     (case script_parse_name name SCRIPT_SERVICE_MAX_PATH_LEN of Inl err \<Rightarrow> Inl err
      | Inr (script_name, extension) \<Rightarrow>
          (case fits_buffer out_path_size (script_service_get_root_path @ [SLASH] @ script_name) of
             None \<Rightarrow> Inl ESP_ERR_INVALID_SIZE | Some p \<Rightarrow> Inr p))"

text \<open>The path to look for, and whether the name had an extension.\<close>

definition script_build_resolve_base_path :: "bytes option \<Rightarrow> nat \<Rightarrow> esp_err + bytes \<times> bool" where
  "script_build_resolve_base_path name out_path_size =
     (case script_parse_name name SCRIPT_SERVICE_MAX_PATH_LEN of Inl err \<Rightarrow> Inl err
      | Inr (script_name, extension) \<Rightarrow>
          (case fits_buffer out_path_size (script_service_get_root_path @ [SLASH] @ script_name @ [SLASH] @ script_name @
                  (case extension of None \<Rightarrow> [] | Some e \<Rightarrow> e)) of
             None \<Rightarrow> Inl ESP_ERR_INVALID_SIZE | Some p \<Rightarrow> Inr (p, extension \<noteq> None)))"

definition script_copy_candidate :: "bytes \<Rightarrow> nat \<Rightarrow> script_fs \<Rightarrow> bytes option" where
  "script_copy_candidate candidate out_path_size fs =
     (if \<not> script_is_regular_file candidate fs then None
      else if length candidate + 1 > out_path_size then None
      else Some candidate)"

definition script_try_variant :: "bytes \<Rightarrow> bytes \<Rightarrow> nat \<Rightarrow> script_fs \<Rightarrow> bytes option" where
  "script_try_variant base_path extension out_path_size fs =
     (case fits_buffer SCRIPT_SERVICE_MAX_PATH_LEN (base_path @ extension) of None \<Rightarrow> None
      | Some candidate \<Rightarrow> script_copy_candidate candidate out_path_size fs)"

definition script_try_path_variants :: "bytes \<Rightarrow> nat \<Rightarrow> script_fs \<Rightarrow> bytes option" where
  "script_try_path_variants base_path out_path_size fs =
     (case script_copy_candidate base_path out_path_size fs of Some p \<Rightarrow> Some p
      | None \<Rightarrow>
          if script_has_extension base_path then None
          else case script_try_variant base_path (string_bytes ''.wasm'') out_path_size fs of Some p \<Rightarrow> Some p
          | None \<Rightarrow> (case script_try_variant base_path SCRIPT_CWASM_EXTENSION out_path_size fs of Some p \<Rightarrow> Some p
             | None \<Rightarrow> script_try_variant base_path (string_bytes ''.aot'') out_path_size fs))"

definition script_service_resolve_path :: "bytes option \<Rightarrow> nat \<Rightarrow> script_fs \<Rightarrow> esp_err + bytes" where
  "script_service_resolve_path path out_path_size fs =
     (if path = None \<or> path = Some [] \<or> out_path_size = 0 then Inl ESP_ERR_INVALID_ARG
      else case script_build_resolve_base_path path SCRIPT_SERVICE_MAX_PATH_LEN of Inl err \<Rightarrow> Inl err
      | Inr (candidate, has_extension) \<Rightarrow>
          (case (if has_extension then script_copy_candidate candidate out_path_size fs
                 else script_try_path_variants candidate out_path_size fs) of
             None \<Rightarrow> Inl ESP_ERR_NOT_FOUND | Some p \<Rightarrow> Inr p))"

definition script_build_log_path_from_resolved_path :: "bytes option \<Rightarrow> nat \<Rightarrow> esp_err + bytes" where
  "script_build_log_path_from_resolved_path resolved_path out_path_size =
     (case resolved_path of None \<Rightarrow> Inl ESP_ERR_INVALID_ARG
      | Some p \<Rightarrow>
          if p = [] \<or> out_path_size = 0 then Inl ESP_ERR_INVALID_ARG
          else
            let filename = (case c_strrchr SLASH p of None \<Rightarrow> p | Some i \<Rightarrow> drop (i + 1) p) in
            if filename = [] then Inl ESP_ERR_INVALID_ARG
            else (case fits_buffer out_path_size (SCRIPT_LOG_ROOT_PATH @ [SLASH] @ filename @ string_bytes ''.log'') of
                    None \<Rightarrow> Inl ESP_ERR_INVALID_SIZE | Some q \<Rightarrow> Inr q))"

definition script_service_get_log_path :: "bytes option \<Rightarrow> nat \<Rightarrow> script_fs \<Rightarrow> esp_err + bytes" where
  "script_service_get_log_path path out_path_size fs =
     (if path = None \<or> out_path_size = 0 then Inl ESP_ERR_INVALID_ARG
      else case script_service_resolve_path path SCRIPT_SERVICE_MAX_PATH_LEN fs of Inl err \<Rightarrow> Inl err
      | Inr resolved \<Rightarrow> script_build_log_path_from_resolved_path (Some resolved) out_path_size)"

definition script_service_get_script_directory :: "bytes option \<Rightarrow> nat \<Rightarrow> esp_err + bytes" where
  "script_service_get_script_directory name out_path_size = script_build_script_directory name out_path_size"

definition script_ensure_directory :: "bytes \<Rightarrow> bool \<Rightarrow> script_fs \<Rightarrow> script_fs" where
  "script_ensure_directory path mkdir_ok fs =
     (if fs path \<noteq> None then fs else if mkdir_ok then fs(path \<mapsto> Fs_Dir) else fs)"

section \<open>Arguments\<close>

text \<open>An argument that is no string is an empty one. The result is the number of bytes of the copy, or
  why there is none; arguments are counted from 0.\<close>

fun script_check_args :: "nat \<Rightarrow> nat \<Rightarrow> bytes option list \<Rightarrow> bytes + nat" where
  "script_check_args index total_bytes [] = Inr total_bytes"
| "script_check_args index total_bytes (arg # args) =
     (let arg_len = length (case arg of None \<Rightarrow> [] | Some a \<Rightarrow> a) in
      if arg_len \<ge> SCRIPT_SERVICE_MAX_ARG_LEN
      then Inl (string_bytes (''script argument '' @ dec_digits index @ '' exceeds max length (255)''))
      else if total_bytes + arg_len + 1 > SCRIPT_SERVICE_MAX_ARG_STORAGE_BYTES
      then Inl (string_bytes ''script arguments exceed max storage (8481 bytes)'')
      else script_check_args (Suc index) (total_bytes + arg_len + 1) args)"

definition script_duplicate_argv ::
    "bool \<Rightarrow> bytes \<Rightarrow> int \<Rightarrow> bytes option list option \<Rightarrow> script_service_run_result \<Rightarrow>
     bytes list option \<times> script_service_run_result" where
  "script_duplicate_argv malloc_ok program_path argc argv result =
     (let effective = (if program_path = [] then string_bytes ''script'' else program_path);
          refuse = (\<lambda>msg. (None, script_set_result_message (string_bytes msg) result)) in
      if argc < 0 \<or> argc > int SCRIPT_SERVICE_MAX_ARGC then refuse ''too many script arguments (max 32)''
      else if argc > 0 \<and> argv = None then refuse ''missing script arguments''
      else if length effective \<ge> SCRIPT_SERVICE_MAX_ARG_LEN then refuse ''script path exceeds max length (255)''
      else
        let args = (case argv of None \<Rightarrow> [] | Some as \<Rightarrow> take (nat argc) as) in
        case script_check_args 0 (length effective + 1) args of
          Inl msg \<Rightarrow> (None, script_set_result_message msg result)
        | Inr total_bytes \<Rightarrow>
            if \<not> malloc_ok then (None, result)
            else (Some (effective # map (\<lambda>a. case a of None \<Rightarrow> [] | Some str \<Rightarrow> str) args), result))"

text \<open>The block the arguments are given to a script in: a table of their addresses in the script's
  memory, a zero, and the strings with their NULs. Addresses count from the block's own.\<close>

fun argv_offsets :: "u32 \<Rightarrow> bytes list \<Rightarrow> u32 list" where
  "argv_offsets next [] = []"
| "argv_offsets next (a # as) = next # argv_offsets (next + of_nat (length a + 1)) as"

definition argv_strings :: "bytes list \<Rightarrow> bytes" where
  "argv_strings argv = concat (map (\<lambda>a. a @ [0]) argv)"

definition script_prepare_builtin_argv :: "u32 \<Rightarrow> bytes list \<Rightarrow> bytes" where
  "script_prepare_builtin_argv argv_offset argv =
     concat (map u32_bytes (argv_offsets (argv_offset + of_nat (4 * (length argv + 1))) argv)) @ u32_bytes 0 @
     argv_strings argv"

section \<open>Loading\<close>

record script_load_env =
  le_open :: bool
  le_seek_end :: bool
  le_tell :: "int option"
  le_rewind :: bool
  le_alloc :: bool
  le_short_read :: bool

text \<open>The bytes of a file, or a message why there are none; the size the file says it has is that of its
  contents unless the environment gives another.\<close>

definition script_load_file ::
    "script_load_env \<Rightarrow> bytes \<Rightarrow> script_fs \<Rightarrow> script_service_run_result \<Rightarrow> bytes option \<times> script_service_run_result" where
  "script_load_file env path fs result =
     (let fail = (\<lambda>msg. (None, script_set_result_message msg result)) in
      case (if le_open env then fs path else None) of
        Some (Fs_File content) \<Rightarrow>
          let file_size = (case le_tell env of None \<Rightarrow> int (length content) | Some n \<Rightarrow> n) in
          if \<not> le_seek_end env then fail (string_bytes ''cannot seek '' @ path)
          else if file_size \<le> 0 \<or> file_size > int (unat UINT32_MAX) then fail (string_bytes ''invalid script size for '' @ path)
          else if nat file_size > SCRIPT_SERVICE_MAX_SCRIPT_SIZE
          then fail (string_bytes ''script exceeds max size (524288 bytes)'')
          else if \<not> le_rewind env then fail (string_bytes ''cannot rewind '' @ path)
          else if \<not> le_alloc env then fail (string_bytes ''out of memory loading '' @ path)
          else if le_short_read env \<or> length content < nat file_size then fail (string_bytes ''failed to read '' @ path)
          else (Some (take (nat file_size) content), result\<lparr>rr_script_size_bytes := of_nat (nat file_size)\<rparr>)
      | _ \<Rightarrow> fail (string_bytes ''cannot open '' @ path))"

section \<open>The log\<close>

text \<open>What the calls on the log's file do: whether each succeeds, and how much of a write is done.\<close>

record script_trim_env =
  te_seek_end :: bool
  te_seek_tail :: bool
  te_read :: "nat \<Rightarrow> nat option"
  te_seek_start :: bool
  te_write :: "nat \<Rightarrow> nat"
  te_truncate :: bool
  te_seek_back :: bool

text \<open>A file longer than its limit is left with its last part, from after the first newline of the last
  32 KiB if they have one. The result is the file; a failure leaves it as far as it was changed.\<close>

definition trim_keep :: "nat \<Rightarrow> bytes \<Rightarrow> nat" where
  "trim_keep read_offset buf =
     (if read_offset > 0 \<and> NEWLINE \<in> set buf then length (takeWhile (\<lambda>c. c \<noteq> NEWLINE) buf) + 1 else 0)"

definition script_trim_log_fd :: "script_trim_env \<Rightarrow> bytes \<Rightarrow> esp_err \<times> bytes" where
  "script_trim_log_fd env log =
     (if \<not> te_seek_end env then (ESP_FAIL, log)
      else if length log \<le> SCRIPT_SERVICE_LOG_MAX_SIZE then (ESP_OK, log)
      else
        let read_offset = length log - SCRIPT_SERVICE_LOG_MAX_SIZE in
        if \<not> te_seek_tail env then (ESP_FAIL, log)
        else case te_read env SCRIPT_SERVICE_LOG_MAX_SIZE of None \<Rightarrow> (ESP_FAIL, log)
        | Some bytes_read \<Rightarrow>
            let buf = take bytes_read (drop read_offset log);
                keep_offset = trim_keep read_offset buf;
                kept = drop keep_offset buf
            in if \<not> te_seek_start env then (ESP_FAIL, log)
               else if kept \<noteq> [] then
                 let wrote = min (length kept) (te_write env (length kept));
                     log1 = wr_bytes log 0 (take wrote kept)
                 in if wrote \<noteq> length kept then (ESP_FAIL, log1)
                    else if \<not> te_truncate env then (ESP_FAIL, log1)
                    else if \<not> te_seek_back env then (ESP_FAIL, take (length kept) log1)
                    else (ESP_OK, take (length kept) log1)
               else if \<not> te_truncate env then (ESP_FAIL, log)
               else if \<not> te_seek_back env then (ESP_FAIL, [])
               else (ESP_OK, []))"

end
