(* ===== verification/Companion.thy ===== *)
theory Companion
  imports Companion_Codec Play_History Power_Mgmt Lastfm Bluetooth Hid Script
begin

text \<open>
  The companion service, \<^verbatim>\<open>main/companion_api_service.c\<close>: a phone talks to the player over a serial
  Bluetooth link. This theory holds the statics of the service, the trusted clients in NVS, the
  frames it sends, pairing by a button sequence and the challenge that authenticates a client. The
  player with its cartridge and the play history are the models of those services; the other
  services are seen through the values they report (in \<open>co_env\<close>) and the calls made to them,
  which are logged and whose results are given by \<open>ev_call\<close>. NVS is a map from slots to blobs.
\<close>

section \<open>State\<close>

definition COMPANION_API_MAX_TRUSTED_CLIENTS :: nat where "COMPANION_API_MAX_TRUSTED_CLIENTS = 4"
definition COMPANION_API_QUEUE_DEPTH :: nat where "COMPANION_API_QUEUE_DEPTH = 16"
definition COMPANION_API_PAIRING_TIMEOUT_MS :: nat where "COMPANION_API_PAIRING_TIMEOUT_MS = 120000"
definition COMPANION_API_HEARTBEAT_MS :: nat where "COMPANION_API_HEARTBEAT_MS = 5000"
definition COMPANION_API_NVS_RECORD_VERSION :: u32 where "COMPANION_API_NVS_RECORD_VERSION = 1"

text \<open>The calls into the other services.\<close>

datatype co_call =
    Output_Select u32
  | Wifi_Connect bytes bytes
  | Wifi_Scan
  | Wifi_Connect_Slot u8
  | Wifi_Disconnect
  | Wifi_Set_Autoreconnect bool
  | Wifi_Save_Slot u8 bytes bytes
  | Wifi_Reconnect
  | Lastfm_Set_Auth_Url bytes
  | Lastfm_Request_Token
  | Lastfm_Request_Auth bytes bytes
  | Lastfm_Logout
  | Lastfm_Set_Scrobbling bool
  | Lastfm_Set_Now_Playing bool
  | Bt_Connect_Last
  | Bt_Pair_Best
  | Bt_Disconnect_A2dp
  | Bt_Start_Discovery
  | Bt_Unbond bytes
  | Hid_Led_Off
  | Hid_Led_Set_Brightness u8
  | Hid_Led_Set_Rgb u8 u8 u8
  | Script_Start bytes "bytes list"
  | Reboot_Timer bool

text \<open>A file the service reads: what \<^verbatim>\<open>fseek\<close> to the end and \<^verbatim>\<open>ftell\<close> give (\<open>None\<close> when one of them
  fails), whether the seek works, the bytes of the read and whether it sets the error flag.\<close>

record co_file =
  fi_size :: "int option"
  fi_seek_ok :: "nat \<Rightarrow> bool"
  fi_read :: "nat \<Rightarrow> nat \<Rightarrow> bytes"
  fi_error :: bool

record co_env =
  ev_spp_connected :: bool
  ev_notifications :: bool
  ev_mtu :: nat
  ev_max_payload :: nat
  ev_send :: "nat \<Rightarrow> bytes \<Rightarrow> esp_err"
  ev_ticks :: u32
  ev_time :: int
  ev_uptime_ms :: u32
  ev_random :: bytes
  ev_hmac :: "bytes \<Rightarrow> bytes \<Rightarrow> bytes option"
  ev_nvs_open :: "bool \<Rightarrow> esp_err"
  ev_nvs_get :: "nat \<Rightarrow> esp_err"
  ev_nvs_set :: esp_err
  ev_nvs_erase :: "nat \<Rightarrow> esp_err"
  ev_nvs_commit :: esp_err
  ev_call :: "co_call \<Rightarrow> esp_err"
  ev_shuffle :: "nat \<Rightarrow> u32"
  ev_output_target :: u8
  ev_wifi_state :: u8
  ev_wifi_internet :: bool
  ev_wifi_autoreconnect :: bool
  ev_wifi_active_slot :: int
  ev_wifi_preferred_slot :: int
  ev_wifi_ip :: "u32 option"
  ev_wifi_scan :: "esp_err + wifi_ap_record list"
  ev_wifi_slots :: "esp_err + wifi_svc_slot_info list"
  ev_lastfm :: lastfm_service_status
  ev_a2dp_connected :: bool
  ev_bonded_count :: nat
  ev_bonded :: "esp_err + bytes list"
  ev_discovery_running :: bool
  ev_discovery :: "esp_err + bluetooth_service_scan_entry list"
  ev_buttons :: u32
  ev_adc_main :: u32
  ev_adc_misc :: u32
  ev_script_status :: "(u8 \<times> script_service_run_result option \<times> script_service_run_result option) option"
  ev_script_result :: script_service_run_result
  ev_script_root :: "bytes option"
  ev_script_dir :: "bytes \<Rightarrow> bytes option"
  ev_script_log_path :: "bytes \<Rightarrow> bytes option"
  ev_readdir :: "bytes \<Rightarrow> (bytes \<times> (bool \<times> int) option) list option"
  ev_fopen :: "bytes \<Rightarrow> co_file option"

record co_state =
  co_tx_frame :: bool
  co_initialised :: bool
  co_authenticated :: bool
  co_pairing_pending :: bool
  co_auth_challenge_pending :: bool
  co_pairing_progress :: nat
  co_pending_secret :: bytes
  co_pending_sequence :: "nat list"
  co_pending_client_id :: bytes
  co_pending_app_name :: bytes
  co_pending_pair_request_id :: u32
  co_pairing_deadline :: u32
  co_auth_nonce :: bytes
  co_auth_client_id :: bytes
  co_active_client_id :: bytes
  co_event_generation :: u32
  co_rx_frames :: u32
  co_tx_frames :: u32
  co_rx_errors :: u32
  co_dropped_rx_chunks :: u32
  co_trusted_client_count :: u8
  co_nvs :: "nat \<Rightarrow> bytes option"
  co_tx :: "bytes list"
  co_calls :: "co_call list"
  co_player :: pl_state
  co_history :: ph_state

definition co_boot :: "(nat \<Rightarrow> bytes option) \<Rightarrow> pl_state \<Rightarrow> ph_state \<Rightarrow> co_state" where
  "co_boot nvs player history = \<lparr>co_tx_frame = False, co_initialised = False, co_authenticated = False,
     co_pairing_pending = False, co_auth_challenge_pending = False, co_pairing_progress = 0,
     co_pending_secret = replicate COMPANION_API_SECRET_LEN 0, co_pending_sequence = replicate 4 0,
     co_pending_client_id = [], co_pending_app_name = [], co_pending_pair_request_id = 0,
     co_pairing_deadline = 0, co_auth_nonce = replicate COMPANION_API_AUTH_NONCE_LEN 0,
     co_auth_client_id = [], co_active_client_id = [], co_event_generation = 0, co_rx_frames = 0,
     co_tx_frames = 0, co_rx_errors = 0, co_dropped_rx_chunks = 0, co_trusted_client_count = 0,
     co_nvs = nvs, co_tx = [], co_calls = [], co_player = player, co_history = history\<rparr>"

definition companion_api_touch_generation :: "co_state \<Rightarrow> co_state" where
  "companion_api_touch_generation s = s\<lparr>co_event_generation := bump_nonzero (co_event_generation s)\<rparr>"

definition companion_api_unix_time_or_zero :: "co_env \<Rightarrow> u32" where
  "companion_api_unix_time_or_zero env =
     (if ev_time env \<le> 0 \<or> ev_time env > 4294967295 then 0 else word_of_int (ev_time env))"

definition svc_call :: "co_env \<Rightarrow> co_call \<Rightarrow> co_state \<Rightarrow> esp_err \<times> co_state" where
  "svc_call env c s = (ev_call env c, s\<lparr>co_calls := co_calls s @ [c]\<rparr>)"

section \<open>Trusted clients\<close>

record companion_api_trusted_record =
  tr_version :: u32
  tr_valid :: u8
  tr_client_id :: bytes
  tr_app_name :: bytes
  tr_secret :: bytes
  tr_created_at_unix :: u32

definition TRUSTED_RECORD_BYTES :: nat where "TRUSTED_RECORD_BYTES = 116"

definition trusted_wf :: "companion_api_trusted_record \<Rightarrow> bool" where
  "trusted_wf r \<longleftrightarrow> length (tr_client_id r) = 37 \<and> length (tr_app_name r) = 33 \<and> length (tr_secret r) = 32"

definition enc_trusted_record :: "companion_api_trusted_record \<Rightarrow> bytes" where
  "enc_trusted_record r = u32_bytes (tr_version r) @ [tr_valid r, 0, 0, 0] @ tr_client_id r @ tr_app_name r @
     tr_secret r @ [0, 0] @ u32_bytes (tr_created_at_unix r)"

definition dec_trusted_record :: "bytes \<Rightarrow> companion_api_trusted_record" where
  "dec_trusted_record b = \<lparr>tr_version = rd_u32 b 0, tr_valid = b ! 4, tr_client_id = rd_bytes b 8 37,
     tr_app_name = rd_bytes b 45 33, tr_secret = rd_bytes b 78 32, tr_created_at_unix = rd_u32 b 112\<rparr>"

text \<open>The bytes of a zeroed array after a string was copied into it.\<close>

definition c_array :: "nat \<Rightarrow> bytes \<Rightarrow> bytes" where
  "c_array n s = s @ replicate (n - length s) 0"

text \<open>\<^verbatim>\<open>nvs_get_blob\<close> fails for a blob longer than the buffer.\<close>

definition companion_api_load_record ::
    "co_env \<Rightarrow> (nat \<Rightarrow> bytes option) \<Rightarrow> nat \<Rightarrow> esp_err + companion_api_trusted_record" where
  "companion_api_load_record env nvs slot =
     (if slot \<ge> COMPANION_API_MAX_TRUSTED_CLIENTS then Inl ESP_ERR_INVALID_ARG
      else if ev_nvs_open env False \<noteq> ESP_OK then Inl (ev_nvs_open env False)
      else case nvs slot of None \<Rightarrow> Inl ESP_ERR_NVS_NOT_FOUND
      | Some blob \<Rightarrow>
          if ev_nvs_get env slot \<noteq> ESP_OK then Inl (ev_nvs_get env slot)
          else if length blob > TRUSTED_RECORD_BYTES then Inl (ESP_ERR_OTHER 0)
          else
            let record = dec_trusted_record (c_array TRUSTED_RECORD_BYTES blob) in
            if length blob \<noteq> TRUSTED_RECORD_BYTES \<or> tr_version record \<noteq> COMPANION_API_NVS_RECORD_VERSION \<or>
               tr_valid record = 0
            then Inl ESP_ERR_NOT_FOUND
            else Inr (record\<lparr>tr_client_id := (tr_client_id record)[COMPANION_API_CLIENT_ID_MAX_LEN := 0],
                             tr_app_name := (tr_app_name record)[COMPANION_API_APP_NAME_MAX_LEN := 0]\<rparr>))"

definition record_loads :: "co_env \<Rightarrow> (nat \<Rightarrow> bytes option) \<Rightarrow> nat \<Rightarrow> bool" where
  "record_loads env nvs slot = (case companion_api_load_record env nvs slot of Inl _ \<Rightarrow> False | Inr _ \<Rightarrow> True)"

definition companion_api_count_trusted_clients :: "co_env \<Rightarrow> (nat \<Rightarrow> bytes option) \<Rightarrow> nat" where
  "companion_api_count_trusted_clients env nvs =
     length (filter (record_loads env nvs) [0..<COMPANION_API_MAX_TRUSTED_CLIENTS])"

definition record_of_client :: "co_env \<Rightarrow> (nat \<Rightarrow> bytes option) \<Rightarrow> bytes \<Rightarrow> nat \<Rightarrow> bool" where
  "record_of_client env nvs client_id slot =
     (case companion_api_load_record env nvs slot of Inl _ \<Rightarrow> False
      | Inr record \<Rightarrow> cstr (tr_client_id record) = client_id)"

definition companion_api_find_record ::
    "co_env \<Rightarrow> (nat \<Rightarrow> bytes option) \<Rightarrow> bytes \<Rightarrow> esp_err + nat \<times> companion_api_trusted_record" where
  "companion_api_find_record env nvs client_id =
     (if client_id = [] then Inl ESP_ERR_INVALID_ARG
      else case find (record_of_client env nvs client_id) [0..<COMPANION_API_MAX_TRUSTED_CLIENTS] of
        None \<Rightarrow> Inl ESP_ERR_NOT_FOUND
      | Some slot \<Rightarrow> (case companion_api_load_record env nvs slot of Inl err \<Rightarrow> Inl err
                      | Inr record \<Rightarrow> Inr (slot, record)))"

definition recount_trusted :: "co_env \<Rightarrow> co_state \<Rightarrow> co_state" where
  "recount_trusted env s = companion_api_touch_generation
     (s\<lparr>co_trusted_client_count := of_nat (companion_api_count_trusted_clients env (co_nvs s))\<rparr>)"

definition companion_api_store_record ::
    "co_env \<Rightarrow> bytes \<Rightarrow> bytes \<Rightarrow> bytes \<Rightarrow> co_state \<Rightarrow> esp_err \<times> co_state" where
  "companion_api_store_record env client_id app_name secret s =
     (if client_id = [] then (ESP_ERR_INVALID_ARG, s)
      else
        let slot = (case companion_api_find_record env (co_nvs s) client_id of
              Inr (slot, _) \<Rightarrow> Some slot
            | Inl _ \<Rightarrow> find (\<lambda>candidate. \<not> record_loads env (co_nvs s) candidate)
                         [0..<COMPANION_API_MAX_TRUSTED_CLIENTS]) in
        case slot of None \<Rightarrow> (ESP_ERR_NO_MEM, s)
        | Some slot \<Rightarrow>
            let record = \<lparr>tr_version = COMPANION_API_NVS_RECORD_VERSION, tr_valid = 1,
                  tr_client_id = c_array 37 (c_strncpy COMPANION_API_CLIENT_ID_MAX_LEN client_id),
                  tr_app_name = c_array 33 (c_strncpy COMPANION_API_APP_NAME_MAX_LEN app_name),
                  tr_secret = take COMPANION_API_SECRET_LEN secret,
                  tr_created_at_unix = companion_api_unix_time_or_zero env\<rparr> in
            if ev_nvs_open env True \<noteq> ESP_OK then (ev_nvs_open env True, s)
            else if ev_nvs_set env \<noteq> ESP_OK then (ev_nvs_set env, recount_trusted env s)
            else (ev_nvs_commit env, recount_trusted env
                    (s\<lparr>co_nvs := (co_nvs s)(slot \<mapsto> enc_trusted_record record)\<rparr>)))"

definition companion_api_revoke_client_internal :: "co_env \<Rightarrow> bytes \<Rightarrow> co_state \<Rightarrow> esp_err \<times> co_state" where
  "companion_api_revoke_client_internal env client_id s =
     (case companion_api_find_record env (co_nvs s) client_id of Inl _ \<Rightarrow> (ESP_ERR_NOT_FOUND, s)
      | Inr (slot, _) \<Rightarrow>
          if ev_nvs_open env True \<noteq> ESP_OK then (ev_nvs_open env True, s)
          else
            let erased = (if co_nvs s slot = None then ESP_ERR_NVS_NOT_FOUND else ev_nvs_erase env slot);
                s1 = (if erased = ESP_OK then s\<lparr>co_nvs := (co_nvs s)(slot := None)\<rparr> else s);
                err = (if erased = ESP_OK \<or> erased = ESP_ERR_NVS_NOT_FOUND then ev_nvs_commit env else erased);
                s2 = (if err = ESP_OK \<and> co_active_client_id s1 = client_id
                      then s1\<lparr>co_authenticated := False, co_active_client_id := []\<rparr> else s1) in
            (err, recount_trusted env s2))"

text \<open>The loop over the slots stops at the first failing erase.\<close>

fun erase_slots :: "co_env \<Rightarrow> nat list \<Rightarrow> (nat \<Rightarrow> bytes option) \<Rightarrow> esp_err \<times> (nat \<Rightarrow> bytes option)" where
  "erase_slots env [] nvs = (ESP_OK, nvs)"
| "erase_slots env (slot # slots) nvs =
     (if nvs slot = None then erase_slots env slots nvs
      else if ev_nvs_erase env slot = ESP_OK then erase_slots env slots (nvs(slot := None))
      else if ev_nvs_erase env slot = ESP_ERR_NVS_NOT_FOUND then erase_slots env slots nvs
      else (ev_nvs_erase env slot, nvs))"

definition companion_api_revoke_all_internal :: "co_env \<Rightarrow> co_state \<Rightarrow> esp_err \<times> co_state" where
  "companion_api_revoke_all_internal env s =
     (if ev_nvs_open env True \<noteq> ESP_OK then (ev_nvs_open env True, s)
      else
        let (erased, nvs) = erase_slots env [0..<COMPANION_API_MAX_TRUSTED_CLIENTS] (co_nvs s);
            s1 = s\<lparr>co_nvs := nvs\<rparr>;
            err = (if erased = ESP_OK then ev_nvs_commit env else erased) in
        (err, if err = ESP_OK then recount_trusted env (s1\<lparr>co_authenticated := False, co_active_client_id := []\<rparr>)
              else s1))"

section \<open>Sending\<close>

function send_chunks ::
    "(nat \<Rightarrow> bytes \<Rightarrow> esp_err) \<Rightarrow> nat \<Rightarrow> nat \<Rightarrow> bytes \<Rightarrow> esp_err \<times> bytes list" where
  "send_chunks send max_payload k frame =
     (if frame = [] \<or> max_payload = 0 then (ESP_OK, [])
      else
        let chunk = take max_payload frame in
        if send k chunk \<noteq> ESP_OK then (send k chunk, [])
        else let (err, chunks) = send_chunks send max_payload (k + 1) (drop max_payload frame) in
             (err, chunk # chunks))"
  by pat_completeness auto

termination by (relation "measure (\<lambda>(send, max_payload, k, frame). length frame)") auto

declare send_chunks.simps [simp del]

definition companion_api_send_frame ::
    "co_env \<Rightarrow> u8 \<Rightarrow> u16 \<Rightarrow> u32 \<Rightarrow> bytes \<Rightarrow> co_state \<Rightarrow> esp_err \<times> co_state" where
  "companion_api_send_frame env frame_type opcode request_id payload s =
     (if \<not> co_tx_frame s \<or> COMPANION_API_HEADER_LEN + length payload > COMPANION_API_FRAME_MAX_LEN
      then (ESP_ERR_INVALID_SIZE, s)
      else if \<not> ev_spp_connected env \<or> \<not> ev_notifications env then (ESP_ERR_INVALID_STATE, s)
      else if ev_max_payload env = 0 then (ESP_ERR_INVALID_STATE, s)
      else
        let (err, chunks) = send_chunks (ev_send env) (ev_max_payload env) 0
              (companion_frame frame_type opcode request_id payload);
            s1 = s\<lparr>co_tx := co_tx s @ chunks\<rparr> in
        if err \<noteq> ESP_OK then (err, s1) else (ESP_OK, s1\<lparr>co_tx_frames := co_tx_frames s1 + 1\<rparr>))"

definition companion_api_send_error ::
    "co_env \<Rightarrow> u16 \<Rightarrow> u32 \<Rightarrow> companion_api_error \<Rightarrow> co_state \<Rightarrow> esp_err \<times> co_state" where
  "companion_api_send_error env opcode request_id error s =
     companion_api_send_frame env COMPANION_API_FRAME_ERROR opcode request_id
       (append_each [companion_api_append_u16 COMPANION_API_TLV_ERROR_CODE (companion_error_code error),
          companion_api_append_string COMPANION_API_TLV_ERROR_MESSAGE (Some (companion_api_error_name error))]
          companion_api_writer_init) s"

definition companion_api_send_ok ::
    "co_env \<Rightarrow> u16 \<Rightarrow> u32 \<Rightarrow> companion_api_writer \<Rightarrow> co_state \<Rightarrow> esp_err \<times> co_state" where
  "companion_api_send_ok env opcode request_id writer s =
     companion_api_send_frame env COMPANION_API_FRAME_RESPONSE opcode request_id writer s"

section \<open>Pairing\<close>

definition append_pairing_status :: "co_state \<Rightarrow> (companion_api_writer \<Rightarrow> bool \<times> companion_api_writer) list" where
  "append_pairing_status s =
     [companion_api_append_bool COMPANION_API_TLV_PAIRING_PENDING (co_pairing_pending s),
      companion_api_append_u8 COMPANION_API_TLV_PAIRING_PROGRESS (of_nat (co_pairing_progress s)),
      companion_api_append_u8 COMPANION_API_TLV_PAIRING_REQUIRED 4,
      companion_api_append_string COMPANION_API_TLV_CLIENT_ID (Some (co_pending_client_id s)),
      companion_api_append_string COMPANION_API_TLV_APP_NAME (Some (co_pending_app_name s))] @
     (if co_pairing_pending s
      then [companion_api_append_tlv COMPANION_API_TLV_BUTTON_SEQUENCE (map of_nat (co_pending_sequence s))]
      else [])"

definition companion_api_send_pairing_status ::
    "co_env \<Rightarrow> u32 \<Rightarrow> u8 \<Rightarrow> co_state \<Rightarrow> esp_err \<times> co_state" where
  "companion_api_send_pairing_status env request_id frame_type s =
     companion_api_send_frame env frame_type COMPANION_API_OP_PAIR_STATUS request_id
       (append_each (append_pairing_status s) companion_api_writer_init) s"

definition companion_api_clear_pairing :: "co_state \<Rightarrow> co_state" where
  "companion_api_clear_pairing s =
     s\<lparr>co_pairing_pending := False, co_pairing_progress := 0, co_pending_pair_request_id := 0,
       co_pairing_deadline := 0, co_pending_sequence := replicate 4 0, co_pending_client_id := [],
       co_pending_app_name := [], co_pending_secret := replicate COMPANION_API_SECRET_LEN 0\<rparr>"

definition companion_api_complete_pairing :: "co_env \<Rightarrow> co_state \<Rightarrow> esp_err \<times> co_state" where
  "companion_api_complete_pairing env s =
     (if \<not> co_pairing_pending s then (ESP_ERR_INVALID_STATE, s)
      else
        let (err, s1) = companion_api_store_record env (co_pending_client_id s) (co_pending_app_name s)
                          (co_pending_secret s) s in
        if err \<noteq> ESP_OK then (err, s1)
        else
          let s2 = s1\<lparr>co_authenticated := True,
                co_active_client_id := c_strncpy COMPANION_API_CLIENT_ID_MAX_LEN (co_pending_client_id s1)\<rparr>;
              s3 = companion_api_touch_generation (companion_api_clear_pairing s2) in
          (ESP_OK, snd (companion_api_send_pairing_status env 0 COMPANION_API_FRAME_EVENT s3)))"

definition companion_api_apply_pairing_button :: "co_env \<Rightarrow> nat \<Rightarrow> co_state \<Rightarrow> esp_err \<times> co_state" where
  "companion_api_apply_pairing_button env button s =
     (if \<not> co_pairing_pending s \<or> co_pairing_progress s \<ge> 4 then (ESP_ERR_INVALID_STATE, s)
      else if ev_ticks env > co_pairing_deadline s
      then (ESP_ERR_TIMEOUT, companion_api_touch_generation (companion_api_clear_pairing s))
      else if button \<noteq> co_pending_sequence s ! co_pairing_progress s
      then (ESP_ERR_INVALID_ARG, snd (companion_api_send_pairing_status env 0 COMPANION_API_FRAME_EVENT
              (companion_api_touch_generation (s\<lparr>co_pairing_progress := 0\<rparr>))))
      else
        let s1 = companion_api_touch_generation (s\<lparr>co_pairing_progress := co_pairing_progress s + 1\<rparr>) in
        if co_pairing_progress s1 \<ge> 4 then companion_api_complete_pairing env s1
        else (ESP_OK, snd (companion_api_send_pairing_status env 0 COMPANION_API_FRAME_EVENT s1)))"

text \<open>The request of a client that wants to pair. The reads of the four entries are all made
  before the checks, which changes nothing.\<close>

definition companion_api_handle_pair_begin :: "co_env \<Rightarrow> u32 \<Rightarrow> bytes \<Rightarrow> co_state \<Rightarrow> esp_err \<times> co_state" where
  "companion_api_handle_pair_begin env request_id payload s =
     (case (companion_api_tlv_string payload COMPANION_API_TLV_CLIENT_ID (COMPANION_API_CLIENT_ID_MAX_LEN + 1),
            companion_api_tlv_string payload COMPANION_API_TLV_APP_NAME (COMPANION_API_APP_NAME_MAX_LEN + 1),
            companion_api_find_tlv payload COMPANION_API_TLV_SHARED_SECRET,
            companion_api_find_tlv payload COMPANION_API_TLV_BUTTON_SEQUENCE) of
        (Some client_id, Some app_name, Some secret, Some sequence) \<Rightarrow>
          if length secret \<noteq> COMPANION_API_SECRET_LEN \<or> length sequence \<noteq> 4 \<or> client_id = [] \<or>
             list_ex (\<lambda>b. unat b \<ge> HID_BUTTON_COUNT) sequence
          then companion_api_send_error env COMPANION_API_OP_PAIR_BEGIN request_id COMPANION_API_ERR_INVALID_ARG s
          else
            let s1 = (companion_api_clear_pairing s)\<lparr>co_pairing_pending := True, co_pairing_progress := 0,
                  co_pending_pair_request_id := request_id,
                  co_pairing_deadline := ev_ticks env + of_nat (pdMS_TO_TICKS COMPANION_API_PAIRING_TIMEOUT_MS),
                  co_pending_client_id := c_strncpy COMPANION_API_CLIENT_ID_MAX_LEN client_id,
                  co_pending_app_name := c_strncpy COMPANION_API_APP_NAME_MAX_LEN app_name,
                  co_pending_secret := secret, co_pending_sequence := map unat sequence\<rparr> in
            companion_api_send_pairing_status env request_id COMPANION_API_FRAME_RESPONSE
              (companion_api_touch_generation s1)
      | _ \<Rightarrow> companion_api_send_error env COMPANION_API_OP_PAIR_BEGIN request_id COMPANION_API_ERR_INVALID_ARG s)"

section \<open>Authentication\<close>

definition append_auth_status :: "co_state \<Rightarrow> (companion_api_writer \<Rightarrow> bool \<times> companion_api_writer) list" where
  "append_auth_status s =
     [companion_api_append_bool COMPANION_API_TLV_AUTHENTICATED (co_authenticated s),
      companion_api_append_string COMPANION_API_TLV_CLIENT_ID (Some (co_active_client_id s)),
      companion_api_append_u8 COMPANION_API_TLV_TRUSTED_COUNT (co_trusted_client_count s)]"

text \<open>\<^verbatim>\<open>esp_fill_random\<close> fills the nonce.\<close>

definition companion_api_handle_auth_challenge ::
    "co_env \<Rightarrow> u32 \<Rightarrow> bytes \<Rightarrow> co_state \<Rightarrow> esp_err \<times> co_state" where
  "companion_api_handle_auth_challenge env request_id payload s =
     (case companion_api_tlv_string payload COMPANION_API_TLV_CLIENT_ID (COMPANION_API_CLIENT_ID_MAX_LEN + 1) of
        None \<Rightarrow> companion_api_send_error env COMPANION_API_OP_AUTH_CHALLENGE request_id COMPANION_API_ERR_NOT_FOUND s
      | Some client_id \<Rightarrow>
          case companion_api_find_record env (co_nvs s) client_id of
            Inl _ \<Rightarrow> companion_api_send_error env COMPANION_API_OP_AUTH_CHALLENGE request_id COMPANION_API_ERR_NOT_FOUND s
          | Inr _ \<Rightarrow>
              let s1 = s\<lparr>co_auth_nonce := ev_random env,
                         co_auth_client_id := c_strncpy COMPANION_API_CLIENT_ID_MAX_LEN client_id,
                         co_auth_challenge_pending := True\<rparr> in
              companion_api_send_ok env COMPANION_API_OP_AUTH_CHALLENGE request_id
                (append_each [companion_api_append_string COMPANION_API_TLV_CLIENT_ID (Some client_id),
                   companion_api_append_tlv COMPANION_API_TLV_AUTH_NONCE (co_auth_nonce s1)]
                   companion_api_writer_init) s1)"

definition companion_api_hmac_sha256 :: "co_env \<Rightarrow> bytes \<Rightarrow> bytes \<Rightarrow> bytes option" where
  "companion_api_hmac_sha256 env secret data = ev_hmac env secret data"

definition companion_api_handle_auth_proof ::
    "co_env \<Rightarrow> u32 \<Rightarrow> bytes \<Rightarrow> co_state \<Rightarrow> esp_err \<times> co_state" where
  "companion_api_handle_auth_proof env request_id payload s =
     (let refuse = (\<lambda>err. companion_api_send_error env COMPANION_API_OP_AUTH_PROOF request_id err s) in
      if \<not> co_auth_challenge_pending s then refuse COMPANION_API_ERR_INVALID_ARG
      else case companion_api_tlv_string payload COMPANION_API_TLV_CLIENT_ID (COMPANION_API_CLIENT_ID_MAX_LEN + 1) of
        None \<Rightarrow> refuse COMPANION_API_ERR_INVALID_ARG
      | Some client_id \<Rightarrow>
          if client_id \<noteq> co_auth_client_id s then refuse COMPANION_API_ERR_INVALID_ARG
          else case companion_api_find_tlv payload COMPANION_API_TLV_AUTH_HMAC of
            None \<Rightarrow> refuse COMPANION_API_ERR_INVALID_ARG
          | Some provided_hmac \<Rightarrow>
              if length provided_hmac \<noteq> COMPANION_API_HMAC_LEN then refuse COMPANION_API_ERR_INVALID_ARG
              else case companion_api_find_record env (co_nvs s) client_id of
                Inl err \<Rightarrow> refuse (companion_api_error_from_esp err)
              | Inr (_, record) \<Rightarrow>
                  case companion_api_hmac_sha256 env (tr_secret record) (co_auth_nonce s) of
                    None \<Rightarrow> refuse COMPANION_API_ERR_INVALID_ARG
                  | Some expected_hmac \<Rightarrow>
                      if \<not> companion_api_secure_equal expected_hmac provided_hmac
                      then refuse COMPANION_API_ERR_INVALID_ARG
                      else
                        let s1 = companion_api_touch_generation
                              (s\<lparr>co_authenticated := True, co_auth_challenge_pending := False,
                                 co_active_client_id := c_strncpy COMPANION_API_CLIENT_ID_MAX_LEN client_id\<rparr>) in
                        companion_api_send_ok env COMPANION_API_OP_AUTH_PROOF request_id
                          (append_each (append_auth_status s1) companion_api_writer_init) s1)"

definition companion_api_opcode_requires_auth :: "u16 \<Rightarrow> bool" where
  "companion_api_opcode_requires_auth opcode =
     (opcode \<notin> {COMPANION_API_OP_HELLO, COMPANION_API_OP_CAPABILITIES, COMPANION_API_OP_PING,
        COMPANION_API_OP_PAIR_BEGIN, COMPANION_API_OP_PAIR_STATUS, COMPANION_API_OP_PAIR_CANCEL,
        COMPANION_API_OP_AUTH_CHALLENGE, COMPANION_API_OP_AUTH_PROOF})"

definition trusted_entries ::
    "companion_api_trusted_record \<Rightarrow> (companion_api_writer \<Rightarrow> bool \<times> companion_api_writer) list" where
  "trusted_entries record =
     [companion_api_append_string COMPANION_API_TLV_CLIENT_ID (Some (tr_client_id record)),
      companion_api_append_string COMPANION_API_TLV_APP_NAME (Some (tr_app_name record)),
      companion_api_append_u32 COMPANION_API_TLV_CREATED_AT (tr_created_at_unix record)]"

definition companion_api_handle_trusted_list :: "co_env \<Rightarrow> u32 \<Rightarrow> co_state \<Rightarrow> esp_err \<times> co_state" where
  "companion_api_handle_trusted_list env request_id s =
     companion_api_send_ok env COMPANION_API_OP_TRUSTED_LIST request_id
       (append_each
         (companion_api_append_u8 COMPANION_API_TLV_TRUSTED_COUNT
            (of_nat (companion_api_count_trusted_clients env (co_nvs s))) #
          concat (map (\<lambda>slot. case companion_api_load_record env (co_nvs s) slot of Inl _ \<Rightarrow> []
                        | Inr record \<Rightarrow> trusted_entries record) [0..<COMPANION_API_MAX_TRUSTED_CLIENTS]))
         companion_api_writer_init) s"

end
