(* ===== verification/Companion_Requests.thy ===== *)
theory Companion_Requests
  imports Companion
begin

text \<open>
  The requests of an authenticated companion, \<^verbatim>\<open>main/companion_api_service.c\<close>: the status entries,
  one handler per operation code, and the dispatch. A handler that fails answers with an error
  frame; one that changes something counts a new generation and answers with the status.
\<close>

section \<open>Status entries\<close>

primrec playback_mode_code :: "player_service_playback_mode \<Rightarrow> u8" where
  "playback_mode_code PLAYER_SVC_MODE_SEQUENTIAL = 0"
| "playback_mode_code PLAYER_SVC_MODE_SINGLE_REPEAT = 1"
| "playback_mode_code PLAYER_SVC_MODE_SHUFFLE = 2"

definition playback_mode_of :: "u32 \<Rightarrow> player_service_playback_mode option" where
  "playback_mode_of v =
     (if v = 0 then Some PLAYER_SVC_MODE_SEQUENTIAL else if v = 1 then Some PLAYER_SVC_MODE_SINGLE_REPEAT
      else if v = 2 then Some PLAYER_SVC_MODE_SHUFFLE else None)"

primrec cartridge_status_code :: "cartridge_status \<Rightarrow> u8" where
  "cartridge_status_code CARTRIDGE_STATUS_EMPTY = 0"
| "cartridge_status_code CARTRIDGE_STATUS_READY = 1"
| "cartridge_status_code CARTRIDGE_STATUS_INVALID = 2"

type_synonym append_list = "(companion_api_writer \<Rightarrow> bool \<times> companion_api_writer) list"

definition append_playback_status :: "co_env \<Rightarrow> co_state \<Rightarrow> append_list" where
  "append_playback_status env s =
     (case player_service_get_snapshot True (co_player s) of
        (ESP_OK, Some snapshot) \<Rightarrow>
          [companion_api_append_bool COMPANION_API_TLV_PLAYING (sn_is_playing snapshot),
           companion_api_append_bool COMPANION_API_TLV_PAUSED (sn_is_paused snapshot),
           companion_api_append_u32 COMPANION_API_TLV_CARTRIDGE_CHECKSUM (sn_cartridge_checksum snapshot),
           companion_api_append_u32 COMPANION_API_TLV_TRACK_INDEX (sn_track_index snapshot),
           companion_api_append_u32 COMPANION_API_TLV_TRACK_COUNT (sn_track_count snapshot),
           companion_api_append_u32 COMPANION_API_TLV_POSITION_SEC (sn_playback_position_sec snapshot),
           companion_api_append_u32 COMPANION_API_TLV_STARTED_AT (sn_track_started_unix snapshot),
           companion_api_append_u32 COMPANION_API_TLV_DURATION_SEC (sn_track_duration_sec snapshot),
           companion_api_append_u8 COMPANION_API_TLV_VOLUME_PERCENT (of_nat (sn_volume_percent snapshot)),
           companion_api_append_u8 COMPANION_API_TLV_PLAYBACK_MODE (playback_mode_code (sn_playback_mode snapshot)),
           companion_api_append_string COMPANION_API_TLV_TRACK_TITLE (Some (sn_track_title snapshot)),
           companion_api_append_string COMPANION_API_TLV_TRACK_FILE (Some (string_bytes (sn_filename snapshot))),
           companion_api_append_u8 COMPANION_API_TLV_OUTPUT_TARGET (ev_output_target env)]
      | _ \<Rightarrow> [])"

definition append_cartridge_status :: "co_state \<Rightarrow> append_list" where
  "append_cartridge_status s =
     (let c = pl_cart (co_player s) in
      [companion_api_append_u8 COMPANION_API_TLV_CARTRIDGE_STATUS (cartridge_status_code (cartridge_service_get_status c)),
       companion_api_append_bool COMPANION_API_TLV_CARTRIDGE_MOUNTED (cartridge_service_is_mounted c),
       companion_api_append_u32 COMPANION_API_TLV_CARTRIDGE_CHECKSUM (cartridge_service_get_metadata_checksum c),
       companion_api_append_u32 COMPANION_API_TLV_METADATA_VERSION (cartridge_service_get_metadata_version c),
       companion_api_append_u32 COMPANION_API_TLV_TRACK_COUNT (of_nat (cartridge_service_get_metadata_track_count c))])"

definition append_wifi_status :: "co_env \<Rightarrow> append_list" where
  "append_wifi_status env =
     [companion_api_append_u8 COMPANION_API_TLV_WIFI_STATE (ev_wifi_state env),
      companion_api_append_bool COMPANION_API_TLV_WIFI_INTERNET (ev_wifi_internet env),
      companion_api_append_bool COMPANION_API_TLV_WIFI_AUTORECONNECT (ev_wifi_autoreconnect env),
      companion_api_append_u8 COMPANION_API_TLV_WIFI_ACTIVE_SLOT (word_of_int (ev_wifi_active_slot env + 1)),
      companion_api_append_u8 COMPANION_API_TLV_WIFI_PREFERRED_SLOT (word_of_int (ev_wifi_preferred_slot env + 1))] @
     (case ev_wifi_ip env of None \<Rightarrow> []
      | Some ip \<Rightarrow> [companion_api_append_u32 COMPANION_API_TLV_WIFI_IP ip])"

definition append_lastfm_status :: "co_env \<Rightarrow> append_list" where
  "append_lastfm_status env =
     (let status = ev_lastfm env in
      [companion_api_append_bool COMPANION_API_TLV_LASTFM_HAS_AUTH_URL (ls_has_auth_url status),
       companion_api_append_bool COMPANION_API_TLV_LASTFM_HAS_TOKEN (ls_has_token status),
       companion_api_append_bool COMPANION_API_TLV_LASTFM_HAS_SESSION (ls_has_session status),
       companion_api_append_bool COMPANION_API_TLV_LASTFM_BUSY (ls_busy status),
       companion_api_append_bool COMPANION_API_TLV_LASTFM_SCROBBLING (ls_scrobbling_enabled status),
       companion_api_append_bool COMPANION_API_TLV_LASTFM_NOW_PLAYING (ls_now_playing_enabled status),
       companion_api_append_u32 COMPANION_API_TLV_LASTFM_PENDING_COMMANDS (ls_pending_commands status),
       companion_api_append_u32 COMPANION_API_TLV_LASTFM_PENDING_SCROBBLES (ls_pending_scrobbles status),
       companion_api_append_u32 COMPANION_API_TLV_LASTFM_SUCCESSFUL (ls_successful_scrobbles status),
       companion_api_append_u32 COMPANION_API_TLV_LASTFM_FAILED (ls_failed_scrobbles status),
       companion_api_append_string COMPANION_API_TLV_LASTFM_AUTH_URL (Some (ls_auth_url status)),
       companion_api_append_string COMPANION_API_TLV_LASTFM_USERNAME (Some (ls_username status))])"

definition append_history_summary :: "co_state \<Rightarrow> append_list" where
  "append_history_summary s =
     [companion_api_append_u32 COMPANION_API_TLV_HISTORY_ALBUM_COUNT
        (of_nat (play_history_service_get_album_count (co_history s))),
      companion_api_append_u32 COMPANION_API_TLV_HISTORY_TRACK_COUNT
        (of_nat (play_history_service_get_track_count (co_history s)))]"

definition append_bt_audio_status :: "co_env \<Rightarrow> append_list" where
  "append_bt_audio_status env =
     [companion_api_append_bool COMPANION_API_TLV_BT_A2DP_CONNECTED (ev_a2dp_connected env),
      companion_api_append_u32 COMPANION_API_TLV_BT_BONDED_COUNT (of_nat (ev_bonded_count env))]"

definition append_snapshot :: "co_env \<Rightarrow> co_state \<Rightarrow> append_list" where
  "append_snapshot env s =
     [companion_api_append_u32 COMPANION_API_TLV_GENERATION (co_event_generation s),
      companion_api_append_u32 COMPANION_API_TLV_UPTIME_MS (ev_uptime_ms env)] @
     append_auth_status s @ append_pairing_status s @ append_playback_status env s @
     append_cartridge_status s @ append_wifi_status env @ append_lastfm_status env @
     append_history_summary s @ append_bt_audio_status env"

definition reply :: "co_env \<Rightarrow> u16 \<Rightarrow> u32 \<Rightarrow> append_list \<Rightarrow> co_state \<Rightarrow> esp_err \<times> co_state" where
  "reply env opcode request_id entries s =
     companion_api_send_ok env opcode request_id (append_each entries companion_api_writer_init) s"

definition companion_api_handle_capabilities :: "co_env \<Rightarrow> u16 \<Rightarrow> u32 \<Rightarrow> co_state \<Rightarrow> esp_err \<times> co_state" where
  "companion_api_handle_capabilities env opcode request_id s =
     reply env opcode request_id
       ([companion_api_append_u16 COMPANION_API_TLV_PROTOCOL_VERSION (ucast COMPANION_API_VERSION),
         companion_api_append_u16 COMPANION_API_TLV_MAX_FRAME (of_nat COMPANION_API_FRAME_MAX_LEN),
         companion_api_append_u16 COMPANION_API_TLV_MTU (of_nat (ev_mtu env)),
         companion_api_append_u16 COMPANION_API_TLV_MAX_PAYLOAD (of_nat (ev_max_payload env)),
         companion_api_append_u32 COMPANION_API_TLV_FEATURE_BITS 0x7F] @
        append_auth_status s @ append_pairing_status s) s"

definition companion_api_handle_hello :: "co_env \<Rightarrow> u16 \<Rightarrow> u32 \<Rightarrow> co_state \<Rightarrow> esp_err \<times> co_state" where
  "companion_api_handle_hello env opcode request_id s =
     reply env opcode request_id
       ([companion_api_append_string COMPANION_API_TLV_APP_NAME (Some (string_bytes ''Jukeboy firmware'')),
         companion_api_append_u16 COMPANION_API_TLV_PROTOCOL_VERSION (ucast COMPANION_API_VERSION)] @
        append_auth_status s) s"

definition companion_api_handle_snapshot :: "co_env \<Rightarrow> u16 \<Rightarrow> u32 \<Rightarrow> co_state \<Rightarrow> esp_err \<times> co_state" where
  "companion_api_handle_snapshot env opcode request_id s = reply env opcode request_id (append_snapshot env s) s"

definition companion_api_send_snapshot_event :: "co_env \<Rightarrow> u16 \<Rightarrow> co_state \<Rightarrow> esp_err \<times> co_state" where
  "companion_api_send_snapshot_event env opcode s =
     companion_api_send_frame env COMPANION_API_FRAME_EVENT opcode 0
       (append_each (append_snapshot env s) companion_api_writer_init) s"

text \<open>What most handlers end with: an error frame, or a new generation and an answer.\<close>

definition finish ::
    "co_env \<Rightarrow> u16 \<Rightarrow> u32 \<Rightarrow> (co_state \<Rightarrow> append_list) \<Rightarrow> esp_err \<times> co_state \<Rightarrow> esp_err \<times> co_state" where
  "finish env opcode request_id entries r =
     (case r of (err, s) \<Rightarrow>
        if err \<noteq> ESP_OK then companion_api_send_error env opcode request_id (companion_api_error_from_esp err) s
        else let s1 = companion_api_touch_generation s in reply env opcode request_id (entries s1) s1)"

definition status_ok :: append_list where
  "status_ok = [companion_api_append_u16 COMPANION_API_TLV_STATUS (companion_error_code COMPANION_API_ERR_OK)]"

section \<open>Playback\<close>

definition on_player :: "(pl_state \<Rightarrow> esp_err \<times> pl_state) \<Rightarrow> co_state \<Rightarrow> esp_err \<times> co_state" where
  "on_player f s = (case f (co_player s) of (err, p) \<Rightarrow> (err, s\<lparr>co_player := p\<rparr>))"

definition playback_action :: "co_env \<Rightarrow> u8 \<Rightarrow> u32 \<Rightarrow> co_state \<Rightarrow> esp_err \<times> co_state" where
  "playback_action env action value s =
     (if action = 1 then on_player (player_service_request_control PLAYER_SVC_CONTROL_NEXT) s
      else if action = 2 then on_player (player_service_request_control PLAYER_SVC_CONTROL_PREVIOUS) s
      else if action = 3 then on_player (player_service_request_control PLAYER_SVC_CONTROL_PAUSE) s
      else if action = 4 then on_player (player_service_request_control PLAYER_SVC_CONTROL_FAST_FORWARD) s
      else if action = 5 then on_player (player_service_request_control PLAYER_SVC_CONTROL_FAST_BACKWARD) s
      else if action = 6 then on_player (player_service_play_track_by_index value) s
      else if action = 7 then on_player (player_service_seek_to_seconds value) s
      else if action = 8 then
        (if value > 100 then (ESP_ERR_INVALID_ARG, s)
         else (ESP_OK, s\<lparr>co_player := player_service_set_volume_absolute (ucast ((value * 127 + 50) div 100)) (co_player s)\<rparr>))
      else if action = 9 then
        on_player (player_service_set_playback_mode (ev_shuffle env) (playback_mode_of value)) s
      else if action = 10 then svc_call env (Output_Select value) s
      else (ESP_ERR_INVALID_ARG, s))"

definition companion_api_handle_playback_control :: "co_env \<Rightarrow> u32 \<Rightarrow> bytes \<Rightarrow> co_state \<Rightarrow> esp_err \<times> co_state" where
  "companion_api_handle_playback_control env request_id payload s =
     (case companion_api_tlv_u8 payload COMPANION_API_TLV_ACTION of
        None \<Rightarrow> companion_api_send_error env COMPANION_API_OP_PLAYBACK_CONTROL request_id COMPANION_API_ERR_INVALID_ARG s
      | Some action \<Rightarrow>
          let value = (case companion_api_tlv_u32 payload COMPANION_API_TLV_VALUE of None \<Rightarrow> 0 | Some v \<Rightarrow> v) in
          finish env COMPANION_API_OP_PLAYBACK_CONTROL request_id (append_snapshot env) (playback_action env action value s))"

section \<open>Pages\<close>

text \<open>The optional offset and count of a page request.\<close>

definition page_u32 :: "bytes \<Rightarrow> u16 \<Rightarrow> u32 \<Rightarrow> u32" where
  "page_u32 payload type dflt = (case companion_api_tlv_u32 payload type of None \<Rightarrow> dflt | Some v \<Rightarrow> v)"

text \<open>The loop over the items of a page: \<open>entries_of\<close> gives the entries of an item, \<open>None\<close> when it cannot
  be had, and \<open>skip\<close> says whether such an item is skipped or ends the page; an item that does not
  fit ends it. The indices are \<^verbatim>\<open>uint32_t\<close>.\<close>

function page_loop ::
    "(u32 \<Rightarrow> append_list option) \<Rightarrow> bool \<Rightarrow> u32 \<Rightarrow> nat \<Rightarrow> nat \<Rightarrow> nat \<Rightarrow> nat \<Rightarrow> companion_api_writer \<Rightarrow>
     nat \<times> companion_api_writer" where
  "page_loop entries_of skip offset page_count page_total index returned w =
     (if \<not> (index < page_count \<and> unat (offset + of_nat index) < page_total) then (returned, w)
      else case entries_of (offset + of_nat index) of
        None \<Rightarrow> if skip then page_loop entries_of skip offset page_count page_total (index + 1) returned w else (returned, w)
      | Some entries \<Rightarrow>
          let (ok, w') = append_group entries w in
          if ok then page_loop entries_of skip offset page_count page_total (index + 1) (returned + 1) w' else (returned, w'))"
  by pat_completeness auto

termination
  by (relation "measure (\<lambda>(entries_of, skip, offset, page_count, page_total, index, returned, w). page_count - index)") auto

declare page_loop.simps [simp del]

text \<open>A page with its heading and the number of items at the end.\<close>

definition send_page ::
    "co_env \<Rightarrow> u16 \<Rightarrow> u32 \<Rightarrow> append_list \<Rightarrow> (u32 \<Rightarrow> append_list option) \<Rightarrow> bool \<Rightarrow> u32 \<Rightarrow> u32 \<Rightarrow> nat \<Rightarrow>
     co_state \<Rightarrow> esp_err \<times> co_state" where
  "send_page env opcode request_id heading entries_of skip offset page_count page_total s =
     (let (returned, w) = page_loop entries_of skip offset (unat page_count) page_total 0 0
            (append_each heading companion_api_writer_init) in
      companion_api_send_ok env opcode request_id
        (snd (companion_api_append_u32 COMPANION_API_TLV_RETURNED_COUNT (of_nat returned) w)) s)"

definition track_entries :: "player_service_playlist_track_info \<Rightarrow> append_list" where
  "track_entries info =
     [companion_api_append_u32 COMPANION_API_TLV_TRACK_INDEX (of_nat (pi_track_index info)),
      companion_api_append_string COMPANION_API_TLV_TRACK_TITLE (Some (pi_track_title info)),
      companion_api_append_string COMPANION_API_TLV_TRACK_ARTIST (Some (pi_track_artists info)),
      companion_api_append_u32 COMPANION_API_TLV_DURATION_SEC (pi_duration_sec info),
      companion_api_append_u32 COMPANION_API_TLV_TRACK_FILE (pi_file_num info)]"

definition companion_api_handle_track_page :: "co_env \<Rightarrow> u32 \<Rightarrow> bytes \<Rightarrow> co_state \<Rightarrow> esp_err \<times> co_state" where
  "companion_api_handle_track_page env request_id payload s =
     (let offset = page_u32 payload COMPANION_API_TLV_OFFSET 0;
          page_count = min (page_u32 payload COMPANION_API_TLV_COUNT 8) 8;
          page_total = player_service_get_playlist_track_count (co_player s) in
      send_page env COMPANION_API_OP_LIBRARY_TRACK_PAGE request_id
        [companion_api_append_u32 COMPANION_API_TLV_OFFSET offset,
         companion_api_append_u32 COMPANION_API_TLV_TRACK_COUNT page_total]
        (\<lambda>index. case player_service_get_playlist_track_info index True (co_player s) of
           (ESP_OK, Some info) \<Rightarrow> Some (track_entries info) | _ \<Rightarrow> None)
        False offset page_count (unat page_total) s)"

definition album_entries :: "ph_album \<Rightarrow> append_list" where
  "album_entries record =
     [companion_api_append_u32 COMPANION_API_TLV_CARTRIDGE_CHECKSUM (pa_checksum record),
      companion_api_append_u32 COMPANION_API_TLV_TRACK_COUNT (pa_track_count record),
      companion_api_append_u32 COMPANION_API_TLV_HISTORY_FIRST_SEEN (pa_first_seen_sequence record),
      companion_api_append_u32 COMPANION_API_TLV_HISTORY_LAST_SEEN (pa_last_seen_sequence record),
      companion_api_append_string COMPANION_API_TLV_ALBUM_NAME (Some (jh_album_name (pa_metadata record))),
      companion_api_append_string COMPANION_API_TLV_ALBUM_ARTIST (Some (jh_artist (pa_metadata record)))]"

definition companion_api_handle_history_album_page :: "co_env \<Rightarrow> u32 \<Rightarrow> bytes \<Rightarrow> co_state \<Rightarrow> esp_err \<times> co_state" where
  "companion_api_handle_history_album_page env request_id payload s =
     (let offset = page_u32 payload COMPANION_API_TLV_OFFSET 0;
          page_count = min (page_u32 payload COMPANION_API_TLV_COUNT 4) 4;
          page_total = play_history_service_get_album_count (co_history s) in
      send_page env COMPANION_API_OP_HISTORY_ALBUM_PAGE request_id
        [companion_api_append_u32 COMPANION_API_TLV_OFFSET offset,
         companion_api_append_u32 COMPANION_API_TLV_HISTORY_ALBUM_COUNT (of_nat page_total)]
        (\<lambda>index. map_option album_entries
           (play_history_service_get_album_record (unat index) True (co_history s)))
        True offset page_count page_total s)"

definition history_track_entries :: "ph_track \<Rightarrow> append_list" where
  "history_track_entries record =
     [companion_api_append_u32 COMPANION_API_TLV_TRACK_INDEX (pt_track_index record),
      companion_api_append_string COMPANION_API_TLV_TRACK_TITLE (Some (jt_track_name (pt_metadata record))),
      companion_api_append_u32 COMPANION_API_TLV_HISTORY_PLAY_COUNT (pt_play_count record),
      companion_api_append_u32 COMPANION_API_TLV_HISTORY_FIRST_SEEN (pt_first_seen_sequence record),
      companion_api_append_u32 COMPANION_API_TLV_HISTORY_LAST_SEEN (pt_last_seen_sequence record)]"

definition companion_api_handle_history_track_page :: "co_env \<Rightarrow> u32 \<Rightarrow> bytes \<Rightarrow> co_state \<Rightarrow> esp_err \<times> co_state" where
  "companion_api_handle_history_track_page env request_id payload s =
     (case companion_api_tlv_u32 payload COMPANION_API_TLV_CARTRIDGE_CHECKSUM of
        None \<Rightarrow> companion_api_send_error env COMPANION_API_OP_HISTORY_TRACK_PAGE request_id COMPANION_API_ERR_INVALID_ARG s
      | Some checksum \<Rightarrow>
          let offset = page_u32 payload COMPANION_API_TLV_OFFSET 0;
              page_count = min (page_u32 payload COMPANION_API_TLV_COUNT 4) 4;
              page_total = play_history_service_get_album_track_count checksum (co_history s) in
          send_page env COMPANION_API_OP_HISTORY_TRACK_PAGE request_id
            [companion_api_append_u32 COMPANION_API_TLV_CARTRIDGE_CHECKSUM checksum,
             companion_api_append_u32 COMPANION_API_TLV_OFFSET offset,
             companion_api_append_u32 COMPANION_API_TLV_TRACK_COUNT (of_nat page_total)]
            (\<lambda>index. map_option history_track_entries
               (play_history_service_get_album_track_record checksum (unat index) True (co_history s)))
            True offset page_count page_total s)"

definition companion_api_handle_history_clear :: "co_env \<Rightarrow> u32 \<Rightarrow> co_state \<Rightarrow> esp_err \<times> co_state" where
  "companion_api_handle_history_clear env request_id s =
     finish env COMPANION_API_OP_HISTORY_CLEAR request_id (append_snapshot env)
       (case play_history_service_request_clear (co_history s) of (err, h) \<Rightarrow> (err, s\<lparr>co_history := h\<rparr>))"

definition wifi_ap_entries :: "wifi_ap_record \<Rightarrow> append_list" where
  "wifi_ap_entries record =
     [companion_api_append_string COMPANION_API_TLV_WIFI_SSID (Some (ap_ssid record)),
      companion_api_append_u32 COMPANION_API_TLV_WIFI_RSSI (word_of_int (ap_rssi record)),
      companion_api_append_u8 COMPANION_API_TLV_WIFI_CHANNEL (ap_primary record),
      companion_api_append_u8 COMPANION_API_TLV_WIFI_AUTHMODE (ap_authmode record)]"

definition companion_api_handle_wifi_scan_results :: "co_env \<Rightarrow> u32 \<Rightarrow> bytes \<Rightarrow> co_state \<Rightarrow> esp_err \<times> co_state" where
  "companion_api_handle_wifi_scan_results env request_id payload s =
     (case ev_wifi_scan env of
        Inl err \<Rightarrow> companion_api_send_error env COMPANION_API_OP_WIFI_SCAN_RESULTS request_id
                     (companion_api_error_from_esp err) s
      | Inr records \<Rightarrow>
          let offset = page_u32 payload COMPANION_API_TLV_OFFSET 0;
              page_count = min (page_u32 payload COMPANION_API_TLV_COUNT 8) 8 in
          send_page env COMPANION_API_OP_WIFI_SCAN_RESULTS request_id
            [companion_api_append_u32 COMPANION_API_TLV_OFFSET offset,
             companion_api_append_u32 COMPANION_API_TLV_COUNT (of_nat (length records))]
            (\<lambda>index. Some (wifi_ap_entries (records ! unat index)))
            False offset page_count (length records) s)"

section \<open>The album and its cover\<close>

definition COMPANION_API_COVER_CHUNK_MAX_LEN :: nat where "COMPANION_API_COVER_CHUNK_MAX_LEN = 1024"
definition COMPANION_API_SCRIPT_LOG_CHUNK_MAX_LEN :: nat where "COMPANION_API_SCRIPT_LOG_CHUNK_MAX_LEN = 512"

definition companion_api_resolve_cartridge_path :: "bytes \<Rightarrow> nat \<Rightarrow> cart_state \<Rightarrow> bytes option" where
  "companion_api_resolve_cartridge_path filename buffer_len c =
     (if buffer_len = 0 \<or> \<not> cartridge_service_is_mounted c then None
      else
        let mount_point = string_bytes (cartridge_service_get_mount_point c);
            path = mount_point @ string_bytes ''/'' @ filename in
        if mount_point = [] then None
        else if length path < buffer_len then Some path else None)"

definition companion_api_cover_exists :: "co_env \<Rightarrow> cart_state \<Rightarrow> bool" where
  "companion_api_cover_exists env c =
     (case companion_api_resolve_cartridge_path (string_bytes ''cover.png'') 320 c of None \<Rightarrow> False
      | Some path \<Rightarrow> ev_fopen env path \<noteq> None)"

definition companion_api_handle_library_album :: "co_env \<Rightarrow> u32 \<Rightarrow> co_state \<Rightarrow> esp_err \<times> co_state" where
  "companion_api_handle_library_album env request_id s =
     (let c = pl_cart (co_player s) in
      reply env COMPANION_API_OP_LIBRARY_ALBUM request_id
        (append_cartridge_status s @
         [companion_api_append_string COMPANION_API_TLV_ALBUM_NAME (cartridge_service_get_album_name c),
          companion_api_append_string COMPANION_API_TLV_ALBUM_ARTIST (cartridge_service_get_album_artist c),
          companion_api_append_string COMPANION_API_TLV_ALBUM_DESCRIPTION (cartridge_service_get_album_description c),
          companion_api_append_u32 COMPANION_API_TLV_ALBUM_YEAR (cartridge_service_get_album_year c),
          companion_api_append_u32 COMPANION_API_TLV_ALBUM_DURATION (cartridge_service_get_album_duration_sec c),
          companion_api_append_string COMPANION_API_TLV_ALBUM_GENRE (cartridge_service_get_album_genre c),
          companion_api_append_bool COMPANION_API_TLV_ALBUM_HAS_COVER (companion_api_cover_exists env c)]) s)"

text \<open>The window of a file that both file requests read: at most \<open>page_count\<close> bytes from the offset,
  which is cut to the size. \<open>None\<close> is a failing seek.\<close>

definition file_window :: "co_file \<Rightarrow> u32 \<Rightarrow> nat \<Rightarrow> (u32 \<times> nat \<times> bytes) option" where
  "file_window f offset page_count =
     (case fi_size f of None \<Rightarrow> None
      | Some file_size \<Rightarrow>
          if file_size < 0 then None
          else
            let total_size = nat file_size;
                offset' = (if unat offset > total_size then of_nat total_size else offset) in
            if \<not> fi_seek_ok f (unat offset') then None
            else
              let bytes_to_read = min (total_size - unat offset') page_count in
              Some (offset', total_size, take bytes_to_read (fi_read f (unat offset') bytes_to_read)))"

definition companion_api_handle_library_cover :: "co_env \<Rightarrow> u32 \<Rightarrow> bytes \<Rightarrow> co_state \<Rightarrow> esp_err \<times> co_state" where
  "companion_api_handle_library_cover env request_id payload s =
     (let c = pl_cart (co_player s);
          refuse = (\<lambda>err. companion_api_send_error env COMPANION_API_OP_LIBRARY_COVER request_id err s);
          offset = page_u32 payload COMPANION_API_TLV_OFFSET 0;
          page_count = min (unat (page_u32 payload COMPANION_API_TLV_COUNT (of_nat COMPANION_API_COVER_CHUNK_MAX_LEN)))
                     COMPANION_API_COVER_CHUNK_MAX_LEN in
      if \<not> cartridge_service_is_mounted c then refuse COMPANION_API_ERR_INVALID_STATE
      else case companion_api_resolve_cartridge_path (string_bytes ''cover.png'') 320 c of
        None \<Rightarrow> refuse COMPANION_API_ERR_INVALID_STATE
      | Some path \<Rightarrow>
          case ev_fopen env path of None \<Rightarrow> refuse COMPANION_API_ERR_NOT_FOUND
          | Some f \<Rightarrow>
              if (case fi_size f of None \<Rightarrow> True | Some n \<Rightarrow> n > 4294967295) then refuse COMPANION_API_ERR_INTERNAL
              else case file_window f offset page_count of None \<Rightarrow> refuse COMPANION_API_ERR_INTERNAL
              | Some (offset', total_size, data) \<Rightarrow>
                  if length data \<noteq> min (total_size - unat offset') page_count \<and> fi_error f
                  then refuse COMPANION_API_ERR_INTERNAL
                  else reply env COMPANION_API_OP_LIBRARY_COVER request_id
                    ([companion_api_append_u32 COMPANION_API_TLV_OFFSET offset',
                      companion_api_append_u32 COMPANION_API_TLV_TOTAL_SIZE (of_nat total_size),
                      companion_api_append_u32 COMPANION_API_TLV_RETURNED_COUNT (of_nat (length data)),
                      companion_api_append_string COMPANION_API_TLV_MIME_TYPE (Some (string_bytes ''image/png''))] @
                     (if data = [] then [] else [companion_api_append_tlv COMPANION_API_TLV_BINARY_DATA data])) s)"

section \<open>Wi-Fi\<close>

definition companion_api_handle_wifi_connect :: "co_env \<Rightarrow> u32 \<Rightarrow> bytes \<Rightarrow> co_state \<Rightarrow> esp_err \<times> co_state" where
  "companion_api_handle_wifi_connect env request_id payload s =
     (case companion_api_tlv_string payload COMPANION_API_TLV_WIFI_SSID 33 of
        None \<Rightarrow> companion_api_send_error env COMPANION_API_OP_WIFI_CONNECT request_id COMPANION_API_ERR_INVALID_ARG s
      | Some ssid \<Rightarrow>
          let password = (case companion_api_tlv_string payload COMPANION_API_TLV_WIFI_PASSWORD 65 of
                None \<Rightarrow> [] | Some p \<Rightarrow> p) in
          finish env COMPANION_API_OP_WIFI_CONNECT request_id (append_snapshot env)
            (svc_call env (Wifi_Connect ssid password) s))"

text \<open>A call that needs a number from the request.\<close>

definition call_with_u32 :: "co_env \<Rightarrow> bytes \<Rightarrow> u16 \<Rightarrow> (u32 \<Rightarrow> co_call) \<Rightarrow> co_state \<Rightarrow> esp_err \<times> co_state" where
  "call_with_u32 env payload type call s =
     (case companion_api_tlv_u32 payload type of None \<Rightarrow> (ESP_ERR_INVALID_ARG, s)
      | Some value \<Rightarrow> svc_call env (call value) s)"

definition companion_api_handle_wifi_simple ::
    "co_env \<Rightarrow> u16 \<Rightarrow> u32 \<Rightarrow> bytes \<Rightarrow> co_state \<Rightarrow> esp_err \<times> co_state" where
  "companion_api_handle_wifi_simple env opcode request_id payload s =
     finish env opcode request_id (append_snapshot env)
       (if opcode = COMPANION_API_OP_WIFI_SCAN_START then svc_call env Wifi_Scan s
        else if opcode = COMPANION_API_OP_WIFI_CONNECT_SLOT
        then call_with_u32 env payload COMPANION_API_TLV_WIFI_SLOT (\<lambda>v. Wifi_Connect_Slot (ucast v)) s
        else if opcode = COMPANION_API_OP_WIFI_DISCONNECT then svc_call env Wifi_Disconnect s
        else if opcode = COMPANION_API_OP_WIFI_AUTORECONNECT
        then call_with_u32 env payload COMPANION_API_TLV_VALUE (\<lambda>v. Wifi_Set_Autoreconnect (v \<noteq> 0)) s
        else (ESP_ERR_INVALID_ARG, s))"

primrec wifi_slot_loop :: "nat \<Rightarrow> wifi_svc_slot_info list \<Rightarrow> companion_api_writer \<Rightarrow> companion_api_writer" where
  "wifi_slot_loop i [] w = w"
| "wifi_slot_loop i (slot # slots) w =
     (let (ok, w') = append_group
            [companion_api_append_u8 COMPANION_API_TLV_WIFI_SLOT (of_nat (i + 1)),
             companion_api_append_bool COMPANION_API_TLV_WIFI_SLOT_CONFIGURED (ws_configured slot),
             companion_api_append_bool COMPANION_API_TLV_WIFI_SLOT_PREFERRED (ws_preferred slot),
             companion_api_append_bool COMPANION_API_TLV_WIFI_SLOT_ACTIVE (ws_active slot),
             companion_api_append_string COMPANION_API_TLV_WIFI_SSID (Some (ws_ssid slot))] w in
      if ok then wifi_slot_loop (i + 1) slots w' else w')"

definition companion_api_handle_wifi_list_slots :: "co_env \<Rightarrow> u32 \<Rightarrow> co_state \<Rightarrow> esp_err \<times> co_state" where
  "companion_api_handle_wifi_list_slots env request_id s =
     (case ev_wifi_slots env of
        Inl err \<Rightarrow> companion_api_send_error env COMPANION_API_OP_WIFI_LIST_SLOTS request_id
                     (companion_api_error_from_esp err) s
      | Inr slots \<Rightarrow> companion_api_send_ok env COMPANION_API_OP_WIFI_LIST_SLOTS request_id
          (wifi_slot_loop 0 (take WIFI_SVC_SLOT_COUNT slots)
             (append_each [companion_api_append_u32 COMPANION_API_TLV_COUNT (of_nat WIFI_SVC_SLOT_COUNT)]
                companion_api_writer_init)) s)"

definition companion_api_handle_wifi_save_slot :: "co_env \<Rightarrow> u32 \<Rightarrow> bytes \<Rightarrow> co_state \<Rightarrow> esp_err \<times> co_state" where
  "companion_api_handle_wifi_save_slot env request_id payload s =
     (case (companion_api_tlv_u32 payload COMPANION_API_TLV_WIFI_SLOT,
            companion_api_tlv_string payload COMPANION_API_TLV_WIFI_SSID 33) of
        (Some slot, Some ssid) \<Rightarrow>
          if slot < 1 \<or> unat slot > WIFI_SVC_SLOT_COUNT
          then companion_api_send_error env COMPANION_API_OP_WIFI_SAVE_SLOT request_id COMPANION_API_ERR_INVALID_ARG s
          else
            let password = (case companion_api_tlv_string payload COMPANION_API_TLV_WIFI_PASSWORD 65 of
                  None \<Rightarrow> [] | Some p \<Rightarrow> p) in
            finish env COMPANION_API_OP_WIFI_SAVE_SLOT request_id (\<lambda>_. status_ok)
              (svc_call env (Wifi_Save_Slot (ucast slot) ssid password) s)
      | _ \<Rightarrow> companion_api_send_error env COMPANION_API_OP_WIFI_SAVE_SLOT request_id COMPANION_API_ERR_INVALID_ARG s)"

definition companion_api_handle_wifi_reconnect :: "co_env \<Rightarrow> u32 \<Rightarrow> co_state \<Rightarrow> esp_err \<times> co_state" where
  "companion_api_handle_wifi_reconnect env request_id s =
     finish env COMPANION_API_OP_WIFI_RECONNECT request_id (append_snapshot env) (svc_call env Wifi_Reconnect s)"

section \<open>Last.fm\<close>

definition lastfm_action :: "co_env \<Rightarrow> u8 \<Rightarrow> bytes \<Rightarrow> co_state \<Rightarrow> esp_err \<times> co_state" where
  "lastfm_action env action payload s =
     (if action = 1 then
        (case companion_api_tlv_string payload COMPANION_API_TLV_LASTFM_AUTH_URL 128 of
           None \<Rightarrow> (ESP_ERR_INVALID_ARG, s) | Some url \<Rightarrow> svc_call env (Lastfm_Set_Auth_Url url) s)
      else if action = 2 then svc_call env Lastfm_Request_Token s
      else if action = 3 then
        (case (companion_api_tlv_string payload COMPANION_API_TLV_LASTFM_USERNAME 128,
               companion_api_tlv_string payload COMPANION_API_TLV_WIFI_PASSWORD 128) of
           (Some username, Some password) \<Rightarrow> svc_call env (Lastfm_Request_Auth username password) s
         | _ \<Rightarrow> (ESP_ERR_INVALID_ARG, s))
      else if action = 4 then svc_call env Lastfm_Logout s
      else if action = 5 then
        call_with_u32 env payload COMPANION_API_TLV_VALUE (\<lambda>v. Lastfm_Set_Scrobbling (v \<noteq> 0)) s
      else if action = 6 then
        call_with_u32 env payload COMPANION_API_TLV_VALUE (\<lambda>v. Lastfm_Set_Now_Playing (v \<noteq> 0)) s
      else (ESP_ERR_INVALID_ARG, s))"

definition companion_api_handle_lastfm_control :: "co_env \<Rightarrow> u32 \<Rightarrow> bytes \<Rightarrow> co_state \<Rightarrow> esp_err \<times> co_state" where
  "companion_api_handle_lastfm_control env request_id payload s =
     (case companion_api_tlv_u8 payload COMPANION_API_TLV_ACTION of
        None \<Rightarrow> companion_api_send_error env COMPANION_API_OP_LASTFM_CONTROL request_id COMPANION_API_ERR_INVALID_ARG s
      | Some action \<Rightarrow> finish env COMPANION_API_OP_LASTFM_CONTROL request_id (append_snapshot env)
          (lastfm_action env action payload s))"

definition companion_api_handle_lastfm_request_token :: "co_env \<Rightarrow> u32 \<Rightarrow> co_state \<Rightarrow> esp_err \<times> co_state" where
  "companion_api_handle_lastfm_request_token env request_id s =
     finish env COMPANION_API_OP_LASTFM_REQUEST_TOKEN request_id (append_snapshot env)
       (svc_call env Lastfm_Request_Token s)"

section \<open>Bluetooth and outputs\<close>

definition companion_api_handle_bt_audio_control :: "co_env \<Rightarrow> u32 \<Rightarrow> bytes \<Rightarrow> co_state \<Rightarrow> esp_err \<times> co_state" where
  "companion_api_handle_bt_audio_control env request_id payload s =
     (case companion_api_tlv_u8 payload COMPANION_API_TLV_ACTION of
        None \<Rightarrow> companion_api_send_error env COMPANION_API_OP_BT_AUDIO_CONTROL request_id COMPANION_API_ERR_INVALID_ARG s
      | Some action \<Rightarrow> finish env COMPANION_API_OP_BT_AUDIO_CONTROL request_id (append_snapshot env)
          (if action = 1 then svc_call env Bt_Connect_Last s
           else if action = 2 then svc_call env Bt_Pair_Best s
           else if action = 3 then svc_call env Bt_Disconnect_A2dp s
           else (ESP_ERR_INVALID_ARG, s)))"

definition append_output_status :: "co_env \<Rightarrow> append_list" where
  "append_output_status env =
     [companion_api_append_u8 COMPANION_API_TLV_OUTPUT_TARGET (ev_output_target env),
      companion_api_append_bool COMPANION_API_TLV_BT_A2DP_CONNECTED (ev_a2dp_connected env)]"

definition companion_api_handle_output_status :: "co_env \<Rightarrow> u32 \<Rightarrow> co_state \<Rightarrow> esp_err \<times> co_state" where
  "companion_api_handle_output_status env request_id s =
     reply env COMPANION_API_OP_OUTPUT_STATUS request_id (append_output_status env) s"

definition companion_api_handle_output_select :: "co_env \<Rightarrow> u32 \<Rightarrow> bytes \<Rightarrow> co_state \<Rightarrow> esp_err \<times> co_state" where
  "companion_api_handle_output_select env request_id payload s =
     (case companion_api_tlv_u8 payload COMPANION_API_TLV_OUTPUT_TARGET of
        None \<Rightarrow> companion_api_send_error env COMPANION_API_OP_OUTPUT_SELECT request_id COMPANION_API_ERR_INVALID_ARG s
      | Some target \<Rightarrow>
          if target \<noteq> 0 \<and> target \<noteq> 1
          then companion_api_send_error env COMPANION_API_OP_OUTPUT_SELECT request_id COMPANION_API_ERR_INVALID_ARG s
          else finish env COMPANION_API_OP_OUTPUT_SELECT request_id (\<lambda>_. status_ok @ append_output_status env)
                 (svc_call env (Output_Select (ucast target)) s))"

definition companion_api_handle_bt_scan_start :: "co_env \<Rightarrow> u32 \<Rightarrow> co_state \<Rightarrow> esp_err \<times> co_state" where
  "companion_api_handle_bt_scan_start env request_id s =
     finish env COMPANION_API_OP_BT_SCAN_START request_id
       (\<lambda>_. status_ok @ [companion_api_append_bool COMPANION_API_TLV_BT_SCAN_RUNNING True])
       (svc_call env Bt_Start_Discovery s)"

primrec bt_scan_loop :: "bluetooth_service_scan_entry list \<Rightarrow> companion_api_writer \<Rightarrow> companion_api_writer" where
  "bt_scan_loop [] w = w"
| "bt_scan_loop (entry # entries) w =
     (let (ok, w') = append_group
            [companion_api_append_tlv COMPANION_API_TLV_BT_ADDR (se_bda entry),
             companion_api_append_string COMPANION_API_TLV_BT_NAME (Some (se_name entry)),
             companion_api_append_u32 COMPANION_API_TLV_BT_RSSI (word_of_int (se_rssi entry)),
             companion_api_append_u32 COMPANION_API_TLV_BT_COD (se_cod entry)] w in
      if ok then bt_scan_loop entries w' else w')"

definition companion_api_handle_bt_scan_results :: "co_env \<Rightarrow> u32 \<Rightarrow> co_state \<Rightarrow> esp_err \<times> co_state" where
  "companion_api_handle_bt_scan_results env request_id s =
     (case ev_discovery env of
        Inl err \<Rightarrow> companion_api_send_error env COMPANION_API_OP_BT_SCAN_RESULTS request_id
                     (companion_api_error_from_esp err) s
      | Inr all_entries \<Rightarrow>
          let entries = take 8 all_entries in
          companion_api_send_ok env COMPANION_API_OP_BT_SCAN_RESULTS request_id
            (bt_scan_loop entries (append_each
               [companion_api_append_bool COMPANION_API_TLV_BT_SCAN_RUNNING (ev_discovery_running env),
                companion_api_append_u32 COMPANION_API_TLV_COUNT (of_nat (length entries))]
               companion_api_writer_init)) s)"

definition companion_api_handle_bt_bonded_list :: "co_env \<Rightarrow> u32 \<Rightarrow> co_state \<Rightarrow> esp_err \<times> co_state" where
  "companion_api_handle_bt_bonded_list env request_id s =
     (case (if ev_bonded_count env = 0 then Inr [] else ev_bonded env) of
        Inl err \<Rightarrow> companion_api_send_error env COMPANION_API_OP_BT_BONDED_LIST request_id
                     (companion_api_error_from_esp err) s
      | Inr all_devices \<Rightarrow>
          let devices = take 16 all_devices in
          reply env COMPANION_API_OP_BT_BONDED_LIST request_id
            (companion_api_append_u32 COMPANION_API_TLV_BT_BONDED_COUNT (of_nat (length devices)) #
             map (companion_api_append_tlv COMPANION_API_TLV_BT_ADDR) devices) s)"

definition companion_api_handle_bt_unbond :: "co_env \<Rightarrow> u32 \<Rightarrow> bytes \<Rightarrow> co_state \<Rightarrow> esp_err \<times> co_state" where
  "companion_api_handle_bt_unbond env request_id payload s =
     (case companion_api_find_tlv payload COMPANION_API_TLV_BT_ADDR of
        None \<Rightarrow> companion_api_send_error env COMPANION_API_OP_BT_UNBOND request_id COMPANION_API_ERR_INVALID_ARG s
      | Some addr \<Rightarrow>
          if length addr \<noteq> ESP_BD_ADDR_LEN
          then companion_api_send_error env COMPANION_API_OP_BT_UNBOND request_id COMPANION_API_ERR_INVALID_ARG s
          else finish env COMPANION_API_OP_BT_UNBOND request_id
                 (\<lambda>_. status_ok @ [companion_api_append_u32 COMPANION_API_TLV_BT_BONDED_COUNT
                                      (of_nat (ev_bonded_count env))])
                 (svc_call env (Bt_Unbond addr) s))"

section \<open>Buttons and LED\<close>

definition companion_api_handle_hid_status :: "co_env \<Rightarrow> u32 \<Rightarrow> co_state \<Rightarrow> esp_err \<times> co_state" where
  "companion_api_handle_hid_status env request_id s =
     reply env COMPANION_API_OP_HID_STATUS request_id
       [companion_api_append_u32 COMPANION_API_TLV_HID_BUTTON_BITMAP (ev_buttons env),
        companion_api_append_u32 COMPANION_API_TLV_HID_ADC_RAW (ev_adc_main env),
        companion_api_append_u32 COMPANION_API_TLV_HID_ADC_RAW (ev_adc_misc env)] s"

definition led_action :: "co_env \<Rightarrow> bytes \<Rightarrow> co_state \<Rightarrow> esp_err \<times> co_state" where
  "led_action env payload s =
     (let u8_of = companion_api_tlv_u8 payload;
          off = (case u8_of COMPANION_API_TLV_HID_LED_OFF of None \<Rightarrow> False | Some v \<Rightarrow> v \<noteq> 0);
          color = (case (u8_of COMPANION_API_TLV_HID_LED_R, u8_of COMPANION_API_TLV_HID_LED_G,
                         u8_of COMPANION_API_TLV_HID_LED_B) of
                     (Some r, Some g, Some b) \<Rightarrow> Some (r, g, b) | _ \<Rightarrow> None);
          brightness = u8_of COMPANION_API_TLV_HID_LED_BRIGHTNESS in
      if off then svc_call env Hid_Led_Off s
      else
        let (err, s1) = (case brightness of None \<Rightarrow> (ESP_OK, s)
              | Some v \<Rightarrow> svc_call env (Hid_Led_Set_Brightness v) s);
            (err, s2) = (case color of None \<Rightarrow> (err, s1)
              | Some (r, g, b) \<Rightarrow> if err = ESP_OK then svc_call env (Hid_Led_Set_Rgb r g b) s1 else (err, s1)) in
        if err = ESP_OK \<and> color = None \<and> brightness = None then (ESP_ERR_INVALID_ARG, s2) else (err, s2))"

definition companion_api_handle_hid_led_set :: "co_env \<Rightarrow> u32 \<Rightarrow> bytes \<Rightarrow> co_state \<Rightarrow> esp_err \<times> co_state" where
  "companion_api_handle_hid_led_set env request_id payload s =
     (case led_action env payload s of (err, s1) \<Rightarrow>
        if err \<noteq> ESP_OK
        then companion_api_send_error env COMPANION_API_OP_HID_LED_SET request_id (companion_api_error_from_esp err) s1
        else reply env COMPANION_API_OP_HID_LED_SET request_id status_ok s1)"

section \<open>Scripts\<close>

definition script_run_entries :: "script_service_run_result \<Rightarrow> append_list" where
  "script_run_entries run =
     [companion_api_append_u32 COMPANION_API_TLV_SCRIPT_RUN_ID (rr_run_id run),
      companion_api_append_string COMPANION_API_TLV_SCRIPT_RESOLVED_PATH (Some (rr_resolved_path run)),
      companion_api_append_string COMPANION_API_TLV_SCRIPT_MESSAGE (Some (rr_message run)),
      companion_api_append_string COMPANION_API_TLV_SCRIPT_OUTPUT (Some (rr_output run)),
      companion_api_append_u32 COMPANION_API_TLV_SCRIPT_EXIT_CODE (rr_exit_code run),
      companion_api_append_u32 COMPANION_API_TLV_SCRIPT_SIZE (rr_script_size_bytes run)]"

definition append_script_status :: "co_env \<Rightarrow> append_list" where
  "append_script_status env =
     (case (case ev_script_status env of None \<Rightarrow> (0, None, None) | Some snap \<Rightarrow> snap) of
        (status, active_run, last_run) \<Rightarrow>
          companion_api_append_u8 COMPANION_API_TLV_SCRIPT_STATE status #
          (case active_run of
             Some run \<Rightarrow> companion_api_append_bool COMPANION_API_TLV_PLAYING True # script_run_entries run
           | None \<Rightarrow> (case last_run of
                 Some run \<Rightarrow> companion_api_append_bool COMPANION_API_TLV_PLAYING False # script_run_entries run
               | None \<Rightarrow> [])))"

definition companion_api_handle_script_status :: "co_env \<Rightarrow> u32 \<Rightarrow> co_state \<Rightarrow> esp_err \<times> co_state" where
  "companion_api_handle_script_status env request_id s =
     reply env COMPANION_API_OP_SCRIPT_STATUS request_id (append_script_status env) s"

text \<open>An entry of a directory: its name and, when \<^verbatim>\<open>stat\<close> works, its kind and size.\<close>

fun script_list_loop ::
    "bytes \<Rightarrow> (bytes \<times> (bool \<times> int) option) list \<Rightarrow> nat \<Rightarrow> companion_api_writer \<Rightarrow> nat \<times> companion_api_writer" where
  "script_list_loop dir_path [] returned w = (returned, w)"
| "script_list_loop dir_path ((name, st) # entries) returned w =
     (if name \<noteq> [] \<and> hd name = 46 then script_list_loop dir_path entries returned w
      else if length dir_path + 1 + length name \<ge> SCRIPT_SERVICE_MAX_PATH_LEN
      then script_list_loop dir_path entries returned w
      else
        let kind = (case st of Some (True, _) \<Rightarrow> 1 | _ \<Rightarrow> 0);
            file_size = (case st of Some (_, n) \<Rightarrow> if n > 0 \<and> n \<le> 4294967295 then word_of_int n else 0 | None \<Rightarrow> 0);
            (ok, w') = append_group
              [companion_api_append_string COMPANION_API_TLV_SCRIPT_NAME (Some name),
               companion_api_append_u8 COMPANION_API_TLV_SCRIPT_KIND kind,
               companion_api_append_u32 COMPANION_API_TLV_SCRIPT_SIZE file_size] w in
        if ok then script_list_loop dir_path entries (returned + 1) w' else (returned, w'))"

definition companion_api_handle_script_list :: "co_env \<Rightarrow> u32 \<Rightarrow> bytes \<Rightarrow> co_state \<Rightarrow> esp_err \<times> co_state" where
  "companion_api_handle_script_list env request_id payload s =
     (let refuse = (\<lambda>err. companion_api_send_error env COMPANION_API_OP_SCRIPT_LIST request_id err s);
          dir_path = (case companion_api_tlv_string payload COMPANION_API_TLV_SCRIPT_NAME SCRIPT_SERVICE_MAX_PATH_LEN of
              Some (c # cs) \<Rightarrow> (case ev_script_dir env (c # cs) of
                  None \<Rightarrow> Inl COMPANION_API_ERR_NOT_FOUND | Some d \<Rightarrow> Inr d)
            | _ \<Rightarrow> (case ev_script_root env of
                  None \<Rightarrow> Inl COMPANION_API_ERR_INVALID_STATE
                | Some root \<Rightarrow> if root = [] then Inl COMPANION_API_ERR_INVALID_STATE
                               else Inr (take (SCRIPT_SERVICE_MAX_PATH_LEN - 1) root))) in
      case dir_path of Inl err \<Rightarrow> refuse err
      | Inr d \<Rightarrow>
          case ev_readdir env d of None \<Rightarrow> refuse COMPANION_API_ERR_NOT_FOUND
          | Some entries \<Rightarrow>
              let (returned, w) = script_list_loop d entries 0
                    (append_each [companion_api_append_string COMPANION_API_TLV_SCRIPT_RESOLVED_PATH (Some d)]
                       companion_api_writer_init) in
              companion_api_send_ok env COMPANION_API_OP_SCRIPT_LIST request_id
                (snd (companion_api_append_u32 COMPANION_API_TLV_RETURNED_COUNT (of_nat returned) w)) s)"

definition companion_api_handle_script_log :: "co_env \<Rightarrow> u32 \<Rightarrow> bytes \<Rightarrow> co_state \<Rightarrow> esp_err \<times> co_state" where
  "companion_api_handle_script_log env request_id payload s =
     (let refuse = (\<lambda>err. companion_api_send_error env COMPANION_API_OP_SCRIPT_LOG request_id err s);
          offset = page_u32 payload COMPANION_API_TLV_OFFSET 0;
          page_count = min (unat (page_u32 payload COMPANION_API_TLV_COUNT 1024)) COMPANION_API_SCRIPT_LOG_CHUNK_MAX_LEN in
      case companion_api_tlv_string payload COMPANION_API_TLV_SCRIPT_NAME SCRIPT_SERVICE_MAX_PATH_LEN of
        None \<Rightarrow> refuse COMPANION_API_ERR_INVALID_ARG
      | Some name \<Rightarrow>
          if name = [] then refuse COMPANION_API_ERR_INVALID_ARG
          else case ev_script_log_path env name of None \<Rightarrow> refuse COMPANION_API_ERR_NOT_FOUND
          | Some log_path \<Rightarrow>
              case ev_fopen env log_path of None \<Rightarrow> refuse COMPANION_API_ERR_NOT_FOUND
              | Some f \<Rightarrow>
                  case file_window f offset page_count of None \<Rightarrow> refuse COMPANION_API_ERR_INTERNAL
                  | Some (offset', total_size, data) \<Rightarrow>
                      reply env COMPANION_API_OP_SCRIPT_LOG request_id
                        ([companion_api_append_string COMPANION_API_TLV_SCRIPT_NAME (Some name),
                          companion_api_append_string COMPANION_API_TLV_SCRIPT_RESOLVED_PATH (Some log_path),
                          companion_api_append_u32 COMPANION_API_TLV_OFFSET offset',
                          companion_api_append_u32 COMPANION_API_TLV_TOTAL_SIZE (of_nat total_size),
                          companion_api_append_u32 COMPANION_API_TLV_RETURNED_COUNT (of_nat (length data))] @
                         (if data = [] then [] else [companion_api_append_tlv COMPANION_API_TLV_BINARY_DATA data])) s)"

text \<open>The arguments of a script: blanks are overwritten by NULs, so an argument is what lies between
  them, except that the last one there is room for keeps the rest of the line.\<close>

definition COMPANION_API_SCRIPT_MAX_ARGV :: nat where "COMPANION_API_SCRIPT_MAX_ARGV = 8"

definition is_blank :: "u8 \<Rightarrow> bool" where
  "is_blank c \<longleftrightarrow> c = 32 \<or> c = 9"

function companion_api_split_args :: "nat \<Rightarrow> bytes \<Rightarrow> bytes list" where
  "companion_api_split_args room cursor =
     (let line = dropWhile is_blank cursor in
      if room = 0 \<or> line = [] then []
      else if room = 1 then [line]
      else takeWhile (\<lambda>c. \<not> is_blank c) line #
           companion_api_split_args (room - 1) (dropWhile (\<lambda>c. \<not> is_blank c) line))"
  by pat_completeness auto

termination by (relation "measure fst") auto

declare companion_api_split_args.simps [simp del]

definition companion_api_handle_script_run :: "co_env \<Rightarrow> u32 \<Rightarrow> bytes \<Rightarrow> co_state \<Rightarrow> esp_err \<times> co_state" where
  "companion_api_handle_script_run env request_id payload s =
     (case companion_api_tlv_string payload COMPANION_API_TLV_SCRIPT_NAME SCRIPT_SERVICE_MAX_PATH_LEN of
        None \<Rightarrow> companion_api_send_error env COMPANION_API_OP_SCRIPT_RUN request_id COMPANION_API_ERR_INVALID_ARG s
      | Some name \<Rightarrow>
          if name = []
          then companion_api_send_error env COMPANION_API_OP_SCRIPT_RUN request_id COMPANION_API_ERR_INVALID_ARG s
          else
            let argv = (case companion_api_tlv_string payload COMPANION_API_TLV_SCRIPT_ARGS 256 of
                  None \<Rightarrow> [] | Some line \<Rightarrow> companion_api_split_args COMPANION_API_SCRIPT_MAX_ARGV line) in
            finish env COMPANION_API_OP_SCRIPT_RUN request_id
              (\<lambda>_. status_ok @ [companion_api_append_string COMPANION_API_TLV_SCRIPT_NAME (Some name)] @
                     script_run_entries (ev_script_result env))
              (svc_call env (Script_Start name argv) s))"

definition companion_api_schedule_reboot :: "co_env \<Rightarrow> bool \<Rightarrow> co_state \<Rightarrow> esp_err \<times> co_state" where
  "companion_api_schedule_reboot env download_mode s = svc_call env (Reboot_Timer download_mode) s"

definition companion_api_handle_system_reboot :: "co_env \<Rightarrow> u16 \<Rightarrow> u32 \<Rightarrow> bool \<Rightarrow> co_state \<Rightarrow> esp_err \<times> co_state" where
  "companion_api_handle_system_reboot env opcode request_id download_mode s =
     (case companion_api_schedule_reboot env download_mode s of (err, s1) \<Rightarrow>
        if err \<noteq> ESP_OK then companion_api_send_error env opcode request_id (companion_api_error_from_esp err) s1
        else reply env opcode request_id status_ok s1)"

section \<open>Dispatch\<close>

definition companion_handle_revoke :: "co_env \<Rightarrow> u16 \<Rightarrow> u32 \<Rightarrow> bytes \<Rightarrow> co_state \<Rightarrow> esp_err \<times> co_state" where
  "companion_handle_revoke env opcode request_id payload s =
     (case companion_api_tlv_string payload COMPANION_API_TLV_CLIENT_ID (COMPANION_API_CLIENT_ID_MAX_LEN + 1) of
        None \<Rightarrow> companion_api_send_error env opcode request_id COMPANION_API_ERR_INVALID_ARG s
      | Some client_id \<Rightarrow>
          case companion_api_revoke_client_internal env client_id s of (err, s1) \<Rightarrow>
            if err \<noteq> ESP_OK then companion_api_send_error env opcode request_id (companion_api_error_from_esp err) s1
            else companion_api_handle_trusted_list env request_id s1)"

text \<open>The cases that need an authenticated client.\<close>

definition companion_handle_trusted_request ::
    "co_env \<Rightarrow> u16 \<Rightarrow> u32 \<Rightarrow> bytes \<Rightarrow> co_state \<Rightarrow> esp_err \<times> co_state" where
  "companion_handle_trusted_request env opcode request_id payload s =
     (if opcode = COMPANION_API_OP_TRUSTED_LIST
      then companion_api_handle_trusted_list env request_id s
      else if opcode = COMPANION_API_OP_TRUSTED_REVOKE
      then companion_handle_revoke env opcode request_id payload s
      else if opcode \<in> {COMPANION_API_OP_SNAPSHOT, COMPANION_API_OP_PLAYBACK_STATUS, COMPANION_API_OP_WIFI_STATUS, COMPANION_API_OP_LASTFM_STATUS, COMPANION_API_OP_HISTORY_SUMMARY, COMPANION_API_OP_BT_AUDIO_STATUS}
      then companion_api_handle_snapshot env opcode request_id s
      else if opcode = COMPANION_API_OP_PLAYBACK_CONTROL
      then companion_api_handle_playback_control env request_id payload s
      else if opcode = COMPANION_API_OP_LIBRARY_ALBUM
      then companion_api_handle_library_album env request_id s
      else if opcode = COMPANION_API_OP_LIBRARY_TRACK_PAGE
      then companion_api_handle_track_page env request_id payload s
      else if opcode = COMPANION_API_OP_LIBRARY_COVER
      then companion_api_handle_library_cover env request_id payload s
      else if opcode \<in> {COMPANION_API_OP_WIFI_SCAN_START, COMPANION_API_OP_WIFI_CONNECT_SLOT, COMPANION_API_OP_WIFI_DISCONNECT, COMPANION_API_OP_WIFI_AUTORECONNECT}
      then companion_api_handle_wifi_simple env opcode request_id payload s
      else if opcode = COMPANION_API_OP_WIFI_SCAN_RESULTS
      then companion_api_handle_wifi_scan_results env request_id payload s
      else if opcode = COMPANION_API_OP_WIFI_CONNECT
      then companion_api_handle_wifi_connect env request_id payload s
      else if opcode = COMPANION_API_OP_LASTFM_CONTROL
      then companion_api_handle_lastfm_control env request_id payload s
      else if opcode = COMPANION_API_OP_HISTORY_ALBUM_PAGE
      then companion_api_handle_history_album_page env request_id payload s
      else if opcode = COMPANION_API_OP_BT_AUDIO_CONTROL
      then companion_api_handle_bt_audio_control env request_id payload s
      else if opcode = COMPANION_API_OP_OUTPUT_STATUS
      then companion_api_handle_output_status env request_id s
      else if opcode = COMPANION_API_OP_OUTPUT_SELECT
      then companion_api_handle_output_select env request_id payload s
      else if opcode = COMPANION_API_OP_WIFI_LIST_SLOTS
      then companion_api_handle_wifi_list_slots env request_id s
      else if opcode = COMPANION_API_OP_WIFI_SAVE_SLOT
      then companion_api_handle_wifi_save_slot env request_id payload s
      else if opcode = COMPANION_API_OP_WIFI_RECONNECT
      then companion_api_handle_wifi_reconnect env request_id s
      else if opcode = COMPANION_API_OP_LASTFM_REQUEST_TOKEN
      then companion_api_handle_lastfm_request_token env request_id s
      else if opcode = COMPANION_API_OP_HISTORY_TRACK_PAGE
      then companion_api_handle_history_track_page env request_id payload s
      else if opcode = COMPANION_API_OP_HISTORY_CLEAR
      then companion_api_handle_history_clear env request_id s
      else if opcode = COMPANION_API_OP_BT_SCAN_START
      then companion_api_handle_bt_scan_start env request_id s
      else if opcode = COMPANION_API_OP_BT_SCAN_RESULTS
      then companion_api_handle_bt_scan_results env request_id s
      else if opcode = COMPANION_API_OP_BT_BONDED_LIST
      then companion_api_handle_bt_bonded_list env request_id s
      else if opcode = COMPANION_API_OP_BT_UNBOND
      then companion_api_handle_bt_unbond env request_id payload s
      else if opcode = COMPANION_API_OP_HID_STATUS
      then companion_api_handle_hid_status env request_id s
      else if opcode = COMPANION_API_OP_HID_LED_SET
      then companion_api_handle_hid_led_set env request_id payload s
      else if opcode = COMPANION_API_OP_SCRIPT_STATUS
      then companion_api_handle_script_status env request_id s
      else if opcode = COMPANION_API_OP_SCRIPT_LIST
      then companion_api_handle_script_list env request_id payload s
      else if opcode = COMPANION_API_OP_SCRIPT_LOG
      then companion_api_handle_script_log env request_id payload s
      else if opcode = COMPANION_API_OP_SCRIPT_RUN
      then companion_api_handle_script_run env request_id payload s
      else if opcode = COMPANION_API_OP_SYSTEM_REBOOT
      then companion_api_handle_system_reboot env opcode request_id False s
      else if opcode = COMPANION_API_OP_SYSTEM_REBOOT_DOWNLOAD
      then companion_api_handle_system_reboot env opcode request_id True s
      else companion_api_send_error env opcode request_id COMPANION_API_ERR_UNKNOWN_OPCODE s)"

definition companion_api_handle_request ::
    "co_env \<Rightarrow> u16 \<Rightarrow> u32 \<Rightarrow> bytes \<Rightarrow> co_state \<Rightarrow> esp_err \<times> co_state" where
  "companion_api_handle_request env opcode request_id payload s =
     (if companion_api_opcode_requires_auth opcode \<and> \<not> co_authenticated s
      then companion_api_send_error env opcode request_id COMPANION_API_ERR_AUTH_REQUIRED s
      else if opcode = COMPANION_API_OP_HELLO then companion_api_handle_hello env opcode request_id s
      else if opcode = COMPANION_API_OP_CAPABILITIES then companion_api_handle_capabilities env opcode request_id s
      else if opcode = COMPANION_API_OP_PING then
        (if length payload > COMPANION_API_FRAME_MAX_LEN - COMPANION_API_HEADER_LEN
         then companion_api_send_error env opcode request_id COMPANION_API_ERR_BAD_FRAME s
         else companion_api_send_frame env COMPANION_API_FRAME_RESPONSE opcode request_id payload s)
      else if opcode = COMPANION_API_OP_PAIR_BEGIN then companion_api_handle_pair_begin env request_id payload s
      else if opcode = COMPANION_API_OP_PAIR_STATUS
      then companion_api_send_pairing_status env request_id COMPANION_API_FRAME_RESPONSE s
      else if opcode = COMPANION_API_OP_PAIR_CANCEL
      then companion_api_send_pairing_status env request_id COMPANION_API_FRAME_RESPONSE
             (companion_api_touch_generation (companion_api_clear_pairing s))
      else if opcode = COMPANION_API_OP_AUTH_CHALLENGE
      then companion_api_handle_auth_challenge env request_id payload s
      else if opcode = COMPANION_API_OP_AUTH_PROOF then companion_api_handle_auth_proof env request_id payload s
      else companion_handle_trusted_request env opcode request_id payload s)"

end
