(* ===== verification/Companion_Link.thy ===== *)
theory Companion_Link
  imports Companion_Requests
begin

text \<open>
  The task of the companion service, \<^verbatim>\<open>main/companion_api_service.c\<close>: the bytes that arrive are
  collected in a buffer, cut into frames and handled; buttons, console commands and link events
  come through the same queue. The receive buffer, which only the task uses, is a component of its
  own beside the other statics. What the outside answers may differ from one request of a chunk to
  the next, so an environment is given for every value of the frame counter.
\<close>

section \<open>Receiving\<close>

definition count_rx_error :: "co_state \<Rightarrow> co_state" where
  "count_rx_error s = s\<lparr>co_rx_errors := co_rx_errors s + 1\<rparr>"

definition count_rx_frame :: "co_state \<Rightarrow> co_state" where
  "count_rx_frame s = s\<lparr>co_rx_frames := co_rx_frames s + 1\<rparr>"

type_synonym co_envs = "u32 \<Rightarrow> co_env"

function parse_rx :: "co_envs \<Rightarrow> bytes \<Rightarrow> co_state \<Rightarrow> bytes \<times> co_state" where
  "parse_rx envs rx s =
     (if length rx < COMPANION_API_HEADER_LEN then (rx, s)
      else if rx ! 0 \<noteq> COMPANION_API_MAGIC0 \<or> rx ! 1 \<noteq> COMPANION_API_MAGIC1
      then parse_rx envs (drop 1 rx) (count_rx_error s)
      else
        let env = envs (co_rx_frames s); opcode = rd_u16 rx 4; request_id = rd_u32 rx 6 in
        if rx ! 2 \<noteq> COMPANION_API_VERSION
        then parse_rx envs (drop COMPANION_API_HEADER_LEN rx)
               (snd (companion_api_send_error env opcode request_id COMPANION_API_ERR_UNSUPPORTED_VERSION s))
        else
          let payload_len = unat (rd_u16 rx 10); frame_len = COMPANION_API_HEADER_LEN + payload_len in
          if frame_len > COMPANION_API_FRAME_MAX_LEN
          then parse_rx envs (drop COMPANION_API_HEADER_LEN rx)
                 (snd (companion_api_send_error env opcode request_id COMPANION_API_ERR_BAD_FRAME s))
          else if length rx < frame_len then (rx, s)
          else if rx ! 3 \<noteq> COMPANION_API_FRAME_REQUEST
          then parse_rx envs (drop frame_len rx)
                 (snd (companion_api_send_error env opcode request_id COMPANION_API_ERR_BAD_FRAME s))
          else parse_rx envs (drop frame_len rx)
                 (count_rx_frame (snd (companion_api_handle_request env opcode request_id
                    (rd_bytes rx COMPANION_API_HEADER_LEN payload_len) s))))"
  by pat_completeness auto

termination
  by (relation "measure (\<lambda>(envs, rx, s). length rx)") (auto simp: COMPANION_API_HEADER_LEN_def)

declare parse_rx.simps [simp del]

definition companion_api_handle_rx_chunk :: "co_envs \<Rightarrow> bytes \<Rightarrow> bytes \<times> co_state \<Rightarrow> bytes \<times> co_state" where
  "companion_api_handle_rx_chunk envs data st =
     (case st of (rx, s) \<Rightarrow>
        if data = [] then (rx, s)
        else if length data > COMPANION_API_FRAME_MAX_LEN - length rx
        then ([], snd (companion_api_send_error (envs (co_rx_frames s)) 0 0 COMPANION_API_ERR_BAD_FRAME
                         (count_rx_error s)))
        else parse_rx envs (rx @ data) s)"

section \<open>The queue and the task\<close>

datatype co_msg =
    COMPANION_API_MSG_RX_CHUNK bytes
  | COMPANION_API_MSG_HID_BUTTON nat
  | COMPANION_API_MSG_CONSOLE_CONFIRM_PAIRING
  | COMPANION_API_MSG_CONSOLE_CANCEL_PAIRING
  | COMPANION_API_MSG_CONSOLE_REVOKE_CLIENT bytes
  | COMPANION_API_MSG_CONSOLE_REVOKE_ALL
  | COMPANION_API_MSG_LINK_CONNECTED
  | COMPANION_API_MSG_LINK_DISCONNECTED
  | COMPANION_API_MSG_STATE_EVENT u16

record co_sys =
  sy_rx :: bytes
  sy_core :: co_state
  sy_queue :: "co_msg list option"
  sy_next_heartbeat :: u32

definition companion_api_process_msg :: "co_envs \<Rightarrow> co_msg \<Rightarrow> bytes \<times> co_state \<Rightarrow> esp_err \<times> bytes \<times> co_state" where
  "companion_api_process_msg envs msg st =
     (case st of (rx, s) \<Rightarrow>
        let env = envs (co_rx_frames s) in
        case msg of
          COMPANION_API_MSG_RX_CHUNK data \<Rightarrow> (ESP_OK, companion_api_handle_rx_chunk envs data (rx, s))
        | COMPANION_API_MSG_HID_BUTTON button \<Rightarrow>
            (let (err, s1) = companion_api_apply_pairing_button env button s in (err, rx, s1))
        | COMPANION_API_MSG_CONSOLE_CONFIRM_PAIRING \<Rightarrow>
            (let (err, s1) = companion_api_complete_pairing env s in (err, rx, s1))
        | COMPANION_API_MSG_CONSOLE_CANCEL_PAIRING \<Rightarrow>
            (ESP_OK, rx, snd (companion_api_send_pairing_status env 0 COMPANION_API_FRAME_EVENT
               (companion_api_touch_generation (companion_api_clear_pairing s))))
        | COMPANION_API_MSG_CONSOLE_REVOKE_CLIENT client_id \<Rightarrow>
            (let (err, s1) = companion_api_revoke_client_internal env client_id s in (err, rx, s1))
        | COMPANION_API_MSG_CONSOLE_REVOKE_ALL \<Rightarrow>
            (let (err, s1) = companion_api_revoke_all_internal env s in (err, rx, s1))
        | COMPANION_API_MSG_LINK_CONNECTED \<Rightarrow>
            (ESP_OK, [], snd (companion_api_send_snapshot_event env COMPANION_API_OP_SNAPSHOT
               (companion_api_touch_generation s)))
        | COMPANION_API_MSG_LINK_DISCONNECTED \<Rightarrow>
            (ESP_OK, [], snd (companion_api_send_snapshot_event env COMPANION_API_OP_SNAPSHOT
               (companion_api_touch_generation (s\<lparr>co_authenticated := False,
                  co_auth_challenge_pending := False, co_active_client_id := []\<rparr>))))
        | COMPANION_API_MSG_STATE_EVENT opcode \<Rightarrow>
            (ESP_OK, rx, snd (companion_api_send_snapshot_event env opcode (companion_api_touch_generation s))))"

definition companion_api_send_heartbeat :: "co_env \<Rightarrow> nat \<Rightarrow> co_state \<Rightarrow> co_state" where
  "companion_api_send_heartbeat env queue_free s =
     (if \<not> ev_spp_connected env \<or> \<not> ev_notifications env then s
      else snd (companion_api_send_frame env COMPANION_API_FRAME_HEARTBEAT COMPANION_API_OP_SNAPSHOT 0
        (append_each
          [companion_api_append_u32 COMPANION_API_TLV_UPTIME_MS (ev_uptime_ms env),
           companion_api_append_u32 COMPANION_API_TLV_GENERATION (co_event_generation s),
           companion_api_append_bool COMPANION_API_TLV_AUTHENTICATED (co_authenticated s),
           companion_api_append_u8 COMPANION_API_TLV_QUEUE_FREE (of_nat queue_free),
           companion_api_append_u32 COMPANION_API_TLV_RX_FRAMES (co_rx_frames s),
           companion_api_append_u32 COMPANION_API_TLV_TX_FRAMES (co_tx_frames s),
           companion_api_append_u32 COMPANION_API_TLV_RX_ERRORS (co_rx_errors s)] companion_api_writer_init) s))"

text \<open>The part of the loop of the task after the wait: a pairing whose time has passed is given
  up when a heartbeat is due.\<close>

definition expire_pairing :: "co_env \<Rightarrow> u32 \<Rightarrow> co_state \<Rightarrow> co_state" where
  "expire_pairing env now s =
     (if co_pairing_pending s \<and> now > co_pairing_deadline s
      then snd (companion_api_send_pairing_status env 0 COMPANION_API_FRAME_EVENT
             (companion_api_touch_generation (companion_api_clear_pairing s)))
      else s)"

text \<open>One turn of the loop: the message that is there, if any, then the heartbeat at the tick \<open>now\<close>.\<close>

definition companion_api_task :: "co_envs \<Rightarrow> u32 \<Rightarrow> co_sys \<Rightarrow> co_sys" where
  "companion_api_task envs now sys =
     (let sys1 = (case sy_queue sys of
            Some (msg # msgs) \<Rightarrow>
              (let (_, rx, s) = companion_api_process_msg envs msg (sy_rx sys, sy_core sys) in
               sys\<lparr>sy_rx := rx, sy_core := s, sy_queue := Some msgs\<rparr>)
          | _ \<Rightarrow> sys);
          env = envs (co_rx_frames (sy_core sys1)) in
      if now \<ge> sy_next_heartbeat sys1
      then sys1\<lparr>sy_core := companion_api_send_heartbeat env
                   (COMPANION_API_QUEUE_DEPTH - length (case sy_queue sys1 of None \<Rightarrow> [] | Some q \<Rightarrow> q))
                   (expire_pairing env now (sy_core sys1)),
                sy_next_heartbeat := now + of_nat (pdMS_TO_TICKS COMPANION_API_HEARTBEAT_MS)\<rparr>
      else sys1)"

section \<open>What other tasks do\<close>

text \<open>\<^verbatim>\<open>xQueueSend\<close> without waiting. The callbacks count what they could not queue.\<close>

definition co_queue_send :: "co_msg \<Rightarrow> co_sys \<Rightarrow> bool \<times> co_sys" where
  "co_queue_send msg sys =
     (case sy_queue sys of None \<Rightarrow> (False, sys)
      | Some q \<Rightarrow> if length q \<ge> COMPANION_API_QUEUE_DEPTH then (False, sys)
                  else (True, sys\<lparr>sy_queue := Some (q @ [msg])\<rparr>))"

definition queue_or_count :: "co_msg \<Rightarrow> co_sys \<Rightarrow> co_sys" where
  "queue_or_count msg sys =
     (if sy_queue sys = None then sys
      else let (ok, sys1) = co_queue_send msg sys in
           if ok then sys1
           else sys1\<lparr>sy_core := (sy_core sys1)\<lparr>co_dropped_rx_chunks := co_dropped_rx_chunks (sy_core sys1) + 1\<rparr>\<rparr>)"

definition companion_api_queue_link_message :: "bool \<Rightarrow> co_sys \<Rightarrow> co_sys" where
  "companion_api_queue_link_message connected sys =
     queue_or_count (if connected then COMPANION_API_MSG_LINK_CONNECTED else COMPANION_API_MSG_LINK_DISCONNECTED) sys"

definition companion_api_queue_state_event :: "u16 \<Rightarrow> co_sys \<Rightarrow> co_sys" where
  "companion_api_queue_state_event opcode sys = queue_or_count (COMPANION_API_MSG_STATE_EVENT opcode) sys"

definition companion_api_spp_rx_cb :: "bytes \<Rightarrow> co_sys \<Rightarrow> co_sys" where
  "companion_api_spp_rx_cb data sys =
     (if data = [] then sys
      else queue_or_count (COMPANION_API_MSG_RX_CHUNK (take COMPANION_API_SPP_CHUNK_MAX_LEN data)) sys)"

definition companion_api_bt_connection_cb :: "bluetooth_service_connection_event \<Rightarrow> co_sys \<Rightarrow> co_sys" where
  "companion_api_bt_connection_cb event sys =
     (case event of
        BLUETOOTH_SVC_CONNECTION_EVENT_SPP_CONNECTED \<Rightarrow> companion_api_queue_link_message True sys
      | BLUETOOTH_SVC_CONNECTION_EVENT_SPP_DISCONNECTED \<Rightarrow> companion_api_queue_link_message False sys
      | _ \<Rightarrow> companion_api_queue_state_event COMPANION_API_OP_BT_AUDIO_STATUS sys)"

definition companion_api_hid_event_handler :: "bool \<Rightarrow> nat option \<Rightarrow> co_sys \<Rightarrow> co_sys" where
  "companion_api_hid_event_handler button_down event_data sys =
     (case event_data of None \<Rightarrow> sys
      | Some button \<Rightarrow>
          if \<not> button_down then sys
          else snd (co_queue_send (COMPANION_API_MSG_HID_BUTTON button) sys))"

datatype co_event_base = PLAYER_SERVICE_EVENT | WIFI_SERVICE_EVENT | CARTRIDGE_SERVICE_EVENT

definition companion_api_state_event_handler :: "co_event_base \<Rightarrow> co_sys \<Rightarrow> co_sys" where
  "companion_api_state_event_handler base sys =
     (case base of
        PLAYER_SERVICE_EVENT \<Rightarrow> companion_api_queue_state_event COMPANION_API_OP_PLAYBACK_STATUS sys
      | WIFI_SERVICE_EVENT \<Rightarrow> companion_api_queue_state_event COMPANION_API_OP_WIFI_STATUS sys
      | _ \<Rightarrow> companion_api_queue_state_event COMPANION_API_OP_SNAPSHOT sys)"

text \<open>An administrative message: refused at once, or queued; its result is the one
  \<^const>\<open>companion_api_process_msg\<close> gives when the task gets to it (\<open>None\<close> here).\<close>

definition companion_api_queue_admin_message :: "bool \<Rightarrow> co_msg \<Rightarrow> co_sys \<Rightarrow> esp_err option \<times> co_sys" where
  "companion_api_queue_admin_message sem_ok msg sys =
     (if \<not> co_initialised (sy_core sys) \<or> sy_queue sys = None then (Some ESP_ERR_INVALID_STATE, sys)
      else if \<not> sem_ok then (Some ESP_ERR_NO_MEM, sys)
      else let (ok, sys1) = co_queue_send msg sys in
           (if ok then None else Some ESP_ERR_TIMEOUT, sys1))"

definition companion_api_service_console_confirm_pairing :: "bool \<Rightarrow> co_sys \<Rightarrow> esp_err option \<times> co_sys" where
  "companion_api_service_console_confirm_pairing sem_ok =
     companion_api_queue_admin_message sem_ok COMPANION_API_MSG_CONSOLE_CONFIRM_PAIRING"

definition companion_api_service_console_cancel_pairing :: "bool \<Rightarrow> co_sys \<Rightarrow> esp_err option \<times> co_sys" where
  "companion_api_service_console_cancel_pairing sem_ok =
     companion_api_queue_admin_message sem_ok COMPANION_API_MSG_CONSOLE_CANCEL_PAIRING"

definition companion_api_service_console_input_button :: "bool \<Rightarrow> nat \<Rightarrow> co_sys \<Rightarrow> esp_err option \<times> co_sys" where
  "companion_api_service_console_input_button sem_ok button sys =
     (if button \<ge> HID_BUTTON_COUNT then (Some ESP_ERR_INVALID_ARG, sys)
      else companion_api_queue_admin_message sem_ok (COMPANION_API_MSG_HID_BUTTON button) sys)"

definition companion_api_service_revoke_client :: "bool \<Rightarrow> bytes option \<Rightarrow> co_sys \<Rightarrow> esp_err option \<times> co_sys" where
  "companion_api_service_revoke_client sem_ok client_id sys =
     (case client_id of None \<Rightarrow> (Some ESP_ERR_INVALID_ARG, sys)
      | Some cid \<Rightarrow>
          if cstr cid = [] then (Some ESP_ERR_INVALID_ARG, sys)
          else companion_api_queue_admin_message sem_ok
                 (COMPANION_API_MSG_CONSOLE_REVOKE_CLIENT (c_strncpy COMPANION_API_CLIENT_ID_MAX_LEN cid)) sys)"

definition companion_api_service_revoke_all_clients :: "bool \<Rightarrow> co_sys \<Rightarrow> esp_err option \<times> co_sys" where
  "companion_api_service_revoke_all_clients sem_ok =
     companion_api_queue_admin_message sem_ok COMPANION_API_MSG_CONSOLE_REVOKE_ALL"

record co_init_env =
  ci_rx_ok :: bool
  ci_tx_ok :: bool
  ci_queue_ok :: bool
  ci_stack_ok :: bool
  ci_task_ok :: bool
  ci_register :: esp_err

definition companion_api_service_init :: "co_env \<Rightarrow> co_init_env \<Rightarrow> u32 \<Rightarrow> co_sys \<Rightarrow> esp_err \<times> co_sys" where
  "companion_api_service_init env ie now sys =
     (let s = sy_core sys in
      if co_initialised s then (ESP_OK, sys)
      else
        let sys1 = sys\<lparr>sy_queue := (if ci_queue_ok ie then Some [] else None),
                       sy_core := s\<lparr>co_tx_frame := ci_tx_ok ie\<rparr>\<rparr> in
        if \<not> ci_rx_ok ie \<or> \<not> ci_tx_ok ie \<or> \<not> ci_queue_ok ie then (ESP_ERR_NO_MEM, sys1)
        else if \<not> ci_stack_ok ie then (ESP_ERR_NO_MEM, sys1)
        else
          let sys2 = sys1\<lparr>sy_core := (sy_core sys1)\<lparr>co_trusted_client_count :=
                of_nat (companion_api_count_trusted_clients env (co_nvs s))\<rparr>\<rparr> in
          if \<not> ci_task_ok ie then (ESP_ERR_NO_MEM, sys2)
          else
            let sys3 = sys2\<lparr>sy_next_heartbeat := now + of_nat (pdMS_TO_TICKS COMPANION_API_HEARTBEAT_MS)\<rparr> in
            if ci_register ie \<noteq> ESP_OK then (ci_register ie, sys3)
            else (ESP_OK, sys3\<lparr>sy_core := (sy_core sys3)\<lparr>co_initialised := True\<rparr>\<rparr>))"

section \<open>Queries\<close>

record companion_api_status =
  as_initialised :: bool
  as_spp_connected :: bool
  as_spp_notifications_enabled :: bool
  as_authenticated :: bool
  as_pairing_pending :: bool
  as_pairing_progress :: nat
  as_pairing_required_count :: nat
  as_trusted_client_count :: u8
  as_event_generation :: u32
  as_rx_frames :: u32
  as_tx_frames :: u32
  as_rx_errors :: u32
  as_dropped_rx_chunks :: u32
  as_active_client_id :: bytes
  as_pending_client_id :: bytes
  as_pending_app_name :: bytes
  as_pending_sequence :: "nat list"

definition companion_api_service_get_status :: "co_env \<Rightarrow> co_state \<Rightarrow> companion_api_status" where
  "companion_api_service_get_status env s =
     \<lparr>as_initialised = co_initialised s, as_spp_connected = ev_spp_connected env,
      as_spp_notifications_enabled = ev_notifications env, as_authenticated = co_authenticated s,
      as_pairing_pending = co_pairing_pending s, as_pairing_progress = co_pairing_progress s,
      as_pairing_required_count = 4, as_trusted_client_count = co_trusted_client_count s,
      as_event_generation = co_event_generation s, as_rx_frames = co_rx_frames s,
      as_tx_frames = co_tx_frames s, as_rx_errors = co_rx_errors s,
      as_dropped_rx_chunks = co_dropped_rx_chunks s, as_active_client_id = co_active_client_id s,
      as_pending_client_id = co_pending_client_id s, as_pending_app_name = co_pending_app_name s,
      as_pending_sequence = co_pending_sequence s\<rparr>"

definition companion_api_service_get_trusted_client_count :: "co_env \<Rightarrow> co_state \<Rightarrow> nat" where
  "companion_api_service_get_trusted_client_count env s = companion_api_count_trusted_clients env (co_nvs s)"

record companion_api_trusted_client_info =
  tc_client_id :: bytes
  tc_app_name :: bytes
  tc_created_at_unix :: u32

definition companion_api_service_get_trusted_client ::
    "co_env \<Rightarrow> nat \<Rightarrow> bool \<Rightarrow> co_state \<Rightarrow> esp_err + companion_api_trusted_client_info" where
  "companion_api_service_get_trusted_client env index out s =
     (if \<not> out then Inl ESP_ERR_INVALID_ARG
      else
        let visible = filter (record_loads env (co_nvs s)) [0..<COMPANION_API_MAX_TRUSTED_CLIENTS] in
        if index \<ge> length visible then Inl ESP_ERR_NOT_FOUND
        else case companion_api_load_record env (co_nvs s) (visible ! index) of
          Inl err \<Rightarrow> Inl err
        | Inr record \<Rightarrow> Inr \<lparr>tc_client_id = c_strncpy COMPANION_API_CLIENT_ID_MAX_LEN (tr_client_id record),
                             tc_app_name = c_strncpy COMPANION_API_APP_NAME_MAX_LEN (tr_app_name record),
                             tc_created_at_unix = tr_created_at_unix record\<rparr>)"

end
