(* ===== verification/Companion_Props.thy ===== *)
theory Companion_Props
  imports Companion_Link
begin

text \<open>
  The requests of a client of the companion service, \<^verbatim>\<open>main/companion_api_service.c\<close>: what they leave
  alone, how they survive any cutting of the byte stream into chunks, and what a client that has
  not authenticated can reach.
\<close>

section \<open>What sending leaves alone\<close>

lemma send_frame_fields [simp]:
  "co_tx_frame (snd (companion_api_send_frame env ft opc rid p s)) = co_tx_frame s"
  "co_initialised (snd (companion_api_send_frame env ft opc rid p s)) = co_initialised s"
  "co_authenticated (snd (companion_api_send_frame env ft opc rid p s)) = co_authenticated s"
  "co_pairing_pending (snd (companion_api_send_frame env ft opc rid p s)) = co_pairing_pending s"
  "co_auth_challenge_pending (snd (companion_api_send_frame env ft opc rid p s)) = co_auth_challenge_pending s"
  "co_pairing_progress (snd (companion_api_send_frame env ft opc rid p s)) = co_pairing_progress s"
  "co_pending_secret (snd (companion_api_send_frame env ft opc rid p s)) = co_pending_secret s"
  "co_pending_sequence (snd (companion_api_send_frame env ft opc rid p s)) = co_pending_sequence s"
  "co_pending_client_id (snd (companion_api_send_frame env ft opc rid p s)) = co_pending_client_id s"
  "co_pending_app_name (snd (companion_api_send_frame env ft opc rid p s)) = co_pending_app_name s"
  "co_pairing_deadline (snd (companion_api_send_frame env ft opc rid p s)) = co_pairing_deadline s"
  "co_auth_nonce (snd (companion_api_send_frame env ft opc rid p s)) = co_auth_nonce s"
  "co_auth_client_id (snd (companion_api_send_frame env ft opc rid p s)) = co_auth_client_id s"
  "co_active_client_id (snd (companion_api_send_frame env ft opc rid p s)) = co_active_client_id s"
  "co_rx_frames (snd (companion_api_send_frame env ft opc rid p s)) = co_rx_frames s"
  "co_nvs (snd (companion_api_send_frame env ft opc rid p s)) = co_nvs s"
  "co_calls (snd (companion_api_send_frame env ft opc rid p s)) = co_calls s"
  "co_player (snd (companion_api_send_frame env ft opc rid p s)) = co_player s"
  "co_history (snd (companion_api_send_frame env ft opc rid p s)) = co_history s"
  by (simp_all add: companion_api_send_frame_def case_prod_beta Let_def)

lemmas send_defs = companion_api_send_error_def companion_api_send_ok_def reply_def
  companion_api_send_pairing_status_def companion_api_send_snapshot_event_def

lemma touch_fields [simp]:
  "co_tx_frame (companion_api_touch_generation s) = co_tx_frame s"
  "co_initialised (companion_api_touch_generation s) = co_initialised s"
  "co_authenticated (companion_api_touch_generation s) = co_authenticated s"
  "co_pairing_pending (companion_api_touch_generation s) = co_pairing_pending s"
  "co_auth_challenge_pending (companion_api_touch_generation s) = co_auth_challenge_pending s"
  "co_pairing_progress (companion_api_touch_generation s) = co_pairing_progress s"
  "co_pending_secret (companion_api_touch_generation s) = co_pending_secret s"
  "co_pending_sequence (companion_api_touch_generation s) = co_pending_sequence s"
  "co_pending_client_id (companion_api_touch_generation s) = co_pending_client_id s"
  "co_pending_app_name (companion_api_touch_generation s) = co_pending_app_name s"
  "co_pairing_deadline (companion_api_touch_generation s) = co_pairing_deadline s"
  "co_auth_nonce (companion_api_touch_generation s) = co_auth_nonce s"
  "co_auth_client_id (companion_api_touch_generation s) = co_auth_client_id s"
  "co_active_client_id (companion_api_touch_generation s) = co_active_client_id s"
  "co_rx_frames (companion_api_touch_generation s) = co_rx_frames s"
  "co_nvs (companion_api_touch_generation s) = co_nvs s"
  "co_calls (companion_api_touch_generation s) = co_calls s"
  "co_player (companion_api_touch_generation s) = co_player s"
  "co_history (companion_api_touch_generation s) = co_history s"
  by (simp_all add: companion_api_touch_generation_def)

section \<open>The byte stream\<close>

text \<open>A request and what handling it makes of the state.\<close>

type_synonym co_request = "u16 \<times> u32 \<times> bytes"

definition request_frame :: "co_request \<Rightarrow> bytes" where
  "request_frame r = (case r of (opcode, request_id, payload) \<Rightarrow>
     companion_frame COMPANION_API_FRAME_REQUEST opcode request_id payload)"

definition serve :: "co_envs \<Rightarrow> co_request \<Rightarrow> co_state \<Rightarrow> co_state" where
  "serve envs r s = (case r of (opcode, request_id, payload) \<Rightarrow>
     count_rx_frame (snd (companion_api_handle_request (envs (co_rx_frames s)) opcode request_id payload s)))"

text \<open>The longest payload for which a chunk always fits behind the part of a frame that is waiting.\<close>

definition small_request :: "co_request \<Rightarrow> bool" where
  "small_request r \<longleftrightarrow> COMPANION_API_HEADER_LEN + length (snd (snd r)) + COMPANION_API_SPP_CHUNK_MAX_LEN
     \<le> COMPANION_API_FRAME_MAX_LEN + 1"

lemma length_companion_frame [simp]:
  "length (companion_frame ft opc rid p) = COMPANION_API_HEADER_LEN + length p"
  by (simp add: companion_frame_def COMPANION_API_HEADER_LEN_def)

lemma companion_frame_fields:
  assumes "length p < 65536"
  shows "rd_u16 (companion_frame ft opc rid p @ rest) 4 = opc"
    and "rd_u32 (companion_frame ft opc rid p @ rest) 6 = rid"
    and "unat (rd_u16 (companion_frame ft opc rid p @ rest) 10) = length p"
    and "rd_bytes (companion_frame ft opc rid p @ rest) 12 (length p) = p"
proof -
  let ?h = "[COMPANION_API_MAGIC0, COMPANION_API_MAGIC1, COMPANION_API_VERSION, ft]"
  let ?n = "u16_bytes (of_nat (length p))"
  have f: "companion_frame ft opc rid p @ rest = ?h @ u16_bytes opc @ u32_bytes rid @ ?n @ p @ rest"
    by (simp add: companion_frame_def)
  show "rd_u16 (companion_frame ft opc rid p @ rest) 4 = opc"
    unfolding f by (rule rd_u16_append) simp
  have "rd_u32 ((?h @ u16_bytes opc) @ u32_bytes rid @ ?n @ p @ rest) 6 = rid"
    by (rule rd_u32_append) simp
  then show "rd_u32 (companion_frame ft opc rid p @ rest) 6 = rid" unfolding f by simp
  have "rd_u16 ((?h @ u16_bytes opc @ u32_bytes rid) @ ?n @ p @ rest) 10 = of_nat (length p)"
    by (rule rd_u16_append) simp
  then show "unat (rd_u16 (companion_frame ft opc rid p @ rest) 10) = length p"
    unfolding f using unat_of_nat_u16 [OF assms] by simp
  have "rd_bytes ((?h @ u16_bytes opc @ u32_bytes rid @ ?n) @ p @ rest) 12 (length p) = p"
    by (rule rd_bytes_append) simp_all
  then show "rd_bytes (companion_frame ft opc rid p @ rest) 12 (length p) = p" unfolding f by simp
qed

text \<open>A whole frame at the front is handled, a part of one waits.\<close>

lemma small_request_bounds:
  assumes "small_request (opc, rid, p)"
  shows "length p < 65536" and "\<not> COMPANION_API_HEADER_LEN + length p > COMPANION_API_FRAME_MAX_LEN"
  using assms by (simp_all add: small_request_def companion_sizes)

lemma parse_frame:
  assumes "small_request r"
  shows "parse_rx envs (request_frame r @ rest) s = parse_rx envs rest (serve envs r s)"
proof -
  obtain opc rid p where r: "r = (opc, rid, p)" by (cases r)
  let ?f = "companion_frame COMPANION_API_FRAME_REQUEST opc rid p"
  note b = small_request_bounds [OF assms [unfolded r]] and fields = companion_frame_fields [OF b(1), of _ opc rid rest]
  have h: "(?f @ rest) ! 0 = COMPANION_API_MAGIC0" "(?f @ rest) ! 1 = COMPANION_API_MAGIC1"
    "(?f @ rest) ! 2 = COMPANION_API_VERSION" "(?f @ rest) ! 3 = COMPANION_API_FRAME_REQUEST"
    by (simp_all add: companion_frame_def)
  have d: "drop (COMPANION_API_HEADER_LEN + length p) (?f @ rest) = rest" by simp
  have "parse_rx envs (?f @ rest) s =
      parse_rx envs rest (count_rx_frame (snd (companion_api_handle_request (envs (co_rx_frames s)) opc rid p s)))"
    by (subst parse_rx.simps)
      (simp only: h fields d b(2) Let_def COMPANION_API_HEADER_LEN_def [symmetric] if_False simp_thms,
        simp add: fields COMPANION_API_HEADER_LEN_def)
  then show ?thesis by (simp add: r request_frame_def serve_def)
qed

lemma parse_short: "length rx < COMPANION_API_HEADER_LEN \<Longrightarrow> parse_rx envs rx s = (rx, s)"
  by (subst parse_rx.simps) simp

lemma length_12_cases:
  assumes "length xs = 12"
  obtains b0 b1 b2 b3 b4 b5 b6 b7 b8 b9 b10 b11 where "xs = [b0, b1, b2, b3, b4, b5, b6, b7, b8, b9, b10, b11]"
  using assms by (auto simp: numeral_eq_Suc length_Suc_conv)

lemma parse_partial:
  assumes "small_request r" and "rx @ post = request_frame r" and "length rx < length (request_frame r)"
  shows "parse_rx envs rx s = (rx, s)"
proof (cases "length rx < COMPANION_API_HEADER_LEN")
  case False
  obtain opc rid p where r: "r = (opc, rid, p)" by (cases r)
  let ?f = "companion_frame COMPANION_API_FRAME_REQUEST opc rid p"
  note b = small_request_bounds [OF assms(1) [unfolded r]] and fields = companion_frame_fields [OF b(1), of _ opc rid "[]", simplified]
  have f: "rx @ post = ?f" and len: "length rx < COMPANION_API_HEADER_LEN + length p"
    using assms(2,3) by (simp_all add: r request_frame_def)
  have "length (take 12 rx) = 12" using False by (simp add: COMPANION_API_HEADER_LEN_def)
  then obtain b0 b1 b2 b3 b4 b5 b6 b7 b8 b9 b10 b11 where
    "take 12 rx = [b0, b1, b2, b3, b4, b5, b6, b7, b8, b9, b10, b11]"
    by (rule length_12_cases)
  then have rx: "rx = [b0, b1, b2, b3, b4, b5, b6, b7, b8, b9, b10, b11] @ drop 12 rx"
    using append_take_drop_id [of 12 rx] by simp
  define rest where "rest = drop 12 rx"
  note rx = rx [folded rest_def]
  have h: "b0 = COMPANION_API_MAGIC0" "b1 = COMPANION_API_MAGIC1" "b2 = COMPANION_API_VERSION"
    using f unfolding rx by (simp_all add: companion_frame_def)
  have same: "rd_u16 rx 10 = rd_u16 ?f 10" unfolding f [symmetric] rx by (simp add: rd_u16_def numeral_eq_Suc)
  have "unat (rd_u16 rx 10) = length p" unfolding same by (rule fields(3))
  then show ?thesis
    using b(2) len False h
    by (subst parse_rx.simps) (simp add: Let_def rx [symmetric], simp add: rx)
qed (rule parse_short)

text \<open>What the parser leaves: nothing, or a proper part of the next frame.\<close>

definition waiting :: "co_request list \<Rightarrow> bytes \<Rightarrow> bool" where
  "waiting rs rx \<longleftrightarrow> (case rs of [] \<Rightarrow> rx = [] | r # _ \<Rightarrow> length rx < length (request_frame r))"

lemma parse_split:
  assumes "list_all small_request rs" and "rx @ post = concat (map request_frame rs)"
  shows "\<exists>served rest rx'. rs = served @ rest \<and> parse_rx envs rx s = (rx', fold (serve envs) served s) \<and>
     rx' @ post = concat (map request_frame rest) \<and> waiting rest rx'"
  using assms
proof (induction rs arbitrary: rx s)
  case Nil
  then show ?case
    by (intro exI [of _ "[]"]) (simp add: waiting_def parse_short COMPANION_API_HEADER_LEN_def)
next
  case (Cons r rs)
  show ?case
  proof (cases "length rx < length (request_frame r)")
    case True
    then obtain mid where "rx @ mid = request_frame r"
      using Cons.prems(2) by (auto simp: append_eq_append_conv2)
    then have "parse_rx envs rx s = (rx, s)"
      using Cons.prems(1) True by (intro parse_partial [where r = r]) simp_all
    then show ?thesis
      using Cons.prems(2) True by (intro exI [of _ "[]"] exI [of _ "r # rs"] exI [of _ rx]) (simp add: waiting_def)
  next
    case False
    define rx2 where "rx2 = drop (length (request_frame r)) rx"
    have "take (length (request_frame r)) rx = request_frame r"
      using False arg_cong [OF Cons.prems(2), of "take (length (request_frame r))"] by simp
    then have rx2: "rx = request_frame r @ rx2" "rx2 @ post = concat (map request_frame rs)"
      using False append_take_drop_id [of "length (request_frame r)" rx]
        arg_cong [OF Cons.prems(2), of "drop (length (request_frame r))"]
      by (simp_all add: rx2_def)
    obtain served rest rx' where ih: "rs = served @ rest"
      "parse_rx envs rx2 (serve envs r s) = (rx', fold (serve envs) served (serve envs r s))"
      "rx' @ post = concat (map request_frame rest)" "waiting rest rx'"
      using Cons.IH [OF _ rx2(2), of "serve envs r s"] Cons.prems(1) by auto
    have "parse_rx envs rx s = (rx', fold (serve envs) (r # served) s)"
      using parse_frame [of r envs rx2 s] Cons.prems(1) ih(2) rx2(1) by simp
    then show ?thesis
      using ih by (intro exI [of _ "r # served"] exI [of _ rest] exI [of _ rx']) simp
  qed
qed

definition receive :: "co_envs \<Rightarrow> bytes list \<Rightarrow> bytes \<times> co_state \<Rightarrow> bytes \<times> co_state" where
  "receive envs chunks st = foldl (\<lambda>st c. companion_api_handle_rx_chunk envs c st) st chunks"

lemma waiting_room:
  assumes "waiting rs rx" and "list_all small_request rs" and "length c \<le> COMPANION_API_SPP_CHUNK_MAX_LEN"
  shows "\<not> length c > COMPANION_API_FRAME_MAX_LEN - length rx"
  using assms
  by (cases rs) (auto simp: waiting_def small_request_def request_frame_def companion_sizes split: prod.splits)

lemma receive_requests:
  assumes "list_all small_request rs" and "rx @ concat chunks = concat (map request_frame rs)"
    and "waiting rs rx" and "list_all (\<lambda>c. length c \<le> COMPANION_API_SPP_CHUNK_MAX_LEN) chunks"
  shows "receive envs chunks (rx, s) = ([], fold (serve envs) rs s)"
  using assms
proof (induction chunks arbitrary: rs rx s)
  case Nil
  then show ?case
    by (cases rs) (auto simp: waiting_def receive_def dest: arg_cong [of _ _ length])
next
  case (Cons c chunks)
  show ?case
  proof (cases "c = []")
    case True
    then show ?thesis
      using Cons.IH [OF Cons.prems(1) _ Cons.prems(3), of s] Cons.prems(2,4)
      by (simp add: receive_def companion_api_handle_rx_chunk_def)
  next
    case False
    have "length c \<le> COMPANION_API_SPP_CHUNK_MAX_LEN" using Cons.prems(4) by simp
    note room = waiting_room [OF Cons.prems(3,1) this]
    obtain served rest rx' where p: "rs = served @ rest"
      "parse_rx envs (rx @ c) s = (rx', fold (serve envs) served s)"
      "rx' @ concat chunks = concat (map request_frame rest)" "waiting rest rx'"
      using parse_split [OF Cons.prems(1), of "rx @ c" "concat chunks" envs s] Cons.prems(2) by auto
    have "receive envs (c # chunks) (rx, s) = receive envs chunks (rx', fold (serve envs) served s)"
      using p(2) False room by (simp add: receive_def companion_api_handle_rx_chunk_def)
    also have "\<dots> = ([], fold (serve envs) rest (fold (serve envs) served s))"
      using Cons.IH [OF _ p(3,4)] Cons.prems(1,4) p(1) by simp
    finally show ?thesis by (simp add: p(1))
  qed
qed

text \<open>C19: The requests of a client are handled once each and in order, however the link cuts their
  byte stream into chunks of up to 512 bytes, when no request is longer than 1537 bytes, the length
  up to which a chunk always fits behind a part of a frame that waits.\<close>

theorem companion_any_chunking:
  assumes "list_all small_request rs" and "concat chunks = concat (map request_frame rs)"
    and "list_all (\<lambda>c. length c \<le> COMPANION_API_SPP_CHUNK_MAX_LEN) chunks"
  shows "receive envs chunks ([], s) = ([], fold (serve envs) rs s)"
proof (rule receive_requests [OF assms(1) _ _ assms(3)])
  show "[] @ concat chunks = concat (map request_frame rs)" using assms(2) by simp
  show "waiting rs []" by (cases rs) (auto simp: waiting_def request_frame_def companion_frame_def)
qed

text \<open>A longer frame followed by another can lose bytes: with 2036 bytes of a frame waiting, a chunk
  with its last 12 bytes and the next frame does not fit, and both frames are dropped.\<close>

lemma pipelined_frame_dropped:
  assumes "length rx = 2036" and "length data = 24"
  shows "fst (companion_api_handle_rx_chunk envs data (rx, s)) = []"
  using assms by (auto simp: companion_api_handle_rx_chunk_def COMPANION_API_FRAME_MAX_LEN_def)

section \<open>What requests leave alone\<close>

text \<open>The part of the state that pairing and authentication are about.\<close>

definition co_session where
  "co_session s = (co_authenticated s, co_active_client_id s, co_nvs s, co_auth_challenge_pending s,
     co_auth_nonce s, co_auth_client_id s, co_pairing_pending s, co_pairing_progress s,
     co_pending_sequence s, co_pending_client_id s, co_pending_app_name s, co_pending_secret s,
     co_pairing_deadline s, co_rx_frames s)"

lemma session_fields:
  assumes "co_session s' = co_session s"
  shows "co_authenticated s' = co_authenticated s" "co_active_client_id s' = co_active_client_id s"
    "co_nvs s' = co_nvs s" "co_auth_challenge_pending s' = co_auth_challenge_pending s"
    "co_auth_nonce s' = co_auth_nonce s" "co_auth_client_id s' = co_auth_client_id s"
    "co_pairing_pending s' = co_pairing_pending s" "co_pairing_progress s' = co_pairing_progress s"
    "co_pending_sequence s' = co_pending_sequence s" "co_pending_client_id s' = co_pending_client_id s"
    "co_pending_app_name s' = co_pending_app_name s" "co_pending_secret s' = co_pending_secret s"
    "co_pairing_deadline s' = co_pairing_deadline s" "co_rx_frames s' = co_rx_frames s"
  using assms by (simp_all add: co_session_def)

lemma session_frames [simp]:
  "co_session (snd (companion_api_send_frame env ft opc rid p s)) = co_session s"
  "co_session (companion_api_touch_generation s) = co_session s"
  "co_session (snd (svc_call env c s)) = co_session s"
  "co_session (snd (on_player f s)) = co_session s"
  "co_session (s\<lparr>co_history := h\<rparr>) = co_session s"
  "co_session (s\<lparr>co_player := p2\<rparr>) = co_session s"
  by (simp_all add: co_session_def svc_call_def on_player_def split: prod.split)

lemma session_sends [simp]:
  "co_session (snd (companion_api_send_error env opc rid e s)) = co_session s"
  "co_session (snd (companion_api_send_ok env opc rid w s)) = co_session s"
  "co_session (snd (reply env opc rid es s)) = co_session s"
  "co_session (snd (companion_api_send_pairing_status env rid ft s)) = co_session s"
  "co_session (snd (companion_api_send_snapshot_event env opc s)) = co_session s"
  "co_session (snd (send_page env opc rid h g b off n tot s)) = co_session s"
  by (simp_all add: send_defs send_page_def Let_def split: prod.split)

lemma session_finish [simp]: "co_session (snd (finish env opc rid es r)) = co_session (snd r)"
  by (simp add: finish_def Let_def split: prod.split)

lemma session_call_with [simp]: "co_session (snd (call_with_u32 env p t f s)) = co_session s"
  by (simp add: call_with_u32_def split: option.split)

lemma session_actions [simp]:
  "co_session (snd (playback_action env a v s)) = co_session s"
  "co_session (snd (lastfm_action env a p s)) = co_session s"
  "co_session (snd (led_action env p s)) = co_session s"
  by (simp_all add: playback_action_def lastfm_action_def led_action_def Let_def case_prod_beta split: option.split)

lemmas companion_handler_defs =
  companion_api_handle_hello_def
  companion_api_handle_capabilities_def
  companion_api_handle_snapshot_def
  companion_api_handle_trusted_list_def
  companion_api_handle_playback_control_def
  companion_api_handle_track_page_def
  companion_api_handle_history_album_page_def
  companion_api_handle_history_track_page_def
  companion_api_handle_history_clear_def
  companion_api_handle_wifi_scan_results_def
  companion_api_handle_library_album_def
  companion_api_handle_library_cover_def
  companion_api_handle_wifi_connect_def
  companion_api_handle_wifi_simple_def
  companion_api_handle_wifi_list_slots_def
  companion_api_handle_wifi_save_slot_def
  companion_api_handle_wifi_reconnect_def
  companion_api_handle_lastfm_control_def
  companion_api_handle_lastfm_request_token_def
  companion_api_handle_bt_audio_control_def
  companion_api_handle_output_status_def
  companion_api_handle_output_select_def
  companion_api_handle_bt_scan_start_def
  companion_api_handle_bt_scan_results_def
  companion_api_handle_bt_bonded_list_def
  companion_api_handle_bt_unbond_def
  companion_api_handle_hid_status_def
  companion_api_handle_hid_led_set_def
  companion_api_handle_script_status_def
  companion_api_handle_script_list_def
  companion_api_handle_script_log_def
  companion_api_handle_script_run_def
  companion_api_handle_system_reboot_def
  companion_api_schedule_reboot_def

lemma session_handlers [simp]:
  "co_session (snd (companion_api_handle_hello env opc rid s)) = co_session s"
  "co_session (snd (companion_api_handle_capabilities env opc rid s)) = co_session s"
  "co_session (snd (companion_api_handle_snapshot env opc rid s)) = co_session s"
  "co_session (snd (companion_api_handle_trusted_list env rid s)) = co_session s"
  "co_session (snd (companion_api_handle_playback_control env rid p s)) = co_session s"
  "co_session (snd (companion_api_handle_track_page env rid p s)) = co_session s"
  "co_session (snd (companion_api_handle_history_album_page env rid p s)) = co_session s"
  "co_session (snd (companion_api_handle_history_track_page env rid p s)) = co_session s"
  "co_session (snd (companion_api_handle_history_clear env rid s)) = co_session s"
  "co_session (snd (companion_api_handle_wifi_scan_results env rid p s)) = co_session s"
  "co_session (snd (companion_api_handle_library_album env rid s)) = co_session s"
  "co_session (snd (companion_api_handle_library_cover env rid p s)) = co_session s"
  "co_session (snd (companion_api_handle_wifi_connect env rid p s)) = co_session s"
  "co_session (snd (companion_api_handle_wifi_simple env opc rid p s)) = co_session s"
  "co_session (snd (companion_api_handle_wifi_list_slots env rid s)) = co_session s"
  "co_session (snd (companion_api_handle_wifi_save_slot env rid p s)) = co_session s"
  "co_session (snd (companion_api_handle_wifi_reconnect env rid s)) = co_session s"
  "co_session (snd (companion_api_handle_lastfm_control env rid p s)) = co_session s"
  "co_session (snd (companion_api_handle_lastfm_request_token env rid s)) = co_session s"
  "co_session (snd (companion_api_handle_bt_audio_control env rid p s)) = co_session s"
  "co_session (snd (companion_api_handle_output_status env rid s)) = co_session s"
  "co_session (snd (companion_api_handle_output_select env rid p s)) = co_session s"
  "co_session (snd (companion_api_handle_bt_scan_start env rid s)) = co_session s"
  "co_session (snd (companion_api_handle_bt_scan_results env rid s)) = co_session s"
  "co_session (snd (companion_api_handle_bt_bonded_list env rid s)) = co_session s"
  "co_session (snd (companion_api_handle_bt_unbond env rid p s)) = co_session s"
  "co_session (snd (companion_api_handle_hid_status env rid s)) = co_session s"
  "co_session (snd (companion_api_handle_hid_led_set env rid p s)) = co_session s"
  "co_session (snd (companion_api_handle_script_status env rid s)) = co_session s"
  "co_session (snd (companion_api_handle_script_list env rid p s)) = co_session s"
  "co_session (snd (companion_api_handle_script_log env rid p s)) = co_session s"
  "co_session (snd (companion_api_handle_script_run env rid p s)) = co_session s"
  "co_session (snd (companion_api_handle_system_reboot env opc rid b s)) = co_session s"
  by (simp_all add: companion_handler_defs Let_def case_prod_beta split: option.split sum.split prod.split list.split)

lemma trusted_request_session:
  assumes "opcode \<noteq> COMPANION_API_OP_TRUSTED_REVOKE"
  shows "co_session (snd (companion_handle_trusted_request env opcode rid p s)) = co_session s"
  using assms by (simp add: companion_handle_trusted_request_def)

section \<open>Clients that are not authenticated\<close>

text \<open>What the requests of a client can reach outside the service: the other services and NVS.\<close>

definition co_outside where
  "co_outside s = (co_calls s, co_player s, co_history s, co_nvs s)"

lemma outside_frames [simp]:
  "co_outside (snd (companion_api_send_frame env ft opc rid p s)) = co_outside s"
  "co_outside (companion_api_touch_generation s) = co_outside s"
  "co_outside (companion_api_clear_pairing s) = co_outside s"
  by (simp_all add: co_outside_def companion_api_clear_pairing_def)

lemma outside_sends [simp]:
  "co_outside (snd (companion_api_send_error env opc rid e s)) = co_outside s"
  "co_outside (snd (companion_api_send_ok env opc rid w s)) = co_outside s"
  "co_outside (snd (reply env opc rid es s)) = co_outside s"
  "co_outside (snd (companion_api_send_pairing_status env rid ft s)) = co_outside s"
  by (simp_all add: send_defs)

lemma outside_open_handlers [simp]:
  "co_outside (snd (companion_api_handle_hello env opc rid s)) = co_outside s"
  "co_outside (snd (companion_api_handle_capabilities env opc rid s)) = co_outside s"
  "co_outside (snd (companion_api_handle_pair_begin env rid p s)) = co_outside s"
  "co_outside (snd (companion_api_handle_auth_challenge env rid p s)) = co_outside s"
  "co_outside (snd (companion_api_handle_auth_proof env rid p s)) = co_outside s"
  by (simp_all add: companion_api_handle_hello_def companion_api_handle_capabilities_def
      companion_api_handle_pair_begin_def companion_api_handle_auth_challenge_def
      companion_api_handle_auth_proof_def Let_def split: option.split sum.split prod.split)
    (simp_all add: co_outside_def companion_api_clear_pairing_def send_defs)

lemma open_opcodes:
  "\<not> companion_api_opcode_requires_auth opcode \<Longrightarrow>
   companion_api_handle_request env opcode rid p s =
     (if opcode = COMPANION_API_OP_HELLO then companion_api_handle_hello env opcode rid s
      else if opcode = COMPANION_API_OP_CAPABILITIES then companion_api_handle_capabilities env opcode rid s
      else if opcode = COMPANION_API_OP_PING then
        (if length p > COMPANION_API_FRAME_MAX_LEN - COMPANION_API_HEADER_LEN
         then companion_api_send_error env opcode rid COMPANION_API_ERR_BAD_FRAME s
         else companion_api_send_frame env COMPANION_API_FRAME_RESPONSE opcode rid p s)
      else if opcode = COMPANION_API_OP_PAIR_BEGIN then companion_api_handle_pair_begin env rid p s
      else if opcode = COMPANION_API_OP_PAIR_STATUS
      then companion_api_send_pairing_status env rid COMPANION_API_FRAME_RESPONSE s
      else if opcode = COMPANION_API_OP_PAIR_CANCEL
      then companion_api_send_pairing_status env rid COMPANION_API_FRAME_RESPONSE
             (companion_api_touch_generation (companion_api_clear_pairing s))
      else if opcode = COMPANION_API_OP_AUTH_CHALLENGE
      then companion_api_handle_auth_challenge env rid p s
      else companion_api_handle_auth_proof env rid p s)"
  by (auto simp: companion_api_handle_request_def companion_api_opcode_requires_auth_def)

lemma stranger_request:
  "\<not> co_authenticated s \<Longrightarrow> co_outside (snd (companion_api_handle_request env opc rid p s)) = co_outside s"
  by (cases "companion_api_opcode_requires_auth opc")
    (simp_all add: open_opcodes, simp add: companion_api_handle_request_def)

text \<open>Which request makes a client authenticated: a proof with the HMAC, under the secret of a
  trusted client, of the nonce the service drew for this client.\<close>

definition proves_secret :: "co_env \<Rightarrow> bytes \<Rightarrow> co_state \<Rightarrow> bool" where
  "proves_secret env payload s \<longleftrightarrow> co_auth_challenge_pending s \<and>
     (\<exists>slot record. companion_api_load_record env (co_nvs s) slot = Inr record \<and>
        cstr (tr_client_id record) = co_auth_client_id s \<and>
        companion_api_find_tlv payload COMPANION_API_TLV_AUTH_HMAC =
          ev_hmac env (tr_secret record) (co_auth_nonce s) \<and>
        ev_hmac env (tr_secret record) (co_auth_nonce s) \<noteq> None)"

text \<open>SHA-256 digests have 32 bytes.\<close>

definition hmac_lawful :: "co_env \<Rightarrow> bool" where
  "hmac_lawful env \<longleftrightarrow> (\<forall>secret data h. ev_hmac env secret data = Some h \<longrightarrow> length h = COMPANION_API_HMAC_LEN)"

lemma find_record_found:
  assumes "companion_api_find_record env nvs cid = Inr (slot, record)"
  shows "companion_api_load_record env nvs slot = Inr record" and "cstr (tr_client_id record) = cid"
    and "cid \<noteq> []" and "slot < COMPANION_API_MAX_TRUSTED_CLIENTS"
proof -
  obtain sl where f: "find (record_of_client env nvs cid) [0..<COMPANION_API_MAX_TRUSTED_CLIENTS] = Some sl"
    and l: "companion_api_load_record env nvs sl = Inr record" "slot = sl" and c: "cid \<noteq> []"
    using assms by (auto simp: companion_api_find_record_def split: option.splits sum.splits if_splits)
  then show "companion_api_load_record env nvs slot = Inr record" "cid \<noteq> []" by simp_all
  from f have "record_of_client env nvs cid sl" "sl < COMPANION_API_MAX_TRUSTED_CLIENTS"
    by (auto simp: find_Some_iff)
  then show "cstr (tr_client_id record) = cid" "slot < COMPANION_API_MAX_TRUSTED_CLIENTS"
    using l by (simp_all add: record_of_client_def)
qed

lemma auth_proof_cases:
  assumes "hmac_lawful env"
  obtains "co_session (snd (companion_api_handle_auth_proof env rid p s)) = co_session s"
  | cid where "proves_secret env p s" "cid = co_auth_client_id s"
    "co_session (snd (companion_api_handle_auth_proof env rid p s)) =
       co_session (s\<lparr>co_authenticated := True, co_auth_challenge_pending := False,
         co_active_client_id := c_strncpy COMPANION_API_CLIENT_ID_MAX_LEN cid\<rparr>)"
proof -
  let ?cid = "companion_api_tlv_string p COMPANION_API_TLV_CLIENT_ID (COMPANION_API_CLIENT_ID_MAX_LEN + 1)"
  let ?h = "companion_api_find_tlv p COMPANION_API_TLV_AUTH_HMAC"
  show ?thesis
  proof (cases "co_auth_challenge_pending s \<and> ?cid = Some (co_auth_client_id s) \<and>
      (\<exists>slot entry h. companion_api_find_record env (co_nvs s) (co_auth_client_id s) = Inr (slot, entry) \<and>
        ?h = Some h \<and> length h = COMPANION_API_HMAC_LEN \<and>
        ev_hmac env (tr_secret entry) (co_auth_nonce s) = Some h)")
    case True
    then obtain slot entry h where c: "co_auth_challenge_pending s" "?cid = Some (co_auth_client_id s)"
      "companion_api_find_record env (co_nvs s) (co_auth_client_id s) = Inr (slot, entry)"
      "?h = Some h" "length h = COMPANION_API_HMAC_LEN" "ev_hmac env (tr_secret entry) (co_auth_nonce s) = Some h"
      by blast
    have "proves_secret env p s"
      unfolding proves_secret_def using c find_record_found(1,2) [OF c(3)]
      by (intro conjI exI [of _ slot] exI [of _ entry]) simp_all
    moreover have "co_session (snd (companion_api_handle_auth_proof env rid p s)) =
       co_session (s\<lparr>co_authenticated := True, co_auth_challenge_pending := False,
         co_active_client_id := c_strncpy COMPANION_API_CLIENT_ID_MAX_LEN (co_auth_client_id s)\<rparr>)"
      using c by (simp add: companion_api_handle_auth_proof_def companion_api_hmac_sha256_def secure_equal_iff Let_def)
    ultimately show ?thesis using that(2) by blast
  next
    case False
    then have "co_session (snd (companion_api_handle_auth_proof env rid p s)) = co_session s"
      using assms
      by (auto simp: companion_api_handle_auth_proof_def companion_api_hmac_sha256_def hmac_lawful_def
          secure_equal_iff Let_def split: option.split sum.split prod.split)
    then show ?thesis by (rule that(1))
  qed
qed

lemma stranger_keeps_authenticated:
  assumes "hmac_lawful env" and "\<not> co_authenticated s"
    and "co_authenticated (snd (companion_api_handle_request env opc rid p s))"
  shows "opc = COMPANION_API_OP_AUTH_PROOF" and "proves_secret env p s"
    and "co_active_client_id (snd (companion_api_handle_request env opc rid p s)) =
      c_strncpy COMPANION_API_CLIENT_ID_MAX_LEN (co_auth_client_id s)"
proof -
  have free: "\<not> companion_api_opcode_requires_auth opc"
    using assms(2,3) by (auto simp: companion_api_handle_request_def send_defs)
  have auth_kept: "co_authenticated (snd (companion_api_handle_pair_begin env rid p s)) = co_authenticated s"
    "co_authenticated (snd (companion_api_handle_auth_challenge env rid p s)) = co_authenticated s"
    "co_authenticated (companion_api_clear_pairing s) = co_authenticated s"
    by (simp_all add: companion_api_handle_pair_begin_def companion_api_handle_auth_challenge_def Let_def
        companion_api_clear_pairing_def send_defs split: option.split sum.split prod.split)
  have "co_authenticated (snd (companion_api_handle_hello env opc rid s)) = co_authenticated s"
    "co_authenticated (snd (companion_api_handle_capabilities env opc rid s)) = co_authenticated s"
    by (rule session_fields(1); simp)+
  with auth_kept assms(2,3) free have opc: "opc = COMPANION_API_OP_AUTH_PROOF"
    by (auto simp: open_opcodes companion_api_opcode_requires_auth_def send_defs split: if_splits)
  then show "opc = COMPANION_API_OP_AUTH_PROOF" .
  have eq: "companion_api_handle_request env opc rid p s = companion_api_handle_auth_proof env rid p s"
    using free opc by (simp add: open_opcodes companion_op_defs)
  show "proves_secret env p s"
    "co_active_client_id (snd (companion_api_handle_request env opc rid p s)) =
      c_strncpy COMPANION_API_CLIENT_ID_MAX_LEN (co_auth_client_id s)"
    by (rule auth_proof_cases [OF assms(1), of rid p s]; use assms(2,3) in \<open>simp add: eq co_session_def\<close>)+
qed

text \<open>C18: A request of a client that has not authenticated makes no call into another service, puts
  nothing into the queues of the player and of the play history, and leaves the trusted clients
  in NVS as they are. And no request but a proof makes the client authenticated: a proof
  that a challenge is pending for, with the HMAC of its nonce under the secret NVS
  holds for this very client.\<close>

theorem companion_stranger_harmless:
  assumes "hmac_lawful env" and "\<not> co_authenticated s"
    and "s' = snd (companion_api_handle_request env opcode request_id payload s)"
  shows "co_calls s' = co_calls s \<and> co_player s' = co_player s \<and> co_history s' = co_history s \<and> co_nvs s' = co_nvs s \<and>
     (\<not> co_authenticated s' \<or> opcode = COMPANION_API_OP_AUTH_PROOF \<and> proves_secret env payload s)"
  using stranger_request [OF assms(2), of env opcode request_id payload]
    stranger_keeps_authenticated(1,2) [OF assms(1,2), of opcode request_id payload]
  unfolding assms(3) by (auto simp: co_outside_def)

end
