(* ===== verification/Companion_Trust.thy ===== *)
theory Companion_Trust
  imports Companion_Props "HOL-Library.Sublist"
begin

text \<open>
  Trust in the companion service, \<^verbatim>\<open>main/companion_api_service.c\<close>: the records of the trusted
  clients in NVS seen as a map from names to secrets, the two ways to become authenticated (the
  proof of a secret, or a pairing confirmed at the device), and the return of a paired client.
\<close>

section \<open>The trusted clients\<close>

lemma trusted_record_layout:
  assumes "trusted_wf r"
  shows "length (enc_trusted_record r) = TRUSTED_RECORD_BYTES" and "dec_trusted_record (enc_trusted_record r) = r"
proof -
  obtain v k cid app sec t where r: "r = \<lparr>tr_version = v, tr_valid = k, tr_client_id = cid, tr_app_name = app,
      tr_secret = sec, tr_created_at_unix = t\<rparr>" by (cases r)
  have len: "length cid = 37" "length app = 33" "length sec = 32"
    using assms by (simp_all add: r trusted_wf_def)
  then show "length (enc_trusted_record r) = TRUSTED_RECORD_BYTES"
    by (simp add: r enc_trusted_record_def TRUSTED_RECORD_BYTES_def)
  have e: "enc_trusted_record r = u32_bytes v @ [k, 0, 0, 0] @ cid @ app @ sec @ [0, 0] @ u32_bytes t"
    by (simp add: r enc_trusted_record_def)
  define h where "h = [k, 0, 0, 0]"
  have "rd_u32 ([0, 0] @ u32_bytes t @ []) 2 = t" by (rule rd_u32_append) simp
  then have t: "rd_u32 (0 # 0 # u32_bytes t) 2 = t" by simp
  have h: "length h = 4" and k: "enc_trusted_record r ! 4 = k" unfolding e by (simp_all add: h_def nth_append)
  show "dec_trusted_record (enc_trusted_record r) = r"
    unfolding dec_trusted_record_def k unfolding e h_def [symmetric] using len h t by (simp add: r rd_layout)
qed

interpretation trusted_codec: fixed_codec enc_trusted_record dec_trusted_record TRUSTED_RECORD_BYTES trusted_wf
  by unfold_locales (rule trusted_record_layout; assumption)+

text \<open>NVS at work, the name and the secret a slot holds, and the trusted clients as a map.\<close>

definition nvs_works :: "co_env \<Rightarrow> bool" where
  "nvs_works env \<longleftrightarrow> (\<forall>b. ev_nvs_open env b = ESP_OK) \<and> (\<forall>k. ev_nvs_get env k = ESP_OK) \<and>
     ev_nvs_set env = ESP_OK \<and> (\<forall>k. ev_nvs_erase env k = ESP_OK) \<and> ev_nvs_commit env = ESP_OK"

definition client_at :: "co_env \<Rightarrow> (nat \<Rightarrow> bytes option) \<Rightarrow> nat \<Rightarrow> (bytes \<times> bytes) option" where
  "client_at env nvs slot = (case companion_api_load_record env nvs slot of Inl _ \<Rightarrow> None
     | Inr r \<Rightarrow> Some (cstr (tr_client_id r), tr_secret r))"

definition trusted_clients :: "co_env \<Rightarrow> (nat \<Rightarrow> bytes option) \<Rightarrow> bytes \<Rightarrow> bytes option" where
  "trusted_clients env nvs cid =
     (case companion_api_find_record env nvs cid of Inl _ \<Rightarrow> None | Inr (_, r) \<Rightarrow> Some (tr_secret r))"

definition trusted_unique :: "co_env \<Rightarrow> (nat \<Rightarrow> bytes option) \<Rightarrow> bool" where
  "trusted_unique env nvs \<longleftrightarrow> (\<forall>i j cid a b. client_at env nvs i = Some (cid, a) \<longrightarrow>
     client_at env nvs j = Some (cid, b) \<longrightarrow> i = j) \<and> (\<forall>i a. client_at env nvs i \<noteq> Some ([], a))"

definition client_name_ok :: "bytes \<Rightarrow> bool" where
  "client_name_ok cid \<longleftrightarrow> cid \<noteq> [] \<and> cstr cid = cid \<and> length cid \<le> COMPANION_API_CLIENT_ID_MAX_LEN"

lemma load_upd:
  "i \<noteq> slot \<Longrightarrow> companion_api_load_record env (nvs(slot := b)) i = companion_api_load_record env nvs i"
  by (simp add: companion_api_load_record_def)

lemma client_at_other: "i \<noteq> slot \<Longrightarrow> client_at env (nvs(slot := b)) i = client_at env nvs i"
  by (simp add: client_at_def load_upd)

lemma client_at_clear: "client_at env (nvs(slot := None)) slot = None"
  by (simp add: client_at_def companion_api_load_record_def)

lemma client_at_slot: "client_at env nvs slot = Some x \<Longrightarrow> slot < COMPANION_API_MAX_TRUSTED_CLIENTS"
  by (auto simp: client_at_def companion_api_load_record_def not_le split: if_splits)

lemma cstr_c_array: "cstr s = s \<Longrightarrow> cstr (s @ replicate n 0) = s"
proof -
  assume a: "cstr s = s"
  then have "\<forall>x \<in> set s. x \<noteq> 0" by (metis cstr_no_nul)
  then show ?thesis by (simp add: cstr_def takeWhile_append2 takeWhile_replicate)
qed

lemma client_at_stored:
  assumes "nvs_works env" and "slot < COMPANION_API_MAX_TRUSTED_CLIENTS" and "client_name_ok cid"
    and "length sec = COMPANION_API_SECRET_LEN" and "length app \<le> COMPANION_API_APP_NAME_MAX_LEN"
  shows "client_at env (nvs(slot \<mapsto> enc_trusted_record \<lparr>tr_version = COMPANION_API_NVS_RECORD_VERSION,
      tr_valid = 1, tr_client_id = c_array 37 cid, tr_app_name = c_array 33 app, tr_secret = sec,
      tr_created_at_unix = t\<rparr>)) slot = Some (cid, sec)"
proof -
  let ?r = "\<lparr>tr_version = COMPANION_API_NVS_RECORD_VERSION, tr_valid = 1, tr_client_id = c_array 37 cid,
      tr_app_name = c_array 33 app, tr_secret = sec, tr_created_at_unix = t\<rparr>"
  have wf: "trusted_wf ?r"
    using assms(3-5) by (simp add: trusted_wf_def c_array_def client_name_ok_def companion_sizes)
  have "37 - length cid = Suc (36 - length cid)"
    using assms(3) unfolding client_name_ok_def COMPANION_API_CLIENT_ID_MAX_LEN_def by arith
  then have "c_array 37 cid ! 36 = 0"
    using assms(3) by (simp add: c_array_def client_name_ok_def companion_sizes nth_append nth_replicate
        del: replicate_Suc)
  then have cid: "(c_array 37 cid)[36 := 0] = c_array 37 cid" by (metis list_update_id)
  have "cstr (c_array 37 cid) = cid"
    using assms(3) by (simp add: c_array_def cstr_c_array client_name_ok_def)
  then show ?thesis
    using assms(1,2) trusted_record_layout [OF wf] cid
    by (simp add: client_at_def companion_api_load_record_def nvs_works_def c_array_def [of TRUSTED_RECORD_BYTES]
        COMPANION_API_CLIENT_ID_MAX_LEN_def)
qed

lemma find_record_client_at:
  "record_of_client env nvs cid slot \<longleftrightarrow> (\<exists>sec. client_at env nvs slot = Some (cid, sec))"
  by (auto simp: record_of_client_def client_at_def split: sum.split)

lemma trusted_clients_iff:
  assumes "trusted_unique env nvs" and "cid \<noteq> []"
  shows "trusted_clients env nvs cid = Some sec \<longleftrightarrow> (\<exists>slot. client_at env nvs slot = Some (cid, sec))"
proof (cases "companion_api_find_record env nvs cid")
  case (Inl e)
  have "find (record_of_client env nvs cid) [0..<COMPANION_API_MAX_TRUSTED_CLIENTS] = None"
  proof (rule ccontr)
    assume "find (record_of_client env nvs cid) [0..<COMPANION_API_MAX_TRUSTED_CLIENTS] \<noteq> None"
    then obtain sl where sl: "find (record_of_client env nvs cid) [0..<COMPANION_API_MAX_TRUSTED_CLIENTS] = Some sl"
      by blast
    then have "record_of_client env nvs cid sl" by (auto simp: find_Some_iff)
    with Inl sl assms(2) show False
      by (auto simp: companion_api_find_record_def record_of_client_def split: sum.splits)
  qed
  then have "\<not> record_of_client env nvs cid slot" if "slot < COMPANION_API_MAX_TRUSTED_CLIENTS" for slot
    using that by (simp add: find_None_iff)
  then show ?thesis
    using Inl client_at_slot by (fastforce simp: trusted_clients_def find_record_client_at)
next
  case (Inr x)
  then obtain slot r where f: "companion_api_find_record env nvs cid = Inr (slot, r)" by (cases x) auto
  have c: "client_at env nvs slot = Some (cid, tr_secret r)"
    using find_record_found(1,2) [OF f] by (simp add: client_at_def)
  show ?thesis
    using f c assms(1) by (fastforce simp: trusted_clients_def trusted_unique_def)
qed

lemma find_record_slot:
  assumes "trusted_unique env nvs" and "client_at env nvs slot = Some (cid, sec)" and "cid \<noteq> []"
  obtains r where "companion_api_find_record env nvs cid = Inr (slot, r)"
proof -
  have "trusted_clients env nvs cid = Some sec" using trusted_clients_iff [OF assms(1,3)] assms(2) by blast
  then obtain sl r where f: "companion_api_find_record env nvs cid = Inr (sl, r)"
    by (auto simp: trusted_clients_def split: sum.splits)
  moreover have "client_at env nvs sl = Some (cid, tr_secret r)"
    using find_record_found(1,2) [OF f] by (simp add: client_at_def)
  then have "sl = slot" using assms(1,2) unfolding trusted_unique_def by blast
  ultimately show ?thesis using that by blast
qed

lemma trusted_clients_empty [simp]: "trusted_clients env nvs [] = None"
  by (simp add: trusted_clients_def companion_api_find_record_def)

lemma record_loads_client_at: "record_loads env nvs slot \<longleftrightarrow> client_at env nvs slot \<noteq> None"
  by (simp add: record_loads_def client_at_def split: sum.split)

text \<open>Writing a record over a free slot or over the slot of its client, and clearing a slot.\<close>

lemma trusted_put:
  assumes u: "trusted_unique env nvs" and c: "client_at env nvs' slot = Some (cid, sec)"
    and o: "\<And>i. i \<noteq> slot \<Longrightarrow> client_at env nvs' i = client_at env nvs i"
    and free: "\<And>i a. i \<noteq> slot \<Longrightarrow> client_at env nvs i \<noteq> Some (cid, a)"
    and own: "\<And>c' a. client_at env nvs slot = Some (c', a) \<Longrightarrow> c' = cid" and "cid \<noteq> []"
  shows "trusted_unique env nvs'" and "trusted_clients env nvs' = (trusted_clients env nvs)(cid \<mapsto> sec)"
proof -
  show u': "trusted_unique env nvs'"
    unfolding trusted_unique_def
  proof (intro conjI allI impI)
    show "client_at env nvs' i \<noteq> Some ([], a)" for i a
      using c o u assms(6) unfolding trusted_unique_def by (metis option.inject prod.inject)
    fix i j c' a b
    assume ij: "client_at env nvs' i = Some (c', a)" "client_at env nvs' j = Some (c', b)"
    show "i = j"
      using ij c o free u unfolding trusted_unique_def by (metis option.inject prod.inject)
  qed
  show "trusted_clients env nvs' = (trusted_clients env nvs)(cid \<mapsto> sec)"
  proof
    fix c'
    have "trusted_clients env nvs' c' = Some a \<longleftrightarrow> ((trusted_clients env nvs)(cid \<mapsto> sec)) c' = Some a" for a
    proof (cases "c' = []")
      case False
      have "(\<exists>i. client_at env nvs' i = Some (c', a)) \<longleftrightarrow>
          (if c' = cid then a = sec else \<exists>i. client_at env nvs i = Some (c', a))"
        using c o free own by (metis option.inject prod.inject)
      then show ?thesis
        using trusted_clients_iff [OF u' False] trusted_clients_iff [OF u False] by auto
    qed (use assms(6) in simp)
    then show "trusted_clients env nvs' c' = ((trusted_clients env nvs)(cid \<mapsto> sec)) c'"
      by (metis not_Some_eq)
  qed
qed

lemma trusted_drop:
  assumes u: "trusted_unique env nvs" and c: "client_at env nvs slot = Some (cid, sec)"
  shows "trusted_unique env (nvs(slot := None))"
    and "trusted_clients env (nvs(slot := None)) = (trusted_clients env nvs)(cid := None)"
proof -
  have eq: "client_at env (nvs(slot := None)) i = (if i = slot then None else client_at env nvs i)" for i
    by (simp add: client_at_clear client_at_other)
  show u': "trusted_unique env (nvs(slot := None))"
    using u unfolding trusted_unique_def eq by (metis option.discI)
  show "trusted_clients env (nvs(slot := None)) = (trusted_clients env nvs)(cid := None)"
  proof
    fix c'
    have "trusted_clients env (nvs(slot := None)) c' = Some a \<longleftrightarrow> ((trusted_clients env nvs)(cid := None)) c' = Some a" for a
    proof (cases "c' = []")
      case False
      have "(\<exists>i. client_at env (nvs(slot := None)) i = Some (c', a)) \<longleftrightarrow>
          c' \<noteq> cid \<and> (\<exists>i. client_at env nvs i = Some (c', a))"
        unfolding eq using c u unfolding trusted_unique_def by (metis option.discI option.inject prod.inject)
      then show ?thesis
        using trusted_clients_iff [OF u' False] trusted_clients_iff [OF u False] by auto
    qed simp
    then show "trusted_clients env (nvs(slot := None)) c' = ((trusted_clients env nvs)(cid := None)) c'"
      by (metis not_Some_eq)
  qed
qed


lemma recount_fields [simp]:
  "co_authenticated (recount_trusted env s) = co_authenticated s"
  "co_active_client_id (recount_trusted env s) = co_active_client_id s"
  "co_nvs (recount_trusted env s) = co_nvs s"
  "co_pending_client_id (recount_trusted env s) = co_pending_client_id s"
  "co_pairing_pending (recount_trusted env s) = co_pairing_pending s"
  "co_trusted_client_count (recount_trusted env s) = of_nat (companion_api_count_trusted_clients env (co_nvs s))"
  by (simp_all add: recount_trusted_def) (simp add: companion_api_touch_generation_def)

lemma store_record_slot:
  assumes "nvs_works env" and "client_name_ok cid" and "length sec = COMPANION_API_SECRET_LEN"
    and "trusted_unique env (co_nvs s)"
  obtains (full) "companion_api_store_record env cid app sec s = (ESP_ERR_NO_MEM, s)"
      "trusted_clients env (co_nvs s) cid = None"
      "\<And>i. i < COMPANION_API_MAX_TRUSTED_CLIENTS \<Longrightarrow> client_at env (co_nvs s) i \<noteq> None"
  | (stored) s1 slot nvs' where "companion_api_store_record env cid app sec s = (ESP_OK, recount_trusted env s1)"
      "s1 = s\<lparr>co_nvs := nvs'\<rparr>"
      "client_at env nvs' slot = Some (cid, sec)"
      "\<And>i. i \<noteq> slot \<Longrightarrow> client_at env nvs' i = client_at env (co_nvs s) i"
      "\<And>i a. i \<noteq> slot \<Longrightarrow> client_at env (co_nvs s) i \<noteq> Some (cid, a)"
      "\<And>c' a. client_at env (co_nvs s) slot = Some (c', a) \<Longrightarrow> c' = cid"
proof -
  have cid: "cid \<noteq> []" "cstr cid = cid" "length cid \<le> COMPANION_API_CLIENT_ID_MAX_LEN"
    using assms(2) by (simp_all add: client_name_ok_def)
  let ?app = "c_strncpy COMPANION_API_APP_NAME_MAX_LEN app"
  have app: "length ?app \<le> COMPANION_API_APP_NAME_MAX_LEN" by (simp add: c_strncpy_def)
  let ?nvs = "\<lambda>slot. (co_nvs s)(slot \<mapsto> enc_trusted_record \<lparr>tr_version = COMPANION_API_NVS_RECORD_VERSION,
      tr_valid = 1, tr_client_id = c_array 37 cid, tr_app_name = c_array 33 ?app, tr_secret = sec,
      tr_created_at_unix = companion_api_unix_time_or_zero env\<rparr>)"
  have at: "client_at env (?nvs slot) slot = Some (cid, sec)" if "slot < COMPANION_API_MAX_TRUSTED_CLIENTS" for slot
    by (rule client_at_stored [OF assms(1) that assms(2,3) app])
  have put: "companion_api_store_record env cid app sec s = (ESP_OK, recount_trusted env (s\<lparr>co_nvs := ?nvs slot\<rparr>))"
    if "(case companion_api_find_record env (co_nvs s) cid of Inr (slot, _) \<Rightarrow> Some slot
       | Inl _ \<Rightarrow> find (\<lambda>c. \<not> record_loads env (co_nvs s) c) [0..<COMPANION_API_MAX_TRUSTED_CLIENTS]) = Some slot" for slot
    unfolding companion_api_store_record_def Let_def that
    using assms(1,3) cid by (simp add: nvs_works_def c_strncpy_id)
  note clients = trusted_clients_iff [OF assms(4) cid(1)]
  show ?thesis
  proof (cases "companion_api_find_record env (co_nvs s) cid")
    case (Inr x)
    then obtain slot r where f: "companion_api_find_record env (co_nvs s) cid = Inr (slot, r)" by (cases x) auto
    have c: "client_at env (co_nvs s) slot = Some (cid, tr_secret r)"
      using find_record_found(1,2) [OF f] by (simp add: client_at_def)
    show ?thesis
    proof (rule stored)
      show "companion_api_store_record env cid app sec s = (ESP_OK, recount_trusted env (s\<lparr>co_nvs := ?nvs slot\<rparr>))"
        by (rule put) (simp add: f)
      show "client_at env (?nvs slot) slot = Some (cid, sec)" by (rule at [OF find_record_found(4) [OF f]])
      show "client_at env (co_nvs s) i \<noteq> Some (cid, a)" if "i \<noteq> slot" for i a
        using that c assms(4) unfolding trusted_unique_def by blast
    qed (use c in \<open>simp_all add: client_at_other\<close>)
  next
    case (Inl e)
    then have "trusted_clients env (co_nvs s) cid = None" by (simp add: trusted_clients_def)
    with clients have none: "client_at env (co_nvs s) i \<noteq> Some (cid, a)" for i a by fastforce
    show ?thesis
    proof (cases "find (\<lambda>c. \<not> record_loads env (co_nvs s) c) [0..<COMPANION_API_MAX_TRUSTED_CLIENTS]")
      case None
      then have all: "client_at env (co_nvs s) i \<noteq> None" if "i < COMPANION_API_MAX_TRUSTED_CLIENTS" for i
        using that by (simp add: find_None_iff record_loads_client_at)
      show ?thesis
        by (rule full [OF _ \<open>trusted_clients env (co_nvs s) cid = None\<close> all])
          (simp_all add: companion_api_store_record_def cid(1) Inl None)
    next
      case (Some slot)
      then have free: "client_at env (co_nvs s) slot = None" "slot < COMPANION_API_MAX_TRUSTED_CLIENTS"
        by (cases "client_at env (co_nvs s) slot"; auto simp: find_Some_iff record_loads_client_at)+
      show ?thesis
      proof (rule stored)
        show "companion_api_store_record env cid app sec s = (ESP_OK, recount_trusted env (s\<lparr>co_nvs := ?nvs slot\<rparr>))"
          by (rule put) (simp add: Inl Some)
        show "client_at env (?nvs slot) slot = Some (cid, sec)" by (rule at [OF free(2)])
      qed (use free none in \<open>simp_all add: client_at_other\<close>)
    qed
  qed
qed


lemma store_record_clients:
  assumes "nvs_works env" and "client_name_ok cid" and "length sec = COMPANION_API_SECRET_LEN"
    and "trusted_unique env (co_nvs s)" and "companion_api_store_record env cid app sec s = (err, s')"
  shows "trusted_unique env (co_nvs s')"
    and "if err = ESP_OK then trusted_clients env (co_nvs s') = (trusted_clients env (co_nvs s))(cid \<mapsto> sec)
      else err = ESP_ERR_NO_MEM \<and> s' = s \<and> trusted_clients env (co_nvs s) cid = None \<and>
        companion_api_count_trusted_clients env (co_nvs s) = COMPANION_API_MAX_TRUSTED_CLIENTS"
proof -
  have "trusted_unique env (co_nvs s') \<and> (if err = ESP_OK
      then trusted_clients env (co_nvs s') = (trusted_clients env (co_nvs s))(cid \<mapsto> sec)
      else err = ESP_ERR_NO_MEM \<and> s' = s \<and> trusted_clients env (co_nvs s) cid = None \<and>
        companion_api_count_trusted_clients env (co_nvs s) = COMPANION_API_MAX_TRUSTED_CLIENTS)"
  proof (rule store_record_slot [OF assms(1-4), of app])
    assume a: "companion_api_store_record env cid app sec s = (ESP_ERR_NO_MEM, s)"
      "trusted_clients env (co_nvs s) cid = None"
      "\<And>i. i < COMPANION_API_MAX_TRUSTED_CLIENTS \<Longrightarrow> client_at env (co_nvs s) i \<noteq> None"
    have "filter (record_loads env (co_nvs s)) [0..<COMPANION_API_MAX_TRUSTED_CLIENTS] = [0..<COMPANION_API_MAX_TRUSTED_CLIENTS]"
      unfolding filter_id_conv using a(3) by (auto simp: record_loads_client_at)
    then have "companion_api_count_trusted_clients env (co_nvs s) = COMPANION_API_MAX_TRUSTED_CLIENTS"
      by (simp add: companion_api_count_trusted_clients_def)
    then show ?thesis using a(1,2) assms(4,5) by simp
  next
    fix s1 slot nvs'
    assume a: "companion_api_store_record env cid app sec s = (ESP_OK, recount_trusted env s1)"
      "s1 = s\<lparr>co_nvs := nvs'\<rparr>" "client_at env nvs' slot = Some (cid, sec)"
      "\<And>i. i \<noteq> slot \<Longrightarrow> client_at env nvs' i = client_at env (co_nvs s) i"
      "\<And>i a. i \<noteq> slot \<Longrightarrow> client_at env (co_nvs s) i \<noteq> Some (cid, a)"
      "\<And>c' a. client_at env (co_nvs s) slot = Some (c', a) \<Longrightarrow> c' = cid"
    have "cid \<noteq> []" using assms(2) by (simp add: client_name_ok_def)
    from trusted_put [OF assms(4) a(3,4,5,6) this] show ?thesis
      using assms(5) a(1,2) by auto
  qed
  then show "trusted_unique env (co_nvs s')"
    and "if err = ESP_OK then trusted_clients env (co_nvs s') = (trusted_clients env (co_nvs s))(cid \<mapsto> sec)
      else err = ESP_ERR_NO_MEM \<and> s' = s \<and> trusted_clients env (co_nvs s) cid = None \<and>
        companion_api_count_trusted_clients env (co_nvs s) = COMPANION_API_MAX_TRUSTED_CLIENTS"
    by simp_all
qed

lemma revoke_client_clients:
  assumes "nvs_works env" and "trusted_unique env (co_nvs s)"
    and "companion_api_revoke_client_internal env cid s = (err, s')"
  shows "trusted_unique env (co_nvs s')"
    and "trusted_clients env (co_nvs s') = (trusted_clients env (co_nvs s))(cid := None)"
    and "err = (if trusted_clients env (co_nvs s) cid = None then ESP_ERR_NOT_FOUND else ESP_OK)"
    and "err = ESP_OK \<Longrightarrow> co_authenticated s' \<longleftrightarrow> co_authenticated s \<and> co_active_client_id s \<noteq> cid"
proof -
  have "trusted_unique env (co_nvs s') \<and> trusted_clients env (co_nvs s') = (trusted_clients env (co_nvs s))(cid := None) \<and>
     err = (if trusted_clients env (co_nvs s) cid = None then ESP_ERR_NOT_FOUND else ESP_OK) \<and>
     (err = ESP_OK \<longrightarrow> (co_authenticated s' \<longleftrightarrow> co_authenticated s \<and> co_active_client_id s \<noteq> cid))"
  proof (cases "companion_api_find_record env (co_nvs s) cid")
    case (Inl e)
    then have "trusted_clients env (co_nvs s) cid = None" by (simp add: trusted_clients_def)
    then show ?thesis
      using assms(2,3) Inl by (auto simp: companion_api_revoke_client_internal_def fun_upd_idem)
  next
    case (Inr x)
    then obtain slot r where f: "companion_api_find_record env (co_nvs s) cid = Inr (slot, r)" by (cases x) auto
    have c: "client_at env (co_nvs s) slot = Some (cid, tr_secret r)"
      using find_record_found(1,2) [OF f] by (simp add: client_at_def)
    have "co_nvs s slot = None \<Longrightarrow> client_at env (co_nvs s) slot = None"
      by (simp add: client_at_def companion_api_load_record_def)
    with c obtain blob where there: "co_nvs s slot = Some blob" by fastforce
    have "companion_api_revoke_client_internal env cid s = (ESP_OK, recount_trusted env
        (if co_active_client_id s = cid
         then s\<lparr>co_nvs := (co_nvs s)(slot := None), co_authenticated := False, co_active_client_id := []\<rparr>
         else s\<lparr>co_nvs := (co_nvs s)(slot := None)\<rparr>))"
      using assms(1) by (simp add: companion_api_revoke_client_internal_def f there nvs_works_def)
    moreover have "trusted_clients env (co_nvs s) cid = Some (tr_secret r)" by (simp add: trusted_clients_def f)
    ultimately show ?thesis
      using assms(3) trusted_drop [OF assms(2) c] by (auto split: if_splits)
  qed
  then show "trusted_unique env (co_nvs s')"
    and "trusted_clients env (co_nvs s') = (trusted_clients env (co_nvs s))(cid := None)"
    and "err = (if trusted_clients env (co_nvs s) cid = None then ESP_ERR_NOT_FOUND else ESP_OK)"
    and "err = ESP_OK \<Longrightarrow> co_authenticated s' \<longleftrightarrow> co_authenticated s \<and> co_active_client_id s \<noteq> cid"
    by simp_all
qed


lemma trusted_count:
  assumes u: "trusted_unique env nvs"
  shows "companion_api_count_trusted_clients env nvs = card (dom (trusted_clients env nvs))"
proof -
  let ?slots = "{i. client_at env nvs i \<noteq> None}" and ?name = "\<lambda>i. fst (the (client_at env nvs i))"
  have "?slots = set (filter (record_loads env nvs) [0..<COMPANION_API_MAX_TRUSTED_CLIENTS])"
    using client_at_slot by (fastforce simp: record_loads_client_at)
  then have "card ?slots = companion_api_count_trusted_clients env nvs"
    unfolding companion_api_count_trusted_clients_def by (simp only: distinct_card distinct_filter distinct_upt)
  moreover have "inj_on ?name ?slots"
    using u unfolding trusted_unique_def inj_on_def by fastforce
  moreover have "?name ` ?slots = dom (trusted_clients env nvs)"
  proof (rule set_eqI)
    fix c
    have "c \<in> ?name ` ?slots \<longleftrightarrow> (\<exists>i sec. client_at env nvs i = Some (c, sec))"
      by (force simp: image_iff)
    also have "\<dots> \<longleftrightarrow> (\<exists>sec. trusted_clients env nvs c = Some sec)"
      using u trusted_clients_iff [OF u] by (cases "c = []") (fastforce simp: trusted_unique_def, blast)
    also have "\<dots> \<longleftrightarrow> c \<in> dom (trusted_clients env nvs)" by blast
    finally show "c \<in> ?name ` ?slots \<longleftrightarrow> c \<in> dom (trusted_clients env nvs)" .
  qed
  ultimately show ?thesis by (metis card_image)
qed

text \<open>What the operations on the records promise: a map with room for four clients.\<close>

definition trust_store :: "bytes \<Rightarrow> bytes \<Rightarrow> (bytes \<Rightarrow> bytes option) \<Rightarrow> esp_err \<times> (bytes \<Rightarrow> bytes option)" where
  "trust_store cid sec m =
     (if cid \<in> dom m \<or> card (dom m) < COMPANION_API_MAX_TRUSTED_CLIENTS then (ESP_OK, m(cid \<mapsto> sec))
      else (ESP_ERR_NO_MEM, m))"

definition trust_revoke :: "bytes \<Rightarrow> (bytes \<Rightarrow> bytes option) \<Rightarrow> esp_err \<times> (bytes \<Rightarrow> bytes option)" where
  "trust_revoke cid m = (if cid \<in> dom m then (ESP_OK, m(cid := None)) else (ESP_ERR_NOT_FOUND, m))"

definition trust_view :: "co_env \<Rightarrow> esp_err \<times> co_state \<Rightarrow> esp_err \<times> (bytes \<Rightarrow> bytes option)" where
  "trust_view env r = (fst r, trusted_clients env (co_nvs (snd r)))"

text \<open>C17: While NVS works, storing and revoking a client refine the operations of a map from client
  names to secrets with room for four clients: a client that is there gets the new secret, a new
  one takes a free slot or is refused when four others are there, a revoked one is gone, and all
  others stay as they are. The map stays well-formed, the count the clients are told is its size,
  and the session of a revoked client ends.\<close>

theorem companion_trusted_map:
  assumes "nvs_works env" and "trusted_unique env (co_nvs s)" and "client_name_ok cid"
    and "length sec = COMPANION_API_SECRET_LEN"
    and stored: "stored = companion_api_store_record env cid app sec s"
    and revoked: "revoked = companion_api_revoke_client_internal env cid s"
  shows "trust_view env stored = trust_store cid sec (trusted_clients env (co_nvs s)) \<and>
     trust_view env revoked = trust_revoke cid (trusted_clients env (co_nvs s)) \<and>
     trusted_unique env (co_nvs (snd stored)) \<and> trusted_unique env (co_nvs (snd revoked)) \<and>
     companion_api_service_get_trusted_client_count env (snd stored) =
       card (dom (trusted_clients env (co_nvs (snd stored)))) \<and>
     (fst revoked = ESP_OK \<longrightarrow> \<not> (co_authenticated (snd revoked) \<and> co_active_client_id s = cid))"
proof (intro conjI)
  obtain err s1 err2 s2 where p: "stored = (err, s1)" "revoked = (err2, s2)" by (cases stored, cases revoked)
  note store = store_record_clients [OF assms(1,3,4,2) stored [symmetric, unfolded p(1)]]
  note revoke = revoke_client_clients [OF assms(1,2) revoked [symmetric, unfolded p(2)]]
  note counts = trusted_count [OF assms(2)] trusted_count [OF store(1)]
  have slots: "companion_api_count_trusted_clients env nvs \<le> COMPANION_API_MAX_TRUSTED_CLIENTS" for nvs
    unfolding companion_api_count_trusted_clients_def by (rule order_trans [OF length_filter_le]) simp
  have one: "err = ESP_ERR_NO_MEM" if "err \<noteq> ESP_OK" using store(2) that by simp
  show "trusted_unique env (co_nvs (snd stored))" using store(1) by (simp add: p)
  show "trusted_unique env (co_nvs (snd revoked))" using revoke(1) by (simp add: p)
  show "companion_api_service_get_trusted_client_count env (snd stored) =
      card (dom (trusted_clients env (co_nvs (snd stored))))"
    using counts(2) by (simp add: p companion_api_service_get_trusted_client_count_def)
  show "trust_view env revoked = trust_revoke cid (trusted_clients env (co_nvs s))"
    using revoke(2,3) by (auto simp: p trust_view_def trust_revoke_def dom_def fun_upd_idem)
  show "fst revoked = ESP_OK \<longrightarrow> \<not> (co_authenticated (snd revoked) \<and> co_active_client_id s = cid)"
    using revoke(4) by (auto simp: p)
  show "trust_view env stored = trust_store cid sec (trusted_clients env (co_nvs s))"
  proof (cases "err = ESP_OK")
    case True
    then have m: "trusted_clients env (co_nvs s1) = (trusted_clients env (co_nvs s))(cid \<mapsto> sec)"
      using store(2) by simp
    have "cid \<in> dom (trusted_clients env (co_nvs s)) \<or>
        card (dom (trusted_clients env (co_nvs s))) < COMPANION_API_MAX_TRUSTED_CLIENTS"
    proof (rule disjCI)
      assume full: "\<not> card (dom (trusted_clients env (co_nvs s))) < COMPANION_API_MAX_TRUSTED_CLIENTS"
      then have "finite (dom (trusted_clients env (co_nvs s)))"
        by (intro card_ge_0_finite) (simp add: COMPANION_API_MAX_TRUSTED_CLIENTS_def)
      with full counts slots [of "co_nvs s1"] show "cid \<in> dom (trusted_clients env (co_nvs s))"
        unfolding m by (rule_tac ccontr) (simp add: card_insert_if COMPANION_API_MAX_TRUSTED_CLIENTS_def)
    qed
    then show ?thesis using True m by (simp add: p trust_view_def trust_store_def)
  next
    case False
    then show ?thesis
      using store(2) counts(1) by (auto simp: p trust_view_def trust_store_def)
  qed
qed


section \<open>Becoming authenticated\<close>

lemma sublist_rd_bytes: "sublist (rd_bytes b offset n) b"
  unfolding rd_bytes_def using sublist_take sublist_drop sublist_order.order_trans by blast

lemma find_tlv_sublist: "companion_api_find_tlv payload tag = Some v \<Longrightarrow> sublist v payload"
  unfolding companion_api_find_tlv_def by (metis find_tlv_from_inside sublist_rd_bytes)

text \<open>The nonces a proof may be for: the one of a challenge that is pending, and those drawn since.\<close>

definition drawn :: "co_envs \<Rightarrow> co_state \<Rightarrow> bytes \<Rightarrow> bool" where
  "drawn envs s nonce \<longleftrightarrow> co_auth_challenge_pending s \<and> nonce = co_auth_nonce s \<or> (\<exists>i. nonce = ev_random (envs i))"

definition presents_secret :: "co_envs \<Rightarrow> co_state \<Rightarrow> bytes \<Rightarrow> bool" where
  "presents_secret envs s input \<longleftrightarrow> (\<exists>i nonce slot record h. drawn envs s nonce \<and>
     companion_api_load_record (envs i) (co_nvs s) slot = Inr record \<and>
     ev_hmac (envs i) (tr_secret record) nonce = Some h \<and> sublist h input)"

lemma stranger_nonce:
  assumes "hmac_lawful env" and "\<not> co_authenticated s" and "s1 = snd (companion_api_handle_request env opc rid p s)"
    and "\<not> co_authenticated s1" and "co_auth_challenge_pending s1"
  shows "co_auth_challenge_pending s \<and> co_auth_nonce s1 = co_auth_nonce s \<or> co_auth_nonce s1 = ev_random env"
proof (cases "companion_api_opcode_requires_auth opc")
  case True
  then show ?thesis using assms(2,3,5) by (auto simp: companion_api_handle_request_def send_defs)
next
  case False
  have same: "co_auth_challenge_pending (snd (companion_api_handle_hello env op2 rid s)) = co_auth_challenge_pending s"
    "co_auth_nonce (snd (companion_api_handle_hello env op2 rid s)) = co_auth_nonce s"
    "co_auth_challenge_pending (snd (companion_api_handle_capabilities env op2 rid s)) = co_auth_challenge_pending s"
    "co_auth_nonce (snd (companion_api_handle_capabilities env op2 rid s)) = co_auth_nonce s" for op2
    by (rule session_fields; simp)+
  have begin_same: "co_auth_challenge_pending (snd (companion_api_handle_pair_begin env rid p s)) = co_auth_challenge_pending s"
    "co_auth_nonce (snd (companion_api_handle_pair_begin env rid p s)) = co_auth_nonce s"
    "co_auth_challenge_pending (companion_api_clear_pairing s) = co_auth_challenge_pending s"
    "co_auth_nonce (companion_api_clear_pairing s) = co_auth_nonce s"
    by (simp_all add: send_defs companion_api_clear_pairing_def companion_api_handle_pair_begin_def Let_def
        split: option.split)
  let ?c = "snd (companion_api_handle_auth_challenge env rid p s)" and ?p = "snd (companion_api_handle_auth_proof env rid p s)"
  have challenge: "co_auth_challenge_pending s \<and> co_auth_nonce ?c = co_auth_nonce s \<or> co_auth_nonce ?c = ev_random env"
    if "co_auth_challenge_pending ?c"
    using that by (auto simp: send_defs companion_api_handle_auth_challenge_def Let_def split: option.splits sum.splits)
  have proof_same: "co_auth_challenge_pending s \<and> co_auth_nonce ?p = co_auth_nonce s"
    if "\<not> co_authenticated ?p" "co_auth_challenge_pending ?p"
    by (rule auth_proof_cases [OF assms(1), of rid p s]) (use that in \<open>auto simp: co_session_def\<close>)
  have "s1 \<in> {?c, ?p} \<or> co_auth_challenge_pending s1 = co_auth_challenge_pending s \<and> co_auth_nonce s1 = co_auth_nonce s"
    unfolding assms(3) open_opcodes [OF False] by (simp add: same begin_same send_defs)
  then show ?thesis using assms(4,5) challenge proof_same by auto
qed


lemma presents_secret_mono:
  assumes "presents_secret envs s1 input1" and "sublist input1 input" and "co_nvs s1 = co_nvs s"
    and "\<And>nonce. drawn envs s1 nonce \<Longrightarrow> drawn envs s nonce"
  shows "presents_secret envs s input"
  using assms unfolding presents_secret_def by (metis sublist_order.order_trans)

lemma presents_secret_kept:
  assumes "presents_secret envs s1 (drop n rx)" and "co_nvs s1 = co_nvs s"
    and "co_auth_challenge_pending s1 = co_auth_challenge_pending s" and "co_auth_nonce s1 = co_auth_nonce s"
  shows "presents_secret envs s rx"
  by (rule presents_secret_mono [OF assms(1) _ assms(2)]) (use assms(3,4) in \<open>simp_all add: drawn_def\<close>)

lemma presents_secret_request:
  assumes "hmac_lawful (envs i)" and "\<not> co_authenticated s"
    and s1: "s1 = count_rx_frame (snd (companion_api_handle_request (envs i) opc rid p s))"
    and "\<not> co_authenticated s1" and "presents_secret envs s1 (drop n rx)"
  shows "presents_secret envs s rx"
proof (rule presents_secret_mono [OF assms(5)])
  let ?t = "snd (companion_api_handle_request (envs i) opc rid p s)"
  have t: "co_auth_challenge_pending s1 = co_auth_challenge_pending ?t" "co_auth_nonce s1 = co_auth_nonce ?t"
    "co_nvs s1 = co_nvs ?t" "co_authenticated s1 = co_authenticated ?t"
    by (simp_all add: s1 count_rx_frame_def)
  show "co_nvs s1 = co_nvs s"
    using stranger_request [OF assms(2), of "envs i" opc rid p] t by (simp add: co_outside_def)
  fix nonce
  assume "drawn envs s1 nonce"
  with stranger_nonce [OF assms(1,2) refl] assms(4) show "drawn envs s nonce"
    unfolding drawn_def t by metis
qed simp

lemma proves_presents:
  assumes "proves_secret (envs i) (rd_bytes rx off n) s"
  shows "presents_secret envs s rx"
proof -
  obtain slot entry h where "co_auth_challenge_pending s"
    "companion_api_load_record (envs i) (co_nvs s) slot = Inr entry"
    "companion_api_find_tlv (rd_bytes rx off n) COMPANION_API_TLV_AUTH_HMAC = Some h"
    "ev_hmac (envs i) (tr_secret entry) (co_auth_nonce s) = Some h"
    using assms unfolding proves_secret_def by (metis not_None_eq)
  moreover from this(3) have "sublist h rx"
    using find_tlv_sublist sublist_rd_bytes sublist_order.order_trans by blast
  ultimately show ?thesis unfolding presents_secret_def drawn_def by blast
qed

lemma parse_presents:
  "(\<forall>i. hmac_lawful (envs i)) \<Longrightarrow> \<not> co_authenticated s \<Longrightarrow> co_authenticated (snd (parse_rx envs rx s)) \<Longrightarrow>
     presents_secret envs s rx"
proof (induction envs rx s rule: parse_rx.induct)
  case (1 envs rx s)
  let ?env = "envs (co_rx_frames s)" and ?opc = "rd_u16 rx 4" and ?rid = "rd_u32 rx 6"
  let ?n = "unat (rd_u16 rx 10)"
  let ?s1 = "snd (companion_api_handle_request ?env ?opc ?rid (rd_bytes rx COMPANION_API_HEADER_LEN ?n) s)"
  have law: "hmac_lawful ?env" using "1.prems"(1) by blast
  have plain: "presents_secret envs s rx" if "presents_secret envs s1 (drop m rx)"
      "s1 = snd (companion_api_send_error ?env ?opc ?rid e s) \<or> s1 = count_rx_error s" for e m s1
    using that by (elim presents_secret_kept) (auto simp: send_defs count_rx_error_def)
  have stays: "\<not> co_authenticated (snd (companion_api_send_error ?env ?opc ?rid e s))"
    "\<not> co_authenticated (count_rx_error s)" for e
    using "1.prems"(2) by (simp_all add: send_defs count_rx_error_def)
  show ?case
  proof (cases "co_authenticated (count_rx_frame ?s1)")
    case True
    then have "proves_secret ?env (rd_bytes rx COMPANION_API_HEADER_LEN ?n) s"
      using stranger_keeps_authenticated(2) [OF law "1.prems"(2)] unfolding count_rx_frame_def by auto
    then show ?thesis by (rule proves_presents)
  next
    case False
    have request: "presents_secret envs s rx" if "presents_secret envs (count_rx_frame ?s1) (drop m rx)" for m
      using presents_secret_request [where envs = envs and i = "co_rx_frames s", OF law "1.prems"(2) _ False that] by simp
    show ?thesis
      using "1.prems"(3) False
      by (subst (asm) parse_rx.simps)
        (use stays plain request "1.prems"(1,2) "1.IH"(1) "1.IH"(2) [OF _ _ refl refl refl]
            "1.IH"(3,4,5) [OF _ _ refl refl refl _ refl refl] in
          \<open>auto simp: Let_def split: if_split_asm\<close>)
  qed
qed


lemma clear_pairing_fields [simp]:
  "co_authenticated (companion_api_clear_pairing s) = co_authenticated s"
  "co_active_client_id (companion_api_clear_pairing s) = co_active_client_id s"
  "co_nvs (companion_api_clear_pairing s) = co_nvs s"
  "co_pairing_pending (companion_api_clear_pairing s) = False"
  by (simp_all add: companion_api_clear_pairing_def)

lemma recount_session:
  "co_session (recount_trusted env s) = co_session s"
  by (simp add: recount_trusted_def) (simp add: co_session_def)

lemma store_record_fields:
  "\<exists>nvs. co_session (snd (companion_api_store_record env cid app sec s)) = co_session (s\<lparr>co_nvs := nvs\<rparr>)"
  unfolding companion_api_store_record_def
  by (auto simp: Let_def recount_session split: option.split) (auto simp: co_session_def)

lemma revoke_keeps_stranger:
  "\<not> co_authenticated s \<Longrightarrow> \<not> co_authenticated (snd (companion_api_revoke_client_internal env cid s))"
  "\<not> co_authenticated s \<Longrightarrow> \<not> co_authenticated (snd (companion_api_revoke_all_internal env s))"
  by (auto simp: companion_api_revoke_client_internal_def companion_api_revoke_all_internal_def Let_def
      split: sum.split prod.split)

text \<open>A pairing that is completed: the record of the pending client is written and the session is its.\<close>

definition pairs :: "co_env \<Rightarrow> co_state \<Rightarrow> co_state \<Rightarrow> bool" where
  "pairs env s s' \<longleftrightarrow> co_pairing_pending s \<and>
     fst (companion_api_store_record env (co_pending_client_id s) (co_pending_app_name s) (co_pending_secret s) s) = ESP_OK \<and>
     co_nvs s' = co_nvs (snd (companion_api_store_record env (co_pending_client_id s) (co_pending_app_name s)
       (co_pending_secret s) s)) \<and>
     co_active_client_id s' = c_strncpy COMPANION_API_CLIENT_ID_MAX_LEN (co_pending_client_id s)"

lemma complete_pairing_pairs:
  assumes "\<not> co_authenticated s" and "co_authenticated (snd (companion_api_complete_pairing env s))"
  shows "pairs env s (snd (companion_api_complete_pairing env s))"
proof -
  let ?r = "companion_api_store_record env (co_pending_client_id s) (co_pending_app_name s) (co_pending_secret s) s"
  obtain nvs where n: "co_session (snd ?r) = co_session (s\<lparr>co_nvs := nvs\<rparr>)"
    using store_record_fields by blast
  note f = session_fields [OF n]
  have "co_pairing_pending s \<and> fst ?r = ESP_OK"
    using assms f by (auto simp: companion_api_complete_pairing_def case_prod_beta split: if_splits)
  then show ?thesis
    using f by (simp add: pairs_def companion_api_complete_pairing_def case_prod_beta Let_def send_defs)
qed

lemma store_record_nvs:
  assumes "co_nvs s1 = co_nvs s"
  shows "fst (companion_api_store_record env cid app sec s1) = fst (companion_api_store_record env cid app sec s)"
    and "co_nvs (snd (companion_api_store_record env cid app sec s1)) =
      co_nvs (snd (companion_api_store_record env cid app sec s))"
  unfolding companion_api_store_record_def assms by (auto simp: Let_def assms split: option.split)

lemma pairing_button_pairs:
  assumes "\<not> co_authenticated s" and "co_authenticated (snd (companion_api_apply_pairing_button env b s))"
  shows "co_pairing_progress s = 3" and "b = co_pending_sequence s ! 3" and "ev_ticks env \<le> co_pairing_deadline s"
    and "pairs env s (snd (companion_api_apply_pairing_button env b s))"
proof -
  let ?s1 = "companion_api_touch_generation (s\<lparr>co_pairing_progress := co_pairing_progress s + 1\<rparr>)"
  have a: "co_pairing_pending s \<and> \<not> co_pairing_progress s \<ge> 4 \<and> co_pairing_progress s + 1 \<ge> 4 \<and>
      b = co_pending_sequence s ! co_pairing_progress s \<and> ev_ticks env \<le> co_pairing_deadline s \<and>
      companion_api_apply_pairing_button env b s = companion_api_complete_pairing env ?s1"
    using assms
    by (auto simp: companion_api_apply_pairing_button_def send_defs Let_def split: if_split_asm)
  then show p: "co_pairing_progress s = 3" by linarith
  from a show "b = co_pending_sequence s ! 3" "ev_ticks env \<le> co_pairing_deadline s" by (simp_all add: p)
  from a have e: "companion_api_apply_pairing_button env b s = companion_api_complete_pairing env ?s1" by blast
  from complete_pairing_pairs [of ?s1 env] assms [unfolded e]
  have "pairs env ?s1 (snd (companion_api_complete_pairing env ?s1))" by simp
  moreover have "co_nvs ?s1 = co_nvs s" by simp
  note store_record_nvs [OF this, simplified]
  ultimately show "pairs env s (snd (companion_api_apply_pairing_button env b s))"
    unfolding e by (simp add: pairs_def)
qed

text \<open>C16: A message can make the device take a client for authenticated in two ways only. The bytes
  received contain the HMAC, under the secret NVS holds for a trusted client, of a nonce the device
  has drawn for a challenge. Or a pairing is pending and is confirmed at the console or by the last
  of the four buttons in time, and then the record of the pending client is written and the
  session is its.\<close>

theorem companion_authentication:
  assumes "\<forall>i. hmac_lawful (envs i)" and "\<not> co_authenticated s"
    and r: "(err, rx', s') = companion_api_process_msg envs msg (rx, s)" and "co_authenticated s'"
  shows "case msg of
      COMPANION_API_MSG_RX_CHUNK data \<Rightarrow> presents_secret envs s (rx @ data)
    | COMPANION_API_MSG_CONSOLE_CONFIRM_PAIRING \<Rightarrow> pairs (envs (co_rx_frames s)) s s'
    | COMPANION_API_MSG_HID_BUTTON b \<Rightarrow> pairs (envs (co_rx_frames s)) s s' \<and> co_pairing_progress s = 3 \<and>
        b = co_pending_sequence s ! 3 \<and> ev_ticks (envs (co_rx_frames s)) \<le> co_pairing_deadline s
    | _ \<Rightarrow> False"
proof (cases msg)
  case (COMPANION_API_MSG_RX_CHUNK data)
  then have "co_authenticated (snd (parse_rx envs (rx @ data) s))"
    using r assms(2,4)
    by (auto simp: companion_api_process_msg_def companion_api_handle_rx_chunk_def send_defs count_rx_error_def
        split: if_split_asm) (metis snd_conv)
  from parse_presents [OF assms(1,2) this] COMPANION_API_MSG_RX_CHUNK show ?thesis by simp
next
  case (COMPANION_API_MSG_HID_BUTTON b)
  then have "s' = snd (companion_api_apply_pairing_button (envs (co_rx_frames s)) b s)"
    using r by (simp add: companion_api_process_msg_def case_prod_beta Let_def)
  then show ?thesis
    using pairing_button_pairs [OF assms(2)] assms(4) COMPANION_API_MSG_HID_BUTTON by simp
next
  case COMPANION_API_MSG_CONSOLE_CONFIRM_PAIRING
  then have "s' = snd (companion_api_complete_pairing (envs (co_rx_frames s)) s)"
    using r by (simp add: companion_api_process_msg_def case_prod_beta Let_def)
  then show ?thesis
    using complete_pairing_pairs [OF assms(2)] assms(4) COMPANION_API_MSG_CONSOLE_CONFIRM_PAIRING by simp
qed (use r assms(2,4) revoke_keeps_stranger in
    \<open>auto simp: companion_api_process_msg_def send_defs case_prod_beta Let_def\<close>)


section \<open>Pairing and coming back\<close>

text \<open>The state between the buttons of a pairing.\<close>

definition awaiting where
  "awaiting cid app sec seq deadline nvs k s \<longleftrightarrow> co_pairing_pending s \<and> co_pairing_progress s = k \<and>
     co_pending_sequence s = seq \<and> co_pending_client_id s = cid \<and> co_pending_app_name s = app \<and>
     co_pending_secret s = sec \<and> co_pairing_deadline s = deadline \<and> co_nvs s = nvs"

lemma begin_awaiting:
  assumes "companion_api_tlv_string p COMPANION_API_TLV_CLIENT_ID (COMPANION_API_CLIENT_ID_MAX_LEN + 1) = Some cid"
    and "companion_api_tlv_string p COMPANION_API_TLV_APP_NAME (COMPANION_API_APP_NAME_MAX_LEN + 1) = Some app"
    and "companion_api_find_tlv p COMPANION_API_TLV_SHARED_SECRET = Some sec"
    and "companion_api_find_tlv p COMPANION_API_TLV_BUTTON_SEQUENCE = Some seq"
    and "length sec = COMPANION_API_SECRET_LEN" and "length seq = 4" and "list_all (\<lambda>b. unat b < HID_BUTTON_COUNT) seq"
    and "client_name_ok cid"
  shows "awaiting cid (c_strncpy COMPANION_API_APP_NAME_MAX_LEN app) sec (map unat seq)
    (ev_ticks env + of_nat (pdMS_TO_TICKS COMPANION_API_PAIRING_TIMEOUT_MS)) (co_nvs s) 0
    (snd (companion_api_handle_request env COMPANION_API_OP_PAIR_BEGIN rid p s))"
proof -
  have "\<not> list_ex (\<lambda>b. unat b \<ge> HID_BUTTON_COUNT) seq"
    using assms(7) by (auto simp: list_all_iff list_ex_iff)
  moreover have "companion_api_handle_request env COMPANION_API_OP_PAIR_BEGIN rid p s =
      companion_api_handle_pair_begin env rid p s"
    by (subst open_opcodes) (simp_all add: companion_api_opcode_requires_auth_def companion_op_defs)
  ultimately show ?thesis
    using assms by (simp add: awaiting_def companion_api_handle_pair_begin_def Let_def send_defs client_name_ok_def
        c_strncpy_id)
qed

lemma awaiting_button:
  assumes "awaiting cid app sec seq deadline nvs k s" and "k < 3" and "ev_ticks env \<le> deadline"
  shows "awaiting cid app sec seq deadline nvs (Suc k) (snd (companion_api_apply_pairing_button env (seq ! k) s))"
  using assms by (auto simp: awaiting_def companion_api_apply_pairing_button_def Let_def send_defs not_less)

lemma load_record_env:
  "nvs_works e \<Longrightarrow> nvs_works f \<Longrightarrow> companion_api_load_record e nvs slot = companion_api_load_record f nvs slot"
  by (simp add: companion_api_load_record_def nvs_works_def cong: option.case_cong if_cong)

lemma trusted_env:
  assumes "nvs_works e" and "nvs_works f"
  shows "trusted_clients e nvs = trusted_clients f nvs" and "trusted_unique e nvs = trusted_unique f nvs"
proof -
  have load: "companion_api_load_record e = companion_api_load_record f"
    by (intro ext load_record_env assms)
  show "trusted_clients e nvs = trusted_clients f nvs" "trusted_unique e nvs = trusted_unique f nvs"
    unfolding trusted_clients_def trusted_unique_def client_at_def companion_api_find_record_def
      record_of_client_def load by (rule refl)+
qed

lemma awaiting_last_button:
  assumes "awaiting cid app sec seq deadline nvs 3 s" and "ev_ticks env \<le> deadline" and "nvs_works env"
    and "trusted_unique env nvs" and "client_name_ok cid" and "length sec = COMPANION_API_SECRET_LEN"
    and "cid \<in> dom (trusted_clients env nvs) \<or> card (dom (trusted_clients env nvs)) < COMPANION_API_MAX_TRUSTED_CLIENTS"
    and s': "s' = snd (companion_api_apply_pairing_button env (seq ! 3) s)"
  shows "co_authenticated s'" and "co_active_client_id s' = cid" and "\<not> co_pairing_pending s'"
    and "trusted_clients env (co_nvs s') = (trusted_clients env nvs)(cid \<mapsto> sec)" and "trusted_unique env (co_nvs s')"
proof -
  let ?s1 = "companion_api_touch_generation (s\<lparr>co_pairing_progress := Suc 3\<rparr>)"
  let ?r = "companion_api_store_record env cid app sec ?s1"
  note a = assms(1) [unfolded awaiting_def]
  have e: "companion_api_apply_pairing_button env (seq ! 3) s = companion_api_complete_pairing env ?s1"
    using a assms(2) [folded not_less] by (simp add: companion_api_apply_pairing_button_def Let_def)
  have n: "co_nvs ?s1 = nvs" using a by simp
  have "trusted_unique env (co_nvs ?s1)" using assms(4) n by simp
  note st = store_record_clients [OF assms(3,5,6) this prod.collapse [symmetric], of app]
  have full: "trusted_clients env nvs cid \<noteq> None \<or>
      companion_api_count_trusted_clients env nvs \<noteq> COMPANION_API_MAX_TRUSTED_CLIENTS"
    using assms(7) trusted_count [OF assms(4)] by auto
  then have ok: "fst ?r = ESP_OK" using st(2) unfolding n by (auto split: if_splits)
  obtain w where w: "co_session (snd ?r) = co_session (?s1\<lparr>co_nvs := w\<rparr>)" using store_record_fields by blast
  have cid: "c_strncpy COMPANION_API_CLIENT_ID_MAX_LEN cid = cid"
    using assms(5) by (simp add: client_name_ok_def c_strncpy_id)
  have pend: "co_pending_client_id (snd ?r) = cid" using session_fields(10) [OF w] a by simp
  have c: "companion_api_complete_pairing env ?s1 =
      (ESP_OK, snd (companion_api_send_pairing_status env 0 COMPANION_API_FRAME_EVENT
         (companion_api_touch_generation (companion_api_clear_pairing
            ((snd ?r)\<lparr>co_authenticated := True, co_active_client_id := cid\<rparr>)))))"
    using a ok pend cid by (simp add: companion_api_complete_pairing_def case_prod_beta Let_def)
  show "co_authenticated s'" "co_active_client_id s' = cid" "\<not> co_pairing_pending s'"
    unfolding s' e c by (simp_all add: send_defs)
  have "co_nvs s' = co_nvs (snd ?r)" unfolding s' e c by (simp add: send_defs)
  then show "trusted_clients env (co_nvs s') = (trusted_clients env nvs)(cid \<mapsto> sec)"
    "trusted_unique env (co_nvs s')" using st ok n by simp_all
qed


lemma challenge_answered:
  assumes "companion_api_tlv_string p COMPANION_API_TLV_CLIENT_ID (COMPANION_API_CLIENT_ID_MAX_LEN + 1) = Some cid"
    and "client_name_ok cid" and "trusted_clients env (co_nvs s) cid = Some sec"
    and s': "s' = snd (companion_api_handle_request env COMPANION_API_OP_AUTH_CHALLENGE rid p s)"
  shows "co_auth_challenge_pending s'" and "co_auth_nonce s' = ev_random env" and "co_auth_client_id s' = cid"
    and "co_nvs s' = co_nvs s"
proof -
  obtain x where f: "companion_api_find_record env (co_nvs s) cid = Inr x"
    using assms(3) by (auto simp: trusted_clients_def split: sum.splits)
  have "companion_api_handle_request env COMPANION_API_OP_AUTH_CHALLENGE rid p s =
      companion_api_handle_auth_challenge env rid p s"
    by (subst open_opcodes) (simp_all add: companion_api_opcode_requires_auth_def companion_op_defs)
  then show "co_auth_challenge_pending s'" "co_auth_nonce s' = ev_random env" "co_auth_client_id s' = cid"
    "co_nvs s' = co_nvs s"
    using assms(1,2) f
    by (simp_all add: s' companion_api_handle_auth_challenge_def Let_def send_defs client_name_ok_def c_strncpy_id)
qed

lemma proof_accepted:
  assumes "companion_api_tlv_string p COMPANION_API_TLV_CLIENT_ID (COMPANION_API_CLIENT_ID_MAX_LEN + 1) = Some cid"
    and "client_name_ok cid" and "trusted_clients env (co_nvs s) cid = Some sec"
    and "co_auth_challenge_pending s" and "co_auth_client_id s = cid"
    and "ev_hmac env sec (co_auth_nonce s) = Some mac" and "length mac = COMPANION_API_HMAC_LEN"
    and "companion_api_find_tlv p COMPANION_API_TLV_AUTH_HMAC = Some mac"
    and s': "s' = snd (companion_api_handle_request env COMPANION_API_OP_AUTH_PROOF rid p s)"
  shows "co_authenticated s'" and "co_active_client_id s' = cid"
proof -
  obtain slot r where f: "companion_api_find_record env (co_nvs s) cid = Inr (slot, r)" "tr_secret r = sec"
    using assms(3) by (auto simp: trusted_clients_def split: sum.splits)
  have "companion_api_handle_request env COMPANION_API_OP_AUTH_PROOF rid p s =
      companion_api_handle_auth_proof env rid p s"
    by (subst open_opcodes) (simp_all add: companion_api_opcode_requires_auth_def companion_op_defs)
  then show "co_authenticated s'" "co_active_client_id s' = cid"
    using assms(1,2,4-8) f
    by (simp_all add: s' companion_api_handle_auth_proof_def companion_api_hmac_sha256_def secure_equal_iff Let_def
        send_defs client_name_ok_def c_strncpy_id)
qed

text \<open>A client that asks for a pairing with its secret and a sequence of four buttons, which are
  then pressed in this order while the tick counter is at most the deadline of two minutes, is authenticated and trusted with
  this secret; the clients that were trusted before stay so. When the link is lost it is not
  authenticated any more, and when it comes back and answers the challenge with the HMAC of the
  nonce under its secret, it is again. The environments are those of the eight steps.\<close>

theorem companion_pair_and_return:
  assumes works: "\<forall>i::nat. nvs_works (env i)" and "\<forall>i \<in> {1..4}. ev_ticks (env i) \<le> ev_ticks (env 0) + 12000"
    and request: "companion_api_tlv_string p COMPANION_API_TLV_CLIENT_ID (COMPANION_API_CLIENT_ID_MAX_LEN + 1) = Some cid"
      "companion_api_tlv_string p COMPANION_API_TLV_APP_NAME (COMPANION_API_APP_NAME_MAX_LEN + 1) = Some app"
      "companion_api_find_tlv p COMPANION_API_TLV_SHARED_SECRET = Some sec"
      "companion_api_find_tlv p COMPANION_API_TLV_BUTTON_SEQUENCE = Some [b1, b2, b3, b4]"
    and args: "length sec = COMPANION_API_SECRET_LEN" "list_all (\<lambda>b. unat b < HID_BUTTON_COUNT) [b1, b2, b3, b4]" "client_name_ok cid"
    and room: "trusted_unique (env 0) (co_nvs s)" "card (dom (trusted_clients (env 0) (co_nvs s))) < COMPANION_API_MAX_TRUSTED_CLIENTS"
    and paired: "s1 = snd (companion_api_handle_request (env 0) COMPANION_API_OP_PAIR_BEGIN rid p s)"
      "s5 = fold (\<lambda>(i, b) s. snd (companion_api_apply_pairing_button (env i) (unat b) s)) [(1, b1), (2, b2), (3, b3), (4, b4)] s1"
    and lost: "s6 = snd (snd (companion_api_process_msg (\<lambda>_. env 5) COMPANION_API_MSG_LINK_DISCONNECTED (rx, s5)))"
    and again: "companion_api_tlv_string p6 COMPANION_API_TLV_CLIENT_ID (COMPANION_API_CLIENT_ID_MAX_LEN + 1) = Some cid"
      "s7 = snd (companion_api_handle_request (env 6) COMPANION_API_OP_AUTH_CHALLENGE rid6 p6 s6)"
      "companion_api_tlv_string p7 COMPANION_API_TLV_CLIENT_ID (COMPANION_API_CLIENT_ID_MAX_LEN + 1) = Some cid"
      "ev_hmac (env 7) sec (ev_random (env 6)) = Some mac" "length mac = COMPANION_API_HMAC_LEN"
      "companion_api_find_tlv p7 COMPANION_API_TLV_AUTH_HMAC = Some mac"
      "s8 = snd (companion_api_handle_request (env 7) COMPANION_API_OP_AUTH_PROOF rid7 p7 s7)"
  shows "co_authenticated s5 \<and> co_active_client_id s5 = cid \<and>
     trusted_clients (env 0) (co_nvs s5) = (trusted_clients (env 0) (co_nvs s))(cid \<mapsto> sec) \<and>
     \<not> co_authenticated s6 \<and> co_authenticated s8 \<and> co_active_client_id s8 = cid"
proof (intro conjI)
  let ?d = "ev_ticks (env 0) + 12000" and ?seq = "map unat [b1, b2, b3, b4]"
  have d: "ev_ticks (env 0) + of_nat (pdMS_TO_TICKS COMPANION_API_PAIRING_TIMEOUT_MS) = ?d"
    by (simp add: pdMS_TO_TICKS_def CONFIG_FREERTOS_HZ_def COMPANION_API_PAIRING_TIMEOUT_MS_def)
  let ?app = "c_strncpy COMPANION_API_APP_NAME_MAX_LEN app"
  let ?press = "\<lambda>i b s. snd (companion_api_apply_pairing_button (env i) (unat b) s)"
  have a0: "awaiting cid ?app sec ?seq ?d (co_nvs s) 0 s1"
    unfolding paired(1) d [symmetric] by (rule begin_awaiting [OF request args(1) _ args(2,3)]) simp
  have t: "ev_ticks (env i) \<le> ?d" if "i \<in> {1, 2, 3, 4}" for i using assms(2) that by auto
  have a1: "awaiting cid ?app sec ?seq ?d (co_nvs s) 1 (?press 1 b1 s1)"
    using awaiting_button [OF a0 _ t [of 1]] by simp
  have a2: "awaiting cid ?app sec ?seq ?d (co_nvs s) 2 (?press 2 b2 (?press 1 b1 s1))"
    using awaiting_button [OF a1 _ t [of 2]] by (simp add: numeral_2_eq_2)
  have a3: "awaiting cid ?app sec ?seq ?d (co_nvs s) 3 (?press 3 b3 (?press 2 b2 (?press 1 b1 s1)))"
    using awaiting_button [OF a2 _ t [of 3]] by (simp add: numeral_3_eq_3 numeral_2_eq_2)
  have s5: "s5 = snd (companion_api_apply_pairing_button (env 4) (?seq ! 3) (?press 3 b3 (?press 2 b2 (?press 1 b1 s1))))"
    by (simp add: paired(2))
  have same: "trusted_clients (env i) nvs = trusted_clients (env 0) nvs" "trusted_unique (env i) nvs = trusted_unique (env 0) nvs" for i nvs
    by (rule trusted_env; rule works [rule_format])+
  have room4: "trusted_unique (env 4) (co_nvs s)" "cid \<in> dom (trusted_clients (env 4) (co_nvs s)) \<or>
      card (dom (trusted_clients (env 4) (co_nvs s))) < COMPANION_API_MAX_TRUSTED_CLIENTS"
    using room unfolding same [of 4] by simp_all
  have "ev_ticks (env 4) \<le> ?d" using t [of 4] by simp
  note last_button = awaiting_last_button [OF a3 this works [rule_format] room4(1) args(3,1) room4(2) s5]
  show "co_authenticated s5" "co_active_client_id s5 = cid" by (rule last_button(1,2))+
  show m: "trusted_clients (env 0) (co_nvs s5) = (trusted_clients (env 0) (co_nvs s))(cid \<mapsto> sec)"
    using last_button(4) unfolding same [of 4] .
  have s6: "co_nvs s6 = co_nvs s5" "\<not> co_authenticated s6"
    by (simp_all add: lost companion_api_process_msg_def Let_def send_defs)
  then show "\<not> co_authenticated s6" by simp
  have m6: "trusted_clients (env i) (co_nvs s6) cid = Some sec" for i unfolding same [of i] using m s6 by simp
  note c = challenge_answered [OF again(1) args(3) m6 again(2)]
  have "trusted_clients (env 7) (co_nvs s7) cid = Some sec" using m6 c(4) by simp
  from proof_accepted [OF again(3) args(3) this c(1,3) _ again(5,6,7)] again(4) c(2)
  show "co_authenticated s8" "co_active_client_id s8 = cid" by simp_all
qed


section \<open>Concrete runs\<close>

text \<open>A device with a link, a stand-in for the keyed digest, and services that accept every call.\<close>

definition demo_link :: "bytes \<Rightarrow> co_env" where
  "demo_link nonce = \<lparr>ev_spp_connected = True, ev_notifications = True, ev_mtu = 100, ev_max_payload = 90,
     ev_send = (\<lambda>_ _. ESP_OK), ev_ticks = 100, ev_time = 1700000000, ev_uptime_ms = 1000, ev_random = nonce,
     ev_hmac = (\<lambda>k d. Some (take 32 (d @ k @ replicate 32 0))),
     ev_nvs_open = (\<lambda>_. ESP_OK), ev_nvs_get = (\<lambda>_. ESP_OK), ev_nvs_set = ESP_OK, ev_nvs_erase = (\<lambda>_. ESP_OK),
     ev_nvs_commit = ESP_OK, ev_call = (\<lambda>_. ESP_OK), ev_shuffle = of_nat, ev_output_target = 0,
     ev_wifi_state = 0, ev_wifi_internet = False, ev_wifi_autoreconnect = False, ev_wifi_active_slot = -1,
     ev_wifi_preferred_slot = -1, ev_wifi_ip = None, ev_wifi_scan = Inr [], ev_wifi_slots = Inr [],
     ev_lastfm = \<lparr>ls_has_auth_url = False, ls_has_token = False, ls_has_session = False, ls_busy = False,
       ls_scrobbling_enabled = False, ls_now_playing_enabled = False, ls_now_playing_active = False,
       ls_command_queue_ready = False, ls_scrobble_queue_ready = False, ls_pending_commands = 0,
       ls_pending_scrobbles = 0, ls_command_queue_capacity = 8, ls_scrobble_queue_capacity = 512,
       ls_successful_scrobbles = 0, ls_failed_scrobbles = 0, ls_auth_url = [], ls_username = []\<rparr>,
     ev_a2dp_connected = False, ev_bonded_count = 0, ev_bonded = Inr [], ev_discovery_running = False,
     ev_discovery = Inr [], ev_buttons = 0, ev_adc_main = 0, ev_adc_misc = 0, ev_script_status = None,
     ev_script_result = \<lparr>rr_run_id = 0, rr_resolved_path = [], rr_message = [], rr_output = [],
       rr_script_size_bytes = 0, rr_exit_code = 0\<rparr>,
     ev_script_root = None, ev_script_dir = (\<lambda>_. None), ev_script_log_path = (\<lambda>_. None),
     ev_readdir = (\<lambda>_. None), ev_fopen = (\<lambda>_. None)\<rparr>"

definition demo_device :: co_state where
  "demo_device = co_boot (\<lambda>_. None) (pl_boot cart_boot 0 resume_state_zero) ph_boot"

lemma demo_link_ok: "hmac_lawful (demo_link n)" "nvs_works (demo_link n)"
  by (simp_all add: hmac_lawful_def nvs_works_def demo_link_def COMPANION_API_HMAC_LEN_def min_def)

lemma demo_device_client: "client_at env (co_nvs demo_device) i = None"
  by (simp add: client_at_def companion_api_load_record_def demo_device_def co_boot_def)

lemma demo_device_clients:
  "trusted_unique env (co_nvs demo_device)" "trusted_clients env (co_nvs demo_device) = (\<lambda>_. None)"
  "\<not> co_authenticated demo_device"
proof -
  show u: "trusted_unique env (co_nvs demo_device)" by (simp add: trusted_unique_def demo_device_client)
  show "trusted_clients env (co_nvs demo_device) = (\<lambda>_. None)"
  proof
    fix c
    show "trusted_clients env (co_nvs demo_device) c = None"
      using trusted_clients_iff [OF u, of c] by (cases "c = []") (auto simp: demo_device_client)
  qed
qed (simp add: demo_device_def co_boot_def)

definition demo_secret :: bytes where "demo_secret = replicate 32 7"
definition demo_name :: bytes where "demo_name = [112, 104]"

lemma demo_name_ok: "client_name_ok demo_name" "length demo_secret = COMPANION_API_SECRET_LEN"
  by (simp_all add: client_name_ok_def demo_name_def demo_secret_def cstr_def companion_sizes)

lemma companion_trusted_map_witness:
  "trust_view (demo_link []) (companion_api_store_record (demo_link []) demo_name [] demo_secret demo_device) =
    (ESP_OK, [demo_name \<mapsto> demo_secret])"
  using companion_trusted_map [OF demo_link_ok(2) [of "[]"] demo_device_clients(1) demo_name_ok refl refl, of "[]"]
  by (simp add: trust_store_def demo_device_clients(2) COMPANION_API_MAX_TRUSTED_CLIENTS_def)


lemma find_tlv_payload:
  "list_all (\<lambda>e. length (snd e) < 65536) es \<Longrightarrow> companion_api_find_tlv (concat (map tlv_bytes es)) t = map_of es t"
  using find_tlv_entries [of es "[]" t] by (simp add: companion_api_find_tlv_def)

definition demo_request :: bytes where
  "demo_request = concat (map tlv_bytes [(COMPANION_API_TLV_CLIENT_ID, demo_name),
     (COMPANION_API_TLV_APP_NAME, []), (COMPANION_API_TLV_SHARED_SECRET, demo_secret),
     (COMPANION_API_TLV_BUTTON_SEQUENCE, [0, 1, 2, 3])])"

definition demo_answer :: bytes where
  "demo_answer = concat (map tlv_bytes [(COMPANION_API_TLV_CLIENT_ID, demo_name),
     (COMPANION_API_TLV_AUTH_HMAC, replicate 32 9)])"

lemma demo_tlvs:
  "companion_api_find_tlv demo_request t = map_of [(COMPANION_API_TLV_CLIENT_ID, demo_name),
     (COMPANION_API_TLV_APP_NAME, []), (COMPANION_API_TLV_SHARED_SECRET, demo_secret),
     (COMPANION_API_TLV_BUTTON_SEQUENCE, [0, 1, 2, 3])] t"
  "companion_api_find_tlv demo_answer t = map_of [(COMPANION_API_TLV_CLIENT_ID, demo_name),
     (COMPANION_API_TLV_AUTH_HMAC, replicate 32 9)] t"
  unfolding demo_request_def demo_answer_def
  by (rule find_tlv_payload, simp add: demo_name_def demo_secret_def)+

lemma demo_strings:
  "companion_api_tlv_string demo_request COMPANION_API_TLV_CLIENT_ID (COMPANION_API_CLIENT_ID_MAX_LEN + 1) = Some demo_name"
  "companion_api_tlv_string demo_request COMPANION_API_TLV_APP_NAME (COMPANION_API_APP_NAME_MAX_LEN + 1) = Some []"
  "companion_api_tlv_string demo_answer COMPANION_API_TLV_CLIENT_ID (COMPANION_API_CLIENT_ID_MAX_LEN + 1) = Some demo_name"
  "companion_api_find_tlv demo_request COMPANION_API_TLV_SHARED_SECRET = Some demo_secret"
  "companion_api_find_tlv demo_request COMPANION_API_TLV_BUTTON_SEQUENCE = Some [0, 1, 2, 3]"
  "companion_api_find_tlv demo_answer COMPANION_API_TLV_AUTH_HMAC = Some (replicate 32 9)"
  by (simp_all add: companion_api_tlv_string_def demo_tlvs COMPANION_API_TLV_CLIENT_ID_def
      COMPANION_API_TLV_APP_NAME_def COMPANION_API_TLV_SHARED_SECRET_def COMPANION_API_TLV_BUTTON_SEQUENCE_def
      COMPANION_API_TLV_AUTH_HMAC_def)
    (simp_all add: demo_name_def companion_sizes cstr_def)

definition demo_paired :: co_state where
  "demo_paired = fold (\<lambda>(i, b) s. snd (companion_api_apply_pairing_button (demo_link (replicate 32 9)) (unat b) s))
     [(1 :: nat, 0 :: u8), (2, 1), (3, 2), (4, 3)]
     (snd (companion_api_handle_request (demo_link (replicate 32 9)) COMPANION_API_OP_PAIR_BEGIN 1 demo_request demo_device))"

definition demo_challenged :: co_state where
  "demo_challenged = snd (companion_api_handle_request (demo_link (replicate 32 9)) COMPANION_API_OP_AUTH_CHALLENGE 2 demo_answer
     (snd (snd (companion_api_process_msg (\<lambda>_. demo_link (replicate 32 9)) COMPANION_API_MSG_LINK_DISCONNECTED ([], demo_paired)))))"

lemma companion_pair_and_return_witness:
  "co_active_client_id (snd (companion_api_handle_request (demo_link (replicate 32 9)) COMPANION_API_OP_AUTH_PROOF 3
     demo_answer demo_challenged)) = demo_name"
proof -
  let ?env = "demo_link (replicate 32 9)"
  have args: "list_all (\<lambda>b. unat b < HID_BUTTON_COUNT) [0, 1, 2, 3 :: u8]" by (simp add: HID_BUTTON_COUNT_def)
  have room: "card (dom (trusted_clients ?env (co_nvs demo_device))) < COMPANION_API_MAX_TRUSTED_CLIENTS"
    by (simp add: demo_device_clients(2) COMPANION_API_MAX_TRUSTED_CLIENTS_def)
  have mac: "ev_hmac ?env demo_secret (ev_random ?env) = Some (replicate 32 9)" by (simp add: demo_link_def)
  have works: "\<forall>i::nat. nvs_works ?env" and time: "\<forall>i::nat \<in> {1..4}. ev_ticks ?env \<le> ev_ticks ?env + 12000"
    by (simp_all add: demo_link_ok) (simp add: demo_link_def)
  show ?thesis
    using companion_pair_and_return [of "\<lambda>_. ?env", OF works time demo_strings(1,2,4,5) demo_name_ok(2) args
        demo_name_ok(1) demo_device_clients(1) room refl demo_paired_def refl demo_strings(3) demo_challenged_def
        demo_strings(3) mac _ demo_strings(6) refl]
    by (simp add: COMPANION_API_HMAC_LEN_def)
qed


definition demo_pings :: "co_request list" where
  "demo_pings = [(COMPANION_API_OP_PING, 1, []), (COMPANION_API_OP_PING, 2, [5])]"

lemma companion_any_chunking_witness:
  "receive (\<lambda>_. demo_link []) [take 5 (concat (map request_frame demo_pings)),
      drop 5 (concat (map request_frame demo_pings))] ([], demo_device) =
    ([], fold (serve (\<lambda>_. demo_link [])) demo_pings demo_device)"
proof (rule companion_any_chunking)
  show "list_all small_request demo_pings" by (simp add: demo_pings_def small_request_def companion_sizes)
  show "list_all (\<lambda>c. length c \<le> COMPANION_API_SPP_CHUNK_MAX_LEN)
      [take 5 (concat (map request_frame demo_pings)), drop 5 (concat (map request_frame demo_pings))]"
    by (simp add: demo_pings_def request_frame_def companion_sizes)
qed simp

lemma companion_stranger_harmless_witness:
  "co_player (snd (companion_api_handle_request (demo_link []) COMPANION_API_OP_PLAYBACK_CONTROL 1 [] demo_device)) =
   co_player demo_device"
  using companion_stranger_harmless [OF demo_link_ok(1) [of "[]"] demo_device_clients(3) refl,
      of COMPANION_API_OP_PLAYBACK_CONTROL 1 "[]"] by simp

text \<open>Three of the four buttons have been pressed.\<close>

definition demo_waiting :: co_state where
  "demo_waiting = demo_device\<lparr>co_pairing_pending := True, co_pairing_progress := 3,
     co_pending_sequence := [0, 1, 2, 3], co_pending_client_id := demo_name, co_pending_app_name := [],
     co_pending_secret := demo_secret, co_pairing_deadline := 12100\<rparr>"

lemma companion_authentication_witness:
  "co_active_client_id (snd (snd (companion_api_process_msg (\<lambda>_. demo_link []) (COMPANION_API_MSG_HID_BUTTON 3)
     ([], demo_waiting)))) = demo_name"
proof -
  let ?envs = "\<lambda>_ :: u32. demo_link []" and ?nvs = "co_nvs demo_device"
  let ?r = "companion_api_process_msg ?envs (COMPANION_API_MSG_HID_BUTTON 3) ([], demo_waiting)"
  let ?b = "snd (companion_api_apply_pairing_button (demo_link []) ([0, 1, 2, 3] ! 3) demo_waiting)"
  have wait: "awaiting demo_name [] demo_secret [0, 1, 2, 3] 12100 ?nvs 3 demo_waiting"
    by (simp add: awaiting_def demo_waiting_def)
  have time: "ev_ticks (demo_link []) \<le> 12100" by (simp add: demo_link_def)
  have room: "demo_name \<in> dom (trusted_clients (demo_link []) ?nvs) \<or>
      card (dom (trusted_clients (demo_link []) ?nvs)) < COMPANION_API_MAX_TRUSTED_CLIENTS"
    by (simp add: demo_device_clients(2) COMPANION_API_MAX_TRUSTED_CLIENTS_def)
  have "co_authenticated ?b"
    by (rule awaiting_last_button(1) [OF wait time demo_link_ok(2) demo_device_clients(1) demo_name_ok room refl])
  moreover have r: "snd (snd ?r) = ?b" by (simp add: companion_api_process_msg_def Let_def case_prod_beta)
  ultimately have auth: "co_authenticated (snd (snd ?r))" by simp
  have "\<forall>i. hmac_lawful (?envs i)" by (simp add: demo_link_ok)
  moreover have "\<not> co_authenticated demo_waiting" using demo_device_clients(3) by (simp add: demo_waiting_def)
  ultimately have "pairs (demo_link []) demo_waiting (snd (snd ?r))"
    using companion_authentication [of ?envs demo_waiting "fst ?r" "fst (snd ?r)" "snd (snd ?r)"
        "COMPANION_API_MSG_HID_BUTTON 3" "[]"] auth by simp
  then have "co_active_client_id (snd (snd ?r)) = c_strncpy COMPANION_API_CLIENT_ID_MAX_LEN demo_name"
    by (simp add: pairs_def demo_waiting_def)
  then show ?thesis using demo_name_ok(1) by (simp add: client_name_ok_def c_strncpy_id)
qed


section \<open>What a lost link leaves\<close>

text \<open>A link that is lost or comes up leaves a pending pairing as it is, so the remaining buttons
  authenticate whoever is connected by then.\<close>

lemma pairing_survives_link_loss:
  assumes "awaiting cid app sec seq deadline nvs k s"
  shows "awaiting cid app sec seq deadline nvs k
      (snd (snd (companion_api_process_msg envs COMPANION_API_MSG_LINK_DISCONNECTED (rx, s))))"
    and "awaiting cid app sec seq deadline nvs k
      (snd (snd (companion_api_process_msg envs COMPANION_API_MSG_LINK_CONNECTED (rx, s))))"
  using assms by (simp_all add: awaiting_def companion_api_process_msg_def Let_def send_defs)

text \<open>A lost link that finds the queue full is forgotten, and a link that comes up does not end the
  session: the next client is taken for the one before.\<close>

lemma full_queue_keeps_session:
  assumes "sy_queue sys = Some q" and "length q = COMPANION_API_QUEUE_DEPTH"
  shows "sy_queue (companion_api_bt_connection_cb BLUETOOTH_SVC_CONNECTION_EVENT_SPP_DISCONNECTED sys) = Some q"
    and "co_authenticated (sy_core (companion_api_bt_connection_cb BLUETOOTH_SVC_CONNECTION_EVENT_SPP_DISCONNECTED sys)) =
      co_authenticated (sy_core sys)"
    and "co_authenticated (snd (snd (companion_api_process_msg envs COMPANION_API_MSG_LINK_CONNECTED (rx, s)))) =
      co_authenticated s"
  using assms by (simp_all add: companion_api_bt_connection_cb_def companion_api_queue_link_message_def
      queue_or_count_def co_queue_send_def companion_api_process_msg_def Let_def send_defs)

end
