(* ===== verification/Companion_Invariant.thy ===== *)
theory Companion_Invariant
  imports Companion_Trust
begin

text \<open>
  The invariant of the companion service, \<^verbatim>\<open>main/companion_api_service.c\<close>, over all operations of its
  task and of the tasks that reach it: the buffers and the queue stay within their capacity, the
  index into the button sequence stays in range, the strings fit their arrays, and the player and
  the play history, which the requests of a client drive, stay in their own invariants.
\<close>

section \<open>What the handlers leave alone\<close>

definition co_kept where
  "co_kept s = (co_player s, co_history s, co_trusted_client_count s)"

lemma kept_frames [simp]:
  "co_kept (snd (companion_api_send_frame env ft opc rid p s)) = co_kept s"
  "co_kept (companion_api_touch_generation s) = co_kept s"
  "co_kept (companion_api_clear_pairing s) = co_kept s"
  "co_kept (snd (svc_call env c s)) = co_kept s"
  "co_kept (count_rx_error s) = co_kept s"
  "co_kept (count_rx_frame s) = co_kept s"
  by (simp_all add: co_kept_def companion_api_send_frame_def companion_api_touch_generation_def
      companion_api_clear_pairing_def svc_call_def count_rx_error_def count_rx_frame_def Let_def split: prod.split)

lemma kept_sends [simp]:
  "co_kept (snd (companion_api_send_error env opc rid e s)) = co_kept s"
  "co_kept (snd (companion_api_send_ok env opc rid w s)) = co_kept s"
  "co_kept (snd (reply env opc rid es s)) = co_kept s"
  "co_kept (snd (companion_api_send_pairing_status env rid ft s)) = co_kept s"
  "co_kept (snd (companion_api_send_snapshot_event env opc s)) = co_kept s"
  "co_kept (snd (send_page env opc rid h g b off n tot s)) = co_kept s"
  "co_kept (snd (finish env opc rid f r)) = co_kept (snd r)"
  "co_kept (snd (call_with_u32 env p t c s)) = co_kept s"
  "co_kept (snd (lastfm_action env a p s)) = co_kept s"
  "co_kept (snd (led_action env p s)) = co_kept s"
  by (simp_all add: send_defs send_page_def finish_def call_with_u32_def lastfm_action_def led_action_def Let_def
      case_prod_beta split: option.split prod.split)

lemma kept_handlers [simp]:
  "co_kept (snd (companion_api_handle_hello env opc rid s)) = co_kept s"
  "co_kept (snd (companion_api_handle_capabilities env opc rid s)) = co_kept s"
  "co_kept (snd (companion_api_handle_snapshot env opc rid s)) = co_kept s"
  "co_kept (snd (companion_api_handle_trusted_list env rid s)) = co_kept s"
  "co_kept (snd (companion_api_handle_track_page env rid p s)) = co_kept s"
  "co_kept (snd (companion_api_handle_history_album_page env rid p s)) = co_kept s"
  "co_kept (snd (companion_api_handle_history_track_page env rid p s)) = co_kept s"
  "co_kept (snd (companion_api_handle_wifi_scan_results env rid p s)) = co_kept s"
  "co_kept (snd (companion_api_handle_library_album env rid s)) = co_kept s"
  "co_kept (snd (companion_api_handle_library_cover env rid p s)) = co_kept s"
  "co_kept (snd (companion_api_handle_wifi_connect env rid p s)) = co_kept s"
  "co_kept (snd (companion_api_handle_wifi_simple env opc rid p s)) = co_kept s"
  "co_kept (snd (companion_api_handle_wifi_list_slots env rid s)) = co_kept s"
  "co_kept (snd (companion_api_handle_wifi_save_slot env rid p s)) = co_kept s"
  "co_kept (snd (companion_api_handle_wifi_reconnect env rid s)) = co_kept s"
  "co_kept (snd (companion_api_handle_lastfm_control env rid p s)) = co_kept s"
  "co_kept (snd (companion_api_handle_lastfm_request_token env rid s)) = co_kept s"
  "co_kept (snd (companion_api_handle_bt_audio_control env rid p s)) = co_kept s"
  "co_kept (snd (companion_api_handle_output_status env rid s)) = co_kept s"
  "co_kept (snd (companion_api_handle_output_select env rid p s)) = co_kept s"
  "co_kept (snd (companion_api_handle_bt_scan_start env rid s)) = co_kept s"
  "co_kept (snd (companion_api_handle_bt_scan_results env rid s)) = co_kept s"
  "co_kept (snd (companion_api_handle_bt_bonded_list env rid s)) = co_kept s"
  "co_kept (snd (companion_api_handle_bt_unbond env rid p s)) = co_kept s"
  "co_kept (snd (companion_api_handle_hid_status env rid s)) = co_kept s"
  "co_kept (snd (companion_api_handle_hid_led_set env rid p s)) = co_kept s"
  "co_kept (snd (companion_api_handle_script_status env rid s)) = co_kept s"
  "co_kept (snd (companion_api_handle_script_list env rid p s)) = co_kept s"
  "co_kept (snd (companion_api_handle_script_log env rid p s)) = co_kept s"
  "co_kept (snd (companion_api_handle_script_run env rid p s)) = co_kept s"
  "co_kept (snd (companion_api_handle_system_reboot env opc rid b s)) = co_kept s"
  "co_kept (snd (companion_api_handle_pair_begin env rid p s)) = co_kept s"
  "co_kept (snd (companion_api_handle_auth_challenge env rid p s)) = co_kept s"
  "co_kept (snd (companion_api_handle_auth_proof env rid p s)) = co_kept s"
  by (simp_all add: companion_handler_defs companion_api_handle_pair_begin_def companion_api_handle_auth_challenge_def
      companion_api_handle_auth_proof_def Let_def case_prod_beta split: option.split sum.split prod.split list.split)
    (simp_all add: co_kept_def send_defs companion_api_clear_pairing_def)


section \<open>The invariant of the state\<close>

definition co_own_inv :: "co_state \<Rightarrow> bool" where
  "co_own_inv s \<longleftrightarrow> length (co_pending_sequence s) = 4 \<and>
     list_all (\<lambda>b. b < HID_BUTTON_COUNT) (co_pending_sequence s) \<and> co_pairing_progress s \<le> 4 \<and>
     length (co_pending_secret s) = COMPANION_API_SECRET_LEN \<and>
     length (co_pending_client_id s) \<le> COMPANION_API_CLIENT_ID_MAX_LEN \<and>
     length (co_pending_app_name s) \<le> COMPANION_API_APP_NAME_MAX_LEN \<and>
     length (co_active_client_id s) \<le> COMPANION_API_CLIENT_ID_MAX_LEN \<and>
     length (co_auth_client_id s) \<le> COMPANION_API_CLIENT_ID_MAX_LEN"

definition co_back_inv :: "string \<Rightarrow> co_state \<Rightarrow> bool" where
  "co_back_inv mp s \<longleftrightarrow> pl_inv mp (co_player s) \<and> ph_inv (co_history s) \<and>
     unat (co_trusted_client_count s) \<le> COMPANION_API_MAX_TRUSTED_CLIENTS"

lemma own_session:
  assumes "co_session s' = co_session s" and "co_own_inv s"
  shows "co_own_inv s'"
  using assms(2) session_fields [OF assms(1)] by (simp add: co_own_inv_def)

lemma own_session_nvs: "co_session s' = co_session (s\<lparr>co_nvs := nvs\<rparr>) \<Longrightarrow> co_own_inv s \<Longrightarrow> co_own_inv s'"
  by (erule own_session) (simp add: co_own_inv_def)

lemma back_kept: "co_kept s' = co_kept s \<Longrightarrow> co_back_inv mp s \<Longrightarrow> co_back_inv mp s'"
  by (simp add: co_kept_def co_back_inv_def)

declare c_strncpy_length [simp]

lemma own_clear [simp]: "co_own_inv s \<Longrightarrow> co_own_inv (companion_api_clear_pairing s)"
  by (simp add: co_own_inv_def companion_api_clear_pairing_def list_all_iff HID_BUTTON_COUNT_def)

lemma own_sends [simp]:
  "co_own_inv (snd (companion_api_send_frame env ft opc rid p s)) = co_own_inv s"
  "co_own_inv (companion_api_touch_generation s) = co_own_inv s"
  by (simp_all add: co_own_inv_def)

lemma own_session_handlers:
  assumes "co_own_inv s"
  shows "co_own_inv (snd (companion_api_handle_pair_begin env rid p s))"
    and "co_own_inv (snd (companion_api_handle_auth_challenge env rid p s))"
    and "co_own_inv (snd (companion_api_handle_auth_proof env rid p s))"
  using assms own_clear [OF assms]
  by (auto simp: companion_api_handle_pair_begin_def companion_api_handle_auth_challenge_def
      companion_api_handle_auth_proof_def Let_def send_defs co_own_inv_def list_ex_iff list_all_iff not_le
      split: option.split sum.split prod.split)

lemma count_trusted_le: "companion_api_count_trusted_clients env nvs \<le> COMPANION_API_MAX_TRUSTED_CLIENTS"
  unfolding companion_api_count_trusted_clients_def by (rule order_trans [OF length_filter_le]) simp

lemma recount_back [simp]:
  "co_player (recount_trusted env s) = co_player s" "co_history (recount_trusted env s) = co_history s"
  "unat (of_nat (companion_api_count_trusted_clients env nvs) :: u8) \<le> COMPANION_API_MAX_TRUSTED_CLIENTS"
  using count_trusted_le [of env nvs]
  by (simp_all add: recount_trusted_def unsigned_of_nat take_bit_nat_eq_self COMPANION_API_MAX_TRUSTED_CLIENTS_def)

lemma own_recount [simp]: "co_own_inv (recount_trusted env s) = co_own_inv s"
  using own_session [OF recount_session] own_session [OF recount_session [symmetric]] by blast

lemma store_record_inv:
  "co_back_inv mp s \<Longrightarrow> co_back_inv mp (snd (companion_api_store_record env cid app sec s))"
  unfolding companion_api_store_record_def
  by (auto simp: Let_def co_back_inv_def split: option.split)

lemma revoke_inv:
  "co_back_inv mp s \<Longrightarrow> co_back_inv mp (snd (companion_api_revoke_client_internal env cid s))"
  "co_back_inv mp s \<Longrightarrow> co_back_inv mp (snd (companion_api_revoke_all_internal env s))"
  "co_own_inv s \<Longrightarrow> co_own_inv (snd (companion_api_revoke_client_internal env cid s))"
  "co_own_inv s \<Longrightarrow> co_own_inv (snd (companion_api_revoke_all_internal env s))"
  unfolding companion_api_revoke_client_internal_def companion_api_revoke_all_internal_def
  by (auto simp: Let_def co_back_inv_def split: sum.split prod.split) (auto simp: co_own_inv_def)


definition co_inv :: "string \<Rightarrow> co_state \<Rightarrow> bool" where
  "co_inv mp s \<longleftrightarrow> co_own_inv s \<and> co_back_inv mp s"

lemma inv_frame: "co_session s' = co_session s \<Longrightarrow> co_kept s' = co_kept s \<Longrightarrow> co_inv mp s \<Longrightarrow> co_inv mp s'"
  unfolding co_inv_def by (blast intro: own_session back_kept)

lemma inv_frames [simp]:
  assumes "co_inv mp s"
  shows "co_inv mp (snd (companion_api_send_frame env ft opc rid p s))" and "co_inv mp (companion_api_touch_generation s)"
    and "co_inv mp (snd (companion_api_send_error env opc rid e s))"
    and "co_inv mp (snd (companion_api_send_pairing_status env rid ft s))"
    and "co_inv mp (snd (companion_api_send_snapshot_event env opc s))"
    and "co_inv mp (companion_api_clear_pairing s)"
    and "co_inv mp (count_rx_error s)" and "co_inv mp (count_rx_frame s)"
proof -
  show "co_inv mp (companion_api_clear_pairing s)"
    using assms by (auto simp: co_inv_def intro: back_kept)
  show "co_inv mp (count_rx_error s)" "co_inv mp (count_rx_frame s)"
    using assms by (simp_all add: co_inv_def co_own_inv_def co_back_inv_def count_rx_error_def count_rx_frame_def)
qed (rule inv_frame [OF _ _ assms]; simp)+

lemma on_player_inv:
  assumes "co_inv mp s" and "\<And>p. pl_inv mp p \<Longrightarrow> pl_inv mp (snd (f p))"
  shows "co_inv mp (snd (on_player f s))"
  using assms by (simp add: on_player_def co_inv_def co_own_inv_def co_back_inv_def case_prod_beta)

lemma playback_control_inv:
  assumes "co_inv mp s"
  shows "co_inv mp (snd (companion_api_handle_playback_control env rid p s))"
proof -
  have call: "co_inv mp (snd (svc_call env c s))" for c
    by (rule inv_frame [OF _ _ assms]) simp_all
  have volume: "co_inv mp (s\<lparr>co_player := player_service_set_volume_absolute v (co_player s)\<rparr>)" for v
    using assms volume_step_inv [of mp "co_player s" v] by (simp add: co_inv_def co_own_inv_def co_back_inv_def)
  have "co_inv mp (snd (playback_action env a v s))" for a v
    unfolding playback_action_def
    by (auto simp: call volume assms intro!: on_player_inv queue_step_inv(2,3,4) set_playback_mode_inv)
  then have "co_inv mp (snd (finish env opc rid es (playback_action env a v s)))" for opc es a v
    by (rule inv_frame [rotated 2]) simp_all
  then show ?thesis
    using assms by (auto simp: companion_api_handle_playback_control_def Let_def split: option.split)
qed

lemma history_clear_inv:
  assumes "co_inv mp s"
  shows "co_inv mp (snd (companion_api_handle_history_clear env rid s))"
proof -
  let ?r = "case play_history_service_request_clear (co_history s) of (err, h) \<Rightarrow> (err, s\<lparr>co_history := h\<rparr>)"
  have "ph_inv (snd (play_history_service_request_clear (co_history s)))"
    using assms by (auto simp: play_history_service_request_clear_def co_inv_def co_back_inv_def case_prod_beta
        intro: ph_enqueue_inv(1))
  then have "co_inv mp (snd ?r)"
    using assms by (simp add: co_inv_def co_own_inv_def co_back_inv_def case_prod_beta)
  then show ?thesis
    unfolding companion_api_handle_history_clear_def by (rule inv_frame [rotated 2]) simp_all
qed

lemma revoke_request_inv:
  assumes "co_inv mp s"
  shows "co_inv mp (snd (companion_handle_revoke env opc rid p s))"
proof -
  have r: "co_inv mp (snd (companion_api_revoke_client_internal env cid s))" for cid
    using assms revoke_inv by (simp add: co_inv_def)
  have t: "co_inv mp t \<Longrightarrow> co_inv mp (snd (companion_api_handle_trusted_list env rid t))" for t
    by (rule inv_frame) simp_all
  show ?thesis
    unfolding companion_handle_revoke_def using assms r t
    by (auto simp: case_prod_beta split: option.split)
qed

lemma trusted_request_inv:
  assumes "co_inv mp s"
  shows "co_inv mp (snd (companion_handle_trusted_request env opc rid p s))"
proof -
  consider "opc = COMPANION_API_OP_TRUSTED_REVOKE" | "opc = COMPANION_API_OP_PLAYBACK_CONTROL"
    | "opc = COMPANION_API_OP_HISTORY_CLEAR"
    | "opc \<notin> {COMPANION_API_OP_TRUSTED_REVOKE, COMPANION_API_OP_PLAYBACK_CONTROL, COMPANION_API_OP_HISTORY_CLEAR}"
    by auto
  then show ?thesis
  proof cases
    case 4
    have "co_kept (snd (companion_handle_trusted_request env opc rid p s)) = co_kept s"
      using 4 by (simp add: companion_handle_trusted_request_def)
    with trusted_request_session 4 assms show ?thesis by (blast intro: inv_frame)
  qed (simp_all add: companion_handle_trusted_request_def revoke_request_inv playback_control_inv history_clear_inv
      assms companion_op_defs)
qed

lemma request_inv:
  assumes "co_inv mp s"
  shows "co_inv mp (snd (companion_api_handle_request env opc rid p s))"
proof -
  have open_inv: "co_inv mp (snd (companion_api_handle_pair_begin env rid p s))"
    "co_inv mp (snd (companion_api_handle_auth_challenge env rid p s))"
    "co_inv mp (snd (companion_api_handle_auth_proof env rid p s))"
    using assms by (auto simp: co_inv_def intro: back_kept own_session_handlers)
  have "co_inv mp (snd (companion_api_handle_hello env op2 rid s))"
    "co_inv mp (snd (companion_api_handle_capabilities env op2 rid s))" for op2
    by (rule inv_frame [OF _ _ assms]; simp)+
  then show ?thesis
    using assms open_inv trusted_request_inv [OF assms, of env opc rid p]
    by (simp add: companion_api_handle_request_def)
qed


section \<open>The task and the tasks that reach it\<close>

lemma parse_inv: "co_inv mp s \<Longrightarrow> co_inv mp (snd (parse_rx envs rx s)) \<and> length (fst (parse_rx envs rx s)) \<le> length rx"
proof (induction envs rx s rule: parse_rx.induct)
  case (1 envs rx s)
  note frames = inv_frames(3) [OF "1.prems"] inv_frames(7) [OF "1.prems"] inv_frames(8) [OF request_inv [OF "1.prems"]]
  show ?case
    by (subst (1 2) parse_rx.simps)
      (use frames "1.prems" "1.IH"(1) "1.IH"(2) [OF _ _ refl refl refl] "1.IH"(3,4,5) [OF _ _ refl refl refl _ refl refl] in
        \<open>auto simp: Let_def intro: le_trans [OF _ diff_le_self]\<close>)
qed

lemma chunk_inv:
  assumes "co_inv mp s" and "length rx \<le> COMPANION_API_FRAME_MAX_LEN"
  shows "co_inv mp (snd (companion_api_handle_rx_chunk envs data (rx, s)))"
    and "length (fst (companion_api_handle_rx_chunk envs data (rx, s))) \<le> COMPANION_API_FRAME_MAX_LEN"
  using assms parse_inv [OF assms(1), of envs "rx @ data"] inv_frames(3) [OF inv_frames(7) [OF assms(1)]]
  by (auto simp: companion_api_handle_rx_chunk_def)

lemma complete_pairing_inv:
  assumes "co_inv mp s"
  shows "co_inv mp (snd (companion_api_complete_pairing env s))"
proof -
  let ?r = "companion_api_store_record env (co_pending_client_id s) (co_pending_app_name s) (co_pending_secret s) s"
  obtain nvs where "co_session (snd ?r) = co_session (s\<lparr>co_nvs := nvs\<rparr>)" using store_record_fields by blast
  then have r: "co_inv mp (snd ?r)"
    using assms store_record_inv own_session_nvs unfolding co_inv_def by blast
  then have "co_inv mp ((snd ?r)\<lparr>co_authenticated := True,
      co_active_client_id := c_strncpy COMPANION_API_CLIENT_ID_MAX_LEN c\<rparr>)" for c
    by (simp add: co_inv_def co_own_inv_def co_back_inv_def)
  then show ?thesis
    using assms r by (simp add: companion_api_complete_pairing_def Let_def case_prod_beta)
qed

lemma button_inv:
  assumes "co_inv mp s"
  shows "co_inv mp (snd (companion_api_apply_pairing_button env b s))"
proof -
  have zero: "co_inv mp (s\<lparr>co_pairing_progress := 0\<rparr>)"
    and step: "\<not> 4 \<le> co_pairing_progress s \<Longrightarrow> co_inv mp (s\<lparr>co_pairing_progress := Suc (co_pairing_progress s)\<rparr>)"
    using assms by (simp_all add: co_inv_def co_own_inv_def co_back_inv_def)
  show ?thesis
    using assms zero step complete_pairing_inv
    by (auto simp: companion_api_apply_pairing_button_def Let_def)
qed

lemma message_inv:
  assumes "co_inv mp s" and "length rx \<le> COMPANION_API_FRAME_MAX_LEN"
  shows "co_inv mp (snd (snd (companion_api_process_msg envs msg (rx, s))))"
    and "length (fst (snd (companion_api_process_msg envs msg (rx, s)))) \<le> COMPANION_API_FRAME_MAX_LEN"
proof -
  have off: "co_inv mp (s\<lparr>co_authenticated := False, co_auth_challenge_pending := False, co_active_client_id := []\<rparr>)"
    using assms(1) by (simp add: co_inv_def co_own_inv_def co_back_inv_def)
  have revoke: "co_inv mp (snd (companion_api_revoke_client_internal env cid s))"
    "co_inv mp (snd (companion_api_revoke_all_internal env s))" for env cid
    using assms(1) revoke_inv by (simp_all add: co_inv_def)
  show "co_inv mp (snd (snd (companion_api_process_msg envs msg (rx, s))))"
    using assms(1) chunk_inv(1) [OF assms] off revoke button_inv complete_pairing_inv
    by (cases msg) (simp_all add: companion_api_process_msg_def Let_def case_prod_beta)
  show "length (fst (snd (companion_api_process_msg envs msg (rx, s)))) \<le> COMPANION_API_FRAME_MAX_LEN"
    using assms(2) chunk_inv(2) [OF assms]
    by (cases msg) (simp_all add: companion_api_process_msg_def Let_def case_prod_beta)
qed

definition sys_inv :: "string \<Rightarrow> co_sys \<Rightarrow> bool" where
  "sys_inv mp sys \<longleftrightarrow> co_inv mp (sy_core sys) \<and> length (sy_rx sys) \<le> COMPANION_API_FRAME_MAX_LEN \<and>
     (case sy_queue sys of None \<Rightarrow> True | Some q \<Rightarrow> length q \<le> COMPANION_API_QUEUE_DEPTH)"

lemma task_turn_inv:
  assumes "sys_inv mp sys"
  shows "sys_inv mp (companion_api_task envs now sys)"
proof -
  define sys1 where "sys1 = (case sy_queue sys of
      Some (msg # msgs) \<Rightarrow> (case companion_api_process_msg envs msg (sy_rx sys, sy_core sys) of
        (_, rx, s) \<Rightarrow> sys\<lparr>sy_rx := rx, sy_core := s, sy_queue := Some msgs\<rparr>) | _ \<Rightarrow> sys)"
  have one: "sys_inv mp sys1"
    using assms message_inv [of mp "sy_core sys" "sy_rx sys" envs]
    by (auto simp: sys1_def sys_inv_def case_prod_beta Let_def split: option.splits list.splits)
  have "co_inv mp s \<Longrightarrow> co_inv mp (companion_api_send_heartbeat env f (expire_pairing env now s))" for env f s
    by (simp add: companion_api_send_heartbeat_def expire_pairing_def)
  with one show ?thesis
    unfolding companion_api_task_def Let_def sys1_def [symmetric] by (auto simp: sys_inv_def)
qed

lemma queue_inv_send:
  assumes "sys_inv mp sys"
  shows "sys_inv mp (snd (co_queue_send msg sys))" and "sys_inv mp (queue_or_count msg sys)"
proof -
  show a: "sys_inv mp (snd (co_queue_send msg sys))"
    using assms by (auto simp: co_queue_send_def sys_inv_def split: option.splits)
  have "co_inv mp (s\<lparr>co_dropped_rx_chunks := n\<rparr>) = co_inv mp s" for s n
    by (simp add: co_inv_def co_own_inv_def co_back_inv_def)
  with a show "sys_inv mp (queue_or_count msg sys)"
    using assms by (auto simp: queue_or_count_def sys_inv_def case_prod_beta Let_def)
qed

lemma admin_inv: "sys_inv mp sys \<Longrightarrow> sys_inv mp (snd (companion_api_queue_admin_message ok msg sys))"
  by (simp add: companion_api_queue_admin_message_def case_prod_beta Let_def queue_inv_send)

lemma service_init_inv:
  assumes "sys_inv mp sys"
  shows "sys_inv mp (snd (companion_api_service_init env ie now sys))"
proof -
  have "co_inv mp (s\<lparr>co_tx_frame := b\<rparr>) = co_inv mp s" "co_inv mp (s\<lparr>co_initialised := b\<rparr>) = co_inv mp s" for s b
    by (simp_all add: co_inv_def co_own_inv_def co_back_inv_def)
  moreover have "co_inv mp (s\<lparr>co_tx_frame := b, co_trusted_client_count := of_nat (companion_api_count_trusted_clients env n)\<rparr>)"
    if "co_inv mp s" for s b n
    using that by (simp add: co_inv_def co_own_inv_def co_back_inv_def)
  moreover have "co_inv mp (s\<lparr>co_tx_frame := b,
      co_trusted_client_count := of_nat (companion_api_count_trusted_clients env n), co_initialised := c\<rparr>)"
    if "co_inv mp s" for s b n c
    using that by (simp add: co_inv_def co_own_inv_def co_back_inv_def)
  ultimately show ?thesis
    using assms by (simp add: companion_api_service_init_def Let_def sys_inv_def)
qed


section \<open>Reachable states\<close>

text \<open>The operations on the service, with those on the player and on the history between them.\<close>

datatype 'd dev_op =
    DevInit co_env co_init_env u32
  | DevTask co_envs u32
  | DevRx bytes
  | DevBluetooth bluetooth_service_connection_event
  | DevButton bool "nat option"
  | DevStateEvent co_event_base
  | DevConfirm bool
  | DevCancel bool
  | DevConsoleButton bool nat
  | DevRevoke bool "bytes option"
  | DevRevokeAll bool
  | DevPlayer pl_op
  | DevHistory "'d ph_op"

fun dev_step :: "(bytes \<Rightarrow> u32) \<Rightarrow> string \<Rightarrow> co_sys \<Rightarrow> 'd dev_op \<Rightarrow> co_sys" where
  "dev_step crc mp sys (DevInit env ie now) = snd (companion_api_service_init env ie now sys)"
| "dev_step crc mp sys (DevTask envs now) = companion_api_task envs now sys"
| "dev_step crc mp sys (DevRx data) = companion_api_spp_rx_cb data sys"
| "dev_step crc mp sys (DevBluetooth event) = companion_api_bt_connection_cb event sys"
| "dev_step crc mp sys (DevButton down button) = companion_api_hid_event_handler down button sys"
| "dev_step crc mp sys (DevStateEvent base) = companion_api_state_event_handler base sys"
| "dev_step crc mp sys (DevConfirm ok) = snd (companion_api_service_console_confirm_pairing ok sys)"
| "dev_step crc mp sys (DevCancel ok) = snd (companion_api_service_console_cancel_pairing ok sys)"
| "dev_step crc mp sys (DevConsoleButton ok b) = snd (companion_api_service_console_input_button ok b sys)"
| "dev_step crc mp sys (DevRevoke ok cid) = snd (companion_api_service_revoke_client ok cid sys)"
| "dev_step crc mp sys (DevRevokeAll ok) = snd (companion_api_service_revoke_all_clients ok sys)"
| "dev_step crc mp sys (DevPlayer a) =
     sys\<lparr>sy_core := (sy_core sys)\<lparr>co_player := pl_step crc mp (co_player (sy_core sys)) a\<rparr>\<rparr>"
| "dev_step crc mp sys (DevHistory a) =
     sys\<lparr>sy_core := (sy_core sys)\<lparr>co_history := ph_guarded_step (co_history (sy_core sys)) a\<rparr>\<rparr>"

definition dev_boot :: "(nat \<Rightarrow> bytes option) \<Rightarrow> u32 \<Rightarrow> player_service_resume_state \<Rightarrow> co_sys" where
  "dev_boot nvs magic saved = \<lparr>sy_rx = [], sy_core = co_boot nvs (pl_boot cart_boot magic saved) ph_boot,
     sy_queue = None, sy_next_heartbeat = 0\<rparr>"

lemma dev_step_inv: "sys_inv mp sys \<Longrightarrow> sys_inv mp (dev_step crc mp sys a)"
proof (cases a)
  case (DevPlayer b)
  assume i: "sys_inv mp sys"
  then have "pl_inv mp (pl_step crc mp (co_player (sy_core sys)) b)"
    by (intro pl_machine.step_inv) (simp add: sys_inv_def co_inv_def co_back_inv_def)
  with i DevPlayer show ?thesis by (simp add: sys_inv_def co_inv_def co_back_inv_def co_own_inv_def)
next
  case (DevHistory b)
  assume i: "sys_inv mp sys"
  then have "ph_inv (ph_guarded_step (co_history (sy_core sys)) b)"
    by (intro ph_machine.step_inv) (simp add: sys_inv_def co_inv_def co_back_inv_def)
  with i DevHistory show ?thesis by (simp add: sys_inv_def co_inv_def co_back_inv_def co_own_inv_def)
qed (auto simp: service_init_inv task_turn_inv queue_inv_send admin_inv companion_api_spp_rx_cb_def
    companion_api_bt_connection_cb_def companion_api_queue_link_message_def companion_api_queue_state_event_def
    companion_api_hid_event_handler_def companion_api_state_event_handler_def
    companion_api_service_console_confirm_pairing_def companion_api_service_console_cancel_pairing_def
    companion_api_service_console_input_button_def companion_api_service_revoke_client_def
    companion_api_service_revoke_all_clients_def
    split: option.split bluetooth_service_connection_event.split co_event_base.split)

interpretation dev_machine: event_machine "dev_step crc mp" "sys_inv mp"
  for crc mp
  by unfold_locales (rule dev_step_inv)

lemma dev_boot_inv: "sys_inv mp (dev_boot nvs magic saved)"
  using pl_boot_inv [OF cart_boot_inv [THEN conjunct1] cart_boot_inv [THEN conjunct2], of mp magic saved] ph_boot_inv
  by (simp add: sys_inv_def dev_boot_def co_boot_def co_inv_def co_own_inv_def co_back_inv_def list_all_iff
      HID_BUTTON_COUNT_def)

text \<open>C20: In every reachable state of the device, whatever its tasks, the clients, the buttons, the
  console, the card and the services do in whatever order, the receive buffer and the message
  queue are within their capacity, the names, the secret and the button sequence of a pairing
  fit their arrays, with at most four buttons counted and at most four trusted clients, and the
  player and the play history the clients drive stay in their own invariants.\<close>

theorem companion_always_consistent:
  "sys_inv mp (foldl (dev_step crc mp) (dev_boot nvs magic saved) ops)"
  by (rule dev_machine.run_inv [OF dev_boot_inv])

end
