(* ===== verification/Wifi_Invariant.thy ===== *)
theory Wifi_Invariant
  imports Wifi
begin

text \<open>The invariant of the Wi-Fi service: every operation keeps it, whatever the driver answers.\<close>

section \<open>The invariant\<close>

definition slot_or_none :: "int \<Rightarrow> bool" where
  "slot_or_none slot \<longleftrightarrow> slot = WIFI_SVC_INVALID_SLOT \<or> slot_in_range slot"

definition wf_sequence_inv :: "wf_state \<Rightarrow> bool" where
  "wf_sequence_inv s \<longleftrightarrow>
     length (wf_reconnect_order s) = WIFI_SVC_SLOT_COUNT \<and>
     wf_reconnect_order_len s \<le> WIFI_SVC_SLOT_COUNT \<and>
     wf_reconnect_order_index s \<le> wf_reconnect_order_len s \<and>
     list_all wifi_service_slot_index_valid (wf_reconnect_order s)"

definition wf_trying_inv :: "wf_state \<Rightarrow> bool" where
  "wf_trying_inv s \<longleftrightarrow>
     (if wf_reconnect_sequence_active s
      then wf_initialised s \<and> wf_reconnect_order_index s > 0 \<and>
           wf_current_slot s = uint (wf_reconnect_order s ! (wf_reconnect_order_index s - 1))
      else wf_reconnect_order_len s = 0)"

definition wf_link_inv :: "wf_state \<Rightarrow> bool" where
  "wf_link_inv s \<longleftrightarrow>
     slot_or_none (wf_last_successful_slot s) \<and> slot_or_none (wf_current_slot s) \<and>
     (wf_link_state s = WIFI_SVC_STATE_CONNECTED \<longrightarrow>
        wf_have_ip_info s \<and> wf_expected_disconnect s = DISCONNECT_EXPECT_NONE \<and>
        \<not> wf_reconnect_sequence_active s) \<and>
     (wf_link_state s = WIFI_SVC_STATE_CONNECTING \<longrightarrow>
        slot_in_range (wf_current_slot s) \<and> \<not> wf_have_ip_info s) \<and>
     (wf_link_state s \<in> {WIFI_SVC_STATE_CONNECTING, WIFI_SVC_STATE_CONNECTED} \<longrightarrow>
        wf_reconnect_timer s = Some False \<and> wf_expected_disconnect s \<noteq> DISCONNECT_EXPECT_USER)"

definition wf_alive_inv :: "wf_state \<Rightarrow> bool" where
  "wf_alive_inv s \<longleftrightarrow>
     (wf_initialised s \<longleftrightarrow> wf_reconnect_timer s \<noteq> None) \<and>
     (wf_initialised s \<longrightarrow> wf_cmd_queue s \<noteq> None \<and> wf_scan_mutex s \<and> wf_sta_netif s \<and>
        wf_wifi_handler s \<and> wf_ip_handler s) \<and>
     (\<not> wf_initialised s \<longrightarrow> wf_link_state s = WIFI_SVC_STATE_IDLE \<and> \<not> wf_have_ip_info s) \<and>
     (case wf_cmd_queue s of None \<Rightarrow> True | Some q \<Rightarrow> length q \<le> CMD_QUEUE_DEPTH) \<and>
     wf_scan_count s \<le> length (wf_scan_records s) \<and>
     length (wf_scan_records s) \<le> WIFI_SVC_MAX_SCAN_RESULTS"

definition wf_inv :: "wf_state \<Rightarrow> bool" where
  "wf_inv s \<longleftrightarrow> wf_sequence_inv s \<and> wf_trying_inv s \<and> wf_link_inv s \<and> wf_alive_inv s"

lemmas wf_inv_defs = wf_inv_def wf_sequence_inv_def wf_trying_inv_def wf_link_inv_def wf_alive_inv_def

lemmas wf_step_defs = wf_log_def wf_call_def post_event_def wf_timer_set_def
  wifi_service_reset_ip_state_def wifi_service_clear_reconnect_sequence_def

lemma slot_or_none_simps [simp]:
  "slot_or_none WIFI_SVC_INVALID_SLOT" "slot_in_range x \<Longrightarrow> slot_or_none x"
  "slot_in_range (uint slot) \<longleftrightarrow> wifi_service_slot_index_valid slot"
  using of_nat_less_iff [where 'a = int, of "unat slot" WIFI_SVC_SLOT_COUNT]
  by (auto simp: slot_or_none_def slot_in_range_def wifi_service_slot_index_valid_def)

lemma boot_sequence_inv [simp]:
  "list_all wifi_service_slot_index_valid (replicate n 0)"
  by (simp add: list_all_iff wifi_service_slot_index_valid_def WIFI_SVC_SLOT_COUNT_def)

text \<open>What a connection attempt does to the state, whether it starts or not.\<close>

definition wf_attempt_failed :: "wf_state \<Rightarrow> wf_state \<Rightarrow> bool" where
  "wf_attempt_failed s s' \<longleftrightarrow> (\<exists>t e tr. s' = s\<lparr>wf_reconnect_timer := t, wf_expected_disconnect := e, wf_trace := tr\<rparr> \<and>
     (t = wf_reconnect_timer s \<or> t = map_option (\<lambda>_. False) (wf_reconnect_timer s)) \<and>
     (e = wf_expected_disconnect s \<or> e = DISCONNECT_EXPECT_NONE \<or>
      e = DISCONNECT_EXPECT_HANDOFF \<and>
        wf_link_state s \<in> {WIFI_SVC_STATE_CONNECTING, WIFI_SVC_STATE_CONNECTED}))"

definition wf_attempt_started :: "u8 \<Rightarrow> wf_state \<Rightarrow> wf_state \<Rightarrow> bool" where
  "wf_attempt_started slot s s' \<longleftrightarrow> wifi_service_slot_index_valid slot \<and>
     (\<exists>e tr. s' = s\<lparr>wf_reconnect_timer := map_option (\<lambda>_. False) (wf_reconnect_timer s),
        wf_expected_disconnect := e,
        wf_current_slot := uint slot, wf_link_state := WIFI_SVC_STATE_CONNECTING,
        wf_have_ip_info := False, wf_dns_lookup_active := False,
        wf_connectivity_ok := False, wf_ip_info := no_ip_info, wf_trace := tr\<rparr> \<and> e \<noteq> DISCONNECT_EXPECT_USER)"

lemma attempt_unchanged [simp]: "wf_attempt_failed s s"
  unfolding wf_attempt_failed_def by (intro exI [of _ "wf_reconnect_timer s"]
      exI [of _ "wf_expected_disconnect s"] exI [of _ "wf_trace s"]) simp

lemma copy_ok [simp]: "wifi_copy_cstring n src \<noteq> Inl ESP_OK"
  by (simp add: wifi_copy_cstring_def split: option.split)

lemma connect_with_credentials_result:
  "if fst (wifi_service_connect_with_credentials env slot ssid pw s) = ESP_OK
   then wf_attempt_started slot s (snd (wifi_service_connect_with_credentials env slot ssid pw s))
   else wf_attempt_failed s (snd (wifi_service_connect_with_credentials env slot ssid pw s))"
proof -
  have mem: "wf_attempt_failed s (s\<lparr>wf_reconnect_timer := map_option (\<lambda>_. False) (wf_reconnect_timer s),
     wf_expected_disconnect := e, wf_trace := tr\<rparr>)"
    if "e = DISCONNECT_EXPECT_NONE \<or> e = DISCONNECT_EXPECT_HANDOFF \<and>
        wf_link_state s \<in> {WIFI_SVC_STATE_CONNECTING, WIFI_SVC_STATE_CONNECTED}" for e tr
    using that unfolding wf_attempt_failed_def by blast
  have st: "wf_attempt_started slot s (s\<lparr>wf_reconnect_timer := map_option (\<lambda>_. False) (wf_reconnect_timer s),
        wf_expected_disconnect := e,
        wf_current_slot := uint slot, wf_link_state := WIFI_SVC_STATE_CONNECTING,
        wf_have_ip_info := False, wf_dns_lookup_active := False,
        wf_connectivity_ok := False, wf_ip_info := no_ip_info, wf_trace := tr\<rparr>)"
    if "e \<noteq> DISCONNECT_EXPECT_USER" "wifi_service_slot_index_valid slot" for e tr
    using that unfolding wf_attempt_started_def by blast
  show ?thesis
    unfolding wifi_service_connect_with_credentials_def
    by (auto simp: Let_def wf_step_defs copy_ok split: sum.split intro: mem st)
qed

lemma load_slot_not_ok: "nvs_load_slot env s slot n m \<noteq> Inl ESP_OK"
  by (auto simp: nvs_load_slot_def wifi_service_build_slot_key_def wf_get_str_def Let_def
      ESP_ERR_NVS_INVALID_LENGTH_def split: sum.split option.split)

lemma connect_saved_slot_result:
  "if fst (wifi_service_connect_saved_slot env slot s) = ESP_OK
   then wf_attempt_started slot s (snd (wifi_service_connect_saved_slot env slot s))
   else wf_attempt_failed s (snd (wifi_service_connect_saved_slot env slot s))"
  using connect_with_credentials_result [where env = env and slot = slot and s = s]
    load_slot_not_ok [of env s slot 33 65]
  by (cases "nvs_load_slot env s slot 33 65") (auto simp: wifi_service_connect_saved_slot_def)

lemma connect_saved_slot_cases:
  obtains (ok) s' where "wifi_service_connect_saved_slot env slot s = (ESP_OK, s')" "wf_attempt_started slot s s'"
  | (failed) err s' where "wifi_service_connect_saved_slot env slot s = (err, s')" "err \<noteq> ESP_OK"
      "wf_attempt_failed s s'"
  using connect_saved_slot_result [where env = env and slot = slot and s = s]
  by (cases "wifi_service_connect_saved_slot env slot s") (auto split: if_splits)

text \<open>The state in which the next slot of a sequence is tried.\<close>

definition wf_ready_to_try :: "wf_state \<Rightarrow> bool" where
  "wf_ready_to_try s \<longleftrightarrow> wf_sequence_inv s \<and> wf_link_inv s \<and> wf_alive_inv s \<and> wf_initialised s \<and>
     wf_link_state s \<notin> {WIFI_SVC_STATE_CONNECTING, WIFI_SVC_STATE_CONNECTED}"

lemma failed_ready:
  assumes "wf_attempt_failed s s'" and "wf_ready_to_try s"
  shows "wf_ready_to_try s' \<and> wf_link_state s' = wf_link_state s"
proof -
  obtain t e tr where s': "s' = s\<lparr>wf_reconnect_timer := t, wf_expected_disconnect := e, wf_trace := tr\<rparr>"
    and t': "t = wf_reconnect_timer s \<or> t = map_option (\<lambda>_. False) (wf_reconnect_timer s)"
    using assms(1) unfolding wf_attempt_failed_def by blast
  have t: "t = None \<longleftrightarrow> wf_reconnect_timer s = None" using t' by (rule disjE) simp_all
  note r = assms(2) [unfolded wf_ready_to_try_def]
  have 1: "wf_sequence_inv s'" using r unfolding s' wf_sequence_inv_def by simp
  have 2: "wf_link_inv s'" using r unfolding s' wf_link_inv_def by simp
  have 3: "wf_alive_inv s'" using r t unfolding s' wf_alive_inv_def by simp
  show ?thesis
    using 1 2 3 r unfolding wf_ready_to_try_def s' by simp
qed

lemma started_ready:
  assumes "wf_attempt_started (wf_reconnect_order s ! i) s s'" and "wf_ready_to_try s"
    and "wf_reconnect_sequence_active s" and "wf_reconnect_order_index s = Suc i"
  shows "wf_inv s'"
proof -
  obtain t where t: "wf_reconnect_timer s = Some t"
    using assms(2) by (auto simp: wf_ready_to_try_def wf_alive_inv_def)
  show ?thesis
    using assms(1) unfolding wf_attempt_started_def
  proof (elim conjE exE)
    fix e tr
    assume s': "s' = s\<lparr>wf_reconnect_timer := map_option (\<lambda>_. False) (wf_reconnect_timer s),
        wf_expected_disconnect := e,
        wf_current_slot := uint (wf_reconnect_order s ! i), wf_link_state := WIFI_SVC_STATE_CONNECTING,
        wf_have_ip_info := False, wf_dns_lookup_active := False,
        wf_connectivity_ok := False, wf_ip_info := no_ip_info, wf_trace := tr\<rparr>"
      and h: "e \<noteq> DISCONNECT_EXPECT_USER" "wifi_service_slot_index_valid (wf_reconnect_order s ! i)"
    show ?thesis
      unfolding wf_inv_def
    proof (intro conjI)
      note r = assms(2) [unfolded wf_ready_to_try_def]
      show "wf_sequence_inv s'" using r by (simp add: s' wf_sequence_inv_def)
      show "wf_trying_inv s'" using r assms(3,4) by (simp add: s' wf_trying_inv_def)
      show "wf_link_inv s'" using r h t by (simp add: s' wf_link_inv_def)
      show "wf_alive_inv s'" using r t by (simp add: s' wf_alive_inv_def)
    qed
  qed
qed

lemma try_next_inv:
  assumes "wf_ready_to_try s"
  shows "case wifi_service_try_next_reconnect_slot env s of (err, s') \<Rightarrow>
     wf_inv s' \<and> (err \<noteq> ESP_OK \<longrightarrow> wf_ready_to_try s' \<and> \<not> wf_reconnect_sequence_active s' \<and>
        wf_link_state s' = wf_link_state s \<and> wf_current_slot s' = WIFI_SVC_INVALID_SLOT)"
  using assms
proof (induction env s rule: wifi_service_try_next_reconnect_slot.induct)
  case (1 env s)
  show ?case
  proof (cases "wf_reconnect_sequence_active s \<and> wf_reconnect_order_index s < wf_reconnect_order_len s")
    case False
    define s' where "s' = (wifi_service_clear_reconnect_sequence s)\<lparr>wf_current_slot := WIFI_SVC_INVALID_SLOT\<rparr>"
    have e: "wifi_service_try_next_reconnect_slot env s = (ESP_ERR_NVS_NOT_FOUND, s')"
      using False by (subst wifi_service_try_next_reconnect_slot.simps) (simp only: if_False s'_def)
    note c = s'_def [unfolded wifi_service_clear_reconnect_sequence_def]
    note r = 1(2) [unfolded wf_ready_to_try_def]
    have "wf_sequence_inv s'" by (simp add: c wf_sequence_inv_def)
    moreover have "wf_trying_inv s'" by (simp add: c wf_trying_inv_def)
    moreover have "wf_link_inv s'" using r by (simp add: c wf_link_inv_def)
    moreover have "wf_alive_inv s'" using r by (simp add: c wf_alive_inv_def)
    ultimately show ?thesis using r by (simp add: e wf_inv_def wf_ready_to_try_def) (simp add: c)
  next
    case True
    define s1 where "s1 = s\<lparr>wf_reconnect_order_index := wf_reconnect_order_index s + 1\<rparr>"
    have r1: "wf_ready_to_try s1" "wf_reconnect_sequence_active s1"
    proof -
      note r = 1(2) [unfolded wf_ready_to_try_def]
      have "wf_sequence_inv s1" using r True by (simp add: s1_def wf_sequence_inv_def)
      moreover have "wf_link_inv s1" using r by (simp add: s1_def wf_link_inv_def)
      moreover have "wf_alive_inv s1" using r by (simp add: s1_def wf_alive_inv_def)
      ultimately show "wf_ready_to_try s1" using r unfolding wf_ready_to_try_def s1_def by simp
      show "wf_reconnect_sequence_active s1" using True by (simp add: s1_def)
    qed
    show ?thesis
    proof (cases env "wf_reconnect_order s ! wf_reconnect_order_index s" s1 rule: connect_saved_slot_cases)
      case (ok s')
      then have "wf_inv s'" using started_ready [of s1 "wf_reconnect_order_index s" s'] r1
        by (simp add: s1_def)
      with ok True show ?thesis
        by (subst wifi_service_try_next_reconnect_slot.simps) (simp add: s1_def)
    next
      case (failed err s')
      have r: "wf_ready_to_try s'" "wf_link_state s' = wf_link_state s"
        using failed_ready [OF failed(3) r1(1)] by (auto simp: s1_def)
      have "wifi_service_try_next_reconnect_slot env s = wifi_service_try_next_reconnect_slot env s'"
        using True failed
        by (subst wifi_service_try_next_reconnect_slot.simps) (simp add: s1_def)
      then show ?thesis
        using 1(1) [OF True refl refl] failed r by (simp add: s1_def)
    qed
  qed
qed

lemma build_order_bounds:
  "length (wifi_service_build_reconnect_order env s WIFI_SVC_SLOT_COUNT) \<le> WIFI_SVC_SLOT_COUNT"
  "list_all wifi_service_slot_index_valid (wifi_service_build_reconnect_order env s WIFI_SVC_SLOT_COUNT)"
proof -
  have "wifi_service_slot_index_valid (word_of_int last)" if "0 \<le> last" "last < int WIFI_SVC_SLOT_COUNT" for last
    using that by (auto simp: wifi_service_slot_index_valid_def WIFI_SVC_SLOT_COUNT_def unat_eq_nat_uint
        unsigned_of_int take_bit_int_eq_self)
  then show "length (wifi_service_build_reconnect_order env s WIFI_SVC_SLOT_COUNT) \<le> WIFI_SVC_SLOT_COUNT"
    "list_all wifi_service_slot_index_valid (wifi_service_build_reconnect_order env s WIFI_SVC_SLOT_COUNT)"
    by (auto simp: wifi_service_build_reconnect_order_def Let_def WIFI_SVC_SLOT_COUNT_def upt_rec
        wifi_service_slot_index_valid_def)
qed

lemma connect_saved_slot_alive [simp]:
  "wf_initialised (snd (wifi_service_connect_saved_slot env slot s)) = wf_initialised s"
  by (simp add: wifi_service_connect_saved_slot_def wifi_service_connect_with_credentials_def
      wf_step_defs Let_def split: sum.split prod.split)

lemma try_next_alive [simp]:
  "wf_initialised (snd (wifi_service_try_next_reconnect_slot env s)) = wf_initialised s"
proof (induction env s rule: wifi_service_try_next_reconnect_slot.induct)
  case (1 env s)
  show ?case
    using 1 [OF _ refl refl]
    by (subst wifi_service_try_next_reconnect_slot.simps)
      (simp add: Let_def wifi_service_clear_reconnect_sequence_def)
qed

lemma start_sequence_alive [simp]:
  "wf_initialised (snd (wifi_service_start_reconnect_sequence env s)) = wf_initialised s"
  by (simp add: wifi_service_start_reconnect_sequence_def Let_def wf_step_defs)

lemma start_sequence_inv:
  assumes "wf_inv s" and "wf_initialised s"
    and "wf_link_state s \<notin> {WIFI_SVC_STATE_CONNECTING, WIFI_SVC_STATE_CONNECTED}"
  shows "case wifi_service_start_reconnect_sequence env s of (err, s') \<Rightarrow>
     wf_inv s' \<and> (err \<noteq> ESP_OK \<longrightarrow> wf_ready_to_try s' \<and> \<not> wf_reconnect_sequence_active s' \<and>
        wf_current_slot s' = WIFI_SVC_INVALID_SLOT)"
proof -
  define s1 where "s1 = wf_timer_set False (wifi_service_clear_reconnect_sequence s)"
  define slots where "slots = wifi_service_build_reconnect_order env s1 WIFI_SVC_SLOT_COUNT"
  define s2 where "s2 = s1\<lparr>wf_reconnect_order := write_order slots (wf_reconnect_order s1),
                  wf_reconnect_order_len := length slots\<rparr>"
  have b: "length slots \<le> WIFI_SVC_SLOT_COUNT" "list_all wifi_service_slot_index_valid slots"
    using build_order_bounds by (simp_all add: slots_def)
  have r: "wf_ready_to_try (s2\<lparr>wf_reconnect_sequence_active := True, wf_reconnect_order_index := 0\<rparr>)"
    using assms b
    by (auto simp: s2_def s1_def wf_ready_to_try_def wf_inv_defs wf_step_defs write_order_def
        list_all_iff set_replicate_conv_if wifi_service_slot_index_valid_def WIFI_SVC_SLOT_COUNT_def
        split: option.splits)
  have n: "wf_inv (s2\<lparr>wf_current_slot := WIFI_SVC_INVALID_SLOT\<rparr>) \<and>
           wf_ready_to_try (s2\<lparr>wf_current_slot := WIFI_SVC_INVALID_SLOT\<rparr>)" if "slots = []"
    using assms that
    by (auto simp: s2_def s1_def wf_ready_to_try_def wf_inv_defs wf_step_defs write_order_def
        set_replicate_conv_if WIFI_SVC_SLOT_COUNT_def split: option.splits)
  show ?thesis
    using try_next_inv [OF r, of env] n
    by (auto simp: wifi_service_start_reconnect_sequence_def Let_def simp flip: s1_def slots_def s2_def)
      (auto simp: s2_def s1_def wf_step_defs)
qed

lemma wf_invI:
  "wf_sequence_inv s \<Longrightarrow> wf_trying_inv s \<Longrightarrow> wf_link_inv s \<Longrightarrow> wf_alive_inv s \<Longrightarrow> wf_inv s"
  by (simp add: wf_inv_def)

text \<open>A change that ends in no connection, with no sequence going on.\<close>

lemma clear_inv:
  assumes "wf_inv s"
  shows "wf_sequence_inv (wifi_service_clear_reconnect_sequence s)"
    and "wf_trying_inv (wifi_service_clear_reconnect_sequence s)"
    and "wf_link_inv (wifi_service_clear_reconnect_sequence s)"
    and "wf_alive_inv (wifi_service_clear_reconnect_sequence s)"
proof -
  note r = assms [unfolded wf_inv_def] and c = wifi_service_clear_reconnect_sequence_def
  show "wf_sequence_inv (wifi_service_clear_reconnect_sequence s)" by (simp add: c wf_sequence_inv_def)
  show "wf_trying_inv (wifi_service_clear_reconnect_sequence s)" by (simp add: c wf_trying_inv_def)
  show "wf_link_inv (wifi_service_clear_reconnect_sequence s)" using r by (simp add: c wf_link_inv_def)
  show "wf_alive_inv (wifi_service_clear_reconnect_sequence s)" using r by (simp add: c wf_alive_inv_def)
qed

lemma connect_slot_inv:
  assumes "wf_inv s" and "wf_initialised s"
  shows "wf_inv (handle_connect_slot env slot s) \<and> wf_initialised (handle_connect_slot env slot s)"
proof -
  define c where "c = wifi_service_clear_reconnect_sequence s"
  have i: "wf_initialised c" "\<not> wf_reconnect_sequence_active c" "wf_reconnect_order_len c = 0"
    using assms(2) by (simp_all add: c_def wifi_service_clear_reconnect_sequence_def)
  note r = clear_inv [OF assms(1), folded c_def]
  show ?thesis
  proof (cases env slot c rule: connect_saved_slot_cases)
    case (ok s')
    obtain e tr where s': "s' = c\<lparr>wf_reconnect_timer := map_option (\<lambda>_. False) (wf_reconnect_timer c),
        wf_expected_disconnect := e, wf_current_slot := uint slot,
        wf_link_state := WIFI_SVC_STATE_CONNECTING, wf_have_ip_info := False,
        wf_dns_lookup_active := False, wf_connectivity_ok := False, wf_ip_info := no_ip_info,
        wf_trace := tr\<rparr>" and h: "e \<noteq> DISCONNECT_EXPECT_USER" "wifi_service_slot_index_valid slot"
      using ok(2) unfolding wf_attempt_started_def by blast
    have "wf_inv s'"
    proof (rule wf_invI)
      show "wf_sequence_inv s'" using r(1) by (simp add: s' wf_sequence_inv_def)
      show "wf_trying_inv s'" using r(2) i by (simp add: s' wf_trying_inv_def)
      show "wf_link_inv s'" using r(3,4) i h by (auto simp: s' wf_link_inv_def wf_alive_inv_def)
      show "wf_alive_inv s'" using r(4) i by (simp add: s' wf_alive_inv_def)
    qed
    then show ?thesis using ok i by (simp add: handle_connect_slot_def flip: c_def) (simp add: s')
  next
    case (failed err s')
    obtain t e tr where s': "s' = c\<lparr>wf_reconnect_timer := t, wf_expected_disconnect := e, wf_trace := tr\<rparr>"
      and t': "t = wf_reconnect_timer c \<or> t = map_option (\<lambda>_. False) (wf_reconnect_timer c)"
      using failed(3) unfolding wf_attempt_failed_def by blast
    have t: "t = None \<longleftrightarrow> wf_reconnect_timer c = None" using t' by (rule disjE) simp_all
    define s2 where "s2 = s'\<lparr>wf_link_state := WIFI_SVC_STATE_DISCONNECTED,
      wf_current_slot := WIFI_SVC_INVALID_SLOT\<rparr>"
    have "wf_inv s2"
    proof (rule wf_invI)
      show "wf_sequence_inv s2" using r(1) by (simp add: s2_def s' wf_sequence_inv_def)
      show "wf_trying_inv s2" using r(2) i by (simp add: s2_def s' wf_trying_inv_def)
      show "wf_link_inv s2" using r(3) i by (simp add: s2_def s' wf_link_inv_def)
      show "wf_alive_inv s2" using r(4) i t by (simp add: s2_def s' wf_alive_inv_def)
    qed
    then show ?thesis using failed i by (simp add: handle_connect_slot_def flip: c_def s2_def) (simp add: s2_def s')
  qed
qed

lemma disconnect_inv:
  assumes "wf_inv s" and "wf_initialised s"
  shows "wf_inv (handle_disconnect s) \<and> wf_initialised (handle_disconnect s)"
proof -
  note r = clear_inv [OF assms(1)] and d = handle_disconnect_def Let_def wf_step_defs
  have "wf_inv (handle_disconnect s)"
  proof (rule wf_invI)
    show "wf_sequence_inv (handle_disconnect s)" by (simp add: d wf_sequence_inv_def)
    show "wf_trying_inv (handle_disconnect s)" by (simp add: d wf_trying_inv_def)
    show "wf_link_inv (handle_disconnect s)" using r(3) by (simp add: d wf_link_inv_def)
    show "wf_alive_inv (handle_disconnect s)" using r(4) assms(2) by (auto simp: d wf_alive_inv_def)
  qed
  then show ?thesis using assms(2) by (simp add: d)
qed

lemma scan_inv:
  assumes "wf_inv s" and "wf_initialised s"
  shows "wf_inv (handle_scan s) \<and> wf_initialised (handle_scan s)"
proof -
  note r = assms(1) [unfolded wf_inv_def] and d = handle_scan_def wf_log_def
  have "wf_inv (handle_scan s)"
  proof (rule wf_invI)
    show "wf_sequence_inv (handle_scan s)" using r by (simp add: d wf_sequence_inv_def)
    show "wf_trying_inv (handle_scan s)" using r by (simp add: d wf_trying_inv_def)
    show "wf_link_inv (handle_scan s)" using r by (simp add: d wf_link_inv_def)
    show "wf_alive_inv (handle_scan s)" using r assms(2) by (simp add: d wf_alive_inv_def)
  qed
  then show ?thesis using assms(2) by (simp add: d)
qed

lemma save_autoreconnect_fields:
  "\<exists>v. snd (nvs_save_autoreconnect env en s) = s\<lparr>wf_nvs_autoreconnect := v\<rparr>"
  by (rule exI [of _ "wf_nvs_autoreconnect (snd (nvs_save_autoreconnect env en s))"])
    (simp add: nvs_save_autoreconnect_def)

lemma set_autoreconnect_inv:
  assumes "wf_inv s" and "wf_initialised s"
  shows "wf_inv (handle_set_autoreconnect env en s) \<and> wf_initialised (handle_set_autoreconnect env en s)"
proof -
  obtain v where v: "snd (nvs_save_autoreconnect env en s) = s\<lparr>wf_nvs_autoreconnect := v\<rparr>"
    using save_autoreconnect_fields by blast
  note r = assms(1) [unfolded wf_inv_def] and d = handle_set_autoreconnect_def Let_def v wf_step_defs
  let ?s = "handle_set_autoreconnect env en s"
  have "wf_inv ?s"
  proof (rule wf_invI)
    show "wf_sequence_inv ?s" using r by (simp add: d wf_sequence_inv_def)
    show "wf_trying_inv ?s" using r by (simp add: d wf_trying_inv_def)
    show "wf_link_inv ?s" using r by (auto simp: d wf_link_inv_def)
    show "wf_alive_inv ?s" using r assms(2) by (auto simp: d wf_alive_inv_def)
  qed
  then show ?thesis using assms(2) by (simp add: d)
qed

lemma timer_set_alive [simp]: "wf_initialised (wf_timer_set b s) = wf_initialised s"
  by (simp add: wf_timer_set_def)

lemma timer_on_inv:
  assumes "wf_inv s" and "wf_link_state s \<notin> {WIFI_SVC_STATE_CONNECTING, WIFI_SVC_STATE_CONNECTED}"
  shows "wf_inv (wf_timer_set True s)"
proof (rule wf_invI)
  note r = assms(1) [unfolded wf_inv_def] and d = wf_timer_set_def
  show "wf_sequence_inv (wf_timer_set True s)" using r by (simp add: d wf_sequence_inv_def)
  show "wf_trying_inv (wf_timer_set True s)" using r by (simp add: d wf_trying_inv_def)
  show "wf_link_inv (wf_timer_set True s)" using r assms(2) by (simp add: d wf_link_inv_def)
  show "wf_alive_inv (wf_timer_set True s)" using r by (auto simp: d wf_alive_inv_def)
qed

lemma no_slot_inv:
  assumes "wf_inv s" and "\<not> wf_reconnect_sequence_active s" and "wf_initialised s"
    and "st \<notin> {WIFI_SVC_STATE_CONNECTING, WIFI_SVC_STATE_CONNECTED}"
  shows "wf_inv (s\<lparr>wf_link_state := st, wf_current_slot := WIFI_SVC_INVALID_SLOT\<rparr>)"
proof (rule wf_invI)
  note r = assms(1) [unfolded wf_inv_def]
  let ?s = "s\<lparr>wf_link_state := st, wf_current_slot := WIFI_SVC_INVALID_SLOT\<rparr>"
  show "wf_sequence_inv ?s" using r by (simp add: wf_sequence_inv_def)
  show "wf_trying_inv ?s" using r assms(2) by (simp add: wf_trying_inv_def)
  show "wf_link_inv ?s" using r assms(4) by (simp add: wf_link_inv_def)
  show "wf_alive_inv ?s" using r assms(3) by (simp add: wf_alive_inv_def)
qed

lemma give_up_inv:
  assumes "wf_inv s" and "\<not> wf_reconnect_sequence_active s" and "wf_initialised s"
    and "wf_link_state s \<notin> {WIFI_SVC_STATE_CONNECTING, WIFI_SVC_STATE_CONNECTED}"
  shows "wf_inv (give_up_link s) \<and> wf_initialised (give_up_link s)"
proof -
  have "wf_inv (s\<lparr>wf_current_slot := WIFI_SVC_INVALID_SLOT\<rparr>)"
    using no_slot_inv [OF assms] by simp
  then show ?thesis
    using assms(3,4) by (auto simp: give_up_link_def Let_def intro!: timer_on_inv)
qed

lemma reconnect_inv:
  assumes "wf_inv s" and "wf_initialised s"
  shows "wf_inv (handle_reconnect env now s) \<and> wf_initialised (handle_reconnect env now s)"
proof (cases "wf_link_state s \<notin> {WIFI_SVC_STATE_CONNECTING, WIFI_SVC_STATE_CONNECTED} \<and> (now \<or> wf_autoreconnect s)")
  case True
  note tried = this
  obtain err s1 where e: "wifi_service_start_reconnect_sequence env s = (err, s1)" by fastforce
  have i: "wf_inv s1" "err \<noteq> ESP_OK \<Longrightarrow> wf_ready_to_try s1 \<and> \<not> wf_reconnect_sequence_active s1"
    using start_sequence_inv [OF assms, of env] True e by auto
  show ?thesis
  proof (cases "err = ESP_OK")
    case True
    have "wf_initialised s1" using start_sequence_alive [of env s] assms(2) e by simp
    then show ?thesis using True tried e i(1) by (simp add: handle_reconnect_def)
  next
    case False
    then have r: "wf_ready_to_try s1" "\<not> wf_reconnect_sequence_active s1" "wf_initialised s1"
      using i(2) by (auto simp: wf_ready_to_try_def)
    define s2 where "s2 = s1\<lparr>wf_link_state := WIFI_SVC_STATE_DISCONNECTED, wf_current_slot := WIFI_SVC_INVALID_SLOT\<rparr>"
    have "wf_inv s2" using no_slot_inv [OF i(1) r(2,3), of WIFI_SVC_STATE_DISCONNECTED] by (simp add: s2_def)
    moreover have "wf_initialised s2" "wf_link_state s2 = WIFI_SVC_STATE_DISCONNECTED" using r by (simp_all add: s2_def)
    ultimately show ?thesis
      using tried e False timer_on_inv [of s2]
      by (auto simp: handle_reconnect_def Let_def simp flip: s2_def)
  qed
next
  case False
  then show ?thesis using assms by (auto simp: handle_reconnect_def)
qed

lemma evt_disconnected_inv:
  assumes "wf_inv s" and "wf_initialised s"
  shows "wf_inv (handle_evt_disconnected env reason s) \<and> wf_initialised (handle_evt_disconnected env reason s)"
proof (cases "wf_expected_disconnect s \<noteq> DISCONNECT_EXPECT_NONE \<and> reason = WIFI_REASON_ASSOC_LEAVE")
  case True
  have "wf_inv (s\<lparr>wf_expected_disconnect := DISCONNECT_EXPECT_NONE, wf_trace := tr\<rparr>)" for tr
  proof (rule wf_invI)
    note r = assms(1) [unfolded wf_inv_def]
    let ?s = "s\<lparr>wf_expected_disconnect := DISCONNECT_EXPECT_NONE, wf_trace := tr\<rparr>"
    show "wf_sequence_inv ?s" using r by (simp add: wf_sequence_inv_def)
    show "wf_trying_inv ?s" using r by (simp add: wf_trying_inv_def)
    show "wf_link_inv ?s" using r by (simp add: wf_link_inv_def)
    show "wf_alive_inv ?s" using r by (simp add: wf_alive_inv_def)
  qed
  from this [of "wf_trace s"] this [of "wf_trace s @ [Wf_Post (WIFI_SVC_EVENT_DISCONNECTED reason)]"]
  show ?thesis using True assms(2)
    by (simp add: handle_evt_disconnected_def Let_def wf_step_defs)
next
  case False
  define s1 where "s1 = post_event (WIFI_SVC_EVENT_DISCONNECTED reason) (wifi_service_reset_ip_state
                   (s\<lparr>wf_expected_disconnect := DISCONNECT_EXPECT_NONE,
                      wf_link_state := WIFI_SVC_STATE_DISCONNECTED\<rparr>))"
  note d = s1_def wf_step_defs
  have l: "wf_link_state s1 = WIFI_SVC_STATE_DISCONNECTED" "wf_initialised s1"
    using assms(2) by (simp_all add: d)
  have i: "wf_inv s1"
  proof (rule wf_invI)
    note r = assms(1) [unfolded wf_inv_def]
    show "wf_sequence_inv s1" using r by (simp add: d wf_sequence_inv_def)
    show "wf_trying_inv s1" using r by (simp add: d wf_trying_inv_def)
    show "wf_link_inv s1" using r by (simp add: d wf_link_inv_def)
    show "wf_alive_inv s1" using r assms(2) by (simp add: d wf_alive_inv_def)
  qed
  obtain err s2 where t: "wifi_service_try_next_reconnect_slot env s1 = (err, s2)" by fastforce
  have "wf_ready_to_try s1" using i l unfolding wf_inv_def wf_ready_to_try_def by simp
  then have t2: "wf_inv s2" "err \<noteq> ESP_OK \<Longrightarrow> \<not> wf_reconnect_sequence_active s2 \<and>
      wf_link_state s2 = WIFI_SVC_STATE_DISCONNECTED" "wf_initialised s2"
    using try_next_inv [of s1 env] try_next_alive [of env s1] t l by simp_all
  show ?thesis
    using False t t2 i l give_up_inv [of s1] give_up_inv [of s2]
    by (auto simp: handle_evt_disconnected_def Let_def simp flip: s1_def)
qed

lemma scan_done_inv:
  assumes "wf_inv s" and "wf_initialised s"
  shows "wf_inv (handle_evt_scan_done env s) \<and> wf_initialised (handle_evt_scan_done env s)"
proof -
  obtain n recs where s1: "(case we_scan env of
            Inr records \<Rightarrow>
              let found = take WIFI_SVC_MAX_SCAN_RESULTS records in
              if we_mutex env
              then s\<lparr>wf_scan_count := length found,
                     wf_scan_records := found @ drop (length found) (wf_scan_records s)\<rparr>
              else s
          | Inl _ \<Rightarrow> if we_mutex env then s\<lparr>wf_scan_count := 0\<rparr> else s) =
        s\<lparr>wf_scan_count := n, wf_scan_records := recs\<rparr>"
    and n: "n \<le> length recs" "length recs \<le> WIFI_SVC_MAX_SCAN_RESULTS"
  proof -
    have b: "wf_scan_count s \<le> length (wf_scan_records s)" "length (wf_scan_records s) \<le> WIFI_SVC_MAX_SCAN_RESULTS"
      using assms(1) by (simp_all add: wf_inv_def wf_alive_inv_def)
    have e: "s = s\<lparr>wf_scan_count := wf_scan_count s, wf_scan_records := wf_scan_records s\<rparr>"
      "s\<lparr>wf_scan_count := 0\<rparr> = s\<lparr>wf_scan_count := 0, wf_scan_records := wf_scan_records s\<rparr>" by simp_all
    show ?thesis
    proof (cases "we_scan env")
      case (Inl err)
      then show ?thesis using that [of "wf_scan_records s" 0] that [of "wf_scan_records s" "wf_scan_count s"] b
        by (cases "we_mutex env") simp_all
    next
      case (Inr records)
      let ?found = "take WIFI_SVC_MAX_SCAN_RESULTS records"
      show ?thesis using Inr b that [of "wf_scan_records s" "wf_scan_count s"]
          that [of "?found @ drop (length ?found) (wf_scan_records s)" "length ?found"]
        by (cases "we_mutex env") (simp_all add: Let_def)
    qed
  qed
  note r = assms(1) [unfolded wf_inv_def]
  let ?s = "handle_evt_scan_done env s"
  have d: "\<exists>tr st. ?s = s\<lparr>wf_scan_count := n, wf_scan_records := recs, wf_link_state := st, wf_trace := tr\<rparr> \<and>
    (st = wf_link_state s \<or> st = WIFI_SVC_STATE_DISCONNECTED)"
    unfolding handle_evt_scan_done_def s1
    unfolding Let_def wf_step_defs
    by (intro exI [of _ "wf_trace s @ [Wf_Post WIFI_SVC_EVENT_SCAN_DONE]"]
        exI [of _ "if wf_link_state s = WIFI_SVC_STATE_SCANNING then WIFI_SVC_STATE_DISCONNECTED else wf_link_state s"]) simp
  then obtain tr st where d: "?s = s\<lparr>wf_scan_count := n, wf_scan_records := recs, wf_link_state := st, wf_trace := tr\<rparr>"
    and st: "st = wf_link_state s \<or> st = WIFI_SVC_STATE_DISCONNECTED" by blast
  have "wf_inv ?s"
  proof (rule wf_invI)
    show "wf_sequence_inv ?s" using r by (simp add: d wf_sequence_inv_def)
    show "wf_trying_inv ?s" using r by (simp add: d wf_trying_inv_def)
    show "wf_link_inv ?s" using r st by (auto simp: d wf_link_inv_def)
    show "wf_alive_inv ?s" using r n assms(2) by (simp add: d wf_alive_inv_def)
  qed
  then show ?thesis using assms(2) by (simp add: d)
qed

lemma save_last_slot_fields:
  "\<exists>v. snd (nvs_save_last_successful_slot env slot s) = s\<lparr>wf_nvs_last_slot := v\<rparr>"
  by (rule exI [of _ "wf_nvs_last_slot (snd (nvs_save_last_successful_slot env slot s))"])
    (simp add: nvs_save_last_successful_slot_def Let_def)

text \<open>The connectivity test and the clock do not touch the link.\<close>

lemma after_connect_fields:
  "\<exists>b c d tr. init_sntp (wifi_service_start_connectivity_test env s) =
     s\<lparr>wf_sntp_initialised := b, wf_dns_lookup_active := c, wf_connectivity_ok := d, wf_trace := tr\<rparr>"
proof -
  let ?r = "init_sntp (wifi_service_start_connectivity_test env s)"
  have "?r = s\<lparr>wf_sntp_initialised := wf_sntp_initialised ?r, wf_dns_lookup_active := wf_dns_lookup_active ?r,
     wf_connectivity_ok := wf_connectivity_ok ?r, wf_trace := wf_trace ?r\<rparr>"
    by (simp add: init_sntp_def wifi_service_start_connectivity_test_def Let_def wf_step_defs
        split: dns_result.split)
  then show ?thesis by blast
qed

lemma got_ip_result:
  "\<exists>b c d tr v. handle_evt_got_ip env info s =
     (wifi_service_clear_reconnect_sequence s)\<lparr>wf_reconnect_timer := map_option (\<lambda>_. False) (wf_reconnect_timer s),
       wf_link_state := WIFI_SVC_STATE_CONNECTED, wf_sntp_initialised := b, wf_dns_lookup_active := c,
       wf_connectivity_ok := d, wf_ip_info := info, wf_have_ip_info := True,
       wf_last_successful_slot := (if slot_in_range (wf_current_slot s) then wf_current_slot s
                                   else wf_last_successful_slot s),
       wf_expected_disconnect := DISCONNECT_EXPECT_NONE, wf_nvs_last_slot := v, wf_trace := tr\<rparr>"
proof -
  define s1 where "s1 = wifi_service_clear_reconnect_sequence
                 (s\<lparr>wf_ip_info := info, wf_have_ip_info := True,
                    wf_link_state := WIFI_SVC_STATE_CONNECTED,
                    wf_expected_disconnect := DISCONNECT_EXPECT_NONE\<rparr>)"
  define s2 where "s2 = (if slot_in_range (wf_current_slot s1)
                then snd (nvs_save_last_successful_slot env (wf_current_slot s1)
                       (s1\<lparr>wf_last_successful_slot := wf_current_slot s1\<rparr>))
                else s1)"
  obtain v where s2': "s2 = s1\<lparr>wf_last_successful_slot := (if slot_in_range (wf_current_slot s) then wf_current_slot s
                                   else wf_last_successful_slot s), wf_nvs_last_slot := v\<rparr>"
  proof (cases "slot_in_range (wf_current_slot s1)")
    case True
    obtain v where "snd (nvs_save_last_successful_slot env (wf_current_slot s1)
        (s1\<lparr>wf_last_successful_slot := wf_current_slot s1\<rparr>)) =
      s1\<lparr>wf_last_successful_slot := wf_current_slot s1, wf_nvs_last_slot := v\<rparr>"
      using save_last_slot_fields [of env "wf_current_slot s1" "s1\<lparr>wf_last_successful_slot := wf_current_slot s1\<rparr>"]
      by auto
    with True that [of v] show ?thesis by (simp add: s2_def) (simp add: s1_def wifi_service_clear_reconnect_sequence_def)
  next
    case False
    with that [of "wf_nvs_last_slot s1"] show ?thesis
      by (simp add: s2_def) (simp add: s1_def wifi_service_clear_reconnect_sequence_def)
  qed
  obtain b c d tr where e: "init_sntp (wifi_service_start_connectivity_test env
      (post_event WIFI_SVC_EVENT_CONNECTED (wf_timer_set False s2))) =
     (post_event WIFI_SVC_EVENT_CONNECTED (wf_timer_set False s2))\<lparr>wf_sntp_initialised := b,
       wf_dns_lookup_active := c, wf_connectivity_ok := d, wf_trace := tr\<rparr>"
    using after_connect_fields by blast
  have "handle_evt_got_ip env info s = \<dots>"
    unfolding handle_evt_got_ip_def Let_def s1_def [symmetric] s2_def [symmetric] by (rule e)
  then show ?thesis
    by (intro exI [of _ b] exI [of _ c] exI [of _ d] exI [of _ tr] exI [of _ v])
      (simp add: s2' s1_def wf_step_defs)
qed

lemma got_ip_inv:
  assumes "wf_inv s" and "wf_initialised s"
  shows "wf_inv (handle_evt_got_ip env info s) \<and> wf_initialised (handle_evt_got_ip env info s)"
proof -
  note r = assms(1) [unfolded wf_inv_def]
  obtain b c d tr v where g: "handle_evt_got_ip env info s =
     (wifi_service_clear_reconnect_sequence s)\<lparr>wf_reconnect_timer := map_option (\<lambda>_. False) (wf_reconnect_timer s),
       wf_link_state := WIFI_SVC_STATE_CONNECTED, wf_sntp_initialised := b, wf_dns_lookup_active := c,
       wf_connectivity_ok := d, wf_ip_info := info, wf_have_ip_info := True,
       wf_last_successful_slot := (if slot_in_range (wf_current_slot s) then wf_current_slot s
                                   else wf_last_successful_slot s),
       wf_expected_disconnect := DISCONNECT_EXPECT_NONE, wf_nvs_last_slot := v, wf_trace := tr\<rparr>"
    using got_ip_result by blast
  note d = g wifi_service_clear_reconnect_sequence_def
  let ?s = "handle_evt_got_ip env info s"
  have "wf_inv ?s"
  proof (rule wf_invI)
    show "wf_sequence_inv ?s" by (simp add: d wf_sequence_inv_def)
    show "wf_trying_inv ?s" by (simp add: d wf_trying_inv_def)
    show "wf_link_inv ?s" using r assms(2) by (auto simp: d wf_link_inv_def wf_alive_inv_def)
    show "wf_alive_inv ?s" using r assms(2) by (auto simp: d wf_alive_inv_def)
  qed
  then show ?thesis using assms(2) by (simp add: d)
qed

lemma connectivity_inv:
  assumes "wf_inv s" and "wf_initialised s"
  shows "wf_inv (handle_evt_connectivity ok s) \<and> wf_initialised (handle_evt_connectivity ok s)"
proof -
  note r = assms(1) [unfolded wf_inv_def] and d = handle_evt_connectivity_def Let_def wf_step_defs
  let ?s = "handle_evt_connectivity ok s"
  have "wf_inv ?s"
  proof (rule wf_invI)
    show "wf_sequence_inv ?s" using r by (simp add: d wf_sequence_inv_def)
    show "wf_trying_inv ?s" using r by (simp add: d wf_trying_inv_def)
    show "wf_link_inv ?s" using r by (simp add: d wf_link_inv_def)
    show "wf_alive_inv ?s" using r by (simp add: d wf_alive_inv_def)
  qed
  then show ?thesis using assms(2) by (simp add: d)
qed

lemmas wf_handler_inv = connect_slot_inv disconnect_inv scan_inv set_autoreconnect_inv reconnect_inv
  evt_disconnected_inv scan_done_inv got_ip_inv connectivity_inv

lemma process_cmd_inv:
  assumes "wf_inv s" and "wf_initialised s"
  shows "wf_inv (wifi_service_process_cmd env msg s) \<and> wf_initialised (wifi_service_process_cmd env msg s)"
  using wf_handler_inv [OF assms] by (cases msg) simp_all

section \<open>All operations of the service\<close>

lemma queue_inv:
  assumes "wf_inv s" and "case q of None \<Rightarrow> \<not> wf_initialised s | Some q' \<Rightarrow> length q' \<le> CMD_QUEUE_DEPTH"
  shows "wf_inv (s\<lparr>wf_cmd_queue := q\<rparr>)"
proof (rule wf_invI)
  note r = assms(1) [unfolded wf_inv_def]
  let ?s = "s\<lparr>wf_cmd_queue := q\<rparr>"
  show "wf_sequence_inv ?s" using r by (simp add: wf_sequence_inv_def)
  show "wf_trying_inv ?s" using r by (simp add: wf_trying_inv_def)
  show "wf_link_inv ?s" using r by (simp add: wf_link_inv_def)
  show "wf_alive_inv ?s" using r assms(2) by (auto simp: wf_alive_inv_def split: option.splits)
qed

lemma queue_send_inv:
  assumes "wf_inv s"
  shows "wf_inv (snd (wf_queue_send msg s))"
proof (cases "wf_cmd_queue s")
  case None
  then show ?thesis using assms by (simp add: wf_queue_send_def)
next
  case (Some q)
  then show ?thesis
    using assms queue_inv [OF assms, of "Some (q @ [msg])"] by (simp add: wf_queue_send_def)
qed

lemma process_cmds_inv:
  "wf_inv s \<Longrightarrow> wf_initialised s \<Longrightarrow> wf_inv (process_cmds n envs s)"
proof (induction n arbitrary: envs s)
  case 0
  then show ?case by simp
next
  case (Suc n)
  show ?case
  proof (cases "wf_cmd_queue s")
    case None
    then show ?thesis using Suc.prems by simp
  next
    case (Some q)
    show ?thesis
    proof (cases q)
      case Nil
      with Some Suc.prems show ?thesis by simp
    next
      case (Cons msg rest)
      have "length q \<le> CMD_QUEUE_DEPTH" using Suc.prems(1) Some by (simp add: wf_inv_def wf_alive_inv_def)
      then have "wf_inv (s\<lparr>wf_cmd_queue := Some rest\<rparr>)" using Suc.prems(1) Cons by (intro queue_inv) auto
      from process_cmd_inv [OF this, of "envs 0" msg] Suc.prems(2)
      have p: "wf_inv (wifi_service_process_cmd (envs 0) msg (s\<lparr>wf_cmd_queue := Some rest\<rparr>)) \<and>
        wf_initialised (wifi_service_process_cmd (envs 0) msg (s\<lparr>wf_cmd_queue := Some rest\<rparr>))" by simp
      show ?thesis using Some Cons Suc.IH [OF conjunct1 [OF p] conjunct2 [OF p]] by simp
    qed
  qed
qed

lemma load_last_slot_range: "slot_or_none (nvs_load_last_successful_slot env s)"
  by (auto simp: nvs_load_last_successful_slot_def Let_def slot_or_none_def slot_in_range_def)

lemma started_inv:
  assumes "wf_inv s" and "wf_reconnect_timer s' = Some False"
    and "s' = s\<lparr>wf_sta_netif := True, wf_wifi_handler := True, wf_ip_handler := True, wf_trace := tr,
              wf_cmd_queue := Some [], wf_scan_mutex := True, wf_reconnect_timer := Some False\<rparr>"
    and "\<not> wf_initialised s"
  shows "wf_inv (wifi_service_started env s')"
proof -
  define s1 where "s1 = wifi_service_ready env s'"
  note d = s1_def wifi_service_ready_def Let_def wf_step_defs assms(3)
  note r = assms(1) [unfolded wf_inv_def]
  have idle: "wf_link_state s = WIFI_SVC_STATE_IDLE" using r assms(4) by (simp add: wf_alive_inv_def)
  have i: "wf_inv s1"
  proof (rule wf_invI)
    show "wf_sequence_inv s1" by (simp add: d wf_sequence_inv_def)
    show "wf_trying_inv s1" by (simp add: d wf_trying_inv_def)
    show "wf_link_inv s1" using idle load_last_slot_range by (simp add: d wf_link_inv_def)
    show "wf_alive_inv s1" using r by (simp add: d wf_alive_inv_def)
  qed
  have a: "wf_initialised s1" "wf_link_state s1 = WIFI_SVC_STATE_IDLE"
    using idle by (simp_all add: d)
  have "wf_inv (snd (wifi_service_start_reconnect_sequence env s1))"
    using start_sequence_inv [OF i a(1), of env] a(2)
    by (auto simp: case_prod_beta)
  then show ?thesis using i by (simp add: wifi_service_started_def Let_def flip: s1_def)
qed

lemma wf_init_inv:
  assumes "wf_inv s"
  shows "wf_inv (snd (wifi_service_init env ie s))"
proof (cases "wf_initialised s")
  case True
  then show ?thesis using assms by (simp add: wifi_service_init_def)
next
  case False
  note r = assms [unfolded wf_inv_def]
  have no_timer: "wf_reconnect_timer s = None" using r False by (simp add: wf_alive_inv_def)
  have part: "wf_inv (s\<lparr>wf_sta_netif := True, wf_wifi_handler := True, wf_ip_handler := True,
      wf_trace := tr, wf_cmd_queue := q, wf_scan_mutex := m\<rparr>)" if "q = None \<or> q = Some []" for tr q m
  proof (rule wf_invI)
    let ?s = "s\<lparr>wf_sta_netif := True, wf_wifi_handler := True, wf_ip_handler := True,
      wf_trace := tr, wf_cmd_queue := q, wf_scan_mutex := m\<rparr>"
    show "wf_sequence_inv ?s" using r by (simp add: wf_sequence_inv_def)
    show "wf_trying_inv ?s" using r by (simp add: wf_trying_inv_def)
    show "wf_link_inv ?s" using r by (simp add: wf_link_inv_def)
    show "wf_alive_inv ?s" using r False that by (auto simp: wf_alive_inv_def)
  qed
  have early: "wf_inv (s\<lparr>wf_trace := tr\<rparr>) \<and> wf_inv (s\<lparr>wf_trace := tr, wf_sta_netif := False\<rparr>)" for tr
  proof (intro conjI wf_invI)
    show "wf_sequence_inv (s\<lparr>wf_trace := tr\<rparr>)" "wf_sequence_inv (s\<lparr>wf_trace := tr, wf_sta_netif := False\<rparr>)"
      using r by (simp_all add: wf_sequence_inv_def)
    show "wf_trying_inv (s\<lparr>wf_trace := tr\<rparr>)" "wf_trying_inv (s\<lparr>wf_trace := tr, wf_sta_netif := False\<rparr>)"
      using r by (simp_all add: wf_trying_inv_def)
    show "wf_link_inv (s\<lparr>wf_trace := tr\<rparr>)" "wf_link_inv (s\<lparr>wf_trace := tr, wf_sta_netif := False\<rparr>)"
      using r by (simp_all add: wf_link_inv_def)
    show "wf_alive_inv (s\<lparr>wf_trace := tr\<rparr>)" "wf_alive_inv (s\<lparr>wf_trace := tr, wf_sta_netif := False\<rparr>)"
      using r False by (simp_all add: wf_alive_inv_def)
  qed
  have st: "wf_inv (wifi_service_started env (s\<lparr>wf_sta_netif := True, wf_wifi_handler := True,
      wf_ip_handler := True, wf_trace := tr, wf_cmd_queue := Some [], wf_scan_mutex := True,
      wf_reconnect_timer := Some False\<rparr>))" for tr
    by (rule started_inv [OF assms _ _ False]) simp_all
  have t: "s\<lparr>wf_sta_netif := True, wf_wifi_handler := True, wf_ip_handler := True,
      wf_trace := tr, wf_cmd_queue := q, wf_scan_mutex := m, wf_reconnect_timer := None\<rparr> =
    s\<lparr>wf_sta_netif := True, wf_wifi_handler := True, wf_ip_handler := True,
      wf_trace := tr, wf_cmd_queue := q, wf_scan_mutex := m\<rparr>" for tr q m
    using no_timer by simp
  show ?thesis
    using False by (simp add: wifi_service_init_def wf_call_def wf_log_def Let_def early part st t)
qed

lemma nvs_trace_inv:
  assumes "wf_inv s"
  shows "wf_inv (s\<lparr>wf_nvs_strings := f\<rparr>)" and "wf_inv (s\<lparr>wf_trace := tr\<rparr>)"
proof -
  note r = assms [unfolded wf_inv_def]
  show "wf_inv (s\<lparr>wf_nvs_strings := f\<rparr>)"
  proof (rule wf_invI)
    show "wf_sequence_inv (s\<lparr>wf_nvs_strings := f\<rparr>)" using r by (simp add: wf_sequence_inv_def)
    show "wf_trying_inv (s\<lparr>wf_nvs_strings := f\<rparr>)" using r by (simp add: wf_trying_inv_def)
    show "wf_link_inv (s\<lparr>wf_nvs_strings := f\<rparr>)" using r by (simp add: wf_link_inv_def)
    show "wf_alive_inv (s\<lparr>wf_nvs_strings := f\<rparr>)" using r by (simp add: wf_alive_inv_def)
  qed
  show "wf_inv (s\<lparr>wf_trace := tr\<rparr>)"
  proof (rule wf_invI)
    show "wf_sequence_inv (s\<lparr>wf_trace := tr\<rparr>)" using r by (simp add: wf_sequence_inv_def)
    show "wf_trying_inv (s\<lparr>wf_trace := tr\<rparr>)" using r by (simp add: wf_trying_inv_def)
    show "wf_link_inv (s\<lparr>wf_trace := tr\<rparr>)" using r by (simp add: wf_link_inv_def)
    show "wf_alive_inv (s\<lparr>wf_trace := tr\<rparr>)" using r by (simp add: wf_alive_inv_def)
  qed
qed

lemma save_slot_fields:
  "\<exists>f. snd (wifi_service_save_slot env slot ssid pw s) = s\<lparr>wf_nvs_strings := f\<rparr>"
  by (rule exI [of _ "wf_nvs_strings (snd (wifi_service_save_slot env slot ssid pw s))"])
    (simp add: wifi_service_save_slot_def nvs_save_slot_def Let_def split: option.split sum.split)

lemma save_slot_inv: "wf_inv s \<Longrightarrow> wf_inv (snd (wifi_service_save_slot env slot ssid pw s))"
  using save_slot_fields [of env slot ssid pw s] nvs_trace_inv(1) by metis

lemma connect_slot_request_inv: "wf_inv s \<Longrightarrow> wf_inv (snd (wifi_service_connect_slot env slot s))"
  by (simp add: wifi_service_connect_slot_def wf_send_result_def queue_send_inv split: sum.split)

lemma connect_request_inv: "wf_inv s \<Longrightarrow> wf_inv (snd (wifi_service_connect env ssid pw s))"
  by (simp add: wifi_service_connect_def case_prod_beta Let_def connect_slot_request_inv save_slot_inv)

lemma timer_off_inv: "wf_inv s \<Longrightarrow> wf_inv (wf_timer_set False s)"
proof (rule wf_invI)
  assume "wf_inv s"
  note r = this [unfolded wf_inv_def] and d = wf_timer_set_def
  show "wf_sequence_inv (wf_timer_set False s)" using r by (simp add: d wf_sequence_inv_def)
  show "wf_trying_inv (wf_timer_set False s)" using r by (simp add: d wf_trying_inv_def)
  show "wf_link_inv (wf_timer_set False s)" using r by (auto simp: d wf_link_inv_def)
  show "wf_alive_inv (wf_timer_set False s)" using r by (auto simp: d wf_alive_inv_def)
qed

lemma torn_down_inv: "wf_inv (wf_torn_down s)"
  by (rule wf_invI) (simp_all add: wf_torn_down_def wifi_service_clear_reconnect_sequence_def
      wf_sequence_inv_def wf_trying_inv_def wf_link_inv_def wf_alive_inv_def)

lemma wf_shutdown_inv: "wf_inv s \<Longrightarrow> wf_inv (snd (wifi_service_shutdown env s))"
  by (simp add: wifi_service_shutdown_def wf_call_def Let_def torn_down_inv nvs_trace_inv timer_off_inv)

lemma boot_inv: "wf_inv (wf_boot strings ls auto)"
  by (rule wf_invI) (simp_all add: wf_boot_def wf_sequence_inv_def wf_trying_inv_def wf_link_inv_def
      wf_alive_inv_def)

text \<open>
  One step: a call of the interface, a pass of the main loop, or an event. A driver's event
  reaches the service while its handler is registered, a tick of the timer while it runs; a call
  that ends in the kernel's assertion has no next state and is left out.
\<close>

datatype wf_op =
    Op_Wf_Init wf_env wf_init_env
  | Op_Wf_Process "nat \<Rightarrow> wf_env"
  | Op_Wf_Connect wf_env "bytes option" "bytes option"
  | Op_Wf_Save_Slot wf_env u8 "bytes option" "bytes option"
  | Op_Wf_Connect_Slot wf_env u8
  | Op_Wf_Disconnect
  | Op_Wf_Scan
  | Op_Wf_Set_Autoreconnect bool
  | Op_Wf_Reconnect
  | Op_Wf_Event wifi_event
  | Op_Wf_Got_Ip esp_netif_ip_info
  | Op_Wf_Dns_Found bool
  | Op_Wf_Timer
  | Op_Wf_Sntp_Sync
  | Op_Wf_Shutdown wf_env

definition wf_answered :: "(esp_err \<times> wf_state) option \<Rightarrow> wf_state \<Rightarrow> wf_state" where
  "wf_answered r s = (case r of None \<Rightarrow> s | Some (_, s') \<Rightarrow> s')"

fun wf_step :: "wf_state \<Rightarrow> wf_op \<Rightarrow> wf_state" where
  "wf_step s (Op_Wf_Init env ie) = snd (wifi_service_init env ie s)"
| "wf_step s (Op_Wf_Process envs) = wifi_service_process_once envs s"
| "wf_step s (Op_Wf_Connect env ssid pw) = snd (wifi_service_connect env ssid pw s)"
| "wf_step s (Op_Wf_Save_Slot env slot ssid pw) = snd (wifi_service_save_slot env slot ssid pw s)"
| "wf_step s (Op_Wf_Connect_Slot env slot) = snd (wifi_service_connect_slot env slot s)"
| "wf_step s Op_Wf_Disconnect = wf_answered (wifi_service_disconnect s) s"
| "wf_step s Op_Wf_Scan = wf_answered (wifi_service_scan s) s"
| "wf_step s (Op_Wf_Set_Autoreconnect en) = wf_answered (wifi_service_set_autoreconnect en s) s"
| "wf_step s Op_Wf_Reconnect = wf_answered (wifi_service_reconnect s) s"
| "wf_step s (Op_Wf_Event e) = (if wf_wifi_handler s then wifi_event_handler e s else s)"
| "wf_step s (Op_Wf_Got_Ip info) = (if wf_ip_handler s then ip_event_handler info s else s)"
| "wf_step s (Op_Wf_Dns_Found ok) = wifi_service_connectivity_dns_found_cb ok s"
| "wf_step s Op_Wf_Timer = (if wf_reconnect_timer s = Some True then reconnect_timer_cb s else s)"
| "wf_step s Op_Wf_Sntp_Sync = sntp_sync_cb s"
| "wf_step s (Op_Wf_Shutdown env) = snd (wifi_service_shutdown_callback env s)"

lemma wf_request_inv: "wf_inv s \<Longrightarrow> wf_inv (wf_answered (wf_request msg s) s)"
  by (simp add: wf_answered_def wf_request_def wf_send_result_def queue_send_inv)

lemma wf_step_inv: "wf_inv s \<Longrightarrow> wf_inv (wf_step s e)"
proof (cases e)
  case (Op_Wf_Process envs)
  assume "wf_inv s"
  then show ?thesis using Op_Wf_Process process_cmds_inv [of s _ envs]
    by (simp add: wifi_service_process_once_def)
next
  case (Op_Wf_Event e')
  assume "wf_inv s"
  then show ?thesis using Op_Wf_Event
    by (simp add: wifi_event_handler_def queue_internal_cmd_def queue_send_inv split: wifi_event.split)
qed (simp_all add: wf_init_inv connect_request_inv save_slot_inv connect_slot_request_inv wf_shutdown_inv
    wifi_service_disconnect_def wifi_service_scan_def wifi_service_set_autoreconnect_def
    wifi_service_reconnect_def wf_request_inv ip_event_handler_def queue_internal_cmd_def queue_send_inv
    wifi_service_connectivity_dns_found_cb_def reconnect_timer_cb_def sntp_sync_cb_def post_event_def
    wf_log_def nvs_trace_inv wifi_service_shutdown_callback_def)

interpretation wifi: event_machine wf_step wf_inv
  by unfold_locales (rule wf_step_inv)

text \<open>C21: in every state the service can reach, by any sequence of calls, passes of its main loop,
  timer ticks and events of the driver, in any order and with any answers of the driver and NVS, its
  invariant holds: while initialised its queue, mutex and timer exist, slot numbers are in range,
  the sequence of slots stays within its three entries and its current slot is the one being
  connected, the timer never runs while a connection is up or in progress, being connected implies
  an address and no expected disconnection, and the queue and the scan results keep their bounds.\<close>

theorem wifi_always_consistent:
  "wf_inv (foldl wf_step (wf_boot strings ls auto) ops)"
  by (rule wifi.run_inv [OF boot_inv])

end
