(* ===== verification/Wifi_Props.thy ===== *)
theory Wifi_Props
  imports Wifi_Invariant
begin

text \<open>
  What the Wi-Fi service promises: which networks a reconnection tries and in which order, that a
  disconnection the user asked for lasts while nothing asks for another connection, that switching networks is not taken for a lost link,
  and that saved networks are the ones that are used, also after a restart.
\<close>

section \<open>The order of the slots\<close>

definition configured_slots :: "wf_env \<Rightarrow> wf_state \<Rightarrow> u8 list" where
  "configured_slots env s = filter (wifi_service_slot_is_configured env s) [0, 1, 2]"

definition preferred_first :: "int \<Rightarrow> u8 list \<Rightarrow> u8 list" where
  "preferred_first preferred slots =
     filter (\<lambda>slot. uint slot = preferred) slots @ filter (\<lambda>slot. uint slot \<noteq> preferred) slots"

lemma order_rest_room:
  "length out + length slots \<le> room \<Longrightarrow> order_rest wanted slots room out = out @ filter wanted slots"
  by (induction slots arbitrary: out) auto

lemma order_rest_four:
  "order_rest wanted [a, b, c] 3 [p] = (p # filter wanted [a, b, c])" if "\<not> (wanted a \<and> wanted b \<and> wanted c)"
  using that by auto

lemma build_order_spec:
  assumes "slot_or_none (wf_last_successful_slot s)"
  shows "wifi_service_build_reconnect_order env s WIFI_SVC_SLOT_COUNT =
    preferred_first (wf_last_successful_slot s) (configured_slots env s)"
proof -
  have "wf_last_successful_slot s \<in> {-1, 0, 1, 2}"
    using assms by (auto simp: slot_or_none_def slot_in_range_def WIFI_SVC_INVALID_SLOT_def WIFI_SVC_SLOT_COUNT_def)
  then show ?thesis
    by (elim insertE emptyE) (simp_all add: wifi_service_build_reconnect_order_def configured_slots_def
        preferred_first_def WIFI_SVC_SLOT_COUNT_def Let_def upt_rec)
qed

lemma preferred_first_props:
  "set (preferred_first p slots) = set slots"
  "distinct slots \<Longrightarrow> distinct (preferred_first p slots)"
  by (auto simp: preferred_first_def)

section \<open>Trying the slots one after the other\<close>

text \<open>A slot whose stored network the driver's configuration can hold.\<close>

definition slot_usable :: "wf_env \<Rightarrow> wf_state \<Rightarrow> u8 \<Rightarrow> bool" where
  "slot_usable env s slot =
     (case nvs_load_slot env s slot 33 65 of Inl _ \<Rightarrow> False
      | Inr (ssid, password) \<Rightarrow> length (cstr ssid) < WIFI_STA_SSID_SIZE \<and>
          length (cstr password) < WIFI_STA_PASSWORD_SIZE)"

definition driver_works :: "wf_env \<Rightarrow> bool" where
  "driver_works env \<longleftrightarrow> (\<forall>tr a. we_hw env tr a = ESP_OK)"

lemma load_slot_strings:
  "wf_nvs_strings s' = wf_nvs_strings s \<Longrightarrow> nvs_load_slot env s' slot n m = nvs_load_slot env s slot n m"
proof -
  assume "wf_nvs_strings s' = wf_nvs_strings s"
  then have "wf_get_str env s' = wf_get_str env s" by (intro ext) (simp add: wf_get_str_def)
  then show ?thesis by (simp only: nvs_load_slot_def)
qed

lemma slot_usable_strings:
  "wf_nvs_strings s' = wf_nvs_strings s \<Longrightarrow> slot_usable env s' slot = slot_usable env s slot"
  by (simp only: slot_usable_def load_slot_strings [of s' s])

lemma load_slot_valid: "nvs_load_slot env s slot n m = Inr x \<Longrightarrow> wifi_service_slot_index_valid slot"
  by (rule ccontr) (auto simp: nvs_load_slot_def wifi_service_build_slot_key_def split: if_splits)

text \<open>An attempt succeeds exactly for a usable slot, and then is under way.\<close>

definition under_way :: "u8 \<Rightarrow> wf_state \<Rightarrow> bool" where
  "under_way slot s \<longleftrightarrow> wf_link_state s = WIFI_SVC_STATE_CONNECTING \<and> wf_current_slot s = uint slot"

lemma attempt_iff:
  assumes "driver_works env"
  shows "fst (wifi_service_connect_saved_slot env slot s) = ESP_OK \<longleftrightarrow> slot_usable env s slot"
proof (cases "nvs_load_slot env s slot 33 65")
  case (Inl err)
  then have "err \<noteq> ESP_OK" using load_slot_not_ok [of env s slot 33 65] by auto
  with Inl show ?thesis by (simp add: wifi_service_connect_saved_slot_def slot_usable_def)
next
  case (Inr x)
  then show ?thesis
    using assms load_slot_valid [OF Inr]
    by (cases x) (simp add: wifi_service_connect_saved_slot_def slot_usable_def driver_works_def
        wifi_service_connect_with_credentials_def wifi_copy_cstring_def wf_call_def Let_def
        WIFI_STA_SSID_SIZE_def WIFI_STA_PASSWORD_SIZE_def)
qed

lemma attempt_keeps:
  "wf_nvs_strings (snd (wifi_service_connect_saved_slot env slot s)) = wf_nvs_strings s"
  "wf_autoreconnect (snd (wifi_service_connect_saved_slot env slot s)) = wf_autoreconnect s"
  "wf_initialised (snd (wifi_service_connect_saved_slot env slot s)) = wf_initialised s"
  "wf_reconnect_timer (snd (wifi_service_connect_saved_slot env slot s)) = None \<longleftrightarrow> wf_reconnect_timer s = None"
  "wf_reconnect_timer s \<noteq> Some True \<Longrightarrow>
     wf_reconnect_timer (snd (wifi_service_connect_saved_slot env slot s)) \<noteq> Some True"
  by (simp_all add: wifi_service_connect_saved_slot_def wifi_service_connect_with_credentials_def
      wf_step_defs Let_def split: sum.split prod.split)

lemma attempt_under_way:
  assumes "fst (wifi_service_connect_saved_slot env slot s) = ESP_OK"
  shows "under_way slot (snd (wifi_service_connect_saved_slot env slot s))"
    and "wf_link_state s \<notin> {WIFI_SVC_STATE_CONNECTING, WIFI_SVC_STATE_CONNECTED} \<Longrightarrow>
      wf_expected_disconnect (snd (wifi_service_connect_saved_slot env slot s)) = DISCONNECT_EXPECT_NONE"
proof -
  obtain x where x: "nvs_load_slot env s slot 33 65 = Inr x"
    using assms load_slot_not_ok [of env s slot 33 65]
    by (cases "nvs_load_slot env s slot 33 65") (auto simp: wifi_service_connect_saved_slot_def)
  show "under_way slot (snd (wifi_service_connect_saved_slot env slot s))"
    using assms x by (cases x) (auto simp: wifi_service_connect_saved_slot_def under_way_def
        wifi_service_connect_with_credentials_def wf_step_defs Let_def split: sum.splits if_splits)
  show "wf_expected_disconnect (snd (wifi_service_connect_saved_slot env slot s)) = DISCONNECT_EXPECT_NONE"
    if "wf_link_state s \<notin> {WIFI_SVC_STATE_CONNECTING, WIFI_SVC_STATE_CONNECTED}"
    using assms x that by (cases x) (auto simp: wifi_service_connect_saved_slot_def
        wifi_service_connect_with_credentials_def wf_step_defs Let_def split: sum.splits if_splits)
qed

text \<open>The slots that are still to be tried, without those that cannot be used.\<close>

definition slots_left :: "wf_env \<Rightarrow> wf_state \<Rightarrow> u8 list" where
  "slots_left env s = filter (slot_usable env s)
     (drop (wf_reconnect_order_index s) (take (wf_reconnect_order_len s) (wf_reconnect_order s)))"

definition in_sequence :: "wf_state \<Rightarrow> bool" where
  "in_sequence s \<longleftrightarrow> wf_reconnect_sequence_active s \<and>
     wf_reconnect_order_len s \<le> length (wf_reconnect_order s)"

text \<open>The next slot is under way and the others are left; with none left the sequence is over.\<close>

lemma try_next_spec:
  assumes "driver_works env" and "in_sequence s"
    and "wf_link_state s \<notin> {WIFI_SVC_STATE_CONNECTING, WIFI_SVC_STATE_CONNECTED}"
  shows "case wifi_service_try_next_reconnect_slot env s of (err, s') \<Rightarrow>
    wf_nvs_strings s' = wf_nvs_strings s \<and> wf_autoreconnect s' = wf_autoreconnect s \<and>
    (wf_reconnect_timer s' = None \<longleftrightarrow> wf_reconnect_timer s = None) \<and>
    (wf_reconnect_timer s \<noteq> Some True \<longrightarrow> wf_reconnect_timer s' \<noteq> Some True) \<and>
    (case slots_left env s of
       [] \<Rightarrow> err \<noteq> ESP_OK \<and> \<not> wf_reconnect_sequence_active s' \<and> wf_link_state s' = wf_link_state s
     | slot # rest \<Rightarrow> err = ESP_OK \<and> in_sequence s' \<and> under_way slot s' \<and>
         wf_expected_disconnect s' = DISCONNECT_EXPECT_NONE \<and> slots_left env s' = rest)"
  using assms
proof (induction env s rule: wifi_service_try_next_reconnect_slot.induct)
  case (1 env s)
  show ?case
  proof (cases "wf_reconnect_order_index s < wf_reconnect_order_len s")
    case False
    have e: "wifi_service_try_next_reconnect_slot env s = (ESP_ERR_NVS_NOT_FOUND,
        (wifi_service_clear_reconnect_sequence s)\<lparr>wf_current_slot := WIFI_SVC_INVALID_SLOT\<rparr>)"
      using False by (subst wifi_service_try_next_reconnect_slot.simps) simp
    have "slots_left env s = []" using False by (simp add: slots_left_def)
    then show ?thesis unfolding e by (simp add: wifi_service_clear_reconnect_sequence_def)
  next
    case True
    have act: "wf_reconnect_sequence_active s \<and> wf_reconnect_order_index s < wf_reconnect_order_len s"
      using True 1(3) by (simp add: in_sequence_def)
    define i where "i = wf_reconnect_order_index s"
    define slot where "slot = wf_reconnect_order s ! i"
    define s1 where "s1 = s\<lparr>wf_reconnect_order_index := i + 1\<rparr>"
    define r where "r = wifi_service_connect_saved_slot env slot s1"
    have d: "drop i (take (wf_reconnect_order_len s) (wf_reconnect_order s)) =
        slot # drop (Suc i) (take (wf_reconnect_order_len s) (wf_reconnect_order s))"
      using True 1(3) by (simp add: in_sequence_def i_def slot_def Cons_nth_drop_Suc [symmetric])
    have step: "wifi_service_try_next_reconnect_slot env s =
        (if fst r = ESP_OK then (ESP_OK, snd r) else wifi_service_try_next_reconnect_slot env (snd r))"
      using act by (subst wifi_service_try_next_reconnect_slot.simps)
        (simp add: r_def s1_def slot_def i_def Let_def)
    have same: "wf_nvs_strings (snd r) = wf_nvs_strings s" "wf_autoreconnect (snd r) = wf_autoreconnect s"
      "wf_reconnect_timer (snd r) = None \<longleftrightarrow> wf_reconnect_timer s = None"
      "wf_reconnect_timer s \<noteq> Some True \<Longrightarrow> wf_reconnect_timer (snd r) \<noteq> Some True"
      using attempt_keeps [where env = env and slot = slot and s = s1] by (simp_all add: r_def) (simp_all add: s1_def)
    have us: "slot_usable env (snd r) = slot_usable env s"
      by (intro ext slot_usable_strings same(1))
    have seq: "in_sequence (snd r)" using 1(3) by (simp add: in_sequence_def r_def s1_def)
    have left: "slots_left env (snd r) =
        filter (slot_usable env s) (drop (Suc i) (take (wf_reconnect_order_len s) (wf_reconnect_order s)))"
      by (simp add: slots_left_def us) (simp add: r_def s1_def)
    have all: "slots_left env s = (if slot_usable env s slot then [slot] else []) @ slots_left env (snd r)"
      unfolding left by (simp add: slots_left_def d flip: i_def)
    have ok: "fst r = ESP_OK \<longleftrightarrow> slot_usable env s slot"
      unfolding r_def attempt_iff [OF 1(2)] by (rule slot_usable_strings) (simp add: s1_def)
    show ?thesis
    proof (cases "fst r = ESP_OK")
      case True
      have "wf_link_state s1 \<notin> {WIFI_SVC_STATE_CONNECTING, WIFI_SVC_STATE_CONNECTED}"
        using 1(4) by (simp add: s1_def)
      then show ?thesis
        using True ok all seq same attempt_under_way [of env slot s1] by (simp add: step r_def)
    next
      case False
      have link: "wf_link_state (snd r) = wf_link_state s"
        using connect_saved_slot_result [where env = env and slot = slot and s = s1] False
        by (auto simp: r_def wf_attempt_failed_def s1_def)
      have "\<not> slot_usable env s slot" using False ok by simp
      then show ?thesis
        using 1(1) [OF act slot_def [unfolded i_def] r_def [unfolded s1_def i_def] False 1(2) seq]
          False link 1(4) all same
        by (cases "slots_left env (snd r)") (simp_all add: step case_prod_beta)
    qed
  qed
qed

lemma start_sequence_spec:
  assumes "driver_works env" and "slot_or_none (wf_last_successful_slot s)"
    and "wf_link_state s \<notin> {WIFI_SVC_STATE_CONNECTING, WIFI_SVC_STATE_CONNECTED}"
    and "todo = filter (slot_usable env s) (preferred_first (wf_last_successful_slot s) (configured_slots env s))"
  shows "case wifi_service_start_reconnect_sequence env s of (err, s') \<Rightarrow>
    wf_nvs_strings s' = wf_nvs_strings s \<and> wf_autoreconnect s' = wf_autoreconnect s \<and>
    (wf_reconnect_timer s' = None \<longleftrightarrow> wf_reconnect_timer s = None) \<and>
    wf_reconnect_timer s' \<noteq> Some True \<and>
    (case todo of
       [] \<Rightarrow> err \<noteq> ESP_OK \<and> \<not> wf_reconnect_sequence_active s' \<and> wf_link_state s' = wf_link_state s
     | slot # rest \<Rightarrow> err = ESP_OK \<and> in_sequence s' \<and> under_way slot s' \<and>
         wf_expected_disconnect s' = DISCONNECT_EXPECT_NONE \<and> slots_left env s' = rest)"
proof -
  define s1 where "s1 = wf_timer_set False (wifi_service_clear_reconnect_sequence s)"
  define slots where "slots = wifi_service_build_reconnect_order env s1 WIFI_SVC_SLOT_COUNT"
  define s2 where "s2 = s1\<lparr>wf_reconnect_order := write_order slots (wf_reconnect_order s1),
                  wf_reconnect_order_len := length slots\<rparr>"
  define s3 where "s3 = s2\<lparr>wf_reconnect_sequence_active := True, wf_reconnect_order_index := 0\<rparr>"
  have nvs: "wf_nvs_strings s1 = wf_nvs_strings s" "wf_nvs_strings s3 = wf_nvs_strings s"
    "wf_last_successful_slot s1 = wf_last_successful_slot s" "wf_autoreconnect s1 = wf_autoreconnect s"
    "wf_reconnect_timer s1 = None \<longleftrightarrow> wf_reconnect_timer s = None" "wf_link_state s1 = wf_link_state s"
    by (simp_all add: s3_def s2_def s1_def wf_step_defs)
  have conf: "configured_slots env s1 = configured_slots env s"
    using load_slot_strings [OF nvs(1)] by (simp add: configured_slots_def wifi_service_slot_is_configured_def)
  have slots: "slots = preferred_first (wf_last_successful_slot s) (configured_slots env s)"
    using build_order_spec [of s1 env] assms(2) nvs(3) conf by (simp add: slots_def)
  have us: "slot_usable env s3 = slot_usable env s" by (intro ext slot_usable_strings nvs(2))
  have left: "slots_left env s3 = todo"
    unfolding slots_left_def us assms(4) slots [symmetric] by (simp add: s3_def s2_def write_order_def)
  have seq: "in_sequence s3" by (simp add: in_sequence_def s3_def s2_def write_order_def)
  have fields: "wf_autoreconnect s3 = wf_autoreconnect s" "wf_link_state s3 = wf_link_state s"
      "wf_reconnect_timer s3 = None \<longleftrightarrow> wf_reconnect_timer s = None"
      "wf_reconnect_timer s3 \<noteq> Some True" "wf_reconnect_timer s1 \<noteq> Some True"
    using nvs by (simp_all add: s3_def s2_def) (simp_all add: s1_def wf_step_defs)
  show ?thesis
  proof (cases "slots = []")
    case True
    then have "todo = []" using assms(4) slots by simp
    then show ?thesis using True nvs fields(5)
      by (simp add: wifi_service_start_reconnect_sequence_def Let_def flip: s1_def slots_def)
        (simp add: s1_def wf_step_defs)
  next
    case False
    then have "wifi_service_start_reconnect_sequence env s = wifi_service_try_next_reconnect_slot env s3"
      by (simp add: wifi_service_start_reconnect_sequence_def Let_def s3_def s2_def flip: s1_def slots_def)
    then show ?thesis
      using try_next_spec [OF assms(1) seq] assms(3) fields nvs(2)
      by (cases todo) (simp_all add: left case_prod_beta)
  qed
qed

text \<open>One lost link after the other, each for a reason of its own.\<close>

definition lose_links :: "wf_env \<Rightarrow> u8 list \<Rightarrow> wf_state \<Rightarrow> wf_state" where
  "lose_links env reasons s = foldl (\<lambda>s reason. wifi_service_process_cmd env (CMD_EVT_DISCONNECTED reason) s) s reasons"

definition trying :: "u8 \<Rightarrow> u8 list \<Rightarrow> wf_env \<Rightarrow> wf_state \<Rightarrow> bool" where
  "trying slot rest env s \<longleftrightarrow> in_sequence s \<and> under_way slot s \<and> slots_left env s = rest \<and>
     wf_expected_disconnect s = DISCONNECT_EXPECT_NONE \<and> wf_reconnect_timer s \<noteq> Some True"

definition given_up :: "wf_state \<Rightarrow> bool" where
  "given_up s \<longleftrightarrow> wf_link_state s = WIFI_SVC_STATE_DISCONNECTED \<and> \<not> wf_reconnect_sequence_active s \<and>
     wf_current_slot s = WIFI_SVC_INVALID_SLOT \<and>
     (wf_reconnect_timer s \<noteq> None \<longrightarrow> wf_reconnect_timer s = Some (wf_autoreconnect s))"

lemma lost_link_spec:
  assumes "driver_works env" and "trying slot rest env s"
  shows "case rest of [] \<Rightarrow> given_up (handle_evt_disconnected env reason s)
         | next_slot # rest' \<Rightarrow> trying next_slot rest' env (handle_evt_disconnected env reason s)"
proof -
  define s1 where "s1 = post_event (WIFI_SVC_EVENT_DISCONNECTED reason) (wifi_service_reset_ip_state
                   (s\<lparr>wf_expected_disconnect := DISCONNECT_EXPECT_NONE,
                      wf_link_state := WIFI_SVC_STATE_DISCONNECTED\<rparr>))"
  have h: "handle_evt_disconnected env reason s =
      (let (err, s2) = wifi_service_try_next_reconnect_slot env s1 in
       if err = ESP_OK then s2 else give_up_link s2)"
    using assms(2) unfolding handle_evt_disconnected_def trying_def in_sequence_def
    by (simp add: Let_def flip: s1_def) (simp add: s1_def wf_step_defs)
  have s1: "in_sequence s1" "wf_link_state s1 = WIFI_SVC_STATE_DISCONNECTED" "slots_left env s1 = rest"
    "wf_reconnect_timer s1 \<noteq> Some True"
  proof -
    have "slot_usable env s1 = slot_usable env s"
      by (intro ext slot_usable_strings) (simp add: s1_def wf_step_defs)
    then show "slots_left env s1 = rest"
      using assms(2) by (simp add: trying_def slots_left_def) (simp add: s1_def wf_step_defs)
  qed (use assms(2) in \<open>simp_all add: s1_def trying_def in_sequence_def wf_step_defs\<close>)
  show ?thesis
    using try_next_spec [OF assms(1) s1(1)] s1
    by (cases rest) (auto simp: h trying_def given_up_def give_up_link_def Let_def wf_timer_set_def case_prod_beta)
qed

lemma lose_links_spec:
  assumes "driver_works env" and "trying slot rest env s"
  shows "length reasons \<le> length rest \<Longrightarrow>
      under_way ((slot # rest) ! length reasons) (lose_links env reasons s)"
    and "length reasons = Suc (length rest) \<Longrightarrow> given_up (lose_links env reasons s)"
  using assms(2)
proof (induction reasons arbitrary: slot rest s)
  case Nil
  { case 1 then show ?case by (simp add: lose_links_def trying_def) }
  { case 2 then show ?case by simp }
next
  case (Cons reason reasons)
  have l: "lose_links env (reason # reasons) s = lose_links env reasons (handle_evt_disconnected env reason s)" for s
    by (simp add: lose_links_def)
  { case 1
    then obtain next_slot rest' where "rest = next_slot # rest'" by (cases rest) auto
    with 1 Cons.IH(1) [of rest' next_slot "handle_evt_disconnected env reason s"] lost_link_spec [OF assms(1) 1(2), of reason]
    show ?case by (simp add: l) }
  { case 2
    then show ?case
    proof (cases rest)
      case Nil
      with 2 have "reasons = []" by simp
      with Nil 2 lost_link_spec [OF assms(1) 2(2), of reason] show ?thesis
        unfolding l by (simp add: lose_links_def)
    next
      case (Cons next_slot rest')
      with 2 Cons.IH(2) [of rest' next_slot "handle_evt_disconnected env reason s"] lost_link_spec [OF assms(1) 2(2), of reason]
      show ?thesis by (simp add: l)
    qed }
qed

text \<open>C22: a reconnection tries every configured network the driver can be given, the one that last
  worked first and the others in the order of their slots, each one once: after \<open>k\<close> lost links the
  service is connecting to the \<open>k\<close>-th of them, whatever the reasons of the losses; when the last one is lost,
  the sequence is over and the service is disconnected, with the reconnect timer running exactly when
  automatic reconnection is on.\<close>

theorem wifi_reconnect_tries_all:
  assumes "wf_inv s" and "wf_initialised s" and "driver_works env"
    and "wf_link_state s \<notin> {WIFI_SVC_STATE_CONNECTING, WIFI_SVC_STATE_CONNECTED}"
    and "todo = filter (slot_usable env s)
           (preferred_first (wf_last_successful_slot s) (configured_slots env s))"
    and "length reasons \<le> length todo"
  shows "let s' = lose_links env reasons (wifi_service_process_cmd env CMD_RECONNECT_NOW s) in
    if length reasons < length todo
    then wifi_service_get_active_slot s' = uint (todo ! length reasons)
    else wifi_service_get_state s' = WIFI_SVC_STATE_DISCONNECTED \<and> \<not> wf_reconnect_sequence_active s' \<and>
         wf_reconnect_timer s' = Some (wf_autoreconnect s')"
proof -
  define s1 where "s1 = handle_reconnect env True s"
  define s' where "s' = lose_links env reasons s1"
  obtain err r where st: "wifi_service_start_reconnect_sequence env s = (err, r)" by fastforce
  have "slot_or_none (wf_last_successful_slot s)" using assms(1) by (simp add: wf_inv_def wf_link_inv_def)
  note spec = start_sequence_spec [OF assms(3) this assms(4,5), unfolded st, simplified]
  have inv: "wf_inv (lose_links env reasons s1) \<and> wf_initialised (lose_links env reasons s1)" for reasons
  proof -
    have "wf_inv s1 \<and> wf_initialised s1" unfolding s1_def by (rule reconnect_inv [OF assms(1,2)])
    then show ?thesis
      by (induction reasons arbitrary: s1) (auto simp: lose_links_def evt_disconnected_inv)
  qed
  show ?thesis
  proof (cases todo)
    case Nil
    then have "reasons = []" "err \<noteq> ESP_OK" "wf_autoreconnect r = wf_autoreconnect s"
        "\<not> wf_reconnect_sequence_active r" "wf_reconnect_timer r = Some False"
      using assms(1,2,6) spec by (auto simp: wf_inv_def wf_alive_inv_def)
    then show ?thesis
      using Nil st assms(4)
      by (auto simp: handle_reconnect_def Let_def lose_links_def wf_timer_set_def wifi_service_get_state_def)
  next
    case (Cons slot rest)
    have "s1 = r" using spec Cons st assms(4) by (simp add: s1_def handle_reconnect_def)
    then have t: "trying slot rest env s1" using spec Cons by (simp add: trying_def)
    show ?thesis
    proof (cases "length reasons \<le> length rest")
      case True
      then show ?thesis
        using lose_links_spec(1) [OF assms(3) t True] Cons
        by (simp add: wifi_service_get_active_slot_def under_way_def flip: s1_def)
    next
      case False
      then have "length reasons = Suc (length rest)" using assms(6) Cons by simp
      from lose_links_spec(2) [OF assms(3) t this] inv [of reasons] Cons False
      show ?thesis
        by (auto simp: given_up_def wifi_service_get_state_def wf_inv_def wf_alive_inv_def simp flip: s1_def)
    qed
  qed
qed

section \<open>A disconnection the user asked for\<close>

text \<open>The messages that may follow a disconnection the user asked for. The service expects one report of
  the end of the link if there was one to end (\<open>expects\<close>), until that report or another request to
  disconnect comes; \<open>auto\<close> is whether it reconnects by itself. An end of a link that is not expected and
  an expiry of the reconnect timer still on its way are excluded only while it does. Requests to connect
  or to reconnect are excluded, switching automatic reconnection on, and a new address.\<close>

fun tame :: "bool \<Rightarrow> bool \<Rightarrow> wifi_svc_msg list \<Rightarrow> bool" where
  "tame expects auto [] = True"
| "tame expects auto (msg # msgs) = (case msg of
     CMD_DISCONNECT \<Rightarrow> tame False auto msgs
   | CMD_SET_AUTORECONNECT en \<Rightarrow> \<not> en \<and> tame expects False msgs
   | CMD_EVT_DISCONNECTED reason \<Rightarrow> (expects \<and> reason = WIFI_REASON_ASSOC_LEAVE \<or> \<not> auto) \<and> tame False auto msgs
   | CMD_RECONNECT_TIMER \<Rightarrow> \<not> auto \<and> tame expects auto msgs
   | CMD_CONNECT_SLOT slot \<Rightarrow> False
   | CMD_RECONNECT_NOW \<Rightarrow> False
   | CMD_EVT_GOT_IP info \<Rightarrow> False
   | _ \<Rightarrow> tame expects auto msgs)"

definition process_msgs :: "(wf_env \<times> wifi_svc_msg) list \<Rightarrow> wf_state \<Rightarrow> wf_state" where
  "process_msgs ems s = foldl (\<lambda>s (env, msg). wifi_service_process_cmd env msg s) s ems"

definition kept_off :: "wf_state \<Rightarrow> bool" where
  "kept_off s \<longleftrightarrow> wf_link_state s \<in> {WIFI_SVC_STATE_DISCONNECTED, WIFI_SVC_STATE_SCANNING} \<and>
     \<not> wf_reconnect_sequence_active s \<and> wf_reconnect_timer s \<noteq> Some True"

definition connect_calls :: "wf_state \<Rightarrow> nat" where
  "connect_calls s = count_list (wf_trace s) Drv_Connect"

definition expects_user :: "wf_state \<Rightarrow> bool" where
  "expects_user s \<longleftrightarrow> wf_expected_disconnect s = DISCONNECT_EXPECT_USER"

lemmas kept_off_defs = kept_off_def connect_calls_def expects_user_def Let_def wf_step_defs

lemma tame_step:
  assumes "kept_off s" and "tame (expects_user s) (wf_autoreconnect s) (msg # msgs)"
  shows "let s' = wifi_service_process_cmd env msg s in
    kept_off s' \<and> connect_calls s' = connect_calls s \<and> tame (expects_user s') (wf_autoreconnect s') msgs"
proof (cases msg)
  case CMD_SCAN
  then show ?thesis using assms by (simp add: handle_scan_def kept_off_defs)
next
  case CMD_DISCONNECT
  then show ?thesis using assms by (auto simp: handle_disconnect_def kept_off_defs)
next
  case (CMD_SET_AUTORECONNECT en)
  obtain v where "snd (nvs_save_autoreconnect env False s) = s\<lparr>wf_nvs_autoreconnect := v\<rparr>"
    using save_autoreconnect_fields by blast
  then show ?thesis using CMD_SET_AUTORECONNECT assms
    by (auto simp: handle_set_autoreconnect_def kept_off_defs)
next
  case CMD_RECONNECT_TIMER
  then show ?thesis using assms by (auto simp: handle_reconnect_def kept_off_defs)
next
  case (CMD_EVT_DISCONNECTED reason)
  then show ?thesis using assms
    by (auto simp: handle_evt_disconnected_def give_up_link_def kept_off_defs)
next
  case CMD_EVT_SCAN_DONE
  then show ?thesis using assms by (auto simp: handle_evt_scan_done_def kept_off_defs split: sum.split)
next
  case CMD_EVT_CONNECTIVITY_OK
  then show ?thesis using assms by (simp add: handle_evt_connectivity_def kept_off_defs)
next
  case CMD_EVT_CONNECTIVITY_FAILED
  then show ?thesis using assms by (simp add: handle_evt_connectivity_def kept_off_defs)
qed (use assms(2) in simp_all)

lemma tame_run:
  assumes "kept_off s" and "tame (expects_user s) (wf_autoreconnect s) (map snd ems)"
  shows "kept_off (process_msgs ems s) \<and> connect_calls (process_msgs ems s) = connect_calls s"
  using assms
proof (induction ems arbitrary: s)
  case Nil
  then show ?case by (simp add: process_msgs_def)
next
  case (Cons em ems)
  obtain env msg where em: "em = (env, msg)" by fastforce
  have step: "let s' = wifi_service_process_cmd env msg s in
      kept_off s' \<and> connect_calls s' = connect_calls s \<and>
      tame (expects_user s') (wf_autoreconnect s') (map snd ems)"
    using Cons.prems em by (intro tame_step) simp_all
  have "process_msgs (em # ems) s = process_msgs ems (wifi_service_process_cmd env msg s)"
    by (simp add: process_msgs_def em)
  with step Cons.IH [of "wifi_service_process_cmd env msg s"] show ?case by (simp add: Let_def)
qed

text \<open>C23: A disconnection asked for by the user lasts, in any state of the link, as long as the messages
  that follow it are of these: further requests to disconnect, scans, the results of scans and of the
  connectivity test, automatic reconnection switched off, the one report of the end of the link, if there was a
  link and no second request to disconnect comes before that report, and, while automatic reconnection
  is off, any report of the end of a link and any expiry of the reconnect timer. Then the service stays
  disconnected (or scans), its reconnect timer stays stopped, no connection is asked of the driver, and
  it reports no active slot and no internet. It need not last when something else follows: besides a
  request to connect and an address that comes late, the two lemmas below show that it does not when
  the report comes after a second request, nor when an expiry of the timer was already queued.\<close>

theorem wifi_user_disconnect_lasts:
  assumes "tame (wf_link_state s \<in> {WIFI_SVC_STATE_CONNECTING, WIFI_SVC_STATE_CONNECTED})
      (wf_autoreconnect s) (map snd ems)"
  shows "let s' = process_msgs ems (wifi_service_process_cmd env CMD_DISCONNECT s) in
    wifi_service_get_state s' \<in> {WIFI_SVC_STATE_DISCONNECTED, WIFI_SVC_STATE_SCANNING} \<and>
    wf_reconnect_timer s' \<noteq> Some True \<and> connect_calls s' = connect_calls s \<and>
    wifi_service_get_active_slot s' = WIFI_SVC_INVALID_SLOT \<and> \<not> wifi_service_has_internet s'"
proof -
  let ?s1 = "handle_disconnect s"
  have "kept_off ?s1" "connect_calls ?s1 = connect_calls s" "wf_autoreconnect ?s1 = wf_autoreconnect s"
      "expects_user ?s1 \<longleftrightarrow> wf_link_state s \<in> {WIFI_SVC_STATE_CONNECTING, WIFI_SVC_STATE_CONNECTED}"
    by (auto simp: handle_disconnect_def kept_off_defs)
  with tame_run [of ?s1 ems] assms show ?thesis
    by (auto simp: kept_off_def Let_def wifi_service_get_state_def wifi_service_get_active_slot_def
        wifi_service_has_internet_def)
qed

text \<open>Asked for twice before the driver has reported the end of the link, it does not last: the second
  request forgets that the end is expected.\<close>

lemma wifi_disconnect_twice_reconnects:
  assumes "wf_link_state s = WIFI_SVC_STATE_CONNECTED" and "wf_reconnect_timer s \<noteq> None" and "wf_autoreconnect s"
  shows "wf_reconnect_timer (process_msgs [(env, CMD_DISCONNECT), (env, CMD_DISCONNECT),
           (env, CMD_EVT_DISCONNECTED WIFI_REASON_ASSOC_LEAVE)] s) = Some True"
  using assms by (auto simp: process_msgs_def handle_disconnect_def handle_evt_disconnected_def
      give_up_link_def Let_def wf_step_defs)

text \<open>Nor does it last when the reconnect timer had expired before the request, and its message comes out
  of the queue after it: the service begins to connect again.\<close>

lemma wifi_stale_timer_reconnects:
  assumes "driver_works env" and "slot_or_none (wf_last_successful_slot s)" and "wf_autoreconnect s"
    and "filter (slot_usable env s) (preferred_first (wf_last_successful_slot s) (configured_slots env s)) \<noteq> []"
  shows "wifi_service_get_state (process_msgs [(env, CMD_DISCONNECT), (env, CMD_RECONNECT_TIMER)] s) =
    WIFI_SVC_STATE_CONNECTING"
proof -
  let ?s1 = "handle_disconnect s"
  have f: "wf_nvs_strings ?s1 = wf_nvs_strings s" "wf_last_successful_slot ?s1 = wf_last_successful_slot s"
      "wf_autoreconnect ?s1" "wf_link_state ?s1 = WIFI_SVC_STATE_DISCONNECTED"
    using assms(3) by (simp_all add: handle_disconnect_def Let_def wf_step_defs)
  have us: "slot_usable env ?s1 = slot_usable env s" by (intro ext slot_usable_strings f)
  have cs: "configured_slots env ?s1 = configured_slots env s"
    unfolding configured_slots_def wifi_service_slot_is_configured_def load_slot_strings [OF f(1)] ..
  obtain slot rest where todo: "slot # rest =
      filter (slot_usable env ?s1) (preferred_first (wf_last_successful_slot ?s1) (configured_slots env ?s1))"
    using assms(4) by (metis us cs f(2) list.exhaust)
  obtain err r where st: "wifi_service_start_reconnect_sequence env ?s1 = (err, r)" by fastforce
  have "err = ESP_OK \<and> under_way slot r"
    using start_sequence_spec [OF assms(1) _ _ todo, unfolded st] assms(2) f by simp
  then show ?thesis
    using st f by (simp add: process_msgs_def handle_reconnect_def under_way_def wifi_service_get_state_def)
qed

section \<open>Switching networks\<close>

lemma attempt_from_link:
  assumes "driver_works env" and "slot_usable env s slot"
    and "wf_link_state s \<in> {WIFI_SVC_STATE_CONNECTING, WIFI_SVC_STATE_CONNECTED}"
  shows "wf_expected_disconnect (snd (wifi_service_connect_saved_slot env slot s)) = DISCONNECT_EXPECT_HANDOFF"
  using assms
  by (auto simp: slot_usable_def wifi_service_connect_saved_slot_def wifi_service_connect_with_credentials_def
      driver_works_def wifi_copy_cstring_def wf_step_defs Let_def load_slot_valid
      WIFI_STA_SSID_SIZE_def WIFI_STA_PASSWORD_SIZE_def split: sum.splits)

text \<open>Connecting to another slot while a connection is up: the end of the old link is absorbed (the
  service still connects to the new slot, nothing is posted and no other slot is tried), and with the
  new address it is connected to the new slot, which becomes the preferred one.\<close>

theorem wifi_handoff:
  assumes "driver_works env" and "slot_usable env s slot"
    and "wf_link_state s \<in> {WIFI_SVC_STATE_CONNECTING, WIFI_SVC_STATE_CONNECTED}"
    and "s1 = wifi_service_process_cmd env (CMD_CONNECT_SLOT slot) s"
    and "s2 = wifi_service_process_cmd env' (CMD_EVT_DISCONNECTED WIFI_REASON_ASSOC_LEAVE) s1"
    and "s3 = wifi_service_process_cmd env' (CMD_EVT_GOT_IP info) s2"
  shows "wifi_service_get_active_slot s1 = uint slot \<and> wifi_service_get_active_slot s2 = uint slot \<and>
    wifi_service_get_state s2 = WIFI_SVC_STATE_CONNECTING \<and> wf_trace s2 = wf_trace s1 \<and>
    wifi_service_get_state s3 = WIFI_SVC_STATE_CONNECTED \<and> wifi_service_get_active_slot s3 = uint slot \<and>
    wifi_service_get_preferred_slot s3 = uint slot \<and> wifi_service_get_ip_info True s3 = Inr info"
proof -
  define c where "c = wifi_service_clear_reconnect_sequence s"
  have c: "wf_nvs_strings c = wf_nvs_strings s" "wf_link_state c = wf_link_state s"
    by (simp_all add: c_def wifi_service_clear_reconnect_sequence_def)
  have us: "slot_usable env c slot" using assms(2) slot_usable_strings [OF c(1)] by simp
  have ok: "fst (wifi_service_connect_saved_slot env slot c) = ESP_OK"
    using attempt_iff [OF assms(1)] us by simp
  have s1: "s1 = snd (wifi_service_connect_saved_slot env slot c)"
    using ok by (simp add: assms(4) handle_connect_slot_def case_prod_beta Let_def flip: c_def)
  have u: "under_way slot s1" "wf_expected_disconnect s1 = DISCONNECT_EXPECT_HANDOFF"
    using attempt_under_way(1) [OF ok] attempt_from_link [OF assms(1) us] assms(3) c(2) by (simp_all add: s1)
  have s2: "s2 = s1\<lparr>wf_expected_disconnect := DISCONNECT_EXPECT_NONE\<rparr>"
    using u(2) by (simp add: assms(5) handle_evt_disconnected_def Let_def)
  have "slot_in_range (uint slot)"
    using us load_slot_valid by (auto simp: slot_usable_def split: sum.splits)
  moreover obtain b d e tr v where "s3 =
     (wifi_service_clear_reconnect_sequence s2)\<lparr>wf_reconnect_timer := map_option (\<lambda>_. False) (wf_reconnect_timer s2),
       wf_link_state := WIFI_SVC_STATE_CONNECTED, wf_sntp_initialised := b, wf_dns_lookup_active := d,
       wf_connectivity_ok := e, wf_ip_info := info, wf_have_ip_info := True,
       wf_last_successful_slot := (if slot_in_range (wf_current_slot s2) then wf_current_slot s2
                                   else wf_last_successful_slot s2),
       wf_expected_disconnect := DISCONNECT_EXPECT_NONE, wf_nvs_last_slot := v, wf_trace := tr\<rparr>"
    unfolding assms(6) using got_ip_result [of env' info s2] by auto
  ultimately show ?thesis
    using u(1) by (simp add: s2 under_way_def wifi_service_get_active_slot_def wifi_service_get_state_def
        wifi_service_get_preferred_slot_def wifi_service_get_ip_info_def
        wifi_service_clear_reconnect_sequence_def)
qed

section \<open>Saved networks\<close>

definition nvs_answers :: "wf_env \<Rightarrow> bool" where
  "nvs_answers env \<longleftrightarrow> (\<forall>op. we_nvs env op = ESP_OK)"

definition nvs_slot_key :: "string \<Rightarrow> u8 \<Rightarrow> string" where
  "nvs_slot_key prefix slot = prefix @ [char_of (49 + unat slot)]"

lemma slot_key_spec:
  assumes "wifi_service_slot_index_valid slot" and "length prefix = 4"
  shows "wifi_service_build_slot_key prefix slot nvs_key_size = Inr (nvs_slot_key prefix slot)"
proof -
  have "unat slot < 3" using assms(1) by (simp add: wifi_service_slot_index_valid_def WIFI_SVC_SLOT_COUNT_def)
  then have "dec_digits (unat slot + 1) = [char_of (49 + unat slot)]"
    by (simp add: dec_digits.simps)
  with assms show ?thesis
    by (simp add: wifi_service_build_slot_key_def Let_def nvs_key_size_def nvs_slot_key_def)
qed

lemma slot_key_inj:
  assumes "wifi_service_slot_index_valid a" and "wifi_service_slot_index_valid b"
  shows "nvs_slot_key prefix a = nvs_slot_key prefix b \<longleftrightarrow> a = b"
    and "nvs_slot_key ''ssid'' a \<noteq> nvs_slot_key ''pass'' b"
    and "nvs_slot_key ''pass'' a \<noteq> nvs_slot_key ''ssid'' b"
proof -
  have "unat a < 3" "unat b < 3"
    using assms by (simp_all add: wifi_service_slot_index_valid_def WIFI_SVC_SLOT_COUNT_def)
  then have "of_char (char_of (49 + unat a) :: char) = 49 + unat a"
    "of_char (char_of (49 + unat b) :: char) = 49 + unat b" by simp_all
  then have "char_of (49 + unat a) = (char_of (49 + unat b) :: char) \<Longrightarrow> a = b"
    by (metis add_left_cancel word_unat_eq_iff)
  then show "nvs_slot_key prefix a = nvs_slot_key prefix b \<longleftrightarrow> a = b" by (auto simp: nvs_slot_key_def)
  show "nvs_slot_key ''ssid'' a \<noteq> nvs_slot_key ''pass'' b" "nvs_slot_key ''pass'' a \<noteq> nvs_slot_key ''ssid'' b"
    by (simp_all add: nvs_slot_key_def)
qed

lemma load_slot_spec:
  assumes "nvs_answers env" and "wifi_service_slot_index_valid slot" and "n > 0"
  shows "nvs_load_slot env s slot n m =
    (case wf_get_str env s (nvs_slot_key ''ssid'' slot) n of Inl err \<Rightarrow> Inl err
     | Inr ssid \<Rightarrow>
        (case (if m = 0 then Inr [] else wf_get_str env s (nvs_slot_key ''pass'' slot) m) of
           Inl err \<Rightarrow> Inl err
         | Inr password \<Rightarrow> if ssid = [] then Inl ESP_ERR_NVS_NOT_FOUND else Inr (ssid, password)))"
  using assms by (simp add: nvs_load_slot_def slot_key_spec nvs_answers_def)

lemma save_slot_spec:
  assumes "nvs_answers env" and "wifi_service_slot_index_valid slot"
    and "cstr ssid \<noteq> []" and "length (cstr ssid) \<le> 32" and "length (cstr password) \<le> 64"
  shows "wifi_service_save_slot env slot (Some ssid) (Some password) s =
    (ESP_OK, s\<lparr>wf_nvs_strings := (wf_nvs_strings s)
       (nvs_slot_key ''ssid'' slot \<mapsto> cstr ssid, nvs_slot_key ''pass'' slot \<mapsto> cstr password)\<rparr>)"
  using assms by (simp add: wifi_service_save_slot_def wifi_copy_cstring_def nvs_save_slot_def
      slot_key_spec nvs_answers_def)

lemma load_after_save:
  assumes "nvs_answers env" and "wifi_service_slot_index_valid slot" and "wifi_service_slot_index_valid other"
    and "cstr ssid \<noteq> []" and "length (cstr ssid) \<le> 32" and "length (cstr password) \<le> 64"
    and "s' = snd (wifi_service_save_slot env slot (Some ssid) (Some password) s)"
  shows "nvs_load_slot env s' other 33 65 =
      (if other = slot then Inr (cstr ssid, cstr password) else nvs_load_slot env s other 33 65)"
    and "nvs_load_slot env s' other 33 0 =
      (if other = slot then Inr (cstr ssid, []) else nvs_load_slot env s other 33 0)"
proof -
  note sv = save_slot_spec [OF assms(1,2,4,5,6), of s] and keys = slot_key_inj [OF assms(3,2)]
  have s': "s' = s\<lparr>wf_nvs_strings := (wf_nvs_strings s)
       (nvs_slot_key ''ssid'' slot \<mapsto> cstr ssid, nvs_slot_key ''pass'' slot \<mapsto> cstr password)\<rparr>"
    by (simp add: assms(7) sv)
  have other: "nvs_load_slot env s' other 33 m = nvs_load_slot env s other 33 m" if "other \<noteq> slot" for m
  proof -
    have g: "wf_get_str env s' (nvs_slot_key ''ssid'' other) n = wf_get_str env s (nvs_slot_key ''ssid'' other) n"
      "wf_get_str env s' (nvs_slot_key ''pass'' other) n = wf_get_str env s (nvs_slot_key ''pass'' other) n" for n
      using keys that by (simp_all add: wf_get_str_def s')
    show ?thesis unfolding load_slot_spec [OF assms(1,3) zero_less_numeral] g ..
  qed
  have "nvs_load_slot env s' slot 33 65 = Inr (cstr ssid, cstr password)"
    "nvs_load_slot env s' slot 33 0 = Inr (cstr ssid, [])"
    using assms(1-6) slot_key_inj(2,3) [OF assms(2,2)]
    by (simp_all add: s' load_slot_spec wf_get_str_def nvs_answers_def)
  with other show "nvs_load_slot env s' other 33 65 =
      (if other = slot then Inr (cstr ssid, cstr password) else nvs_load_slot env s other 33 65)"
    and "nvs_load_slot env s' other 33 0 =
      (if other = slot then Inr (cstr ssid, []) else nvs_load_slot env s other 33 0)" by simp_all
qed

text \<open>What the list of the slots shows after a network was saved.\<close>

lemma saved_info_after_save:
  assumes "nvs_answers env" and "wifi_service_slot_index_valid slot" and "i < WIFI_SVC_SLOT_COUNT"
    and "cstr ssid \<noteq> []" and "length (cstr ssid) \<le> 32" and "length (cstr password) \<le> 64"
    and "s' = snd (wifi_service_save_slot env slot (Some ssid) (Some password) s)"
  shows "saved_slot_info env s' i =
    (if i = unat slot then (saved_slot_info env s i)\<lparr>ws_configured := True, ws_ssid := cstr ssid\<rparr>
     else saved_slot_info env s i)"
proof -
  have i: "i < 256" using assms(3) by (simp add: WIFI_SVC_SLOT_COUNT_def)
  then have u: "unat (of_nat i :: u8) = i" by (simp add: unat_of_nat)
  then have v: "wifi_service_slot_index_valid (of_nat i)" using assms(3) by (simp add: wifi_service_slot_index_valid_def)
  have e: "of_nat i = slot \<longleftrightarrow> i = unat slot" using u by (auto simp: word_unat_eq_iff)
  obtain f where f: "s' = s\<lparr>wf_nvs_strings := f\<rparr>"
    using save_slot_fields [of env slot "Some ssid" "Some password" s] assms(7) by blast
  have same: "wf_last_successful_slot s' = wf_last_successful_slot s"
    "wifi_service_get_active_slot s' = wifi_service_get_active_slot s"
    by (simp_all add: f wifi_service_get_active_slot_def)
  show ?thesis
    using load_after_save(2) [OF assms(1,2) v assms(4-7)] e
    by (simp add: saved_slot_info_def Let_def same)
qed

text \<open>A network that was saved is read back as it was given, by name and password, and the other
  two slots are what they were before.\<close>

theorem wifi_slot_roundtrip:
  assumes "nvs_answers env" and "wifi_service_slot_index_valid slot" and "wifi_service_slot_index_valid other"
    and "cstr ssid \<noteq> []" and "length (cstr ssid) \<le> 32" and "length (cstr password) \<le> 64"
    and "s' = snd (wifi_service_save_slot env slot (Some ssid) (Some password) s)"
  shows "fst (wifi_service_save_slot env slot (Some ssid) (Some password) s) = ESP_OK \<and>
    nvs_load_slot env s' other 33 65 =
      (if other = slot then Inr (cstr ssid, cstr password) else nvs_load_slot env s other 33 65)"
  using save_slot_spec [OF assms(1,2,4,5,6), of s] load_after_save(1) [OF assms] by simp

text \<open>Connecting to a network by name and password: once the request is accepted and processed, the
  driver is connecting with exactly this name and password when the name has at most 31 and the
  password at most 63 characters; a longer one, which the service accepts and saves, is never given
  to the driver, and the service is disconnected.\<close>

theorem wifi_connect_reaches_driver:
  assumes "nvs_answers env" and "driver_works env" and "wf_initialised s" and "wf_cmd_queue s = Some []"
    and "cstr ssid \<noteq> []" and "length (cstr ssid) \<le> 32" and "length (cstr password) \<le> 64"
    and "s1 = snd (wifi_service_connect env (Some ssid) (Some password) s)"
    and "s2 = wifi_service_process_once (\<lambda>_. env) s1"
  shows "fst (wifi_service_connect env (Some ssid) (Some password) s) = ESP_OK \<and>
    (if length (cstr ssid) < 32 \<and> length (cstr password) < 64
     then wifi_service_get_state s2 = WIFI_SVC_STATE_CONNECTING \<and> wifi_service_get_active_slot s2 = 0 \<and>
          (\<exists>tr. wf_trace s2 = tr @ [Drv_Set_Config (cstr ssid) (cstr password), Drv_Connect,
                                    Wf_Post WIFI_SVC_EVENT_CONNECTING])
     else wifi_service_get_state s2 = WIFI_SVC_STATE_DISCONNECTED \<and> wf_trace s2 = wf_trace s)"
proof -
  define s0 where "s0 = snd (wifi_service_save_slot env 0 (Some ssid) (Some password) s)"
  have v: "wifi_service_slot_index_valid 0" by (simp add: wifi_service_slot_index_valid_def WIFI_SVC_SLOT_COUNT_def)
  note sv = save_slot_spec [OF assms(1) v assms(5,6,7), of s]
  have f: "wf_initialised s0" "wf_cmd_queue s0 = Some []" "wf_trace s0 = wf_trace s" using assms(3,4)
    by (simp_all add: s0_def sv)
  have "\<exists>pw. nvs_load_slot env s0 0 33 0 = Inr (cstr ssid, pw)"
    and l: "nvs_load_slot env s0 0 33 65 = Inr (cstr ssid, cstr password)"
    using assms(1,5-7) v slot_key_inj(2,3) [OF v v]
    by (auto simp: s0_def sv load_slot_spec wf_get_str_def nvs_answers_def)
  then have c: "wifi_service_connect env (Some ssid) (Some password) s =
      (ESP_OK, s0\<lparr>wf_cmd_queue := Some [CMD_CONNECT_SLOT 0]\<rparr>)"
    using sv f v by (auto simp: wifi_service_connect_def wifi_service_connect_slot_def wf_send_result_def
        wf_queue_send_def CMD_QUEUE_DEPTH_def s0_def)
  define c0 where "c0 = wifi_service_clear_reconnect_sequence (s0\<lparr>wf_cmd_queue := Some []\<rparr>)"
  have c0: "wf_nvs_strings c0 = wf_nvs_strings s0" "wf_trace c0 = wf_trace s" "wf_cmd_queue c0 = Some []"
    using f by (simp_all add: c0_def wifi_service_clear_reconnect_sequence_def)
  have l0: "nvs_load_slot env c0 0 33 65 = Inr (cstr ssid, cstr password)"
    using load_slot_strings [OF c0(1)] l by simp
  have h: "handle_connect_slot env 0 (s0\<lparr>wf_cmd_queue := Some []\<rparr>) =
      (let (err, s1) = wifi_service_connect_with_credentials env 0 (cstr ssid) (cstr password) c0 in
       if err \<noteq> ESP_OK
       then s1\<lparr>wf_link_state := WIFI_SVC_STATE_DISCONNECTED, wf_current_slot := WIFI_SVC_INVALID_SLOT\<rparr>
       else s1)"
    by (simp add: handle_connect_slot_def wifi_service_connect_saved_slot_def l0 flip: c0_def)
  have "wf_cmd_queue (handle_connect_slot env 0 (s0\<lparr>wf_cmd_queue := Some []\<rparr>)) = Some []"
    using c0(3) unfolding h by (simp add: Let_def case_prod_beta
        wifi_service_connect_with_credentials_def wf_step_defs split: sum.split)
  then have s2: "s2 = handle_connect_slot env 0 (s0\<lparr>wf_cmd_queue := Some []\<rparr>)"
    using f by (simp add: assms(8,9) c wifi_service_process_once_def WIFI_SERVICE_MAX_CMDS_PER_PASS_def
        eval_nat_numeral)
  show ?thesis
    using assms(2) v c0 unfolding c s2 h
    by (simp add: wifi_service_connect_with_credentials_def wifi_copy_cstring_def wf_step_defs driver_works_def
        Let_def WIFI_STA_SSID_SIZE_def WIFI_STA_PASSWORD_SIZE_def wifi_service_get_state_def
        wifi_service_get_active_slot_def)
qed

section \<open>After a restart\<close>

lemma usable_configured:
  assumes "slot_usable env s slot"
  shows "wifi_service_slot_is_configured env s slot"
  using assms unfolding slot_usable_def wifi_service_slot_is_configured_def nvs_load_slot_def
  by (auto split: sum.splits if_splits)

lemma first_to_try:
  assumes "slot_usable env s slot"
  shows "\<exists>rest. filter (slot_usable env s) (preferred_first (uint slot) (configured_slots env s)) = slot # rest"
proof -
  have "wifi_service_slot_index_valid slot"
    using assms load_slot_valid by (auto simp: slot_usable_def split: sum.splits)
  then have "unat slot < 3" by (simp add: wifi_service_slot_index_valid_def WIFI_SVC_SLOT_COUNT_def)
  then have "unat slot = 0 \<or> unat slot = 1 \<or> unat slot = 2" by linarith
  then have "slot = 0 \<or> slot = 1 \<or> slot = 2" by (auto simp: word_unat_eq_iff)
  then show ?thesis
    using assms usable_configured [OF assms] by (auto simp: configured_slots_def preferred_first_def)
qed

definition all_allocated :: wf_init_env where
  "all_allocated = \<lparr>wi_netif = True, wi_queue = True, wi_mutex = True, wi_timer = True\<rparr>"

definition restarted :: "wf_env \<Rightarrow> wf_state \<Rightarrow> wf_state" where
  "restarted env s = snd (wifi_service_init env all_allocated
     (wf_boot (wf_nvs_strings s) (wf_nvs_last_slot s) (wf_nvs_autoreconnect s)))"

lemma got_ip_stores:
  assumes "nvs_answers env" and "wf_current_slot s = uint slot" and "wifi_service_slot_index_valid slot"
  shows "wf_nvs_last_slot (handle_evt_got_ip env info s) = Some slot"
    and "wf_nvs_strings (handle_evt_got_ip env info s) = wf_nvs_strings s"
    and "wf_nvs_autoreconnect (handle_evt_got_ip env info s) = wf_nvs_autoreconnect s"
proof -
  have "slot_in_range (uint slot)" using assms(3) by simp
  then have r: "0 \<le> uint slot" "uint slot < int WIFI_SVC_SLOT_COUNT" "slot_in_range (uint slot)"
    by (simp_all add: slot_in_range_def)
  note d = handle_evt_got_ip_def Let_def nvs_save_last_successful_slot_def wf_step_defs init_sntp_def
    wifi_service_start_connectivity_test_def
  show "wf_nvs_last_slot (handle_evt_got_ip env info s) = Some slot"
    using assms(1) r by (simp add: d nvs_answers_def assms(2) split: dns_result.split)
  show "wf_nvs_strings (handle_evt_got_ip env info s) = wf_nvs_strings s"
    "wf_nvs_autoreconnect (handle_evt_got_ip env info s) = wf_nvs_autoreconnect s"
    by (simp_all add: d split: dns_result.split)
qed

definition before_start :: "wf_state \<Rightarrow> wf_state" where
  "before_start s = (wf_boot (wf_nvs_strings s) (wf_nvs_last_slot s) (wf_nvs_autoreconnect s))
     \<lparr>wf_sta_netif := True, wf_wifi_handler := True, wf_ip_handler := True,
      wf_trace := [Drv_Netif_Init, Drv_Event_Loop, Drv_Start], wf_cmd_queue := Some [],
      wf_scan_mutex := True, wf_reconnect_timer := Some False\<rparr>"

lemma restarted_started:
  assumes "driver_works env"
  shows "restarted env s = wifi_service_started env (before_start s)"
  using assms by (simp add: restarted_def wifi_service_init_def all_allocated_def wf_call_def wf_log_def
      driver_works_def before_start_def wf_boot_def Let_def)

lemma ready_fields:
  "wf_last_successful_slot (wifi_service_ready env (before_start s)) = nvs_load_last_successful_slot env s"
  "wf_autoreconnect (wifi_service_ready env (before_start s)) = nvs_load_autoreconnect env s"
  "wf_nvs_strings (wifi_service_ready env (before_start s)) = wf_nvs_strings s"
  "wf_link_state (wifi_service_ready env (before_start s)) = WIFI_SVC_STATE_IDLE"
  by (simp_all add: wifi_service_ready_def Let_def wf_step_defs before_start_def wf_boot_def
      nvs_load_last_successful_slot_def nvs_load_autoreconnect_def)

text \<open>The network that gave the last address is the first one tried after a restart: the slot is
  stored when the address arrives, and the next start-up, with automatic reconnection on, reports it as
  the preferred one and is connecting to it.\<close>

theorem wifi_restart_resumes:
  assumes "nvs_answers env" and "driver_works env"
    and "wf_current_slot s = uint slot" and "slot_usable env s slot"
    and "wf_nvs_autoreconnect s \<noteq> Some 0"
    and "s' = restarted env (wifi_service_process_cmd env (CMD_EVT_GOT_IP info) s)"
  shows "wifi_service_get_state s' = WIFI_SVC_STATE_CONNECTING \<and> wifi_service_get_active_slot s' = uint slot \<and>
    wifi_service_get_autoreconnect s'"
proof -
  let ?g = "handle_evt_got_ip env info s"
  have v: "wifi_service_slot_index_valid slot"
    using assms(4) load_slot_valid by (auto simp: slot_usable_def split: sum.splits)
  then have small: "uint slot < 3" "sint slot = uint slot"
  proof -
    show u: "uint slot < 3"
      using v slot_or_none_simps(3) [of slot] by (simp add: slot_in_range_def WIFI_SVC_SLOT_COUNT_def)
    have "- (2 ^ 7) \<le> uint slot" by (rule order_trans [OF _ uint_ge_0]) simp
    moreover have "uint slot < 2 ^ 7" using u by simp
    ultimately have "signed_take_bit 7 (uint slot) = uint slot" by (rule signed_take_bit_int_eq_self)
    then show "sint slot = uint slot" by (simp add: sint_uint)
  qed
  note g = got_ip_stores [OF assms(1,3) v, of info]
  define t where "t = wifi_service_ready env (before_start ?g)"
  have t: "s' = (if wf_autoreconnect t then snd (wifi_service_start_reconnect_sequence env t) else t)"
    "wf_last_successful_slot t = nvs_load_last_successful_slot env ?g"
    "wf_autoreconnect t = nvs_load_autoreconnect env ?g" "wf_nvs_strings t = wf_nvs_strings ?g"
    "wf_link_state t = WIFI_SVC_STATE_IDLE"
    using restarted_started [OF assms(2), of ?g] assms(6)
    by (simp_all add: t_def wifi_service_started_def Let_def ready_fields)
  have p: "wf_last_successful_slot t = uint slot" "wf_autoreconnect t"
    using small assms(1,5) g
    by (auto simp: t nvs_load_last_successful_slot_def nvs_load_autoreconnect_def nvs_answers_def
        WIFI_SVC_SLOT_COUNT_def split: option.split)
  have us: "slot_usable env t slot" using assms(4) slot_usable_strings [of t s env slot] t(4) g(2) by simp
  obtain rest where r: "filter (slot_usable env t) (preferred_first (uint slot) (configured_slots env t)) = slot # rest"
    using first_to_try [OF us] by blast
  have "slot_or_none (wf_last_successful_slot t)" using v by (simp add: p)
  from start_sequence_spec [OF assms(2) this _ r [folded p(1), symmetric]] t(5)
  have "under_way slot s' \<and> wf_autoreconnect s'" using p(2) by (auto simp: t(1))
  then show ?thesis
    by (simp add: under_way_def wifi_service_get_state_def wifi_service_get_active_slot_def
        wifi_service_get_autoreconnect_def)
qed

section \<open>Concrete instances\<close>

text \<open>A driver, NVS and resolver that answer, two configured slots of which the third worked last, and
  automatic reconnection off until the reconnection is asked for.\<close>

definition demo_wifi_env :: wf_env where
  "demo_wifi_env = \<lparr>we_hw = (\<lambda>_ _. ESP_OK), we_nvs = (\<lambda>_. ESP_OK), we_dns = Dns_In_Progress,
     we_scan = Inr [], we_mutex = True\<rparr>"

definition demo_wifi_strings :: "string \<Rightarrow> bytes option" where
  "demo_wifi_strings = [''ssid1'' \<mapsto> [104, 111], ''pass1'' \<mapsto> [], ''ssid3'' \<mapsto> [99], ''pass3'' \<mapsto> [112]]"

definition demo_wifi :: wf_state where
  "demo_wifi = foldl wf_step (wf_boot demo_wifi_strings (Some 2) (Some 0))
     [Op_Wf_Init demo_wifi_env all_allocated]"

lemma demo_wifi_answers [simp]: "driver_works demo_wifi_env" "nvs_answers demo_wifi_env"
  by (simp_all add: driver_works_def nvs_answers_def demo_wifi_env_def)

lemma demo_wifi_inv [simp]: "wf_inv demo_wifi"
  unfolding demo_wifi_def by (rule wifi.run_inv [OF boot_inv])

lemma demo_wifi_fields [simp]:
  "wf_initialised demo_wifi" "wf_link_state demo_wifi = WIFI_SVC_STATE_IDLE"
  "wf_last_successful_slot demo_wifi = 2" "wf_nvs_strings demo_wifi = demo_wifi_strings"
  "wf_cmd_queue demo_wifi = Some []" "wf_reconnect_timer demo_wifi = Some False"
  by (simp_all add: demo_wifi_def wifi_service_init_def demo_wifi_env_def all_allocated_def wf_boot_def
      wifi_service_started_def wifi_service_ready_def wf_step_defs Let_def nvs_load_autoreconnect_def
      nvs_load_last_successful_slot_def WIFI_SVC_SLOT_COUNT_def)

lemma demo_todo:
  "filter (slot_usable demo_wifi_env demo_wifi)
     (preferred_first (wf_last_successful_slot demo_wifi) (configured_slots demo_wifi_env demo_wifi)) = [2, 0]"
proof -
  let ?b = "wf_boot demo_wifi_strings None None"
  have b: "wf_nvs_strings demo_wifi = wf_nvs_strings ?b" by (simp add: wf_boot_def)
  have us: "slot_usable demo_wifi_env demo_wifi = slot_usable demo_wifi_env ?b"
    by (intro ext slot_usable_strings b)
  have cs: "configured_slots demo_wifi_env demo_wifi = configured_slots demo_wifi_env ?b"
    unfolding configured_slots_def wifi_service_slot_is_configured_def load_slot_strings [OF b] ..
  have "filter (slot_usable demo_wifi_env ?b) (preferred_first 2 (configured_slots demo_wifi_env ?b)) = [2, 0]"
    by code_simp
  then show ?thesis by (simp only: us cs demo_wifi_fields)
qed

theorem wifi_reconnect_tries_all_witness:
  "wifi_service_get_active_slot (lose_links demo_wifi_env [201]
     (wifi_service_process_cmd demo_wifi_env CMD_RECONNECT_NOW demo_wifi)) = 0"
  using wifi_reconnect_tries_all [OF demo_wifi_inv demo_wifi_fields(1) demo_wifi_answers(1) _
      demo_todo [symmetric], of "[201]"] by simp

lemma demo_usable:
  assumes "wf_nvs_strings s = demo_wifi_strings"
  shows "slot_usable demo_wifi_env s 0" and "slot_usable demo_wifi_env s 2"
proof -
  have "slot_usable demo_wifi_env (wf_boot demo_wifi_strings None None) 0 \<and>
      slot_usable demo_wifi_env (wf_boot demo_wifi_strings None None) 2" by code_simp
  then show "slot_usable demo_wifi_env s 0" "slot_usable demo_wifi_env s 2"
    using slot_usable_strings [of s "wf_boot demo_wifi_strings None None"] assms by (simp_all add: wf_boot_def)
qed

theorem wifi_user_disconnect_lasts_witness:
  "wf_reconnect_timer (process_msgs [(demo_wifi_env, CMD_EVT_DISCONNECTED WIFI_REASON_ASSOC_LEAVE),
       (demo_wifi_env, CMD_SCAN), (demo_wifi_env, CMD_DISCONNECT), (demo_wifi_env, CMD_EVT_SCAN_DONE)]
     (wifi_service_process_cmd demo_wifi_env CMD_DISCONNECT
        (demo_wifi\<lparr>wf_link_state := WIFI_SVC_STATE_CONNECTED\<rparr>))) \<noteq> Some True"
  using wifi_user_disconnect_lasts [of "demo_wifi\<lparr>wf_link_state := WIFI_SVC_STATE_CONNECTED\<rparr>"
    "[(demo_wifi_env, CMD_EVT_DISCONNECTED WIFI_REASON_ASSOC_LEAVE),
       (demo_wifi_env, CMD_SCAN), (demo_wifi_env, CMD_DISCONNECT), (demo_wifi_env, CMD_EVT_SCAN_DONE)]" demo_wifi_env]
  by (simp add: Let_def)

theorem wifi_handoff_witness:
  "wifi_service_get_active_slot (wifi_service_process_cmd demo_wifi_env
     (CMD_EVT_DISCONNECTED WIFI_REASON_ASSOC_LEAVE)
     (wifi_service_process_cmd demo_wifi_env (CMD_CONNECT_SLOT 0)
        (demo_wifi\<lparr>wf_link_state := WIFI_SVC_STATE_CONNECTED, wf_current_slot := 2\<rparr>))) = 0"
proof -
  let ?s = "demo_wifi\<lparr>wf_link_state := WIFI_SVC_STATE_CONNECTED, wf_current_slot := 2\<rparr>"
  have "slot_usable demo_wifi_env ?s 0" by (rule demo_usable) simp
  from wifi_handoff [OF demo_wifi_answers(1) this _ refl refl refl, of demo_wifi_env no_ip_info]
  show ?thesis by simp
qed

theorem wifi_slot_roundtrip_witness:
  "nvs_load_slot demo_wifi_env (snd (wifi_service_save_slot demo_wifi_env 1 (Some [65, 66]) (Some [67]) demo_wifi)) 1 33 65 =
     Inr ([65, 66], [67])"
  using wifi_slot_roundtrip [of demo_wifi_env 1 1 "[65, 66]" "[67]", OF _ _ _ _ _ _ refl]
  by (simp add: wifi_service_slot_index_valid_def WIFI_SVC_SLOT_COUNT_def cstr_def)

theorem wifi_connect_reaches_driver_witness:
  "wifi_service_get_state (wifi_service_process_once (\<lambda>_. demo_wifi_env)
     (snd (wifi_service_connect demo_wifi_env (Some [65, 66]) (Some [67]) demo_wifi))) = WIFI_SVC_STATE_CONNECTING"
  using wifi_connect_reaches_driver [of demo_wifi_env demo_wifi "[65, 66]" "[67]", OF _ _ _ _ _ _ _ refl refl]
  by (simp add: cstr_def)

theorem wifi_restart_resumes_witness:
  "wifi_service_get_active_slot (restarted demo_wifi_env
     (wifi_service_process_cmd demo_wifi_env (CMD_EVT_GOT_IP no_ip_info)
        (demo_wifi\<lparr>wf_current_slot := 2, wf_nvs_autoreconnect := Some 1\<rparr>))) = 2"
proof -
  let ?s = "demo_wifi\<lparr>wf_current_slot := 2, wf_nvs_autoreconnect := Some 1\<rparr>"
  have "slot_usable demo_wifi_env ?s 2" by (rule demo_usable) simp
  from wifi_restart_resumes [of demo_wifi_env ?s 2, OF _ _ _ this _ refl, of no_ip_info]
  show ?thesis by simp
qed

end
