(* ===== verification/Companion_Wifi.thy ===== *)
theory Companion_Wifi
  imports Companion_Trust Wifi_Props
begin

text \<open>
  The companion service over the Wi-Fi service: the calls the companion makes are answered by the
  model of \<^verbatim>\<open>main/wifi_service.c\<close>, and what it reports is what that service reports. Its saved slots
  are numbered from one in the companion's replies and from zero in the interface it calls.
\<close>

text \<open>A call of the companion, answered by the Wi-Fi service; \<open>None\<close> is a call into another service.\<close>

definition wifi_answer :: "wf_env \<Rightarrow> co_call \<Rightarrow> wf_state \<Rightarrow> (esp_err \<times> wf_state) option" where
  "wifi_answer wenv call ws =
     (case call of
        Wifi_Connect ssid password \<Rightarrow> Some (wifi_service_connect wenv (Some ssid) (Some password) ws)
      | Wifi_Scan \<Rightarrow> wifi_service_scan ws
      | Wifi_Connect_Slot slot \<Rightarrow> Some (wifi_service_connect_slot wenv slot ws)
      | Wifi_Disconnect \<Rightarrow> wifi_service_disconnect ws
      | Wifi_Set_Autoreconnect en \<Rightarrow> wifi_service_set_autoreconnect en ws
      | Wifi_Save_Slot slot ssid password \<Rightarrow> Some (wifi_service_save_slot wenv slot (Some ssid) (Some password) ws)
      | Wifi_Reconnect \<Rightarrow> wifi_service_reconnect ws
      | _ \<Rightarrow> None)"

definition after_calls :: "wf_env \<Rightarrow> co_call list \<Rightarrow> wf_state \<Rightarrow> wf_state" where
  "after_calls wenv calls ws = foldl (\<lambda>ws call. wf_answered (wifi_answer wenv call ws) ws) ws calls"

definition wifi_state_code :: "wifi_svc_state \<Rightarrow> u8" where
  "wifi_state_code st = (case st of
      WIFI_SVC_STATE_IDLE \<Rightarrow> 0 | WIFI_SVC_STATE_SCANNING \<Rightarrow> 1 | WIFI_SVC_STATE_CONNECTING \<Rightarrow> 2
    | WIFI_SVC_STATE_CONNECTED \<Rightarrow> 3 | WIFI_SVC_STATE_DISCONNECTED \<Rightarrow> 4)"

text \<open>The environment of the companion in which the Wi-Fi service is the model.\<close>

definition over_wifi :: "wf_env \<Rightarrow> wf_state \<Rightarrow> co_env \<Rightarrow> co_env" where
  "over_wifi wenv ws env = env
     \<lparr>ev_call := (\<lambda>call. case wifi_answer wenv call ws of Some (err, _) \<Rightarrow> err | None \<Rightarrow> ev_call env call),
      ev_wifi_state := wifi_state_code (wifi_service_get_state ws),
      ev_wifi_internet := wifi_service_has_internet ws,
      ev_wifi_autoreconnect := wifi_service_get_autoreconnect ws,
      ev_wifi_active_slot := wifi_service_get_active_slot ws,
      ev_wifi_preferred_slot := wifi_service_get_preferred_slot ws,
      ev_wifi_ip := (case wifi_service_get_ip_info True ws of Inl _ \<Rightarrow> None | Inr info \<Rightarrow> Some (ii_ip info)),
      ev_wifi_slots := wifi_service_get_saved_slots wenv (Some WIFI_SVC_SLOT_COUNT) ws\<rparr>"

text \<open>The calls the companion makes keep the Wi-Fi service's invariant.\<close>

lemma wifi_answer_inv:
  assumes "wf_inv ws"
  shows "wf_inv (wf_answered (wifi_answer wenv call ws) ws)"
proof -
  have "wf_inv (snd (wifi_service_connect wenv ssid pw ws))"
    "wf_inv (snd (wifi_service_connect_slot wenv slot ws))"
    "wf_inv (snd (wifi_service_save_slot wenv slot ssid pw ws))" for ssid pw slot
    using assms by (simp_all add: connect_request_inv connect_slot_request_inv save_slot_inv)
  then show ?thesis
    using assms wf_request_inv [OF assms]
    by (cases call) (simp_all add: wifi_answer_def wf_answered_def case_prod_beta wifi_service_scan_def
        wifi_service_disconnect_def wifi_service_set_autoreconnect_def wifi_service_reconnect_def)
qed

interpretation companion_wifi: event_machine "\<lambda>ws (wenv, call). wf_answered (wifi_answer wenv call ws) ws" wf_inv
  by unfold_locales (auto simp: wifi_answer_inv split: prod.split)

text \<open>A network the phone saves. Slots are numbered from one in the list the phone reads, and a slot
  from one to three is accepted. What is answered with success has stored the network in the slot
  listed one further: saving slot 1 changes the slot listed as 2 and no other, saving slot 2 the one
  listed as 3. Saving slot 3 is answered with an error and changes nothing, and no request changes
  the slot listed as 1.\<close>

theorem companion_save_slot_stores_next:
  assumes "nvs_answers wenv" and "n \<in> {1, 2, 3}" and "cstr ssid = ssid" and "ssid \<noteq> []" and "length ssid \<le> 32"
    and "companion_api_tlv_u32 payload COMPANION_API_TLV_WIFI_SLOT = Some (of_nat n)"
    and "companion_api_tlv_string payload COMPANION_API_TLV_WIFI_SSID 33 = Some ssid"
    and "s' = snd (companion_api_handle_wifi_save_slot (over_wifi wenv ws env) rid payload s)"
    and "ws' = after_calls wenv (drop (length (co_calls s)) (co_calls s')) ws"
    and "old = map (saved_slot_info wenv ws) [0..<WIFI_SVC_SLOT_COUNT]"
  shows "wifi_service_get_saved_slots wenv (Some WIFI_SVC_SLOT_COUNT) ws' =
      Inr (if n = 3 then old else old[n := (old ! n)\<lparr>ws_configured := True, ws_ssid := ssid\<rparr>]) \<and>
    (n = 3 \<longrightarrow> s' = snd (companion_api_send_error (over_wifi wenv ws env) COMPANION_API_OP_WIFI_SAVE_SLOT rid
      COMPANION_API_ERR_INVALID_ARG (s\<lparr>co_calls := co_calls s'\<rparr>)))"
proof -
  let ?env = "over_wifi wenv ws env"
  define password where "password = (case companion_api_tlv_string payload COMPANION_API_TLV_WIFI_PASSWORD 65 of
                  None \<Rightarrow> [] | Some p \<Rightarrow> p)"
  have pw: "cstr password = password" "length password \<le> 64"
  proof -
    show "cstr password = password"
      by (auto simp: password_def companion_api_tlv_string_def cstr_id split: option.split)
    show "length password \<le> 64"
      using cstr_length [of "take 64 _"] by (auto simp: password_def companion_api_tlv_string_def
          intro: order_trans [OF cstr_length] split: option.split)
  qed
  define call where "call = Wifi_Save_Slot (of_nat n) ssid password"
  define saved where "saved = wifi_service_save_slot wenv (of_nat n) (Some ssid) (Some password) ws"
  have n: "unat (of_nat n :: u32) = n" "(ucast (of_nat n :: u32) :: u8) = of_nat n" "n \<noteq> 0"
    "unat (of_nat n :: u8) = n"
    using assms(2) by auto
  have bounds: "\<not> (of_nat n :: u32) < 1" "\<not> n > WIFI_SVC_SLOT_COUNT"
    using assms(2) by (auto simp: WIFI_SVC_SLOT_COUNT_def)
  have h: "companion_api_handle_wifi_save_slot ?env rid payload s =
      finish ?env COMPANION_API_OP_WIFI_SAVE_SLOT rid (\<lambda>_. status_ok) (svc_call ?env call s)"
    using assms(6,7) n bounds
    by (simp add: companion_api_handle_wifi_save_slot_def call_def Let_def flip: password_def)
  have ans: "ev_call ?env call = fst saved"
    by (simp add: over_wifi_def call_def wifi_answer_def saved_def case_prod_beta)
  have calls: "co_calls s' = co_calls s @ [call]"
    unfolding assms(8) h by (simp add: finish_def svc_call_def Let_def send_defs)
  have ws': "ws' = snd saved"
    by (simp add: assms(9) calls after_calls_def call_def wifi_answer_def wf_answered_def saved_def case_prod_beta)
  show ?thesis
  proof (cases "n = 3")
    case True
    have "saved = (ESP_ERR_INVALID_ARG, ws)"
      using True by (simp add: saved_def wifi_service_save_slot_def wifi_service_slot_index_valid_def
          WIFI_SVC_SLOT_COUNT_def)
    then show ?thesis
      using True ans ws' calls
      by (simp add: wifi_service_get_saved_slots_def assms(8,10) h finish_def svc_call_def
          companion_api_error_from_esp_def)
  next
    case False
    then have v: "wifi_service_slot_index_valid (of_nat n)"
      using assms(2) n by (auto simp: wifi_service_slot_index_valid_def WIFI_SVC_SLOT_COUNT_def)
    have "saved_slot_info wenv ws' i =
        (if i = n then (saved_slot_info wenv ws i)\<lparr>ws_configured := True, ws_ssid := ssid\<rparr>
         else saved_slot_info wenv ws i)" if "i < WIFI_SVC_SLOT_COUNT" for i
      using saved_info_after_save [OF assms(1) v that, of ssid password ws' ws] assms(3-5) pw n
      by (simp add: ws' saved_def)
    then have "map (saved_slot_info wenv ws') [0..<WIFI_SVC_SLOT_COUNT] =
        old[n := (old ! n)\<lparr>ws_configured := True, ws_ssid := ssid\<rparr>]"
      using assms(2,10) False by (auto simp: list_eq_iff_nth_eq nth_list_update WIFI_SVC_SLOT_COUNT_def)
    then show ?thesis using False by (simp add: wifi_service_get_saved_slots_def)
  qed
qed

definition demo_save_slot :: bytes where
  "demo_save_slot = [8, 5, 4, 0, 1, 0, 0, 0, 6, 5, 2, 0, 65, 66]"

theorem companion_save_slot_stores_next_witness:
  "(case wifi_service_get_saved_slots demo_wifi_env (Some WIFI_SVC_SLOT_COUNT)
      (after_calls demo_wifi_env (drop (length (co_calls demo_device))
         (co_calls (snd (companion_api_handle_wifi_save_slot (over_wifi demo_wifi_env demo_wifi (demo_link []))
            7 demo_save_slot demo_device)))) demo_wifi) of
      Inl _ \<Rightarrow> [] | Inr slots \<Rightarrow> ws_ssid (slots ! 1)) = [65, 66]"
proof -
  have "companion_api_tlv_u32 demo_save_slot COMPANION_API_TLV_WIFI_SLOT = Some (of_nat 1)"
    "companion_api_tlv_string demo_save_slot COMPANION_API_TLV_WIFI_SSID 33 = Some [65, 66]"
    by code_simp+
  from companion_save_slot_stores_next [OF demo_wifi_answers(2) _ _ _ _ this refl refl refl,
      where ws = demo_wifi and env = "demo_link []" and rid = 7 and s = demo_device]
  show ?thesis by (simp add: cstr_def WIFI_SVC_SLOT_COUNT_def)
qed

end
