(* ===== verification/Lastfm_Frame.thy ===== *)
theory Lastfm_Frame
  imports Lastfm
begin

text \<open>
  What the operations of the Last.fm service leave alone. Requests to NVS change only the stored
  values; and a fact about the service that no single write other than to its scrobbles, its clock
  and its requests can change is kept by every operation but the task's. The latter is a locale,
  for the facts about the rate of requests and about the order of scrobbles.
\<close>

section \<open>Requests to NVS touch nothing else\<close>

definition lf_rest :: "lf_state \<Rightarrow> lf_state" where
  "lf_rest s = s\<lparr>lf_nvs_strings := \<lambda>_. None, lf_nvs_i32 := \<lambda>_. None\<rparr>"

definition nvs_only :: "lf_state \<Rightarrow> lf_state \<Rightarrow> bool" where
  "nvs_only s s' \<longleftrightarrow> lf_rest s' = lf_rest s"

lemma nvs_only_refl [simp]: "nvs_only s s"
  by (simp add: nvs_only_def)

lemma nvs_only_trans: "nvs_only s t \<Longrightarrow> nvs_only t u \<Longrightarrow> nvs_only s u"
  by (simp add: nvs_only_def)

lemma nvs_only_eq:
  assumes "nvs_only s s'"
  shows "s' = s\<lparr>lf_nvs_strings := lf_nvs_strings s', lf_nvs_i32 := lf_nvs_i32 s'\<rparr>"
proof -
  have "s' = (lf_rest s')\<lparr>lf_nvs_strings := lf_nvs_strings s', lf_nvs_i32 := lf_nvs_i32 s'\<rparr>"
    by (simp add: lf_rest_def)
  also have "\<dots> = (lf_rest s)\<lparr>lf_nvs_strings := lf_nvs_strings s', lf_nvs_i32 := lf_nvs_i32 s'\<rparr>"
    using assms by (simp add: nvs_only_def)
  finally show ?thesis
    by (simp add: lf_rest_def)
qed

lemma nvs_only_set: "nvs_only s (snd (nvs_set_str ne key value s))" "nvs_only s (snd (nvs_set_i32 ne key number s))"
  "nvs_only s (snd (lastfm_service_nvs_erase_key_if_present ne key s))"
  by (simp_all add: nvs_set_str_def nvs_set_i32_def lastfm_service_nvs_erase_key_if_present_def nvs_only_def
      lf_rest_def Let_def)

lemma nvs_only_commit: "snd (then_commit ne r) = snd r"
  by (simp add: then_commit_def)

lemma nvs_only_get:
  "nvs_only s (snd (nvs_get_str_or_init ne key n value s))" "nvs_only s (snd (nvs_get_i32_or_init ne key number s))"
  using nvs_only_set [of s ne key]
  by (simp_all add: nvs_get_str_or_init_def nvs_get_i32_or_init_def Let_def case_prod_beta nvs_only_commit)

lemma nvs_only_and_then:
  assumes "nvs_only s (snd r)" and "\<And>v t. nvs_only t (snd (f v t))"
  shows "nvs_only s (snd (and_then r f))"
  using assms(1) assms(2) [THEN nvs_only_trans [rotated]] by (cases r) (auto simp: and_then_def split: sum.split)

lemma nvs_only_load: "nvs_only s (snd (load_nvs_state ne s))"
  unfolding load_nvs_state_def
  by (intro nvs_only_and_then nvs_only_get) simp

lemma nvs_only_request: "nvs_only s (snd (lastfm_service_process_nvs_request ne request s))"
proof (cases request)
  case LASTFM_NVS_CMD_LOAD_STATE
  then show ?thesis
    using nvs_only_load [of s ne]
    by (auto simp: lastfm_service_process_nvs_request_def split: prod.split sum.split)
next
  case (LASTFM_NVS_CMD_STORE_SESSION session username)
  then show ?thesis
    using nvs_only_set(1) [of s ne "''sk''" session]
      nvs_only_set(1) [of "snd (nvs_set_str ne ''sk'' session s)" ne "''username''" username]
    by (auto simp: lastfm_service_process_nvs_request_def Let_def case_prod_beta nvs_only_commit
        intro: nvs_only_trans)
next
  case LASTFM_NVS_CMD_CLEAR_SESSION
  define s1 where "s1 = snd (lastfm_service_nvs_erase_key_if_present ne ''sk'' s)"
  define s2 where "s2 = snd (lastfm_service_nvs_erase_key_if_present ne ''username'' s1)"
  define s3 where "s3 = snd (lastfm_service_nvs_erase_key_if_present ne ''token'' s2)"
  have "nvs_only s s1" "nvs_only s1 s2" "nvs_only s2 s3"
    by (simp_all add: s1_def s2_def s3_def nvs_only_set)
  then have "nvs_only s s1" "nvs_only s s2" "nvs_only s s3"
    by (blast intro: nvs_only_trans)+
  with LASTFM_NVS_CMD_CLEAR_SESSION show ?thesis
    by (simp add: lastfm_service_process_nvs_request_def Let_def case_prod_beta nvs_only_commit
        s3_def s2_def s1_def)
qed (simp_all add: lastfm_service_process_nvs_request_def Let_def case_prod_beta nvs_only_commit nvs_only_set)

lemma nvs_only_dispatch:
  "nvs_only s (snd (lastfm_service_dispatch_nvs_request ne request s))" "nvs_only s (snd (dispatch_store ne request s))"
  by (simp_all add: dispatch_store_def lastfm_service_dispatch_nvs_request_def nvs_only_request case_prod_beta)

lemma nvs_only_store:
  "nvs_only s (snd (lastfm_service_store_token_in_nvs ne token s))"
  "nvs_only s (snd (lastfm_service_store_session_in_nvs ne session username s))"
  "nvs_only s (snd (lastfm_service_clear_session_in_nvs ne s))"
  "nvs_only s (snd (lastfm_service_store_enabled_flag ne key enabled s))"
  by (simp_all add: lastfm_service_store_token_in_nvs_def lastfm_service_store_session_in_nvs_def
      lastfm_service_clear_session_in_nvs_def lastfm_service_store_enabled_flag_def nvs_only_dispatch)

lemmas lf_timer_defs = lf_stop_now_playing_timer_def lf_stop_pause_clear_timer_def
  lf_start_now_playing_timer_def lf_start_pause_clear_timer_def

section \<open>What most operations keep\<close>

fun lf_is_turn :: "lf_op \<Rightarrow> bool" where
  "lf_is_turn (Lo_Turn _ _) = True"
| "lf_is_turn _ = False"

locale lf_observer =
  fixes P :: "lf_state \<Rightarrow> bool"
  assumes keeps [simp]:
      "P (t\<lparr>lf_busy := a\<rparr>) = P t" "P (t\<lparr>lf_has_auth := a\<rparr>) = P t"
      "P (t\<lparr>lf_has_token := a\<rparr>) = P t" "P (t\<lparr>lf_has_session := a\<rparr>) = P t"
      "P (t\<lparr>lf_scrobbling_enabled := a\<rparr>) = P t" "P (t\<lparr>lf_now_playing_enabled := a\<rparr>) = P t"
      "P (t\<lparr>lf_successful_scrobbles := n\<rparr>) = P t" "P (t\<lparr>lf_failed_scrobbles := n\<rparr>) = P t"
      "P (t\<lparr>lf_members := m\<rparr>) = P t" "P (t\<lparr>lf_scrobble_mutex := a\<rparr>) = P t"
      "P (t\<lparr>lf_nvs_queue := a\<rparr>) = P t" "P (t\<lparr>lf_nvs_task := a\<rparr>) = P t"
      "P (t\<lparr>lf_set_overflow := a\<rparr>) = P t" "P (t\<lparr>lf_task_stack := a\<rparr>) = P t"
      "P (t\<lparr>lf_listening := a\<rparr>) = P t" "P (t\<lparr>lf_nvs_strings := f\<rparr>) = P t"
      "P (t\<lparr>lf_nvs_i32 := g\<rparr>) = P t" "P (t\<lparr>lf_auth_url := x\<rparr>) = P t"
      "P (t\<lparr>lf_token := x\<rparr>) = P t" "P (t\<lparr>lf_session_key := x\<rparr>) = P t"
      "P (t\<lparr>lf_username := x\<rparr>) = P t" "P (t\<lparr>lf_cmd_queue := c\<rparr>) = P t"
      "P (t\<lparr>lf_queue_set := es\<rparr>) = P t" "P (t\<lparr>lf_now_playing_timer := b\<rparr>) = P t"
      "P (t\<lparr>lf_pause_clear_timer := b\<rparr>) = P t" "P (t\<lparr>lf_now_playing_track := r\<rparr>) = P t"
      "P (t\<lparr>lf_now_playing_track_valid := a\<rparr>) = P t" "P (t\<lparr>lf_now_playing_active := a\<rparr>) = P t"
    and later [simp]: "P t \<Longrightarrow> P (t\<lparr>lf_clock := lf_clock t + k\<rparr>)"
    and emptied [simp]: "P t \<Longrightarrow> P (t\<lparr>lf_scrobble_queue := None\<rparr>)" "P t \<Longrightarrow> P (t\<lparr>lf_scrobble_queue := Some []\<rparr>)"
    and sent [simp]: "P t \<Longrightarrow> P (snd (lastfm_service_send_scrobble locked checksum index t))"
    and asked [simp]: "P t \<Longrightarrow> request = Lf_Get_Token u \<or> request = Lf_Get_Mobile_Session u v w \<Longrightarrow>
      P (t\<lparr>lf_requests := lf_requests t @ [(lf_clock t, request)]\<rparr>)"
begin

lemma nvs_only_keeps: "nvs_only t t' \<Longrightarrow> P t \<Longrightarrow> P t'"
  by (erule ssubst [OF nvs_only_eq]) simp

lemma notify [simp]: "P t \<Longrightarrow> P (lf_notify m t)"
  by (simp add: lf_notify_def split: option.split)

lemma cmd_send [simp]: "P t \<Longrightarrow> P (snd (cmd_queue_send payload t))"
  by (simp add: cmd_queue_send_def split: option.split)

lemma receive_command [simp]: "P t \<Longrightarrow> P (snd (receive_command t))"
  by (simp add: receive_command_def split: option.split list.split)

lemma enqueue [simp]: "P t \<Longrightarrow> P (snd (lastfm_service_enqueue_command payload t))"
  by (simp add: lastfm_service_enqueue_command_def case_prod_beta)

lemma account [simp]:
  "P t \<Longrightarrow> P (snd (lastfm_service_set_auth_url ne url t))"
  "P t \<Longrightarrow> P (snd (lastfm_service_logout ne t))"
  "P t \<Longrightarrow> P (snd (lastfm_service_load_persisted_state ne t))"
  "P t \<Longrightarrow> P (snd (lastfm_service_set_scrobbling_enabled ne enabled t))"
  using nvs_only_dispatch(1) [of t ne LASTFM_NVS_CMD_LOAD_STATE, THEN nvs_only_keeps]
  by (auto simp: lastfm_service_set_auth_url_def lastfm_service_logout_def lastfm_service_load_persisted_state_def
      lastfm_service_set_scrobbling_enabled_def Let_def case_prod_beta nvs_only_keeps [OF nvs_only_dispatch(2)]
      nvs_only_keeps [OF nvs_only_store(3)] nvs_only_keeps [OF nvs_only_store(4)]
      split: sum.split prod.split option.split)

lemma forget [simp]: "P t \<Longrightarrow> P (lf_forget_now_playing t)"
  by (simp add: lf_forget_now_playing_def lastfm_service_reset_now_playing_state_def lf_timer_defs)

lemma set_now_playing [simp]: "P t \<Longrightarrow> P (snd (lastfm_service_set_now_playing_enabled ne enabled t))"
  by (simp add: lastfm_service_set_now_playing_enabled_def Let_def case_prod_beta
      nvs_only_keeps [OF nvs_only_store(4)])

lemma player_event [simp]: "P t \<Longrightarrow> P (lastfm_service_on_player_event event t)"
  by (simp add: lastfm_service_on_player_event_def lastfm_service_handle_track_started_event_def
      lastfm_service_handle_track_paused_event_def lastfm_service_handle_track_finished_event_def
      lastfm_service_reset_now_playing_state_def lf_timer_defs Let_def
      split: player_service_event.split option.split)

lemma quick: "P t \<Longrightarrow> P (lf_quick_step t q)"
  by (cases q) (simp_all add: lf_timer_defs lastfm_service_now_playing_timer_cb_def
      lastfm_service_pause_clear_timer_cb_def lastfm_service_on_listen_count_incremented_def
      lastfm_service_queue_request_token_def lastfm_service_queue_request_auth_def split: option.split)

lemma others [simp]: "P t \<Longrightarrow> P (lf_others ops t)"
  unfolding lf_others_def by (induction ops arbitrary: t) (simp_all add: quick)

lemma not_busy [simp]: "P (snd r) \<Longrightarrow> P (snd (lf_not_busy r))"
  by (simp add: lf_not_busy_def)

lemma perform_token [simp]:
  "P t \<Longrightarrow> P (lf_perform env (Lf_Get_Token u) t)" "P t \<Longrightarrow> P (lf_perform env (Lf_Get_Mobile_Session u v w) t)"
  by (simp_all add: lf_perform_def)

lemma request_token [simp]: "P t \<Longrightarrow> P (snd (lastfm_service_request_token env t))"
  unfolding lastfm_service_request_token_def
  by (rule not_busy)
    (simp add: Let_def case_prod_beta nvs_only_keeps [OF nvs_only_store(1)] split: option.split)

lemma request_auth [simp]: "P t \<Longrightarrow> P (snd (lastfm_service_request_auth env username password t))"
  unfolding lastfm_service_request_auth_def
  by (rule not_busy)
    (simp add: Let_def case_prod_beta nvs_only_keeps [OF nvs_only_store(2)] split: option.split)

lemma init_timers [simp]: "P t \<Longrightarrow> P (snd (lastfm_service_init_timers env t))"
  by (simp add: lastfm_service_init_timers_def Let_def)

lemma nvs_proxy [simp]:
  "P t \<Longrightarrow> P (lastfm_service_cleanup_nvs_proxy t)"
  "P t \<Longrightarrow> P (snd (lastfm_service_init_nvs_proxy env t))"
  by (simp_all add: lastfm_service_cleanup_nvs_proxy_def lastfm_service_init_nvs_proxy_def Let_def)

lemma init [simp]: "P t \<Longrightarrow> P (snd (lastfm_service_init env t))"
  by (simp add: lastfm_service_init_def Let_def case_prod_beta)

lemma cleanup [simp]: "P t \<Longrightarrow> P (lastfm_service_cleanup_queues t)"
  by (simp add: lastfm_service_cleanup_queues_def)

lemma add_to_set [simp]: "P t \<Longrightarrow> P (snd (lf_add_to_set m t))"
  by (simp add: lf_add_to_set_def Let_def)

lemma task_start [simp]: "P t \<Longrightarrow> P (snd (lastfm_service_task_start env t))"
  by (simp add: lastfm_service_task_start_def Let_def case_prod_beta)

lemma step_but_turn: "P t \<Longrightarrow> \<not> lf_is_turn operation \<Longrightarrow> P (lf_step t operation)"
  by (cases operation) (simp_all add: quick)

end

end
