(* ===== verification/Lastfm_Props.thy ===== *)
theory Lastfm_Props
  imports Lastfm_Frame
begin

text \<open>
  What the Last.fm service promises: its invariant, the rate of its requests, the order of the
  scrobbles, the account that survives a restart, and the address and answers it accepts.
\<close>

section \<open>The invariant\<close>

definition c_field :: "bytes \<Rightarrow> bool" where
  "c_field text \<longleftrightarrow> length text \<le> 127 \<and> 0 \<notin> set text"

lemma c_field_Nil [simp]: "c_field []"
  by (simp add: c_field_def)

definition lf_text_inv :: "lf_state \<Rightarrow> bool" where
  "lf_text_inv s \<longleftrightarrow> c_field (lf_auth_url s) \<and> c_field (lf_token s) \<and> c_field (lf_session_key s) \<and>
     c_field (lf_username s)"

definition lf_queues_inv :: "lf_state \<Rightarrow> bool" where
  "lf_queues_inv s \<longleftrightarrow>
     (case lf_cmd_queue s of None \<Rightarrow> True | Some q \<Rightarrow> length q \<le> LASTFM_SERVICE_CMD_QUEUE_LENGTH) \<and>
     (case lf_scrobble_queue s of None \<Rightarrow> True | Some q \<Rightarrow> length q \<le> LASTFM_SERVICE_SCROBBLE_QUEUE_LENGTH) \<and>
     (case lf_queue_set s of None \<Rightarrow> True
      | Some entries \<Rightarrow> length entries \<le> LASTFM_SERVICE_CMD_QUEUE_LENGTH + LASTFM_SERVICE_SCROBBLE_QUEUE_LENGTH)"

definition lf_playing_inv :: "lf_state \<Rightarrow> bool" where
  "lf_playing_inv s \<longleftrightarrow> (lf_now_playing_active s \<longrightarrow> lf_now_playing_track_valid s) \<and>
     (\<not> lf_now_playing_track_valid s \<longrightarrow> lf_now_playing_timer s \<noteq> Some True \<and> lf_pause_clear_timer s \<noteq> Some True)"

definition lf_ring_inv :: "lf_state \<Rightarrow> bool" where
  "lf_ring_inv s \<longleftrightarrow> length (lf_request_ticks s) = LASTFM_SERVICE_SCROBBLE_RATE_LIMIT_REQUESTS \<and>
     lf_request_next_index s < LASTFM_SERVICE_SCROBBLE_RATE_LIMIT_REQUESTS \<and>
     lf_request_count s \<le> LASTFM_SERVICE_SCROBBLE_RATE_LIMIT_REQUESTS"

definition lf_inv :: "lf_state \<Rightarrow> bool" where
  "lf_inv s \<longleftrightarrow> lf_text_inv s \<and> lf_queues_inv s \<and> lf_playing_inv s \<and> lf_ring_inv s"

lemmas lf_inv_parts = lf_text_inv_def lf_queues_inv_def lf_playing_inv_def lf_ring_inv_def

lemma lf_inv_frame:
  assumes "lf_inv s"
    and "lf_auth_url s' = lf_auth_url s" "lf_token s' = lf_token s" "lf_session_key s' = lf_session_key s"
      "lf_username s' = lf_username s"
    and "lf_cmd_queue s' = lf_cmd_queue s" "lf_scrobble_queue s' = lf_scrobble_queue s" "lf_queue_set s' = lf_queue_set s"
    and "lf_now_playing_active s' = lf_now_playing_active s"
      "lf_now_playing_track_valid s' = lf_now_playing_track_valid s"
      "lf_now_playing_timer s' = lf_now_playing_timer s" "lf_pause_clear_timer s' = lf_pause_clear_timer s"
    and "lf_request_ticks s' = lf_request_ticks s" "lf_request_next_index s' = lf_request_next_index s"
      "lf_request_count s' = lf_request_count s"
  shows "lf_inv s'"
  using assms unfolding lf_inv_def lf_inv_parts by (simp only:) simp

lemma nvs_only_inv:
  assumes "nvs_only s s'" and "lf_inv s"
  shows "lf_inv s'"
  by (rule lf_inv_frame [OF assms(2)]; subst nvs_only_eq [OF assms(1)]; simp)

lemma lf_inv_updates [simp]:
  "lf_inv (s\<lparr>lf_busy := a\<rparr>) = lf_inv s" "lf_inv (s\<lparr>lf_has_auth := a\<rparr>) = lf_inv s"
  "lf_inv (s\<lparr>lf_has_token := a\<rparr>) = lf_inv s" "lf_inv (s\<lparr>lf_has_session := a\<rparr>) = lf_inv s"
  "lf_inv (s\<lparr>lf_scrobbling_enabled := a\<rparr>) = lf_inv s" "lf_inv (s\<lparr>lf_now_playing_enabled := a\<rparr>) = lf_inv s"
  "lf_inv (s\<lparr>lf_successful_scrobbles := n\<rparr>) = lf_inv s" "lf_inv (s\<lparr>lf_failed_scrobbles := n\<rparr>) = lf_inv s"
  "lf_inv (s\<lparr>lf_members := m\<rparr>) = lf_inv s" "lf_inv (s\<lparr>lf_scrobble_mutex := a\<rparr>) = lf_inv s"
  "lf_inv (s\<lparr>lf_nvs_queue := a\<rparr>) = lf_inv s" "lf_inv (s\<lparr>lf_nvs_task := a\<rparr>) = lf_inv s"
  "lf_inv (s\<lparr>lf_clock := k\<rparr>) = lf_inv s" "lf_inv (s\<lparr>lf_requests := rs\<rparr>) = lf_inv s"
  "lf_inv (s\<lparr>lf_set_overflow := a\<rparr>) = lf_inv s" "lf_inv (s\<lparr>lf_task_stack := a\<rparr>) = lf_inv s"
  "lf_inv (s\<lparr>lf_listening := a\<rparr>) = lf_inv s" "lf_inv (s\<lparr>lf_nvs_strings := f\<rparr>) = lf_inv s"
  "lf_inv (s\<lparr>lf_nvs_i32 := g\<rparr>) = lf_inv s"
  "lf_inv (lf_note_sent p s) = lf_inv s" "lf_inv (lf_note_handled p s) = lf_inv s"
  by (simp_all add: lf_inv_def lf_inv_parts lf_note_sent_def lf_note_handled_def)

lemma lf_inv_text [simp]:
  "lf_inv s \<Longrightarrow> c_field text \<Longrightarrow> lf_inv (s\<lparr>lf_auth_url := text\<rparr>)"
  "lf_inv s \<Longrightarrow> c_field text \<Longrightarrow> lf_inv (s\<lparr>lf_token := text\<rparr>)"
  "lf_inv s \<Longrightarrow> c_field text \<Longrightarrow> lf_inv (s\<lparr>lf_session_key := text\<rparr>)"
  "lf_inv s \<Longrightarrow> c_field text \<Longrightarrow> lf_inv (s\<lparr>lf_username := text\<rparr>)"
  by (simp_all add: lf_inv_def lf_inv_parts)

lemma c_field_strncpy [simp]: "n \<le> 127 \<Longrightarrow> c_field (c_strncpy n src)"
  unfolding c_field_def c_strncpy_def using cstr_no_nul [of src] by (auto dest: in_set_takeD)

lemma lf_text_bounds [simp]:
  "LASTFM_SERVICE_BASE_URL_MAX_LEN \<le> 127" "LASTFM_SERVICE_USERNAME_MAX_LEN \<le> 127"
  "LASTFM_SERVICE_TOKEN_MAX_LEN \<le> 127" "LASTFM_SERVICE_SESSION_KEY_MAX_LEN \<le> 127"
  by (simp_all add: LASTFM_SERVICE_BASE_URL_MAX_LEN_def LASTFM_SERVICE_USERNAME_MAX_LEN_def
      LASTFM_SERVICE_TOKEN_MAX_LEN_def LASTFM_SERVICE_SESSION_KEY_MAX_LEN_def)

lemma c_field_copy [simp]: "n \<le> 127 \<Longrightarrow> c_field (lastfm_service_copy_string (Suc n) text)"
  by (simp add: lastfm_service_copy_string_def split: option.split)

section \<open>Every operation keeps the invariant\<close>

lemma lf_inv_notify: "lf_inv s \<Longrightarrow> lf_inv (lf_notify m s)"
  by (auto simp: lf_notify_def lf_inv_def lf_inv_parts split: option.splits)

lemma lf_inv_cmd_send: "lf_inv s \<Longrightarrow> lf_inv (snd (cmd_queue_send payload s))"
  by (auto simp: cmd_queue_send_def split: option.split intro!: lf_inv_notify)
    (auto simp: lf_inv_def lf_inv_parts)

lemma lf_inv_scrobble_send: "lf_inv s \<Longrightarrow> lf_inv (snd (scrobble_queue_send to_front payload s))"
  by (auto simp: scrobble_queue_send_def split: option.split intro!: lf_inv_notify)
    (auto simp: lf_inv_def lf_inv_parts)

lemma lf_inv_scrobble_receive: "lf_inv s \<Longrightarrow> lf_inv (snd (scrobble_queue_receive s))"
  by (auto simp: scrobble_queue_receive_def lf_inv_def lf_inv_parts split: option.split list.split)

lemma lf_inv_receive_command: "lf_inv s \<Longrightarrow> lf_inv (snd (receive_command s))"
  by (auto simp: receive_command_def lf_inv_def lf_inv_parts split: option.split list.split)

lemma lf_inv_enqueue: "lf_inv s \<Longrightarrow> lf_inv (snd (lastfm_service_enqueue_command payload s))"
  by (simp add: lastfm_service_enqueue_command_def case_prod_beta lf_inv_cmd_send)

lemma lf_inv_send_scrobble: "lf_inv s \<Longrightarrow> lf_inv (snd (lastfm_service_send_scrobble locked checksum index s))"
  by (auto simp: lastfm_service_send_scrobble_def Let_def case_prod_beta
      intro!: lf_inv_scrobble_send lf_inv_scrobble_receive split: option.split)

lemma lf_inv_receive_scrobble: "lf_inv s \<Longrightarrow> lf_inv (snd (lastfm_service_receive_scrobble locked s))"
  by (auto simp: lastfm_service_receive_scrobble_def case_prod_beta
      intro!: lf_inv_scrobble_receive split: option.split)

lemma lf_inv_requeue: "lf_inv s \<Longrightarrow> lf_inv (snd (lastfm_service_requeue_scrobble locked payload s))"
  by (auto simp: lastfm_service_requeue_scrobble_def lf_delay_ms_def Let_def case_prod_beta
      intro!: lf_inv_scrobble_send lf_inv_scrobble_receive split: option.split)

lemma lf_inv_load: "lf_inv s \<Longrightarrow> lf_inv (snd (lastfm_service_load_persisted_state ne s))"
  using nvs_only_inv [OF nvs_only_dispatch(1) [of s ne LASTFM_NVS_CMD_LOAD_STATE]]
  by (auto simp: lastfm_service_load_persisted_state_def Let_def split: prod.split option.split)

lemma lf_inv_set_auth_url: "lf_inv s \<Longrightarrow> lf_inv (snd (lastfm_service_set_auth_url ne url s))"
  by (auto simp: lastfm_service_set_auth_url_def Let_def case_prod_beta nvs_only_inv [OF nvs_only_dispatch(2)]
      split: sum.split)

lemma lf_inv_logout: "lf_inv s \<Longrightarrow> lf_inv (snd (lastfm_service_logout ne s))"
  using nvs_only_inv [OF nvs_only_store(3) [of s ne]]
  by (simp add: lastfm_service_logout_def case_prod_beta)

lemma lf_inv_forget: "lf_inv s \<Longrightarrow> lf_inv (lf_forget_now_playing s)"
  by (auto simp: lf_forget_now_playing_def lastfm_service_reset_now_playing_state_def
      lf_stop_now_playing_timer_def lf_stop_pause_clear_timer_def lf_inv_def lf_inv_parts)

lemma lf_inv_set_enabled:
  "lf_inv s \<Longrightarrow> lf_inv (snd (lastfm_service_set_scrobbling_enabled ne enabled s))"
  "lf_inv s \<Longrightarrow> lf_inv (snd (lastfm_service_set_now_playing_enabled ne enabled s))"
  by (simp_all add: lastfm_service_set_scrobbling_enabled_def lastfm_service_set_now_playing_enabled_def
      case_prod_beta Let_def lf_inv_forget nvs_only_inv [OF nvs_only_store(4)])

lemma lf_inv_queue_requests:
  "lf_inv s \<Longrightarrow> lf_inv (snd (lastfm_service_queue_request_token s))"
  "lf_inv s \<Longrightarrow> lf_inv (snd (lastfm_service_queue_request_auth username password s))"
  by (simp_all add: lastfm_service_queue_request_token_def lastfm_service_queue_request_auth_def lf_inv_enqueue)

lemma lf_inv_stop_timers:
  "lf_inv s \<Longrightarrow> lf_inv (lf_stop_now_playing_timer s)" "lf_inv s \<Longrightarrow> lf_inv (lf_stop_pause_clear_timer s)"
  by (auto simp: lf_timer_defs lf_inv_def lf_inv_parts)

lemma lf_inv_timer_callbacks:
  "lf_inv s \<Longrightarrow> lf_inv (lastfm_service_now_playing_timer_cb s)"
  "lf_inv s \<Longrightarrow> lf_inv (lastfm_service_pause_clear_timer_cb s)"
  by (simp_all add: lastfm_service_now_playing_timer_cb_def lastfm_service_pause_clear_timer_cb_def lf_inv_enqueue)

lemma lf_inv_track_started: "lf_inv s \<Longrightarrow> lf_inv (lastfm_service_handle_track_started_event event s)"
  by (auto simp: lastfm_service_handle_track_started_event_def Let_def intro!: lf_inv_forget lf_inv_stop_timers
      split: option.split)
    (auto simp: lf_timer_defs lf_inv_def lf_inv_parts)

lemma lf_inv_track_paused: "lf_inv s \<Longrightarrow> lf_inv (lastfm_service_handle_track_paused_event event s)"
  by (auto simp: lastfm_service_handle_track_paused_event_def lastfm_service_reset_now_playing_state_def
      lf_timer_defs lf_inv_def lf_inv_parts Let_def split: option.split)

lemma lf_inv_player_event: "lf_inv s \<Longrightarrow> lf_inv (lastfm_service_on_player_event event s)"
  by (auto simp: lastfm_service_on_player_event_def lastfm_service_handle_track_finished_event_def
      intro: lf_inv_track_started lf_inv_track_paused lf_inv_forget split: player_service_event.split)

lemma lf_inv_quick: "lf_inv s \<Longrightarrow> lf_inv (lf_quick_step s q)"
  by (cases q) (auto simp: lastfm_service_on_listen_count_incremented_def split: option.split
      intro!: lf_inv_player_event lf_inv_timer_callbacks lf_inv_stop_timers lf_inv_send_scrobble
        lf_inv_set_auth_url lf_inv_queue_requests lf_inv_logout lf_inv_set_enabled)

interpretation lastfm_others: event_machine lf_quick_step lf_inv
  by unfold_locales (rule lf_inv_quick)

lemma lf_inv_others: "lf_inv s \<Longrightarrow> lf_inv (lf_others ops s)"
  unfolding lf_others_def by (rule lastfm_others.run_inv)

lemma lf_inv_wait: "lf_inv s \<Longrightarrow> lf_inv (lastfm_service_wait_for_request_rate_limit env s)"
  by (simp add: lastfm_service_wait_for_request_rate_limit_def Let_def lf_inv_others)

lemma lf_inv_record: "lf_inv s \<Longrightarrow> lf_inv (lastfm_service_record_request s)"
  by (auto simp: lastfm_service_record_request_def lf_inv_def lf_inv_parts
      LASTFM_SERVICE_SCROBBLE_RATE_LIMIT_REQUESTS_def)

lemma lf_inv_perform: "lf_inv s \<Longrightarrow> lf_inv (lf_perform env request s)"
  by (simp add: lf_perform_def lf_inv_others)

lemma lf_inv_not_busy: "lf_inv (snd r) \<Longrightarrow> lf_inv (snd (lf_not_busy r))"
  by (simp add: lf_not_busy_def)

lemma lf_inv_update_now_playing: "lf_inv s \<Longrightarrow> lf_inv (snd (lastfm_update_now_playing env artist track s))"
  unfolding lastfm_update_now_playing_def
  by (rule lf_inv_not_busy) (simp add: Let_def case_prod_beta lf_inv_perform)

lemma lf_inv_scrobble: "lf_inv s \<Longrightarrow> lf_inv (snd (lastfm_scrobble env artist track s))"
  unfolding lastfm_scrobble_def
  by (rule lf_inv_not_busy) (simp add: Let_def case_prod_beta lf_inv_perform)

lemma lf_inv_request_token: "lf_inv s \<Longrightarrow> lf_inv (snd (lastfm_service_request_token env s))"
  unfolding lastfm_service_request_token_def
  by (rule lf_inv_not_busy)
    (auto simp: Let_def case_prod_beta lf_inv_perform nvs_only_inv [OF nvs_only_store(1)] split: option.split)

lemma lf_inv_request_auth: "lf_inv s \<Longrightarrow> lf_inv (snd (lastfm_service_request_auth env username password s))"
  unfolding lastfm_service_request_auth_def
  by (rule lf_inv_not_busy)
    (auto simp: Let_def case_prod_beta lf_inv_perform nvs_only_inv [OF nvs_only_store(2)] split: option.split)

lemma lf_inv_process_now_playing:
  assumes "lf_inv s"
  shows "lf_inv (snd (lastfm_service_process_now_playing_track env track_ref s))"
proof -
  have *: "lf_inv (t\<lparr>lf_now_playing_active := True\<rparr>)" if "lf_inv t" "lf_now_playing_track_valid t" for t
    using that by (simp add: lf_inv_def lf_inv_parts)
  show ?thesis
    using assms lf_inv_update_now_playing [OF lf_inv_record [OF lf_inv_wait [OF assms]]]
    by (auto simp: lastfm_service_process_now_playing_track_def Let_def case_prod_beta * split: sum.split)
qed

lemma lf_inv_now_playing_clear: "lf_inv s \<Longrightarrow> lf_inv (lastfm_service_process_now_playing_clear track_ref s)"
  by (auto simp: lastfm_service_process_now_playing_clear_def lf_inv_def lf_inv_parts)

lemma lf_inv_process_command: "lf_inv s \<Longrightarrow> lf_inv (lastfm_service_process_command env payload s)"
  by (auto simp: lastfm_service_process_command_def lastfm_service_handle_track_finished_event_def
      intro!: lf_inv_request_token lf_inv_request_auth lf_inv_forget lf_inv_logout lf_inv_process_now_playing
        lf_inv_now_playing_clear split: lastfm_cmd_payload.split)

lemma lf_inv_process_scrobble: "lf_inv s \<Longrightarrow> lf_inv (snd (lastfm_service_process_scrobble_payload env payload s))"
  by (auto simp: lastfm_service_process_scrobble_payload_def
      intro!: lf_inv_scrobble lf_inv_record lf_inv_wait split: sum.split)

lemma lf_inv_serve_command: "lf_inv s \<Longrightarrow> lf_inv (serve_command env s)"
  using lf_inv_receive_command [of s]
  by (auto simp: serve_command_def lf_inv_process_command split: prod.split option.split)

lemma lf_inv_serve_scrobble: "lf_inv s \<Longrightarrow> lf_inv (serve_scrobble env locked_again s)"
  using lf_inv_receive_scrobble [of s "lv_locked env"]
  by (auto simp: serve_scrobble_def case_prod_beta lf_inv_requeue lf_inv_process_scrobble
      split: prod.split sum.split)

lemma lf_inv_turn:
  assumes "lf_inv s"
  shows "lf_inv (lastfm_service_task_turn env locked_again s)"
proof -
  have "lf_inv (s\<lparr>lf_queue_set := Some entries\<rparr>)" if "lf_queue_set s = Some (m # entries)" for m entries
    using assms that by (simp add: lf_inv_def lf_inv_parts)
  then show ?thesis
    using assms by (auto simp: lastfm_service_task_turn_def Let_def lf_inv_serve_command lf_inv_serve_scrobble
        split: option.split list.split lf_member.split)
qed

lemma lf_inv_init_timers: "lf_inv s \<Longrightarrow> lf_inv (snd (lastfm_service_init_timers env s))"
  by (simp add: lastfm_service_init_timers_def Let_def lf_inv_def lf_inv_parts)

lemma lf_inv_nvs_proxy:
  "lf_inv (lastfm_service_cleanup_nvs_proxy s) = lf_inv s"
  "lf_inv (snd (lastfm_service_init_nvs_proxy env s)) = lf_inv s"
  by (simp_all add: lastfm_service_cleanup_nvs_proxy_def lastfm_service_init_nvs_proxy_def Let_def)

lemma lf_inv_init: "lf_inv s \<Longrightarrow> lf_inv (snd (lastfm_service_init env s))"
  by (simp add: lastfm_service_init_def Let_def case_prod_beta lf_inv_nvs_proxy lf_inv_load lf_inv_init_timers)

lemma lf_inv_cleanup: "lf_inv s \<Longrightarrow> lf_inv (lastfm_service_cleanup_queues s)"
  by (simp add: lastfm_service_cleanup_queues_def lf_inv_def lf_inv_parts)

lemma lf_inv_queues:
  "lf_inv s \<Longrightarrow> lf_inv (s\<lparr>lf_cmd_queue := None\<rparr>)" "lf_inv s \<Longrightarrow> lf_inv (s\<lparr>lf_cmd_queue := Some []\<rparr>)"
  "lf_inv s \<Longrightarrow> lf_inv (s\<lparr>lf_scrobble_queue := None\<rparr>)" "lf_inv s \<Longrightarrow> lf_inv (s\<lparr>lf_scrobble_queue := Some []\<rparr>)"
  "lf_inv s \<Longrightarrow> lf_inv (s\<lparr>lf_queue_set := None\<rparr>)" "lf_inv s \<Longrightarrow> lf_inv (s\<lparr>lf_queue_set := Some []\<rparr>)"
  by (simp_all add: lf_inv_def lf_inv_parts)

lemma lf_inv_add_to_set: "lf_inv s \<Longrightarrow> lf_inv (snd (lf_add_to_set m s))"
  by (simp add: lf_add_to_set_def Let_def)

lemma lf_inv_task_start: "lf_inv s \<Longrightarrow> lf_inv (snd (lastfm_service_task_start env s))"
  by (simp add: lastfm_service_task_start_def Let_def case_prod_beta lf_inv_cleanup lf_inv_queues
      lf_inv_add_to_set lf_inv_others)

lemma lf_inv_step: "lf_inv s \<Longrightarrow> lf_inv (lf_step s operation)"
  by (cases operation) (simp_all add: lf_inv_quick lf_inv_init lf_inv_task_start lf_inv_turn lf_inv_request_token
      lf_inv_request_auth)

interpretation lastfm: event_machine lf_step lf_inv
  by unfold_locales (rule lf_inv_step)

lemma lf_inv_boot: "lf_inv (lf_boot strings i32s)"
  by (simp add: lf_boot_def lf_inv_def lf_inv_parts LASTFM_SERVICE_SCROBBLE_RATE_LIMIT_REQUESTS_def)

text \<open>C24: Whatever the players, timers, callers, answers, allocations and NVS do, and in every order: the
  command queue, the scrobble queue and the queue set never hold more than their lengths, the texts
  of the account fit their 128-byte buffers with their terminator, the ring of request times stays in
  range, and no track is reported as now playing, and no timer runs, without a current track.\<close>

theorem lastfm_always_consistent: "lf_inv (foldl lf_step (lf_boot strings i32s) operations)"
  by (rule lastfm.run_inv [OF lf_inv_boot])

section \<open>The rate of requests\<close>

text \<open>The requests the limit is for, and when they were made.\<close>

fun limited :: "lf_request \<Rightarrow> bool" where
  "limited (Lf_Scrobble _ _ _ _ _) = True"
| "limited (Lf_Update_Now_Playing _ _ _ _) = True"
| "limited _ = False"

definition limited_times :: "lf_state \<Rightarrow> nat list" where
  "limited_times s = map fst (filter (\<lambda>(_, request). limited request) (lf_requests s))"

text \<open>Every four in a row are a window apart.\<close>

definition spaced :: "nat \<Rightarrow> nat list \<Rightarrow> bool" where
  "spaced w ts \<longleftrightarrow> list_all (\<lambda>i. ts ! i + w \<le> ts ! (i + 3)) [0..<length ts - 3]"

lemma spaced_snoc:
  "spaced w (ts @ [t]) \<longleftrightarrow> spaced w ts \<and> (length ts \<ge> 3 \<longrightarrow> ts ! (length ts - 3) + w \<le> t)"
proof (cases "length ts \<ge> 3")
  case True
  then obtain n where n: "length ts = n + 3"
    by (metis add.commute le_Suc_ex)
  have "list_all (\<lambda>i. (ts @ [t]) ! i + w \<le> (ts @ [t]) ! (i + 3)) [0..<n] \<longleftrightarrow>
      list_all (\<lambda>i. ts ! i + w \<le> ts ! (i + 3)) [0..<n]"
    by (rule list.pred_cong) (auto simp: nth_append n)
  then show ?thesis
    by (simp add: spaced_def n nth_append)
qed (simp add: spaced_def)

definition lf_window :: nat where
  "lf_window = pdMS_TO_TICKS LASTFM_SERVICE_SCROBBLE_RATE_LIMIT_WINDOW_MS"

definition lf_pace_view :: "lf_state \<Rightarrow> u32 list \<times> nat \<times> nat \<times> nat list" where
  "lf_pace_view s = (lf_request_ticks s, lf_request_next_index s, lf_request_count s, limited_times s)"

text \<open>Nothing was requested and time did not go back.\<close>

definition calm :: "lf_state \<Rightarrow> lf_state \<Rightarrow> bool" where
  "calm s s' \<longleftrightarrow> lf_pace_view s' = lf_pace_view s \<and> lf_clock s \<le> lf_clock s'"

lemma calm_refl [simp]: "calm s s"
  by (simp add: calm_def)

lemma calm_trans: "calm s t \<Longrightarrow> calm t u \<Longrightarrow> calm s u"
  by (auto simp: calm_def)

lemmas calm_defs = calm_def lf_pace_view_def limited_times_def

lemma calm_frame:
  assumes "calm s t" and "lf_pace_view t' = lf_pace_view t" and "lf_clock t \<le> lf_clock t'"
  shows "calm s t'"
  using assms by (simp add: calm_def)

lemma calm_scrobble_queue [simp]: "calm s (t\<lparr>lf_scrobble_queue := q\<rparr>) = calm s t"
  "calm s (t\<lparr>lf_sent := ps\<rparr>) = calm s t" "calm s (t\<lparr>lf_handled := ps\<rparr>) = calm s t"
  "calm s (t\<lparr>lf_queue_set := es\<rparr>) = calm s t" "calm s (t\<lparr>lf_set_overflow := a\<rparr>) = calm s t"
  "calm s t \<Longrightarrow> calm s (t\<lparr>lf_clock := lf_clock t + k\<rparr>)"
  by (simp_all add: calm_defs)

lemma calm_scrobble_send [simp]: "calm s t \<Longrightarrow> calm s (snd (scrobble_queue_send to_front payload t))"
  by (simp add: scrobble_queue_send_def lf_notify_def split: option.split)

lemma calm_receive [simp]: "calm s t \<Longrightarrow> calm s (snd (scrobble_queue_receive t))"
  by (simp add: scrobble_queue_receive_def split: option.split list.split)

lemma calm_scrobbles [simp]:
  "calm s t \<Longrightarrow> calm s (snd (lastfm_service_send_scrobble locked checksum index t))"
  "calm s t \<Longrightarrow> calm s (snd (lastfm_service_receive_scrobble locked t))"
  "calm s t \<Longrightarrow> calm s (snd (lastfm_service_requeue_scrobble locked payload t))"
  by (simp_all add: lastfm_service_send_scrobble_def lastfm_service_receive_scrobble_def lf_note_sent_def
      lastfm_service_requeue_scrobble_def lf_delay_ms_def Let_def case_prod_beta split: option.split)

interpretation calm: lf_observer "calm s" for s
  by (unfold_locales; ((rule calm_scrobbles(1), assumption) | auto simp: calm_defs))

text \<open>The ring holds the times of the last three requests, oldest first \<open>a\<close>, \<open>b\<close> and \<open>c\<close>.\<close>

definition ring_holds :: "nat \<Rightarrow> nat \<Rightarrow> nat \<Rightarrow> lf_state \<Rightarrow> bool" where
  "ring_holds a b c s \<longleftrightarrow> lf_ring_inv s \<and> a \<le> b \<and> b \<le> c \<and> c \<le> lf_clock s \<and>
     lf_request_ticks s ! lf_request_next_index s = of_nat a \<and>
     lf_request_ticks s ! ((lf_request_next_index s + 1) mod 3) = of_nat b \<and>
     lf_request_ticks s ! ((lf_request_next_index s + 2) mod 3) = of_nat c"

definition from_end :: "nat list \<Rightarrow> nat \<Rightarrow> nat" where
  "from_end ts k = ts ! (length ts - k)"

lemma from_end_snoc:
  assumes "0 < k" "k \<le> length ts"
  shows "from_end (ts @ [t]) (Suc k) = from_end ts k"
proof -
  have "length ts - k < length ts"
    using assms by linarith
  then show ?thesis
    by (simp only: from_end_def nth_append length_append list.size add_0_right add_Suc_right diff_Suc_Suc if_True)
qed

text \<open>The last three times are not after \<open>a\<close>, \<open>b\<close> and \<open>c\<close>.\<close>

definition ends_before :: "nat \<Rightarrow> nat \<Rightarrow> nat \<Rightarrow> nat list \<Rightarrow> bool" where
  "ends_before a b c ts \<longleftrightarrow> (length ts \<ge> 1 \<longrightarrow> from_end ts 1 \<le> c) \<and> (length ts \<ge> 2 \<longrightarrow> from_end ts 2 \<le> b) \<and>
     (length ts \<ge> 3 \<longrightarrow> from_end ts 3 \<le> a)"

lemma ends_before_mono: "ends_before a b c ts \<Longrightarrow> a \<le> a' \<Longrightarrow> b \<le> b' \<Longrightarrow> c \<le> c' \<Longrightarrow> ends_before a' b' c' ts"
  by (auto simp: ends_before_def)

lemma ends_before_snoc:
  assumes "ends_before a b c ts"
  shows "ends_before b c t (ts @ [t])"
proof -
  have "from_end (ts @ [t]) 1 = t"
    by (simp add: from_end_def)
  then show ?thesis
    using assms from_end_snoc [of 1 ts t] from_end_snoc [of 2 ts t]
    by (simp add: ends_before_def numeral_2_eq_2 numeral_3_eq_3)
qed

definition few_requests :: "lf_state \<Rightarrow> bool" where
  "few_requests s \<longleftrightarrow> (lf_request_count s < 3 \<longrightarrow> length (limited_times s) \<le> lf_request_count s)"

definition lf_pace_inv :: "lf_state \<Rightarrow> bool" where
  "lf_pace_inv s \<longleftrightarrow> spaced lf_window (limited_times s) \<and> few_requests s \<and>
     (\<exists>a b c. ring_holds a b c s \<and> ends_before a b c (limited_times s))"

definition window_passed :: "lf_state \<Rightarrow> bool" where
  "window_passed s \<longleftrightarrow> (length (limited_times s) \<ge> 3 \<longrightarrow> from_end (limited_times s) 3 + lf_window \<le> lf_clock s)"

text \<open>The next request may be made.\<close>

definition may_request :: "lf_state \<Rightarrow> bool" where
  "may_request s \<longleftrightarrow> lf_pace_inv s \<and> window_passed s"

text \<open>It was recorded.\<close>

definition lf_recorded :: "lf_state \<Rightarrow> bool" where
  "lf_recorded s \<longleftrightarrow> spaced lf_window (limited_times s) \<and> window_passed s \<and>
     (lf_request_count s < 3 \<longrightarrow> length (limited_times s) < lf_request_count s) \<and>
     (\<exists>a b c. ring_holds b c (lf_clock s) s \<and> a \<le> b \<and> ends_before a b c (limited_times s))"

lemma ring_holds_calm: "calm s s' \<Longrightarrow> ring_holds a b c s \<Longrightarrow> ring_holds a b c s'"
  by (auto simp: calm_defs ring_holds_def lf_ring_inv_def)

lemma calm_limited_times: "calm s s' \<Longrightarrow> limited_times s' = limited_times s"
  by (simp add: calm_def lf_pace_view_def)

lemma pace_calm:
  assumes "calm s s'" and "lf_pace_inv s"
  shows "lf_pace_inv s'"
proof -
  have "limited_times s' = limited_times s" "lf_request_count s' = lf_request_count s"
    using assms(1) by (simp_all add: calm_def lf_pace_view_def)
  then show ?thesis
    using assms(2) ring_holds_calm [OF assms(1)] unfolding lf_pace_inv_def few_requests_def by metis
qed

lemma may_request_calm:
  assumes "calm s s'" and "may_request s"
  shows "may_request s'"
  using assms pace_calm [OF assms(1)] calm_limited_times [OF assms(1)]
  unfolding may_request_def window_passed_def calm_def by auto

lemma elapsed_at_most:
  assumes "a \<le> n"
  shows "unat (of_nat n - of_nat a :: u32) \<le> n - a"
proof -
  have "of_nat n - of_nat a = (of_nat (n - a) :: u32)"
    using assms by (simp add: of_nat_diff)
  then show ?thesis
    by (simp add: unat_of_nat)
qed

lemma may_request_after_wait:
  assumes "lf_pace_inv s"
  shows "may_request (lastfm_service_wait_for_request_rate_limit env s)"
proof (cases "lf_request_count s < 3")
  case True
  then have "window_passed s"
    using assms by (simp add: lf_pace_inv_def few_requests_def window_passed_def)
  then show ?thesis
    using assms True by (simp add: lastfm_service_wait_for_request_rate_limit_def Let_def may_request_def
        LASTFM_SERVICE_SCROBBLE_RATE_LIMIT_REQUESTS_def)
next
  case False
  obtain a b c where ring: "ring_holds a b c s" and ends: "ends_before a b c (limited_times s)"
    using assms unfolding lf_pace_inv_def by blast
  define gone where "gone = unat (of_nat (lf_clock s) - lf_request_ticks s ! lf_request_next_index s)"
  have le: "a \<le> lf_clock s" and "lf_request_ticks s ! lf_request_next_index s = of_nat a"
    using ring by (auto simp: ring_holds_def)
  then have gone: "gone \<le> lf_clock s - a"
    using elapsed_at_most [OF le] by (simp add: gone_def)
  have passed: "window_passed t" if "a + lf_window \<le> lf_clock t" "limited_times t = limited_times s" for t
    using ends that by (auto simp: window_passed_def ends_before_def)
  show ?thesis
  proof (cases "gone \<ge> lf_window")
    case True
    then have "lastfm_service_wait_for_request_rate_limit env s = s"
      by (simp add: lastfm_service_wait_for_request_rate_limit_def Let_def gone_def lf_window_def)
    moreover have "a + lf_window \<le> lf_clock s"
      using True gone le by simp
    ultimately show ?thesis
      using assms passed by (simp add: may_request_def)
  next
    case wait: False
    define t where "t = s\<lparr>lf_clock := lf_clock s + (lf_window - gone)\<rparr>"
    have "lastfm_service_wait_for_request_rate_limit env s = lf_others (lv_during_sleep env) t"
      using wait False by (simp add: lastfm_service_wait_for_request_rate_limit_def Let_def gone_def lf_window_def
          t_def LASTFM_SERVICE_SCROBBLE_RATE_LIMIT_REQUESTS_def)
    moreover have "calm s t"
      by (simp add: t_def)
    moreover have "a + lf_window \<le> lf_clock t"
      using wait gone le by (simp add: t_def)
    ultimately show ?thesis
      using passed pace_calm [OF _ assms] may_request_calm [OF calm.others [OF calm_refl], of t]
      by (simp add: may_request_def calm_limited_times)
  qed
qed

lemma recorded_after_record:
  assumes "may_request s"
  shows "lf_recorded (lastfm_service_record_request s)"
proof -
  have pace: "lf_pace_inv s" and passed: "window_passed s"
    using assms by (simp_all add: may_request_def)
  obtain a b c where ring: "ring_holds a b c s" and ends: "ends_before a b c (limited_times s)"
    using pace unfolding lf_pace_inv_def by blast
  define s' where "s' = lastfm_service_record_request s"
  have same: "limited_times s' = limited_times s" "lf_clock s' = lf_clock s"
    by (simp_all add: s'_def lastfm_service_record_request_def limited_times_def)
  have "lf_request_next_index s \<in> {0, 1, 2}" "length (lf_request_ticks s) = 3"
    using ring by (auto simp: ring_holds_def lf_ring_inv_def LASTFM_SERVICE_SCROBBLE_RATE_LIMIT_REQUESTS_def)
  then have "ring_holds b c (lf_clock s) s'"
    using ring unfolding ring_holds_def lf_ring_inv_def s'_def
    by (auto simp: lastfm_service_record_request_def LASTFM_SERVICE_SCROBBLE_RATE_LIMIT_REQUESTS_def
        numeral_2_eq_2)
  moreover have "a \<le> b"
    using ring by (simp add: ring_holds_def)
  moreover have "length (limited_times s) < lf_request_count s'" if "lf_request_count s' < 3"
    using that pace by (auto simp: s'_def lastfm_service_record_request_def lf_pace_inv_def few_requests_def
        LASTFM_SERVICE_SCROBBLE_RATE_LIMIT_REQUESTS_def split: if_splits)
  moreover have "spaced lf_window (limited_times s)"
    using pace by (simp add: lf_pace_inv_def)
  ultimately show ?thesis
    using ends passed unfolding s'_def [symmetric] lf_recorded_def window_passed_def same by blast
qed

lemma recorded_pace:
  assumes "lf_recorded s"
  shows "lf_pace_inv s"
proof -
  obtain a b c where ring: "ring_holds b c (lf_clock s) s" and "a \<le> b" and ends: "ends_before a b c (limited_times s)"
    using assms unfolding lf_recorded_def by blast
  moreover from this have "ends_before b c (lf_clock s) (limited_times s)"
    by (auto simp: ring_holds_def intro: ends_before_mono [OF ends])
  ultimately show ?thesis
    using assms unfolding lf_pace_inv_def lf_recorded_def few_requests_def by (meson less_imp_le_nat)
qed

lemma recorded_made:
  assumes "lf_recorded s" and "limited request"
  shows "lf_pace_inv (s\<lparr>lf_requests := lf_requests s @ [(lf_clock s, request)]\<rparr>)" (is "lf_pace_inv ?t")
proof -
  have times: "limited_times ?t = limited_times s @ [lf_clock s]"
    using assms(2) by (simp add: limited_times_def)
  obtain a b c where ring: "ring_holds b c (lf_clock s) s" and ends: "ends_before a b c (limited_times s)"
    using assms(1) unfolding lf_recorded_def by blast
  have "ring_holds b c (lf_clock s) ?t"
    using ring by (simp add: ring_holds_def lf_ring_inv_def)
  moreover have "ends_before b c (lf_clock s) (limited_times ?t)"
    unfolding times by (rule ends_before_snoc [OF ends])
  moreover have "spaced lf_window (limited_times ?t)"
    using assms(1) unfolding times spaced_snoc by (simp add: lf_recorded_def window_passed_def from_end_def)
  moreover have "few_requests ?t"
    using assms(1) unfolding few_requests_def times by (simp add: lf_recorded_def Suc_le_eq)
  ultimately show ?thesis
    unfolding lf_pace_inv_def by blast
qed

lemma recorded_calm:
  assumes "calm s s'" and "lf_recorded s" and "lf_clock s' = lf_clock s"
  shows "lf_recorded s'"
proof -
  have "limited_times s' = limited_times s" "lf_request_count s' = lf_request_count s"
    using assms(1) by (simp_all add: calm_def lf_pace_view_def)
  then show ?thesis
    using assms(2,3) ring_holds_calm [OF assms(1)] unfolding lf_recorded_def window_passed_def by metis
qed

lemma pace_perform:
  assumes "lf_recorded s" and "limited request"
  shows "lf_pace_inv (lf_perform env request s)"
  unfolding lf_perform_def by (rule pace_calm [OF calm.others [OF calm_refl] recorded_made [OF assms]])

lemma pace_made:
  assumes "lf_recorded s"
  shows "lf_pace_inv (snd (lastfm_update_now_playing env artist track s))"
    and "lf_pace_inv (snd (lastfm_scrobble env artist track s))"
proof -
  have busy: "lf_recorded (s\<lparr>lf_busy := True\<rparr>)"
    by (rule recorded_calm [OF _ assms]) simp_all
  have same: "lf_pace_inv (t\<lparr>lf_busy := False\<rparr>)" "lf_pace_inv (t\<lparr>lf_successful_scrobbles := n, lf_busy := False\<rparr>)"
    "lf_pace_inv (t\<lparr>lf_failed_scrobbles := n, lf_busy := False\<rparr>)" if "lf_pace_inv t" for t n
    by (rule pace_calm [OF _ that]; simp)+
  note recorded_pace [OF busy] pace_perform [OF busy limited.simps(2) [THEN iffD2, OF TrueI]]
    pace_perform [OF busy limited.simps(1) [THEN iffD2, OF TrueI]]
  with busy same same(1) [OF recorded_pace [OF assms]] show "lf_pace_inv (snd (lastfm_update_now_playing env artist track s))"
    and "lf_pace_inv (snd (lastfm_scrobble env artist track s))"
    by (simp_all add: lastfm_update_now_playing_def lastfm_scrobble_def lf_not_busy_def Let_def case_prod_beta)
qed

lemma pace_process_now_playing:
  assumes "lf_pace_inv s"
  shows "lf_pace_inv (snd (lastfm_service_process_now_playing_track env track_ref s))"
proof -
  have active: "lf_pace_inv (t\<lparr>lf_now_playing_active := True\<rparr>)" if "lf_pace_inv t" for t
    by (rule pace_calm [OF _ that]) simp
  show ?thesis
    using assms pace_made(1) [OF recorded_after_record [OF may_request_after_wait [OF assms, of env]]]
    by (auto simp: lastfm_service_process_now_playing_track_def Let_def case_prod_beta active split: sum.split)
qed

lemma pace_process_scrobble:
  assumes "lf_pace_inv s"
  shows "lf_pace_inv (snd (lastfm_service_process_scrobble_payload env payload s))"
  using assms pace_made(2) [OF recorded_after_record [OF may_request_after_wait [OF assms, of env]]]
  by (auto simp: lastfm_service_process_scrobble_payload_def split: sum.split)

lemma pace_process_command:
  assumes "lf_pace_inv s"
  shows "lf_pace_inv (lastfm_service_process_command env payload s)"
proof (cases payload)
  case (LASTFM_CMD_UPDATE_NOW_PLAYING track)
  then show ?thesis
    using pace_process_now_playing [OF assms] by (simp add: lastfm_service_process_command_def)
next
  case (LASTFM_CMD_CLEAR_NOW_PLAYING track)
  then show ?thesis
    by (intro pace_calm [OF _ assms])
      (simp add: lastfm_service_process_command_def lastfm_service_process_now_playing_clear_def)
qed (rule pace_calm [OF _ assms];
    simp add: lastfm_service_process_command_def lastfm_service_handle_track_finished_event_def)+

lemma pace_serve_command:
  assumes "lf_pace_inv s"
  shows "lf_pace_inv (serve_command env s)"
  using pace_calm [OF calm.receive_command [OF calm_refl] assms]
  by (auto simp: serve_command_def pace_process_command split: prod.split option.split)

lemma pace_handled [simp]: "lf_pace_inv t \<Longrightarrow> lf_pace_inv (lf_note_handled payload t)"
  by (rule pace_calm) (simp_all add: lf_note_handled_def)

lemma pace_serve_scrobble:
  assumes "lf_pace_inv s"
  shows "lf_pace_inv (serve_scrobble env locked_again s)"
proof -
  have "lf_pace_inv (snd (lastfm_service_receive_scrobble (lv_locked env) s))"
    by (rule pace_calm [OF calm_scrobbles(2) [OF calm_refl] assms])
  moreover have "lf_pace_inv (snd (lastfm_service_requeue_scrobble locked_again payload t))"
    if "lf_pace_inv t" for payload t
    by (rule pace_calm [OF calm_scrobbles(3) [OF calm_refl] that])
  ultimately show ?thesis
    by (auto simp: serve_scrobble_def case_prod_beta pace_process_scrobble split: prod.split sum.split)
qed

lemma pace_turn:
  assumes "lf_pace_inv s"
  shows "lf_pace_inv (lastfm_service_task_turn env locked_again s)"
proof -
  have "lf_pace_inv (s\<lparr>lf_queue_set := Some entries\<rparr>)" for entries
    by (rule pace_calm [OF _ assms]) simp
  then show ?thesis
    using assms by (auto simp: lastfm_service_task_turn_def Let_def pace_serve_command pace_serve_scrobble
        split: option.split list.split lf_member.split)
qed

lemma pace_step:
  assumes "lf_pace_inv s"
  shows "lf_pace_inv (lf_step s operation)"
proof (cases "lf_is_turn operation")
  case True
  then show ?thesis
    using pace_turn [OF assms] by (cases operation) simp_all
next
  case False
  then show ?thesis
    by (rule pace_calm [OF calm.step_but_turn [OF calm_refl] assms])
qed

interpretation lastfm_pace: event_machine lf_step lf_pace_inv
  by unfold_locales (rule pace_step)

lemma pace_boot: "lf_pace_inv (lf_boot strings i32s)"
proof -
  have "ring_holds 0 0 0 (lf_boot strings i32s)"
    by (simp add: ring_holds_def lf_ring_inv_def lf_boot_def LASTFM_SERVICE_SCROBBLE_RATE_LIMIT_REQUESTS_def)
  moreover have "limited_times (lf_boot strings i32s) = []"
    by (simp add: limited_times_def lf_boot_def)
  ultimately show ?thesis
    by (simp add: lf_pace_inv_def few_requests_def spaced_def ends_before_def) blast
qed

text \<open>C25: In every run, of any four scrobble and now-playing requests in a row the fourth is made at
  least 1000 ticks (ten seconds) after the first, whatever the other tasks do while the service waits
  and however often the tick counter wraps around: at most three requests per window.\<close>

theorem lastfm_rate_limited:
  "spaced lf_window (limited_times (foldl lf_step (lf_boot strings i32s) operations)) \<and> lf_window = 1000"
  using lastfm_pace.run_inv [OF pace_boot]
  by (auto simp: lf_pace_inv_def lf_window_def pdMS_TO_TICKS_def CONFIG_FREERTOS_HZ_def
      LASTFM_SERVICE_SCROBBLE_RATE_LIMIT_WINDOW_MS_def)

end
