(* ===== verification/Lastfm_Scrobbles.thy ===== *)
theory Lastfm_Scrobbles
  imports Lastfm_Props "HOL-Library.Sublist"
begin

text \<open>
  The scrobbles of the Last.fm service: they are served in the order they came in, none twice; the
  queue keeps the newest 512; and what happens to the queue set while there is no internet.
\<close>

section \<open>The order of scrobbles\<close>

definition scrobbles_waiting :: "lf_state \<Rightarrow> lastfm_track_ref list" where
  "scrobbles_waiting s = (case lf_scrobble_queue s of None \<Rightarrow> [] | Some q \<Rightarrow> q)"

text \<open>The scrobbles done with, those in the hands of the task and those waiting are among those sent, in
  this order.\<close>

definition in_order :: "lastfm_track_ref list \<Rightarrow> lf_state \<Rightarrow> bool" where
  "in_order held s \<longleftrightarrow> subseq (lf_handled s @ held @ scrobbles_waiting s) (lf_sent s)"

lemma in_order_drop: "in_order held s \<Longrightarrow> lf_handled t = lf_handled s \<Longrightarrow> lf_sent t = lf_sent s \<Longrightarrow>
    subseq (held' @ scrobbles_waiting t) (held @ scrobbles_waiting s) \<Longrightarrow> in_order held' t"
  unfolding in_order_def by (metis list_emb_append_mono subseq_order.order_refl subseq_order.order_trans)

lemma notify_scrobbles [simp]:
  "lf_handled (lf_notify m s) = lf_handled s" "lf_sent (lf_notify m s) = lf_sent s" "scrobbles_waiting (lf_notify m s) = scrobbles_waiting s"
  "lf_scrobble_queue (lf_notify m s) = lf_scrobble_queue s"
  by (simp_all add: lf_notify_def scrobbles_waiting_def split: option.split)

lemma scrobble_queue_send_cases:
  obtains (full) "scrobble_queue_send to_front payload s = (False, s)"
  | (queued) s' where "scrobble_queue_send to_front payload s = (True, s')"
      "scrobbles_waiting s' = (if to_front then payload # scrobbles_waiting s else scrobbles_waiting s @ [payload])"
      "lf_handled s' = lf_handled s" "lf_sent s' = lf_sent s"
proof (cases "fst (scrobble_queue_send to_front payload s)")
  case True
  show ?thesis
    by (rule queued [of "snd (scrobble_queue_send to_front payload s)"])
      (use True in \<open>auto simp: scrobble_queue_send_def scrobbles_waiting_def split: option.splits if_splits\<close>)
next
  case False
  show ?thesis
    by (rule full) (use False in \<open>auto simp: scrobble_queue_send_def split: option.splits if_splits\<close>)
qed

lemma scrobble_queue_receive_cases:
  obtains (empty) "scrobble_queue_receive s = (None, s)"
  | (got) payload s' where "scrobble_queue_receive s = (Some payload, s')" "scrobbles_waiting s = payload # scrobbles_waiting s'"
      "lf_handled s' = lf_handled s" "lf_sent s' = lf_sent s"
proof (cases "scrobbles_waiting s")
  case Nil
  show ?thesis
    by (rule empty) (use Nil in \<open>auto simp: scrobble_queue_receive_def scrobbles_waiting_def split: option.splits\<close>)
next
  case (Cons payload rest)
  show ?thesis
    by (rule got [of payload "snd (scrobble_queue_receive s)"])
      (use Cons in \<open>auto simp: scrobble_queue_receive_def scrobbles_waiting_def split: option.splits\<close>)
qed

lemma in_order_sent:
  assumes "in_order held s" and "lf_handled t = lf_handled s" and "lf_sent t = lf_sent s"
    and "scrobbles_waiting t = xs @ [payload]" and "subseq xs (scrobbles_waiting s)"
  shows "in_order held (lf_note_sent payload t)"
proof -
  have "subseq (lf_handled s @ held @ xs) (lf_sent s)"
    using assms(1,5) unfolding in_order_def
    by (metis list_emb_append_mono subseq_order.order_refl subseq_order.order_trans)
  then have "subseq ((lf_handled s @ held @ xs) @ [payload]) (lf_sent s @ [payload])"
    by (rule list_emb_append_mono) simp
  then show ?thesis
    using assms(2-4) by (simp add: in_order_def lf_note_sent_def scrobbles_waiting_def)
qed

lemma in_order_send:
  assumes "in_order held s"
  shows "in_order held (snd (lastfm_service_send_scrobble locked checksum index s))"
proof -
  let ?payload = "\<lparr>lr_album_checksum = checksum, lr_track_index = index\<rparr>"
  show ?thesis
  proof (cases rule: scrobble_queue_send_cases [of False ?payload s])
    case (queued s')
    then have "in_order held (lf_note_sent ?payload s')"
      by (intro in_order_sent [OF assms, of _ "scrobbles_waiting s"]) simp_all
    with assms queued show ?thesis
      by (simp add: lastfm_service_send_scrobble_def Let_def)
  next
    case full
    show ?thesis
    proof (cases rule: scrobble_queue_receive_cases [of s])
      case empty
      with full assms show ?thesis
        by (simp add: lastfm_service_send_scrobble_def Let_def)
    next
      case (got dropped s1)
      then have dropped: "in_order held s1"
        by (intro in_order_drop [OF assms]) (auto intro: list_emb_append_mono)
      show ?thesis
      proof (cases rule: scrobble_queue_send_cases [of False ?payload s1])
        case again: full
        with full got assms dropped show ?thesis
          by (simp add: lastfm_service_send_scrobble_def Let_def)
      next
        case (queued s2)
        then have "in_order held (lf_note_sent ?payload s2)"
          by (intro in_order_sent [OF dropped, of _ "scrobbles_waiting s1"]) simp_all
        with full got assms queued show ?thesis
          by (simp add: lastfm_service_send_scrobble_def Let_def)
      qed
    qed
  qed
qed

lemma in_order_same:
  assumes "lf_handled t = lf_handled s" and "lf_sent t = lf_sent s" and "lf_scrobble_queue t = lf_scrobble_queue s"
  shows "in_order held t \<longleftrightarrow> in_order held s"
  using assms by (simp add: in_order_def scrobbles_waiting_def)

lemma in_order_emptied:
  assumes "in_order held s"
  shows "in_order held (s\<lparr>lf_scrobble_queue := None\<rparr>)" and "in_order held (s\<lparr>lf_scrobble_queue := Some []\<rparr>)"
  by (rule in_order_drop [OF assms]; simp add: scrobbles_waiting_def; intro list_emb_append_mono [of _ held held "[]", simplified];
      simp)+

interpretation order: lf_observer "in_order held" for held
  by (unfold_locales; ((rule in_order_send, assumption) | (rule in_order_emptied, assumption) |
      (rule in_order_same; simp) | (erule iffD2 [OF in_order_same, rotated -1]; simp)))

text \<open>The scrobble in the hands of the task.\<close>

lemma in_order_receive:
  assumes "in_order [] s"
  shows "lastfm_service_receive_scrobble locked s = (Inl err, t) \<Longrightarrow> in_order [] t"
    and "lastfm_service_receive_scrobble locked s = (Inr payload, t) \<Longrightarrow> in_order [payload] t"
proof -
  have "lastfm_service_receive_scrobble locked s = (Inl err, t) \<longrightarrow> in_order [] t"
    "lastfm_service_receive_scrobble locked s = (Inr payload, t) \<longrightarrow> in_order [payload] t"
    using assms by (cases rule: scrobble_queue_receive_cases [of s];
        auto simp: lastfm_service_receive_scrobble_def in_order_def split: if_splits)+
  then show "lastfm_service_receive_scrobble locked s = (Inl err, t) \<Longrightarrow> in_order [] t"
    and "lastfm_service_receive_scrobble locked s = (Inr payload, t) \<Longrightarrow> in_order [payload] t"
    by blast+
qed

lemma in_order_let_go: "in_order [payload] s \<Longrightarrow> in_order [] s"
  by (rule in_order_drop) (auto intro: list_emb_Cons)

lemma in_order_handled: "in_order [payload] s \<Longrightarrow> in_order [] (lf_note_handled payload s)"
  by (simp add: in_order_def lf_note_handled_def scrobbles_waiting_def)

lemma in_order_front:
  assumes "in_order [payload] s" and "lf_handled t = lf_handled s" and "lf_sent t = lf_sent s"
    and "scrobbles_waiting t = payload # xs" and "subseq xs (scrobbles_waiting s)"
  shows "in_order [] t"
  using assms by (intro in_order_drop [OF assms(1)]) simp_all

lemma in_order_delay [simp]: "in_order held s \<Longrightarrow> in_order held (lf_delay_ms ms s)"
  by (simp add: lf_delay_ms_def)

lemma in_order_requeue:
  assumes "in_order [payload] s"
  shows "in_order [] (snd (lastfm_service_requeue_scrobble locked payload s))"
proof (cases rule: scrobble_queue_send_cases [of True payload s])
  case (queued s')
  then have "in_order [] s'"
    by (intro in_order_front [OF assms, of _ "scrobbles_waiting s"]) simp_all
  with assms queued show ?thesis
    by (simp add: lastfm_service_requeue_scrobble_def Let_def in_order_let_go)
next
  case full
  show ?thesis
  proof (cases rule: scrobble_queue_receive_cases [of s])
    case empty
    with full assms show ?thesis
      by (simp add: lastfm_service_requeue_scrobble_def Let_def in_order_let_go)
  next
    case (got dropped s1)
    then have dropped: "in_order [payload] s1"
      by (intro in_order_drop [OF assms]) auto
    show ?thesis
    proof (cases rule: scrobble_queue_send_cases [of True payload s1])
      case again: full
      with full got assms dropped show ?thesis
        by (simp add: lastfm_service_requeue_scrobble_def Let_def in_order_let_go)
    next
      case (queued s2)
      then have "in_order [] s2"
        by (intro in_order_front [OF dropped, of _ "scrobbles_waiting s1"]) simp_all
      with full got assms queued show ?thesis
        by (simp add: lastfm_service_requeue_scrobble_def Let_def in_order_let_go)
    qed
  qed
qed

lemma in_order_request [simp]:
  "in_order held s \<Longrightarrow> in_order held (lastfm_service_wait_for_request_rate_limit env s)"
  "in_order held s \<Longrightarrow> in_order held (lastfm_service_record_request s)"
  "in_order held s \<Longrightarrow> in_order held (lf_perform env request s)"
  by (simp_all add: lastfm_service_wait_for_request_rate_limit_def lastfm_service_record_request_def lf_perform_def
      Let_def in_order_def scrobbles_waiting_def order.others [unfolded in_order_def scrobbles_waiting_def])

lemma in_order_made [simp]:
  "in_order held s \<Longrightarrow> in_order held (snd (lastfm_update_now_playing env artist track s))"
  "in_order held s \<Longrightarrow> in_order held (snd (lastfm_scrobble env artist track s))"
  unfolding lastfm_update_now_playing_def lastfm_scrobble_def
  by (rule order.not_busy; simp add: Let_def case_prod_beta)+

lemma in_order_process [simp]:
  "in_order held s \<Longrightarrow> in_order held (snd (lastfm_service_process_now_playing_track env track_ref s))"
  "in_order held s \<Longrightarrow> in_order held (lastfm_service_process_now_playing_clear track_ref s)"
  "in_order held s \<Longrightarrow> in_order held (snd (lastfm_service_process_scrobble_payload env payload s))"
  by (auto simp: lastfm_service_process_now_playing_track_def lastfm_service_process_now_playing_clear_def
      lastfm_service_process_scrobble_payload_def Let_def case_prod_beta split: sum.split)

lemma in_order_command [simp]: "in_order held s \<Longrightarrow> in_order held (lastfm_service_process_command env payload s)"
  by (simp add: lastfm_service_process_command_def lastfm_service_handle_track_finished_event_def
      split: lastfm_cmd_payload.split)

lemma in_order_serve_command:
  assumes "in_order held s"
  shows "in_order held (serve_command env s)"
  using order.receive_command [OF assms] by (auto simp: serve_command_def split: prod.split option.split)

lemma in_order_serve_scrobble:
  assumes "in_order [] s"
  shows "in_order [] (serve_scrobble env locked_again s)"
proof -
  obtain r t where received: "lastfm_service_receive_scrobble (lv_locked env) s = (r, t)"
    by fastforce
  show ?thesis
  proof (cases r)
    case (Inl err)
    with received show ?thesis
      using in_order_receive(1) [OF assms] by (simp add: serve_scrobble_def)
  next
    case (Inr payload)
    with received have "in_order [payload] t"
      using in_order_receive(2) [OF assms] by simp
    with received Inr show ?thesis
      by (simp add: serve_scrobble_def case_prod_beta in_order_requeue in_order_handled)
  qed
qed

lemma in_order_turn: "in_order [] s \<Longrightarrow> in_order [] (lastfm_service_task_turn env locked_again s)"
  by (simp add: lastfm_service_task_turn_def Let_def in_order_serve_command in_order_serve_scrobble
      split: option.split list.split lf_member.split)

lemma in_order_step:
  assumes "in_order [] s"
  shows "in_order [] (lf_step s operation)"
proof (cases "lf_is_turn operation")
  case True
  then show ?thesis
    using in_order_turn [OF assms] by (cases operation) simp_all
qed (rule order.step_but_turn [OF assms])

interpretation lastfm_order: event_machine lf_step "in_order []"
  by unfold_locales (rule in_order_step)

text \<open>C26: In every run the scrobbles done with, followed by those still waiting, are a subsequence of the
  scrobbles that were accepted: the service makes none up, serves none twice and never lets one
  overtake another, also when requests fail and scrobbles are put back, when the queue overflows and
  when others arrive while a request is under way.\<close>

theorem lastfm_scrobbles_in_order:
  "subseq (lf_handled (foldl lf_step (lf_boot strings i32s) operations) @
           scrobbles_waiting (foldl lf_step (lf_boot strings i32s) operations))
     (lf_sent (foldl lf_step (lf_boot strings i32s) operations))"
  using lastfm_order.run_inv [of "lf_boot strings i32s" operations]
  by (simp add: in_order_def lf_boot_def scrobbles_waiting_def)

section \<open>A full queue\<close>

text \<open>The last \<open>n\<close> elements.\<close>

definition keep_newest :: "nat \<Rightarrow> 'a list \<Rightarrow> 'a list" where
  "keep_newest n xs = drop (length xs - n) xs"

lemma keep_newest_snoc:
  "keep_newest n (keep_newest n xs @ [x]) = keep_newest n (xs @ [x])"
proof (cases "length xs < n")
  case False
  then obtain k where k: "length xs = k + n"
    by (metis add.commute le_Suc_ex not_less)
  then show ?thesis
    by (cases n) (simp_all add: keep_newest_def)
qed (simp add: keep_newest_def)

definition offer :: "lf_state \<Rightarrow> lastfm_track_ref \<Rightarrow> lf_state" where
  "offer s p = snd (lastfm_service_send_scrobble True (lr_album_checksum p) (lr_track_index p) s)"

definition takes_scrobbles :: "lf_state \<Rightarrow> bool" where
  "takes_scrobbles s \<longleftrightarrow> lf_scrobbling_enabled s \<and> lf_scrobble_mutex s \<and> lf_scrobble_queue s \<noteq> None \<and>
     length (scrobbles_waiting s) \<le> LASTFM_SERVICE_SCROBBLE_QUEUE_LENGTH"

lemma notify_keeps [simp]:
  "lf_scrobbling_enabled (lf_notify m s) = lf_scrobbling_enabled s"
  "lf_scrobble_mutex (lf_notify m s) = lf_scrobble_mutex s" "lf_cmd_queue (lf_notify m s) = lf_cmd_queue s"
  "lf_members (lf_notify m s) = lf_members s"
  by (simp_all add: lf_notify_def split: option.split)

lemma track_ref_eta [simp]: "\<lparr>lr_album_checksum = lr_album_checksum p, lr_track_index = lr_track_index p\<rparr> = p"
  by (cases p) simp

text \<open>A scrobble that is offered is entered, in place of the oldest one when there is no room, and the
  queue set gets an entry in both cases.\<close>

lemma offer_eq:
  assumes "takes_scrobbles s"
  shows "offer s p = lf_note_sent p (lf_notify Lf_Scrobble_Queue
    (s\<lparr>lf_scrobble_queue := Some (keep_newest LASTFM_SERVICE_SCROBBLE_QUEUE_LENGTH (scrobbles_waiting s @ [p]))\<rparr>))"
proof -
  obtain q where q: "lf_scrobble_queue s = Some q" "length q \<le> LASTFM_SERVICE_SCROBBLE_QUEUE_LENGTH"
    using assms by (auto simp: takes_scrobbles_def scrobbles_waiting_def)
  show ?thesis
  proof (cases "length q < LASTFM_SERVICE_SCROBBLE_QUEUE_LENGTH")
    case True
    then show ?thesis
      using assms q by (simp add: offer_def lastfm_service_send_scrobble_def takes_scrobbles_def scrobble_queue_send_def
          keep_newest_def scrobbles_waiting_def Let_def)
  next
    case False
    then obtain x q' where "q = x # q'"
      by (cases q) (simp_all add: LASTFM_SERVICE_SCROBBLE_QUEUE_LENGTH_def)
    then show ?thesis
      using assms q False by (simp add: offer_def lastfm_service_send_scrobble_def takes_scrobbles_def
          scrobble_queue_send_def scrobble_queue_receive_def keep_newest_def scrobbles_waiting_def Let_def)
  qed
qed

lemma offer_takes:
  assumes "takes_scrobbles s"
  shows "takes_scrobbles (offer s p)"
    and "scrobbles_waiting (offer s p) = keep_newest LASTFM_SERVICE_SCROBBLE_QUEUE_LENGTH (scrobbles_waiting s @ [p])"
    and "lf_sent (offer s p) = lf_sent s @ [p]"
    and "lf_cmd_queue (offer s p) = lf_cmd_queue s" and "lf_members (offer s p) = lf_members s"
  using assms by (simp_all add: offer_eq [OF assms] takes_scrobbles_def lf_note_sent_def scrobbles_waiting_def [of "lf_note_sent _ _"]
      scrobbles_waiting_def [of "_\<lparr>lf_scrobble_queue := _\<rparr>"] scrobbles_waiting_def [of "_\<lparr>lf_sent := _\<rparr>"] keep_newest_def)

lemma offers_keep_newest:
  assumes "takes_scrobbles s"
  shows "takes_scrobbles (foldl offer s ps) \<and>
    scrobbles_waiting (foldl offer s ps) = keep_newest LASTFM_SERVICE_SCROBBLE_QUEUE_LENGTH (scrobbles_waiting s @ ps) \<and>
    lf_sent (foldl offer s ps) = lf_sent s @ ps"
proof (induction ps rule: rev_induct)
  case Nil
  then show ?case
    using assms by (simp add: takes_scrobbles_def keep_newest_def)
next
  case (snoc p ps)
  then show ?case
    using offer_takes [of "foldl offer s ps" p] keep_newest_snoc [of LASTFM_SERVICE_SCROBBLE_QUEUE_LENGTH "scrobbles_waiting s @ ps" p]
    by simp
qed

text \<open>While scrobbling is on, the queue exists and its mutex is obtained, however many scrobbles come in
  while none is served, all are accepted and the queue holds the newest 512 of those waiting before and
  those that came, in their order.\<close>

theorem lastfm_queue_keeps_newest:
  assumes "lf_scrobble_queue s = Some q" "length q \<le> LASTFM_SERVICE_SCROBBLE_QUEUE_LENGTH"
    and "lf_scrobbling_enabled s" "lf_scrobble_mutex s"
  shows "lf_scrobble_queue (foldl offer s ps) = Some (keep_newest 512 (q @ ps)) \<and>
    lf_sent (foldl offer s ps) = lf_sent s @ ps"
proof -
  have "takes_scrobbles s" "scrobbles_waiting s = q"
    using assms by (simp_all add: takes_scrobbles_def scrobbles_waiting_def)
  with offers_keep_newest [of s ps] show ?thesis
    by (auto simp: takes_scrobbles_def scrobbles_waiting_def [of "foldl _ _ _"] LASTFM_SERVICE_SCROBBLE_QUEUE_LENGTH_def)
qed

section \<open>A service that has started\<close>

definition demo_lf_nvs :: lf_nvs_env where
  "demo_lf_nvs = \<lparr>ln_nvs = \<lambda>_. ESP_OK, ln_semaphore = True\<rparr>"

definition demo_lf_start :: lf_start_env where
  "demo_lf_start = \<lparr>lt_timer_now_playing = ESP_OK, lt_timer_pause_clear = ESP_OK, lt_nvs_queue = True,
     lt_nvs_task = True, lt_nvs = demo_lf_nvs, lt_stack = True, lt_task = True, lt_cmd_queue = True,
     lt_scrobble_queue = True, lt_mutex = True, lt_set = True, lt_meanwhile = []\<rparr>"

definition demo_lastfm :: lf_state where
  "demo_lastfm = foldl lf_step (lf_boot (\<lambda>_. None) (\<lambda>_. None)) [Lo_Init demo_lf_start, Lo_Task_Start demo_lf_start]"

lemma demo_lastfm_ready:
  "lf_scrobble_queue demo_lastfm = Some []" "lf_cmd_queue demo_lastfm = Some []" "lf_queue_set demo_lastfm = Some []"
  "lf_members demo_lastfm = {Lf_Command_Queue, Lf_Scrobble_Queue}"
  "lf_scrobbling_enabled demo_lastfm" "lf_scrobble_mutex demo_lastfm" "\<not> lf_set_overflow demo_lastfm"
  by code_simp+

lemma lastfm_queue_keeps_newest_witness:
  "lf_scrobble_queue (foldl offer (demo_lastfm\<lparr>lf_scrobble_queue := Some (replicate 512 no_track)\<rparr>)
      [\<lparr>lr_album_checksum = 7, lr_track_index = 1\<rparr>]) =
    Some (replicate 511 no_track @ [\<lparr>lr_album_checksum = 7, lr_track_index = 1\<rparr>])"
  using lastfm_queue_keeps_newest [of "demo_lastfm\<lparr>lf_scrobble_queue := Some (replicate 512 no_track)\<rparr>"
      "replicate 512 no_track" "[\<lparr>lr_album_checksum = 7, lr_track_index = 1\<rparr>]"] demo_lastfm_ready
  by (simp add: keep_newest_def LASTFM_SERVICE_SCROBBLE_QUEUE_LENGTH_def)

section \<open>The queue set without internet\<close>

text \<open>While there is no internet and nothing else is asked of the service: scrobbles come in, and the task looks
  for commands.\<close>

fun offline :: "lf_op \<Rightarrow> bool" where
  "offline (Lo_Quick (Lq_Send_Scrobble locked _ _)) = locked"
| "offline (Lo_Turn env _) = (\<not> wifi_service_has_internet (lv_wifi env))"
| "offline _ = False"

fun is_send :: "lf_op \<Rightarrow> bool" where
  "is_send (Lo_Quick (Lq_Send_Scrobble _ _ _)) = True"
| "is_send _ = False"

definition set_length :: nat where
  "set_length = LASTFM_SERVICE_CMD_QUEUE_LENGTH + LASTFM_SERVICE_SCROBBLE_QUEUE_LENGTH"

definition watched :: "lf_state \<Rightarrow> bool" where
  "watched s \<longleftrightarrow> takes_scrobbles s \<and> lf_cmd_queue s = Some [] \<and> Lf_Scrobble_Queue \<in> lf_members s"

lemma offline_send:
  assumes "watched s" and "lf_queue_set s = Some es"
  shows "watched (offer s p)"
    and "lf_queue_set (offer s p) = Some (if length es < set_length then es @ [Lf_Scrobble_Queue] else es)"
    and "lf_set_overflow (offer s p) \<longleftrightarrow> lf_set_overflow s \<or> length es \<ge> set_length"
  using assms offer_takes [of s p] unfolding watched_def
  by (simp_all add: offer_eq lf_note_sent_def lf_notify_def set_length_def)

lemma offline_turn: "watched s \<Longrightarrow> \<not> wifi_service_has_internet (lv_wifi env) \<Longrightarrow> lastfm_service_task_turn env b s = s"
  by (simp add: watched_def lastfm_service_task_turn_def serve_command_def receive_command_def)

lemma offline_run:
  assumes "watched s" and "lf_queue_set s = Some es" and "length es \<le> set_length" and "list_all offline operations"
  shows "lf_set_overflow (foldl lf_step s operations) \<longleftrightarrow>
    lf_set_overflow s \<or> length es + length (filter is_send operations) > set_length"
  using assms
proof (induction operations arbitrary: s es)
  case (Cons x xs)
  show ?case
  proof (cases x)
    case (Lo_Quick q)
    with Cons.prems(4) obtain checksum index where q: "q = Lq_Send_Scrobble True checksum index"
      by (cases q) auto
    define p where "p = \<lparr>lr_album_checksum = checksum, lr_track_index = index\<rparr>"
    have step: "foldl lf_step s (x # xs) = foldl lf_step (offer s p) xs" "is_send x" "list_all offline xs"
      using Cons.prems(4) by (simp_all add: Lo_Quick q offer_def p_def)
    define es' where "es' = (if length es < set_length then es @ [Lf_Scrobble_Queue] else es)"
    have "length es' \<le> set_length" "lf_queue_set (offer s p) = Some es'"
      using Cons.prems(3) offline_send(2) [OF Cons.prems(1,2)] by (simp_all add: es'_def)
    then have "lf_set_overflow (foldl lf_step (offer s p) xs) \<longleftrightarrow>
        lf_set_overflow (offer s p) \<or> length es' + length (filter is_send xs) > set_length"
      using Cons.IH [OF offline_send(1) [OF Cons.prems(1,2)]] step(3) by blast
    then show ?thesis
      using Cons.prems(3) step(2) offline_send(3) [OF Cons.prems(1,2), of p] unfolding step(1)
      by (auto simp: es'_def)
  next
    case (Lo_Turn env b)
    then show ?thesis
      using Cons offline_turn [OF Cons.prems(1), of env b] by simp
  qed (use Cons.prems(4) in auto)
qed simp

text \<open>C27: From a service whose task is running with empty queues, while there is no internet and nothing comes
  in but scrobbles, the kernel's assertion that the queue set has room fails exactly with the 521st
  scrobble, although the queue itself is bounded: each accepted scrobble leaves an entry in the set, the
  dropped ones too, and the task takes no entry out of the set until there is internet. The steps
  considered are those alone: the requests to scrobble and the turns of the task. Everything else that
  is sent to the task meanwhile, by the now-playing timer, a pause, the authentication or the settings,
  leaves an entry of its own in the set, so the bound of 521 is not claimed then: the set fills earlier.\<close>

theorem lastfm_offline_set_overflows:
  assumes "lf_scrobbling_enabled s" "lf_scrobble_mutex s" "lf_scrobble_queue s = Some []"
    and "lf_cmd_queue s = Some []" "lf_queue_set s = Some []" "Lf_Scrobble_Queue \<in> lf_members s"
    and "\<not> lf_set_overflow s" "list_all offline operations"
  shows "lf_set_overflow (foldl lf_step s operations) \<longleftrightarrow> length (filter is_send operations) > 520"
proof -
  have "watched s"
    using assms by (simp add: watched_def takes_scrobbles_def scrobbles_waiting_def)
  from offline_run [OF this assms(5) _ assms(8)] show ?thesis
    using assms(7) by (simp add: set_length_def LASTFM_SERVICE_CMD_QUEUE_LENGTH_def
        LASTFM_SERVICE_SCROBBLE_QUEUE_LENGTH_def)
qed

lemma lastfm_offline_set_overflows_witness:
  "lf_set_overflow (foldl lf_step demo_lastfm (replicate 521 (Lo_Quick (Lq_Send_Scrobble True 7 1))))"
  using lastfm_offline_set_overflows [of demo_lastfm "replicate 521 (Lo_Quick (Lq_Send_Scrobble True 7 1))"]
    demo_lastfm_ready by (simp add: list_all_iff)

end
