(* ===== verification/Lastfm_Account.thy ===== *)
theory Lastfm_Account
  imports Lastfm_Scrobbles
begin

text \<open>
  The account of the Last.fm service: the address of the backend, the body of an answer, and what
  of the account a restart brings back.
\<close>

section \<open>The body of an answer\<close>

lemma grow_capacity_enough: "required \<le> grow_capacity n required"
  by (induction n required rule: grow_capacity.induct) (subst grow_capacity.simps, simp add: Let_def)

definition collected :: "bytes list \<Rightarrow> lastfm_http_response_buffer \<Rightarrow> bool" where
  "collected pieces buffer \<longleftrightarrow> length (rb_data buffer) \<le> rb_capacity buffer \<and>
     (\<exists>n\<le>length pieces. rb_data buffer = concat (take n pieces) \<and>
        rb_err buffer = (if n = length pieces then ESP_OK else ESP_ERR_NO_MEM))"

lemma collected_next:
  assumes "collected pieces buffer"
  shows "collected (pieces @ [data]) (lastfm_service_http_event_handler realloc_ok data buffer)"
proof -
  obtain n where n: "n \<le> length pieces" "rb_data buffer = concat (take n pieces)"
    "rb_err buffer = (if n = length pieces then ESP_OK else ESP_ERR_NO_MEM)"
    "length (rb_data buffer) \<le> rb_capacity buffer"
    using assms by (auto simp: collected_def)
  define required where "required = length (rb_data buffer) + length data"
  define next_buffer where "next_buffer = lastfm_service_http_event_handler realloc_ok data buffer"
  have ok: "collected (pieces @ [data]) b"
    if "length (rb_data b) \<le> rb_capacity b" "rb_data b = concat (pieces @ [data])" "rb_err b = ESP_OK" for b
    using that unfolding collected_def by (auto intro: exI [of _ "length pieces + 1"])
  have failed: "collected (pieces @ [data]) b"
    if "length (rb_data b) \<le> rb_capacity b" "rb_data b = concat (take n pieces)" "rb_err b = ESP_ERR_NO_MEM" for b
    using that n(1) unfolding collected_def by (auto intro!: exI [of _ n])
  show ?thesis
  proof (cases "rb_err buffer = ESP_OK \<and> data \<noteq> []")
    case False
    then show ?thesis
      using n ok [of buffer] failed [of buffer] by (auto simp: lastfm_service_http_event_handler_def split: if_splits)
  next
    case True
    then have all: "n = length pieces"
      using n(3) by (auto split: if_splits)
    show ?thesis
      using True n all grow_capacity_enough [of required]
        ok [of "buffer\<lparr>rb_err := ESP_OK, rb_data := rb_data buffer @ data\<rparr>"]
        ok [of "buffer\<lparr>rb_capacity := _, rb_err := ESP_OK, rb_data := rb_data buffer @ data\<rparr>"]
        failed [of "buffer\<lparr>rb_err := ESP_ERR_NO_MEM\<rparr>"]
      by (auto simp: lastfm_service_http_event_handler_def lastfm_service_http_response_buffer_reserve_def Let_def
          required_def)
  qed
qed

lemma collected_run: "collected pieces (collect_response realloc_ok pieces)"
proof (induction pieces rule: rev_induct)
  case Nil
  then show ?case
    by (simp add: collect_response_def empty_response_buffer_def collected_def)
next
  case (snoc data pieces)
  then show ?case
    using collected_next [of pieces "collect_response realloc_ok pieces"] by (simp add: collect_response_def)
qed

text \<open>C28: However the body of an answer is cut into pieces and whichever allocations fail, the buffer never
  holds more than its capacity, which leaves the byte for the terminator; it holds the pieces in their
  order up to the first that could not be stored, and its error is clear exactly when all were stored.\<close>

theorem lastfm_response_collected:
  "length (rb_data (collect_response realloc_ok pieces)) \<le> rb_capacity (collect_response realloc_ok pieces) \<and>
   (\<exists>n\<le>length pieces. rb_data (collect_response realloc_ok pieces) = concat (take n pieces) \<and>
      rb_err (collect_response realloc_ok pieces) = (if n = length pieces then ESP_OK else ESP_ERR_NO_MEM))"
  using collected_run by (simp add: collected_def)

section \<open>The address of the backend\<close>

lemma has_substring_start: "starts_with needle str \<Longrightarrow> has_substring needle str"
  by (cases str) (auto simp: starts_with_def)

lemma has_substring_append: "has_substring needle (pre @ needle @ post)"
proof (induction pre)
  case Nil
  then show ?case
    by (simp add: has_substring_start starts_with_def)
qed simp

lemma starts_with_split: "starts_with pre str \<Longrightarrow> str = pre @ drop (length pre) str"
  unfolding starts_with_def by (metis append_take_drop_id)

lemma scheme_has_separator:
  assumes "starts_with http_prefix str \<or> starts_with https_prefix str"
  shows "has_substring scheme_separator str"
proof -
  have "http_prefix = [104, 116, 116, 112] @ scheme_separator"
    "https_prefix = [104, 116, 116, 112, 115] @ scheme_separator"
    by (simp_all add: http_prefix_def https_prefix_def scheme_separator_def)
  then obtain pre post where "str = pre @ scheme_separator @ post"
    using assms starts_with_split by (metis append.assoc)
  then show ?thesis
    by (simp only: has_substring_append)
qed

text \<open>An accepted address is the given one, or the given one after \<open>https://\<close> when it names no scheme; it
  begins with \<open>http://\<close> or \<open>https://\<close>, fits the buffer of 128 bytes with its terminator, and is
  accepted again as it is, so that an address read back from NVS or from the status and set again does
  not change.\<close>

theorem lastfm_url_normalised:
  assumes "lastfm_service_normalize_base_url (Some raw) (LASTFM_SERVICE_BASE_URL_MAX_LEN + 1) = Inr url"
  shows "url = (if has_substring scheme_separator (cstr raw) then cstr raw else https_prefix @ cstr raw) \<and>
    (starts_with http_prefix url \<or> starts_with https_prefix url) \<and> length url \<le> 127 \<and> 0 \<notin> set url \<and>
    lastfm_service_normalize_base_url (Some url) (LASTFM_SERVICE_BASE_URL_MAX_LEN + 1) = Inr url"
proof -
  have url: "url = (if has_substring scheme_separator (cstr raw) then cstr raw else https_prefix @ cstr raw)"
    and short: "length url < 128"
    and scheme: "starts_with http_prefix url \<or> starts_with https_prefix url"
    using assms by (auto simp: lastfm_service_normalize_base_url_def Let_def LASTFM_SERVICE_BASE_URL_MAX_LEN_def
        starts_with_def split: if_splits)
  have "0 \<notin> set https_prefix"
    by (simp add: https_prefix_def)
  then have no_nul: "0 \<notin> set url"
    using url cstr_no_nul [of raw] by auto
  then have "cstr url = url"
    by (rule cstr_id)
  moreover have "url \<noteq> []"
    using scheme by (auto simp: starts_with_def http_prefix_def https_prefix_def)
  ultimately have "lastfm_service_normalize_base_url (Some url) (LASTFM_SERVICE_BASE_URL_MAX_LEN + 1) = Inr url"
    using short scheme scheme_has_separator [OF scheme]
    by (auto simp: lastfm_service_normalize_base_url_def Let_def LASTFM_SERVICE_BASE_URL_MAX_LEN_def)
  with url short scheme no_nul show ?thesis
    by auto
qed

lemma lastfm_url_normalised_witness:
  "lastfm_service_normalize_base_url (Some (https_prefix @ [102, 109])) (LASTFM_SERVICE_BASE_URL_MAX_LEN + 1) =
     Inr (https_prefix @ [102, 109])"
proof -
  have "lastfm_service_normalize_base_url (Some [102, 109, 0, 1]) (LASTFM_SERVICE_BASE_URL_MAX_LEN + 1) =
      Inr (https_prefix @ [102, 109])"
    by code_simp
  from lastfm_url_normalised [OF this] show ?thesis
    by blast
qed

section \<open>What a restart brings back\<close>

definition nvs_fine :: "lf_nvs_env \<Rightarrow> bool" where
  "nvs_fine ne \<longleftrightarrow> (\<forall>operation. ln_nvs ne operation = ESP_OK) \<and> ln_semaphore ne"

definition starts_up :: "lf_start_env \<Rightarrow> bool" where
  "starts_up env \<longleftrightarrow> lt_timer_now_playing env = ESP_OK \<and> lt_timer_pause_clear env = ESP_OK \<and>
     lt_nvs_queue env \<and> lt_nvs_task env \<and> nvs_fine (lt_nvs env) \<and> lt_stack env \<and> lt_task env"

text \<open>A restart: the statics are gone, what is stored in NVS is there.\<close>

definition restart :: "lf_start_env \<Rightarrow> lf_state \<Rightarrow> esp_err \<times> lf_state" where
  "restart env s = lastfm_service_init env (lf_boot (lf_nvs_strings s) (lf_nvs_i32 s))"

definition fits :: "string \<Rightarrow> lf_state \<Rightarrow> bool" where
  "fits key s \<longleftrightarrow> (case lf_nvs_strings s key of None \<Rightarrow> True | Some value \<Rightarrow> c_field value)"

definition texts_fit :: "lf_state \<Rightarrow> bool" where
  "texts_fit s \<longleftrightarrow> fits ''auth_url'' s \<and> fits ''sk'' s \<and> fits ''token'' s \<and> fits ''username'' s"

definition stored :: "string \<Rightarrow> lf_state \<Rightarrow> bytes" where
  "stored key s = (case lf_nvs_strings s key of None \<Rightarrow> [] | Some value \<Rightarrow> value)"

lemma get_str_fine:
  assumes "nvs_fine ne" and "fits key s"
  shows "\<exists>t. nvs_get_str_or_init ne key 128 [] s = (Inr (stored key s), t) \<and>
    (\<forall>other. stored other t = stored other s) \<and> (\<forall>other. fits other t = fits other s)"
  using assms by (auto simp: nvs_get_str_or_init_def nvs_fine_def nvs_set_str_def then_commit_def stored_def
      fits_def c_field_def c_strncpy_def cstr_id Let_def split: option.splits)

lemma get_i32_fine: "nvs_fine ne \<Longrightarrow> \<exists>t v. nvs_get_i32_or_init ne key n s = (Inr v, t)"
  by (auto simp: nvs_get_i32_or_init_def nvs_fine_def nvs_set_i32_def then_commit_def Let_def split: option.splits)

lemma load_fine:
  assumes "nvs_fine ne" and "texts_fit s"
  shows "\<exists>st t. load_nvs_state ne s = (Inr st, t) \<and> ns_auth_url st = stored ''auth_url'' s \<and>
    ns_session_key st = stored ''sk'' s \<and> ns_token st = stored ''token'' s \<and> ns_username st = stored ''username'' s"
proof -
  note get = get_str_fine [OF assms(1)]
  have fit: "fits ''auth_url'' s" "fits ''sk'' s" "fits ''token'' s" "fits ''username'' s"
    using assms(2) by (simp_all add: texts_fit_def)
  obtain s1 where s1: "nvs_get_str_or_init ne ''auth_url'' 128 [] s = (Inr (stored ''auth_url'' s), s1)"
      "\<forall>other. stored other s1 = stored other s" "\<forall>other. fits other s1 = fits other s"
    using get [OF fit(1)] by blast
  obtain s2 where s2: "nvs_get_str_or_init ne ''sk'' 128 [] s1 = (Inr (stored ''sk'' s), s2)"
      "\<forall>other. stored other s2 = stored other s" "\<forall>other. fits other s2 = fits other s"
    using get [of "''sk''" s1] s1 fit by auto
  obtain s3 where s3: "nvs_get_str_or_init ne ''token'' 128 [] s2 = (Inr (stored ''token'' s), s3)"
      "\<forall>other. stored other s3 = stored other s" "\<forall>other. fits other s3 = fits other s"
    using get [of "''token''" s2] s2 fit by auto
  obtain s4 where s4: "nvs_get_str_or_init ne ''username'' 128 [] s3 = (Inr (stored ''username'' s), s4)"
    using get [of "''username''" s3] s3 fit by auto
  obtain s5 v where s5: "nvs_get_i32_or_init ne ''scrobble_en'' 1 s4 = (Inr v, s5)"
    using get_i32_fine [OF assms(1)] by blast
  obtain s6 w where s6: "nvs_get_i32_or_init ne ''nowplay_en'' 1 s5 = (Inr w, s6)"
    using get_i32_fine [OF assms(1)] by blast
  show ?thesis
    using s1(1) s2(1) s3(1) s4 s5 s6
    by (simp add: load_nvs_state_def and_then_def LASTFM_SERVICE_BASE_URL_MAX_LEN_def
        LASTFM_SERVICE_SESSION_KEY_MAX_LEN_def LASTFM_SERVICE_TOKEN_MAX_LEN_def LASTFM_SERVICE_USERNAME_MAX_LEN_def)
qed

lemma restart_account:
  assumes "starts_up env" and "texts_fit s"
  shows "\<exists>r. restart env s = (ESP_OK, r) \<and>
    lf_auth_url r = stored ''auth_url'' s \<and> lf_has_auth r = (stored ''auth_url'' s \<noteq> []) \<and>
    lf_session_key r = stored ''sk'' s \<and> lf_has_session r = (stored ''sk'' s \<noteq> []) \<and>
    lf_token r = stored ''token'' s \<and> lf_has_token r = (stored ''token'' s \<noteq> []) \<and>
    lf_username r = stored ''username'' s"
proof -
  define s2 where "s2 = (lf_boot (lf_nvs_strings s) (lf_nvs_i32 s))
    \<lparr>lf_now_playing_timer := Some False, lf_pause_clear_timer := Some False, lf_nvs_queue := True, lf_nvs_task := True\<rparr>"
  have same: "lf_nvs_strings s2 = lf_nvs_strings s" "lf_nvs_queue s2"
    by (simp_all add: s2_def lf_boot_def)
  have fit2: "texts_fit s2" and stored2: "stored key s2 = stored key s" for key
    using assms(2) by (simp_all add: texts_fit_def fits_def stored_def same)
  have fine: "nvs_fine (lt_nvs env)"
    using assms(1) by (simp add: starts_up_def)
  obtain st t where load: "load_nvs_state (lt_nvs env) s2 = (Inr st, t)"
    "ns_auth_url st = stored ''auth_url'' s" "ns_session_key st = stored ''sk'' s"
    "ns_token st = stored ''token'' s" "ns_username st = stored ''username'' s"
    using load_fine [OF fine fit2] by (auto simp: stored2)
  have copied: "lastfm_service_copy_string 128 (Some (stored key s)) = stored key s" if "fits key s" for key
    using that by (auto simp: lastfm_service_copy_string_def stored_def fits_def c_field_def c_strncpy_def cstr_id
        split: option.splits)
  have "lastfm_service_dispatch_nvs_request (lt_nvs env) LASTFM_NVS_CMD_LOAD_STATE s2 = ((ESP_OK, Some st), t)"
    using fine same(2) load(1) by (simp add: lastfm_service_dispatch_nvs_request_def
        lastfm_service_process_nvs_request_def nvs_fine_def)
  moreover have "lastfm_service_init_timers env (lf_boot (lf_nvs_strings s) (lf_nvs_i32 s)) =
      (ESP_OK, (lf_boot (lf_nvs_strings s) (lf_nvs_i32 s))
        \<lparr>lf_now_playing_timer := Some False, lf_pause_clear_timer := Some False\<rparr>)"
    using assms(1) by (simp add: lastfm_service_init_timers_def starts_up_def lf_boot_def)
  moreover have "lastfm_service_init_nvs_proxy env ((lf_boot (lf_nvs_strings s) (lf_nvs_i32 s))
        \<lparr>lf_now_playing_timer := Some False, lf_pause_clear_timer := Some False\<rparr>) = (ESP_OK, s2)"
    using assms(1) by (simp add: lastfm_service_init_nvs_proxy_def starts_up_def s2_def lf_boot_def)
  ultimately show ?thesis
    using assms load(2-5)
    by (simp add: restart_def lastfm_service_init_def lastfm_service_load_persisted_state_def starts_up_def copied Let_def
        texts_fit_def LASTFM_SERVICE_BASE_URL_MAX_LEN_def LASTFM_SERVICE_SESSION_KEY_MAX_LEN_def
        LASTFM_SERVICE_TOKEN_MAX_LEN_def LASTFM_SERVICE_USERNAME_MAX_LEN_def)
qed

lemma copied_strncpy: "lastfm_service_copy_string (Suc n) (Some str) = c_strncpy n str"
  by (simp add: lastfm_service_copy_string_def)

lemma copied_128: "lastfm_service_copy_string 128 (Some str) = c_strncpy 127 str"
  using copied_strncpy [of 127] by simp

lemma store_session_fine:
  assumes "nvs_fine ne" and "lf_nvs_queue s"
  shows "snd (lastfm_service_store_session_in_nvs ne sk username s) =
    s\<lparr>lf_nvs_strings := (lf_nvs_strings s)(''sk'' \<mapsto> c_strncpy 127 sk, ''username'' \<mapsto> c_strncpy 127 username)\<rparr>"
  using assms by (simp add: lastfm_service_store_session_in_nvs_def dispatch_store_def nvs_fine_def
      lastfm_service_dispatch_nvs_request_def lastfm_service_process_nvs_request_def nvs_set_str_def then_commit_def
      copied_128 LASTFM_SERVICE_SESSION_KEY_MAX_LEN_def LASTFM_SERVICE_USERNAME_MAX_LEN_def)

lemma request_auth_ok:
  assumes "lastfm_service_request_auth env username password s = (ESP_OK, t)"
    and "nvs_fine (lv_nvs env)" and "lf_nvs_queue t"
  shows "lf_has_session t \<and> lf_session_key t = stored ''sk'' t \<and> lf_username t = c_strncpy 127 username \<and>
    stored ''username'' t = c_strncpy 127 username \<and> fits ''sk'' t \<and> fits ''username'' t"
proof -
  define s2 where "s2 = lf_perform env (Lf_Get_Mobile_Session (lf_auth_url s) username password) (s\<lparr>lf_busy := True\<rparr>)"
  obtain sk where t: "t = (snd (lastfm_service_store_session_in_nvs (lv_nvs env) sk username
      (s2\<lparr>lf_session_key := c_strncpy LASTFM_SERVICE_SESSION_KEY_MAX_LEN sk, lf_has_session := True\<rparr>)))
      \<lparr>lf_username := c_strncpy LASTFM_SERVICE_USERNAME_MAX_LEN username, lf_busy := False\<rparr>"
    using assms(1) by (auto simp: lastfm_service_request_auth_def lf_not_busy_def Let_def case_prod_beta
        lastfm_service_require_internet_connection_def s2_def split: if_splits option.splits)
  have "lf_nvs_queue (s2\<lparr>lf_session_key := c_strncpy LASTFM_SERVICE_SESSION_KEY_MAX_LEN sk, lf_has_session := True\<rparr>)"
    using assms(3) unfolding t
    by (subst (asm) nvs_only_eq [OF nvs_only_store(2)]) simp
  then show ?thesis
    unfolding t by (subst store_session_fine [OF assms(2)])
      (simp_all add: store_session_fine [OF assms(2)] stored_def fits_def LASTFM_SERVICE_SESSION_KEY_MAX_LEN_def
        LASTFM_SERVICE_USERNAME_MAX_LEN_def)
qed

text \<open>When a sign-in succeeded and NVS stored it, the service that starts after a restart has the same
  session key and the same user name, and is signed in unless the key was empty; the address and the
  token are those that were stored.\<close>

theorem lastfm_session_survives_restart:
  assumes "lastfm_service_request_auth env username password s = (ESP_OK, t)"
    and "nvs_fine (lv_nvs env)" and "lf_nvs_queue t" and "fits ''auth_url'' t" and "fits ''token'' t"
    and "starts_up start"
  shows "\<exists>r. restart start t = (ESP_OK, r) \<and> lf_session_key r = lf_session_key t \<and>
    lf_username r = lf_username t \<and> lf_username t = c_strncpy 127 username \<and> lf_has_session t \<and>
    lf_has_session r = (lf_session_key t \<noteq> []) \<and> lf_auth_url r = stored ''auth_url'' t \<and>
    lf_token r = stored ''token'' t"
proof -
  note ok = request_auth_ok [OF assms(1-3)]
  with assms(4,5) have "texts_fit t"
    by (simp add: texts_fit_def)
  from restart_account [OF assms(6) this] ok show ?thesis
    by auto
qed

text \<open>The store says that a key is missing only when it is.\<close>

definition tells_missing :: "lf_nvs_env \<Rightarrow> bool" where
  "tells_missing ne \<longleftrightarrow> (\<forall>key. ln_nvs ne (Lnvs_Erase key) \<noteq> ESP_ERR_NVS_NOT_FOUND)"

lemma erase_ok:
  "tells_missing ne \<Longrightarrow> fst (lastfm_service_nvs_erase_key_if_present ne key s) = ESP_OK \<Longrightarrow>
   lf_nvs_strings (snd (lastfm_service_nvs_erase_key_if_present ne key s)) = (lf_nvs_strings s)(key := None)"
  by (auto simp: lastfm_service_nvs_erase_key_if_present_def tells_missing_def Let_def split: if_splits)

lemma clear_session_ok:
  assumes "lastfm_service_clear_session_in_nvs ne s = (ESP_OK, t)" and "tells_missing ne"
  shows "lf_nvs_strings t = (lf_nvs_strings s)(''sk'' := None, ''username'' := None, ''token'' := None)"
proof -
  let ?erase = "lastfm_service_nvs_erase_key_if_present ne"
  define s1 where "s1 = ?erase ''sk'' s"
  define s2 where "s2 = (if fst s1 = ESP_OK then ?erase ''username'' (snd s1) else s1)"
  define s3 where "s3 = (if fst s2 = ESP_OK then ?erase ''token'' (snd s2) else s2)"
  have "lastfm_service_process_nvs_request ne LASTFM_NVS_CMD_CLEAR_SESSION s = ((ESP_OK, None), t)"
    using assms by (auto simp: lastfm_service_clear_session_in_nvs_def dispatch_store_def
        lastfm_service_dispatch_nvs_request_def lastfm_service_process_nvs_request_def case_prod_beta Let_def
        split: if_splits)
  then have ok: "fst s3 = ESP_OK" and t: "t = snd s3"
    by (auto simp: lastfm_service_process_nvs_request_def case_prod_beta Let_def then_commit_def s1_def s2_def s3_def
        split: if_splits)
  from ok have "fst s2 = ESP_OK"
    by (auto simp: s3_def split: if_splits)
  moreover from this have "fst s1 = ESP_OK"
    by (auto simp: s2_def split: if_splits)
  ultimately show ?thesis
    using ok erase_ok [OF assms(2), of "''sk''" s] erase_ok [OF assms(2), of "''username''" "snd s1"] erase_ok [OF assms(2), of "''token''" "snd s2"]
    by (simp add: t s3_def s2_def s1_def)
qed

lemma logout_ok:
  assumes "lastfm_service_logout ne s = (ESP_OK, t)" and "tells_missing ne"
  shows "lf_session_key t = [] \<and> lf_username t = [] \<and> lf_token t = [] \<and> \<not> lf_has_session t \<and> \<not> lf_has_token t \<and>
    lf_nvs_strings t ''sk'' = None \<and> lf_nvs_strings t ''username'' = None \<and> lf_nvs_strings t ''token'' = None"
proof -
  obtain s1 where "lastfm_service_clear_session_in_nvs ne s = (ESP_OK, s1)" and
    "t = s1\<lparr>lf_session_key := [], lf_username := [], lf_token := [], lf_has_session := False, lf_has_token := False\<rparr>"
    using assms by (auto simp: lastfm_service_logout_def case_prod_beta split: if_splits) (metis prod.collapse)
  with clear_session_ok [OF _ assms(2)] show ?thesis
    by simp
qed

text \<open>When a sign-out succeeded, neither the service nor its store holds a session key, a user name or a
  token, and the service that starts after a restart is not signed in; the address of the backend is
  still the stored one.\<close>

theorem lastfm_logout_forgets:
  assumes "lastfm_service_logout ne s = (ESP_OK, t)" and "tells_missing ne"
    and "fits ''auth_url'' t" and "starts_up start"
  shows "lf_session_key t = [] \<and> lf_token t = [] \<and> lf_username t = [] \<and> \<not> lf_has_session t \<and> \<not> lf_has_token t \<and>
    (\<exists>r. restart start t = (ESP_OK, r) \<and> \<not> lf_has_session r \<and> \<not> lf_has_token r \<and> lf_session_key r = [] \<and>
       lf_username r = [] \<and> lf_auth_url r = stored ''auth_url'' t)"
proof -
  note gone = logout_ok [OF assms(1,2)]
  with assms(3) have fit: "texts_fit t" and "stored ''sk'' t = []" "stored ''username'' t = []" "stored ''token'' t = []"
    by (simp_all add: texts_fit_def fits_def stored_def)
  with restart_account [OF assms(4) fit] gone show ?thesis
    by auto
qed

text \<open>A device on a network whose backend answers every request with the same body.\<close>

definition demo_online :: wf_state where
  "demo_online = (wf_boot (\<lambda>_. None) None None)\<lparr>wf_link_state := WIFI_SVC_STATE_CONNECTED, wf_connectivity_ok := True,
     wf_have_ip_info := True\<rparr>"

definition demo_lf_env :: lf_env where
  "demo_lf_env = \<lparr>lv_wifi = demo_online, lv_wifi_woken = demo_online, lv_history = ph_boot, lv_nvs = demo_lf_nvs, lv_locked = True, lv_json_alloc = True, lv_client_alloc = True,
     lv_http = (\<lambda>_. (ESP_OK, 200, [[107], [101, 121]])), lv_realloc = (\<lambda>_. True), lv_json_token = Some,
     lv_json_session_key = Some, lv_unix_time = 1700000000, lv_during_sleep = [], lv_during_request = []\<rparr>"

definition demo_signed_out :: lf_state where
  "demo_signed_out = snd (lastfm_service_set_auth_url demo_lf_nvs (Some [102, 109]) demo_lastfm)"


definition demo_sign_in :: "esp_err \<times> lf_state" where
  "demo_sign_in = lastfm_service_request_auth demo_lf_env [109, 101] [112] demo_signed_out"

lemma demo_sign_in_ok:
  "fst demo_sign_in = ESP_OK" "lf_nvs_queue (snd demo_sign_in)" "fits ''auth_url'' (snd demo_sign_in)"
  "fits ''token'' (snd demo_sign_in)" "lf_session_key (snd demo_sign_in) = [107, 101, 121]"
  "fits ''sk'' (snd demo_sign_in)" "fits ''username'' (snd demo_sign_in)"
  by code_simp+

lemma demo_fine: "nvs_fine demo_lf_nvs" "lv_nvs demo_lf_env = demo_lf_nvs" "starts_up demo_lf_start"
    "tells_missing demo_lf_nvs"
  by (simp_all add: nvs_fine_def tells_missing_def demo_lf_nvs_def demo_lf_env_def starts_up_def demo_lf_start_def)

lemma lastfm_session_survives_restart_witness:
  "\<exists>r. restart demo_lf_start (snd demo_sign_in) = (ESP_OK, r) \<and> lf_session_key r = [107, 101, 121] \<and> lf_has_session r"
proof -
  have signed_in: "lastfm_service_request_auth demo_lf_env [109, 101] [112] demo_signed_out = (ESP_OK, snd demo_sign_in)"
    using demo_sign_in_ok(1) unfolding demo_sign_in_def by (metis prod.collapse)
  have fine: "nvs_fine (lv_nvs demo_lf_env)"
    by (simp add: demo_fine)
  show ?thesis
    using lastfm_session_survives_restart [OF signed_in fine demo_sign_in_ok(2-4) demo_fine(3)] demo_sign_in_ok(5)
    by auto
qed

definition demo_sign_out :: "esp_err \<times> lf_state" where
  "demo_sign_out = lastfm_service_logout demo_lf_nvs (snd demo_sign_in)"

lemma demo_sign_out_ok: "fst demo_sign_out = ESP_OK" "fits ''auth_url'' (snd demo_sign_out)"
  by code_simp+

lemma lastfm_logout_forgets_witness:
  "\<exists>r. restart demo_lf_start (snd demo_sign_out) = (ESP_OK, r) \<and> \<not> lf_has_session r \<and> lf_session_key r = []"
proof -
  have signed_out: "lastfm_service_logout demo_lf_nvs (snd demo_sign_in) = (ESP_OK, snd demo_sign_out)"
    using demo_sign_out_ok(1) unfolding demo_sign_out_def by (metis prod.collapse)
  show ?thesis
    using lastfm_logout_forgets [OF signed_out demo_fine(4) demo_sign_out_ok(2) demo_fine(3)] by auto
qed

end
