(* ===== verification/Bluetooth_Props.thy ===== *)
theory Bluetooth_Props
  imports Bluetooth
begin

text \<open>
  What holds of the Bluetooth service: an invariant of its state kept by every operation and callback,
  the choice of the sink to pair with, the confirmation of a pairing as a cell that holds the last
  request, the keys of remote control, the serial link and the stop.
\<close>

section \<open>An invariant\<close>

definition bt_queue_ok :: "bt_state \<Rightarrow> bool" where
  "bt_queue_ok s \<longleftrightarrow> (bt_initialised s \<longrightarrow> bt_cmd_queue s \<noteq> None) \<and>
     pred_option (\<lambda>q. length q \<le> BT_SVC_QUEUE_DEPTH) (bt_cmd_queue s)"

definition bt_found_ok :: "bt_state \<Rightarrow> bool" where
  "bt_found_ok s \<longleftrightarrow> length (bt_discovered s) \<le> BT_SVC_MAX_DISCOVERED_DEVICES \<and>
     distinct (map dr_bda (bt_discovered s)) \<and> list_all dr_valid (bt_discovered s)"

definition bt_link_ok :: "bt_state \<Rightarrow> bool" where
  "bt_link_ok s \<longleftrightarrow> (bt_a2dp_connected s \<or> bt_connected_bda s = zero_bda) \<and> bt_avrc_tl s < 16"

definition bt_confirm_ok :: "bt_state \<Rightarrow> bool" where
  "bt_confirm_ok s \<longleftrightarrow> bt_pairing_confirm_pending s \<or>
     (bt_pairing_confirm_bda s = zero_bda \<and> bt_pairing_confirm_numeric_value s = 0)"

definition bt_spp_ok :: "bt_state \<Rightarrow> bool" where
  "bt_spp_ok s \<longleftrightarrow> length (bt_spp_handle_table s) = BT_SVC_BLE_SPP_IDX_NB \<and> \<not> bt_spp_data_indications_enabled s \<and>
     (bt_spp_connected s \<or> bt_spp_conn_id s = 0xFFFF \<and> bt_spp_remote_bda s = zero_bda)"

definition bt_inv :: "bt_state \<Rightarrow> bool" where
  "bt_inv s \<longleftrightarrow> bt_queue_ok s \<and> bt_found_ok s \<and> bt_link_ok s \<and> bt_confirm_ok s \<and> bt_spp_ok s"

lemmas bt_inv_defs = bt_inv_def bt_queue_ok_def bt_found_ok_def bt_link_ok_def bt_confirm_ok_def bt_spp_ok_def

lemma bt_inv_boot: "bt_inv bt_boot"
  by (simp add: bt_inv_defs bt_boot_def)

lemma bt_inv_log [simp]: "bt_inv (bt_log c s) = bt_inv s"
  by (simp add: bt_inv_defs bt_log_def)

lemma bt_inv_do [simp]: "bt_inv (snd (bt_do env c s)) = bt_inv s"
  by (simp add: bt_do_def)

lemma bt_inv_post [simp]: "bt_inv (bt_svc_post_event e s) = bt_inv s"
  by (simp add: bt_svc_post_event_def)

lemma bt_inv_conn_cb [simp]: "bt_inv (bt_svc_invoke_connection_callback e b s) = bt_inv s"
  by (simp add: bt_svc_invoke_connection_callback_def)

lemma bt_inv_flags [simp]:
  "bt_inv (s\<lparr>bt_pair_request_pending := a\<rparr>) = bt_inv s"
  "bt_inv (s\<lparr>bt_discovery_running := a\<rparr>) = bt_inv s"
  "bt_inv (s\<lparr>bt_avrc_rn_vol_registered := a\<rparr>) = bt_inv s"
  "bt_inv (s\<lparr>bt_avrc_ct_vol_registered := a\<rparr>) = bt_inv s"
  "bt_inv (s\<lparr>bt_spp_data_notifications_enabled := a\<rparr>) = bt_inv s"
  "bt_inv (s\<lparr>bt_spp_status_notifications_enabled := a\<rparr>) = bt_inv s"
  "bt_inv (s\<lparr>bt_spp_mtu := m\<rparr>) = bt_inv s"
  "bt_inv (s\<lparr>bt_spp_gatts_if := i\<rparr>) = bt_inv s"
  "bt_inv (s\<lparr>bt_pcm_provider := p\<rparr>) = bt_inv s"
  "bt_inv (s\<lparr>bt_connection_cb := p\<rparr>) = bt_inv s"
  "bt_inv (s\<lparr>bt_media_key_cb := p\<rparr>) = bt_inv s"
  "bt_inv (s\<lparr>bt_spp_rx_cb := p\<rparr>) = bt_inv s"
  by (simp_all add: bt_inv_defs)

lemma bt_inv_queue_send [simp]: "bt_inv s \<Longrightarrow> bt_inv (snd (bt_svc_queue_send m s))"
  by (auto simp: bt_svc_queue_send_def bt_inv_defs split: option.splits)

lemma bt_inv_api_send [simp]: "bt_inv s \<Longrightarrow> bt_inv (snd (bt_svc_api_send m s))"
  by (simp add: bt_svc_api_send_def split: prod.split) (metis bt_inv_queue_send snd_conv)

lemma tl_small: "(x AND 0x0F :: u8) < 16"
proof -
  have "x AND 0x0F \<le> (0x0F :: u8)" by (rule word_and_le1)
  also have "\<dots> < 16" by simp
  finally show ?thesis .
qed

lemma bt_inv_next_tl [simp]: "bt_inv s \<Longrightarrow> bt_inv (next_tl s)"
  by (simp add: next_tl_def bt_inv_defs tl_small)

lemma bt_inv_register_volume [simp]: "bt_inv s \<Longrightarrow> bt_inv (register_volume s)"
  by (simp add: register_volume_def Let_def)

lemma bt_inv_reset_link [simp]: "bt_inv s \<Longrightarrow> bt_inv (bt_svc_spp_reset_link_state s)"
  by (simp add: bt_svc_spp_reset_link_state_def bt_inv_defs)

lemma bt_inv_spp_send [simp]:
  "bt_inv (snd (bt_svc_spp_send_value env h v c s)) = bt_inv s"
  "bt_inv (snd (bt_svc_spp_send_data env v s)) = bt_inv s"
  "bt_inv (snd (bt_svc_spp_send_status env st s)) = bt_inv s"
  by (simp_all add: bt_svc_spp_send_value_def bt_svc_spp_send_data_def bt_svc_spp_send_status_def Let_def
      split: option.split)

lemma first_index_Some:
  assumes "first_index p xs = Some i"
  shows "i < length xs" and "p (xs ! i)" and "\<And>j. j < i \<Longrightarrow> \<not> p (xs ! j)"
  using assms by (auto simp: first_index_def find_Some_iff)

lemma first_index_None: "first_index p xs = None \<longleftrightarrow> (\<forall>x \<in> set xs. \<not> p x)"
  by (fastforce simp: first_index_def find_None_iff in_set_conv_nth)

lemma bt_inv_found:
  assumes "bt_inv s" and "length ds \<le> BT_SVC_MAX_DISCOVERED_DEVICES" and "distinct (map dr_bda ds)"
    and "list_all dr_valid ds"
  shows "bt_inv (s\<lparr>bt_discovered := ds\<rparr>)"
  using assms by (simp add: bt_inv_defs)

lemma bt_inv_store [simp]:
  assumes inv: "bt_inv s" shows "bt_inv (bt_svc_store_discovery_result r s)"
proof (cases "bt_svc_find_discovery_result (dr_bda r) s")
  case None
  then have new: "dr_bda r \<notin> dr_bda ` set (bt_discovered s)"
    by (auto simp: bt_svc_find_discovery_result_def first_index_None)
  show ?thesis
    using inv new None
    by (auto simp: bt_svc_store_discovery_result_def Let_def bt_inv_defs)
next
  case (Some i)
  let ?ds = "bt_discovered s"
  have i: "i < length ?ds" "dr_bda (?ds ! i) = dr_bda r"
    using Some first_index_Some[of _ ?ds i] by (auto simp: bt_svc_find_discovery_result_def)
  have "map dr_bda (?ds[i := r\<lparr>dr_valid := True\<rparr>]) = map dr_bda ?ds"
    using i by (simp add: map_update list_update_same_conv)
  moreover have "list_all dr_valid (?ds[i := r\<lparr>dr_valid := True\<rparr>])"
    using inv set_update_subset_insert[of ?ds i "r\<lparr>dr_valid := True\<rparr>"]
    by (auto simp: bt_inv_def bt_found_ok_def list_all_iff)
  ultimately show ?thesis
    using inv Some bt_inv_found[OF inv, of "?ds[i := r\<lparr>dr_valid := True\<rparr>]"]
    by (simp add: bt_svc_store_discovery_result_def Let_def bt_inv_defs)
qed

lemma bt_inv_reset_found [simp]: "bt_inv s \<Longrightarrow> bt_inv (bt_svc_reset_discovery_results s)"
  by (simp add: bt_svc_reset_discovery_results_def bt_inv_defs)

lemma bt_inv_confirm [simp]:
  "bt_inv s \<Longrightarrow> bt_inv (bt_svc_set_pending_pairing_confirm b v s)"
  "bt_inv s \<Longrightarrow> bt_inv (bt_svc_clear_pending_pairing_confirm s)"
  by (simp_all add: bt_svc_set_pending_pairing_confirm_def bt_svc_clear_pending_pairing_confirm_def bt_inv_defs)

lemma bt_inv_take_confirm [simp]: "bt_inv s \<Longrightarrow> bt_inv (snd (bt_svc_take_pending_pairing_confirm s))"
  by (simp add: bt_svc_take_pending_pairing_confirm_def)

lemma bt_inv_best [simp]: "bt_inv s \<Longrightarrow> bt_inv (bt_svc_select_and_connect_best_sink s)"
  by (simp add: bt_svc_select_and_connect_best_sink_def Let_def split: option.split)

lemma bt_inv_last_bonded [simp]: "bt_inv s \<Longrightarrow> bt_inv (snd (bt_svc_connect_last_bonded_device env s))"
  by (simp add: bt_svc_connect_last_bonded_device_def split: sum.split)

lemma bt_inv_a2dp_state [simp]: "bt_inv s \<Longrightarrow> bt_inv (bt_svc_process_a2dp_state st b s)"
  by (simp add: bt_svc_process_a2dp_state_def Let_def) (simp add: bt_inv_defs)

lemma bt_inv_confirm_reply [simp]: "bt_inv s \<Longrightarrow> bt_inv (bt_svc_process_confirm_reply a s)"
  using bt_inv_take_confirm[of s]
  by (cases "bt_svc_take_pending_pairing_confirm s")
    (auto simp: bt_svc_process_confirm_reply_def split: option.split)

lemma bt_inv_msg [simp]: "bt_inv s \<Longrightarrow> bt_inv (bt_svc_process_msg env m s)"
  by (cases m)
    (simp_all add: bt_svc_process_msg_def bt_svc_process_pair_best_def bt_svc_process_start_discovery_def
      bt_svc_process_media_key_def bt_svc_process_discovery_state_def bt_svc_process_auth_complete_def
      bt_svc_process_passthrough_cmd_def bt_svc_process_set_abs_vol_def bt_svc_process_rn_caps_def
      bt_svc_process_vol_change_def bt_svc_process_reg_vol_notify_def Let_def split: prod.split)

lemma bt_inv_dequeue: "bt_inv s \<Longrightarrow> bt_cmd_queue s = Some (m # q) \<Longrightarrow> bt_inv (s\<lparr>bt_cmd_queue := Some q\<rparr>)"
  by (simp add: bt_inv_defs)

lemma bt_inv_drain: "bt_inv s \<Longrightarrow> bt_inv (bt_svc_drain env n s)"
  by (induction env n s rule: bt_svc_drain.induct) (auto simp: bt_inv_dequeue split: option.splits list.splits)

lemma bt_inv_process_once [simp]: "bt_inv s \<Longrightarrow> bt_inv (bluetooth_service_process_once env s)"
  by (simp add: bluetooth_service_process_once_def bt_inv_drain)

lemma bt_inv_write [simp]: "bt_inv s \<Longrightarrow> bt_inv (spp_write env h v s)"
proof -
  assume inv: "bt_inv s"
  then have "bt_inv (s\<lparr>bt_spp_data_notifications_enabled := a, bt_spp_data_indications_enabled := False\<rparr>)" for a
    by (simp add: bt_inv_defs)
  then show ?thesis using inv by (simp add: spp_write_def Let_def)
qed

lemma bt_inv_gatts [simp]: "bt_inv s \<Longrightarrow> bt_inv (bt_svc_spp_gatts_cb env e i s)"
proof -
  assume inv: "bt_inv s"
  have table: "length t = BT_SVC_BLE_SPP_IDX_NB \<Longrightarrow> bt_inv (s\<lparr>bt_spp_handle_table := t\<rparr>)" for t
    using inv by (simp add: bt_inv_defs)
  have conn: "bt_inv (s\<lparr>bt_spp_connected := True, bt_spp_conn_id := c, bt_spp_gatts_if := i, bt_spp_remote_bda := b\<rparr>)"
    for c b using inv by (simp add: bt_inv_defs)
  show ?thesis by (cases e) (simp_all add: bt_svc_spp_gatts_cb_def Let_def inv table conn)
qed

lemma bt_inv_callback [simp]: "bt_inv s \<Longrightarrow> bt_inv (bt_stack_callback env s ev)"
  by (simp add: bt_stack_callback_def bt_svc_gap_bt_cb_def bt_svc_a2dp_cb_def bt_svc_avrc_cb_def
      bt_svc_avrc_tg_cb_def bt_svc_gap_ble_cb_def Let_def
      split: bt_stack_event.split gap_event.split a2d_event.split avrc_ct_event.split avrc_tg_event.split
        ble_event.split)

interpretation bt_callbacks: event_machine "bt_stack_callback env" bt_inv for env
  by unfold_locales simp

subsection \<open>Every operation\<close>

datatype bt_op =
    Op_Callback bt_env bt_stack_event
  | Op_Pass bt_env
  | Op_Init bt_env
  | Op_Shutdown bt_env bt_schedule bt_schedule "bt_stack_event list"
  | Op_Pair_Best
  | Op_Connect_Last
  | Op_Reply_Confirm bool
  | Op_Disconnect
  | Op_Start_Audio
  | Op_Suspend_Audio
  | Op_Media_Key u8
  | Op_Start_Discovery
  | Op_Register_Provider "nat option"
  | Op_Register_Connection "nat option"
  | Op_Register_Media_Key "nat option"
  | Op_Register_Spp_Rx "nat option"
  | Op_Spp_Send bt_env "bytes option"
  | Op_Unbond bt_env "bytes option"

fun bt_op_step :: "bt_state \<Rightarrow> bt_op \<Rightarrow> bt_state" where
  "bt_op_step s (Op_Callback env ev) = bt_stack_callback env s ev"
| "bt_op_step s (Op_Pass env) = bluetooth_service_process_once env s"
| "bt_op_step s (Op_Init env) = snd (bluetooth_service_init env s)"
| "bt_op_step s (Op_Shutdown env p q evs) = snd (bluetooth_service_shutdown env p q evs s)"
| "bt_op_step s Op_Pair_Best = snd (bluetooth_service_pair_best_a2dp_sink s)"
| "bt_op_step s Op_Connect_Last = snd (bluetooth_service_connect_last_bonded_a2dp_device s)"
| "bt_op_step s (Op_Reply_Confirm a) = snd (bluetooth_service_reply_pairing_confirm a s)"
| "bt_op_step s Op_Disconnect = snd (bluetooth_service_disconnect_a2dp s)"
| "bt_op_step s Op_Start_Audio = snd (bluetooth_service_start_audio s)"
| "bt_op_step s Op_Suspend_Audio = snd (bluetooth_service_suspend_audio s)"
| "bt_op_step s (Op_Media_Key k) = snd (bluetooth_service_send_media_key k s)"
| "bt_op_step s Op_Start_Discovery = snd (bluetooth_service_start_discovery s)"
| "bt_op_step s (Op_Register_Provider p) = snd (bluetooth_service_register_pcm_provider p s)"
| "bt_op_step s (Op_Register_Connection p) = bluetooth_service_register_connection_callback p s"
| "bt_op_step s (Op_Register_Media_Key p) = bluetooth_service_register_media_key_callback p s"
| "bt_op_step s (Op_Register_Spp_Rx p) = snd (bluetooth_service_register_spp_rx_callback p s)"
| "bt_op_step s (Op_Spp_Send env d) = snd (bluetooth_service_spp_send_data env d s)"
| "bt_op_step s (Op_Unbond env a) = snd (bluetooth_service_unbond env a s)"

text \<open>An action that keeps a predicate, and lists of such.\<close>

definition bt_keeps :: "(bt_state \<Rightarrow> bool) \<Rightarrow> bt_action \<Rightarrow> bool" where
  "bt_keeps P f \<longleftrightarrow> (\<forall>s. P s \<longrightarrow> P (snd (f s)))"

lemma bt_keepsD: "bt_keeps P f \<Longrightarrow> P s \<Longrightarrow> P (snd (f s))"
  by (simp add: bt_keeps_def)

lemma bt_seq_keeps: "list_all (bt_keeps P) fs \<Longrightarrow> bt_keeps P (bt_seq fs)"
proof (induction fs)
  case (Cons f fs)
  then show ?case by (force simp: bt_keeps_def split: prod.split)
qed (simp add: bt_keeps_def)

lemma bt_when_keeps: "list_all (bt_keeps P) fs \<Longrightarrow> bt_keeps P (bt_when c fs)"
  using bt_seq_keeps[of P fs] by (simp add: bt_keeps_def bt_when_def)

lemma bt_inv_wait:
  "bt_inv s \<Longrightarrow> bt_inv (snd (bt_svc_wait_for_disconnect_state env polls flag target t n e s))"
proof (induction env polls flag target t n e s rule: bt_svc_wait_for_disconnect_state.induct)
  case (1 env polls flag target t n e s)
  then show ?case
    by (subst bt_svc_wait_for_disconnect_state.simps) (auto simp: Let_def bt_callbacks.run_inv)
qed

lemma bt_tolerant_keeps: "bt_keeps bt_inv (bt_tolerant env call)"
  by (simp add: bt_keeps_def bt_tolerant_def split: prod.split) (metis bt_inv_do snd_conv)

lemma bt_strict_keeps: "bt_keeps bt_inv (bt_strict env call)"
  by (simp add: bt_keeps_def bt_strict_def)

lemma bt_wait_keeps: "bt_keeps bt_inv (bt_wait env p flag)"
  by (simp add: bt_keeps_def bt_wait_def bt_inv_wait)

lemma bt_events_keep: "bt_keeps bt_inv (\<lambda>s. (ESP_OK, foldl (bt_stack_callback env) s evs))"
  by (simp add: bt_keeps_def bt_callbacks.run_inv)

lemma bt_shutdown_keeps: "bt_keeps bt_inv (bt_seq (bt_svc_shutdown_steps env p q evs))"
  unfolding bt_svc_shutdown_steps_def
  by (rule bt_seq_keeps)
    (simp add: bt_when_keeps bt_tolerant_keeps bt_strict_keeps bt_wait_keeps bt_events_keep)

text \<open>What is left of a state when the service has stopped.\<close>

definition bt_boot_keeping :: "bt_state \<Rightarrow> bt_state" where
  "bt_boot_keeping s = bt_boot\<lparr>bt_pcm_provider := bt_pcm_provider s,
     bt_pairing_confirm_pending := bt_pairing_confirm_pending s, bt_pairing_confirm_bda := bt_pairing_confirm_bda s,
     bt_pairing_confirm_numeric_value := bt_pairing_confirm_numeric_value s,
     bt_connection_cb := bt_connection_cb s, bt_media_key_cb := bt_media_key_cb s, bt_spp_rx_cb := bt_spp_rx_cb s,
     bt_trace := bt_trace s\<rparr>"

lemma bt_forget_boot: "bt_svc_forget s = bt_boot_keeping s"
  by (simp add: bt_svc_forget_def bt_boot_def bt_svc_spp_reset_link_state_def bt_boot_keeping_def)

lemma bt_boot_keeping_idem: "bt_boot_keeping (bt_boot_keeping s) = bt_boot_keeping s"
  by (simp add: bt_boot_keeping_def bt_boot_def)

lemma bt_inv_forget: "bt_inv s \<Longrightarrow> bt_inv (bt_svc_forget s)"
  by (simp add: bt_forget_boot bt_boot_keeping_def) (simp add: bt_inv_defs bt_boot_def)

lemma bt_inv_shutdown: "bt_inv s \<Longrightarrow> bt_inv (snd (bluetooth_service_shutdown env p q evs s))"
  using bt_keepsD[OF bt_shutdown_keeps, of s env p q evs]
  by (auto simp: bluetooth_service_shutdown_def bt_inv_forget split: prod.split)

lemma bt_inv_check_all: "bt_inv s \<Longrightarrow> bt_inv (snd (bt_svc_check_all env steps s))"
  by (induction env steps s rule: bt_svc_check_all.induct) (auto simp: bt_do_def)

lemma bt_queue_check_all: "bt_cmd_queue (snd (bt_svc_check_all env steps s)) = bt_cmd_queue s"
  by (induction env steps s rule: bt_svc_check_all.induct) (auto simp: bt_do_def bt_log_def)

lemma bt_inv_connect_last: "bt_inv s \<Longrightarrow> bt_inv (snd (bluetooth_service_connect_last_bonded_a2dp_device s))"
  by (simp add: bluetooth_service_connect_last_bonded_a2dp_device_def Let_def)

lemma bt_inv_init:
  assumes inv: "bt_inv s" shows "bt_inv (snd (bluetooth_service_init env s))"
proof -
  have fresh: "bt_inv (s\<lparr>bt_cmd_queue := Some []\<rparr>)"
    using inv by (simp add: bt_inv_defs)
  have gone: "\<not> bt_initialised s \<Longrightarrow> bt_inv (s\<lparr>bt_cmd_queue := None\<rparr>)"
    using inv by (simp add: bt_inv_defs)
  have go: "bt_inv (s1\<lparr>bt_initialised := True\<rparr>)" if "bt_inv s1" "bt_cmd_queue s1 = Some []" for s1
    using that by (simp add: bt_inv_defs)
  obtain ok s1 where a: "bt_svc_check_all env bt_svc_setup (s\<lparr>bt_cmd_queue := Some []\<rparr>) = (ok, s1)" by force
  have s1: "bt_inv s1" "bt_cmd_queue s1 = Some []"
    using bt_inv_check_all[OF fresh, of env bt_svc_setup] bt_queue_check_all[of env bt_svc_setup "s\<lparr>bt_cmd_queue := Some []\<rparr>"] a
    by simp_all
  obtain ok2 s2 where b: "bt_svc_check_all env
      [Power_Register_Shutdown POWER_MGMT_SERVICE_SHUTDOWN_PRIORITY_BLUETOOTH] (s1\<lparr>bt_initialised := True\<rparr>) = (ok2, s2)"
    by force
  have s2: "bt_inv s2" using bt_inv_check_all[OF go[OF s1]] b by (metis snd_conv)
  show ?thesis
    using inv gone s1 s2
    by (auto simp: bluetooth_service_init_def a b bt_inv_connect_last split: bool.split simp del: bt_svc_check_all.simps)
qed

lemma bt_op_inv: "bt_inv s \<Longrightarrow> bt_inv (bt_op_step s op)"
  by (cases op)
    (simp_all add: bt_inv_init bt_inv_shutdown bt_inv_connect_last bluetooth_service_pair_best_a2dp_sink_def
      bluetooth_service_reply_pairing_confirm_def bluetooth_service_disconnect_a2dp_def
      bluetooth_service_start_audio_def bluetooth_service_suspend_audio_def bluetooth_service_send_media_key_def
      bluetooth_service_start_discovery_def bluetooth_service_register_pcm_provider_def
      bluetooth_service_register_connection_callback_def bluetooth_service_register_media_key_callback_def
      bluetooth_service_register_spp_rx_callback_def bluetooth_service_spp_send_data_def bluetooth_service_unbond_def
      Let_def split: option.split)

interpretation bt_ops: event_machine bt_op_step bt_inv
  by unfold_locales (rule bt_op_inv)

text \<open>C29: After any sequence of operations, callbacks of the stack, passes of the loop, starts and stops, the
  queue is within its depth and there is one when the service runs; at most 16 devices are known, all
  valid, no address twice; without a connection its address is zero; the label of a remote control
  transaction fits 4 bits; without a pending confirmation its address and number are zero; without a
  serial link its number is 0xFFFF and its address zero; and indications are never switched on.
\<close>

theorem bt_always_consistent: "bt_inv (foldl bt_op_step bt_boot ops)"
  by (rule bt_ops.run_inv) (rule bt_inv_boot)

section \<open>The sink to pair with\<close>

lemma best_sink_fold:
  assumes "list_all dr_valid rs"
  shows "foldl (\<lambda>best r. if \<not> dr_valid r then best
     else case best of None \<Rightarrow> Some r | Some b \<Rightarrow> if dr_rssi r > dr_rssi b then Some r else best) (Some b) rs = Some c
   \<Longrightarrow> c \<in> insert b (set rs) \<and> (\<forall>r \<in> insert b (set rs). dr_rssi r \<le> dr_rssi c)"
  using assms
proof (induction rs arbitrary: b)
  case Nil then show ?case by simp
next
  case (Cons r rs)
  show ?case
  proof (cases "dr_rssi r > dr_rssi b")
    case True
    then show ?thesis using Cons.IH[of r] Cons.prems by force
  next
    case False
    then show ?thesis using Cons.IH[of b] Cons.prems by force
  qed
qed

lemma best_sink_keeps_some:
  "\<exists>c. foldl (\<lambda>best r. if \<not> dr_valid r then best
     else case best of None \<Rightarrow> Some r | Some b \<Rightarrow> if dr_rssi r > dr_rssi b then Some r else best) (Some b) rs = Some c"
  by (induction rs arbitrary: b) auto

lemma best_sink_spec:
  assumes valid: "list_all dr_valid rs"
  shows "best_sink rs = None \<longleftrightarrow> rs = []"
    and "best_sink rs = Some c \<Longrightarrow> c \<in> set rs \<and> (\<forall>r \<in> set rs. dr_rssi r \<le> dr_rssi c)"
proof -
  show "best_sink rs = None \<longleftrightarrow> rs = []"
  proof (cases rs)
    case (Cons r rest)
    then show ?thesis
      using valid best_sink_keeps_some[of r rest] by (auto simp: best_sink_def)
  qed (simp add: best_sink_def)
  show "best_sink rs = Some c \<Longrightarrow> c \<in> set rs \<and> (\<forall>r \<in> set rs. dr_rssi r \<le> dr_rssi c)"
  proof (cases rs)
    case (Cons r rest)
    then show "best_sink rs = Some c \<Longrightarrow> ?thesis"
      using valid best_sink_fold[of rest r c] by (simp add: best_sink_def)
  qed (simp add: best_sink_def)
qed

text \<open>The last report of an address.\<close>

definition last_report :: "bluetooth_service_discovery_result list \<Rightarrow> bytes \<Rightarrow> bluetooth_service_discovery_result option"
where "last_report rs a = find (\<lambda>r. dr_bda r = a) (rev rs)"

lemma last_report_snoc: "last_report (rs @ [r]) a = (if dr_bda r = a then Some r else last_report rs a)"
  by (simp add: last_report_def)

lemma last_report_None: "last_report rs a = None \<longleftrightarrow> a \<notin> dr_bda ` set rs"
  by (auto simp: last_report_def find_None_iff)

definition found_as :: "bluetooth_service_discovery_result list \<Rightarrow> bluetooth_service_discovery_result list \<Rightarrow> bool" where
  "found_as ds rs \<longleftrightarrow> distinct (map dr_bda ds) \<and> list_all dr_valid ds \<and> dr_bda ` set ds = dr_bda ` set rs \<and>
     (\<forall>d \<in> set ds. map_option (\<lambda>r. r\<lparr>dr_valid := True\<rparr>) (last_report rs (dr_bda d)) = Some d)"

lemma found_as_length: "found_as ds rs \<Longrightarrow> length ds = card (dr_bda ` set rs)"
  by (metis found_as_def distinct_card length_map set_map)

lemma found_as_store:
  assumes f: "found_as (bt_discovered s) rs" and few: "card (dr_bda ` set (rs @ [r])) \<le> BT_SVC_MAX_DISCOVERED_DEVICES"
  shows "found_as (bt_discovered (bt_svc_store_discovery_result r s)) (rs @ [r])"
proof (cases "bt_svc_find_discovery_result (dr_bda r) s")
  case None
  then have "dr_bda r \<notin> dr_bda ` set (bt_discovered s)"
    by (auto simp: bt_svc_find_discovery_result_def first_index_None)
  then have new: "dr_bda r \<notin> dr_bda ` set rs"
    using f by (simp add: found_as_def)
  have "length (bt_discovered s) < BT_SVC_MAX_DISCOVERED_DEVICES"
    using few new found_as_length[OF f] by simp
  then show ?thesis
    using f new None
    by (auto simp: bt_svc_store_discovery_result_def Let_def found_as_def last_report_snoc)
next
  case (Some i)
  let ?ds = "bt_discovered s" and ?v = "r\<lparr>dr_valid := True\<rparr>"
  have i: "i < length ?ds" "dr_bda (?ds ! i) = dr_bda r"
    using Some first_index_Some[of _ ?ds i] by (auto simp: bt_svc_find_discovery_result_def)
  have d: "distinct (map dr_bda ?ds)" using f by (simp add: found_as_def)
  have m: "map dr_bda (?ds[i := ?v]) = map dr_bda ?ds"
    using i by (simp add: map_update list_update_same_conv)
  have mem: "dr_bda r \<in> dr_bda ` set rs"
    using f i by (metis found_as_def image_eqI nth_mem)
  have cases: "x = ?v \<or> x \<in> set ?ds \<and> dr_bda x \<noteq> dr_bda r" if x: "x \<in> set (?ds[i := ?v])" for x
  proof -
    obtain j where j: "j < length ?ds" "x = ?ds[i := ?v] ! j" using x by (auto simp: in_set_conv_nth)
    show ?thesis
    proof (cases "j = i")
      case False
      then have "dr_bda (?ds ! j) \<noteq> dr_bda (?ds ! i)"
        using nth_eq_iff_index_eq[OF d, of j i] i j by simp
      then show ?thesis using False j i by auto
    qed (use i j in simp)
  qed
  have "dr_bda ` set (?ds[i := ?v]) = dr_bda ` set rs"
    using m f by (metis found_as_def list.set_map)
  moreover have "distinct (map dr_bda (?ds[i := ?v]))" using m d by simp
  moreover have "list_all dr_valid (?ds[i := ?v])"
    using f cases by (fastforce simp: list_all_iff found_as_def)
  moreover have "map_option (\<lambda>r. r\<lparr>dr_valid := True\<rparr>) (last_report (rs @ [r]) (dr_bda x)) = Some x"
    if "x \<in> set (?ds[i := ?v])" for x
    using cases[OF that] f by (auto simp: last_report_snoc found_as_def)
  ultimately show ?thesis
    using mem Some by (auto simp: bt_svc_store_discovery_result_def Let_def found_as_def)
qed

definition bt_serve :: "bt_env \<Rightarrow> bluetooth_service_msg list \<Rightarrow> bt_state \<Rightarrow> bt_state" where
  "bt_serve env msgs s = foldl (\<lambda>s m. bt_svc_process_msg env m s) s msgs"

lemma bt_serve_simps [simp]:
  "bt_serve env [] s = s"
  "bt_serve env (m # ms) s = bt_serve env ms (bt_svc_process_msg env m s)"
  "bt_serve env (ms @ ns) s = bt_serve env ns (bt_serve env ms s)"
  by (simp_all add: bt_serve_def)

lemma store_other:
  "bt_pair_request_pending (bt_svc_store_discovery_result r s) = bt_pair_request_pending s"
  "bt_trace (bt_svc_store_discovery_result r s) = bt_trace s"
  by (simp_all add: bt_svc_store_discovery_result_def Let_def split: option.split)

lemma serve_results:
  assumes "bt_discovered s = []" and "card (dr_bda ` set rs) \<le> BT_SVC_MAX_DISCOVERED_DEVICES"
  shows "found_as (bt_discovered (bt_serve env (map BT_SVC_CMD_DISCOVERY_RESULT rs) s)) rs"
    and "bt_pair_request_pending (bt_serve env (map BT_SVC_CMD_DISCOVERY_RESULT rs) s) = bt_pair_request_pending s"
    and "bt_trace (bt_serve env (map BT_SVC_CMD_DISCOVERY_RESULT rs) s) = bt_trace s"
  using assms(2)
proof (induction rs rule: rev_induct)
  case Nil
  { case 1 show ?case using assms(1) by (simp add: found_as_def) }
  { case 2 show ?case by simp }
  { case 3 show ?case by simp }
next
  case (snoc r rs)
  have le: "card (dr_bda ` set rs) \<le> BT_SVC_MAX_DISCOVERED_DEVICES"
    if "card (dr_bda ` set (rs @ [r])) \<le> BT_SVC_MAX_DISCOVERED_DEVICES"
    using that card_mono[of "dr_bda ` set (rs @ [r])" "dr_bda ` set rs"] by fastforce
  { case 1 then show ?case
      using found_as_store snoc.IH(1) le by (simp add: bt_svc_process_msg_def) }
  { case 2 then show ?case using snoc.IH(2) le by (simp add: bt_svc_process_msg_def store_other) }
  { case 3 then show ?case using snoc.IH(3) le by (simp add: bt_svc_process_msg_def store_other) }
qed

text \<open>C30: A request to pair, served while no device is connected and no discovery runs, followed by the
  reports of a discovery (of at most 16 devices, each any number of times, in any order) and its end,
  starts a discovery and then connects to one device: one whose last report is as strong as the last
  report of every other device.
\<close>

theorem bt_pairs_with_strongest:
  assumes free: "\<not> bt_a2dp_connected s" "\<not> bt_discovery_running s"
    and rs: "rs \<noteq> []" "card (dr_bda ` set rs) \<le> BT_SVC_MAX_DISCOVERED_DEVICES"
  shows "\<exists>b r. last_report rs b = Some r \<and>
     (\<forall>a q. last_report rs a = Some q \<longrightarrow> dr_rssi q \<le> dr_rssi r) \<and>
     bt_trace (bt_serve env (BT_SVC_CMD_PAIR_BEST # BT_SVC_CMD_DISCOVERY_STATE True #
         map BT_SVC_CMD_DISCOVERY_RESULT rs @ [BT_SVC_CMD_DISCOVERY_STATE False]) s)
       = bt_trace s @ [Gap_Start_Discovery, Bt_Post BLUETOOTH_SVC_EVENT_DISCOVERY_DONE, A2d_Connect b]"
proof -
  define s1 where "s1 = bt_svc_process_msg env (BT_SVC_CMD_DISCOVERY_STATE True) (bt_svc_process_msg env BT_SVC_CMD_PAIR_BEST s)"
  have s1: "bt_discovered s1 = []" "bt_pair_request_pending s1" "bt_trace s1 = bt_trace s @ [Gap_Start_Discovery]"
    using free by (simp_all add: s1_def bt_svc_process_msg_def bt_svc_process_pair_best_def Let_def
        bt_svc_process_discovery_state_def bt_svc_reset_discovery_results_def bt_log_def)
  define s2 where "s2 = bt_serve env (map BT_SVC_CMD_DISCOVERY_RESULT rs) s1"
  note s2 = serve_results[OF s1(1) rs(2), of env, folded s2_def]
  have "bt_discovered s2 \<noteq> []" "list_all dr_valid (bt_discovered s2)"
    using s2(1) rs(1) by (auto simp: found_as_def)
  then obtain d where d: "best_sink (bt_discovered s2) = Some d" "d \<in> set (bt_discovered s2)"
      "\<forall>q \<in> set (bt_discovered s2). dr_rssi q \<le> dr_rssi d"
    using best_sink_spec[of "bt_discovered s2"] by fastforce
  obtain r where r: "last_report rs (dr_bda d) = Some r" "dr_rssi r = dr_rssi d"
    using s2(1) d(2) by (fastforce simp: found_as_def)
  have "dr_rssi q \<le> dr_rssi r" if q: "last_report rs a = Some q" for a q
  proof -
    have "a \<in> dr_bda ` set (bt_discovered s2)"
      using q s2(1) by (metis found_as_def last_report_None option.distinct(1))
    then obtain x where x: "x \<in> set (bt_discovered s2)" "dr_bda x = a" by auto
    then have "x = q\<lparr>dr_valid := True\<rparr>" using q s2(1) by (auto simp: found_as_def)
    then show ?thesis using d(3) x(1) r(2) by fastforce
  qed
  moreover have "bt_trace (bt_svc_process_msg env (BT_SVC_CMD_DISCOVERY_STATE False) s2)
      = bt_trace s @ [Gap_Start_Discovery, Bt_Post BLUETOOTH_SVC_EVENT_DISCOVERY_DONE, A2d_Connect (dr_bda d)]"
    using s1 s2 d(1)
    by (simp add: bt_svc_process_msg_def bt_svc_process_discovery_state_def Let_def
        bt_svc_select_and_connect_best_sink_def bt_svc_post_event_def bt_log_def)
  ultimately show ?thesis
    using r(1) by (auto simp: s1_def[symmetric] s2_def[symmetric])
qed

definition demo_report :: "u8 \<Rightarrow> int \<Rightarrow> bluetooth_service_discovery_result" where
  "demo_report a rssi = \<lparr>dr_valid = True, dr_bda = replicate 5 0 @ [a], dr_rssi = rssi, dr_cod = 0x240404, dr_name = []\<rparr>"

definition demo_bt_env :: bt_env where
  "demo_bt_env = \<lparr>be_call = (\<lambda>_ _. ESP_OK), be_bond_num = 0, be_alloc = True, be_bond_list = (\<lambda>_. Inr []),
     be_bluedroid = (\<lambda>_. ESP_BLUEDROID_STATUS_UNINITIALIZED), be_controller = (\<lambda>_. ESP_BT_CONTROLLER_STATUS_IDLE),
     be_event_loop = ESP_OK, be_queue = True, be_volume_percent = 50\<rparr>"

lemma demo_reports: "[demo_report 1 (-70), demo_report 2 (-50), demo_report 1 (-40), demo_report 2 (-90)] \<noteq> []"
    "card (dr_bda ` set [demo_report 1 (-70), demo_report 2 (-50), demo_report 1 (-40), demo_report 2 (-90)])
       \<le> BT_SVC_MAX_DISCOVERED_DEVICES"
  by (simp_all add: demo_report_def BT_SVC_MAX_DISCOVERED_DEVICES_def card_insert_if)

theorem bt_pairs_with_strongest_witness:
  "\<exists>b r. last_report [demo_report 1 (-70), demo_report 2 (-50), demo_report 1 (-40), demo_report 2 (-90)] b = Some r \<and>
     bt_trace (bt_serve demo_bt_env (BT_SVC_CMD_PAIR_BEST # BT_SVC_CMD_DISCOVERY_STATE True #
         map BT_SVC_CMD_DISCOVERY_RESULT [demo_report 1 (-70), demo_report 2 (-50), demo_report 1 (-40), demo_report 2 (-90)]
           @ [BT_SVC_CMD_DISCOVERY_STATE False]) bt_boot)
       = bt_trace bt_boot @ [Gap_Start_Discovery, Bt_Post BLUETOOTH_SVC_EVENT_DISCOVERY_DONE, A2d_Connect b]"
  using bt_pairs_with_strongest[OF _ _ demo_reports, of bt_boot demo_bt_env]
  by (simp add: bt_boot_def) blast

text \<open>A request to pair that finds a discovery running cancels it and starts another. The stack then
  reports the end of the cancelled one, which ends the request with nothing found; what the new one finds
  is stored, and its end connects to nothing.\<close>

lemma pairing_lost_to_cancelled_discovery:
  assumes "\<not> bt_a2dp_connected s" "bt_discovery_running s"
    and "card (dr_bda ` set rs) \<le> BT_SVC_MAX_DISCOVERED_DEVICES"
  shows "bt_trace (bt_serve env (BT_SVC_CMD_PAIR_BEST # BT_SVC_CMD_DISCOVERY_STATE False #
      BT_SVC_CMD_DISCOVERY_STATE True # map BT_SVC_CMD_DISCOVERY_RESULT rs @ [BT_SVC_CMD_DISCOVERY_STATE False]) s)
    = bt_trace s @ [Gap_Cancel_Discovery, Gap_Start_Discovery, Bt_Post BLUETOOTH_SVC_EVENT_DISCOVERY_DONE]"
proof -
  define s1 where "s1 = bt_svc_process_msg env (BT_SVC_CMD_DISCOVERY_STATE True)
      (bt_svc_process_msg env (BT_SVC_CMD_DISCOVERY_STATE False) (bt_svc_process_msg env BT_SVC_CMD_PAIR_BEST s))"
  have s1: "bt_discovered s1 = []" "\<not> bt_pair_request_pending s1"
      "bt_trace s1 = bt_trace s @ [Gap_Cancel_Discovery, Gap_Start_Discovery, Bt_Post BLUETOOTH_SVC_EVENT_DISCOVERY_DONE]"
    using assms(1,2) by (simp_all add: s1_def bt_svc_process_msg_def bt_svc_process_pair_best_def Let_def
        bt_svc_process_discovery_state_def bt_svc_reset_discovery_results_def bt_log_def best_sink_def
        bt_svc_select_and_connect_best_sink_def bt_svc_post_event_def)
  define s2 where "s2 = bt_serve env (map BT_SVC_CMD_DISCOVERY_RESULT rs) s1"
  note s2 = serve_results[OF s1(1) assms(3), of env, folded s2_def]
  have "bt_trace (bt_svc_process_msg env (BT_SVC_CMD_DISCOVERY_STATE False) s2) = bt_trace s1"
    using s1(2) s2(2,3) by (simp add: bt_svc_process_msg_def bt_svc_process_discovery_state_def Let_def)
  then show ?thesis using s1(3) by (simp add: s1_def[symmetric] s2_def[symmetric])
qed

text \<open>The stack reports a name it has asked a device for as a result of its own, with the name and
  nothing else: without a class of device it is taken for no candidate and dropped.\<close>

lemma name_report_dropped: "bt_svc_gap_bt_cb env (Gap_Disc_Res bda [Prop_Bdname name]) s = s"
proof -
  have "dr_cod (disc_res_of bda [Prop_Bdname name]) = 0" by (simp add: disc_res_of_def disc_res_prop_def)
  moreover have "\<not> bt_svc_is_a2dp_sink_candidate 0"
    by (simp add: bt_svc_is_a2dp_sink_candidate_def esp_bt_gap_is_valid_cod_def esp_bt_gap_get_cod_srvc_def)
  ultimately show ?thesis by (simp add: bt_svc_gap_bt_cb_def Let_def)
qed

section \<open>The confirmation of a pairing\<close>

text \<open>What it promises: a cell that holds the last request. A reply is passed on to the device in the
  cell, if there is one, and empties it; the end of an authentication empties it.\<close>

type_synonym confirm_cell = "(bytes \<times> u32) option"

fun confirm_step :: "confirm_cell \<Rightarrow> bluetooth_service_msg \<Rightarrow> confirm_cell \<times> (bytes \<times> bool) list" where
  "confirm_step p (BT_SVC_CMD_PAIRING_CONFIRM_REQUEST a v) = (Some (a, v), [])"
| "confirm_step p (BT_SVC_CMD_PAIRING_CONFIRM_REPLY accept) =
     (None, case p of None \<Rightarrow> [] | Some (a, v) \<Rightarrow> [(a, accept)])"
| "confirm_step p (BT_SVC_CMD_AUTH_COMPLETE a ok name) = (None, [])"
| "confirm_step p m = (p, [])"

fun confirm_run :: "confirm_cell \<Rightarrow> bluetooth_service_msg list \<Rightarrow> confirm_cell \<times> (bytes \<times> bool) list" where
  "confirm_run p [] = (p, [])"
| "confirm_run p (m # ms) =
     (case confirm_step p m of (p1, replies) \<Rightarrow>
      case confirm_run p1 ms of (p2, more_replies) \<Rightarrow> (p2, replies @ more_replies))"

definition pending_of :: "bt_state \<Rightarrow> confirm_cell" where
  "pending_of s = (let c = bluetooth_service_get_pending_pairing_confirm s in
     if pc_pending c then Some (pc_remote_bda c, pc_numeric_value c) else None)"

fun ssp_reply_of :: "bt_call \<Rightarrow> (bytes \<times> bool) option" where
  "ssp_reply_of (Gap_Ssp_Reply a accept) = Some (a, accept)"
| "ssp_reply_of c = None"

definition ssp_replies :: "bt_call list \<Rightarrow> (bytes \<times> bool) list" where
  "ssp_replies calls = List.map_filter ssp_reply_of calls"

lemma ssp_replies_simps [simp]:
  "ssp_replies [] = []"
  "ssp_replies (xs @ ys) = ssp_replies xs @ ssp_replies ys"
  by (simp_all add: ssp_replies_def List.map_filter_def)

lemma pending_of_alt:
  "pending_of s = (if bt_pairing_confirm_pending s
     then Some (bt_pairing_confirm_bda s, bt_pairing_confirm_numeric_value s) else None)"
  by (simp add: pending_of_def bluetooth_service_get_pending_pairing_confirm_def
      bt_svc_get_pending_pairing_confirm_def)

lemma pending_of_fields [simp]:
  "pending_of (s\<lparr>bt_cmd_queue := q\<rparr>) = pending_of s"
  "pending_of (s\<lparr>bt_pair_request_pending := a\<rparr>) = pending_of s"
  "pending_of (s\<lparr>bt_discovery_running := a\<rparr>) = pending_of s"
  "pending_of (s\<lparr>bt_discovered := ds\<rparr>) = pending_of s"
  "pending_of (s\<lparr>bt_a2dp_connected := a\<rparr>) = pending_of s"
  "pending_of (s\<lparr>bt_connected_bda := b\<rparr>) = pending_of s"
  "pending_of (s\<lparr>bt_avrc_tl := t\<rparr>) = pending_of s"
  "pending_of (s\<lparr>bt_avrc_rn_vol_registered := a\<rparr>) = pending_of s"
  "pending_of (s\<lparr>bt_avrc_ct_vol_registered := a\<rparr>) = pending_of s"
  "pending_of (s\<lparr>bt_trace := tr\<rparr>) = pending_of s"
  by (simp_all add: pending_of_alt)

lemma log_view [simp]:
  "pending_of (bt_log c s) = pending_of s"
  "bt_trace (bt_log c s) = bt_trace s @ [c]"
  by (simp_all add: bt_log_def)

lemma ssp_replies_one [simp]: "ssp_reply_of c = None \<Longrightarrow> ssp_replies [c] = []"
  by (simp add: ssp_replies_def List.map_filter_def)

definition confirm_view :: "bt_state \<Rightarrow> confirm_cell \<times> (bytes \<times> bool) list" where
  "confirm_view s = (pending_of s, ssp_replies (bt_trace s))"

lemma confirm_view_log [simp]: "ssp_reply_of c = None \<Longrightarrow> confirm_view (bt_log c s) = confirm_view s"
  by (simp add: confirm_view_def)

lemma confirm_view_fields [simp]:
  "confirm_view (s\<lparr>bt_cmd_queue := q\<rparr>) = confirm_view s"
  "confirm_view (s\<lparr>bt_pair_request_pending := a\<rparr>) = confirm_view s"
  "confirm_view (s\<lparr>bt_discovery_running := a\<rparr>) = confirm_view s"
  "confirm_view (s\<lparr>bt_discovered := ds\<rparr>) = confirm_view s"
  "confirm_view (s\<lparr>bt_a2dp_connected := a, bt_connected_bda := b\<rparr>) = confirm_view s"
  "confirm_view (s\<lparr>bt_avrc_tl := t\<rparr>) = confirm_view s"
  "confirm_view (s\<lparr>bt_avrc_rn_vol_registered := a\<rparr>) = confirm_view s"
  "confirm_view (s\<lparr>bt_avrc_ct_vol_registered := a\<rparr>) = confirm_view s"
  by (simp_all add: confirm_view_def)

lemma confirm_view_ops [simp]:
  "confirm_view (bt_svc_post_event e s) = confirm_view s"
  "confirm_view (bt_svc_invoke_connection_callback ce b s) = confirm_view s"
  "confirm_view (bt_svc_reset_discovery_results s) = confirm_view s"
  "confirm_view (bt_svc_store_discovery_result r s) = confirm_view s"
  "confirm_view (next_tl s) = confirm_view s"
  "confirm_view (register_volume s) = confirm_view s"
  "confirm_view (bt_svc_select_and_connect_best_sink s) = confirm_view s"
  "confirm_view (snd (bt_svc_connect_last_bonded_device env s)) = confirm_view s"
  by (simp_all add: bt_svc_post_event_def bt_svc_invoke_connection_callback_def bt_svc_reset_discovery_results_def
      bt_svc_store_discovery_result_def next_tl_def register_volume_def bt_svc_select_and_connect_best_sink_def
      bt_svc_connect_last_bonded_device_def bt_do_def Let_def split: option.split sum.split)

lemma confirm_view_msg:
  "confirm_view (bt_svc_process_msg env m s) =
     (case confirm_step (pending_of s) m of (p, replies) \<Rightarrow> (p, ssp_replies (bt_trace s) @ replies))"
proof (cases m)
  case (BT_SVC_CMD_PAIRING_CONFIRM_REQUEST a v)
  then show ?thesis
    by (simp add: bt_svc_process_msg_def bt_svc_set_pending_pairing_confirm_def confirm_view_def pending_of_alt)
next
  case (BT_SVC_CMD_PAIRING_CONFIRM_REPLY accept)
  then show ?thesis
    by (simp add: bt_svc_process_msg_def bt_svc_process_confirm_reply_def bt_svc_take_pending_pairing_confirm_def
        bt_svc_clear_pending_pairing_confirm_def confirm_view_def pending_of_alt bt_log_def ssp_replies_def
        List.map_filter_def)
next
  case (BT_SVC_CMD_AUTH_COMPLETE a ok name)
  have "confirm_view (bt_svc_clear_pending_pairing_confirm s) = (None, ssp_replies (bt_trace s))"
    by (simp add: bt_svc_clear_pending_pairing_confirm_def confirm_view_def pending_of_alt)
  then show ?thesis
    using BT_SVC_CMD_AUTH_COMPLETE by (simp add: bt_svc_process_msg_def bt_svc_process_auth_complete_def Let_def)
qed (simp_all add: bt_svc_process_msg_def bt_svc_process_pair_best_def bt_svc_process_start_discovery_def
      bt_svc_process_media_key_def bt_svc_process_discovery_state_def bt_svc_process_a2dp_state_def
      bt_svc_process_passthrough_cmd_def bt_svc_process_set_abs_vol_def bt_svc_process_rn_caps_def
      bt_svc_process_vol_change_def bt_svc_process_reg_vol_notify_def Let_def split: prod.split,
    simp_all add: confirm_view_def)

text \<open>C31: Whatever messages are served, the confirmations the service answers and the one that is pending
  are those of a cell holding the last request: the answers go to the device that asked last, at most one
  for each request, none without a request, and none after the authentication has ended.
\<close>

theorem bt_confirm_refines:
  "confirm_view (bt_serve env ms s) =
     (case confirm_run (pending_of s) ms of (p, replies) \<Rightarrow> (p, ssp_replies (bt_trace s) @ replies))"
proof (induction ms arbitrary: s)
  case Nil then show ?case by (simp add: confirm_view_def)
next
  case (Cons m ms)
  obtain p replies where step: "confirm_step (pending_of s) m = (p, replies)" by force
  then have "pending_of (bt_svc_process_msg env m s) = p"
    "ssp_replies (bt_trace (bt_svc_process_msg env m s)) = ssp_replies (bt_trace s) @ replies"
    using confirm_view_msg[of env m s] by (simp_all add: confirm_view_def)
  then show ?case using Cons.IH[of "bt_svc_process_msg env m s"] step by (simp add: split_beta)
qed

fun is_confirm_request :: "bluetooth_service_msg \<Rightarrow> bool" where
  "is_confirm_request (BT_SVC_CMD_PAIRING_CONFIRM_REQUEST a v) = True"
| "is_confirm_request m = False"

lemma confirm_run_bounded:
  "length (snd (confirm_run p ms)) \<le> length (filter is_confirm_request ms) + (if p = None then 0 else 1)"
proof (induction p ms rule: confirm_run.induct)
  case (2 p m ms)
  obtain p1 rs where st: "confirm_step p m = (p1, rs)" by force
  have "length rs + (if p1 = None then 0 else 1) \<le> (if is_confirm_request m then 1 else 0) + (if p = None then 0 else 1)"
    using st by (cases m) (auto split: option.splits)
  then show ?case using 2[OF st[symmetric]] st by (auto simp: split_beta)
qed simp

lemma second_request_takes_the_reply:
  "confirm_run None [BT_SVC_CMD_PAIRING_CONFIRM_REQUEST a v, BT_SVC_CMD_PAIRING_CONFIRM_REQUEST b w,
     BT_SVC_CMD_PAIRING_CONFIRM_REPLY True, BT_SVC_CMD_PAIRING_CONFIRM_REPLY True] = (None, [(b, True)])"
  by simp

section \<open>Remote control\<close>

lemma all_u8: "(\<forall>k :: u8. P k) \<longleftrightarrow> list_all (\<lambda>n. P (of_nat n)) [0..<256]"
proof
  assume a: "list_all (\<lambda>n. P (of_nat n)) [0..<256]"
  show "\<forall>k. P k"
  proof
    fix k :: u8
    have "\<forall>n \<in> {0..<256}. P (of_nat n)" using a by (simp add: list_all_iff)
    moreover have "unat k \<in> {0..<256}" using unsigned_less[of k] by simp
    ultimately have "P (of_nat (unat k))" by (rule bspec)
    then show "P k" by simp
  qed
qed (simp add: list_all_iff)

text \<open>
  The keys the service tells the stack it supports, by a bit mask, are exactly those it acts on when
  one is pressed.
\<close>

theorem bt_keys_announced: "esp_avrc_psth_bit_mask_test bt_svc_cmd_mask k = snd (bt_svc_player_control_from_key k)"
proof -
  have "\<forall>k. esp_avrc_psth_bit_mask_test bt_svc_cmd_mask k = snd (bt_svc_player_control_from_key k)"
    unfolding all_u8 by code_simp
  then show ?thesis by blast
qed

lemma volume_announced: "esp_avrc_rn_evt_bit_mask_test bt_svc_evt_mask k \<longleftrightarrow> k = ESP_AVRC_RN_VOLUME_CHANGE"
proof -
  have "\<forall>k. esp_avrc_rn_evt_bit_mask_test bt_svc_evt_mask k = (k = ESP_AVRC_RN_VOLUME_CHANGE)"
    unfolding all_u8 by code_simp
  then show ?thesis by blast
qed

section \<open>Samples\<close>

text \<open>A provider that returns at most as much as it was asked for gets its count, the rest is silence.\<close>

lemma a2dp_data_full:
  assumes "0 < len" and "provide (replicate (nat len) 0) = (n, data)" and "n \<le> len" and "length data = nat len"
  shows "bt_svc_a2dp_data_cb (Some provide) len =
    (len, take (nat n) data @ replicate (nat len - nat n) 0)"
  using assms by (cases "n < 0") (auto simp: bt_svc_a2dp_data_cb_def nat_diff_distrib' max_def)

lemma a2dp_data_silence: "0 < len \<Longrightarrow> bt_svc_a2dp_data_cb None len = (len, replicate (nat len) 0)"
  by (simp add: bt_svc_a2dp_data_cb_def)

section \<open>The serial link\<close>

text \<open>A link over which data can be sent.\<close>

definition spp_open :: "bt_state \<Rightarrow> bool" where
  "spp_open s \<longleftrightarrow> bt_spp_connected s \<and> bt_spp_data_notifications_enabled s \<and> bt_spp_gatts_if s \<noteq> ESP_GATT_IF_NONE \<and>
     bt_spp_conn_id s \<noteq> 0xFFFF \<and> bt_spp_handle_table s ! BT_SVC_BLE_SPP_IDX_DATA_NOTIFY_VAL \<noteq> 0"

definition spp_packet :: "bt_state \<Rightarrow> bytes \<Rightarrow> bt_call" where
  "spp_packet s data = Gatts_Send (bt_spp_gatts_if s) (bt_spp_conn_id s)
     (bt_spp_handle_table s ! BT_SVC_BLE_SPP_IDX_DATA_NOTIFY_VAL) data (bt_spp_data_indications_enabled s)"

text \<open>What is sent is one packet, with as much of the data as it can take; nothing without a link.\<close>

lemma spp_send_data_spec:
  "bluetooth_service_spp_send_data env (Some data) s =
     (if \<not> bt_spp_data_notifications_enabled s then (ESP_ERR_INVALID_STATE, s)
      else if data = [] then (ESP_ERR_INVALID_ARG, s)
      else if \<not> spp_open s then (ESP_ERR_INVALID_STATE, s)
      else if bluetooth_service_spp_get_max_payload s = 0 then (ESP_ERR_INVALID_SIZE, s)
      else bt_do env (spp_packet s (take (bluetooth_service_spp_get_max_payload s) data)) s)"
  by (auto simp: bluetooth_service_spp_send_data_def bt_svc_spp_send_data_def bt_svc_spp_send_value_def spp_open_def
      spp_packet_def bluetooth_service_spp_get_max_payload_def Let_def)

lemma spp_view_log [simp]:
  "spp_open (bt_log c s) = spp_open s" "spp_packet (bt_log c s) = spp_packet s"
  "bluetooth_service_spp_get_max_payload (bt_log c s) = bluetooth_service_spp_get_max_payload s"
  "bt_spp_data_notifications_enabled (bt_log c s) = bt_spp_data_notifications_enabled s"
  by (simp_all add: spp_open_def spp_packet_def[abs_def] bluetooth_service_spp_get_max_payload_def bt_log_def)

section \<open>The stop\<close>

text \<open>The wait looks at no more than its limit of delays.\<close>

lemma wait_bounded:
  assumes "\<And>k. k < timeout \<Longrightarrow> p k = q k" and "n \<le> e"
  shows "bt_svc_wait_for_disconnect_state env p flag target timeout n e s =
         bt_svc_wait_for_disconnect_state env q flag target timeout n e s"
  using assms
proof (induction env p flag target timeout n e s rule: bt_svc_wait_for_disconnect_state.induct)
  case (1 env p flag target timeout n e s)
  show ?case
  proof (cases "n < timeout")
    case True
    then have "p n = q n" using "1.prems"(1) by blast
    then show ?thesis
      using 1
      by (subst (1 2) bt_svc_wait_for_disconnect_state.simps)
        (simp add: Let_def BT_SVC_SHUTDOWN_POLL_TICKS_def)
  next
    case False
    then show ?thesis
      using "1.prems"(2) by (subst (1 2) bt_svc_wait_for_disconnect_state.simps) (simp add: Let_def)
  qed
qed

lemma wait_ok: "bt_svc_wait_for_disconnect_state env p flag target timeout n e s = (ESP_OK, s') \<Longrightarrow> flag s' = target"
proof (induction env p flag target timeout n e s rule: bt_svc_wait_for_disconnect_state.induct)
  case (1 env p flag target timeout n e s)
  show ?case
    using 1(2) 1(1)[OF _ refl refl]
    by (subst (asm) bt_svc_wait_for_disconnect_state.simps) (auto simp: Let_def split: if_splits)
qed

definition agree_until :: "nat \<Rightarrow> bt_schedule \<Rightarrow> bt_schedule \<Rightarrow> bool" where
  "agree_until n p q \<longleftrightarrow> map p [0..<n] = map q [0..<n]"

lemma bt_wait_bounded:
  assumes "agree_until BT_SVC_SHUTDOWN_WAIT_TICKS p q" shows "bt_wait env p = bt_wait env q"
proof (intro ext)
  fix flag s
  have "p k = q k" if "k < BT_SVC_SHUTDOWN_WAIT_TICKS" for k
    using assms that by (simp add: agree_until_def)
  then show "bt_wait env p flag s = bt_wait env q flag s"
    unfolding bt_wait_def by (rule wait_bounded) simp_all
qed

text \<open>C32: Whatever the stack does and whatever the stop returns, success, a timeout or the error of a call,
  it returns after at most 200 delays in each of its two waits: a schedule that differs after the 200th
  delay makes no difference to the result nor to the state. When it reports success, all state is what
  it is at boot, but for the registered functions, a pending confirmation and the calls made.
\<close>

theorem bt_shutdown_bounded_and_clean:
  assumes "agree_until BT_SVC_SHUTDOWN_WAIT_TICKS p p'" and "agree_until BT_SVC_SHUTDOWN_WAIT_TICKS q q'"
  shows "bluetooth_service_shutdown env p' q' evs s = bluetooth_service_shutdown env p q evs s \<and>
    (bt_initialised s \<and> bluetooth_service_shutdown env p q evs s = (ESP_OK, s') \<longrightarrow> s' = bt_boot_keeping s')"
proof
  have "bt_svc_shutdown_steps env p q evs = bt_svc_shutdown_steps env p' q' evs"
    using bt_wait_bounded[OF assms(1)] bt_wait_bounded[OF assms(2)] by (simp add: bt_svc_shutdown_steps_def)
  then show "bluetooth_service_shutdown env p' q' evs s = bluetooth_service_shutdown env p q evs s"
    by (simp only: bluetooth_service_shutdown_def)
  show "bt_initialised s \<and> bluetooth_service_shutdown env p q evs s = (ESP_OK, s') \<longrightarrow> s' = bt_boot_keeping s'"
  proof
    assume "bt_initialised s \<and> bluetooth_service_shutdown env p q evs s = (ESP_OK, s')"
    then obtain s1 where "s' = bt_svc_forget s1"
      by (auto simp: bluetooth_service_shutdown_def split: prod.splits if_splits)
    then show "s' = bt_boot_keeping s'" by (simp add: bt_forget_boot bt_boot_keeping_idem)
  qed
qed

definition demo_connected :: bt_state where
  "demo_connected = bt_boot\<lparr>bt_initialised := True, bt_cmd_queue := Some [], bt_a2dp_connected := True,
     bt_connected_bda := [1, 2, 3, 4, 5, 6]\<rparr>"

definition demo_schedule :: bt_schedule where
  "demo_schedule n = (0, if n = 2 then [Ev_A2dp (A2d_Connection_State 0 [1, 2, 3, 4, 5, 6])] else [])"

definition demo_schedule_late :: bt_schedule where
  "demo_schedule_late n = (if n < 200 then demo_schedule n else (7, []))"

text \<open>A stack that never reports the disconnection, and one that does so after the 200th delay.\<close>

definition demo_schedule_stuck :: bt_schedule where
  "demo_schedule_stuck n = (9, [])"

definition demo_schedule_too_late :: bt_schedule where
  "demo_schedule_too_late n =
     (if n < 200 then (9, []) else (0, [Ev_A2dp (A2d_Connection_State 0 [1, 2, 3, 4, 5, 6])]))"

lemma demo_shutdown_ok:
  "fst (bluetooth_service_shutdown demo_bt_env demo_schedule demo_schedule [] demo_connected) = ESP_OK"
  by code_simp

lemma demo_shutdown_stuck:
  "fst (bluetooth_service_shutdown demo_bt_env demo_schedule_stuck demo_schedule_stuck [] demo_connected) = ESP_ERR_TIMEOUT"
  by code_simp

theorem bt_shutdown_bounded_and_clean_witness:
  "\<not> bt_a2dp_connected (snd (bluetooth_service_shutdown demo_bt_env demo_schedule_late demo_schedule [] demo_connected)) \<and>
   fst (bluetooth_service_shutdown demo_bt_env demo_schedule_too_late demo_schedule_stuck [] demo_connected) = ESP_ERR_TIMEOUT"
proof
  have late: "agree_until BT_SVC_SHUTDOWN_WAIT_TICKS demo_schedule demo_schedule_late"
    by (simp add: agree_until_def demo_schedule_late_def BT_SVC_SHUTDOWN_WAIT_TICKS_def)
  have refl: "agree_until BT_SVC_SHUTDOWN_WAIT_TICKS r r" for r by (simp add: agree_until_def)
  have too_late: "agree_until BT_SVC_SHUTDOWN_WAIT_TICKS demo_schedule_stuck demo_schedule_too_late"
    by (simp add: agree_until_def demo_schedule_too_late_def demo_schedule_stuck_def BT_SVC_SHUTDOWN_WAIT_TICKS_def)
  obtain s' where s': "bluetooth_service_shutdown demo_bt_env demo_schedule demo_schedule [] demo_connected = (ESP_OK, s')"
    using demo_shutdown_ok by (metis prod.collapse)
  moreover have "bt_initialised demo_connected" by (simp add: demo_connected_def)
  ultimately have
    "bluetooth_service_shutdown demo_bt_env demo_schedule_late demo_schedule [] demo_connected = (ESP_OK, s') \<and>
     s' = bt_boot_keeping s'"
    using bt_shutdown_bounded_and_clean[OF late refl, of demo_bt_env demo_schedule "[]" demo_connected s'] by simp
  moreover have "\<not> bt_a2dp_connected (bt_boot_keeping s')" by (simp add: bt_boot_keeping_def bt_boot_def)
  ultimately show
    "\<not> bt_a2dp_connected (snd (bluetooth_service_shutdown demo_bt_env demo_schedule_late demo_schedule [] demo_connected))"
    by (metis snd_conv)
  show "fst (bluetooth_service_shutdown demo_bt_env demo_schedule_too_late demo_schedule_stuck [] demo_connected) = ESP_ERR_TIMEOUT"
    using bt_shutdown_bounded_and_clean[OF too_late refl, of demo_bt_env demo_schedule_stuck "[]" demo_connected] demo_shutdown_stuck
    by simp
qed

end
