(* ===== verification/Output.thy ===== *)
theory Output
  imports Bluetooth
begin

text \<open>
  Where the samples go: \<^verbatim>\<open>main/i2s_service.c\<close>, the wired sink, a task with a queue of commands that pulls
  20 ms of samples from a provider at a time; and \<^verbatim>\<open>main/audio_output_switch.c\<close>, which gives the
  provider to one of the two sinks, the wired one and the Bluetooth service, and follows the Bluetooth
  connection.
\<close>

section \<open>The wired sink\<close>

definition I2S_SVC_PCM_BUF_BYTES :: nat where "I2S_SVC_PCM_BUF_BYTES = 48000 * 2 * 2 * 20 div 1000"
definition I2S_SVC_QUEUE_DEPTH :: nat where "I2S_SVC_QUEUE_DEPTH = 4"

datatype i2s_service_msg =
    I2S_SVC_CMD_START
  | I2S_SVC_CMD_SUSPEND
  | I2S_SVC_CMD_REGISTER_PROVIDER "nat option"

text \<open>The channel of the driver, the task, the queue and what the driver was given to play; the driver's
  calls are a trace of whether it was enabled or disabled.\<close>

record i2s_state =
  i2_cmd_queue :: "i2s_service_msg list option"
  i2_task :: bool
  i2_tx_channel :: bool
  i2_pcm_provider :: "nat option"
  i2_running :: bool
  i2_written :: "bytes list"
  i2_enables :: "bool list"

definition i2s_boot :: i2s_state where
  "i2s_boot = \<lparr>i2_cmd_queue = None, i2_task = False, i2_tx_channel = False, i2_pcm_provider = None,
     i2_running = False, i2_written = [], i2_enables = []\<rparr>"

definition i2s_service_process_cmd :: "esp_err \<Rightarrow> i2s_service_msg \<Rightarrow> i2s_state \<Rightarrow> i2s_state" where
  "i2s_service_process_cmd enable msg s =
     (case msg of
        I2S_SVC_CMD_START \<Rightarrow>
          if \<not> i2_running s \<and> i2_tx_channel s
          then let s1 = s\<lparr>i2_enables := i2_enables s @ [True]\<rparr>
               in if enable = ESP_OK then s1\<lparr>i2_running := True\<rparr> else s1
          else s
      | I2S_SVC_CMD_SUSPEND \<Rightarrow>
          if i2_running s \<and> i2_tx_channel s
          then s\<lparr>i2_enables := i2_enables s @ [False], i2_running := False\<rparr> else s
      | I2S_SVC_CMD_REGISTER_PROVIDER provider \<Rightarrow> s\<lparr>i2_pcm_provider := provider\<rparr>)"

text \<open>One block for the driver: what the provider filled, the rest silence; the provider leaves a buffer
  of the given size and a count. The buffer keeps its contents from block to block and is given.\<close>

definition i2s_fill :: "(bytes \<Rightarrow> int \<times> bytes) option \<Rightarrow> bytes \<Rightarrow> bytes" where
  "i2s_fill provider buf =
     (let (filled, data) = (case provider of None \<Rightarrow> (0, buf) | Some provide \<Rightarrow> provide buf) in
      if filled \<le> 0 then replicate I2S_SVC_PCM_BUF_BYTES 0
      else if nat filled < I2S_SVC_PCM_BUF_BYTES
      then take (nat filled) data @ replicate (I2S_SVC_PCM_BUF_BYTES - nat filled) 0
      else take (nat filled) data)"

fun i2s_drain :: "(nat \<Rightarrow> esp_err) \<Rightarrow> nat \<Rightarrow> i2s_service_msg list \<Rightarrow> i2s_state \<Rightarrow> i2s_state" where
  "i2s_drain enable k [] s = s"
| "i2s_drain enable k (msg # msgs) s = i2s_drain enable (Suc k) msgs (i2s_service_process_cmd (enable k) msg s)"

text \<open>One turn of the task: an idle one takes a command, a running one takes all of them and then, if it
  is still running, writes a block. A registered provider is looked up in \<open>provide\<close>; \<open>enable k\<close> is what
  enabling the channel gives at the \<open>k\<close>-th command of the turn.\<close>

definition i2s_service_turn ::
    "(nat \<Rightarrow> esp_err) \<Rightarrow> (nat \<Rightarrow> bytes \<Rightarrow> int \<times> bytes) \<Rightarrow> bytes \<Rightarrow> i2s_state \<Rightarrow> i2s_state" where
  "i2s_service_turn enable provide buf s =
     (case i2_cmd_queue s of None \<Rightarrow> s
      | Some q \<Rightarrow>
          if \<not> i2_task s then s
          else if \<not> i2_running s then
            (case q of [] \<Rightarrow> s
             | msg # q1 \<Rightarrow> i2s_service_process_cmd (enable 0) msg (s\<lparr>i2_cmd_queue := Some q1\<rparr>))
          else
            let s1 = i2s_drain enable 0 q (s\<lparr>i2_cmd_queue := Some []\<rparr>) in
            if \<not> i2_running s1 then s1
            else s1\<lparr>i2_written := i2_written s1 @ [i2s_fill (map_option provide (i2_pcm_provider s1)) buf]\<rparr>)"

definition i2s_service_send :: "i2s_service_msg \<Rightarrow> i2s_state \<Rightarrow> esp_err \<times> i2s_state" where
  "i2s_service_send msg s =
     (case i2_cmd_queue s of None \<Rightarrow> (ESP_ERR_INVALID_STATE, s)
      | Some q \<Rightarrow> if length q < I2S_SVC_QUEUE_DEPTH then (ESP_OK, s\<lparr>i2_cmd_queue := Some (q @ [msg])\<rparr>)
                  else (ESP_ERR_TIMEOUT, s))"

text \<open>What the driver and the system give at the start.\<close>

record i2s_env =
  ie_new_channel :: esp_err
  ie_init_std :: esp_err
  ie_queue :: bool
  ie_task :: bool

definition i2s_service_init :: "i2s_env \<Rightarrow> i2s_state \<Rightarrow> esp_err \<times> i2s_state" where
  "i2s_service_init env s =
     (if i2_cmd_queue s \<noteq> None then (ESP_OK, s)
      else if ie_new_channel env \<noteq> ESP_OK then (ie_new_channel env, s)
      else
        let s1 = s\<lparr>i2_tx_channel := True\<rparr> in
        if ie_init_std env \<noteq> ESP_OK then (ie_init_std env, s1\<lparr>i2_tx_channel := False\<rparr>)
        else if \<not> ie_queue env then (ESP_ERR_NO_MEM, s1\<lparr>i2_tx_channel := False\<rparr>)
        else
          let s2 = s1\<lparr>i2_cmd_queue := Some []\<rparr> in
          if \<not> ie_task env then (ESP_ERR_NO_MEM, s2\<lparr>i2_tx_channel := False\<rparr>)
          else (ESP_OK, s2\<lparr>i2_task := True\<rparr>))"

definition i2s_service_start_audio :: "i2s_state \<Rightarrow> esp_err \<times> i2s_state" where
  "i2s_service_start_audio s = i2s_service_send I2S_SVC_CMD_START s"

definition i2s_service_suspend_audio :: "i2s_state \<Rightarrow> esp_err \<times> i2s_state" where
  "i2s_service_suspend_audio s = i2s_service_send I2S_SVC_CMD_SUSPEND s"

definition i2s_service_register_pcm_provider :: "nat option \<Rightarrow> i2s_state \<Rightarrow> esp_err \<times> i2s_state" where
  "i2s_service_register_pcm_provider provider s = i2s_service_send (I2S_SVC_CMD_REGISTER_PROVIDER provider) s"

section \<open>The switch\<close>

datatype audio_output_target = AUDIO_OUTPUT_TARGET_BLUETOOTH | AUDIO_OUTPUT_TARGET_I2S | Audio_Output_Other nat

record output_state =
  ou_provider :: "nat option"
  ou_target :: audio_output_target
  ou_initialised :: bool
  ou_bt :: bt_state
  ou_i2s :: i2s_state

text \<open>What the switch registers with a sink is its own dispatcher, the function numbered 0.\<close>

definition DISPATCH_PCM :: nat where "DISPATCH_PCM = 0"

definition audio_output_switch_dispatch_pcm ::
    "(nat \<Rightarrow> bytes \<Rightarrow> int \<times> bytes) \<Rightarrow> nat option \<Rightarrow> bytes \<Rightarrow> int \<times> bytes" where
  "audio_output_switch_dispatch_pcm provide provider data =
     (if data = [] then (0, data)
      else case provider of None \<Rightarrow> (int (length data), replicate (length data) 0)
      | Some p \<Rightarrow> provide p data)"

definition audio_output_switch_register_bluetooth :: "nat option \<Rightarrow> output_state \<Rightarrow> esp_err \<times> output_state" where
  "audio_output_switch_register_bluetooth provider s =
     (case bluetooth_service_register_pcm_provider provider (ou_bt s) of (err, b) \<Rightarrow> (err, s\<lparr>ou_bt := b\<rparr>))"

definition audio_output_switch_register_i2s :: "nat option \<Rightarrow> output_state \<Rightarrow> esp_err \<times> output_state" where
  "audio_output_switch_register_i2s provider s =
     (case i2s_service_register_pcm_provider provider (ou_i2s s) of (err, i) \<Rightarrow> (err, s\<lparr>ou_i2s := i\<rparr>))"

definition audio_output_switch_get_register_fn ::
    "audio_output_target \<Rightarrow> (nat option \<Rightarrow> output_state \<Rightarrow> esp_err \<times> output_state) option" where
  "audio_output_switch_get_register_fn target =
     (case target of
        AUDIO_OUTPUT_TARGET_BLUETOOTH \<Rightarrow> Some audio_output_switch_register_bluetooth
      | AUDIO_OUTPUT_TARGET_I2S \<Rightarrow> Some audio_output_switch_register_i2s
      | Audio_Output_Other n \<Rightarrow> None)"

definition on_bt :: "(bt_state \<Rightarrow> esp_err \<times> bt_state) \<Rightarrow> output_state \<Rightarrow> esp_err \<times> output_state" where
  "on_bt f s = (case f (ou_bt s) of (err, b) \<Rightarrow> (err, s\<lparr>ou_bt := b\<rparr>))"

definition on_i2s :: "(i2s_state \<Rightarrow> esp_err \<times> i2s_state) \<Rightarrow> output_state \<Rightarrow> esp_err \<times> output_state" where
  "on_i2s f s = (case f (ou_i2s s) of (err, i) \<Rightarrow> (err, s\<lparr>ou_i2s := i\<rparr>))"

definition audio_output_switch_unregister_target :: "audio_output_target \<Rightarrow> output_state \<Rightarrow> esp_err \<times> output_state"
where
  "audio_output_switch_unregister_target target s =
     (case (case audio_output_switch_get_register_fn target of None \<Rightarrow> (ESP_OK, s)
            | Some register_fn \<Rightarrow> register_fn None s) of
        (err, s1) \<Rightarrow>
          if err \<noteq> ESP_OK then (err, s1)
          else (case target of
             AUDIO_OUTPUT_TARGET_BLUETOOTH \<Rightarrow> on_bt bluetooth_service_suspend_audio s1
           | AUDIO_OUTPUT_TARGET_I2S \<Rightarrow> on_i2s i2s_service_suspend_audio s1
           | Audio_Output_Other n \<Rightarrow> (ESP_OK, s1)))"

definition audio_output_switch_register_target :: "audio_output_target \<Rightarrow> output_state \<Rightarrow> esp_err \<times> output_state"
where
  "audio_output_switch_register_target target s =
     (case audio_output_switch_get_register_fn target of None \<Rightarrow> (ESP_ERR_INVALID_ARG, s)
      | Some register_fn \<Rightarrow>
          (case register_fn (Some DISPATCH_PCM) s of (err, s1) \<Rightarrow>
             if err \<noteq> ESP_OK then (err, s1)
             else (case target of
                AUDIO_OUTPUT_TARGET_BLUETOOTH \<Rightarrow>
                  if \<not> bluetooth_service_is_initialised (ou_bt s1) \<or> \<not> bluetooth_service_is_a2dp_connected (ou_bt s1)
                  then (ESP_ERR_INVALID_STATE, snd (register_fn None s1))
                  else (case on_bt bluetooth_service_start_audio s1 of (err2, s2) \<Rightarrow>
                     (err2, if err2 \<noteq> ESP_OK then snd (register_fn None s2) else s2))
              | AUDIO_OUTPUT_TARGET_I2S \<Rightarrow>
                  (case on_i2s i2s_service_start_audio s1 of (err2, s2) \<Rightarrow>
                     (err2, if err2 \<noteq> ESP_OK then snd (register_fn None s2) else s2))
              | Audio_Output_Other n \<Rightarrow> (ESP_ERR_INVALID_ARG, snd (register_fn None s1)))))"

definition audio_output_switch_select :: "audio_output_target \<Rightarrow> output_state \<Rightarrow> esp_err \<times> output_state" where
  "audio_output_switch_select target s =
     (let previous_target = ou_target s in
      if target = previous_target then (ESP_OK, s)
      else if target = AUDIO_OUTPUT_TARGET_BLUETOOTH \<and>
        (\<not> bluetooth_service_is_initialised (ou_bt s) \<or> \<not> bluetooth_service_is_a2dp_connected (ou_bt s))
      then (ESP_ERR_INVALID_STATE, s)
      else case audio_output_switch_unregister_target previous_target s of (err, s1) \<Rightarrow>
        if err \<noteq> ESP_OK then (err, s1)
        else case audio_output_switch_register_target target (s1\<lparr>ou_target := target\<rparr>) of (err2, s2) \<Rightarrow>
          if err2 \<noteq> ESP_OK
          then (err2, snd (audio_output_switch_register_target previous_target (s2\<lparr>ou_target := previous_target\<rparr>)))
          else (ESP_OK, s2))"

text \<open>The handler of an event of the Bluetooth service; the connection state is its data.\<close>

definition audio_output_switch_on_bt_event :: "bluetooth_service_event \<Rightarrow> output_state \<Rightarrow> output_state" where
  "audio_output_switch_on_bt_event event s =
     (case event of
        BLUETOOTH_SVC_EVENT_A2DP_CONNECTION_STATE state \<Rightarrow>
          if state = ESP_A2D_CONNECTION_STATE_CONNECTED then
            if ou_target s \<noteq> AUDIO_OUTPUT_TARGET_BLUETOOTH
            then snd (audio_output_switch_select AUDIO_OUTPUT_TARGET_BLUETOOTH s) else s
          else if state = ESP_A2D_CONNECTION_STATE_DISCONNECTED then
            if ou_target s = AUDIO_OUTPUT_TARGET_BLUETOOTH
            then snd (audio_output_switch_select AUDIO_OUTPUT_TARGET_I2S s) else s
          else s
      | _ \<Rightarrow> s)"

definition audio_output_switch_init :: "esp_err \<Rightarrow> output_state \<Rightarrow> esp_err \<times> output_state" where
  "audio_output_switch_init handler_register s =
     (if ou_initialised s then (ESP_OK, s)
      else if handler_register \<noteq> ESP_OK then (handler_register, s)
      else (ESP_OK, s\<lparr>ou_initialised := True\<rparr>))"

definition audio_output_switch_set_provider :: "nat option \<Rightarrow> output_state \<Rightarrow> esp_err \<times> output_state" where
  "audio_output_switch_set_provider provider s =
     audio_output_switch_register_target (ou_target s) (s\<lparr>ou_provider := provider\<rparr>)"

definition audio_output_switch_get_target :: "output_state \<Rightarrow> audio_output_target" where
  "audio_output_switch_get_target s = ou_target s"

definition audio_output_switch_target_name :: "audio_output_target \<Rightarrow> string" where
  "audio_output_switch_target_name target =
     (case target of AUDIO_OUTPUT_TARGET_BLUETOOTH \<Rightarrow> ''a2dp'' | AUDIO_OUTPUT_TARGET_I2S \<Rightarrow> ''i2s''
      | Audio_Output_Other n \<Rightarrow> ''unknown'')"

end
