(* ===== verification/Output_Props.thy ===== *)
theory Output_Props
  imports Output Bluetooth_Props
begin

text \<open>
  What holds of the sinks and the switch: a block for the driver is always full, a sink that is not
  chosen plays nothing, and what a choice asks of the two sinks. The Bluetooth service is shown to leave its provider
  of samples alone.
\<close>

section \<open>What a block holds\<close>

lemma i2s_block_full:
  assumes "length buf = I2S_SVC_PCM_BUF_BYTES" and "provide buf = (n, data)"
    and "n \<le> int I2S_SVC_PCM_BUF_BYTES" and "length data = length buf"
  shows "i2s_fill (Some provide) buf = take (nat n) data @ replicate (I2S_SVC_PCM_BUF_BYTES - nat n) 0"
  using assms by (auto simp: i2s_fill_def Let_def)

lemma i2s_block_silence: "i2s_fill None buf = replicate I2S_SVC_PCM_BUF_BYTES 0"
  by (simp add: i2s_fill_def)

section \<open>Only one sink is fed\<close>

text \<open>Whether the wired sink may be running once it has served its commands.\<close>

definition i2s_after :: "bool \<Rightarrow> i2s_service_msg \<Rightarrow> bool" where
  "i2s_after r msg = (case msg of I2S_SVC_CMD_START \<Rightarrow> True | I2S_SVC_CMD_SUSPEND \<Rightarrow> False
     | I2S_SVC_CMD_REGISTER_PROVIDER p \<Rightarrow> r)"

definition i2s_pending :: "i2s_state \<Rightarrow> i2s_service_msg list" where
  "i2s_pending s = (case i2_cmd_queue s of None \<Rightarrow> [] | Some q \<Rightarrow> q)"

definition i2s_may_run :: "i2s_state \<Rightarrow> bool" where
  "i2s_may_run s = foldl i2s_after (i2_running s) (i2s_pending s)"

definition i2s_ok :: "i2s_state \<Rightarrow> bool" where
  "i2s_ok s \<longleftrightarrow> (i2_running s \<longrightarrow> i2_tx_channel s)"

definition output_inv :: "output_state \<Rightarrow> bool" where
  "output_inv s \<longleftrightarrow> i2s_ok (ou_i2s s) \<and> (i2_running (ou_i2s s) \<longrightarrow> i2_cmd_queue (ou_i2s s) \<noteq> None) \<and>
     (bt_pcm_provider (ou_bt s) \<noteq> None \<longrightarrow> ou_target s = AUDIO_OUTPUT_TARGET_BLUETOOTH) \<and>
     (i2s_may_run (ou_i2s s) \<longrightarrow> ou_target s = AUDIO_OUTPUT_TARGET_I2S)"

lemma i2s_after_mono: "(r \<longrightarrow> r') \<Longrightarrow> foldl i2s_after r ms \<longrightarrow> foldl i2s_after r' ms"
proof (induction ms arbitrary: r r')
  case (Cons m ms)
  show ?case
    using Cons.prems Cons.IH[of "i2s_after r m" "i2s_after r' m"]
    by (cases m) (simp_all add: i2s_after_def)
qed simp

lemma i2s_process_cmd_simps:
  "i2s_ok s \<Longrightarrow> i2s_ok (i2s_service_process_cmd e m s)"
  "i2s_ok s \<Longrightarrow> i2_running (i2s_service_process_cmd e m s) \<Longrightarrow> i2s_after (i2_running s) m"
  "i2_cmd_queue (i2s_service_process_cmd e m s) = i2_cmd_queue s"
  by (cases m; auto simp: i2s_service_process_cmd_def i2s_ok_def i2s_after_def Let_def split: if_splits)+

lemma i2s_drain_simps:
  "i2s_ok s \<Longrightarrow> i2s_ok (i2s_drain enable k ms s)"
  "i2s_ok s \<Longrightarrow> i2_running (i2s_drain enable k ms s) \<longrightarrow> foldl i2s_after (i2_running s) ms"
  "i2_cmd_queue (i2s_drain enable k ms s) = i2_cmd_queue s"
proof (induction enable k ms s rule: i2s_drain.induct)
  case (2 enable k m ms s)
  { case 1 then show ?case using 2(1) i2s_process_cmd_simps(1) by simp }
  { case 2
    then show ?case
      using \<open>i2s_ok (i2s_service_process_cmd (enable k) m s) \<Longrightarrow> i2_running _ \<longrightarrow> _\<close> i2s_process_cmd_simps(1,2)[of s]
        i2s_after_mono[of "i2_running (i2s_service_process_cmd (enable k) m s)" "i2s_after (i2_running s) m" ms]
      by auto }
  { case 3 show ?case using 2(3) by (simp add: i2s_process_cmd_simps) }
qed simp_all

lemma i2s_turn_keeps:
  assumes "i2s_ok s"
  shows "i2s_ok (i2s_service_turn enable provide buf s)"
    and "i2s_may_run (i2s_service_turn enable provide buf s) \<Longrightarrow> i2s_may_run s"
proof -
  have "i2s_ok (i2s_service_turn enable provide buf s) \<and>
    (i2s_may_run (i2s_service_turn enable provide buf s) \<longrightarrow> i2s_may_run s)"
  proof (cases "i2_cmd_queue s")
    case None then show ?thesis using assms by (simp add: i2s_service_turn_def)
  next
    case (Some q)
    show ?thesis
    proof (cases "i2_running s")
      case True
      let ?s0 = "s\<lparr>i2_cmd_queue := Some []\<rparr>"
      have "i2s_ok ?s0" using assms by (simp add: i2s_ok_def)
      note d = i2s_drain_simps(1,2)[OF this, of enable 0 q] i2s_drain_simps(3)[of enable 0 q ?s0]
      then show ?thesis
        using True Some assms
        by (auto simp: i2s_service_turn_def Let_def i2s_may_run_def i2s_pending_def i2s_ok_def)
    next
      case False
      then show ?thesis
      proof (cases q)
        case (Cons m q1)
        let ?s0 = "s\<lparr>i2_cmd_queue := Some q1\<rparr>"
        have "i2s_ok ?s0" using assms by (simp add: i2s_ok_def)
        note d = i2s_process_cmd_simps(1,2)[OF this, of "enable 0" m] i2s_process_cmd_simps(3)[of "enable 0" m ?s0]
        then show ?thesis
          using False Some Cons assms
            i2s_after_mono[of "i2_running (i2s_service_process_cmd (enable 0) m ?s0)" "i2s_after (i2_running s) m" q1]
          by (auto simp: i2s_service_turn_def i2s_may_run_def i2s_pending_def)
      qed (use Some assms in \<open>simp add: i2s_service_turn_def\<close>)
    qed
  qed
  then show "i2s_ok (i2s_service_turn enable provide buf s)"
    "i2s_may_run (i2s_service_turn enable provide buf s) \<Longrightarrow> i2s_may_run s" by blast+
qed

lemma i2s_send_view:
  assumes "i2s_service_send m s = (err, s')"
  shows "i2s_ok s \<Longrightarrow> i2s_ok s'"
    and "err = ESP_OK \<Longrightarrow> i2s_may_run s' = i2s_after (i2s_may_run s) m"
    and "err \<noteq> ESP_OK \<Longrightarrow> s' = s"
    and "err = ESP_OK \<Longrightarrow> i2s_pending s' = i2s_pending s @ [m]"
  using assms by (auto simp: i2s_service_send_def i2s_ok_def i2s_may_run_def i2s_pending_def
      split: option.splits if_splits)

subsection \<open>The Bluetooth service leaves the provider alone\<close>

lemma provider_basic [simp]:
  "bt_pcm_provider (bt_log c s) = bt_pcm_provider s"
  "bt_pcm_provider (snd (bt_do env c s)) = bt_pcm_provider s"
  "bt_pcm_provider (snd (bt_svc_queue_send m s)) = bt_pcm_provider s"
  "bt_pcm_provider (snd (bt_svc_api_send m s)) = bt_pcm_provider s"
  "bt_pcm_provider (bt_svc_post_event e s) = bt_pcm_provider s"
  "bt_pcm_provider (bt_svc_invoke_connection_callback ce b s) = bt_pcm_provider s"
  "bt_pcm_provider (next_tl s) = bt_pcm_provider s"
  "bt_pcm_provider (bt_svc_spp_reset_link_state s) = bt_pcm_provider s"
  "bt_pcm_provider (snd (bt_svc_spp_send_value env h v cf s)) = bt_pcm_provider s"
  "bt_pcm_provider (bt_svc_store_discovery_result r s) = bt_pcm_provider s"
  "bt_pcm_provider (bt_svc_reset_discovery_results s) = bt_pcm_provider s"
  "bt_pcm_provider (bt_svc_clear_pending_pairing_confirm s) = bt_pcm_provider s"
  "bt_pcm_provider (bt_svc_set_pending_pairing_confirm b v' s) = bt_pcm_provider s"
  by (simp_all add: bt_log_def bt_do_def bt_svc_queue_send_def bt_svc_api_send_def bt_svc_post_event_def
      bt_svc_invoke_connection_callback_def next_tl_def bt_svc_spp_reset_link_state_def bt_svc_spp_send_value_def
      bt_svc_store_discovery_result_def bt_svc_reset_discovery_results_def bt_svc_clear_pending_pairing_confirm_def
      bt_svc_set_pending_pairing_confirm_def Let_def split: option.split prod.split)

lemma provider_ops [simp]:
  "bt_pcm_provider (register_volume s) = bt_pcm_provider s"
  "bt_pcm_provider (snd (bt_svc_spp_send_data env v s)) = bt_pcm_provider s"
  "bt_pcm_provider (snd (bt_svc_spp_send_status env st s)) = bt_pcm_provider s"
  "bt_pcm_provider (snd (bt_svc_take_pending_pairing_confirm s)) = bt_pcm_provider s"
  "bt_pcm_provider (bt_svc_select_and_connect_best_sink s) = bt_pcm_provider s"
  "bt_pcm_provider (snd (bt_svc_connect_last_bonded_device env s)) = bt_pcm_provider s"
  by (simp_all add: register_volume_def bt_svc_spp_send_data_def bt_svc_spp_send_status_def
      bt_svc_take_pending_pairing_confirm_def bt_svc_select_and_connect_best_sink_def
      bt_svc_connect_last_bonded_device_def Let_def split: option.split sum.split)

lemma provider_confirm_reply [simp]: "bt_pcm_provider (bt_svc_process_confirm_reply a s) = bt_pcm_provider s"
  using provider_ops(4)[of s]
  by (cases "bt_svc_take_pending_pairing_confirm s")
    (auto simp: bt_svc_process_confirm_reply_def split: option.split)

lemma provider_msg [simp]: "bt_pcm_provider (bt_svc_process_msg env m s) = bt_pcm_provider s"
  by (cases m)
    (simp_all add: bt_svc_process_msg_def bt_svc_process_pair_best_def bt_svc_process_start_discovery_def
      bt_svc_process_media_key_def bt_svc_process_discovery_state_def bt_svc_process_auth_complete_def
      bt_svc_process_a2dp_state_def bt_svc_process_passthrough_cmd_def bt_svc_process_set_abs_vol_def
      bt_svc_process_rn_caps_def bt_svc_process_vol_change_def bt_svc_process_reg_vol_notify_def Let_def
      split: prod.split)

lemma provider_drain: "bt_pcm_provider (bt_svc_drain env n s) = bt_pcm_provider s"
  by (induction env n s rule: bt_svc_drain.induct) (auto split: option.splits list.splits)

lemma provider_pass [simp]: "bt_pcm_provider (bluetooth_service_process_once env s) = bt_pcm_provider s"
  by (simp add: bluetooth_service_process_once_def provider_drain)

lemma provider_callback [simp]: "bt_pcm_provider (bt_stack_callback env s ev) = bt_pcm_provider s"
  by (simp add: bt_stack_callback_def bt_svc_gap_bt_cb_def bt_svc_a2dp_cb_def bt_svc_avrc_cb_def spp_write_def
      bt_svc_avrc_tg_cb_def bt_svc_gap_ble_cb_def bt_svc_spp_gatts_cb_def Let_def
      split: bt_stack_event.split gap_event.split a2d_event.split avrc_ct_event.split avrc_tg_event.split
        ble_event.split gatts_event.split)

lemma provider_callbacks: "bt_pcm_provider (foldl (bt_stack_callback env) s evs) = bt_pcm_provider s"
  by (induction evs arbitrary: s) simp_all

lemma provider_wait: "bt_pcm_provider (snd (bt_svc_wait_for_disconnect_state env p flag tg t n e s)) = bt_pcm_provider s"
proof (induction env p flag tg t n e s rule: bt_svc_wait_for_disconnect_state.induct)
  case (1 env p flag tg t n e s)
  then show ?case
    by (subst bt_svc_wait_for_disconnect_state.simps) (simp add: Let_def provider_callbacks)
qed

lemma provider_keeps:
  "bt_keeps (\<lambda>s. bt_pcm_provider s = p) (bt_tolerant env call)"
  "bt_keeps (\<lambda>s. bt_pcm_provider s = p) (bt_strict env call)"
  "bt_keeps (\<lambda>s. bt_pcm_provider s = p) (bt_wait env sched flag)"
  "bt_keeps (\<lambda>s. bt_pcm_provider s = p) (\<lambda>s. (ESP_OK, foldl (bt_stack_callback env) s evs))"
  using provider_basic(2)
  by (auto simp: bt_keeps_def bt_tolerant_def bt_strict_def bt_wait_def provider_wait provider_callbacks bt_do_def
      split: prod.split)

lemma provider_shutdown: "bt_pcm_provider (snd (bluetooth_service_shutdown env sa sb evs s)) = bt_pcm_provider s"
proof -
  have "bt_keeps (\<lambda>x. bt_pcm_provider x = bt_pcm_provider s) (bt_seq (bt_svc_shutdown_steps env sa sb evs))"
    unfolding bt_svc_shutdown_steps_def by (rule bt_seq_keeps) (simp add: bt_when_keeps provider_keeps)
  from bt_keepsD[OF this, of s] show ?thesis
    by (auto simp: bluetooth_service_shutdown_def bt_forget_boot bt_boot_keeping_def split: prod.split)
qed

lemma provider_check_all: "bt_pcm_provider (snd (bt_svc_check_all env steps s)) = bt_pcm_provider s"
  by (induction env steps s rule: bt_svc_check_all.induct) (auto simp: bt_do_def)

lemma provider_connect_last:
  "bt_pcm_provider (snd (bluetooth_service_connect_last_bonded_a2dp_device s)) = bt_pcm_provider s"
  by (simp add: bluetooth_service_connect_last_bonded_a2dp_device_def Let_def)

lemma provider_init: "bt_pcm_provider (snd (bluetooth_service_init env s)) = bt_pcm_provider s"
proof -
  obtain ok s1 where a: "bt_svc_check_all env bt_svc_setup (s\<lparr>bt_cmd_queue := Some []\<rparr>) = (ok, s1)" by force
  obtain ok2 s2 where b: "bt_svc_check_all env
      [Power_Register_Shutdown POWER_MGMT_SERVICE_SHUTDOWN_PRIORITY_BLUETOOTH] (s1\<lparr>bt_initialised := True\<rparr>) = (ok2, s2)"
    by force
  have "bt_pcm_provider s1 = bt_pcm_provider s" "bt_pcm_provider s2 = bt_pcm_provider s1"
    using provider_check_all[of env bt_svc_setup "s\<lparr>bt_cmd_queue := Some []\<rparr>"]
      provider_check_all[of env "[Power_Register_Shutdown POWER_MGMT_SERVICE_SHUTDOWN_PRIORITY_BLUETOOTH]" "s1\<lparr>bt_initialised := True\<rparr>"] a b
    by simp_all
  then show ?thesis
    by (auto simp: bluetooth_service_init_def a b provider_connect_last split: bool.split simp del: bt_svc_check_all.simps)
qed

fun is_register_provider :: "bt_op \<Rightarrow> bool" where
  "is_register_provider (Op_Register_Provider p) = True"
| "is_register_provider op = False"

lemma provider_op: "\<not> is_register_provider op \<Longrightarrow> bt_pcm_provider (bt_op_step s op) = bt_pcm_provider s"
  by (cases op)
    (simp_all add: provider_init provider_shutdown provider_connect_last bluetooth_service_pair_best_a2dp_sink_def
      bluetooth_service_reply_pairing_confirm_def bluetooth_service_disconnect_a2dp_def
      bluetooth_service_start_audio_def bluetooth_service_suspend_audio_def bluetooth_service_send_media_key_def
      bluetooth_service_start_discovery_def
      bluetooth_service_register_connection_callback_def bluetooth_service_register_media_key_callback_def
      bluetooth_service_register_spp_rx_callback_def bluetooth_service_spp_send_data_def bluetooth_service_unbond_def
      Let_def split: option.split)

subsection \<open>The switch\<close>

text \<open>What the switch does to the two sinks, seen as their provider and whether the wired one may run.\<close>

lemma api_send_provider: "bt_svc_api_send m b = (err, b') \<Longrightarrow> bt_pcm_provider b' = bt_pcm_provider b"
  by (metis provider_basic(4) snd_conv)

lemma register_bt_cases:
  "audio_output_switch_register_bluetooth p s = (ESP_OK, s\<lparr>ou_bt := (ou_bt s)\<lparr>bt_pcm_provider := p\<rparr>\<rparr>)"
  by (simp add: audio_output_switch_register_bluetooth_def bluetooth_service_register_pcm_provider_def)

lemma on_bt_send:
  assumes "f = bluetooth_service_suspend_audio \<or> f = bluetooth_service_start_audio" and "on_bt f s = (err, s')"
  shows "ou_target s' = ou_target s \<and> ou_i2s s' = ou_i2s s \<and> bt_pcm_provider (ou_bt s') = bt_pcm_provider (ou_bt s)"
  using assms
  by (auto simp: on_bt_def bluetooth_service_suspend_audio_def bluetooth_service_start_audio_def
      dest: api_send_provider split: prod.splits if_splits)

text \<open>A step of the switch that keeps the wired sink consistent and touches the two only as said: the
  provider given to Bluetooth becomes one of a set, the wired sink may run only if it might before or
  when the step may start it.\<close>

definition sink_step :: "bool \<Rightarrow> output_state \<Rightarrow> output_state \<Rightarrow> bool" where
  "sink_step starts s s' \<longleftrightarrow> ou_target s' = ou_target s \<and>
     (i2s_ok (ou_i2s s) \<longrightarrow> i2s_ok (ou_i2s s')) \<and>
     (i2_running (ou_i2s s') = i2_running (ou_i2s s)) \<and>
     (i2_cmd_queue (ou_i2s s) \<noteq> None \<longrightarrow> i2_cmd_queue (ou_i2s s') \<noteq> None) \<and>
     (i2s_may_run (ou_i2s s') \<longrightarrow> starts \<or> i2s_may_run (ou_i2s s))"

lemma sink_step_refl [simp]: "sink_step b s s"
  by (simp add: sink_step_def)

lemma sink_step_trans: "sink_step b s s1 \<Longrightarrow> sink_step b s1 s2 \<Longrightarrow> sink_step b s s2"
  by (auto simp: sink_step_def)

lemma sink_step_mono: "sink_step False s s' \<Longrightarrow> sink_step b s s'"
  by (auto simp: sink_step_def)

lemma sink_step_bt: "ou_target s' = ou_target s \<Longrightarrow> ou_i2s s' = ou_i2s s \<Longrightarrow> sink_step b s s'"
  by (simp add: sink_step_def)

lemma sink_step_send:
  assumes "i2s_service_send m (ou_i2s s) = (err, i)" and "m = I2S_SVC_CMD_START \<longrightarrow> b"
  shows "sink_step b s (s\<lparr>ou_i2s := i\<rparr>)"
  using assms
  by (cases m) (auto simp: sink_step_def i2s_service_send_def i2s_ok_def i2s_may_run_def i2s_pending_def i2s_after_def
      split: option.splits if_splits)

lemma register_i2s_step: "sink_step b s (snd (audio_output_switch_register_i2s p s))"
  by (auto simp: audio_output_switch_register_i2s_def i2s_service_register_pcm_provider_def intro: sink_step_send
      split: prod.split)

lemma register_i2s_bt: "ou_bt (snd (audio_output_switch_register_i2s p s)) = ou_bt s"
  by (simp add: audio_output_switch_register_i2s_def split: prod.split)

lemma on_i2s_step:
  "sink_step b s (snd (on_i2s i2s_service_suspend_audio s))"
  "sink_step True s (snd (on_i2s i2s_service_start_audio s))"
  by (auto simp: on_i2s_def i2s_service_suspend_audio_def i2s_service_start_audio_def intro: sink_step_send
      split: prod.split)

lemma on_i2s_bt: "ou_bt (snd (on_i2s f s)) = ou_bt s"
  by (simp add: on_i2s_def split: prod.split)

lemma unregister_effect:
  assumes "audio_output_switch_unregister_target t s = (err, s')"
  shows "sink_step False s s'"
    and "t = AUDIO_OUTPUT_TARGET_BLUETOOTH \<Longrightarrow> bt_pcm_provider (ou_bt s') = None"
    and "t \<noteq> AUDIO_OUTPUT_TARGET_BLUETOOTH \<Longrightarrow> ou_bt s' = ou_bt s"
    and "t = AUDIO_OUTPUT_TARGET_I2S \<Longrightarrow> err = ESP_OK \<Longrightarrow> \<not> i2s_may_run (ou_i2s s')"
proof -
  have "sink_step False s s' \<and> (t = AUDIO_OUTPUT_TARGET_BLUETOOTH \<longrightarrow> bt_pcm_provider (ou_bt s') = None) \<and>
    (t \<noteq> AUDIO_OUTPUT_TARGET_BLUETOOTH \<longrightarrow> ou_bt s' = ou_bt s) \<and>
    (t = AUDIO_OUTPUT_TARGET_I2S \<longrightarrow> err = ESP_OK \<longrightarrow> \<not> i2s_may_run (ou_i2s s'))"
  proof (cases t)
    case AUDIO_OUTPUT_TARGET_BLUETOOTH
    let ?s1 = "s\<lparr>ou_bt := (ou_bt s)\<lparr>bt_pcm_provider := None\<rparr>\<rparr>"
    have "on_bt bluetooth_service_suspend_audio ?s1 = (err, s')"
      using assms AUDIO_OUTPUT_TARGET_BLUETOOTH
      by (simp add: audio_output_switch_unregister_target_def audio_output_switch_get_register_fn_def register_bt_cases)
    from on_bt_send[OF _ this] AUDIO_OUTPUT_TARGET_BLUETOOTH show ?thesis by (simp add: sink_step_def)
  next
    case AUDIO_OUTPUT_TARGET_I2S
    obtain e1 s1 where r: "audio_output_switch_register_i2s None s = (e1, s1)" by force
    have s1: "sink_step False s s1" "ou_bt s1 = ou_bt s"
      using register_i2s_step[of False s None] register_i2s_bt[of None s] r by simp_all
    show ?thesis
    proof (cases "e1 = ESP_OK")
      case True
      then have "on_i2s i2s_service_suspend_audio s1 = (err, s')"
        using assms AUDIO_OUTPUT_TARGET_I2S r
        by (simp add: audio_output_switch_unregister_target_def audio_output_switch_get_register_fn_def)
      moreover from this have "err = ESP_OK \<Longrightarrow> \<not> i2s_may_run (ou_i2s s')"
        using i2s_send_view(2)[of I2S_SVC_CMD_SUSPEND "ou_i2s s1"]
        by (auto simp: on_i2s_def i2s_service_suspend_audio_def i2s_after_def split: prod.splits)
      ultimately show ?thesis
        using s1 on_i2s_step(1)[of False s1] on_i2s_bt[of i2s_service_suspend_audio s1] AUDIO_OUTPUT_TARGET_I2S
          sink_step_trans[OF s1(1)] by auto
    next
      case False
      then show ?thesis
        using assms AUDIO_OUTPUT_TARGET_I2S r s1
        by (auto simp: audio_output_switch_unregister_target_def audio_output_switch_get_register_fn_def)
    qed
  next
    case (Audio_Output_Other n)
    then show ?thesis
      using assms by (simp add: audio_output_switch_unregister_target_def audio_output_switch_get_register_fn_def)
  qed
  then show "sink_step False s s'"
    "t = AUDIO_OUTPUT_TARGET_BLUETOOTH \<Longrightarrow> bt_pcm_provider (ou_bt s') = None"
    "t \<noteq> AUDIO_OUTPUT_TARGET_BLUETOOTH \<Longrightarrow> ou_bt s' = ou_bt s"
    "t = AUDIO_OUTPUT_TARGET_I2S \<Longrightarrow> err = ESP_OK \<Longrightarrow> \<not> i2s_may_run (ou_i2s s')" by blast+
qed

lemma register_target_effect:
  assumes "audio_output_switch_register_target t s = (err, s')"
  shows "sink_step (t = AUDIO_OUTPUT_TARGET_I2S \<and> err = ESP_OK) s s'"
    and "t = AUDIO_OUTPUT_TARGET_BLUETOOTH \<Longrightarrow> err \<noteq> ESP_OK \<Longrightarrow> bt_pcm_provider (ou_bt s') = None"
    and "t \<noteq> AUDIO_OUTPUT_TARGET_BLUETOOTH \<Longrightarrow> ou_bt s' = ou_bt s"
proof -
  have "sink_step (t = AUDIO_OUTPUT_TARGET_I2S \<and> err = ESP_OK) s s' \<and>
    (t = AUDIO_OUTPUT_TARGET_BLUETOOTH \<longrightarrow> err \<noteq> ESP_OK \<longrightarrow> bt_pcm_provider (ou_bt s') = None) \<and>
    (t \<noteq> AUDIO_OUTPUT_TARGET_BLUETOOTH \<longrightarrow> ou_bt s' = ou_bt s)"
  proof (cases t)
    case AUDIO_OUTPUT_TARGET_BLUETOOTH
    let ?s1 = "s\<lparr>ou_bt := (ou_bt s)\<lparr>bt_pcm_provider := Some DISPATCH_PCM\<rparr>\<rparr>"
    obtain e2 s2 where o: "on_bt bluetooth_service_start_audio ?s1 = (e2, s2)" by force
    from on_bt_send[OF _ o] have "ou_target s2 = ou_target s \<and> ou_i2s s2 = ou_i2s s" by simp
    then show ?thesis
      using assms AUDIO_OUTPUT_TARGET_BLUETOOTH o
      by (auto simp: audio_output_switch_register_target_def audio_output_switch_get_register_fn_def register_bt_cases
          sink_step_def split: if_splits)
  next
    case AUDIO_OUTPUT_TARGET_I2S
    obtain e1 s1 where r: "audio_output_switch_register_i2s (Some DISPATCH_PCM) s = (e1, s1)" by force
    have s1: "sink_step b s s1" "ou_bt s1 = ou_bt s" for b
      using register_i2s_step[of b s "Some DISPATCH_PCM"] register_i2s_bt[of "Some DISPATCH_PCM" s] r by simp_all
    obtain e2 i where o: "i2s_service_send I2S_SVC_CMD_START (ou_i2s s1) = (e2, i)" by force
    have st: "sink_step True s1 (s1\<lparr>ou_i2s := i\<rparr>)" using sink_step_send[OF o] by simp
    show ?thesis
    proof (cases "e1 = ESP_OK \<and> e2 = ESP_OK")
      case True
      then have "err = ESP_OK \<and> s' = s1\<lparr>ou_i2s := i\<rparr>"
        using assms AUDIO_OUTPUT_TARGET_I2S r o
        by (simp add: audio_output_switch_register_target_def audio_output_switch_get_register_fn_def on_i2s_def
            i2s_service_start_audio_def)
      then show ?thesis
        using AUDIO_OUTPUT_TARGET_I2S s1 sink_step_trans[OF s1(1)[of True] st] by simp
    next
      case False
      then have "err \<noteq> ESP_OK \<and> (s' = s1 \<or> s' = snd (audio_output_switch_register_i2s None s1))"
        using assms AUDIO_OUTPUT_TARGET_I2S r o i2s_send_view(3)[OF o]
        by (auto simp: audio_output_switch_register_target_def audio_output_switch_get_register_fn_def on_i2s_def
            i2s_service_start_audio_def split: if_splits)
      then show ?thesis
        using AUDIO_OUTPUT_TARGET_I2S s1 register_i2s_step[of False s1 None] register_i2s_bt[of None s1]
          sink_step_trans[OF s1(1)[of False]] by auto
    qed
  next
    case (Audio_Output_Other n)
    then show ?thesis
      using assms by (simp add: audio_output_switch_register_target_def audio_output_switch_get_register_fn_def)
  qed
  then show "sink_step (t = AUDIO_OUTPUT_TARGET_I2S \<and> err = ESP_OK) s s'"
    "t = AUDIO_OUTPUT_TARGET_BLUETOOTH \<Longrightarrow> err \<noteq> ESP_OK \<Longrightarrow> bt_pcm_provider (ou_bt s') = None"
    "t \<noteq> AUDIO_OUTPUT_TARGET_BLUETOOTH \<Longrightarrow> ou_bt s' = ou_bt s" by blast+
qed

lemma register_keeps_inv:
  assumes "audio_output_switch_register_target (ou_target s) s = (err, s')" and inv: "output_inv s"
  shows "output_inv s' \<and> ou_target s' = ou_target s"
  using register_target_effect[OF assms(1)] inv
  by (cases "ou_target s = AUDIO_OUTPUT_TARGET_BLUETOOTH") (auto simp: output_inv_def sink_step_def)

lemma unregister_keeps_inv:
  assumes "audio_output_switch_unregister_target (ou_target s) s = (err, s')" and inv: "output_inv s"
  shows "output_inv s' \<and> ou_target s' = ou_target s \<and> bt_pcm_provider (ou_bt s') = None \<and>
    (err = ESP_OK \<longrightarrow> \<not> i2s_may_run (ou_i2s s'))"
  using unregister_effect[OF assms(1)] inv
  by (cases "ou_target s") (auto simp: output_inv_def sink_step_def)

lemma retarget_inv:
  "output_inv s \<Longrightarrow> bt_pcm_provider (ou_bt s) = None \<Longrightarrow> \<not> i2s_may_run (ou_i2s s) \<Longrightarrow> output_inv (s\<lparr>ou_target := t\<rparr>)"
  by (simp add: output_inv_def)

lemma register_failed_idle:
  assumes "audio_output_switch_register_target t s = (err, s')" and "err \<noteq> ESP_OK"
    and "bt_pcm_provider (ou_bt s) = None" and "\<not> i2s_may_run (ou_i2s s)"
  shows "bt_pcm_provider (ou_bt s') = None" and "\<not> i2s_may_run (ou_i2s s')"
  using register_target_effect[OF assms(1)] assms(2-)
  by (cases "t = AUDIO_OUTPUT_TARGET_BLUETOOTH"; auto simp: sink_step_def)+

lemma select_keeps_inv:
  assumes inv: "output_inv s" shows "output_inv (snd (audio_output_switch_select t s))"
proof -
  obtain e1 s1 where u: "audio_output_switch_unregister_target (ou_target s) s = (e1, s1)" by force
  note U = unregister_keeps_inv[OF u inv]
  obtain e2 s2 where r: "audio_output_switch_register_target t (s1\<lparr>ou_target := t\<rparr>) = (e2, s2)" by force
  obtain e3 s3 where b: "audio_output_switch_register_target (ou_target s) (s2\<lparr>ou_target := ou_target s\<rparr>) = (e3, s3)"
    by force
  show ?thesis
  proof (cases "e1 = ESP_OK")
    case True
    have inv1: "output_inv (s1\<lparr>ou_target := t\<rparr>)" using U True by (simp add: retarget_inv)
    have R: "output_inv s2" using register_keeps_inv[of "s1\<lparr>ou_target := t\<rparr>" e2 s2] r inv1 by simp
    show ?thesis
    proof (cases "e2 = ESP_OK")
      case False
      have "output_inv (s2\<lparr>ou_target := ou_target s\<rparr>)"
        using register_failed_idle[OF r False] U True R by (simp add: retarget_inv)
      then have "output_inv s3" using register_keeps_inv[of "s2\<lparr>ou_target := ou_target s\<rparr>" e3 s3] b by simp
      then show ?thesis using inv u r b True False by (simp add: audio_output_switch_select_def Let_def)
    qed (use inv u r R True in \<open>simp add: audio_output_switch_select_def Let_def\<close>)
  qed (use inv u U in \<open>simp add: audio_output_switch_select_def Let_def\<close>)
qed

text \<open>Everything that can happen to the two sinks and the switch. The Bluetooth service's own operations
  are all there but the one that registers a provider, which only the switch calls.\<close>

datatype output_op =
    Out_Bluetooth bt_op
  | Out_I2s_Init i2s_env
  | Out_I2s_Turn "nat \<Rightarrow> esp_err" "nat \<Rightarrow> bytes \<Rightarrow> int \<times> bytes" bytes
  | Out_Init esp_err
  | Out_Select audio_output_target
  | Out_Set_Provider "nat option"
  | Out_Bt_Event bluetooth_service_event

fun output_step :: "output_state \<Rightarrow> output_op \<Rightarrow> output_state" where
  "output_step s (Out_Bluetooth op) =
     (if is_register_provider op then s else s\<lparr>ou_bt := bt_op_step (ou_bt s) op\<rparr>)"
| "output_step s (Out_I2s_Init env) = s\<lparr>ou_i2s := snd (i2s_service_init env (ou_i2s s))\<rparr>"
| "output_step s (Out_I2s_Turn enable provide buf) = s\<lparr>ou_i2s := i2s_service_turn enable provide buf (ou_i2s s)\<rparr>"
| "output_step s (Out_Init err) = snd (audio_output_switch_init err s)"
| "output_step s (Out_Select t) = snd (audio_output_switch_select t s)"
| "output_step s (Out_Set_Provider p) = snd (audio_output_switch_set_provider p s)"
| "output_step s (Out_Bt_Event e) = audio_output_switch_on_bt_event e s"

definition output_boot :: output_state where
  "output_boot = \<lparr>ou_provider = None, ou_target = AUDIO_OUTPUT_TARGET_I2S, ou_initialised = False,
     ou_bt = bt_boot, ou_i2s = i2s_boot\<rparr>"

lemma i2s_turn_queue:
  "i2_cmd_queue s \<noteq> None \<Longrightarrow> i2_cmd_queue (i2s_service_turn enable provide buf s) \<noteq> None"
  "i2_cmd_queue s = None \<Longrightarrow> i2s_service_turn enable provide buf s = s"
  by (auto simp: i2s_service_turn_def Let_def i2s_drain_simps(3) i2s_process_cmd_simps(3)
      split: option.split list.split)

lemma i2s_init_keeps:
  assumes "output_inv s" shows "output_inv (s\<lparr>ou_i2s := snd (i2s_service_init env (ou_i2s s))\<rparr>)"
  using assms by (auto simp: output_inv_def i2s_service_init_def i2s_ok_def i2s_may_run_def i2s_pending_def Let_def)

lemma set_provider_inv:
  assumes "output_inv s" shows "output_inv (snd (audio_output_switch_set_provider p s))"
proof -
  obtain err s' where r: "audio_output_switch_register_target (ou_target s) (s\<lparr>ou_provider := p\<rparr>) = (err, s')"
    by force
  have "output_inv (s\<lparr>ou_provider := p\<rparr>)" using assms by (simp add: output_inv_def)
  then show ?thesis
    using register_keeps_inv[of "s\<lparr>ou_provider := p\<rparr>" err s'] r by (simp add: audio_output_switch_set_provider_def)
qed

lemma bt_event_inv: "output_inv s \<Longrightarrow> output_inv (audio_output_switch_on_bt_event e s)"
  by (cases e) (simp_all add: audio_output_switch_on_bt_event_def select_keeps_inv)

lemma output_step_inv:
  assumes inv: "output_inv s" shows "output_inv (output_step s op)"
proof (cases op)
  case (Out_Bluetooth b)
  then show ?thesis using inv by (simp add: output_inv_def provider_op)
next
  case (Out_I2s_Turn enable provide buf)
  then show ?thesis
    using inv i2s_turn_keeps[of "ou_i2s s" enable provide buf] i2s_turn_queue[of "ou_i2s s" enable provide buf]
    by (cases "i2_cmd_queue (ou_i2s s)") (auto simp: output_inv_def)
next
  case (Out_Init err)
  then show ?thesis using inv by (simp add: audio_output_switch_init_def output_inv_def)
qed (simp_all add: inv i2s_init_keeps select_keeps_inv set_provider_inv bt_event_inv)

interpretation outputs: event_machine output_step output_inv
  by unfold_locales (rule output_step_inv)

lemma output_run_inv: "output_inv (foldl output_step output_boot ops)"
proof (rule outputs.run_inv)
  show "output_inv output_boot"
    by (simp add: output_inv_def output_boot_def bt_boot_def i2s_boot_def i2s_ok_def i2s_may_run_def i2s_pending_def)
qed

text \<open>A sink that will not be running once it has served its commands writes nothing in its next turn,
  even if it is running now: it takes all of them before it writes.\<close>

lemma i2s_cmd_written [simp]: "i2_written (i2s_service_process_cmd e m s) = i2_written s"
  by (cases m) (simp_all add: i2s_service_process_cmd_def Let_def)

lemma i2s_drain_written [simp]: "i2_written (i2s_drain enable k ms s) = i2_written s"
  by (induction enable k ms s rule: i2s_drain.induct) simp_all

lemma i2s_turn_silent:
  assumes "i2s_ok s" and "\<not> i2s_may_run s"
  shows "i2_written (i2s_service_turn enable provide buf s) = i2_written s"
proof (cases "i2_cmd_queue s")
  case None then show ?thesis by (simp add: i2s_service_turn_def)
next
  case (Some q)
  let ?s0 = "s\<lparr>i2_cmd_queue := Some []\<rparr>"
  have "i2s_ok ?s0" using assms(1) by (simp add: i2s_ok_def)
  then have "i2_running s \<Longrightarrow> \<not> i2_running (i2s_drain enable 0 q ?s0)"
    using i2s_drain_simps(2)[of ?s0 enable 0 q] assms(2) Some by (auto simp: i2s_may_run_def i2s_pending_def)
  then show ?thesis using Some by (simp add: i2s_service_turn_def Let_def split: list.split)
qed

text \<open>C34: Whatever happens to the two sinks and the switch, in any order, with any call failing, only the
  chosen sink plays: while Bluetooth is not the target, the stack's request for samples is answered with
  silence, whatever the providers hold; and while the wired sink is not the target, a turn of its task
  gives no block to the driver. The wired sink may then still be running and have its provider: it
  keeps both until its task has served the commands of the choice, which it does before it writes. A
  turn of the task is one step, so a block it was filling when the choice came counts as before it.
\<close>

theorem output_only_target_fed:
  defines "after \<equiv> foldl output_step output_boot"
  shows "(ou_target (after ops) \<noteq> AUDIO_OUTPUT_TARGET_BLUETOOTH \<and> 0 < len \<longrightarrow>
       bt_svc_a2dp_data_cb (map_option provide (bt_pcm_provider (ou_bt (after ops)))) len = (len, replicate (nat len) 0)) \<and>
    (ou_target (after ops) \<noteq> AUDIO_OUTPUT_TARGET_I2S \<longrightarrow>
       i2_written (i2s_service_turn enable provide buf (ou_i2s (after ops))) = i2_written (ou_i2s (after ops)))"
  using output_run_inv[of ops] i2s_turn_silent[of "ou_i2s (after ops)" enable provide buf]
  by (auto simp: after_def output_inv_def a2dp_data_silence)

text \<open>The wired sink plays, a Bluetooth sink connects and is chosen: the wired one is still running, with
  its provider.\<close>

definition demo_provide :: "nat \<Rightarrow> bytes \<Rightarrow> int \<times> bytes" where
  "demo_provide p data = (int (length data), replicate (length data) 7)"

definition demo_wired :: "output_op list" where
  "demo_wired =
    [Out_I2s_Init \<lparr>ie_new_channel = ESP_OK, ie_init_std = ESP_OK, ie_queue = True, ie_task = True\<rparr>,
     Out_Set_Provider (Some 1), Out_I2s_Turn (\<lambda>_. ESP_OK) demo_provide [], Out_I2s_Turn (\<lambda>_. ESP_OK) demo_provide []]"

definition demo_switched :: "output_op list" where
  "demo_switched = demo_wired @
    [Out_Bluetooth (Op_Init demo_bt_env),
     Out_Bluetooth (Op_Callback demo_bt_env (Ev_A2dp (A2d_Connection_State ESP_A2D_CONNECTION_STATE_CONNECTED [1, 2, 3, 4, 5, 6]))),
     Out_Bluetooth (Op_Pass demo_bt_env),
     Out_Bt_Event (BLUETOOTH_SVC_EVENT_A2DP_CONNECTION_STATE ESP_A2D_CONNECTION_STATE_CONNECTED)]"

lemma demo_wired_target: "ou_target (foldl output_step output_boot demo_wired) \<noteq> AUDIO_OUTPUT_TARGET_BLUETOOTH"
  by code_simp

lemma demo_switched_state: "let s = foldl output_step output_boot demo_switched in
  ou_target s = AUDIO_OUTPUT_TARGET_BLUETOOTH \<and> i2_running (ou_i2s s) \<and> i2_pcm_provider (ou_i2s s) = Some DISPATCH_PCM"
  by code_simp

theorem output_only_target_fed_witness:
  "bt_svc_a2dp_data_cb (map_option demo_provide (bt_pcm_provider (ou_bt (foldl output_step output_boot demo_wired)))) 512
     = (512, replicate 512 0) \<and>
   i2_written (i2s_service_turn (\<lambda>_. ESP_OK) demo_provide [] (ou_i2s (foldl output_step output_boot demo_switched)))
     = i2_written (ou_i2s (foldl output_step output_boot demo_switched))"
  using output_only_target_fed[of demo_wired 512 demo_provide "\<lambda>_. ESP_OK" "[]"]
    output_only_target_fed[of demo_switched 512 demo_provide "\<lambda>_. ESP_OK" "[]"] demo_wired_target demo_switched_state
  by (simp add: Let_def)

section \<open>What a choice does\<close>

definition bt_pending :: "bt_state \<Rightarrow> bluetooth_service_msg list" where
  "bt_pending s = (case bt_cmd_queue s of None \<Rightarrow> [] | Some q \<Rightarrow> q)"

text \<open>What is asked of the two sinks to make one of them the target, the other being it before.\<close>

definition sinks_after :: "audio_output_target \<Rightarrow> output_state \<Rightarrow>
    nat option \<times> bluetooth_service_msg list \<times> i2s_service_msg list" where
  "sinks_after t s = (if t = AUDIO_OUTPUT_TARGET_BLUETOOTH
     then (Some DISPATCH_PCM, bt_pending (ou_bt s) @ [BT_SVC_CMD_START_AUDIO],
           i2s_pending (ou_i2s s) @ [I2S_SVC_CMD_REGISTER_PROVIDER None, I2S_SVC_CMD_SUSPEND])
     else (None, bt_pending (ou_bt s) @ [BT_SVC_CMD_SUSPEND_AUDIO],
           i2s_pending (ou_i2s s) @ [I2S_SVC_CMD_REGISTER_PROVIDER (Some DISPATCH_PCM), I2S_SVC_CMD_START]))"

lemma i2s_send_ok: "i2s_service_send m s = (ESP_OK, s') \<Longrightarrow> i2s_pending s' = i2s_pending s @ [m]"
  by (rule i2s_send_view(4)) simp_all

lemma bt_send_ok: "bt_svc_api_send m s = (ESP_OK, s') \<Longrightarrow>
    bt_pending s' = bt_pending s @ [m] \<and> bt_pcm_provider s' = bt_pcm_provider s"
  by (auto simp: bt_svc_api_send_def bt_svc_queue_send_def bt_pending_def split: option.splits if_splits)

lemmas output_unfold = audio_output_switch_unregister_target_def audio_output_switch_register_target_def
  audio_output_switch_get_register_fn_def register_bt_cases audio_output_switch_register_i2s_def on_bt_def on_i2s_def
  i2s_service_register_pcm_provider_def i2s_service_suspend_audio_def i2s_service_start_audio_def
  bluetooth_service_suspend_audio_def bluetooth_service_start_audio_def

lemma unregister_i2s_ok:
  assumes "audio_output_switch_unregister_target AUDIO_OUTPUT_TARGET_I2S s = (ESP_OK, s')"
  shows "\<exists>i. s' = s\<lparr>ou_i2s := i\<rparr> \<and>
    i2s_pending i = i2s_pending (ou_i2s s) @ [I2S_SVC_CMD_REGISTER_PROVIDER None, I2S_SVC_CMD_SUSPEND]"
  using assms by (auto simp: output_unfold dest!: i2s_send_ok split: prod.splits if_splits)

lemma register_i2s_ok:
  assumes "audio_output_switch_register_target AUDIO_OUTPUT_TARGET_I2S s = (ESP_OK, s')"
  shows "\<exists>i. s' = s\<lparr>ou_i2s := i\<rparr> \<and>
    i2s_pending i = i2s_pending (ou_i2s s) @ [I2S_SVC_CMD_REGISTER_PROVIDER (Some DISPATCH_PCM), I2S_SVC_CMD_START]"
  using assms by (auto simp: output_unfold dest!: i2s_send_ok split: prod.splits if_splits)

lemma unregister_bt_ok:
  assumes "audio_output_switch_unregister_target AUDIO_OUTPUT_TARGET_BLUETOOTH s = (ESP_OK, s')"
  shows "\<exists>b. s' = s\<lparr>ou_bt := b\<rparr> \<and> bt_pcm_provider b = None \<and>
    bt_pending b = bt_pending (ou_bt s) @ [BT_SVC_CMD_SUSPEND_AUDIO]"
  using assms by (auto simp: output_unfold bt_pending_def dest!: bt_send_ok split: prod.splits if_splits)

lemma register_bt_ok:
  assumes "audio_output_switch_register_target AUDIO_OUTPUT_TARGET_BLUETOOTH s = (ESP_OK, s')"
  shows "\<exists>b. s' = s\<lparr>ou_bt := b\<rparr> \<and> bt_pcm_provider b = Some DISPATCH_PCM \<and>
    bt_pending b = bt_pending (ou_bt s) @ [BT_SVC_CMD_START_AUDIO]"
  using assms by (auto simp: output_unfold bt_pending_def dest!: bt_send_ok split: prod.splits if_splits)

definition is_sink :: "audio_output_target \<Rightarrow> bool" where
  "is_sink t \<longleftrightarrow> t = AUDIO_OUTPUT_TARGET_BLUETOOTH \<or> t = AUDIO_OUTPUT_TARGET_I2S"

text \<open>A choice that reports success makes its argument the target: the sink that was it loses its
  provider and is asked to suspend, then the new one gets the provider and is asked to start, in this
  order; a choice that reports failure leaves the target as it was.
\<close>

theorem output_select_effect:
  assumes "is_sink t" "is_sink (ou_target s)" "t \<noteq> ou_target s" "audio_output_switch_select t s = (err, s')"
  shows "if err = ESP_OK
     then ou_target s' = t \<and> (bt_pcm_provider (ou_bt s'), bt_pending (ou_bt s'), i2s_pending (ou_i2s s')) = sinks_after t s
     else ou_target s' = ou_target s"
proof -
  obtain e1 s1 where u: "audio_output_switch_unregister_target (ou_target s) s = (e1, s1)" by force
  obtain e2 s2 where r: "audio_output_switch_register_target t (s1\<lparr>ou_target := t\<rparr>) = (e2, s2)" by force
  obtain e3 s3 where b: "audio_output_switch_register_target (ou_target s) (s2\<lparr>ou_target := ou_target s\<rparr>) = (e3, s3)"
    by force
  show ?thesis
  proof (cases "err = ESP_OK")
    case True
    then have ok: "e1 = ESP_OK" "e2 = ESP_OK" "s' = s2"
      using assms(3,4) u r b by (auto simp: audio_output_switch_select_def Let_def split: if_splits)
    show ?thesis
    proof (cases "t = AUDIO_OUTPUT_TARGET_BLUETOOTH")
      case True
      then have prev: "ou_target s = AUDIO_OUTPUT_TARGET_I2S" using assms(2,3) by (simp add: is_sink_def)
      show ?thesis
        using True unregister_i2s_ok[of s s1] register_bt_ok[of "s1\<lparr>ou_target := t\<rparr>" s2] u r ok prev \<open>err = ESP_OK\<close>
        by (auto simp: sinks_after_def)
    next
      case False
      then have t: "t = AUDIO_OUTPUT_TARGET_I2S" and prev: "ou_target s = AUDIO_OUTPUT_TARGET_BLUETOOTH"
        using assms(1-3) by (auto simp: is_sink_def)
      show ?thesis
        using t unregister_bt_ok[of s s1] register_i2s_ok[of "s1\<lparr>ou_target := t\<rparr>" s2] u r ok prev \<open>err = ESP_OK\<close>
        by (auto simp: sinks_after_def)
    qed
  next
    case False
    have "sink_step False s s1" using unregister_effect(1)[OF u] .
    moreover have "ou_target s3 = ou_target s"
      using register_target_effect(1)[OF b] by (simp add: sink_step_def)
    ultimately show ?thesis
      using assms(3,4) u r b False by (auto simp: audio_output_switch_select_def Let_def sink_step_def split: if_splits)
  qed
qed

definition demo_output :: output_state where
  "demo_output = output_boot\<lparr>ou_bt := demo_connected, ou_i2s := i2s_boot\<lparr>i2_cmd_queue := Some [], i2_task := True,
     i2_tx_channel := True, i2_running := True, i2_pcm_provider := Some 0\<rparr>\<rparr>"

lemma demo_select: "fst (audio_output_switch_select AUDIO_OUTPUT_TARGET_BLUETOOTH demo_output) = ESP_OK"
  by code_simp

theorem output_select_effect_witness:
  "ou_target (snd (audio_output_switch_select AUDIO_OUTPUT_TARGET_BLUETOOTH demo_output)) = AUDIO_OUTPUT_TARGET_BLUETOOTH"
proof -
  have "is_sink AUDIO_OUTPUT_TARGET_BLUETOOTH" "is_sink (ou_target demo_output)"
    "AUDIO_OUTPUT_TARGET_BLUETOOTH \<noteq> ou_target demo_output"
    by (simp_all add: is_sink_def demo_output_def output_boot_def)
  from output_select_effect[OF this surjective_pairing] demo_select show ?thesis by simp
qed

text \<open>When the Bluetooth connection is lost while its queue is full, the event that should bring the
  wired sink back takes the provider from Bluetooth and ends there: the target stays Bluetooth, with
  nothing feeding either sink. Every later choice of Bluetooth is then taken for done.\<close>

lemma lost_connection_full_queue:
  assumes "ou_target s = AUDIO_OUTPUT_TARGET_BLUETOOTH" and "bt_cmd_queue (ou_bt s) = Some q"
    and "length q \<ge> BT_SVC_QUEUE_DEPTH"
  defines "s' \<equiv> audio_output_switch_on_bt_event
             (BLUETOOTH_SVC_EVENT_A2DP_CONNECTION_STATE ESP_A2D_CONNECTION_STATE_DISCONNECTED) s"
  shows "bt_pcm_provider (ou_bt s') = None" and "ou_i2s s' = ou_i2s s"
    and "ou_target s' = AUDIO_OUTPUT_TARGET_BLUETOOTH"
    and "audio_output_switch_select AUDIO_OUTPUT_TARGET_BLUETOOTH s' = (ESP_OK, s')"
  using assms(1-3)
  by (auto simp: s'_def audio_output_switch_on_bt_event_def audio_output_switch_select_def Let_def output_unfold
      bt_svc_api_send_def bt_svc_queue_send_def ESP_A2D_CONNECTION_STATE_DISCONNECTED_def
      ESP_A2D_CONNECTION_STATE_CONNECTED_def)

text \<open>A start whose task could not be made leaves the queue: the next one reports success, and there is
  neither a channel nor a task.\<close>

lemma i2s_init_without_task:
  assumes "i2_cmd_queue s = None" and "ie_new_channel env = ESP_OK" and "ie_init_std env = ESP_OK"
    and "ie_queue env" and "\<not> ie_task env"
  defines "s' \<equiv> snd (i2s_service_init env s)"
  shows "i2s_service_init env2 s' = (ESP_OK, s')" and "\<not> i2_tx_channel s'"
  using assms by (auto simp: s'_def i2s_service_init_def Let_def)

end
