(* ===== verification/Hid_Props.thy ===== *)
theory Hid_Props
  imports Hid
begin

text \<open>
  What holds of the buttons and the light: debouncing takes three samples, what a listener to the
  delivered events knows of every button, and the LED's rail is requested exactly while the LED is lit.
\<close>

section \<open>Debouncing\<close>

text \<open>A ladder sampled again and again: its state, and the states it was seen to change to.\<close>

fun ladder_run :: "u16 option list \<Rightarrow> u16 \<times> u16 \<Rightarrow> (u16 \<times> u16) \<times> u16 list" where
  "ladder_run [] sc = (sc, [])"
| "ladder_run (r # rs) sc =
     (case ulp_debounce HID_SVC_BUTTON_DEBOUNCE_COUNT r sc of (sc1, changed) \<Rightarrow>
      case ladder_run rs sc1 of (sc2, changes) \<Rightarrow> (sc2, if changed then fst sc1 # changes else changes))"

text \<open>Readings that do not bring a change: between two that agree with the state, or tell nothing, there
  are at most two others.\<close>

fun quiet :: "u16 \<Rightarrow> nat \<Rightarrow> u16 option list \<Rightarrow> bool" where
  "quiet held n [] = True"
| "quiet held n (r # rs) =
     (if r = None \<or> r = Some held then quiet held 0 rs else n < 2 \<and> quiet held (Suc n) rs)"

lemma ladder_quiet: "quiet held n rs \<Longrightarrow> n \<le> 2 \<Longrightarrow>
   \<exists>c. ladder_run rs (held, of_nat n) = ((held, of_nat c), []) \<and> c \<le> 2"
proof (induction held n rs rule: quiet.induct)
  case (1 held n)
  then show ?case by auto
next
  case (2 held n r rs)
  show ?case
  proof (cases "r = None \<or> r = Some held")
    case True
    then show ?thesis using 2(1)[OF True] 2(3) by (auto simp: ulp_debounce_def)
  next
    case False
    then have q: "n < 2" "quiet held (Suc n) rs" using 2(3) by simp_all
    then have "of_nat n + 1 \<noteq> (3 :: u16)" by (cases n) (auto simp: less_Suc_eq numeral_2_eq_2)
    then show ?thesis
      using 2(2)[OF False] q False
      by (auto simp: ulp_debounce_def HID_SVC_BUTTON_DEBOUNCE_COUNT_def add.commute)
  qed
qed

text \<open>A ladder whose readings are quiet (never three in a row that differ from its state) keeps its
  state; three readings of another state, after any quiet ones that ended with one of its own, change
  it to that state, once, at the third.
\<close>

theorem ulp_debounces:
  assumes "quiet held 0 rs" and "b \<noteq> held"
  shows "fst (fst (ladder_run rs (held, 0))) = held \<and> snd (ladder_run rs (held, 0)) = [] \<and>
    ladder_run (rs @ [Some held, Some b, Some b]) (held, 0) = ((held, 2), []) \<and>
    ladder_run (rs @ [Some held, Some b, Some b, Some b]) (held, 0) = ((b, 0), [b])"
proof -
  have app: "ladder_run (xs @ ys) sc = (case ladder_run xs sc of (sc1, c1) \<Rightarrow>
      case ladder_run ys sc1 of (sc2, c2) \<Rightarrow> (sc2, c1 @ c2))" for xs ys sc
    by (induction xs arbitrary: sc) (simp_all add: split_beta)
  obtain c where "ladder_run rs (held, 0) = ((held, of_nat c), [])"
    using ladder_quiet[OF assms(1)] by auto
  then show ?thesis
    using assms(2) by (simp add: app ulp_debounce_def HID_SVC_BUTTON_DEBOUNCE_COUNT_def)
qed

theorem ulp_debounces_witness:
  "quiet 0 0 [Some 1, Some 2, None, Some 4] \<and>
   ladder_run ([Some 1, Some 2, None, Some 4] @ [Some 0, Some 2, Some 2, Some 2]) (0, 0) = ((2, 0), [2])"
  using ulp_debounces[of 0 "[Some 1, Some 2, None, Some 4]" 2] by simp

text \<open>Three readings that differ from the state need not agree with each other: the last one counts.\<close>

lemma unsteady_readings_commit:
  "ladder_run [Some 1, Some 2, Some 4] (0, 0) = ((4, 0), [4])"
  by (simp add: ulp_debounce_def HID_SVC_BUTTON_DEBOUNCE_COUNT_def)

text \<open>The first button of a ladder has the lowest readings of the three, the third the highest.\<close>

lemma first_button_lowest:
  "ulp_classify 1500 = Some 1" "ulp_classify 1700 = Some 2" "ulp_classify 2300 = Some 4"
  by (simp_all add: ulp_classify_def btn_windows_def)

lemma classify_small: "ulp_classify raw = Some b \<Longrightarrow> b \<le> 7"
  by (auto simp: ulp_classify_def btn_windows_def split: if_splits)

definition ulp_ok :: "ulp_state \<Rightarrow> bool" where
  "ulp_ok u \<longleftrightarrow> ulp_main_stable u \<le> 7 \<and> ulp_misc_stable u \<le> 7 \<and>
     ulp_button_state u = ulp_main_stable u + 8 * ulp_misc_stable u"

lemma debounce_small:
  "ulp_debounce th (ulp_classify raw) (st, c) = ((st', c'), ch) \<Longrightarrow> st \<le> 7 \<Longrightarrow> st' \<le> 7"
  by (auto simp: ulp_debounce_def split: option.splits if_splits dest: classify_small)

lemma ulp_run_ok: "ulp_ok u \<Longrightarrow> ulp_ok (fst (ulp_run_once main misc u))"
proof -
  assume ok: "ulp_ok u"
  obtain ms mc ch1 where a: "ulp_debounce (ulp_debounce_threshold u) (ulp_classify (ulp_mean main))
      (ulp_main_stable u, ulp_main_counter u) = ((ms, mc), ch1)" by (metis prod.collapse)
  obtain ss sc ch2 where b: "ulp_debounce (ulp_debounce_threshold u) (ulp_classify (ulp_mean misc))
      (ulp_misc_stable u, ulp_misc_counter u) = ((ss, sc), ch2)" by (metis prod.collapse)
  have "ms \<le> 7" "ss \<le> 7" using debounce_small[OF a] debounce_small[OF b] ok by (simp_all add: ulp_ok_def)
  then show ?thesis by (simp add: ulp_run_once_def Let_def a b ulp_ok_def)
qed

section \<open>Events\<close>

text \<open>The buttons held down, as a listener knows them that gets the events the loop took, and how many
  events of a button have been lost in a row, up to now.\<close>

type_synonym hid_posts = "(hid_service_event_id \<times> nat \<times> bool) list"

fun hear :: "nat set \<Rightarrow> hid_service_event_id \<times> nat \<times> bool \<Rightarrow> nat set" where
  "hear held (HID_EVENT_BUTTON_DOWN, b, True) = insert b held"
| "hear held (HID_EVENT_BUTTON_UP, b, True) = held - {b}"
| "hear held (e, b, False) = held"

definition heard :: "hid_posts \<Rightarrow> nat set" where "heard ps = foldl hear {} ps"

fun lose :: "nat \<Rightarrow> nat \<Rightarrow> hid_service_event_id \<times> nat \<times> bool \<Rightarrow> nat" where
  "lose b n (e, c, delivered) = (if c \<noteq> b then n else if delivered then 0 else Suc n)"

definition lost_in_a_row :: "nat \<Rightarrow> hid_posts \<Rightarrow> nat" where "lost_in_a_row b ps = foldl (lose b) 0 ps"

definition held_buttons :: "u32 \<Rightarrow> nat set" where
  "held_buttons st = {b. b < HID_BUTTON_COUNT \<and> bit st b}"

lemma button_mask: "(st AND hid_service_button_mask b \<noteq> 0) = bit st b"
  by (simp add: hid_service_button_mask_def bit_iff_and_push_bit_not_eq_0)

text \<open>What a listener knows of a set of held buttons, some of whose events it may have missed.\<close>

definition knows :: "hid_posts \<Rightarrow> nat set \<Rightarrow> bool" where
  "knows ps held \<longleftrightarrow> (\<forall>b. b \<in> heard ps \<longleftrightarrow> (b \<in> held) \<noteq> odd (lost_in_a_row b ps))"

lemma knows_press: "knows ps held \<Longrightarrow> b \<notin> held \<Longrightarrow>
    knows (ps @ [(HID_EVENT_BUTTON_DOWN, b, delivered)]) (insert b held)"
  by (cases delivered) (auto simp: knows_def heard_def lost_in_a_row_def)

lemma knows_release: "knows ps held \<Longrightarrow> b \<in> held \<Longrightarrow>
    knows (ps @ [(HID_EVENT_BUTTON_UP, b, delivered)]) (held - {b})"
  by (cases delivered) (auto simp: knows_def heard_def lost_in_a_row_def)

lemma post_event_posts:
  "\<exists>delivered. hd_posts (snd (hid_service_post_button_event env b e s)) = hd_posts s @ [(e, b, delivered)]"
  by (auto simp: hid_service_post_button_event_def hid_do_def)

lemma post_changes_known:
  assumes "knows (hd_posts s) held" and "distinct bs" and "\<And>b. b \<in> set bs \<Longrightarrow> (b \<in> held) \<noteq> bit st b"
  shows "knows (hd_posts (hid_post_changes env
      (map (\<lambda>b. (if bit st b then HID_EVENT_BUTTON_DOWN else HID_EVENT_BUTTON_UP, b)) bs) s))
    (held - set bs \<union> {b \<in> set bs. bit st b})"
  using assms
proof (induction bs arbitrary: s held)
  case (Cons b bs)
  let ?e = "if bit st b then HID_EVENT_BUTTON_DOWN else HID_EVENT_BUTTON_UP"
  let ?s1 = "snd (hid_service_post_button_event env b ?e s)"
  let ?held = "if bit st b then insert b held else held - {b}"
  obtain d where "hd_posts ?s1 = hd_posts s @ [(?e, b, d)]" using post_event_posts by blast
  then have "knows (hd_posts ?s1) ?held"
    using Cons.prems(1,3) knows_press[of "hd_posts s" held b d] knows_release[of "hd_posts s" held b d] by auto
  then have "knows (hd_posts (hid_post_changes env
      (map (\<lambda>b. (if bit st b then HID_EVENT_BUTTON_DOWN else HID_EVENT_BUTTON_UP, b)) bs) ?s1))
    (?held - set bs \<union> {b \<in> set bs. bit st b})"
    using Cons.prems(2,3) by (intro Cons.IH) (auto split: if_splits)
  moreover have "?held - set bs \<union> {b \<in> set bs. bit st b} = held - set (b # bs) \<union> {c \<in> set (b # bs). bit st c}"
    using Cons.prems(2) by auto
  ultimately show ?case by simp
qed simp

lemma update_known:
  assumes "knows (hd_posts s) (held_buttons st)"
  shows "knows (hd_posts (hid_post_changes env (hid_changes (st XOR st') st') s)) (held_buttons st')"
proof -
  let ?bs = "filter (bit (st XOR st')) [0..<HID_BUTTON_COUNT]"
  have "knows (hd_posts (hid_post_changes env (hid_changes (st XOR st') st') s))
      (held_buttons st - set ?bs \<union> {b \<in> set ?bs. bit st' b})"
    unfolding hid_changes_def button_mask
    by (rule post_changes_known[OF assms]) (auto simp: held_buttons_def bit_xor_iff)
  moreover have "held_buttons st - set ?bs \<union> {b \<in> set ?bs. bit st' b} = held_buttons st'"
    by (auto simp: held_buttons_def bit_xor_iff)
  ultimately show ?thesis by simp
qed

lemma post_event_fields [simp]:
  "hd_button_state (snd (hid_service_post_button_event env b e s)) = hd_button_state s"
  "hd_ulp (snd (hid_service_post_button_event env b e s)) = hd_ulp s"
  "hd_led_brightness (snd (hid_service_post_button_event env b e s)) = hd_led_brightness s"
  by (simp_all add: hid_service_post_button_event_def hid_do_def)

lemma post_changes_fields [simp]:
  "hd_button_state (hid_post_changes env es s) = hd_button_state s"
  "hd_ulp (hid_post_changes env es s) = hd_ulp s"
  "hd_led_brightness (hid_post_changes env es s) = hd_led_brightness s"
  by (induction env es s rule: hid_post_changes.induct) simp_all

section \<open>The LED's rail\<close>

text \<open>The service is the only user of the rail: one reference while it has asked for it.\<close>

definition led_rail_ok :: "hid_state \<Rightarrow> bool" where
  "led_rail_ok s \<longleftrightarrow> pm_rail_refcount (hd_power s) POWER_MGMT_RAIL_LED = (if hd_led_rail_requested s then 1 else 0) \<and>
     pm_rail_enabled (hd_power s) POWER_MGMT_RAIL_LED =
       power_mgmt_service_effective_enabled POWER_MGMT_RAIL_LED (hd_power s)"

lemma do_fields [simp]:
  "hd_power (snd (hid_do env c s)) = hd_power s"
  "hd_led_rail_requested (snd (hid_do env c s)) = hd_led_rail_requested s"
  "hd_button_state (snd (hid_do env c s)) = hd_button_state s"
  "hd_button_generation (snd (hid_do env c s)) = hd_button_generation s"
  "hd_ulp (snd (hid_do env c s)) = hd_ulp s"
  "hd_led_red (snd (hid_do env c s)) = hd_led_red s"
  "hd_led_green (snd (hid_do env c s)) = hd_led_green s"
  "hd_led_blue (snd (hid_do env c s)) = hd_led_blue s"
  "hd_led_brightness (snd (hid_do env c s)) = hd_led_brightness s"
  "hd_trace (snd (hid_do env c s)) = hd_trace s @ [c]"
  "hd_posts (snd (hid_do env c s)) = hd_posts s"
  by (simp_all add: hid_do_def)

lemma do_all_fields [simp]:
  "hd_power (snd (hid_do_all env cs s)) = hd_power s"
  "hd_led_rail_requested (snd (hid_do_all env cs s)) = hd_led_rail_requested s"
  "hd_button_state (snd (hid_do_all env cs s)) = hd_button_state s"
  "hd_led_red (snd (hid_do_all env cs s)) = hd_led_red s"
  "hd_led_green (snd (hid_do_all env cs s)) = hd_led_green s"
  "hd_led_blue (snd (hid_do_all env cs s)) = hd_led_blue s"
  "hd_led_brightness (snd (hid_do_all env cs s)) = hd_led_brightness s"
  by (induction env cs s rule: hid_do_all.induct) (auto simp: hid_do_def)

lemma led_lit_cong:
  "hd_led_red s' = hd_led_red s \<Longrightarrow> hd_led_green s' = hd_led_green s \<Longrightarrow> hd_led_blue s' = hd_led_blue s \<Longrightarrow>
   hd_led_brightness s' = hd_led_brightness s \<Longrightarrow> led_lit s' = led_lit s"
  by (simp add: led_lit_def)

lemma rail_request_led:
  assumes "power_mgmt_service_rail_request hw POWER_MGMT_RAIL_LED_I p = (ESP_OK, p')"
  shows "pm_rail_refcount p' POWER_MGMT_RAIL_LED = pm_rail_refcount p POWER_MGMT_RAIL_LED + 1"
    and "pm_rail_enabled p' POWER_MGMT_RAIL_LED = power_mgmt_service_effective_enabled POWER_MGMT_RAIL_LED p'"
proof -
  let ?p1 = "p\<lparr>pm_rail_refcount := (pm_rail_refcount p)(POWER_MGMT_RAIL_LED := pm_rail_refcount p POWER_MGMT_RAIL_LED + 1)\<rparr>"
  have a: "power_mgmt_service_apply_locked hw POWER_MGMT_RAIL_LED ?p1 = (ESP_OK, p')"
    using assms by (simp add: power_mgmt_service_rail_request_def POWER_MGMT_RAIL_LED_I_def pm_rail_of_def Let_def
        split: if_splits)
  note e = apply_locked_effect[OF a]
  show "pm_rail_refcount p' POWER_MGMT_RAIL_LED = pm_rail_refcount p POWER_MGMT_RAIL_LED + 1" using e(1) by simp
  show "pm_rail_enabled p' POWER_MGMT_RAIL_LED = power_mgmt_service_effective_enabled POWER_MGMT_RAIL_LED p'"
    using e(4) effective_cong[OF e(1,2)] by simp
qed

lemma rail_release_led:
  assumes "power_mgmt_service_rail_release hw POWER_MGMT_RAIL_LED_I p = (ESP_OK, p')"
  shows "pm_rail_refcount p' POWER_MGMT_RAIL_LED = pm_rail_refcount p POWER_MGMT_RAIL_LED - 1"
    and "pm_rail_enabled p' POWER_MGMT_RAIL_LED = power_mgmt_service_effective_enabled POWER_MGMT_RAIL_LED p'"
proof -
  let ?p1 = "p\<lparr>pm_rail_refcount := (pm_rail_refcount p)(POWER_MGMT_RAIL_LED := pm_rail_refcount p POWER_MGMT_RAIL_LED - 1)\<rparr>"
  have a: "power_mgmt_service_apply_locked hw POWER_MGMT_RAIL_LED ?p1 = (ESP_OK, p')"
    using assms by (simp add: power_mgmt_service_rail_release_def POWER_MGMT_RAIL_LED_I_def pm_rail_of_def Let_def
        split: if_splits)
  note e = apply_locked_effect[OF a]
  show "pm_rail_refcount p' POWER_MGMT_RAIL_LED = pm_rail_refcount p POWER_MGMT_RAIL_LED - 1" using e(1) by simp
  show "pm_rail_enabled p' POWER_MGMT_RAIL_LED = power_mgmt_service_effective_enabled POWER_MGMT_RAIL_LED p'"
    using e(4) effective_cong[OF e(1,2)] by simp
qed

lemma power_up_ok:
  assumes "hid_led_power_up env s = (ESP_OK, s')" and "led_rail_ok s"
  shows "led_rail_ok s' \<and> hd_led_rail_requested s'"
  using assms
  by (auto simp: hid_led_power_up_def hid_rail_def led_rail_ok_def dest: rail_request_led split: prod.splits if_splits)

lemma power_down_ok:
  assumes "hid_led_power_down env s = (ESP_OK, s')" and "led_rail_ok s"
  shows "led_rail_ok s' \<and> \<not> hd_led_rail_requested s'"
  using assms
  by (auto simp: hid_led_power_down_def hid_rail_def led_rail_ok_def dest: rail_release_led split: prod.splits if_splits)

lemma led_rail_ok_do [simp]:
  "led_rail_ok (snd (hid_do env c s)) = led_rail_ok s" "led_rail_ok (snd (hid_do_all env cs s)) = led_rail_ok s"
  by (simp_all add: led_rail_ok_def)

lemma apply_led_ok:
  assumes "hid_service_apply_led_locked env s = (ESP_OK, s')" and "led_rail_ok s"
  shows "led_rail_ok s' \<and> hd_led_rail_requested s' = led_lit s"
proof (cases "led_lit s")
  case True
  then obtain s1 cs where u: "hid_led_power_up env s = (ESP_OK, s1)" and d: "hid_do_all env cs s1 = (ESP_OK, s')"
    using assms(1) by (auto simp: hid_service_apply_led_locked_def split: prod.splits if_splits simp del: hid_do_all.simps)
  show ?thesis
    using power_up_ok[OF u assms(2)] True led_rail_ok_do(2)[of env cs s1] do_all_fields(2)[of env cs s1] d by simp
next
  case False
  then obtain s1 where c: "hid_do env Led_Clear s = (ESP_OK, s1)" and d: "hid_led_power_down env s1 = (ESP_OK, s')"
    using assms(1) by (auto simp: hid_service_apply_led_locked_def split: prod.splits if_splits)
  show ?thesis
    using power_down_ok[OF d] assms(2) led_rail_ok_do(1)[of env Led_Clear s] c False by simp
qed

text \<open>A change of the LED that reports success leaves its power rail with one reference, held by the
  service, exactly when the LED is lit (a colour that is not black and a brightness that is not zero),
  with none otherwise; and, unless it is overridden, switched on exactly then.
\<close>

theorem hid_led_rail_follows:
  assumes "led_rail_ok s" and "hid_service_led_set_rgb env r g b s = (ESP_OK, s')"
    and "pm_rail_override (hd_power s') POWER_MGMT_RAIL_LED = POWER_MGMT_OVERRIDE_AUTO"
  defines "lit \<equiv> led_lit (s\<lparr>hd_led_red := r, hd_led_green := g, hd_led_blue := b\<rparr>)"
  shows "led_rail_ok s' \<and> pm_rail_refcount (hd_power s') POWER_MGMT_RAIL_LED = (if lit then 1 else 0) \<and>
    pm_rail_enabled (hd_power s') POWER_MGMT_RAIL_LED = lit"
proof -
  let ?s = "s\<lparr>hd_led_red := r, hd_led_green := g, hd_led_blue := b\<rparr>"
  have "hid_service_apply_led_locked env ?s = (ESP_OK, s')"
    using assms(2) by (simp add: hid_service_led_set_rgb_def split: if_splits)
  moreover have "led_rail_ok ?s" using assms(1) by (simp add: led_rail_ok_def)
  ultimately have "led_rail_ok s' \<and> hd_led_rail_requested s' = lit" using apply_led_ok lit_def by blast
  then show ?thesis
    using assms(3) by (auto simp: led_rail_ok_def power_mgmt_service_effective_enabled_def)
qed

definition demo_hid_env :: hid_env where
  "demo_hid_env = \<lparr>he_call = (\<lambda>_ _. ESP_OK), he_power = (\<lambda>_ _. ESP_OK), he_mutex = True, he_task = True,
     he_rtc_gpio = (\<lambda>_. True)\<rparr>"

definition demo_hid :: hid_state where
  "demo_hid = (hid_boot (pm_boot\<lparr>pm_initialized := True\<rparr>))\<lparr>hd_initialized := True, hd_led_strip := True\<rparr>"

lemma demo_led:
  "led_rail_ok demo_hid"
  "fst (hid_service_led_set_rgb demo_hid_env 0 10 0 demo_hid) = ESP_OK"
  "pm_rail_override (hd_power (snd (hid_service_led_set_rgb demo_hid_env 0 10 0 demo_hid))) POWER_MGMT_RAIL_LED
     = POWER_MGMT_OVERRIDE_AUTO"
  by (simp add: led_rail_ok_def demo_hid_def hid_boot_def pm_boot_def power_mgmt_service_effective_enabled_def)
    code_simp+

theorem hid_led_rail_follows_witness:
  "pm_rail_enabled (hd_power (snd (hid_service_led_set_rgb demo_hid_env 0 10 0 demo_hid))) POWER_MGMT_RAIL_LED"
proof -
  have "hid_service_led_set_rgb demo_hid_env 0 10 0 demo_hid
    = (ESP_OK, snd (hid_service_led_set_rgb demo_hid_env 0 10 0 demo_hid))"
    using demo_led(2) by (metis prod.collapse)
  from hid_led_rail_follows[OF demo_led(1) this demo_led(3)] show ?thesis
    by (simp add: led_lit_def demo_hid_def hid_boot_def)
qed

text \<open>A request for the rail that fails after it was counted is forgotten by the service: the next one
  counts it again, and switching the LED off gives back one of the two.\<close>

lemma failed_request_counted:
  assumes "\<not> hd_led_rail_requested s" and "hd_led_strip s" and "led_lit s"
    and "power_mgmt_service_rail_request (he_power env) POWER_MGMT_RAIL_LED_I (hd_power s) = (err, p)"
    and "err \<noteq> ESP_OK" and "pm_initialized (hd_power s)"
  shows "hid_service_apply_led_locked env s = (err, s\<lparr>hd_power := p\<rparr>)"
    and "pm_rail_refcount p POWER_MGMT_RAIL_LED = pm_rail_refcount (hd_power s) POWER_MGMT_RAIL_LED + 1"
proof -
  show "hid_service_apply_led_locked env s = (err, s\<lparr>hd_power := p\<rparr>)"
    using assms by (simp add: hid_service_apply_led_locked_def hid_led_power_up_def hid_rail_def)
  let ?p1 = "(hd_power s)\<lparr>pm_rail_refcount := (pm_rail_refcount (hd_power s))
      (POWER_MGMT_RAIL_LED := pm_rail_refcount (hd_power s) POWER_MGMT_RAIL_LED + 1)\<rparr>"
  have a: "power_mgmt_service_apply_locked (he_power env) POWER_MGMT_RAIL_LED ?p1 = (err, p)"
    using assms(4,6) by (simp add: power_mgmt_service_rail_request_def POWER_MGMT_RAIL_LED_I_def pm_rail_of_def
        power_mgmt_service_is_valid_rail_def Let_def split: if_splits)
  show "pm_rail_refcount p POWER_MGMT_RAIL_LED = pm_rail_refcount (hd_power s) POWER_MGMT_RAIL_LED + 1"
    using apply_locked_effect(1)[OF a] by simp
qed

text \<open>The colour shown is the colour times the brightness in percent, rounded down; it fits.\<close>

lemma led_scaled_exact:
  assumes "p \<le> 100" shows "unat (led_scaled c p) = unat c * unat p div 100"
proof -
  have c: "unat c \<le> 255" using unsigned_less[of c, where ?'a = nat] by simp
  have p: "unat p \<le> 100" using assms by (simp add: word_le_nat_alt)
  have m: "unat c * unat p \<le> 25500" using mult_le_mono[OF c p] by simp
  have up: "unat (ucast x :: u32) = unat x" for x :: u8
    using unsigned_less[of x, where ?'a = nat] by (simp add: unsigned_ucast_eq take_bit_nat_eq_self_iff)
  then have "unat (ucast c * ucast p :: u32) = unat c * unat p"
    using m by (simp add: unat_word_ariths up)
  moreover have "unat c * unat p div 100 < 256" using m by linarith
  ultimately show ?thesis
    by (simp add: led_scaled_def unsigned_ucast_eq unat_div take_bit_nat_eq_self_iff)
qed

section \<open>Every operation\<close>

datatype hid_op =
    Hid_Init hid_env nat
  | Hid_Sample "nat list" "nat list"
  | Hid_Update hid_env
  | Hid_Rgb hid_env u8 u8 u8
  | Hid_Brightness hid_env u8
  | Hid_Off hid_env

fun hid_step :: "hid_state \<Rightarrow> hid_op \<Rightarrow> hid_state" where
  "hid_step s (Hid_Init env cb) = snd (hid_service_init env cb s)"
| "hid_step s (Hid_Sample main misc) = s\<lparr>hd_ulp := fst (ulp_run_once main misc (hd_ulp s))\<rparr>"
| "hid_step s (Hid_Update env) = hid_service_handle_button_update env s"
| "hid_step s (Hid_Rgb env r g b) = snd (hid_service_led_set_rgb env r g b s)"
| "hid_step s (Hid_Brightness env p) = snd (hid_service_led_set_brightness env p s)"
| "hid_step s (Hid_Off env) = snd (hid_service_led_off env s)"

definition hid_inv :: "hid_state \<Rightarrow> bool" where
  "hid_inv s \<longleftrightarrow> knows (hd_posts s) (held_buttons (hd_button_state s)) \<and> ulp_ok (hd_ulp s) \<and>
     hd_led_brightness s \<le> 100"

text \<open>Steps that post nothing and leave the buttons alone.\<close>

definition hid_quiet :: "hid_state \<Rightarrow> hid_state \<Rightarrow> bool" where
  "hid_quiet s s' \<longleftrightarrow> hd_posts s' = hd_posts s \<and> hd_button_state s' = hd_button_state s \<and>
     (ulp_ok (hd_ulp s) \<longrightarrow> ulp_ok (hd_ulp s')) \<and> hd_led_brightness s' = hd_led_brightness s"

lemma hid_quiet_refl [simp]: "hid_quiet s s" by (simp add: hid_quiet_def)

lemma hid_quiet_trans: "hid_quiet s s1 \<Longrightarrow> hid_quiet s1 s2 \<Longrightarrow> hid_quiet s s2" by (auto simp: hid_quiet_def)

lemma hid_quiet_do: "hid_quiet s (snd (hid_do env c s))"
  by (simp add: hid_quiet_def)

lemma hid_quiet_do_all: "hid_quiet s (snd (hid_do_all env cs s))"
proof (induction env cs s rule: hid_do_all.induct)
  case (2 env c cs s)
  then show ?case
    using hid_quiet_do[of s env c] by (cases "hid_do env c s") (auto intro: hid_quiet_trans)
qed simp

lemma hid_quiet_power: "hid_quiet s (s\<lparr>hd_power := p\<rparr>)" by (simp add: hid_quiet_def)

lemma hid_quiet_rail: "hid_quiet s (snd (hid_rail f s))"
  by (simp add: hid_rail_def hid_quiet_power split: prod.split)

lemma hid_quiet_flags:
  "hid_quiet s (s\<lparr>hd_led_rail_requested := a\<rparr>)" "hid_quiet s (s\<lparr>hd_led_strip := a\<rparr>)"
  "hid_quiet s (s\<lparr>hd_initialized := a\<rparr>)" "hid_quiet s (s\<lparr>hd_service_lock := a\<rparr>)"
  "hid_quiet s (s\<lparr>hd_service_lock := a, hd_tasks := n\<rparr>)" "hid_quiet s (s\<lparr>hd_ulp_isr_registered := a\<rparr>)"
  "hid_quiet s (s\<lparr>hd_led_red := r, hd_led_green := g, hd_led_blue := b\<rparr>)"
  by (simp_all add: hid_quiet_def)

lemma ulp_ok_boot: "ulp_ok (ulp_boot\<lparr>ulp_debounce_threshold := n\<rparr>)" by (simp add: ulp_ok_def ulp_boot_def)

lemma hid_quiet_apply: "hid_quiet s (snd (hid_service_apply_led_locked env s))"
proof -
  obtain e1 s1 where r: "hid_rail (power_mgmt_service_rail_request (he_power env) POWER_MGMT_RAIL_LED_I) s = (e1, s1)" by force
  have q1: "hid_quiet s s1" using hid_quiet_rail r by (metis snd_conv)
  have "hid_quiet s1 (snd (hid_do env (Led_Delay HID_SVC_LED_SETTLE_MS) (s1\<lparr>hd_led_rail_requested := True\<rparr>)))"
    by (rule hid_quiet_trans[OF hid_quiet_flags(1) hid_quiet_do])
  then have up: "hid_quiet s (snd (hid_led_power_up env s))"
    using q1 by (auto simp: hid_led_power_up_def r intro: hid_quiet_trans)
  have down: "hid_quiet t (snd (hid_led_power_down env t))" for t
  proof -
    obtain e2 t2 where r2: "hid_rail (power_mgmt_service_rail_release (he_power env) POWER_MGMT_RAIL_LED_I) t = (e2, t2)" by force
    have "hid_quiet t t2" using hid_quiet_rail r2 by (metis snd_conv)
    then show ?thesis by (auto simp: hid_led_power_down_def r2 intro: hid_quiet_trans hid_quiet_flags)
  qed
  have clear: "hid_quiet s (snd (hid_do env Led_Clear s))" by (rule hid_quiet_do)
  have pixel: "hid_quiet t (snd (hid_do_all env [Led_Set_Pixel a b c, Led_Refresh] t))" for t a b c
    by (rule hid_quiet_do_all)
  obtain eu su where u: "hid_led_power_up env s = (eu, su)" by force
  obtain ec sc where c: "hid_do env Led_Clear s = (ec, sc)" by force
  show ?thesis
    using up u clear c hid_quiet_trans[OF _ pixel] hid_quiet_trans[OF _ down]
    by (auto simp: hid_service_apply_led_locked_def simp del: hid_do_all.simps)
qed

lemma hid_quiet_init: "hid_quiet s (snd (hid_service_init env cb s))"
proof -
  have strip: "hid_quiet t (snd (hid_service_init_led_strip env t))" for t
  proof -
    obtain e t1 where d: "hid_do env Led_New_Device t = (e, t1)" by force
    have a: "hid_quiet t t1" using hid_quiet_do[of t env Led_New_Device] d by simp
    have "hid_quiet t1 (snd (hid_do env Led_Clear (t1\<lparr>hd_led_strip := True\<rparr>)))"
      by (rule hid_quiet_trans[OF hid_quiet_flags(2) hid_quiet_do])
    then show ?thesis using a by (auto simp: hid_service_init_led_strip_def d intro: hid_quiet_trans)
  qed
  have buttons: "hid_quiet t (snd (hid_service_init_buttons env t))" for t
  proof -
    let ?u = "ulp_boot\<lparr>ulp_debounce_threshold := HID_SVC_BUTTON_DEBOUNCE_COUNT\<rparr>"
    obtain e1 t1 where a: "hid_do_all env [Ulp_Load_Binary, Adc_New_Unit, Adc_Config_Channel 7, Adc_Config_Channel 6] t = (e1, t1)"
      by force
    obtain e2 t2 where b: "hid_do_all env [Ulp_Set_Wakeup_Period HID_SVC_BUTTON_SAMPLE_PERIOD_US, Ulp_Isr_Register]
        (t1\<lparr>hd_ulp := ?u\<rparr>) = (e2, t2)" by force
    have qa: "hid_quiet t t1"
      using hid_quiet_do_all[of t env "[Ulp_Load_Binary, Adc_New_Unit, Adc_Config_Channel 7, Adc_Config_Channel 6]"] a
      by simp
    have "hid_quiet t1 (t1\<lparr>hd_ulp := ?u\<rparr>)" by (simp add: hid_quiet_def ulp_ok_boot)
    moreover have "hid_quiet (t1\<lparr>hd_ulp := ?u\<rparr>) t2"
      using hid_quiet_do_all[of "t1\<lparr>hd_ulp := ?u\<rparr>" env "[Ulp_Set_Wakeup_Period HID_SVC_BUTTON_SAMPLE_PERIOD_US, Ulp_Isr_Register]"] b
      by simp
    ultimately have qb: "hid_quiet t t2" using qa hid_quiet_trans by blast
    have "hid_quiet t2 (snd (hid_do env Ulp_Run (t2\<lparr>hd_ulp_isr_registered := True\<rparr>)))"
      by (rule hid_quiet_trans[OF hid_quiet_flags(6) hid_quiet_do])
    then have "hid_quiet t (snd (hid_do env Ulp_Run (t2\<lparr>hd_ulp_isr_registered := True\<rparr>)))"
      using qb hid_quiet_trans by blast
    then show ?thesis using qa qb by (simp add: hid_service_init_buttons_def a b del: hid_do_all.simps)
  qed
  let ?s0 = "s\<lparr>hd_service_lock := True, hd_tasks := Suc (hd_tasks s)\<rparr>"
  obtain e1 s1 where a: "hid_service_init_led_strip env ?s0 = (e1, s1)" by force
  obtain e2 s2 where b: "hid_service_init_buttons env s1 = (e2, s2)" by force
  obtain e3 s3 where c: "hid_rail (power_mgmt_service_register_shutdown_callback (Some cb) 0 HID_SVC_SHUTDOWN_PRIORITY) s2 = (e3, s3)"
    by force
  have qa: "hid_quiet s s1" using hid_quiet_trans[OF hid_quiet_flags(5) strip] a by (metis snd_conv)
  have qb: "hid_quiet s s2" using hid_quiet_trans[OF qa buttons] b by (metis snd_conv)
  have qc: "hid_quiet s s3" using hid_quiet_trans[OF qb hid_quiet_rail] c by (metis snd_conv)
  then show ?thesis
    using qa qb hid_quiet_trans[OF qc hid_quiet_flags(3)]
    by (simp add: hid_service_init_def a b c hid_quiet_flags(4))
qed

lemma hid_quiet_inv: "hid_quiet s s' \<Longrightarrow> hid_inv s \<Longrightarrow> hid_inv s'"
  by (auto simp: hid_inv_def hid_quiet_def)

lemma hid_update_inv: "hid_inv s \<Longrightarrow> hid_inv (hid_service_handle_button_update env s)"
  using update_known[of "s\<lparr>hd_button_state := st, hd_button_generation := g\<rparr>" "hd_button_state s" env st for st g]
  by (simp add: hid_service_handle_button_update_def Let_def hid_inv_def)

lemma hid_step_inv:
  assumes inv: "hid_inv s" shows "hid_inv (hid_step s op)"
proof (cases op)
  case (Hid_Init env cb)
  then show ?thesis using hid_quiet_inv[OF hid_quiet_init inv] by simp
next
  case (Hid_Sample main misc)
  then show ?thesis using inv ulp_run_ok by (simp add: hid_inv_def)
next
  case (Hid_Update env)
  then show ?thesis using hid_update_inv[OF inv] by simp
next
  case (Hid_Rgb env r g b)
  have "hid_quiet s (snd (hid_service_led_set_rgb env r g b s))"
    using hid_quiet_trans[OF hid_quiet_flags(7) hid_quiet_apply] by (simp add: hid_service_led_set_rgb_def)
  then show ?thesis using Hid_Rgb hid_quiet_inv inv by simp
next
  case (Hid_Brightness env p)
  have "hid_inv (snd (hid_service_apply_led_locked env (s\<lparr>hd_led_brightness := p\<rparr>)))" if "p \<le> 100"
  proof -
    have "hid_inv (s\<lparr>hd_led_brightness := p\<rparr>)" using inv that by (simp add: hid_inv_def)
    then show ?thesis using hid_quiet_inv[OF hid_quiet_apply] by blast
  qed
  then show ?thesis using Hid_Brightness inv by (simp add: hid_service_led_set_brightness_def)
next
  case (Hid_Off env)
  have "hid_quiet s (snd (hid_service_led_set_rgb env 0 0 0 s))"
    using hid_quiet_trans[OF hid_quiet_flags(7) hid_quiet_apply] by (simp add: hid_service_led_set_rgb_def)
  then show ?thesis using Hid_Off hid_quiet_inv inv by (simp add: hid_service_led_off_def)
qed

interpretation hids: event_machine hid_step hid_inv
  by unfold_locales (rule hid_step_inv)

lemma hid_boot_inv: "hid_inv (hid_boot p)"
  by (simp add: hid_inv_def hid_boot_def knows_def heard_def lost_in_a_row_def held_buttons_def ulp_ok_def ulp_boot_def)

text \<open>C35: Whatever is sampled, whatever the drivers and the event loop return, and however the service and
  its LED are used, take a listener that gets the events the loop took, adds a button at each event that
  it is down and removes it at each that it is up. It is right about a button, against the service's
  state, exactly when an even number of the button's events have been lost in a row up to now; so it
  knows a button whose last event was delivered, and after one lost event it is wrong until the next
  is delivered or lost, for no event is posted twice. The low-power program's state is three bits for
  each ladder, and the brightness is a percentage.
\<close>

theorem hid_events_tell_state:
  "let s = foldl hid_step (hid_boot p) ops in
     (\<forall>b. b \<in> heard (hd_posts s) \<longleftrightarrow>
        (b < HID_BUTTON_COUNT \<and> bit (hd_button_state s) b) \<noteq> odd (lost_in_a_row b (hd_posts s))) \<and>
     ulp_ok (hd_ulp s) \<and> hd_led_brightness s \<le> 100"
  using hids.run_inv[OF hid_boot_inv, of p ops] by (simp add: hid_inv_def knows_def held_buttons_def Let_def)

text \<open>In particular nothing is wrong when nothing was lost, and one press whose event is refused is never
  heard of while the button is held.\<close>

lemma all_delivered_known:
  assumes "\<forall>(e, b, delivered) \<in> set (hd_posts s). delivered" and "hid_inv s"
  shows "heard (hd_posts s) = held_buttons (hd_button_state s)"
proof -
  have "foldl (lose b) 0 ps = 0" if "\<forall>(e, b, delivered) \<in> set ps. delivered" for b and ps :: hid_posts
    using that by (induction ps) auto
  then show ?thesis using assms by (auto simp: hid_inv_def knows_def lost_in_a_row_def)
qed

lemma refused_press_unknown:
  assumes "hd_button_state s = 0" and "ulp_button_state (hd_ulp s) = 1"
    and "ucast (ulp_button_generation (hd_ulp s)) \<noteq> hd_button_generation s"
    and "he_call env (hd_trace s) (Hid_Post HID_EVENT_BUTTON_DOWN 0) \<noteq> ESP_OK"
  shows "heard (hd_posts (hid_service_handle_button_update env s)) = heard (hd_posts s)"
    and "held_buttons (hd_button_state (hid_service_handle_button_update env s)) = {0}"
proof -
  have c: "hid_changes 1 1 = [(HID_EVENT_BUTTON_DOWN, 0)]" by code_simp
  show "heard (hd_posts (hid_service_handle_button_update env s)) = heard (hd_posts s)"
    using assms by (simp add: hid_service_handle_button_update_def c hid_service_post_button_event_def hid_do_def heard_def)
  show "held_buttons (hd_button_state (hid_service_handle_button_update env s)) = {0}"
    using assms by (auto simp: hid_service_handle_button_update_def c held_buttons_def HID_BUTTON_COUNT_def bit_1_iff)
qed

end
