(* ===== verification/Ramdisk.thy ===== *)
theory Ramdisk
  imports Prelude
begin

text \<open>
  The RAM disk, \<^verbatim>\<open>main/ramdisk_service.c\<close>: 1 MiB of external memory as a disk of 512-byte sectors for the
  FAT file system, with the functions its driver calls, and the start that formats and mounts it. The file
  system is a parameter: what it returns, and what it writes through the functions here.
\<close>

section \<open>State\<close>

definition RAMDISK_SERVICE_SIZE_BYTES :: nat where "RAMDISK_SERVICE_SIZE_BYTES = 1024 * 1024"
definition RAMDISK_SECTOR_SIZE :: nat where "RAMDISK_SECTOR_SIZE = 512"
definition FF_DRV_NOT_USED :: u8 where "FF_DRV_NOT_USED = 0xFF"
definition STA_NOINIT :: u8 where "STA_NOINIT = 1"

datatype DRESULT = RES_OK | RES_NOTRDY | RES_PARERR

datatype ramdisk_ioctl_cmd = CTRL_SYNC | GET_SECTOR_COUNT | GET_SECTOR_SIZE | GET_BLOCK_SIZE | Ctrl_Other u8

text \<open>The storage is the static array while the disk has it. The last two fields are what is registered
  with the file system's drivers and with the paths.\<close>

record ramdisk_state =
  rd_array :: bytes
  rd_storage :: bool
  rd_storage_size :: nat
  rd_sector_count :: nat
  rd_pdrv :: u8
  rd_fs :: bool
  rd_fat_drive :: bytes
  rd_initialized :: bool
  rd_diskio :: bool
  rd_path :: bool

definition ramdisk_boot :: ramdisk_state where
  "ramdisk_boot = \<lparr>rd_array = replicate RAMDISK_SERVICE_SIZE_BYTES 0, rd_storage = False, rd_storage_size = 0,
     rd_sector_count = 0, rd_pdrv = FF_DRV_NOT_USED, rd_fs = False, rd_fat_drive = [], rd_initialized = False,
     rd_diskio = False, rd_path = False\<rparr>"

section \<open>The functions of the driver\<close>

definition ramdisk_service_bounds_valid :: "u32 \<Rightarrow> u32 \<Rightarrow> ramdisk_state \<Rightarrow> bool" where
  "ramdisk_service_bounds_valid sector cnt s =
     (if cnt = 0 then False
      else if unat sector \<ge> rd_sector_count s then False
      else if unat cnt > rd_sector_count s - unat sector then False
      else True)"

definition ramdisk_init :: "u8 \<Rightarrow> ramdisk_state \<Rightarrow> u8" where
  "ramdisk_init pdrv s = (if pdrv \<noteq> rd_pdrv s \<or> \<not> rd_storage s then STA_NOINIT else 0)"

definition ramdisk_status :: "u8 \<Rightarrow> ramdisk_state \<Rightarrow> u8" where
  "ramdisk_status pdrv s = ramdisk_init pdrv s"

text \<open>The buffer of a read is there or not; that of a write holds at least the sectors written.\<close>

definition ramdisk_read :: "u8 \<Rightarrow> bool \<Rightarrow> u32 \<Rightarrow> u32 \<Rightarrow> ramdisk_state \<Rightarrow> DRESULT \<times> bytes option" where
  "ramdisk_read pdrv buff sector cnt s =
     (if ramdisk_init pdrv s \<noteq> 0 \<or> \<not> buff then (RES_NOTRDY, None)
      else if \<not> ramdisk_service_bounds_valid sector cnt s then (RES_PARERR, None)
      else (RES_OK, Some (rd_bytes (rd_array s) (unat sector * RAMDISK_SECTOR_SIZE) (unat cnt * RAMDISK_SECTOR_SIZE))))"

definition ramdisk_write :: "u8 \<Rightarrow> bytes option \<Rightarrow> u32 \<Rightarrow> u32 \<Rightarrow> ramdisk_state \<Rightarrow> DRESULT \<times> ramdisk_state" where
  "ramdisk_write pdrv buff sector cnt s =
     (case buff of None \<Rightarrow> (RES_NOTRDY, s)
      | Some data \<Rightarrow>
          if ramdisk_init pdrv s \<noteq> 0 then (RES_NOTRDY, s)
          else if \<not> ramdisk_service_bounds_valid sector cnt s then (RES_PARERR, s)
          else (RES_OK, s\<lparr>rd_array := wr_bytes (rd_array s) (unat sector * RAMDISK_SECTOR_SIZE)
                                (take (unat cnt * RAMDISK_SECTOR_SIZE) data)\<rparr>))"

definition ramdisk_ioctl :: "u8 \<Rightarrow> ramdisk_ioctl_cmd \<Rightarrow> bool \<Rightarrow> ramdisk_state \<Rightarrow> DRESULT \<times> nat option" where
  "ramdisk_ioctl pdrv cmd buff s =
     (if ramdisk_init pdrv s \<noteq> 0 then (RES_NOTRDY, None)
      else case cmd of
        CTRL_SYNC \<Rightarrow> (RES_OK, None)
      | GET_SECTOR_COUNT \<Rightarrow> if \<not> buff then (RES_PARERR, None) else (RES_OK, Some (rd_sector_count s))
      | GET_SECTOR_SIZE \<Rightarrow> if \<not> buff then (RES_PARERR, None) else (RES_OK, Some RAMDISK_SECTOR_SIZE)
      | GET_BLOCK_SIZE \<Rightarrow> if \<not> buff then (RES_PARERR, None) else (RES_OK, Some 1)
      | Ctrl_Other c \<Rightarrow> (RES_PARERR, None))"

section \<open>Start\<close>

datatype FRESULT = FR_OK | FR_NO_FILESYSTEM | FR_Other nat

text \<open>A write the file system makes: the drive, the buffer, the sector and the count.\<close>

type_synonym ramdisk_request = "u8 \<times> bytes option \<times> u32 \<times> u32"

fun ramdisk_writes :: "ramdisk_request list \<Rightarrow> ramdisk_state \<Rightarrow> ramdisk_state" where
  "ramdisk_writes [] s = s"
| "ramdisk_writes ((pdrv, buff, sector, cnt) # rs) s = ramdisk_writes rs (snd (ramdisk_write pdrv buff sector cnt s))"

record ramdisk_env =
  re_drive :: "esp_err + u8"
  re_register :: esp_err
  re_mount :: FRESULT
  re_memalloc :: bool
  re_mkfs :: FRESULT
  re_mkfs_writes :: "ramdisk_request list"
  re_remount :: FRESULT
  re_remount_writes :: "ramdisk_request list"

definition ramdisk_unregister :: "ramdisk_state \<Rightarrow> ramdisk_state" where
  "ramdisk_unregister s = s\<lparr>rd_path := False, rd_diskio := False\<rparr>"

definition ramdisk_service_format_and_mount :: "ramdisk_env \<Rightarrow> ramdisk_state \<Rightarrow> esp_err \<times> ramdisk_state" where
  "ramdisk_service_format_and_mount env s =
     (let s1 = s\<lparr>rd_diskio := True\<rparr> in
      if re_register env \<noteq> ESP_OK then (re_register env, s1\<lparr>rd_diskio := False\<rparr>)
      else
        let s2 = s1\<lparr>rd_path := True, rd_fs := True\<rparr> in
        if re_mount env = FR_OK then (ESP_OK, s2)
        else if re_mount env \<noteq> FR_NO_FILESYSTEM then (ESP_FAIL, ramdisk_unregister s2)
        else if \<not> re_memalloc env then (ESP_ERR_NO_MEM, ramdisk_unregister s2)
        else
          let s3 = ramdisk_writes (re_mkfs_writes env) s2 in
          if re_mkfs env \<noteq> FR_OK then (ESP_FAIL, ramdisk_unregister s3)
          else
            let s4 = ramdisk_writes (re_remount_writes env) s3 in
            if re_remount env \<noteq> FR_OK then (ESP_FAIL, ramdisk_unregister s4)
            else (ESP_OK, s4))"

definition ramdisk_service_init :: "ramdisk_env \<Rightarrow> ramdisk_state \<Rightarrow> esp_err \<times> ramdisk_state" where
  "ramdisk_service_init env s =
     (if rd_initialized s then (ESP_OK, s)
      else
        let s1 = s\<lparr>rd_storage := True, rd_array := replicate RAMDISK_SERVICE_SIZE_BYTES 0,
                   rd_storage_size := RAMDISK_SERVICE_SIZE_BYTES,
                   rd_sector_count := RAMDISK_SERVICE_SIZE_BYTES div RAMDISK_SECTOR_SIZE\<rparr> in
        case re_drive env of Inl err \<Rightarrow> (err, s1\<lparr>rd_storage := False\<rparr>)
        | Inr pdrv \<Rightarrow>
            let s2 = s1\<lparr>rd_pdrv := pdrv, rd_fat_drive := [0x30 + pdrv, 0x3A]\<rparr> in
            case ramdisk_service_format_and_mount env s2 of (err, s3) \<Rightarrow>
              if err \<noteq> ESP_OK
              then (err, s3\<lparr>rd_storage := False, rd_pdrv := FF_DRV_NOT_USED, rd_storage_size := 0,
                       rd_sector_count := 0, rd_fs := False, rd_fat_drive := []\<rparr>)
              else (ESP_OK, s3\<lparr>rd_initialized := True\<rparr>))"

section \<open>Within the memory\<close>

definition ramdisk_ok :: "ramdisk_state \<Rightarrow> bool" where
  "ramdisk_ok s \<longleftrightarrow> length (rd_array s) = RAMDISK_SERVICE_SIZE_BYTES \<and>
     rd_sector_count s * RAMDISK_SECTOR_SIZE \<le> RAMDISK_SERVICE_SIZE_BYTES"

lemma bounds_valid_iff:
  "ramdisk_service_bounds_valid sector cnt s \<longleftrightarrow> 0 < unat cnt \<and> unat sector + unat cnt \<le> rd_sector_count s"
proof -
  have "cnt = 0 \<longleftrightarrow> unat cnt = 0" by (simp add: unat_eq_0)
  then show ?thesis by (auto simp: ramdisk_service_bounds_valid_def)
qed

lemma bounds_valid_bytes:
  assumes "ramdisk_ok s" and "ramdisk_service_bounds_valid sector cnt s"
  shows "unat sector * RAMDISK_SECTOR_SIZE + unat cnt * RAMDISK_SECTOR_SIZE \<le> length (rd_array s)"
proof -
  have "(unat sector + unat cnt) * RAMDISK_SECTOR_SIZE \<le> rd_sector_count s * RAMDISK_SECTOR_SIZE"
    using assms(2) by (simp add: bounds_valid_iff)
  then show ?thesis using assms(1) by (simp add: ramdisk_ok_def add_mult_distrib)
qed

text \<open>A request whose buffer is as large as it says.\<close>

fun request_ok :: "ramdisk_request \<Rightarrow> bool" where
  "request_ok (pdrv, buff, sector, cnt) = pred_option (\<lambda>d. unat cnt * RAMDISK_SECTOR_SIZE \<le> length d) buff"

lemma write_fields [simp]:
  "rd_sector_count (snd (ramdisk_write p b i n s)) = rd_sector_count s"
  "rd_storage (snd (ramdisk_write p b i n s)) = rd_storage s"
  "rd_pdrv (snd (ramdisk_write p b i n s)) = rd_pdrv s"
  "rd_diskio (snd (ramdisk_write p b i n s)) = rd_diskio s"
  "rd_path (snd (ramdisk_write p b i n s)) = rd_path s"
  "rd_initialized (snd (ramdisk_write p b i n s)) = rd_initialized s"
  "rd_storage_size (snd (ramdisk_write p b i n s)) = rd_storage_size s"
  by (simp_all add: ramdisk_write_def split: option.split)

lemma writes_fields [simp]:
  "rd_sector_count (ramdisk_writes rs s) = rd_sector_count s"
  "rd_storage (ramdisk_writes rs s) = rd_storage s"
  "rd_pdrv (ramdisk_writes rs s) = rd_pdrv s"
  "rd_diskio (ramdisk_writes rs s) = rd_diskio s"
  "rd_path (ramdisk_writes rs s) = rd_path s"
  "rd_initialized (ramdisk_writes rs s) = rd_initialized s"
  "rd_storage_size (ramdisk_writes rs s) = rd_storage_size s"
  by (induction rs s rule: ramdisk_writes.induct) simp_all

lemma write_ok:
  assumes "ramdisk_ok s" and "request_ok (p, b, i, n)"
  shows "ramdisk_ok (snd (ramdisk_write p b i n s))"
proof (cases "b = None \<or> ramdisk_init p s \<noteq> 0 \<or> \<not> ramdisk_service_bounds_valid i n s")
  case True
  then show ?thesis using assms by (auto simp: ramdisk_write_def split: option.split)
next
  case False
  then obtain d where d: "b = Some d" "unat n * RAMDISK_SECTOR_SIZE \<le> length d"
    using assms(2) by auto
  have "unat i * RAMDISK_SECTOR_SIZE + unat n * RAMDISK_SECTOR_SIZE \<le> length (rd_array s)"
    using bounds_valid_bytes assms(1) False by blast
  then show ?thesis using False d assms(1) by (simp add: ramdisk_write_def ramdisk_ok_def min_def)
qed

lemma writes_ok: "ramdisk_ok s \<Longrightarrow> list_all request_ok rs \<Longrightarrow> ramdisk_ok (ramdisk_writes rs s)"
  by (induction rs s rule: ramdisk_writes.induct) (auto simp del: request_ok.simps intro: write_ok)

section \<open>The disk as sectors\<close>

text \<open>What the disk promises: a function from sector numbers to 512 bytes, of which a write replaces those
  it names and no other, or none when it is refused.\<close>

definition sectors_of :: "ramdisk_state \<Rightarrow> nat \<Rightarrow> bytes" where
  "sectors_of s i = rd_bytes (rd_array s) (i * RAMDISK_SECTOR_SIZE) RAMDISK_SECTOR_SIZE"

definition accepts :: "ramdisk_state \<Rightarrow> ramdisk_request \<Rightarrow> bool" where
  "accepts s r = (case r of (pdrv, buff, sector, cnt) \<Rightarrow> buff \<noteq> None \<and> pdrv = rd_pdrv s \<and> rd_storage s \<and>
     0 < unat cnt \<and> unat sector + unat cnt \<le> rd_sector_count s)"

fun sectors_write :: "ramdisk_request \<Rightarrow> (nat \<Rightarrow> bytes) \<Rightarrow> nat \<Rightarrow> bytes" where
  "sectors_write (pdrv, buff, sector, cnt) d i =
     (if unat sector \<le> i \<and> i < unat sector + unat cnt
      then rd_bytes (the buff) ((i - unat sector) * RAMDISK_SECTOR_SIZE) RAMDISK_SECTOR_SIZE else d i)"

fun sectors_run :: "ramdisk_state \<Rightarrow> ramdisk_request list \<Rightarrow> (nat \<Rightarrow> bytes) \<Rightarrow> nat \<Rightarrow> bytes" where
  "sectors_run s [] d = d"
| "sectors_run s (r # rs) d = sectors_run s rs (if accepts s r then sectors_write r d else d)"

lemma rd_bytes_take: "k + n \<le> m \<Longrightarrow> rd_bytes (take m b) k n = rd_bytes b k n"
  by (simp add: rd_bytes_def drop_take min_def)

lemma rd_wr_inside:
  assumes "off + length xs \<le> length b" and "off \<le> o'" and "o' + n \<le> off + length xs"
  shows "rd_bytes (wr_bytes b off xs) o' n = rd_bytes xs (o' - off) n"
proof -
  have "rd_bytes (wr_bytes b off xs) o' n = rd_bytes (rd_bytes (wr_bytes b off xs) off (length xs)) (o' - off) n"
    using assms rd_rd_bytes[of "o' - off" n "length xs" "wr_bytes b off xs" off] by simp
  then show ?thesis using rd_wr_bytes[OF assms(1)] by simp
qed

lemma sectors_of_write:
  assumes "ramdisk_ok s" and ok: "request_ok r" and acc: "accepts s r"
  shows "\<exists>p b i n. r = (p, b, i, n) \<and> sectors_of (snd (ramdisk_write p b i n s)) = sectors_write r (sectors_of s)"
proof -
  obtain p d i n where r: "r = (p, Some d, i, n)"
    using acc by (cases r) (auto simp: accepts_def)
  have b: "ramdisk_service_bounds_valid i n s" "ramdisk_init p s = 0"
    using acc r by (simp_all add: accepts_def bounds_valid_iff ramdisk_init_def)
  let ?off = "unat i * RAMDISK_SECTOR_SIZE" and ?size = "unat n * RAMDISK_SECTOR_SIZE"
  let ?xs = "take ?size d"
  have len: "length ?xs = ?size" using ok r by simp
  have fits: "?off + ?size \<le> length (rd_array s)" using bounds_valid_bytes[OF assms(1) b(1)] .
  have "sectors_of (snd (ramdisk_write p (Some d) i n s)) j = sectors_write r (sectors_of s) j" for j
  proof (cases "unat i \<le> j \<and> j < unat i + unat n")
    case True
    let ?k = "(j - unat i) * RAMDISK_SECTOR_SIZE"
    have j: "j * RAMDISK_SECTOR_SIZE = ?off + ?k" using True by (simp add: diff_mult_distrib)
    have "(j - unat i + 1) * RAMDISK_SECTOR_SIZE \<le> unat n * RAMDISK_SECTOR_SIZE"
      by (rule mult_le_mono1) (use True in linarith)
    then have k: "?k + RAMDISK_SECTOR_SIZE \<le> ?size" by simp
    have "rd_bytes (wr_bytes (rd_array s) ?off ?xs) (?off + ?k) RAMDISK_SECTOR_SIZE = rd_bytes ?xs ?k RAMDISK_SECTOR_SIZE"
      using rd_wr_inside[of ?off ?xs "rd_array s" "?off + ?k" RAMDISK_SECTOR_SIZE] len fits k by simp
    then show ?thesis
      using True b r rd_bytes_take[OF k, of d] by (simp add: ramdisk_write_def sectors_of_def j)
  next
    case False
    have "(j + 1) * RAMDISK_SECTOR_SIZE \<le> unat i * RAMDISK_SECTOR_SIZE \<or>
          (unat i + unat n) * RAMDISK_SECTOR_SIZE \<le> j * RAMDISK_SECTOR_SIZE"
      using False by (metis Suc_eq_plus1 Suc_leI mult_le_mono1 not_less)
    then have "j * RAMDISK_SECTOR_SIZE + RAMDISK_SECTOR_SIZE \<le> ?off \<or> ?off + length ?xs \<le> j * RAMDISK_SECTOR_SIZE"
      using len by (auto simp: add_mult_distrib)
    then have "rd_bytes (wr_bytes (rd_array s) ?off ?xs) (j * RAMDISK_SECTOR_SIZE) RAMDISK_SECTOR_SIZE
        = rd_bytes (rd_array s) (j * RAMDISK_SECTOR_SIZE) RAMDISK_SECTOR_SIZE"
      using rd_wr_bytes_disjoint[of ?off ?xs "rd_array s"] len fits by simp
    then show ?thesis using False b r by (auto simp: ramdisk_write_def sectors_of_def)
  qed
  then show ?thesis using r by blast
qed

lemma refused_write: "\<not> accepts s (p, b, i, n) \<Longrightarrow> snd (ramdisk_write p b i n s) = s"
  by (cases b) (auto simp: ramdisk_write_def accepts_def bounds_valid_iff ramdisk_init_def STA_NOINIT_def)

lemma accepts_write: "accepts (snd (ramdisk_write p b i n s)) = accepts s"
  by (rule ext) (simp add: accepts_def split: prod.split)

lemma sectors_run_cong: "accepts s' = accepts s \<Longrightarrow> sectors_run s' rs d = sectors_run s rs d"
  by (induction rs arbitrary: d) simp_all

text \<open>C36: Whatever writes are made (each with a buffer as large as it says), the disk is the function from
  sector numbers to contents in which each accepted write has replaced exactly the sectors it names; a
  write past the end, of no sectors, to another drive or without a buffer changes nothing.
\<close>

theorem ramdisk_refines_sectors:
  assumes "ramdisk_ok s" and "list_all request_ok rs"
  shows "sectors_of (ramdisk_writes rs s) = sectors_run s rs (sectors_of s)"
  using assms
proof (induction rs arbitrary: s)
  case (Cons r rs)
  obtain p b i n where r: "r = (p, b, i, n)" by (cases r)
  let ?s1 = "snd (ramdisk_write p b i n s)"
  have "ramdisk_ok ?s1" using write_ok Cons.prems r by simp
  then have ih: "sectors_of (ramdisk_writes rs ?s1) = sectors_run ?s1 rs (sectors_of ?s1)" using Cons by simp
  have "sectors_of ?s1 = (if accepts s r then sectors_write r (sectors_of s) else sectors_of s)"
    using sectors_of_write[of s r] refused_write[of s p b i n] Cons.prems r by auto
  then show ?case using ih r sectors_run_cong[OF accepts_write, of p b i n s rs] by simp
qed simp

definition demo_ramdisk :: ramdisk_state where
  "demo_ramdisk = ramdisk_boot\<lparr>rd_storage := True, rd_sector_count := 2048, rd_pdrv := 0\<rparr>"

definition demo_write :: ramdisk_request where "demo_write = (0, Some (replicate 512 7), 3, 1)"

theorem ramdisk_refines_sectors_witness:
  "sectors_of (ramdisk_writes [demo_write, (0, None, 3, 1), (0, Some (replicate 512 9), 2048, 1)] demo_ramdisk) 3
     = replicate 512 7"
proof -
  have "ramdisk_ok demo_ramdisk"
    by (simp add: ramdisk_ok_def demo_ramdisk_def ramdisk_boot_def RAMDISK_SERVICE_SIZE_BYTES_def RAMDISK_SECTOR_SIZE_def)
  moreover have "list_all request_ok [demo_write, (0, None, 3, 1), (0, Some (replicate 512 9), 2048, 1)]"
    by (simp add: demo_write_def RAMDISK_SECTOR_SIZE_def)
  ultimately have "sectors_of (ramdisk_writes [demo_write, (0, None, 3, 1), (0, Some (replicate 512 9), 2048, 1)] demo_ramdisk)
     = sectors_run demo_ramdisk [demo_write, (0, None, 3, 1), (0, Some (replicate 512 9), 2048, 1)] (sectors_of demo_ramdisk)"
    by (rule ramdisk_refines_sectors)
  then show ?thesis
    by (simp add: demo_write_def accepts_def demo_ramdisk_def ramdisk_boot_def rd_bytes_def RAMDISK_SECTOR_SIZE_def)
qed

text \<open>What a read returns are the sectors, one after the other.\<close>

lemma read_sectors:
  assumes "ramdisk_ok s" and "ramdisk_read pdrv True sector cnt s = (RES_OK, Some data)"
  shows "length data = unat cnt * RAMDISK_SECTOR_SIZE"
    and "k < unat cnt \<Longrightarrow> rd_bytes data (k * RAMDISK_SECTOR_SIZE) RAMDISK_SECTOR_SIZE = sectors_of s (unat sector + k)"
proof -
  have v: "ramdisk_service_bounds_valid sector cnt s"
    and d: "data = rd_bytes (rd_array s) (unat sector * RAMDISK_SECTOR_SIZE) (unat cnt * RAMDISK_SECTOR_SIZE)"
    using assms(2) by (auto simp: ramdisk_read_def split: if_splits)
  show "length data = unat cnt * RAMDISK_SECTOR_SIZE" using bounds_valid_bytes[OF assms(1) v] d by simp
  assume "k < unat cnt"
  then have "(k + 1) * RAMDISK_SECTOR_SIZE \<le> unat cnt * RAMDISK_SECTOR_SIZE" by (intro mult_le_mono1) simp
  then show "rd_bytes data (k * RAMDISK_SECTOR_SIZE) RAMDISK_SECTOR_SIZE = sectors_of s (unat sector + k)"
    using rd_rd_bytes[of "k * RAMDISK_SECTOR_SIZE" RAMDISK_SECTOR_SIZE "unat cnt * RAMDISK_SECTOR_SIZE"]
    by (simp add: d sectors_of_def add_mult_distrib)
qed

text \<open>A start that fails leaves nothing registered and no disk; one that succeeds leaves both.\<close>

lemma format_fields:
  assumes "ramdisk_service_format_and_mount env s = (err, s')"
  shows "if err = ESP_OK then rd_diskio s' \<and> rd_path s' \<and> rd_storage s' = rd_storage s \<and> rd_sector_count s' = rd_sector_count s
     else \<not> rd_diskio s' \<and> (rd_path s' \<longrightarrow> rd_path s)"
  using assms by (auto simp: ramdisk_service_format_and_mount_def Let_def ramdisk_unregister_def split: if_splits)

lemma init_fails_clean:
  assumes "ramdisk_service_init env s = (err, s')" and "err \<noteq> ESP_OK" and "\<not> rd_diskio s" and "\<not> rd_path s"
  shows "\<not> rd_diskio s' \<and> \<not> rd_path s' \<and> \<not> rd_storage s' \<and> \<not> rd_initialized s'"
proof (cases "re_drive env")
  case (Inl e)
  then show ?thesis using assms by (auto simp: ramdisk_service_init_def Let_def split: if_splits)
next
  case (Inr pdrv)
  let ?s2 = "s\<lparr>rd_storage := True, rd_array := replicate RAMDISK_SERVICE_SIZE_BYTES 0,
                   rd_storage_size := RAMDISK_SERVICE_SIZE_BYTES,
                   rd_sector_count := RAMDISK_SERVICE_SIZE_BYTES div RAMDISK_SECTOR_SIZE,
                   rd_pdrv := pdrv, rd_fat_drive := [0x30 + pdrv, 0x3A]\<rparr>"
  obtain e3 s3 where f: "ramdisk_service_format_and_mount env ?s2 = (e3, s3)" by force
  have ini: "rd_initialized s3 = rd_initialized ?s2"
    using f by (auto simp: ramdisk_service_format_and_mount_def Let_def ramdisk_unregister_def split: if_splits)
  have not: "\<not> rd_initialized s" using assms(1,2) by (auto simp: ramdisk_service_init_def split: if_splits)
  then have e: "e3 = err" "s' = s3\<lparr>rd_storage := False, rd_pdrv := FF_DRV_NOT_USED, rd_storage_size := 0,
                       rd_sector_count := 0, rd_fs := False, rd_fat_drive := []\<rparr>"
    using assms(1,2) f Inr by (auto simp: ramdisk_service_init_def Let_def split: if_splits)
  then show ?thesis using format_fields[OF f] assms(2-4) ini not by simp
qed

end
