(* ===== verification/Companion_Bluetooth.thy ===== *)
theory Companion_Bluetooth
  imports Companion_Trust Bluetooth_Props
begin

text \<open>
  The companion service over the Bluetooth service: what it learns of the serial link, and the packets its
  frames are sent in, are those of the model of \<^verbatim>\<open>main/bluetooth_service.c\<close>, which cuts what does not fit
  a packet and drops the rest.
\<close>

text \<open>A frame cut into pieces of a size, and the Bluetooth service after it was given some of them.\<close>

function chunks_of :: "nat \<Rightarrow> bytes \<Rightarrow> bytes list" where
  "chunks_of m frame = (if frame = [] \<or> m = 0 then [] else take m frame # chunks_of m (drop m frame))"
  by pat_completeness auto
termination by (relation "measure (\<lambda>(m, frame). length frame)") auto

declare chunks_of.simps [simp del]

definition bt_after_chunks :: "bt_env \<Rightarrow> bytes list \<Rightarrow> bt_state \<Rightarrow> bt_state" where
  "bt_after_chunks benv cs b = foldl (\<lambda>b c. snd (bluetooth_service_spp_send_data benv (Some c) b)) b cs"

text \<open>The link as the companion sees it while it sends a frame.\<close>

definition over_bluetooth :: "bt_env \<Rightarrow> bt_state \<Rightarrow> bytes \<Rightarrow> co_env \<Rightarrow> co_env" where
  "over_bluetooth benv b frame env = env\<lparr>
     ev_spp_connected := bluetooth_service_is_spp_connected b,
     ev_notifications := bluetooth_service_spp_notifications_enabled b,
     ev_mtu := bluetooth_service_spp_get_mtu b,
     ev_max_payload := bluetooth_service_spp_get_max_payload b,
     ev_send := (\<lambda>k c. fst (bluetooth_service_spp_send_data benv (Some c)
        (bt_after_chunks benv (take k (chunks_of (bluetooth_service_spp_get_max_payload b) frame)) b))),
     ev_a2dp_connected := bluetooth_service_is_a2dp_connected b,
     ev_bonded_count := bluetooth_service_get_bonded_device_count benv,
     ev_discovery_running := bluetooth_service_is_discovery_running b\<rparr>"

definition packet_data :: "bt_call \<Rightarrow> bytes" where
  "packet_data c = (case c of Gatts_Send i conn h d confirm \<Rightarrow> d | _ \<Rightarrow> [])"

lemma packet_data_spp [simp]: "packet_data (spp_packet b d) = d"
  by (simp add: packet_data_def spp_packet_def)

text \<open>A piece that fits and is accepted goes out as it is.\<close>

lemma accepted_piece:
  assumes "fst (bluetooth_service_spp_send_data benv (Some c) b) = ESP_OK"
    and "length c \<le> bluetooth_service_spp_get_max_payload b"
  shows "snd (bluetooth_service_spp_send_data benv (Some c) b) = bt_log (spp_packet b c) b"
  using assms by (auto simp: spp_send_data_spec bt_do_def split: if_splits)

definition same_link :: "bt_state \<Rightarrow> bt_state \<Rightarrow> bool" where
  "same_link b b' \<longleftrightarrow> spp_packet b' = spp_packet b \<and>
     bluetooth_service_spp_get_max_payload b' = bluetooth_service_spp_get_max_payload b"

lemma same_link_refl [simp]: "same_link b b"
  by (simp add: same_link_def)

lemma same_link_log [simp]: "same_link b (bt_log c b') = same_link b b'"
  by (simp add: same_link_def)

lemma chunks_fit: "c \<in> set (chunks_of m frame) \<Longrightarrow> length c \<le> m"
proof (induction m frame rule: chunks_of.induct)
  case (1 m frame)
  show ?case
    using 1(1) 1(2)[unfolded chunks_of.simps[of m frame]] by (auto split: if_splits)
qed

lemma concat_chunks: "0 < m \<Longrightarrow> concat (chunks_of m frame) = frame"
  by (induction m frame rule: chunks_of.induct) (subst chunks_of.simps, simp)

lemma sent_pieces:
  assumes "send_chunks (\<lambda>k c. fst (bluetooth_service_spp_send_data benv (Some c)
        (bt_after_chunks benv (take k (pre @ chunks_of m rest)) b))) m (length pre) rest = (ESP_OK, out)"
    and "m = bluetooth_service_spp_get_max_payload b"
    and "same_link b (bt_after_chunks benv pre b)"
  shows "out = chunks_of m rest \<and> same_link b (bt_after_chunks benv (pre @ out) b) \<and>
    bt_trace (bt_after_chunks benv (pre @ out) b) = bt_trace (bt_after_chunks benv pre b) @ map (spp_packet b) out"
  using assms
proof (induction m rest arbitrary: pre out rule: chunks_of.induct)
  case (1 m rest)
  show ?case
  proof (cases "rest = [] \<or> m = 0")
    case True
    then have "out = []" using "1.prems"(1) by (subst (asm) send_chunks.simps) auto
    moreover have "chunks_of m rest = []" using True by (subst chunks_of.simps) simp
    ultimately show ?thesis using "1.prems"(3) by simp
  next
    case False
    let ?c = "take m rest" and ?b = "bt_after_chunks benv pre b"
    have ch: "chunks_of m rest = ?c # chunks_of m (drop m rest)" using False by (subst chunks_of.simps) simp
    obtain out' where sent: "fst (bluetooth_service_spp_send_data benv (Some ?c) ?b) = ESP_OK" "out = ?c # out'"
      and rec: "send_chunks (\<lambda>k c. fst (bluetooth_service_spp_send_data benv (Some c)
        (bt_after_chunks benv (take k ((pre @ [?c]) @ chunks_of m (drop m rest))) b))) m (length (pre @ [?c])) (drop m rest)
          = (ESP_OK, out')"
      using "1.prems"(1) False unfolding ch
      by (subst (asm) send_chunks.simps) (auto simp: Let_def split: if_splits prod.splits)
    have "length ?c \<le> bluetooth_service_spp_get_max_payload ?b"
      using "1.prems"(2,3) by (simp add: same_link_def)
    from accepted_piece[OF sent(1) this]
    have after: "bt_after_chunks benv (pre @ [?c]) b = bt_log (spp_packet b ?c) ?b"
      using "1.prems"(3) by (simp add: bt_after_chunks_def same_link_def)
    have sl: "same_link b (bt_after_chunks benv (pre @ [?c]) b)" using "1.prems"(3) by (simp add: after)
    have "out' = chunks_of m (drop m rest) \<and> same_link b (bt_after_chunks benv ((pre @ [?c]) @ out') b) \<and>
      bt_trace (bt_after_chunks benv ((pre @ [?c]) @ out') b)
        = bt_trace (bt_after_chunks benv (pre @ [?c]) b) @ map (spp_packet b) out'"
      by (rule "1.IH"[OF False rec "1.prems"(2) sl])
    then show ?thesis unfolding sent(2) ch by (auto simp: after)
  qed
qed

text \<open>C33: A frame the companion has sent with success has gone out over the serial link whole: the packets
  the Bluetooth service was asked to send for it, each at most as long as the link's packets, carry
  together, in their order, the bytes of the frame and nothing else.
\<close>

theorem companion_frame_whole_over_bluetooth:
  assumes "companion_api_send_frame (over_bluetooth benv b (companion_frame ft op rid payload) env) ft op rid payload s
     = (ESP_OK, s')"
  shows "\<exists>packets. bt_trace (bt_after_chunks benv (drop (length (co_tx s)) (co_tx s')) b) = bt_trace b @ packets \<and>
     concat (map packet_data packets) = companion_frame ft op rid payload \<and>
     list_all (\<lambda>p. length (packet_data p) \<le> bluetooth_service_spp_get_max_payload b) packets"
proof -
  let ?m = "bluetooth_service_spp_get_max_payload b" and ?frame = "companion_frame ft op rid payload"
  let ?env = "over_bluetooth benv b ?frame env"
  obtain chunks where m: "0 < ?m" and sent: "send_chunks (ev_send ?env) ?m 0 ?frame = (ESP_OK, chunks)"
    and tx: "co_tx s' = co_tx s @ chunks"
    using assms by (auto simp: companion_api_send_frame_def over_bluetooth_def Let_def split: if_splits prod.splits)
  have "chunks = chunks_of ?m ?frame \<and>
    bt_trace (bt_after_chunks benv chunks b) = bt_trace b @ map (spp_packet b) chunks"
  proof -
    have "bt_after_chunks benv [] b = b" by (simp add: bt_after_chunks_def)
    moreover have "send_chunks (\<lambda>k c. fst (bluetooth_service_spp_send_data benv (Some c)
        (bt_after_chunks benv (take k ([] @ chunks_of ?m ?frame)) b))) ?m (length ([] :: bytes list)) ?frame = (ESP_OK, chunks)"
      using sent by (simp add: over_bluetooth_def)
    ultimately show ?thesis using sent_pieces[of benv "[]" ?m ?frame b chunks] by (metis append_Nil same_link_refl)
  qed
  then show ?thesis
    using tx m concat_chunks[of ?m ?frame] chunks_fit[of _ ?m ?frame]
    by (auto simp: comp_def list_all_iff intro!: exI[where x = "map (spp_packet b) chunks"])
qed

definition demo_spp :: bt_state where
  "demo_spp = bt_boot\<lparr>bt_initialised := True, bt_cmd_queue := Some [], bt_spp_connected := True, bt_spp_conn_id := 0,
     bt_spp_mtu := 23, bt_spp_gatts_if := 3, bt_spp_data_notifications_enabled := True,
     bt_spp_handle_table := [40, 41, 42, 43, 44, 45, 46, 47, 48, 49, 50]\<rparr>"

lemma all_accepted:
  assumes "\<And>k c. c \<noteq> [] \<Longrightarrow> send k c = ESP_OK"
  shows "fst (send_chunks send m k frame) = ESP_OK"
  using assms
proof (induction send m k frame rule: send_chunks.induct)
  case (1 send m k frame)
  have "send k (take m frame) = ESP_OK" if "frame \<noteq> []" "0 < m"
    by (rule "1.prems") (use that in simp)
  then show ?case using 1 by (subst send_chunks.simps) (auto simp: Let_def split: prod.splits)
qed

lemma demo_spp_open:
  "spp_open (bt_after_chunks demo_bt_env cs demo_spp) \<and>
   bt_spp_data_notifications_enabled (bt_after_chunks demo_bt_env cs demo_spp) \<and>
   bluetooth_service_spp_get_max_payload (bt_after_chunks demo_bt_env cs demo_spp) = 20"
proof (induction cs rule: rev_induct)
  case Nil
  show ?case
    by (simp add: bt_after_chunks_def demo_spp_def spp_open_def bt_boot_def ESP_GATT_IF_NONE_def
        BT_SVC_BLE_SPP_IDX_DATA_NOTIFY_VAL_def bluetooth_service_spp_get_max_payload_def)
next
  case (snoc c cs)
  then show ?case by (simp add: bt_after_chunks_def spp_send_data_spec bt_do_def)
qed

lemma demo_frame_sent:
  "fst (companion_api_send_frame (over_bluetooth demo_bt_env demo_spp (companion_frame 1 2 3 (replicate 30 5)) (demo_link []))
     1 2 3 (replicate 30 5) (demo_device\<lparr>co_tx_frame := True\<rparr>)) = ESP_OK"
proof -
  let ?frame = "companion_frame 1 2 3 (replicate 30 5)"
  let ?env = "over_bluetooth demo_bt_env demo_spp ?frame (demo_link [])"
  have d: "bluetooth_service_spp_get_max_payload demo_spp = 20" "bluetooth_service_is_spp_connected demo_spp"
    "bluetooth_service_spp_notifications_enabled demo_spp"
    using demo_spp_open[of "[]"]
    by (simp_all add: bt_after_chunks_def bluetooth_service_is_spp_connected_def spp_open_def
        bluetooth_service_spp_notifications_enabled_def)
  have "ev_send ?env k c = ESP_OK" if "c \<noteq> []" for k c
    using demo_spp_open that by (simp add: over_bluetooth_def spp_send_data_spec bt_do_def) (simp add: demo_bt_env_def)
  then have "fst (send_chunks (ev_send ?env) 20 0 ?frame) = ESP_OK" by (rule all_accepted)
  then obtain chunks where "send_chunks (ev_send ?env) 20 0 ?frame = (ESP_OK, chunks)" by (metis prod.collapse)
  then show ?thesis
    using d by (simp add: companion_api_send_frame_def over_bluetooth_def COMPANION_API_HEADER_LEN_def
        COMPANION_API_FRAME_MAX_LEN_def)
qed

theorem companion_frame_whole_over_bluetooth_witness:
  "\<exists>packets. bt_trace (bt_after_chunks demo_bt_env (drop (length (co_tx demo_device)) (co_tx (snd
      (companion_api_send_frame (over_bluetooth demo_bt_env demo_spp (companion_frame 1 2 3 (replicate 30 5)) (demo_link []))
     1 2 3 (replicate 30 5) (demo_device\<lparr>co_tx_frame := True\<rparr>))))) demo_spp) = bt_trace demo_spp @ packets \<and>
     concat (map packet_data packets) = companion_frame 1 2 3 (replicate 30 5)"
proof -
  have "companion_api_send_frame (over_bluetooth demo_bt_env demo_spp (companion_frame 1 2 3 (replicate 30 5)) (demo_link []))
     1 2 3 (replicate 30 5) (demo_device\<lparr>co_tx_frame := True\<rparr>) = (ESP_OK, snd (companion_api_send_frame
       (over_bluetooth demo_bt_env demo_spp (companion_frame 1 2 3 (replicate 30 5)) (demo_link []))
     1 2 3 (replicate 30 5) (demo_device\<lparr>co_tx_frame := True\<rparr>)))"
    using demo_frame_sent by (metis prod.collapse)
  from companion_frame_whole_over_bluetooth[OF this] show ?thesis by auto
qed

end
