(* ===== verification/Script_Host.thy ===== *)
theory Script_Host
  imports Script
begin

text \<open>
  What a script can do to the player: the functions of \<^verbatim>\<open>main/script_service.c\<close> that are registered
  with the WebAssembly runtime under the names of \<open>host_call\<close>. A script gets an integer back: an error code of
  ESP-IDF where the call has one, and a result otherwise. They work on the models of the player (with its
  cartridge), of the Wi-Fi service and of the HID service (with the power service). That the address of a
  buffer or string is one of the script's own is checked by the runtime and given.
\<close>

section \<open>Numbers for a script\<close>

fun esp_err_code :: "esp_err \<Rightarrow> int" where
  "esp_err_code ESP_OK = 0"
| "esp_err_code ESP_FAIL = -1"
| "esp_err_code ESP_ERR_NO_MEM = 0x101"
| "esp_err_code ESP_ERR_INVALID_ARG = 0x102"
| "esp_err_code ESP_ERR_INVALID_STATE = 0x103"
| "esp_err_code ESP_ERR_INVALID_SIZE = 0x104"
| "esp_err_code ESP_ERR_NOT_FOUND = 0x105"
| "esp_err_code ESP_ERR_NOT_SUPPORTED = 0x106"
| "esp_err_code ESP_ERR_TIMEOUT = 0x107"
| "esp_err_code ESP_ERR_INVALID_RESPONSE = 0x108"
| "esp_err_code ESP_ERR_INVALID_CRC = 0x109"
| "esp_err_code ESP_ERR_NOT_FINISHED = 0x10C"
| "esp_err_code ESP_ERR_NVS_NOT_FOUND = 0x1102"
| "esp_err_code (ESP_ERR_OTHER c) = c"

fun mode_number :: "player_service_playback_mode \<Rightarrow> int" where
  "mode_number PLAYER_SVC_MODE_SEQUENTIAL = 0"
| "mode_number PLAYER_SVC_MODE_SINGLE_REPEAT = 1"
| "mode_number PLAYER_SVC_MODE_SHUFFLE = 2"

definition mode_of_number :: "int \<Rightarrow> player_service_playback_mode option" where
  "mode_of_number n = (if n = 0 then Some PLAYER_SVC_MODE_SEQUENTIAL else if n = 1 then Some PLAYER_SVC_MODE_SINGLE_REPEAT
     else if n = 2 then Some PLAYER_SVC_MODE_SHUFFLE else None)"

fun override_number :: "power_mgmt_rail_override \<Rightarrow> int" where
  "override_number POWER_MGMT_OVERRIDE_AUTO = 0"
| "override_number POWER_MGMT_OVERRIDE_FORCE_ON = 1"
| "override_number POWER_MGMT_OVERRIDE_FORCE_OFF = 2"

definition POWER_MGMT_RAIL_COUNT_I :: int where "POWER_MGMT_RAIL_COUNT_I = 2"
definition INT_MAX :: int where "INT_MAX = 2147483647"

definition power_rail_from_i32 :: "int \<Rightarrow> int option" where
  "power_rail_from_i32 rail_value =
     (if rail_value < 0 \<or> rail_value \<ge> POWER_MGMT_RAIL_COUNT_I then None else Some rail_value)"

definition power_override_from_i32 :: "int \<Rightarrow> power_mgmt_rail_override option" where
  "power_override_from_i32 override_value =
     (if override_value < 0 \<or> override_value > 2 then None
      else Some (if override_value = 0 then POWER_MGMT_OVERRIDE_AUTO
                 else if override_value = 1 then POWER_MGMT_OVERRIDE_FORCE_ON else POWER_MGMT_OVERRIDE_FORCE_OFF))"

section \<open>The services\<close>

record script_host =
  ho_player :: pl_state
  ho_wifi :: wf_state
  ho_hid :: hid_state

text \<open>The random numbers of a shuffle, the drivers of the HID service, the heap and the clock.\<close>

record host_env =
  hv_random :: "nat \<Rightarrow> u32"
  hv_hid :: hid_env
  hv_free_heap :: int
  hv_time_us :: int

definition host_player :: "(pl_state \<Rightarrow> esp_err \<times> pl_state) \<Rightarrow> script_host \<Rightarrow> int \<times> script_host" where
  "host_player f h = (case f (ho_player h) of (err, p) \<Rightarrow> (esp_err_code err, h\<lparr>ho_player := p\<rparr>))"

definition host_hid :: "(hid_state \<Rightarrow> esp_err \<times> hid_state) \<Rightarrow> script_host \<Rightarrow> int \<times> script_host" where
  "host_hid f h = (case f (ho_hid h) of (err, d) \<Rightarrow> (esp_err_code err, h\<lparr>ho_hid := d\<rparr>))"

section \<open>The player\<close>

definition next_track_wrapper :: "script_host \<Rightarrow> int \<times> script_host" where
  "next_track_wrapper = host_player (player_service_request_control PLAYER_SVC_CONTROL_NEXT)"

definition previous_track_wrapper :: "script_host \<Rightarrow> int \<times> script_host" where
  "previous_track_wrapper = host_player (player_service_request_control PLAYER_SVC_CONTROL_PREVIOUS)"

definition pause_toggle_wrapper :: "script_host \<Rightarrow> int \<times> script_host" where
  "pause_toggle_wrapper = host_player (player_service_request_control PLAYER_SVC_CONTROL_PAUSE)"

definition fast_forward_wrapper :: "script_host \<Rightarrow> int \<times> script_host" where
  "fast_forward_wrapper = host_player (player_service_request_control PLAYER_SVC_CONTROL_FAST_FORWARD)"

definition rewind_wrapper :: "script_host \<Rightarrow> int \<times> script_host" where
  "rewind_wrapper = host_player (player_service_request_control PLAYER_SVC_CONTROL_FAST_BACKWARD)"

definition volume_up_wrapper :: "script_host \<Rightarrow> int \<times> script_host" where
  "volume_up_wrapper = host_player (player_service_request_control PLAYER_SVC_CONTROL_VOLUME_UP)"

definition volume_down_wrapper :: "script_host \<Rightarrow> int \<times> script_host" where
  "volume_down_wrapper = host_player (player_service_request_control PLAYER_SVC_CONTROL_VOLUME_DOWN)"

definition set_playback_mode_wrapper :: "host_env \<Rightarrow> int \<Rightarrow> script_host \<Rightarrow> int \<times> script_host" where
  "set_playback_mode_wrapper env mode = host_player (player_service_set_playback_mode (hv_random env) (mode_of_number mode))"

definition get_playback_mode_wrapper :: "script_host \<Rightarrow> int \<times> script_host" where
  "get_playback_mode_wrapper h = (mode_number (player_service_get_playback_mode (ho_player h)), h)"

definition is_paused_wrapper :: "script_host \<Rightarrow> int \<times> script_host" where
  "is_paused_wrapper h = (if player_service_is_paused (ho_player h) then 1 else 0, h)"

definition get_volume_percent_wrapper :: "script_host \<Rightarrow> int \<times> script_host" where
  "get_volume_percent_wrapper h = (int (player_service_get_volume_percent (ho_player h)), h)"

definition set_volume_percent_wrapper :: "int \<Rightarrow> script_host \<Rightarrow> int \<times> script_host" where
  "set_volume_percent_wrapper percent h =
     (let p = (if percent < 0 then 0 else if percent > 100 then 100 else percent) in
      (esp_err_code ESP_OK,
       h\<lparr>ho_player := player_service_set_volume_absolute (of_int ((p * 127 + 50) div 100)) (ho_player h)\<rparr>))"

definition get_track_count_wrapper :: "script_host \<Rightarrow> int \<times> script_host" where
  "get_track_count_wrapper h = (int (cartridge_service_get_metadata_track_count (pl_cart (ho_player h))), h)"

text \<open>The buffer: its length (none for no buffer) and whether it lies in the script's memory. What is
  written to it, if anything, is returned; its terminator is included.\<close>

definition get_track_title_wrapper :: "int \<Rightarrow> nat option \<Rightarrow> bool \<Rightarrow> script_host \<Rightarrow> int \<times> bytes option" where
  "get_track_title_wrapper index buf valid h =
     (case buf of None \<Rightarrow> (esp_err_code ESP_ERR_INVALID_ARG, None)
      | Some buf_len \<Rightarrow>
          if buf_len = 0 \<or> index < 0 then (esp_err_code ESP_ERR_INVALID_ARG, None)
          else if \<not> valid then (esp_err_code ESP_ERR_INVALID_ARG, None)
          else (case cartridge_service_get_track_name (nat index) (pl_cart (ho_player h)) of
              None \<Rightarrow> (esp_err_code ESP_ERR_NOT_FOUND, Some [0])
            | Some title \<Rightarrow> (esp_err_code ESP_OK, Some (take (buf_len - 1) (cstr title) @ [0]))))"

section \<open>System, power and buttons\<close>

definition wifi_is_connected_wrapper :: "script_host \<Rightarrow> int \<times> script_host" where
  "wifi_is_connected_wrapper h = (if wifi_service_get_state (ho_wifi h) = WIFI_SVC_STATE_CONNECTED then 1 else 0, h)"

definition get_free_heap_wrapper :: "host_env \<Rightarrow> script_host \<Rightarrow> int \<times> script_host" where
  "get_free_heap_wrapper env h = (hv_free_heap env, h)"

definition get_uptime_ms_wrapper :: "host_env \<Rightarrow> script_host \<Rightarrow> int \<times> script_host" where
  "get_uptime_ms_wrapper env h = (hv_time_us env div 1000, h)"

definition sleep_ms_wrapper :: "int \<Rightarrow> script_host \<Rightarrow> int \<times> script_host" where
  "sleep_ms_wrapper milliseconds h =
     (if milliseconds < 0 then esp_err_code ESP_ERR_INVALID_ARG else esp_err_code ESP_OK, h)"

definition power_rail_is_enabled_wrapper :: "int \<Rightarrow> script_host \<Rightarrow> int \<times> script_host" where
  "power_rail_is_enabled_wrapper rail_value h =
     (case power_rail_from_i32 rail_value of None \<Rightarrow> (esp_err_code ESP_ERR_INVALID_ARG, h)
      | Some rail \<Rightarrow>
          (case power_mgmt_service_rail_is_enabled rail True (hd_power (ho_hid h)) of
             (err, enabled) \<Rightarrow> (if err = ESP_OK then (if enabled = Some True then 1 else 0) else esp_err_code err, h)))"

definition power_rail_get_refcount_wrapper :: "int \<Rightarrow> script_host \<Rightarrow> int \<times> script_host" where
  "power_rail_get_refcount_wrapper rail_value h =
     (case power_rail_from_i32 rail_value of None \<Rightarrow> (esp_err_code ESP_ERR_INVALID_ARG, h)
      | Some rail \<Rightarrow>
          (case power_mgmt_service_rail_get_refcount rail True (hd_power (ho_hid h)) of
             (err, refcount) \<Rightarrow>
               (if err \<noteq> ESP_OK then esp_err_code err
                else case refcount of None \<Rightarrow> 0 | Some n \<Rightarrow> if int n > INT_MAX then INT_MAX else int n, h)))"

definition power_rail_get_override_wrapper :: "int \<Rightarrow> script_host \<Rightarrow> int \<times> script_host" where
  "power_rail_get_override_wrapper rail_value h =
     (case power_rail_from_i32 rail_value of None \<Rightarrow> (esp_err_code ESP_ERR_INVALID_ARG, h)
      | Some rail \<Rightarrow>
          (case power_mgmt_service_rail_get_override rail True (hd_power (ho_hid h)) of
             (err, mode) \<Rightarrow>
               (if err = ESP_OK then override_number (case mode of None \<Rightarrow> POWER_MGMT_OVERRIDE_AUTO | Some m \<Rightarrow> m)
                else esp_err_code err, h)))"

definition power_rail_set_override_wrapper :: "host_env \<Rightarrow> int \<Rightarrow> int \<Rightarrow> script_host \<Rightarrow> int \<times> script_host" where
  "power_rail_set_override_wrapper env rail_value override_value h =
     (case power_rail_from_i32 rail_value of None \<Rightarrow> (esp_err_code ESP_ERR_INVALID_ARG, h)
      | Some rail \<Rightarrow>
          (case power_override_from_i32 override_value of None \<Rightarrow> (esp_err_code ESP_ERR_INVALID_ARG, h)
           | Some mode \<Rightarrow>
               host_hid (hid_rail (power_mgmt_service_rail_set_override (he_power (hv_hid env)) rail (Some mode))) h))"

definition hid_get_buttons_wrapper :: "script_host \<Rightarrow> int \<times> script_host" where
  "hid_get_buttons_wrapper h =
     (case hid_service_get_button_state True (ho_hid h) of
        (err, st) \<Rightarrow> (if err = ESP_OK then (case st of None \<Rightarrow> 0 | Some m \<Rightarrow> sint m) else esp_err_code err, h))"

definition hid_led_set_rgb_wrapper :: "host_env \<Rightarrow> int \<Rightarrow> int \<Rightarrow> int \<Rightarrow> script_host \<Rightarrow> int \<times> script_host" where
  "hid_led_set_rgb_wrapper env red green blue h =
     (if red < 0 \<or> red > 255 \<or> green < 0 \<or> green > 255 \<or> blue < 0 \<or> blue > 255
      then (esp_err_code ESP_ERR_INVALID_ARG, h)
      else host_hid (hid_service_led_set_rgb (hv_hid env) (of_int red) (of_int green) (of_int blue)) h)"

definition hid_led_set_brightness_wrapper :: "host_env \<Rightarrow> int \<Rightarrow> script_host \<Rightarrow> int \<times> script_host" where
  "hid_led_set_brightness_wrapper env percent h =
     (if percent < 0 \<or> percent > 100 then (esp_err_code ESP_ERR_INVALID_ARG, h)
      else host_hid (hid_service_led_set_brightness (hv_hid env) (of_int percent)) h)"

definition hid_led_off_wrapper :: "host_env \<Rightarrow> script_host \<Rightarrow> int \<times> script_host" where
  "hid_led_off_wrapper env h = host_hid (hid_service_led_off (hv_hid env)) h"

section \<open>The table of functions\<close>

text \<open>A call of a script, but for \<^verbatim>\<open>log\<close>, which is the run's.\<close>

datatype host_call =
    Next_Track
  | Previous_Track
  | Pause_Toggle
  | Fast_Forward
  | Rewind
  | Volume_Up
  | Volume_Down
  | Set_Playback_Mode int
  | Get_Playback_Mode
  | Is_Paused
  | Get_Volume_Percent
  | Set_Volume_Percent int
  | Sleep_Ms int
  | Get_Track_Count
  | Get_Track_Title int "nat option" bool
  | Wifi_Is_Connected
  | Get_Free_Heap
  | Get_Uptime_Ms
  | Power_Rail_Is_Enabled int
  | Power_Rail_Get_Refcount int
  | Power_Rail_Get_Override int
  | Power_Rail_Set_Override int int
  | Hid_Get_Buttons
  | Hid_Led_Set_Rgb_Call int int int
  | Hid_Led_Set_Brightness_Call int
  | Hid_Led_Off_Call

definition jukeboy_call :: "host_env \<Rightarrow> host_call \<Rightarrow> script_host \<Rightarrow> int \<times> script_host" where
  "jukeboy_call env c h =
     (case c of
        Next_Track \<Rightarrow> next_track_wrapper h
      | Previous_Track \<Rightarrow> previous_track_wrapper h
      | Pause_Toggle \<Rightarrow> pause_toggle_wrapper h
      | Fast_Forward \<Rightarrow> fast_forward_wrapper h
      | Rewind \<Rightarrow> rewind_wrapper h
      | Volume_Up \<Rightarrow> volume_up_wrapper h
      | Volume_Down \<Rightarrow> volume_down_wrapper h
      | Set_Playback_Mode mode \<Rightarrow> set_playback_mode_wrapper env mode h
      | Get_Playback_Mode \<Rightarrow> get_playback_mode_wrapper h
      | Is_Paused \<Rightarrow> is_paused_wrapper h
      | Get_Volume_Percent \<Rightarrow> get_volume_percent_wrapper h
      | Set_Volume_Percent percent \<Rightarrow> set_volume_percent_wrapper percent h
      | Sleep_Ms ms \<Rightarrow> sleep_ms_wrapper ms h
      | Get_Track_Count \<Rightarrow> get_track_count_wrapper h
      | Get_Track_Title index buf valid \<Rightarrow> (fst (get_track_title_wrapper index buf valid h), h)
      | Wifi_Is_Connected \<Rightarrow> wifi_is_connected_wrapper h
      | Get_Free_Heap \<Rightarrow> get_free_heap_wrapper env h
      | Get_Uptime_Ms \<Rightarrow> get_uptime_ms_wrapper env h
      | Power_Rail_Is_Enabled rail \<Rightarrow> power_rail_is_enabled_wrapper rail h
      | Power_Rail_Get_Refcount rail \<Rightarrow> power_rail_get_refcount_wrapper rail h
      | Power_Rail_Get_Override rail \<Rightarrow> power_rail_get_override_wrapper rail h
      | Power_Rail_Set_Override rail mode \<Rightarrow> power_rail_set_override_wrapper env rail mode h
      | Hid_Get_Buttons \<Rightarrow> hid_get_buttons_wrapper h
      | Hid_Led_Set_Rgb_Call red green blue \<Rightarrow> hid_led_set_rgb_wrapper env red green blue h
      | Hid_Led_Set_Brightness_Call percent \<Rightarrow> hid_led_set_brightness_wrapper env percent h
      | Hid_Led_Off_Call \<Rightarrow> hid_led_off_wrapper env h)"

end
