(* ===== verification/Script_Run.thy ===== *)
theory Script_Run
  imports Script_Host
begin

text \<open>
  Runs of scripts, \<^verbatim>\<open>main/script_service.c\<close>: one script at a time is prepared by a caller in the only
  context there is, queued for the worker thread and executed by it; a caller of \<^verbatim>\<open>script_service_run\<close> waits
  for the end, one of \<^verbatim>\<open>script_service_start\<close> leaves the release of the context to the worker. The
  WebAssembly runtime is a parameter: what loading, instantiation and lookup give, and what the script does
  while it runs, which are the steps \<open>script_guest_log\<close>, \<open>script_guest_call\<close>, \<open>wamr_host_vprintf_hook\<close> and
  \<open>script_guest_end\<close> of the worker.
\<close>

section \<open>State\<close>

datatype script_service_status =
    SCRIPT_SERVICE_STATUS_UNINITIALIZED
  | SCRIPT_SERVICE_STATUS_READY
  | SCRIPT_SERVICE_STATUS_BUSY
  | SCRIPT_SERVICE_STATUS_ERROR

text \<open>The context. A semaphore is whether it is given, if it exists; the open log is known by its path, and
  what is written to it goes to its end.\<close>

record script_run_context =
  cx_requested_path :: bytes
  cx_log_path :: bytes
  cx_argv :: "bytes list option"
  cx_detach_on_finish :: bool
  cx_script_buffer :: "bytes option"
  cx_log_fd :: "bytes option"
  cx_err :: esp_err
  cx_completion_sem :: "bool option"
  cx_result :: script_service_run_result

text \<open>Where the worker thread is: there is none, it waits for a request, a script runs (with the block of
  its arguments, if it takes any), or a run has ended and its context is not yet released.\<close>

datatype script_worker =
    Worker_None
  | Worker_Waiting
  | Worker_Running "(u32 \<times> bytes) option"
  | Worker_Releasing

text \<open>The three pointers to a context point to the one there is or to none. The last fields are the
  files, the services the script can reach, the callers that wait for a run, and whether the kernel
  stopped the firmware because a semaphore that does not exist was given.\<close>

record script_state =
  sc_status :: script_service_status
  sc_state_mutex :: bool
  sc_worker_request_sem :: bool
  sc_natives_registered :: bool
  sc_active_run_context :: bool
  sc_log_capture_context :: bool
  sc_pending_context :: bool
  sc_worker_thread_started :: bool
  sc_last_result :: "(script_service_run_result \<times> esp_err \<times> int) option"
  sc_active_run_started_us :: int
  sc_next_run_id :: u32
  sc_run_context :: script_run_context
  sc_run_context_in_use :: bool
  sc_worker :: script_worker
  sc_fs :: script_fs
  sc_host :: script_host
  sc_callers_waiting :: nat
  sc_asserted :: bool

definition script_reset_context_storage :: script_run_context where
  "script_reset_context_storage = \<lparr>cx_requested_path = [], cx_log_path = [], cx_argv = None,
     cx_detach_on_finish = False, cx_script_buffer = None, cx_log_fd = None, cx_err = ESP_OK,
     cx_completion_sem = None,
     cx_result = script_init_result\<lparr>rr_exit_code := 0\<rparr>\<rparr>"

definition script_boot :: "script_fs \<Rightarrow> script_host \<Rightarrow> script_state" where
  "script_boot fs h = \<lparr>sc_status = SCRIPT_SERVICE_STATUS_UNINITIALIZED, sc_state_mutex = False,
     sc_worker_request_sem = False, sc_natives_registered = False, sc_active_run_context = False,
     sc_log_capture_context = False, sc_pending_context = False, sc_worker_thread_started = False,
     sc_last_result = None, sc_active_run_started_us = 0, sc_next_run_id = 1,
     sc_run_context = script_reset_context_storage, sc_run_context_in_use = False, sc_worker = Worker_None,
     sc_fs = fs, sc_host = h, sc_callers_waiting = 0, sc_asserted = False\<rparr>"

definition script_runs :: "script_state \<Rightarrow> bool" where
  "script_runs s \<longleftrightarrow> (case sc_worker s of Worker_Running block \<Rightarrow> True | _ \<Rightarrow> False)"

definition on_context :: "(script_run_context \<Rightarrow> script_run_context) \<Rightarrow> script_state \<Rightarrow> script_state" where
  "on_context f s = s\<lparr>sc_run_context := f (sc_run_context s)\<rparr>"

definition on_result ::
    "(script_service_run_result \<Rightarrow> script_service_run_result) \<Rightarrow> script_state \<Rightarrow> script_state" where
  "on_result f s = on_context (\<lambda>c. c\<lparr>cx_result := f (cx_result c)\<rparr>) s"

definition script_message :: "bytes \<Rightarrow> script_state \<Rightarrow> script_state" where
  "script_message msg s = on_result (script_set_result_message msg) s"

text \<open>Closing the log and freeing what the context has, and giving the context back.\<close>

definition script_release_context_resources :: "script_run_context \<Rightarrow> script_run_context" where
  "script_release_context_resources c = c\<lparr>cx_log_fd := None, cx_script_buffer := None, cx_argv := None\<rparr>"

definition script_release_context :: "script_state \<Rightarrow> script_state" where
  "script_release_context s =
     (let s1 = on_context script_release_context_resources s in
      s1\<lparr>sc_run_context := script_reset_context_storage, sc_run_context_in_use := False\<rparr>)"

definition script_capture_last_result_locked :: "int \<Rightarrow> script_state \<Rightarrow> script_state" where
  "script_capture_last_result_locked now s =
     s\<lparr>sc_last_result := Some (cx_result (sc_run_context s), cx_err (sc_run_context s), now)\<rparr>"

section \<open>Start of the service\<close>

record script_init_env =
  si_mutex :: bool
  si_request_sem :: bool
  si_natives :: bool
  si_socket_env :: bool
  si_mkdir :: bool
  si_thread :: bool

definition script_service_init :: "script_init_env \<Rightarrow> script_state \<Rightarrow> esp_err \<times> script_state" where
  "script_service_init env s =
     (if sc_status s = SCRIPT_SERVICE_STATUS_READY \<or> sc_status s = SCRIPT_SERVICE_STATUS_BUSY then (ESP_OK, s)
      else if sc_status s = SCRIPT_SERVICE_STATUS_ERROR then (ESP_FAIL, s)
      else
        let failed = (\<lambda>t. t\<lparr>sc_status := SCRIPT_SERVICE_STATUS_ERROR\<rparr>);
            s1 = s\<lparr>sc_state_mutex := si_mutex env\<rparr> in
        if \<not> si_mutex env then (ESP_ERR_NO_MEM, failed s1)
        else if \<not> si_request_sem env then (ESP_ERR_NO_MEM, failed s1)
        else
          let s2 = s1\<lparr>sc_worker_request_sem := False\<rparr> in
          if \<not> sc_natives_registered s2 \<and> (\<not> si_natives env \<or> \<not> si_socket_env env) then (ESP_FAIL, failed s2)
          else
            let s3 = s2\<lparr>sc_natives_registered := True,
                        sc_fs := script_ensure_directory script_service_get_root_path (si_mkdir env) (sc_fs s2)\<rparr> in
            if sc_worker_thread_started s3 then (ESP_OK, s3\<lparr>sc_status := SCRIPT_SERVICE_STATUS_READY\<rparr>)
            else if \<not> si_thread env then (ESP_FAIL, failed s3)
            else (ESP_OK, s3\<lparr>sc_worker_thread_started := True, sc_worker := Worker_Waiting,
                             sc_status := SCRIPT_SERVICE_STATUS_READY\<rparr>))"

section \<open>Preparing a run\<close>

definition script_busy_message :: "script_state \<Rightarrow> bytes" where
  "script_busy_message s =
     (if sc_active_run_context s \<and> rr_resolved_path (cx_result (sc_run_context s)) \<noteq> []
      then string_bytes ''script service is already running '' @ rr_resolved_path (cx_result (sc_run_context s))
      else string_bytes ''script service is already busy'')"

text \<open>The result handed in by the caller is a value, and the one handed back is returned; a caller that
  gives no place for it ignores it.\<close>

definition script_acquire_context ::
    "script_service_run_result \<Rightarrow> script_state \<Rightarrow> esp_err \<times> script_service_run_result \<times> script_state" where
  "script_acquire_context result s =
     (if sc_run_context_in_use s \<or> sc_status s = SCRIPT_SERVICE_STATUS_BUSY \<or> sc_active_run_context s \<or>
         sc_pending_context s
      then (ESP_ERR_INVALID_STATE, script_set_result_message (script_busy_message s) result, s)
      else (ESP_OK, result,
        s\<lparr>sc_run_context := script_reset_context_storage\<lparr>cx_completion_sem := Some False\<rparr>,
          sc_run_context_in_use := True\<rparr>))"

text \<open>The files and the memory a run is prepared with.\<close>

record script_prepare_env =
  sp_init :: script_init_env
  sp_mkdir :: bool
  sp_open_log :: bool
  sp_argv_malloc :: bool
  sp_load :: script_load_env

definition script_prepare_log_file :: "script_prepare_env \<Rightarrow> script_state \<Rightarrow> esp_err \<times> script_state" where
  "script_prepare_log_file env s =
     (let s1 = s\<lparr>sc_fs := script_ensure_directory SCRIPT_LOG_ROOT_PATH (sp_mkdir env) (sc_fs s)\<rparr>;
          resolved = rr_resolved_path (cx_result (sc_run_context s1)) in
      case script_build_log_path_from_resolved_path (Some resolved) SCRIPT_SERVICE_MAX_PATH_LEN of
        Inl err \<Rightarrow> (ESP_ERR_INVALID_SIZE, script_message (string_bytes ''failed to prepare log path for '' @ resolved) s1)
      | Inr log_path \<Rightarrow>
          let s2 = on_context (\<lambda>c. c\<lparr>cx_log_path := log_path\<rparr>) s1 in
          if \<not> sp_open_log env then (ESP_FAIL, script_message (string_bytes ''failed to open '' @ log_path) s2)
          else (ESP_OK, on_context (\<lambda>c. c\<lparr>cx_log_fd := Some log_path\<rparr>)
                          (s2\<lparr>sc_fs := (sc_fs s2)(log_path \<mapsto> Fs_File [])\<rparr>)))"

text \<open>What has to succeed once the context is acquired; the message of a failure is in its result.\<close>

definition script_fill_context ::
    "script_prepare_env \<Rightarrow> bytes \<Rightarrow> int \<Rightarrow> bytes option list option \<Rightarrow> script_state \<Rightarrow> esp_err \<times> script_state" where
  "script_fill_context env path argc argv s =
     (let s1 = on_context (\<lambda>c. c\<lparr>cx_argv := None, cx_log_fd := None, cx_err := ESP_OK, cx_result := script_init_result,
                 cx_requested_path := take (SCRIPT_SERVICE_MAX_PATH_LEN - 1) path\<rparr>) s in
      case script_service_resolve_path (Some path) SCRIPT_SERVICE_MAX_PATH_LEN (sc_fs s1) of
        Inl err \<Rightarrow>
          (err, script_message (if err = ESP_ERR_INVALID_ARG
                 then string_bytes ''script name must be a bare filename under '' @ script_service_get_root_path
                 else string_bytes ''could not resolve '' @ path) s1)
      | Inr resolved \<Rightarrow>
          let s2 = on_result (\<lambda>r. r\<lparr>rr_resolved_path := resolved\<rparr>) s1 in
          case script_prepare_log_file env s2 of (err, s3) \<Rightarrow>
            if err \<noteq> ESP_OK then (err, s3)
            else case script_duplicate_argv (sp_argv_malloc env) resolved argc argv (cx_result (sc_run_context s3)) of
              (None, r) \<Rightarrow> (ESP_ERR_NO_MEM, script_message (string_bytes ''out of memory copying arguments'') (on_result (\<lambda>_. r) s3))
            | (Some copy, r) \<Rightarrow>
                let s4 = on_context (\<lambda>c. c\<lparr>cx_argv := Some copy, cx_result := r\<rparr>) s3 in
                case script_load_file (sp_load env) resolved (sc_fs s4) (cx_result (sc_run_context s4)) of
                  (None, r2) \<Rightarrow> (ESP_FAIL, on_result (\<lambda>_. r2) s4)
                | (Some buffer, r2) \<Rightarrow> (ESP_OK, on_context (\<lambda>c. c\<lparr>cx_script_buffer := Some buffer, cx_result := r2\<rparr>) s4))"

definition script_prepare_context ::
    "script_prepare_env \<Rightarrow> bytes option \<Rightarrow> int \<Rightarrow> bytes option list option \<Rightarrow> script_state \<Rightarrow>
     esp_err \<times> script_service_run_result \<times> script_state" where
  "script_prepare_context env path argc argv s =
     (case script_service_init (sp_init env) s of (err, s1) \<Rightarrow>
        if err \<noteq> ESP_OK
        then (err, script_set_result_message (string_bytes ''script service init failed'') script_init_result, s1)
        else if path = None \<or> path = Some []
        then (ESP_ERR_INVALID_ARG, script_set_result_message (string_bytes ''script name is required'') script_init_result, s1)
        else case script_acquire_context script_init_result s1 of (err2, result, s2) \<Rightarrow>
          if err2 \<noteq> ESP_OK then (err2, result, s2)
          else case script_fill_context env (the path) argc argv s2 of (err3, s3) \<Rightarrow>
            (err3, cx_result (sc_run_context s3), if err3 \<noteq> ESP_OK then script_release_context s3 else s3))"

definition script_queue_context :: "int \<Rightarrow> script_state \<Rightarrow> esp_err \<times> script_state" where
  "script_queue_context now s =
     (if sc_status s = SCRIPT_SERVICE_STATUS_BUSY \<or> sc_active_run_context s \<or> sc_pending_context s
      then (ESP_ERR_INVALID_STATE,
            on_context (\<lambda>c. c\<lparr>cx_err := ESP_ERR_INVALID_STATE\<rparr>) (script_message (script_busy_message s) s))
      else
        let run_id = sc_next_run_id s in
        (ESP_OK, on_result (\<lambda>r. r\<lparr>rr_run_id := run_id\<rparr>)
           (s\<lparr>sc_next_run_id := bump_nonzero run_id, sc_status := SCRIPT_SERVICE_STATUS_BUSY,
              sc_active_run_context := True, sc_pending_context := True, sc_active_run_started_us := now,
              sc_worker_request_sem := True\<rparr>)))"

text \<open>Both requests up to the point where the second one waits.\<close>

definition script_submit ::
    "bool \<Rightarrow> script_prepare_env \<Rightarrow> int \<Rightarrow> bytes option \<Rightarrow> int \<Rightarrow> bytes option list option \<Rightarrow> script_state \<Rightarrow>
     esp_err \<times> script_service_run_result \<times> script_state" where
  "script_submit detach env now path argc argv s =
     (case script_prepare_context env path argc argv s of (err, result, s1) \<Rightarrow>
        if err \<noteq> ESP_OK then (err, result, s1)
        else case script_queue_context now (on_context (\<lambda>c. c\<lparr>cx_detach_on_finish := detach\<rparr>) s1) of (err2, s2) \<Rightarrow>
          (err2, cx_result (sc_run_context s2), if err2 \<noteq> ESP_OK then script_release_context s2 else s2))"

definition script_service_start ::
    "script_prepare_env \<Rightarrow> int \<Rightarrow> bytes option \<Rightarrow> int \<Rightarrow> bytes option list option \<Rightarrow> script_state \<Rightarrow>
     esp_err \<times> script_service_run_result \<times> script_state" where
  "script_service_start env now path argc argv s = script_submit True env now path argc argv s"

definition script_service_run_begin ::
    "script_prepare_env \<Rightarrow> int \<Rightarrow> bytes option \<Rightarrow> int \<Rightarrow> bytes option list option \<Rightarrow> script_state \<Rightarrow>
     esp_err \<times> script_service_run_result \<times> script_state" where
  "script_service_run_begin env now path argc argv s =
     (case script_submit False env now path argc argv s of (err, result, s1) \<Rightarrow>
        (err, result, if err = ESP_OK then s1\<lparr>sc_callers_waiting := sc_callers_waiting s1 + 1\<rparr> else s1))"

text \<open>The rest of \<^verbatim>\<open>script_service_run\<close>, once the semaphore is given; nothing before.\<close>

definition script_service_run_end :: "script_state \<Rightarrow> (esp_err \<times> script_service_run_result) option \<times> script_state" where
  "script_service_run_end s =
     (if sc_callers_waiting s > 0 \<and> cx_completion_sem (sc_run_context s) = Some True
      then (Some (cx_err (sc_run_context s), cx_result (sc_run_context s)),
            script_release_context (s\<lparr>sc_callers_waiting := sc_callers_waiting s - 1\<rparr>))
      else (None, s))"

section \<open>The log of a run\<close>

text \<open>A write to the log: how many of its bytes the file takes.\<close>

definition script_append_log_data :: "(nat \<Rightarrow> nat) \<Rightarrow> bytes \<Rightarrow> script_state \<Rightarrow> esp_err \<times> script_state" where
  "script_append_log_data written data s =
     (case cx_log_fd (sc_run_context s) of None \<Rightarrow> (ESP_ERR_INVALID_ARG, s)
      | Some p \<Rightarrow>
          if data = [] then (ESP_ERR_INVALID_ARG, s)
          else
            let n = min (length data) (written (length data));
                old = (case sc_fs s p of Some (Fs_File b) \<Rightarrow> b | _ \<Rightarrow> [])
            in (if n = length data then ESP_OK else ESP_FAIL,
                s\<lparr>sc_fs := (sc_fs s)(p \<mapsto> Fs_File (old @ take n data))\<rparr>))"

text \<open>A message a script logs (none when it is not a string of the script's own).\<close>

definition log_wrapper :: "(nat \<Rightarrow> nat) \<Rightarrow> bytes option \<Rightarrow> script_state \<Rightarrow> int \<times> script_state" where
  "log_wrapper written message s =
     (case message of None \<Rightarrow> (esp_err_code ESP_ERR_INVALID_ARG, s)
      | Some msg \<Rightarrow>
          if \<not> sc_state_mutex s \<or> \<not> sc_log_capture_context s then (esp_err_code ESP_OK, s)
          else
            let prefix = string_bytes ''[wasm] '';
                s1 = on_result (\<lambda>r. script_append_output [NEWLINE] (script_append_output msg (script_append_output prefix r))) s in
            (esp_err_code ESP_OK,
             if cx_log_fd (sc_run_context s1) = None then s1
             else case script_append_log_data written prefix s1 of (err, s2) \<Rightarrow>
               if err \<noteq> ESP_OK then s2
               else snd (script_append_log_data written [NEWLINE] (if msg = [] then s2 else snd (script_append_log_data written msg s2)))))"

text \<open>Text the runtime prints, as the console returned for it: the whole of it and its result there.\<close>

definition wamr_host_vprintf_hook :: "(nat \<Rightarrow> nat) \<Rightarrow> bytes \<Rightarrow> int \<Rightarrow> script_state \<Rightarrow> int \<times> script_state" where
  "wamr_host_vprintf_hook written formatted console_result s =
     (let (formatted_len, s1) =
        (if sc_state_mutex s \<and> sc_log_capture_context s \<and> cx_log_fd (sc_run_context s) \<noteq> None then
           if formatted = [] then (0, s)
           else (case script_append_log_data written (take (SCRIPT_SERVICE_MAX_PRINTF_CAPTURE_LEN - 1) formatted) s of
                   (err, t) \<Rightarrow> (if err = ESP_OK then int (length formatted) else -1, t))
         else (-1, s))
      in (if console_result \<ge> 0 then console_result else formatted_len, s1))"

section \<open>Execution\<close>

datatype wasm_kind = WASM_I32 | Wasm_Other

text \<open>What the runtime gives: the thread set-up, loading and instantiating (a message when they fail), the
  types of the functions by name, a block in the script's memory (its address, 0 for none), and whether
  there is an execution environment and a task that makes the worker yield.\<close>

record script_rt =
  rt_thread_env_inited :: bool
  rt_init_thread_env :: bool
  rt_load :: "bytes \<Rightarrow> bytes option"
  rt_instantiate :: "bytes \<Rightarrow> bytes option"
  rt_lookup :: "bytes \<Rightarrow> bytes \<Rightarrow> (wasm_kind list \<times> wasm_kind list) option"
  rt_module_malloc :: "nat \<Rightarrow> u32"
  rt_exec_env :: bool
  rt_yield_task :: bool
  rt_load_env :: script_load_env

text \<open>The entry of a script and its arguments, their count and the address of their block with the block.\<close>

definition script_entry :: "script_rt \<Rightarrow> bytes \<Rightarrow> (bytes \<times> wasm_kind list \<times> wasm_kind list) option" where
  "script_entry rt buffer =
     (case rt_lookup rt buffer (string_bytes ''main'') of Some (ps, rs) \<Rightarrow> Some (string_bytes ''main'', ps, rs)
      | None \<Rightarrow>
          (case rt_lookup rt buffer (string_bytes ''__main_argc_argv'') of
             Some (ps, rs) \<Rightarrow> Some (string_bytes ''__main_argc_argv'', ps, rs) | None \<Rightarrow> None))"

definition argv_block_size :: "bytes list \<Rightarrow> nat" where
  "argv_block_size argv = 4 * (length argv + 1) + length (argv_strings argv)"

text \<open>Up to the call of the entry: an error with its message, or the block for the arguments if the entry
  takes any.\<close>

definition script_execute_builtin_module ::
    "script_rt \<Rightarrow> bytes \<Rightarrow> bytes list \<Rightarrow> (esp_err \<times> bytes) + (u32 \<times> bytes) option" where
  "script_execute_builtin_module rt buffer argv =
     (case script_entry rt buffer of
        None \<Rightarrow> Inl (ESP_ERR_NOT_FOUND, string_bytes ''builtin script does not export main or __main_argc_argv'')
      | Some (entry_name, param_types, result_types) \<Rightarrow>
          let about = (\<lambda>msg. string_bytes ''builtin entry '' @ entry_name @ string_bytes msg) in
          if length param_types \<noteq> 0 \<and> length param_types \<noteq> 2
          then Inl (ESP_ERR_NOT_SUPPORTED, about '' must use () or (int, char **)'')
          else if param_types \<noteq> [] \<and> param_types \<noteq> [WASM_I32, WASM_I32]
          then Inl (ESP_ERR_NOT_SUPPORTED, about '' arguments must be 32-bit integers'')
          else if length result_types > 1
          then Inl (ESP_ERR_NOT_SUPPORTED, about '' must return at most one result'')
          else if result_types \<noteq> [] \<and> result_types \<noteq> [WASM_I32]
          then Inl (ESP_ERR_NOT_SUPPORTED, about '' must return a 32-bit integer'')
          else
            let argv_offset = rt_module_malloc rt (argv_block_size argv) in
            if param_types \<noteq> [] \<and> argv_offset = 0
            then Inl (ESP_ERR_NO_MEM, string_bytes ''failed to allocate builtin argv'')
            else if \<not> rt_exec_env rt
            then Inl (ESP_ERR_NO_MEM, string_bytes ''failed to create builtin execution environment'')
            else if \<not> rt_yield_task rt
            then Inl (ESP_ERR_NO_MEM, string_bytes ''failed to create script yield task'')
            else Inr (if param_types = [] then None
                      else Some (argv_offset, script_prepare_builtin_argv argv_offset argv)))"

text \<open>Up to the call of the entry, too: the buffer is loaded again if the context has none.\<close>

definition script_execute_module ::
    "script_rt \<Rightarrow> script_state \<Rightarrow> ((esp_err + (u32 \<times> bytes) option) \<times> script_state)" where
  "script_execute_module rt s =
     (let (buffer, s1) = (case cx_script_buffer (sc_run_context s) of
            Some b \<Rightarrow> (Some b, s)
          | None \<Rightarrow> (case script_load_file (rt_load_env rt) (rr_resolved_path (cx_result (sc_run_context s))) (sc_fs s)
                          (cx_result (sc_run_context s)) of
                       (b, r) \<Rightarrow> (b, on_context (\<lambda>c. c\<lparr>cx_script_buffer := b, cx_result := r\<rparr>) s)));
          failed = (\<lambda>err msg t. (Inl err, on_context (\<lambda>c. c\<lparr>cx_script_buffer := None\<rparr>) (script_message msg t))) in
      case buffer of None \<Rightarrow> (Inl ESP_ERR_NOT_FOUND, s1)
      | Some b \<Rightarrow>
          (case rt_load rt b of
             Some e \<Rightarrow> failed ESP_FAIL (if e = [] then string_bytes ''wasm load failed'' else e) s1
           | None \<Rightarrow>
               (case rt_instantiate rt b of
                  Some e \<Rightarrow> failed ESP_FAIL (if e = [] then string_bytes ''wasm instantiate failed'' else e) s1
                | None \<Rightarrow>
                    (case script_execute_builtin_module rt b (case cx_argv (sc_run_context s1) of None \<Rightarrow> [] | Some a \<Rightarrow> a) of
                       Inl (err, msg) \<Rightarrow> failed err msg s1
                     | Inr block \<Rightarrow> (Inr block, s1)))))"

text \<open>The end of a run in the worker: capturing stops, the log is trimmed, the result is kept and the
  service is ready again; then the semaphore is given.\<close>

definition script_trim_log :: "script_trim_env \<Rightarrow> script_state \<Rightarrow> script_state" where
  "script_trim_log env s =
     (case cx_log_fd (sc_run_context s) of None \<Rightarrow> s
      | Some p \<Rightarrow>
          let log = (case sc_fs s p of Some (Fs_File b) \<Rightarrow> b | _ \<Rightarrow> []) in
          s\<lparr>sc_fs := (sc_fs s)(p \<mapsto> Fs_File (snd (script_trim_log_fd env log)))\<rparr>)"

definition script_worker_finish :: "script_trim_env \<Rightarrow> int \<Rightarrow> esp_err \<Rightarrow> script_state \<Rightarrow> script_state" where
  "script_worker_finish trim now err s =
     (let s1 = on_context (\<lambda>c. c\<lparr>cx_err := err\<rparr>) s;
          s2 = script_trim_log trim (s1\<lparr>sc_log_capture_context := False\<rparr>);
          s3 = (script_capture_last_result_locked now s2)
                 \<lparr>sc_active_run_context := False, sc_status := SCRIPT_SERVICE_STATUS_READY, sc_worker := Worker_Releasing\<rparr>
      in case cx_completion_sem (sc_run_context s3) of
           None \<Rightarrow> s3\<lparr>sc_asserted := True\<rparr>
         | Some given \<Rightarrow> on_context (\<lambda>c. c\<lparr>cx_completion_sem := Some True\<rparr>) s3)"

text \<open>The worker takes a request, and the script starts or the run has failed.\<close>

definition script_worker_take :: "script_rt \<Rightarrow> script_trim_env \<Rightarrow> int \<Rightarrow> script_state \<Rightarrow> script_state" where
  "script_worker_take rt trim now s =
     (if sc_worker s \<noteq> Worker_Waiting \<or> \<not> sc_worker_request_sem s then s
      else
        let s1 = s\<lparr>sc_worker_request_sem := False, sc_pending_context := False\<rparr> in
        if \<not> sc_pending_context s then s1
        else if \<not> rt_thread_env_inited rt \<and> \<not> rt_init_thread_env rt
        then script_worker_finish trim now ESP_FAIL
               (script_message (string_bytes ''failed to initialize WAMR thread environment'') s1)
        else case script_execute_module rt (s1\<lparr>sc_log_capture_context := True\<rparr>) of
          (Inl err, s2) \<Rightarrow> script_worker_finish trim now err s2
        | (Inr block, s2) \<Rightarrow> s2\<lparr>sc_worker := Worker_Running block\<rparr>)"

text \<open>What a running script does. It ends by returning (a number, if its entry has a result) or by an
  exception of the runtime.\<close>

definition script_guest_call :: "host_env \<Rightarrow> host_call \<Rightarrow> script_state \<Rightarrow> script_state" where
  "script_guest_call env c s =
     (if \<not> script_runs s then s else s\<lparr>sc_host := snd (jukeboy_call env c (sc_host s))\<rparr>)"

definition script_guest_log :: "(nat \<Rightarrow> nat) \<Rightarrow> bytes option \<Rightarrow> script_state \<Rightarrow> script_state" where
  "script_guest_log written message s = (if \<not> script_runs s then s else snd (log_wrapper written message s))"

definition script_guest_print :: "(nat \<Rightarrow> nat) \<Rightarrow> bytes \<Rightarrow> int \<Rightarrow> script_state \<Rightarrow> script_state" where
  "script_guest_print written formatted console_result s =
     (if \<not> script_runs s then s else snd (wamr_host_vprintf_hook written formatted console_result s))"

datatype guest_end = Guest_Returned "u32 option" | Guest_Trapped bytes

definition signed_digits :: "u32 \<Rightarrow> string" where
  "signed_digits w = (if sint w < 0 then ''-'' @ dec_digits (nat (- sint w)) else dec_digits (nat (sint w)))"

definition script_guest_end :: "script_trim_env \<Rightarrow> int \<Rightarrow> guest_end \<Rightarrow> script_state \<Rightarrow> script_state" where
  "script_guest_end trim now ending s =
     (if \<not> script_runs s then s
      else
        let freed = on_context (\<lambda>c. c\<lparr>cx_script_buffer := None\<rparr>) in
        case ending of
          Guest_Trapped e \<Rightarrow>
            script_worker_finish trim now ESP_FAIL
              (freed (script_message (if e = [] then string_bytes ''builtin script execution failed'' else e) s))
        | Guest_Returned v \<Rightarrow>
            let exit_code = (case v of None \<Rightarrow> 0 | Some n \<Rightarrow> n);
                s1 = on_result (\<lambda>r. r\<lparr>rr_exit_code := exit_code\<rparr>) s in
            script_worker_finish trim now ESP_OK
              (freed (script_message (string_bytes (if exit_code = 0 then ''completed successfully''
                                        else ''completed with exit code '' @ signed_digits exit_code)) s1)))"

text \<open>The worker's last step before it waits again.\<close>

definition script_worker_release :: "script_state \<Rightarrow> script_state" where
  "script_worker_release s =
     (if sc_worker s \<noteq> Worker_Releasing then s
      else (if cx_detach_on_finish (sc_run_context s) then script_release_context s else s)\<lparr>sc_worker := Worker_Waiting\<rparr>)"

section \<open>Status\<close>

record script_service_status_snapshot =
  ss_status :: script_service_status
  ss_active_run :: "(script_service_run_result \<times> int) option"
  ss_last_run :: "(script_service_run_result \<times> esp_err \<times> int) option"

definition script_service_get_status :: "script_state \<Rightarrow> script_service_status" where
  "script_service_get_status s = sc_status s"

definition script_service_is_ready :: "script_state \<Rightarrow> bool" where
  "script_service_is_ready s \<longleftrightarrow> script_service_get_status s = SCRIPT_SERVICE_STATUS_READY \<or>
     script_service_get_status s = SCRIPT_SERVICE_STATUS_BUSY"

text \<open>The snapshot; times are in milliseconds, and a run that is there is one of the two options.\<close>

definition script_service_get_status_snapshot :: "bool \<Rightarrow> script_state \<Rightarrow> esp_err \<times> script_service_status_snapshot option"
where
  "script_service_get_status_snapshot out s =
     (if \<not> out then (ESP_ERR_INVALID_ARG, None)
      else (ESP_OK, Some (if \<not> sc_state_mutex s then \<lparr>ss_status = sc_status s, ss_active_run = None, ss_last_run = None\<rparr>
        else \<lparr>ss_status = sc_status s,
          ss_active_run = (if sc_active_run_context s
             then Some (cx_result (sc_run_context s), sc_active_run_started_us s div 1000) else None),
          ss_last_run = map_option (\<lambda>(r, err, us). (r, err, us div 1000)) (sc_last_result s)\<rparr>)))"

definition script_service_status_name :: "script_service_status \<Rightarrow> string" where
  "script_service_status_name status =
     (case status of SCRIPT_SERVICE_STATUS_UNINITIALIZED \<Rightarrow> ''uninitialized'' | SCRIPT_SERVICE_STATUS_READY \<Rightarrow> ''ready''
      | SCRIPT_SERVICE_STATUS_BUSY \<Rightarrow> ''busy'' | SCRIPT_SERVICE_STATUS_ERROR \<Rightarrow> ''error'')"

end
