(* ===== verification/Script_Props.thy ===== *)
theory Script_Props
  imports Script_Run Player_Props Hid_Props
begin

text \<open>
  Properties of the script service: what a name can be resolved to, how the arguments reach a script, and the
  log after a run.
\<close>

section \<open>Paths\<close>

definition script_extensions :: "bytes set" where
  "script_extensions = {[], string_bytes ''.wasm'', string_bytes ''.cwasm'', string_bytes ''.aot''}"

text \<open>A path in the directory of its own that a script has below the root.\<close>

definition script_path :: "bytes \<Rightarrow> bytes \<Rightarrow> bytes" where
  "script_path name ext = script_service_get_root_path @ [SLASH] @ name @ [SLASH] @ name @ ext"

definition script_log_path :: "bytes \<Rightarrow> bytes \<Rightarrow> bytes" where
  "script_log_path name ext = SCRIPT_LOG_ROOT_PATH @ [SLASH] @ name @ ext @ string_bytes ''.log''"

definition name_characters :: bytes where
  "name_characters = string_bytes ''abcdefghijklmnopqrstuvwxyzABCDEFGHIJKLMNOPQRSTUVWXYZ0123456789_-''"

definition script_name_ok :: "bytes \<Rightarrow> bool" where
  "script_name_ok name \<longleftrightarrow> name \<noteq> [] \<and> set name \<subseteq> set name_characters"

text \<open>A script called by what a caller gives: the name alone, or with the extension.\<close>

definition script_called :: "bytes option \<Rightarrow> bytes \<Rightarrow> bytes \<Rightarrow> bool" where
  "script_called given name ext \<longleftrightarrow>
     script_name_ok name \<and> ext \<in> script_extensions \<and> given \<in> {Some name, Some (name @ ext)}"

lemma name_characters_codes: "name_characters = map of_nat ([97..<123] @ [65..<91] @ [48..<58] @ [95, 45])"
  by code_simp

lemma name_char_known:
  assumes "script_is_name_char c" shows "c \<in> set name_characters"
proof -
  have "unat c \<in> set ([97..<123] @ [65..<91] @ [48..<58] @ [95, 45])"
    using assms by (auto simp only: script_is_name_char_def word_le_nat_alt set_append set_upt Un_iff atLeastLessThan_iff
        list.set insert_iff empty_iff unat_numeral) auto
  then have "(of_nat (unat c) :: u8) \<in> set name_characters"
    unfolding name_characters_codes by (metis image_eqI list.set_map)
  then show ?thesis by simp
qed

lemma parse_name_cases:
  assumes "script_parse_name input n = Inr (name, ext)"
  shows "script_name_ok name \<and> length name < n \<and> input = Some (name @ (case ext of None \<Rightarrow> [] | Some e \<Rightarrow> e)) \<and>
    (ext = None \<or> (\<exists>e. ext = Some e \<and> e \<in> script_extensions \<and> e \<noteq> []))"
proof -
  obtain str where str: "input = Some str" using assms by (cases input) (simp_all add: script_parse_name_def)
  define len where "len = (case c_strrchr DOT str of None \<Rightarrow> length str | Some i \<Rightarrow> i)"
  have ok: "len \<noteq> 0" "len < n" "list_all script_is_name_char (take len str)" "name = take len str" "str \<noteq> []"
    and rest: "(case ext of None \<Rightarrow> [] | Some e \<Rightarrow> e) = drop len str"
    and ext: "ext = None \<or> (\<exists>e. ext = Some e \<and> script_is_supported_extension e)"
    using assms str by (auto simp: script_parse_name_def Let_def len_def split: option.splits if_splits)
  have "e \<in> script_extensions \<and> e \<noteq> []" if "script_is_supported_extension e" for e
    using that by (auto simp: script_is_supported_extension_def script_extensions_def SCRIPT_CWASM_EXTENSION_def
        string_bytes_def split: if_splits)
  moreover have "set name \<subseteq> set name_characters" using ok(3,4) name_char_known by (auto simp: list_all_iff)
  moreover have "input = Some (name @ (case ext of None \<Rightarrow> [] | Some e \<Rightarrow> e))"
    unfolding rest ok(4) str by simp
  ultimately show ?thesis using ok ext by (auto simp: script_name_ok_def)
qed

lemma base_path_cases:
  assumes "script_build_resolve_base_path input n = Inr (p, has_ext)"
  obtains name e where "script_name_ok name" "e \<in> script_extensions" "input = Some (name @ e)"
    "p = script_path name e" "has_ext \<longleftrightarrow> e \<noteq> []"
  using assms by (auto simp: script_build_resolve_base_path_def fits_buffer_def script_path_def script_extensions_def
      dest!: parse_name_cases split: sum.splits option.splits if_splits)

lemma copy_candidate_iff:
  "script_copy_candidate c n fs = Some p \<longleftrightarrow> p = c \<and> script_is_regular_file c fs \<and> length c < n"
  by (auto simp: script_copy_candidate_def)

lemma try_variant_cases:
  "script_try_variant b e n fs = Some p \<Longrightarrow> p = b @ e \<and> script_is_regular_file p fs \<and> length p < n"
  by (auto simp: script_try_variant_def fits_buffer_def copy_candidate_iff split: option.splits if_splits)

lemma path_variants_cases:
  assumes "script_try_path_variants b n fs = Some p"
  shows "\<exists>e \<in> script_extensions. p = b @ e \<and> script_is_regular_file p fs \<and> length p < n"
proof -
  have exts: "string_bytes ''.wasm'' \<in> script_extensions" "SCRIPT_CWASM_EXTENSION \<in> script_extensions"
    "string_bytes ''.aot'' \<in> script_extensions" "[] \<in> script_extensions"
    by (simp_all add: script_extensions_def SCRIPT_CWASM_EXTENSION_def)
  have "script_copy_candidate b n fs = Some p \<or> script_try_variant b (string_bytes ''.wasm'') n fs = Some p \<or>
    script_try_variant b SCRIPT_CWASM_EXTENSION n fs = Some p \<or> script_try_variant b (string_bytes ''.aot'') n fs = Some p"
    using assms by (simp add: script_try_path_variants_def split: option.splits if_splits)
  then show ?thesis
  proof
    assume "script_copy_candidate b n fs = Some p"
    then show ?thesis using exts(4) by (intro bexI[of _ "[]"]) (auto simp: copy_candidate_iff)
  next
    assume "script_try_variant b (string_bytes ''.wasm'') n fs = Some p \<or>
      script_try_variant b SCRIPT_CWASM_EXTENSION n fs = Some p \<or> script_try_variant b (string_bytes ''.aot'') n fs = Some p"
    then obtain e where "e \<in> script_extensions" "script_try_variant b e n fs = Some p" using exts(1-3) by metis
    then show ?thesis using try_variant_cases by (intro bexI[of _ e]) simp_all
  qed
qed

lemma resolve_path_cases:
  assumes "script_service_resolve_path path n fs = Inr p"
  shows "\<exists>name e. script_called path name e \<and> p = script_path name e \<and>
    script_is_regular_file p fs \<and> length p < n"
proof -
  obtain c has_ext where base: "script_build_resolve_base_path path SCRIPT_SERVICE_MAX_PATH_LEN = Inr (c, has_ext)"
    using assms by (cases "script_build_resolve_base_path path SCRIPT_SERVICE_MAX_PATH_LEN")
      (auto simp: script_service_resolve_path_def split: if_split_asm)
  define res where "res = (if has_ext then script_copy_candidate c n fs else script_try_path_variants c n fs)"
  have found: "(if has_ext then script_copy_candidate c n fs else script_try_path_variants c n fs) = Some p"
    using assms base unfolding script_service_resolve_path_def res_def[symmetric]
    by (cases res) (simp_all add: res_def[symmetric] split: if_split_asm)
  obtain name e where n: "script_name_ok name" "e \<in> script_extensions" "path = Some (name @ e)"
      "c = script_path name e" "has_ext \<longleftrightarrow> e \<noteq> []"
    using base_path_cases[OF base] .
  show ?thesis
  proof (cases has_ext)
    case True
    then show ?thesis using found n by (auto simp: copy_candidate_iff script_called_def)
  next
    case False
    then have "script_try_path_variants c n fs = Some p" using found by simp
    then obtain e2 where "e2 \<in> script_extensions" "p = c @ e2" "script_is_regular_file p fs" "length p < n"
      using path_variants_cases by blast
    then show ?thesis using n False by (auto simp: script_path_def script_called_def)
  qed
qed

text \<open>No character of a name or an extension is a slash, so the last one is the one before the file.\<close>

lemma name_no_slash: "SLASH \<notin> set name_characters" by code_simp

lemma extension_no_slash: "e \<in> script_extensions \<Longrightarrow> SLASH \<notin> set e"
  by (auto simp: script_extensions_def string_bytes_def SLASH_def)

lemma strrchr_last: "c \<notin> set b \<Longrightarrow> c_strrchr c (a @ c # b) = Some (length a)"
proof -
  assume "c \<notin> set b"
  then have "takeWhile (\<lambda>x. x \<noteq> c) (rev b @ c # rev a) = rev b"
    by (subst takeWhile_append2) auto
  then show ?thesis by (simp add: c_strrchr_def)
qed

lemma file_name_of_path:
  assumes "script_name_ok name" and "e \<in> script_extensions"
  shows "script_build_log_path_from_resolved_path (Some (script_path name e)) n =
    (case fits_buffer n (script_log_path name e) of None \<Rightarrow> if n = 0 then Inl ESP_ERR_INVALID_ARG else Inl ESP_ERR_INVALID_SIZE
     | Some q \<Rightarrow> Inr q)"
proof -
  have "SLASH \<notin> set (name @ e)"
    using assms extension_no_slash name_no_slash by (auto simp: script_name_ok_def)
  then have "c_strrchr SLASH (script_path name e) = Some (length (script_service_get_root_path @ [SLASH] @ name))"
    using strrchr_last[of SLASH "name @ e" "script_service_get_root_path @ [SLASH] @ name"] by (simp add: script_path_def)
  moreover have "drop (length (script_service_get_root_path @ [SLASH] @ name) + 1) (script_path name e) = name @ e"
    by (simp add: script_path_def)
  moreover have "script_path name e \<noteq> []" "name @ e \<noteq> []" using assms(1) by (simp_all add: script_path_def script_name_ok_def)
  ultimately show ?thesis
    by (auto simp: script_build_log_path_from_resolved_path_def Let_def script_log_path_def fits_buffer_def split: option.splits)
qed

text \<open>C39: Whatever a caller gives, it resolves to a script only if it is a name of letters, digits, underscores and
  hyphens, alone or with one of the known extensions; and then to the file of that whole name in the
  directory of that name below the scripts' root, with the extension given, or one of the known ones or
  none when none was given. So no name leads out of the root or to the script of another name; and the log
  is the file of the same name and extension below the root of the logs.
\<close>

theorem script_paths_confined:
  "(script_service_resolve_path path n fs = Inr p \<longrightarrow>
      (\<exists>name e. script_called path name e \<and> p = script_path name e \<and>
         script_is_regular_file p fs \<and> length p < n)) \<and>
   (script_service_get_log_path path m fs = Inr q \<longrightarrow>
      (\<exists>name e. script_called path name e \<and> q = script_log_path name e \<and>
         script_service_resolve_path path SCRIPT_SERVICE_MAX_PATH_LEN fs = Inr (script_path name e) \<and> length q < m))"
proof (intro conjI impI)
  assume "script_service_get_log_path path m fs = Inr q"
  then obtain r where r: "script_service_resolve_path path SCRIPT_SERVICE_MAX_PATH_LEN fs = Inr r"
    and q: "script_build_log_path_from_resolved_path (Some r) m = Inr q"
    by (auto simp: script_service_get_log_path_def split: if_splits sum.splits)
  obtain name e where ne: "script_called path name e" "r = script_path name e"
    using resolve_path_cases[OF r] by blast
  then have "q = script_log_path name e \<and> length q < m"
    using q file_name_of_path[of name e m]
    by (auto simp: script_called_def fits_buffer_def split: option.splits if_splits)
  then show "\<exists>name e. script_called path name e \<and> q = script_log_path name e \<and>
     script_service_resolve_path path SCRIPT_SERVICE_MAX_PATH_LEN fs = Inr (script_path name e) \<and> length q < m"
    using ne r by blast
qed (rule resolve_path_cases)

definition demo_script_fs :: script_fs where
  "demo_script_fs = [script_path (string_bytes ''hello'') (string_bytes ''.wasm'') \<mapsto> Fs_File [0, 1, 2]]"

lemma demo_resolve:
  "script_service_resolve_path (Some (string_bytes ''hello'')) SCRIPT_SERVICE_MAX_PATH_LEN demo_script_fs
     = Inr (string_bytes ''/lfs/scripts/hello/hello.wasm'')"
  "script_service_get_log_path (Some (string_bytes ''hello'')) 64 demo_script_fs
     = Inr (string_bytes ''/tmp/script-logs/hello.wasm.log'')"
  by code_simp+

theorem script_paths_confined_witness:
  "(\<exists>name e. script_called (Some (string_bytes ''hello'')) name e \<and>
     string_bytes ''/lfs/scripts/hello/hello.wasm'' = script_path name e) \<and>
   (\<exists>name e. script_called (Some (string_bytes ''hello'')) name e \<and>
     string_bytes ''/tmp/script-logs/hello.wasm.log'' = script_log_path name e)"
  using script_paths_confined[of "Some (string_bytes ''hello'')" SCRIPT_SERVICE_MAX_PATH_LEN demo_script_fs
      "string_bytes ''/lfs/scripts/hello/hello.wasm''" 64 "string_bytes ''/tmp/script-logs/hello.wasm.log''"]
  by (simp only: demo_resolve) blast

section \<open>Arguments\<close>

text \<open>How a C program reads its arguments: the table of addresses at the address it was given, and from each
  the bytes before a NUL. The script's memory is known where the block is.\<close>

definition guest_string :: "u32 \<Rightarrow> bytes \<Rightarrow> u32 \<Rightarrow> bytes" where
  "guest_string offset block addr = cstr (drop (unat (addr - offset)) block)"

definition guest_argv :: "u32 \<Rightarrow> bytes \<Rightarrow> nat \<Rightarrow> bytes list" where
  "guest_argv offset block argc = map (\<lambda>k. guest_string offset block (rd_u32 block (4 * k))) [0..<argc]"

lemma length_argv_offsets [simp]: "length (argv_offsets next as) = length as"
  by (induction as arbitrary: "next") auto

lemma argv_offsets_nth:
  "k < length as \<Longrightarrow> argv_offsets next as ! k = next + of_nat (length (argv_strings (take k as)))"
proof (induction as arbitrary: "next" k)
  case (Cons a as)
  then show ?case by (cases k) (simp_all add: argv_strings_def algebra_simps)
qed simp

lemma length_table: "length (concat (map u32_bytes ws)) = 4 * length ws"
  by (induction ws) simp_all

lemma rd_u32_table:
  "k < length ws \<Longrightarrow> rd_u32 (concat (map u32_bytes ws) @ rest) (4 * k) = ws ! k"
proof (induction ws arbitrary: k)
  case (Cons w ws)
  show ?case
  proof (cases k)
    case 0
    then show ?thesis using rd_u32_append[of "[]" 0 w] by simp
  next
    case (Suc j)
    then have "drop (4 * k) (concat (map u32_bytes (w # ws)) @ rest) = drop (4 * j) (concat (map u32_bytes ws) @ rest)"
      by simp
    then show ?thesis using Cons Suc by (simp add: rd_u32_def)
  qed
qed simp

lemma length_block: "length (script_prepare_builtin_argv offset argv) = argv_block_size argv"
  by (simp add: script_prepare_builtin_argv_def argv_block_size_def length_table del: concat_map_singleton)

lemma argv_strings_at:
  assumes "k < length as" and "0 \<notin> set (as ! k)"
  shows "cstr (drop (length (argv_strings (take k as))) (argv_strings as)) = as ! k"
proof -
  have "argv_strings as = argv_strings (take k as) @ argv_strings (drop k as)"
    unfolding argv_strings_def by (metis append_take_drop_id concat_append map_append)
  moreover have "argv_strings (drop k as) = as ! k @ 0 # argv_strings (drop (Suc k) as)"
    using assms(1) by (simp add: argv_strings_def Cons_nth_drop_Suc [symmetric])
  moreover have "cstr (as ! k @ 0 # rest) = as ! k" for rest
    using assms(2) unfolding cstr_def by (subst takeWhile_append2) auto
  ultimately show ?thesis by simp
qed

lemma guest_reads_argv:
  assumes fits: "argv_block_size argv < 2 ^ 32" and strings: "list_all (\<lambda>a. 0 \<notin> set a) argv"
  shows "guest_argv offset (script_prepare_builtin_argv offset argv) (length argv) = argv"
    and "rd_u32 (script_prepare_builtin_argv offset argv) (4 * length argv) = 0"
proof -
  let ?block = "script_prepare_builtin_argv offset argv"
  let ?table = "concat (map u32_bytes (argv_offsets (offset + of_nat (4 * (length argv + 1))) argv))"
  have block: "?block = ?table @ u32_bytes 0 @ argv_strings argv" by (simp add: script_prepare_builtin_argv_def)
  have table: "length ?table = 4 * length argv" by (simp add: length_table)
  show "rd_u32 ?block (4 * length argv) = 0" unfolding block by (rule rd_u32_append) (rule table)
  have "guest_string offset ?block (rd_u32 ?block (4 * k)) = argv ! k" if k: "k < length argv" for k
  proof -
    define at where "at = 4 * (length argv + 1) + length (argv_strings (take k argv))"
    have "rd_u32 ?block (4 * k) = argv_offsets (offset + of_nat (4 * (length argv + 1))) argv ! k"
      unfolding block using k by (intro rd_u32_table) simp
    then have "rd_u32 ?block (4 * k) - offset = of_nat at"
      using argv_offsets_nth[OF k] by (simp add: at_def)
    moreover have "length (argv_strings (take k argv)) \<le> length (argv_strings argv)"
      unfolding argv_strings_def by (metis append_take_drop_id concat_append length_append le_add1 map_append)
    then have "at < 2 ^ 32" using fits unfolding argv_block_size_def at_def by linarith
    ultimately have "unat (rd_u32 ?block (4 * k) - offset) = at" by (simp add: unat_of_nat)
    moreover have "drop at ?block = drop (length (argv_strings (take k argv))) (argv_strings argv)"
      unfolding block at_def using table by simp
    ultimately show ?thesis
      using argv_strings_at[OF k] strings k by (simp add: guest_string_def list_all_length)
  qed
  then show "guest_argv offset ?block (length argv) = argv"
    by (intro nth_equalityI) (simp_all add: guest_argv_def)
qed

lemma check_args_ok:
  "script_check_args i n as = Inr n' \<Longrightarrow>
   list_all (\<lambda>a. length (case a of None \<Rightarrow> [] | Some str \<Rightarrow> str) < SCRIPT_SERVICE_MAX_ARG_LEN) as \<and>
   n' = n + length (argv_strings (map (\<lambda>a. case a of None \<Rightarrow> [] | Some str \<Rightarrow> str) as))"
proof (induction as arbitrary: i n)
  case (Cons a as)
  let ?l = "length (case a of None \<Rightarrow> [] | Some str \<Rightarrow> str)"
  have lt: "?l < SCRIPT_SERVICE_MAX_ARG_LEN" and chk: "script_check_args (Suc i) (n + ?l + 1) as = Inr n'"
    using Cons.prems by (auto simp: Let_def split: if_splits)
  then show ?case using Cons.IH[OF chk] lt by (simp add: argv_strings_def)
qed (simp add: argv_strings_def)

lemma strings_bounded:
  "list_all (\<lambda>a. length a < m) as \<Longrightarrow> length (argv_strings as) \<le> length as * m"
  by (induction as) (auto simp: argv_strings_def)

lemma duplicate_argv_ok:
  assumes "script_duplicate_argv malloc_ok path argc argv r = (Some copy, r')"
  shows "copy = (if path = [] then string_bytes ''script'' else path) #
      map (\<lambda>a. case a of None \<Rightarrow> [] | Some str \<Rightarrow> str) (case argv of None \<Rightarrow> [] | Some as \<Rightarrow> take (nat argc) as)"
    and "length copy \<le> SCRIPT_SERVICE_MAX_ARGC + 1" and "list_all (\<lambda>a. length a < SCRIPT_SERVICE_MAX_ARG_LEN) copy" and "r' = r"
  using assms
  by (auto simp: script_duplicate_argv_def Let_def SCRIPT_SERVICE_MAX_ARGC_def list_all_iff dest!: check_args_ok
      split: if_splits sum.splits option.splits)

text \<open>C40: The arguments a run is started with reach the script: when they are accepted, a script that reads
  its table of arguments as C does finds the path of the script and then every argument, unchanged and in
  order, and after them a zero address, wherever in its memory the block is.
\<close>

theorem script_args_reach_script:
  assumes "script_duplicate_argv malloc_ok path argc (Some args) r = (Some copy, r')"
    and "0 \<notin> set path" and "list_all (\<lambda>a. \<forall>str. a = Some str \<longrightarrow> 0 \<notin> set str) args"
  shows "guest_argv offset (script_prepare_builtin_argv offset copy) (length copy) =
      (if path = [] then string_bytes ''script'' else path) # map (\<lambda>a. case a of None \<Rightarrow> [] | Some str \<Rightarrow> str) (take (nat argc) args)
    \<and> rd_u32 (script_prepare_builtin_argv offset copy) (4 * length copy) = 0"
proof -
  note copy = duplicate_argv_ok[OF assms(1)]
  have "length (argv_strings copy) \<le> length copy * SCRIPT_SERVICE_MAX_ARG_LEN"
    using strings_bounded copy(3) by blast
  also have "\<dots> \<le> 33 * 256"
    using copy(2) by (simp add: SCRIPT_SERVICE_MAX_ARGC_def SCRIPT_SERVICE_MAX_ARG_LEN_def)
  finally have "argv_block_size copy < 2 ^ 32"
    using copy(2) by (simp add: argv_block_size_def SCRIPT_SERVICE_MAX_ARGC_def)
  moreover have "list_all (\<lambda>a. 0 \<notin> set a) copy"
    using assms(2,3) copy(1) by (auto simp: list_all_iff string_bytes_def dest!: in_set_takeD split: option.splits)
  ultimately show ?thesis using guest_reads_argv[of copy offset] copy(1) by simp
qed

definition demo_args :: "bytes option list" where "demo_args = [Some [0x61], None]"
definition demo_program :: bytes where "demo_program = string_bytes ''/lfs/scripts/hello/hello.wasm''"

lemma demo_args_ok:
  "script_duplicate_argv True demo_program 2 (Some demo_args) script_init_result
     = (Some [demo_program, [0x61], []], script_init_result)"
  "0 \<notin> set demo_program" "demo_program \<noteq> []" "take (nat 2) demo_args = demo_args"
  by code_simp+

theorem script_args_reach_script_witness:
  "guest_argv 1024 (script_prepare_builtin_argv 1024 [demo_program, [0x61], []]) (length [demo_program, [0x61], []])
     = [demo_program, [0x61], []]"
  using script_args_reach_script[OF demo_args_ok(1,2), of 1024] by (simp add: demo_args_ok(3,4)) (simp add: demo_args_def)

section \<open>The log\<close>

text \<open>A log that was trimmed with success, from a file that reads back what it has, is at most 32 KiB, the
  end of what it was, and begins at the start of a line unless its last 32 KiB have no end of one.\<close>

lemma script_log_trimmed:
  assumes "script_trim_log_fd env log = (ESP_OK, log')" and "te_read env = Some"
  obtains k where "log' = drop k log" "length log' \<le> SCRIPT_SERVICE_LOG_MAX_SIZE"
    "k = 0 \<or> log ! (k - 1) = NEWLINE \<or> NEWLINE \<notin> set (drop (length log - SCRIPT_SERVICE_LOG_MAX_SIZE) log)"
proof (cases "length log \<le> SCRIPT_SERVICE_LOG_MAX_SIZE")
  case True
  then have "log' = drop 0 log" using assms(1) by (auto simp: script_trim_log_fd_def split: if_splits)
  with True show ?thesis using that[of 0] by simp
next
  case False
  define off where "off = length log - SCRIPT_SERVICE_LOG_MAX_SIZE"
  define keep where "keep = trim_keep off (drop off log)"
  have off: "0 < off" "off \<le> length log" "length log - off = SCRIPT_SERVICE_LOG_MAX_SIZE"
    using False by (simp_all add: off_def)
  have buf: "take SCRIPT_SERVICE_LOG_MAX_SIZE (drop off log) = drop off log" using off by simp
  have log': "log' = drop keep (drop off log)"
    using assms False buf
    by (auto simp: script_trim_log_fd_def Let_def off_def[symmetric] keep_def wr_bytes_def split: if_splits)
  have "keep = 0 \<and> NEWLINE \<notin> set (drop off log) \<or> 0 < keep \<and> drop off log ! (keep - 1) = NEWLINE \<and> keep \<le> length (drop off log)"
  proof (cases "NEWLINE \<in> set (drop off log)")
    case True
    then have "length (takeWhile (\<lambda>c. c \<noteq> NEWLINE) (drop off log)) < length (drop off log)"
      using length_takeWhile_le[of "\<lambda>c. c \<noteq> NEWLINE" "drop off log"] takeWhile_eq_take[of "\<lambda>c. c \<noteq> NEWLINE" "drop off log"]
        takeWhile_eq_all_conv[of "\<lambda>c. c \<noteq> NEWLINE" "drop off log"] by (auto simp: le_less)
    then show ?thesis
      using True off(1) nth_length_takeWhile[of "\<lambda>c. c \<noteq> NEWLINE" "drop off log"] by (auto simp: keep_def trim_keep_def)
  qed (simp add: keep_def trim_keep_def)
  then have "off + keep = 0 \<or> log ! (off + keep - 1) = NEWLINE \<or> NEWLINE \<notin> set (drop off log)"
    using off nth_drop[of off log "keep - 1"] by (cases "keep = 0") auto
  then show ?thesis using that[of "off + keep"] log' off by (simp add: off_def add.commute)
qed

end
