(* ===== verification/Script_Invariant.thy ===== *)
theory Script_Invariant
  imports Script_Props Player_Props Wifi_Invariant
begin

text \<open>
  The invariant of the script service over all its operations, the steps of its worker and of the scripts,
  and the steps of the services a script can reach; what is reported of a run; and the one order of steps
  in which the worker takes the context of the next run for the one it has finished.
\<close>

section \<open>The invariant\<close>

text \<open>What the service's flags are about: who has the context, and where the worker is.\<close>

definition flags_of :: "script_state \<Rightarrow> _" where
  "flags_of s = ((sc_status s, sc_state_mutex s, sc_worker_request_sem s, sc_active_run_context s, sc_log_capture_context s),
     (sc_pending_context s, sc_worker_thread_started s, sc_next_run_id s, sc_run_context_in_use s, sc_worker s,
      sc_callers_waiting s, cx_detach_on_finish (sc_run_context s), cx_completion_sem (sc_run_context s) = None))"

definition script_flags_ok :: "script_state \<Rightarrow> bool" where
  "script_flags_ok s \<longleftrightarrow>
     (sc_worker s = Worker_None \<longleftrightarrow> \<not> sc_worker_thread_started s) \<and>
     (sc_status s = SCRIPT_SERVICE_STATUS_BUSY \<longleftrightarrow> sc_active_run_context s) \<and>
     (sc_status s = SCRIPT_SERVICE_STATUS_READY \<or> sc_status s = SCRIPT_SERVICE_STATUS_BUSY \<longrightarrow>
        sc_worker_thread_started s \<and> sc_state_mutex s) \<and>
     (sc_active_run_context s \<longleftrightarrow> sc_pending_context s \<or> script_runs s) \<and>
     (script_runs s \<longrightarrow> \<not> sc_pending_context s) \<and>
     sc_pending_context s = sc_worker_request_sem s \<and> sc_log_capture_context s = script_runs s \<and>
     sc_next_run_id s \<noteq> 0 \<and> sc_callers_waiting s \<le> 1 \<and>
     (sc_callers_waiting s = 1 \<longrightarrow> sc_run_context_in_use s \<and> \<not> cx_detach_on_finish (sc_run_context s) \<and>
        cx_completion_sem (sc_run_context s) \<noteq> None)"

lemma flags_ok_cong: "flags_of s' = flags_of s \<Longrightarrow> script_flags_ok s' = script_flags_ok s"
  by (simp add: flags_of_def script_flags_ok_def script_runs_def)

text \<open>A result fits what holds it, and its path is one of a script; a log is one of a script.\<close>

definition result_ok :: "script_service_run_result \<Rightarrow> bool" where
  "result_ok r \<longleftrightarrow> length (rr_message r) < SCRIPT_SERVICE_MAX_MESSAGE_LEN \<and>
     length (rr_output r) < SCRIPT_SERVICE_MAX_OUTPUT_LEN \<and>
     (rr_resolved_path r = [] \<or> (\<exists>name. \<exists>e \<in> script_extensions. script_name_ok name \<and>
        rr_resolved_path r = script_path name e))"

definition is_log :: "bytes \<Rightarrow> bool" where
  "is_log p \<longleftrightarrow> (\<exists>name. \<exists>e \<in> script_extensions. script_name_ok name \<and> p = script_log_path name e)"

definition context_ok :: "script_run_context \<Rightarrow> bool" where
  "context_ok c \<longleftrightarrow> result_ok (cx_result c) \<and> (\<forall>p. cx_log_fd c = Some p \<longrightarrow> is_log p)"

text \<open>The files are as they were but for the two directories and the logs; the services are consistent.\<close>

definition files_kept :: "script_fs \<Rightarrow> script_fs \<Rightarrow> bool" where
  "files_kept fs0 fs \<longleftrightarrow>
     (\<forall>p. \<not> is_log p \<and> p \<noteq> SCRIPT_LFS_ROOT_PATH \<and> p \<noteq> SCRIPT_LOG_ROOT_PATH \<longrightarrow> fs p = fs0 p)"

definition host_ok :: "string \<Rightarrow> script_host \<Rightarrow> bool" where
  "host_ok mp h \<longleftrightarrow> pl_inv mp (ho_player h) \<and> wf_inv (ho_wifi h) \<and> hid_inv (ho_hid h)"

definition rest_ok :: "script_fs \<Rightarrow> string \<Rightarrow> script_state \<Rightarrow> bool" where
  "rest_ok fs0 mp s \<longleftrightarrow> context_ok (sc_run_context s) \<and>
     (\<forall>r err t. sc_last_result s = Some (r, err, t) \<longrightarrow> result_ok r) \<and> files_kept fs0 (sc_fs s) \<and> host_ok mp (sc_host s)"

definition script_inv :: "script_fs \<Rightarrow> string \<Rightarrow> script_state \<Rightarrow> bool" where
  "script_inv fs0 mp s \<longleftrightarrow> script_flags_ok s \<and> rest_ok fs0 mp s"

text \<open>Steps that leave the flags alone and keep the rest.\<close>

definition script_quiet :: "script_state \<Rightarrow> script_state \<Rightarrow> bool" where
  "script_quiet s s' \<longleftrightarrow> flags_of s' = flags_of s \<and> (\<forall>fs0 mp. rest_ok fs0 mp s \<longrightarrow> rest_ok fs0 mp s')"

lemma script_quiet_refl [simp]: "script_quiet s s" by (simp add: script_quiet_def)

lemma script_quiet_trans: "script_quiet s t \<Longrightarrow> script_quiet t u \<Longrightarrow> script_quiet s u"
  by (auto simp: script_quiet_def)

lemma script_quiet_inv: "script_quiet s s' \<Longrightarrow> script_inv fs0 mp s \<Longrightarrow> script_inv fs0 mp s'"
  unfolding script_quiet_def script_inv_def using flags_ok_cong by metis

lemma quiet_context:
  assumes "\<And>c. context_ok c \<Longrightarrow> context_ok (f c)" and "\<And>c. cx_detach_on_finish (f c) = cx_detach_on_finish c"
    and "\<And>c. cx_completion_sem (f c) = cx_completion_sem c"
  shows "script_quiet s (on_context f s)"
  unfolding script_quiet_def
proof (intro conjI allI impI)
  show "flags_of (on_context f s) = flags_of s" using assms(2,3) by (simp add: flags_of_def on_context_def)
  show "rest_ok fs0 mp (on_context f s)" if "rest_ok fs0 mp s" for fs0 mp
    using that assms(1) by (simp add: rest_ok_def on_context_def)
qed

lemma quiet_result: "(\<And>r. result_ok r \<Longrightarrow> result_ok (f r)) \<Longrightarrow> script_quiet s (on_result f s)"
  unfolding on_result_def by (rule quiet_context) (simp_all add: context_ok_def)

lemma result_message [intro]: "result_ok r \<Longrightarrow> result_ok (script_set_result_message msg r)"
  by (auto simp: result_ok_def script_set_result_message_def SCRIPT_SERVICE_MAX_MESSAGE_LEN_def)

lemma result_init [simp]: "result_ok script_init_result"
  by (simp add: result_ok_def script_init_result_def SCRIPT_SERVICE_MAX_MESSAGE_LEN_def SCRIPT_SERVICE_MAX_OUTPUT_LEN_def)

lemma result_output [intro]: "result_ok r \<Longrightarrow> result_ok (script_append_output data r)"
  by (auto simp: result_ok_def script_append_output_def script_append_result_output_def Let_def SCRIPT_SERVICE_MAX_OUTPUT_LEN_def)

lemma result_numbers [simp]:
  "result_ok (r\<lparr>rr_run_id := n\<rparr>) = result_ok r" "result_ok (r\<lparr>rr_exit_code := n\<rparr>) = result_ok r"
  "result_ok (r\<lparr>rr_script_size_bytes := n\<rparr>) = result_ok r"
  by (simp_all add: result_ok_def)

lemma quiet_message: "script_quiet s (script_message msg s)"
  unfolding script_message_def by (rule quiet_result) blast

lemma quiet_directory:
  "p = SCRIPT_LFS_ROOT_PATH \<or> p = SCRIPT_LOG_ROOT_PATH \<Longrightarrow> script_quiet s (s\<lparr>sc_fs := script_ensure_directory p ok (sc_fs s)\<rparr>)"
  by (auto simp: script_quiet_def flags_of_def rest_ok_def files_kept_def script_ensure_directory_def)

lemma files_log: "is_log p \<Longrightarrow> files_kept fs0 fs \<Longrightarrow> files_kept fs0 (fs(p := v))"
  by (auto simp: files_kept_def)

section \<open>Preparing a run keeps it\<close>

lemma log_path_is_log:
  assumes "context_ok c" and "script_build_log_path_from_resolved_path (Some (rr_resolved_path (cx_result c))) n = Inr q"
  shows "is_log q"
proof -
  have "rr_resolved_path (cx_result c) \<noteq> []"
    using assms(2) by (auto simp: script_build_log_path_from_resolved_path_def)
  then obtain name e where ne: "script_name_ok name" "e \<in> script_extensions" "rr_resolved_path (cx_result c) = script_path name e"
    using assms(1) by (auto simp: context_ok_def result_ok_def)
  then have "q = script_log_path name e"
    using assms(2) file_name_of_path[OF ne(1,2), of n] by (auto simp: fits_buffer_def split: option.splits if_splits)
  then show ?thesis using ne by (auto simp: is_log_def)
qed

lemma quiet_open_log:
  assumes "script_build_log_path_from_resolved_path (Some (rr_resolved_path (cx_result (sc_run_context s)))) n = Inr q"
  shows "script_quiet s (on_context (\<lambda>c. c\<lparr>cx_log_fd := Some q\<rparr>)
    ((on_context (\<lambda>c. c\<lparr>cx_log_path := q\<rparr>) s)\<lparr>sc_fs := (sc_fs (on_context (\<lambda>c. c\<lparr>cx_log_path := q\<rparr>) s))(q \<mapsto> v)\<rparr>))"
  using log_path_is_log[OF _ assms]
  by (auto simp: script_quiet_def flags_of_def rest_ok_def on_context_def context_ok_def intro: files_log)

lemma quiet_log_path: "script_quiet s (on_context (\<lambda>c. c\<lparr>cx_log_path := q\<rparr>) s)"
  by (rule quiet_context) (simp_all add: context_ok_def)

lemma quiet_prepare_log: "script_quiet s (snd (script_prepare_log_file env s))"
proof -
  define s1 where "s1 = s\<lparr>sc_fs := script_ensure_directory SCRIPT_LOG_ROOT_PATH (sp_mkdir env) (sc_fs s)\<rparr>"
  have q1: "script_quiet s s1" unfolding s1_def by (rule quiet_directory) simp
  have "script_quiet s1 (snd (script_prepare_log_file env s))"
  proof (cases "script_build_log_path_from_resolved_path (Some (rr_resolved_path (cx_result (sc_run_context s1)))) SCRIPT_SERVICE_MAX_PATH_LEN")
    case (Inl err)
    then show ?thesis using quiet_message by (simp add: script_prepare_log_file_def Let_def s1_def[symmetric])
  next
    case (Inr q)
    then show ?thesis
      using quiet_open_log[OF Inr] script_quiet_trans[OF quiet_log_path quiet_message]
      by (simp add: script_prepare_log_file_def Let_def s1_def[symmetric])
  qed
  with q1 show ?thesis by (rule script_quiet_trans)
qed

lemma duplicate_result: "script_duplicate_argv ok path argc argv r = (copy, r') \<Longrightarrow> result_ok r \<Longrightarrow> result_ok r'"
  by (auto simp: script_duplicate_argv_def Let_def split: if_splits sum.splits)

lemma load_result: "script_load_file env path fs r = (b, r') \<Longrightarrow> result_ok r \<Longrightarrow> result_ok r'"
  by (auto simp: script_load_file_def Let_def split: if_splits option.splits fs_node.splits)

lemma quiet_set_result:
  assumes "result_ok (cx_result (sc_run_context s)) \<Longrightarrow> result_ok r"
  shows "script_quiet s (on_result (\<lambda>_. r) s)"
    and "script_quiet s (on_context (\<lambda>c. c\<lparr>cx_argv := a, cx_result := r\<rparr>) s)"
    and "script_quiet s (on_context (\<lambda>c. c\<lparr>cx_script_buffer := b, cx_result := r\<rparr>) s)"
  using assms by (simp_all add: script_quiet_def flags_of_def rest_ok_def on_context_def on_result_def context_ok_def)

lemma quiet_resolved:
  assumes "script_service_resolve_path path n fs = Inr p"
  shows "script_quiet s (on_result (\<lambda>r. r\<lparr>rr_resolved_path := p\<rparr>) s)"
  by (rule quiet_result) (use resolve_path_cases[OF assms] in \<open>auto simp: result_ok_def script_called_def\<close>)

lemma quiet_fill: "script_quiet s (snd (script_fill_context env path argc argv s))"
proof -
  define s1 where "s1 = on_context (\<lambda>c. c\<lparr>cx_argv := None, cx_log_fd := None, cx_err := ESP_OK, cx_result := script_init_result,
                 cx_requested_path := take (SCRIPT_SERVICE_MAX_PATH_LEN - 1) path\<rparr>) s"
  have q1: "script_quiet s s1" unfolding s1_def by (rule quiet_context) (simp_all add: context_ok_def)
  have "script_quiet s1 (snd (script_fill_context env path argc argv s))"
  proof (cases "script_service_resolve_path (Some path) SCRIPT_SERVICE_MAX_PATH_LEN (sc_fs s1)")
    case (Inl err)
    then show ?thesis unfolding script_fill_context_def Let_def s1_def[symmetric] using quiet_message by simp
  next
    case (Inr resolved)
    define s2 where "s2 = on_result (\<lambda>r. r\<lparr>rr_resolved_path := resolved\<rparr>) s1"
    obtain e3 s3 where l: "script_prepare_log_file env s2 = (e3, s3)" by force
    have q3: "script_quiet s1 s3"
      using script_quiet_trans[OF quiet_resolved[OF Inr, of s1] quiet_prepare_log[of _ env]] l by (simp add: s2_def)
    obtain a r where d: "script_duplicate_argv (sp_argv_malloc env) resolved argc argv (cx_result (sc_run_context s3)) = (a, r)" by force
    define s4 where "s4 = on_context (\<lambda>c. c\<lparr>cx_argv := a, cx_result := r\<rparr>) s3"
    obtain b r2 where f: "script_load_file (sp_load env) resolved (sc_fs s4) (cx_result (sc_run_context s4)) = (b, r2)" by force
    have q4: "script_quiet s3 s4" and qr: "script_quiet s3 (on_result (\<lambda>_. r) s3)"
      unfolding s4_def using quiet_set_result[OF duplicate_result[OF d]] by blast+
    have qb: "script_quiet s4 (on_result (\<lambda>_. r2) s4)"
      "script_quiet s4 (on_context (\<lambda>c. c\<lparr>cx_script_buffer := b, cx_result := r2\<rparr>) s4)"
      using quiet_set_result[OF load_result[OF f]] by blast+
    have "script_quiet s3 (snd (script_fill_context env path argc argv s))"
      unfolding script_fill_context_def Let_def s1_def[symmetric]
      using Inr l d f qb[THEN script_quiet_trans[OF q4]] q3 script_quiet_trans[OF qr quiet_message] unfolding s2_def s4_def
      by (cases a; cases b) simp_all
    with q3 show ?thesis by (rule script_quiet_trans)
  qed
  with q1 show ?thesis by (rule script_quiet_trans)
qed

section \<open>Running a script keeps it\<close>

lemma quiet_append_log: "script_quiet s (snd (script_append_log_data written data s))"
  by (auto simp: script_append_log_data_def Let_def script_quiet_def flags_of_def rest_ok_def context_ok_def
      intro: files_log split: option.split)

lemma quiet_log: "script_quiet s (snd (log_wrapper written message s))"
proof (cases message)
  case (Some msg)
  define s1 where "s1 = on_result (\<lambda>r. script_append_output [NEWLINE] (script_append_output msg
    (script_append_output (string_bytes ''[wasm] '') r))) s"
  have q1: "script_quiet s s1" unfolding s1_def by (rule quiet_result) blast
  obtain e2 s2 where p: "script_append_log_data written (string_bytes ''[wasm] '') s1 = (e2, s2)" by force
  have q2: "script_quiet s s2" using script_quiet_trans[OF q1 quiet_append_log[of s1]] p by (metis snd_conv)
  have "script_quiet s (if msg = [] then s2 else snd (script_append_log_data written msg s2))"
    using q2 script_quiet_trans[OF q2 quiet_append_log] by simp
  from script_quiet_trans[OF this quiet_append_log] show ?thesis
    using Some q1 q2 p unfolding log_wrapper_def by (simp add: Let_def s1_def[symmetric])
qed (simp add: log_wrapper_def)

lemma quiet_print: "script_quiet s (snd (wamr_host_vprintf_hook written formatted r s))"
proof -
  obtain e t where a: "script_append_log_data written (take (SCRIPT_SERVICE_MAX_PRINTF_CAPTURE_LEN - 1) formatted) s = (e, t)" by force
  then have "script_quiet s t" using quiet_append_log by (metis snd_conv)
  then show ?thesis unfolding wamr_host_vprintf_hook_def a Let_def by simp
qed

lemma quiet_buffer: "script_quiet s (on_context (\<lambda>c. c\<lparr>cx_script_buffer := b\<rparr>) s)"
  by (rule quiet_context) (simp_all add: context_ok_def)

lemma quiet_execute: "script_quiet s (snd (script_execute_module rt s))"
proof -
  define r where "r = (case cx_script_buffer (sc_run_context s) of
            Some b \<Rightarrow> (Some b, s)
          | None \<Rightarrow> (case script_load_file (rt_load_env rt) (rr_resolved_path (cx_result (sc_run_context s))) (sc_fs s)
                          (cx_result (sc_run_context s)) of
                       (b, r) \<Rightarrow> (b, on_context (\<lambda>c. c\<lparr>cx_script_buffer := b, cx_result := r\<rparr>) s)))"
  obtain buffer s1 where bs: "r = (buffer, s1)" by force
  have q1: "script_quiet s s1"
  proof (cases "cx_script_buffer (sc_run_context s)")
    case None
    obtain b r1 where f: "script_load_file (rt_load_env rt) (rr_resolved_path (cx_result (sc_run_context s))) (sc_fs s)
                          (cx_result (sc_run_context s)) = (b, r1)" by force
    show ?thesis using bs None f quiet_set_result(3)[OF load_result[OF f], of s b] by (auto simp: r_def)
  qed (use bs in \<open>simp add: r_def\<close>)
  have "script_quiet s1 (on_context (\<lambda>c. c\<lparr>cx_script_buffer := None\<rparr>) (script_message msg s1))" for msg
    using script_quiet_trans[OF quiet_message quiet_buffer] .
  then have "script_quiet s1 (snd (script_execute_module rt s))"
    unfolding script_execute_module_def r_def[symmetric] bs Let_def prod.case
    by (simp split: option.split sum.split prod.split)
  with q1 show ?thesis by (rule script_quiet_trans)
qed

lemma quiet_trim: "script_quiet s (script_trim_log env s)"
  by (auto simp: script_trim_log_def Let_def script_quiet_def flags_of_def rest_ok_def context_ok_def
      intro: files_log split: option.split)

section \<open>The operations keep it\<close>

lemma release_inv:
  assumes "script_inv fs0 mp s" and "sc_callers_waiting s = 0"
  shows "script_inv fs0 mp (script_release_context s)"
  using assms
  by (auto simp: script_inv_def script_flags_ok_def rest_ok_def script_runs_def script_release_context_def Let_def
      on_context_def context_ok_def script_reset_context_storage_def)

lemma script_init_inv:
  assumes "script_inv fs0 mp s" shows "script_inv fs0 mp (snd (script_service_init env s))"
proof (cases "sc_status s = SCRIPT_SERVICE_STATUS_UNINITIALIZED")
  case True
  let ?d = "script_ensure_directory script_service_get_root_path (si_mkdir env) (sc_fs s)"
  have "rest_ok fs0 mp (s\<lparr>sc_fs := ?d\<rparr>)"
    using quiet_directory[of script_service_get_root_path s "si_mkdir env"] assms
    by (auto simp: script_service_get_root_path_def script_quiet_def script_inv_def)
  then show ?thesis using assms True
    by (auto simp: script_service_init_def Let_def script_inv_def script_flags_ok_def script_runs_def rest_ok_def
        split: script_worker.splits)
qed (use assms in \<open>cases "sc_status s"; simp add: script_service_init_def\<close>)

lemma init_ready:
  "script_service_init env s = (ESP_OK, s') \<Longrightarrow>
   sc_status s' = SCRIPT_SERVICE_STATUS_READY \<or> sc_status s' = SCRIPT_SERVICE_STATUS_BUSY"
  by (auto simp: script_service_init_def Let_def split: if_splits)

text \<open>A run that is prepared has the context to itself.\<close>

definition has_context :: "script_state \<Rightarrow> bool" where
  "has_context s \<longleftrightarrow> sc_run_context_in_use s \<and> sc_status s = SCRIPT_SERVICE_STATUS_READY \<and>
     \<not> sc_pending_context s \<and> sc_callers_waiting s = 0 \<and> cx_completion_sem (sc_run_context s) \<noteq> None"

lemma has_context_cong: "flags_of s' = flags_of s \<Longrightarrow> has_context s' = has_context s"
  by (simp add: flags_of_def has_context_def)

lemma acquire_inv:
  assumes "script_inv fs0 mp s" and "sc_status s = SCRIPT_SERVICE_STATUS_READY \<or> sc_status s = SCRIPT_SERVICE_STATUS_BUSY"
    and "script_acquire_context r s = (e, r', s')"
  shows "script_inv fs0 mp s'" and "e = ESP_OK \<Longrightarrow> has_context s'" and "e \<noteq> ESP_OK \<Longrightarrow> s' = s"
  using assms
  by (auto simp: script_acquire_context_def script_inv_def script_flags_ok_def script_runs_def rest_ok_def has_context_def
      context_ok_def script_reset_context_storage_def split: if_splits)

lemma prepare_inv:
  assumes inv: "script_inv fs0 mp s" and p: "script_prepare_context env path argc argv s = (e, r, s')"
  shows "script_inv fs0 mp s'" and "e = ESP_OK \<Longrightarrow> has_context s'"
proof -
  obtain e1 s1 where i: "script_service_init (sp_init env) s = (e1, s1)" by force
  have inv1: "script_inv fs0 mp s1" using script_init_inv[OF inv, of "sp_init env"] i by simp
  have "script_inv fs0 mp s' \<and> (e = ESP_OK \<longrightarrow> has_context s')"
  proof (cases "e1 = ESP_OK \<and> path \<noteq> None \<and> path \<noteq> Some []")
    case True
    obtain e2 r2 s2 where a: "script_acquire_context script_init_result s1 = (e2, r2, s2)" by (metis prod_cases3)
    have ready: "sc_status s1 = SCRIPT_SERVICE_STATUS_READY \<or> sc_status s1 = SCRIPT_SERVICE_STATUS_BUSY"
      using init_ready i True by blast
    note acquired = acquire_inv[OF inv1 ready a]
    obtain e3 s3 where f: "script_fill_context env (the path) argc argv s2 = (e3, s3)" by force
    have q: "script_quiet s2 s3" using quiet_fill f by (metis snd_conv)
    have inv3: "script_inv fs0 mp s3" using script_quiet_inv[OF q acquired(1)] .
    have has3: "has_context s3" if "e2 = ESP_OK"
      using acquired(2)[OF that] has_context_cong[of s3 s2] q by (simp add: script_quiet_def)
    then have released: "script_inv fs0 mp (script_release_context s3)" if "e2 = ESP_OK"
      using release_inv[OF inv3] that by (simp add: has_context_def)
    obtain str where str: "path = Some str" "str \<noteq> []" using True by auto
    show ?thesis
    proof (cases "e2 = ESP_OK")
      case ok: True
      then have "e = e3" "s' = (if e3 \<noteq> ESP_OK then script_release_context s3 else s3)"
        using p i a f True str by (auto simp: script_prepare_context_def)
      then show ?thesis using released[OF ok] inv3 has3[OF ok] by simp
    next
      case False
      then have "e = e2" "s' = s2" using p i a True str by (simp_all add: script_prepare_context_def)
      then show ?thesis using False acquired(1) by simp
    qed
  qed (use p i inv1 in \<open>auto simp: script_prepare_context_def split: if_splits\<close>)
  then show "script_inv fs0 mp s'" "e = ESP_OK \<Longrightarrow> has_context s'" by simp_all
qed

lemma submit_inv:
  assumes inv: "script_inv fs0 mp s" and p: "script_submit detach env now path argc argv s = (e, r, s')"
  shows "script_inv fs0 mp s'" and "e = ESP_OK \<Longrightarrow> sc_run_context_in_use s' \<and> sc_callers_waiting s' = 0 \<and>
    cx_completion_sem (sc_run_context s') \<noteq> None \<and> cx_detach_on_finish (sc_run_context s') = detach \<and> sc_pending_context s'"
proof -
  obtain e1 r1 s1 where pr: "script_prepare_context env path argc argv s = (e1, r1, s1)" by (metis prod_cases3)
  note prepared = prepare_inv[OF inv pr]
  define t where "t = on_context (\<lambda>c. c\<lparr>cx_detach_on_finish := detach\<rparr>) s1"
  have not_run: "\<not> script_runs s1 \<and> \<not> sc_active_run_context s1 \<and> sc_worker_thread_started s1 \<and> sc_state_mutex s1" if "e1 = ESP_OK"
    using prepared that by (auto simp: script_inv_def script_flags_ok_def has_context_def)
  then have queued: "script_queue_context now t = (ESP_OK, on_result (\<lambda>r. r\<lparr>rr_run_id := sc_next_run_id t\<rparr>)
           (t\<lparr>sc_next_run_id := bump_nonzero (sc_next_run_id t), sc_status := SCRIPT_SERVICE_STATUS_BUSY,
              sc_active_run_context := True, sc_pending_context := True, sc_active_run_started_us := now,
              sc_worker_request_sem := True\<rparr>))" if "e1 = ESP_OK"
    using prepared(2) that by (simp add: script_queue_context_def t_def on_context_def has_context_def Let_def)
  have "script_inv fs0 mp (snd (script_queue_context now t))" if "e1 = ESP_OK"
    using prepared not_run that unfolding queued[OF that] script_inv_def
    by (auto simp: t_def on_context_def on_result_def has_context_def script_flags_ok_def script_runs_def rest_ok_def context_ok_def)
  then show "script_inv fs0 mp s'" "e = ESP_OK \<Longrightarrow> sc_run_context_in_use s' \<and> sc_callers_waiting s' = 0 \<and>
    cx_completion_sem (sc_run_context s') \<noteq> None \<and> cx_detach_on_finish (sc_run_context s') = detach \<and> sc_pending_context s'"
    using p pr prepared queued
    by (auto simp: script_submit_def t_def[symmetric] has_context_def on_result_def on_context_def split: if_splits)
      (auto simp: t_def on_context_def)
qed

lemma run_begin_inv:
  assumes inv: "script_inv fs0 mp s" and r: "script_service_run_begin env now path argc argv s = (e, r, s')"
  shows "script_inv fs0 mp s'"
proof -
  obtain e1 r1 s1 where p: "script_submit False env now path argc argv s = (e1, r1, s1)" by (metis prod_cases3)
  note submitted = submit_inv[OF inv p]
  have "script_inv fs0 mp (s1\<lparr>sc_callers_waiting := sc_callers_waiting s1 + 1\<rparr>)" if "e1 = ESP_OK"
    using submitted(1) submitted(2)[OF that]
    by (simp add: script_inv_def script_flags_ok_def script_runs_def rest_ok_def)
  then show ?thesis using r p submitted(1) by (auto simp: script_service_run_begin_def split: if_splits)
qed

lemma run_end_inv:
  assumes "script_inv fs0 mp s" shows "script_inv fs0 mp (snd (script_service_run_end s))"
proof -
  have "sc_callers_waiting s - 1 = 0" using assms by (simp add: script_inv_def script_flags_ok_def)
  moreover have "script_inv fs0 mp (s\<lparr>sc_callers_waiting := 0\<rparr>)"
    using assms by (cases "sc_worker s") (auto simp: script_inv_def script_flags_ok_def script_runs_def rest_ok_def)
  ultimately show ?thesis using release_inv[of fs0 mp "s\<lparr>sc_callers_waiting := 0\<rparr>"] assms
    by (simp add: script_service_run_end_def)
qed

text \<open>What the worker has to find when a run ends, whether the script ran or not.\<close>

definition finishing :: "script_state \<Rightarrow> bool" where
  "finishing s \<longleftrightarrow> sc_worker_thread_started s \<and> sc_state_mutex s \<and> \<not> sc_pending_context s \<and>
     \<not> sc_worker_request_sem s \<and> sc_next_run_id s \<noteq> 0 \<and> sc_callers_waiting s \<le> 1 \<and>
     (sc_callers_waiting s = 1 \<longrightarrow> sc_run_context_in_use s \<and> \<not> cx_detach_on_finish (sc_run_context s) \<and>
        cx_completion_sem (sc_run_context s) \<noteq> None)"

lemma finishing_cong: "flags_of s' = flags_of s \<Longrightarrow> finishing s' = finishing s"
  by (simp add: flags_of_def finishing_def)

lemma quiet_finishing: "script_quiet s s' \<Longrightarrow> finishing s \<Longrightarrow> rest_ok fs0 mp s \<Longrightarrow> finishing s' \<and> rest_ok fs0 mp s'"
  using finishing_cong[of s' s] by (simp add: script_quiet_def)

lemma finish_inv:
  assumes "finishing s" and "rest_ok fs0 mp s"
  shows "script_inv fs0 mp (script_worker_finish trim now err s)"
proof -
  define s1 where "s1 = (on_context (\<lambda>c. c\<lparr>cx_err := err\<rparr>) s)\<lparr>sc_log_capture_context := False\<rparr>"
  define s2 where "s2 = script_trim_log trim s1"
  define s3 where "s3 = (script_capture_last_result_locked now s2)
     \<lparr>sc_active_run_context := False, sc_status := SCRIPT_SERVICE_STATUS_READY, sc_worker := Worker_Releasing\<rparr>"
  have s1: "finishing s1" "rest_ok fs0 mp s1" "\<not> sc_log_capture_context s1"
    using assms by (simp_all add: s1_def finishing_def rest_ok_def on_context_def context_ok_def)
  have q: "script_quiet s1 s2" unfolding s2_def by (rule quiet_trim)
  have s2: "finishing s2" "rest_ok fs0 mp s2" "\<not> sc_log_capture_context s2"
    using quiet_finishing[OF q s1(1,2)] q s1(3) by (auto simp: script_quiet_def flags_of_def)
  have s3: "script_inv fs0 mp s3"
    using s2 by (auto simp: s3_def script_capture_last_result_locked_def finishing_def script_inv_def script_flags_ok_def
        script_runs_def rest_ok_def context_ok_def)
  have given: "script_inv fs0 mp (on_context (\<lambda>c. c\<lparr>cx_completion_sem := Some True\<rparr>) s3)"
    using s3 by (auto simp: script_inv_def script_flags_ok_def script_runs_def rest_ok_def context_ok_def on_context_def)
  have stopped: "script_inv fs0 mp (s3\<lparr>sc_asserted := True\<rparr>)"
    using s3 by (auto simp: script_inv_def script_flags_ok_def script_runs_def rest_ok_def)
  show ?thesis
    unfolding script_worker_finish_def Let_def s1_def[symmetric] s2_def[symmetric] s3_def[symmetric]
    using given stopped by (simp split: option.split)
qed

lemma take_inv:
  assumes inv: "script_inv fs0 mp s" shows "script_inv fs0 mp (script_worker_take rt trim now s)"
proof (cases "sc_worker s = Worker_Waiting \<and> sc_worker_request_sem s")
  case True
  then have pending: "sc_pending_context s" using inv by (simp add: script_inv_def script_flags_ok_def)
  define s1 where "s1 = s\<lparr>sc_worker_request_sem := False, sc_pending_context := False\<rparr>"
  have s1: "finishing s1" "rest_ok fs0 mp s1" using inv pending
    by (auto simp: s1_def finishing_def script_inv_def script_flags_ok_def rest_ok_def)
  have failed: "script_inv fs0 mp (script_worker_finish trim now ESP_FAIL (script_message msg s1))" for msg
    using quiet_finishing[OF quiet_message s1] finish_inv by blast
  define s2 where "s2 = s1\<lparr>sc_log_capture_context := True\<rparr>"
  have s2: "finishing s2" "rest_ok fs0 mp s2" using s1 by (simp_all add: s2_def finishing_def rest_ok_def)
  obtain r s3 where x: "script_execute_module rt s2 = (r, s3)" by force
  have q: "script_quiet s2 s3" using quiet_execute x by (metis snd_conv)
  note s3 = quiet_finishing[OF q s2]
  have refused: "script_inv fs0 mp (script_worker_finish trim now err s3)" for err using finish_inv s3 by blast
  have "sc_status s3 = SCRIPT_SERVICE_STATUS_BUSY" "sc_active_run_context s3" "sc_log_capture_context s3"
    using q inv pending by (auto simp: script_quiet_def flags_of_def s2_def s1_def script_inv_def script_flags_ok_def)
  then have started: "script_inv fs0 mp (s3\<lparr>sc_worker := Worker_Running block\<rparr>)" for block
    using s3 by (auto simp: script_inv_def script_flags_ok_def script_runs_def finishing_def rest_ok_def)
  show ?thesis using True pending failed refused started x
    unfolding script_worker_take_def Let_def s1_def[symmetric] s2_def[symmetric] by (auto split: sum.split)
qed (use inv in \<open>auto simp: script_worker_take_def\<close>)

lemma guest_end_inv:
  assumes inv: "script_inv fs0 mp s" shows "script_inv fs0 mp (script_guest_end trim now ending s)"
proof (cases "script_runs s")
  case True
  then have s: "finishing s" "rest_ok fs0 mp s" using inv by (auto simp: finishing_def script_inv_def script_flags_ok_def)
  have q: "script_quiet t (on_context (\<lambda>c. c\<lparr>cx_script_buffer := None\<rparr>) (script_message msg t))" for msg t
    using script_quiet_trans[OF quiet_message quiet_buffer] .
  have ended: "script_inv fs0 mp (script_worker_finish trim now e (on_context (\<lambda>c. c\<lparr>cx_script_buffer := None\<rparr>) (script_message msg t)))"
    if "script_quiet s t" for e msg t
    using quiet_finishing[OF script_quiet_trans[OF that q] s] finish_inv by blast
  have "script_quiet s (on_result (\<lambda>r. r\<lparr>rr_exit_code := n\<rparr>) s)" for n by (rule quiet_result) simp
  then show ?thesis using True ended by (auto simp: script_guest_end_def Let_def split: guest_end.split)
qed (use inv in \<open>simp add: script_guest_end_def\<close>)

lemma worker_release_inv:
  assumes inv: "script_inv fs0 mp s" shows "script_inv fs0 mp (script_worker_release s)"
proof (cases "sc_worker s = Worker_Releasing")
  case True
  have none: "sc_callers_waiting s = 0" if "cx_detach_on_finish (sc_run_context s)"
    using inv that by (auto simp: script_inv_def script_flags_ok_def)
  have waits: "script_inv fs0 mp (t\<lparr>sc_worker := Worker_Waiting\<rparr>)" if "script_inv fs0 mp t" "sc_worker t = Worker_Releasing" for t
    using that by (auto simp: script_inv_def script_flags_ok_def script_runs_def rest_ok_def)
  have "sc_worker (script_release_context s) = Worker_Releasing"
    using True by (simp add: script_release_context_def Let_def on_context_def)
  then show ?thesis using True inv waits release_inv[OF inv none] by (simp add: script_worker_release_def)
qed (use inv in \<open>simp add: script_worker_release_def\<close>)

section \<open>The services a script reaches\<close>

lemma host_player_inv:
  assumes "host_ok mp h" and "\<And>p. pl_inv mp p \<Longrightarrow> pl_inv mp (snd (f p))"
  shows "host_ok mp (snd (host_player f h))"
  using assms by (auto simp: host_player_def host_ok_def split: prod.split) (metis snd_conv)

lemma host_hid_inv:
  assumes "host_ok mp h" and "\<And>d. hid_inv d \<Longrightarrow> hid_inv (snd (f d))"
  shows "host_ok mp (snd (host_hid f h))"
  using assms by (auto simp: host_hid_def host_ok_def split: prod.split) (metis snd_conv)

lemma control_inv: "pl_inv mp p \<Longrightarrow> pl_inv mp (snd (player_service_request_control c p))"
  using pl_step_inv[of mp p _ "PlControl c"] by simp

lemma mode_inv: "pl_inv mp p \<Longrightarrow> pl_inv mp (snd (player_service_set_playback_mode rnd m p))"
  using pl_step_inv[of mp p _ "PlMode rnd m"] by simp

lemma volume_inv: "pl_inv mp p \<Longrightarrow> pl_inv mp (player_service_set_volume_absolute v p)"
  using pl_step_inv[of mp p _ "PlVolume v"] by simp

lemma led_inv:
  "hid_inv d \<Longrightarrow> hid_inv (snd (hid_service_led_set_rgb env r g b d))" "hid_inv d \<Longrightarrow> hid_inv (snd (hid_service_led_set_brightness env p d))"
  "hid_inv d \<Longrightarrow> hid_inv (snd (hid_service_led_off env d))" "hid_inv d \<Longrightarrow> hid_inv (snd (hid_rail f d))"
  using hid_step_inv[of d "Hid_Rgb env r g b"] hid_step_inv[of d "Hid_Brightness env p"] hid_step_inv[of d "Hid_Off env"]
    hid_quiet_inv[OF hid_quiet_rail] by simp_all

lemmas control_wrapper_defs = next_track_wrapper_def previous_track_wrapper_def pause_toggle_wrapper_def
  fast_forward_wrapper_def rewind_wrapper_def volume_up_wrapper_def volume_down_wrapper_def set_playback_mode_wrapper_def

lemmas reading_wrapper_defs = get_playback_mode_wrapper_def is_paused_wrapper_def get_volume_percent_wrapper_def
  sleep_ms_wrapper_def get_track_count_wrapper_def wifi_is_connected_wrapper_def get_free_heap_wrapper_def
  get_uptime_ms_wrapper_def power_rail_is_enabled_wrapper_def power_rail_get_refcount_wrapper_def
  power_rail_get_override_wrapper_def hid_get_buttons_wrapper_def

lemma call_host_ok:
  assumes ok: "host_ok mp h" shows "host_ok mp (snd (jukeboy_call env c h))"
proof -
  note player = host_player_inv[OF ok control_inv] host_player_inv[OF ok mode_inv]
  note hid = host_hid_inv[OF ok led_inv(1)] host_hid_inv[OF ok led_inv(2)] host_hid_inv[OF ok led_inv(3)] host_hid_inv[OF ok led_inv(4)]
  have volume: "host_ok mp (h\<lparr>ho_player := player_service_set_volume_absolute v (ho_player h)\<rparr>)" for v
    using ok volume_inv by (simp add: host_ok_def)
  show ?thesis
    by (cases c) (simp_all add: jukeboy_call_def control_wrapper_defs player ok set_volume_percent_wrapper_def Let_def volume
        reading_wrapper_defs power_rail_set_override_wrapper_def hid_led_set_rgb_wrapper_def
        hid_led_set_brightness_wrapper_def hid_led_off_wrapper_def hid split: option.split prod.split)
qed

section \<open>Every step\<close>

text \<open>The operations of the service, the worker's steps and those of a running script, and the steps of
  the services the script reaches, which go on meanwhile.\<close>

datatype script_op =
    Op_Script_Init script_init_env
  | Op_Script_Start script_prepare_env int "bytes option" int "bytes option list option"
  | Op_Script_Run script_prepare_env int "bytes option" int "bytes option list option"
  | Op_Script_Run_Returns
  | Op_Script_Take script_rt script_trim_env int
  | Op_Script_Call host_env host_call
  | Op_Script_Log "nat \<Rightarrow> nat" "bytes option"
  | Op_Script_Print "nat \<Rightarrow> nat" bytes int
  | Op_Script_End script_trim_env int guest_end
  | Op_Script_Release
  | Op_Script_Player pl_op
  | Op_Script_Wifi wf_op
  | Op_Script_Hid hid_op

definition on_host :: "(script_host \<Rightarrow> script_host) \<Rightarrow> script_state \<Rightarrow> script_state" where
  "on_host f s = s\<lparr>sc_host := f (sc_host s)\<rparr>"

fun script_step :: "(bytes \<Rightarrow> u32) \<Rightarrow> string \<Rightarrow> script_state \<Rightarrow> script_op \<Rightarrow> script_state" where
  "script_step crc mp s (Op_Script_Init env) = snd (script_service_init env s)"
| "script_step crc mp s (Op_Script_Start env now path argc argv) = snd (snd (script_service_start env now path argc argv s))"
| "script_step crc mp s (Op_Script_Run env now path argc argv) = snd (snd (script_service_run_begin env now path argc argv s))"
| "script_step crc mp s Op_Script_Run_Returns = snd (script_service_run_end s)"
| "script_step crc mp s (Op_Script_Take rt trim now) = script_worker_take rt trim now s"
| "script_step crc mp s (Op_Script_Call env c) = script_guest_call env c s"
| "script_step crc mp s (Op_Script_Log written message) = script_guest_log written message s"
| "script_step crc mp s (Op_Script_Print written formatted r) = script_guest_print written formatted r s"
| "script_step crc mp s (Op_Script_End trim now ending) = script_guest_end trim now ending s"
| "script_step crc mp s Op_Script_Release = script_worker_release s"
| "script_step crc mp s (Op_Script_Player a) = on_host (\<lambda>h. h\<lparr>ho_player := pl_step crc mp (ho_player h) a\<rparr>) s"
| "script_step crc mp s (Op_Script_Wifi a) = on_host (\<lambda>h. h\<lparr>ho_wifi := wf_step (ho_wifi h) a\<rparr>) s"
| "script_step crc mp s (Op_Script_Hid a) = on_host (\<lambda>h. h\<lparr>ho_hid := hid_step (ho_hid h) a\<rparr>) s"

lemma on_host_inv:
  assumes "script_inv fs0 mp s" and "host_ok mp (sc_host s) \<Longrightarrow> host_ok mp (f (sc_host s))"
  shows "script_inv fs0 mp (on_host f s)"
  using assms flags_ok_cong[of "on_host f s" s] by (simp add: on_host_def script_inv_def flags_of_def rest_ok_def)

lemma script_step_inv:
  assumes inv: "script_inv fs0 mp s" shows "script_inv fs0 mp (script_step crc mp s op)"
proof (cases op)
  case (Op_Script_Start env now path argc argv)
  obtain e r s' where "script_submit True env now path argc argv s = (e, r, s')" by (metis prod_cases3)
  then show ?thesis using submit_inv(1)[OF inv] Op_Script_Start by (simp add: script_service_start_def)
next
  case (Op_Script_Run env now path argc argv)
  obtain e r s' where "script_service_run_begin env now path argc argv s = (e, r, s')" by (metis prod_cases3)
  then show ?thesis using run_begin_inv[OF inv] Op_Script_Run by simp
next
  case (Op_Script_Call env c)
  have "script_guest_call env c s = (if script_runs s then on_host (\<lambda>h. snd (jukeboy_call env c h)) s else s)"
    by (simp add: script_guest_call_def on_host_def)
  then show ?thesis using Op_Script_Call on_host_inv[OF inv] inv call_host_ok by simp
next
  case (Op_Script_Log written message)
  then show ?thesis using script_quiet_inv[OF quiet_log inv] inv by (simp add: script_guest_log_def)
next
  case (Op_Script_Print written formatted r)
  then show ?thesis using script_quiet_inv[OF quiet_print inv] inv by (simp add: script_guest_print_def)
next
  case (Op_Script_Player a)
  show ?thesis unfolding Op_Script_Player script_step.simps
    by (rule on_host_inv[OF inv]) (simp add: host_ok_def pl_step_inv)
next
  case (Op_Script_Wifi a)
  show ?thesis unfolding Op_Script_Wifi script_step.simps
    by (rule on_host_inv[OF inv]) (simp add: host_ok_def wf_step_inv)
next
  case (Op_Script_Hid a)
  show ?thesis unfolding Op_Script_Hid script_step.simps
    by (rule on_host_inv[OF inv]) (simp add: host_ok_def hid_step_inv)
qed (use inv in \<open>simp_all add: script_init_inv run_end_inv take_inv guest_end_inv worker_release_inv\<close>)

interpretation scripts: event_machine "script_step crc mp" "script_inv fs0 mp" for crc mp fs0
  by unfold_locales (rule script_step_inv)

text \<open>The services as they boot, with what they find stored.\<close>

definition host_boot ::
    "u32 \<Rightarrow> player_service_resume_state \<Rightarrow> (string \<Rightarrow> bytes option) \<Rightarrow> u8 option \<Rightarrow> u8 option \<Rightarrow> script_host" where
  "host_boot magic saved strings ls auto =
     \<lparr>ho_player = pl_boot cart_boot magic saved, ho_wifi = wf_boot strings ls auto, ho_hid = hid_boot pm_boot\<rparr>"

lemma script_boot_inv: "script_inv fs mp (script_boot fs (host_boot magic saved strings ls auto))"
proof -
  have "hid_inv (hid_boot pm_boot)" by (rule hid_boot_inv)
  moreover have "pl_inv mp (pl_boot cart_boot magic saved)" using pl_boot_inv cart_boot_inv by auto
  ultimately have "host_ok mp (host_boot magic saved strings ls auto)" by (simp add: host_ok_def host_boot_def boot_inv)
  then show ?thesis
    by (simp add: script_inv_def script_flags_ok_def script_runs_def rest_ok_def script_boot_def context_ok_def
        files_kept_def script_reset_context_storage_def)
qed

text \<open>C37: However the service is used, whatever its scripts do and however they end, and whatever happens to the services they
  reach meanwhile: the service is busy exactly while one run is queued or its script runs, never both; a run
  is queued exactly while the worker has been woken for it, and output is captured exactly while a script
  runs; at most one caller waits, and its context is not given to another; messages and output fit their
  fields; no file changes but the logs of scripts; and the player, Wi-Fi and HID services keep their
  invariants.
\<close>

theorem script_always_consistent:
  "script_inv fs mp (foldl (script_step crc mp) (script_boot fs (host_boot magic saved strings ls auto)) ops)"
  by (rule scripts.run_inv) (rule script_boot_inv)

section \<open>What is reported of a run\<close>

text \<open>What a run is known by and who waits for it, which nothing between its start and its end changes.\<close>

definition run_view :: "script_state \<Rightarrow> _" where
  "run_view s = (rr_run_id (cx_result (sc_run_context s)), rr_resolved_path (cx_result (sc_run_context s)),
     rr_exit_code (cx_result (sc_run_context s)), cx_completion_sem (sc_run_context s), sc_callers_waiting s, script_runs s)"

lemma result_names [simp]:
  "rr_run_id (script_set_result_message msg r) = rr_run_id r" "rr_resolved_path (script_set_result_message msg r) = rr_resolved_path r"
  "rr_exit_code (script_set_result_message msg r) = rr_exit_code r"
  "rr_run_id (script_append_output data r) = rr_run_id r" "rr_resolved_path (script_append_output data r) = rr_resolved_path r"
  "rr_exit_code (script_append_output data r) = rr_exit_code r"
  by (simp_all add: script_set_result_message_def script_append_output_def script_append_result_output_def Let_def)

lemma append_log_view [simp]: "run_view (snd (script_append_log_data written data s)) = run_view s"
  by (simp add: script_append_log_data_def run_view_def script_runs_def Let_def split: option.split)

lemma log_run_view [simp]: "run_view (snd (log_wrapper written message s)) = run_view s"
proof (cases message)
  case (Some msg)
  define s1 where "s1 = on_result (\<lambda>r. script_append_output [NEWLINE] (script_append_output msg
    (script_append_output (string_bytes ''[wasm] '') r))) s"
  have s1: "run_view s1 = run_view s" by (simp add: s1_def run_view_def on_result_def on_context_def script_runs_def)
  obtain e2 s2 where p: "script_append_log_data written (string_bytes ''[wasm] '') s1 = (e2, s2)" by force
  have "run_view s2 = run_view s" using append_log_view[of written "string_bytes ''[wasm] ''" s1] p s1 by simp
  then show ?thesis using Some s1 p unfolding log_wrapper_def by (simp add: Let_def s1_def[symmetric])
qed (simp add: log_wrapper_def)

lemma print_view [simp]: "run_view (snd (wamr_host_vprintf_hook written formatted r s)) = run_view s"
proof -
  obtain e t where a: "script_append_log_data written (take (SCRIPT_SERVICE_MAX_PRINTF_CAPTURE_LEN - 1) formatted) s = (e, t)" by force
  then have "run_view t = run_view s" using append_log_view by (metis snd_conv)
  then show ?thesis unfolding wamr_host_vprintf_hook_def a Let_def by simp
qed

lemma trim_fields [simp]:
  "sc_run_context (script_trim_log env s) = sc_run_context s" "sc_callers_waiting (script_trim_log env s) = sc_callers_waiting s"
  by (simp_all add: script_trim_log_def Let_def split: option.split)

lemma load_names: "script_load_file env path fs r = (b, r') \<Longrightarrow> rr_run_id r' = rr_run_id r \<and>
    rr_resolved_path r' = rr_resolved_path r \<and> rr_exit_code r' = rr_exit_code r"
  by (auto simp: script_load_file_def Let_def split: if_splits option.splits fs_node.splits)

text \<open>A run that was queued has its script and its arguments.\<close>

lemma resolve_error: "script_service_resolve_path path n fs = Inl err \<Longrightarrow> err \<noteq> ESP_OK"
  by (auto simp: script_service_resolve_path_def script_build_resolve_base_path_def script_parse_name_def Let_def
      split: if_splits sum.splits option.splits)

lemma fill_loaded:
  assumes "script_fill_context env path argc argv s = (ESP_OK, t)"
  shows "\<exists>b a. cx_script_buffer (sc_run_context t) = Some b \<and> cx_argv (sc_run_context t) = Some a"
  using assms
  by (auto simp: script_fill_context_def Let_def on_context_def on_result_def script_message_def dest: resolve_error
      split: sum.splits prod.splits if_splits option.splits)

lemma submit_loaded:
  assumes "script_submit detach env now path argc argv s = (ESP_OK, r, t)"
  shows "\<exists>b a. cx_script_buffer (sc_run_context t) = Some b \<and> cx_argv (sc_run_context t) = Some a"
proof -
  obtain r1 s1 where p: "script_prepare_context env path argc argv s = (ESP_OK, r1, s1)"
    and t: "cx_script_buffer (sc_run_context t) = cx_script_buffer (sc_run_context s1)"
      "cx_argv (sc_run_context t) = cx_argv (sc_run_context s1)"
    using assms by (auto simp: script_submit_def script_queue_context_def Let_def on_context_def on_result_def
        split: prod.splits if_splits)
  obtain u where "script_fill_context env (the path) argc argv u = (ESP_OK, s1)"
    using p by (auto simp: script_prepare_context_def split: prod.splits if_splits)
  from fill_loaded[OF this] t show ?thesis by simp
qed

text \<open>Why a script with these arguments cannot be started, if it cannot: the first thing that fails, and what
  is to be said of it.\<close>

definition start_problem :: "script_rt \<Rightarrow> bytes \<Rightarrow> bytes list \<Rightarrow> (esp_err \<times> bytes) option" where
  "start_problem rt script argv =
     (if \<not> rt_thread_env_inited rt \<and> \<not> rt_init_thread_env rt
      then Some (ESP_FAIL, string_bytes ''failed to initialize WAMR thread environment'')
      else case (rt_load rt script, rt_instantiate rt script) of
        (Some e, _) \<Rightarrow> Some (ESP_FAIL, if e = [] then string_bytes ''wasm load failed'' else e)
      | (None, Some e) \<Rightarrow> Some (ESP_FAIL, if e = [] then string_bytes ''wasm instantiate failed'' else e)
      | (None, None) \<Rightarrow> (case script_execute_builtin_module rt script argv of Inl problem \<Rightarrow> Some problem | Inr block \<Rightarrow> None))"

lemma start_problem_error: "start_problem rt script argv = Some (err, msg) \<Longrightarrow> err \<noteq> ESP_OK"
  by (auto simp: start_problem_def script_execute_builtin_module_def Let_def split: if_splits option.splits sum.splits)

text \<open>The worker takes a run that was queued: the script runs, or the worker is at the end of the run.\<close>

definition queued_run :: "script_state \<Rightarrow> bytes \<Rightarrow> bytes list \<Rightarrow> bool" where
  "queued_run s script argv \<longleftrightarrow> sc_worker s = Worker_Waiting \<and> sc_worker_request_sem s \<and> sc_pending_context s \<and>
     cx_script_buffer (sc_run_context s) = Some script \<and> cx_argv (sc_run_context s) = Some argv"

lemma take_started:
  assumes "queued_run s script argv" and "start_problem rt script argv = None"
  shows "\<exists>block. script_worker_take rt trim now s = s\<lparr>sc_worker_request_sem := False, sc_pending_context := False,
    sc_log_capture_context := True, sc_worker := Worker_Running block\<rparr>"
proof -
  have env: "rt_thread_env_inited rt \<or> rt_init_thread_env rt"
    and load: "rt_load rt script = None" "rt_instantiate rt script = None"
    using assms(2) by (simp_all add: start_problem_def split: if_splits option.splits)
  then obtain block where "script_execute_builtin_module rt script argv = Inr block"
    using assms(2) by (auto simp: start_problem_def split: sum.splits)
  moreover define s2 where "s2 = s\<lparr>sc_worker_request_sem := False, sc_pending_context := False, sc_log_capture_context := True\<rparr>"
  moreover have "cx_script_buffer (sc_run_context s2) = Some script" "cx_argv (sc_run_context s2) = Some argv"
    using assms(1) by (simp_all add: queued_run_def s2_def)
  ultimately have "script_execute_module rt s2 = (Inr block, s2)"
    using load by (simp add: script_execute_module_def)
  then have "script_worker_take rt trim now s = s2\<lparr>sc_worker := Worker_Running block\<rparr>"
    using assms(1) env by (auto simp: queued_run_def script_worker_take_def Let_def s2_def)
  then show ?thesis by (auto simp: s2_def)
qed

lemma take_failed:
  assumes "queued_run s script argv" and "start_problem rt script argv = Some (err, msg)"
  shows "\<exists>t. script_worker_take rt trim now s = script_worker_finish trim now err t \<and>
    cx_result (sc_run_context t) = script_set_result_message msg (cx_result (sc_run_context s)) \<and>
    cx_completion_sem (sc_run_context t) = cx_completion_sem (sc_run_context s) \<and>
    sc_callers_waiting t = sc_callers_waiting s"
proof -
  define s1 where "s1 = s\<lparr>sc_worker_request_sem := False, sc_pending_context := False\<rparr>"
  define s2 where "s2 = s1\<lparr>sc_log_capture_context := True\<rparr>"
  show ?thesis
  proof (cases "\<not> rt_thread_env_inited rt \<and> \<not> rt_init_thread_env rt")
    case True
    then show ?thesis using assms
      by (intro exI[of _ "script_message msg s1"])
        (simp add: queued_run_def start_problem_def script_worker_take_def s1_def script_message_def on_result_def
          on_context_def)
  next
    case False
    define t where "t = on_context (\<lambda>c. c\<lparr>cx_script_buffer := None\<rparr>) (script_message msg s2)"
    have "cx_script_buffer (sc_run_context s2) = Some script" "cx_argv (sc_run_context s2) = Some argv"
      using assms(1) by (simp_all add: queued_run_def s2_def s1_def)
    then have "script_execute_module rt s2 = (Inl err, t)"
      using assms(2) False
      by (cases "rt_load rt script"; cases "rt_instantiate rt script"; cases "script_execute_builtin_module rt script argv")
        (auto simp: script_execute_module_def t_def start_problem_def)
    moreover have "script_worker_take rt trim now s =
        (case script_execute_module rt s2 of (Inl err, s2) \<Rightarrow> script_worker_finish trim now err s2
         | (Inr block, s2) \<Rightarrow> s2\<lparr>sc_worker := Worker_Running block\<rparr>)"
      using assms(1) False by (auto simp: queued_run_def script_worker_take_def Let_def s2_def s1_def)
    ultimately show ?thesis
      by (intro exI[of _ t]) (simp add: t_def s2_def s1_def script_message_def on_result_def on_context_def)
  qed
qed

text \<open>The end of a run of which the caller has the context.\<close>

lemma finish_reported:
  assumes "cx_completion_sem (sc_run_context t) = Some b" and "sc_callers_waiting t = 1"
  shows "let s' = script_worker_finish trim now err t; res = cx_result (sc_run_context t) in
    fst (script_service_run_end s') = Some (err, res) \<and> sc_last_result s' = Some (res, err, now) \<and>
    sc_status s' = SCRIPT_SERVICE_STATUS_READY \<and> \<not> sc_run_context_in_use (snd (script_service_run_end s'))"
  using assms
  by (simp add: Let_def script_worker_finish_def on_context_def script_capture_last_result_locked_def
      script_service_run_end_def script_release_context_def)

text \<open>What a running script does before it ends.\<close>

datatype guest_step =
    Guest_Call host_env host_call
  | Guest_Log "nat \<Rightarrow> nat" "bytes option"
  | Guest_Print "nat \<Rightarrow> nat" bytes int

fun guest_op :: "guest_step \<Rightarrow> script_op" where
  "guest_op (Guest_Call env c) = Op_Script_Call env c"
| "guest_op (Guest_Log written message) = Op_Script_Log written message"
| "guest_op (Guest_Print written formatted r) = Op_Script_Print written formatted r"

lemma guest_view: "run_view (foldl (script_step crc mp) s (map guest_op gs)) = run_view s"
proof (induction gs arbitrary: s)
  case (Cons g gs)
  have "run_view (script_step crc mp s (guest_op g)) = run_view s"
    by (cases g) (simp_all add: script_guest_call_def script_guest_log_def script_guest_print_def run_view_def[of "s\<lparr>sc_host := _\<rparr>"]
        script_runs_def[of "s\<lparr>sc_host := _\<rparr>"], simp add: run_view_def script_runs_def)
  then show ?case using Cons by simp
qed simp

definition guest_err :: "guest_end \<Rightarrow> esp_err" where
  "guest_err e = (case e of Guest_Returned v \<Rightarrow> ESP_OK | Guest_Trapped m \<Rightarrow> ESP_FAIL)"

definition guest_message :: "guest_end \<Rightarrow> bytes" where
  "guest_message e = (case e of
     Guest_Trapped m \<Rightarrow> if m = [] then string_bytes ''builtin script execution failed'' else m
   | Guest_Returned v \<Rightarrow> string_bytes (case v of None \<Rightarrow> ''completed successfully''
       | Some n \<Rightarrow> if n = 0 then ''completed successfully'' else ''completed with exit code '' @ signed_digits n))"

text \<open>What is reported of a run: to its caller, and by the service from then on.\<close>

definition reported ::
    "script_state \<Rightarrow> script_service_run_result \<Rightarrow> int \<Rightarrow> esp_err \<Rightarrow> bytes \<Rightarrow> u32 \<Rightarrow> bool" where
  "reported s queued now err msg exit_code \<longleftrightarrow>
     (\<exists>res. fst (script_service_run_end s) = Some (err, res) \<and> sc_last_result s = Some (res, err, now) \<and>
        rr_run_id res = rr_run_id queued \<and> rr_resolved_path res = rr_resolved_path queued \<and>
        rr_message res = take (SCRIPT_SERVICE_MAX_MESSAGE_LEN - 1) msg \<and> rr_exit_code res = exit_code) \<and>
     sc_status s = SCRIPT_SERVICE_STATUS_READY \<and> \<not> sc_run_context_in_use (snd (script_service_run_end s))"

lemma end_reported:
  assumes "run_view s = (rr_run_id r, rr_resolved_path r, rr_exit_code r, Some b, 1, True)"
  shows "reported (script_guest_end trim now e s) r now (guest_err e) (guest_message e)
    (case e of Guest_Returned v \<Rightarrow> (case v of None \<Rightarrow> 0 | Some c \<Rightarrow> c) | Guest_Trapped m \<Rightarrow> rr_exit_code r)"
proof -
  let ?f = "on_context (\<lambda>c. c\<lparr>cx_script_buffer := None\<rparr>)"
  define t where "t = ?f (script_message (guest_message e)
    (case e of Guest_Returned v \<Rightarrow> on_result (\<lambda>r. r\<lparr>rr_exit_code := (case v of None \<Rightarrow> 0 | Some c \<Rightarrow> c)\<rparr>) s | Guest_Trapped m \<Rightarrow> s))"
  have "script_guest_end trim now e s = script_worker_finish trim now (guest_err e) t"
    using assms by (auto simp: script_guest_end_def run_view_def Let_def t_def guest_message_def guest_err_def
        split: guest_end.split option.split)
  moreover have "cx_completion_sem (sc_run_context t) = Some b" "sc_callers_waiting t = 1"
    using assms by (simp_all add: t_def run_view_def script_message_def on_result_def on_context_def split: guest_end.split)
  note finish_reported[OF this, of trim now "guest_err e"]
  moreover have "rr_run_id (cx_result (sc_run_context t)) = rr_run_id r \<and> rr_resolved_path (cx_result (sc_run_context t)) = rr_resolved_path r \<and>
      rr_message (cx_result (sc_run_context t)) = take (SCRIPT_SERVICE_MAX_MESSAGE_LEN - 1) (guest_message e) \<and>
      rr_exit_code (cx_result (sc_run_context t)) =
        (case e of Guest_Returned v \<Rightarrow> (case v of None \<Rightarrow> 0 | Some c \<Rightarrow> c) | Guest_Trapped m \<Rightarrow> rr_exit_code r)"
    using assms by (simp add: t_def run_view_def script_message_def on_result_def on_context_def
        script_set_result_message_def split: guest_end.split)
  ultimately show ?thesis by (simp add: reported_def Let_def)
qed

lemma submit_result:
  assumes "script_submit detach env now path argc argv s = (ESP_OK, r, s')"
  shows "r = cx_result (sc_run_context s')"
  using assms by (auto simp: script_submit_def split: prod.splits if_splits)

text \<open>C38: A caller of \<^verbatim>\<open>script_service_run\<close> whose run was queued is told what became of its own run, however
  it ends, once the worker is waiting. When the script cannot be started (the thread cannot be set up, the
  runtime does not load or instantiate it, or it has no entry that can be called), the caller gets the
  error of what failed first, which is never success, with its message cut to the field. When it is
  started, whatever it calls, logs and prints, the caller gets success and the exit code when it returns,
  and \<^verbatim>\<open>ESP_FAIL\<close> and the exception of the runtime when it traps. The result has the number and the path
  the run was queued with, it is the service's last result, the service is ready, and the context is
  free for the next run.
\<close>

theorem script_run_reported:
  assumes inv: "script_inv fs mp s"
    and begun: "script_service_run_begin env now path argc argv s = (ESP_OK, r, s1)"
    and waits: "sc_worker s1 = Worker_Waiting"
  shows "case start_problem rt (the (cx_script_buffer (sc_run_context s1))) (the (cx_argv (sc_run_context s1))) of
      Some (err, msg) \<Rightarrow>
        err \<noteq> ESP_OK \<and> reported (script_worker_take rt trim0 t0 s1) r t0 err msg (rr_exit_code r)
    | None \<Rightarrow>
        reported (script_guest_end trim t e (foldl (script_step crc mp) (script_worker_take rt trim0 t0 s1) (map guest_op gs)))
          r t (guest_err e) (guest_message e)
          (case e of Guest_Returned v \<Rightarrow> (case v of None \<Rightarrow> 0 | Some c \<Rightarrow> c) | Guest_Trapped m \<Rightarrow> rr_exit_code r)"
proof -
  obtain s0 where sub: "script_submit False env now path argc argv s = (ESP_OK, r, s0)"
    and s1: "s1 = s0\<lparr>sc_callers_waiting := sc_callers_waiting s0 + 1\<rparr>"
    using begun by (auto simp: script_service_run_begin_def split: prod.splits if_splits)
  note queued = submit_inv[OF inv sub]
  obtain script args where loaded: "cx_script_buffer (sc_run_context s1) = Some script" "cx_argv (sc_run_context s1) = Some args"
    using submit_loaded[OF sub] by (auto simp: s1)
  have q: "queued_run s1 script args"
    using queued waits loaded by (auto simp: queued_run_def s1 script_inv_def script_flags_ok_def)
  obtain b where b: "cx_completion_sem (sc_run_context s1) = Some b" using queued(2) by (auto simp: s1)
  have one: "sc_callers_waiting s1 = 1" using queued(2) by (simp add: s1)
  have r: "cx_result (sc_run_context s1) = r" using submit_result[OF sub] by (simp add: s1)
  show ?thesis
  proof (cases "start_problem rt script args")
    case None
    obtain block where "script_worker_take rt trim0 t0 s1 = s1\<lparr>sc_worker_request_sem := False, sc_pending_context := False,
        sc_log_capture_context := True, sc_worker := Worker_Running block\<rparr>" using take_started[OF q None] by blast
    then have "run_view (script_worker_take rt trim0 t0 s1) = (rr_run_id r, rr_resolved_path r, rr_exit_code r, Some b, 1, True)"
      using b one r by (simp add: run_view_def script_runs_def)
    then have "run_view (foldl (script_step crc mp) (script_worker_take rt trim0 t0 s1) (map guest_op gs)) =
        (rr_run_id r, rr_resolved_path r, rr_exit_code r, Some b, 1, True)" by (simp only: guest_view)
    from end_reported[OF this] show ?thesis using None loaded by simp
  next
    case (Some problem)
    obtain err msg where p: "problem = (err, msg)" by force
    obtain u where u: "script_worker_take rt trim0 t0 s1 = script_worker_finish trim0 t0 err u"
      "cx_result (sc_run_context u) = script_set_result_message msg r" "cx_completion_sem (sc_run_context u) = Some b"
      "sc_callers_waiting u = 1"
      using take_failed[OF q Some[unfolded p], of trim0 t0] b one r by auto
    have "reported (script_worker_take rt trim0 t0 s1) r t0 err msg (rr_exit_code r)"
      using finish_reported[OF u(3,4), of trim0 t0 err] u(1,2)
      by (simp add: reported_def Let_def) (simp add: script_set_result_message_def)
    then show ?thesis using Some p loaded start_problem_error[of rt script args err msg] by simp
  qed
qed

definition demo_init :: script_init_env where
  "demo_init = \<lparr>si_mutex = True, si_request_sem = True, si_natives = True, si_socket_env = True, si_mkdir = True, si_thread = True\<rparr>"

definition demo_load :: script_load_env where
  "demo_load = \<lparr>le_open = True, le_seek_end = True, le_tell = None, le_rewind = True, le_alloc = True, le_short_read = False\<rparr>"

definition demo_prepare :: script_prepare_env where
  "demo_prepare = \<lparr>sp_init = demo_init, sp_mkdir = True, sp_open_log = True, sp_argv_malloc = True, sp_load = demo_load\<rparr>"

definition demo_rt :: script_rt where
  "demo_rt = \<lparr>rt_thread_env_inited = False, rt_init_thread_env = True, rt_load = (\<lambda>_. None), rt_instantiate = (\<lambda>_. None),
    rt_lookup = (\<lambda>b name. Some ([], [WASM_I32])), rt_module_malloc = (\<lambda>_. 1024),
    rt_exec_env = True, rt_yield_task = True, rt_load_env = demo_load\<rparr>"

definition demo_trim :: script_trim_env where
  "demo_trim = \<lparr>te_seek_end = True, te_seek_tail = True, te_read = Some, te_seek_start = True, te_write = id,
     te_truncate = True, te_seek_back = True\<rparr>"

definition demo_root_fs :: script_fs where
  "demo_root_fs = script_ensure_directory script_service_get_root_path True demo_script_fs"

definition demo_log :: bytes where "demo_log = string_bytes ''/tmp/script-logs/hello.wasm.log''"

lemma demo_pieces:
  "script_service_resolve_path (Some (string_bytes ''hello'')) SCRIPT_SERVICE_MAX_PATH_LEN demo_root_fs = Inr demo_program"
  "script_build_log_path_from_resolved_path (Some demo_program) SCRIPT_SERVICE_MAX_PATH_LEN = Inr demo_log"
  "fst (script_duplicate_argv True demo_program 0 None script_init_result) = Some [demo_program]"
  "string_bytes ''hello'' \<noteq> []"
  by code_simp+

lemma demo_argv: "script_duplicate_argv True demo_program 0 None r = (Some [demo_program], r)"
  using demo_pieces(3) by (simp add: script_duplicate_argv_def Let_def split: sum.splits if_splits)

lemma demo_load_file:
  "fs demo_program = Some (Fs_File [0, 1, 2]) \<Longrightarrow>
   script_load_file demo_load demo_program fs r = (Some [0, 1, 2], r\<lparr>rr_script_size_bytes := 3\<rparr>)"
  by (simp add: script_load_file_def demo_load_def UINT32_MAX_def SCRIPT_SERVICE_MAX_SCRIPT_SIZE_def)

lemma demo_begin:
  obtains r s1 where
    "script_service_run_begin demo_prepare 5 (Some (string_bytes ''hello'')) 0 None (script_boot demo_script_fs h) = (ESP_OK, r, s1)"
    "rr_run_id r = 1" "rr_resolved_path r = demo_program" "sc_worker s1 = Worker_Waiting"
    "cx_script_buffer (sc_run_context s1) = Some [0, 1, 2]"
proof -
  obtain e r s1 where b: "script_service_run_begin demo_prepare 5 (Some (string_bytes ''hello'')) 0 None (script_boot demo_script_fs h) = (e, r, s1)"
    by (metis prod_cases3)
  have program: "script_ensure_directory SCRIPT_LOG_ROOT_PATH True demo_root_fs demo_program = Some (Fs_File [0, 1, 2])"
    "demo_program \<noteq> demo_log"
    by code_simp+
  have "e = ESP_OK \<and> rr_run_id r = 1 \<and> rr_resolved_path r = demo_program \<and> sc_worker s1 = Worker_Waiting \<and>
    cx_script_buffer (sc_run_context s1) = Some [0, 1, 2]"
    using b
    by (auto simp: script_service_run_begin_def script_submit_def script_prepare_context_def script_service_init_def
      script_boot_def demo_prepare_def demo_init_def Let_def script_acquire_context_def script_fill_context_def on_context_def
      script_prepare_log_file_def on_result_def script_queue_context_def demo_pieces demo_argv demo_load_file
      script_reset_context_storage_def program simp flip: demo_root_fs_def)
  then show ?thesis using that b by simp
qed

text \<open>A runtime that does not load the script.\<close>

definition demo_bad_rt :: script_rt where
  "demo_bad_rt = demo_rt\<lparr>rt_load := (\<lambda>_. Some (string_bytes ''magic header not detected''))\<rparr>"

lemma demo_problems:
  "start_problem demo_rt script argv = None"
  "start_problem demo_bad_rt script argv = Some (ESP_FAIL, string_bytes ''magic header not detected'')"
  "string_bytes ''magic header not detected'' \<noteq> []"
  by (simp_all add: start_problem_def demo_rt_def demo_bad_rt_def script_execute_builtin_module_def script_entry_def
      string_bytes_def)

theorem script_run_reported_witness:
  "\<exists>r s1. script_service_run_begin demo_prepare 5 (Some (string_bytes ''hello'')) 0 None
      (script_boot demo_script_fs (host_boot 0 resume_state_zero (\<lambda>_. None) None None)) = (ESP_OK, r, s1) \<and>
    rr_run_id r = 1 \<and> rr_resolved_path r = demo_program \<and>
    reported (script_guest_end demo_trim 9 (Guest_Returned (Some 7)) (script_worker_take demo_rt demo_trim 6 s1))
      r 9 ESP_OK (guest_message (Guest_Returned (Some 7))) 7 \<and>
    reported (script_worker_take demo_bad_rt demo_trim 6 s1) r 6 ESP_FAIL (string_bytes ''magic header not detected'')
      (rr_exit_code r)"
proof -
  obtain r s1 where b: "script_service_run_begin demo_prepare 5 (Some (string_bytes ''hello'')) 0 None
      (script_boot demo_script_fs (host_boot 0 resume_state_zero (\<lambda>_. None) None None)) = (ESP_OK, r, s1)"
    and r: "rr_run_id r = 1" "rr_resolved_path r = demo_program" and w: "sc_worker s1 = Worker_Waiting"
    by (rule demo_begin)
  have inv: "script_inv demo_script_fs '''' (script_boot demo_script_fs (host_boot 0 resume_state_zero (\<lambda>_. None) None None))"
    by (rule script_boot_inv)
  note run = script_run_reported[OF inv b w]
  show ?thesis
    using b r run[where rt = demo_rt and gs = "[]" and trim = demo_trim and t = 9 and e = "Guest_Returned (Some 7)" and ?trim0.0 = demo_trim and ?t0.0 = 6]
      run[where rt = demo_bad_rt and ?trim0.0 = demo_trim and ?t0.0 = 6] by (auto simp: demo_problems guest_err_def)
qed

section \<open>The context of the next run\<close>

lemma submit_worker:
  assumes inv: "script_inv fs mp s" and there: "sc_worker s \<noteq> Worker_None"
    and sub: "script_submit detach env now path argc argv s = (ESP_OK, r, s')"
  shows "sc_worker s' = sc_worker s"
proof -
  obtain r1 s1 where p: "script_prepare_context env path argc argv s = (ESP_OK, r1, s1)"
    and q: "sc_worker s' = sc_worker s1"
    using sub by (auto simp: script_submit_def script_queue_context_def Let_def on_context_def on_result_def
        split: prod.splits if_splits)
  obtain e1 t where i: "script_service_init (sp_init env) s = (e1, t)" by force
  have "sc_worker_thread_started s" using inv there by (auto simp: script_inv_def script_flags_ok_def)
  then have t: "sc_worker t = sc_worker s" using i by (auto simp: script_service_init_def Let_def split: if_splits)
  obtain e2 r2 u where a: "script_acquire_context script_init_result t = (e2, r2, u)" by (metis prod_cases3)
  then have u: "sc_worker u = sc_worker t" by (auto simp: script_acquire_context_def split: if_splits)
  have "sc_worker (snd (script_fill_context env (the path) argc argv u)) = sc_worker u"
    using quiet_fill[of u env "the path" argc argv] by (auto simp: script_quiet_def flags_of_def)
  then show ?thesis using p q i a t u by (auto simp: script_prepare_context_def split: if_splits prod.splits)
qed

text \<open>The worker gives the semaphore of a run before it looks whether the run was detached. When the caller
  takes it, gives the context back and a detached run is queued before the worker looks, it is this run's
  context that the worker gives back: the run stays queued with a context that is not in use and has neither
  path nor semaphore, and taking it stops the firmware.\<close>

lemma next_context_released:
  assumes inv: "script_inv fs mp s" and releasing: "sc_worker s = Worker_Releasing"
    and sub: "script_submit True env now path argc argv s = (ESP_OK, r, s1)"
  shows "sc_pending_context (script_worker_release s1)" and "\<not> sc_run_context_in_use (script_worker_release s1)"
    and "sc_fs s1 [] = None \<Longrightarrow> sc_asserted (script_worker_take rt trim t (script_worker_release s1))"
proof -
  have w: "sc_worker s1 = Worker_Releasing" using submit_worker[OF inv _ sub] releasing by simp
  note q = submit_inv[OF inv sub]
  have wake: "sc_worker_request_sem s1" using q by (simp add: script_inv_def script_flags_ok_def)
  have rel: "script_worker_release s1 = (script_release_context s1)\<lparr>sc_worker := Worker_Waiting\<rparr>"
    using w q(2) by (simp add: script_worker_release_def)
  show "sc_pending_context (script_worker_release s1)" "\<not> sc_run_context_in_use (script_worker_release s1)"
    using q(2) by (simp_all add: rel script_release_context_def on_context_def Let_def)
  have stopped: "sc_asserted (script_worker_finish trim t err u)" if "cx_completion_sem (sc_run_context u) = None" for err u
    using that by (simp add: script_worker_finish_def Let_def on_context_def script_capture_last_result_locked_def)
  show "sc_asserted (script_worker_take rt trim t (script_worker_release s1))" if "sc_fs s1 [] = None"
    using that wake q(2) unfolding rel script_release_context_def Let_def
    by (auto simp: script_worker_take_def Let_def on_context_def script_message_def on_result_def script_execute_module_def
        script_load_file_def script_reset_context_storage_def script_init_result_def stopped)
qed

end
