(* ===== verification/Spec2Isabelle.thy ===== *)
theory Spec2Isabelle
  imports Play_History Power_Mgmt Player_Pipeline Companion_Invariant Companion_Wifi Lastfm_Account
    Bluetooth_Props Output_Props Hid_Props Ramdisk Companion_Bluetooth Script_Invariant
begin

text \<open>
  Verification development for the firmware of the Jukeboy audio player, \<^verbatim>\<open>src/main\<close> of the
  repository.

  \<^bold>\<open>The program.\<close> The player plays albums from SD cards, called cartridges. An album is a metadata
  file \<^verbatim>\<open>album.jbm\<close> and one \<^verbatim>\<open>.jba\<close> file per track, with Opus packets in one-second chunks. The
  firmware is a set of services, each with statics, a queue, a task or a pass of the main loop, and
  an interface the others call. The cartridge service mounts the card, validates the metadata and
  reads files for the player. The player service turns commands and the end of tracks into the
  next track, and drives a reader and a decoder task that fill the stream the outputs are fed
  from. The play history service counts the plays of every track of every album it has seen in a
  file, and the Last.fm service reports them over the network that the Wi-Fi service joins. The power management service owns the power rails and the orderly restart, before which
  the services save their state. The Bluetooth service pairs with a loudspeaker and carries the
  serial link, the output switch feeds the samples either to it or to the wired output, and the HID
  service watches the buttons and drives an LED. The companion service lets a phone that was paired
  by buttons control all of them over the serial link.

  \<^bold>\<open>How it is modelled.\<close> The statics of a service are a record, a function of the code is a function
  of the same name from the state to the state and its result, and an error code is a value of
  \<^typ>\<open>esp_err\<close>. Words have the width of the code. A byte buffer is a list of bytes, a slot of a table
  that can be unused is an option, and a ring or a FreeRTOS queue is a list with its capacity.
  What the code gets from outside (drivers, the file system, NVS, clocks, random numbers, the CRC
  routine, the Opus decoder, the keyed digest) is an argument, often a record of functions (the
  \<open>_env\<close> types); what a property needs of it is a named hypothesis (\<open>dev_lawful\<close>, \<open>dev_reliable\<close>,
  \<open>nvs_works\<close>, \<open>hmac_lawful\<close>, \<open>frame_ok\<close>), and its witness is a concrete instance. Driver calls
  whose order matters are recorded as a trace.

  A handler runs to its end in one step, as it does under the lock or in the task of its service;
  between two steps the other tasks take theirs, in any order. Each service is an instance of the
  locale \<open>event_machine\<close>, whose step function covers the operations of the service and of the
  tasks that reach it, and its invariant holds after every sequence of them.

  \<^bold>\<open>The theories.\<close>

  \<^theory_text>\<open>Prelude\<close>: words in byte buffers, C strings, slot tables, counters that skip zero, and the
  interfaces \<open>event_machine\<close> (an invariant of a step function), \<open>fixed_codec\<close> (a packed struct) and
  \<open>bounded_queue\<close>. Each of them is interpreted on the model's own operations by the services.

  \<^theory_text>\<open>Formats\<close>: the structs of \<^verbatim>\<open>jukeboy_formats.h\<close> with their layout, as codecs, and the interface
  \<open>metadata_provider\<close> of a service that publishes album metadata.

  \<^theory_text>\<open>Cartridge\<close>: \<^verbatim>\<open>cartridge_service.c\<close>. Mounting, validation of the metadata, the reader task with
  two buffers and the generation that marks stale requests. Published metadata is always
  validated metadata, lookups stay in range, and a read delivers the bytes of the file or nothing.

  \<^theory_text>\<open>Play_History_Cache\<close> and \<^theory_text>\<open>Play_History\<close>: \<^verbatim>\<open>play_history_service.c\<close>. The tables of albums and
  tracks, the synchronisation with a cartridge, pruning, counting, the file and its
  rewrite-and-verify commit, the inbox and the handshake between the task that asks for a commit
  and the one that makes it. The table with its slots refines a map from album and track to its
  entry (\<open>track_entry\<close>), the inbox refines a bounded first-in first-out queue, and a commit that
  reports success has written a file that loads back.

  \<^theory_text>\<open>Power_Mgmt\<close>: \<^verbatim>\<open>power_mgmt_service.c\<close>. Reference counts and overrides of the rails, the order in
  which the DAC is muted, released and switched off, each step only after the one before it has
  succeeded, the shutdown callbacks in stable priority
  order, and the restart that follows them at its deadline.

  \<^theory_text>\<open>Player_Track\<close>, \<^theory_text>\<open>Player_State\<close>, \<^theory_text>\<open>Player\<close>, \<^theory_text>\<open>Player_Props\<close>, \<^theory_text>\<open>Player_Pipeline\<close>:
  \<^verbatim>\<open>player_service.c\<close>. The header and the lookup window of a track, volume, the playlist and its
  shuffled order, the saved position in RTC memory and NVS, the command handlers, the sample
  providers, the reader and the decoder. The player's state holds the state of the cartridge
  service it calls. Whatever the generator draws, shuffled tracks are
  played in rounds of the whole playlist, shown over the ends of tracks and presses of next as the task
  serves them; an interrupted track cannot start the next one; the saved position is the one that is
  resumed, from NVS after a power loss and from RTC memory after a restart, and only for the album it
  belongs to; and the frames the decoder gets are those of the file.

  \<^theory_text>\<open>Companion_Codec\<close>, \<^theory_text>\<open>Companion\<close>, \<^theory_text>\<open>Companion_Requests\<close>, \<^theory_text>\<open>Companion_Link\<close>:
  \<^verbatim>\<open>companion_api_service.c\<close>. The entries of a payload and their writer, frames, the records of the
  trusted clients in NVS, pairing, challenge and proof, one handler per operation code, the receive
  buffer, the message queue and the task. The companion's state holds the states of the player
  (with the cartridge) and of the play history; the other
  services are seen through the values they report and the calls made to them (\<open>co_call\<close>), which
  are logged. \<^theory_text>\<open>Companion_Props\<close>: requests survive any cutting of the byte stream, and a client that
  is not authenticated reaches nothing. \<^theory_text>\<open>Companion_Trust\<close>: the records refine a map from client names
  to secrets, a client becomes authenticated only by a proof or by the buttons, and a paired
  client comes back. \<^theory_text>\<open>Companion_Invariant\<close>: the invariant of the whole device, over all operations
  of the companion service with those of the player, the cartridge and the history between them.

  \<^theory_text>\<open>Wifi\<close>, \<^theory_text>\<open>Wifi_Invariant\<close>, \<^theory_text>\<open>Wifi_Props\<close>: \<^verbatim>\<open>wifi_service.c\<close>. The networks saved in three slots of NVS,
  the queue of commands and driver events, the state of the link with the disconnections it
  expects, the sequence that tries the configured slots, the timer that starts it again, scan results
  and the test of the connectivity. A sequence tries every configured slot once, the preferred one
  first; a link the user ended stays ended while nothing asks for another and
  its end is reported once (a timer message already queued still starts a sequence, which is shown
  too); and what is asked of the driver is what was saved.
  \<^theory_text>\<open>Companion_Wifi\<close> puts the companion service over this model and shows how their slot numbers meet.

  \<^theory_text>\<open>Lastfm\<close>: \<^verbatim>\<open>lastfm_service.c\<close>. The account in NVS, the command queue, the queue of scrobbles and the
  queue set over both, the ring of request times, the track that is playing with its two timers, the
  requests and the buffer for their answers, the task and the start-up. It reads the models of the
  play history and of the Wi-Fi service; what other tasks do while the task sleeps or waits for an
  answer is a list of operations (\<open>lf_quick\<close>). \<^theory_text>\<open>Lastfm_Frame\<close>: the locale \<open>lf_observer\<close> of facts that most
  operations keep, interpreted for the rate of requests and for the order of scrobbles.
  \<^theory_text>\<open>Lastfm_Props\<close>: the invariant, and that no more than three requests are made in ten seconds.
  \<^theory_text>\<open>Lastfm_Scrobbles\<close>: the order of scrobbles, the bounded queue and the overflow of the queue set.
  \<^theory_text>\<open>Lastfm_Account\<close>: the body of an answer, the address, and the account over a restart.

  \<^theory_text>\<open>Bluetooth\<close>, \<^theory_text>\<open>Bluetooth_Props\<close>: \<^verbatim>\<open>bluetooth_service.c\<close>. What the stack reports (as a value, one per
  callback event), the message queue and its handlers, the devices found, the confirmation of a
  pairing, remote control in both roles, the serial link with its handle table, start-up and the
  shutdown with its two waits. Pairing picks the strongest device, the confirmation refines a cell that
  holds the last request, the waits of the shutdown are bounded
  whatever it returns, and when it succeeds it leaves the state of the boot. The four small
  functions of the stack that the service computes with (class of device, inquiry data, bit masks) are
  modelled too. \<^theory_text>\<open>Companion_Bluetooth\<close> puts the companion's frames over the serial link.

  \<^theory_text>\<open>Output\<close>, \<^theory_text>\<open>Output_Props\<close>: \<^verbatim>\<open>i2s_service.c\<close> and \<^verbatim>\<open>audio_output_switch.c\<close>, over the Bluetooth service's
  state. A sink that is not chosen plays nothing, whatever fails and in whatever order: Bluetooth gets silence,
  and the I2S task, which may still hold a command to start, writes no block.

  \<^theory_text>\<open>Hid\<close>, \<^theory_text>\<open>Hid_Props\<close>: \<^verbatim>\<open>hid_service.c\<close> and \<^verbatim>\<open>ulp/ulp_hid.S\<close>, over the power service's state. The buttons
  are debounced; an event can be refused by the event loop and is then lost, and a listener to the
  delivered ones is right about a button exactly when an even number in a row were lost; the LED's rail
  follows the LED.

  \<^theory_text>\<open>Ramdisk\<close>: \<^verbatim>\<open>ramdisk_service.c\<close>. The disk refines a function from sector numbers to contents.

  \<^theory_text>\<open>Script\<close>, \<^theory_text>\<open>Script_Host\<close>, \<^theory_text>\<open>Script_Run\<close>: \<^verbatim>\<open>script_service.c\<close>, which runs WebAssembly scripts: names, paths,
  arguments, loading and logs; the functions a script can call, over the player, the Wi-Fi and the HID
  service; and the runs, one at a time, with the caller that waits and the worker that executes them.
  \<^theory_text>\<open>Script_Props\<close> shows that a name given resolves only to the file of that
  whole name below the root and that the arguments reach the script,
  \<^theory_text>\<open>Script_Invariant\<close> that the service and all it reaches stay consistent whatever a script does, that a
  caller is told what became of its own run, also of one that could not be
  started, and the order of steps in which the context of a queued run is lost. The WebAssembly runtime and what the script does between its calls are parameters.

  \<^bold>\<open>Bounds and termination.\<close> No model uses fuel except the random draw of
  \<open>player_service_next_index\<close>, whose loop ends only when the generator draws another index: it
  searches the finite list of draws it is given, and in a reachable state the shuffled order is
  used instead. Loops over slots, bytes, packets and chunks end by a measure. The passes of a commit
  are bounded by the code (\<open>PLAY_HISTORY_COMMIT_MAX_PASSES\<close>), and two of them are shown to be
  enough on a file system that does not fail.

  \<^bold>\<open>Abstractions.\<close> The shutdown callbacks, the listen-count callback and the event handlers the services
  post to are opaque: they are logged or drawn as results and do not change the state of the poster.
  Locks that are released around an event post or a callback are not modelled as
  separate steps. Reference counts are \<open>nat\<close>. Where a task waits until others have stopped or asks
  whether it should stop, the answers are arguments. The aborting \<^verbatim>\<open>ESP_ERROR_CHECK\<close> calls, log
  output, allocation failures of scratch buffers whose only effect is an error return, and the
  erasing of secrets from the stack are not modelled. In the companion the environment may differ
  between two requests but not within one.

  \<^bold>\<open>Not modelled.\<close> The socket imports of scripts, which hand each call to lwIP; the console, which
  parses and prints text around the interfaces above; the emulator's drivers; start-up; the vendored libraries under \<^verbatim>\<open>src/components\<close> and the host tools
  under \<^verbatim>\<open>src/tools\<close>.
\<close>

end
